(* ===== verification/Prelude.thy ===== *)
theory Prelude
  imports Main "HOL-Library.Word"
begin

text \<open>
  What every component of the development shares: the machine integers of the code, the error
  values of \<open>src/src/lib.rs\<close>, the result of a fallible operation and its \<open>?\<close> operator, and
  the standard library's \<open>HashMap\<close> as an association list with its lemmas.

  Conventions.  A \<open>u8\<close>, \<open>u32\<close>, \<open>u64\<close> (and \<open>usize\<close> where the code stores it in an atomic
  counter) is a machine word, whose \<open>+\<close> and \<open>-\<close> wrap as they do in the release profile of
  \<open>Cargo.toml\<close> (no \<open>overflow-checks\<close>).  A \<open>usize\<close> that counts or indexes the elements of an
  in-memory \<open>Vec\<close> is a \<open>nat\<close>.  A function that may return an error has the result type
  \<open>'a res\<close>; one that may panic returns an \<open>option\<close> whose \<open>None\<close> is the panic.
\<close>

named_theorems res_simps "rewriting results of fallible operations"
named_theorems vec_simps "lengths of vectors read as machine words"

subsection \<open>Machine integers\<close>

type_synonym u8 = "8 word"
type_synonym u16 = "16 word"
type_synonym u32 = "32 word"
type_synonym u64 = "64 word"

text \<open>
  \<open>xs.len() as u64\<close>.  A Rust \<open>Vec\<close> never holds more than \<open>isize::MAX\<close> bytes, so the number of
  its elements is below \<open>2 ^ 63\<close>: this is \<open>vec_ok\<close>.
\<close>

definition u64_len :: "'a list \<Rightarrow> u64" where
  "u64_len xs = of_nat (length xs)"

definition vec_ok :: "'a list \<Rightarrow> bool" where
  "vec_ok xs \<longleftrightarrow> length xs < 2 ^ 63"

lemma unat_of_nat_u64: "n < 2 ^ 64 \<Longrightarrow> unat (of_nat n :: u64) = n"
  by (simp add: unat_of_nat)

lemma unat_of_nat_u32: "n < 2 ^ 32 \<Longrightarrow> unat (of_nat n :: u32) = n"
  by (simp add: unat_of_nat)

lemma unat_u64_len [vec_simps]: "vec_ok xs \<Longrightarrow> unat (u64_len xs) = length xs"
  by (simp add: u64_len_def vec_ok_def unat_of_nat_u64)

lemma unat_u64_len_plus_one [vec_simps]: "vec_ok xs \<Longrightarrow> unat (u64_len xs + 1) = Suc (length xs)"
proof -
  assume "vec_ok xs"
  then have "Suc (length xs) < 2 ^ 64" by (simp add: vec_ok_def)
  then have "unat (of_nat (Suc (length xs)) :: u64) = Suc (length xs)"
    by (rule unat_of_nat_u64)
  then show ?thesis by (simp add: u64_len_def add.commute)
qed

lemma unat_u64_less: "unat (x :: u64) < 2 ^ 64"
  using unsigned_less [of x] by simp

lemma unat_u32_less: "unat (x :: u32) < 2 ^ 32"
  using unsigned_less [of x] by simp

lemma unat_u8_less: "unat (x :: u8) < 256"
  using unsigned_less [of x] by simp

text \<open>Incrementing a word that is not the greatest one.\<close>

lemma unat_u64_inc [vec_simps]: "(n :: u64) \<noteq> - 1 \<Longrightarrow> unat (n + 1) = Suc (unat n)"
proof -
  assume n: "n \<noteq> - 1"
  have "Suc (unat n) \<noteq> 2 ^ 64"
  proof
    assume "Suc (unat n) = 2 ^ 64"
    then have "of_nat (Suc (unat n)) = (0 :: u64)" by simp
    then have "n + 1 = 0" by (simp add: add.commute)
    then have "n = - 1" by (simp add: eq_neg_iff_add_eq_0)
    with n show False by simp
  qed
  then have "Suc (unat n) < 2 ^ 64" using unat_u64_less [of n] by simp
  then have "unat (of_nat (Suc (unat n)) :: u64) = Suc (unat n)" by (rule unat_of_nat_u64)
  then show ?thesis by (simp add: add.commute)
qed

lemma u64_not_max: "Suc (unat (n :: u64)) < 2 ^ 64 \<Longrightarrow> n \<noteq> - 1"
proof
  assume "Suc (unat n) < 2 ^ 64" and n: "n = - 1"
  then have "unat (of_nat (Suc (unat n)) :: u64) = Suc (unat n)" by (intro unat_of_nat_u64)
  moreover have "(of_nat (Suc (unat n)) :: u64) = 0" using n by simp
  ultimately show False by simp
qed

lemma u64_less_inc: "(n :: u64) \<noteq> - 1 \<Longrightarrow> n < n + 1"
  by (simp add: word_less_nat_alt unat_u64_inc)

subsection \<open>Errors and results\<close>

text \<open>
  The variants of \<open>RTDBError\<close>.  Their message texts only explain the error to a person and are
  left out; the data a variant carries besides a message is kept.
\<close>

datatype rtdb_error =
    EStorage
  | EIndex
  | EQuery
  | ECollectionNotFound string
  | EVectorNotFound u64
  | EInvalidDimension nat nat
  | EIo
  | EConsensus
  | EConfiguration
  | ESerialization
  | EAuth
  | EAuthorization
  | EConfig
  | EValidation
  | ENetwork
  | EMigration
  | EComputation
  | EInvalidInput
  | EInternal
  | EInvalidConfiguration
  | EConnection
  | EApi

type_synonym 'a res = "rtdb_error + 'a"

text \<open>The \<open>?\<close> operator: stop at the first error, pass the value on otherwise.\<close>

definition and_then :: "'e + 'a \<Rightarrow> ('a \<Rightarrow> 'e + 'b) \<Rightarrow> 'e + 'b" where
  "and_then r f = (case r of Inl e \<Rightarrow> Inl e | Inr x \<Rightarrow> f x)"

lemma and_then_simps [simp, res_simps]:
  "and_then (Inl e) f = Inl e"
  "and_then (Inr x) f = f x"
  by (simp_all add: and_then_def)

lemma and_then_Inr_iff: "and_then r f = Inr y \<longleftrightarrow> (\<exists>x. r = Inr x \<and> f x = Inr y)"
  by (cases r) auto

lemma and_then_InrE:
  assumes "and_then r f = Inr y"
  obtains x where "r = Inr x" and "f x = Inr y"
  using assms by (auto simp: and_then_Inr_iff)

lemma and_then_cong [fundef_cong]:
  "r = r' \<Longrightarrow> (\<And>x. r' = Inr x \<Longrightarrow> f x = g x) \<Longrightarrow> and_then r f = and_then r' g"
  by (cases r') auto

text \<open>\<open>opt.ok_or(e)\<close>.\<close>

definition ok_or :: "'a option \<Rightarrow> 'e \<Rightarrow> 'e + 'a" where
  "ok_or x e = (case x of None \<Rightarrow> Inl e | Some v \<Rightarrow> Inr v)"

lemma ok_or_simps [simp, res_simps]:
  "ok_or None e = Inl e"
  "ok_or (Some v) e = Inr v"
  by (simp_all add: ok_or_def)

subsection \<open>Vectors\<close>

text \<open>
  A vector of the database (\<open>Vector\<close> in \<open>src/src/lib.rs\<close>): its components, each the bit pattern
  of an \<open>f32\<close>, and its payload, whose type \<open>serde_json::Map\<close> is the parameter \<open>'p\<close>.
\<close>

record 'p vector =
  v_data :: "u32 list"
  v_payload :: "'p option"

definition vector_new :: "u32 list \<Rightarrow> 'p vector" where
  "vector_new d = \<lparr>v_data = d, v_payload = None\<rparr>"

definition vector_with_payload :: "u32 list \<Rightarrow> 'p \<Rightarrow> 'p vector" where
  "vector_with_payload d p = \<lparr>v_data = d, v_payload = Some p\<rparr>"

definition vector_dim :: "'p vector \<Rightarrow> nat" where
  "vector_dim v = length (v_data v)"

subsection \<open>The standard library's hash map\<close>

text \<open>
  A \<open>HashMap\<close> is an association list without duplicate keys; the order of the list is the
  (unspecified) order of iteration, so nothing is stated about that order.
\<close>

definition hm_get :: "('k \<times> 'v) list \<Rightarrow> 'k \<Rightarrow> 'v option" where
  "hm_get m k = map_of m k"

fun hm_insert :: "'k \<Rightarrow> 'v \<Rightarrow> ('k \<times> 'v) list \<Rightarrow> ('k \<times> 'v) list" where
  "hm_insert k v [] = [(k, v)]"
| "hm_insert k v ((k', v') # m) = (if k' = k then (k, v) # m else (k', v') # hm_insert k v m)"

definition hm_values :: "('k \<times> 'v) list \<Rightarrow> 'v list" where
  "hm_values m = map snd m"

definition hm_ok :: "('k \<times> 'v) list \<Rightarrow> bool" where
  "hm_ok m \<longleftrightarrow> distinct (map fst m)"

definition hm_remove :: "'k \<Rightarrow> ('k \<times> 'v) list \<Rightarrow> ('k \<times> 'v) list" where
  "hm_remove k m = filter (\<lambda>e. fst e \<noteq> k) m"

lemma hm_get_Nil [simp]: "hm_get [] k = None"
  by (simp add: hm_get_def)

lemma hm_get_insert [simp]: "hm_get (hm_insert k v m) k' = (if k' = k then Some v else hm_get m k')"
  by (induction k v m rule: hm_insert.induct) (auto simp: hm_get_def)

lemma hm_insert_mem [simp]: "(k, v) \<in> set (hm_insert k v m)"
  by (induction k v m rule: hm_insert.induct) auto

lemma set_hm_insert: "set (hm_insert k v m) \<subseteq> insert (k, v) (set m)"
  by (induction k v m rule: hm_insert.induct) auto

lemma set_keys_hm_insert [simp]: "fst ` set (hm_insert k v m) = insert k (fst ` set m)"
  by (induction k v m rule: hm_insert.induct) auto

lemma hm_ok_Nil [simp]: "hm_ok []"
  by (simp add: hm_ok_def)

lemma hm_ok_insert [simp]: "hm_ok m \<Longrightarrow> hm_ok (hm_insert k v m)"
  unfolding hm_ok_def
  by (induction k v m rule: hm_insert.induct) (auto simp: image_iff)

lemma hm_get_remove [simp]: "hm_get (hm_remove k m) j = (if j = k then None else hm_get m j)"
  by (induction m) (auto simp: hm_remove_def hm_get_def)

lemma hm_ok_remove [simp]: "hm_ok m \<Longrightarrow> hm_ok (hm_remove k m)"
  by (simp add: hm_ok_def hm_remove_def distinct_map_filter)

lemma set_keys_hm_remove [simp]: "fst ` set (hm_remove k m) = fst ` set m - {k}"
  by (auto simp: hm_remove_def)

lemma hm_get_mem: "hm_get m k = Some v \<Longrightarrow> (k, v) \<in> set m"
  by (simp add: hm_get_def map_of_SomeD)

lemma hm_get_iff: "hm_ok m \<Longrightarrow> hm_get m k = Some v \<longleftrightarrow> (k, v) \<in> set m"
  by (simp add: hm_get_def hm_ok_def)

lemma hm_get_None_iff: "hm_get m k = None \<longleftrightarrow> k \<notin> fst ` set m"
  by (simp add: hm_get_def map_of_eq_None_iff)

lemma length_filter_hm: "hm_ok m \<Longrightarrow>
    length (filter P (hm_values m)) = card {k. \<exists>v. hm_get m k = Some v \<and> P v}"
proof -
  assume ok: "hm_ok m"
  have len: "length (filter P (hm_values m)) = length (filter (P \<circ> snd) m)"
    by (simp add: hm_values_def filter_map)
  have dist: "distinct (map fst (filter (P \<circ> snd) m))"
    using ok by (simp add: hm_ok_def distinct_map_filter)
  have "length (filter (P \<circ> snd) m) = card (set (map fst (filter (P \<circ> snd) m)))"
    using distinct_card [OF dist] by simp
  also have "set (map fst (filter (P \<circ> snd) m)) = {k. \<exists>v. hm_get m k = Some v \<and> P v}"
    using ok by (force simp: hm_get_iff)
  finally have "length (filter (P \<circ> snd) m) = card {k. \<exists>v. hm_get m k = Some v \<and> P v}" .
  then show ?thesis by (simp only: len)
qed

end
