(* ===== verification/Bytes.thy ===== *)
theory Bytes
  imports Prelude
begin

text \<open>
  The little-endian encodings the storage layer writes and reads: \<open>to_le_bytes\<close>,
  \<open>from_le_bytes\<close> of the standard library and the \<open>put_*_le\<close> writers of a growing buffer, which
  append the same bytes.  An \<open>f32\<close> is kept as its bit pattern (\<open>f32::to_bits\<close>), a \<open>u32\<close>, since
  the storage layer copies vectors without computing with them.  The lemmas give the round trip
  of every width, the length of an encoding, and how an encoding is read from the front of a
  longer buffer.
\<close>

named_theorems le_simps "little-endian encodings"

fun le_of_nat :: "nat \<Rightarrow> nat \<Rightarrow> u8 list" where
  "le_of_nat 0 x = []"
| "le_of_nat (Suc n) x = of_nat x # le_of_nat n (x div 256)"

fun nat_of_le :: "u8 list \<Rightarrow> nat" where
  "nat_of_le [] = 0"
| "nat_of_le (b # bs) = unat b + 256 * nat_of_le bs"

lemma length_le_of_nat [simp, le_simps]: "length (le_of_nat n x) = n"
  by (induction n x rule: le_of_nat.induct) auto

lemma nat_of_le_le_of_nat: "nat_of_le (le_of_nat n x) = x mod 256 ^ n"
proof (induction n x rule: le_of_nat.induct)
  case (1 x)
  then show ?case by simp
next
  case (2 n x)
  have "unat (of_nat x :: u8) = x mod 256"
    by (simp add: unat_of_nat)
  with 2 show ?case by (simp add: mod_mult2_eq)
qed

lemma take_le_of_nat: "take k (le_of_nat n x) = le_of_nat (min k n) x"
proof (induction n x arbitrary: k rule: le_of_nat.induct)
  case (1 x)
  then show ?case by simp
next
  case (2 n x)
  then show ?case by (cases k) simp_all
qed

lemma nat_of_le_less: "nat_of_le bs < 256 ^ length bs"
proof (induction bs)
  case Nil
  then show ?case by simp
next
  case (Cons b bs)
  have "unat b + 256 * nat_of_le bs < 256 + 256 * nat_of_le bs"
    using unat_u8_less [of b] by simp
  also have "\<dots> = 256 * Suc (nat_of_le bs)" by simp
  also have "\<dots> \<le> 256 * 256 ^ length bs"
    using Cons by (intro mult_le_mono2) simp
  finally show ?case by simp
qed

lemma nat_of_le_append: "nat_of_le (xs @ ys) = nat_of_le xs + 256 ^ length xs * nat_of_le ys"
  by (induction xs) (auto simp: algebra_simps)

definition u16_le :: "u16 \<Rightarrow> u8 list" where
  "u16_le x = le_of_nat 2 (unat x)"

definition u32_le :: "u32 \<Rightarrow> u8 list" where
  "u32_le x = le_of_nat 4 (unat x)"

definition u64_le :: "u64 \<Rightarrow> u8 list" where
  "u64_le x = le_of_nat 8 (unat x)"

definition u32_of_le :: "u8 list \<Rightarrow> u32" where
  "u32_of_le bs = of_nat (nat_of_le bs)"

definition u64_of_le :: "u8 list \<Rightarrow> u64" where
  "u64_of_le bs = of_nat (nat_of_le bs)"

lemma length_le [simp, le_simps]:
  "length (u16_le a) = 2" "length (u32_le b) = 4" "length (u64_le c) = 8"
  by (simp_all add: u16_le_def u32_le_def u64_le_def)

lemma nat_of_le_u32_le [simp]: "nat_of_le (u32_le x) = unat x"
  using unat_u32_less [of x] by (simp add: u32_le_def nat_of_le_le_of_nat)

lemma u32_of_le_u32_le [simp, le_simps]: "u32_of_le (u32_le x) = x"
  by (simp add: u32_of_le_def)

lemma u64_of_le_u64_le [simp, le_simps]: "u64_of_le (u64_le x) = x"
  using unat_u64_less [of x]
  by (simp add: u64_of_le_def u64_le_def nat_of_le_le_of_nat)

text \<open>The low three bytes of a length that fits into them.\<close>

lemma nat_of_le_take3: "nat_of_le (take 3 (u32_le x)) = unat x mod 2 ^ 24"
proof -
  have "take 3 (u32_le x) = le_of_nat 3 (unat x)"
    by (simp add: u32_le_def take_le_of_nat)
  then show ?thesis by (simp add: nat_of_le_le_of_nat)
qed

lemma u32_of_le_take3: "unat (u32_of_le (take 3 (u32_le x) @ [0])) = unat x mod 2 ^ 24"
proof -
  have "unat x mod 2 ^ 24 < 2 ^ 32" by (rule less_trans [of _ "2 ^ 24"]) simp_all
  then show ?thesis
    by (simp add: u32_of_le_def nat_of_le_append nat_of_le_take3 unat_of_nat_u32)
qed

text \<open>\<open>data[from..from+n]\<close>, for a range the code has checked.\<close>

definition byte_range :: "nat \<Rightarrow> nat \<Rightarrow> 'a list \<Rightarrow> 'a list" where
  "byte_range from n xs = take n (drop from xs)"

lemma byte_range_append_right [le_simps]:
  "byte_range (length xs + k) n (xs @ ys) = byte_range k n ys"
  by (simp add: byte_range_def)

lemma byte_range_0_append [le_simps]: "length xs = n \<Longrightarrow> byte_range 0 n (xs @ ys) = xs"
  by (simp add: byte_range_def)

lemma byte_range_skip: "length xs \<le> k \<Longrightarrow> byte_range k n (xs @ ys) = byte_range (k - length xs) n ys"
  by (simp add: byte_range_def)

lemma byte_range_all: "length xs = n \<Longrightarrow> byte_range 0 n xs = xs"
  by (simp add: byte_range_def)

text \<open>Reading the elements of a packed array one by one.\<close>

lemma length_concat_u32_le [simp]: "length (concat (map u32_le xs)) = 4 * length xs"
  by (induction xs) simp_all

lemma byte_range_concat_u32:
  "i < length xs \<Longrightarrow> byte_range (i * 4) 4 (concat (map u32_le xs) @ rest) = u32_le (xs ! i)"
proof (induction xs arbitrary: i)
  case Nil
  then show ?case by simp
next
  case (Cons x xs)
  show ?case
  proof (cases i)
    case 0
    then show ?thesis by (simp add: byte_range_0_append)
  next
    case (Suc j)
    with Cons show ?thesis by (simp add: byte_range_skip)
  qed
qed

lemma map_u32_concat:
  "map (\<lambda>i. u32_of_le (byte_range (i * 4) 4 (concat (map u32_le xs) @ rest))) [0..<length xs] = xs"
  by (rule nth_equalityI) (simp_all add: byte_range_concat_u32)

lemma byte_range_at: "length xs = k \<Longrightarrow> length ys = n \<Longrightarrow> byte_range k n (xs @ ys @ zs) = ys"
  by (simp add: byte_range_def)

lemma length_byte_range: "from + n \<le> length xs \<Longrightarrow> length (byte_range from n xs) = n"
  by (simp add: byte_range_def)

lemma byte_range_append_left: "from + n \<le> length xs \<Longrightarrow> byte_range from n (xs @ ys) = byte_range from n xs"
  by (simp add: byte_range_def)

lemma byte_range_take: "from + n \<le> k \<Longrightarrow> byte_range from n (take k xs) = byte_range from n xs"
  by (simp add: byte_range_def drop_take min_absorb1)

end
