(* ===== verification/Wal.thy ===== *)
theory Wal
  imports Bytes
begin

text \<open>
  The write-ahead log, \<open>src/src/storage/wal.rs\<close>: record headers, \<open>WAL::open\<close>, \<open>append\<close>,
  \<open>append_batch\<close>, \<open>rotate\<close>, \<open>read_entries\<close> and \<open>read_file\<close>.

  The log directory is an association list from file names to file contents, in the
  unspecified order of \<open>read_dir\<close>; an open file is its name and a cursor, and \<open>write_all\<close>
  overwrites from the cursor on.  Calls of the file system succeed (a write that a crash cuts
  short is the subject of \<open>torn_tail_keeps_complete_records\<close>), and \<open>sync_all\<close> does not change the contents.
  The checksum function \<open>crc32c\<close> belongs to a third-party crate and is the argument \<open>crc\<close>.
\<close>

subsection \<open>Constants and record headers\<close>

definition WAL_MAGIC :: u32 where
  "WAL_MAGIC = 0x57414C21"

definition WAL_VERSION :: u16 where
  "WAL_VERSION = 1"

definition HEADER_SIZE :: nat where
  "HEADER_SIZE = 16"

definition MAX_RECORD_SIZE :: nat where
  "MAX_RECORD_SIZE = 16 * 1024 * 1024"

datatype entry_type = Full | First | Middle | Last

definition entry_type_u8 :: "entry_type \<Rightarrow> u8" where
  "entry_type_u8 t = (case t of Full \<Rightarrow> 1 | First \<Rightarrow> 2 | Middle \<Rightarrow> 3 | Last \<Rightarrow> 4)"

definition entry_type_from_u8 :: "u8 \<Rightarrow> entry_type option" where
  "entry_type_from_u8 v =
     (if v = 1 then Some Full
      else if v = 2 then Some First
      else if v = 3 then Some Middle
      else if v = 4 then Some Last
      else None)"

record entry_header =
  eh_crc :: u32
  eh_type :: entry_type
  eh_length :: u32

definition encode_header :: "entry_header \<Rightarrow> u8 list" where
  "encode_header h = u32_le (eh_crc h) @ [entry_type_u8 (eh_type h)] @ take 3 (u32_le (eh_length h))"

definition decode_header :: "u8 list \<Rightarrow> entry_header res" where
  "decode_header data =
     (if length data < 8 then Inl EStorage
      else and_then (ok_or (entry_type_from_u8 (data ! 4)) EStorage) (\<lambda>t.
        Inr \<lparr>eh_crc = u32_of_le (take 4 data),
             eh_type = t,
             eh_length = u32_of_le [data ! 5, data ! 6, data ! 7, 0]\<rparr>))"

lemma entry_type_roundtrip [simp]: "entry_type_from_u8 (entry_type_u8 t) = Some t"
  by (cases t) (simp_all add: entry_type_from_u8_def entry_type_u8_def)

lemma length_encode_header [simp]: "length (encode_header h) = 8"
  by (simp add: encode_header_def)

lemma list3_eq: "length xs = 3 \<Longrightarrow> [xs ! 0, xs ! 1, xs ! 2] = xs"
  by (auto simp: numeral_eq_Suc length_Suc_conv)

text \<open>Decoding an encoded header gives the header back, its length cut to the 24 bits stored.\<close>

lemma decode_encode_header:
  "decode_header (encode_header h) = Inr (h\<lparr>eh_length := of_nat (unat (eh_length h) mod 2 ^ 24)\<rparr>)"
proof -
  let ?a = "u32_le (eh_crc h)" and ?t = "entry_type_u8 (eh_type h)" and ?l = "take 3 (u32_le (eh_length h))"
  have e: "encode_header h = ?a @ ?t # ?l" by (simp add: encode_header_def)
  have l: "length ?l = 3" by simp
  have at4: "encode_header h ! 4 = ?t" by (simp add: e nth_append)
  have "[encode_header h ! 5, encode_header h ! 6, encode_header h ! 7, 0] = [?l ! 0, ?l ! 1, ?l ! 2] @ [0]"
    by (simp add: e nth_append)
  also have "\<dots> = ?l @ [0]" using list3_eq [OF l] by simp
  finally have bytes: "[encode_header h ! 5, encode_header h ! 6, encode_header h ! 7, 0] = ?l @ [0]" .
  have len: "u32_of_le (?l @ [0]) = of_nat (unat (eh_length h) mod 2 ^ 24)"
    using u32_of_le_take3 [of "eh_length h"] by (metis of_nat_unat ucast_id)
  show ?thesis
    unfolding decode_header_def at4 bytes len by (simp add: e)
qed

subsection \<open>File names\<close>

text \<open>\<open>format!("wal-{:08}.log", n)\<close>: decimal, padded with zeros to eight digits.\<close>

definition digit_char :: "nat \<Rightarrow> char" where
  "digit_char d = char_of (48 + d)"

fun decimal :: "nat \<Rightarrow> string" where
  "decimal n = (if n < 10 then [digit_char n] else decimal (n div 10) @ [digit_char (n mod 10)])"

declare decimal.simps [simp del]

definition pad8 :: "string \<Rightarrow> string" where
  "pad8 s = replicate (8 - length s) (CHR ''0'') @ s"

definition wal_name :: "u64 \<Rightarrow> string" where
  "wal_name n = ''wal-'' @ pad8 (decimal (unat n)) @ ''.log''"

text \<open>\<open>str::parse::<u64>\<close>: an optional plus sign, then digits, failing on overflow.\<close>

definition char_digit :: "char \<Rightarrow> nat option" where
  "char_digit c = (let v = of_char c :: nat in if 48 \<le> v \<and> v \<le> 57 then Some (v - 48) else None)"

fun parse_digits :: "nat \<Rightarrow> string \<Rightarrow> nat option" where
  "parse_digits acc [] = Some acc"
| "parse_digits acc (c # cs) =
     (case char_digit c of
        None \<Rightarrow> None
      | Some d \<Rightarrow> if 10 * acc + d < 2 ^ 64 then parse_digits (10 * acc + d) cs else None)"

definition parse_u64 :: "string \<Rightarrow> u64 option" where
  "parse_u64 s =
     (let digits = (if s \<noteq> [] \<and> hd s = CHR ''+'' then tl s else s)
      in if digits = [] then None else map_option of_nat (parse_digits 0 digits))"

definition starts_with :: "string \<Rightarrow> string \<Rightarrow> bool" where
  "starts_with p s \<longleftrightarrow> take (length p) s = p"

definition ends_with :: "string \<Rightarrow> string \<Rightarrow> bool" where
  "ends_with p s \<longleftrightarrow> length p \<le> length s \<and> drop (length s - length p) s = p"

definition wal_file_no :: "string \<Rightarrow> u64 option" where
  "wal_file_no name =
     (if starts_with ''wal-'' name \<and> ends_with ''.log'' name
      then parse_u64 (drop 4 (take (length name - 4) name))
      else None)"

lemma of_char_digit_char: "d < 10 \<Longrightarrow> (of_char (digit_char d) :: nat) = 48 + d"
  by (simp add: digit_char_def)

lemma char_digit_digit_char [simp]: "d < 10 \<Longrightarrow> char_digit (digit_char d) = Some d"
  by (simp add: char_digit_def of_char_digit_char)

lemma parse_digits_append:
  "parse_digits acc (xs @ ys) =
     (case parse_digits acc xs of None \<Rightarrow> None | Some a \<Rightarrow> parse_digits a ys)"
  by (induction acc xs rule: parse_digits.induct) (auto split: option.splits)

lemma parse_digits_decimal: "n < 2 ^ 64 \<Longrightarrow> parse_digits 0 (decimal n) = Some n"
proof (induction n rule: decimal.induct)
  case (1 n)
  show ?case
  proof (cases "n < 10")
    case True
    then show ?thesis by (simp add: decimal.simps [of n])
  next
    case False
    with 1 have "parse_digits 0 (decimal (n div 10)) = Some (n div 10)" by simp
    moreover have "10 * (n div 10) + n mod 10 = n" by simp
    ultimately show ?thesis
      using False "1.prems" by (simp add: decimal.simps [of n] parse_digits_append)
  qed
qed

lemma parse_digits_zeros: "parse_digits 0 (replicate k (CHR ''0'') @ s) = parse_digits 0 s"
  by (induction k) (simp_all add: char_digit_def)

lemma decimal_nonempty: "decimal n \<noteq> []"
  by (subst decimal.simps) simp

lemma digit_char_inj: "m < 10 \<Longrightarrow> n < 10 \<Longrightarrow> digit_char m = digit_char n \<Longrightarrow> m = n"
  by (simp add: digit_char_def)

lemma decimal_inject: "decimal m = decimal n \<Longrightarrow> m = n"
proof (induction m arbitrary: n rule: decimal.induct)
  case (1 m)
  show ?case
  proof (cases "m < 10")
    case True
    then have "n < 10" using 1(2) by (simp add: decimal.simps [of m] decimal.simps [of n] decimal_nonempty not_sym [OF decimal_nonempty] split: if_splits)
    then show ?thesis using True 1(2) by (simp add: decimal.simps [of m] decimal.simps [of n] digit_char_inj)
  next
    case False
    then have n: "\<not> n < 10" using 1(2) by (auto simp: decimal.simps [of m] decimal.simps [of n] decimal_nonempty not_sym [OF decimal_nonempty])
    then have "decimal (m div 10) = decimal (n div 10)" "digit_char (m mod 10) = digit_char (n mod 10)"
      using False 1(2) by (simp_all add: decimal.simps [of m] decimal.simps [of n])
    then have "m div 10 = n div 10" "m mod 10 = n mod 10" using 1(1) [OF False] digit_char_inj by simp_all
    then show ?thesis by (metis div_mult_mod_eq)
  qed
qed

lemma plus_notin_decimal: "CHR ''+'' \<notin> set (decimal n)"
proof (induction n rule: decimal.induct)
  case (1 n)
  have plus: "char_digit (CHR ''+'') = None" by (simp add: char_digit_def)
  have ne: "CHR ''+'' \<noteq> digit_char d" if "d < 10" for d
    using char_digit_digit_char [OF that] plus by (metis option.distinct(1))
  show ?case
  proof (cases "n < 10")
    case True
    with ne [of n] show ?thesis by (subst decimal.simps) simp
  next
    case False
    with 1 ne [of "n mod 10"] show ?thesis by (subst decimal.simps) simp
  qed
qed

lemma parse_u64_pad8: "n < 2 ^ 64 \<Longrightarrow> parse_u64 (pad8 (decimal n)) = Some (of_nat n)"
proof -
  assume n: "n < 2 ^ 64"
  let ?s = "pad8 (decimal n)"
  have ne: "?s \<noteq> []" by (simp add: pad8_def decimal_nonempty)
  have "CHR ''+'' \<notin> set ?s" using plus_notin_decimal [of n] by (auto simp: pad8_def)
  with ne have "hd ?s \<noteq> CHR ''+''" by (metis hd_in_set)
  with ne n show ?thesis
    by (simp add: parse_u64_def pad8_def parse_digits_zeros parse_digits_decimal)
qed

lemma wal_file_no_wal_name [simp]: "wal_file_no (wal_name n) = Some n"
  using unat_u64_less [of n]
  by (simp add: wal_file_no_def wal_name_def starts_with_def ends_with_def parse_u64_pad8)

lemma wal_name_inject [simp]: "wal_name a = wal_name b \<longleftrightarrow> a = b"
  by (metis option.inject wal_file_no_wal_name)

subsection \<open>The log's state and its operations\<close>

type_synonym dir = "(string \<times> u8 list) list"

record wal =
  wal_dir :: dir
  current_file :: string
  cursor :: nat
  current_file_no :: u64
  max_file_size :: u64
  current_size :: u64

definition wal_header :: "u8 list" where
  "wal_header = u32_le WAL_MAGIC @ u16_le WAL_VERSION @ u64_le 0 @ u16_le 0"

text \<open>\<open>file.write_all(data)\<close> at the cursor of the current file.\<close>

definition write_all :: "u8 list \<Rightarrow> wal \<Rightarrow> wal" where
  "write_all data w =
     (let old = (case hm_get (wal_dir w) (current_file w) of None \<Rightarrow> [] | Some f \<Rightarrow> f);
          new = take (cursor w) old @ data @ drop (cursor w + length data) old
      in w\<lparr>wal_dir := hm_insert (current_file w) new (wal_dir w), cursor := cursor w + length data\<rparr>)"

definition max_file_no :: "dir \<Rightarrow> u64" where
  "max_file_no d =
     foldl (\<lambda>m name. case wal_file_no name of None \<Rightarrow> m | Some n \<Rightarrow> max m n) 0 (map fst d)"

definition wal_open :: "dir \<Rightarrow> u64 \<Rightarrow> wal" where
  "wal_open d max_size =
     (let no = max_file_no d; name = wal_name no
      in case hm_get d name of
           Some f \<Rightarrow>
             \<lparr>wal_dir = d, current_file = name, cursor = length f, current_file_no = no,
              max_file_size = max_size, current_size = of_nat (length f)\<rparr>
         | None \<Rightarrow>
             write_all wal_header
               \<lparr>wal_dir = hm_insert name [] d, current_file = name, cursor = 0, current_file_no = no,
                max_file_size = max_size, current_size = of_nat HEADER_SIZE\<rparr>)"

text \<open>
  \<open>rotate\<close> opens the next file without truncating it, so a file of that name that was there
  keeps its bytes beyond the header.
\<close>

definition wal_rotate :: "wal \<Rightarrow> wal" where
  "wal_rotate w =
     (let no = current_file_no w + 1; name = wal_name no;
          d = (case hm_get (wal_dir w) name of None \<Rightarrow> hm_insert name [] (wal_dir w) | Some _ \<Rightarrow> wal_dir w)
      in (write_all wal_header
            (w\<lparr>wal_dir := d, current_file := name, cursor := 0, current_file_no := no\<rparr>))
           \<lparr>current_size := of_nat HEADER_SIZE\<rparr>)"

definition wal_append :: "(u8 list \<Rightarrow> u32) \<Rightarrow> wal \<Rightarrow> u8 list \<Rightarrow> (u64 \<times> wal) res" where
  "wal_append crc w data =
     (if length data > MAX_RECORD_SIZE then Inl EStorage
      else
        (let record_size = 8 + length data;
             w1 = (if current_size w + of_nat record_size > max_file_size w then wal_rotate w else w);
             position = current_file_no w1 * max_file_size w1 + current_size w1;
             h = \<lparr>eh_crc = crc data, eh_type = Full, eh_length = of_nat (length data)\<rparr>;
             w2 = write_all data (write_all (encode_header h) w1)
         in Inr (position, w2\<lparr>current_size := current_size w2 + (8 + of_nat (length data))\<rparr>)))"

fun wal_append_batch :: "(u8 list \<Rightarrow> u32) \<Rightarrow> wal \<Rightarrow> u8 list list \<Rightarrow> (u64 list \<times> wal) res" where
  "wal_append_batch crc w [] = Inr ([], w)"
| "wal_append_batch crc w (e # es) =
     and_then (wal_append crc w e) (\<lambda>(pos, w1).
     and_then (wal_append_batch crc w1 es) (\<lambda>(ps, w2). Inr (pos # ps, w2)))"

definition wal_size :: "wal \<Rightarrow> u64" where
  "wal_size w = current_file_no w * max_file_size w + current_size w"

text \<open>The loop of \<open>read_file\<close> over the bytes of one file, from an offset on.\<close>

function read_records :: "(u8 list \<Rightarrow> u32) \<Rightarrow> u8 list \<Rightarrow> nat \<Rightarrow> u8 list list res" where
  "read_records crc buf offset =
     (if offset + 8 \<le> length buf then
        and_then (decode_header (byte_range offset 8 buf)) (\<lambda>h.
          (let data_start = offset + 8; data_end = data_start + unat (eh_length h)
           in if data_end > length buf then Inr []
              else
                (let data = byte_range data_start (unat (eh_length h)) buf
                 in if crc data \<noteq> eh_crc h then Inl EStorage
                    else and_then (read_records crc buf data_end) (\<lambda>es. Inr (data # es)))))
      else Inr [])"
  by pat_completeness auto
termination
  by (relation "measure (\<lambda>(crc, buf, offset). length buf - offset)") auto

declare read_records.simps [simp del]

definition read_bytes :: "(u8 list \<Rightarrow> u32) \<Rightarrow> u8 list \<Rightarrow> u8 list list res" where
  "read_bytes crc buf =
     (if length buf < HEADER_SIZE then Inr []
      else if u32_of_le (take 4 buf) \<noteq> WAL_MAGIC then Inl EStorage
      else read_records crc buf HEADER_SIZE)"

definition read_file :: "(u8 list \<Rightarrow> u32) \<Rightarrow> dir \<Rightarrow> string \<Rightarrow> u8 list list res" where
  "read_file crc d name = and_then (ok_or (hm_get d name) EStorage) (read_bytes crc)"

fun read_files :: "(u8 list \<Rightarrow> u32) \<Rightarrow> dir \<Rightarrow> u64 list \<Rightarrow> u8 list list res" where
  "read_files crc d [] = Inr []"
| "read_files crc d (n # ns) =
     and_then (read_file crc d (wal_name n)) (\<lambda>es.
     and_then (read_files crc d ns) (\<lambda>rest. Inr (es @ rest)))"

definition wal_file_nos :: "dir \<Rightarrow> u64 list" where
  "wal_file_nos d = sort (List.map_filter wal_file_no (map fst d))"

definition read_entries :: "(u8 list \<Rightarrow> u32) \<Rightarrow> wal \<Rightarrow> u8 list list res" where
  "read_entries crc w = read_files crc (wal_dir w) (wal_file_nos (wal_dir w))"

end
