(* ===== verification/OrderedMap.thy ===== *)
theory OrderedMap
  imports Prelude "HOL-Library.RBT"
begin

text \<open>
  The interface of an ordered map, and the standard library's \<open>BTreeMap\<close> as a provider of it.

  \<open>MemTable\<close> keeps its entries in a \<open>SkipMap\<close> of the third-party crate \<open>crossbeam-skiplist\<close>, so
  the operations it calls are an argument of its definitions (\<open>map_ops\<close>), and what the code relies
  on are the laws of the locale \<open>ordered_map\<close>: an update changes the looked-up value of its key
  only, and iteration visits every entry once, in ascending order of the keys.

  A \<open>BTreeMap\<close> is a red-black tree of \<open>HOL-Library.RBT\<close>; \<open>btree_ops\<close> are its operations and
  \<open>btree\<close> interprets the locale on them.
\<close>

record ('k, 'v, 'm) map_ops =
  op_empty :: 'm
  op_get :: "'m \<Rightarrow> 'k \<Rightarrow> 'v option"
  op_insert :: "'k \<Rightarrow> 'v \<Rightarrow> 'm \<Rightarrow> 'm"
  op_remove :: "'k \<Rightarrow> 'm \<Rightarrow> 'm"
  op_iter :: "'m \<Rightarrow> ('k \<times> 'v) list"

subsection \<open>Sorted association lists\<close>

text \<open>Facts about the listing of an ordered map that its clients share.\<close>

lemma sorted_keys_distinct: "sorted_wrt (<) (map fst (xs :: ('k :: linorder \<times> 'v) list)) \<Longrightarrow> distinct (map fst xs)"
  by (simp add: strict_sorted_iff)

lemma map_of_filter_keys:
  "sorted_wrt (<) (map fst (xs :: ('k :: linorder \<times> 'v) list)) \<Longrightarrow>
   map_of (filter P xs) k = (case map_of xs k of None \<Rightarrow> None | Some v \<Rightarrow> if P (k, v) then Some v else None)"
proof (induction xs)
  case Nil
  then show ?case by simp
next
  case (Cons x xs)
  have "fst x \<notin> fst ` set xs" using Cons.prems by auto
  then have "map_of xs (fst x) = None" by (simp add: map_of_eq_None_iff)
  with Cons show ?case by (cases x) (auto split: option.splits)
qed

lemma sorted_keys_filter:
  "sorted_wrt (<) (map fst xs) \<Longrightarrow> sorted_wrt (<) (map fst (filter P xs))"
  by (simp add: sorted_wrt_map sorted_wrt_filter)

lemma dropWhile_less_eq_filter:
  "sorted_wrt (<) (map fst (xs :: ('k :: linorder \<times> 'v) list)) \<Longrightarrow>
   dropWhile (\<lambda>e. fst e < a) xs = filter (\<lambda>e. a \<le> fst e) xs"
proof (induction xs)
  case Nil
  then show ?case by simp
next
  case (Cons x xs)
  show ?case
  proof (cases "fst x < a")
    case True
    with Cons show ?thesis by simp
  next
    case False
    then have "\<forall>e \<in> set (x # xs). a \<le> fst e" using Cons.prems by (auto intro: less_imp_le order_trans)
    then have "filter (\<lambda>e. a \<le> fst e) (x # xs) = x # xs" by (intro filter_True) simp
    with False show ?thesis by simp
  qed
qed

lemma takeWhile_le_eq_filter:
  "sorted_wrt (<) (map fst (xs :: ('k :: linorder \<times> 'v) list)) \<Longrightarrow>
   takeWhile (\<lambda>e. \<not> b < fst e) xs = filter (\<lambda>e. fst e \<le> b) xs"
proof (induction xs)
  case Nil
  then show ?case by simp
next
  case (Cons x xs)
  show ?case
  proof (cases "b < fst x")
    case True
    then have "\<forall>e \<in> set (x # xs). \<not> fst e \<le> b" using Cons.prems by (auto simp: not_le intro: less_trans)
    then have "filter (\<lambda>e. fst e \<le> b) (x # xs) = []" by (simp add: filter_empty_conv)
    with True show ?thesis by simp
  next
    case False
    with Cons show ?thesis by simp
  qed
qed

lemma sorted_alist_unique:
  fixes xs ys :: "('k :: linorder \<times> 'v) list"
  assumes xs: "sorted_wrt (<) (map fst xs)" and ys: "sorted_wrt (<) (map fst ys)"
    and eq: "map_of xs = map_of ys"
  shows "xs = ys"
proof (rule map_sorted_distinct_set_unique [where f = fst])
  have "(k, v) \<in> set xs \<longleftrightarrow> (k, v) \<in> set ys" for k v
    using xs ys eq by (metis map_of_eq_Some_iff sorted_keys_distinct)
  then show set_eq: "set xs = set ys" by auto
  show "inj_on fst (set xs \<union> set ys)"
    using set_eq sorted_keys_distinct [OF xs] by (simp add: distinct_map)
  show "sorted (map fst xs)" "distinct (map fst xs)" "sorted (map fst ys)" "distinct (map fst ys)"
    using xs ys by (simp_all only: strict_sorted_iff)
qed

text \<open>How a sum over the values of a finite map changes with one update.\<close>

lemma sum_dom_remove:
  fixes w :: "'v \<Rightarrow> 'n :: ab_group_add"
  assumes "finite (dom g)"
  shows "(\<Sum>k \<in> dom (g(a := None)). w (the ((g(a := None)) k))) =
    (\<Sum>k \<in> dom g. w (the (g k))) - (case g a of None \<Rightarrow> 0 | Some y \<Rightarrow> w y)"
proof -
  have "(\<Sum>k \<in> dom (g(a := None)). w (the ((g(a := None)) k))) = (\<Sum>k \<in> dom g - {a}. w (the (g k)))"
    by (intro sum.cong) auto
  also have "\<dots> = (\<Sum>k \<in> dom g. w (the (g k))) - (case g a of None \<Rightarrow> 0 | Some y \<Rightarrow> w y)"
    using assms by (cases "g a") (simp_all add: sum_diff1 domI domIff)
  finally show ?thesis .
qed

lemma sum_dom_update:
  fixes w :: "'v \<Rightarrow> 'n :: ab_group_add"
  assumes "finite (dom g)"
  shows "(\<Sum>k \<in> dom (g(a \<mapsto> x)). w (the ((g(a \<mapsto> x)) k))) =
    (\<Sum>k \<in> dom g. w (the (g k))) - (case g a of None \<Rightarrow> 0 | Some y \<Rightarrow> w y) + w x"
proof -
  have dom: "dom (g(a \<mapsto> x)) = insert a (dom (g(a := None)))" by auto
  have "(\<Sum>k \<in> dom (g(a \<mapsto> x)). w (the ((g(a \<mapsto> x)) k))) =
      w x + (\<Sum>k \<in> dom (g(a := None)). w (the ((g(a \<mapsto> x)) k)))"
    unfolding dom using assms by (subst sum.insert) auto
  also have "(\<Sum>k \<in> dom (g(a := None)). w (the ((g(a \<mapsto> x)) k))) =
      (\<Sum>k \<in> dom (g(a := None)). w (the ((g(a := None)) k)))"
    by (intro sum.cong) auto
  finally show ?thesis by (simp only: sum_dom_remove [OF assms] add.commute)
qed

subsection \<open>The interface\<close>

locale ordered_map =
  fixes ops :: "('k :: linorder, 'v, 'm) map_ops"
  assumes get_empty: "op_get ops (op_empty ops) k = None"
    and get_insert: "op_get ops (op_insert ops a v m) k = (if k = a then Some v else op_get ops m k)"
    and get_remove: "op_get ops (op_remove ops a m) k = (if k = a then None else op_get ops m k)"
    and iter_sorted: "sorted_wrt (<) (map fst (op_iter ops m))"
    and iter_get: "map_of (op_iter ops m) = op_get ops m"
begin

lemmas get_simps = get_empty get_insert get_remove

lemma iter_mem: "(k, v) \<in> set (op_iter ops m) \<longleftrightarrow> op_get ops m k = Some v"
  by (metis iter_get iter_sorted map_of_eq_Some_iff sorted_keys_distinct)

lemma iter_empty: "op_iter ops (op_empty ops) = []"
proof (rule ccontr)
  assume "op_iter ops (op_empty ops) \<noteq> []"
  then obtain k v where "(k, v) \<in> set (op_iter ops (op_empty ops))"
    by (metis last_in_set surj_pair)
  then show False by (simp add: iter_mem get_empty)
qed

lemma finite_dom_get: "finite (dom (op_get ops m))"
  by (metis finite_dom_map_of iter_get)

lemma iter_unique: "sorted_wrt (<) (map fst xs) \<Longrightarrow> map_of xs = op_get ops m \<Longrightarrow> op_iter ops m = xs"
  using iter_sorted [of m] iter_get [of m] by (intro sorted_alist_unique) simp_all

text \<open>A sum over the listing, and how one update changes it.\<close>

lemma sum_iter:
  "sum_list (map (\<lambda>e. w (snd e)) (op_iter ops m)) = (\<Sum>k \<in> dom (op_get ops m). w (the (op_get ops m k)))"
  (is "?l = ?r")
proof -
  have dist: "distinct (map fst (op_iter ops m))" by (rule sorted_keys_distinct [OF iter_sorted])
  then have "?l = (\<Sum>e \<in> set (op_iter ops m). w (snd e))"
    by (simp add: sum_list_distinct_conv_sum_set distinct_map)
  also have "\<dots> = (\<Sum>k \<in> fst ` set (op_iter ops m). w (the (op_get ops m k)))"
    using dist by (subst sum.reindex) (auto simp: distinct_map iter_mem intro!: sum.cong)
  also have "fst ` set (op_iter ops m) = dom (op_get ops m)"
    by (metis dom_map_of_conv_image_fst iter_get)
  finally show ?thesis .
qed

end

subsection \<open>The standard library's ordered map\<close>

type_synonym ('k, 'v) btree = "('k, 'v) RBT.rbt"

definition btree_ops :: "('k :: linorder, 'v, ('k, 'v) btree) map_ops" where
  "btree_ops = \<lparr>op_empty = RBT.empty, op_get = RBT.lookup, op_insert = RBT.insert,
                op_remove = RBT.delete, op_iter = RBT.entries\<rparr>"

interpretation btree: ordered_map "btree_ops :: ('k :: linorder, 'v, ('k, 'v) btree) map_ops"
  by unfold_locales (simp_all add: btree_ops_def RBT.map_of_entries RBT.distinct_entries RBT.sorted_entries strict_sorted_iff)

text \<open>\<open>tree.range(a..)\<close>.\<close>

definition btree_range_from :: "'k :: linorder \<Rightarrow> ('k, 'v) btree \<Rightarrow> ('k \<times> 'v) list" where
  "btree_range_from a t = filter (\<lambda>e. a \<le> fst e) (RBT.entries t)"

end
