(* ===== verification/MemTable.thy ===== *)
theory MemTable
  imports OrderedMap
begin

text \<open>
  The in-memory table, \<open>src/src/storage/memtable.rs\<close>: \<open>MemTable\<close> with its size counter,
  \<open>ImmutableMemTable\<close> and \<open>MemTableManager\<close>.  The skip list is the argument \<open>sm\<close>
  (\<open>map_ops\<close>), the JSON writer of payloads the argument \<open>to_vec\<close> (its \<open>None\<close> is an error).
  Operations that can fail return the table they leave behind together with their result, since
  an early return keeps the changes made before it.
\<close>

datatype 'p entry = Put "'p vector" | Delete

record 'm memtable =
  mt_entries :: 'm
  mt_size :: u64
  mt_threshold :: u64

type_synonym ('p, 'm) skip_ops = "(u64, 'p entry, 'm) map_ops"
type_synonym 'p json_writer = "'p \<Rightarrow> u8 list option"

definition mt_new :: "('p, 'm) skip_ops \<Rightarrow> u64 \<Rightarrow> 'm memtable" where
  "mt_new sm threshold = \<lparr>mt_entries = op_empty sm, mt_size = 0, mt_threshold = threshold\<rparr>"

definition payload_size :: "'p json_writer \<Rightarrow> 'p vector \<Rightarrow> nat" where
  "payload_size to_vec v =
     (case v_payload v of
        None \<Rightarrow> 0
      | Some p \<Rightarrow> (case to_vec p of None \<Rightarrow> 0 | Some bs \<Rightarrow> length bs))"

definition estimate_entry_size :: "'p json_writer \<Rightarrow> u64 \<Rightarrow> 'p vector \<Rightarrow> u64" where
  "estimate_entry_size to_vec _ v = of_nat (8 + length (v_data v) * 4 + payload_size to_vec v + 64)"

definition estimate_tombstone_size :: "u64 \<Rightarrow> u64" where
  "estimate_tombstone_size _ = 8 + 1"

definition mt_put ::
  "('p, 'm) skip_ops \<Rightarrow> 'p json_writer \<Rightarrow> u64 \<Rightarrow> 'p vector \<Rightarrow> 'm memtable \<Rightarrow> unit res \<times> 'm memtable"
where
  "mt_put sm to_vec key v mt =
     (let entry_size = estimate_entry_size to_vec key v;
          old = op_get sm (mt_entries mt) key;
          mt1 = (if old = None then mt else mt\<lparr>mt_entries := op_remove sm key (mt_entries mt)\<rparr>);
          insert_new = (\<lambda>m. m\<lparr>mt_entries := op_insert sm key (Put v) (mt_entries m),
                              mt_size := mt_size m + entry_size\<rparr>)
      in case old of
           None \<Rightarrow> (Inr (), insert_new mt1)
         | Some (Put old_v) \<Rightarrow>
             (Inr (), insert_new (mt1\<lparr>mt_size := mt_size mt1 - estimate_entry_size to_vec key old_v\<rparr>))
         | Some Delete \<Rightarrow> (Inl EStorage, mt1))"

definition mt_delete ::
  "('p, 'm) skip_ops \<Rightarrow> 'p json_writer \<Rightarrow> u64 \<Rightarrow> 'm memtable \<Rightarrow> unit res \<times> 'm memtable"
where
  "mt_delete sm to_vec key mt =
     (let mt1 =
        (case op_get sm (mt_entries mt) key of
           None \<Rightarrow> mt
         | Some old \<Rightarrow>
             (let old_size = (case old of Put v \<Rightarrow> estimate_entry_size to_vec key v | Delete \<Rightarrow> 0)
              in mt\<lparr>mt_entries := op_remove sm key (mt_entries mt), mt_size := mt_size mt - old_size\<rparr>))
      in (Inr (), mt1\<lparr>mt_entries := op_insert sm key Delete (mt_entries mt1),
                      mt_size := mt_size mt1 + estimate_tombstone_size key\<rparr>))"

definition mt_get :: "('p, 'm) skip_ops \<Rightarrow> 'm memtable \<Rightarrow> u64 \<Rightarrow> 'p entry option" where
  "mt_get sm mt key = op_get sm (mt_entries mt) key"

definition should_flush :: "'m memtable \<Rightarrow> bool" where
  "should_flush mt \<longleftrightarrow> mt_size mt \<ge> mt_threshold mt"

definition mt_len :: "('p, 'm) skip_ops \<Rightarrow> 'm memtable \<Rightarrow> nat" where
  "mt_len sm mt = length (op_iter sm (mt_entries mt))"

definition mt_is_empty :: "('p, 'm) skip_ops \<Rightarrow> 'm memtable \<Rightarrow> bool" where
  "mt_is_empty sm mt \<longleftrightarrow> op_iter sm (mt_entries mt) = []"

definition mt_iter :: "('p, 'm) skip_ops \<Rightarrow> 'm memtable \<Rightarrow> (u64 \<times> 'p entry) list" where
  "mt_iter sm mt = op_iter sm (mt_entries mt)"

text \<open>The live vectors of a listing, tombstones left out.\<close>

fun live_entries :: "(u64 \<times> 'p entry) list \<Rightarrow> (u64 \<times> 'p vector) list" where
  "live_entries [] = []"
| "live_entries ((k, Put v) # es) = (k, v) # live_entries es"
| "live_entries ((k, Delete) # es) = live_entries es"

fun tombstone_keys :: "(u64 \<times> 'p entry) list \<Rightarrow> u64 list" where
  "tombstone_keys [] = []"
| "tombstone_keys ((k, Put v) # es) = tombstone_keys es"
| "tombstone_keys ((k, Delete) # es) = k # tombstone_keys es"

text \<open>
  \<open>scan\<close> starts at \<open>lower_bound(Included(start))\<close>, the first entry whose key is not below
  \<open>start\<close>, and walks on until a key passes \<open>end\<close>.
\<close>

definition mt_scan ::
  "('p, 'm) skip_ops \<Rightarrow> 'm memtable \<Rightarrow> u64 option \<Rightarrow> u64 option \<Rightarrow> (u64 \<times> 'p vector) list"
where
  "mt_scan sm mt start end_id =
     (let es = op_iter sm (mt_entries mt);
          from_start = (case start of None \<Rightarrow> es | Some s \<Rightarrow> dropWhile (\<lambda>e. fst e < s) es);
          upto = (case end_id of None \<Rightarrow> from_start | Some e \<Rightarrow> takeWhile (\<lambda>x. \<not> e < fst x) from_start)
      in live_entries upto)"

subsection \<open>Immutable tables and their manager\<close>

definition imm_entries :: "('p, 'm) skip_ops \<Rightarrow> 'm memtable \<Rightarrow> (u64 \<times> 'p vector) list" where
  "imm_entries sm mt = live_entries (mt_iter sm mt)"

definition imm_tombstones :: "('p, 'm) skip_ops \<Rightarrow> 'm memtable \<Rightarrow> u64 list" where
  "imm_tombstones sm mt = tombstone_keys (mt_iter sm mt)"

record 'm mt_manager =
  mgr_active :: "'m memtable"
  mgr_immutable :: "'m memtable list"
  mgr_threshold :: u64

definition mgr_new :: "('p, 'm) skip_ops \<Rightarrow> u64 \<Rightarrow> 'm mt_manager" where
  "mgr_new sm threshold =
     \<lparr>mgr_active = mt_new sm threshold, mgr_immutable = [], mgr_threshold = threshold\<rparr>"

definition mgr_rotate ::
  "('p, 'm) skip_ops \<Rightarrow> 'm mt_manager \<Rightarrow> 'm memtable \<times> 'm mt_manager"
where
  "mgr_rotate sm g =
     (let old_active = mgr_active g
      in (old_active, g\<lparr>mgr_active := mt_new sm (mgr_threshold g),
                        mgr_immutable := mgr_immutable g @ [old_active]\<rparr>))"

definition take_immutable :: "'m mt_manager \<Rightarrow> 'm memtable list \<times> 'm mt_manager" where
  "take_immutable g = (mgr_immutable g, g\<lparr>mgr_immutable := []\<rparr>)"

definition needs_rotation :: "'m mt_manager \<Rightarrow> bool" where
  "needs_rotation g \<longleftrightarrow> should_flush (mgr_active g)"

end
