(* ===== verification/SSTable.thy ===== *)
theory SSTable
  imports Bytes
begin

text \<open>
  Sorted string tables, \<open>src/src/storage/sstable.rs\<close>: the block builder, \<open>SSTableBuilder\<close>
  (\<open>create\<close>, \<open>add\<close>, \<open>flush_block\<close>, \<open>finish\<close>), the footer and index encodings, and the reader
  \<open>SSTable\<close> (\<open>open\<close>, \<open>get\<close>, \<open>scan\<close>, \<open>find_block\<close>, \<open>load_block_read\<close>, \<open>decode_block\<close>,
  \<open>decode_index\<close>, \<open>may_contain\<close>).

  A file is the list of its bytes; a table keeps the bytes at its path, which nobody writes once
  \<open>finish\<close> has returned.  The JSON codec of \<open>serde_json\<close> is an argument: \<open>to_vec\<close> writes a
  payload (\<open>None\<close> is an error), \<open>from_slice\<close> reads an optional payload, \<open>meta_enc\<close> and
  \<open>meta_dec\<close> write and read the metadata.  Reading past the end of a slice panics: \<open>decode_index\<close>
  and \<open>sst_open\<close> return an \<open>option\<close> whose \<open>None\<close> is that panic.
\<close>

definition SSTABLE_VERSION :: u32 where
  "SSTABLE_VERSION = 1"

definition SSTABLE_MAGIC :: u32 where
  "SSTABLE_MAGIC = 0x53535442"

datatype compression_type = CompressNone | CompressLz4 | CompressZstd | CompressSnappy

record sst_meta =
  m_version :: u32
  m_dimension :: nat
  m_entry_count :: u64
  m_min_id :: u64
  m_max_id :: u64
  m_compression :: compression_type
  m_block_size :: nat
  m_level :: nat

type_synonym 'p payload_writer = "'p \<Rightarrow> u8 list option"
type_synonym 'p payload_reader = "u8 list \<Rightarrow> 'p option res"
type_synonym 'p kv = "u64 \<times> 'p vector"

subsection \<open>Blocks\<close>

record 'p block =
  b_entries :: "'p kv list"
  b_size :: nat
  b_max :: nat

definition block_new :: "nat \<Rightarrow> 'p block" where
  "block_new max_size = \<lparr>b_entries = [], b_size = 0, b_max = max_size\<rparr>"

definition block_entry_size :: "'p payload_writer \<Rightarrow> u64 \<Rightarrow> 'p vector \<Rightarrow> nat" where
  "block_entry_size to_vec _ v =
     8 + 4 + length (v_data v) * 4 +
     (case v_payload v of None \<Rightarrow> 0
      | Some p \<Rightarrow> length (case to_vec p of None \<Rightarrow> [] | Some bs \<Rightarrow> bs))"

definition block_is_empty :: "'p block \<Rightarrow> bool" where
  "block_is_empty b \<longleftrightarrow> b_entries b = []"

definition block_add :: "'p payload_writer \<Rightarrow> u64 \<Rightarrow> 'p vector \<Rightarrow> 'p block \<Rightarrow> bool \<times> 'p block" where
  "block_add to_vec key v b =
     (let sz = block_entry_size to_vec key v
      in if b_size b + sz > b_max b \<and> \<not> block_is_empty b then (False, b)
         else (True, b\<lparr>b_entries := b_entries b @ [(key, v)], b_size := b_size b + sz\<rparr>))"

definition encode_entry :: "'p payload_writer \<Rightarrow> 'p kv \<Rightarrow> u8 list res" where
  "encode_entry to_vec e =
     (let head = u64_le (fst e) @ u32_le (of_nat (length (v_data (snd e)))) @ concat (map u32_le (v_data (snd e)))
      in case v_payload (snd e) of
           None \<Rightarrow> Inr (head @ u32_le 0)
         | Some p \<Rightarrow> and_then (ok_or (to_vec p) ESerialization)
             (\<lambda>bs. Inr (head @ u32_le (of_nat (length bs)) @ bs)))"

fun encode_entries :: "'p payload_writer \<Rightarrow> 'p kv list \<Rightarrow> u8 list res" where
  "encode_entries to_vec [] = Inr []"
| "encode_entries to_vec (e # es) =
     and_then (encode_entry to_vec e) (\<lambda>bs.
     and_then (encode_entries to_vec es) (\<lambda>rest. Inr (bs @ rest)))"

text \<open>Every compression type is a placeholder that leaves the bytes as they are.\<close>

definition encode_block :: "'p payload_writer \<Rightarrow> compression_type \<Rightarrow> 'p block \<Rightarrow> u8 list res" where
  "encode_block to_vec compression b =
     and_then (encode_entries to_vec (b_entries b)) (\<lambda>body.
       let data = u32_le (of_nat (length (b_entries b))) @ body
       in case compression of
            CompressNone \<Rightarrow> Inr data
          | CompressLz4 \<Rightarrow> Inr data
          | CompressZstd \<Rightarrow> Inr data
          | CompressSnappy \<Rightarrow> Inr data)"

subsection \<open>The builder\<close>

record index_entry =
  ix_key :: u64
  ix_offset :: u64
  ix_size :: u32

record 'p builder =
  bl_file :: "u8 list"
  bl_block :: "'p block"
  bl_index :: "index_entry list"
  bl_meta :: sst_meta
  bl_entry_count :: u64
  bl_first_key :: "u64 option"
  bl_position :: u64

definition builder_create :: "nat \<Rightarrow> compression_type \<Rightarrow> nat \<Rightarrow> nat \<Rightarrow> 'p builder" where
  "builder_create dimension compression block_size level =
     \<lparr>bl_file = [], bl_block = block_new block_size, bl_index = [],
      bl_meta = \<lparr>m_version = SSTABLE_VERSION, m_dimension = dimension, m_entry_count = 0,
                 m_min_id = - 1, m_max_id = 0, m_compression = compression,
                 m_block_size = block_size, m_level = level\<rparr>,
      bl_entry_count = 0, bl_first_key = None, bl_position = 0\<rparr>"

definition flush_block :: "'p payload_writer \<Rightarrow> 'p builder \<Rightarrow> 'p builder res" where
  "flush_block to_vec b =
     (if block_is_empty (bl_block b) then Inr b
      else
        and_then
          (case bl_first_key b of
             None \<Rightarrow> Inr b
           | Some first_key \<Rightarrow>
               and_then (encode_block to_vec (m_compression (bl_meta b)) (bl_block b)) (\<lambda>block_data.
                 Inr (b\<lparr>bl_index := bl_index b @
                          [\<lparr>ix_key = first_key, ix_offset = bl_position b, ix_size = of_nat (length block_data)\<rparr>],
                        bl_file := bl_file b @ block_data,
                        bl_position := bl_position b + of_nat (length block_data)\<rparr>)))
          (\<lambda>b1. Inr (b1\<lparr>bl_block := block_new (m_block_size (bl_meta b1)), bl_first_key := None\<rparr>)))"

definition builder_add :: "'p payload_writer \<Rightarrow> u64 \<Rightarrow> 'p vector \<Rightarrow> 'p builder \<Rightarrow> 'p builder res" where
  "builder_add to_vec key v b0 =
     (let b = (if bl_first_key b0 = None then b0\<lparr>bl_first_key := Some key\<rparr> else b0);
          added = block_add to_vec key v (bl_block b)
      in and_then
           (if fst added then Inr (b\<lparr>bl_block := snd added\<rparr>)
            else and_then (flush_block to_vec b) (\<lambda>b1.
                   Inr (b1\<lparr>bl_block := snd (block_add to_vec key v (bl_block b1)), bl_first_key := Some key\<rparr>)))
           (\<lambda>b2. Inr (b2\<lparr>bl_meta := (bl_meta b2)\<lparr>m_min_id := min (m_min_id (bl_meta b2)) key,
                                               m_max_id := max (m_max_id (bl_meta b2)) key\<rparr>,
                         bl_entry_count := bl_entry_count b2 + 1\<rparr>)))"

fun builder_add_all :: "'p payload_writer \<Rightarrow> 'p kv list \<Rightarrow> 'p builder \<Rightarrow> 'p builder res" where
  "builder_add_all to_vec [] b = Inr b"
| "builder_add_all to_vec (e # es) b =
     and_then (builder_add to_vec (fst e) (snd e) b) (builder_add_all to_vec es)"

definition encode_index_entry :: "index_entry \<Rightarrow> u8 list" where
  "encode_index_entry e = u64_le (ix_key e) @ u64_le (ix_offset e) @ u32_le (ix_size e)"

definition encode_index :: "index_entry list \<Rightarrow> u8 list" where
  "encode_index idx = u32_le (of_nat (length idx)) @ concat (map encode_index_entry idx)"

record footer =
  f_index_offset :: u64
  f_index_size :: u64
  f_meta_offset :: u64

definition encode_footer :: "footer \<Rightarrow> u8 list" where
  "encode_footer f = u64_le (f_index_offset f) @ u64_le (f_index_size f) @ u64_le (f_meta_offset f)"

definition decode_footer :: "u8 list \<Rightarrow> footer res" where
  "decode_footer data =
     (if length data < 24 then Inl EStorage
      else Inr \<lparr>f_index_offset = u64_of_le (byte_range 0 8 data),
                f_index_size = u64_of_le (byte_range 8 8 data),
                f_meta_offset = u64_of_le (byte_range 16 8 data)\<rparr>)"

text \<open>\<open>finish\<close> returns the metadata and leaves the complete file.\<close>

definition builder_finish ::
  "'p payload_writer \<Rightarrow> (sst_meta \<Rightarrow> u8 list) \<Rightarrow> 'p builder \<Rightarrow> (sst_meta \<times> u8 list) res"
where
  "builder_finish to_vec meta_enc b0 =
     and_then (flush_block to_vec b0) (\<lambda>b.
       let index_offset = bl_position b;
           index_data = encode_index (bl_index b);
           position = index_offset + of_nat (length index_data);
           meta = (bl_meta b)\<lparr>m_entry_count := bl_entry_count b\<rparr>;
           meta_bytes = meta_enc meta;
           meta_offset = position;
           foot = \<lparr>f_index_offset = index_offset, f_index_size = of_nat (length index_data),
                   f_meta_offset = meta_offset\<rparr>
       in Inr (meta, bl_file b @ index_data @ meta_bytes @ encode_footer foot @
                     u32_le SSTABLE_MAGIC @ u32_le SSTABLE_VERSION))"

subsection \<open>The reader\<close>

record sstable =
  t_meta :: sst_meta
  t_index :: "index_entry list"
  t_bytes :: "u8 list"

text \<open>\<open>seek(Start(offset))\<close> and \<open>read_exact\<close> of \<open>n\<close> bytes.\<close>

definition read_at :: "u8 list \<Rightarrow> nat \<Rightarrow> nat \<Rightarrow> u8 list res" where
  "read_at file offset n =
     (if n = 0 \<or> offset + n \<le> length file then Inr (byte_range offset n file) else Inl EStorage)"

fun decode_index_entries :: "u8 list \<Rightarrow> nat \<Rightarrow> nat \<Rightarrow> index_entry list option" where
  "decode_index_entries data offset 0 = Some []"
| "decode_index_entries data offset (Suc n) =
     (if offset + 16 > length data then Some []
      else if offset + 20 > length data then None
      else
        map_option
          (\<lambda>rest. \<lparr>ix_key = u64_of_le (byte_range offset 8 data),
                   ix_offset = u64_of_le (byte_range (offset + 8) 8 data),
                   ix_size = u32_of_le (byte_range (offset + 16) 4 data)\<rparr> # rest)
          (decode_index_entries data (offset + 20) n))"

definition decode_index :: "u8 list \<Rightarrow> index_entry list option" where
  "decode_index data =
     (if length data < 4 then Some []
      else decode_index_entries data 4 (unat (u32_of_le (take 4 data))))"

text \<open>
  \<open>None\<close> is a panic: the footer asks for a buffer of 2^63 bytes or more, or the index is shorter than it says.
  A smaller buffer is taken to be allocated.
\<close>

definition sst_open :: "(u8 list \<Rightarrow> sst_meta res) \<Rightarrow> u8 list \<Rightarrow> sstable res option" where
  "sst_open meta_dec file =
     (if length file < 8 then Some (Inl EStorage)
      else if u32_of_le (byte_range (length file - 8) 4 file) \<noteq> SSTABLE_MAGIC then Some (Inl EStorage)
      else if u32_of_le (byte_range (length file - 4) 4 file) \<noteq> SSTABLE_VERSION then Some (Inl EStorage)
      else if length file < 32 then Some (Inl EStorage)
      else
        (case decode_footer (byte_range (length file - 32) 24 file) of
           Inl e \<Rightarrow> Some (Inl e)
         | Inr foot \<Rightarrow>
             (let meta_end = length file - 32;
                  meta_offset = unat (f_meta_offset foot)
              in if meta_offset < meta_end then
                   (case and_then (read_at file meta_offset (meta_end - meta_offset)) meta_dec of
                      Inl e \<Rightarrow> Some (Inl e)
                    | Inr meta \<Rightarrow>
                        if 2 ^ 63 \<le> unat (f_index_size foot) then None
                        else (case read_at file (unat (f_index_offset foot)) (unat (f_index_size foot)) of
                           Inl e \<Rightarrow> Some (Inl e)
                         | Inr index_buf \<Rightarrow>
                             map_option (\<lambda>idx. Inr \<lparr>t_meta = meta, t_index = idx, t_bytes = file\<rparr>)
                               (decode_index index_buf)))
                 else Some (Inl EStorage))))"

fun decode_entries :: "'p payload_reader \<Rightarrow> u8 list \<Rightarrow> nat \<Rightarrow> nat \<Rightarrow> 'p kv list res" where
  "decode_entries from_slice data offset 0 = Inr []"
| "decode_entries from_slice data offset (Suc n) =
     (if offset + 8 > length data then Inr []
      else let key = u64_of_le (byte_range offset 8 data); o1 = offset + 8
      in if o1 + 4 > length data then Inr []
      else let dim = unat (u32_of_le (byte_range o1 4 data)); o2 = o1 + 4
      in if o2 + dim * 4 > length data then Inr []
      else let vals = map (\<lambda>i. u32_of_le (byte_range (o2 + i * 4) 4 data)) [0..<dim]; o3 = o2 + dim * 4
      in if o3 + 4 > length data then Inr []
      else let payload_len = unat (u32_of_le (byte_range o3 4 data)); o4 = o3 + 4
      in if payload_len > 0 \<and> o4 + payload_len > length data then Inr []
      else
        and_then (if payload_len > 0 then from_slice (byte_range o4 payload_len data) else Inr None)
          (\<lambda>payload. and_then (decode_entries from_slice data (o4 + payload_len) n)
             (\<lambda>rest. Inr ((key, \<lparr>v_data = vals, v_payload = payload\<rparr>) # rest))))"

definition decode_block :: "'p payload_reader \<Rightarrow> u8 list \<Rightarrow> 'p kv list res" where
  "decode_block from_slice data =
     (if length data < 4 then Inr []
      else decode_entries from_slice data 4 (unat (u32_of_le (take 4 data))))"

definition load_block_read :: "'p payload_reader \<Rightarrow> sstable \<Rightarrow> index_entry \<Rightarrow> 'p kv list res" where
  "load_block_read from_slice t e =
     and_then (read_at (t_bytes t) (unat (ix_offset e)) (unat (ix_size e))) (\<lambda>buf.
       case m_compression (t_meta t) of CompressNone \<Rightarrow> decode_block from_slice buf
                                      | _ \<Rightarrow> decode_block from_slice buf)"

text \<open>The binary search over the index keys, its loop and its final step.\<close>

function find_block_loop :: "index_entry list \<Rightarrow> u64 \<Rightarrow> nat \<Rightarrow> nat \<Rightarrow> nat" where
  "find_block_loop idx key low high =
     (if low < high then
        (let mid = (low + high) div 2
         in if ix_key (idx ! mid) \<le> key then find_block_loop idx key (mid + 1) high
            else find_block_loop idx key low mid)
      else low)"
  by pat_completeness auto
termination
  by (relation "measure (\<lambda>(idx, key, low, high). high - low)") auto

declare find_block_loop.simps [simp del]

definition find_block :: "sstable \<Rightarrow> u64 \<Rightarrow> nat" where
  "find_block t key = find_block_loop (t_index t) key 0 (length (t_index t)) - 1"

fun find_key :: "u64 \<Rightarrow> 'p kv list \<Rightarrow> 'p vector option" where
  "find_key key [] = None"
| "find_key key ((k, v) # es) = (if k = key then Some v else find_key key es)"

definition sst_get :: "'p payload_reader \<Rightarrow> sstable \<Rightarrow> u64 \<Rightarrow> 'p vector option res" where
  "sst_get from_slice t key =
     (if key < m_min_id (t_meta t) \<or> key > m_max_id (t_meta t) then Inr None
      else let block_idx = find_block t key
      in if block_idx \<ge> length (t_index t) then Inr None
      else and_then (load_block_read from_slice t (t_index t ! block_idx)) (\<lambda>block. Inr (find_key key block)))"

text \<open>
  The inner loop of \<open>scan\<close> over one block: the entries collected, and whether a key beyond the
  end was met, which ends the scan.
\<close>

fun scan_block :: "u64 \<Rightarrow> u64 \<Rightarrow> 'p kv list \<Rightarrow> 'p kv list \<times> bool" where
  "scan_block start end_id [] = ([], False)"
| "scan_block start end_id ((k, v) # es) =
     (if k > end_id then ([], True)
      else let (rest, stop) = scan_block start end_id es
           in (if k \<ge> start then ((k, v) # rest, stop) else (rest, stop)))"

fun scan_blocks :: "'p payload_reader \<Rightarrow> sstable \<Rightarrow> u64 \<Rightarrow> u64 \<Rightarrow> index_entry list \<Rightarrow> 'p kv list res" where
  "scan_blocks from_slice t start end_id [] = Inr []"
| "scan_blocks from_slice t start end_id (e # es) =
     and_then (load_block_read from_slice t e) (\<lambda>block.
       let (found, stop) = scan_block start end_id block
       in if stop then Inr found
          else and_then (scan_blocks from_slice t start end_id es) (\<lambda>rest. Inr (found @ rest)))"

definition sst_scan :: "'p payload_reader \<Rightarrow> sstable \<Rightarrow> u64 option \<Rightarrow> u64 option \<Rightarrow> 'p kv list res" where
  "sst_scan from_slice t start end_id =
     (let s = (case start of None \<Rightarrow> m_min_id (t_meta t) | Some x \<Rightarrow> x);
          e = (case end_id of None \<Rightarrow> m_max_id (t_meta t) | Some x \<Rightarrow> x);
          start_block = find_block t s
      in scan_blocks from_slice t s e (drop start_block (t_index t)))"

definition may_contain :: "sstable \<Rightarrow> u64 \<Rightarrow> bool" where
  "may_contain t key \<longleftrightarrow> key \<ge> m_min_id (t_meta t) \<and> key \<le> m_max_id (t_meta t)"

end
