(* ===== verification/Engine.thy ===== *)
theory Engine
  imports Wal MemTable SSTable "HOL-Library.Char_ord" "HOL-Library.List_Lexorder"
begin

text \<open>
  The storage engine, \<open>src/src/storage/engine.rs\<close> and the records and configuration of
  \<open>src/src/storage/mod.rs\<close>: \<open>StorageEngine::open\<close> with \<open>recover\<close> and \<open>load_sstables\<close>, the
  \<open>Storage\<close> operations \<open>get\<close>, \<open>put\<close>, \<open>delete\<close>, \<open>scan\<close>, \<open>flush\<close> and \<open>stats\<close>, the flush of
  memory tables (\<open>maybe_flush\<close>, \<open>trigger_flush\<close>, \<open>flush_memtable\<close>) and the compaction of a
  level (\<open>compact_level\<close>, \<open>merge_sstables\<close>).

  Third-party code is collected in the argument \<open>x\<close> of type \<open>ext\<close>.  The background task that
  \<open>tokio::spawn\<close> starts is a list of memory tables still to be written; \<open>engine_task_step\<close> is
  one iteration of its loop, which may come at any time.  The clock is an argument.  An
  operation returns its result and the engine it leaves; \<open>None\<close> means that the call does not
  return (a panic in a reader, or a thread that waits for a lock it holds itself).
\<close>

datatype 'p wal_record =
    PutRecord u64 "'p vector" u64
  | DeleteRecord u64 u64

datatype storage_compression = StNone | StLz4 | StZstd | StSnappy

record storage_config =
  cf_wal_segment_size :: u64
  cf_memtable_threshold :: u64
  cf_block_size :: nat
  cf_compression :: storage_compression

definition storage_config_default :: storage_config where
  "storage_config_default =
     \<lparr>cf_wal_segment_size = 64 * 1024 * 1024, cf_memtable_threshold = 64 * 1024 * 1024,
      cf_block_size = 4 * 1024, cf_compression = StZstd\<rparr>"

record ('p, 'm) ext =
  x_skip :: "('p, 'm) skip_ops"
  x_crc :: "u8 list \<Rightarrow> u32"
  x_to_vec :: "'p payload_writer"
  x_from_slice :: "'p payload_reader"
  x_meta_enc :: "sst_meta \<Rightarrow> u8 list"
  x_meta_dec :: "u8 list \<Rightarrow> sst_meta res"
  x_rec_enc :: "'p wal_record \<Rightarrow> u8 list option"
  x_rec_dec :: "u8 list \<Rightarrow> 'p wal_record option"

text \<open>The level directories, and a table with the path it was opened from.\<close>

type_synonym level_dirs = "(nat \<times> dir) list"

record table_file =
  tf_level :: nat
  tf_name :: string
  tf_table :: sstable

record 'm engine =
  en_config :: storage_config
  en_wal :: wal
  en_mem :: "'m memtable"
  en_immutable :: "'m memtable list"
  en_levels :: "table_file list list"
  en_count :: u64
  en_handle :: bool
  en_tasks :: "'m memtable list list"
  en_disk :: level_dirs

subsection \<open>Opening\<close>

fun recover_records ::
  "('p, 'm) ext \<Rightarrow> u8 list list \<Rightarrow> 'm memtable \<Rightarrow> 'm memtable res"
where
  "recover_records x [] mt = Inr mt"
| "recover_records x (bs # bss) mt =
     and_then (ok_or (x_rec_dec x bs) ESerialization) (\<lambda>r.
       case r of
         PutRecord k v _ \<Rightarrow>
           (let out = mt_put (x_skip x) (x_to_vec x) k v mt
            in and_then (fst out) (\<lambda>_. recover_records x bss (snd out)))
       | DeleteRecord k _ \<Rightarrow>
           (let out = mt_delete (x_skip x) (x_to_vec x) k mt
            in and_then (fst out) (\<lambda>_. recover_records x bss (snd out))))"

definition recover :: "('p, 'm) ext \<Rightarrow> wal \<Rightarrow> 'm memtable \<Rightarrow> 'm memtable res" where
  "recover x w mt = and_then (read_entries (x_crc x) w) (\<lambda>bss. recover_records x bss mt)"

definition is_sst :: "string \<Rightarrow> bool" where
  "is_sst name \<longleftrightarrow> ends_with ''.sst'' name \<and> length name > 4"

text \<open>A file that does not open is skipped with a warning.\<close>

fun load_tables :: "('p, 'm) ext \<Rightarrow> nat \<Rightarrow> dir \<Rightarrow> table_file list option" where
  "load_tables x l [] = Some []"
| "load_tables x l ((name, bytes) # d) =
     (if is_sst name then
        (case sst_open (x_meta_dec x) bytes of
           None \<Rightarrow> None
         | Some (Inl _) \<Rightarrow> load_tables x l d
         | Some (Inr t) \<Rightarrow>
             map_option ((#) \<lparr>tf_level = l, tf_name = name, tf_table = t\<rparr>) (load_tables x l d))
      else load_tables x l d)"

fun load_levels :: "('p, 'm) ext \<Rightarrow> nat list \<Rightarrow> level_dirs \<Rightarrow> (table_file list list \<times> level_dirs) option" where
  "load_levels x [] disk = Some ([], disk)"
| "load_levels x (l # ls) disk =
     (case hm_get disk l of
        None \<Rightarrow> map_option (\<lambda>(levels, dk). ([] # levels, dk)) (load_levels x ls (hm_insert l [] disk))
      | Some d \<Rightarrow>
          (case load_tables x l d of
             None \<Rightarrow> None
           | Some tables \<Rightarrow>
               map_option (\<lambda>(levels, dk). (sort_key tf_name tables # levels, dk)) (load_levels x ls disk)))"

definition load_sstables :: "('p, 'm) ext \<Rightarrow> level_dirs \<Rightarrow> (table_file list list \<times> level_dirs) option" where
  "load_sstables x disk = load_levels x [0..<7] disk"

definition engine_open ::
  "('p, 'm) ext \<Rightarrow> storage_config \<Rightarrow> dir \<Rightarrow> level_dirs \<Rightarrow> 'm engine res option"
where
  "engine_open x cfg d disk =
     (let w = wal_open d (cf_wal_segment_size cfg);
          mt = mt_new (x_skip x) (cf_memtable_threshold cfg)
      in case recover x w mt of
           Inl e \<Rightarrow> Some (Inl e)
         | Inr mt1 \<Rightarrow>
             map_option
               (\<lambda>(levels, dk). Inr
                  \<lparr>en_config = cfg, en_wal = w, en_mem = mt1, en_immutable = [], en_levels = levels,
                   en_count = sum_list (map (\<lambda>t. m_entry_count (t_meta (tf_table t))) (concat levels)),
                   en_handle = False, en_tasks = [], en_disk = dk\<rparr>)
               (load_sstables x disk))"

subsection \<open>Writing tables\<close>

definition pad20 :: "string \<Rightarrow> string" where
  "pad20 s = replicate (20 - length s) (CHR ''0'') @ s"

definition table_name :: "nat \<Rightarrow> string" where
  "table_name micros = pad20 (decimal micros) @ ''.sst''"

text \<open>\<open>File::create\<close> and the writes of a builder leave \<open>bytes\<close> in the file.\<close>

definition store_table :: "nat \<Rightarrow> string \<Rightarrow> u8 list \<Rightarrow> level_dirs \<Rightarrow> level_dirs" where
  "store_table l name bytes disk =
     hm_insert l (hm_insert name bytes (case hm_get disk l of None \<Rightarrow> [] | Some d \<Rightarrow> d)) disk"

definition ensure_level :: "nat \<Rightarrow> level_dirs \<Rightarrow> level_dirs" where
  "ensure_level l disk = (case hm_get disk l of None \<Rightarrow> hm_insert l [] disk | Some _ \<Rightarrow> disk)"

text \<open>The loop over \<open>builder.add(id, vector)?\<close>; an early return leaves what was written so far.\<close>

fun add_loop :: "'p payload_writer \<Rightarrow> 'p kv list \<Rightarrow> 'p builder \<Rightarrow> unit res \<times> 'p builder" where
  "add_loop to_vec [] b = (Inr (), b)"
| "add_loop to_vec (e # es) b =
     (case builder_add to_vec (fst e) (snd e) b of
        Inl err \<Rightarrow> (Inl err, b)
      | Inr b1 \<Rightarrow> add_loop to_vec es b1)"

text \<open>Create a table, add the entries, finish: the result and the bytes in the file.\<close>

definition write_table ::
  "('p, 'm) ext \<Rightarrow> nat \<Rightarrow> nat \<Rightarrow> nat \<Rightarrow> 'p kv list \<Rightarrow> unit res \<times> u8 list"
where
  "write_table x dimension block_size level es =
     (let (r, b) = add_loop (x_to_vec x) es (builder_create dimension CompressNone block_size level)
      in case r of
           Inl err \<Rightarrow> (Inl err, bl_file b)
         | Inr _ \<Rightarrow>
             (case builder_finish (x_to_vec x) (x_meta_enc x) b of
                Inl err \<Rightarrow> (Inl err, bl_file b)
              | Inr (meta, bytes) \<Rightarrow> (Inr (), bytes)))"

definition flush_memtable ::
  "('p, 'm) ext \<Rightarrow> storage_config \<Rightarrow> nat \<Rightarrow> 'm memtable \<Rightarrow> level_dirs \<Rightarrow> unit res \<times> level_dirs"
where
  "flush_memtable x cfg now mt disk =
     (let (r, bytes) = write_table x 0 (cf_block_size cfg) 0 (live_entries (mt_iter (x_skip x) mt))
      in (r, store_table 0 (table_name now) bytes disk))"

text \<open>
  \<open>trigger_flush\<close>.  It locks the handle, so a caller that already holds that lock (\<open>held\<close>)
  waits for itself for ever: the mutex of \<open>parking_lot\<close> is not reentrant.
\<close>

definition trigger_flush :: "bool \<Rightarrow> 'm engine \<Rightarrow> (unit res \<times> 'm engine) option" where
  "trigger_flush held e =
     (if held then None
      else if en_handle e then Some (Inr (), e)
      else Some (Inr (), e\<lparr>en_immutable := [], en_tasks := en_tasks e @ [en_immutable e], en_handle := True\<rparr>))"

definition maybe_flush :: "('p, 'm) ext \<Rightarrow> 'm engine \<Rightarrow> (unit res \<times> 'm engine) option" where
  "maybe_flush x e =
     (if should_flush (en_mem e) then
        trigger_flush False
          (e\<lparr>en_mem := mt_new (x_skip x) (cf_memtable_threshold (en_config e)),
             en_immutable := en_immutable e @ [en_mem e]\<rparr>)
      else Some (Inr (), e))"

text \<open>One iteration of the loop of the background task \<open>i\<close>; an error is only printed.\<close>

definition engine_task_step :: "('p, 'm) ext \<Rightarrow> nat \<Rightarrow> nat \<Rightarrow> 'm engine \<Rightarrow> 'm engine" where
  "engine_task_step x i now e =
     (if i < length (en_tasks e) then
        (case en_tasks e ! i of
           [] \<Rightarrow> e
         | mt # mts \<Rightarrow>
             e\<lparr>en_disk := snd (flush_memtable x (en_config e) now mt (en_disk e)),
               en_tasks := (en_tasks e)[i := mts]\<rparr>)
      else e)"

subsection \<open>Reading\<close>

definition get_from_memtables :: "('p, 'm) ext \<Rightarrow> 'm engine \<Rightarrow> u64 \<Rightarrow> 'p vector option" where
  "get_from_memtables x e key =
     (let as_vector = (\<lambda>en. case en of Put v \<Rightarrow> Some v | Delete \<Rightarrow> None)
      in case mt_get (x_skip x) (en_mem e) key of
           Some en \<Rightarrow> as_vector en
         | None \<Rightarrow>
             (case List.find (\<lambda>mt. mt_get (x_skip x) mt key \<noteq> None) (en_immutable e) of
                None \<Rightarrow> None
              | Some mt \<Rightarrow> (case mt_get (x_skip x) mt key of None \<Rightarrow> None | Some en \<Rightarrow> as_vector en)))"

text \<open>\<open>SSTable::open(&path)\<close>: the file as it is on disk now.\<close>

definition reopen_table :: "('p, 'm) ext \<Rightarrow> level_dirs \<Rightarrow> table_file \<Rightarrow> sstable res option" where
  "reopen_table x disk tf =
     (case hm_get disk (tf_level tf) of
        None \<Rightarrow> Some (Inl EStorage)
      | Some d \<Rightarrow> (case hm_get d (tf_name tf) of None \<Rightarrow> Some (Inl EStorage) | Some bytes \<Rightarrow> sst_open (x_meta_dec x) bytes))"

text \<open>The tables in the order of the search: level by level, in each the last one first.\<close>

definition search_order :: "'m engine \<Rightarrow> table_file list" where
  "search_order e = concat (map rev (en_levels e))"

fun get_from_tables :: "('p, 'm) ext \<Rightarrow> level_dirs \<Rightarrow> u64 \<Rightarrow> table_file list \<Rightarrow> 'p vector option res option" where
  "get_from_tables x disk key [] = Some (Inr None)"
| "get_from_tables x disk key (tf # tfs) =
     (if \<not> may_contain (tf_table tf) key then get_from_tables x disk key tfs
      else map_option (\<lambda>r. and_then r (\<lambda>t. sst_get (x_from_slice x) t key)) (reopen_table x disk tf))"

definition get_from_sstables :: "('p, 'm) ext \<Rightarrow> 'm engine \<Rightarrow> u64 \<Rightarrow> 'p vector option res option" where
  "get_from_sstables x e key = get_from_tables x (en_disk e) key (search_order e)"

definition engine_get :: "('p, 'm) ext \<Rightarrow> 'm engine \<Rightarrow> u64 \<Rightarrow> 'p vector option res option" where
  "engine_get x e key =
     (case get_from_memtables x e key of
        Some v \<Rightarrow> Some (Inr (Some v))
      | None \<Rightarrow> get_from_sstables x e key)"

definition in_range :: "u64 \<Rightarrow> u64 option \<Rightarrow> u64 option \<Rightarrow> bool" where
  "in_range key start end_id =
     (case (start, end_id) of
        (Some s, Some e) \<Rightarrow> key \<ge> s \<and> key \<le> e
      | (Some s, None) \<Rightarrow> key \<ge> s
      | (None, Some e) \<Rightarrow> key \<le> e
      | (None, None) \<Rightarrow> True)"

fun scan_memtable ::
  "u64 option \<Rightarrow> u64 option \<Rightarrow> (u64 \<times> 'p entry) list \<Rightarrow> 'p kv list \<Rightarrow> u64 set \<Rightarrow> 'p kv list \<times> u64 set"
where
  "scan_memtable start end_id [] results deleted = (results, deleted)"
| "scan_memtable start end_id ((k, Put v) # es) results deleted =
     scan_memtable start end_id es (if in_range k start end_id then hm_insert k v results else results) deleted"
| "scan_memtable start end_id ((k, Delete) # es) results deleted =
     scan_memtable start end_id es results (insert k deleted)"

fun scan_add :: "u64 set \<Rightarrow> 'p kv list \<Rightarrow> 'p kv list \<Rightarrow> 'p kv list" where
  "scan_add deleted [] results = results"
| "scan_add deleted ((k, v) # es) results =
     scan_add deleted es
       (if k \<notin> deleted \<and> hm_get results k = None then hm_insert k v results else results)"

fun scan_tables ::
  "('p, 'm) ext \<Rightarrow> level_dirs \<Rightarrow> u64 option \<Rightarrow> u64 option \<Rightarrow> u64 set \<Rightarrow> table_file list \<Rightarrow> 'p kv list \<Rightarrow>
   'p kv list res option"
where
  "scan_tables x disk start end_id deleted [] results = Some (Inr results)"
| "scan_tables x disk start end_id deleted (tf # tfs) results =
     (case reopen_table x disk tf of
        None \<Rightarrow> None
      | Some (Inl err) \<Rightarrow> Some (Inl err)
      | Some (Inr t) \<Rightarrow>
          (case sst_scan (x_from_slice x) t start end_id of
             Inl err \<Rightarrow> Some (Inl err)
           | Inr es \<Rightarrow> scan_tables x disk start end_id deleted tfs (scan_add deleted es results)))"

definition engine_scan ::
  "('p, 'm) ext \<Rightarrow> 'm engine \<Rightarrow> u64 option \<Rightarrow> u64 option \<Rightarrow> 'p kv list res option"
where
  "engine_scan x e start end_id =
     (let (results, deleted) = scan_memtable start end_id (mt_iter (x_skip x) (en_mem e)) [] {}
      in map_option (\<lambda>r. and_then r (\<lambda>rs. Inr (sort_key fst rs)))
           (scan_tables x (en_disk e) start end_id deleted (search_order e) results))"

subsection \<open>Writing\<close>

definition engine_put ::
  "('p, 'm) ext \<Rightarrow> u64 \<Rightarrow> u64 \<Rightarrow> 'p vector \<Rightarrow> 'm engine \<Rightarrow> (unit res \<times> 'm engine) option"
where
  "engine_put x now key v e =
     (case x_rec_enc x (PutRecord key v now) of
        None \<Rightarrow> Some (Inl ESerialization, e)
      | Some data \<Rightarrow>
          (case wal_append (x_crc x) (en_wal e) data of
             Inl err \<Rightarrow> Some (Inl err, e)
           | Inr (_, w) \<Rightarrow>
               (let (r, mt) = mt_put (x_skip x) (x_to_vec x) key v (en_mem e);
                    e1 = e\<lparr>en_wal := w, en_mem := mt\<rparr>
                in case r of
                     Inl err \<Rightarrow> Some (Inl err, e1)
                   | Inr _ \<Rightarrow>
                       (case maybe_flush x e1 of
                          None \<Rightarrow> None
                        | Some (Inl err, e2) \<Rightarrow> Some (Inl err, e2)
                        | Some (Inr _, e2) \<Rightarrow> Some (Inr (), e2\<lparr>en_count := en_count e2 + 1\<rparr>)))))"

definition engine_delete ::
  "('p, 'm) ext \<Rightarrow> u64 \<Rightarrow> u64 \<Rightarrow> 'm engine \<Rightarrow> (unit res \<times> 'm engine) option"
where
  "engine_delete x now key e =
     (case x_rec_enc x (DeleteRecord key now) of
        None \<Rightarrow> Some (Inl ESerialization, e)
      | Some data \<Rightarrow>
          (case wal_append (x_crc x) (en_wal e) data of
             Inl err \<Rightarrow> Some (Inl err, e)
           | Inr (_, w) \<Rightarrow>
               (let (r, mt) = mt_delete (x_skip x) (x_to_vec x) key (en_mem e);
                    e1 = e\<lparr>en_wal := w, en_mem := mt\<rparr>
                in case r of
                     Inl err \<Rightarrow> Some (Inl err, e1)
                   | Inr _ \<Rightarrow> maybe_flush x e1)))"

text \<open>
  \<open>flush\<close> holds the lock of the handle while it calls \<open>trigger_flush\<close>.  The loop that waits for
  the immutable tables comes after that call.
\<close>

definition engine_flush :: "'m engine \<Rightarrow> (unit res \<times> 'm engine) option" where
  "engine_flush e =
     (case trigger_flush True (e\<lparr>en_handle := False\<rparr>) of
        None \<Rightarrow> None
      | Some (r, e1) \<Rightarrow> if en_immutable e1 = [] then Some (r, e1) else None)"

subsection \<open>Compaction\<close>

fun merge_loop ::
  "('p, 'm) ext \<Rightarrow> sstable list \<Rightarrow> (u64, 'p vector) btree \<Rightarrow> (u64, 'p vector) btree res"
where
  "merge_loop x [] merged = Inr merged"
| "merge_loop x (t # ts) merged =
     and_then (sst_scan (x_from_slice x) t None None) (\<lambda>es.
       merge_loop x ts (fold (\<lambda>(k, v). RBT.insert k v) es merged))"

definition merge_sstables ::
  "('p, 'm) ext \<Rightarrow> sstable list \<Rightarrow> string \<Rightarrow> nat \<Rightarrow> level_dirs \<Rightarrow> unit res \<times> level_dirs"
where
  "merge_sstables x tables name level disk =
     (case merge_loop x tables RBT.empty of
        Inl err \<Rightarrow> (Inl err, disk)
      | Inr merged \<Rightarrow>
          (let es = RBT.entries merged
           in if es = [] then (Inr (), disk)
              else
                (let dimension = length (v_data (snd (hd es)));
                     (r, bytes) = write_table x dimension 4096 level es
                 in (r, store_table level name bytes disk))))"

definition compact_level ::
  "('p, 'm) ext \<Rightarrow> nat \<Rightarrow> nat \<Rightarrow> 'm engine \<Rightarrow> (unit res \<times> 'm engine) option"
where
  "compact_level x now level e =
     (if level \<ge> 6 then Some (Inr (), e)
      else if level \<ge> length (en_levels e) \<or> length (en_levels e ! level) < 4 then Some (Inr (), e)
      else
        (let num_to_compact = min (length (en_levels e ! level)) 4;
             to_compact = take num_to_compact (en_levels e ! level);
             e1 = e\<lparr>en_levels := (en_levels e)[level := drop num_to_compact (en_levels e ! level)],
                    en_disk := ensure_level (level + 1) (en_disk e)\<rparr>;
             (r, disk) = merge_sstables x (map tf_table to_compact) (table_name now) (level + 1) (en_disk e1);
             e2 = e1\<lparr>en_disk := disk\<rparr>
         in case r of
              Inl err \<Rightarrow> Some (Inl err, e2)
            | Inr _ \<Rightarrow>
                map_option (\<lambda>(levels, dk). (Inr (), e2\<lparr>en_levels := levels, en_disk := dk\<rparr>))
                  (load_sstables x (en_disk e2))))"

subsection \<open>Statistics\<close>

record storage_stats =
  st_vector_count :: u64
  st_storage_size :: u64
  st_wal_size :: u64
  st_sstable_count :: nat
  st_memtable_size :: u64

definition file_length :: "level_dirs \<Rightarrow> table_file \<Rightarrow> u64" where
  "file_length disk tf =
     (case hm_get disk (tf_level tf) of
        None \<Rightarrow> 0
      | Some d \<Rightarrow> (case hm_get d (tf_name tf) of None \<Rightarrow> 0 | Some bytes \<Rightarrow> of_nat (length bytes)))"

definition engine_stats :: "'m engine \<Rightarrow> storage_stats" where
  "engine_stats e =
     \<lparr>st_vector_count = en_count e,
      st_storage_size = sum_list (map (file_length (en_disk e)) (concat (en_levels e))),
      st_wal_size = wal_size (en_wal e),
      st_sstable_count = sum_list (map length (en_levels e)),
      st_memtable_size = mt_size (en_mem e)\<rparr>"

end
