(* ===== verification/WalProps.thy ===== *)
theory WalProps
  imports Wal "HOL-Library.Sublist"
begin

text \<open>
  Properties of the write-ahead log.  \<open>wal_parse\<close> is the offset loop of \<open>read_file\<close> rewritten
  over the remaining bytes; with it, the bytes \<open>append\<close> writes are read back record by record,
  a file cut short anywhere yields its complete records, and a run of appends over any number of
  file rotations is read back in order.
\<close>

subsection \<open>The bytes of a record, and a reader over the remaining bytes\<close>

definition enc_record :: "(u8 list \<Rightarrow> u32) \<Rightarrow> u8 list \<Rightarrow> u8 list" where
  "enc_record crc d = encode_header \<lparr>eh_crc = crc d, eh_type = Full, eh_length = of_nat (length d)\<rparr> @ d"

definition enc_file :: "(u8 list \<Rightarrow> u32) \<Rightarrow> u8 list list \<Rightarrow> u8 list" where
  "enc_file crc ds = wal_header @ concat (map (enc_record crc) ds)"

function wal_parse :: "(u8 list \<Rightarrow> u32) \<Rightarrow> u8 list \<Rightarrow> u8 list list res" where
  "wal_parse crc bs =
     (if 8 \<le> length bs then
        and_then (decode_header (take 8 bs)) (\<lambda>h.
          (let n = unat (eh_length h)
           in if 8 + n > length bs then Inr []
              else if crc (take n (drop 8 bs)) \<noteq> eh_crc h then Inl EStorage
              else and_then (wal_parse crc (drop (8 + n) bs)) (\<lambda>es. Inr (take n (drop 8 bs) # es))))
      else Inr [])"
  by pat_completeness auto
termination
  by (relation "measure (\<lambda>(crc, bs). length bs)") auto

declare wal_parse.simps [simp del]

lemma length_enc_record [simp]: "length (enc_record crc d) = 8 + length d"
  by (simp add: enc_record_def)

lemma length_wal_header [simp]: "length wal_header = 16"
  by (simp add: wal_header_def)

lemma read_records_parse:
  "offset \<le> length buf \<Longrightarrow> read_records crc buf offset = wal_parse crc (drop offset buf)"
proof (induction crc buf offset rule: read_records.induct)
  case (1 crc buf offset)
  show ?case
  proof (cases "offset + 8 \<le> length buf")
    case False
    with "1.prems" have "\<not> 8 \<le> length (drop offset buf)" by simp
    with False show ?thesis
      by (subst read_records.simps, subst wal_parse.simps) (simp only: if_False)
  next
    case True
    have next_eq: "read_records crc buf (offset + 8 + unat (eh_length h)) =
        wal_parse crc (drop (8 + unat (eh_length h)) (drop offset buf))"
      if "decode_header (byte_range offset 8 buf) = Inr h"
        and "\<not> offset + 8 + unat (eh_length h) > length buf"
        and "crc (byte_range (offset + 8) (unat (eh_length h)) buf) = eh_crc h" for h
      using "1.IH" [OF True that(1) refl refl that(2) refl] that
      by (simp add: add.commute add.left_commute)
    show ?thesis
      using True next_eq
      apply (subst read_records.simps)
      apply (subst wal_parse.simps)
      apply (cases "decode_header (byte_range offset 8 buf)")
       apply (auto simp: byte_range_def Let_def add.commute)
      done
  qed
qed

subsection \<open>One record\<close>

lemma header_length:
  "length d < 2 ^ 24 \<Longrightarrow> unat (of_nat (unat (of_nat (length d) :: u32) mod 2 ^ 24) :: u32) = length d"
proof -
  assume d: "length d < 2 ^ 24"
  then have "length d < 2 ^ 32" by simp
  then have "unat (of_nat (length d) :: u32) = length d" by (rule unat_of_nat_u32)
  with d show ?thesis by simp
qed

lemma wal_parse_record:
  assumes "length d < 2 ^ 24"
  shows "wal_parse crc (enc_record crc d @ rest) = and_then (wal_parse crc rest) (\<lambda>es. Inr (d # es))"
proof -
  let ?h = "\<lparr>eh_crc = crc d, eh_type = Full, eh_length = of_nat (length d)\<rparr>"
  have take8: "take 8 (enc_record crc d @ rest) = encode_header ?h"
    by (simp add: enc_record_def)
  have drop8: "drop 8 (enc_record crc d @ rest) = d @ rest"
    by (simp add: enc_record_def)
  have drop_all: "drop (8 + length d) (enc_record crc d @ rest) = rest"
    by (simp add: enc_record_def)
  show ?thesis
    apply (subst wal_parse.simps)
    unfolding take8 drop8 decode_encode_header
    using header_length [OF assms] drop_all by (simp add: Let_def)
qed

lemma wal_parse_torn_record:
  assumes "length d < 2 ^ 24" and "k < 8 + length d"
  shows "wal_parse crc (take k (enc_record crc d)) = Inr []"
proof (cases "k < 8")
  case True
  then show ?thesis by (subst wal_parse.simps) simp
next
  case False
  let ?h = "\<lparr>eh_crc = crc d, eh_type = Full, eh_length = of_nat (length d)\<rparr>"
  have take8: "take 8 (take k (enc_record crc d)) = encode_header ?h"
    using False by (simp add: enc_record_def min_def)
  show ?thesis
    apply (subst wal_parse.simps)
    unfolding take8 decode_encode_header
    using header_length [OF assms(1)] assms(2) by (simp add: Let_def)
qed

subsection \<open>A file of records, complete or cut short\<close>

text \<open>The records that lie completely within the first \<open>k\<close> bytes after the file header.\<close>

fun complete_records :: "nat \<Rightarrow> u8 list list \<Rightarrow> u8 list list" where
  "complete_records k [] = []"
| "complete_records k (d # ds) =
     (if 8 + length d \<le> k then d # complete_records (k - (8 + length d)) ds else [])"

lemma complete_records_prefix: "prefix (complete_records k ds) ds"
  by (induction k ds rule: complete_records.induct) auto

lemma complete_records_all:
  "length (concat (map (enc_record crc) ds)) \<le> k \<Longrightarrow> complete_records k ds = ds"
  by (induction k ds rule: complete_records.induct) auto

lemma wal_parse_torn:
  "\<forall>d \<in> set ds. length d < 2 ^ 24 \<Longrightarrow>
   wal_parse crc (take k (concat (map (enc_record crc) ds))) = Inr (complete_records k ds)"
proof (induction k ds rule: complete_records.induct)
  case (1 k)
  then show ?case by (subst wal_parse.simps) simp
next
  case (2 k d ds)
  then have d: "length d < 2 ^ 24" by simp
  show ?case
  proof (cases "8 + length d \<le> k")
    case True
    then have "take k (concat (map (enc_record crc) (d # ds))) =
        enc_record crc d @ take (k - (8 + length d)) (concat (map (enc_record crc) ds))"
      by simp
    with 2 True show ?thesis by (simp add: wal_parse_record [OF d])
  next
    case False
    then have "take k (concat (map (enc_record crc) (d # ds))) = take k (enc_record crc d)"
      by simp
    with False show ?thesis by (simp add: wal_parse_torn_record [OF d])
  qed
qed

lemma wal_header_magic: "u32_of_le (take 4 (wal_header @ xs)) = WAL_MAGIC"
proof -
  have "take 4 (wal_header @ xs) = u32_le WAL_MAGIC" by (simp add: wal_header_def)
  then show ?thesis by simp
qed

lemma read_bytes_enc_file_take:
  assumes "\<forall>d \<in> set ds. length d < 2 ^ 24"
  shows "read_bytes crc (take k (enc_file crc ds)) = Inr (complete_records (k - 16) ds)"
proof (cases "k < 16")
  case True
  then have "complete_records (k - 16) ds = []" by (cases ds) auto
  with True show ?thesis by (simp add: read_bytes_def HEADER_SIZE_def enc_file_def)
next
  case False
  let ?buf = "take k (enc_file crc ds)"
  have buf: "?buf = wal_header @ take (k - 16) (concat (map (enc_record crc) ds))"
    using False by (simp add: enc_file_def)
  have "read_bytes crc ?buf = read_records crc ?buf 16"
    unfolding buf read_bytes_def wal_header_magic by (simp add: HEADER_SIZE_def)
  also have "\<dots> = wal_parse crc (take (k - 16) (concat (map (enc_record crc) ds)))"
    unfolding buf by (simp add: read_records_parse)
  finally show ?thesis using wal_parse_torn [OF assms] by simp
qed

lemma read_bytes_enc_file:
  assumes "\<forall>d \<in> set ds. length d < 2 ^ 24"
  shows "read_bytes crc (enc_file crc ds) = Inr ds"
  using read_bytes_enc_file_take [OF assms, of crc "length (enc_file crc ds)"]
  by (simp add: enc_file_def complete_records_all [of crc])

subsection \<open>The directory of a log and the records in it\<close>

text \<open>
  A log holds the groups of records \<open>gs\<close>: one file per file number, in ascending order, each
  with the encoding of its records.
\<close>

definition enc_dir :: "(u8 list \<Rightarrow> u32) \<Rightarrow> (u64 \<times> u8 list list) list \<Rightarrow> string \<Rightarrow> u8 list option" where
  "enc_dir crc gs = map_of (map (\<lambda>g. (wal_name (fst g), enc_file crc (snd g))) gs)"

definition dir_inv :: "(u8 list \<Rightarrow> u32) \<Rightarrow> dir \<Rightarrow> (u64 \<times> u8 list list) list \<Rightarrow> bool" where
  "dir_inv crc d gs \<longleftrightarrow>
     hm_ok d \<and> hm_get d = enc_dir crc gs \<and> sorted_wrt (<) (map fst gs) \<and>
     (\<forall>r \<in> set (concat (map snd gs)). length r < 2 ^ 24)"

definition wal_inv :: "(u8 list \<Rightarrow> u32) \<Rightarrow> wal \<Rightarrow> (u64 \<times> u8 list list) list \<Rightarrow> u8 list list \<Rightarrow> bool" where
  "wal_inv crc w gs ds \<longleftrightarrow>
     dir_inv crc (wal_dir w) (gs @ [(current_file_no w, ds)]) \<and>
     current_file w = wal_name (current_file_no w) \<and>
     cursor w = length (enc_file crc ds)"

lemma sorted_wrt_less_distinct: "sorted_wrt (<) (xs :: 'a :: linorder list) \<Longrightarrow> distinct xs"
  by (simp add: strict_sorted_iff)

lemma distinct_keysI: "sorted_wrt (<) (map fst gs) \<Longrightarrow> distinct (map fst (map (\<lambda>g. (wal_name (fst g), enc_file crc (snd g))) gs))"
proof -
  assume "sorted_wrt (<) (map fst gs)"
  then have "distinct (map fst gs)" by (rule sorted_wrt_less_distinct)
  then have "distinct (map wal_name (map fst gs))"
    by (simp add: distinct_map inj_on_def)
  then show ?thesis by (simp add: comp_def)
qed

lemma enc_dir_mem:
  "sorted_wrt (<) (map fst gs) \<Longrightarrow> (n, ds) \<in> set gs \<Longrightarrow> enc_dir crc gs (wal_name n) = Some (enc_file crc ds)"
  unfolding enc_dir_def
  by (intro map_of_is_SomeI distinct_keysI) force+

lemma enc_dir_None_iff: "enc_dir crc gs name = None \<longleftrightarrow> name \<notin> wal_name ` fst ` set gs"
  by (force simp: enc_dir_def map_of_eq_None_iff)

lemma dir_inv_keys:
  assumes "dir_inv crc d gs"
  obtains ns where "map fst d = map wal_name ns" and "distinct ns" and "set ns = fst ` set gs"
proof -
  have keys: "fst ` set d = wal_name ` fst ` set gs"
    using assms hm_get_None_iff [of d] enc_dir_None_iff [of crc gs]
    unfolding dir_inv_def by (metis (no_types, lifting) set_eqI)
  let ?ns = "map (the \<circ> wal_file_no) (map fst d)"
  have "\<forall>k \<in> set (map fst d). wal_name (the (wal_file_no k)) = k"
    using keys by auto
  then have eq: "map wal_name ?ns = map fst d" by (simp add: map_idI)
  have "set ?ns = (the \<circ> wal_file_no) ` wal_name ` fst ` set gs"
    using keys by (metis image_set list.set_map)
  then have "set ?ns = fst ` set gs" by (simp add: image_image)
  moreover have "distinct ?ns"
    using eq assms by (metis dir_inv_def distinct_map hm_ok_def)
  ultimately show thesis using that eq by metis
qed

lemma map_filter_wal_name: "List.map_filter wal_file_no (map wal_name ns) = ns"
  by (induction ns) (simp_all add: List.map_filter_simps)

lemma dir_inv_file_nos: "dir_inv crc d gs \<Longrightarrow> wal_file_nos d = map fst gs"
proof -
  assume inv: "dir_inv crc d gs"
  then obtain ns where ns: "map fst d = map wal_name ns" "distinct ns" "set ns = fst ` set gs"
    by (rule dir_inv_keys)
  have gs: "sorted (map fst gs)" "distinct (map fst gs)"
    using inv by (simp_all add: dir_inv_def strict_sorted_iff)
  have "wal_file_nos d = sort ns"
    by (simp add: wal_file_nos_def ns(1) map_filter_wal_name)
  also have "\<dots> = map fst gs"
    using ns(2,3) gs by (intro sorted_distinct_set_unique) auto
  finally show ?thesis .
qed

lemma read_files_groups:
  assumes "\<forall>g \<in> set gs. hm_get d (wal_name (fst g)) = Some (enc_file crc (snd g))"
    and "\<forall>r \<in> set (concat (map snd gs)). length r < 2 ^ 24"
  shows "read_files crc d (map fst gs) = Inr (concat (map snd gs))"
  using assms
proof (induction gs)
  case Nil
  then show ?case by simp
next
  case (Cons g gs)
  obtain n ds where g: "g = (n, ds)" by force
  with Cons.prems have "read_file crc d (wal_name n) = Inr ds"
    by (simp add: read_file_def read_bytes_enc_file)
  moreover have "read_files crc d (map fst gs) = Inr (concat (map snd gs))"
    using Cons.IH Cons.prems by auto
  ultimately show ?case by (simp add: g)
qed

lemma dir_inv_read:
  assumes "dir_inv crc d gs"
  shows "read_files crc d (wal_file_nos d) = Inr (concat (map snd gs))"
  unfolding dir_inv_file_nos [OF assms]
  using assms by (intro read_files_groups) (auto simp: dir_inv_def enc_dir_mem)

subsection \<open>Appending and reopening\<close>

lemma write_all_end:
  assumes "hm_get (wal_dir w) (current_file w) = Some f" and "cursor w = length f"
  shows "write_all data w =
    w\<lparr>wal_dir := hm_insert (current_file w) (f @ data) (wal_dir w), cursor := length (f @ data)\<rparr>"
  using assms by (simp add: write_all_def)

lemma write_all_no [simp]: "current_file_no (write_all data w) = current_file_no w"
  by (simp add: write_all_def Let_def)

lemma enc_dir_fresh: "n \<notin> fst ` set gs \<Longrightarrow> enc_dir crc gs (wal_name n) = None"
  by (simp add: enc_dir_None_iff image_image image_iff)

lemma enc_dir_append:
  "n \<notin> fst ` set gs \<Longrightarrow> enc_dir crc (gs @ [(n, ds)]) = (enc_dir crc gs)(wal_name n \<mapsto> enc_file crc ds)"
proof -
  assume "n \<notin> fst ` set gs"
  then have "enc_dir crc gs (wal_name n) = None" by (rule enc_dir_fresh)
  moreover have "enc_dir crc (gs @ [(n, ds)]) = [wal_name n \<mapsto> enc_file crc ds] ++ enc_dir crc gs"
    by (simp add: enc_dir_def)
  ultimately show ?thesis
    by (auto simp: fun_eq_iff map_add_def split: option.splits)
qed

lemma enc_dir_last:
  "sorted_wrt (<) (map fst gs @ [n]) \<Longrightarrow>
   (enc_dir crc (gs @ [(n, ds)]))(wal_name n \<mapsto> enc_file crc ds') = enc_dir crc (gs @ [(n, ds')])"
proof -
  assume "sorted_wrt (<) (map fst gs @ [n])"
  then have "n \<notin> fst ` set gs" by (force simp: sorted_wrt_append)
  then show ?thesis by (simp add: enc_dir_append)
qed

lemma hm_get_insert_fun: "hm_get (hm_insert k v m) = (hm_get m)(k \<mapsto> v)"
  by (auto simp: fun_eq_iff)

lemma wal_inv_file:
  "wal_inv crc w gs ds \<Longrightarrow> hm_get (wal_dir w) (current_file w) = Some (enc_file crc ds)"
  by (simp add: wal_inv_def dir_inv_def enc_dir_mem)

lemma wal_inv_write_record:
  assumes inv: "wal_inv crc w gs ds" and d: "length d < 2 ^ 24"
  shows "wal_inv crc
    ((write_all d (write_all (encode_header \<lparr>eh_crc = crc d, eh_type = Full, eh_length = of_nat (length d)\<rparr>) w))
      \<lparr>current_size := s\<rparr>) gs (ds @ [d])"
proof -
  have bytes: "(enc_file crc ds @ encode_header \<lparr>eh_crc = crc d, eh_type = Full, eh_length = of_nat (length d)\<rparr>) @ d
      = enc_file crc (ds @ [d])"
    by (simp add: enc_file_def enc_record_def)
  have "cursor w = length (enc_file crc ds)" using inv by (simp add: wal_inv_def)
  with wal_inv_file [OF inv] bytes inv d show ?thesis
    by (simp add: wal_inv_def dir_inv_def write_all_end hm_get_insert_fun enc_dir_last)
qed

lemma wal_inv_rotate:
  assumes inv: "wal_inv crc w gs ds" and no: "current_file_no w \<noteq> - 1"
  shows "wal_inv crc (wal_rotate w) (gs @ [(current_file_no w, ds)]) []"
    and "current_file_no (wal_rotate w) = current_file_no w + 1"
proof -
  let ?n = "current_file_no w" and ?gs = "gs @ [(current_file_no w, ds)]"
  have less: "?n < ?n + 1" using no by (rule u64_less_inc)
  have sorted: "sorted_wrt (<) (map fst ?gs)" using inv by (simp add: wal_inv_def dir_inv_def)
  then have "\<forall>k \<in> set (map fst ?gs). k \<le> ?n" by (auto simp: sorted_wrt_append intro: less_imp_le)
  with less have all: "\<forall>k \<in> set (map fst ?gs). k < ?n + 1" by (blast intro: le_less_trans)
  then have new: "?n + 1 \<notin> fst ` set ?gs" by force
  then have fresh: "hm_get (wal_dir w) (wal_name (?n + 1)) = None"
    using inv enc_dir_fresh [OF new, of crc] by (simp add: wal_inv_def dir_inv_def)
  have sorted': "sorted_wrt (<) (map fst (?gs @ [(?n + 1, [])]))"
    using sorted all by (simp add: sorted_wrt_append)
  have get: "hm_get (wal_dir (wal_rotate w)) = enc_dir crc (?gs @ [(?n + 1, [])])"
    using inv fresh enc_dir_append [OF new, of crc "[]"]
    by (simp add: wal_rotate_def Let_def write_all_def hm_get_insert_fun wal_inv_def dir_inv_def enc_file_def)
  have ok: "hm_ok (wal_dir (wal_rotate w))"
    using inv fresh by (simp add: wal_rotate_def Let_def write_all_def wal_inv_def dir_inv_def)
  have fields: "current_file_no (wal_rotate w) = ?n + 1" "current_file (wal_rotate w) = wal_name (?n + 1)"
    "cursor (wal_rotate w) = length (enc_file crc [])"
    by (simp_all add: wal_rotate_def Let_def write_all_def enc_file_def)
  show "current_file_no (wal_rotate w) = ?n + 1" by (rule fields)
  show "wal_inv crc (wal_rotate w) ?gs []"
    using inv get ok sorted' unfolding wal_inv_def dir_inv_def fields by simp
qed

lemma wal_append_inv:
  assumes inv: "wal_inv crc w gs ds" and d: "length d < 2 ^ 24" and no: "current_file_no w \<noteq> - 1"
  obtains pos w' gs' ds' where "wal_append crc w d = Inr (pos, w')" and "wal_inv crc w' gs' ds'"
    and "concat (map snd gs') @ ds' = (concat (map snd gs) @ ds) @ [d]"
    and "unat (current_file_no w') \<le> Suc (unat (current_file_no w))"
proof -
  have ok: "\<not> length d > MAX_RECORD_SIZE" using d by (simp add: MAX_RECORD_SIZE_def)
  show thesis
  proof (cases "current_size w + of_nat (8 + length d) > max_file_size w")
    case True
    note rot = wal_inv_rotate [OF inv no]
    show thesis
      using ok True wal_inv_write_record [OF rot(1) d] rot(2) unat_u64_inc [OF no]
      by (intro that [of _ _ "gs @ [(current_file_no w, ds)]" "[d]"]) (auto simp: wal_append_def Let_def)
  next
    case False
    show thesis
      using ok False wal_inv_write_record [OF inv d]
      by (intro that [of _ _ gs "ds @ [d]"]) (auto simp: wal_append_def Let_def)
  qed
qed

lemma wal_append_batch_inv:
  assumes "wal_inv crc w gs ds" and "\<forall>r \<in> set rs. length r < 2 ^ 24"
    and "unat (current_file_no w) + length rs < 2 ^ 64"
  shows "\<exists>ps w' gs' ds'. wal_append_batch crc w rs = Inr (ps, w') \<and> length ps = length rs \<and>
    wal_inv crc w' gs' ds' \<and> concat (map snd gs') @ ds' = (concat (map snd gs) @ ds) @ rs"
  using assms
proof (induction rs arbitrary: w gs ds)
  case Nil
  then show ?case by auto
next
  case (Cons r rs)
  have "current_file_no w \<noteq> - 1" using Cons.prems(3) by (intro u64_not_max) simp
  with Cons.prems obtain pos w1 gs1 ds1 where step: "wal_append crc w r = Inr (pos, w1)"
    "wal_inv crc w1 gs1 ds1" "concat (map snd gs1) @ ds1 = (concat (map snd gs) @ ds) @ [r]"
    "unat (current_file_no w1) \<le> Suc (unat (current_file_no w))"
    by (elim wal_append_inv [of crc w gs ds r]) auto
  with Cons.prems have "unat (current_file_no w1) + length rs < 2 ^ 64" by simp
  with Cons.IH [OF step(2)] Cons.prems(2) obtain ps w2 gs2 ds2 where
    "wal_append_batch crc w1 rs = Inr (ps, w2)" "length ps = length rs" "wal_inv crc w2 gs2 ds2"
    "concat (map snd gs2) @ ds2 = (concat (map snd gs1) @ ds1) @ rs"
    by auto
  with step show ?case by auto
qed

lemma wal_inv_read: "wal_inv crc w gs ds \<Longrightarrow> read_entries crc w = Inr (concat (map snd gs) @ ds)"
  unfolding wal_inv_def read_entries_def by (auto dest: dir_inv_read)

text \<open>A log whose last file has been cut short.\<close>

lemma read_files_append:
  "read_files crc d (ns @ ms) = and_then (read_files crc d ns) (\<lambda>es.
     and_then (read_files crc d ms) (\<lambda>rest. Inr (es @ rest)))"
proof (induction ns)
  case Nil
  then show ?case by (cases "read_files crc d ms") simp_all
next
  case (Cons n ns)
  then show ?case
    by (cases "read_file crc d (wal_name n)"; cases "read_files crc d ns"; cases "read_files crc d ms") simp_all
qed

lemma hm_insert_keys: "hm_get m k = Some v \<Longrightarrow> map fst (hm_insert k v' m) = map fst m"
  by (induction k v' m rule: hm_insert.induct) (auto simp: hm_get_def split: if_splits)

lemma wal_inv_read_torn:
  assumes inv: "wal_inv crc w gs ds"
  shows "read_entries crc (w\<lparr>wal_dir := hm_insert (current_file w) (take k (enc_file crc ds)) (wal_dir w)\<rparr>) =
    Inr (concat (map snd gs) @ complete_records (k - 16) ds)"
proof -
  let ?n = "current_file_no w"
  let ?d = "hm_insert (wal_name ?n) (take k (enc_file crc ds)) (wal_dir w)"
  have d: "dir_inv crc (wal_dir w) (gs @ [(?n, ds)])" and name: "current_file w = wal_name ?n"
    using inv by (simp_all add: wal_inv_def)
  have "wal_file_nos ?d = wal_file_nos (wal_dir w)"
    using wal_inv_file [OF inv] by (simp add: wal_file_nos_def name hm_insert_keys)
  then have nos: "wal_file_nos ?d = map fst gs @ [?n]" by (simp add: dir_inv_file_nos [OF d])
  have others: "\<forall>g \<in> set gs. hm_get ?d (wal_name (fst g)) = Some (enc_file crc (snd g))"
    using d by (auto simp: dir_inv_def enc_dir_mem sorted_wrt_append)
  have small: "\<forall>r \<in> set (concat (map snd gs)). length r < 2 ^ 24" "\<forall>r \<in> set ds. length r < 2 ^ 24"
    using d by (auto simp: dir_inv_def)
  have "read_file crc ?d (wal_name ?n) = Inr (complete_records (k - 16) ds)"
    by (simp add: read_file_def read_bytes_enc_file_take [OF small(2)])
  then show ?thesis
    using read_files_groups [OF others small(1)] by (simp add: read_entries_def name nos read_files_append)
qed

text \<open>Opening a directory finds its last file, or starts the first one.\<close>

lemma foldl_max_wal_name:
  "foldl (\<lambda>m name. case wal_file_no name of None \<Rightarrow> m | Some n \<Rightarrow> max m n) a (map wal_name ns) = fold max ns a"
  by (induction ns arbitrary: a) (simp_all add: max.commute)

lemma max_file_no_groups:
  assumes inv: "dir_inv crc d (gs @ [(n, ds)])"
  shows "max_file_no d = n"
proof -
  obtain ns where ns: "map fst d = map wal_name ns" "set ns = fst ` set (gs @ [(n, ds)])"
    using inv by (rule dir_inv_keys)
  have "\<forall>k \<in> set ns. k \<le> n"
    using inv ns(2) by (auto simp: dir_inv_def sorted_wrt_append intro: less_imp_le)
  moreover have "n \<in> set ns" using ns(2) by force
  ultimately have "Max (set (0 # ns)) = n" by (intro Max_eqI) auto
  moreover have "fold max ns 0 = Max (set (0 # ns))" by (rule Max.set_eq_fold [symmetric])
  ultimately show ?thesis by (simp add: max_file_no_def ns(1) foldl_max_wal_name)
qed

lemma wal_open_inv:
  assumes "dir_inv crc d (gs @ [(n, ds)])"
  shows "wal_inv crc (wal_open d m) gs ds" and "current_file_no (wal_open d m) = n"
    and "wal_dir (wal_open d m) = d"
proof -
  have "hm_get d (wal_name n) = Some (enc_file crc ds)"
    using assms by (simp add: dir_inv_def enc_dir_mem)
  with assms max_file_no_groups [OF assms] show "wal_inv crc (wal_open d m) gs ds"
    and "current_file_no (wal_open d m) = n" and "wal_dir (wal_open d m) = d"
    by (simp_all add: wal_open_def Let_def wal_inv_def)
qed

lemma wal_open_empty_inv: "wal_inv crc (wal_open [] m) [] []"
  and wal_open_empty_no: "current_file_no (wal_open [] m) = 0"
  by (simp_all add: wal_open_def max_file_no_def Let_def write_all_def wal_inv_def dir_inv_def
      enc_dir_def enc_file_def fun_eq_iff hm_get_def hm_ok_def)

lemma wal_reopen_inv: "wal_inv crc w gs ds \<Longrightarrow> wal_inv crc (wal_open (wal_dir w) m) gs ds"
  unfolding wal_inv_def [of crc w] by (blast intro: wal_open_inv)

lemma wal_reopen_dir: "wal_inv crc w gs ds \<Longrightarrow> wal_dir (wal_open (wal_dir w) m) = wal_dir w"
  unfolding wal_inv_def [of crc w] by (blast intro: wal_open_inv)

end
