(* ===== verification/MemTableProps.thy ===== *)
theory MemTableProps
  imports MemTable
begin

text \<open>
  Properties of the in-memory table over any ordered map: what a lookup returns after each
  operation, the exact value of the size counter over any run, and scans as the live entries of a
  key range in ascending order.
\<close>

lemmas mt_defs = mt_put_def mt_delete_def mt_get_def mt_new_def Let_def

subsection \<open>Listings\<close>

lemma map_of_live_entries:
  "distinct (map fst es) \<Longrightarrow>
   map_of (live_entries es) k = (case map_of es k of Some (Put v) \<Rightarrow> Some v | _ \<Rightarrow> None)"
proof (induction es rule: live_entries.induct)
  case (3 k' es)
  then have "map_of es k' = None" by (simp add: map_of_eq_None_iff)
  with 3 show ?case by auto
qed auto

lemma live_entries_mem: "(k, v) \<in> set (live_entries es) \<longleftrightarrow> (k, Put v) \<in> set es"
  by (induction es rule: live_entries.induct) auto

lemma sorted_live_entries:
  "sorted_wrt (<) (map fst es) \<Longrightarrow> sorted_wrt (<) (map fst (live_entries es))"
proof (induction es rule: live_entries.induct)
  case (2 k v es)
  then show ?case by (force simp: live_entries_mem)
qed auto

lemma set_tombstone_keys: "set (tombstone_keys es) = {k. (k, Delete) \<in> set es}"
  by (induction es rule: tombstone_keys.induct) auto

subsection \<open>The table over an ordered map\<close>

definition entry_size :: "'p json_writer \<Rightarrow> 'p entry \<Rightarrow> u64" where
  "entry_size to_vec e = (case e of Put v \<Rightarrow> estimate_entry_size to_vec 0 v | Delete \<Rightarrow> 9)"

definition total_size :: "('p, 'm) skip_ops \<Rightarrow> 'p json_writer \<Rightarrow> 'm memtable \<Rightarrow> u64" where
  "total_size sm to_vec mt = sum_list (map (\<lambda>e. entry_size to_vec (snd e)) (mt_iter sm mt))"

lemma estimate_entry_size_key: "estimate_entry_size to_vec k v = entry_size to_vec (Put v)"
  by (simp add: entry_size_def estimate_entry_size_def)

text \<open>
  The skip list of a table is an ordered map from vector ids to entries.  \<open>skip\<close> interprets the
  interface on the standard library's ordered map, which satisfies the same laws.
\<close>

locale skip_list = ordered_map ops for ops :: "('p, 'm) skip_ops"
begin


lemma mt_get_fun: "mt_get ops mt = op_get ops (mt_entries mt)"
  by (simp add: fun_eq_iff mt_get_def)

lemma mt_get_new: "mt_get ops (mt_new ops t) k = None"
  by (simp add: mt_defs get_simps)

lemma mt_get_put:
  "mt_get ops (snd (mt_put ops to_vec a v mt)) k =
     (if k = a then (if mt_get ops mt a = Some Delete then None else Some (Put v)) else mt_get ops mt k)"
  by (auto simp: mt_defs get_simps split: option.splits entry.splits)

lemma mt_put_result:
  "fst (mt_put ops to_vec a v mt) = (if mt_get ops mt a = Some Delete then Inl EStorage else Inr ())"
  by (auto simp: mt_defs split: option.splits entry.splits)

lemma mt_get_delete:
  "mt_get ops (snd (mt_delete ops to_vec a mt)) k = (if k = a then Some Delete else mt_get ops mt k)"
  by (auto simp: mt_defs get_simps split: option.splits)

lemma mt_delete_result: "fst (mt_delete ops to_vec a mt) = Inr ()"
  by (simp add: mt_defs)

lemma map_of_scan:
  "map_of (mt_scan ops mt lo hi) k =
     (if (\<forall>s. lo = Some s \<longrightarrow> s \<le> k) \<and> (\<forall>e. hi = Some e \<longrightarrow> k \<le> e)
      then case mt_get ops mt k of Some (Put v) \<Rightarrow> Some v | _ \<Rightarrow> None
      else None)"
  and sorted_scan: "sorted_wrt (<) (map fst (mt_scan ops mt lo hi))"
proof -
  let ?es = "op_iter ops (mt_entries mt)"
  let ?P = "\<lambda>e. (\<forall>s. lo = Some s \<longrightarrow> s \<le> fst e) \<and> (\<forall>u. hi = Some u \<longrightarrow> fst e \<le> u)"
  have eq: "mt_scan ops mt lo hi = live_entries (filter ?P ?es)"
    using iter_sorted [of "mt_entries mt"]
    by (cases lo; cases hi)
      (simp_all add: mt_scan_def Let_def dropWhile_less_eq_filter takeWhile_le_eq_filter
        sorted_keys_filter conj_commute)
  have sorted: "sorted_wrt (<) (map fst (filter ?P ?es))"
    by (intro sorted_keys_filter iter_sorted)
  show "sorted_wrt (<) (map fst (mt_scan ops mt lo hi))"
    unfolding eq by (rule sorted_live_entries [OF sorted])
  have "map_of (filter ?P ?es) k = (case mt_get ops mt k of None \<Rightarrow> None | Some v \<Rightarrow> if ?P (k, v) then Some v else None)"
    using iter_sorted [of "mt_entries mt"] by (simp add: map_of_filter_keys iter_get mt_get_def)
  then show "map_of (mt_scan ops mt lo hi) k =
     (if (\<forall>s. lo = Some s \<longrightarrow> s \<le> k) \<and> (\<forall>e. hi = Some e \<longrightarrow> k \<le> e)
      then case mt_get ops mt k of Some (Put v) \<Rightarrow> Some v | _ \<Rightarrow> None
      else None)"
    unfolding eq map_of_live_entries [OF sorted_keys_distinct [OF sorted]]
    by (auto split: option.splits entry.splits)
qed

lemma total_size_sum:
  "total_size ops to_vec mt = (\<Sum>k \<in> dom (mt_get ops mt). entry_size to_vec (the (mt_get ops mt k)))"
  unfolding mt_get_fun by (simp add: total_size_def mt_iter_def sum_iter)

lemma finite_dom_mt_get: "finite (dom (mt_get ops mt))"
  unfolding mt_get_fun by (rule finite_dom_get)

text \<open>
  The counter minus the sum of the entry sizes.  Each operation that meets a tombstone adds the
  tombstone's nine bytes to it.
\<close>

lemma total_size_update:
  "mt_get ops mt' = (mt_get ops mt)(a \<mapsto> x) \<Longrightarrow> total_size ops to_vec mt' =
   total_size ops to_vec mt - (case mt_get ops mt a of None \<Rightarrow> 0 | Some y \<Rightarrow> entry_size to_vec y) + entry_size to_vec x"
  unfolding total_size_sum by (simp only: sum_dom_update [OF finite_dom_mt_get])

lemma total_size_remove:
  "mt_get ops mt' = (mt_get ops mt)(a := None) \<Longrightarrow> total_size ops to_vec mt' =
   total_size ops to_vec mt - (case mt_get ops mt a of None \<Rightarrow> 0 | Some y \<Rightarrow> entry_size to_vec y)"
  unfolding total_size_sum by (simp only: sum_dom_remove [OF finite_dom_mt_get])

lemma size_put:
  "mt_size (snd (mt_put ops to_vec a v mt)) - total_size ops to_vec (snd (mt_put ops to_vec a v mt)) =
   mt_size mt - total_size ops to_vec mt + (if mt_get ops mt a = Some Delete then 9 else 0)"
proof (cases "mt_get ops mt a = Some Delete")
  case True
  then have "mt_get ops (snd (mt_put ops to_vec a v mt)) = (mt_get ops mt)(a := None)"
    by (auto simp: mt_get_put)
  from total_size_remove [OF this] True show ?thesis
    by (simp add: mt_put_def Let_def mt_get_def entry_size_def)
next
  case False
  then have "mt_get ops (snd (mt_put ops to_vec a v mt)) = (mt_get ops mt)(a \<mapsto> Put v)"
    by (auto simp: mt_get_put)
  from total_size_update [OF this] False show ?thesis
    by (auto simp: mt_put_def Let_def mt_get_def estimate_entry_size_key split: option.splits entry.splits)
qed

lemma size_delete:
  "mt_size (snd (mt_delete ops to_vec a mt)) - total_size ops to_vec (snd (mt_delete ops to_vec a mt)) =
   mt_size mt - total_size ops to_vec mt + (if mt_get ops mt a = Some Delete then 9 else 0)"
proof -
  have "mt_get ops (snd (mt_delete ops to_vec a mt)) = (mt_get ops mt)(a \<mapsto> Delete)"
    by (auto simp: mt_get_delete)
  from total_size_update [OF this] show ?thesis
    by (auto simp: mt_delete_def Let_def mt_get_def estimate_tombstone_size_def estimate_entry_size_key
        entry_size_def [of _ Delete] split: option.splits entry.splits)
qed

lemma size_new: "mt_size (mt_new ops t) - total_size ops to_vec (mt_new ops t) = 0"
  by (simp add: total_size_def mt_iter_def mt_new_def iter_empty)

end

interpretation skip: skip_list "btree_ops :: ('p, (u64, 'p entry) btree) skip_ops"
  by unfold_locales

end
