(* ===== verification/SSTableProps.thy ===== *)
theory SSTableProps
  imports SSTable OrderedMap
begin

text \<open>
  Properties of the sorted string tables: every encoding (entry, block, index, footer) is decoded
  to what was encoded, the binary search finds the last block whose first key is not above the
  key, and a table built from a strictly ascending list of entries answers \<open>get\<close> and \<open>scan\<close> as
  that list does.
\<close>

subsection \<open>Entries and blocks\<close>

text \<open>
  The bytes of one entry, and what it takes for them to be read back: lengths that fit their
  32-bit fields and a payload whose JSON text the codec reads back.
\<close>

definition payload_bytes :: "'p payload_writer \<Rightarrow> 'p vector \<Rightarrow> u8 list" where
  "payload_bytes to_vec v =
     (case v_payload v of None \<Rightarrow> [] | Some p \<Rightarrow> (case to_vec p of None \<Rightarrow> [] | Some bs \<Rightarrow> bs))"

definition entry_ok :: "'p payload_writer \<Rightarrow> 'p payload_reader \<Rightarrow> 'p vector \<Rightarrow> bool" where
  "entry_ok to_vec from_slice v \<longleftrightarrow>
     length (v_data v) < 2 ^ 32 \<and>
     (case v_payload v of
        None \<Rightarrow> True
      | Some p \<Rightarrow> (case to_vec p of
          None \<Rightarrow> False
        | Some bs \<Rightarrow> bs \<noteq> [] \<and> length bs < 2 ^ 32 \<and> from_slice bs = Inr (Some p)))"

definition entry_bytes :: "'p payload_writer \<Rightarrow> 'p kv \<Rightarrow> u8 list" where
  "entry_bytes to_vec e =
     u64_le (fst e) @ u32_le (of_nat (length (v_data (snd e)))) @ concat (map u32_le (v_data (snd e))) @
     u32_le (of_nat (length (payload_bytes to_vec (snd e)))) @ payload_bytes to_vec (snd e)"

definition block_bytes :: "'p payload_writer \<Rightarrow> 'p kv list \<Rightarrow> u8 list" where
  "block_bytes to_vec es = u32_le (of_nat (length es)) @ concat (map (entry_bytes to_vec) es)"

lemma length_entry_bytes:
  "length (entry_bytes to_vec e) = 16 + 4 * length (v_data (snd e)) + length (payload_bytes to_vec (snd e))"
  by (simp add: entry_bytes_def)

lemma encode_entry_ok:
  "entry_ok to_vec from_slice (snd e) \<Longrightarrow> encode_entry to_vec e = Inr (entry_bytes to_vec e)"
  by (auto simp: entry_ok_def encode_entry_def entry_bytes_def payload_bytes_def Let_def split: option.splits)

lemma encode_entries_ok:
  "\<forall>e \<in> set es. entry_ok to_vec from_slice (snd e) \<Longrightarrow>
   encode_entries to_vec es = Inr (concat (map (entry_bytes to_vec) es))"
  by (induction es) (simp_all add: encode_entry_ok [of to_vec from_slice])

lemma encode_block_ok:
  "\<forall>e \<in> set (b_entries b). entry_ok to_vec from_slice (snd e) \<Longrightarrow>
   encode_block to_vec c b = Inr (block_bytes to_vec (b_entries b))"
  by (cases c) (simp_all add: encode_block_def encode_entries_ok [of _ to_vec from_slice] block_bytes_def Let_def)

lemma decode_entry_step:
  assumes ok: "entry_ok to_vec from_slice (snd e)"
    and data: "data = pre @ entry_bytes to_vec e @ rest" and off: "offset = length pre"
  shows "decode_entries from_slice data offset (Suc n) =
    and_then (decode_entries from_slice data (offset + length (entry_bytes to_vec e)) n) (\<lambda>es. Inr (e # es))"
proof -
  let ?v = "snd e"
  let ?key = "u64_le (fst e)" and ?dim = "u32_le (of_nat (length (v_data ?v)))"
    and ?vals = "concat (map u32_le (v_data ?v))" and ?pl = "payload_bytes to_vec ?v"
  let ?plen = "u32_le (of_nat (length ?pl))"
  have d: "data = pre @ ?key @ ?dim @ ?vals @ ?plen @ ?pl @ rest"
    by (simp add: data entry_bytes_def)
  have pl: "length ?pl < 2 ^ 32" "length (v_data ?v) < 2 ^ 32"
    using ok by (auto simp: entry_ok_def payload_bytes_def split: option.splits)
  have key: "u64_of_le (byte_range offset 8 data) = fst e"
    by (simp add: d off byte_range_skip byte_range_0_append)
  have dim: "unat (u32_of_le (byte_range (offset + 8) 4 data)) = length (v_data ?v)"
    using pl by (simp add: d off byte_range_skip byte_range_0_append unat_of_nat_u32)
  have vals: "map (\<lambda>i. u32_of_le (byte_range (offset + 8 + 4 + i * 4) 4 data)) [0..<length (v_data ?v)] = v_data ?v"
  proof -
    have "byte_range (offset + 8 + 4 + i * 4) 4 data = byte_range (i * 4) 4 (?vals @ ?plen @ ?pl @ rest)" for i
      by (simp add: d off byte_range_skip)
    then show ?thesis using map_u32_concat [of "v_data ?v" "?plen @ ?pl @ rest"] by simp
  qed
  have plen: "unat (u32_of_le (byte_range (offset + 8 + 4 + length (v_data ?v) * 4) 4 data)) = length ?pl"
    using pl by (simp add: d off byte_range_skip byte_range_0_append unat_of_nat_u32)
  have plb: "byte_range (offset + 8 + 4 + length (v_data ?v) * 4 + 4) (length ?pl) data = ?pl"
    by (simp add: d off byte_range_skip byte_range_0_append)
  have len: "offset + 8 + 4 + length (v_data ?v) * 4 + 4 + length ?pl \<le> length data"
    by (simp add: d off)
  have payload: "(if length ?pl > 0 then from_slice ?pl else Inr None) = Inr (v_payload ?v)"
    using ok by (auto simp: entry_ok_def payload_bytes_def split: option.splits)
  have v: "(fst e, \<lparr>v_data = v_data ?v, v_payload = v_payload ?v\<rparr>) = e" by (cases e) simp
  have next_off: "offset + 8 + 4 + length (v_data ?v) * 4 + 4 + length ?pl = offset + length (entry_bytes to_vec e)"
    by (simp add: length_entry_bytes)
  have checks: "\<not> offset + 8 > length data" "\<not> offset + 8 + 4 > length data"
    "\<not> offset + 8 + 4 + length (v_data ?v) * 4 > length data"
    "\<not> offset + 8 + 4 + length (v_data ?v) * 4 + 4 > length data"
    "\<not> (length ?pl > 0 \<and> offset + 8 + 4 + length (v_data ?v) * 4 + 4 + length ?pl > length data)"
    "\<not> (length ?pl > 0 \<and> length data < offset + length (entry_bytes to_vec e))"
    using len next_off by auto
  show ?thesis
    by (simp only: decode_entries.simps Let_def key dim vals plen plb payload v next_off checks if_False
        and_then_simps)
qed

lemma decode_entries_ok:
  assumes "\<forall>e \<in> set es. entry_ok to_vec from_slice (snd e)"
    and "data = pre @ concat (map (entry_bytes to_vec) es) @ rest"
  shows "decode_entries from_slice data (length pre) (length es) = Inr es"
  using assms
proof (induction es arbitrary: pre)
  case Nil
  then show ?case by simp
next
  case (Cons e es)
  have "decode_entries from_slice data (length (pre @ entry_bytes to_vec e)) (length es) = Inr es"
    using Cons.prems by (intro Cons.IH) simp_all
  moreover have "data = pre @ entry_bytes to_vec e @ (concat (map (entry_bytes to_vec) es) @ rest)"
    using Cons.prems by simp
  ultimately show ?case
    using Cons.prems decode_entry_step [of to_vec from_slice e data pre _ "length pre" "length es"]
    by (simp del: decode_entries.simps)
qed

lemma decode_block_bytes:
  assumes "\<forall>e \<in> set es. entry_ok to_vec from_slice (snd e)" and "length es < 2 ^ 32"
  shows "decode_block from_slice (block_bytes to_vec es) = Inr es"
proof -
  have "take 4 (block_bytes to_vec es) = u32_le (of_nat (length es))"
    by (simp add: block_bytes_def)
  moreover have "decode_entries from_slice (block_bytes to_vec es) (length (u32_le (of_nat (length es)))) (length es) = Inr es"
    using assms by (intro decode_entries_ok [where rest = "[]"]) (simp_all add: block_bytes_def)
  moreover have "\<not> length (block_bytes to_vec es) < 4" by (simp add: block_bytes_def)
  ultimately show ?thesis
    using assms by (simp add: decode_block_def unat_of_nat_u32)
qed

subsection \<open>The index and the footer\<close>

lemma length_encode_index_entry [simp]: "length (encode_index_entry e) = 20"
  by (simp add: encode_index_entry_def)

lemma length_concat_index [simp]: "length (concat (map encode_index_entry idx)) = 20 * length idx"
  by (induction idx) simp_all

lemma decode_index_entries_ok:
  assumes "data = pre @ concat (map encode_index_entry idx)"
  shows "decode_index_entries data (length pre) (length idx) = Some idx"
  using assms
proof (induction idx arbitrary: pre)
  case Nil
  then show ?case by simp
next
  case (Cons e idx)
  have ih: "decode_index_entries data (length pre + 20) (length idx) = Some idx"
    using Cons.IH [of "pre @ encode_index_entry e"] Cons.prems by simp
  have "byte_range (length pre) 8 data = u64_le (ix_key e)"
    "byte_range (length pre + 8) 8 data = u64_le (ix_offset e)"
    "byte_range (length pre + 16) 4 data = u32_le (ix_size e)"
    by (simp_all add: Cons.prems encode_index_entry_def byte_range_skip byte_range_0_append)
  moreover have "length data = length pre + 20 + 20 * length idx" by (simp add: Cons.prems)
  ultimately show ?case by (simp add: ih)
qed

lemma decode_index_encode:
  assumes "length idx < 2 ^ 32"
  shows "decode_index (encode_index idx) = Some idx"
proof -
  have "decode_index_entries (encode_index idx) 4 (length idx) = Some idx"
    using decode_index_entries_ok [of "encode_index idx" "u32_le (of_nat (length idx))" idx]
    by (simp add: encode_index_def)
  then show ?thesis
    using assms by (simp add: decode_index_def encode_index_def unat_of_nat_u32)
qed

lemma decode_encode_footer: "decode_footer (encode_footer f) = Inr f"
  by (simp add: decode_footer_def encode_footer_def byte_range_skip byte_range_0_append byte_range_all)

lemma length_encode_footer [simp]: "length (encode_footer f) = 24"
  by (simp add: encode_footer_def)

subsection \<open>The binary search\<close>

lemma find_block_loop_spec:
  assumes "sorted_wrt (<) (map ix_key idx)" and "low \<le> high" and "high \<le> length idx"
    and "\<forall>j < low. ix_key (idx ! j) \<le> key"
    and "\<forall>j < length idx. high \<le> j \<longrightarrow> key < ix_key (idx ! j)"
  shows "find_block_loop idx key low high \<le> length idx \<and>
    (\<forall>j < find_block_loop idx key low high. ix_key (idx ! j) \<le> key) \<and>
    (\<forall>j < length idx. find_block_loop idx key low high \<le> j \<longrightarrow> key < ix_key (idx ! j))"
  using assms
proof (induction idx key low high rule: find_block_loop.induct)
  case (1 idx key low high)
  let ?mid = "(low + high) div 2"
  have mono: "ix_key (idx ! i) \<le> ix_key (idx ! j)" if "i \<le> j" "j < length idx" for i j
    using sorted_wrt_nth_less [OF "1.prems"(1), of i j] that by (cases "i = j") simp_all
  show ?case
  proof (cases "low < high")
    case False
    then have "find_block_loop idx key low high = low"
      by (simp add: find_block_loop.simps [of idx key low high])
    with False "1.prems" show ?thesis by simp
  next
    case True
    then have mid: "low \<le> ?mid" "?mid < high" by simp_all
    show ?thesis
    proof (cases "ix_key (idx ! ?mid) \<le> key")
      case le: True
      have "\<forall>j < ?mid + 1. ix_key (idx ! j) \<le> key"
      proof (intro allI impI)
        fix j assume "j < ?mid + 1"
        then have "ix_key (idx ! j) \<le> ix_key (idx ! ?mid)"
          using mid "1.prems"(3) by (intro mono) simp_all
        then show "ix_key (idx ! j) \<le> key" using le by (rule order_trans)
      qed
      then have "find_block_loop idx key (?mid + 1) high \<le> length idx \<and>
          (\<forall>j < find_block_loop idx key (?mid + 1) high. ix_key (idx ! j) \<le> key) \<and>
          (\<forall>j < length idx. find_block_loop idx key (?mid + 1) high \<le> j \<longrightarrow> key < ix_key (idx ! j))"
        using "1.prems" mid by (intro "1.IH"(1) [OF True refl le]) simp_all
      with True le show ?thesis by (simp add: find_block_loop.simps [of idx key low high] Let_def)
    next
      case gt: False
      have "\<forall>j < length idx. ?mid \<le> j \<longrightarrow> key < ix_key (idx ! j)"
      proof (intro allI impI)
        fix j assume "j < length idx" and "?mid \<le> j"
        then have "ix_key (idx ! ?mid) \<le> ix_key (idx ! j)" by (intro mono)
        with gt show "key < ix_key (idx ! j)" by (simp add: not_le order.strict_trans2)
      qed
      then have "find_block_loop idx key low ?mid \<le> length idx \<and>
          (\<forall>j < find_block_loop idx key low ?mid. ix_key (idx ! j) \<le> key) \<and>
          (\<forall>j < length idx. find_block_loop idx key low ?mid \<le> j \<longrightarrow> key < ix_key (idx ! j))"
        using "1.prems" mid by (intro "1.IH"(2) [OF True refl gt]) simp_all
      with True gt show ?thesis by (simp add: find_block_loop.simps [of idx key low high] Let_def)
    qed
  qed
qed

lemma find_block_spec:
  assumes "sorted_wrt (<) (map ix_key (t_index t))" and "t_index t \<noteq> []"
  shows "find_block t key < length (t_index t)"
    and "0 < j \<Longrightarrow> j \<le> find_block t key \<Longrightarrow> ix_key (t_index t ! j) \<le> key"
    and "find_block t key < j \<Longrightarrow> j < length (t_index t) \<Longrightarrow> key < ix_key (t_index t ! j)"
proof -
  let ?r = "find_block_loop (t_index t) key 0 (length (t_index t))"
  have r: "?r \<le> length (t_index t)" "\<forall>j < ?r. ix_key (t_index t ! j) \<le> key"
    "\<forall>j < length (t_index t). ?r \<le> j \<longrightarrow> key < ix_key (t_index t ! j)"
    using find_block_loop_spec [OF assms(1), of 0 "length (t_index t)" key] by simp_all
  show "find_block t key < length (t_index t)"
    using r(1) assms(2) by (cases "t_index t") (auto simp: find_block_def)
  show "ix_key (t_index t ! j) \<le> key" if "0 < j" "j \<le> find_block t key"
    using r(2) that by (simp add: find_block_def)
  show "key < ix_key (t_index t ! j)" if "find_block t key < j" "j < length (t_index t)"
    using r(3) that by (simp add: find_block_def)
qed

subsection \<open>The table a builder leaves\<close>

text \<open>The index of the blocks \<open>gs\<close>, the first of which starts at \<open>off\<close>.\<close>

fun index_of :: "'p payload_writer \<Rightarrow> nat \<Rightarrow> 'p kv list list \<Rightarrow> index_entry list" where
  "index_of to_vec off [] = []"
| "index_of to_vec off (g # gs) =
     \<lparr>ix_key = fst (hd g), ix_offset = of_nat off, ix_size = of_nat (length (block_bytes to_vec g))\<rparr>
     # index_of to_vec (off + length (block_bytes to_vec g)) gs"

definition blocks_bytes :: "'p payload_writer \<Rightarrow> 'p kv list list \<Rightarrow> u8 list" where
  "blocks_bytes to_vec gs = concat (map (block_bytes to_vec) gs)"

lemma blocks_bytes_simps [simp]:
  "blocks_bytes to_vec [] = []"
  "blocks_bytes to_vec (g # gs) = block_bytes to_vec g @ blocks_bytes to_vec gs"
  "blocks_bytes to_vec (gs @ hs) = blocks_bytes to_vec gs @ blocks_bytes to_vec hs"
  by (simp_all add: blocks_bytes_def)

lemma length_index_of [simp]: "length (index_of to_vec off gs) = length gs"
  by (induction gs arbitrary: off) simp_all

lemma index_of_snoc:
  "index_of to_vec off (gs @ [g]) = index_of to_vec off gs @
     [\<lparr>ix_key = fst (hd g), ix_offset = of_nat (off + length (blocks_bytes to_vec gs)),
       ix_size = of_nat (length (block_bytes to_vec g))\<rparr>]"
  by (induction gs arbitrary: off) (simp_all add: add.assoc)

lemma index_of_nth:
  "i < length gs \<Longrightarrow> index_of to_vec off gs ! i =
     \<lparr>ix_key = fst (hd (gs ! i)), ix_offset = of_nat (off + length (blocks_bytes to_vec (take i gs))),
      ix_size = of_nat (length (block_bytes to_vec (gs ! i)))\<rparr>"
  by (induction gs arbitrary: off i) (auto simp: nth_Cons add.assoc split: nat.split)

lemma length_block_ge: "length g < length (block_bytes to_vec g)"
  by (induction g) (simp_all add: block_bytes_def length_entry_bytes)

lemma length_blocks_ge: "length gs \<le> length (blocks_bytes to_vec gs)"
proof (induction gs)
  case (Cons g gs)
  then show ?case using length_block_ge [of g to_vec] by simp
qed simp

lemma mem_concat_take: "x \<in> set (concat (take i gs)) \<Longrightarrow> \<exists>j < i. x \<in> set (gs ! j)"
  by (auto simp: in_set_conv_nth [of _ "take i gs"]) blast

lemma mem_concat_drop: "x \<in> set (concat (drop i gs)) \<Longrightarrow> \<exists>j. i \<le> j \<and> j < length gs \<and> x \<in> set (gs ! j)"
proof -
  assume "x \<in> set (concat (drop i gs))"
  then obtain k where "k < length (drop i gs)" "x \<in> set (drop i gs ! k)"
    by (auto simp: in_set_conv_nth [of _ "drop i gs"])
  then show ?thesis by (intro exI [of _ "i + k"]) simp
qed

text \<open>The keys of a block lie below those of the next ones.\<close>

lemma sorted_concat_nth:
  assumes "sorted_wrt (<) (map fst (concat gs :: ('k :: linorder \<times> 'v) list))"
    and "i < j" and "j < length gs" and "x \<in> set (gs ! i)" and "y \<in> set (gs ! j)"
  shows "fst x < fst y"
  using assms
proof (induction gs arbitrary: i j)
  case Nil
  then show ?case by simp
next
  case (Cons g gs)
  obtain j' where j: "j = Suc j'" using Cons.prems(2) by (cases j) auto
  show ?case
  proof (cases i)
    case 0
    have "y \<in> set (concat gs)" using Cons.prems j nth_mem [of j' gs] by auto
    with 0 Cons.prems show ?thesis by (auto simp: sorted_wrt_append)
  next
    case (Suc i')
    with Cons j show ?thesis by (auto simp: sorted_wrt_append)
  qed
qed

text \<open>Entries that can be read back and whose keys lie within the bounds of the metadata.\<close>

definition entries_within :: "'p payload_writer \<Rightarrow> 'p payload_reader \<Rightarrow> sst_meta \<Rightarrow> 'p kv list \<Rightarrow> bool" where
  "entries_within to_vec from_slice m es \<longleftrightarrow>
     (\<forall>e \<in> set es. entry_ok to_vec from_slice (snd e) \<and> m_min_id m \<le> fst e \<and> fst e \<le> m_max_id m)"

lemma entries_within_simps [simp]:
  "entries_within to_vec from_slice m []"
  "entries_within to_vec from_slice m (es @ fs) \<longleftrightarrow>
     entries_within to_vec from_slice m es \<and> entries_within to_vec from_slice m fs"
  "entries_within to_vec from_slice m (e # es) \<longleftrightarrow>
     (entry_ok to_vec from_slice (snd e) \<and> m_min_id m \<le> fst e \<and> fst e \<le> m_max_id m) \<and>
     entries_within to_vec from_slice m es"
  "entries_within to_vec from_slice (m\<lparr>m_entry_count := n\<rparr>) es \<longleftrightarrow> entries_within to_vec from_slice m es"
  by (auto simp: entries_within_def)

lemma entries_within_widen [simp]:
  "entries_within to_vec from_slice m es \<Longrightarrow>
   entries_within to_vec from_slice (m\<lparr>m_min_id := min (m_min_id m) k, m_max_id := max (m_max_id m) k\<rparr>) es"
  by (auto simp: entries_within_def min.coboundedI1 max.coboundedI1)

lemma entries_within_ok: "entries_within to_vec from_slice m es \<Longrightarrow> e \<in> set es \<Longrightarrow> entry_ok to_vec from_slice (snd e)"
  by (simp add: entries_within_def)

text \<open>A table whose data part is the blocks \<open>gs\<close>.\<close>

definition table_of :: "'p payload_writer \<Rightarrow> 'p payload_reader \<Rightarrow> 'p kv list list \<Rightarrow> sstable \<Rightarrow> bool" where
  "table_of to_vec from_slice gs t \<longleftrightarrow>
     t_index t = index_of to_vec 0 gs \<and>
     (\<exists>rest. t_bytes t = blocks_bytes to_vec gs @ rest) \<and> length (t_bytes t) < 2 ^ 32 \<and>
     (\<forall>g \<in> set gs. g \<noteq> []) \<and> sorted_wrt (<) (map fst (concat gs)) \<and>
     entries_within to_vec from_slice (t_meta t) (concat gs)"

lemma table_range:
  "table_of to_vec from_slice gs t \<Longrightarrow> e \<in> set (concat gs) \<Longrightarrow>
   m_min_id (t_meta t) \<le> fst e \<and> fst e \<le> m_max_id (t_meta t)"
  unfolding table_of_def entries_within_def by blast

lemma load_block_table:
  assumes t: "table_of to_vec from_slice gs t" and i: "i < length gs"
  shows "load_block_read from_slice t (t_index t ! i) = Inr (gs ! i)"
proof -
  let ?off = "length (blocks_bytes to_vec (take i gs))" and ?b = "block_bytes to_vec (gs ! i)"
  obtain rest where bytes: "t_bytes t = blocks_bytes to_vec gs @ rest" and len: "length (t_bytes t) < 2 ^ 32"
    using t by (auto simp: table_of_def)
  have "blocks_bytes to_vec gs = blocks_bytes to_vec (take i gs) @ ?b @ blocks_bytes to_vec (drop (Suc i) gs)"
    using i by (simp flip: blocks_bytes_simps add: id_take_nth_drop [symmetric])
  then have b: "t_bytes t = blocks_bytes to_vec (take i gs) @ ?b @ (blocks_bytes to_vec (drop (Suc i) gs) @ rest)"
    by (simp add: bytes)
  have off: "?off + length ?b \<le> length (t_bytes t)" by (simp add: b)
  have e: "unat (ix_offset (t_index t ! i)) = ?off" "unat (ix_size (t_index t ! i)) = length ?b"
    using t i off len by (simp_all add: table_of_def index_of_nth unat_of_nat_u64 unat_of_nat_u32)
  have "read_at (t_bytes t) ?off (length ?b) = Inr ?b"
    using off by (simp add: read_at_def b byte_range_at)
  moreover have "\<forall>e \<in> set (gs ! i). entry_ok to_vec from_slice (snd e)"
    using t nth_mem [OF i] unfolding table_of_def entries_within_def by auto
  moreover have "length (gs ! i) < 2 ^ 32"
    using length_block_ge [of "gs ! i" to_vec] off len by simp
  ultimately show ?thesis
    by (cases "m_compression (t_meta t)") (simp_all add: load_block_read_def e decode_block_bytes)
qed

lemma find_block_table:
  fixes key :: u64 and t :: sstable
  assumes t: "table_of to_vec from_slice gs t" and ne: "gs \<noteq> []"
  defines "i \<equiv> find_block t key"
  shows "i < length gs"
    and "x \<in> set (concat (take i gs)) \<Longrightarrow> fst x < key"
    and "x \<in> set (concat (drop (Suc i) gs)) \<Longrightarrow> key < fst x"
proof -
  have idx: "t_index t = index_of to_vec 0 gs" and full: "\<And>j. j < length gs \<Longrightarrow> gs ! j \<noteq> []"
    and sorted: "sorted_wrt (<) (map fst (concat gs))"
    using t by (auto simp: table_of_def)
  have key: "ix_key (t_index t ! j) = fst (hd (gs ! j))" if "j < length gs" for j
    using that by (simp add: idx index_of_nth)
  have "sorted_wrt (<) (map ix_key (t_index t))"
    using sorted_concat_nth [OF sorted] full key by (simp add: sorted_wrt_iff_nth_less idx)
  note spec = find_block_spec [OF this, where key = key, folded i_def]
  have ine: "t_index t \<noteq> []" using ne by (metis idx length_0_conv length_index_of)
  show i: "i < length gs" using spec(1) [OF ine] by (simp add: idx)
  show "fst x < key" if xin: "x \<in> set (concat (take i gs))"
  proof -
    obtain j where j: "j < i" "x \<in> set (gs ! j)"
      using mem_concat_take [OF xin] by blast
    have "fst x < fst (hd (gs ! i))"
      using sorted_concat_nth [OF sorted j(1) i j(2)] full [OF i] by simp
    also have "\<dots> \<le> key" using spec(2) [of i, OF ine] j i by (simp add: key)
    finally show ?thesis .
  qed
  show "key < fst x" if xin: "x \<in> set (concat (drop (Suc i) gs))"
  proof -
    obtain j where j: "i < j" "j < length gs" "x \<in> set (gs ! j)"
      using mem_concat_drop [OF xin] by (auto simp: Suc_le_eq)
    have "key < fst (hd (gs ! j))" using spec(3) [OF ine j(1)] j by (simp add: idx key [symmetric])
    also have "\<dots> \<le> fst x"
    proof -
      have "sorted_wrt (<) (map fst (gs ! j))"
        using sorted by (subst (asm) id_take_nth_drop [OF j(2)]) (simp add: sorted_wrt_append)
      with j(3) show ?thesis by (cases "gs ! j") auto
    qed
    finally show ?thesis .
  qed
qed

text \<open>Lookup and scan in a table.\<close>

lemma find_key_map_of: "find_key key es = map_of es key"
  by (induction es rule: find_key.induct) auto

lemma get_table:
  assumes t: "table_of to_vec from_slice gs t"
  shows "sst_get from_slice t key = Inr (map_of (concat gs) key)"
proof (cases "key < m_min_id (t_meta t) \<or> key > m_max_id (t_meta t) \<or> gs = []")
  case True
  then have "key \<notin> fst ` set (concat gs)" using table_range [OF t] by (fastforce simp: not_less)
  then have "map_of (concat gs) key = None" by (simp only: map_of_eq_None_iff not_False_eq_True)
  with True t show ?thesis by (auto simp: sst_get_def table_of_def)
next
  case False
  let ?i = "find_block t key"
  note fb = find_block_table [OF t, where key = key]
  have i: "?i < length gs" using fb(1) False by simp
  have split: "concat gs = concat (take ?i gs) @ gs ! ?i @ concat (drop (Suc ?i) gs)"
    by (subst id_take_nth_drop [OF i]) simp
  have "key \<notin> fst ` set (concat (take ?i gs))" "key \<notin> fst ` set (concat (drop (Suc ?i) gs))"
    using fb(2, 3) False by force+
  then have "map_of (concat (take ?i gs)) key = None" "map_of (concat (drop (Suc ?i) gs)) key = None"
    by (simp_all only: map_of_eq_None_iff not_False_eq_True)
  then have "map_of (concat gs) key = map_of (gs ! ?i) key"
    by (simp add: split map_add_def split: option.splits)
  moreover have "length (t_index t) = length gs" using t by (simp add: table_of_def)
  ultimately show ?thesis
    using False i load_block_table [OF t i] by (simp add: sst_get_def find_key_map_of Let_def)
qed

definition in_bounds :: "u64 \<Rightarrow> u64 \<Rightarrow> 'p kv \<Rightarrow> bool" where
  "in_bounds s e x \<longleftrightarrow> s \<le> fst x \<and> fst x \<le> e"

lemma scan_block_filter:
  "sorted_wrt (<) (map fst g) \<Longrightarrow>
   scan_block s e g = (filter (in_bounds s e) g, \<exists>x \<in> set g. e < fst x)"
proof (induction s e g rule: scan_block.induct)
  case (2 s e k v es)
  show ?case
  proof (cases "k > e")
    case True
    then have "\<forall>x \<in> set ((k, v) # es). \<not> in_bounds s e x" using 2 by (auto simp: in_bounds_def)
    then have "filter (in_bounds s e) ((k, v) # es) = []" by (simp only: filter_empty_conv)
    with True show ?thesis by simp
  qed (use 2 in \<open>auto simp: in_bounds_def\<close>)
qed simp

lemma scan_blocks_filter:
  assumes "list_all2 (\<lambda>ie g. load_block_read from_slice t ie = Inr g) ies gs"
    and "sorted_wrt (<) (map fst (concat gs))"
  shows "scan_blocks from_slice t s e ies = Inr (filter (in_bounds s e) (concat gs))"
  using assms
proof (induction rule: list_all2_induct)
  case (Cons ie ies g gs)
  have sorted: "sorted_wrt (<) (map fst g)" using Cons.prems by (simp add: sorted_wrt_append)
  show ?case
  proof (cases "\<exists>x \<in> set g. e < fst x")
    case True
    then have "\<forall>x \<in> set (concat gs). \<not> in_bounds s e x"
      using Cons.prems by (fastforce simp: sorted_wrt_append in_bounds_def)
    then have "filter (in_bounds s e) (concat gs) = []" by (simp only: filter_empty_conv)
    with True Cons sorted show ?thesis by (simp add: scan_block_filter)
  next
    case False
    with Cons sorted show ?thesis by (auto simp: scan_block_filter sorted_wrt_append)
  qed
qed simp

lemma scan_table:
  assumes t: "table_of to_vec from_slice gs t"
  shows "sst_scan from_slice t start end_id = Inr (filter (\<lambda>x.
    (case start of None \<Rightarrow> True | Some s \<Rightarrow> s \<le> fst x) \<and> (case end_id of None \<Rightarrow> True | Some e \<Rightarrow> fst x \<le> e)) (concat gs))"
    (is "_ = Inr (filter ?P _)")
proof -
  let ?s = "case start of None \<Rightarrow> m_min_id (t_meta t) | Some x \<Rightarrow> x"
  let ?e = "case end_id of None \<Rightarrow> m_max_id (t_meta t) | Some x \<Rightarrow> x"
  let ?i = "find_block t ?s"
  have sorted: "sorted_wrt (<) (map fst (concat gs))" and len: "length (t_index t) = length gs"
    using t by (simp_all add: table_of_def)
  have split: "concat gs = concat (take ?i gs) @ concat (drop ?i gs)"
    by (metis append_take_drop_id concat_append)
  have "list_all2 (\<lambda>ie g. load_block_read from_slice t ie = Inr g) (drop ?i (t_index t)) (drop ?i gs)"
    using load_block_table [OF t] len by (intro list_all2_all_nthI) (simp_all add: add.commute)
  moreover have "sorted_wrt (<) (map fst (concat (drop ?i gs)))"
    using sorted by (subst (asm) split) (simp add: sorted_wrt_append)
  ultimately have "sst_scan from_slice t start end_id = Inr (filter (in_bounds ?s ?e) (concat (drop ?i gs)))"
    by (simp add: sst_scan_def scan_blocks_filter Let_def)
  also have "filter (in_bounds ?s ?e) (concat (drop ?i gs)) = filter (in_bounds ?s ?e) (concat gs)"
  proof -
    have "filter (in_bounds ?s ?e) (concat (take ?i gs)) = []"
      using find_block_table(2) [OF t, where key = ?s]
      by (cases "gs = []") (auto simp: filter_empty_conv in_bounds_def not_le)
    then show ?thesis by (metis filter_append split append_Nil)
  qed
  also have "\<dots> = filter ?P (concat gs)"
    using table_range [OF t] by (intro arg_cong [where f = Inr] filter_cong refl) (auto simp: in_bounds_def split: option.splits)
  finally show ?thesis .
qed

subsection \<open>The builder\<close>

text \<open>
  What a builder that was given the entries \<open>es\<close> holds: the blocks \<open>gs\<close> it has written, with
  their index, and the open block, which together are \<open>es\<close> in order.
\<close>

definition builder_inv :: "'p payload_writer \<Rightarrow> 'p payload_reader \<Rightarrow> 'p kv list \<Rightarrow> 'p kv list list \<Rightarrow> 'p builder \<Rightarrow> bool" where
  "builder_inv to_vec from_slice es gs b \<longleftrightarrow>
     concat gs @ b_entries (bl_block b) = es \<and> (\<forall>g \<in> set gs. g \<noteq> []) \<and>
     bl_file b = blocks_bytes to_vec gs \<and> bl_position b = of_nat (length (bl_file b)) \<and>
     bl_index b = index_of to_vec 0 gs \<and> bl_entry_count b = of_nat (length es) \<and>
     bl_first_key b = (if b_entries (bl_block b) = [] then None else Some (fst (hd (b_entries (bl_block b))))) \<and>
     entries_within to_vec from_slice (bl_meta b) es"

lemma builder_create_inv: "builder_inv to_vec from_slice [] [] (builder_create d c bs l)"
  by (simp add: builder_inv_def builder_create_def block_new_def)

lemma flush_block_inv:
  assumes "builder_inv to_vec from_slice es gs b"
  shows "\<exists>b' gs'. flush_block to_vec b = Inr b' \<and> builder_inv to_vec from_slice es gs' b' \<and>
    b_entries (bl_block b') = [] \<and> bl_meta b' = bl_meta b \<and> bl_entry_count b' = bl_entry_count b"
proof (cases "b_entries (bl_block b) = []")
  case True
  then show ?thesis using assms by (intro exI [of _ b] exI [of _ gs]) (simp add: flush_block_def block_is_empty_def)
next
  case False
  let ?g = "b_entries (bl_block b)"
  let ?b' = "b\<lparr>bl_index := bl_index b @ [\<lparr>ix_key = fst (hd ?g), ix_offset = bl_position b,
                                         ix_size = of_nat (length (block_bytes to_vec ?g))\<rparr>],
               bl_file := bl_file b @ block_bytes to_vec ?g,
               bl_position := bl_position b + of_nat (length (block_bytes to_vec ?g)),
               bl_block := block_new (m_block_size (bl_meta b)), bl_first_key := None\<rparr>"
  have ok: "\<forall>e \<in> set ?g. entry_ok to_vec from_slice (snd e)"
    using assms by (auto simp: builder_inv_def intro: entries_within_ok)
  have "flush_block to_vec b = Inr ?b'"
    using assms False encode_block_ok [OF ok] by (simp add: flush_block_def block_is_empty_def builder_inv_def)
  moreover have "builder_inv to_vec from_slice es (gs @ [?g]) ?b'"
    using assms False by (simp add: builder_inv_def block_new_def index_of_snoc)
  ultimately show ?thesis by (intro exI [of _ ?b'] exI [of _ "gs @ [?g]"]) (simp add: block_new_def)
qed

lemma block_add_empty: "b_entries b = [] \<Longrightarrow>
    block_add to_vec k v b = (True, b\<lparr>b_entries := [(k, v)], b_size := b_size b + block_entry_size to_vec k v\<rparr>)"
  by (simp add: block_add_def block_is_empty_def)

lemma block_add_cases:
  "block_add to_vec k v b = (False, b) \<and> b_entries b \<noteq> [] \<or>
   (\<exists>n. block_add to_vec k v b = (True, b\<lparr>b_entries := b_entries b @ [(k, v)], b_size := n\<rparr>))"
  by (auto simp: block_add_def block_is_empty_def Let_def)

lemma builder_add_inv:
  assumes inv: "builder_inv to_vec from_slice es gs b" and ok: "entry_ok to_vec from_slice v"
  shows "\<exists>b' gs'. builder_add to_vec k v b = Inr b' \<and> builder_inv to_vec from_slice (es @ [(k, v)]) gs' b'"
proof -
  let ?b0 = "if bl_first_key b = None then b\<lparr>bl_first_key := Some k\<rparr> else b"
  consider n where "block_add to_vec k v (bl_block b) =
      (True, (bl_block b)\<lparr>b_entries := b_entries (bl_block b) @ [(k, v)], b_size := n\<rparr>)"
    | "block_add to_vec k v (bl_block b) = (False, bl_block b)" "b_entries (bl_block b) \<noteq> []"
    using block_add_cases [of to_vec k v "bl_block b"] by blast
  then show ?thesis
  proof cases
    case 1
    then have "\<exists>b'. builder_add to_vec k v b = Inr b' \<and> builder_inv to_vec from_slice (es @ [(k, v)]) gs b'"
      using inv ok by (auto simp: builder_add_def builder_inv_def Let_def)
    then show ?thesis by blast
  next
    case 2
    then have b0: "?b0 = b" using inv by (simp add: builder_inv_def)
    obtain b1 gs1 where b1: "flush_block to_vec b = Inr b1" "builder_inv to_vec from_slice es gs1 b1"
      "b_entries (bl_block b1) = []"
      using flush_block_inv [OF inv] by blast
    then have "\<exists>b'. builder_add to_vec k v b = Inr b' \<and> builder_inv to_vec from_slice (es @ [(k, v)]) gs1 b'"
      using 2 b0 ok by (auto simp: builder_add_def builder_inv_def block_add_empty Let_def)
    then show ?thesis by blast
  qed
qed

lemma builder_add_all_inv:
  assumes "builder_inv to_vec from_slice es0 gs b" and "\<forall>e \<in> set es. entry_ok to_vec from_slice (snd e)"
  shows "\<exists>b' gs'. builder_add_all to_vec es b = Inr b' \<and> builder_inv to_vec from_slice (es0 @ es) gs' b'"
  using assms
proof (induction es arbitrary: es0 gs b)
  case Nil
  then show ?case by auto
next
  case (Cons e es)
  obtain b1 gs1 where b1: "builder_add to_vec (fst e) (snd e) b = Inr b1"
    "builder_inv to_vec from_slice (es0 @ [e]) gs1 b1"
    using builder_add_inv [OF Cons.prems(1), of "snd e" "fst e"] Cons.prems(2) by auto
  then show ?case using Cons.IH [OF b1(2)] Cons.prems(2) by simp
qed

text \<open>The whole path: build a table from \<open>es\<close> and finish it.\<close>

definition build_table ::
  "'p payload_writer \<Rightarrow> (sst_meta \<Rightarrow> u8 list) \<Rightarrow> nat \<Rightarrow> compression_type \<Rightarrow> nat \<Rightarrow> nat \<Rightarrow> 'p kv list \<Rightarrow>
   (sst_meta \<times> u8 list) res"
where
  "build_table to_vec meta_enc dimension compression block_size level es =
     and_then (builder_add_all to_vec es (builder_create dimension compression block_size level))
       (builder_finish to_vec meta_enc)"

text \<open>The layout of a finished file.\<close>

lemma builder_finish_inv:
  assumes "builder_inv to_vec from_slice es gs b"
  shows "\<exists>gs' meta. concat gs' = es \<and> (\<forall>g \<in> set gs'. g \<noteq> []) \<and> m_entry_count meta = of_nat (length es) \<and>
    entries_within to_vec from_slice meta es \<and>
    builder_finish to_vec meta_enc b = Inr (meta,
      blocks_bytes to_vec gs' @ encode_index (index_of to_vec 0 gs') @ meta_enc meta @
      encode_footer \<lparr>f_index_offset = of_nat (length (blocks_bytes to_vec gs')),
                     f_index_size = of_nat (length (encode_index (index_of to_vec 0 gs'))),
                     f_meta_offset = of_nat (length (blocks_bytes to_vec gs') + length (encode_index (index_of to_vec 0 gs')))\<rparr> @
      u32_le SSTABLE_MAGIC @ u32_le SSTABLE_VERSION)"
proof -
  obtain b1 gs1 where b1: "flush_block to_vec b = Inr b1" "builder_inv to_vec from_slice es gs1 b1"
    "b_entries (bl_block b1) = []"
    using flush_block_inv [OF assms] by blast
  then show ?thesis
    by (intro exI [of _ gs1] exI [of _ "(bl_meta b1)\<lparr>m_entry_count := bl_entry_count b1\<rparr>"])
       (auto simp: builder_finish_def builder_inv_def Let_def)
qed

lemma build_table_inv:
  assumes "\<forall>e \<in> set es. entry_ok to_vec from_slice (snd e)"
  shows "\<exists>gs meta. concat gs = es \<and> (\<forall>g \<in> set gs. g \<noteq> []) \<and> m_entry_count meta = of_nat (length es) \<and>
    entries_within to_vec from_slice meta es \<and>
    build_table to_vec meta_enc dim c bs l es = Inr (meta,
      blocks_bytes to_vec gs @ encode_index (index_of to_vec 0 gs) @ meta_enc meta @
      encode_footer \<lparr>f_index_offset = of_nat (length (blocks_bytes to_vec gs)),
                     f_index_size = of_nat (length (encode_index (index_of to_vec 0 gs))),
                     f_meta_offset = of_nat (length (blocks_bytes to_vec gs) + length (encode_index (index_of to_vec 0 gs)))\<rparr> @
      u32_le SSTABLE_MAGIC @ u32_le SSTABLE_VERSION)"
proof -
  obtain b gs0 where b: "builder_add_all to_vec es (builder_create dim c bs l) = Inr b"
    "builder_inv to_vec from_slice es gs0 b"
    using builder_add_all_inv [OF builder_create_inv [of to_vec from_slice dim c bs l] assms] by auto
  then show ?thesis using builder_finish_inv [OF b(2), of meta_enc] by (simp add: build_table_def)
qed

text \<open>Opening a file with that layout.\<close>

lemma sst_open_layout:
  fixes data index_data meta_bytes :: "u8 list"
  defines "foot \<equiv> \<lparr>f_index_offset = of_nat (length data), f_index_size = of_nat (length index_data),
                   f_meta_offset = of_nat (length data + length index_data)\<rparr>"
  defines "file \<equiv> data @ index_data @ meta_bytes @ encode_footer foot @ u32_le SSTABLE_MAGIC @ u32_le SSTABLE_VERSION"
  assumes len: "length file < 2 ^ 63" and ne: "meta_bytes \<noteq> []" and meta: "meta_dec meta_bytes = Inr meta"
    and idx: "decode_index index_data = Some idx"
  shows "sst_open meta_dec file = Some (Inr \<lparr>t_meta = meta, t_index = idx, t_bytes = file\<rparr>)"
proof -
  let ?body = "data @ index_data @ meta_bytes"
  have flen: "length file = length ?body + 32" by (simp add: file_def)
  have body: "length ?body < 2 ^ 64" using len flen by simp
  have f1: "byte_range (length file - 8) 4 file = u32_le SSTABLE_MAGIC"
    and f2: "byte_range (length file - 4) 4 file = u32_le SSTABLE_VERSION"
    and f3: "byte_range (length file - 32) 24 file = encode_footer foot"
    by (simp_all add: file_def byte_range_skip byte_range_0_append byte_range_all)
  have o1: "unat (f_meta_offset foot) = length data + length index_data"
    and o2: "unat (f_index_offset foot) = length data" and o3: "unat (f_index_size foot) = length index_data"
    using body unat_of_nat_u64 [of "length data + length index_data"] by (simp_all add: foot_def unat_of_nat_u64)
  have end_meta: "length file - (32 + (length data + length index_data)) = length meta_bytes"
    by (simp add: flen)
  have r1: "read_at file (length data + length index_data) (length meta_bytes) = Inr meta_bytes"
    by (simp add: read_at_def file_def byte_range_skip byte_range_0_append)
  have r2: "read_at file (length data) (length index_data) = Inr index_data"
    by (simp add: read_at_def file_def byte_range_skip byte_range_0_append)
  have "length data + length index_data < length file - 32" using ne by (simp add: flen)
  moreover have "\<not> length file < 8" "\<not> length file < 32" by (simp_all add: flen)
  moreover have "\<not> 2 ^ 63 \<le> length index_data" using len flen by simp
  ultimately show ?thesis
    by (simp add: sst_open_def f1 f2 f3 decode_encode_footer o1 o2 o3 end_meta r1 r2 meta idx Let_def)
qed

text \<open>Build, open: the table has the blocks of the entries.\<close>

lemma build_open_table:
  assumes es: "\<forall>e \<in> set es. entry_ok to_vec from_slice (snd e)" "sorted_wrt (<) (map fst es)"
    and codec: "\<And>m. meta_enc m \<noteq> []" "\<And>m. meta_dec (meta_enc m) = Inr m"
    and built: "build_table to_vec meta_enc dim c bs l es = Inr (meta, file)"
    and len: "length file < 2 ^ 32"
  shows "\<exists>t gs. sst_open meta_dec file = Some (Inr t) \<and> table_of to_vec from_slice gs t \<and> concat gs = es \<and>
    t_meta t = meta \<and> m_entry_count meta = of_nat (length es)"
proof -
  obtain gs where gs: "concat gs = es" "\<forall>g \<in> set gs. g \<noteq> []" "m_entry_count meta = of_nat (length es)"
    "entries_within to_vec from_slice meta es"
    and file_eq: "file = blocks_bytes to_vec gs @ encode_index (index_of to_vec 0 gs) @ meta_enc meta @
      encode_footer \<lparr>f_index_offset = of_nat (length (blocks_bytes to_vec gs)),
                     f_index_size = of_nat (length (encode_index (index_of to_vec 0 gs))),
                     f_meta_offset = of_nat (length (blocks_bytes to_vec gs) + length (encode_index (index_of to_vec 0 gs)))\<rparr> @
      u32_le SSTABLE_MAGIC @ u32_le SSTABLE_VERSION"
    using build_table_inv [OF es(1), of meta_enc dim c bs l] built by auto
  have "length gs < 2 ^ 32" using length_blocks_ge [of gs to_vec] len by (simp add: file_eq)
  then have idx: "decode_index (encode_index (index_of to_vec 0 gs)) = Some (index_of to_vec 0 gs)"
    by (intro decode_index_encode) simp
  let ?t = "\<lparr>t_meta = meta, t_index = index_of to_vec 0 gs, t_bytes = file\<rparr>"
  have "sst_open meta_dec file = Some (Inr ?t)"
    unfolding file_eq using len [unfolded file_eq] codec idx by (intro sst_open_layout) simp_all
  moreover have "table_of to_vec from_slice gs ?t"
    using gs es len by (simp add: table_of_def file_eq)
  ultimately show ?thesis using gs by (intro exI [of _ ?t] exI [of _ gs]) simp
qed

end
