(* ===== verification/EngineProps.thy ===== *)
theory EngineProps
  imports Engine WalProps MemTableProps SSTableProps
begin

text \<open>
  Properties of the storage engine: the recovery of a log, what reads and scans return, and the
  tables that flushes and compactions write.

  What is asked of third-party code: the skip list is an ordered map, the JSON codec reads back
  the metadata (\<open>meta_codec_ok\<close>) and the records (\<open>record_ok\<close>) it has written.
\<close>

definition meta_codec_ok :: "('p, 'm) ext \<Rightarrow> bool" where
  "meta_codec_ok x \<longleftrightarrow> (\<forall>m. x_meta_enc x m \<noteq> [] \<and> x_meta_dec x (x_meta_enc x m) = Inr m)"

definition record_ok :: "('p, 'm) ext \<Rightarrow> 'p wal_record \<Rightarrow> bool" where
  "record_ok x r \<longleftrightarrow>
     (case x_rec_enc x r of None \<Rightarrow> False | Some bs \<Rightarrow> length bs < 2 ^ 24 \<and> x_rec_dec x bs = Some r)"

definition record_bytes :: "('p, 'm) ext \<Rightarrow> 'p wal_record \<Rightarrow> u8 list" where
  "record_bytes x r = (case x_rec_enc x r of None \<Rightarrow> [] | Some bs \<Rightarrow> bs)"

lemma record_ok_simps:
  assumes "record_ok x r"
  shows "x_rec_enc x r = Some (record_bytes x r)" "length (record_bytes x r) < 2 ^ 24"
    "x_rec_dec x (record_bytes x r) = Some r"
  using assms by (auto simp: record_ok_def record_bytes_def split: option.splits)

subsection \<open>Tables written and merged\<close>

definition table_holds :: "('p, 'm) ext \<Rightarrow> sstable \<Rightarrow> 'p kv list \<Rightarrow> bool" where
  "table_holds x t es \<longleftrightarrow> (\<exists>gs. table_of (x_to_vec x) (x_from_slice x) gs t \<and> concat gs = es)"

lemma table_holds_sorted: "table_holds x t es \<Longrightarrow> sorted_wrt (<) (map fst es)"
  by (auto simp: table_holds_def table_of_def)

lemma table_holds_ok: "table_holds x t es \<Longrightarrow> e \<in> set es \<Longrightarrow> entry_ok (x_to_vec x) (x_from_slice x) (snd e)"
  by (auto simp: table_holds_def table_of_def entries_within_def)

lemma table_holds_get: "table_holds x t es \<Longrightarrow> sst_get (x_from_slice x) t k = Inr (map_of es k)"
  by (auto simp: table_holds_def intro: get_table)

lemma table_holds_may: "table_holds x t es \<Longrightarrow> map_of es k \<noteq> None \<Longrightarrow> may_contain t k"
proof -
  assume t: "table_holds x t es" and "map_of es k \<noteq> None"
  then obtain v where "(k, v) \<in> set es" by (auto dest: map_of_SomeD)
  with t show ?thesis unfolding table_holds_def table_of_def entries_within_def may_contain_def by fastforce
qed

lemma table_holds_scan:
  "table_holds x t es \<Longrightarrow> sst_scan (x_from_slice x) t s e = Inr (filter (\<lambda>kv. in_range (fst kv) s e) es)"
  unfolding table_holds_def
  by (auto simp: scan_table in_range_def split: option.splits intro!: filter_cong)

lemma add_loop_ok: "builder_add_all to_vec es b = Inr b' \<Longrightarrow> add_loop to_vec es b = (Inr (), b')"
  by (induction to_vec es b rule: add_loop.induct) (auto elim!: and_then_InrE)

lemma write_table_ok:
  assumes codec: "meta_codec_ok x" and ok: "\<forall>e \<in> set es. entry_ok (x_to_vec x) (x_from_slice x) (snd e)"
    and sorted: "sorted_wrt (<) (map fst es)" and w: "write_table x d bs l es = (r, bytes)"
    and len: "length bytes < 2 ^ 32"
  shows "r = Inr () \<and> (\<exists>t. sst_open (x_meta_dec x) bytes = Some (Inr t) \<and> table_holds x t es)"
proof -
  obtain gs meta bytes' where built: "build_table (x_to_vec x) (x_meta_enc x) d CompressNone bs l es = Inr (meta, bytes')"
    using build_table_inv [OF ok, of "x_meta_enc x" d CompressNone bs l] by auto
  then obtain b where "builder_add_all (x_to_vec x) es (builder_create d CompressNone bs l) = Inr b"
    and fin: "builder_finish (x_to_vec x) (x_meta_enc x) b = Inr (meta, bytes')"
    by (auto simp: build_table_def elim!: and_then_InrE)
  then have eq: "r = Inr ()" "bytes = bytes'"
    using w by (simp_all add: write_table_def add_loop_ok)
  have "\<exists>t gs. sst_open (x_meta_dec x) bytes' = Some (Inr t) \<and> table_of (x_to_vec x) (x_from_slice x) gs t \<and>
      concat gs = es \<and> t_meta t = meta \<and> m_entry_count meta = of_nat (length es)"
    using codec len eq by (intro build_open_table [OF ok sorted _ _ built]) (simp_all add: meta_codec_ok_def)
  with eq show ?thesis unfolding table_holds_def by blast
qed

definition latest :: "('k \<times> 'v) list list \<Rightarrow> 'k \<Rightarrow> 'v option" where
  "latest ess = foldl (\<lambda>m es. m ++ map_of es) Map.empty ess"

lemma lookup_fold_insert:
  "distinct (map fst es) \<Longrightarrow>
   RBT.lookup (fold (\<lambda>(k, v). RBT.insert k v) es t) = RBT.lookup t ++ map_of es"
proof (induction es arbitrary: t)
  case (Cons e es)
  then have "fst e \<notin> dom (map_of es)" by (simp add: dom_map_of_conv_image_fst)
  with Cons show ?case by (cases e) (auto simp: map_add_def fun_eq_iff split: option.splits)
qed simp

lemma merge_loop_ok:
  assumes "list_all2 (table_holds x) ts ess"
  shows "\<exists>t'. merge_loop x ts t = Inr t' \<and> RBT.lookup t' = foldl (\<lambda>m es. m ++ map_of es) (RBT.lookup t) ess"
  using assms
proof (induction arbitrary: t rule: list_all2_induct)
  case Nil
  then show ?case by simp
next
  case (Cons tb ts es ess)
  have scan: "sst_scan (x_from_slice x) tb None None = Inr es"
    using table_holds_scan [OF Cons.hyps(1), of None None] by (simp add: in_range_def)
  have "RBT.lookup (fold (\<lambda>(k, v). RBT.insert k v) es t) = RBT.lookup t ++ map_of es"
    by (intro lookup_fold_insert sorted_keys_distinct table_holds_sorted [OF Cons.hyps(1)])
  with Cons.IH [of "fold (\<lambda>(k, v). RBT.insert k v) es t"] scan show ?case by simp
qed

lemma foldl_map_add_mem:
  "foldl (\<lambda>m es. m ++ map_of es) m0 ess k = Some v \<Longrightarrow> m0 k = Some v \<or> (\<exists>es \<in> set ess. (k, v) \<in> set es)"
proof (induction ess arbitrary: m0)
  case (Cons es ess)
  then have "(m0 ++ map_of es) k = Some v \<or> (\<exists>es \<in> set ess. (k, v) \<in> set es)" by simp
  then show ?case by (auto simp: map_add_Some_iff dest: map_of_SomeD)
qed simp

lemma foldl_map_add_None_iff:
  "foldl (\<lambda>m es. m ++ map_of es) m0 ess k = None \<longleftrightarrow> m0 k = None \<and> (\<forall>es \<in> set ess. k \<notin> fst ` set es)"
  by (induction ess arbitrary: m0) (auto simp: map_add_None map_of_eq_None_iff)

lemma store_table_get:
  "hm_get (store_table l name bytes disk) l = Some d \<Longrightarrow> hm_get d name = Some bytes"
  by (simp add: store_table_def) (metis hm_get_insert)

lemma reopen_stored:
  "reopen_table x (store_table l name bytes disk) \<lparr>tf_level = l, tf_name = name, tf_table = t\<rparr> =
   sst_open (x_meta_dec x) bytes"
  by (simp add: reopen_table_def store_table_def)

lemma merge_sstables_ok:
  assumes codec: "meta_codec_ok x" and ts: "list_all2 (table_holds x) ts ess"
    and ne: "concat ess \<noteq> []" and m: "merge_sstables x ts name l disk = (r, disk')"
    and len: "\<And>d bytes. hm_get disk' l = Some d \<Longrightarrow> hm_get d name = Some bytes \<Longrightarrow> length bytes < 2 ^ 32"
  shows "r = Inr () \<and> (\<exists>t es. reopen_table x disk' \<lparr>tf_level = l, tf_name = name, tf_table = tf\<rparr> = Some (Inr t) \<and>
    table_holds x t es \<and> map_of es = latest ess)"
proof -
  obtain t' where loop: "merge_loop x ts RBT.empty = Inr t'" and look: "RBT.lookup t' = latest ess"
    using merge_loop_ok [OF ts, of RBT.empty] by (auto simp: latest_def)
  let ?es = "RBT.entries t'"
  have look_es: "map_of ?es = latest ess" by (simp add: look RBT.map_of_entries)
  have sorted: "sorted_wrt (<) (map fst ?es)" by (simp add: RBT.distinct_entries RBT.sorted_entries strict_sorted_iff)
  have ok: "\<forall>e \<in> set ?es. entry_ok (x_to_vec x) (x_from_slice x) (snd e)"
  proof
    fix e assume "e \<in> set ?es"
    then have "latest ess (fst e) = Some (snd e)"
      by (metis look_es map_of_is_SomeI prod.collapse sorted sorted_keys_distinct)
    then obtain es where "es \<in> set ess" "e \<in> set es"
      using foldl_map_add_mem [of Map.empty ess "fst e" "snd e"] by (auto simp: latest_def)
    moreover from this ts obtain t where "table_holds x t es"
      by (metis in_set_conv_nth list_all2_conv_all_nth)
    ultimately show "entry_ok (x_to_vec x) (x_from_slice x) (snd e)" by (blast intro: table_holds_ok)
  qed
  have "?es \<noteq> []"
  proof
    assume "?es = []"
    then have none: "latest ess = Map.empty" by (simp flip: look_es)
    from ne obtain es e where "es \<in> set ess" "e \<in> set es" by (metis concat_eq_Nil_conv last_in_set)
    with none foldl_map_add_None_iff [of Map.empty ess "fst e"] show False by (auto simp: latest_def)
  qed
  moreover obtain r0 bytes where w: "write_table x (length (v_data (snd (hd ?es)))) 4096 l ?es = (r0, bytes)"
    by fastforce
  ultimately have eq: "r = r0" "disk' = store_table l name bytes disk"
    using m loop by (simp_all add: merge_sstables_def)
  have "length bytes < 2 ^ 32"
    using len by (simp add: eq store_table_def)
  from write_table_ok [OF codec ok sorted w this] look_es show ?thesis
    unfolding eq reopen_stored by blast
qed

lemma map_of_live_mt:
  "ordered_map (x_skip x) \<Longrightarrow>
   map_of (live_entries (mt_iter (x_skip x) mt)) k =
     (case mt_get (x_skip x) mt k of Some (Put v) \<Rightarrow> Some v | _ \<Rightarrow> None)"
  by (simp add: mt_iter_def mt_get_def map_of_live_entries sorted_keys_distinct ordered_map.iter_sorted ordered_map.iter_get)

lemma flush_memtable_ok:
  assumes codec: "meta_codec_ok x" and sk: "ordered_map (x_skip x)"
    and ok: "\<And>k v. mt_get (x_skip x) mt k = Some (Put v) \<Longrightarrow> entry_ok (x_to_vec x) (x_from_slice x) v"
    and f: "flush_memtable x cfg now mt disk = (r, disk')"
    and len: "\<And>d bytes. hm_get disk' 0 = Some d \<Longrightarrow> hm_get d (table_name now) = Some bytes \<Longrightarrow> length bytes < 2 ^ 32"
  shows "r = Inr () \<and> (\<exists>t es. reopen_table x disk' \<lparr>tf_level = 0, tf_name = table_name now, tf_table = tf\<rparr> = Some (Inr t) \<and>
    table_holds x t es \<and> (\<forall>k. map_of es k = (case mt_get (x_skip x) mt k of Some (Put v) \<Rightarrow> Some v | _ \<Rightarrow> None)))"
proof -
  let ?es = "live_entries (mt_iter (x_skip x) mt)"
  obtain bytes where w: "write_table x 0 (cf_block_size cfg) 0 ?es = (r, bytes)"
    and d: "disk' = store_table 0 (table_name now) bytes disk"
    using f by (auto simp: flush_memtable_def split: prod.splits)
  have sorted: "sorted_wrt (<) (map fst ?es)"
    using ordered_map.iter_sorted [OF sk] by (simp add: mt_iter_def sorted_live_entries)
  have "\<forall>e \<in> set ?es. entry_ok (x_to_vec x) (x_from_slice x) (snd e)"
    using ok by (auto simp: live_entries_mem mt_iter_def ordered_map.iter_mem [OF sk] mt_get_def)
  moreover have "length bytes < 2 ^ 32" using len by (simp add: d store_table_def)
  ultimately have "r = Inr () \<and> (\<exists>t. sst_open (x_meta_dec x) bytes = Some (Inr t) \<and> table_holds x t ?es)"
    using write_table_ok [OF codec _ sorted w] by blast
  then show ?thesis using map_of_live_mt [OF sk] unfolding d reopen_stored by blast
qed

subsection \<open>Scans and lookups\<close>

lemma scan_memtable_spec:
  assumes "distinct (map fst es)" and "scan_memtable s e es rs del = (rs', del')"
  shows "hm_get rs' k = (case map_of es k of Some (Put v) \<Rightarrow> if in_range k s e then Some v else hm_get rs k | _ \<Rightarrow> hm_get rs k)"
    and "k \<in> del' \<longleftrightarrow> k \<in> del \<or> map_of es k = Some Delete"
    and "hm_ok rs \<Longrightarrow> hm_ok rs'"
  using assms
proof (induction s e es rs del rule: scan_memtable.induct)
  case (2 s e k' v es rs del)
  {
    case 1
    then show ?case using "2.IH"(1) by (auto simp: map_of_eq_None_iff [symmetric] split: if_splits option.splits entry.splits)
  next
    case 2
    then show ?case using "2.IH"(2) by (auto simp: map_of_eq_None_iff [symmetric])
  next
    case 3
    then show ?case using "2.IH"(3) by simp
  }
next
  case (3 s e k' es rs del)
  {
    case 1
    then show ?case using "3.IH"(1) by (auto simp: map_of_eq_None_iff [symmetric] split: if_splits)
  next
    case 2
    then show ?case using "3.IH"(2) by (auto simp: map_of_eq_None_iff [symmetric])
  next
    case 3
    then show ?case using "3.IH"(3) by simp
  }
qed simp_all

lemma hm_get_scan_add:
  "distinct (map fst es) \<Longrightarrow> hm_get (scan_add del es rs) k =
     (case hm_get rs k of Some v \<Rightarrow> Some v | None \<Rightarrow> if k \<in> del then None else map_of es k)"
  by (induction del es rs rule: scan_add.induct) (auto simp: map_of_eq_None_iff [symmetric] split: option.splits)

lemma hm_ok_scan_add: "hm_ok rs \<Longrightarrow> hm_ok (scan_add del es rs)"
  by (induction del es rs rule: scan_add.induct) auto

definition tables_hold :: "('p, 'm) ext \<Rightarrow> level_dirs \<Rightarrow> table_file list \<Rightarrow> 'p kv list list \<Rightarrow> bool" where
  "tables_hold x disk tfs ess \<longleftrightarrow>
     list_all2 (\<lambda>tf es. reopen_table x disk tf = Some (Inr (tf_table tf)) \<and> table_holds x (tf_table tf) es) tfs ess"

lemma scan_tables_spec:
  assumes "list_all2 (\<lambda>tf es. reopen_table x disk tf = Some (Inr (tf_table tf)) \<and> table_holds x (tf_table tf) es) tfs ess"
    and "hm_ok rs"
  shows "\<exists>rs'. scan_tables x disk s e del tfs rs = Some (Inr rs') \<and> hm_ok rs' \<and>
    (\<forall>k. hm_get rs' k = (case hm_get rs k of Some v \<Rightarrow> Some v
       | None \<Rightarrow> if k \<in> del \<or> \<not> in_range k s e then None else map_of (concat ess) k))"
  using assms
proof (induction arbitrary: rs rule: list_all2_induct)
  case Nil
  then show ?case by (auto split: option.splits)
next
  case (Cons tf tfs es ess)
  let ?es = "filter (\<lambda>kv. in_range (fst kv) s e) es"
  have sorted: "sorted_wrt (<) (map fst es)" using Cons.hyps by (blast intro: table_holds_sorted)
  then have dist: "distinct (map fst ?es)" by (intro sorted_keys_distinct sorted_keys_filter)
  have look: "map_of ?es k = (if in_range k s e then map_of es k else None)" for k
    using sorted by (auto simp: map_of_filter_keys split: option.splits)
  obtain rs' where rs': "scan_tables x disk s e del tfs (scan_add del ?es rs) = Some (Inr rs')" "hm_ok rs'"
    "\<forall>k. hm_get rs' k = (case hm_get (scan_add del ?es rs) k of Some v \<Rightarrow> Some v
       | None \<Rightarrow> if k \<in> del \<or> \<not> in_range k s e then None else map_of (concat ess) k)"
    using Cons.IH [OF hm_ok_scan_add [OF Cons.prems]] by blast
  have "scan_tables x disk s e del (tf # tfs) rs = Some (Inr rs')"
    using Cons.hyps(1) rs'(1) table_holds_scan [of x "tf_table tf" es s e] by simp
  moreover have "hm_get rs' k = (case hm_get rs k of Some v \<Rightarrow> Some v
       | None \<Rightarrow> if k \<in> del \<or> \<not> in_range k s e then None else map_of (concat (es # ess)) k)" for k
    by (simp add: rs'(3) hm_get_scan_add [OF dist] look map_add_def split: option.splits)
  ultimately show ?case using rs'(2) by blast
qed

lemma sorted_sort_key_hm: "hm_ok rs \<Longrightarrow> sorted_wrt (<) (map fst (sort_key fst (rs :: (u64 \<times> 'v) list)))"
proof -
  assume "hm_ok rs"
  then have "distinct (map fst (sort_key fst rs))"
    by (metis distinct_map hm_ok_def set_sort distinct_sort)
  then show ?thesis by (simp add: strict_sorted_iff)
qed

lemma map_of_sort_key_hm: "hm_ok rs \<Longrightarrow> map_of (sort_key fst (rs :: (u64 \<times> 'v) list)) k = hm_get rs k"
proof -
  assume ok: "hm_ok rs"
  then have "distinct (map fst (sort_key fst rs))"
    using sorted_keys_distinct sorted_sort_key_hm by blast
  then have "map_of (sort_key fst rs) k = Some v \<longleftrightarrow> hm_get rs k = Some v" for v
    using ok by (simp add: hm_get_iff)
  then show ?thesis by (metis not_None_eq)
qed

lemma engine_scan_spec:
  assumes sk: "ordered_map (x_skip x)" and hold: "tables_hold x (en_disk e) (search_order e) ess"
  shows "\<exists>rs. engine_scan x e s t = Some (Inr rs) \<and> sorted_wrt (<) (map fst rs) \<and>
    (\<forall>k. map_of rs k = (if in_range k s t then
       (case mt_get (x_skip x) (en_mem e) k of Some (Put v) \<Rightarrow> Some v | Some Delete \<Rightarrow> None
        | None \<Rightarrow> map_of (concat ess) k) else None))"
proof -
  let ?es = "mt_iter (x_skip x) (en_mem e)"
  obtain rs0 del where m: "scan_memtable s t ?es [] {} = (rs0, del)" by fastforce
  have dist: "distinct (map fst ?es)" using sk by (simp add: mt_iter_def sorted_keys_distinct ordered_map.iter_sorted)
  have look: "map_of ?es k = mt_get (x_skip x) (en_mem e) k" for k
    using sk by (simp add: mt_iter_def mt_get_def ordered_map.iter_get)
  note mem = scan_memtable_spec [OF dist m, unfolded look]
  obtain rs where rs: "scan_tables x (en_disk e) s t del (search_order e) rs0 = Some (Inr rs)" "hm_ok rs"
    "\<forall>k. hm_get rs k = (case hm_get rs0 k of Some v \<Rightarrow> Some v
       | None \<Rightarrow> if k \<in> del \<or> \<not> in_range k s t then None else map_of (concat ess) k)"
    using scan_tables_spec [OF hold [unfolded tables_hold_def] mem(3), of s t del] by auto
  show ?thesis
  proof (intro exI conjI allI)
    show "engine_scan x e s t = Some (Inr (sort_key fst rs))"
      by (simp add: engine_scan_def m rs(1))
    show "sorted_wrt (<) (map fst (sort_key fst rs))" by (rule sorted_sort_key_hm [OF rs(2)])
    show "map_of (sort_key fst rs) k = (if in_range k s t then
       (case mt_get (x_skip x) (en_mem e) k of Some (Put v) \<Rightarrow> Some v | Some Delete \<Rightarrow> None
        | None \<Rightarrow> map_of (concat ess) k) else None)" for k
      by (simp add: map_of_sort_key_hm [OF rs(2)] rs(3) mem(1, 2) split: option.splits entry.splits)
  qed
qed

text \<open>When no two tables cover the same key, the first table that covers a key is the one that has it.\<close>

definition disjoint_tables :: "table_file list \<Rightarrow> bool" where
  "disjoint_tables tfs \<longleftrightarrow>
     (\<forall>k i j. i < j \<longrightarrow> j < length tfs \<longrightarrow> \<not> (may_contain (tf_table (tfs ! i)) k \<and> may_contain (tf_table (tfs ! j)) k))"

lemma disjoint_tables_Cons:
  "disjoint_tables (tf # tfs) \<Longrightarrow> disjoint_tables tfs \<and>
   (may_contain (tf_table tf) k \<longrightarrow> (\<forall>tf' \<in> set tfs. \<not> may_contain (tf_table tf') k))"
  unfolding disjoint_tables_def
  apply (intro conjI)
  subgoal by (metis Suc_less_eq length_Cons nth_Cons_Suc)
  subgoal by (metis in_set_conv_nth length_Cons not_less_eq nth_Cons_0 nth_Cons_Suc zero_less_Suc)
  done

lemma get_from_tables_spec:
  assumes "list_all2 (\<lambda>tf es. reopen_table x disk tf = Some (Inr (tf_table tf)) \<and> table_holds x (tf_table tf) es) tfs ess"
    and "disjoint_tables tfs"
  shows "get_from_tables x disk k tfs = Some (Inr (map_of (concat ess) k))"
  using assms
proof (induction rule: list_all2_induct)
  case (Cons tf tfs es ess)
  have hold: "table_holds x (tf_table tf) es" using Cons.hyps by simp
  note disj = disjoint_tables_Cons [OF Cons.prems, of k]
  show ?case
  proof (cases "may_contain (tf_table tf) k")
    case False
    then have "map_of es k = None" using table_holds_may [OF hold, of k] by blast
    with False Cons disj show ?thesis by (simp add: map_add_def split: option.splits)
  next
    case True
    have "map_of (concat ess) k = None"
    proof -
      have "map_of es' k = None" if mem: "es' \<in> set ess" for es'
      proof -
        obtain i where "i < length ess" "es' = ess ! i" using mem by (auto simp: in_set_conv_nth)
        then have "tfs ! i \<in> set tfs" "table_holds x (tf_table (tfs ! i)) es'"
          using Cons.hyps(2) by (auto simp: list_all2_conv_all_nth)
        then show ?thesis using disj True table_holds_may by blast
      qed
      then show ?thesis by (auto simp: map_of_eq_None_iff)
    qed
    with True Cons.hyps(1) show ?thesis by (simp add: table_holds_get [OF hold] map_add_def split: option.splits)
  qed
qed simp

subsection \<open>The log and its recovery\<close>

text \<open>
  What a list of records does to an (abstract) memory table.  \<open>None\<close>: a record puts an id that
  is deleted at that point, which the memory table refuses.
\<close>

fun replay :: "(u64 \<Rightarrow> 'p entry option) \<Rightarrow> 'p wal_record list \<Rightarrow> (u64 \<Rightarrow> 'p entry option) option" where
  "replay m [] = Some m"
| "replay m (PutRecord k v t # rs) = (if m k = Some Delete then None else replay (m(k \<mapsto> Put v)) rs)"
| "replay m (DeleteRecord k t # rs) = replay (m(k \<mapsto> Delete)) rs"

lemma replay_append:
  "replay m (rs @ rs') = (case replay m rs of None \<Rightarrow> None | Some m' \<Rightarrow> replay m' rs')"
proof (induction rs arbitrary: m)
  case (Cons r rs)
  then show ?case by (cases r) (simp_all del: fun_upd_apply)
qed simp

lemma recover_records_replay:
  assumes sk: "ordered_map (x_skip x)" and "\<forall>r \<in> set rs. record_ok x r"
  shows "case replay (mt_get (x_skip x) mt) rs of
    None \<Rightarrow> recover_records x (map (record_bytes x) rs) mt = Inl EStorage
  | Some m \<Rightarrow> \<exists>mt'. recover_records x (map (record_bytes x) rs) mt = Inr mt' \<and> mt_get (x_skip x) mt' = m"
  using assms(2)
proof (induction rs arbitrary: mt)
  case Nil
  then show ?case by simp
next
  case (Cons r rs)
  have sl: "skip_list (x_skip x)" using sk by (simp add: skip_list_def)
  have r: "x_rec_dec x (record_bytes x r) = Some r" using Cons.prems record_ok_simps(3) [of x r] by simp
  show ?case
  proof (cases r)
    case (PutRecord k v t)
    let ?out = "mt_put (x_skip x) (x_to_vec x) k v mt"
    show ?thesis
    proof (cases "mt_get (x_skip x) mt k = Some Delete")
      case True
      then show ?thesis using r by (simp add: PutRecord skip_list.mt_put_result [OF sl])
    next
      case False
      have "mt_get (x_skip x) (snd ?out) = (mt_get (x_skip x) mt)(k \<mapsto> Put v)"
        using False by (auto simp: skip_list.mt_get_put [OF sl])
      with False r Cons.IH [of "snd ?out"] Cons.prems show ?thesis
        by (auto simp: PutRecord skip_list.mt_put_result [OF sl] simp del: fun_upd_apply split: option.splits)
    qed
  next
    case (DeleteRecord k t)
    let ?out = "mt_delete (x_skip x) (x_to_vec x) k mt"
    have "mt_get (x_skip x) (snd ?out) = (mt_get (x_skip x) mt)(k \<mapsto> Delete)"
      by (auto simp: skip_list.mt_get_delete [OF sl])
    with r Cons.IH [of "snd ?out"] Cons.prems show ?thesis
      by (auto simp: DeleteRecord skip_list.mt_delete_result [OF sl] simp del: fun_upd_apply split: option.splits)
  qed
qed

text \<open>The engine's log holds the encoded records \<open>rs\<close>.\<close>

definition log_inv :: "('p, 'm) ext \<Rightarrow> wal \<Rightarrow> 'p wal_record list \<Rightarrow> bool" where
  "log_inv x w rs \<longleftrightarrow>
     (\<forall>r \<in> set rs. record_ok x r) \<and> unat (current_file_no w) \<le> length rs \<and>
     (\<exists>gs ds. wal_inv (x_crc x) w gs ds \<and> concat (map snd gs) @ ds = map (record_bytes x) rs)"

lemma log_inv_fresh: "log_inv x (wal_open [] m) []"
  unfolding log_inv_def by (intro conjI exI [of _ "[]"]) (simp_all add: wal_open_empty_inv wal_open_empty_no)

lemma log_inv_append:
  assumes inv: "log_inv x w rs" and r: "record_ok x r" and len: "length rs < 2 ^ 64 - 1"
  obtains pos w' where "wal_append (x_crc x) w (record_bytes x r) = Inr (pos, w')" and "log_inv x w' (rs @ [r])"
proof -
  obtain gs ds where wal: "wal_inv (x_crc x) w gs ds" and bs: "concat (map snd gs) @ ds = map (record_bytes x) rs"
    and no: "unat (current_file_no w) \<le> length rs"
    using inv by (auto simp: log_inv_def)
  have "current_file_no w \<noteq> - 1"
    using no len by (intro u64_not_max) linarith
  from wal_append_inv [OF wal record_ok_simps(2) [OF r] this]
  obtain pos w' gs' ds' where w': "wal_append (x_crc x) w (record_bytes x r) = Inr (pos, w')"
    "wal_inv (x_crc x) w' gs' ds'" "concat (map snd gs') @ ds' = (concat (map snd gs) @ ds) @ [record_bytes x r]"
    "unat (current_file_no w') \<le> Suc (unat (current_file_no w))"
    by blast
  have "log_inv x w' (rs @ [r])"
    using inv r w' bs no unfolding log_inv_def by (intro conjI exI [of _ gs'] exI [of _ ds']) auto
  with w'(1) show thesis by (rule that)
qed

lemma log_inv_recover:
  assumes inv: "log_inv x w rs" and sk: "ordered_map (x_skip x)"
  shows "case replay Map.empty rs of
    None \<Rightarrow> recover x (wal_open (wal_dir w) s) (mt_new (x_skip x) th) = Inl EStorage
  | Some m \<Rightarrow> \<exists>mt'. recover x (wal_open (wal_dir w) s) (mt_new (x_skip x) th) = Inr mt' \<and> mt_get (x_skip x) mt' = m"
proof -
  obtain gs ds where wal: "wal_inv (x_crc x) w gs ds" and bs: "concat (map snd gs) @ ds = map (record_bytes x) rs"
    using inv by (auto simp: log_inv_def)
  have "read_entries (x_crc x) (wal_open (wal_dir w) s) = Inr (map (record_bytes x) rs)"
    using wal_inv_read [OF wal_reopen_inv [OF wal]] bs by simp
  moreover have "mt_get (x_skip x) (mt_new (x_skip x) th) = Map.empty"
    using sk by (auto simp: skip_list.mt_get_new skip_list_def)
  ultimately show ?thesis
    using recover_records_replay [OF sk, of rs "mt_new (x_skip x) th"] inv
    by (auto simp: recover_def log_inv_def split: option.splits)
qed

text \<open>Running a list of operations until the first error.\<close>

definition engine_apply :: "('p, 'm) ext \<Rightarrow> 'p wal_record \<Rightarrow> 'm engine \<Rightarrow> (unit res \<times> 'm engine) option" where
  "engine_apply x r e =
     (case r of PutRecord k v now \<Rightarrow> engine_put x now k v e | DeleteRecord k now \<Rightarrow> engine_delete x now k e)"

fun engine_run :: "('p, 'm) ext \<Rightarrow> 'p wal_record list \<Rightarrow> 'm engine \<Rightarrow> (unit res \<times> 'm engine) option" where
  "engine_run x [] e = Some (Inr (), e)"
| "engine_run x (r # rs) e =
     (case engine_apply x r e of
        None \<Rightarrow> None
      | Some (Inl err, e1) \<Rightarrow> Some (Inl err, e1)
      | Some (Inr _, e1) \<Rightarrow> engine_run x rs e1)"

lemma maybe_flush_keeps:
  "\<exists>e'. maybe_flush x e = Some (Inr (), e') \<and> en_wal e' = en_wal e \<and> en_levels e' = en_levels e \<and>
     en_disk e' = en_disk e \<and> en_mem e' = (if should_flush (en_mem e)
       then mt_new (x_skip x) (cf_memtable_threshold (en_config e)) else en_mem e) \<and>
     (en_immutable e = [] \<longrightarrow> en_immutable e' = (if should_flush (en_mem e) \<and> en_handle e then [en_mem e] else []))"
  by (simp add: maybe_flush_def trigger_flush_def)

text \<open>One operation: it returns, its record is in the log, and it adds no other tombstone.\<close>

lemma engine_apply_log:
  assumes sk: "ordered_map (x_skip x)" and inv: "log_inv x (en_wal e) rs" and r: "record_ok x r"
    and len: "length rs < 2 ^ 64 - 1"
  shows "\<exists>res e'. engine_apply x r e = Some (res, e') \<and> log_inv x (en_wal e') (rs @ [r]) \<and>
    (case r of PutRecord k v t \<Rightarrow> mt_get (x_skip x) (en_mem e) k \<noteq> Some Delete | DeleteRecord k t \<Rightarrow> True) = (res = Inr ()) \<and>
    (\<forall>k. mt_get (x_skip x) (en_mem e') k = Some Delete \<longrightarrow>
       mt_get (x_skip x) (en_mem e) k = Some Delete \<or> (\<exists>t. r = DeleteRecord k t)) \<and>
    en_levels e' = en_levels e \<and> en_disk e' = en_disk e"
proof -
  have sl: "skip_list (x_skip x)" using sk by (simp add: skip_list_def)
  obtain pos w where w: "wal_append (x_crc x) (en_wal e) (record_bytes x r) = Inr (pos, w)" "log_inv x w (rs @ [r])"
    using log_inv_append [OF inv r len] by blast
  have enc: "x_rec_enc x r = Some (record_bytes x r)" by (rule record_ok_simps(1) [OF r])
  have new: "mt_get (x_skip x) (mt_new (x_skip x) t) k = None" for t k by (rule skip_list.mt_get_new [OF sl])
  show ?thesis
  proof (cases r)
    case (PutRecord k v t)
    obtain res mt where put: "mt_put (x_skip x) (x_to_vec x) k v (en_mem e) = (res, mt)" by fastforce
    have res: "res = (if mt_get (x_skip x) (en_mem e) k = Some Delete then Inl EStorage else Inr ())"
      using skip_list.mt_put_result [OF sl, of "x_to_vec x" k v "en_mem e"] by (simp add: put)
    have get: "mt_get (x_skip x) mt j = Some Delete \<Longrightarrow> mt_get (x_skip x) (en_mem e) j = Some Delete" for j
      using skip_list.mt_get_put [OF sl, of "x_to_vec x" k v "en_mem e" j] by (auto simp: put split: if_splits)
    obtain e2 where fl: "maybe_flush x (e\<lparr>en_wal := w, en_mem := mt\<rparr>) = Some (Inr (), e2)"
      "en_wal e2 = w" "en_levels e2 = en_levels e" "en_disk e2 = en_disk e"
      "en_mem e2 = mt \<or> (\<exists>t. en_mem e2 = mt_new (x_skip x) t)"
      using maybe_flush_keeps [of x "e\<lparr>en_wal := w, en_mem := mt\<rparr>"] by (auto split: if_splits)
    show ?thesis using w enc put res fl get new
      by (auto simp: PutRecord engine_apply_def engine_put_def)
  next
    case (DeleteRecord k t)
    obtain res mt where del: "mt_delete (x_skip x) (x_to_vec x) k (en_mem e) = (res, mt)" by fastforce
    have res: "res = Inr ()"
      using skip_list.mt_delete_result [OF sl, of "x_to_vec x" k "en_mem e"] by (simp add: del)
    have get: "mt_get (x_skip x) mt j = Some Delete \<Longrightarrow> mt_get (x_skip x) (en_mem e) j = Some Delete \<or> j = k" for j
      using skip_list.mt_get_delete [OF sl, of "x_to_vec x" k "en_mem e" j] by (auto simp: del split: if_splits)
    obtain e2 where fl: "maybe_flush x (e\<lparr>en_wal := w, en_mem := mt\<rparr>) = Some (Inr (), e2)"
      "en_wal e2 = w" "en_levels e2 = en_levels e" "en_disk e2 = en_disk e"
      "en_mem e2 = mt \<or> (\<exists>t. en_mem e2 = mt_new (x_skip x) t)"
      using maybe_flush_keeps [of x "e\<lparr>en_wal := w, en_mem := mt\<rparr>"] by (auto split: if_splits)
    show ?thesis using w enc del res fl get new
      by (auto simp: DeleteRecord engine_apply_def engine_delete_def)
  qed
qed

lemma engine_run_log:
  assumes sk: "ordered_map (x_skip x)" and "log_inv x (en_wal e) rs0" and "\<forall>r \<in> set rs. record_ok x r"
    and "length (rs0 @ rs) < 2 ^ 64" and "replay m0 rs = Some m"
    and "\<And>k. mt_get (x_skip x) (en_mem e) k = Some Delete \<Longrightarrow> m0 k = Some Delete"
  shows "\<exists>e'. engine_run x rs e = Some (Inr (), e') \<and> log_inv x (en_wal e') (rs0 @ rs)"
  using assms(2-)
proof (induction rs arbitrary: e rs0 m0)
  case Nil
  then show ?case by simp
next
  case (Cons r rs)
  have "length rs0 < 2 ^ 64 - 1" using Cons.prems(3) by simp
  from engine_apply_log [OF sk Cons.prems(1) _ this, of r] Cons.prems(2)
  obtain res e1 where e1: "engine_apply x r e = Some (res, e1)" "log_inv x (en_wal e1) (rs0 @ [r])"
    "(case r of PutRecord k v t \<Rightarrow> mt_get (x_skip x) (en_mem e) k \<noteq> Some Delete | DeleteRecord k t \<Rightarrow> True) = (res = Inr ())"
    "\<forall>k. mt_get (x_skip x) (en_mem e1) k = Some Delete \<longrightarrow>
       mt_get (x_skip x) (en_mem e) k = Some Delete \<or> (\<exists>t. r = DeleteRecord k t)"
    by auto
  have step: "res = Inr () \<and> (\<exists>m1. replay m1 rs = Some m \<and>
      (\<forall>k. mt_get (x_skip x) (en_mem e1) k = Some Delete \<longrightarrow> m1 k = Some Delete))"
  proof (cases r)
    case (PutRecord k v t)
    then have k: "m0 k \<noteq> Some Delete" "replay (m0(k \<mapsto> Put v)) rs = Some m"
      using Cons.prems(4) by (auto split: if_splits)
    then have "mt_get (x_skip x) (en_mem e) k \<noteq> Some Delete" using Cons.prems(5) by blast
    then show ?thesis using e1(3, 4) k Cons.prems(5) PutRecord by (intro conjI exI [of _ "m0(k \<mapsto> Put v)"]) auto
  next
    case (DeleteRecord k t)
    then show ?thesis using e1(3, 4) Cons.prems(4, 5) by (intro conjI exI [of _ "m0(k \<mapsto> Delete)"]) auto
  qed
  then obtain m1 where m1: "replay m1 rs = Some m" "\<And>k. mt_get (x_skip x) (en_mem e1) k = Some Delete \<Longrightarrow> m1 k = Some Delete"
    by blast
  have "\<exists>e'. engine_run x rs e1 = Some (Inr (), e') \<and> log_inv x (en_wal e') ((rs0 @ [r]) @ rs)"
    using Cons.prems(2, 3) by (intro Cons.IH [OF e1(2) _ _ m1]) simp_all
  with e1(1) step show ?case by simp
qed

end
