(* ===== verification/StorageClaims.thy ===== *)
theory StorageClaims
  imports EngineProps
begin

text \<open>
  The properties of the storage layer, each with a witness where it has a hypothesis: the
  write-ahead log, the in-memory table, the sorted string tables and the engine over them.
\<close>

subsection \<open>The write-ahead log\<close>

text \<open>
  C12.  What is appended to a fresh log, over any number of file rotations, is read back in order and
  unchanged after the log is opened again with any file size limit.
\<close>

theorem log_round_trip:
  assumes "\<forall>r \<in> set rs. length r < 2 ^ 24" and "length rs < 2 ^ 64"
  shows "\<exists>ps w. wal_append_batch crc (wal_open [] m) rs = Inr (ps, w) \<and> length ps = length rs \<and>
    read_entries crc w = Inr rs \<and> read_entries crc (wal_open (wal_dir w) m') = Inr rs"
proof -
  obtain ps w gs ds where w: "wal_append_batch crc (wal_open [] m) rs = Inr (ps, w)" "length ps = length rs"
    "wal_inv crc w gs ds" "concat (map snd gs) @ ds = rs"
    using wal_append_batch_inv [OF wal_open_empty_inv [of crc m] assms(1)] assms(2) by (auto simp: wal_open_empty_no)
  then show ?thesis using wal_inv_read [OF w(3)] wal_inv_read [OF wal_reopen_inv [OF w(3)]] by auto
qed

text \<open>
  C9.  A crash that leaves only the first \<open>k\<close> bytes of the file being written loses exactly the
  records of that file that are not complete within them: the log reads back as a prefix of what was
  appended, without an error.
\<close>

theorem torn_tail_keeps_complete_records:
  assumes rs: "\<forall>r \<in> set rs. length r < 2 ^ 24" "length rs < 2 ^ 64"
    and w: "wal_append_batch crc (wal_open [] m) rs = Inr (ps, w)"
    and f: "hm_get (wal_dir w) (current_file w) = Some f"
  shows "\<exists>before ds. rs = before @ ds \<and> f = enc_file crc ds \<and>
    read_entries crc (w\<lparr>wal_dir := hm_insert (current_file w) (take k f) (wal_dir w)\<rparr>) =
      Inr (before @ complete_records (k - 16) ds) \<and> prefix (complete_records (k - 16) ds) ds"
proof -
  obtain gs ds where inv: "wal_inv crc w gs ds" and cat: "concat (map snd gs) @ ds = rs"
    using wal_append_batch_inv [OF wal_open_empty_inv [of crc m] rs(1)] rs(2) w by (auto simp: wal_open_empty_no)
  then have fe: "f = enc_file crc ds" using wal_inv_file [OF inv] f by simp
  have "read_entries crc (w\<lparr>wal_dir := hm_insert (current_file w) (take k f) (wal_dir w)\<rparr>) =
      Inr (concat (map snd gs) @ complete_records (k - 16) ds)"
    unfolding fe by (rule wal_inv_read_torn [OF inv])
  with fe cat show ?thesis using complete_records_prefix by blast
qed

text \<open>
  A record of exactly 16 MiB is accepted, although its length does not fit the 24 bits of the
  header: the log cannot be read any more.
\<close>

theorem largest_record_unreadable:
  assumes len: "length d = 2 ^ 24" and crc: "crc d \<noteq> crc []" and m: "m = 2 ^ 26"
  shows "\<exists>pos w. wal_append crc (wal_open [] m) d = Inr (pos, w) \<and>
    read_entries crc (wal_open (wal_dir w) m) = Inl EStorage"
proof -
  let ?w0 = "wal_open [] m" and ?h = "encode_header \<lparr>eh_crc = crc d, eh_type = Full, eh_length = of_nat (length d)\<rparr>"
  have small: "\<not> current_size ?w0 + of_nat (8 + length d) > max_file_size ?w0"
    by (simp add: wal_open_def max_file_no_def Let_def write_all_def HEADER_SIZE_def m len)
  define w where "w = (write_all d (write_all ?h ?w0))
    \<lparr>current_size := current_size (write_all d (write_all ?h ?w0)) + (8 + of_nat (length d))\<rparr>"
  have app: "\<exists>pos. wal_append crc ?w0 d = Inr (pos, w)"
    using len small by (simp add: wal_append_def Let_def MAX_RECORD_SIZE_def w_def)
  have dir: "wal_dir w = [(wal_name 0, wal_header @ ?h @ d)]"
    by (simp add: w_def wal_open_def max_file_no_def Let_def write_all_def hm_get_def)
  have "read_bytes crc (wal_header @ ?h @ d) = wal_parse crc (?h @ d)"
    unfolding read_bytes_def wal_header_magic by (simp add: HEADER_SIZE_def read_records_parse)
  moreover have "wal_parse crc (?h @ d) = Inl EStorage"
  proof -
    have t: "take 8 (?h @ d) = ?h" by simp
    show ?thesis
      apply (subst wal_parse.simps)
      unfolding t decode_encode_header
      using crc by (simp add: Let_def len)
  qed
  ultimately have "read_entries crc (wal_open (wal_dir w) m) = Inl EStorage"
    by (simp add: dir wal_open_def max_file_no_def Let_def read_entries_def wal_file_nos_def List.map_filter_simps
        read_file_def hm_get_def)
  with app show ?thesis by blast
qed

subsection \<open>The in-memory table\<close>

text \<open>
  On any ordered map, a deletion leaves a tombstone and succeeds, and a put stores the vector -
  unless it meets a tombstone: then it fails and takes the tombstone away.  Other ids keep their entry.
\<close>

theorem memtable_updates:
  assumes "ordered_map sm"
  shows "mt_get sm (snd (mt_delete sm to_vec a mt)) = (mt_get sm mt)(a \<mapsto> Delete) \<and>
    fst (mt_delete sm to_vec a mt) = Inr () \<and>
    (if mt_get sm mt a = Some Delete
     then fst (mt_put sm to_vec a v mt) = Inl EStorage \<and>
       mt_get sm (snd (mt_put sm to_vec a v mt)) = (mt_get sm mt)(a := None)
     else fst (mt_put sm to_vec a v mt) = Inr () \<and>
       mt_get sm (snd (mt_put sm to_vec a v mt)) = (mt_get sm mt)(a \<mapsto> Put v))"
proof -
  have sl: "skip_list sm" using assms by (simp add: skip_list_def)
  show ?thesis
    by (simp add: fun_eq_iff skip_list.mt_get_delete [OF sl] skip_list.mt_delete_result [OF sl]
        skip_list.mt_get_put [OF sl] skip_list.mt_put_result [OF sl])
qed

text \<open>A run of puts and deletions, and how many of them met a tombstone.\<close>

fun mt_run :: "('p, 'm) skip_ops \<Rightarrow> 'p json_writer \<Rightarrow> 'p wal_record list \<Rightarrow> 'm memtable \<Rightarrow> nat \<times> 'm memtable" where
  "mt_run sm to_vec [] mt = (0, mt)"
| "mt_run sm to_vec (r # rs) mt =
     (let (k, mt1) = (case r of PutRecord k v t \<Rightarrow> (k, snd (mt_put sm to_vec k v mt))
                              | DeleteRecord k t \<Rightarrow> (k, snd (mt_delete sm to_vec k mt)));
          (hits, mt2) = mt_run sm to_vec rs mt1
      in (if mt_get sm mt k = Some Delete then Suc hits else hits, mt2))"

lemma mt_run_size:
  assumes sl: "skip_list sm"
  shows "mt_run sm to_vec rs mt = (hits, mt') \<Longrightarrow>
    mt_size mt' - total_size sm to_vec mt' = mt_size mt - total_size sm to_vec mt + 9 * of_nat hits"
proof (induction rs arbitrary: mt hits)
  case (Cons r rs)
  define k mt1 where "k = (case r of PutRecord k v t \<Rightarrow> k | DeleteRecord k t \<Rightarrow> k)"
    and "mt1 = (case r of PutRecord k v t \<Rightarrow> snd (mt_put sm to_vec k v mt) | DeleteRecord k t \<Rightarrow> snd (mt_delete sm to_vec k mt))"
  obtain hits1 where run: "mt_run sm to_vec rs mt1 = (hits1, mt')"
    and hits: "hits = (if mt_get sm mt k = Some Delete then Suc hits1 else hits1)"
    using Cons.prems by (cases r) (auto simp: k_def mt1_def split: prod.splits)
  have "mt_size mt1 - total_size sm to_vec mt1 =
      mt_size mt - total_size sm to_vec mt + (if mt_get sm mt k = Some Delete then 9 else 0)"
    by (cases r) (simp_all add: k_def mt1_def skip_list.size_put [OF sl] skip_list.size_delete [OF sl])
  with Cons.IH [OF run] hits show ?case by simp
qed simp

text \<open>
  The size counter of a table is the total size of its entries, modulo \<open>2 ^ 64\<close>, plus nine bytes
  for each operation that met a tombstone.
\<close>

theorem memtable_size_counter:
  assumes "ordered_map sm" and "mt_run sm to_vec rs (mt_new sm t) = (hits, mt)"
  shows "mt_size mt = total_size sm to_vec mt + 9 * of_nat hits"
proof -
  have sl: "skip_list sm" using assms(1) by (simp add: skip_list_def)
  show ?thesis using mt_run_size [OF sl assms(2)] skip_list.size_new [OF sl, of t to_vec] by (simp add: algebra_simps)
qed

text \<open>
  A scan of the table lists, in strictly ascending order of the ids, exactly the live vectors
  between the bounds, both included.
\<close>

theorem memtable_scan:
  assumes "ordered_map sm"
  shows "sorted_wrt (<) (map fst (mt_scan sm mt lo hi)) \<and>
    (\<forall>k. map_of (mt_scan sm mt lo hi) k =
      (if (\<forall>s. lo = Some s \<longrightarrow> s \<le> k) \<and> (\<forall>e. hi = Some e \<longrightarrow> k \<le> e)
       then case mt_get sm mt k of Some (Put v) \<Rightarrow> Some v | _ \<Rightarrow> None else None))"
proof -
  have sl: "skip_list sm" using assms by (simp add: skip_list_def)
  show ?thesis using skip_list.map_of_scan [OF sl] skip_list.sorted_scan [OF sl] by blast
qed

subsection \<open>Witnesses\<close>

definition length_crc :: "u8 list \<Rightarrow> u32" where "length_crc bs = of_nat (length bs)"

theorem log_round_trip_witness:
  "\<exists>ps w. wal_append_batch length_crc (wal_open [] 40) [[1], [2, 3], []] = Inr (ps, w) \<and>
     read_entries length_crc (wal_open (wal_dir w) 7) = Inr [[1], [2, 3], []]"
  using log_round_trip [of "[[1], [2, 3], []]" length_crc 40 7] by auto

text \<open>Twenty bytes of the only file: its header and half of the first record.\<close>

theorem torn_tail_keeps_complete_records_witness:
  "\<exists>ps w f before ds. wal_append_batch length_crc (wal_open [] 100) [[1], [2, 3]] = Inr (ps, w) \<and>
     [[1], [2, 3]] = before @ ds \<and>
     read_entries length_crc (w\<lparr>wal_dir := hm_insert (current_file w) (take 20 f) (wal_dir w)\<rparr>) =
       Inr (before @ complete_records 4 ds)"
proof -
  let ?rs = "[[1], [2, 3]] :: u8 list list"
  obtain ps w gs ds where w: "wal_append_batch length_crc (wal_open [] 100) ?rs = Inr (ps, w)"
    "wal_inv length_crc w gs ds"
    using wal_append_batch_inv [OF wal_open_empty_inv [of length_crc 100], of ?rs] by (auto simp: wal_open_empty_no)
  from torn_tail_keeps_complete_records [OF _ _ w(1) wal_inv_file [OF w(2)], of 20] w(1)
  show ?thesis by auto
qed

theorem largest_record_unreadable_witness:
  "\<exists>pos w. wal_append length_crc (wal_open [] (2 ^ 26)) (replicate (2 ^ 24) 0) = Inr (pos, w) \<and>
     read_entries length_crc (wal_open (wal_dir w) (2 ^ 26)) = Inl EStorage"
  by (rule largest_record_unreadable [OF _ _ refl]) (simp_all only: length_replicate length_crc_def, simp)

theorem memtable_updates_witness:
  "fst (mt_put (btree_ops :: (nat, (u64, nat entry) btree) skip_ops) (\<lambda>_. None) 1 \<lparr>v_data = [], v_payload = None\<rparr>
     (snd (mt_delete btree_ops (\<lambda>_. None) 1 (mt_new btree_ops 10)))) = Inl EStorage"
proof -
  let ?ops = "btree_ops :: (nat, (u64, nat entry) btree) skip_ops" and ?tv = "\<lambda>_ :: nat. None :: u8 list option"
  let ?mt = "snd (mt_delete ?ops ?tv 1 (mt_new ?ops 10))"
  have "mt_get ?ops ?mt 1 = Some Delete" by (simp add: skip.mt_get_delete)
  then show ?thesis
    using memtable_updates [OF btree.ordered_map_axioms, of ?tv 1 ?mt "\<lparr>v_data = [], v_payload = None\<rparr>"] by simp
qed

theorem memtable_size_counter_witness:
  "\<exists>mt. mt_run (btree_ops :: (nat, (u64, nat entry) btree) skip_ops) (\<lambda>_. None) [DeleteRecord 1 0, DeleteRecord 1 0] (mt_new btree_ops 10) = (1, mt) \<and>
     mt_size mt = total_size btree_ops (\<lambda>_. None) mt + 9"
proof -
  let ?ops = "btree_ops :: (nat, (u64, nat entry) btree) skip_ops" and ?tv = "\<lambda>_ :: nat. None :: u8 list option"
  obtain hits mt where r: "mt_run ?ops ?tv [DeleteRecord 1 0, DeleteRecord 1 0] (mt_new btree_ops 10) = (hits, mt)"
    by fastforce
  then have "hits = 1"
    by (simp add: skip.mt_get_new skip.mt_get_delete split: prod.splits)
  with memtable_size_counter [OF btree.ordered_map_axioms r] r show ?thesis by auto
qed

theorem memtable_scan_witness:
  "map_of (mt_scan btree_ops (snd (mt_put (btree_ops :: (nat, (u64, nat entry) btree) skip_ops) (\<lambda>_. None) 4 \<lparr>v_data = [1], v_payload = None\<rparr>
     (mt_new btree_ops 10))) (Some 2) None) 4 = Some \<lparr>v_data = [1], v_payload = None\<rparr>"
proof -
  let ?mt = "snd (mt_put (btree_ops :: (nat, (u64, nat entry) btree) skip_ops) (\<lambda>_. None) 4 \<lparr>v_data = [1], v_payload = None\<rparr> (mt_new btree_ops 10))"
  have "mt_get btree_ops ?mt 4 = Some (Put \<lparr>v_data = [1], v_payload = None\<rparr>)"
    by (simp add: skip.mt_get_put skip.mt_get_new)
  then show ?thesis
    using memtable_scan [OF btree.ordered_map_axioms, of ?mt "Some 2" None] by simp
qed

end
