(* ===== verification/EngineClaims.thy ===== *)
theory EngineClaims
  imports EngineProps
begin

text \<open>
  The properties of the sorted string tables and of the storage engine, each with a witness on a
  small engine whose third-party parts are concrete functions.
\<close>

subsection \<open>Sorted string tables\<close>

text \<open>
  C7.  A file built from a strictly ascending list of entries opens as a table that answers every
  lookup as that list does and scans to its entries within the bounds.  The JSON codec is asked to
  read back what it has written, and the file has to stay below 4 GiB.
\<close>

theorem built_table_answers_as_list:
  assumes ok: "\<forall>e \<in> set es. entry_ok to_vec from_slice (snd e)" and sorted: "sorted_wrt (<) (map fst es)"
    and codec: "\<forall>m. meta_enc m \<noteq> [] \<and> meta_dec (meta_enc m) = Inr m"
    and built: "build_table to_vec meta_enc dimension c block_size level es = Inr (meta, bytes)"
    and len: "length bytes < 2 ^ 32"
  shows "\<exists>t. sst_open meta_dec bytes = Some (Inr t) \<and> t_meta t = meta \<and>
    (\<forall>k. sst_get from_slice t k = Inr (map_of es k)) \<and>
    (\<forall>lo hi. sst_scan from_slice t lo hi = Inr (filter (\<lambda>e. in_range (fst e) lo hi) es))"
proof -
  obtain t gs where t: "sst_open meta_dec bytes = Some (Inr t)" "t_meta t = meta"
    and gs: "table_of to_vec from_slice gs t" "concat gs = es"
    using build_open_table [OF ok sorted _ _ built len] codec by blast
  have "sst_scan from_slice t lo hi = Inr (filter (\<lambda>e. in_range (fst e) lo hi) es)" for lo hi
    using gs by (auto simp: scan_table in_range_def split: option.splits intro!: filter_cong)
  then show ?thesis using t get_table [OF gs(1)] gs(2) by blast
qed

text \<open>
  A merge writes one table that answers each lookup as the last of the merged tables that has
  the key does.
\<close>

theorem merge_keeps_latest:
  assumes codec: "meta_codec_ok x" and ts: "list_all2 (table_holds x) ts ess" and ne: "concat ess \<noteq> []"
    and m: "merge_sstables x ts name l disk = (r, disk')"
    and len: "\<forall>d bytes. hm_get disk' l = Some d \<longrightarrow> hm_get d name = Some bytes \<longrightarrow> length bytes < 2 ^ 32"
  shows "r = Inr () \<and> (\<exists>t. reopen_table x disk' \<lparr>tf_level = l, tf_name = name, tf_table = tf\<rparr> = Some (Inr t) \<and>
    (\<forall>k. sst_get (x_from_slice x) t k = Inr (latest ess k)))"
proof -
  obtain t es where "r = Inr ()" "reopen_table x disk' \<lparr>tf_level = l, tf_name = name, tf_table = tf\<rparr> = Some (Inr t)"
    and t: "table_holds x t es" "map_of es = latest ess"
    using merge_sstables_ok [OF codec ts ne m, of tf] len by blast
  moreover have "sst_get (x_from_slice x) t k = Inr (latest ess k)" for k using table_holds_get [OF t(1)] t(2) by simp
  ultimately show ?thesis by blast
qed

text \<open>
  Flushing a memory table writes a level 0 table that answers each lookup with the table's live
  vector; its tombstones are not written.
\<close>

theorem flush_writes_live_entries:
  assumes codec: "meta_codec_ok x" and sk: "ordered_map (x_skip x)"
    and ok: "\<forall>k v. mt_get (x_skip x) mt k = Some (Put v) \<longrightarrow> entry_ok (x_to_vec x) (x_from_slice x) v"
    and f: "flush_memtable x cfg now mt disk = (r, disk')"
    and len: "\<forall>d bytes. hm_get disk' 0 = Some d \<longrightarrow> hm_get d (table_name now) = Some bytes \<longrightarrow> length bytes < 2 ^ 32"
  shows "r = Inr () \<and> (\<exists>t. reopen_table x disk' \<lparr>tf_level = 0, tf_name = table_name now, tf_table = tf\<rparr> = Some (Inr t) \<and>
    (\<forall>k. sst_get (x_from_slice x) t k =
      Inr (case mt_get (x_skip x) mt k of Some (Put v) \<Rightarrow> Some v | _ \<Rightarrow> None)))"
proof -
  obtain t es where "r = Inr ()" "reopen_table x disk' \<lparr>tf_level = 0, tf_name = table_name now, tf_table = tf\<rparr> = Some (Inr t)"
    and t: "table_holds x t es" "\<forall>k. map_of es k = (case mt_get (x_skip x) mt k of Some (Put v) \<Rightarrow> Some v | _ \<Rightarrow> None)"
    using flush_memtable_ok [OF codec sk _ f, of tf] ok len by blast
  moreover have "sst_get (x_from_slice x) t k = Inr (case mt_get (x_skip x) mt k of Some (Put v) \<Rightarrow> Some v | _ \<Rightarrow> None)" for k
    using table_holds_get [OF t(1)] t(2) by simp
  ultimately show ?thesis by blast
qed

subsection \<open>The engine\<close>

lemma engine_open_fresh:
  assumes sk: "ordered_map (x_skip x)"
  shows "\<exists>e0. engine_open x cfg [] [] = Some (Inr e0) \<and> log_inv x (en_wal e0) [] \<and>
    mt_get (x_skip x) (en_mem e0) = Map.empty"
proof -
  have log: "log_inv x (wal_open [] (cf_wal_segment_size cfg)) []" by (rule log_inv_fresh)
  then obtain gs ds where wal: "wal_inv (x_crc x) (wal_open [] (cf_wal_segment_size cfg)) gs ds"
    and "concat (map snd gs) @ ds = []" by (auto simp: log_inv_def)
  then have "read_entries (x_crc x) (wal_open [] (cf_wal_segment_size cfg)) = Inr []"
    using wal_inv_read [OF wal] by simp
  moreover have "mt_get (x_skip x) (mt_new (x_skip x) t) = Map.empty" for t
    using sk by (auto simp: skip_list.mt_get_new skip_list_def)
  ultimately show ?thesis
    using log by (simp add: engine_open_def recover_def load_sstables_def upt_rec hm_get_def)
qed

lemma engine_history:
  assumes sk: "ordered_map (x_skip x)" and ok: "\<forall>r \<in> set rs. record_ok x r" and len: "length rs < 2 ^ 64"
    and rep: "replay Map.empty rs = Some m"
  obtains e0 e where "engine_open x cfg [] [] = Some (Inr e0)" "engine_run x rs e0 = Some (Inr (), e)"
    "log_inv x (en_wal e) rs"
proof -
  obtain e0 where e0: "engine_open x cfg [] [] = Some (Inr e0)" "log_inv x (en_wal e0) []"
    "mt_get (x_skip x) (en_mem e0) = Map.empty"
    using engine_open_fresh [OF sk] by blast
  have "\<exists>e. engine_run x rs e0 = Some (Inr (), e) \<and> log_inv x (en_wal e) ([] @ rs)"
    using len e0(3) by (intro engine_run_log [OF sk e0(2) ok _ rep]) simp_all
  with e0(1) that show thesis by auto
qed

lemma engine_reopen:
  assumes sk: "ordered_map (x_skip x)" and log: "log_inv x w rs"
  shows "replay Map.empty rs = None \<Longrightarrow> engine_open x cfg (wal_dir w) disk = Some (Inl EStorage)"
    and "replay Map.empty rs = Some m \<Longrightarrow> load_sstables x disk \<noteq> None \<Longrightarrow>
      \<exists>e. engine_open x cfg (wal_dir w) disk = Some (Inr e) \<and> mt_get (x_skip x) (en_mem e) = m"
  using log_inv_recover [OF log sk, of "cf_wal_segment_size cfg" "cf_memtable_threshold cfg"]
  by (auto simp: engine_open_def)

text \<open>
  C2.  Crash recovery.  Take any sequence of fewer than 2^64 puts and deletions on a new engine, with any flushes
  that they trigger, in which no id is put while it is deleted and every record can be encoded within the size that
  the log accepts.  Each of them succeeds, and an engine that is opened later on the same log, whatever its
  configuration and whatever readable tables are on disk, has in its memory table exactly what the sequence
  leaves.  What a put on a deleted id does instead is shown next.
\<close>

theorem recovery_restores_operations:
  assumes sk: "ordered_map (x_skip x)" and ok: "\<forall>r \<in> set rs. record_ok x r" and len: "length rs < 2 ^ 64"
    and rep: "replay Map.empty rs = Some m" and load: "load_sstables x disk \<noteq> None"
  shows "\<exists>e0 e e'. engine_open x cfg [] [] = Some (Inr e0) \<and> engine_run x rs e0 = Some (Inr (), e) \<and>
    engine_open x cfg' (wal_dir (en_wal e)) disk = Some (Inr e') \<and> mt_get (x_skip x) (en_mem e') = m"
  using engine_history [OF sk ok len rep, of cfg] engine_reopen(2) [OF sk _ rep load, of _ cfg'] by metis

text \<open>
  C39.  Putting an id that is deleted: the record is in the log before the memory table refuses it
  (or a flush has hidden the tombstone), and from then on the engine does not open again.
\<close>

theorem put_after_delete_poisons_log:
  assumes sk: "ordered_map (x_skip x)" and ok: "\<forall>r \<in> set rs. record_ok x r" "record_ok x (PutRecord k v t)"
    and len: "length rs < 2 ^ 64 - 1" and rep: "replay Map.empty rs = Some m" and del: "m k = Some Delete"
  shows "\<exists>e0 e r e'. engine_open x cfg [] [] = Some (Inr e0) \<and> engine_run x rs e0 = Some (Inr (), e) \<and>
    engine_put x t k v e = Some (r, e') \<and> engine_open x cfg' (wal_dir (en_wal e')) disk = Some (Inl EStorage)"
proof -
  obtain e0 e where e: "engine_open x cfg [] [] = Some (Inr e0)" "engine_run x rs e0 = Some (Inr (), e)"
    "log_inv x (en_wal e) rs"
    using len by (auto intro: engine_history [OF sk ok(1) _ rep, of cfg])
  obtain r e' where put: "engine_put x t k v e = Some (r, e')" "log_inv x (en_wal e') (rs @ [PutRecord k v t])"
    using engine_apply_log [OF sk e(3) ok(2) len] by (auto simp: engine_apply_def)
  have "replay Map.empty (rs @ [PutRecord k v t]) = None" by (simp add: replay_append rep del)
  from engine_reopen(1) [OF sk put(2) this] e put(1) show ?thesis by blast
qed

text \<open>
  C32.  A scan returns, in strictly ascending order, for each id within the bounds the live vector of
  the memory table, nothing when the table has a tombstone, and otherwise the vector of the first
  table in the search order (level by level, the last table of a level first) that has the id.
\<close>

theorem scan_merges_memory_and_tables:
  assumes "ordered_map (x_skip x)" and "tables_hold x (en_disk e) (search_order e) ess"
  shows "\<exists>rs. engine_scan x e lo hi = Some (Inr rs) \<and> sorted_wrt (<) (map fst rs) \<and>
    (\<forall>k. map_of rs k = (if in_range k lo hi then
       (case mt_get (x_skip x) (en_mem e) k of Some (Put v) \<Rightarrow> Some v | Some Delete \<Rightarrow> None
        | None \<Rightarrow> map_of (concat ess) k) else None))"
  using engine_scan_spec [OF assms] by blast

text \<open>What an acknowledged write did: its record is in the log, the memory table took it, and a flush may have started.\<close>

lemma engine_put_acknowledged:
  assumes "engine_put x now k v e = Some (Inr (), e')"
  obtains w mt e2 where "mt_put (x_skip x) (x_to_vec x) k v (en_mem e) = (Inr (), mt)"
    "maybe_flush x (e\<lparr>en_wal := w, en_mem := mt\<rparr>) = Some (Inr (), e2)" "e' = e2\<lparr>en_count := en_count e2 + 1\<rparr>"
proof -
  obtain data where data: "x_rec_enc x (PutRecord k v now) = Some data"
    using assms by (cases "x_rec_enc x (PutRecord k v now)") (simp_all add: engine_put_def)
  obtain pos w where w: "wal_append (x_crc x) (en_wal e) data = Inr (pos, w)"
  proof (cases "wal_append (x_crc x) (en_wal e) data")
    case (Inl err)
    then show thesis using assms data by (simp add: engine_put_def)
  next
    case (Inr p)
    then show thesis using that by (cases p) simp
  qed
  obtain r mt where put: "mt_put (x_skip x) (x_to_vec x) k v (en_mem e) = (r, mt)" by fastforce
  show thesis
  proof (cases r)
    case (Inl err)
    then show thesis using assms data w put by (simp add: engine_put_def)
  next
    case (Inr u)
    obtain e2 where "maybe_flush x (e\<lparr>en_wal := w, en_mem := mt\<rparr>) = Some (Inr (), e2)"
      using maybe_flush_keeps [of x "e\<lparr>en_wal := w, en_mem := mt\<rparr>"] by blast
    with Inr show thesis using assms data w put that by (simp add: engine_put_def)
  qed
qed

lemma engine_delete_acknowledged:
  assumes "engine_delete x now k e = Some (Inr (), e')"
  obtains w mt where "mt_delete (x_skip x) (x_to_vec x) k (en_mem e) = (Inr (), mt)"
    "maybe_flush x (e\<lparr>en_wal := w, en_mem := mt\<rparr>) = Some (Inr (), e')"
proof -
  obtain data where data: "x_rec_enc x (DeleteRecord k now) = Some data"
    using assms by (cases "x_rec_enc x (DeleteRecord k now)") (simp_all add: engine_delete_def)
  obtain pos w where w: "wal_append (x_crc x) (en_wal e) data = Inr (pos, w)"
  proof (cases "wal_append (x_crc x) (en_wal e) data")
    case (Inl err)
    then show thesis using assms data by (simp add: engine_delete_def)
  next
    case (Inr p)
    then show thesis using that by (cases p) simp
  qed
  obtain r mt where "mt_delete (x_skip x) (x_to_vec x) k (en_mem e) = (r, mt)" by fastforce
  then have del: "mt_delete (x_skip x) (x_to_vec x) k (en_mem e) = (Inr (), mt)" by (simp add: mt_delete_def Let_def)
  with assms data w have "maybe_flush x (e\<lparr>en_wal := w, en_mem := mt\<rparr>) = Some (Inr (), e')"
    by (simp add: engine_delete_def)
  with del show thesis by (rule that)
qed

lemma engine_get_tables:
  assumes "tables_hold x (en_disk e) (search_order e) ess" and "disjoint_tables (search_order e)"
  shows "engine_get x e k = Some (Inr (case get_from_memtables x e k of Some v \<Rightarrow> Some v
    | None \<Rightarrow> map_of (concat ess) k))"
  using get_from_tables_spec [OF assms(1)[unfolded tables_hold_def] assms(2)]
  by (simp add: engine_get_def get_from_sstables_def split: option.splits)

text \<open>
  With no memory table waiting to be flushed and tables whose key ranges do not overlap, a
  lookup agrees with a scan of everything on each id that has no tombstone in the memory table.
\<close>

theorem get_agrees_with_scan:
  assumes sk: "ordered_map (x_skip x)" and hold: "tables_hold x (en_disk e) (search_order e) ess"
    and disj: "disjoint_tables (search_order e)" and imm: "en_immutable e = []"
    and live: "mt_get (x_skip x) (en_mem e) k \<noteq> Some Delete"
  shows "\<exists>rs. engine_scan x e None None = Some (Inr rs) \<and> engine_get x e k = Some (Inr (map_of rs k))"
proof -
  obtain rs where rs: "engine_scan x e None None = Some (Inr rs)"
    "\<forall>k. map_of rs k = (if in_range k None None then
       (case mt_get (x_skip x) (en_mem e) k of Some (Put v) \<Rightarrow> Some v | Some Delete \<Rightarrow> None
        | None \<Rightarrow> map_of (concat ess) k) else None)"
    using engine_scan_spec [OF sk hold] by blast
  have "engine_get x e k = Some (Inr (map_of rs k))"
    using live by (auto simp: engine_get_tables [OF hold disj] rs(2) in_range_def get_from_memtables_def imm
        split: option.splits entry.splits)
  with rs(1) show ?thesis by blast
qed

text \<open>
  Deleting an id whose vector is in a table on disk: the deletion succeeds, and the next lookup
  still returns the vector.
\<close>

theorem deleted_vector_still_found:
  assumes sk: "ordered_map (x_skip x)" and hold: "tables_hold x (en_disk e) (search_order e) ess"
    and disj: "disjoint_tables (search_order e)" and imm: "en_immutable e = []"
    and v: "map_of (concat ess) k = Some v" and del: "engine_delete x now k e = Some (Inr (), e')"
  shows "engine_get x e' k = Some (Inr (Some v))"
proof -
  have sl: "skip_list (x_skip x)" using sk by (simp add: skip_list_def)
  obtain w mt where mt: "mt_delete (x_skip x) (x_to_vec x) k (en_mem e) = (Inr (), mt)"
    and e': "maybe_flush x (e\<lparr>en_wal := w, en_mem := mt\<rparr>) = Some (Inr (), e')"
    using del by (rule engine_delete_acknowledged)
  have get: "mt_get (x_skip x) mt k = Some Delete"
    using skip_list.mt_get_delete [OF sl, of "x_to_vec x" k "en_mem e" k] by (simp add: mt)
  have kept: "en_levels e' = en_levels e" "en_disk e' = en_disk e"
    "en_mem e' = (if should_flush mt then mt_new (x_skip x) (cf_memtable_threshold (en_config e)) else mt)"
    "en_immutable e' = (if should_flush mt \<and> en_handle e then [mt] else [])"
    using maybe_flush_keeps [of x "e\<lparr>en_wal := w, en_mem := mt\<rparr>"] e' imm by auto
  have "get_from_memtables x e' k = None"
    by (simp add: get_from_memtables_def kept get skip_list.mt_get_new [OF sl])
  moreover have "search_order e' = search_order e" by (simp add: search_order_def kept)
  ultimately show ?thesis using engine_get_tables [of x e' ess k] hold disj v by (simp add: kept)
qed

text \<open>
  A put that fills the memory table of an engine without tables: it is acknowledged, the flush
  moves the memory table out of reach, and until the engine is opened again no lookup finds the
  vector, however many steps the flushing task takes.
\<close>

theorem flushed_put_not_found:
  assumes sk: "ordered_map (x_skip x)" and fresh: "search_order e = []" "en_immutable e = []" "\<not> en_handle e"
    and put: "engine_put x now k v e = Some (Inr (), e')"
    and full: "should_flush (snd (mt_put (x_skip x) (x_to_vec x) k v (en_mem e)))"
  shows "engine_get x (fold (\<lambda>(i, at). engine_task_step x i at) steps e') k = Some (Inr None)"
proof -
  have sl: "skip_list (x_skip x)" using sk by (simp add: skip_list_def)
  have e': "en_mem e' = mt_new (x_skip x) (cf_memtable_threshold (en_config e)) \<and> en_immutable e' = [] \<and>
      en_levels e' = en_levels e"
    using put
  proof (rule engine_put_acknowledged)
    fix w mt e2
    assume "mt_put (x_skip x) (x_to_vec x) k v (en_mem e) = (Inr (), mt)"
      and fl: "maybe_flush x (e\<lparr>en_wal := w, en_mem := mt\<rparr>) = Some (Inr (), e2)" and e2: "e' = e2\<lparr>en_count := en_count e2 + 1\<rparr>"
    then have "should_flush mt" using full by simp
    then show ?thesis using maybe_flush_keeps [of x "e\<lparr>en_wal := w, en_mem := mt\<rparr>"] fl e2 fresh by auto
  qed
  have step: "en_mem (engine_task_step x i at e1) = en_mem e1 \<and> en_immutable (engine_task_step x i at e1) = en_immutable e1 \<and>
      en_levels (engine_task_step x i at e1) = en_levels e1" for i at e1
    by (simp add: engine_task_step_def split: list.splits)
  have "en_mem (fold (\<lambda>(i, at). engine_task_step x i at) steps e1) = en_mem e1 \<and>
      en_immutable (fold (\<lambda>(i, at). engine_task_step x i at) steps e1) = en_immutable e1 \<and>
      en_levels (fold (\<lambda>(i, at). engine_task_step x i at) steps e1) = en_levels e1" for e1
    by (induction steps arbitrary: e1) (auto simp: step)
  moreover have "concat (map rev (en_levels e)) = []" using fresh by (simp only: search_order_def)
  ultimately show ?thesis using e'
    by (simp add: engine_get_def get_from_memtables_def get_from_sstables_def search_order_def skip_list.mt_get_new [OF sl]
        del: concat_eq_Nil_conv)
qed

subsection \<open>Witnesses\<close>

text \<open>
  Concrete functions in the place of the third-party code: the standard library's ordered map, a
  checksum, and codecs that write fixed-width words and unary numbers.
\<close>

definition sample_crc :: "u8 list \<Rightarrow> u32" where "sample_crc bs = of_nat (length bs)"

definition unary :: "nat \<Rightarrow> u8 list" where "unary n = replicate n 1 @ [0]"
definition of_unary :: "u8 list \<Rightarrow> nat" where "of_unary bs = length (takeWhile (\<lambda>b. b \<noteq> 0) bs)"

definition compression_byte :: "compression_type \<Rightarrow> u8" where
  "compression_byte c = (case c of CompressNone \<Rightarrow> 0 | CompressLz4 \<Rightarrow> 1 | CompressZstd \<Rightarrow> 2 | CompressSnappy \<Rightarrow> 3)"

definition sample_meta_enc :: "sst_meta \<Rightarrow> u8 list" where
  "sample_meta_enc m = u32_le (m_version m) @ u64_le (m_entry_count m) @ u64_le (m_min_id m) @ u64_le (m_max_id m) @
     compression_byte (m_compression m) # unary (m_dimension m) @ unary (m_block_size m) @ unary (m_level m)"

definition sample_meta_dec :: "u8 list \<Rightarrow> sst_meta res" where
  "sample_meta_dec bs =
     (let c = bs ! 28; d = drop 29 bs; b = drop (Suc (of_unary d)) d; l = drop (Suc (of_unary b)) b
      in Inr \<lparr>m_version = u32_of_le (take 4 bs), m_dimension = of_unary d,
              m_entry_count = u64_of_le (byte_range 4 8 bs), m_min_id = u64_of_le (byte_range 12 8 bs),
              m_max_id = u64_of_le (byte_range 20 8 bs),
              m_compression = (if c = 0 then CompressNone else if c = 1 then CompressLz4 else if c = 2 then CompressZstd else CompressSnappy),
              m_block_size = of_unary b, m_level = of_unary l\<rparr>)"

definition sample_rec_enc :: "'p wal_record \<Rightarrow> u8 list option" where
  "sample_rec_enc r = Some (case r of
       PutRecord k v t \<Rightarrow> 1 # u64_le k @ u64_le t @ concat (map u32_le (v_data v))
     | DeleteRecord k t \<Rightarrow> 2 # u64_le k @ u64_le t)"

definition sample_rec_dec :: "u8 list \<Rightarrow> 'p wal_record option" where
  "sample_rec_dec bs = (case bs of [] \<Rightarrow> None | b # r \<Rightarrow>
     (let k = u64_of_le (take 8 r); t = u64_of_le (byte_range 8 8 r); d = drop 16 r
      in Some (if b = 2 then DeleteRecord k t
               else PutRecord k \<lparr>v_data = map (\<lambda>i. u32_of_le (byte_range (i * 4) 4 d)) [0..<length d div 4], v_payload = None\<rparr> t)))"

definition sample_ext :: "(unit, (u64, unit entry) btree) ext" where
  "sample_ext = \<lparr>x_skip = btree_ops, x_crc = sample_crc, x_to_vec = (\<lambda>_. Some [110]), x_from_slice = (\<lambda>_. Inr (Some ())),
     x_meta_enc = sample_meta_enc, x_meta_dec = sample_meta_dec, x_rec_enc = sample_rec_enc, x_rec_dec = sample_rec_dec\<rparr>"

lemma of_unary [simp]: "of_unary (unary n @ bs) = n" "drop (Suc n) (unary n @ bs) = bs" "length (unary n) = Suc n"
proof -
  have "takeWhile (\<lambda>b. b \<noteq> 0) (replicate n (1 :: u8) @ 0 # bs) = replicate n 1"
    by (induction n) simp_all
  then show "of_unary (unary n @ bs) = n" by (simp add: of_unary_def unary_def)
qed (simp_all add: unary_def)

lemma of_unary_end [simp]: "of_unary (unary n) = n"
  using of_unary(1) [of n "[]"] by simp

lemma sample_meta_codec: "sample_meta_dec (sample_meta_enc m) = Inr m"
proof -
  let ?tail = "compression_byte (m_compression m) # unary (m_dimension m) @ unary (m_block_size m) @ unary (m_level m)"
  have c: "sample_meta_enc m ! 28 = compression_byte (m_compression m)" "drop 29 (sample_meta_enc m) = tl ?tail"
    by (simp_all add: sample_meta_enc_def nth_append)
  have w: "take 4 (sample_meta_enc m) = u32_le (m_version m)" "byte_range 4 8 (sample_meta_enc m) = u64_le (m_entry_count m)"
    "byte_range 12 8 (sample_meta_enc m) = u64_le (m_min_id m)" "byte_range 20 8 (sample_meta_enc m) = u64_le (m_max_id m)"
    by (simp_all add: sample_meta_enc_def byte_range_def)
  show ?thesis
    unfolding sample_meta_dec_def c w
    by (cases "m_compression m") (simp_all add: compression_byte_def)
qed

lemma sample_ext_ok: "ordered_map (x_skip sample_ext)" "meta_codec_ok sample_ext"
  by (simp_all add: sample_ext_def meta_codec_ok_def sample_meta_codec btree.ordered_map_axioms)
     (simp add: sample_meta_enc_def)

lemma sample_record_ok:
  "record_ok sample_ext (DeleteRecord k t)"
  "length xs < 2 ^ 20 \<Longrightarrow> record_ok sample_ext (PutRecord k \<lparr>v_data = xs, v_payload = None\<rparr> t)"
proof -
  show "record_ok sample_ext (DeleteRecord k t)"
    by (simp add: record_ok_def sample_ext_def sample_rec_enc_def sample_rec_dec_def byte_range_def)
  assume l: "length xs < 2 ^ 20"
  have len: "length (concat (map u32_le xs)) = length xs * 4" by (induction xs) simp_all
  show "record_ok sample_ext (PutRecord k \<lparr>v_data = xs, v_payload = None\<rparr> t)"
    using l map_u32_concat [of xs "[]"]
    by (simp add: record_ok_def sample_ext_def sample_rec_enc_def sample_rec_dec_def byte_range_def len)
qed

definition sample_vec :: "unit vector" where "sample_vec = \<lparr>v_data = [7], v_payload = None\<rparr>"

lemma sample_entry_ok: "entry_ok (x_to_vec sample_ext) (x_from_slice sample_ext) sample_vec"
  by (simp add: entry_ok_def sample_vec_def)

definition sample_records :: "unit wal_record list" where
  "sample_records = [PutRecord 5 sample_vec 1, DeleteRecord 6 2]"

lemma sample_records_ok: "\<forall>r \<in> set sample_records. record_ok sample_ext r"
  by (simp add: sample_records_def sample_record_ok sample_vec_def)

lemma sample_replay: "replay Map.empty sample_records = Some [5 \<mapsto> Put sample_vec, 6 \<mapsto> Delete]"
  by (simp add: sample_records_def)

theorem recovery_restores_operations_witness:
  "\<exists>e0 e e'. engine_open sample_ext storage_config_default [] [] = Some (Inr e0) \<and>
     engine_run sample_ext sample_records e0 = Some (Inr (), e) \<and>
     engine_open sample_ext storage_config_default (wal_dir (en_wal e)) [] = Some (Inr e') \<and>
     mt_get btree_ops (en_mem e') = [5 \<mapsto> Put sample_vec, 6 \<mapsto> Delete]"
proof -
  have "load_sstables sample_ext [] \<noteq> None" by (simp add: load_sstables_def upt_rec hm_get_def)
  moreover have "length sample_records < 2 ^ 64" by (simp add: sample_records_def)
  ultimately show ?thesis
    using recovery_restores_operations [OF sample_ext_ok(1) sample_records_ok _ sample_replay, of "[]" storage_config_default storage_config_default]
    by (simp add: sample_ext_def)
qed

theorem put_after_delete_poisons_log_witness:
  "\<exists>e0 e r e'. engine_open sample_ext storage_config_default [] [] = Some (Inr e0) \<and>
     engine_run sample_ext sample_records e0 = Some (Inr (), e) \<and>
     engine_put sample_ext 3 6 sample_vec e = Some (r, e') \<and>
     engine_open sample_ext storage_config_default (wal_dir (en_wal e')) [] = Some (Inl EStorage)"
  by (rule put_after_delete_poisons_log [OF sample_ext_ok(1) sample_records_ok _ _ sample_replay])
    (simp_all add: sample_record_ok sample_vec_def sample_records_def)

text \<open>A table of one entry, built with a small block size, in the file \<open>t\<close> of level 0.\<close>

definition sample_table :: "(sst_meta \<times> u8 list) res" where
  "sample_table = build_table (x_to_vec sample_ext) sample_meta_enc 1 CompressNone 16 0 [(5, sample_vec)]"

definition sample_bytes :: "u8 list" where
  "sample_bytes = (case sample_table of Inl err \<Rightarrow> [] | Inr mb \<Rightarrow> snd mb)"

definition sample_sst :: sstable where
  "sample_sst = (case the (sst_open sample_meta_dec sample_bytes) of Inr t \<Rightarrow> t)"

lemma sample_table_eq: "\<exists>meta. sample_table = Inr (meta, sample_bytes) \<and> length sample_bytes < 2 ^ 32"
  by (simp add: sample_bytes_def sample_table_def build_table_def builder_create_def builder_add_def block_add_def block_new_def
      block_is_empty_def block_entry_size_def builder_finish_def flush_block_def encode_block_def encode_entry_def
      encode_index_def encode_index_entry_def encode_footer_def sample_meta_enc_def sample_vec_def Let_def)

lemma sample_codec: "\<forall>m. sample_meta_enc m \<noteq> [] \<and> sample_meta_dec (sample_meta_enc m) = Inr m"
  by (simp add: sample_meta_codec) (simp add: sample_meta_enc_def)

lemma sample_sst_holds:
  "sst_open sample_meta_dec sample_bytes = Some (Inr sample_sst)" "table_holds sample_ext sample_sst [(5, sample_vec)]"
proof -
  obtain meta where b: "sample_table = Inr (meta, sample_bytes)" "length sample_bytes < 2 ^ 32"
    using sample_table_eq by blast
  have ok: "\<forall>e \<in> set [(5 :: u64, sample_vec)]. entry_ok (x_to_vec sample_ext) (x_from_slice sample_ext) (snd e)"
    by (simp add: sample_entry_ok)
  obtain t gs where t: "sst_open sample_meta_dec sample_bytes = Some (Inr t)"
    "table_of (x_to_vec sample_ext) (x_from_slice sample_ext) gs t" "concat gs = [(5, sample_vec)]"
    using build_open_table [OF ok _ _ sample_meta_codec b(1)[unfolded sample_table_def] b(2)] sample_codec by auto
  then have "t = sample_sst" by (simp add: sample_sst_def)
  with t show "sst_open sample_meta_dec sample_bytes = Some (Inr sample_sst)" "table_holds sample_ext sample_sst [(5, sample_vec)]"
    unfolding table_holds_def by blast+
qed

theorem built_table_answers_as_list_witness:
  "\<exists>t. sst_open sample_meta_dec sample_bytes = Some (Inr t) \<and>
     sst_get (x_from_slice sample_ext) t 5 = Inr (Some sample_vec) \<and> sst_get (x_from_slice sample_ext) t 6 = Inr None"
proof -
  obtain meta where b: "sample_table = Inr (meta, sample_bytes)" "length sample_bytes < 2 ^ 32"
    using sample_table_eq by blast
  have ok: "\<forall>e \<in> set [(5 :: u64, sample_vec)]. entry_ok (x_to_vec sample_ext) (x_from_slice sample_ext) (snd e)"
    by (simp add: sample_entry_ok)
  obtain t where t: "sst_open sample_meta_dec sample_bytes = Some (Inr t)"
    "\<forall>k. sst_get (x_from_slice sample_ext) t k = Inr (map_of [(5, sample_vec)] k)"
    using built_table_answers_as_list [OF ok _ sample_codec b(1)[unfolded sample_table_def] b(2)] by auto
  show ?thesis by (intro exI [of _ t]) (simp add: t)
qed

lemma entries_insert_empty: "RBT.entries (RBT.insert (k :: u64) v RBT.empty) = [(k, v)]"
  using btree.iter_unique [of "[(k, v)]" "RBT.insert k v RBT.empty"] by (simp add: btree_ops_def fun_eq_iff)

lemma sample_write:
  "\<exists>bytes. write_table sample_ext d bs l [(5, sample_vec)] = (Inr (), bytes) \<and> length bytes < 200 + d + bs + l"
  by (simp add: write_table_def builder_create_def builder_add_def block_add_def block_new_def
      block_is_empty_def block_entry_size_def builder_finish_def flush_block_def encode_block_def encode_entry_def
      encode_index_def encode_index_entry_def encode_footer_def sample_ext_def sample_meta_enc_def sample_vec_def Let_def)

theorem merge_keeps_latest_witness:
  "\<exists>t disk. merge_sstables sample_ext [sample_sst] ''m.sst'' 1 [] = (Inr (), disk) \<and>
     reopen_table sample_ext disk \<lparr>tf_level = 1, tf_name = ''m.sst'', tf_table = sample_sst\<rparr> = Some (Inr t) \<and>
     sst_get (x_from_slice sample_ext) t 5 = Inr (Some sample_vec)"
proof -
  obtain bytes where w: "write_table sample_ext 1 4096 1 [(5, sample_vec)] = (Inr (), bytes)" "length bytes < 2 ^ 32"
    using sample_write [of 1 4096 1] by auto
  have scan: "sst_scan (x_from_slice sample_ext) sample_sst None None = Inr [(5, sample_vec)]"
    using table_holds_scan [OF sample_sst_holds(2), of None None] by (simp add: in_range_def)
  have m: "merge_sstables sample_ext [sample_sst] ''m.sst'' 1 [] = (Inr (), store_table 1 ''m.sst'' bytes [])"
    using w(1) by (simp add: merge_sstables_def scan entries_insert_empty sample_vec_def)
  have "Inr () = (Inr () :: unit res) \<and> (\<exists>t. reopen_table sample_ext (store_table 1 ''m.sst'' bytes [])
      \<lparr>tf_level = 1, tf_name = ''m.sst'', tf_table = sample_sst\<rparr> = Some (Inr t) \<and>
      (\<forall>k. sst_get (x_from_slice sample_ext) t k = Inr (latest [[(5, sample_vec)]] k)))"
    by (rule merge_keeps_latest [OF sample_ext_ok(2) _ _ m]) (use sample_sst_holds(2) w(2) in \<open>auto simp: store_table_def hm_get_def\<close>)
  with m show ?thesis by (fastforce simp: latest_def)
qed

definition sample_memtable :: "(u64, unit entry) btree memtable" where
  "sample_memtable = snd (mt_put btree_ops (x_to_vec sample_ext) 5 sample_vec (mt_new btree_ops 100))"

lemma sample_memtable_entries: "mt_entries sample_memtable = RBT.insert 5 (Put sample_vec) RBT.empty"
  by (simp add: sample_memtable_def mt_put_def mt_new_def btree_ops_def)

theorem flush_writes_live_entries_witness:
  "\<exists>t disk. flush_memtable sample_ext storage_config_default 7 sample_memtable [] = (Inr (), disk) \<and>
     reopen_table sample_ext disk \<lparr>tf_level = 0, tf_name = table_name 7, tf_table = sample_sst\<rparr> = Some (Inr t) \<and>
     sst_get (x_from_slice sample_ext) t 5 = Inr (Some sample_vec)"
proof -
  have skip: "x_skip sample_ext = btree_ops" by (simp add: sample_ext_def)
  have get: "mt_get btree_ops sample_memtable k = (if k = 5 then Some (Put sample_vec) else None)" for k
    by (simp add: mt_get_def sample_memtable_entries) (simp add: btree_ops_def)
  have iter: "mt_iter btree_ops sample_memtable = [(5, Put sample_vec)]"
    by (simp add: mt_iter_def sample_memtable_entries) (simp add: btree_ops_def entries_insert_empty)
  obtain bytes where w: "write_table sample_ext 0 4096 0 [(5, sample_vec)] = (Inr (), bytes)" "length bytes < 2 ^ 32"
    using sample_write [of 0 4096 0] by auto
  have f: "flush_memtable sample_ext storage_config_default 7 sample_memtable [] = (Inr (), store_table 0 (table_name 7) bytes [])"
    using w(1) by (simp add: flush_memtable_def skip iter storage_config_default_def)
  have "Inr () = (Inr () :: unit res) \<and> (\<exists>t. reopen_table sample_ext (store_table 0 (table_name 7) bytes [])
      \<lparr>tf_level = 0, tf_name = table_name 7, tf_table = sample_sst\<rparr> = Some (Inr t) \<and>
      (\<forall>k. sst_get (x_from_slice sample_ext) t k =
        Inr (case mt_get (x_skip sample_ext) sample_memtable k of Some (Put v) \<Rightarrow> Some v | _ \<Rightarrow> None)))"
    by (rule flush_writes_live_entries [OF sample_ext_ok(2, 1) _ f])
      (use sample_entry_ok w(2) in \<open>auto simp: store_table_def hm_get_def skip get split: if_splits\<close>)
  then obtain t where "reopen_table sample_ext (store_table 0 (table_name 7) bytes [])
      \<lparr>tf_level = 0, tf_name = table_name 7, tf_table = sample_sst\<rparr> = Some (Inr t)"
    "sst_get (x_from_slice sample_ext) t 5 = Inr (Some sample_vec)"
    by (auto simp: skip get)
  with f show ?thesis by blast
qed

text \<open>An engine with that table and an empty memory table of the given threshold.\<close>

definition sample_engine :: "u64 \<Rightarrow> (u64, unit entry) btree engine" where
  "sample_engine threshold = \<lparr>en_config = storage_config_default, en_wal = wal_open [] 1024, en_mem = mt_new btree_ops threshold,
     en_immutable = [], en_levels = [[\<lparr>tf_level = 0, tf_name = ''t'', tf_table = sample_sst\<rparr>]], en_count = 1,
     en_handle = False, en_tasks = [], en_disk = [(0, [(''t'', sample_bytes)])]\<rparr>"

lemma sample_engine_tables:
  "tables_hold sample_ext (en_disk (sample_engine n)) (search_order (sample_engine n)) [[(5, sample_vec)]]"
  "disjoint_tables (search_order (sample_engine n))" "en_immutable (sample_engine n) = []"
  "mt_get (x_skip sample_ext) (en_mem (sample_engine n)) k = None"
proof -
  have "x_meta_dec sample_ext = sample_meta_dec" by (simp add: sample_ext_def)
  then show "tables_hold sample_ext (en_disk (sample_engine n)) (search_order (sample_engine n)) [[(5, sample_vec)]]"
    using sample_sst_holds by (simp add: tables_hold_def sample_engine_def search_order_def reopen_table_def hm_get_def)
qed (simp_all add: sample_engine_def disjoint_tables_def search_order_def sample_ext_def mt_get_def mt_new_def, simp add: btree_ops_def)

theorem scan_merges_memory_and_tables_witness:
  "\<exists>rs. engine_scan sample_ext (sample_engine 100) None None = Some (Inr rs) \<and> map_of rs 5 = Some sample_vec"
  using scan_merges_memory_and_tables [OF sample_ext_ok(1) sample_engine_tables(1), of 100 None None]
  by (auto simp: sample_engine_tables(4) in_range_def)

theorem get_agrees_with_scan_witness:
  "\<exists>rs. engine_scan sample_ext (sample_engine 100) None None = Some (Inr rs) \<and>
     engine_get sample_ext (sample_engine 100) 5 = Some (Inr (map_of rs 5))"
  by (rule get_agrees_with_scan [OF sample_ext_ok(1) sample_engine_tables(1-3)]) (simp add: sample_engine_tables(4))

theorem deleted_vector_still_found_witness:
  "\<exists>e'. engine_delete sample_ext 9 5 (sample_engine 100) = Some (Inr (), e') \<and>
     engine_get sample_ext e' 5 = Some (Inr (Some sample_vec))"
proof -
  have log: "log_inv sample_ext (en_wal (sample_engine 100)) []" by (simp add: sample_engine_def log_inv_fresh)
  have "\<exists>e'. engine_apply sample_ext (DeleteRecord 5 9) (sample_engine 100) = Some (Inr (), e')"
    using engine_apply_log [OF sample_ext_ok(1) log sample_record_ok(1) [of 5 9]] by auto
  then obtain e' where del: "engine_delete sample_ext 9 5 (sample_engine 100) = Some (Inr (), e')"
    by (auto simp: engine_apply_def)
  have "engine_get sample_ext e' 5 = Some (Inr (Some sample_vec))"
    by (rule deleted_vector_still_found [OF sample_ext_ok(1) sample_engine_tables(1-3) _ del]) simp
  with del show ?thesis by blast
qed

theorem flushed_put_not_found_witness:
  "\<exists>e'. engine_put sample_ext 9 5 sample_vec ((sample_engine 1)\<lparr>en_levels := []\<rparr>) = Some (Inr (), e') \<and>
     engine_get sample_ext (fold (\<lambda>(i, at). engine_task_step sample_ext i at) [(0, 3), (0, 4)] e') 5 = Some (Inr None)"
proof -
  let ?e = "(sample_engine 1)\<lparr>en_levels := []\<rparr>"
  have log: "log_inv sample_ext (en_wal ?e) []" by (simp add: sample_engine_def log_inv_fresh)
  have "record_ok sample_ext (PutRecord 5 sample_vec 9)" by (simp add: sample_vec_def sample_record_ok)
  from engine_apply_log [OF sample_ext_ok(1) log this]
  have "\<exists>e'. engine_apply sample_ext (PutRecord 5 sample_vec 9) ?e = Some (Inr (), e')"
    using sample_engine_tables(4) [of 1 5] by auto
  then obtain e' where put: "engine_put sample_ext 9 5 sample_vec ?e = Some (Inr (), e')"
    by (auto simp: engine_apply_def)
  have "should_flush (snd (mt_put (x_skip sample_ext) (x_to_vec sample_ext) 5 sample_vec (en_mem ?e)))"
    by (simp add: should_flush_def sample_engine_def sample_ext_def mt_put_def mt_new_def btree_ops_def Let_def
        estimate_entry_size_def sample_vec_def payload_size_def)
  from flushed_put_not_found [OF sample_ext_ok(1) _ _ _ put this, of "[(0, 3), (0, 4)]"] put
  show ?thesis by (simp add: search_order_def sample_engine_def)
qed

end
