(* ===== verification/RaftTypes.thy ===== *)
theory RaftTypes
  imports Prelude
begin

text \<open>
  The data of the consensus module, \<open>src/src/cluster/raft/types.rs\<close> and the helpers of
  \<open>src/src/cluster/raft/mod.rs\<close>: log entries, hard and configuration state, the replication
  progress of a peer, messages, \<open>Ready\<close> and the node configuration.

  A \<open>Duration\<close> and an \<open>Instant\<close> are milliseconds.  \<open>random_election_timeout\<close> draws a value
  between its bounds; the value drawn is an argument of the operations that draw one.
\<close>

type_synonym node_id = u64
type_synonym log_index = u64
type_synonym raft_term = u64

datatype raft_state = Follower | Candidate | Leader | PreCandidate

datatype raft_entry_type = EtNormal | EtConfigChange

record log_entry =
  le_index :: log_index
  le_term :: raft_term
  le_data :: "u8 list"
  le_type :: raft_entry_type

definition log_entry_new :: "log_index \<Rightarrow> raft_term \<Rightarrow> u8 list \<Rightarrow> log_entry" where
  "log_entry_new index term data = \<lparr>le_index = index, le_term = term, le_data = data, le_type = EtNormal\<rparr>"

definition log_entry_new_config_change :: "log_index \<Rightarrow> raft_term \<Rightarrow> u8 list \<Rightarrow> log_entry" where
  "log_entry_new_config_change index term data =
     \<lparr>le_index = index, le_term = term, le_data = data, le_type = EtConfigChange\<rparr>"

record hard_state =
  hs_term :: raft_term
  hs_voted_for :: node_id
  hs_commit_index :: log_index

definition hard_state_default :: hard_state where
  "hard_state_default = \<lparr>hs_term = 0, hs_voted_for = 0, hs_commit_index = 0\<rparr>"

record conf_state =
  cs_voters :: "node_id list"
  cs_learners :: "node_id list"
  cs_voters_outgoing :: "node_id list"
  cs_auto_leave :: bool

definition conf_state_new :: "node_id list \<Rightarrow> conf_state" where
  "conf_state_new voters =
     \<lparr>cs_voters = voters, cs_learners = [], cs_voters_outgoing = [], cs_auto_leave = False\<rparr>"

definition is_voter :: "conf_state \<Rightarrow> node_id \<Rightarrow> bool" where
  "is_voter cs n \<longleftrightarrow> n \<in> set (cs_voters cs)"

definition is_learner :: "conf_state \<Rightarrow> node_id \<Rightarrow> bool" where
  "is_learner cs n \<longleftrightarrow> n \<in> set (cs_learners cs)"

definition all_nodes :: "conf_state \<Rightarrow> node_id list" where
  "all_nodes cs = cs_voters cs @ cs_learners cs"

record persistent_state =
  ps_hard_state :: hard_state
  ps_conf_state :: conf_state

subsection \<open>Replication progress\<close>

record progress =
  pr_next_index :: log_index
  pr_match_index :: log_index
  pr_paused :: bool
  pr_inflight :: nat
  pr_recent_active :: bool
  pr_is_learner :: bool

definition progress_new :: "log_index \<Rightarrow> bool \<Rightarrow> progress" where
  "progress_new next_index learner =
     \<lparr>pr_next_index = next_index, pr_match_index = 0, pr_paused = False, pr_inflight = 0,
      pr_recent_active = False, pr_is_learner = learner\<rparr>"

definition become_reject :: "progress \<Rightarrow> progress" where
  "become_reject p =
     (let p1 = (if pr_next_index p > 1 then p\<lparr>pr_next_index := pr_next_index p - 1\<rparr> else p)
      in p1\<lparr>pr_paused := False\<rparr>)"

definition become_accept :: "log_index \<Rightarrow> progress \<Rightarrow> progress" where
  "become_accept index p =
     (let p1 = (if index > pr_match_index p then p\<lparr>pr_match_index := index, pr_next_index := index + 1\<rparr> else p)
      in p1\<lparr>pr_paused := False, pr_recent_active := True\<rparr>)"

definition optimistic_update :: "log_index \<Rightarrow> progress \<Rightarrow> progress" where
  "optimistic_update last_index p = p\<lparr>pr_next_index := last_index + 1\<rparr>"

subsection \<open>Snapshots and messages\<close>

record snapshot_metadata =
  sm_index :: log_index
  sm_term :: raft_term
  sm_conf_state :: conf_state

record snapshot =
  sn_metadata :: snapshot_metadata
  sn_data :: "u8 list"

datatype message_type =
    Heartbeat | AppendEntries | AppendResponse | RequestVote | VoteResponse | RequestPreVote
  | PreVoteResponse | InstallSnapshot | SnapshotResponse | TimeoutNow

record message =
  msg_type :: message_type
  msg_from :: node_id
  msg_to :: node_id
  msg_term :: raft_term
  msg_index :: log_index
  msg_entries :: "log_entry list"
  msg_commit :: log_index
  msg_reject :: bool
  msg_reject_hint :: log_index
  msg_snapshot :: "snapshot option"
  msg_context :: "u8 list"

definition message_new :: "message_type \<Rightarrow> node_id \<Rightarrow> node_id \<Rightarrow> raft_term \<Rightarrow> message" where
  "message_new ty from to term =
     \<lparr>msg_type = ty, msg_from = from, msg_to = to, msg_term = term, msg_index = 0, msg_entries = [],
      msg_commit = 0, msg_reject = False, msg_reject_hint = 0, msg_snapshot = None, msg_context = []\<rparr>"

definition with_entries :: "log_entry list \<Rightarrow> message \<Rightarrow> message" where
  "with_entries es m = m\<lparr>msg_entries := es\<rparr>"

definition with_reject :: "log_index \<Rightarrow> message \<Rightarrow> message" where
  "with_reject hint m = m\<lparr>msg_reject := True, msg_reject_hint := hint\<rparr>"

record ready =
  rd_hard_state :: "hard_state option"
  rd_entries :: "log_entry list"
  rd_committed :: "log_entry list"
  rd_messages :: "message list"
  rd_snapshot :: "snapshot option"

definition ready_default :: ready where
  "ready_default =
     \<lparr>rd_hard_state = None, rd_entries = [], rd_committed = [], rd_messages = [], rd_snapshot = None\<rparr>"

definition ready_is_empty :: "ready \<Rightarrow> bool" where
  "ready_is_empty r \<longleftrightarrow>
     rd_hard_state r = None \<and> rd_entries r = [] \<and> rd_committed r = [] \<and> rd_messages r = [] \<and>
     rd_snapshot r = None"

subsection \<open>Configuration\<close>

record raft_config =
  cfg_id :: node_id
  cfg_election_timeout_min :: nat
  cfg_election_timeout_max :: nat
  cfg_heartbeat_interval :: nat
  cfg_max_msg_size :: nat
  cfg_max_inflight :: nat
  cfg_pre_vote :: bool
  cfg_check_quorum :: bool
  cfg_batch_apply :: bool

definition raft_config_default :: raft_config where
  "raft_config_default =
     \<lparr>cfg_id = 0, cfg_election_timeout_min = 150, cfg_election_timeout_max = 300,
      cfg_heartbeat_interval = 50, cfg_max_msg_size = 1024 * 1024, cfg_max_inflight = 256,
      cfg_pre_vote = True, cfg_check_quorum = True, cfg_batch_apply = True\<rparr>"

definition three_node_config :: "node_id \<Rightarrow> raft_config" where
  "three_node_config n =
     \<lparr>cfg_id = n, cfg_election_timeout_min = 150, cfg_election_timeout_max = 300,
      cfg_heartbeat_interval = 50, cfg_max_msg_size = 1024 * 1024, cfg_max_inflight = 256,
      cfg_pre_vote = True, cfg_check_quorum = True, cfg_batch_apply = True\<rparr>"

definition five_node_config :: "node_id \<Rightarrow> raft_config" where
  "five_node_config n =
     \<lparr>cfg_id = n, cfg_election_timeout_min = 200, cfg_election_timeout_max = 400,
      cfg_heartbeat_interval = 50, cfg_max_msg_size = 1024 * 1024, cfg_max_inflight = 256,
      cfg_pre_vote = True, cfg_check_quorum = True, cfg_batch_apply = True\<rparr>"

record read_state =
  rs_index :: log_index
  rs_request_ctx :: "u8 list"

definition is_quorum :: "nat \<Rightarrow> nat \<Rightarrow> bool" where
  "is_quorum voters votes \<longleftrightarrow> votes > voters div 2"

subsection \<open>The size-bounded copy of entries\<close>

text \<open>
  The loop that \<open>get_entries\<close> of the node and \<open>entries\<close> of the storage share: an entry counts
  its data and 32 bytes, the first entry is always taken.
\<close>

definition le_size :: "log_entry \<Rightarrow> nat" where
  "le_size e = length (le_data e) + 32"

fun limit_entries :: "nat \<Rightarrow> nat \<Rightarrow> log_entry list \<Rightarrow> log_entry list \<Rightarrow> log_entry list" where
  "limit_entries max_size used acc [] = acc"
| "limit_entries max_size used acc (e # es) =
     (let used1 = used + le_size e
      in if used1 > max_size \<and> acc \<noteq> [] then acc
         else if used1 > max_size then acc @ [e]
         else limit_entries max_size used1 (acc @ [e]) es)"

text \<open>
  What the loop returns: a prefix of the entries, the longest one whose sizes sum up to at most the
  limit, or the first entry alone when that one is larger.
\<close>

definition total_le_size :: "log_entry list \<Rightarrow> nat" where
  "total_le_size es = sum_list (map le_size es)"

lemma limit_entries_acc:
  assumes "total_le_size acc = used" and "used \<le> max_size"
  shows "\<exists>k. limit_entries max_size used acc es = acc @ take k es \<and> k \<le> length es \<and>
    (total_le_size (acc @ take k es) \<le> max_size \<or> acc = [] \<and> k = 1) \<and>
    (k < length es \<longrightarrow> total_le_size (acc @ take (Suc k) es) > max_size) \<and> (acc @ es \<noteq> [] \<longrightarrow> acc @ take k es \<noteq> [])"
  using assms
proof (induction max_size used acc es rule: limit_entries.induct)
  case (1 max_size used acc)
  then show ?case by simp
next
  case (2 max_size used acc e es)
  let ?s = "used + le_size e"
  have sum: "total_le_size (acc @ e # xs) = ?s + total_le_size xs" for xs
    using "2.prems"(1) by (simp add: total_le_size_def)
  consider "?s > max_size" "acc \<noteq> []" | "?s > max_size" "acc = []" | "?s \<le> max_size" by linarith
  then show ?case
  proof cases
    case 1
    then have "limit_entries max_size used acc (e # es) = acc @ take 0 (e # es)" by (simp add: Let_def)
    with 1 "2.prems" sum [of "[]"] show ?thesis
      by (intro exI [of _ 0]) (simp add: total_le_size_def)
  next
    case 2
    with sum show ?thesis by (intro exI [of _ 1]) (simp add: Let_def)
  next
    case 3
    then have "\<exists>k. limit_entries max_size ?s (acc @ [e]) es = (acc @ [e]) @ take k es \<and> k \<le> length es \<and>
        (total_le_size ((acc @ [e]) @ take k es) \<le> max_size \<or> acc @ [e] = [] \<and> k = 1) \<and>
        (k < length es \<longrightarrow> total_le_size ((acc @ [e]) @ take (Suc k) es) > max_size) \<and>
        ((acc @ [e]) @ es \<noteq> [] \<longrightarrow> (acc @ [e]) @ take k es \<noteq> [])"
      using sum [of "[]"] by (intro "2.IH") (simp_all add: total_le_size_def not_less)
    then obtain k where k: "limit_entries max_size ?s (acc @ [e]) es = (acc @ [e]) @ take k es" "k \<le> length es"
      "total_le_size ((acc @ [e]) @ take k es) \<le> max_size"
      "k < length es \<longrightarrow> total_le_size ((acc @ [e]) @ take (Suc k) es) > max_size" by auto
    have "limit_entries max_size used acc (e # es) = acc @ take (Suc k) (e # es)"
      using 3 k(1) by (simp add: Let_def not_less)
    with k show ?thesis by (intro exI [of _ "Suc k"]) simp
  qed
qed

end
