(* ===== verification/RaftStorage.thy ===== *)
theory RaftStorage
  imports RaftTypes
begin

text \<open>
  The log storages of the consensus module, \<open>src/src/cluster/raft/storage.rs\<close>: the trait
  \<open>Storage\<close> as the locale \<open>raft_log_store\<close>, and its implementations \<open>MemStorage\<close> and
  \<open>FileStorage\<close> with the operations of \<open>MemStorage\<close> that write.  A panic (an explicit one, or
  an index or slice out of range) is \<open>None\<close>.
\<close>

record mem_storage =
  ms_hard_state :: hard_state
  ms_conf_state :: conf_state
  ms_entries :: "log_entry list"
  ms_snapshot :: snapshot

definition snapshot_empty :: snapshot where
  "snapshot_empty =
     \<lparr>sn_metadata = \<lparr>sm_index = 0, sm_term = 0, sm_conf_state = conf_state_new []\<rparr>, sn_data = []\<rparr>"

definition ms_new :: mem_storage where
  "ms_new =
     \<lparr>ms_hard_state = hard_state_default, ms_conf_state = conf_state_new [], ms_entries = [],
      ms_snapshot = snapshot_empty\<rparr>"

definition ms_with_conf_state :: "conf_state \<Rightarrow> mem_storage" where
  "ms_with_conf_state cs = ms_new\<lparr>ms_conf_state := cs\<rparr>"

definition ms_initialize_with_entries :: "log_entry list \<Rightarrow> mem_storage \<Rightarrow> mem_storage" where
  "ms_initialize_with_entries es s = s\<lparr>ms_entries := es\<rparr>"

definition ms_set_hard_state :: "hard_state \<Rightarrow> mem_storage \<Rightarrow> mem_storage" where
  "ms_set_hard_state hs s = s\<lparr>ms_hard_state := hs\<rparr>"

definition snap_index :: "mem_storage \<Rightarrow> log_index" where
  "snap_index s = sm_index (sn_metadata (ms_snapshot s))"

definition ms_append :: "log_entry list \<Rightarrow> mem_storage \<Rightarrow> mem_storage option" where
  "ms_append entries s =
     (if entries = [] then Some s
      else
        (let first = le_index (hd entries)
         in if first \<le> snap_index s then Some s
            else
              (let offset = (if ms_entries s = [] then 1 else le_index (hd (ms_entries s)))
               in if first < offset then None
                  else
                    (let pos = unat (first - offset);
                         kept = (if pos < length (ms_entries s) then take pos (ms_entries s) else ms_entries s)
                     in Some (s\<lparr>ms_entries := kept @ entries\<rparr>)))))"

definition ms_first_index :: "mem_storage \<Rightarrow> log_index" where
  "ms_first_index s = (if ms_entries s = [] then snap_index s + 1 else le_index (hd (ms_entries s)))"

definition ms_last_index :: "mem_storage \<Rightarrow> log_index" where
  "ms_last_index s = (if ms_entries s = [] then snap_index s else le_index (last (ms_entries s)))"

definition ms_compact :: "log_index \<Rightarrow> mem_storage \<Rightarrow> mem_storage res option" where
  "ms_compact compact_index s =
     (if compact_index < snap_index s then Some (Inr s)
      else if compact_index > ms_last_index s then Some (Inl EStorage)
      else if ms_entries s = [] then None
      else
        (let pos = unat (compact_index + 1 - le_index (hd (ms_entries s)))
         in if pos > length (ms_entries s) then None
            else Some (Inr (s\<lparr>ms_entries := drop pos (ms_entries s)\<rparr>))))"

definition ms_term :: "mem_storage \<Rightarrow> log_index \<Rightarrow> raft_term res option" where
  "ms_term s idx =
     (if idx = 0 then Some (Inr 0)
      else if idx = snap_index s then Some (Inr (sm_term (sn_metadata (ms_snapshot s))))
      else if idx < ms_first_index s \<or> idx > ms_last_index s then Some (Inl EStorage)
      else if ms_entries s = [] then None
      else
        (let pos = unat (idx - le_index (hd (ms_entries s)))
         in if pos \<ge> length (ms_entries s) then None
            else Some (Inr (le_term (ms_entries s ! pos)))))"

definition ms_read_entries :: "mem_storage \<Rightarrow> log_index \<Rightarrow> log_index \<Rightarrow> nat \<Rightarrow> log_entry list res option" where
  "ms_read_entries s low high max_size =
     (if low > high then Some (Inl EStorage)
      else if low < ms_first_index s then Some (Inl EStorage)
      else if high > ms_last_index s + 1 then Some (Inl EStorage)
      else if ms_entries s = [] then None
      else
        (let offset = le_index (hd (ms_entries s));
             lo = unat (low - offset);
             hi = unat (high - offset)
         in if lo > hi \<or> hi > length (ms_entries s) then None
            else Some (Inr (limit_entries max_size 0 [] (take (hi - lo) (drop lo (ms_entries s)))))))"

definition ms_create_snapshot ::
  "log_index \<Rightarrow> conf_state \<Rightarrow> u8 list \<Rightarrow> mem_storage \<Rightarrow> mem_storage res option"
where
  "ms_create_snapshot index cs data s =
     (if index \<le> snap_index s then Some (Inl EStorage)
      else map_option (\<lambda>r. and_then r (\<lambda>term.
             Inr (s\<lparr>ms_snapshot :=
                      \<lparr>sn_metadata = \<lparr>sm_index = index, sm_term = term, sm_conf_state = cs\<rparr>, sn_data = data\<rparr>\<rparr>)))
             (ms_term s index))"

definition ms_apply_snapshot :: "snapshot \<Rightarrow> mem_storage \<Rightarrow> mem_storage res" where
  "ms_apply_snapshot sn s =
     (if sm_index (sn_metadata sn) < snap_index s then Inl EStorage
      else Inr (s\<lparr>ms_snapshot := sn,
                  ms_hard_state := (ms_hard_state s)\<lparr>hs_term := sm_term (sn_metadata sn),
                                                     hs_commit_index := sm_index (sn_metadata sn)\<rparr>,
                  ms_conf_state := sm_conf_state (sn_metadata sn),
                  ms_entries := []\<rparr>))"

definition ms_initial_state :: "mem_storage \<Rightarrow> persistent_state" where
  "ms_initial_state s = \<lparr>ps_hard_state = ms_hard_state s, ps_conf_state = ms_conf_state s\<rparr>"

subsection \<open>File storage\<close>

text \<open>
  \<open>FileStorage\<close> has the same fields (its path is never used) and differs in \<open>entries\<close> and
  \<open>term\<close>.  No operation of it writes.
\<close>

definition fs_new :: mem_storage where
  "fs_new = ms_new"

definition fs_read_entries :: "mem_storage \<Rightarrow> log_index \<Rightarrow> log_index \<Rightarrow> nat \<Rightarrow> log_entry list res option" where
  "fs_read_entries s low high _ =
     (if ms_entries s = [] then Some (Inr [])
      else
        (let offset = le_index (hd (ms_entries s));
             lo = (if low < offset then 0 else unat (low - offset));
             hi = unat (min (high - offset) (u64_len (ms_entries s)))
         in if lo > hi \<or> hi > length (ms_entries s) then None
            else Some (Inr (take (hi - lo) (drop lo (ms_entries s))))))"

definition fs_term :: "mem_storage \<Rightarrow> log_index \<Rightarrow> raft_term res option" where
  "fs_term s idx =
     (if idx = 0 then Some (Inr 0)
      else if idx = snap_index s then Some (Inr (sm_term (sn_metadata (ms_snapshot s))))
      else if ms_entries s = [] then Some (Inl EStorage)
      else
        (let offset = le_index (hd (ms_entries s))
         in if idx < offset \<or> idx > offset + u64_len (ms_entries s) - 1 then Some (Inl EStorage)
            else
              (let pos = unat (idx - offset)
               in if pos \<ge> length (ms_entries s) then None
                  else Some (Inr (le_term (ms_entries s ! pos))))))"

subsection \<open>The trait\<close>

text \<open>
  The read side of the trait, as the operations a node calls when it starts.  \<open>mem_store\<close> and
  \<open>file_store\<close> are its two implementations.
\<close>

record 's store_ops =
  so_initial_state :: "'s \<Rightarrow> persistent_state"
  so_first_index :: "'s \<Rightarrow> log_index"
  so_last_index :: "'s \<Rightarrow> log_index"
  so_entries :: "'s \<Rightarrow> log_index \<Rightarrow> log_index \<Rightarrow> nat \<Rightarrow> log_entry list res option"
  so_term :: "'s \<Rightarrow> log_index \<Rightarrow> raft_term res option"

definition mem_store :: "mem_storage store_ops" where
  "mem_store =
     \<lparr>so_initial_state = ms_initial_state, so_first_index = ms_first_index, so_last_index = ms_last_index,
      so_entries = ms_read_entries, so_term = ms_term\<rparr>"

definition file_store :: "mem_storage store_ops" where
  "file_store =
     \<lparr>so_initial_state = ms_initial_state, so_first_index = ms_first_index, so_last_index = ms_last_index,
      so_entries = fs_read_entries, so_term = fs_term\<rparr>"

text \<open>Entries with consecutive indices from \<open>b\<close> on, none of which is the greatest word.\<close>

definition contiguous :: "nat \<Rightarrow> log_entry list \<Rightarrow> bool" where
  "contiguous b es \<longleftrightarrow> (\<forall>i < length es. unat (le_index (es ! i)) = b + i) \<and> b + length es < 2 ^ 64"

lemma contiguous_Nil [simp]: "contiguous b [] \<longleftrightarrow> b < 2 ^ 64"
  by (simp add: contiguous_def)

lemma contiguous_nth: "contiguous b es \<Longrightarrow> i < length es \<Longrightarrow> unat (le_index (es ! i)) = b + i"
  by (simp add: contiguous_def)

lemma contiguous_hd: "contiguous b es \<Longrightarrow> es \<noteq> [] \<Longrightarrow> unat (le_index (hd es)) = b"
  using contiguous_nth [of b es 0] by (simp add: hd_conv_nth)

lemma contiguous_last: "contiguous b es \<Longrightarrow> es \<noteq> [] \<Longrightarrow> unat (le_index (last es)) = b + length es - 1"
  using contiguous_nth [of b es "length es - 1"] by (cases "length es") (simp_all add: last_conv_nth)

lemma contiguous_drop: "contiguous b es \<Longrightarrow> n \<le> length es \<Longrightarrow> contiguous (b + n) (drop n es)"
  by (auto simp: contiguous_def)

lemma contiguous_append:
  "contiguous b es \<Longrightarrow> contiguous c fs \<Longrightarrow> c = b + n \<Longrightarrow> n \<le> length es \<Longrightarrow> contiguous b (take n es @ fs)"
  by (auto simp: contiguous_def nth_append min_def)

lemma unat_diff_u64: "(b :: u64) \<le> a \<Longrightarrow> unat (a - b) = unat a - unat b"
  by (rule unat_sub)

lemma unat_inc_bound: "unat (a :: u64) + 1 < 2 ^ 64 \<Longrightarrow> unat (a + 1) = unat a + 1"
  using unat_u64_inc [OF u64_not_max, of a] by simp

text \<open>
  What a node relies on.  \<open>log s\<close> is the stored log; its first entry has the index \<open>first_index\<close>,
  its last one \<open>last_index\<close>, and a read between the two returns that part of it.
\<close>

locale raft_log_store =
  fixes ops :: "'s store_ops" and inv :: "'s \<Rightarrow> bool" and stored :: "'s \<Rightarrow> log_entry list"
  assumes store_contiguous: "inv s \<Longrightarrow> contiguous (unat (so_first_index ops s)) (stored s)"
    and store_last: "inv s \<Longrightarrow> unat (so_last_index ops s) + 1 = unat (so_first_index ops s) + length (stored s)"
    and store_read: "inv s \<Longrightarrow> stored s \<noteq> [] \<Longrightarrow> total_le_size (stored s) \<le> max_size \<Longrightarrow>
        unat (so_first_index ops s) \<le> unat lo \<Longrightarrow> unat lo \<le> unat hi \<Longrightarrow> unat hi \<le> unat (so_last_index ops s) + 1 \<Longrightarrow>
        so_entries ops s lo hi max_size = Some (Inr
          (take (unat hi - unat lo) (drop (unat lo - unat (so_first_index ops s)) (stored s))))"
    and store_term: "inv s \<Longrightarrow> unat (so_first_index ops s) \<le> unat i \<Longrightarrow> unat i \<le> unat (so_last_index ops s) \<Longrightarrow>
        i \<noteq> 0 \<Longrightarrow> so_term ops s i = Some (Inr (le_term (stored s ! (unat i - unat (so_first_index ops s)))))"
begin

lemma store_empty_iff: "inv s \<Longrightarrow> stored s = [] \<longleftrightarrow> so_last_index ops s < so_first_index ops s"
  using store_last [of s] by (cases "stored s") (auto simp: word_less_nat_alt)

lemma store_read_all:
  assumes "inv s" and "stored s \<noteq> []" and "total_le_size (stored s) \<le> max_size"
  shows "so_entries ops s (so_first_index ops s) (so_last_index ops s + 1) max_size = Some (Inr (stored s))"
proof -
  have "unat (so_last_index ops s) + 1 < 2 ^ 64"
    using store_last [OF assms(1)] store_contiguous [OF assms(1)] by (simp add: contiguous_def)
  then have "unat (so_last_index ops s + 1) = unat (so_last_index ops s) + 1" by (rule unat_inc_bound)
  moreover have "0 < length (stored s)" using assms(2) by simp
  ultimately show ?thesis
    using store_last [OF assms(1)] by (subst store_read [OF assms]) auto
qed

end

subsection \<open>The implementations satisfy the trait\<close>

definition ms_ok :: "mem_storage \<Rightarrow> bool" where
  "ms_ok s \<longleftrightarrow> contiguous (unat (ms_first_index s)) (ms_entries s) \<and> unat (snap_index s) + 1 < 2 ^ 64 \<and>
     (ms_entries s \<noteq> [] \<longrightarrow> snap_index s < ms_first_index s \<or> snap_index s = 0)"

lemma limit_entries_all: "total_le_size es \<le> max_size \<Longrightarrow> limit_entries max_size 0 [] es = es"
proof -
  assume le: "total_le_size es \<le> max_size"
  obtain k where k: "limit_entries max_size 0 [] es = take k es" "k \<le> length es"
    "k < length es \<longrightarrow> total_le_size (take (Suc k) es) > max_size"
    using limit_entries_acc [of "[]" 0 max_size es] by (auto simp: total_le_size_def)
  have "total_le_size (take (Suc k) es) \<le> total_le_size es"
  proof -
    have "total_le_size es = total_le_size (take (Suc k) es) + total_le_size (drop (Suc k) es)"
      by (metis append_take_drop_id map_append sum_list_append total_le_size_def)
    then show ?thesis by simp
  qed
  with k le have "k = length es" by auto
  with k show ?thesis by simp
qed

lemma total_le_size_slice: "total_le_size (take n (drop m es)) \<le> total_le_size es"
proof -
  have "total_le_size es = total_le_size (take m es) + (total_le_size (take n (drop m es)) + total_le_size (drop n (drop m es)))"
    by (metis append_take_drop_id map_append sum_list_append total_le_size_def)
  then show ?thesis by simp
qed

lemma ms_last_first:
  assumes "ms_ok s"
  shows "unat (ms_last_index s) + 1 = unat (ms_first_index s) + length (ms_entries s)"
proof (cases "ms_entries s = []")
  case True
  then show ?thesis using assms by (simp add: ms_ok_def ms_last_index_def ms_first_index_def unat_inc_bound)
next
  case False
  moreover from this have "0 < length (ms_entries s)" by simp
  ultimately show ?thesis
    using assms contiguous_last [of "unat (ms_first_index s)" "ms_entries s"]
    by (simp add: ms_ok_def ms_last_index_def)
qed

lemma ms_last_Suc: "ms_ok s \<Longrightarrow> Suc (unat (ms_last_index s)) = unat (ms_first_index s) + length (ms_entries s)"
  using ms_last_first by simp

lemma ms_contiguous: "ms_ok s \<Longrightarrow> contiguous (unat (ms_first_index s)) (ms_entries s)"
  by (simp add: ms_ok_def)

lemma ms_last_inc: "ms_ok s \<Longrightarrow> unat (ms_last_index s + 1) = unat (ms_last_index s) + 1"
  using ms_last_first [of s] by (intro unat_inc_bound) (simp add: ms_ok_def contiguous_def)

lemma ms_read_slice:
  assumes ok: "ms_ok s" and ne: "ms_entries s \<noteq> []"
    and lo: "unat (ms_first_index s) \<le> unat lo" "unat lo \<le> unat hi" "unat hi \<le> unat (ms_last_index s) + 1"
  shows "ms_read_entries s lo hi max_size = Some (Inr (limit_entries max_size 0 []
    (take (unat hi - unat lo) (drop (unat lo - unat (ms_first_index s)) (ms_entries s)))))"
proof -
  have first: "le_index (hd (ms_entries s)) = ms_first_index s" using ne by (simp add: ms_first_index_def)
  have "unat (lo - ms_first_index s) = unat lo - unat (ms_first_index s)"
    "unat (hi - ms_first_index s) = unat hi - unat (ms_first_index s)"
    using lo by (intro unat_diff_u64; simp add: word_le_nat_alt)+
  moreover have "\<not> lo > hi" "\<not> lo < ms_first_index s" "\<not> hi > ms_last_index s + 1"
    using lo ms_last_inc [OF ok] by (simp_all add: word_less_nat_alt)
  moreover have "unat hi - unat (ms_first_index s) \<le> length (ms_entries s)"
    using lo ms_last_first [OF ok] by simp
  ultimately show ?thesis
    using ne lo by (simp add: ms_read_entries_def Let_def first)
qed

lemma ms_term_nth:
  assumes ok: "ms_ok s" and i: "unat (ms_first_index s) \<le> unat i" "unat i \<le> unat (ms_last_index s)" "i \<noteq> 0"
  shows "ms_term s i = Some (Inr (le_term (ms_entries s ! (unat i - unat (ms_first_index s)))))"
proof -
  have ne: "ms_entries s \<noteq> []" using i ms_last_first [OF ok] by auto
  have first: "le_index (hd (ms_entries s)) = ms_first_index s" using ne by (simp add: ms_first_index_def)
  have "unat (i - ms_first_index s) = unat i - unat (ms_first_index s)"
    using i by (intro unat_diff_u64) (simp add: word_le_nat_alt)
  moreover have "i \<noteq> snap_index s"
    using ok i ne by (auto simp: ms_ok_def word_less_nat_alt)
  ultimately show ?thesis
    using i ne ms_last_first [OF ok] by (simp add: ms_term_def Let_def first word_less_nat_alt)
qed

interpretation mem_st: raft_log_store mem_store ms_ok ms_entries
  by unfold_locales
    (simp_all add: mem_store_def ms_contiguous ms_last_Suc ms_term_nth ms_read_slice limit_entries_all
      order_trans [OF total_le_size_slice])

lemma fs_read_slice:
  assumes ok: "ms_ok s" and ne: "ms_entries s \<noteq> []"
    and lo: "unat (ms_first_index s) \<le> unat lo" "unat lo \<le> unat hi" "unat hi \<le> unat (ms_last_index s) + 1"
  shows "fs_read_entries s lo hi max_size = Some (Inr
    (take (unat hi - unat lo) (drop (unat lo - unat (ms_first_index s)) (ms_entries s))))"
proof -
  have first: "le_index (hd (ms_entries s)) = ms_first_index s" using ne by (simp add: ms_first_index_def)
  have len: "length (ms_entries s) < 2 ^ 64" using ok by (simp add: ms_ok_def contiguous_def)
  have d: "unat (lo - ms_first_index s) = unat lo - unat (ms_first_index s)"
    "unat (hi - ms_first_index s) = unat hi - unat (ms_first_index s)"
    using lo by (intro unat_diff_u64; simp add: word_le_nat_alt)+
  have hi: "unat hi - unat (ms_first_index s) \<le> length (ms_entries s)"
    using lo ms_last_first [OF ok] by simp
  then have "min (hi - ms_first_index s) (u64_len (ms_entries s)) = hi - ms_first_index s"
    using len by (simp add: min_def word_le_nat_alt d u64_len_def unat_of_nat_u64)
  then show ?thesis
    using ne lo hi d by (simp add: fs_read_entries_def Let_def first word_less_nat_alt)
qed

lemma fs_term_nth:
  assumes ok: "ms_ok s" and i: "unat (ms_first_index s) \<le> unat i" "unat i \<le> unat (ms_last_index s)" "i \<noteq> 0"
  shows "fs_term s i = Some (Inr (le_term (ms_entries s ! (unat i - unat (ms_first_index s)))))"
proof -
  have ne: "ms_entries s \<noteq> []" using i ms_last_first [OF ok] by auto
  have first: "le_index (hd (ms_entries s)) = ms_first_index s" using ne by (simp add: ms_first_index_def)
  have len: "unat (ms_first_index s) + length (ms_entries s) < 2 ^ 64" "0 < length (ms_entries s)"
    using ok ne by (simp_all add: ms_ok_def contiguous_def)
  have "of_nat (unat (ms_first_index s) + (length (ms_entries s) - 1)) = ms_first_index s + u64_len (ms_entries s) - 1"
    using len(2) by (cases "length (ms_entries s)") (simp_all add: u64_len_def)
  moreover have "unat (of_nat (unat (ms_first_index s) + (length (ms_entries s) - 1)) :: u64) =
      unat (ms_first_index s) + (length (ms_entries s) - 1)"
    using len by (intro unat_of_nat_u64) simp
  ultimately have "unat (ms_first_index s + u64_len (ms_entries s) - 1) = unat (ms_last_index s)"
    using ms_last_first [OF ok] len(2) by simp
  moreover have "unat (i - ms_first_index s) = unat i - unat (ms_first_index s)"
    using i by (intro unat_diff_u64) (simp add: word_le_nat_alt)
  moreover have "i \<noteq> snap_index s"
    using ok i ne by (auto simp: ms_ok_def word_less_nat_alt)
  ultimately show ?thesis
    using i ne ms_last_first [OF ok] by (simp add: fs_term_def Let_def first word_less_nat_alt)
qed

interpretation file_st: raft_log_store file_store ms_ok ms_entries
  by unfold_locales
    (simp_all add: file_store_def ms_contiguous ms_last_Suc fs_term_nth fs_read_slice)

end
