(* ===== verification/RaftNode.thy ===== *)
theory RaftNode
  imports RaftStorage
begin

text \<open>
  The consensus state machine \<open>RaftNode\<close> of \<open>src/src/cluster/raft/node.rs\<close>: construction, the
  timer, the state transitions, every message handler, proposals, the advance of the commit index
  and the generation of \<open>Ready\<close>.

  \<open>Instant::now()\<close> and the timeout that \<open>random_election_timeout\<close> draws are the arguments
  \<open>now\<close> and \<open>rt\<close> of an operation that uses them; one call sees one value of each, the last one
  it reads.  The hash maps \<open>progress\<close> and \<open>votes\<close> are association lists.  An operation that may
  panic (an index out of range) returns an \<open>option\<close>.  Times are natural numbers: twice the maximal election
  timeout is taken to fit a \<open>Duration\<close>, as it does unless the configuration has more than 2^63 seconds.
\<close>

record raft_node =
  rn_config :: raft_config
  rn_term :: raft_term
  rn_voted_for :: node_id
  rn_log :: "log_entry list"
  rn_commit_index :: log_index
  rn_last_applied :: log_index
  rn_progress :: "(node_id \<times> progress) list"
  rn_state :: raft_state
  rn_leader_id :: node_id
  rn_election_timeout :: nat
  rn_last_election_reset :: nat
  rn_last_heartbeat :: nat
  rn_votes :: "(node_id \<times> bool) list"
  rn_read_states :: "read_state list"
  rn_pending_reads :: "read_state list"
  rn_pending_snapshot :: "snapshot option"
  rn_quorum_recently_active :: bool
  rn_conf_state :: conf_state
  rn_in_joint_consensus :: bool

subsection \<open>Construction\<close>

definition node_with :: "raft_config \<Rightarrow> hard_state \<Rightarrow> log_entry list \<Rightarrow> conf_state \<Rightarrow> nat \<Rightarrow> nat \<Rightarrow> raft_node" where
  "node_with cfg hs lg cs now rt =
     \<lparr>rn_config = cfg, rn_term = hs_term hs, rn_voted_for = hs_voted_for hs, rn_log = lg,
      rn_commit_index = hs_commit_index hs, rn_last_applied = hs_commit_index hs, rn_progress = [],
      rn_state = Follower, rn_leader_id = 0, rn_election_timeout = rt, rn_last_election_reset = now,
      rn_last_heartbeat = now, rn_votes = [], rn_read_states = [], rn_pending_reads = [],
      rn_pending_snapshot = None, rn_quorum_recently_active = True, rn_conf_state = cs,
      rn_in_joint_consensus = False\<rparr>"

definition usize_max :: nat where
  "usize_max = 2 ^ 64 - 1"

definition raft_new :: "raft_config \<Rightarrow> 's store_ops \<Rightarrow> 's \<Rightarrow> nat \<Rightarrow> nat \<Rightarrow> raft_node res option" where
  "raft_new cfg ops store now rt =
     (let init = so_initial_state ops store;
          first_index = so_first_index ops store;
          last_index = so_last_index ops store
      in map_option
           (\<lambda>r. and_then r (\<lambda>lg. Inr (node_with cfg (ps_hard_state init) lg (ps_conf_state init) now rt)))
           (if last_index \<ge> first_index then so_entries ops store first_index (last_index + 1) usize_max
            else Some (Inr [])))"

definition raft_new_with_conf :: "raft_config \<Rightarrow> node_id list \<Rightarrow> nat \<Rightarrow> nat \<Rightarrow> raft_node" where
  "raft_new_with_conf cfg voters now rt =
     node_with cfg hard_state_default [log_entry_new 1 0 []] (conf_state_new voters) now rt"

subsection \<open>Accessors\<close>

definition rn_id :: "raft_node \<Rightarrow> node_id" where
  "rn_id n = cfg_id (rn_config n)"

definition is_leader :: "raft_node \<Rightarrow> bool" where
  "is_leader n \<longleftrightarrow> rn_state n = Leader"

definition last_index :: "raft_node \<Rightarrow> log_index" where
  "last_index n = u64_len (rn_log n)"

definition log_term :: "raft_node \<Rightarrow> log_index \<Rightarrow> raft_term" where
  "log_term n index =
     (if index = 0 then 0
      else if index > u64_len (rn_log n) then 0
      else le_term (rn_log n ! unat (index - 1)))"

definition last_term :: "raft_node \<Rightarrow> raft_term" where
  "last_term n = log_term n (last_index n)"

subsection \<open>State transitions\<close>

definition reset_election_timeout :: "nat \<Rightarrow> nat \<Rightarrow> raft_node \<Rightarrow> raft_node" where
  "reset_election_timeout now rt n = n\<lparr>rn_election_timeout := rt, rn_last_election_reset := now\<rparr>"

definition raft_reset :: "raft_term \<Rightarrow> raft_node \<Rightarrow> raft_node" where
  "raft_reset term n =
     (let n1 = (if rn_term n \<noteq> term then n\<lparr>rn_term := term, rn_voted_for := 0\<rparr> else n)
      in n1\<lparr>rn_leader_id := 0, rn_progress := [], rn_votes := [], rn_read_states := [], rn_pending_reads := []\<rparr>)"

definition become_follower :: "nat \<Rightarrow> nat \<Rightarrow> raft_term \<Rightarrow> node_id \<Rightarrow> raft_node \<Rightarrow> raft_node" where
  "become_follower now rt term leader n =
     reset_election_timeout now rt ((raft_reset term n)\<lparr>rn_state := Follower, rn_leader_id := leader\<rparr>)"

definition become_pre_candidate :: "nat \<Rightarrow> nat \<Rightarrow> raft_node \<Rightarrow> raft_node" where
  "become_pre_candidate now rt n =
     reset_election_timeout now rt (n\<lparr>rn_state := PreCandidate, rn_votes := [(rn_id n, True)]\<rparr>)"

definition become_candidate :: "nat \<Rightarrow> nat \<Rightarrow> raft_node \<Rightarrow> raft_node" where
  "become_candidate now rt n =
     (let n1 = n\<lparr>rn_term := rn_term n + 1\<rparr>; n2 = raft_reset (rn_term n1) n1
      in reset_election_timeout now rt
           (n2\<lparr>rn_state := Candidate, rn_voted_for := rn_id n, rn_votes := [(rn_id n, True)]\<rparr>))"

definition initial_progress :: "raft_node \<Rightarrow> (node_id \<times> progress) list" where
  "initial_progress n =
     fold (\<lambda>id pr. if id \<noteq> rn_id n
                   then hm_insert id (progress_new (last_index n + 1) (is_learner (rn_conf_state n) id)) pr
                   else pr)
       (cs_voters (rn_conf_state n)) []"

definition become_leader :: "raft_node \<Rightarrow> raft_node" where
  "become_leader n =
     n\<lparr>rn_progress := initial_progress n,
       rn_state := Leader,
       rn_leader_id := rn_id n,
       rn_quorum_recently_active := True,
       rn_log := rn_log n @ [log_entry_new (last_index n + 1) (rn_term n) []],
       rn_read_states := rn_read_states n @ rn_pending_reads n,
       rn_pending_reads := []\<rparr>"

text \<open>
  \<open>pre_campaign\<close> and \<open>campaign\<close> also build a request for each peer, which they then drop: no
  message leaves these functions.
\<close>

definition pre_campaign :: "nat \<Rightarrow> nat \<Rightarrow> raft_node \<Rightarrow> raft_node" where
  "pre_campaign now rt n = become_pre_candidate now rt n"

definition campaign :: "nat \<Rightarrow> nat \<Rightarrow> raft_node \<Rightarrow> raft_node" where
  "campaign now rt n = become_candidate now rt n"

subsection \<open>The timer\<close>

definition handle_election_timeout :: "nat \<Rightarrow> nat \<Rightarrow> raft_node \<Rightarrow> bool \<times> raft_node" where
  "handle_election_timeout now rt n =
     (if cfg_pre_vote (rn_config n) \<and> rn_state n = Follower then (True, pre_campaign now rt n)
      else (True, campaign now rt n))"

definition quorum_size :: "raft_node \<Rightarrow> nat" where
  "quorum_size n = length (cs_voters (rn_conf_state n)) div 2 + 1"

definition check_quorum :: "nat \<Rightarrow> nat \<Rightarrow> raft_node \<Rightarrow> raft_node" where
  "check_quorum now rt n =
     (let active_peers = length (filter pr_recent_active (hm_values (rn_progress n)));
          active = (active_peers + 1 \<ge> quorum_size n);
          n1 = (if \<not> active \<and> rn_quorum_recently_active n then become_follower now rt (rn_term n) 0 n else n)
      in n1\<lparr>rn_quorum_recently_active := active\<rparr>)"

definition raft_tick :: "nat \<Rightarrow> nat \<Rightarrow> raft_node \<Rightarrow> bool \<times> raft_node" where
  "raft_tick now rt n =
     (if rn_state n = Leader then
        (if now - rn_last_heartbeat n \<ge> cfg_heartbeat_interval (rn_config n)
         then (True, n\<lparr>rn_last_heartbeat := now\<rparr>)
         else (False, if cfg_check_quorum (rn_config n) then check_quorum now rt n else n))
      else
        (if now - rn_last_election_reset n \<ge> rn_election_timeout n then handle_election_timeout now rt n
         else (False, n)))"

subsection \<open>The log\<close>

definition truncate_log :: "log_index \<Rightarrow> raft_node \<Rightarrow> raft_node" where
  "truncate_log from_index n =
     (if from_index \<le> u64_len (rn_log n) then n\<lparr>rn_log := take (unat (from_index - 1)) (rn_log n)\<rparr> else n)"

fun conflict_loop :: "raft_node \<Rightarrow> raft_term \<Rightarrow> nat \<Rightarrow> log_index" where
  "conflict_loop n term 0 = 0"
| "conflict_loop n term (Suc i) =
     (if log_term n (of_nat (Suc i)) \<noteq> term then of_nat (Suc i) else conflict_loop n term i)"

definition find_conflict_hint :: "raft_node \<Rightarrow> log_index \<Rightarrow> log_index" where
  "find_conflict_hint n index = conflict_loop n (log_term n index) (unat index)"

definition get_entries :: "raft_node \<Rightarrow> log_index \<Rightarrow> nat \<Rightarrow> log_entry list" where
  "get_entries n from max_size =
     (let start = unat (from - 1)
      in if start \<ge> length (rn_log n) then [] else limit_entries max_size 0 [] (drop start (rn_log n)))"

definition raft_propose :: "u8 list \<Rightarrow> raft_node \<Rightarrow> log_index res \<times> raft_node" where
  "raft_propose data n =
     (if \<not> is_leader n then (Inl EConsensus, n)
      else (let index = last_index n + 1
            in (Inr index, n\<lparr>rn_log := rn_log n @ [log_entry_new index (rn_term n) data]\<rparr>)))"

definition raft_read_index :: "u8 list \<Rightarrow> raft_node \<Rightarrow> unit res \<times> raft_node" where
  "raft_read_index ctx n =
     (if \<not> is_leader n then (Inl EConsensus, n)
      else (Inr (), n\<lparr>rn_pending_reads := rn_pending_reads n @
                        [\<lparr>rs_index = rn_commit_index n, rs_request_ctx = ctx\<rparr>]\<rparr>))"

subsection \<open>Commit\<close>

definition match_indices :: "raft_node \<Rightarrow> log_index list" where
  "match_indices n = rev (sort (map pr_match_index (hm_values (rn_progress n)) @ [last_index n]))"

definition advance_commit_index :: "raft_node \<Rightarrow> raft_node option" where
  "advance_commit_index n =
     (if rn_state n \<noteq> Leader then Some n
      else
        (let ms = match_indices n
         in if quorum_size n - 1 \<ge> length ms then None
            else
              (let quorum_index = ms ! (quorum_size n - 1)
               in Some
                    (if quorum_index > rn_commit_index n \<and> log_term n quorum_index = rn_term n then
                       n\<lparr>rn_commit_index := quorum_index,
                         rn_read_states := rn_read_states n @ filter (\<lambda>r. rs_index r \<le> quorum_index) (rn_pending_reads n),
                         rn_pending_reads := filter (\<lambda>r. \<not> rs_index r \<le> quorum_index) (rn_pending_reads n)\<rparr>
                     else n))))"

subsection \<open>Ready\<close>

definition hard_state_of :: "raft_node \<Rightarrow> hard_state" where
  "hard_state_of n =
     \<lparr>hs_term = rn_term n, hs_voted_for = rn_voted_for n, hs_commit_index = rn_commit_index n\<rparr>"

definition peer_message :: "raft_node \<Rightarrow> node_id \<Rightarrow> progress \<Rightarrow> message" where
  "peer_message n peer p =
     (if pr_next_index p > last_index n then
        (message_new Heartbeat (rn_id n) peer (rn_term n))\<lparr>msg_commit := rn_commit_index n\<rparr>
      else
        (message_new AppendEntries (rn_id n) peer (rn_term n))
          \<lparr>msg_index := pr_next_index p - 1,
           msg_entries := get_entries n (pr_next_index p) (cfg_max_msg_size (rn_config n)),
           msg_commit := rn_commit_index n\<rparr>)"

definition raft_ready :: "raft_node \<Rightarrow> ready option \<times> raft_node" where
  "raft_ready n =
     (if rn_state n \<noteq> Leader then (None, n)
      else
        (let msgs = map (\<lambda>(peer, p). peer_message n peer p) (filter (\<lambda>(peer, p). \<not> pr_paused p) (rn_progress n));
             apply_now = (rn_commit_index n > rn_last_applied n);
             committed = (if apply_now then get_entries n (rn_last_applied n + 1) usize_max else []);
             n1 = (if apply_now then n\<lparr>rn_last_applied := rn_commit_index n\<rparr> else n);
             r = ready_default\<lparr>rd_messages := msgs, rd_committed := committed, rd_hard_state := Some (hard_state_of n1)\<rparr>
         in (if ready_is_empty r then None else Some r, n1)))"

definition build_append_acks :: "raft_node \<Rightarrow> ready" where
  "build_append_acks n =
     ready_default
       \<lparr>rd_messages :=
          map (\<lambda>peer. (message_new AppendEntries (rn_id n) peer (rn_term n))
                 \<lparr>msg_index := last_index n - 1,
                  msg_commit := rn_commit_index n,
                  msg_entries := (if length (rn_log n) > 1 then [last (rn_log n)] else [])\<rparr>)
            (filter (\<lambda>peer. peer \<noteq> rn_id n) (cs_voters (rn_conf_state n))),
        rd_hard_state := Some (hard_state_of n)\<rparr>"

text \<open>\<open>read_states\<close> hands out the reads that may be answered.\<close>

definition take_read_states :: "raft_node \<Rightarrow> read_state list \<times> raft_node" where
  "take_read_states n = (rn_read_states n, n\<lparr>rn_read_states := []\<rparr>)"

subsection \<open>Message handlers\<close>

type_synonym step_result = "(ready option \<times> raft_node) option"

definition one_message :: "message \<Rightarrow> ready" where
  "one_message m = ready_default\<lparr>rd_messages := [m]\<rparr>"

definition handle_heartbeat :: "nat \<Rightarrow> nat \<Rightarrow> message \<Rightarrow> raft_node \<Rightarrow> step_result" where
  "handle_heartbeat now rt m n0 =
     (let n = reset_election_timeout now rt n0
      in if msg_term m < rn_term n then Some (None, n)
         else
           (let n1 = n\<lparr>rn_leader_id := msg_from m, rn_commit_index := max (rn_commit_index n) (msg_commit m)\<rparr>
            in Some (Some (one_message (message_new Heartbeat (rn_id n1) (msg_from m) (rn_term n1))), n1)))"

definition append_response :: "raft_node \<Rightarrow> message \<Rightarrow> message" where
  "append_response n m = message_new AppendResponse (rn_id n) (msg_from m) (rn_term n)"

definition handle_append_entries :: "nat \<Rightarrow> nat \<Rightarrow> message \<Rightarrow> raft_node \<Rightarrow> step_result" where
  "handle_append_entries now rt m n0 =
     (let n = reset_election_timeout now rt n0
      in if msg_term m < rn_term n then
           Some (Some (one_message (with_reject (last_index n) (append_response n m))), n)
         else
           (let n1 = n\<lparr>rn_leader_id := msg_from m\<rparr>
            in if msg_index m > 0 \<and> log_term n1 (msg_index m) \<noteq> msg_term m then
                 Some (Some (one_message (with_reject (find_conflict_hint n1 (msg_index m)) (append_response n1 m))), n1)
               else
                 (let next_index = msg_index m + 1;
                      n2 = (if msg_entries m = [] then n1
                            else (let t = truncate_log next_index n1
                                  in t\<lparr>rn_log := rn_log t @ filter (\<lambda>e. \<not> le_index e < next_index) (msg_entries m)\<rparr>));
                      last_new = (if msg_entries m = [] then msg_index m else le_index (last (msg_entries m)));
                      n3 = (if msg_commit m > rn_commit_index n2
                            then n2\<lparr>rn_commit_index := min (msg_commit m) last_new\<rparr> else n2);
                      response = (append_response n3 m)\<lparr>msg_index := last_index n3\<rparr>
                  in Some (Some ((one_message response)\<lparr>rd_entries := msg_entries m\<rparr>), n3))))"

definition handle_append_response :: "message \<Rightarrow> raft_node \<Rightarrow> step_result" where
  "handle_append_response m n =
     (if rn_state n \<noteq> Leader \<or> msg_term m \<noteq> rn_term n then Some (None, n)
      else
        (case hm_get (rn_progress n) (msg_from m) of
           None \<Rightarrow> Some (None, n)
         | Some p \<Rightarrow>
             if msg_reject m then
               (let p1 = become_reject p;
                    p2 = (if msg_reject_hint m > 0
                          then p1\<lparr>pr_next_index := min (pr_next_index p1) (msg_reject_hint m)\<rparr> else p1);
                    p3 = p2\<lparr>pr_next_index := max (pr_next_index p2) 1\<rparr>
                in Some (None, n\<lparr>rn_progress := hm_insert (msg_from m) p3 (rn_progress n)\<rparr>))
             else
               map_option (Pair None)
                 (advance_commit_index
                    (n\<lparr>rn_progress := hm_insert (msg_from m) (become_accept (msg_index m) p) (rn_progress n)\<rparr>))))"

definition vote_response :: "raft_node \<Rightarrow> message \<Rightarrow> message" where
  "vote_response n m = message_new VoteResponse (rn_id n) (msg_from m) (rn_term n)"

definition handle_request_vote :: "nat \<Rightarrow> nat \<Rightarrow> message \<Rightarrow> raft_node \<Rightarrow> step_result" where
  "handle_request_vote now rt m n =
     (if msg_term m < rn_term n then
        Some (Some (one_message (with_reject 0 (vote_response n m))), n)
      else
        (let can_vote = (rn_voted_for n = 0 \<or> rn_voted_for n = msg_from m) \<and> rn_voted_for n \<noteq> rn_id n;
             log_ok = (msg_term m > last_term n \<or> msg_term m = last_term n \<and> msg_index m \<ge> last_index n);
             granted = (can_vote \<and> log_ok);
             n1 = (if granted then reset_election_timeout now rt (n\<lparr>rn_voted_for := msg_from m\<rparr>) else n);
             response = (vote_response n1 m)\<lparr>msg_reject := \<not> granted\<rparr>
         in Some (Some ((one_message response)\<lparr>rd_hard_state := Some (hard_state_of n1)\<rparr>), n1)))"

definition votes_granted :: "raft_node \<Rightarrow> nat" where
  "votes_granted n = length (filter id (hm_values (rn_votes n)))"

definition votes_rejected :: "raft_node \<Rightarrow> nat" where
  "votes_rejected n = length (filter Not (hm_values (rn_votes n)))"

definition handle_vote_response :: "nat \<Rightarrow> nat \<Rightarrow> message \<Rightarrow> raft_node \<Rightarrow> step_result" where
  "handle_vote_response now rt m n =
     (if rn_state n \<noteq> Candidate \<or> msg_term m \<noteq> rn_term n then Some (None, n)
      else
        (let n1 = n\<lparr>rn_votes := hm_insert (msg_from m) (\<not> msg_reject m) (rn_votes n)\<rparr>;
             total_voters = length (cs_voters (rn_conf_state n1))
         in if is_quorum total_voters (votes_granted n1) then
              (let n2 = become_leader n1 in Some (Some (build_append_acks n2), n2))
            else if is_quorum total_voters (votes_rejected n1) then
              Some (None, become_follower now rt (rn_term n1) 0 n1)
            else Some (None, n1)))"

definition handle_request_pre_vote :: "nat \<Rightarrow> message \<Rightarrow> raft_node \<Rightarrow> step_result" where
  "handle_request_pre_vote now m n =
     (let log_ok = (msg_term m > last_term n \<or> msg_term m = last_term n \<and> msg_index m \<ge> last_index n);
          leader_recently_active =
            (rn_state n = Leader \<or>
             rn_leader_id n \<noteq> 0 \<and>
             now - rn_last_election_reset n < cfg_election_timeout_max (rn_config n) * 2);
          granted = (log_ok \<and> \<not> leader_recently_active)
      in Some (Some (one_message
           ((message_new PreVoteResponse (rn_id n) (msg_from m) (rn_term n))\<lparr>msg_reject := \<not> granted\<rparr>)), n))"

definition handle_pre_vote_response :: "nat \<Rightarrow> nat \<Rightarrow> message \<Rightarrow> raft_node \<Rightarrow> step_result" where
  "handle_pre_vote_response now rt m n =
     (if rn_state n \<noteq> PreCandidate \<or> msg_term m \<noteq> rn_term n then Some (None, n)
      else
        (let n1 = n\<lparr>rn_votes := hm_insert (msg_from m) (\<not> msg_reject m) (rn_votes n)\<rparr>
         in Some (None,
              if is_quorum (length (cs_voters (rn_conf_state n1))) (votes_granted n1) then campaign now rt n1 else n1)))"

definition handle_install_snapshot :: "nat \<Rightarrow> nat \<Rightarrow> message \<Rightarrow> raft_node \<Rightarrow> step_result" where
  "handle_install_snapshot now rt m n0 =
     (if msg_term m < rn_term n0 then Some (None, n0)
      else
        (let n = (reset_election_timeout now rt n0)\<lparr>rn_leader_id := msg_from m\<rparr>
         in case msg_snapshot m of
              None \<Rightarrow> Some (None, n)
            | Some sn \<Rightarrow>
                (let n1 = n\<lparr>rn_pending_snapshot := None, rn_log := [],
                            rn_commit_index := sm_index (sn_metadata sn),
                            rn_last_applied := sm_index (sn_metadata sn)\<rparr>
                 in Some (Some ((one_message (message_new SnapshotResponse (rn_id n1) (msg_from m) (rn_term n1)))
                                  \<lparr>rd_snapshot := Some sn\<rparr>), n1))))"

definition handle_snapshot_response :: "message \<Rightarrow> raft_node \<Rightarrow> step_result" where
  "handle_snapshot_response m n =
     (if rn_state n \<noteq> Leader then Some (None, n)
      else
        (case hm_get (rn_progress n) (msg_from m) of
           None \<Rightarrow> Some (None, n)
         | Some p \<Rightarrow>
             if msg_reject m then Some (None, n)
             else Some (None, n\<lparr>rn_progress := hm_insert (msg_from m)
                    (p\<lparr>pr_match_index := msg_index m, pr_next_index := msg_index m + 1, pr_paused := False\<rparr>)
                    (rn_progress n)\<rparr>)))"

text \<open>\<open>step\<close>: the term check, then the handler of the message's type.\<close>

definition check_term :: "nat \<Rightarrow> nat \<Rightarrow> message \<Rightarrow> raft_node \<Rightarrow> raft_node" where
  "check_term now rt m n =
     (if msg_term m > rn_term n
      then become_follower now rt (msg_term m) (if msg_type m = AppendEntries then msg_from m else 0) n
      else n)"

definition raft_step :: "nat \<Rightarrow> nat \<Rightarrow> message \<Rightarrow> raft_node \<Rightarrow> step_result" where
  "raft_step now rt m n0 =
     (let n = check_term now rt m n0
      in case msg_type m of
           Heartbeat \<Rightarrow> handle_heartbeat now rt m n
         | AppendEntries \<Rightarrow> handle_append_entries now rt m n
         | AppendResponse \<Rightarrow> handle_append_response m n
         | RequestVote \<Rightarrow> handle_request_vote now rt m n
         | VoteResponse \<Rightarrow> handle_vote_response now rt m n
         | RequestPreVote \<Rightarrow> handle_request_pre_vote now m n
         | PreVoteResponse \<Rightarrow> handle_pre_vote_response now rt m n
         | InstallSnapshot \<Rightarrow> handle_install_snapshot now rt m n
         | SnapshotResponse \<Rightarrow> handle_snapshot_response m n
         | TimeoutNow \<Rightarrow> Some (None, n))"

record raft_metrics =
  rm_state :: raft_state
  rm_term :: raft_term
  rm_leader_id :: node_id
  rm_commit_index :: log_index
  rm_applied_index :: log_index
  rm_last_index :: log_index
  rm_pending_proposals :: nat

definition raft_node_metrics :: "raft_node \<Rightarrow> raft_metrics" where
  "raft_node_metrics n =
     \<lparr>rm_state = rn_state n, rm_term = rn_term n, rm_leader_id = rn_leader_id n,
      rm_commit_index = rn_commit_index n, rm_applied_index = rn_last_applied n,
      rm_last_index = last_index n, rm_pending_proposals = length (rn_pending_reads n)\<rparr>"

end
