(* ===== verification/RaftElection.thy ===== *)
theory RaftElection
  imports RaftNode
begin

text \<open>
  What one transition of a node may do to its term, its vote and its state.  \<open>vote_ok\<close> says it for
  a transition from \<open>n\<close> to \<open>n'\<close> on the message \<open>ev\<close> (\<open>None\<close> for the timer and the calls of the
  application), which sends the messages \<open>out\<close>.  Every handler satisfies it, and so does \<open>step\<close>.
\<close>

definition counts_vote :: "message option \<Rightarrow> raft_node \<Rightarrow> node_id \<Rightarrow> bool" where
  "counts_vote ev n k \<longleftrightarrow>
     (case ev of None \<Rightarrow> False
      | Some m \<Rightarrow> msg_type m = VoteResponse \<and> \<not> msg_reject m \<and> msg_term m = rn_term n \<and> msg_from m = k)"

definition vote_ok :: "message option \<Rightarrow> message list \<Rightarrow> raft_node \<Rightarrow> raft_node \<Rightarrow> bool" where
  "vote_ok ev out n n' \<longleftrightarrow>
     rn_config n' = rn_config n \<and> rn_conf_state n' = rn_conf_state n \<and>
     rn_term n \<le> rn_term n' \<and>
     (rn_term n' = rn_term n \<and> rn_voted_for n \<noteq> 0 \<longrightarrow> rn_voted_for n' = rn_voted_for n) \<and>
     (\<forall>resp \<in> set out. msg_type resp = VoteResponse \<and> \<not> msg_reject resp \<longrightarrow>
        msg_from resp = rn_id n \<and> msg_term resp = rn_term n' \<and> msg_to resp = rn_voted_for n' \<and>
        (\<exists>m. ev = Some m \<and> rn_voted_for n' = msg_from m)) \<and>
     (hm_ok (rn_votes n) \<longrightarrow> hm_ok (rn_votes n')) \<and>
     (rn_state n' = Candidate \<longrightarrow> (\<forall>k. hm_get (rn_votes n') k = Some True \<longrightarrow>
        k = rn_id n \<and> rn_voted_for n' = rn_id n \<or>
        rn_state n = Candidate \<and> rn_term n' = rn_term n \<and> (hm_get (rn_votes n) k = Some True \<or> counts_vote ev n k))) \<and>
     (rn_state n' = Leader \<longrightarrow> rn_term n' = rn_term n \<and>
        (rn_state n = Leader \<or>
         rn_state n = Candidate \<and>
         (\<exists>vs. (hm_ok (rn_votes n) \<longrightarrow> hm_ok vs) \<and>
            (\<forall>k. hm_get vs k = Some True \<longrightarrow> hm_get (rn_votes n) k = Some True \<or> counts_vote ev n k) \<and>
            is_quorum (length (cs_voters (rn_conf_state n))) (length (filter id (hm_values vs))))))"

lemma vote_ok_static:
  assumes "vote_ok ev out n n'"
  shows "rn_config n' = rn_config n" "rn_conf_state n' = rn_conf_state n" "rn_term n \<le> rn_term n'"
    "rn_id n' = rn_id n" "hm_ok (rn_votes n) \<Longrightarrow> hm_ok (rn_votes n')"
    "rn_term n' = rn_term n \<Longrightarrow> rn_voted_for n \<noteq> 0 \<Longrightarrow> rn_voted_for n' = rn_voted_for n"
  using assms by (simp_all add: vote_ok_def rn_id_def)

lemma vote_ok_candidate:
  assumes "vote_ok ev out n n'" and "rn_state n' = Candidate" and "hm_get (rn_votes n') k = Some True"
  shows "k = rn_id n \<and> rn_voted_for n' = rn_id n \<or>
    rn_state n = Candidate \<and> rn_term n' = rn_term n \<and> (hm_get (rn_votes n) k = Some True \<or> counts_vote ev n k)"
  using assms by (simp add: vote_ok_def)

lemma vote_ok_leader:
  assumes "vote_ok ev out n n'" and "rn_state n' = Leader"
  shows "rn_term n' = rn_term n \<and>
        (rn_state n = Leader \<or>
         rn_state n = Candidate \<and>
         (\<exists>vs. (hm_ok (rn_votes n) \<longrightarrow> hm_ok vs) \<and>
            (\<forall>k. hm_get vs k = Some True \<longrightarrow> hm_get (rn_votes n) k = Some True \<or> counts_vote ev n k) \<and>
            is_quorum (length (cs_voters (rn_conf_state n))) (length (filter id (hm_values vs)))))"
  using assms by (simp add: vote_ok_def)

lemma vote_ok_out:
  assumes "vote_ok ev out n n'" and "resp \<in> set out" and "msg_type resp = VoteResponse" and "\<not> msg_reject resp"
  shows "msg_from resp = rn_id n \<and> msg_term resp = rn_term n' \<and> msg_to resp = rn_voted_for n' \<and>
    (\<exists>m. ev = Some m \<and> rn_voted_for n' = msg_from m)"
  using assms by (simp add: vote_ok_def)

definition ready_messages :: "ready option \<Rightarrow> message list" where
  "ready_messages r = (case r of None \<Rightarrow> [] | Some rd \<Rightarrow> rd_messages rd)"

named_theorems node_defs "definitions of the node's helpers"

lemmas [node_defs] = reset_election_timeout_def raft_reset_def become_follower_def become_pre_candidate_def
  become_candidate_def become_leader_def pre_campaign_def campaign_def rn_id_def one_message_def
  ready_default_def message_new_def with_reject_def ready_messages_def Let_def

lemma vote_ok_follower:
  "rn_term n \<le> t \<Longrightarrow> vote_ok ev [] n (become_follower now rt t l n)"
  by (auto simp: vote_ok_def node_defs)

lemma vote_ok_campaign: "rn_term n \<noteq> - 1 \<Longrightarrow> vote_ok ev [] n (campaign now rt n)"
  using u64_less_inc [of "rn_term n"] by (auto simp: vote_ok_def node_defs hm_get_def hm_ok_def split: if_splits)

lemma vote_ok_campaign_votes: "rn_term n \<noteq> - 1 \<Longrightarrow> vote_ok ev [] n (campaign now rt (n\<lparr>rn_votes := vs\<rparr>))"
  using u64_less_inc [of "rn_term n"] by (auto simp: vote_ok_def node_defs hm_get_def hm_ok_def split: if_splits)

lemma ready_messages_None [simp]: "ready_messages None = []"
  by (simp add: ready_messages_def)

lemma become_follower_simps [simp]:
  "rn_state (become_follower now rt t l n) = Follower"
  "rn_term (become_follower now rt t l n) = t"
  "rn_config (become_follower now rt t l n) = rn_config n"
  "rn_conf_state (become_follower now rt t l n) = rn_conf_state n"
  "rn_votes (become_follower now rt t l n) = []"
  "rn_log (become_follower now rt t l n) = rn_log n"
  "rn_commit_index (become_follower now rt t l n) = rn_commit_index n"
  "rn_id (become_follower now rt t l n) = rn_id n"
  by (simp_all add: node_defs)

lemma vote_ok_refl:
  "\<forall>resp \<in> set out. msg_type resp \<noteq> VoteResponse \<or> msg_reject resp \<Longrightarrow> vote_ok ev out n n"
  by (auto simp: vote_ok_def)

text \<open>A change of any field that plays no part in elections.\<close>

definition same_vote :: "raft_node \<Rightarrow> raft_node \<Rightarrow> bool" where
  "same_vote n n' \<longleftrightarrow>
     rn_config n' = rn_config n \<and> rn_conf_state n' = rn_conf_state n \<and> rn_term n' = rn_term n \<and>
     rn_voted_for n' = rn_voted_for n \<and> rn_votes n' = rn_votes n \<and> rn_state n' = rn_state n"

lemma vote_ok_same:
  "same_vote n n' \<Longrightarrow> \<forall>resp \<in> set out. msg_type resp \<noteq> VoteResponse \<or> msg_reject resp \<Longrightarrow> vote_ok ev out n n'"
  by (auto simp: vote_ok_def same_vote_def)

lemma same_vote_advance: "advance_commit_index n = Some n' \<Longrightarrow> same_vote n n'"
  by (auto simp: advance_commit_index_def same_vote_def Let_def split: if_splits)

lemma vote_ok_heartbeat:
  "handle_heartbeat now rt m n = Some (r, n') \<Longrightarrow> vote_ok ev (ready_messages r) n n'"
  by (rule vote_ok_same) (auto simp: handle_heartbeat_def same_vote_def node_defs split: if_splits)

lemma vote_ok_append_entries:
  "handle_append_entries now rt m n = Some (r, n') \<Longrightarrow> vote_ok ev (ready_messages r) n n'"
  by (rule vote_ok_same)
    (auto simp: handle_append_entries_def same_vote_def append_response_def truncate_log_def node_defs split: if_splits)

lemma vote_ok_append_response:
  "handle_append_response m n = Some (r, n') \<Longrightarrow> vote_ok ev (ready_messages r) n n'"
  by (rule vote_ok_same)
    (auto simp: handle_append_response_def same_vote_def ready_messages_def Let_def
      split: if_splits option.splits dest!: same_vote_advance)

lemma vote_ok_request_vote:
  "handle_request_vote now rt m n = Some (r, n') \<Longrightarrow> vote_ok (Some m) (ready_messages r) n n'"
  by (auto simp: handle_request_vote_def vote_ok_def vote_response_def node_defs split: if_splits)

lemma vote_ok_request_pre_vote:
  "handle_request_pre_vote now m n = Some (r, n') \<Longrightarrow> vote_ok ev (ready_messages r) n n'"
  by (rule vote_ok_same) (auto simp: handle_request_pre_vote_def same_vote_def node_defs split: if_splits)

lemma vote_ok_install_snapshot:
  "handle_install_snapshot now rt m n = Some (r, n') \<Longrightarrow> vote_ok ev (ready_messages r) n n'"
  by (rule vote_ok_same)
    (auto simp: handle_install_snapshot_def same_vote_def node_defs split: if_splits option.splits)

lemma vote_ok_snapshot_response:
  "handle_snapshot_response m n = Some (r, n') \<Longrightarrow> vote_ok ev (ready_messages r) n n'"
  by (rule vote_ok_same)
    (auto simp: handle_snapshot_response_def same_vote_def ready_messages_def split: if_splits option.splits)

lemma vote_ok_pre_vote_response:
  assumes "handle_pre_vote_response now rt m n = Some (r, n')" and "rn_term n \<noteq> - 1"
  shows "vote_ok ev (ready_messages r) n n'"
proof (cases "rn_state n \<noteq> PreCandidate \<or> msg_term m \<noteq> rn_term n")
  case True
  with assms show ?thesis by (auto simp: handle_pre_vote_response_def ready_messages_def intro: vote_ok_refl)
next
  case False
  let ?n1 = "n\<lparr>rn_votes := hm_insert (msg_from m) (\<not> msg_reject m) (rn_votes n)\<rparr>"
  have "vote_ok ev [] n ?n1" using False by (auto simp: vote_ok_def)
  moreover have "vote_ok ev [] n (campaign now rt ?n1)" by (rule vote_ok_campaign_votes [OF assms(2)])
  moreover have "r = None \<and> (n' = ?n1 \<or> n' = campaign now rt ?n1)"
    using assms(1) False by (auto simp: handle_pre_vote_response_def Let_def split: if_splits)
  ultimately show ?thesis by auto
qed

lemma vote_ok_vote_response:
  assumes "handle_vote_response now rt m n = Some (r, n')" and "msg_type m = VoteResponse"
  shows "vote_ok (Some m) (ready_messages r) n n'"
proof (cases "rn_state n \<noteq> Candidate \<or> msg_term m \<noteq> rn_term n")
  case True
  with assms show ?thesis by (auto simp: handle_vote_response_def ready_messages_def intro: vote_ok_refl)
next
  case False
  let ?vs = "hm_insert (msg_from m) (\<not> msg_reject m) (rn_votes n)"
  let ?n1 = "n\<lparr>rn_votes := ?vs\<rparr>"
  have votes: "hm_get ?vs k = Some True \<Longrightarrow> hm_get (rn_votes n) k = Some True \<or> counts_vote (Some m) n k" for k
    using assms(2) False by (auto simp: counts_vote_def split: if_splits)
  let ?won = "is_quorum (length (cs_voters (rn_conf_state n))) (length (filter id (hm_values ?vs)))"
  have "handle_vote_response now rt m n =
      (if ?won then Some (Some (build_append_acks (become_leader ?n1)), become_leader ?n1)
       else if is_quorum (length (cs_voters (rn_conf_state n))) (votes_rejected ?n1)
       then Some (None, become_follower now rt (rn_term n) 0 ?n1) else Some (None, ?n1))"
    using False by (simp add: handle_vote_response_def votes_granted_def Let_def)
  with assms(1) consider "?won" "r = Some (build_append_acks (become_leader ?n1))" "n' = become_leader ?n1"
    | "r = None" "n' = become_follower now rt (rn_term n) 0 ?n1" | "r = None" "n' = ?n1"
    by (metis option.inject prod.inject)
  then show ?thesis
  proof cases
    case 1
    have "msg_type resp \<noteq> VoteResponse" if resp: "resp \<in> set (ready_messages r)" for resp
      using resp by (auto simp: 1(2) build_append_acks_def node_defs)
    then show ?thesis
      unfolding vote_ok_def using False votes 1(1)
      by (auto simp: 1(3) become_leader_def simp del: hm_get_insert intro!: exI [of _ ?vs])
  next
    case 2
    then show ?thesis using vote_ok_follower [of ?n1 "rn_term n" "Some m" now rt 0]
      by (auto simp: vote_ok_def node_defs)
  next
    case 3
    then show ?thesis using False votes by (auto simp: vote_ok_def ready_messages_def)
  qed
qed

lemma check_term_cases:
  "check_term now rt m n = n \<and> \<not> rn_term n < msg_term m \<or>
   rn_term n < msg_term m \<and> (\<exists>l. check_term now rt m n = become_follower now rt (msg_term m) l n)"
  by (auto simp: check_term_def)

text \<open>A handler after the term check.\<close>

lemma vote_ok_check_term:
  assumes v: "vote_ok (Some m) out (check_term now rt m n) n'"
  shows "vote_ok (Some m) out n n'"
  using check_term_cases [of now rt m n]
proof (elim disjE conjE exE)
  fix l
  assume t: "rn_term n < msg_term m" and c: "check_term now rt m n = become_follower now rt (msg_term m) l n"
  note v' = v [unfolded c vote_ok_def become_follower_simps]
  have grow: "rn_term n \<le> rn_term n'" "rn_term n' \<noteq> rn_term n"
    using v' t by (auto dest: less_le_trans)
  have leader: "rn_state n' \<noteq> Leader"
    using v' by blast
  show ?thesis
    unfolding vote_ok_def using v' grow leader by (simp add: hm_ok_def)
qed (use v in simp)

lemma raft_step_vote_ok:
  assumes s: "raft_step now rt m n = Some (r, n')" and t: "rn_term n \<noteq> - 1"
  shows "vote_ok (Some m) (ready_messages r) n n'"
proof (rule vote_ok_check_term [of _ _ now rt])
  let ?n = "check_term now rt m n"
  have pre: "rn_state ?n = PreCandidate \<Longrightarrow> rn_term ?n \<noteq> - 1"
    using t check_term_cases [of now rt m n] by (auto simp: node_defs)
  show "vote_ok (Some m) (ready_messages r) ?n n'"
  proof (cases "msg_type m")
    case PreVoteResponse
    then have "handle_pre_vote_response now rt m ?n = Some (r, n')" using s by (simp add: raft_step_def Let_def)
    then show ?thesis
      using vote_ok_pre_vote_response [of now rt m ?n r n'] pre
      by (cases "rn_state ?n = PreCandidate")
        (auto simp: handle_pre_vote_response_def ready_messages_def intro: vote_ok_refl)
  qed (use s in \<open>auto simp: raft_step_def Let_def intro: vote_ok_heartbeat vote_ok_append_entries
      vote_ok_append_response vote_ok_request_vote vote_ok_request_pre_vote vote_ok_vote_response
      vote_ok_install_snapshot vote_ok_snapshot_response vote_ok_refl\<close>)
qed

lemma raft_tick_vote_ok:
  assumes "raft_tick now rt n = (b, n')" and "rn_term n \<noteq> - 1"
  shows "vote_ok None [] n n'"
proof -
  have q: "vote_ok None [] n (check_quorum now rt n)"
    using vote_ok_follower [of n "rn_term n" None now rt 0]
    by (auto simp: check_quorum_def vote_ok_def Let_def)
  have p: "vote_ok None [] n (pre_campaign now rt n)"
    by (auto simp: vote_ok_def node_defs hm_ok_def)
  have h: "vote_ok None [] n (n\<lparr>rn_last_heartbeat := now\<rparr>)" by (rule vote_ok_same) (simp_all add: same_vote_def)
  show ?thesis
    using assms q p h vote_ok_campaign [OF assms(2), of None now rt] vote_ok_refl [of "[]" None n]
    by (auto simp: raft_tick_def handle_election_timeout_def split: if_splits)
qed

lemma raft_local_vote_ok:
  "raft_propose d n = (res1, n1) \<Longrightarrow> vote_ok None [] n n1"
  "raft_read_index d n = (res2, n2) \<Longrightarrow> vote_ok None [] n n2"
  "raft_ready n = (rd, n3) \<Longrightarrow> vote_ok None (ready_messages rd) n n3"
  "take_read_states n = (rs, n4) \<Longrightarrow> vote_ok None [] n n4"
  by (rule vote_ok_same; auto simp: raft_propose_def raft_read_index_def raft_ready_def take_read_states_def
      same_vote_def peer_message_def node_defs split: if_splits)+

end
