(* ===== verification/RaftCluster.thy ===== *)
theory RaftCluster
  imports RaftElection
begin

text \<open>
  A cluster of nodes that run \<open>raft_step\<close>, \<open>raft_tick\<close> and the calls of the application in any
  order, and the safety of its elections.

  The network may lose, repeat and reorder messages: \<open>cl_net\<close> holds every message a node has ever
  sent.  Only votes have to be genuine; a message of any other type may be delivered with any
  contents (its sender's id is not \<open>0\<close>).  A node whose term is the greatest word takes no more
  steps, since the next term would wrap to \<open>0\<close>.

  \<open>cl_ballots\<close> and \<open>cl_leaders\<close> record the past: who voted for whom in which term, and who was
  leader of which term.
\<close>

subsection \<open>Quorums\<close>

locale quorum_system =
  fixes quorum :: "'a set \<Rightarrow> bool"
  assumes quorum_meet: "quorum Q \<Longrightarrow> quorum R \<Longrightarrow> Q \<inter> R \<noteq> {}"
begin

text \<open>When nobody votes twice, two quorums have voted for the same.\<close>

lemma quorum_choice:
  assumes "quorum Q" and "quorum R" and "\<forall>v \<in> Q. vote v c" and "\<forall>v \<in> R. vote v d"
    and "\<And>v x y. vote v x \<Longrightarrow> vote v y \<Longrightarrow> x = y"
  shows "c = d"
  using quorum_meet [OF assms(1, 2)] assms(3-5) by blast

end

definition majority :: "node_id list \<Rightarrow> node_id set \<Rightarrow> bool" where
  "majority V Q \<longleftrightarrow> distinct V \<and> Q \<subseteq> set V \<and> is_quorum (length V) (card Q)"

interpretation maj: quorum_system "majority V" for V
proof
  fix Q R assume Q: "majority V Q" and R: "majority V R"
  show "Q \<inter> R \<noteq> {}"
  proof
    assume disj: "Q \<inter> R = {}"
    have fin: "finite Q" "finite R" using Q R by (auto simp: majority_def intro: finite_subset)
    have "card Q + card R = card (Q \<union> R)" using disj fin by (simp add: card_Un_disjoint)
    also have "\<dots> \<le> card (set V)" using Q R by (intro card_mono) (auto simp: majority_def)
    also have "\<dots> = length V" using Q by (simp add: majority_def distinct_card)
    finally have "card Q + card R \<le> length V" .
    moreover have "length V div 2 < card Q" "length V div 2 < card R"
      using Q R by (simp_all add: majority_def is_quorum_def)
    ultimately show False by linarith
  qed
qed

subsection \<open>The cluster\<close>

record cluster =
  cl_node :: "node_id \<Rightarrow> raft_node"
  cl_net :: "message set"
  cl_ballots :: "(node_id \<times> raft_term \<times> node_id) set"
  cl_leaders :: "(raft_term \<times> node_id) set"

definition update_node :: "node_id \<Rightarrow> message list \<Rightarrow> raft_node \<Rightarrow> cluster \<Rightarrow> cluster" where
  "update_node i out n c =
     c\<lparr>cl_node := (cl_node c)(i := n),
       cl_net := cl_net c \<union> set out,
       cl_ballots := (if rn_voted_for n = 0 then cl_ballots c
                      else insert (i, rn_term n, rn_voted_for n) (cl_ballots c)),
       cl_leaders := (if rn_state n = Leader then insert (rn_term n, i) (cl_leaders c) else cl_leaders c)\<rparr>"

definition cluster_init :: "node_id list \<Rightarrow> (node_id \<Rightarrow> raft_config) \<Rightarrow> (node_id \<Rightarrow> nat) \<Rightarrow> (node_id \<Rightarrow> nat) \<Rightarrow> cluster" where
  "cluster_init V cfg now rt =
     \<lparr>cl_node = (\<lambda>i. raft_new_with_conf (cfg i) V (now i) (rt i)), cl_net = {}, cl_ballots = {}, cl_leaders = {}\<rparr>"

inductive cluster_step :: "node_id list \<Rightarrow> cluster \<Rightarrow> cluster \<Rightarrow> bool" for V where
  deliver: "i \<in> set V \<Longrightarrow> rn_term (cl_node c i) \<noteq> - 1 \<Longrightarrow> msg_to m = i \<Longrightarrow> msg_from m \<noteq> 0 \<Longrightarrow>
    (msg_type m = VoteResponse \<Longrightarrow> m \<in> cl_net c) \<Longrightarrow>
    raft_step now rt m (cl_node c i) = Some (r, n) \<Longrightarrow>
    cluster_step V c (update_node i (ready_messages r) n c)"
| timer: "i \<in> set V \<Longrightarrow> rn_term (cl_node c i) \<noteq> - 1 \<Longrightarrow> raft_tick now rt (cl_node c i) = (b, n) \<Longrightarrow>
    cluster_step V c (update_node i [] n c)"
| propose: "i \<in> set V \<Longrightarrow> raft_propose d (cl_node c i) = (res, n) \<Longrightarrow> cluster_step V c (update_node i [] n c)"
| read: "i \<in> set V \<Longrightarrow> raft_read_index d (cl_node c i) = (rd, n) \<Longrightarrow> cluster_step V c (update_node i [] n c)"
| ready: "i \<in> set V \<Longrightarrow> raft_ready (cl_node c i) = (r, n) \<Longrightarrow>
    cluster_step V c (update_node i (ready_messages r) n c)"
| take_reads: "i \<in> set V \<Longrightarrow> take_read_states (cl_node c i) = (rs, n) \<Longrightarrow> cluster_step V c (update_node i [] n c)"

inductive reachable :: "node_id list \<Rightarrow> (node_id \<Rightarrow> raft_config) \<Rightarrow> cluster \<Rightarrow> bool" for V cfg where
  start: "reachable V cfg (cluster_init V cfg now rt)"
| step: "reachable V cfg c \<Longrightarrow> cluster_step V c c' \<Longrightarrow> reachable V cfg c'"

text \<open>Every step is one node's transition with \<open>vote_ok\<close>.\<close>

lemma cluster_step_vote_ok:
  assumes "cluster_step V c c'"
  obtains i ev out n where "i \<in> set V" and "c' = update_node i out n c" and "vote_ok ev out (cl_node c i) n"
    and "\<And>m. ev = Some m \<Longrightarrow> msg_from m \<noteq> 0 \<and> msg_to m = i \<and> (msg_type m = VoteResponse \<longrightarrow> m \<in> cl_net c)"
  using assms
proof cases
  case (deliver i m now rt r n)
  then show ?thesis using raft_step_vote_ok [of now rt m "cl_node c i" r n] by (intro that [of i _ n "Some m"]) auto
next
  case (timer i now rt b n)
  then show ?thesis using raft_tick_vote_ok [of now rt "cl_node c i" b n] by (intro that [of i _ n None]) auto
next
  case (propose i d res n)
  then show ?thesis using raft_local_vote_ok(1) [of d "cl_node c i" res n] by (intro that [of i _ n None]) auto
next
  case (read i d rd n)
  then show ?thesis using raft_local_vote_ok(2) [of d "cl_node c i" rd n] by (intro that [of i _ n None]) auto
next
  case (ready i r n)
  then show ?thesis using raft_local_vote_ok(3) [of "cl_node c i" r n] by (intro that [of i _ n None]) auto
next
  case (take_reads i rs n)
  then show ?thesis using raft_local_vote_ok(4) [of "cl_node c i" rs n] by (intro that [of i _ n None]) auto
qed

subsection \<open>The invariant\<close>

definition node_inv :: "node_id list \<Rightarrow> cluster \<Rightarrow> node_id \<Rightarrow> bool" where
  "node_inv V c i \<longleftrightarrow>
     rn_id (cl_node c i) = i \<and> cs_voters (rn_conf_state (cl_node c i)) = V \<and> hm_ok (rn_votes (cl_node c i)) \<and>
     (rn_voted_for (cl_node c i) \<noteq> 0 \<longrightarrow> (i, rn_term (cl_node c i), rn_voted_for (cl_node c i)) \<in> cl_ballots c) \<and>
     (rn_state (cl_node c i) = Candidate \<longrightarrow>
        (\<forall>k. hm_get (rn_votes (cl_node c i)) k = Some True \<longrightarrow> (k, rn_term (cl_node c i), i) \<in> cl_ballots c)) \<and>
     (rn_state (cl_node c i) = Leader \<longrightarrow> (rn_term (cl_node c i), i) \<in> cl_leaders c)"

definition ballots_inv :: "node_id list \<Rightarrow> cluster \<Rightarrow> bool" where
  "ballots_inv V c \<longleftrightarrow>
     (\<forall>v t x. (v, t, x) \<in> cl_ballots c \<longrightarrow> v \<in> set V \<and> x \<noteq> 0 \<and> t \<le> rn_term (cl_node c v) \<and>
        (t = rn_term (cl_node c v) \<longrightarrow> rn_voted_for (cl_node c v) = x)) \<and>
     (\<forall>v t x y. (v, t, x) \<in> cl_ballots c \<longrightarrow> (v, t, y) \<in> cl_ballots c \<longrightarrow> x = y)"

definition cluster_inv :: "node_id list \<Rightarrow> cluster \<Rightarrow> bool" where
  "cluster_inv V c \<longleftrightarrow>
     (\<forall>i \<in> set V. node_inv V c i) \<and> ballots_inv V c \<and>
     (\<forall>m \<in> cl_net c. msg_type m = VoteResponse \<and> \<not> msg_reject m \<longrightarrow> (msg_from m, msg_term m, msg_to m) \<in> cl_ballots c) \<and>
     (\<forall>t l. (t, l) \<in> cl_leaders c \<longrightarrow> (\<exists>Q. majority V Q \<and> (\<forall>v \<in> Q. (v, t, l) \<in> cl_ballots c)))"

lemma cluster_inv_init:
  assumes "distinct V" and "\<And>i. i \<in> set V \<Longrightarrow> cfg_id (cfg i) = i"
  shows "cluster_inv V (cluster_init V cfg now rt)"
  using assms by (simp add: cluster_inv_def cluster_init_def node_inv_def ballots_inv_def raft_new_with_conf_def
      node_with_def rn_id_def conf_state_new_def hard_state_default_def)

lemma update_node_simps [simp]:
  "cl_node (update_node i out n c) j = (if j = i then n else cl_node c j)"
  "cl_net (update_node i out n c) = cl_net c \<union> set out"
  by (simp_all add: update_node_def)

lemma ballots_update:
  "b \<in> cl_ballots (update_node i out n c) \<longleftrightarrow>
     b \<in> cl_ballots c \<or> rn_voted_for n \<noteq> 0 \<and> b = (i, rn_term n, rn_voted_for n)"
  by (auto simp: update_node_def)

lemma leaders_update:
  "l \<in> cl_leaders (update_node i out n c) \<longleftrightarrow> l \<in> cl_leaders c \<or> rn_state n = Leader \<and> l = (rn_term n, i)"
  by (auto simp: update_node_def)

lemma ballots_inv_update:
  assumes inv: "ballots_inv V c" and i: "i \<in> set V" and v: "vote_ok ev out (cl_node c i) n"
  shows "ballots_inv V (update_node i out n c)"
proof -
  have grow: "rn_term (cl_node c i) \<le> rn_term n"
    and keep: "rn_term n = rn_term (cl_node c i) \<Longrightarrow> rn_voted_for (cl_node c i) \<noteq> 0 \<Longrightarrow>
      rn_voted_for n = rn_voted_for (cl_node c i)"
    using vote_ok_static [OF v] by blast+
  have old: "t \<le> rn_term n \<and> (t = rn_term n \<longrightarrow> rn_voted_for n = x)" if b: "(i, t, x) \<in> cl_ballots c" for t x
  proof -
    have "t \<le> rn_term (cl_node c i)" "t = rn_term (cl_node c i) \<longrightarrow> rn_voted_for (cl_node c i) = x" "x \<noteq> 0"
      using inv b unfolding ballots_inv_def by blast+
    then show ?thesis using grow keep by (metis antisym order_trans)
  qed
  show ?thesis
    using inv i old unfolding ballots_inv_def ballots_update by (auto split: if_splits)
qed

lemma ballots_unique: "ballots_inv V c \<Longrightarrow> (v, t, x) \<in> cl_ballots c \<Longrightarrow> (v, t, y) \<in> cl_ballots c \<Longrightarrow> x = y"
  unfolding ballots_inv_def by meson

lemma majority_of_votes:
  assumes V: "distinct V" and ok: "hm_ok vs" and q: "is_quorum (length V) (length (filter id (hm_values vs)))"
    and sub: "\<And>k. hm_get vs k = Some True \<Longrightarrow> k \<in> set V"
  shows "majority V {k. hm_get vs k = Some True}"
proof -
  have "{k. \<exists>v. hm_get vs k = Some v \<and> id v} = {k. hm_get vs k = Some True}" by auto
  then have "length (filter id (hm_values vs)) = card {k. hm_get vs k = Some True}"
    using length_filter_hm [OF ok, of id] by simp
  with V q sub show ?thesis by (auto simp: majority_def)
qed

lemma cluster_inv_step:
  assumes inv: "cluster_inv V c" and s: "cluster_step V c c'" and V: "distinct V" "0 \<notin> set V"
  shows "cluster_inv V c'"
proof -
  obtain i ev out n where i: "i \<in> set V" and c': "c' = update_node i out n c" and v: "vote_ok ev out (cl_node c i) n"
    and ev: "\<And>m. ev = Some m \<Longrightarrow> msg_from m \<noteq> 0 \<and> msg_to m = i \<and> (msg_type m = VoteResponse \<longrightarrow> m \<in> cl_net c)"
    by (rule cluster_step_vote_ok [OF s]) (rule that)
  let ?o = "cl_node c i"
  have nodes: "\<And>j. j \<in> set V \<Longrightarrow> node_inv V c j" and bal: "ballots_inv V c"
    and net: "\<And>m. m \<in> cl_net c \<Longrightarrow> msg_type m = VoteResponse \<Longrightarrow> \<not> msg_reject m \<Longrightarrow>
        (msg_from m, msg_term m, msg_to m) \<in> cl_ballots c"
    and lead: "\<And>t l. (t, l) \<in> cl_leaders c \<Longrightarrow> \<exists>Q. majority V Q \<and> (\<forall>v \<in> Q. (v, t, l) \<in> cl_ballots c)"
    using inv unfolding cluster_inv_def by blast+
  have o: "rn_id ?o = i" "cs_voters (rn_conf_state ?o) = V" "hm_ok (rn_votes ?o)"
    using nodes [OF i] by (simp_all add: node_inv_def)
  have i0: "i \<noteq> 0" using i V by blast
  have counted: "(k, rn_term ?o, i) \<in> cl_ballots c" if k: "counts_vote ev ?o k" for k
  proof -
    obtain m where m: "ev = Some m" "msg_type m = VoteResponse" "\<not> msg_reject m" "msg_term m = rn_term ?o" "msg_from m = k"
      using k by (auto simp: counts_vote_def split: option.splits)
    then have "(msg_from m, msg_term m, msg_to m) \<in> cl_ballots c" using ev [OF m(1)] by (intro net) simp_all
    with m ev [OF m(1)] show ?thesis by simp
  qed
  have voted: "(k, rn_term ?o, i) \<in> cl_ballots c"
    if "rn_state ?o = Candidate" "hm_get (rn_votes ?o) k = Some True" for k
    using nodes [OF i] that by (simp add: node_inv_def)
  have node_i: "node_inv V c' i"
  proof -
    note vote_ok_static [OF v]
    moreover have cand: "k = i \<and> rn_voted_for n = i \<or> rn_state ?o = Candidate \<and> rn_term n = rn_term ?o \<and>
        (hm_get (rn_votes ?o) k = Some True \<or> counts_vote ev ?o k)"
      if "rn_state n = Candidate" "hm_get (rn_votes n) k = Some True" for k
      using vote_ok_candidate [OF v that] o by simp
    moreover have "(k, rn_term n, i) \<in> cl_ballots c'" if k: "rn_state n = Candidate" "hm_get (rn_votes n) k = Some True" for k
      using cand [OF k] i0 counted voted by (auto simp: c' ballots_update)
    ultimately show ?thesis
      using o by (simp add: node_inv_def rn_id_def c' ballots_update leaders_update)
  qed
  have node_j: "node_inv V c' j" if j: "j \<in> set V" "j \<noteq> i" for j
    using nodes [OF j(1)] j(2) by (simp add: node_inv_def c' ballots_update leaders_update)
  have net': "(msg_from m, msg_term m, msg_to m) \<in> cl_ballots c'"
    if m: "m \<in> cl_net c'" "msg_type m = VoteResponse" "\<not> msg_reject m" for m
  proof (cases "m \<in> cl_net c")
    case True
    then show ?thesis using net m by (simp add: c' ballots_update)
  next
    case False
    then have "m \<in> set out" using m by (simp add: c')
    then have "msg_from m = i" "msg_term m = rn_term n" "msg_to m = rn_voted_for n"
      "\<exists>m0. ev = Some m0 \<and> rn_voted_for n = msg_from m0"
      using vote_ok_out [OF v _ m(2, 3)] o by auto
    then show ?thesis using ev by (auto simp: c' ballots_update)
  qed
  have lead': "\<exists>Q. majority V Q \<and> (\<forall>v \<in> Q. (v, t, l) \<in> cl_ballots c')" if l: "(t, l) \<in> cl_leaders c'" for t l
  proof -
    have keep: "?thesis" if "(t, l) \<in> cl_leaders c" using lead [OF that] by (auto simp: c' ballots_update)
    show ?thesis
    proof (cases "(t, l) \<in> cl_leaders c")
      case False
      then have tl: "rn_state n = Leader" "t = rn_term n" "l = i" using l by (simp_all add: c' leaders_update)
      note vote_ok_leader [OF v tl(1)]
      then show ?thesis
      proof (elim conjE disjE exE)
        assume "rn_state ?o = Leader" "rn_term n = rn_term ?o"
        then show ?thesis using nodes [OF i] tl keep by (simp add: node_inv_def)
      next
        fix vs
        assume st: "rn_state ?o = Candidate" and t: "rn_term n = rn_term ?o"
          and ok: "hm_ok (rn_votes ?o) \<longrightarrow> hm_ok vs"
          and vs: "\<forall>k. hm_get vs k = Some True \<longrightarrow> hm_get (rn_votes ?o) k = Some True \<or> counts_vote ev ?o k"
          and q: "is_quorum (length (cs_voters (rn_conf_state ?o))) (length (filter id (hm_values vs)))"
        have b: "(k, t, l) \<in> cl_ballots c" if k: "hm_get vs k = Some True" for k
          using vs k voted [OF st] counted tl t by auto
        then have "majority V {k. hm_get vs k = Some True}"
          using V(1) ok o q bal by (intro majority_of_votes) (auto simp: ballots_inv_def)
        with b show ?thesis
          by (intro exI [of _ "{k. hm_get vs k = Some True}"]) (auto simp: c' ballots_update)
      qed
    qed (rule keep)
  qed
  show ?thesis
    unfolding cluster_inv_def
  proof (intro conjI ballI allI impI)
    show "node_inv V c' j" if "j \<in> set V" for j using node_i node_j that by (cases "j = i") auto
    show "ballots_inv V c'" unfolding c' by (rule ballots_inv_update [OF bal i v])
  qed (use net' lead' in blast)+
qed

lemma reachable_inv:
  assumes "reachable V cfg c" and "distinct V" and "0 \<notin> set V" and "\<And>i. i \<in> set V \<Longrightarrow> cfg_id (cfg i) = i"
  shows "cluster_inv V c"
  using assms(1)
proof induction
  case (start now rt)
  show ?case by (rule cluster_inv_init [OF assms(2, 4)])
next
  case (step c c')
  then show ?case using cluster_inv_step assms(2, 3) by blast
qed

lemma leaders_quorum:
  "cluster_inv V c \<Longrightarrow> (t, l) \<in> cl_leaders c \<Longrightarrow> \<exists>Q. majority V Q \<and> (\<forall>v \<in> Q. (v, t, l) \<in> cl_ballots c)"
  by (simp add: cluster_inv_def)

lemma one_leader_per_term:
  assumes "cluster_inv V c" and "(t, l) \<in> cl_leaders c" and "(t, l') \<in> cl_leaders c"
  shows "l = l'"
proof -
  obtain Q R where "majority V Q" "\<forall>v \<in> Q. (v, t, l) \<in> cl_ballots c"
    "majority V R" "\<forall>v \<in> R. (v, t, l') \<in> cl_ballots c"
    using leaders_quorum [OF assms(1, 2)] leaders_quorum [OF assms(1, 3)] by blast
  moreover have "ballots_inv V c" using assms(1) by (simp add: cluster_inv_def)
  then have "x = y" if "(v, t, x) \<in> cl_ballots c" "(v, t, y) \<in> cl_ballots c" for v x y
    using that by (rule ballots_unique)
  ultimately show ?thesis
    using maj.quorum_choice [of V Q R "\<lambda>v x. (v, t, x) \<in> cl_ballots c" l l'] by meson
qed

end
