(* ===== verification/RaftNodeProps.thy ===== *)
theory RaftNodeProps
  imports RaftCluster
begin

text \<open>
  Properties of one node beside elections: the commit index, the log after an append, the entries
  that are sent and handed out, and the absence of panics in every reachable state of a cluster.
\<close>

subsection \<open>The commit index\<close>

text \<open>The element at position \<open>q - 1\<close> of a list in descending order is the greatest value that at
  least \<open>q\<close> elements reach.\<close>

lemma filter_ge_sorted:
  assumes "sorted (xs :: 'a :: linorder list)" and "k < length xs"
  shows "length xs - k \<le> length (filter (\<lambda>x. xs ! k \<le> x) xs)"
proof -
  have "\<forall>x \<in> set (drop k xs). xs ! k \<le> x"
  proof
    fix x assume "x \<in> set (drop k xs)"
    then obtain j where "j < length xs - k" "x = xs ! (k + j)" using assms(2) by (auto simp: in_set_conv_nth)
    then show "xs ! k \<le> x" using assms by (simp add: sorted_nth_mono)
  qed
  then have "filter (\<lambda>x. xs ! k \<le> x) (drop k xs) = drop k xs" by simp
  moreover have "filter (\<lambda>x. xs ! k \<le> x) xs =
      filter (\<lambda>x. xs ! k \<le> x) (take k xs) @ filter (\<lambda>x. xs ! k \<le> x) (drop k xs)"
    by (metis append_take_drop_id filter_append)
  ultimately show ?thesis by simp
qed

lemma filter_gt_sorted:
  assumes "sorted (xs :: 'a :: linorder list)" and "k < length xs" and "xs ! k < v"
  shows "length (filter (\<lambda>x. v \<le> x) xs) \<le> length xs - Suc k"
proof -
  have "\<forall>x \<in> set (take (Suc k) xs). \<not> v \<le> x"
  proof
    fix x assume "x \<in> set (take (Suc k) xs)"
    then obtain j where "j \<le> k" "x = xs ! j" using assms(2) by (auto simp: in_set_conv_nth less_Suc_eq_le)
    then have "x \<le> xs ! k" using assms(1, 2) by (simp add: sorted_nth_mono)
    with assms(3) show "\<not> v \<le> x" by simp
  qed
  then have "filter (\<lambda>x. v \<le> x) (take (Suc k) xs) = []" by (simp only: filter_empty_conv)
  then have "filter (\<lambda>x. v \<le> x) xs = filter (\<lambda>x. v \<le> x) (drop (Suc k) xs)"
    by (metis append_Nil append_take_drop_id filter_append)
  then show ?thesis by (metis length_drop length_filter_le)
qed

lemma length_filter_sort: "length (filter P (sort xs)) = length (filter P xs)"
  by (simp add: filter_sort)

lemma quorum_value:
  assumes "0 < q" and "q \<le> length xs"
  defines "w \<equiv> rev (sort xs) ! (q - 1)"
  shows "q \<le> length (filter (\<lambda>x. w \<le> x) (xs :: 'a :: linorder list))"
    and "q \<le> length (filter (\<lambda>x. v \<le> x) xs) \<Longrightarrow> v \<le> w"
proof -
  have w: "w = sort xs ! (length xs - q)"
    using assms by (simp add: w_def rev_nth)
  have k: "length xs - q < length (sort xs)" using assms by simp
  show "q \<le> length (filter (\<lambda>x. w \<le> x) xs)"
    using filter_ge_sorted [OF sorted_sort k] assms by (simp add: w length_filter_sort)
  show "v \<le> w" if "q \<le> length (filter (\<lambda>x. v \<le> x) xs)"
  proof (rule ccontr)
    assume "\<not> v \<le> w"
    then have "length (filter (\<lambda>x. v \<le> x) (sort xs)) \<le> length (sort xs) - Suc (length xs - q)"
      by (intro filter_gt_sorted [OF sorted_sort k]) (simp add: w)
    with that assms show False by (simp add: length_filter_sort)
  qed
qed

text \<open>How many nodes, the leader included, are known to hold the entry at an index.\<close>

definition matched :: "raft_node \<Rightarrow> log_index \<Rightarrow> nat" where
  "matched n i =
     length (filter (\<lambda>p. i \<le> pr_match_index p) (hm_values (rn_progress n))) + (if i \<le> last_index n then 1 else 0)"

lemma matched_filter:
  "matched n i = length (filter (\<lambda>x. i \<le> x) (map pr_match_index (hm_values (rn_progress n)) @ [last_index n]))"
  by (simp add: matched_def filter_map comp_def)

lemma advance_commit_spec:
  assumes "advance_commit_index n = Some n'" and "rn_state n = Leader"
  shows "rn_commit_index n \<le> rn_commit_index n'"
    and "rn_commit_index n' \<noteq> rn_commit_index n \<Longrightarrow>
      log_term n (rn_commit_index n') = rn_term n \<and> quorum_size n \<le> matched n (rn_commit_index n') \<and>
      (\<forall>i. quorum_size n \<le> matched n i \<longrightarrow> i \<le> rn_commit_index n')"
proof -
  let ?xs = "map pr_match_index (hm_values (rn_progress n)) @ [last_index n]"
  let ?q = "quorum_size n" let ?w = "rev (sort ?xs) ! (?q - 1)"
  have q: "0 < ?q" by (simp add: quorum_size_def)
  have len: "?q \<le> length ?xs"
    using assms q by (auto simp: advance_commit_index_def match_indices_def Let_def split: if_splits)
  have w: "?q \<le> matched n ?w" "\<And>i. ?q \<le> matched n i \<Longrightarrow> i \<le> ?w"
    using quorum_value [OF q len] unfolding matched_filter by auto
  have c: "rn_commit_index n' = (if ?w > rn_commit_index n \<and> log_term n ?w = rn_term n then ?w else rn_commit_index n)"
    using assms by (auto simp: advance_commit_index_def match_indices_def Let_def split: if_splits)
  show "rn_commit_index n \<le> rn_commit_index n'" by (auto simp: c)
  show "log_term n (rn_commit_index n') = rn_term n \<and> ?q \<le> matched n (rn_commit_index n') \<and>
      (\<forall>i. ?q \<le> matched n i \<longrightarrow> i \<le> rn_commit_index n')" if "rn_commit_index n' \<noteq> rn_commit_index n"
    using that w by (auto simp: c split: if_splits)
qed

subsection \<open>No panic\<close>

definition leader_ready :: "raft_node \<Rightarrow> bool" where
  "leader_ready n \<longleftrightarrow> (rn_state n = Leader \<longrightarrow> quorum_size n \<le> length (rn_progress n) + 1)"

lemma length_hm_insert: "length (hm_insert k v m) = (if hm_get m k = None then Suc (length m) else length m)"
  by (induction k v m rule: hm_insert.induct) (auto simp: hm_get_def)

lemma length_progress_fold:
  "distinct V \<Longrightarrow> \<forall>i \<in> set V. hm_get pr i = None \<Longrightarrow>
   length (fold (\<lambda>id pr. if id \<noteq> me then hm_insert id (f id) pr else pr) V pr) = length pr + length (filter (\<lambda>i. i \<noteq> me) V)"
proof (induction V arbitrary: pr)
  case (Cons a V)
  have "\<forall>i \<in> set V. hm_get (hm_insert a (f a) pr) i = None" using Cons.prems by auto
  with Cons.IH [of "hm_insert a (f a) pr"] Cons.IH [of pr] Cons.prems show ?case by (simp add: length_hm_insert)
qed simp

lemma filter_neq_distinct: "distinct V \<Longrightarrow> length V \<le> Suc (length (filter (\<lambda>i. i \<noteq> me) V))"
proof (induction V)
  case (Cons a V)
  show ?case
  proof (cases "a = me")
    case True
    then have "\<forall>i \<in> set V. i \<noteq> me" using Cons.prems by auto
    then have "filter (\<lambda>i. i \<noteq> me) V = V" by (rule filter_True)
    with True show ?thesis by simp
  qed (use Cons in simp)
qed simp

lemma leader_ready_become_leader:
  "distinct (cs_voters (rn_conf_state n)) \<Longrightarrow> leader_ready (become_leader n)"
  using filter_neq_distinct [of "cs_voters (rn_conf_state n)" "rn_id n"]
  by (simp add: leader_ready_def become_leader_def initial_progress_def quorum_size_def length_progress_fold)

lemma leader_ready_advance:
  assumes "leader_ready n"
  shows "\<exists>n'. advance_commit_index n = Some n' \<and> leader_ready n'"
proof (cases "rn_state n = Leader")
  case True
  then have "\<not> quorum_size n - 1 \<ge> length (match_indices n)"
    using assms by (simp add: leader_ready_def match_indices_def hm_values_def quorum_size_def)
  with True assms show ?thesis
    by (simp add: advance_commit_index_def Let_def leader_ready_def quorum_size_def)
qed (use assms in \<open>simp add: advance_commit_index_def\<close>)

lemma leader_ready_follower: "rn_state n \<noteq> Leader \<Longrightarrow> leader_ready n"
  by (simp add: leader_ready_def)

lemma leader_ready_cong:
  "rn_state n' = rn_state n \<Longrightarrow> length (rn_progress n') = length (rn_progress n) \<Longrightarrow> rn_conf_state n' = rn_conf_state n \<Longrightarrow>
   leader_ready n \<Longrightarrow> leader_ready n'"
  by (simp add: leader_ready_def quorum_size_def)

lemma check_term_ready: "leader_ready n \<Longrightarrow> leader_ready (check_term now rt m n)"
  using check_term_cases [of now rt m n] by (auto simp: leader_ready_def)

lemma check_term_conf [simp]: "rn_conf_state (check_term now rt m n) = rn_conf_state n"
  using check_term_cases [of now rt m n] by auto

lemma append_response_total:
  assumes "leader_ready n"
  shows "\<exists>r n'. handle_append_response m n = Some (r, n') \<and> leader_ready n'"
proof (cases "rn_state n \<noteq> Leader \<or> msg_term m \<noteq> rn_term n \<or> hm_get (rn_progress n) (msg_from m) = None")
  case True
  then show ?thesis using assms by (auto simp: handle_append_response_def)
next
  case False
  then obtain p where p: "hm_get (rn_progress n) (msg_from m) = Some p" by blast
  have keep: "leader_ready (n\<lparr>rn_progress := hm_insert (msg_from m) q (rn_progress n)\<rparr>)" for q
    using assms p by (simp add: leader_ready_def quorum_size_def length_hm_insert)
  show ?thesis
    using False p keep leader_ready_advance [OF keep [of "become_accept (msg_index m) p"]]
    by (auto simp: handle_append_response_def Let_def)
qed

lemma vote_response_total:
  assumes "leader_ready n" and "distinct (cs_voters (rn_conf_state n))"
  shows "\<exists>r n'. handle_vote_response now rt m n = Some (r, n') \<and> leader_ready n'"
proof (cases "rn_state n \<noteq> Candidate \<or> msg_term m \<noteq> rn_term n")
  case True
  then show ?thesis using assms by (auto simp: handle_vote_response_def)
next
  case False
  let ?n1 = "n\<lparr>rn_votes := hm_insert (msg_from m) (\<not> msg_reject m) (rn_votes n)\<rparr>"
  have "leader_ready (become_leader ?n1)" "leader_ready (become_follower now rt (rn_term n) 0 ?n1)" "leader_ready ?n1"
    using assms False by (auto intro: leader_ready_become_leader leader_ready_follower)
  with False show ?thesis by (simp add: handle_vote_response_def Let_def)
qed

lemma pre_vote_response_total:
  assumes "leader_ready n"
  shows "\<exists>r n'. handle_pre_vote_response now rt m n = Some (r, n') \<and> leader_ready n'"
proof -
  have "leader_ready (campaign now rt n1)" for n1
    by (rule leader_ready_follower) (simp add: campaign_def become_candidate_def reset_election_timeout_def Let_def)
  then show ?thesis using assms
    by (auto simp: handle_pre_vote_response_def Let_def leader_ready_def)
qed

lemma simple_handlers_total:
  assumes "leader_ready n"
  shows "\<exists>r n'. handle_heartbeat now rt m n = Some (r, n') \<and> leader_ready n'"
    and "\<exists>r n'. handle_append_entries now rt m n = Some (r, n') \<and> leader_ready n'"
    and "\<exists>r n'. handle_request_vote now rt m n = Some (r, n') \<and> leader_ready n'"
    and "\<exists>r n'. handle_request_pre_vote now m n = Some (r, n') \<and> leader_ready n'"
    and "\<exists>r n'. handle_install_snapshot now rt m n = Some (r, n') \<and> leader_ready n'"
    and "\<exists>r n'. handle_snapshot_response m n = Some (r, n') \<and> leader_ready n'"
  using assms
  by (auto simp: handle_heartbeat_def handle_append_entries_def handle_request_vote_def handle_request_pre_vote_def
      handle_install_snapshot_def handle_snapshot_response_def Let_def leader_ready_def quorum_size_def
      reset_election_timeout_def truncate_log_def length_hm_insert split: option.splits)

lemma raft_step_total:
  assumes "leader_ready n" and "distinct (cs_voters (rn_conf_state n))"
  shows "\<exists>r n'. raft_step now rt m n = Some (r, n') \<and> leader_ready n'"
proof -
  have r: "leader_ready (check_term now rt m n)" by (rule check_term_ready [OF assms(1)])
  show ?thesis
    using append_response_total [OF r] vote_response_total [OF r] pre_vote_response_total [OF r]
      simple_handlers_total [OF r] r assms(2)
    by (cases "msg_type m") (simp_all add: raft_step_def Let_def)
qed

lemma local_ready:
  assumes "leader_ready n"
  shows "raft_tick now rt n = (b, n1) \<Longrightarrow> leader_ready n1"
    and "raft_propose d n = (res1, n2) \<Longrightarrow> leader_ready n2"
    and "raft_read_index d n = (res2, n3) \<Longrightarrow> leader_ready n3"
    and "raft_ready n = (rd, n4) \<Longrightarrow> leader_ready n4"
    and "take_read_states n = (rs, n5) \<Longrightarrow> leader_ready n5"
  using assms
  by (auto simp: raft_tick_def handle_election_timeout_def check_quorum_def raft_propose_def raft_read_index_def
      raft_ready_def take_read_states_def leader_ready_def quorum_size_def Let_def pre_campaign_def campaign_def
      become_pre_candidate_def become_candidate_def reset_election_timeout_def split: if_splits)

lemma reachable_leader_ready:
  assumes "reachable V cfg c" and V: "distinct V" "0 \<notin> set V" "\<And>i. i \<in> set V \<Longrightarrow> cfg_id (cfg i) = i"
  shows "\<forall>i \<in> set V. leader_ready (cl_node c i)"
  using assms(1)
proof induction
  case (start now rt)
  then show ?case
    by (simp add: cluster_init_def raft_new_with_conf_def node_with_def leader_ready_def)
next
  case (step c c')
  have inv: "cluster_inv V c" by (rule reachable_inv [OF step.hyps(1) V])
  have conf: "cs_voters (rn_conf_state (cl_node c i)) = V" if "i \<in> set V" for i
    using inv that by (simp add: cluster_inv_def node_inv_def)
  from step.hyps(2) show ?case
  proof cases
    case (deliver i m now rt r n)
    then show ?thesis
      using step.IH raft_step_total [of "cl_node c i" now rt m] conf V(1) by auto
  next
    case (timer i now rt b n)
    then show ?thesis using step.IH local_ready(1) [of "cl_node c i"] by auto
  next
    case (propose i d res n)
    then show ?thesis using step.IH local_ready(2) [of "cl_node c i"] by auto
  next
    case (read i d rd n)
    then show ?thesis using step.IH local_ready(3) [of "cl_node c i"] by auto
  next
    case (ready i r n)
    then show ?thesis using step.IH local_ready(4) [of "cl_node c i"] by auto
  next
    case (take_reads i rs n)
    then show ?thesis using step.IH local_ready(5) [of "cl_node c i"] by auto
  qed
qed

subsection \<open>The log\<close>

lemma unat_last_index: "vec_ok (rn_log n) \<Longrightarrow> unat (last_index n) = length (rn_log n)"
  by (simp add: last_index_def unat_u64_len)

lemma log_term_nonzero:
  assumes "log_term n i \<noteq> 0" and "vec_ok (rn_log n)"
  shows "i \<noteq> 0 \<and> unat i \<le> length (rn_log n) \<and> log_term n i = le_term (rn_log n ! (unat i - 1))"
proof -
  have i: "i \<noteq> 0" "\<not> u64_len (rn_log n) < i" using assms(1) by (auto simp: log_term_def split: if_splits)
  then have "unat (i - 1) = unat i - 1" by (simp add: unat_minus_one)
  with i assms show ?thesis by (simp add: log_term_def word_less_nat_alt unat_u64_len)
qed

text \<open>The log after \<open>truncate_log\<close> and the pushes of an accepted append.\<close>

lemma truncate_then_push:
  assumes idx: "unat i \<le> length (rn_log n)" and v: "vec_ok (rn_log n)"
    and es: "contiguous (Suc (unat i)) es"
  shows "rn_log (truncate_log (i + 1) n) @ filter (\<lambda>e. \<not> le_index e < i + 1) es = take (unat i) (rn_log n) @ es"
proof -
  have "Suc (unat i) < 2 ^ 64" using idx v by (simp add: vec_ok_def)
  then have i1: "unat (i + 1) = Suc (unat i)" by (intro unat_u64_inc u64_not_max)
  have "\<forall>e \<in> set es. \<not> le_index e < i + 1"
    using es by (auto simp: in_set_conv_nth word_less_nat_alt i1 contiguous_def)
  then have "filter (\<lambda>e. \<not> le_index e < i + 1) es = es" by simp
  moreover have "rn_log (truncate_log (i + 1) n) = take (unat i) (rn_log n)"
    using idx v by (auto simp: truncate_log_def word_le_nat_alt i1 unat_u64_len)
  ultimately show ?thesis by simp
qed

definition append_log :: "raft_node \<Rightarrow> message \<Rightarrow> log_entry list" where
  "append_log n m = (if msg_entries m = [] then rn_log n else take (unat (msg_index m)) (rn_log n) @ msg_entries m)"

definition append_commit :: "raft_node \<Rightarrow> message \<Rightarrow> log_index" where
  "append_commit n m =
     (if msg_commit m > rn_commit_index n
      then min (msg_commit m) (if msg_entries m = [] then msg_index m else le_index (last (msg_entries m)))
      else rn_commit_index n)"

definition append_accepts :: "raft_node \<Rightarrow> message \<Rightarrow> bool" where
  "append_accepts n m \<longleftrightarrow> msg_index m = 0 \<or> log_term n (msg_index m) = msg_term m"

lemma append_accepts_index:
  "append_accepts n m \<Longrightarrow> msg_term m \<noteq> 0 \<Longrightarrow> vec_ok (rn_log n) \<Longrightarrow> unat (msg_index m) \<le> length (rn_log n)"
  using log_term_nonzero [of n "msg_index m"] by (auto simp: append_accepts_def)

lemma rn_id_updates [simp]:
  "rn_id (n\<lparr>rn_leader_id := l\<rparr>) = rn_id n" "rn_id (n\<lparr>rn_commit_index := c\<rparr>) = rn_id n"
  "rn_id (reset_election_timeout now rt n) = rn_id n"
  by (simp_all add: rn_id_def reset_election_timeout_def)

lemma handle_append_entries_accept:
  assumes t: "msg_term m = rn_term n" "msg_term m \<noteq> 0" and acc: "append_accepts n m" and v: "vec_ok (rn_log n)"
    and es: "contiguous (Suc (unat (msg_index m))) (msg_entries m)"
  shows "\<exists>n'. handle_append_entries now rt m n = Some (Some ((one_message
        ((append_response n' m)\<lparr>msg_index := last_index n'\<rparr>))\<lparr>rd_entries := msg_entries m\<rparr>), n') \<and>
      rn_log n' = append_log n m \<and> rn_commit_index n' = append_commit n m \<and> rn_leader_id n' = msg_from m \<and>
      rn_term n' = rn_term n \<and> rn_id n' = rn_id n"
proof -
  let ?n1 = "(reset_election_timeout now rt n)\<lparr>rn_leader_id := msg_from m\<rparr>"
  have log1: "rn_log ?n1 = rn_log n" by (simp add: reset_election_timeout_def)
  have lt: "log_term ?n1 i = log_term n i" for i by (simp add: log_term_def log1)
  have push: "rn_log (truncate_log (msg_index m + 1) ?n1) @
      filter (\<lambda>e. \<not> le_index e < msg_index m + 1) (msg_entries m) = take (unat (msg_index m)) (rn_log n) @ msg_entries m"
    using truncate_then_push [of "msg_index m" ?n1 "msg_entries m"] append_accepts_index [OF acc t(2) v] v es
    unfolding log1 by blast
  have acc': "\<not> (0 < msg_index m \<and> log_term ?n1 (msg_index m) \<noteq> msg_term m)"
    using acc unfolding lt by (auto simp: append_accepts_def)
  have cfg: "rn_config (truncate_log k ?n1) = rn_config n" "rn_term (truncate_log k ?n1) = rn_term n"
    "rn_commit_index (truncate_log k ?n1) = rn_commit_index n" "rn_leader_id (truncate_log k ?n1) = msg_from m" for k
    by (simp_all add: truncate_log_def reset_election_timeout_def)
  define n2 where "n2 = (if msg_entries m = [] then ?n1
      else (truncate_log (msg_index m + 1) ?n1)\<lparr>rn_log := rn_log (truncate_log (msg_index m + 1) ?n1) @
        filter (\<lambda>e. \<not> le_index e < msg_index m + 1) (msg_entries m)\<rparr>)"
  let ?last = "if msg_entries m = [] then msg_index m else le_index (last (msg_entries m))"
  define n3 where "n3 = (if msg_commit m > rn_commit_index n2 then n2\<lparr>rn_commit_index := min (msg_commit m) ?last\<rparr> else n2)"
  have nt: "\<not> msg_term m < rn_term (reset_election_timeout now rt n)"
    using t by (simp add: reset_election_timeout_def)
  have "handle_append_entries now rt m n = Some (Some ((one_message
      ((append_response n3 m)\<lparr>msg_index := last_index n3\<rparr>))\<lparr>rd_entries := msg_entries m\<rparr>), n3)"
    unfolding handle_append_entries_def Let_def n3_def n2_def by (simp only: nt acc' if_False)
  moreover have n2: "rn_log n2 = append_log n m" "rn_commit_index n2 = rn_commit_index n"
    "rn_leader_id n2 = msg_from m" "rn_term n2 = rn_term n" "rn_config n2 = rn_config n"
    using push cfg log1 by (simp_all add: append_log_def reset_election_timeout_def n2_def)
  moreover from n2 have "rn_log n3 = append_log n m" "rn_commit_index n3 = append_commit n m"
    "rn_leader_id n3 = msg_from m" "rn_term n3 = rn_term n" "rn_id n3 = rn_id n"
    by (simp_all add: rn_id_def append_commit_def n3_def)
  ultimately show ?thesis by blast
qed

lemma handle_append_entries_reject:
  assumes "msg_term m = rn_term n" and "\<not> append_accepts n m"
  shows "\<exists>n' hint. handle_append_entries now rt m n = Some (Some (one_message (with_reject hint (append_response n' m))), n') \<and>
      rn_log n' = rn_log n \<and> rn_commit_index n' = rn_commit_index n \<and> rn_id n' = rn_id n \<and> rn_term n' = rn_term n"
proof -
  define n1 where "n1 = (reset_election_timeout now rt n)\<lparr>rn_leader_id := msg_from m\<rparr>"
  have nt: "\<not> msg_term m < rn_term (reset_election_timeout now rt n)"
    using assms(1) by (simp add: reset_election_timeout_def)
  have f: "rn_log n1 = rn_log n" "rn_commit_index n1 = rn_commit_index n" "rn_term n1 = rn_term n" "rn_id n1 = rn_id n"
    by (simp_all add: n1_def) (simp_all add: reset_election_timeout_def)
  have "log_term n1 i = log_term n i" for i by (simp add: log_term_def f)
  then have "0 < msg_index m \<and> log_term n1 (msg_index m) \<noteq> msg_term m"
    using assms(2) by (simp add: append_accepts_def word_neq_0_conv)
  then have "handle_append_entries now rt m n =
      Some (Some (one_message (with_reject (find_conflict_hint n1 (msg_index m)) (append_response n1 m))), n1)"
    unfolding handle_append_entries_def Let_def n1_def [symmetric] by (simp only: nt if_False if_True simp_thms)
  with f show ?thesis by blast
qed

lemma handle_append_entries_stale:
  "msg_term m < rn_term n \<Longrightarrow> \<exists>r n'. handle_append_entries now rt m n = Some (r, n') \<and>
     rn_log n' = rn_log n \<and> rn_commit_index n' = rn_commit_index n"
  by (simp add: handle_append_entries_def Let_def reset_election_timeout_def)

text \<open>The indices of a node's log are \<open>1, 2, ...\<close>.\<close>

definition log_ok :: "raft_node \<Rightarrow> bool" where
  "log_ok n \<longleftrightarrow> (\<forall>i < length (rn_log n). unat (le_index (rn_log n ! i)) = Suc i)"

lemma contiguous_iff_log_ok: "Suc (length (rn_log n)) < 2 ^ 64 \<Longrightarrow> contiguous 1 (rn_log n) \<longleftrightarrow> log_ok n"
  by (simp add: contiguous_def log_ok_def)

lemma log_ok_cong: "rn_log n' = rn_log n \<Longrightarrow> log_ok n' \<longleftrightarrow> log_ok n"
  by (simp add: log_ok_def)

lemma log_ok_push:
  assumes "log_ok n" and "vec_ok (rn_log n)" and "rn_log n' = rn_log n @ [log_entry_new (last_index n + 1) t d]"
  shows "log_ok n'"
  using assms unat_u64_len_plus_one [OF assms(2)]
  by (auto simp: log_ok_def nth_append log_entry_new_def last_index_def less_Suc_eq)

lemma log_ok_append:
  assumes ok: "log_ok n" and idx: "unat (msg_index m) \<le> length (rn_log n)"
    and es: "contiguous (Suc (unat (msg_index m))) (msg_entries m)" and "rn_log n' = append_log n m"
  shows "log_ok n'"
  using assms by (auto simp: log_ok_def append_log_def contiguous_def nth_append min_def)

text \<open>What a message has to satisfy: a leader sends consecutive entries and has a term.\<close>

definition append_msg_ok :: "message \<Rightarrow> bool" where
  "append_msg_ok m \<longleftrightarrow>
     (msg_type m = AppendEntries \<longrightarrow> msg_term m \<noteq> 0 \<and> contiguous (Suc (unat (msg_index m))) (msg_entries m))"

lemma same_log_handlers:
  "handle_heartbeat now rt m n = Some (r, n') \<Longrightarrow> rn_log n' = rn_log n"
  "handle_append_response m n = Some (r, n') \<Longrightarrow> rn_log n' = rn_log n"
  "handle_request_vote now rt m n = Some (r, n') \<Longrightarrow> rn_log n' = rn_log n"
  "handle_request_pre_vote now m n = Some (r, n') \<Longrightarrow> rn_log n' = rn_log n"
  "handle_pre_vote_response now rt m n = Some (r, n') \<Longrightarrow> rn_log n' = rn_log n"
  "handle_snapshot_response m n = Some (r, n') \<Longrightarrow> rn_log n' = rn_log n"
  by (auto simp: handle_heartbeat_def handle_append_response_def handle_request_vote_def handle_request_pre_vote_def
      handle_pre_vote_response_def handle_snapshot_response_def advance_commit_index_def Let_def node_defs
      split: if_splits option.splits)

lemma log_ok_vote_response:
  "handle_vote_response now rt m n = Some (r, n') \<Longrightarrow> log_ok n \<Longrightarrow> vec_ok (rn_log n) \<Longrightarrow> log_ok n'"
proof -
  assume h: "handle_vote_response now rt m n = Some (r, n')" and ok: "log_ok n" and v: "vec_ok (rn_log n)"
  have "rn_log n' = rn_log n \<or> rn_log n' = rn_log n @ [log_entry_new (last_index n + 1) (rn_term n) []]"
    using h by (auto simp: handle_vote_response_def Let_def become_leader_def last_index_def split: if_splits)
  then show ?thesis using log_ok_push [OF ok v] log_ok_cong ok by blast
qed

lemma log_ok_install_snapshot:
  "handle_install_snapshot now rt m n = Some (r, n') \<Longrightarrow> log_ok n \<Longrightarrow> log_ok n'"
  by (auto simp: handle_install_snapshot_def Let_def log_ok_def reset_election_timeout_def split: if_splits option.splits)

lemma log_ok_append_entries:
  assumes h: "handle_append_entries now rt m n = Some (r, n')" and ok: "log_ok n" "vec_ok (rn_log n)"
    and m: "append_msg_ok m" "msg_type m = AppendEntries" "msg_term m \<le> rn_term n"
  shows "log_ok n'"
proof (cases "msg_term m < rn_term n")
  case True
  have "rn_log n' = rn_log n" using handle_append_entries_stale [OF True, of now rt] h by auto
  then show ?thesis using ok(1) by (simp add: log_ok_def)
next
  case False
  then have t: "msg_term m = rn_term n" "msg_term m \<noteq> 0" using m by (simp_all add: append_msg_ok_def)
  have es: "contiguous (Suc (unat (msg_index m))) (msg_entries m)" using m by (simp add: append_msg_ok_def)
  show ?thesis
  proof (cases "append_accepts n m")
    case True
    have "rn_log n' = append_log n m"
      using handle_append_entries_accept [OF t True ok(2) es, of now rt] h by auto
    then show ?thesis
      by (rule log_ok_append [OF ok(1) append_accepts_index [OF True t(2) ok(2)] es])
  next
    case False
    have "rn_log n' = rn_log n" using handle_append_entries_reject [OF t(1) False, of now rt] h by auto
    then show ?thesis using ok(1) by (simp add: log_ok_def)
  qed
qed

lemma raft_step_log_ok:
  assumes s: "raft_step now rt m n = Some (r, n')" and ok: "log_ok n" "vec_ok (rn_log n)" and m: "append_msg_ok m"
  shows "log_ok n'"
proof -
  let ?n = "check_term now rt m n"
  have c: "log_ok ?n" "vec_ok (rn_log ?n)" "msg_term m \<le> rn_term ?n"
    using check_term_cases [of now rt m n] ok by (auto simp: log_ok_def)
  show ?thesis
  proof (cases "msg_type m")
    case AppendEntries
    then show ?thesis using s m log_ok_append_entries [OF _ c(1, 2) m _ c(3)] by (simp add: raft_step_def Let_def)
  qed (use s c in \<open>auto simp: raft_step_def Let_def log_ok_def dest!: same_log_handlers
      dest: log_ok_vote_response [unfolded log_ok_def] log_ok_install_snapshot [unfolded log_ok_def]\<close>)
qed

subsection \<open>Entries sent and handed out\<close>

lemma get_entries_spec:
  assumes "unat from \<noteq> 0"
  shows "\<exists>k. get_entries n from max_size = take k (drop (unat from - 1) (rn_log n)) \<and>
    k \<le> length (rn_log n) - (unat from - 1) \<and>
    (total_le_size (get_entries n from max_size) \<le> max_size \<or> k = 1) \<and>
    (k < length (rn_log n) - (unat from - 1) \<longrightarrow>
       total_le_size (take (Suc k) (drop (unat from - 1) (rn_log n))) > max_size) \<and>
    (unat from \<le> length (rn_log n) \<longrightarrow> 0 < k)"
proof -
  have s: "unat (from - 1) = unat from - 1" using assms by (simp add: unat_minus_one unat_gt_0)
  show ?thesis
  proof (cases "unat from - 1 \<ge> length (rn_log n)")
    case True
    with assms show ?thesis by (intro exI [of _ 0]) (auto simp: get_entries_def s total_le_size_def)
  next
    case False
    obtain k where "limit_entries max_size 0 [] (drop (unat from - 1) (rn_log n)) = take k (drop (unat from - 1) (rn_log n))"
      "k \<le> length (drop (unat from - 1) (rn_log n))"
      "total_le_size (take k (drop (unat from - 1) (rn_log n))) \<le> max_size \<or> k = 1"
      "k < length (drop (unat from - 1) (rn_log n)) \<longrightarrow> total_le_size (take (Suc k) (drop (unat from - 1) (rn_log n))) > max_size"
      "drop (unat from - 1) (rn_log n) \<noteq> [] \<longrightarrow> take k (drop (unat from - 1) (rn_log n)) \<noteq> []"
      using limit_entries_acc [of "[]" 0 max_size "drop (unat from - 1) (rn_log n)"] by (auto simp: total_le_size_def)
    with False assms show ?thesis by (intro exI [of _ k]) (auto simp: get_entries_def s)
  qed
qed

text \<open>\<open>find_conflict_hint\<close>: the last index before the given one whose term differs, or \<open>0\<close>.\<close>

lemma conflict_loop_spec:
  "i < 2 ^ 64 \<Longrightarrow> unat (conflict_loop n t i) \<le> i \<and>
   (\<forall>j. unat (conflict_loop n t i) < j \<longrightarrow> j \<le> i \<longrightarrow> log_term n (of_nat j) = t) \<and>
   (conflict_loop n t i \<noteq> 0 \<longrightarrow> log_term n (conflict_loop n t i) \<noteq> t)"
proof (induction i)
  case (Suc i)
  show ?case
  proof (cases "log_term n (of_nat (Suc i)) \<noteq> t")
    case True
    then show ?thesis using unat_of_nat_u64 [OF Suc.prems] by simp
  next
    case False
    with Suc show ?thesis by (auto simp: le_Suc_eq simp del: of_nat_Suc)
  qed
qed simp

lemma raft_ready_committed:
  assumes "raft_ready n = (Some r, n')" and "rn_last_applied n < rn_commit_index n"
    and "total_le_size (rn_log n) \<le> usize_max"
  shows "rd_committed r = drop (unat (rn_last_applied n)) (rn_log n) \<and> rn_last_applied n' = rn_commit_index n"
proof -
  have ne: "rn_last_applied n \<noteq> - 1" using assms(2) by (metis not_less word_order.extremum_unique word_n1_ge)
  have s: "unat (rn_last_applied n + 1 - 1) = unat (rn_last_applied n)" by simp
  have "total_le_size (drop (unat (rn_last_applied n)) (rn_log n)) \<le> usize_max"
    using total_le_size_slice [of "length (rn_log n)" "unat (rn_last_applied n)" "rn_log n"] assms(3) by simp
  then have "get_entries n (rn_last_applied n + 1) usize_max = drop (unat (rn_last_applied n)) (rn_log n)"
    by (simp add: get_entries_def s limit_entries_all Let_def)
  then show ?thesis
    using assms(1, 2) by (auto simp: raft_ready_def Let_def ready_default_def split: if_splits)
qed

end
