(* ===== verification/RaftClaims.thy ===== *)
theory RaftClaims
  imports RaftNodeProps
begin

text \<open>
  The properties of the consensus module: safety of elections, terms and votes, the commit rule,
  the log, what is sent and handed out, and the storages.  The witnesses run a cluster of three
  nodes with the default configuration.
\<close>

definition sample_voters :: "node_id list" where
  "sample_voters = [1, 2, 3]"

definition sample_cluster :: cluster where
  "sample_cluster = cluster_init sample_voters three_node_config (\<lambda>_. 0) (\<lambda>_. 150)"

definition sample_node :: raft_node where
  "sample_node = raft_new_with_conf (three_node_config 1) sample_voters 0 150"

lemma sample_reachable: "reachable sample_voters three_node_config sample_cluster"
  unfolding sample_cluster_def by (rule reachable.start)

lemma sample_voters_ok: "distinct sample_voters" "0 \<notin> set sample_voters"
  "i \<in> set sample_voters \<Longrightarrow> cfg_id (three_node_config i) = i"
  by (simp_all add: sample_voters_def three_node_config_def)

text \<open>
  C1.  Election safety: in every execution of a cluster with distinct voters, whatever the network
  loses, repeats, reorders or (votes excepted) forges, at most one node is ever leader in a term.
\<close>

theorem election_safety:
  assumes "reachable V cfg c" and "distinct V" and "0 \<notin> set V" and "\<And>i. i \<in> set V \<Longrightarrow> cfg_id (cfg i) = i"
    and "(t, l) \<in> cl_leaders c" and "(t, l') \<in> cl_leaders c"
  shows "l = l'"
  by (rule one_leader_per_term [OF reachable_inv [OF assms(1-4)] assms(5, 6)])

text \<open>
  C34.  No reachable state makes a node panic: with distinct voters every message is handled, also the
  index into the sorted match indices that the commit rule takes.
\<close>

theorem step_never_panics:
  assumes "reachable V cfg c" and "distinct V" and "0 \<notin> set V" and "\<And>i. i \<in> set V \<Longrightarrow> cfg_id (cfg i) = i"
    and "i \<in> set V"
  shows "raft_step now rt m (cl_node c i) \<noteq> None"
proof -
  have "leader_ready (cl_node c i)" using reachable_leader_ready [OF assms(1-4)] assms(5) by blast
  moreover have "cs_voters (rn_conf_state (cl_node c i)) = V"
    using reachable_inv [OF assms(1-4)] assms(5) by (simp add: cluster_inv_def node_inv_def)
  ultimately show ?thesis using raft_step_total [of "cl_node c i" now rt m] assms(2) by auto
qed

theorem step_never_panics_witness:
  "raft_step 1 2 (message_new VoteResponse 2 1 5) (cl_node sample_cluster 1) \<noteq> None"
  by (rule step_never_panics [OF sample_reachable sample_voters_ok]) (simp_all add: sample_voters_def)

text \<open>
  One step never lowers the term of a node, and while the term stays the same a vote once given
  is not given to another node; a granted vote in an answer is the vote the node has recorded.
\<close>

theorem step_term_and_vote:
  assumes "raft_step now rt m n = Some (r, n')" and "rn_term n \<noteq> - 1"
  shows "rn_term n \<le> rn_term n' \<and>
    (rn_term n' = rn_term n \<longrightarrow> rn_voted_for n \<noteq> 0 \<longrightarrow> rn_voted_for n' = rn_voted_for n) \<and>
    (\<forall>a \<in> set (ready_messages r). msg_type a = VoteResponse \<longrightarrow> \<not> msg_reject a \<longrightarrow>
       msg_term a = rn_term n' \<and> msg_to a = rn_voted_for n')"
  using raft_step_vote_ok [OF assms] by (auto dest: vote_ok_static vote_ok_out)

text \<open>
  C11.  The commit rule: a leader moves its commit index forward only, to an entry of its own term
  that a quorum is known to hold (itself counted), and no greater index is held by a quorum.
\<close>

theorem commit_needs_quorum:
  assumes "advance_commit_index n = Some n'" and "rn_state n = Leader"
  shows "rn_commit_index n \<le> rn_commit_index n' \<and>
    (rn_commit_index n' \<noteq> rn_commit_index n \<longrightarrow>
      log_term n (rn_commit_index n') = rn_term n \<and> quorum_size n \<le> matched n (rn_commit_index n') \<and>
      (\<forall>i. quorum_size n \<le> matched n i \<longrightarrow> i \<le> rn_commit_index n'))"
  using advance_commit_spec [OF assms] by blast

text \<open>
  C30.  What an append with a term that is not 0 and consecutive entries after its previous one does.  An append of
  an older term, or one whose previous entry does not have its term here, is rejected and changes neither the log
  nor the commit index.  Any other append is accepted.  Without entries it keeps the whole log, also what follows the
  previous entry; with entries it leaves exactly the log up to the previous entry followed by these entries.  The
  commit index follows the leader's up to the last new entry, and the answer reports the new last index.
\<close>

theorem append_entries_exact:
  assumes "msg_type m = AppendEntries" and "msg_term m \<noteq> 0" and "vec_ok (rn_log n)"
    and "contiguous (Suc (unat (msg_index m))) (msg_entries m)"
  shows "\<exists>r n'. raft_step now rt m n = Some (Some r, n') \<and>
    (if msg_term m < rn_term n \<or> \<not> append_accepts n m
     then rn_log n' = rn_log n \<and> rn_commit_index n' = rn_commit_index n \<and>
       (\<exists>hint. rd_messages r =
          [with_reject hint (message_new AppendResponse (rn_id n) (msg_from m) (max (rn_term n) (msg_term m)))])
     else rn_log n' = (if msg_entries m = [] then rn_log n else take (unat (msg_index m)) (rn_log n) @ msg_entries m) \<and>
       rn_commit_index n' = append_commit n m \<and> rn_leader_id n' = msg_from m \<and> rn_term n' = msg_term m \<and>
       rd_messages r = [(message_new AppendResponse (rn_id n) (msg_from m) (msg_term m))\<lparr>msg_index := last_index n'\<rparr>])"
proof -
  let ?c = "check_term now rt m n"
  have c: "rn_log ?c = rn_log n" "rn_commit_index ?c = rn_commit_index n" "rn_id ?c = rn_id n"
    "rn_term ?c = max (rn_term n) (msg_term m)"
    by (auto simp: check_term_def become_follower_def raft_reset_def reset_election_timeout_def rn_id_def max_def)
  then have same: "append_accepts ?c m = append_accepts n m" "append_log ?c m = append_log n m" "append_commit ?c m = append_commit n m"
    by (simp_all add: append_accepts_def append_log_def append_commit_def log_term_def)
  have step: "raft_step now rt m n = handle_append_entries now rt m ?c" by (simp add: raft_step_def assms(1) Let_def)
  note ready = one_message_def ready_default_def append_response_def
  consider "msg_term m < rn_term n" | "\<not> msg_term m < rn_term n" "\<not> append_accepts n m" | "\<not> msg_term m < rn_term n" "append_accepts n m"
    by blast
  then show ?thesis
  proof cases
    case 1
    then show ?thesis
      using c by (auto simp: step handle_append_entries_def Let_def ready reset_election_timeout_def rn_id_def max_def)
  next
    case 2
    then have "msg_term m = rn_term ?c" by (simp add: c max_def not_less)
    then show ?thesis
      using handle_append_entries_reject [of m ?c now rt] 2 c unfolding step same by (auto simp: ready max_def)
  next
    case 3
    then have "msg_term m = rn_term ?c" by (simp add: c max_def not_less)
    then show ?thesis
      using handle_append_entries_accept [of m ?c now rt] assms 3 c unfolding step same
      by (auto simp: ready append_log_def)
  qed
qed

text \<open>
  The entries of a node's log keep the indices 1, 2, 3, ...: every step on a message whose
  appended entries are consecutive preserves it.
\<close>

theorem log_indices_invariant:
  assumes "raft_step now rt m n = Some (r, n')" and "log_ok n" and "vec_ok (rn_log n)" and "append_msg_ok m"
  shows "log_ok n'"
  by (rule raft_step_log_ok [OF assms])

text \<open>
  The entries a leader sends from an index on are a prefix of its log from there; they are
  within the size limit, or a single entry; the prefix is the longest such, and not empty while the
  log reaches the index.
\<close>

theorem sent_entries_bounded:
  assumes "unat from \<noteq> 0"
  shows "\<exists>k. get_entries n from max_size = take k (drop (unat from - 1) (rn_log n)) \<and>
    k \<le> length (rn_log n) - (unat from - 1) \<and>
    (total_le_size (get_entries n from max_size) \<le> max_size \<or> k = 1) \<and>
    (k < length (rn_log n) - (unat from - 1) \<longrightarrow>
       total_le_size (take (Suc k) (drop (unat from - 1) (rn_log n))) > max_size) \<and>
    (unat from \<le> length (rn_log n) \<longrightarrow> 0 < k)"
  by (rule get_entries_spec [OF assms])

text \<open>
  The conflict hint of a rejected append is the last index not after the rejected one whose term
  differs from the term found there, or 0.
\<close>

theorem conflict_hint_spec:
  "unat (find_conflict_hint n i) \<le> unat i \<and>
   (\<forall>j. unat (find_conflict_hint n i) < j \<longrightarrow> j \<le> unat i \<longrightarrow> log_term n (of_nat j) = log_term n i) \<and>
   (find_conflict_hint n i \<noteq> 0 \<longrightarrow> log_term n (find_conflict_hint n i) \<noteq> log_term n i)"
  unfolding find_conflict_hint_def by (rule conflict_loop_spec [OF unat_u64_less])

text \<open>
  What \<open>ready\<close> hands to the state machine as committed is the log from the last applied entry to
  its very end, so that entries beyond the commit index are applied with it.
\<close>

theorem ready_applies_whole_log:
  assumes "raft_ready n = (Some r, n')" and "rn_last_applied n < rn_commit_index n"
    and "total_le_size (rn_log n) \<le> usize_max"
  shows "rd_committed r = drop (unat (rn_last_applied n)) (rn_log n) \<and> rn_last_applied n' = rn_commit_index n"
  using assms by (rule raft_ready_committed)

text \<open>
  A follower refuses the first append of a new leader even when its log is the one the leader
  had before the election: the previous entry's term is compared with the leader's term, not with
  the term the entry has in the leader's log.
\<close>

theorem first_append_always_refused:
  assumes log: "rn_log f = rn_log n" "rn_log n \<noteq> []" "vec_ok (rn_log n)" and old: "last_term n \<noteq> rn_term n"
    and t: "rn_term f = rn_term n" and m: "m \<in> set (rd_messages (build_append_acks (become_leader n)))"
  shows "\<exists>r f' a. raft_step now rt m f = Some (Some r, f') \<and> rn_log f' = rn_log f \<and>
    rd_messages r = [a] \<and> msg_type a = AppendResponse \<and> msg_reject a"
proof -
  let ?l = "become_leader n"
  have li: "last_index ?l - 1 = last_index n"
    by (simp add: last_index_def become_leader_def u64_len_def)
  have m': "msg_type m = AppendEntries" "msg_term m = rn_term n" "msg_index m = last_index n"
    using m li by (auto simp: build_append_acks_def ready_default_def message_new_def become_leader_def)
  have "last_index n \<noteq> 0"
    using log unat_last_index [of n] by auto
  moreover have "log_term f i = log_term n i" for i by (simp add: log_term_def log)
  ultimately have "\<not> append_accepts f m"
    using old by (simp add: append_accepts_def m' last_term_def)
  moreover have "check_term now rt m f = f" using m' t by (simp add: check_term_def)
  ultimately show ?thesis
    using handle_append_entries_reject [of m f now rt] m' t
    by (auto simp: raft_step_def Let_def one_message_def ready_default_def append_response_def with_reject_def message_new_def)
qed

text \<open>
  An append that arrives a second time cuts the log back to its own entries, also when the node
  has committed entries behind them: the commit index then points beyond the end of the log.
\<close>

theorem late_append_drops_committed:
  assumes "msg_type m = AppendEntries" and "msg_term m = rn_term n" and "msg_term m \<noteq> 0"
    and "append_accepts n m" and "vec_ok (rn_log n)"
    and "contiguous (Suc (unat (msg_index m))) (msg_entries m)" and "msg_entries m \<noteq> []"
    and "msg_commit m \<le> rn_commit_index n" and "unat (msg_index m) + length (msg_entries m) < unat (rn_commit_index n)"
  shows "\<exists>r n'. raft_step now rt m n = Some (r, n') \<and> length (rn_log n') < unat (rn_commit_index n')"
proof -
  have "check_term now rt m n = n" using assms(2) by (simp add: check_term_def)
  then show ?thesis
    using handle_append_entries_accept [OF assms(2-6), of now rt] assms(1, 7-9)
    by (auto simp: raft_step_def Let_def append_log_def append_commit_def not_less)
qed

text \<open>
  An append that carries a newer commit index but no entries up to the node's own commit index
  lowers the latter to the last entry of the message.
\<close>

theorem append_lowers_commit:
  assumes "msg_type m = AppendEntries" and "msg_term m = rn_term n" and "msg_term m \<noteq> 0"
    and "append_accepts n m" and "vec_ok (rn_log n)" and "msg_entries m = []"
    and "rn_commit_index n < msg_commit m" and "msg_index m < rn_commit_index n"
  shows "\<exists>r n'. raft_step now rt m n = Some (r, n') \<and> rn_commit_index n' = msg_index m \<and>
    rn_commit_index n' < rn_commit_index n"
proof -
  have c: "contiguous (Suc (unat (msg_index m))) (msg_entries m)"
    using assms(6, 8) unat_u64_less [of "rn_commit_index n"] by (simp add: word_less_nat_alt)
  have "msg_index m \<le> msg_commit m" using assms(7, 8) by (meson less_imp_le less_trans)
  then have "min (msg_commit m) (msg_index m) = msg_index m" by (rule min_absorb2)
  moreover have "check_term now rt m n = n" using assms(2) by (simp add: check_term_def)
  ultimately show ?thesis
    using handle_append_entries_accept [OF assms(2-5) c, of now rt] assms(1, 6-8)
    by (auto simp: raft_step_def Let_def append_commit_def)
qed

text \<open>
  Appending consecutive entries to a storage replaces its entries from the first new index on,
  keeps it well formed, and each new entry is found under its index.
\<close>

theorem mem_storage_append:
  assumes ok: "ms_ok s" and es: "contiguous f es" "es \<noteq> []" and f: "unat (snap_index s) < f"
    and lo: "ms_entries s \<noteq> []" "unat (ms_first_index s) \<le> f" and hi: "f \<le> unat (ms_last_index s) + 1"
  shows "\<exists>s'. ms_append es s = Some s' \<and> ms_ok s' \<and>
    ms_entries s' = take (f - unat (ms_first_index s)) (ms_entries s) @ es \<and>
    (\<forall>i < length es. ms_term s' (of_nat (f + i)) = Some (Inr (le_term (es ! i))))"
proof -
  let ?b = "unat (ms_first_index s)" and ?s = "s\<lparr>ms_entries := take (f - unat (ms_first_index s)) (ms_entries s) @ es\<rparr>"
  have hd: "unat (le_index (hd es)) = f" by (rule contiguous_hd [OF es])
  have first: "le_index (hd (ms_entries s)) = ms_first_index s" using lo by (simp add: ms_first_index_def)
  have len: "f - ?b \<le> length (ms_entries s)" using hi lo ms_last_first [OF ok] by simp
  have "unat (le_index (hd es) - ms_first_index s) = f - ?b"
    using lo hd by (simp add: unat_diff_u64 word_le_nat_alt)
  then have app: "ms_append es s = Some ?s"
    using es(2) f lo hd len by (simp add: ms_append_def Let_def first word_le_nat_alt word_less_nat_alt)
  have first': "ms_first_index ?s = ms_first_index s"
  proof (cases "f = ?b")
    case True
    then have "le_index (hd es) = ms_first_index s" using hd by (metis word_unat_eq_iff)
    with True es(2) lo show ?thesis by (simp add: ms_first_index_def)
  next
    case False
    then have "0 < f - ?b" using lo by simp
    then have "take (f - ?b) (ms_entries s) \<noteq> []" "hd (take (f - ?b) (ms_entries s)) = hd (ms_entries s)"
      using lo by simp_all
    then show ?thesis using lo by (simp add: ms_first_index_def [of ?s] first)
  qed
  have snap: "snap_index ?s = snap_index s" by (simp add: snap_index_def)
  have "contiguous ?b (take (f - ?b) (ms_entries s) @ es)"
    using contiguous_append [OF ms_contiguous [OF ok] es(1), of "f - ?b"] lo len by simp
  then have ok': "ms_ok ?s" using ok lo by (simp add: ms_ok_def first' snap)
  have "ms_term ?s (of_nat (f + i)) = Some (Inr (le_term (es ! i)))" if i: "i < length es" for i
  proof -
    have "f + i < 2 ^ 64" using es(1) i by (simp add: contiguous_def)
    then have u: "unat (of_nat (f + i) :: u64) = f + i" by (rule unat_of_nat_u64)
    have "unat (ms_last_index ?s) + 1 = f + length es"
      using ms_last_first [OF ok'] len lo by (simp add: first')
    then have "ms_term ?s (of_nat (f + i)) = Some (Inr (le_term (ms_entries ?s ! (f + i - ?b))))"
      using ms_term_nth [OF ok', of "of_nat (f + i)"] i lo f u by (simp add: first' unat_eq_zero [symmetric] del: of_nat_add)
    moreover have "(take (f - ?b) (ms_entries s) @ es) ! (f + i - ?b) = es ! i"
      using len lo by (simp add: nth_append)
    ultimately show ?thesis by simp
  qed
  with app ok' show ?thesis by (intro exI [of _ ?s]) simp
qed

text \<open>
  A node started from a storage has the stored log, term, vote and commit index.  Its last index
  is the number of stored entries, so it agrees with the storage's last index only when the
  storage has not been compacted (its first index is 1).
\<close>

theorem node_starts_from_storage:
  assumes ok: "ms_ok s" and sz: "total_le_size (ms_entries s) \<le> usize_max"
  shows "\<exists>n. raft_new cfg mem_store s now rt = Some (Inr n) \<and> rn_log n = ms_entries s \<and>
    hard_state_of n = ms_hard_state s \<and> rn_conf_state n = ms_conf_state s \<and>
    unat (last_index n) + unat (ms_first_index s) = unat (ms_last_index s) + 1"
proof -
  have ops: "so_first_index mem_store s = ms_first_index s" "so_last_index mem_store s = ms_last_index s"
    "so_initial_state mem_store s = ms_initial_state s"
    by (simp_all add: mem_store_def)
  have "length (ms_entries s) < 2 ^ 64" using ok by (simp add: ms_ok_def contiguous_def)
  then have li: "unat (u64_len (ms_entries s)) = length (ms_entries s)" by (simp add: u64_len_def unat_of_nat_u64)
  have read: "(if so_last_index mem_store s \<ge> so_first_index mem_store s
      then so_entries mem_store s (so_first_index mem_store s) (so_last_index mem_store s + 1) usize_max
      else Some (Inr [])) = Some (Inr (ms_entries s))"
    using mem_st.store_read_all [OF ok _ sz] mem_st.store_empty_iff [OF ok] by (auto simp: not_le)
  show ?thesis
    using ms_last_first [OF ok] unfolding raft_new_def Let_def read
    by (simp add: node_with_def hard_state_of_def last_index_def li ops ms_initial_state_def)
qed

subsection \<open>Witnesses\<close>

text \<open>
  An election in the sample cluster: node 1 times out and becomes a pre-candidate, a pre-vote makes it
  a candidate of term 1, node 2 grants its vote, and the answer makes node 1 the leader.
\<close>

definition elect1 :: raft_node where "elect1 = snd (raft_tick 150 200 (cl_node sample_cluster 1))"
definition pre_vote_msg :: message where "pre_vote_msg = message_new PreVoteResponse 2 1 0"
definition elect2 :: raft_node where "elect2 = snd (the (raft_step 160 200 pre_vote_msg elect1))"
definition vote_req_msg :: message where "vote_req_msg = (message_new RequestVote 1 2 1)\<lparr>msg_index := 1\<rparr>"
definition voter2 :: raft_node where "voter2 = snd (the (raft_step 170 200 vote_req_msg (cl_node sample_cluster 2)))"
definition vote_msg :: message where "vote_msg = message_new VoteResponse 2 1 1"
definition elect3 :: raft_node where "elect3 = snd (the (raft_step 180 200 vote_msg elect2))"

lemmas node_eval = raft_tick_def handle_election_timeout_def cluster_init_def raft_new_with_conf_def node_with_def
  three_node_config_def hard_state_default_def conf_state_new_def sample_voters_def log_entry_new_def node_defs

lemma elect1_eq: "raft_tick 150 200 (cl_node sample_cluster 1) = (True, (cl_node sample_cluster 1)
   \<lparr>rn_state := PreCandidate, rn_votes := [(1, True)], rn_election_timeout := 200, rn_last_election_reset := 150\<rparr>)"
  by (simp add: sample_cluster_def node_eval)

lemma sample_cluster_node: "cl_node sample_cluster i = raft_new_with_conf (three_node_config i) sample_voters 0 150"
  by (simp add: sample_cluster_def cluster_init_def)

lemma elect2_eq: "raft_step 160 200 pre_vote_msg elect1 = Some (None, elect2) \<and> 
   elect2 = elect1\<lparr>rn_term := 1, rn_state := Candidate, rn_voted_for := 1, rn_votes := [(1, True)], rn_election_timeout := 200, rn_last_election_reset := 160\<rparr>"
  by (simp add: elect2_def elect1_def elect1_eq raft_step_def check_term_def pre_vote_msg_def
     handle_pre_vote_response_def votes_granted_def hm_values_def is_quorum_def sample_cluster_node node_eval)

lemmas elect2_step = elect2_eq [THEN conjunct1] and elect2_node = elect2_eq [THEN conjunct2]

lemma elect_terms: "rn_term elect1 = 0" "rn_term elect2 = 1" "rn_term (cl_node sample_cluster i) = 0"
proof -
  show "rn_term elect2 = 1" by (simp add: elect2_node)
qed (simp_all add: elect1_def elect1_eq sample_cluster_node node_eval)

lemma voter2_eq: "raft_step 170 200 vote_req_msg (cl_node sample_cluster 2) =
   Some (Some ((one_message vote_msg)\<lparr>rd_hard_state := Some (hard_state_of voter2)\<rparr>), voter2) \<and> rn_term voter2 = 1 \<and> rn_voted_for voter2 = 1"
  by (simp add: voter2_def raft_step_def check_term_def vote_req_msg_def vote_msg_def vote_response_def hard_state_of_def
     handle_request_vote_def last_term_def last_index_def log_term_def u64_len_def sample_cluster_node node_eval)

lemma elect3_eq: "raft_step 180 200 vote_msg elect2 = Some (Some (build_append_acks elect3), elect3) \<and>
   rn_state elect3 = Leader \<and> rn_term elect3 = 1"
  by (simp add: elect3_def elect2_eq elect1_def elect1_eq raft_step_def check_term_def vote_msg_def
     handle_vote_response_def votes_granted_def hm_values_def is_quorum_def sample_cluster_node node_eval)

definition election_end :: cluster where
  "election_end =
     update_node 1 (ready_messages (Some (build_append_acks elect3))) elect3
       (update_node 2 [vote_msg] voter2 (update_node 1 [] elect2 (update_node 1 [] elect1 sample_cluster)))"

lemma election_reachable: "reachable sample_voters three_node_config election_end"
proof -
  let ?c1 = "update_node 1 [] elect1 sample_cluster"
  let ?c2 = "update_node 1 [] elect2 ?c1"
  let ?c3 = "update_node 2 [vote_msg] voter2 ?c2"
  let ?r = "Some ((one_message vote_msg)\<lparr>rd_hard_state := Some (hard_state_of voter2)\<rparr>)"
  have none: "ready_messages None = []" and vote: "ready_messages ?r = [vote_msg]"
    by (simp_all add: ready_messages_def one_message_def)
  have "cluster_step sample_voters sample_cluster ?c1"
    by (rule cluster_step.timer [of 1 _ _ 150 200 True]) (simp_all add: sample_voters_def elect_terms elect1_def elect1_eq)
  then have r1: "reachable sample_voters three_node_config ?c1" by (rule reachable.step [OF sample_reachable])
  have "cluster_step sample_voters ?c1 (update_node 1 (ready_messages None) elect2 ?c1)"
    using elect2_step
    by (intro cluster_step.deliver [of 1 _ _ pre_vote_msg 160 200]) (simp_all add: sample_voters_def elect_terms pre_vote_msg_def message_new_def)
  then have r2: "reachable sample_voters three_node_config ?c2" unfolding none by (rule reachable.step [OF r1])
  have "cluster_step sample_voters ?c2 (update_node 2 (ready_messages ?r) voter2 ?c2)"
    using voter2_eq
    by (intro cluster_step.deliver [of 2 _ _ vote_req_msg 170 200]) (simp_all add: sample_voters_def elect_terms vote_req_msg_def message_new_def)
  then have r3: "reachable sample_voters three_node_config ?c3" unfolding vote by (rule reachable.step [OF r2])
  have "cluster_step sample_voters ?c3 election_end"
    using elect3_eq unfolding election_end_def
    by (intro cluster_step.deliver [of 1 _ _ vote_msg 180 200])
      (simp_all add: sample_voters_def elect_terms vote_msg_def message_new_def)
  then show ?thesis by (rule reachable.step [OF r3])
qed

theorem election_safety_witness:
  "{l. (1, l) \<in> cl_leaders election_end} = {1}"
proof -
  have "(1, 1) \<in> cl_leaders election_end" using elect3_eq by (simp add: election_end_def leaders_update)
  then show ?thesis using election_safety [OF election_reachable sample_voters_ok] by blast
qed

theorem step_term_and_vote_witness:
  "rn_term (cl_node sample_cluster 2) \<le> rn_term voter2 \<and> msg_to vote_msg = rn_voted_for voter2"
proof -
  have s: "raft_step 170 200 vote_req_msg (cl_node sample_cluster 2) =
      Some (Some ((one_message vote_msg)\<lparr>rd_hard_state := Some (hard_state_of voter2)\<rparr>), voter2)"
    using voter2_eq by blast
  have t: "rn_term (cl_node sample_cluster 2) \<noteq> - 1" by (simp add: sample_cluster_node node_eval)
  have "msg_type vote_msg = VoteResponse" "\<not> msg_reject vote_msg" by (simp_all add: vote_msg_def message_new_def)
  moreover have "vote_msg \<in> set (ready_messages (Some ((one_message vote_msg)\<lparr>rd_hard_state := Some (hard_state_of voter2)\<rparr>)))"
    by (simp add: ready_messages_def one_message_def)
  ultimately show ?thesis using step_term_and_vote [OF s t] by blast
qed

text \<open>A leader of term 1 whose log has two entries and whose peers have them, or only one of them.\<close>

definition sample_progress :: "log_index \<Rightarrow> progress" where
  "sample_progress i = (progress_new 3 False)\<lparr>pr_match_index := i\<rparr>"

definition sample_leader :: raft_node where
  "sample_leader = sample_node\<lparr>rn_term := 1, rn_state := Leader,
     rn_log := [log_entry_new 1 0 [], log_entry_new 2 1 [7]], rn_progress := [(2, sample_progress 2), (3, sample_progress 0)]\<rparr>"

lemmas leader_eval = sample_leader_def sample_node_def sample_progress_def progress_new_def node_eval

theorem commit_needs_quorum_witness:
  "\<exists>n'. advance_commit_index sample_leader = Some n' \<and> rn_commit_index n' = 2 \<and>
     quorum_size sample_leader \<le> matched sample_leader 2"
proof -
  let ?n = "sample_leader\<lparr>rn_commit_index := 2\<rparr>"
  have "advance_commit_index sample_leader = Some ?n"
    by (simp add: advance_commit_index_def match_indices_def quorum_size_def last_index_def log_term_def u64_len_def
        hm_values_def leader_eval)
  from commit_needs_quorum [OF this] show ?thesis
    using \<open>advance_commit_index sample_leader = Some ?n\<close> by (simp add: leader_eval)
qed

text \<open>A follower of term 1 with three entries, two of them of term 1.\<close>

definition sample_follower :: raft_node where
  "sample_follower = sample_node\<lparr>rn_term := 1, rn_commit_index := 3,
     rn_log := [log_entry_new 1 0 [], log_entry_new 2 1 [7], log_entry_new 3 1 [8]]\<rparr>"

definition sample_append :: message where
  "sample_append = (message_new AppendEntries 2 1 1)\<lparr>msg_entries := [log_entry_new 1 1 [9]]\<rparr>"

lemmas follower_eval = sample_follower_def sample_node_def sample_append_def node_eval

lemma sample_append_ok:
  "msg_type sample_append = AppendEntries" "msg_term sample_append = rn_term sample_follower"
  "msg_term sample_append \<noteq> 0" "append_accepts sample_follower sample_append" "vec_ok (rn_log sample_follower)"
  "contiguous (Suc (unat (msg_index sample_append))) (msg_entries sample_append)"
  by (simp_all add: append_accepts_def vec_ok_def contiguous_def follower_eval)

theorem append_entries_exact_witness:
  "(\<exists>r n'. raft_step 5 6 sample_append sample_follower = Some (Some r, n') \<and> rn_log n' = [log_entry_new 1 1 [9]]) \<and>
   (\<exists>r n'. raft_step 5 6 (sample_append\<lparr>msg_entries := []\<rparr>) sample_follower = Some (Some r, n') \<and>
      rn_log n' = rn_log sample_follower)"
proof
  have "\<not> msg_term sample_append < rn_term sample_follower" using sample_append_ok(2) by simp
  moreover have "take (unat (msg_index sample_append)) (rn_log sample_follower) @ msg_entries sample_append = [log_entry_new 1 1 [9]]"
    by (simp add: follower_eval)
  moreover have "msg_entries sample_append \<noteq> []" by (simp add: follower_eval)
  ultimately show "\<exists>r n'. raft_step 5 6 sample_append sample_follower = Some (Some r, n') \<and> rn_log n' = [log_entry_new 1 1 [9]]"
    using append_entries_exact [OF sample_append_ok(1,3,5,6), of 5 6] sample_append_ok(4) by auto
next
  let ?m = "sample_append\<lparr>msg_entries := []\<rparr>"
  have "msg_type ?m = AppendEntries" "msg_term ?m \<noteq> 0" "contiguous (Suc (unat (msg_index ?m))) (msg_entries ?m)"
    "\<not> msg_term ?m < rn_term sample_follower" "append_accepts sample_follower ?m"
    by (simp_all add: append_accepts_def contiguous_def follower_eval)
  then show "\<exists>r n'. raft_step 5 6 ?m sample_follower = Some (Some r, n') \<and> rn_log n' = rn_log sample_follower"
    using append_entries_exact [of ?m sample_follower 5 6] sample_append_ok(5) by auto
qed

theorem log_indices_invariant_witness:
  "\<exists>r n'. raft_step 5 6 (message_new Heartbeat 2 1 1) sample_follower = Some (r, n') \<and> log_ok n'"
proof -
  obtain r n' where s: "raft_step 5 6 (message_new Heartbeat 2 1 1) sample_follower = Some (r, n')"
    by (simp add: raft_step_def check_term_def handle_heartbeat_def follower_eval)
  have ok: "log_ok sample_follower"
    unfolding log_ok_def
  proof (intro allI impI)
    fix i assume "i < length (rn_log sample_follower)"
    then have "i = 0 \<or> i = 1 \<or> i = 2" by (auto simp: follower_eval)
    then show "unat (le_index (rn_log sample_follower ! i)) = Suc i" by (elim disjE) (simp_all add: follower_eval)
  qed
  have "log_ok n'"
    by (rule log_indices_invariant [OF s ok]) (simp_all add: vec_ok_def append_msg_ok_def follower_eval)
  with s show ?thesis by blast
qed

theorem sent_entries_bounded_witness:
  "\<exists>k. get_entries sample_follower 2 40 = take k (drop 1 (rn_log sample_follower)) \<and> 0 < k"
  using sent_entries_bounded [of 2 sample_follower 40] by (auto simp: follower_eval)

theorem conflict_hint_spec_witness:
  "log_term sample_follower (find_conflict_hint sample_follower 3) \<noteq> log_term sample_follower 3"
proof -
  have t: "log_term sample_follower 1 = 0" "log_term sample_follower 2 = 1" "log_term sample_follower 3 = 1"
    by (simp_all add: log_term_def u64_len_def follower_eval)
  have "conflict_loop sample_follower 1 (Suc (Suc (Suc 0))) \<noteq> 0" by (simp add: t)
  moreover have "unat (3 :: u64) = Suc (Suc (Suc 0))" by simp
  ultimately have "find_conflict_hint sample_follower 3 \<noteq> 0" by (simp only: find_conflict_hint_def t not_False_eq_True)
  then show ?thesis using conflict_hint_spec [of sample_follower 3] by blast
qed

theorem ready_applies_whole_log_witness:
  "\<exists>r n'. raft_ready (sample_leader\<lparr>rn_commit_index := 1\<rparr>) = (Some r, n') \<and> length (rd_committed r) = 2"
proof -
  let ?n = "sample_leader\<lparr>rn_commit_index := 1\<rparr>"
  obtain r n' where r: "raft_ready ?n = (Some r, n')"
    by (simp add: raft_ready_def ready_is_empty_def leader_eval)
  have "rd_committed r = drop (unat (rn_last_applied ?n)) (rn_log ?n) \<and> rn_last_applied n' = rn_commit_index ?n"
    by (rule ready_applies_whole_log [OF r])
      (simp_all add: total_le_size_def le_size_def usize_max_def leader_eval)
  with r show ?thesis by (simp add: leader_eval)
qed

theorem first_append_always_refused_witness:
  "\<exists>r f' a. raft_step 5 6 (hd (rd_messages (build_append_acks (become_leader elect2)))) (voter2\<lparr>rn_log := rn_log elect2\<rparr>) =
     Some (Some r, f') \<and> rd_messages r = [a] \<and> msg_reject a"
proof -
  have e: "rn_log elect2 \<noteq> []" "vec_ok (rn_log elect2)" "last_term elect2 \<noteq> rn_term elect2"
    "rd_messages (build_append_acks (become_leader elect2)) \<noteq> []"
    by (simp_all add: elect2_node elect1_def elect1_eq sample_cluster_node vec_ok_def last_term_def last_index_def log_term_def
        u64_len_def build_append_acks_def node_eval)
  then have "hd (rd_messages (build_append_acks (become_leader elect2))) \<in> set (rd_messages (build_append_acks (become_leader elect2)))"
    by simp
  from first_append_always_refused [OF _ e(1-3) _ this, of "voter2\<lparr>rn_log := rn_log elect2\<rparr>" 5 6]
  show ?thesis using voter2_eq elect_terms by auto
qed

theorem late_append_drops_committed_witness:
  "\<exists>r n'. raft_step 5 6 sample_append sample_follower = Some (r, n') \<and> length (rn_log n') < unat (rn_commit_index n')"
  by (rule late_append_drops_committed [OF sample_append_ok]) (simp_all add: follower_eval)

theorem append_lowers_commit_witness:
  "\<exists>r n'. raft_step 5 6 ((message_new AppendEntries 2 1 1)\<lparr>msg_index := 2, msg_commit := 4\<rparr>) sample_follower = Some (r, n') \<and>
     rn_commit_index n' = 2 \<and> rn_commit_index sample_follower = 3"
proof -
  let ?m = "(message_new AppendEntries 2 1 1)\<lparr>msg_index := 2, msg_commit := 4\<rparr>"
  have "\<exists>r n'. raft_step 5 6 ?m sample_follower = Some (r, n') \<and> rn_commit_index n' = msg_index ?m \<and>
      rn_commit_index n' < rn_commit_index sample_follower"
    by (rule append_lowers_commit)
      (simp_all add: append_accepts_def vec_ok_def log_term_def u64_len_def follower_eval)
  then show ?thesis by (auto simp: follower_eval)
qed

definition sample_storage :: mem_storage where
  "sample_storage = ms_new\<lparr>ms_entries := [log_entry_new 1 1 [], log_entry_new 2 1 []]\<rparr>"

lemma sample_storage_ok: "ms_ok sample_storage"
  by (auto simp: ms_ok_def contiguous_def sample_storage_def ms_new_def ms_first_index_def snap_index_def
      snapshot_empty_def log_entry_new_def less_Suc_eq)

theorem mem_storage_append_witness:
  "\<exists>s'. ms_append [log_entry_new 2 2 []] sample_storage = Some s' \<and>
     ms_entries s' = [log_entry_new 1 1 [], log_entry_new 2 2 []] \<and> ms_term s' 2 = Some (Inr 2)"
proof -
  have "contiguous 2 [log_entry_new 2 2 []]" by (simp add: contiguous_def log_entry_new_def)
  from mem_storage_append [OF sample_storage_ok this] show ?thesis
    by (auto simp: sample_storage_def ms_new_def ms_first_index_def ms_last_index_def snap_index_def
        snapshot_empty_def log_entry_new_def)
qed

theorem node_starts_from_storage_witness:
  "\<exists>n. raft_new (three_node_config 1) mem_store sample_storage 0 150 = Some (Inr n) \<and>
     rn_log n = ms_entries sample_storage"
proof -
  have "total_le_size (ms_entries sample_storage) \<le> usize_max"
    by (simp add: sample_storage_def ms_new_def total_le_size_def le_size_def log_entry_new_def usize_max_def)
  from node_starts_from_storage [OF sample_storage_ok this, of "three_node_config 1" 0 150] show ?thesis by blast
qed

end
