(* ===== verification/HashRing.thy ===== *)
theory HashRing
  imports OrderedMap Wal "HOL-Library.Char_ord" "HOL-Library.List_Lexorder"
begin

text \<open>
  The consistent-hashing ring \<open>HashRing\<close> and the \<open>ShardRouter\<close> on top of it,
  \<open>src/src/cluster/hash_ring.rs\<close>.  The hash function (\<open>DefaultHasher\<close>, whose algorithm the
  standard library does not promise) is the argument \<open>hash\<close>.  Of the distribution statistics the
  counts are modelled, not the average and the standard deviation.
\<close>

definition VIRTUAL_NODES :: nat where
  "VIRTUAL_NODES = 150"

record hash_ring =
  hr_ring :: "(u64, string) btree"
  hr_nodes :: "string list"
  hr_virtual_nodes :: nat

type_synonym hasher = "string \<Rightarrow> u64"

definition ring_new :: hash_ring where
  "ring_new = \<lparr>hr_ring = RBT.empty, hr_nodes = [], hr_virtual_nodes = VIRTUAL_NODES\<rparr>"

definition ring_with_virtual_nodes :: "nat \<Rightarrow> hash_ring" where
  "ring_with_virtual_nodes v = \<lparr>hr_ring = RBT.empty, hr_nodes = [], hr_virtual_nodes = v\<rparr>"

text \<open>\<open>format!("{}-{}", node_id, i)\<close>.\<close>

definition vnode_key :: "string \<Rightarrow> nat \<Rightarrow> string" where
  "vnode_key node i = node @ ''-'' @ decimal i"

definition vnode_hashes :: "hasher \<Rightarrow> nat \<Rightarrow> string \<Rightarrow> u64 list" where
  "vnode_hashes hash v node = map (\<lambda>i. hash (vnode_key node i)) [0..<v]"

definition ring_add_node :: "hasher \<Rightarrow> string \<Rightarrow> hash_ring \<Rightarrow> hash_ring" where
  "ring_add_node hash node r =
     (if node \<in> set (hr_nodes r) then r
      else r\<lparr>hr_ring := fold (\<lambda>h t. RBT.insert h node t) (vnode_hashes hash (hr_virtual_nodes r) node) (hr_ring r),
             hr_nodes := hr_nodes r @ [node]\<rparr>)"

definition ring_remove_node :: "hasher \<Rightarrow> string \<Rightarrow> hash_ring \<Rightarrow> hash_ring" where
  "ring_remove_node hash node r =
     r\<lparr>hr_ring := fold RBT.delete (vnode_hashes hash (hr_virtual_nodes r) node) (hr_ring r),
       hr_nodes := filter (\<lambda>n. n \<noteq> node) (hr_nodes r)\<rparr>"

definition ring_get_node :: "hasher \<Rightarrow> hash_ring \<Rightarrow> string \<Rightarrow> string option" where
  "ring_get_node hash r key =
     (if RBT.entries (hr_ring r) = [] then None
      else
        (case btree_range_from (hash key) (hr_ring r) of
           e # _ \<Rightarrow> Some (snd e)
         | [] \<Rightarrow> (case RBT.entries (hr_ring r) of e # _ \<Rightarrow> Some (snd e) | [] \<Rightarrow> None)))"

text \<open>The loop over one part of the ring: the nodes found so far and the set of nodes seen.\<close>

fun collect_nodes :: "nat \<Rightarrow> (u64 \<times> string) list \<Rightarrow> string list \<Rightarrow> string set \<Rightarrow> string list \<times> string set" where
  "collect_nodes count [] result seen = (result, seen)"
| "collect_nodes count ((_, node) # es) result seen =
     (let fresh = (node \<notin> seen);
          seen1 = insert node seen;
          result1 = (if fresh \<and> length result < count then result @ [node] else result)
      in if length result1 \<ge> count then (result1, seen1) else collect_nodes count es result1 seen1)"

definition ring_get_nodes :: "hasher \<Rightarrow> hash_ring \<Rightarrow> string \<Rightarrow> nat \<Rightarrow> string list" where
  "ring_get_nodes hash r key count =
     (if RBT.entries (hr_ring r) = [] \<or> count = 0 then []
      else
        (let (result, seen) = collect_nodes count (btree_range_from (hash key) (hr_ring r)) [] {}
         in if length result < count then fst (collect_nodes count (RBT.entries (hr_ring r)) result seen)
            else result))"

definition ring_len :: "hash_ring \<Rightarrow> nat" where
  "ring_len r = length (hr_nodes r)"

definition ring_is_empty :: "hash_ring \<Rightarrow> bool" where
  "ring_is_empty r \<longleftrightarrow> hr_nodes r = []"

subsection \<open>Statistics\<close>

record distribution_stats =
  ds_node_count :: nat
  ds_virtual_node_count :: nat
  ds_min_virtual_nodes :: nat
  ds_max_virtual_nodes :: nat

fun count_nodes :: "string list \<Rightarrow> (string \<times> nat) list \<Rightarrow> (string \<times> nat) list" where
  "count_nodes [] counts = counts"
| "count_nodes (n # ns) counts =
     count_nodes ns (hm_insert n (Suc (case hm_get counts n of None \<Rightarrow> 0 | Some c \<Rightarrow> c)) counts)"

definition ring_distribution :: "hash_ring \<Rightarrow> distribution_stats" where
  "ring_distribution r =
     (if hr_nodes r = [] then
        \<lparr>ds_node_count = 0, ds_virtual_node_count = 0, ds_min_virtual_nodes = 0, ds_max_virtual_nodes = 0\<rparr>
      else
        (let vals = hm_values (count_nodes (map snd (RBT.entries (hr_ring r))) [])
         in \<lparr>ds_node_count = length (hr_nodes r), ds_virtual_node_count = length (RBT.entries (hr_ring r)),
             ds_min_virtual_nodes = (if vals = [] then 0 else fold min vals (hd vals)),
             ds_max_virtual_nodes = fold max vals 0\<rparr>))"

subsection \<open>The router of shards\<close>

record shard_router =
  sr_ring :: hash_ring
  sr_shard_count :: nat

definition router_new :: "nat \<Rightarrow> shard_router" where
  "router_new shard_count = \<lparr>sr_ring = ring_new, sr_shard_count = shard_count\<rparr>"

definition router_add_node :: "hasher \<Rightarrow> string \<Rightarrow> shard_router \<Rightarrow> shard_router" where
  "router_add_node hash node s = s\<lparr>sr_ring := ring_add_node hash node (sr_ring s)\<rparr>"

definition router_remove_node :: "hasher \<Rightarrow> string \<Rightarrow> shard_router \<Rightarrow> shard_router" where
  "router_remove_node hash node s = s\<lparr>sr_ring := ring_remove_node hash node (sr_ring s)\<rparr>"

definition get_node_for_vector :: "hasher \<Rightarrow> shard_router \<Rightarrow> u64 \<Rightarrow> string option" where
  "get_node_for_vector hash s vector_id = ring_get_node hash (sr_ring s) (''vector-'' @ decimal (unat vector_id))"

definition get_nodes_for_vector :: "hasher \<Rightarrow> shard_router \<Rightarrow> u64 \<Rightarrow> nat \<Rightarrow> string list" where
  "get_nodes_for_vector hash s vector_id rf = ring_get_nodes hash (sr_ring s) (''vector-'' @ decimal (unat vector_id)) rf"

definition get_node_for_shard :: "hasher \<Rightarrow> shard_router \<Rightarrow> u32 \<Rightarrow> string option" where
  "get_node_for_shard hash s shard_id = ring_get_node hash (sr_ring s) (''shard-'' @ decimal (unat shard_id))"

text \<open>\<open>0..self.shard_count as u32\<close>: the count is cut to 32 bits.\<close>

definition calculate_shard_mapping :: "hasher \<Rightarrow> shard_router \<Rightarrow> (u32 \<times> string) list" where
  "calculate_shard_mapping hash s =
     concat (map (\<lambda>i. case get_node_for_shard hash s (of_nat i) of None \<Rightarrow> [] | Some node \<Rightarrow> [(of_nat i, node)])
       [0..<unat (of_nat (sr_shard_count s) :: u32)])"

end
