(* ===== verification/RingClaims.thy ===== *)
theory RingClaims
  imports HashRingProps
begin

text \<open>
  The properties of the consistent-hashing ring, each with a witness on a small ring whose hash
  function is the length of the key.
\<close>

definition len_hash :: hasher where
  "len_hash s = of_nat (length s)"

definition sample_ring :: hash_ring where
  "sample_ring = ring_add_node len_hash ''bb'' (ring_add_node len_hash ''a'' (ring_with_virtual_nodes 1))"

lemma sample_ring_hashes:
  "vnode_hashes len_hash 1 ''a'' = [3]" "vnode_hashes len_hash 1 ''bb'' = [4]" "vnode_hashes len_hash 1 ''ccc'' = [5]"
  by (simp_all add: vnode_hashes_def vnode_key_def len_hash_def decimal.simps [of 0])

lemma sample_ring_fields: "hr_nodes sample_ring = [''a'', ''bb'']" "hr_virtual_nodes sample_ring = 1"
  by (simp_all add: sample_ring_def ring_add_node_def ring_with_virtual_nodes_def)

lemma sample_ring_exact: "ring_exact len_hash sample_ring"
  unfolding sample_ring_def
  by (intro ring_add_exact ring_new_exact)
    (simp_all add: no_collision_def ring_add_node_def ring_with_virtual_nodes_def sample_ring_hashes [unfolded One_nat_def])

lemma sample_ring_ok: "ring_ok len_hash sample_ring"
  by (rule ring_exact_ok [OF sample_ring_exact]) (simp add: sample_ring_fields)

text \<open>
  C31.  When a node joins the ring, every key keeps its owner or moves to the node that joins: no key
  moves between the nodes that were there.  No assumption on the hash function is needed.
\<close>

theorem join_moves_keys_to_new_node:
  assumes "node \<notin> set (hr_nodes r)"
  shows "ring_get_node hash (ring_add_node hash node r) key = ring_get_node hash r key \<or>
    ring_get_node hash (ring_add_node hash node r) key = Some node"
proof -
  let ?r = "ring_add_node hash node r" and ?H = "set (vnode_hashes hash (hr_virtual_nodes r) node)"
  let ?s = "successor (points ?r) (hash key)"
  have pts: "points ?r = points r \<union> ?H" by (rule ring_add_points [OF assms])
  show ?thesis
  proof (cases "points ?r = {}")
    case True
    then show ?thesis by (simp add: ring_get_node_successor pts)
  next
    case ne: False
    show ?thesis
    proof (cases "?s \<in> ?H")
      case True
      with ne show ?thesis by (simp add: ring_get_node_successor ring_add_lookup [OF assms])
    next
      case False
      then have mem: "?s \<in> points r" using successor_mem [OF finite_points ne, of "hash key"] pts by blast
      then have "successor (points r) (hash key) = ?s"
        by (intro successor_subset finite_points) (auto simp: pts)
      with ne mem False show ?thesis by (auto simp: ring_get_node_successor ring_add_lookup [OF assms])
    qed
  qed
qed

theorem join_moves_keys_to_new_node_witness:
  "ring_get_node len_hash (ring_add_node len_hash ''ccc'' sample_ring) ''k'' = ring_get_node len_hash sample_ring ''k'' \<or>
   ring_get_node len_hash (ring_add_node len_hash ''ccc'' sample_ring) ''k'' = Some ''ccc''"
  by (rule join_moves_keys_to_new_node) (simp add: sample_ring_fields)

text \<open>
  When a node leaves the ring, a key that it does not own keeps its owner, provided no virtual
  node of it shares its position with a virtual node of another node.
\<close>

theorem leave_keeps_other_owners:
  assumes ok: "ring_ok hash r" and nc: "no_collision hash (hr_virtual_nodes r) (insert node (set (hr_nodes r)))"
    and owner: "ring_get_node hash r key = Some owner" and other: "owner \<noteq> node"
  shows "ring_get_node hash (ring_remove_node hash node r) key = Some owner"
proof -
  let ?r = "ring_remove_node hash node r" and ?H = "set (vnode_hashes hash (hr_virtual_nodes r) node)"
  let ?s = "successor (points r) (hash key)"
  have ne: "points r \<noteq> {}" and look: "RBT.lookup (hr_ring r) ?s = Some owner"
    using owner by (simp_all add: ring_get_node_successor split: if_splits)
  have "owner \<in> set (hr_nodes r)" "?s \<in> set (vnode_hashes hash (hr_virtual_nodes r) owner)"
    using ok look by (auto simp: ring_ok_def)
  then have notin: "?s \<notin> ?H" using nc other unfolding no_collision_def by (metis disjoint_iff insertCI)
  have mem: "?s \<in> points ?r" using successor_mem [OF finite_points ne] notin by (simp add: ring_remove_points)
  then have "successor (points ?r) (hash key) = ?s"
    by (intro successor_subset finite_points) (auto simp: ring_remove_points)
  with mem notin look show ?thesis by (auto simp: ring_get_node_successor ring_remove_lookup)
qed

theorem leave_keeps_other_owners_witness:
  "ring_get_node len_hash (ring_remove_node len_hash ''bb'' sample_ring) ''k'' = Some ''a''"
proof (rule leave_keeps_other_owners [OF sample_ring_ok])
  show "no_collision len_hash (hr_virtual_nodes sample_ring) (insert ''bb'' (set (hr_nodes sample_ring)))"
    by (auto simp: no_collision_def sample_ring_fields sample_ring_hashes [unfolded One_nat_def])
  show "ring_get_node len_hash sample_ring ''k'' = Some ''a''"
    by code_simp
qed simp

text \<open>
  The replica list of a key starts with its owner, has no node twice, is not longer than asked
  for, holds nodes of the ring only, and is shorter than asked for only when it holds all of them.
\<close>

theorem replicas_distinct_and_complete:
  assumes exact: "ring_exact hash r" and v: "0 < hr_virtual_nodes r" and count: "0 < count"
    and rs: "ring_get_nodes hash r key count = rs"
  shows "distinct rs \<and> length rs \<le> count \<and> set rs \<subseteq> set (hr_nodes r) \<and>
    (length rs < count \<longrightarrow> set rs = set (hr_nodes r)) \<and>
    ring_get_node hash r key = (if rs = [] then None else Some (hd rs))"
proof -
  have "{n. \<exists>p. RBT.lookup (hr_ring r) p = Some n} = set (hr_nodes r)"
    using exact v by (auto simp: ring_exact_def vnode_hashes_def)
  then show ?thesis
    using ring_get_nodes_spec [of hash r key count] ring_get_nodes_hd [OF count, of hash r key]
    unfolding rs by simp
qed

theorem replicas_distinct_and_complete_witness:
  "ring_get_nodes len_hash sample_ring ''k'' 3 = [''a'', ''bb''] \<and> distinct (ring_get_nodes len_hash sample_ring ''k'' 3)"
proof -
  have "ring_get_nodes len_hash sample_ring ''k'' 3 = [''a'', ''bb'']" by code_simp
  moreover have "distinct (ring_get_nodes len_hash sample_ring ''k'' 3)"
    using replicas_distinct_and_complete [OF sample_ring_exact _ _ refl, of 3 "''k''"] by (simp add: sample_ring_fields)
  ultimately show ?thesis by simp
qed

text \<open>
  Two virtual nodes of different nodes that hash to the same position share one entry of the
  ring; removing the node that joined last takes the entry away, so that the first node loses the
  virtual node although it is still a member.
\<close>

theorem collision_loses_virtual_node:
  assumes ok: "ring_ok hash r" and a: "a \<in> set (hr_nodes r)" and b: "b \<notin> set (hr_nodes r)"
    and i: "i < hr_virtual_nodes r" and j: "j < hr_virtual_nodes r"
    and same: "hash (vnode_key a i) = hash (vnode_key b j)"
    and r': "r' = ring_remove_node hash b (ring_add_node hash b r)"
  shows "a \<in> set (hr_nodes r') \<and> RBT.lookup (hr_ring r') (hash (vnode_key a i)) = None"
proof -
  have "hash (vnode_key a i) \<in> set (vnode_hashes hash (hr_virtual_nodes r) b)"
    unfolding same using j by (auto simp: vnode_hashes_def)
  then show ?thesis
    using a b by (auto simp: r' ring_remove_lookup) (auto simp: ring_remove_node_def ring_add_node_def)
qed

theorem collision_loses_virtual_node_witness:
  "RBT.lookup (hr_ring (ring_remove_node len_hash ''b'' (ring_add_node len_hash ''b''
     (ring_add_node len_hash ''a'' (ring_with_virtual_nodes 1))))) 3 = None"
proof -
  let ?r = "ring_add_node len_hash ''a'' (ring_with_virtual_nodes 1)"
  have f: "hr_nodes ?r = [''a'']" "hr_virtual_nodes ?r = 1"
    by (simp_all add: ring_add_node_def ring_with_virtual_nodes_def)
  have k: "len_hash (vnode_key ''a'' 0) = 3" "len_hash (vnode_key ''b'' 0) = 3"
    by (simp_all add: len_hash_def vnode_key_def decimal.simps [of 0])
  show ?thesis
    using collision_loses_virtual_node [OF ring_add_ok [OF ring_new_ok(2)], of "''a''" len_hash "''a''" 1 "''b''" 0 0, OF _ _ _ _ _ refl]
    by (simp add: f [unfolded One_nat_def] k)
qed

text \<open>While the ring has a position, every shard below the shard count is mapped to its owner.\<close>

theorem every_shard_is_mapped:
  assumes "points (sr_ring s) \<noteq> {}" and "sr_shard_count s < 2 ^ 32"
  shows "map fst (calculate_shard_mapping hash s) = map of_nat [0..<sr_shard_count s] \<and>
    (\<forall>i node. (i, node) \<in> set (calculate_shard_mapping hash s) \<longrightarrow>
       get_node_for_shard hash s i = Some node \<and> (\<exists>p. RBT.lookup (hr_ring (sr_ring s)) p = Some node))"
proof -
  have total: "\<exists>node p. get_node_for_shard hash s i = Some node \<and> RBT.lookup (hr_ring (sr_ring s)) p = Some node" for i
  proof -
    let ?p = "successor (points (sr_ring s)) (hash (''shard-'' @ decimal (unat i)))"
    have "?p \<in> points (sr_ring s)" by (rule successor_mem [OF finite_points assms(1)])
    then show ?thesis using assms(1) by (auto simp: get_node_for_shard_def ring_get_node_successor points_def)
  qed
  define owner where "owner i = the (get_node_for_shard hash s i)" for i
  have owner: "get_node_for_shard hash s i = Some (owner i)" for i
    using total [of i] by (auto simp: owner_def)
  have eq: "calculate_shard_mapping hash s = map (\<lambda>i. (of_nat i, owner (of_nat i))) [0..<sr_shard_count s]"
    using assms(2) by (simp add: calculate_shard_mapping_def owner unat_of_nat_u32)
  have "\<exists>p. RBT.lookup (hr_ring (sr_ring s)) p = Some (owner i)" for i
    using total [of i] owner [of i] by auto
  then show ?thesis by (auto simp: eq owner comp_def)
qed

theorem every_shard_is_mapped_witness:
  "map fst (calculate_shard_mapping len_hash \<lparr>sr_ring = sample_ring, sr_shard_count = 2\<rparr>) = map of_nat [0..<2]"
proof -
  have "RBT.lookup (hr_ring sample_ring) 3 = Some ''a''"
    using sample_ring_exact unfolding ring_exact_def
    by (simp add: sample_ring_fields sample_ring_hashes [unfolded One_nat_def])
  then have "points sample_ring \<noteq> {}" unfolding points_def by blast
  then show ?thesis
    using every_shard_is_mapped [of "\<lparr>sr_ring = sample_ring, sr_shard_count = 2\<rparr>" len_hash] by simp
qed

end
