(* ===== verification/SearchTypes.thy ===== *)
theory SearchTypes
  imports Prelude
begin

text \<open>
  The configuration, request and filter types of \<open>src/src/lib.rs\<close>, the JSON values of payloads,
  and the order of floating-point numbers.

  An \<open>f32\<close> is its bit pattern, a \<open>u32\<close>, an \<open>f64\<close> a \<open>u64\<close>.  Comparisons are written out on the
  bit patterns; the arithmetic operations that \<open>Distance::calculate\<close> uses are collected in the
  argument \<open>fp\<close> of type \<open>f32_ops\<close>, together with the vectorised cosine distance.  A JSON number is
  a non-negative or negative integer or an \<open>f64\<close>, as in \<open>serde_json\<close>; a JSON object is an
  association list.
\<close>

unbundle bit_operations_syntax

type_synonym f32 = u32
type_synonym f64 = u64

subsection \<open>Comparing floating-point numbers\<close>

text \<open>
  Sign and magnitude of a bit pattern as an integer, which orders the numbers that are not NaN and
  identifies the two zeros.
\<close>

definition f32_is_nan :: "f32 \<Rightarrow> bool" where
  "f32_is_nan x \<longleftrightarrow> x AND 0x7FFFFFFF > 0x7F800000"

definition f32_rank :: "f32 \<Rightarrow> int" where
  "f32_rank x = (let m = uint (x AND 0x7FFFFFFF) in if x AND 0x80000000 = 0 then m else - m)"

text \<open>The order of \<open>OrderedFloat\<close>: a NaN equals itself and is greater than every number.\<close>

definition of_rank :: "f32 \<Rightarrow> int" where
  "of_rank x = (if f32_is_nan x then 0x80000000 else f32_rank x)"

definition f64_is_nan :: "f64 \<Rightarrow> bool" where
  "f64_is_nan x \<longleftrightarrow> x AND 0x7FFFFFFFFFFFFFFF > 0x7FF0000000000000"

definition f64_rank :: "f64 \<Rightarrow> int" where
  "f64_rank x = (let m = uint (x AND 0x7FFFFFFFFFFFFFFF) in if x AND 0x8000000000000000 = 0 then m else - m)"

definition f64_less :: "f64 \<Rightarrow> f64 \<Rightarrow> bool" where
  "f64_less x y \<longleftrightarrow> \<not> f64_is_nan x \<and> \<not> f64_is_nan y \<and> f64_rank x < f64_rank y"

definition f64_le :: "f64 \<Rightarrow> f64 \<Rightarrow> bool" where
  "f64_le x y \<longleftrightarrow> \<not> f64_is_nan x \<and> \<not> f64_is_nan y \<and> f64_rank x \<le> f64_rank y"

text \<open>The conversion \<open>n as f64\<close> of an integer: rounded to 53 significant bits, ties to even.\<close>

fun bit_length :: "nat \<Rightarrow> nat" where
  "bit_length n = (if n = 0 then 0 else Suc (bit_length (n div 2)))"

declare bit_length.simps [simp del]

definition f64_of_nat :: "nat \<Rightarrow> f64" where
  "f64_of_nat n =
     (if n = 0 then 0
      else
        (let e = bit_length n - 1
         in if e \<le> 52 then of_nat ((1023 + e) * 2 ^ 52 + (n * 2 ^ (52 - e) - 2 ^ 52))
            else
              (let s = e - 52; q = n div 2 ^ s; r = n mod 2 ^ s; half = 2 ^ (s - 1);
                   q' = (if r > half \<or> r = half \<and> odd q then q + 1 else q)
               in of_nat ((1023 + e) * 2 ^ 52 + (q' - 2 ^ 52)))))"

definition f64_of_int :: "int \<Rightarrow> f64" where
  "f64_of_int i = (if i < 0 then f64_of_nat (nat (- i)) OR 0x8000000000000000 else f64_of_nat (nat i))"

subsection \<open>JSON values\<close>

datatype json_number = NPos u64 | NNeg "64 word" | NFloat f64

datatype json =
    JNull
  | JBool bool
  | JNumber json_number
  | JString string
  | JArray "json list"
  | JObject "(string \<times> json) list"

type_synonym payload = "(string \<times> json) list"

definition number_as_i64 :: "json_number \<Rightarrow> int option" where
  "number_as_i64 n =
     (case n of
        NPos u \<Rightarrow> if uint u \<le> 2 ^ 63 - 1 then Some (uint u) else None
      | NNeg i \<Rightarrow> Some (sint i)
      | NFloat _ \<Rightarrow> None)"

definition number_as_f64 :: "json_number \<Rightarrow> f64 option" where
  "number_as_f64 n =
     (case n of
        NPos u \<Rightarrow> Some (f64_of_int (uint u))
      | NNeg i \<Rightarrow> Some (f64_of_int (sint i))
      | NFloat x \<Rightarrow> Some x)"

definition json_as_i64 :: "json \<Rightarrow> int option" where
  "json_as_i64 v = (case v of JNumber n \<Rightarrow> number_as_i64 n | _ \<Rightarrow> None)"

definition json_as_str :: "json \<Rightarrow> string option" where
  "json_as_str v = (case v of JString s \<Rightarrow> Some s | _ \<Rightarrow> None)"

text \<open>\<open>Value::get\<close> with a string key.\<close>

definition json_get :: "json \<Rightarrow> string \<Rightarrow> json option" where
  "json_get v key = (case v of JObject m \<Rightarrow> hm_get m key | _ \<Rightarrow> None)"

subsection \<open>Filters\<close>

datatype match_value = MvKeyword string | MvInteger int

record range =
  rg_gt :: "f64 option"
  rg_gte :: "f64 option"
  rg_lt :: "f64 option"
  rg_lte :: "f64 option"

datatype match_cond = MatchValue match_value | MatchInteger int | MatchText string | MatchRange range

record field_condition =
  fc_key :: string
  fc_match :: match_cond

datatype condition = CondField field_condition | CondFilter filter_spec | CondHasId "u64 list"
  and filter_spec = Filter (f_must: "condition list option") (f_should: "condition list option")
    (f_must_not: "condition list option")

subsection \<open>Configuration and requests\<close>

datatype distance = Euclidean | Cosine | Dot | Manhattan

record hnsw_config =
  hc_m :: nat
  hc_ef_construct :: nat
  hc_ef :: nat
  hc_num_layers :: "nat option"

definition hnsw_config_default :: hnsw_config where
  "hnsw_config_default = \<lparr>hc_m = 16, hc_ef_construct = 100, hc_ef = 10, hc_num_layers = None\<rparr>"

datatype pq_compression = X4 | X8 | X16 | X32 | X64

datatype quantization_config =
    QScalar "f32 option" bool
  | QProduct pq_compression bool
  | QBinary bool

record optimizer_config =
  oc_indexing_threshold :: nat
  oc_memmap_threshold :: "nat option"

definition optimizer_config_default :: optimizer_config where
  "optimizer_config_default = \<lparr>oc_indexing_threshold = 20000, oc_memmap_threshold = None\<rparr>"

record collection_config =
  cc_dimension :: nat
  cc_distance :: distance
  cc_hnsw_config :: "hnsw_config option"
  cc_quantization_config :: "quantization_config option"
  cc_optimizer_config :: "optimizer_config option"

definition collection_config_new :: "nat \<Rightarrow> collection_config" where
  "collection_config_new dimension =
     \<lparr>cc_dimension = dimension, cc_distance = Cosine, cc_hnsw_config = Some hnsw_config_default,
      cc_quantization_config = None, cc_optimizer_config = Some optimizer_config_default\<rparr>"

datatype with_payload = WpBool bool | WpInclude "string list" | WpExclude "string list"

record quantization_search_params =
  qs_ignore :: bool
  qs_rescore :: bool
  qs_oversampling :: f64

record search_params =
  sp_hnsw_ef :: "nat option"
  sp_exact :: bool
  sp_quantization :: "quantization_search_params option"

record search_request =
  sr_vector :: "f32 list"
  sr_limit :: nat
  sr_offset :: nat
  sr_score_threshold :: "f32 option"
  sr_with_payload :: "with_payload option"
  sr_with_vector :: bool
  sr_filter :: "filter_spec option"
  sr_params :: "search_params option"

definition search_request_new :: "f32 list \<Rightarrow> nat \<Rightarrow> search_request" where
  "search_request_new v limit =
     \<lparr>sr_vector = v, sr_limit = limit, sr_offset = 0, sr_score_threshold = None, sr_with_payload = None,
      sr_with_vector = False, sr_filter = None, sr_params = None\<rparr>"

record scored_vector =
  sv_id :: u64
  sv_score :: f32
  sv_vector :: "f32 list option"
  sv_payload :: "payload option"

subsection \<open>Distances\<close>

record f32_ops =
  fp_zero :: f32
  fp_add :: "f32 \<Rightarrow> f32 \<Rightarrow> f32"
  fp_sub :: "f32 \<Rightarrow> f32 \<Rightarrow> f32"
  fp_mul :: "f32 \<Rightarrow> f32 \<Rightarrow> f32"
  fp_abs :: "f32 \<Rightarrow> f32"
  fp_sqrt :: "f32 \<Rightarrow> f32"
  fp_sum :: "f32 list \<Rightarrow> f32"
  fp_cosine :: "f32 list \<Rightarrow> f32 list \<Rightarrow> f32 option"

definition distance_calculate :: "f32_ops \<Rightarrow> distance \<Rightarrow> f32 list \<Rightarrow> f32 list \<Rightarrow> f32 res" where
  "distance_calculate fp metric a b =
     (if length a \<noteq> length b then Inl (EInvalidDimension (length a) (length b))
      else
        (case metric of
           Euclidean \<Rightarrow>
             Inr (fp_sqrt fp
               (foldl (\<lambda>sum (x, y). let diff = fp_sub fp x y in fp_add fp sum (fp_mul fp diff diff))
                  (fp_zero fp) (zip a b)))
         | Cosine \<Rightarrow> ok_or (fp_cosine fp a b) EComputation
         | Dot \<Rightarrow> Inr (fp_sum fp (map (\<lambda>(x, y). fp_mul fp x y) (zip a b)))
         | Manhattan \<Rightarrow> Inr (fp_sum fp (map (\<lambda>(x, y). fp_abs fp (fp_sub fp x y)) (zip a b)))))"

lemma distance_calculate_length: "distance_calculate fp metric a b = Inr d \<Longrightarrow> length b = length a"
  by (simp add: distance_calculate_def split: if_splits)

subsection \<open>Operations on 64-bit floats\<close>

text \<open>The arithmetic is a parameter; signs, equality and literals are the bit patterns themselves.\<close>

record f64_ops =
  fd_add :: "f64 \<Rightarrow> f64 \<Rightarrow> f64"
  fd_sub :: "f64 \<Rightarrow> f64 \<Rightarrow> f64"
  fd_mul :: "f64 \<Rightarrow> f64 \<Rightarrow> f64"
  fd_div :: "f64 \<Rightarrow> f64 \<Rightarrow> f64"
  fd_sqrt :: "f64 \<Rightarrow> f64"
  fd_exp :: "f64 \<Rightarrow> f64"
  fd_log10 :: "f64 \<Rightarrow> f64"
  fd_sum :: "f64 list \<Rightarrow> f64"
  fd_of_nanos :: "nat \<Rightarrow> f64"

definition f64_neg :: "f64 \<Rightarrow> f64" where
  "f64_neg x = x XOR 0x8000000000000000"

definition f64_abs :: "f64 \<Rightarrow> f64" where
  "f64_abs x = x AND 0x7FFFFFFFFFFFFFFF"

definition f64_eq :: "f64 \<Rightarrow> f64 \<Rightarrow> bool" where
  "f64_eq x y \<longleftrightarrow> \<not> f64_is_nan x \<and> \<not> f64_is_nan y \<and> f64_rank x = f64_rank y"

text \<open>The literals 0.5, 1, 2, 8 and 10.\<close>

definition f64_half :: f64 where "f64_half = 0x3FE0000000000000"
definition f64_one :: f64 where "f64_one = 0x3FF0000000000000"
definition f64_two :: f64 where "f64_two = 0x4000000000000000"
definition f64_eight :: f64 where "f64_eight = 0x4020000000000000"
definition f64_ten :: f64 where "f64_ten = 0x4024000000000000"

text \<open>Durations are numbers of nanoseconds.\<close>

definition secs :: "nat \<Rightarrow> nat" where
  "secs n = n * 1000000000"

end
