(* ===== verification/Filters.thy ===== *)
theory Filters
  imports SearchTypes
begin

text \<open>
  The payload filters of \<open>src/src/filter.rs\<close>: \<open>FilterEvaluator\<close> with nested conditions, the lookup
  of a dotted key in a payload, and the value, integer, text and range matches.  The Unicode
  lower-casing of the standard library is the argument \<open>lower\<close>.
\<close>

subsection \<open>Strings\<close>

text \<open>\<open>s.split(c)\<close>: the parts between the separators, at least one.\<close>

fun split_on :: "char \<Rightarrow> string \<Rightarrow> string list" where
  "split_on c [] = [[]]"
| "split_on c (x # xs) =
     (if x = c then [] # split_on c xs
      else (case split_on c xs of [] \<Rightarrow> [[x]] | p # ps \<Rightarrow> (x # p) # ps))"

fun starts_with_str :: "string \<Rightarrow> string \<Rightarrow> bool" where
  "starts_with_str [] s = True"
| "starts_with_str (p # ps) [] = False"
| "starts_with_str (p # ps) (x # xs) = (p = x \<and> starts_with_str ps xs)"

fun contains_str :: "string \<Rightarrow> string \<Rightarrow> bool" where
  "contains_str p [] = (p = [])"
| "contains_str p (x # xs) = (starts_with_str p (x # xs) \<or> contains_str p xs)"

definition ends_with_str :: "string \<Rightarrow> string \<Rightarrow> bool" where
  "ends_with_str p s \<longleftrightarrow> starts_with_str (rev p) (rev s)"

text \<open>\<open>part.trim_end_matches("[]")\<close>: every trailing pair of brackets is taken off.\<close>

fun trim_rev_brackets :: "string \<Rightarrow> string" where
  "trim_rev_brackets (a # b # s) = (if a = CHR '']'' \<and> b = CHR ''['' then trim_rev_brackets s else a # b # s)"
| "trim_rev_brackets s = s"

definition trim_end_brackets :: "string \<Rightarrow> string" where
  "trim_end_brackets s = rev (trim_rev_brackets (rev s))"

subsection \<open>Looking up a dotted key\<close>

text \<open>
  One loop over the parts for each of the two branches: \<open>current\<close> is \<open>None\<close> before the first part,
  which is looked up in the payload, and the value found so far afterwards.
\<close>

definition next_value :: "payload \<Rightarrow> bool \<Rightarrow> json option \<Rightarrow> string \<Rightarrow> json option" where
  "next_value payload first current part =
     (if first then hm_get payload part
      else (case current of None \<Rightarrow> None | Some v \<Rightarrow> json_get v part))"

fun dotted_loop :: "payload \<Rightarrow> bool \<Rightarrow> json option \<Rightarrow> string list \<Rightarrow> json option" where
  "dotted_loop payload first current [] = current"
| "dotted_loop payload first current (part # parts) =
     dotted_loop payload False (next_value payload first current part) parts"

fun projection_loop :: "payload \<Rightarrow> bool \<Rightarrow> json option \<Rightarrow> string list \<Rightarrow> json option" where
  "projection_loop payload first current [] = current"
| "projection_loop payload first current (part # parts) =
     (if ends_with_str ''[]'' part then next_value payload first current (trim_end_brackets part)
      else projection_loop payload False (next_value payload first current part) parts)"

definition get_nested_value :: "payload \<Rightarrow> string \<Rightarrow> json option" where
  "get_nested_value payload key =
     (if contains_str ''[]'' key then projection_loop payload True None (split_on (CHR ''.'') key)
      else dotted_loop payload True None (split_on (CHR ''.'') key))"

subsection \<open>Matching a value\<close>

definition evaluate_value_match :: "match_value \<Rightarrow> json \<Rightarrow> bool" where
  "evaluate_value_match mv v =
     (case mv of
        MvKeyword keyword \<Rightarrow>
          (case v of
             JString s \<Rightarrow> s = keyword
           | JArray arr \<Rightarrow> list_ex (\<lambda>x. json_as_str x = Some keyword) arr
           | _ \<Rightarrow> False)
      | MvInteger n \<Rightarrow>
          (case v of
             JNumber m \<Rightarrow> number_as_i64 m = Some n
           | JArray arr \<Rightarrow> list_ex (\<lambda>x. json_as_i64 x = Some n) arr
           | _ \<Rightarrow> False))"

definition bound_ok :: "(f64 \<Rightarrow> f64 \<Rightarrow> bool) \<Rightarrow> f64 option \<Rightarrow> f64 \<Rightarrow> bool" where
  "bound_ok test bound n = (case bound of None \<Rightarrow> True | Some b \<Rightarrow> test n b)"

definition evaluate_range :: "range \<Rightarrow> json \<Rightarrow> bool" where
  "evaluate_range r v =
     (case (case v of JNumber m \<Rightarrow> number_as_f64 m | _ \<Rightarrow> None) of
        None \<Rightarrow> False
      | Some n \<Rightarrow>
          bound_ok (\<lambda>x b. f64_less b x) (rg_gt r) n \<and> bound_ok (\<lambda>x b. f64_le b x) (rg_gte r) n \<and>
          bound_ok f64_less (rg_lt r) n \<and> bound_ok f64_le (rg_lte r) n)"

definition evaluate_match :: "(string \<Rightarrow> string) \<Rightarrow> match_cond \<Rightarrow> json \<Rightarrow> bool" where
  "evaluate_match lower m v =
     (case m of
        MatchValue mv \<Rightarrow> evaluate_value_match mv v
      | MatchInteger n \<Rightarrow> json_as_i64 v = Some n
      | MatchText t \<Rightarrow> (case json_as_str v of None \<Rightarrow> False | Some s \<Rightarrow> contains_str (lower t) (lower s))
      | MatchRange r \<Rightarrow> evaluate_range r v)"

definition evaluate_field_condition :: "(string \<Rightarrow> string) \<Rightarrow> field_condition \<Rightarrow> payload vector \<Rightarrow> bool" where
  "evaluate_field_condition lower c v =
     (case v_payload v of
        None \<Rightarrow> False
      | Some p \<Rightarrow>
          (case get_nested_value p (fc_key c) of
             None \<Rightarrow> False
           | Some x \<Rightarrow> evaluate_match lower (fc_match c) x))"

subsection \<open>Filters\<close>

text \<open>
  The three loops of \<open>matches\<close> over the conditions of one kind, each with the evaluation of a
  condition as an argument; a loop that returns at the first condition that fails (holds) decides
  \<open>list_all\<close> (\<open>list_ex\<close>).
\<close>

definition must_ok :: "(condition \<Rightarrow> bool) \<Rightarrow> condition list option \<Rightarrow> bool" where
  "must_ok eval cs = (case cs of None \<Rightarrow> True | Some l \<Rightarrow> list_all eval l)"

definition should_ok :: "(condition \<Rightarrow> bool) \<Rightarrow> condition list option \<Rightarrow> bool" where
  "should_ok eval cs = (case cs of None \<Rightarrow> True | Some l \<Rightarrow> l = [] \<or> list_ex eval l)"

definition must_not_ok :: "(condition \<Rightarrow> bool) \<Rightarrow> condition list option \<Rightarrow> bool" where
  "must_not_ok eval cs = (case cs of None \<Rightarrow> True | Some l \<Rightarrow> \<not> list_ex eval l)"

lemma condition_loops_cong [fundef_cong]:
  assumes "cs = cs'" and "\<And>l c. cs' = Some l \<Longrightarrow> c \<in> set l \<Longrightarrow> eval c = eval' c"
  shows "must_ok eval cs = must_ok eval' cs'" and "should_ok eval cs = should_ok eval' cs'"
    and "must_not_ok eval cs = must_not_ok eval' cs'"
  using assms by (auto simp: must_ok_def should_ok_def must_not_ok_def list_all_iff list_ex_iff split: option.splits)

fun filter_matches :: "(string \<Rightarrow> string) \<Rightarrow> filter_spec \<Rightarrow> u64 \<Rightarrow> payload vector \<Rightarrow> bool"
  and evaluate_condition :: "(string \<Rightarrow> string) \<Rightarrow> condition \<Rightarrow> u64 \<Rightarrow> payload vector \<Rightarrow> bool"
where
  "filter_matches lower (Filter must should must_not) vid v =
     (must_ok (\<lambda>c. evaluate_condition lower c vid v) must \<and>
      should_ok (\<lambda>c. evaluate_condition lower c vid v) should \<and>
      must_not_ok (\<lambda>c. evaluate_condition lower c vid v) must_not)"
| "evaluate_condition lower (CondField fc) vid v = evaluate_field_condition lower fc v"
| "evaluate_condition lower (CondFilter f) vid v = filter_matches lower f vid v"
| "evaluate_condition lower (CondHasId ids) vid v = (vid \<in> set ids)"

end
