(* ===== verification/FilterClaims.thy ===== *)
theory FilterClaims
  imports Filters
begin

text \<open>
  The lookup of a dotted key in a payload against a reference definition: a walk through nested
  objects along the parts of the key up to the first part that ends in a pair of brackets.
\<close>

fun json_path :: "json \<Rightarrow> string list \<Rightarrow> json option" where
  "json_path v [] = Some v"
| "json_path v (part # parts) = (case json_get v part of None \<Rightarrow> None | Some w \<Rightarrow> json_path w parts)"

fun used_parts :: "string list \<Rightarrow> string list" where
  "used_parts [] = []"
| "used_parts (part # parts) =
     (if ends_with_str ''[]'' part then [trim_end_brackets part] else part # used_parts parts)"

lemma dotted_loop_None [simp]: "dotted_loop payload False None parts = None"
  by (induction parts) (simp_all add: next_value_def)

lemma dotted_loop_Some: "dotted_loop payload False (Some v) parts = json_path v parts"
  by (induction parts arbitrary: v) (auto simp: next_value_def split: option.split)

lemma projection_loop_None [simp]: "projection_loop payload False None parts = None"
  by (induction parts) (simp_all add: next_value_def)

lemma projection_loop_Some: "projection_loop payload False (Some v) parts = json_path v (used_parts parts)"
  by (induction parts arbitrary: v) (auto simp: next_value_def split: option.split)

lemma dotted_loop_path: "parts \<noteq> [] \<Longrightarrow> dotted_loop payload True None parts = json_path (JObject payload) parts"
  by (cases parts) (auto simp: next_value_def json_get_def dotted_loop_Some split: option.split)

lemma projection_loop_path:
  "parts \<noteq> [] \<Longrightarrow> projection_loop payload True None parts = json_path (JObject payload) (used_parts parts)"
  by (cases parts) (auto simp: next_value_def json_get_def projection_loop_Some split: option.split)

lemma split_on_not_Nil [simp]: "split_on c s \<noteq> []"
  by (cases s) (auto split: list.split)

subsection \<open>Substrings\<close>

lemma starts_with_str_iff: "starts_with_str p s \<longleftrightarrow> (\<exists>t. s = p @ t)"
  by (induction p s rule: starts_with_str.induct) auto

lemma contains_str_iff: "contains_str p s \<longleftrightarrow> (\<exists>a b. s = a @ p @ b)"
proof (induction s)
  case (Cons x s)
  have "(\<exists>a b. x # s = a @ p @ b) \<longleftrightarrow> (\<exists>b. x # s = p @ b) \<or> (\<exists>a b. s = a @ p @ b)"
    by (metis append_Cons append_Nil list.exhaust list.inject)
  with Cons show ?case by (auto simp: starts_with_str_iff)
qed auto

lemma ends_with_str_iff: "ends_with_str p s \<longleftrightarrow> (\<exists>a. s = a @ p)"
  by (auto simp: ends_with_str_def starts_with_str_iff) (metis rev_append rev_rev_ident)

lemma split_on_part: "part \<in> set (split_on c s) \<Longrightarrow> \<exists>a b. s = a @ part @ b"
proof -
  have "(\<exists>b. s = hd (split_on c s) @ b) \<and> (\<forall>part \<in> set (tl (split_on c s)). \<exists>a b. s = a @ part @ b)"
  proof (induction s)
    case (Cons x s)
    obtain p ps where s: "split_on c s = p # ps" by (cases "split_on c s") simp_all
    obtain b where hd: "s = p @ b" and tl: "\<forall>part \<in> set ps. \<exists>a b. s = a @ part @ b" using Cons by (auto simp: s)
    have "\<exists>a b. x # s = a @ part @ b" if "part = p \<or> part \<in> set ps" for part
      using that hd tl by (metis append_Cons append_Nil)
    with hd s show ?case by auto
  qed simp
  moreover assume "part \<in> set (split_on c s)"
  ultimately show ?thesis by (cases "split_on c s") auto
qed

lemma used_parts_all: "\<forall>part \<in> set parts. \<not> ends_with_str ''[]'' part \<Longrightarrow> used_parts parts = parts"
  by (induction parts) auto

text \<open>
  C29.  For every key the lookup is the walk along its parts up to the first part that ends in brackets,
  whose brackets are taken off.  So a key without brackets is the path through nested objects, and
  in a key like \<open>items[].name\<close> everything after the brackets is ignored: the array itself is the value.
\<close>

theorem nested_key_lookup:
  "get_nested_value payload key = json_path (JObject payload) (used_parts (split_on (CHR ''.'') key))"
proof (cases "contains_str ''[]'' key")
  case True
  then show ?thesis by (simp add: get_nested_value_def projection_loop_path)
next
  case False
  have "\<not> ends_with_str ''[]'' part" if "part \<in> set (split_on (CHR ''.'') key)" for part
    using split_on_part [OF that] False unfolding contains_str_iff ends_with_str_iff by (metis append.assoc)
  then have "used_parts (split_on (CHR ''.'') key) = split_on (CHR ''.'') key" by (simp add: used_parts_all)
  with False show ?thesis by (simp add: get_nested_value_def dotted_loop_path)
qed

end
