(* ===== verification/Hnsw.thy ===== *)
theory Hnsw
  imports SearchTypes "HOL-Library.Product_Lexorder"
begin

text \<open>
  The graph index \<open>HNSWIndex\<close> of \<open>src/src/index/hnsw.rs\<close>: the search of one layer, insertion with
  its connections, removal, and the search from the top layer down.

  The level that \<open>random_level\<close> draws (at most 16) is an argument of an insertion.  A
  \<open>BinaryHeap\<close> of pairs of a distance and an id is the ascending list of its elements: the nearest
  candidate is popped from the front, the worst result from the end.  The elements of a heap have
  different ids, so the order of \<open>OrderedFloat\<close> and the ids leaves no ties.
\<close>

type_synonym layer = "(u64 \<times> u64 list) list"

record hnsw =
  hx_config :: hnsw_config
  hx_distance :: distance
  hx_layers :: "layer list"
  hx_max_layer :: nat
  hx_entry :: "u64 option"
  hx_vectors :: "(u64 \<times> payload vector) list"

definition hnsw_new :: "hnsw_config \<Rightarrow> distance \<Rightarrow> hnsw" where
  "hnsw_new config metric =
     \<lparr>hx_config = config, hx_distance = metric, hx_layers = [], hx_max_layer = 0, hx_entry = None,
      hx_vectors = []\<rparr>"

definition hnsw_distance :: "f32_ops \<Rightarrow> hnsw \<Rightarrow> f32 list \<Rightarrow> u64 \<Rightarrow> f32 option" where
  "hnsw_distance fp h a b_id =
     (case hm_get (hx_vectors h) b_id of
        None \<Rightarrow> None
      | Some b \<Rightarrow> (case distance_calculate fp (hx_distance h) a (v_data b) of Inl _ \<Rightarrow> None | Inr d \<Rightarrow> Some d))"

subsection \<open>The search of a layer\<close>

type_synonym scored_id = "f32 \<times> u64"

definition heap_key :: "scored_id \<Rightarrow> int \<times> u64" where
  "heap_key e = (of_rank (fst e), snd e)"

definition heap_push :: "scored_id \<Rightarrow> scored_id list \<Rightarrow> scored_id list" where
  "heap_push e heap = insort_key heap_key e heap"

record search_state =
  ss_visited :: "u64 set"
  ss_candidates :: "scored_id list"
  ss_results :: "scored_id list"

text \<open>One neighbour of the inner loop; \<open>dist\<close> is the distance of an id to the query.\<close>

definition visit_neighbor :: "(u64 \<Rightarrow> f32 option) \<Rightarrow> nat \<Rightarrow> u64 \<Rightarrow> search_state \<Rightarrow> search_state" where
  "visit_neighbor dist ef n s =
     (if n \<in> ss_visited s then s
      else
        (let s1 = s\<lparr>ss_visited := insert n (ss_visited s)\<rparr>
         in case dist n of
              None \<Rightarrow> s1
            | Some d \<Rightarrow>
                if length (ss_results s1) < ef then
                  s1\<lparr>ss_candidates := heap_push (d, n) (ss_candidates s1),
                     ss_results := heap_push (d, n) (ss_results s1)\<rparr>
                else if ss_results s1 \<noteq> [] \<and> of_rank d < of_rank (fst (last (ss_results s1))) then
                  s1\<lparr>ss_candidates := heap_push (d, n) (ss_candidates s1),
                     ss_results := heap_push (d, n) (butlast (ss_results s1))\<rparr>
                else s1))"

definition visit_neighbors :: "(u64 \<Rightarrow> f32 option) \<Rightarrow> nat \<Rightarrow> u64 list \<Rightarrow> search_state \<Rightarrow> search_state" where
  "visit_neighbors dist ef ns s = fold (visit_neighbor dist ef) ns s"

definition layer_neighbors :: "layer option \<Rightarrow> u64 \<Rightarrow> u64 list" where
  "layer_neighbors layer n =
     (case layer of None \<Rightarrow> []
      | Some edges \<Rightarrow> (case hm_get edges n of None \<Rightarrow> [] | Some ns \<Rightarrow> ns))"

text \<open>
  The loop pops the nearest candidate until none is left or the nearest is farther than the worst of
  enough results.  \<open>known\<close> are the ids that have a vector: each new candidate takes one of them out
  of the unvisited ones, so the candidates and the unvisited ids together get fewer in each turn.
\<close>

definition search_measure :: "u64 set \<Rightarrow> search_state \<Rightarrow> nat" where
  "search_measure known s = card (known - ss_visited s) + length (ss_candidates s)"

lemma length_heap_push [simp]: "length (heap_push e heap) = Suc (length heap)"
  by (simp add: heap_push_def)

text \<open>What a visit does to the visited ids and to the candidates.\<close>

lemma visit_neighbor_fields:
  "ss_visited (visit_neighbor dist ef n s) = insert n (ss_visited s)"
  "length (ss_candidates (visit_neighbor dist ef n s)) \<le>
     length (ss_candidates s) + (if n \<notin> ss_visited s \<and> dist n \<noteq> None then 1 else 0)"
  by (auto simp: visit_neighbor_def Let_def split: option.split)

lemma visit_neighbor_measure:
  assumes fin: "finite known" and known: "\<And>n. dist n \<noteq> None \<Longrightarrow> n \<in> known"
  shows "search_measure known (visit_neighbor dist ef n s) \<le> search_measure known s"
proof -
  note v = visit_neighbor_fields [of dist ef n s]
  show ?thesis
  proof (cases "n \<notin> ss_visited s \<and> dist n \<noteq> None")
    case True
    then have mem: "n \<in> known - ss_visited s" using known by auto
    have "known - insert n (ss_visited s) = (known - ss_visited s) - {n}" by auto
    then have "Suc (card (known - insert n (ss_visited s))) = card (known - ss_visited s)"
      using card.remove [OF _ mem] fin by simp
    with v True show ?thesis by (simp add: search_measure_def)
  next
    case False
    have "card (known - insert n (ss_visited s)) \<le> card (known - ss_visited s)"
      using fin by (intro card_mono) auto
    with v False show ?thesis by (simp add: search_measure_def split: if_splits)
  qed
qed

lemma visit_neighbors_measure:
  assumes "finite known" and "\<And>n. dist n \<noteq> None \<Longrightarrow> n \<in> known"
  shows "search_measure known (visit_neighbors dist ef ns s) \<le> search_measure known s"
  unfolding visit_neighbors_def
proof (induction ns arbitrary: s)
  case (Cons n ns)
  then show ?case
    using visit_neighbor_measure [of known dist ef n s, OF assms] by (fastforce intro: order_trans)
qed simp

function search_loop :: "f32_ops \<Rightarrow> hnsw \<Rightarrow> f32 list \<Rightarrow> layer option \<Rightarrow> nat \<Rightarrow> search_state \<Rightarrow> scored_id list" where
  "search_loop fp h query layer ef s =
     (case ss_candidates s of
        [] \<Rightarrow> ss_results s
      | (d, current) # cands \<Rightarrow>
          if ss_results s \<noteq> [] \<and> of_rank (fst (last (ss_results s))) < of_rank d \<and> ef \<le> length (ss_results s)
          then ss_results s
          else search_loop fp h query layer ef
                 (visit_neighbors (hnsw_distance fp h query) ef (layer_neighbors layer current)
                    (s\<lparr>ss_candidates := cands\<rparr>)))"
  by pat_completeness auto
termination
proof (relation "measure (\<lambda>(fp, h, query, layer, ef, s). search_measure (fst ` set (hx_vectors h)) s)", goal_cases)
  case 1
  then show ?case by simp
next
  case (2 fp h query layer ef s p cands d current)
  let ?known = "fst ` set (hx_vectors h)"
  have "hnsw_distance fp h query n \<noteq> None \<Longrightarrow> n \<in> ?known" for n
    by (metis hm_get_None_iff hnsw_distance_def option.case(1))
  then have "search_measure ?known (visit_neighbors (hnsw_distance fp h query) ef (layer_neighbors layer current)
      (s\<lparr>ss_candidates := cands\<rparr>)) \<le> search_measure ?known (s\<lparr>ss_candidates := cands\<rparr>)"
    by (intro visit_neighbors_measure) auto
  with 2 show ?case by (simp add: search_measure_def)
qed

declare search_loop.simps [simp del]

definition search_layer :: "f32_ops \<Rightarrow> hnsw \<Rightarrow> f32 list \<Rightarrow> u64 \<Rightarrow> nat \<Rightarrow> nat \<Rightarrow> scored_vector list" where
  "search_layer fp h query entry ef layer_idx =
     (let layer = (if layer_idx < length (hx_layers h) then Some (hx_layers h ! layer_idx) else None);
          start = (case hnsw_distance fp h query entry of
                     None \<Rightarrow> \<lparr>ss_visited = {}, ss_candidates = [], ss_results = []\<rparr>
                   | Some d \<Rightarrow> \<lparr>ss_visited = {entry}, ss_candidates = [(d, entry)], ss_results = [(d, entry)]\<rparr>)
      in map (\<lambda>(d, n). \<lparr>sv_id = n, sv_score = d, sv_vector = None, sv_payload = None\<rparr>)
           (search_loop fp h query layer ef start))"

definition select_neighbors :: "scored_vector list \<Rightarrow> nat \<Rightarrow> u64 list" where
  "select_neighbors candidates m = map sv_id (take m candidates)"

text \<open>Going down through layers with a single candidate each.\<close>

definition descend_step :: "f32_ops \<Rightarrow> hnsw \<Rightarrow> f32 list \<Rightarrow> nat \<Rightarrow> u64 \<Rightarrow> u64" where
  "descend_step fp h query layer_idx current =
     (case search_layer fp h query current 1 layer_idx of [] \<Rightarrow> current | first # _ \<Rightarrow> sv_id first)"

definition descend :: "f32_ops \<Rightarrow> hnsw \<Rightarrow> f32 list \<Rightarrow> nat list \<Rightarrow> u64 \<Rightarrow> u64" where
  "descend fp h query layers current = fold (descend_step fp h query) layers current"

subsection \<open>Operations\<close>

definition add_reverse_edge :: "u64 \<Rightarrow> u64 \<Rightarrow> layer \<Rightarrow> layer" where
  "add_reverse_edge vid neighbor edges =
     (case hm_get edges neighbor of
        None \<Rightarrow> edges
      | Some ns \<Rightarrow> if vid \<notin> set ns then hm_insert neighbor (ns @ [vid]) edges else edges)"

definition connect_layer :: "u64 \<Rightarrow> u64 list \<Rightarrow> layer \<Rightarrow> layer" where
  "connect_layer vid neighbors edges =
     fold (add_reverse_edge vid) neighbors (hm_insert vid neighbors edges)"

definition connect_step ::
  "f32_ops \<Rightarrow> u64 \<Rightarrow> f32 list \<Rightarrow> nat \<Rightarrow> u64 \<times> hnsw \<Rightarrow> u64 \<times> hnsw"
where
  "connect_step fp vid query layer_idx st =
     (let (current, h) = st;
          ef = (if layer_idx = 0 then hc_ef_construct (hx_config h) else hc_m (hx_config h));
          nearest = search_layer fp h query current ef layer_idx;
          neighbors = select_neighbors nearest (hc_m (hx_config h));
          h1 = (if layer_idx < length (hx_layers h)
                then h\<lparr>hx_layers := (hx_layers h)[layer_idx := connect_layer vid neighbors (hx_layers h ! layer_idx)]\<rparr>
                else h)
      in ((case nearest of [] \<Rightarrow> current | first # _ \<Rightarrow> sv_id first), h1))"

definition hnsw_connect :: "f32_ops \<Rightarrow> nat \<Rightarrow> u64 \<Rightarrow> f32 list \<Rightarrow> hnsw \<Rightarrow> hnsw" where
  "hnsw_connect fp level vid query h =
     (case hx_entry h of
        None \<Rightarrow> h\<lparr>hx_entry := Some vid\<rparr>
      | Some entry \<Rightarrow>
          (let current = descend fp h query (rev [level + 1..<length (hx_layers h)]) entry
           in snd (fold (connect_step fp vid query) (rev [0..<Suc (min level (length (hx_layers h) - 1))]) (current, h))))"

definition hnsw_add :: "f32_ops \<Rightarrow> nat \<Rightarrow> u64 \<Rightarrow> payload vector \<Rightarrow> hnsw \<Rightarrow> hnsw" where
  "hnsw_add fp level vid v h =
     (let h1 = h\<lparr>hx_layers := hx_layers h @ replicate (Suc level - length (hx_layers h)) [],
                 hx_vectors := hm_insert vid v (hx_vectors h)\<rparr>;
          h2 = hnsw_connect fp level vid (v_data v) h1
      in if level > hx_max_layer h2 then h2\<lparr>hx_max_layer := level, hx_entry := Some vid\<rparr> else h2)"

definition hnsw_remove :: "u64 \<Rightarrow> hnsw \<Rightarrow> hnsw" where
  "hnsw_remove vid h =
     h\<lparr>hx_layers := map (\<lambda>edges. map (\<lambda>(k, ns). (k, filter (\<lambda>e. e \<noteq> vid) ns)) (hm_remove vid edges)) (hx_layers h),
       hx_vectors := hm_remove vid (hx_vectors h)\<rparr>"

definition hnsw_search :: "f32_ops \<Rightarrow> search_request \<Rightarrow> hnsw \<Rightarrow> scored_vector list" where
  "hnsw_search fp request h =
     (case hx_entry h of
        None \<Rightarrow> []
      | Some entry \<Rightarrow>
          (let query = sr_vector request;
               ef = (case sr_params request of None \<Rightarrow> hc_ef (hx_config h)
                     | Some p \<Rightarrow> (case sp_hnsw_ef p of None \<Rightarrow> hc_ef (hx_config h) | Some e \<Rightarrow> e));
               current = descend fp h query (rev [1..<length (hx_layers h)]) entry
           in take (sr_limit request) (search_layer fp h query current (max ef (sr_limit request)) 0)))"

definition hnsw_len :: "hnsw \<Rightarrow> nat" where
  "hnsw_len h = length (hx_vectors h)"

definition hnsw_is_empty :: "hnsw \<Rightarrow> bool" where
  "hnsw_is_empty h \<longleftrightarrow> hx_vectors h = []"

text \<open>\<open>build\<close>, with the level drawn for each vector.\<close>

fun hnsw_build :: "f32_ops \<Rightarrow> (nat \<times> u64 \<times> payload vector) list \<Rightarrow> hnsw \<Rightarrow> hnsw" where
  "hnsw_build fp [] h = h"
| "hnsw_build fp ((level, vid, v) # vs) h = hnsw_build fp vs (hnsw_add fp level vid v h)"

end
