(* ===== verification/HnswProps.thy ===== *)
theory HnswProps
  imports Hnsw "HOL-Library.Multiset"
begin

text \<open>
  Properties of the graph index: what the search of a layer returns (the results are locally optimal
  in the graph), the bound on its turns, the invariant of the graph under insertion and removal, and
  what becomes of the entry point.
\<close>

subsection \<open>Heaps\<close>

lemma set_heap_push [simp]: "set (heap_push e heap) = insert e (set heap)"
  by (simp add: heap_push_def set_insort_key)

lemma heap_push_not_Nil [simp]: "heap_push e heap \<noteq> []"
  using length_heap_push [of e heap] by force

lemma sorted_heap_push [simp]: "sorted (map heap_key heap) \<Longrightarrow> sorted (map heap_key (heap_push e heap))"
  by (simp add: heap_push_def sorted_insort_key)

lemma distinct_heap_push:
  "snd e \<notin> snd ` set heap \<Longrightarrow> distinct (map snd heap) \<Longrightarrow> distinct (map snd (heap_push e heap))"
proof -
  assume "snd e \<notin> snd ` set heap" and d: "distinct (map snd heap)"
  then have "distinct (map snd (e # heap))" by simp
  moreover have "mset (heap_push e heap) = mset (e # heap)"
    by (simp add: heap_push_def mset_insort)
  then have "mset (map snd (heap_push e heap)) = mset (map snd (e # heap))" by (simp only: mset_map)
  ultimately show ?thesis by (metis mset_eq_imp_distinct_iff)
qed

lemma sorted_last_rank:
  "sorted (map heap_key heap) \<Longrightarrow> e \<in> set heap \<Longrightarrow> of_rank (fst e) \<le> of_rank (fst (last heap))"
proof -
  assume s: "sorted (map heap_key heap)" and e: "e \<in> set heap"
  then obtain i where i: "i < length heap" "e = heap ! i" by (auto simp: in_set_conv_nth)
  then have "map heap_key heap ! i \<le> map heap_key heap ! (length heap - 1)"
    by (intro sorted_nth_mono [OF s]) auto
  moreover have "heap \<noteq> []" using e by auto
  ultimately have "heap_key e \<le> heap_key (last heap)" using i by (simp add: last_conv_nth)
  then show ?thesis by (auto simp: heap_key_def less_eq_prod_def)
qed

lemma sorted_hd_rank:
  "sorted (map heap_key (x # heap)) \<Longrightarrow> e \<in> set (x # heap) \<Longrightarrow> of_rank (fst x) \<le> of_rank (fst e)"
  by (auto simp: heap_key_def less_eq_prod_def)

lemma sorted_butlast_map: "sorted (map f xs) \<Longrightarrow> sorted (map f (butlast xs))"
  by (simp add: map_butlast sorted_butlast)

lemma set_butlast_last: "xs \<noteq> [] \<Longrightarrow> set xs = insert (last xs) (set (butlast xs))"
  by (metis append_butlast_last_id list.simps(15) rotate1.simps(2) set_rotate1 append_Nil rev.simps(2) set_append Un_insert_right list.set(1) sup_bot.right_neutral)

subsection \<open>The search of a layer\<close>

text \<open>
  Every element of the heaps is a visited id with its distance; the results are in ascending order
  without repetition, at most \<open>ef\<close> (or one); a visited id that is not among them is not nearer than
  the worst of at least \<open>ef\<close> results; and each result is still a candidate or expanded.
\<close>

definition scored_ok :: "(u64 \<Rightarrow> f32 option) \<Rightarrow> u64 set \<Rightarrow> scored_id list \<Rightarrow> bool" where
  "scored_ok dist visited es \<longleftrightarrow> (\<forall>(d, n) \<in> set es. dist n = Some d \<and> n \<in> visited) \<and> sorted (map heap_key es)"

definition worst_bound :: "nat \<Rightarrow> scored_id list \<Rightarrow> f32 \<Rightarrow> bool" where
  "worst_bound ef rs d \<longleftrightarrow> rs \<noteq> [] \<and> ef \<le> length rs \<and> of_rank (fst (last rs)) \<le> of_rank d"

definition search_inv :: "(u64 \<Rightarrow> f32 option) \<Rightarrow> nat \<Rightarrow> u64 set \<Rightarrow> search_state \<Rightarrow> bool" where
  "search_inv dist ef expanded s \<longleftrightarrow>
     scored_ok dist (ss_visited s) (ss_results s) \<and> scored_ok dist (ss_visited s) (ss_candidates s) \<and>
     distinct (map snd (ss_results s)) \<and> ss_results s \<noteq> [] \<and> length (ss_results s) \<le> max ef 1 \<and>
     (\<forall>n \<in> ss_visited s. \<forall>d. dist n = Some d \<longrightarrow> (d, n) \<in> set (ss_results s) \<or> worst_bound ef (ss_results s) d) \<and>
     (\<forall>e \<in> set (ss_results s). e \<in> set (ss_candidates s) \<or> snd e \<in> expanded)"

lemma worst_bound_replace:
  assumes sorted: "sorted (map heap_key rs)" and ne: "rs \<noteq> []" and full: "ef \<le> length rs"
    and less: "of_rank d < of_rank (fst (last rs))"
  shows "worst_bound ef rs x \<Longrightarrow> worst_bound ef (heap_push (d, n) (butlast rs)) x"
    and "worst_bound ef (heap_push (d, n) (butlast rs)) (fst (last rs))"
proof -
  let ?rs = "heap_push (d, n) (butlast rs)"
  have len: "length ?rs = length rs" using ne by (cases rs) auto
  have "last ?rs \<in> set ?rs" by (rule last_in_set) simp
  then have "last ?rs = (d, n) \<or> last ?rs \<in> set rs" by (auto dest: in_set_butlastD)
  then have "of_rank (fst (last ?rs)) \<le> of_rank (fst (last rs))"
    using less sorted_last_rank [OF sorted, of "last ?rs"] by auto
  then show "worst_bound ef rs x \<Longrightarrow> worst_bound ef ?rs x" "worst_bound ef ?rs (fst (last rs))"
    using len full by (auto simp: worst_bound_def)
qed

lemma visit_neighbor_inv:
  assumes inv: "search_inv dist ef X s"
  shows "search_inv dist ef X (visit_neighbor dist ef n s)"
proof -
  consider "n \<in> ss_visited s" | "n \<notin> ss_visited s" "dist n = None"
    | d where "n \<notin> ss_visited s" "dist n = Some d" "length (ss_results s) < ef"
    | d where "n \<notin> ss_visited s" "dist n = Some d" "ef \<le> length (ss_results s)" "of_rank d < of_rank (fst (last (ss_results s)))"
    | d where "n \<notin> ss_visited s" "dist n = Some d" "ef \<le> length (ss_results s)" "of_rank (fst (last (ss_results s))) \<le> of_rank d"
    by (meson not_le_imp_less not_Some_eq)
  then show ?thesis
  proof cases
    case 1
    with inv show ?thesis by (simp add: visit_neighbor_def)
  next
    case 2
    with inv show ?thesis by (auto simp: visit_neighbor_def Let_def search_inv_def scored_ok_def)
  next
    case (3 d)
    have new: "n \<notin> snd ` set (ss_results s)" using inv 3(1) by (auto simp: search_inv_def scored_ok_def)
    have nb: "\<not> worst_bound ef (ss_results s) x" for x using 3(3) by (simp add: worst_bound_def)
    show ?thesis using inv 3 new nb
      by (auto simp: visit_neighbor_def Let_def search_inv_def scored_ok_def distinct_heap_push)
  next
    case (4 d)
    let ?rs = "heap_push (d, n) (butlast (ss_results s))"
    have ne: "ss_results s \<noteq> []" and sorted: "sorted (map heap_key (ss_results s))"
      using inv by (auto simp: search_inv_def scored_ok_def)
    have "n \<notin> snd ` set (ss_results s)" using inv 4(1) by (auto simp: search_inv_def scored_ok_def)
    moreover have "set (butlast (ss_results s)) \<subseteq> set (ss_results s)" by (auto dest: in_set_butlastD)
    ultimately have new: "n \<notin> snd ` set (butlast (ss_results s))" by blast
    have dist: "distinct (map snd (butlast (ss_results s)))"
      using inv by (simp add: search_inv_def map_butlast distinct_butlast)
    have len: "length ?rs = length (ss_results s)" using ne by (cases "ss_results s") auto
    note wb = worst_bound_replace [OF sorted ne 4(3, 4), where n = n]
    have old: "(x, m) \<in> set ?rs \<or> worst_bound ef ?rs x" if "m \<in> ss_visited s" "dist m = Some x" for m x
    proof -
      have "(x, m) \<in> set (ss_results s) \<or> worst_bound ef (ss_results s) x" using inv that by (simp add: search_inv_def)
      then consider "(x, m) = last (ss_results s)" | "(x, m) \<in> set (butlast (ss_results s))"
        | "worst_bound ef (ss_results s) x"
        using set_butlast_last [OF ne] by blast
      then show ?thesis
      proof cases
        case 1
        then have "fst (last (ss_results s)) = x" by (metis fst_conv)
        then show ?thesis using wb(2) by simp
      qed (use wb(1) in auto)
    qed
    show ?thesis
      using inv 4 ne sorted new dist len old
      by (auto simp: visit_neighbor_def Let_def search_inv_def scored_ok_def distinct_heap_push sorted_butlast_map
          dest: in_set_butlastD)
  next
    case (5 d)
    with inv show ?thesis
      by (auto simp: visit_neighbor_def Let_def search_inv_def scored_ok_def worst_bound_def)
  qed
qed

lemma visit_neighbors_inv:
  "search_inv dist ef X s \<Longrightarrow> search_inv dist ef X (visit_neighbors dist ef ns s)"
  "ss_visited (visit_neighbors dist ef ns s) = ss_visited s \<union> set ns"
  unfolding visit_neighbors_def
  by (induction ns arbitrary: s) (auto simp: visit_neighbor_inv visit_neighbor_fields)

text \<open>What a list of results of a search with neighbours \<open>next\<close> promises.\<close>

definition locally_optimal ::
  "(u64 \<Rightarrow> f32 option) \<Rightarrow> (u64 \<Rightarrow> u64 list) \<Rightarrow> nat \<Rightarrow> scored_id list \<Rightarrow> bool"
where
  "locally_optimal dist next ef rs \<longleftrightarrow>
     rs \<noteq> [] \<and> length rs \<le> max ef 1 \<and> distinct (map snd rs) \<and> sorted (map heap_key rs) \<and>
     (\<forall>(d, n) \<in> set rs. dist n = Some d) \<and>
     (\<forall>(d, n) \<in> set rs. \<forall>m \<in> set (next n). \<forall>x. dist m = Some x \<longrightarrow> (x, m) \<in> set rs \<or> worst_bound ef rs x)"

lemma search_inv_optimal:
  assumes inv: "search_inv dist ef X s" and closed: "\<forall>n \<in> X. set (next n) \<subseteq> ss_visited s"
    and fin: "\<forall>e \<in> set (ss_results s). e \<notin> set (ss_candidates s)"
  shows "locally_optimal dist next ef (ss_results s)"
proof -
  have "(x, m) \<in> set (ss_results s) \<or> worst_bound ef (ss_results s) x"
    if "(d, n) \<in> set (ss_results s)" "m \<in> set (next n)" "dist m = Some x" for d n m x
  proof -
    have "n \<in> X" using inv fin that(1) by (force simp: search_inv_def)
    then have "m \<in> ss_visited s" using closed that(2) by blast
    with inv that(3) show ?thesis by (simp add: search_inv_def)
  qed
  with inv show ?thesis by (auto simp: locally_optimal_def search_inv_def scored_ok_def)
qed

lemma search_loop_optimal:
  assumes "search_inv (hnsw_distance fp h query) ef X s" and "\<forall>n \<in> X. set (layer_neighbors layer n) \<subseteq> ss_visited s"
  shows "locally_optimal (hnsw_distance fp h query) (layer_neighbors layer) ef (search_loop fp h query layer ef s)"
  using assms
proof (induction fp h query layer ef s arbitrary: X rule: search_loop.induct)
  case (1 fp h query layer ef s)
  let ?dist = "hnsw_distance fp h query" and ?next = "layer_neighbors layer"
  show ?case
  proof (cases "ss_candidates s")
    case Nil
    then show ?thesis
      using search_inv_optimal [OF "1.prems"] by (simp add: search_loop.simps [of fp h query layer ef s])
  next
    case (Cons c cands)
    obtain d current where c: "c = (d, current)" by force
    note cand = Cons [unfolded c]
    show ?thesis
    proof (cases "ss_results s \<noteq> [] \<and> of_rank (fst (last (ss_results s))) < of_rank d \<and> ef \<le> length (ss_results s)")
      case True
      have "e \<notin> set (ss_candidates s)" if e: "e \<in> set (ss_results s)" for e
      proof
        assume "e \<in> set (ss_candidates s)"
        then have "of_rank d \<le> of_rank (fst e)"
          using "1.prems"(1) sorted_hd_rank [of "(d, current)" cands e] by (simp add: cand search_inv_def scored_ok_def)
        moreover have "of_rank (fst e) \<le> of_rank (fst (last (ss_results s)))"
          using "1.prems"(1) e by (auto simp: search_inv_def scored_ok_def intro: sorted_last_rank)
        ultimately show False using True by linarith
      qed
      with True search_inv_optimal [OF "1.prems"] show ?thesis
        by (simp add: search_loop.simps [of fp h query layer ef s] cand)
    next
      case False
      let ?s = "s\<lparr>ss_candidates := cands\<rparr>"
      let ?s' = "visit_neighbors ?dist ef (?next current) ?s"
      have "search_inv ?dist ef (insert current X) ?s"
        using "1.prems"(1) by (auto simp: search_inv_def scored_ok_def cand)
      then have inv': "search_inv ?dist ef (insert current X) ?s'" by (rule visit_neighbors_inv)
      have "\<forall>n \<in> insert current X. set (?next n) \<subseteq> ss_visited ?s'"
        using "1.prems"(2) by (auto simp: visit_neighbors_inv(2))
      from "1.IH" [OF cand refl False inv' this] show ?thesis
        unfolding search_loop.simps [of fp h query layer ef s] cand list.case prod.case if_not_P [OF False] .
    qed
  qed
qed

text \<open>The search of a layer from an entry that has a distance, and from one that has none.\<close>

definition layer_at :: "hnsw \<Rightarrow> nat \<Rightarrow> layer option" where
  "layer_at h l = (if l < length (hx_layers h) then Some (hx_layers h ! l) else None)"

definition scored_pairs :: "scored_vector list \<Rightarrow> scored_id list" where
  "scored_pairs rs = map (\<lambda>r. (sv_score r, sv_id r)) rs"

lemma search_layer_optimal:
  assumes "hnsw_distance fp h query entry = Some d"
  shows "locally_optimal (hnsw_distance fp h query) (layer_neighbors (layer_at h l)) ef
    (scored_pairs (search_layer fp h query entry ef l))"
proof -
  let ?s = "\<lparr>ss_visited = {entry}, ss_candidates = [(d, entry)], ss_results = [(d, entry)]\<rparr>"
  have "search_inv (hnsw_distance fp h query) ef {} ?s"
    using assms by (auto simp: search_inv_def scored_ok_def)
  from search_loop_optimal [OF this, of "layer_at h l"] show ?thesis
    using assms by (simp add: search_layer_def Let_def layer_at_def scored_pairs_def comp_def case_prod_unfold)
qed

lemma search_layer_none:
  "hnsw_distance fp h query entry = None \<Longrightarrow> search_layer fp h query entry ef l = []"
  by (simp add: search_layer_def search_loop.simps)

lemma search_layer_mem:
  assumes "r \<in> set (search_layer fp h query entry ef l)"
  shows "hnsw_distance fp h query (sv_id r) = Some (sv_score r)"
proof (cases "hnsw_distance fp h query entry")
  case None
  with assms show ?thesis by (simp add: search_layer_none)
next
  case (Some d)
  have "(sv_score r, sv_id r) \<in> set (scored_pairs (search_layer fp h query entry ef l))"
    using assms by (auto simp: scored_pairs_def)
  with search_layer_optimal [OF Some, of l ef] show ?thesis by (auto simp: locally_optimal_def)
qed

lemma hnsw_distance_stored: "hnsw_distance fp h query n = Some d \<Longrightarrow> hm_get (hx_vectors h) n \<noteq> None"
  by (auto simp: hnsw_distance_def split: option.splits)

subsection \<open>Going down and searching\<close>

lemma descend_distance:
  "hnsw_distance fp h query current \<noteq> None \<Longrightarrow> hnsw_distance fp h query (descend fp h query ls current) \<noteq> None"
  unfolding descend_def
proof (induction ls arbitrary: current)
  case (Cons l ls)
  have "hnsw_distance fp h query (descend_step fp h query l current) \<noteq> None"
  proof (cases "search_layer fp h query current 1 l")
    case Nil
    with Cons.prems show ?thesis by (simp add: descend_step_def)
  next
    case (Cons r rs)
    then show ?thesis using search_layer_mem [of r fp h query current 1 l] by (simp add: descend_step_def)
  qed
  then show ?case using Cons.IH by simp
qed simp

lemma descend_none:
  "hnsw_distance fp h query current = None \<Longrightarrow> descend fp h query ls current = current"
  unfolding descend_def by (induction ls) (simp_all add: descend_step_def search_layer_none)

definition search_ef :: "search_request \<Rightarrow> hnsw \<Rightarrow> nat" where
  "search_ef rq h =
     max (case sr_params rq of None \<Rightarrow> hc_ef (hx_config h)
          | Some p \<Rightarrow> (case sp_hnsw_ef p of None \<Rightarrow> hc_ef (hx_config h) | Some e \<Rightarrow> e)) (sr_limit rq)"

lemma hnsw_search_optimal:
  assumes "hx_entry h = Some e" and "hnsw_distance fp h (sr_vector rq) e \<noteq> None"
  shows "\<exists>rs. hnsw_search fp rq h = take (sr_limit rq) rs \<and>
    locally_optimal (hnsw_distance fp h (sr_vector rq)) (layer_neighbors (layer_at h 0)) (search_ef rq h) (scored_pairs rs)"
proof -
  let ?cur = "descend fp h (sr_vector rq) (rev [1..<length (hx_layers h)]) e"
  obtain d where "hnsw_distance fp h (sr_vector rq) ?cur = Some d"
    using descend_distance [OF assms(2)] by blast
  from search_layer_optimal [OF this, of 0 "search_ef rq h"] assms(1) show ?thesis
    by (intro exI [of _ "search_layer fp h (sr_vector rq) ?cur (search_ef rq h) 0"])
      (simp add: hnsw_search_def search_ef_def Let_def)
qed

lemma hnsw_search_none:
  assumes "hx_entry h = Some e" and "hm_get (hx_vectors h) e = None"
  shows "hnsw_search fp rq h = []"
proof -
  have none: "hnsw_distance fp h (sr_vector rq) e = None" using assms(2) by (simp add: hnsw_distance_def)
  show ?thesis using assms(1) by (simp add: hnsw_search_def Let_def descend_none [OF none] search_layer_none [OF none])
qed

lemma hnsw_search_mem:
  "r \<in> set (hnsw_search fp rq h) \<Longrightarrow> hnsw_distance fp h (sr_vector rq) (sv_id r) = Some (sv_score r)"
  by (auto simp: hnsw_search_def Let_def split: option.splits dest!: in_set_takeD intro: search_layer_mem)

lemma hnsw_search_distinct: "distinct (map sv_id (hnsw_search fp rq h))"
proof (cases "hx_entry h")
  case None
  then show ?thesis by (simp add: hnsw_search_def)
next
  case (Some e)
  show ?thesis
  proof (cases "hnsw_distance fp h (sr_vector rq) e")
    case None
    then have "descend fp h (sr_vector rq) ls e = e" for ls by (rule descend_none)
    with Some None show ?thesis by (simp add: hnsw_search_def Let_def search_layer_none)
  next
    case (Some d)
    with \<open>hx_entry h = Some e\<close> hnsw_search_optimal [of h e fp rq]
    obtain rs where "hnsw_search fp rq h = take (sr_limit rq) rs" "distinct (map snd (scored_pairs rs))"
      by (auto simp: locally_optimal_def)
    then show ?thesis by (simp add: scored_pairs_def comp_def distinct_take flip: take_map)
  qed
qed

subsection \<open>The invariant of the graph\<close>

lemma hm_get_map_values: "hm_get (map (\<lambda>(k, v). (k, f v)) m) k = map_option f (hm_get m k)"
  by (induction m) (auto simp: hm_get_def)

lemma hm_ok_map_values: "hm_ok m \<Longrightarrow> hm_ok (map (\<lambda>(k, v). (k, f v)) m)"
  by (simp add: hm_ok_def comp_def case_prod_unfold)

definition stored_ids :: "hnsw \<Rightarrow> u64 set" where
  "stored_ids h = fst ` set (hx_vectors h)"

definition layer_ok :: "u64 set \<Rightarrow> layer \<Rightarrow> bool" where
  "layer_ok ids edges \<longleftrightarrow>
     hm_ok edges \<and> (\<forall>k ns. hm_get edges k = Some ns \<longrightarrow> k \<in> ids \<and> set ns \<subseteq> ids \<and> distinct ns)"

definition graph_ok :: "hnsw \<Rightarrow> bool" where
  "graph_ok h \<longleftrightarrow> hm_ok (hx_vectors h) \<and> (\<forall>edges \<in> set (hx_layers h). layer_ok (stored_ids h) edges)"

lemma layer_ok_mono: "layer_ok ids edges \<Longrightarrow> ids \<subseteq> ids' \<Longrightarrow> layer_ok ids' edges"
  unfolding layer_ok_def by blast

lemma layer_ok_Nil [simp]: "layer_ok ids []"
  by (simp add: layer_ok_def)

lemma layer_ok_insert:
  "layer_ok ids edges \<Longrightarrow> k \<in> ids \<Longrightarrow> set ns \<subseteq> ids \<Longrightarrow> distinct ns \<Longrightarrow> layer_ok ids (hm_insert k ns edges)"
  by (simp add: layer_ok_def)

lemma add_reverse_edge_ok: "layer_ok ids edges \<Longrightarrow> vid \<in> ids \<Longrightarrow> layer_ok ids (add_reverse_edge vid n edges)"
  by (auto simp: add_reverse_edge_def split: option.split intro!: layer_ok_insert) (auto simp: layer_ok_def)

lemma connect_layer_ok:
  assumes "layer_ok ids edges" and "vid \<in> ids" and "set ns \<subseteq> ids" and "distinct ns"
  shows "layer_ok ids (connect_layer vid ns edges)"
proof -
  have "layer_ok ids (fold (add_reverse_edge vid) xs es)" if "layer_ok ids es" for xs es
    using that assms(2) by (induction xs arbitrary: es) (simp_all add: add_reverse_edge_ok)
  then show ?thesis unfolding connect_layer_def using assms by (simp add: layer_ok_insert)
qed

lemma select_neighbors_ok:
  "set (select_neighbors (search_layer fp h query entry ef l) m) \<subseteq> stored_ids h"
  "distinct (select_neighbors (search_layer fp h query entry ef l) m)"
proof -
  let ?rs = "search_layer fp h query entry ef l"
  show "set (select_neighbors ?rs m) \<subseteq> stored_ids h"
  proof
    fix n assume "n \<in> set (select_neighbors ?rs m)"
    then obtain r where "r \<in> set ?rs" "n = sv_id r" by (auto simp: select_neighbors_def dest: in_set_takeD)
    then have "hm_get (hx_vectors h) n \<noteq> None" using search_layer_mem hnsw_distance_stored by blast
    then show "n \<in> stored_ids h" by (simp add: hm_get_None_iff stored_ids_def)
  qed
  have "distinct (map sv_id ?rs)"
  proof (cases "hnsw_distance fp h query entry")
    case None
    then show ?thesis by (simp add: search_layer_none)
  next
    case (Some d)
    from search_layer_optimal [OF this, of l ef] show ?thesis
      by (simp add: locally_optimal_def scored_pairs_def comp_def)
  qed
  then show "distinct (select_neighbors ?rs m)" by (simp add: select_neighbors_def distinct_take flip: take_map)
qed

lemma connect_step_fields [simp]:
  "hx_vectors (snd (connect_step fp vid query l st)) = hx_vectors (snd st)"
  "hx_entry (snd (connect_step fp vid query l st)) = hx_entry (snd st)"
  "hx_max_layer (snd (connect_step fp vid query l st)) = hx_max_layer (snd st)"
  "length (hx_layers (snd (connect_step fp vid query l st))) = length (hx_layers (snd st))"
  by (simp_all add: connect_step_def Let_def split: prod.split)

lemma connect_step_ok:
  assumes "graph_ok (snd st)" and "vid \<in> stored_ids (snd st)"
  shows "graph_ok (snd (connect_step fp vid query l st))"
proof -
  obtain current h where st: "st = (current, h)" by force
  let ?ns = "select_neighbors (search_layer fp h query current
    (if l = 0 then hc_ef_construct (hx_config h) else hc_m (hx_config h)) l) (hc_m (hx_config h))"
  have "layer_ok (stored_ids h) (connect_layer vid ?ns (hx_layers h ! l))" if "l < length (hx_layers h)"
    using assms that by (intro connect_layer_ok select_neighbors_ok) (simp_all add: st graph_ok_def)
  with assms show ?thesis
    by (auto simp: st connect_step_def Let_def graph_ok_def stored_ids_def dest!: set_update_subset_insert [THEN subsetD])
qed

lemma connect_fold:
  "graph_ok (snd st) \<Longrightarrow> vid \<in> stored_ids (snd st) \<Longrightarrow> graph_ok (snd (fold (connect_step fp vid query) ls st))"
  "hx_vectors (snd (fold (connect_step fp vid query) ls st)) = hx_vectors (snd st)"
  "hx_entry (snd (fold (connect_step fp vid query) ls st)) = hx_entry (snd st)"
  "hx_max_layer (snd (fold (connect_step fp vid query) ls st)) = hx_max_layer (snd st)"
  by (induction ls arbitrary: st) (simp_all add: connect_step_ok stored_ids_def)

lemma hnsw_add_vectors: "hx_vectors (hnsw_add fp level vid v h) = hm_insert vid v (hx_vectors h)"
  by (simp add: hnsw_add_def Let_def hnsw_connect_def connect_fold(2) split: option.split)

lemma graph_ok_fields [simp]:
  "graph_ok (h\<lparr>hx_entry := e\<rparr>) = graph_ok h" "graph_ok (h\<lparr>hx_max_layer := n\<rparr>) = graph_ok h"
  "graph_ok (h\<lparr>hx_max_layer := n, hx_entry := e\<rparr>) = graph_ok h"
  by (simp_all add: graph_ok_def stored_ids_def)

lemma hnsw_connect_ok:
  assumes "graph_ok h" and "vid \<in> stored_ids h"
  shows "graph_ok (hnsw_connect fp level vid query h)"
proof (cases "hx_entry h")
  case None
  with assms show ?thesis by (simp add: hnsw_connect_def)
next
  case (Some e)
  then show ?thesis unfolding hnsw_connect_def option.case Some Let_def
    by (intro connect_fold(1)) (simp_all add: assms)
qed

lemma hnsw_add_ok:
  assumes "graph_ok h"
  shows "graph_ok (hnsw_add fp level vid v h)"
proof -
  let ?h1 = "h\<lparr>hx_layers := hx_layers h @ replicate (Suc level - length (hx_layers h)) [],
               hx_vectors := hm_insert vid v (hx_vectors h)\<rparr>"
  have ids: "stored_ids ?h1 = insert vid (stored_ids h)" by (simp add: stored_ids_def)
  have "graph_ok ?h1"
    using assms unfolding graph_ok_def ids by (auto intro: layer_ok_mono)
  then have "graph_ok (hnsw_connect fp level vid (v_data v) ?h1)"
    by (rule hnsw_connect_ok) (simp add: ids)
  then show ?thesis by (simp add: hnsw_add_def Let_def)
qed

lemma layer_ok_remove:
  assumes ok: "layer_ok ids edges"
  shows "layer_ok (ids - {vid}) (map (\<lambda>(k, ns). (k, filter (\<lambda>e. e \<noteq> vid) ns)) (hm_remove vid edges))"
  unfolding layer_ok_def
proof (intro conjI allI impI)
  show "hm_ok (map (\<lambda>(k, ns). (k, filter (\<lambda>e. e \<noteq> vid) ns)) (hm_remove vid edges))"
    using ok by (simp add: layer_ok_def hm_ok_map_values)
next
  fix k ns
  assume "hm_get (map (\<lambda>(k, ns). (k, filter (\<lambda>e. e \<noteq> vid) ns)) (hm_remove vid edges)) k = Some ns"
  then obtain ns' where "k \<noteq> vid" "hm_get edges k = Some ns'" and ns: "ns = filter (\<lambda>e. e \<noteq> vid) ns'"
    by (auto simp: hm_get_map_values split: if_splits)
  then have "k \<in> ids" "set ns' \<subseteq> ids" "distinct ns'" using ok unfolding layer_ok_def by blast+
  with \<open>k \<noteq> vid\<close> show "k \<in> ids - {vid}" "set ns \<subseteq> ids - {vid}" "distinct ns" by (auto simp: ns)
qed

lemma hnsw_remove_ok:
  assumes "graph_ok h"
  shows "graph_ok (hnsw_remove vid h)"
proof -
  have ids: "stored_ids (hnsw_remove vid h) = stored_ids h - {vid}"
    by (auto simp: stored_ids_def hnsw_remove_def hm_remove_def)
  show ?thesis using assms layer_ok_remove unfolding graph_ok_def ids by (auto simp: hnsw_remove_def)
qed

subsection \<open>The number of turns\<close>

text \<open>One turn of the loop, \<open>None\<close> when it stops, and the loop with a bound on its turns.\<close>

definition search_turn ::
  "f32_ops \<Rightarrow> hnsw \<Rightarrow> f32 list \<Rightarrow> layer option \<Rightarrow> nat \<Rightarrow> search_state \<Rightarrow> search_state option"
where
  "search_turn fp h query layer ef s =
     (case ss_candidates s of
        [] \<Rightarrow> None
      | (d, current) # cands \<Rightarrow>
          if ss_results s \<noteq> [] \<and> of_rank (fst (last (ss_results s))) < of_rank d \<and> ef \<le> length (ss_results s)
          then None
          else Some (visit_neighbors (hnsw_distance fp h query) ef (layer_neighbors layer current)
                 (s\<lparr>ss_candidates := cands\<rparr>)))"

lemma search_loop_turn:
  "search_loop fp h query layer ef s =
     (case search_turn fp h query layer ef s of None \<Rightarrow> ss_results s | Some s' \<Rightarrow> search_loop fp h query layer ef s')"
  by (subst search_loop.simps) (auto simp: search_turn_def split: list.split)

lemma search_turn_measure:
  assumes "search_turn fp h query layer ef s = Some s'"
  shows "search_measure (stored_ids h) s' < search_measure (stored_ids h) s"
proof -
  obtain d current cands where c: "ss_candidates s = (d, current) # cands"
    and s': "s' = visit_neighbors (hnsw_distance fp h query) ef (layer_neighbors layer current) (s\<lparr>ss_candidates := cands\<rparr>)"
    using assms by (auto simp: search_turn_def split: list.splits if_splits)
  have "n \<in> stored_ids h" if "hnsw_distance fp h query n \<noteq> None" for n
    using that hnsw_distance_stored by (fastforce simp: stored_ids_def hm_get_None_iff)
  then have "search_measure (stored_ids h) s' \<le> search_measure (stored_ids h) (s\<lparr>ss_candidates := cands\<rparr>)"
    unfolding s' by (intro visit_neighbors_measure) (auto simp: stored_ids_def)
  then show ?thesis by (simp add: search_measure_def c)
qed

fun search_run ::
  "nat \<Rightarrow> f32_ops \<Rightarrow> hnsw \<Rightarrow> f32 list \<Rightarrow> layer option \<Rightarrow> nat \<Rightarrow> search_state \<Rightarrow> scored_id list option"
where
  "search_run 0 fp h query layer ef s = None"
| "search_run (Suc n) fp h query layer ef s =
     (case search_turn fp h query layer ef s of
        None \<Rightarrow> Some (ss_results s)
      | Some s' \<Rightarrow> search_run n fp h query layer ef s')"

lemma search_run_enough:
  "search_measure (stored_ids h) s < n \<Longrightarrow>
     search_run n fp h query layer ef s = Some (search_loop fp h query layer ef s)"
proof (induction n arbitrary: s)
  case (Suc n)
  show ?case
  proof (cases "search_turn fp h query layer ef s")
    case None
    then show ?thesis by (simp add: search_loop_turn [of fp h query layer ef s])
  next
    case (Some s')
    then have "search_measure (stored_ids h) s' < n" using search_turn_measure [OF Some] Suc.prems by simp
    with Suc.IH Some show ?thesis by (simp add: search_loop_turn [of fp h query layer ef s])
  qed
qed simp

subsection \<open>An entry point without edges\<close>

definition no_edges_of :: "u64 \<Rightarrow> hnsw \<Rightarrow> bool" where
  "no_edges_of e h \<longleftrightarrow> (\<forall>edges \<in> set (hx_layers h). hm_get edges e = None)"

lemma no_edges_neighbors: "no_edges_of e h \<Longrightarrow> layer_neighbors (layer_at h l) e = []"
  by (simp add: no_edges_of_def layer_neighbors_def layer_at_def)

lemma search_layer_no_edges:
  assumes d: "hnsw_distance fp h query e = Some d" and iso: "no_edges_of e h"
  shows "search_layer fp h query e ef l = [\<lparr>sv_id = e, sv_score = d, sv_vector = None, sv_payload = None\<rparr>]"
  using d no_edges_neighbors [OF iso, of l]
  by (simp add: search_layer_def Let_def layer_at_def search_loop.simps visit_neighbors_def)

lemma search_layer_no_edges_cases:
  assumes "no_edges_of e h" and "r \<in> set (search_layer fp h query e ef l)"
  shows "sv_id r = e"
  using assms search_layer_no_edges [of fp h query e _ ef l] search_layer_none [of fp h query e ef l]
  by (cases "hnsw_distance fp h query e") auto

lemma descend_no_edges:
  assumes "no_edges_of e h"
  shows "descend fp h query ls e = e"
proof -
  have "descend_step fp h query l e = e" for l
    using search_layer_no_edges_cases [OF assms, of _ fp query 1 l] by (simp add: descend_step_def split: list.split)
  then show ?thesis unfolding descend_def by (induction ls) simp_all
qed

lemma add_reverse_edge_no_edges: "hm_get edges e = None \<Longrightarrow> hm_get (add_reverse_edge vid n edges) e = None"
  by (auto simp: add_reverse_edge_def split: option.split)

lemma connect_layer_no_edges:
  assumes "hm_get edges e = None" and "vid \<noteq> e"
  shows "hm_get (connect_layer vid ns edges) e = None"
proof -
  have "hm_get (fold (add_reverse_edge vid) xs es) e = None" if "hm_get es e = None" for xs es
    using that by (induction xs arbitrary: es) (simp_all add: add_reverse_edge_no_edges)
  with assms show ?thesis by (simp add: connect_layer_def)
qed

lemma connect_step_no_edges:
  "no_edges_of e (snd st) \<Longrightarrow> vid \<noteq> e \<Longrightarrow> no_edges_of e (snd (connect_step fp vid query l st))"
  by (auto simp: connect_step_def Let_def no_edges_of_def connect_layer_no_edges split: prod.split
      dest!: set_update_subset_insert [THEN subsetD])

lemma connect_fold_no_edges:
  "no_edges_of e (snd st) \<Longrightarrow> vid \<noteq> e \<Longrightarrow> no_edges_of e (snd (fold (connect_step fp vid query) ls st))"
  by (induction ls arbitrary: st) (simp_all add: connect_step_no_edges)

text \<open>Insertions of other ids on no higher level leave the entry point and its lack of edges.\<close>

definition entry_isolated :: "nat \<Rightarrow> u64 \<Rightarrow> hnsw \<Rightarrow> bool" where
  "entry_isolated level e h \<longleftrightarrow> hx_entry h = Some e \<and> no_edges_of e h \<and> level \<le> hx_max_layer h"

lemma hnsw_add_isolated:
  assumes iso: "entry_isolated lv e h" and "level \<le> lv" and "vid \<noteq> e"
  shows "entry_isolated lv e (hnsw_add fp level vid v h)"
    and "hm_get (hx_vectors (hnsw_add fp level vid v h)) e = hm_get (hx_vectors h) e"
proof -
  let ?h1 = "h\<lparr>hx_layers := hx_layers h @ replicate (Suc level - length (hx_layers h)) [],
               hx_vectors := hm_insert vid v (hx_vectors h)\<rparr>"
  let ?h2 = "hnsw_connect fp level vid (v_data v) ?h1"
  have "no_edges_of e ?h1" using iso by (auto simp: entry_isolated_def no_edges_of_def)
  then have "no_edges_of e ?h2"
    using iso assms(3) by (simp add: hnsw_connect_def Let_def connect_fold_no_edges entry_isolated_def del: upt_Suc)
  moreover have "hx_entry ?h2 = Some e" "hx_max_layer ?h2 = hx_max_layer h"
    using iso by (simp_all add: hnsw_connect_def Let_def connect_fold entry_isolated_def del: upt_Suc)
  ultimately show "entry_isolated lv e (hnsw_add fp level vid v h)"
    using iso assms(2) by (simp add: hnsw_add_def Let_def entry_isolated_def)
  show "hm_get (hx_vectors (hnsw_add fp level vid v h)) e = hm_get (hx_vectors h) e"
    using assms(3) by (simp add: hnsw_add_vectors)
qed

lemma hnsw_build_isolated:
  assumes "entry_isolated lv e h" and "\<forall>(level, vid, v) \<in> set vs. level \<le> lv \<and> vid \<noteq> e"
  shows "entry_isolated lv e (hnsw_build fp vs h)
    \<and> hm_get (hx_vectors (hnsw_build fp vs h)) e = hm_get (hx_vectors h) e"
  using assms
proof (induction fp vs h rule: hnsw_build.induct)
  case (2 fp level vid v vs h)
  have pre: "level \<le> lv" "vid \<noteq> e" and rest: "\<forall>(level, vid, v) \<in> set vs. level \<le> lv \<and> vid \<noteq> e"
    using "2.prems"(2) by auto
  note add = hnsw_add_isolated [OF "2.prems"(1) pre, where fp = fp and v = v]
  from "2.IH" [OF add(1) rest] add(2) show ?case by simp
qed simp

lemma hnsw_config_unchanged:
  "hx_config (hnsw_add fp level vid v h) = hx_config h" "hx_distance (hnsw_add fp level vid v h) = hx_distance h"
proof -
  have "hx_config (snd (connect_step fp vid q l st)) = hx_config (snd st)
    \<and> hx_distance (snd (connect_step fp vid q l st)) = hx_distance (snd st)" for q l st
    by (simp add: connect_step_def Let_def split: prod.split)
  then have "hx_config (snd (fold (connect_step fp vid q) ls st)) = hx_config (snd st)
    \<and> hx_distance (snd (fold (connect_step fp vid q) ls st)) = hx_distance (snd st)" for q ls st
    by (induction ls arbitrary: st) simp_all
  then show "hx_config (hnsw_add fp level vid v h) = hx_config h"
    and "hx_distance (hnsw_add fp level vid v h) = hx_distance h"
    by (simp_all add: hnsw_add_def Let_def hnsw_connect_def split: option.split del: upt_Suc)
qed

lemma hnsw_build_distance: "hx_distance (hnsw_build fp vs h) = hx_distance h"
  by (induction fp vs h rule: hnsw_build.induct) (simp_all add: hnsw_config_unchanged)

lemma hnsw_search_isolated:
  assumes iso: "entry_isolated lv e h"
  shows "hnsw_search fp rq h =
    (case hnsw_distance fp h (sr_vector rq) e of
       None \<Rightarrow> []
     | Some d \<Rightarrow> take (sr_limit rq) [\<lparr>sv_id = e, sv_score = d, sv_vector = None, sv_payload = None\<rparr>])"
  using iso search_layer_no_edges [of fp h "sr_vector rq" e] search_layer_none [of fp h "sr_vector rq" e]
  by (auto simp: entry_isolated_def hnsw_search_def Let_def descend_no_edges split: option.split)

lemma hnsw_add_first:
  "entry_isolated level vid (hnsw_add fp level vid v (hnsw_new config metric))"
  by (auto simp: hnsw_add_def Let_def hnsw_connect_def hnsw_new_def entry_isolated_def no_edges_of_def)

lemma hnsw_remove_isolated:
  "hx_entry h = Some e \<Longrightarrow> entry_isolated (hx_max_layer h) e (hnsw_remove e h)"
  by (auto simp: hnsw_remove_def entry_isolated_def no_edges_of_def hm_get_map_values)

end
