(* ===== verification/HnswClaims.thy ===== *)
theory HnswClaims
  imports HnswProps
begin

text \<open>
  The properties of the graph index, each with a witness on a small index over vectors of one
  component whose distance is the difference of the bit patterns.
\<close>

subsection \<open>Sequences of operations\<close>

datatype hnsw_op = HAdd nat u64 "payload vector" | HRemove u64

definition hnsw_apply :: "f32_ops \<Rightarrow> hnsw_op \<Rightarrow> hnsw \<Rightarrow> hnsw" where
  "hnsw_apply fp p h =
     (case p of HAdd level vid v \<Rightarrow> hnsw_add fp level vid v h | HRemove vid \<Rightarrow> hnsw_remove vid h)"

text \<open>The vectors a sequence of operations leaves.\<close>

definition op_effect :: "hnsw_op \<Rightarrow> (u64 \<Rightarrow> payload vector option) \<Rightarrow> u64 \<Rightarrow> payload vector option" where
  "op_effect p m = (case p of HAdd level vid v \<Rightarrow> m(vid \<mapsto> v) | HRemove vid \<Rightarrow> m(vid := None))"

lemma hnsw_apply_ok: "graph_ok h \<Longrightarrow> graph_ok (hnsw_apply fp p h)"
  by (cases p) (simp_all add: hnsw_apply_def hnsw_add_ok hnsw_remove_ok)

lemma hnsw_apply_vectors: "hm_get (hx_vectors (hnsw_apply fp p h)) = op_effect p (hm_get (hx_vectors h))"
  by (cases p) (auto simp: hnsw_apply_def op_effect_def hnsw_add_vectors hnsw_remove_def)

subsection \<open>A sample index\<close>

definition bits_fp :: f32_ops where
  "bits_fp = \<lparr>fp_zero = 0, fp_add = (+), fp_sub = (\<lambda>x y. if x < y then y - x else x - y), fp_mul = (*),
     fp_abs = (\<lambda>x. x), fp_sqrt = (\<lambda>x. x), fp_sum = (\<lambda>xs. fold (+) xs 0), fp_cosine = (\<lambda>_ _. None)\<rparr>"

definition point :: "u32 \<Rightarrow> payload vector" where
  "point x = \<lparr>v_data = [x], v_payload = None\<rparr>"

definition empty_index :: hnsw where
  "empty_index = hnsw_new hnsw_config_default Manhattan"

definition point_query :: search_request where
  "point_query = search_request_new [7] 3"

lemma bits_fp_calculate [simp]:
  "distance_calculate bits_fp Manhattan [x] [y] = Inr (if x < y then y - x else x - y)"
  by (simp add: distance_calculate_def bits_fp_def)

definition point_index :: hnsw where
  "point_index = hnsw_add bits_fp 0 1 (point 5) empty_index"

lemma point_index_fields:
  "hx_entry point_index = Some 1" "hx_vectors point_index = [(1, point 5)]" "hx_max_layer point_index = 0"
  by (simp_all add: point_index_def empty_index_def hnsw_add_def hnsw_connect_def hnsw_new_def Let_def)

lemma point_index_distance: "hnsw_distance bits_fp point_index [7] 1 = Some 2"
proof -
  have "hx_distance point_index = Manhattan"
    by (simp add: point_index_def empty_index_def hnsw_config_unchanged hnsw_new_def)
  then show ?thesis by (simp add: hnsw_distance_def point_index_fields hm_get_def point_def)
qed

subsection \<open>The search\<close>

text \<open>
  C13.  What a search returns.  When the entry point has a distance to the query, the results are the first
  \<open>limit\<close> of a list that is locally optimal in the bottom layer: nonempty, at most \<open>max(ef, limit)\<close>
  long, without repeated ids, in ascending order, each with its own distance to the query, and every
  neighbour of a listed id is listed itself unless the list is full and none of it is farther.
\<close>

theorem search_locally_optimal:
  assumes "hx_entry h = Some e" and "hnsw_distance fp h (sr_vector rq) e \<noteq> None"
  shows "\<exists>rs. hnsw_search fp rq h = take (sr_limit rq) rs \<and>
    locally_optimal (hnsw_distance fp h (sr_vector rq)) (layer_neighbors (layer_at h 0)) (search_ef rq h)
      (scored_pairs rs)"
  using assms by (rule hnsw_search_optimal)

theorem search_locally_optimal_witness:
  "\<exists>rs. hnsw_search bits_fp point_query point_index = take 3 rs \<and>
    locally_optimal (hnsw_distance bits_fp point_index [7]) (layer_neighbors (layer_at point_index 0)) 10
      (scored_pairs rs)"
proof -
  have q: "sr_vector point_query = [7]" "sr_limit point_query = 3"
    by (simp_all add: point_query_def search_request_new_def)
  have "hx_config point_index = hnsw_config_default"
    by (simp add: point_index_def empty_index_def hnsw_config_unchanged hnsw_new_def)
  then have ef: "search_ef point_query point_index = 10"
    by (simp add: search_ef_def point_query_def search_request_new_def hnsw_config_default_def)
  show ?thesis
    using search_locally_optimal [of point_index 1 bits_fp point_query]
    by (simp add: q ef point_index_fields point_index_distance)
qed

text \<open>
  C38.  The search of a layer ends: with at most one turn more than there are stored vectors the loop
  returns, whatever the edges are, also with cycles and with edges to ids that are no longer stored.
\<close>

theorem search_terminates:
  assumes "hnsw_distance fp h query e = Some d"
  shows "search_run (Suc (card (stored_ids h))) fp h query layer ef
      \<lparr>ss_visited = {e}, ss_candidates = [(d, e)], ss_results = [(d, e)]\<rparr>
    = Some (search_loop fp h query layer ef
        \<lparr>ss_visited = {e}, ss_candidates = [(d, e)], ss_results = [(d, e)]\<rparr>)"
proof (rule search_run_enough)
  have "e \<in> stored_ids h" using hnsw_distance_stored [OF assms] by (simp add: stored_ids_def hm_get_None_iff)
  moreover have "finite (stored_ids h)" by (simp add: stored_ids_def)
  ultimately have "Suc (card (stored_ids h - {e})) = card (stored_ids h)" by (rule card_Suc_Diff1 [rotated])
  then show "search_measure (stored_ids h) \<lparr>ss_visited = {e}, ss_candidates = [(d, e)], ss_results = [(d, e)]\<rparr>
      < Suc (card (stored_ids h))"
    by (simp add: search_measure_def)
qed

theorem search_terminates_witness:
  "search_run 2 bits_fp point_index [7] (Some [(1, [1, 2])]) 4
      \<lparr>ss_visited = {1}, ss_candidates = [(2, 1)], ss_results = [(2, 1)]\<rparr>
    = Some (search_loop bits_fp point_index [7] (Some [(1, [1, 2])]) 4
        \<lparr>ss_visited = {1}, ss_candidates = [(2, 1)], ss_results = [(2, 1)]\<rparr>)"
proof -
  have "card (stored_ids point_index) = 1" by (simp add: stored_ids_def point_index_fields)
  then show ?thesis
    using search_terminates [OF point_index_distance, of "Some [(1, [1, 2])]" 4] by (simp add: numeral_2_eq_2)
qed

subsection \<open>The graph\<close>

text \<open>
  C37.  After any sequence of insertions and removals the index stores exactly the vectors that the sequence
  leaves, and every layer of the graph has edges only from stored ids to stored ids, without
  repetition: a removal leaves no edge to the removed id.
\<close>

theorem graph_invariant:
  "graph_ok (fold (hnsw_apply fp) ps (hnsw_new config metric)) \<and>
   hm_get (hx_vectors (fold (hnsw_apply fp) ps (hnsw_new config metric))) = fold op_effect ps Map.empty"
proof -
  have "graph_ok (fold (hnsw_apply fp) ps h) \<and>
      hm_get (hx_vectors (fold (hnsw_apply fp) ps h)) = fold op_effect ps (hm_get (hx_vectors h))"
    if "graph_ok h" for h
    using that by (induction ps arbitrary: h) (simp_all add: hnsw_apply_ok hnsw_apply_vectors)
  moreover have "graph_ok (hnsw_new config metric)" by (simp add: graph_ok_def hnsw_new_def)
  moreover have "hm_get (hx_vectors (hnsw_new config metric)) = Map.empty" by (auto simp: hnsw_new_def)
  ultimately show ?thesis by metis
qed

text \<open>
  The first vector of an index gets no list of edges, so no later vector is linked from it.  While no
  later vector is drawn on a higher level, every search returns the first vector alone, however many
  and however near the others are.
\<close>

theorem first_vector_unlinked:
  assumes others: "\<forall>(level', vid, v') \<in> set vs. level' \<le> level \<and> vid \<noteq> e"
    and dist: "distance_calculate fp metric (sr_vector rq) (v_data v) = Inr d"
  shows "hnsw_search fp rq (hnsw_build fp ((level, e, v) # vs) (hnsw_new config metric)) =
    take (sr_limit rq) [\<lparr>sv_id = e, sv_score = d, sv_vector = None, sv_payload = None\<rparr>]"
proof -
  let ?first = "hnsw_add fp level e v (hnsw_new config metric)" and ?h = "hnsw_build fp ((level, e, v) # vs) (hnsw_new config metric)"
  have build: "entry_isolated level e ?h \<and> hm_get (hx_vectors ?h) e = hm_get (hx_vectors ?first) e"
    using hnsw_build_isolated [OF hnsw_add_first others] by simp
  have "hm_get (hx_vectors ?first) e = Some v" by (simp add: hnsw_add_vectors)
  with build have "hm_get (hx_vectors ?h) e = Some v" by metis
  then have "hnsw_distance fp ?h (sr_vector rq) e = Some d"
    using dist by (simp add: hnsw_distance_def hnsw_build_distance hnsw_config_unchanged) (simp add: hnsw_new_def)
  moreover have "entry_isolated level e ?h" using build by simp
  ultimately show ?thesis by (simp add: hnsw_search_isolated)
qed

theorem first_vector_unlinked_witness:
  "hnsw_search bits_fp point_query
     (hnsw_build bits_fp [(0, 1, point 5), (0, 2, point 7), (0, 3, point 8)] empty_index) =
   [\<lparr>sv_id = 1, sv_score = 2, sv_vector = None, sv_payload = None\<rparr>]"
  using first_vector_unlinked [of "[(0, 2, point 7), (0, 3, point 8)]" 0 1 bits_fp Manhattan
      point_query "point 5" 2 hnsw_config_default]
  by (simp add: point_query_def search_request_new_def point_def empty_index_def)

text \<open>
  Removing the vector at the entry point leaves the entry point at the removed id.  From then on every
  search is empty, also after further vectors are inserted, while none of them is drawn on a higher
  level or has the removed id.
\<close>

theorem removed_entry_blinds_search:
  assumes "hx_entry h = Some e" and "\<forall>(level, vid, v) \<in> set vs. level \<le> hx_max_layer h \<and> vid \<noteq> e"
  shows "hnsw_search fp rq (hnsw_build fp vs (hnsw_remove e h)) = []"
proof -
  note build = hnsw_build_isolated [OF hnsw_remove_isolated [OF assms(1)] assms(2), of fp]
  have "hm_get (hx_vectors (hnsw_remove e h)) e = None" by (simp add: hnsw_remove_def)
  then have "hnsw_distance fp (hnsw_build fp vs (hnsw_remove e h)) (sr_vector rq) e = None"
    using build by (simp add: hnsw_distance_def)
  moreover have "entry_isolated (hx_max_layer h) e (hnsw_build fp vs (hnsw_remove e h))" using build by blast
  ultimately show ?thesis by (simp add: hnsw_search_isolated)
qed

theorem removed_entry_blinds_search_witness:
  "hnsw_search bits_fp point_query
     (hnsw_build bits_fp [(0, 2, point 7), (0, 3, point 8)] (hnsw_remove 1 point_index)) = []"
  by (rule removed_entry_blinds_search) (simp_all add: point_index_fields)

end
