(* ===== verification/Collection.thy ===== *)
theory Collection
  imports Engine Filters Hnsw
begin

text \<open>
  Collections, \<open>src/src/collection/mod.rs\<close>: \<open>Collection\<close> over the storage engine, the graph index
  and the filters, and the \<open>CollectionManager\<close> over the directories of a data path.

  A collection's directory is the record \<open>coll_dir\<close>: the file \<open>config.json\<close>, the log and the level
  directories of its storage.  The JSON codec of the configuration, the clock and the level that the
  index draws for each vector are arguments.  \<open>None\<close> is a panic in the storage engine.  The locks
  and atomic counters are taken one operation at a time.
\<close>

record coll_dir =
  cd_config :: "string option"
  cd_wal :: dir
  cd_tables :: level_dirs

record 'm collection =
  co_name :: string
  co_config :: collection_config
  co_storage :: "'m engine"
  co_index :: hnsw
  co_next_id :: u64
  co_next_op :: u64

datatype operation_status = OpCompleted | OpPending | OpFailed string

record operation_info =
  oi_id :: u64
  oi_status :: operation_status

record retrieved_vector =
  rv_id :: u64
  rv_vector :: "f32 list"
  rv_payload :: "payload option"

record config_codec =
  jc_to_string :: "collection_config \<Rightarrow> string option"
  jc_from_str :: "string \<Rightarrow> collection_config option"

definition index_config :: "collection_config \<Rightarrow> hnsw_config" where
  "index_config cfg = (case cc_hnsw_config cfg of None \<Rightarrow> hnsw_config_default | Some h \<Rightarrow> h)"

subsection \<open>Creating and opening\<close>

text \<open>The configuration is written before the storage is opened, so that an error leaves it there.\<close>

definition collection_create ::
  "(payload, 'm) ext \<Rightarrow> config_codec \<Rightarrow> string \<Rightarrow> coll_dir \<Rightarrow> collection_config \<Rightarrow>
   ('m collection res \<times> coll_dir) option"
where
  "collection_create x json name cd cfg =
     (case jc_to_string json cfg of
        None \<Rightarrow> Some (Inl ESerialization, cd)
      | Some text \<Rightarrow>
          (let cd1 = cd\<lparr>cd_config := Some text\<rparr>
           in map_option
                (\<lambda>r. (and_then r (\<lambda>storage. Inr
                        \<lparr>co_name = name, co_config = cfg, co_storage = storage,
                         co_index = hnsw_new (index_config cfg) (cc_distance cfg),
                         co_next_id = 1, co_next_op = 1\<rparr>), cd1))
                (engine_open x storage_config_default (cd_wal cd1) (cd_tables cd1))))"

definition max_id :: "'p kv list \<Rightarrow> u64" where
  "max_id vectors = (if vectors = [] then 0 else Max (fst ` set vectors))"

definition with_levels :: "(nat \<Rightarrow> nat) \<Rightarrow> 'p kv list \<Rightarrow> (nat \<times> u64 \<times> 'p vector) list" where
  "with_levels draw vectors = map (\<lambda>(i, e). (draw i, e)) (enumerate 0 vectors)"

definition collection_open ::
  "(payload, 'm) ext \<Rightarrow> f32_ops \<Rightarrow> config_codec \<Rightarrow> (nat \<Rightarrow> nat) \<Rightarrow> string \<Rightarrow> coll_dir \<Rightarrow>
   'm collection res option"
where
  "collection_open x fp json draw name cd =
     (case cd_config cd of
        None \<Rightarrow> Some (Inl EIo)
      | Some text \<Rightarrow>
          (case jc_from_str json text of
             None \<Rightarrow> Some (Inl ESerialization)
           | Some cfg \<Rightarrow>
               (case engine_open x storage_config_default (cd_wal cd) (cd_tables cd) of
                  None \<Rightarrow> None
                | Some (Inl err) \<Rightarrow> Some (Inl err)
                | Some (Inr storage) \<Rightarrow>
                    map_option
                      (\<lambda>r. and_then r (\<lambda>vectors. Inr
                         \<lparr>co_name = name, co_config = cfg, co_storage = storage,
                          co_index = hnsw_build fp (with_levels draw vectors)
                            (hnsw_new (index_config cfg) (cc_distance cfg)),
                          co_next_id = max_id vectors + 1, co_next_op = 1\<rparr>))
                      (engine_scan x storage None None))))"

text \<open>What is on disk under a collection's path.\<close>

definition collection_dir :: "string \<Rightarrow> 'm collection \<Rightarrow> coll_dir" where
  "collection_dir text c =
     \<lparr>cd_config = Some text, cd_wal = wal_dir (en_wal (co_storage c)), cd_tables = en_disk (co_storage c)\<rparr>"

subsection \<open>Operations\<close>

definition vector_count :: "'m collection \<Rightarrow> u64" where
  "vector_count c = st_vector_count (engine_stats (co_storage c))"

definition finish_operation :: "'m collection \<Rightarrow> operation_info res \<times> 'm collection" where
  "finish_operation c = (Inr \<lparr>oi_id = co_next_op c, oi_status = OpCompleted\<rparr>, c\<lparr>co_next_op := co_next_op c + 1\<rparr>)"

text \<open>Each vector of a request comes with the clock and the level drawn when its turn comes.\<close>

type_synonym upsert_item = "u64 \<times> nat \<times> u64 \<times> payload vector"

fun upsert_loop ::
  "(payload, 'm) ext \<Rightarrow> f32_ops \<Rightarrow> upsert_item list \<Rightarrow> 'm collection \<Rightarrow> (unit res \<times> 'm collection) option"
where
  "upsert_loop x fp [] c = Some (Inr (), c)"
| "upsert_loop x fp ((now, level, vid, v) # items) c =
     (if vector_dim v \<noteq> cc_dimension (co_config c)
      then Some (Inl (EInvalidDimension (cc_dimension (co_config c)) (vector_dim v)), c)
      else
        (case engine_put x now vid v (co_storage c) of
           None \<Rightarrow> None
         | Some (Inl err, storage) \<Rightarrow> Some (Inl err, c\<lparr>co_storage := storage\<rparr>)
         | Some (Inr _, storage) \<Rightarrow>
             upsert_loop x fp items
               (c\<lparr>co_storage := storage,
                  co_index := hnsw_add fp level vid v (co_index c),
                  co_next_id := (if vid \<ge> co_next_id c then vid + 1 else co_next_id c)\<rparr>)))"

definition collection_upsert ::
  "(payload, 'm) ext \<Rightarrow> f32_ops \<Rightarrow> upsert_item list \<Rightarrow> 'm collection \<Rightarrow> (operation_info res \<times> 'm collection) option"
where
  "collection_upsert x fp items c =
     (case upsert_loop x fp items c of
        None \<Rightarrow> None
      | Some (Inl err, c1) \<Rightarrow> Some (Inl err, c1)
      | Some (Inr _, c1) \<Rightarrow> Some (finish_operation c1))"

definition collection_next_id :: "'m collection \<Rightarrow> u64 \<times> 'm collection" where
  "collection_next_id c = (co_next_id c, c\<lparr>co_next_id := co_next_id c + 1\<rparr>)"

text \<open>\<open>if let Ok(Some(v)) = self.storage.get(id)\<close>: the inner \<open>None\<close> is the other branch.\<close>

definition stored_value :: "(payload, 'm) ext \<Rightarrow> 'm engine \<Rightarrow> u64 \<Rightarrow> payload vector option option" where
  "stored_value x storage vid =
     map_option (\<lambda>r. case r of Inr (Some v) \<Rightarrow> Some v | _ \<Rightarrow> None) (engine_get x storage vid)"

fun retain_matching ::
  "(payload, 'm) ext \<Rightarrow> (string \<Rightarrow> string) \<Rightarrow> 'm engine \<Rightarrow> filter_spec \<Rightarrow> scored_vector list \<Rightarrow> scored_vector list option"
where
  "retain_matching x lower storage f [] = Some []"
| "retain_matching x lower storage f (r # rs) =
     (case stored_value x storage (sv_id r) of
        None \<Rightarrow> None
      | Some value \<Rightarrow>
          (let keep = (case value of None \<Rightarrow> False | Some v \<Rightarrow> filter_matches lower f (sv_id r) v)
           in map_option (\<lambda>rest. if keep then r # rest else rest) (retain_matching x lower storage f rs)))"

fun fetch_loop ::
  "(payload, 'm) ext \<Rightarrow> 'm engine \<Rightarrow> (payload vector \<Rightarrow> scored_vector \<Rightarrow> scored_vector) \<Rightarrow> scored_vector list \<Rightarrow>
   scored_vector list option"
where
  "fetch_loop x storage update [] = Some []"
| "fetch_loop x storage update (r # rs) =
     (case stored_value x storage (sv_id r) of
        None \<Rightarrow> None
      | Some value \<Rightarrow>
          map_option ((#) (case value of None \<Rightarrow> r | Some v \<Rightarrow> update v r)) (fetch_loop x storage update rs))"

definition fetch_payloads ::
  "(payload, 'm) ext \<Rightarrow> 'm engine \<Rightarrow> search_request \<Rightarrow> scored_vector list \<Rightarrow> scored_vector list option"
where
  "fetch_payloads x storage rq rs =
     (if sr_with_payload rq = Some (WpBool True)
      then fetch_loop x storage (\<lambda>v r. r\<lparr>sv_payload := v_payload v\<rparr>) rs else Some rs)"

definition fetch_vectors ::
  "(payload, 'm) ext \<Rightarrow> 'm engine \<Rightarrow> search_request \<Rightarrow> scored_vector list \<Rightarrow> scored_vector list option"
where
  "fetch_vectors x storage rq rs =
     (if sr_with_vector rq
      then fetch_loop x storage (\<lambda>v r. r\<lparr>sv_vector := Some (v_data v)\<rparr>) rs else Some rs)"

definition apply_filter ::
  "(payload, 'm) ext \<Rightarrow> (string \<Rightarrow> string) \<Rightarrow> 'm engine \<Rightarrow> search_request \<Rightarrow> scored_vector list \<Rightarrow> scored_vector list option"
where
  "apply_filter x lower storage rq rs =
     (case sr_filter rq of None \<Rightarrow> Some rs | Some f \<Rightarrow> retain_matching x lower storage f rs)"

definition finish_search ::
  "(payload, 'm) ext \<Rightarrow> (string \<Rightarrow> string) \<Rightarrow> 'm engine \<Rightarrow> search_request \<Rightarrow> scored_vector list \<Rightarrow> scored_vector list option"
where
  "finish_search x lower storage rq rs =
     (case apply_filter x lower storage rq rs of
        None \<Rightarrow> None
      | Some kept \<Rightarrow>
          (case fetch_payloads x storage rq (take (min (sr_limit rq) (length kept)) kept) of
             None \<Rightarrow> None
           | Some filled \<Rightarrow> fetch_vectors x storage rq filled))"

definition collection_search ::
  "(payload, 'm) ext \<Rightarrow> f32_ops \<Rightarrow> (string \<Rightarrow> string) \<Rightarrow> search_request \<Rightarrow> 'm collection \<Rightarrow> scored_vector list res option"
where
  "collection_search x fp lower rq c =
     (if length (sr_vector rq) \<noteq> cc_dimension (co_config c)
      then Some (Inl (EInvalidDimension (cc_dimension (co_config c)) (length (sr_vector rq))))
      else map_option Inr (finish_search x lower (co_storage c) rq (hnsw_search fp rq (co_index c))))"

definition collection_get ::
  "(payload, 'm) ext \<Rightarrow> u64 \<Rightarrow> 'm collection \<Rightarrow> retrieved_vector option res option"
where
  "collection_get x vid c =
     map_option (\<lambda>r. and_then r (\<lambda>value. Inr
         (map_option (\<lambda>v. \<lparr>rv_id = vid, rv_vector = v_data v, rv_payload = v_payload v\<rparr>) value)))
       (engine_get x (co_storage c) vid)"

fun delete_loop ::
  "(payload, 'm) ext \<Rightarrow> (u64 \<times> u64) list \<Rightarrow> 'm collection \<Rightarrow> (unit res \<times> 'm collection) option"
where
  "delete_loop x [] c = Some (Inr (), c)"
| "delete_loop x ((now, vid) # items) c =
     (case engine_delete x now vid (co_storage c) of
        None \<Rightarrow> None
      | Some (Inl err, storage) \<Rightarrow> Some (Inl err, c\<lparr>co_storage := storage\<rparr>)
      | Some (Inr _, storage) \<Rightarrow>
          delete_loop x items (c\<lparr>co_storage := storage, co_index := hnsw_remove vid (co_index c)\<rparr>))"

definition collection_delete ::
  "(payload, 'm) ext \<Rightarrow> (u64 \<times> u64) list \<Rightarrow> 'm collection \<Rightarrow> (operation_info res \<times> 'm collection) option"
where
  "collection_delete x items c =
     (case delete_loop x items c of
        None \<Rightarrow> None
      | Some (Inl err, c1) \<Rightarrow> Some (Inl err, c1)
      | Some (Inr _, c1) \<Rightarrow> Some (finish_operation c1))"

text \<open>\<open>get_all_vectors\<close> asks for every id in \<open>0..count * 2 + 1000\<close>, a bound that wraps as \<open>u64\<close>.\<close>

fun collect_ids :: "(payload, 'm) ext \<Rightarrow> 'm engine \<Rightarrow> nat list \<Rightarrow> payload kv list option" where
  "collect_ids x storage [] = Some []"
| "collect_ids x storage (i # is) =
     (case stored_value x storage (of_nat i) of
        None \<Rightarrow> None
      | Some value \<Rightarrow>
          map_option (\<lambda>rest. case value of None \<Rightarrow> rest | Some v \<Rightarrow> (of_nat i, v) # rest) (collect_ids x storage is))"

definition get_all_vectors :: "(payload, 'm) ext \<Rightarrow> 'm collection \<Rightarrow> payload kv list option" where
  "get_all_vectors x c =
     (if vector_count c = 0 then Some []
      else collect_ids x (co_storage c) [0..<unat (vector_count c * 2 + 1000)])"

subsection \<open>The manager\<close>

text \<open>
  \<open>mg_collections\<close> is the map of the open collections with the text of their configuration files;
  \<open>mg_other\<close> are the directories under the base path that were not opened.
\<close>

record 'm manager =
  mg_collections :: "(string \<times> string \<times> 'm collection) list"
  mg_other :: "(string \<times> coll_dir) list"

fun load_collections ::
  "(payload, 'm) ext \<Rightarrow> f32_ops \<Rightarrow> config_codec \<Rightarrow> (string \<Rightarrow> nat \<Rightarrow> nat) \<Rightarrow> (string \<times> coll_dir) list \<Rightarrow> 'm manager \<Rightarrow>
   'm manager option"
where
  "load_collections x fp json draw [] m = Some m"
| "load_collections x fp json draw ((name, cd) # dirs) m =
     (if name = [] then load_collections x fp json draw dirs (m\<lparr>mg_other := hm_insert name cd (mg_other m)\<rparr>)
      else
        (case collection_open x fp json (draw name) name cd of
           None \<Rightarrow> None
         | Some (Inl _) \<Rightarrow> load_collections x fp json draw dirs (m\<lparr>mg_other := hm_insert name cd (mg_other m)\<rparr>)
         | Some (Inr c) \<Rightarrow>
             load_collections x fp json draw dirs
               (m\<lparr>mg_collections := hm_insert name (the (cd_config cd), c) (mg_collections m)\<rparr>)))"

definition manager_new ::
  "(payload, 'm) ext \<Rightarrow> f32_ops \<Rightarrow> config_codec \<Rightarrow> (string \<Rightarrow> nat \<Rightarrow> nat) \<Rightarrow> (string \<times> coll_dir) list \<Rightarrow> 'm manager option"
where
  "manager_new x fp json draw dirs = load_collections x fp json draw dirs \<lparr>mg_collections = [], mg_other = []\<rparr>"

definition create_collection ::
  "(payload, 'm) ext \<Rightarrow> config_codec \<Rightarrow> string \<Rightarrow> collection_config \<Rightarrow> 'm manager \<Rightarrow> (unit res \<times> 'm manager) option"
where
  "create_collection x json name cfg m =
     (if hm_get (mg_collections m) name \<noteq> None then Some (Inl EStorage, m)
      else
        (let cd = (case hm_get (mg_other m) name of
                     None \<Rightarrow> \<lparr>cd_config = None, cd_wal = [], cd_tables = []\<rparr> | Some d \<Rightarrow> d)
         in map_option
              (\<lambda>(r, cd1).
                 case r of
                   Inl err \<Rightarrow> (Inl err, m\<lparr>mg_other := hm_insert name cd1 (mg_other m)\<rparr>)
                 | Inr c \<Rightarrow>
                     (Inr (), \<lparr>mg_collections = hm_insert name (the (cd_config cd1), c) (mg_collections m),
                               mg_other = hm_remove name (mg_other m)\<rparr>))
              (collection_create x json name cd cfg)))"

definition get_collection :: "string \<Rightarrow> 'm manager \<Rightarrow> 'm collection res" where
  "get_collection name m = ok_or (map_option snd (hm_get (mg_collections m) name)) (ECollectionNotFound name)"

definition delete_collection :: "string \<Rightarrow> 'm manager \<Rightarrow> unit res \<times> 'm manager" where
  "delete_collection name m =
     (Inr (), \<lparr>mg_collections = hm_remove name (mg_collections m), mg_other = hm_remove name (mg_other m)\<rparr>)"

definition list_collections :: "'m manager \<Rightarrow> string list" where
  "list_collections m = map fst (mg_collections m)"

definition has_collection :: "string \<Rightarrow> 'm manager \<Rightarrow> bool" where
  "has_collection name m \<longleftrightarrow> hm_get (mg_collections m) name \<noteq> None"

text \<open>The directories that a later start of the process finds.\<close>

definition manager_dirs :: "'m manager \<Rightarrow> (string \<times> coll_dir) list" where
  "manager_dirs m = map (\<lambda>(name, text, c). (name, collection_dir text c)) (mg_collections m) @ mg_other m"

text \<open>The manager after an operation on one of its collections, and the vectors of a request with their draws.\<close>

definition put_collection :: "string \<Rightarrow> 'm collection \<Rightarrow> 'm manager \<Rightarrow> 'm manager" where
  "put_collection name c m =
     (case hm_get (mg_collections m) name of
        None \<Rightarrow> m
      | Some (text, _) \<Rightarrow> m\<lparr>mg_collections := hm_insert name (text, c) (mg_collections m)\<rparr>)"

definition draw_vectors :: "(nat \<Rightarrow> u64 \<times> nat) \<Rightarrow> (u64 \<times> payload vector) list \<Rightarrow> upsert_item list" where
  "draw_vectors draw vs = map (\<lambda>(i, (vid, v)). (fst (draw i), snd (draw i), vid, v)) (enumerate 0 vs)"

end
