(* ===== verification/CollectionProps.thy ===== *)
theory CollectionProps
  imports Collection EngineClaims HnswProps
begin

text \<open>
  Properties of collections.  The locale \<open>vector_index\<close> states what a collection needs of its index
  (the trait \<open>VectorIndex\<close>); the steps of a search after the index has answered and the bound on the
  ids are proved inside it, and the graph index is its interpretation.
\<close>

subsection \<open>The interface of an index\<close>

locale vector_index =
  fixes add :: "nat \<Rightarrow> u64 \<Rightarrow> payload vector \<Rightarrow> 'i \<Rightarrow> 'i"
    and remove :: "u64 \<Rightarrow> 'i \<Rightarrow> 'i"
    and search :: "search_request \<Rightarrow> 'i \<Rightarrow> scored_vector list"
    and stored :: "'i \<Rightarrow> u64 \<Rightarrow> payload vector option"
  assumes stored_add: "stored (add level vid v i) = (stored i)(vid \<mapsto> v)"
    and stored_remove: "stored (remove vid i) = (stored i)(vid := None)"
    and search_stored: "r \<in> set (search rq i) \<Longrightarrow> stored i (sv_id r) \<noteq> None"
    and search_distinct: "distinct (map sv_id (search rq i))"
    and search_limit: "length (search rq i) \<le> sr_limit rq"
begin

text \<open>The ids of the index are below the next id.\<close>

definition ids_below :: "'i \<Rightarrow> u64 \<Rightarrow> bool" where
  "ids_below i next_id \<longleftrightarrow> (\<forall>k. stored i k \<noteq> None \<longrightarrow> k < next_id)"

lemma ids_below_add:
  assumes "ids_below i next_id" and "vid \<noteq> - 1"
  shows "ids_below (add level vid v i) (if vid \<ge> next_id then vid + 1 else next_id)"
  unfolding ids_below_def
proof (intro allI impI)
  fix k assume "stored (add level vid v i) k \<noteq> None"
  then consider "k = vid" | "k < next_id" using assms(1) by (auto simp: stored_add ids_below_def split: if_splits)
  then show "k < (if vid \<ge> next_id then vid + 1 else next_id)"
    using u64_less_inc [OF assms(2)] by cases auto
qed

lemma ids_below_remove: "ids_below i next_id \<Longrightarrow> ids_below (remove vid i) next_id"
  by (simp add: ids_below_def stored_remove)

lemma ids_below_fresh: "ids_below i next_id \<Longrightarrow> stored i next_id = None"
  by (meson ids_below_def less_irrefl)

text \<open>What a selection of the results keeps of the promises of the index.\<close>

lemma selection_promises:
  assumes "map sv_id rs = map sv_id (take n (filter P (search rq i)))"
  shows "distinct (map sv_id rs)" and "length rs \<le> sr_limit rq" and "r \<in> set rs \<Longrightarrow> stored i (sv_id r) \<noteq> None"
proof -
  have "distinct (map sv_id (filter P (search rq i)))" using search_distinct by (rule distinct_map_filter)
  then show "distinct (map sv_id rs)" unfolding assms by (simp add: distinct_take flip: take_map)
  have "length rs = length (take n (filter P (search rq i)))" using assms by (metis length_map)
  also have "\<dots> \<le> length (search rq i)" by (metis length_filter_le length_take min.coboundedI1)
  finally show "length rs \<le> sr_limit rq" using search_limit le_trans by blast
  assume "r \<in> set rs"
  then have "sv_id r \<in> set (map sv_id (take n (filter P (search rq i))))" unfolding assms [symmetric] by simp
  then obtain r' where "r' \<in> set (search rq i)" "sv_id r' = sv_id r" by (auto dest!: in_set_takeD)
  then show "stored i (sv_id r) \<noteq> None" using search_stored by metis
qed

end

lemma hnsw_search_limit: "length (hnsw_search fp rq h) \<le> sr_limit rq"
  by (simp add: hnsw_search_def Let_def split: option.split)

interpretation hx: vector_index "hnsw_add fp" hnsw_remove "hnsw_search fp" "\<lambda>h. hm_get (hx_vectors h)" for fp
proof
  fix r rq h
  assume "r \<in> set (hnsw_search fp rq h)"
  then show "hm_get (hx_vectors h) (sv_id r) \<noteq> None" by (rule hnsw_distance_stored [OF hnsw_search_mem])
qed (auto simp: hnsw_add_vectors hnsw_remove_def hnsw_search_distinct hnsw_search_limit)

subsection \<open>Searching\<close>

definition keeps_filter :: "(payload, 'm) ext \<Rightarrow> (string \<Rightarrow> string) \<Rightarrow> 'm engine \<Rightarrow> search_request \<Rightarrow> u64 \<Rightarrow> bool" where
  "keeps_filter x lower storage rq vid =
     (case sr_filter rq of
        None \<Rightarrow> True
      | Some f \<Rightarrow>
          (case engine_get x storage vid of Some (Inr (Some v)) \<Rightarrow> filter_matches lower f vid v | _ \<Rightarrow> False))"

lemma retain_matching_filter:
  assumes "retain_matching x lower storage f rs = Some kept" and "sr_filter rq = Some f"
  shows "kept = filter (\<lambda>r. keeps_filter x lower storage rq (sv_id r)) rs"
  using assms(1)
proof (induction rs arbitrary: kept)
  case (Cons r rs)
  then obtain e rest where e: "engine_get x storage (sv_id r) = Some e" and rest: "retain_matching x lower storage f rs = Some rest"
    by (auto simp: stored_value_def split: option.splits)
  from Cons.IH [OF rest] Cons.prems e rest assms(2) show ?case
    by (cases e) (auto simp: stored_value_def keeps_filter_def split: option.splits)
qed simp

lemma apply_filter_kept:
  "apply_filter x lower storage rq rs = Some kept \<Longrightarrow> kept = filter (\<lambda>r. keeps_filter x lower storage rq (sv_id r)) rs"
  using retain_matching_filter [of x lower storage _ rs kept rq]
  by (cases "sr_filter rq") (auto simp: apply_filter_def keeps_filter_def)

lemma fetch_loop_fields:
  assumes "fetch_loop x storage update rs = Some rs'"
    and "\<And>v r. sv_id (update v r) = sv_id r \<and> sv_score (update v r) = sv_score r"
  shows "map sv_id rs' = map sv_id rs \<and> map sv_score rs' = map sv_score rs"
  using assms(1)
proof (induction rs arbitrary: rs')
  case (Cons r rs)
  then obtain val rest where "stored_value x storage (sv_id r) = Some val"
    and rest: "fetch_loop x storage update rs = Some rest" and "rs' = (case val of None \<Rightarrow> r | Some v \<Rightarrow> update v r) # rest"
    by (auto split: option.splits)
  with Cons.IH [OF rest] assms(2) show ?case by (auto split: option.split)
qed simp

lemma finish_search_fields:
  assumes "finish_search x lower storage rq rs = Some out"
  shows "map sv_id out = map sv_id (take (sr_limit rq) (filter (\<lambda>r. keeps_filter x lower storage rq (sv_id r)) rs))"
    and "map sv_score out = map sv_score (take (sr_limit rq) (filter (\<lambda>r. keeps_filter x lower storage rq (sv_id r)) rs))"
proof -
  obtain kept filled where kept: "apply_filter x lower storage rq rs = Some kept"
    and filled: "fetch_payloads x storage rq (take (min (sr_limit rq) (length kept)) kept) = Some filled"
    and out: "fetch_vectors x storage rq filled = Some out"
    using assms by (auto simp: finish_search_def split: option.splits)
  have "map sv_id filled = map sv_id (take (sr_limit rq) kept) \<and> map sv_score filled = map sv_score (take (sr_limit rq) kept)"
    using filled fetch_loop_fields [of x storage "\<lambda>v r. r\<lparr>sv_payload := v_payload v\<rparr>" _ filled]
    by (force simp: fetch_payloads_def min_def split: if_splits)
  moreover have "map sv_id out = map sv_id filled \<and> map sv_score out = map sv_score filled"
    using out fetch_loop_fields [of x storage "\<lambda>v r. r\<lparr>sv_vector := Some (v_data v)\<rparr>" filled out]
    by (auto simp: fetch_vectors_def split: if_splits)
  ultimately show "map sv_id out = map sv_id (take (sr_limit rq) (filter (\<lambda>r. keeps_filter x lower storage rq (sv_id r)) rs))"
    and "map sv_score out = map sv_score (take (sr_limit rq) (filter (\<lambda>r. keeps_filter x lower storage rq (sv_id r)) rs))"
    using apply_filter_kept [OF kept] by simp_all
qed

lemma collection_search_finish:
  "collection_search x fp lower rq c = Some (Inr rs) \<Longrightarrow>
     finish_search x lower (co_storage c) rq (hnsw_search fp rq (co_index c)) = Some rs"
  by (auto simp: collection_search_def split: if_splits)

subsection \<open>Upserting\<close>

lemma upsert_loop_fresh:
  assumes "upsert_loop x fp items c = Some (r, c')"
    and "hx.ids_below (co_index c) (co_next_id c)" and "\<forall>(now, level, vid, v) \<in> set items. vid \<noteq> - 1"
  shows "hx.ids_below (co_index c') (co_next_id c')"
  using assms
proof (induction x fp items c rule: upsert_loop.induct)
  case (2 x fp now level vid v items c)
  show ?case
  proof (cases "vector_dim v \<noteq> cc_dimension (co_config c)")
    case False
    then obtain rr storage where put: "engine_put x now vid v (co_storage c) = Some (rr, storage)"
      using "2.prems"(1) by (auto split: option.splits)
    show ?thesis
    proof (cases rr)
      case (Inl err)
      with False put "2.prems" show ?thesis by auto
    next
      case (Inr u)
      with False put "2.prems" show ?thesis
        using "2.IH" [of "(rr, storage)" rr storage u] hx.ids_below_add [of "co_index c" "co_next_id c" vid fp level v]
        by auto
    qed
  qed (use "2.prems" in auto)
qed simp

lemma delete_loop_fresh:
  assumes "delete_loop x items c = Some (r, c')" and "hx.ids_below (co_index c) (co_next_id c)"
  shows "hx.ids_below (co_index c') (co_next_id c')"
  using assms
proof (induction x items c rule: delete_loop.induct)
  case (2 x now vid items c)
  then obtain rr storage where del: "engine_delete x now vid (co_storage c) = Some (rr, storage)"
    by (auto split: option.splits)
  with 2 show ?case by (cases rr) (auto simp: hx.ids_below_remove)
qed simp

text \<open>A loop over vectors of the right dimension that the storage accepts.\<close>

definition item_record :: "upsert_item \<Rightarrow> payload wal_record" where
  "item_record it = (case it of (now, level, vid, v) \<Rightarrow> PutRecord vid v now)"

definition item_entry :: "upsert_item \<Rightarrow> u64 \<times> payload vector" where
  "item_entry it = (case it of (now, level, vid, v) \<Rightarrow> (vid, v))"

lemma item_simps [simp]: "item_record (now, level, vid, v) = PutRecord vid v now" "item_entry (now, level, vid, v) = (vid, v)"
  by (simp_all add: item_record_def item_entry_def)

lemma upsert_loop_run:
  assumes "\<forall>it \<in> set items. vector_dim (snd (item_entry it)) = cc_dimension (co_config c)"
    and "engine_run x (map item_record items) (co_storage c) = Some (Inr (), e')"
  shows "\<exists>c'. upsert_loop x fp items c = Some (Inr (), c') \<and> co_storage c' = e' \<and> co_config c' = co_config c \<and>
    hm_get (hx_vectors (co_index c')) = hm_get (hx_vectors (co_index c)) ++ map_of (rev (map item_entry items))"
  using assms
proof (induction x fp items c rule: upsert_loop.induct)
  case (2 x fp now level vid v items c)
  have dim: "\<not> vector_dim v \<noteq> cc_dimension (co_config c)" using "2.prems"(1) by simp
  obtain rr storage where put: "engine_put x now vid v (co_storage c) = Some (rr, storage)" "rr = Inr ()"
    and run: "engine_run x (map item_record items) storage = Some (Inr (), e')"
    using "2.prems"(2) by (auto simp: engine_apply_def split: option.splits sum.splits)
  let ?c = "c\<lparr>co_storage := storage, co_index := hnsw_add fp level vid v (co_index c),
              co_next_id := (if vid \<ge> co_next_id c then vid + 1 else co_next_id c)\<rparr>"
  have "\<exists>c'. upsert_loop x fp items ?c = Some (Inr (), c') \<and> co_storage c' = e' \<and> co_config c' = co_config ?c \<and>
    hm_get (hx_vectors (co_index c')) = hm_get (hx_vectors (co_index ?c)) ++ map_of (rev (map item_entry items))"
    using "2.prems"(1) run by (intro "2.IH" [OF dim put(1) refl put(2)]) simp_all
  with dim put show ?case by (simp add: hx.stored_add map_add_assoc)
qed simp

subsection \<open>Reopening\<close>

lemma hnsw_build_vectors:
  "hm_get (hx_vectors (hnsw_build fp vs h)) = hm_get (hx_vectors h) ++ map_of (rev (map snd vs))"
proof (induction fp vs h rule: hnsw_build.induct)
  case (2 fp level vid v vs h)
  then show ?case by (simp add: hnsw_add_vectors map_add_assoc fun_eq_iff map_add_def split: option.split)
qed simp

lemma map_snd_with_levels [simp]: "map snd (with_levels draw vectors) = vectors"
  by (simp add: with_levels_def comp_def case_prod_unfold)

lemma map_of_rev_distinct: "distinct (map fst vs) \<Longrightarrow> map_of (rev vs) = map_of vs"
  by (simp add: map_of_inject_set rev_map [symmetric])

lemma map_of_max_id: "map_of vs k = Some v \<Longrightarrow> k \<le> max_id vs"
proof -
  assume "map_of vs k = Some v"
  then have "k \<in> fst ` set vs" "vs \<noteq> []" by (force dest: map_of_SomeD)+
  then show ?thesis by (simp add: max_id_def)
qed

lemma engine_apply_disk:
  assumes "engine_apply x r e = Some (Inr (), e')"
  shows "en_disk e' = en_disk e"
proof (cases r)
  case (PutRecord k v now)
  then have "engine_put x now k v e = Some (Inr (), e')" using assms by (simp add: engine_apply_def)
  then obtain w mt e2 where "maybe_flush x (e\<lparr>en_wal := w, en_mem := mt\<rparr>) = Some (Inr (), e2)"
    and "e' = e2\<lparr>en_count := en_count e2 + 1\<rparr>" by (rule engine_put_acknowledged)
  then show ?thesis using maybe_flush_keeps [of x "e\<lparr>en_wal := w, en_mem := mt\<rparr>"] by auto
next
  case (DeleteRecord k now)
  then have "engine_delete x now k e = Some (Inr (), e')" using assms by (simp add: engine_apply_def)
  then obtain w mt where "maybe_flush x (e\<lparr>en_wal := w, en_mem := mt\<rparr>) = Some (Inr (), e')"
    by (rule engine_delete_acknowledged)
  then show ?thesis using maybe_flush_keeps [of x "e\<lparr>en_wal := w, en_mem := mt\<rparr>"] by auto
qed

lemma engine_run_disk: "engine_run x rs e = Some (Inr (), e') \<Longrightarrow> en_disk e' = en_disk e"
proof (induction x rs e rule: engine_run.induct)
  case (2 x r rs e)
  then obtain e1 where e1: "engine_apply x r e = Some (Inr (), e1)" and run: "engine_run x rs e1 = Some (Inr (), e')"
    by (auto split: option.splits sum.splits)
  with "2.IH" [OF e1 refl refl run] engine_apply_disk [OF e1] show ?case by simp
qed simp

lemma engine_open_levels:
  "engine_open x cfg d disk = Some (Inr e) \<Longrightarrow> load_sstables x disk = Some (en_levels e, en_disk e)"
  by (auto simp: engine_open_def Let_def split: sum.splits)

lemma load_fresh_levels:
  "load_sstables x [] = Some (replicate 7 [], map (\<lambda>l. (l, [])) [0..<7])"
  "load_sstables x (map (\<lambda>l. (l, [])) [0..<7]) = Some (replicate 7 [], map (\<lambda>l. (l, [])) [0..<7])"
  by (simp_all add: load_sstables_def upt_rec hm_get_def numeral_eq_Suc)

lemma replay_puts:
  "Delete \<notin> ran m \<Longrightarrow> replay m (map item_record items) = Some (m ++ (map_option Put \<circ> map_of (rev (map item_entry items))))"
proof (induction items arbitrary: m)
  case (Cons it items)
  obtain now level vid v where it: "it = (now, level, vid, v)" by (cases it) auto
  have no: "m vid \<noteq> Some Delete" and ran: "Delete \<notin> ran (m(vid \<mapsto> Put v))"
    using Cons.prems by (auto simp: ran_def split: if_splits)
  have "(m(vid \<mapsto> Put v)) ++ (map_option Put \<circ> map_of (rev (map item_entry items)))
    = m ++ (map_option Put \<circ> map_of (rev (map item_entry items) @ [(vid, v)]))"
    by (auto simp: map_add_def fun_eq_iff split: option.splits)
  moreover have "replay m (map item_record (it # items)) = replay (m(vid \<mapsto> Put v)) (map item_record items)"
    using no by (simp add: it del: fun_upd_apply)
  moreover have "map_of (rev (map item_entry (it # items))) = map_of (rev (map item_entry items) @ [(vid, v)])"
    by (simp add: it)
  ultimately show ?case using Cons.IH [OF ran] by metis
qed (simp add: map_add_def)

subsection \<open>Reading what was upserted\<close>

text \<open>A put that leaves the memory table below its threshold is read back, and changes no other id.\<close>

lemma engine_put_read:
  assumes sk: "ordered_map (x_skip x)" and put: "engine_put x now k v e = Some (Inr (), e')"
    and room: "\<not> should_flush (snd (mt_put (x_skip x) (x_to_vec x) k v (en_mem e)))"
  shows "engine_get x e' j = (if j = k then Some (Inr (Some v)) else engine_get x e j)"
proof -
  have sl: "skip_list (x_skip x)" using sk by (simp add: skip_list_def)
  obtain data pos w where d: "x_rec_enc x (PutRecord k v now) = Some data" "wal_append (x_crc x) (en_wal e) data = Inr (pos, w)"
    using put by (auto simp: engine_put_def split: option.splits sum.splits prod.splits)
  obtain r mt where m: "mt_put (x_skip x) (x_to_vec x) k v (en_mem e) = (r, mt)" by fastforce
  let ?e1 = "e\<lparr>en_wal := w, en_mem := mt\<rparr>"
  have fl: "maybe_flush x ?e1 = Some (Inr (), ?e1)" using room by (simp add: m maybe_flush_def)
  have "r = Inr ()" "e' = ?e1\<lparr>en_count := en_count ?e1 + 1\<rparr>"
    using put by (auto simp: engine_put_def d m fl Let_def split: sum.splits)
  then have e': "en_mem e' = mt" "en_immutable e' = en_immutable e" "en_levels e' = en_levels e" "en_disk e' = en_disk e"
    by simp_all
  have "mt_get (x_skip x) (en_mem e) k \<noteq> Some Delete"
    using skip_list.mt_put_result [OF sl, of "x_to_vec x" k v "en_mem e"] m \<open>r = Inr ()\<close> by (auto split: if_splits)
  then have "mt_get (x_skip x) mt i = (if i = k then Some (Put v) else mt_get (x_skip x) (en_mem e) i)" for i
    using skip_list.mt_get_put [OF sl, of "x_to_vec x" k v "en_mem e" i] by (simp add: m)
  then show ?thesis using e'
    by (simp add: engine_get_def get_from_memtables_def get_from_sstables_def search_order_def Let_def cong: option.case_cong)
qed

text \<open>
  What the storage must be like for a put to succeed: the log can hold the record, the id is not deleted in the
  memory table, and the table stays below the size at which it is flushed.
\<close>

definition put_fits :: "('p, 'm) ext \<Rightarrow> u64 \<Rightarrow> u64 \<Rightarrow> 'p vector \<Rightarrow> 'm memtable \<Rightarrow> bool" where
  "put_fits x now vid v mt \<longleftrightarrow>
     (case x_rec_enc x (PutRecord vid v now) of None \<Rightarrow> False | Some data \<Rightarrow> length data \<le> MAX_RECORD_SIZE) \<and>
     mt_get (x_skip x) mt vid \<noteq> Some Delete \<and> \<not> should_flush (snd (mt_put (x_skip x) (x_to_vec x) vid v mt))"

lemma engine_put_fits:
  assumes sk: "ordered_map (x_skip x)" and fits: "put_fits x now vid v (en_mem e)"
  shows "\<exists>e'. engine_put x now vid v e = Some (Inr (), e') \<and> en_mem e' = snd (mt_put (x_skip x) (x_to_vec x) vid v (en_mem e))"
proof -
  have sl: "skip_list (x_skip x)" using sk by (simp add: skip_list_def)
  obtain data where d: "x_rec_enc x (PutRecord vid v now) = Some data" "length data \<le> MAX_RECORD_SIZE"
    using fits by (auto simp: put_fits_def split: option.splits)
  obtain pos w where w: "wal_append (x_crc x) (en_wal e) data = Inr (pos, w)"
    using d(2) by (simp add: wal_append_def Let_def)
  have "fst (mt_put (x_skip x) (x_to_vec x) vid v (en_mem e)) = Inr ()"
    using fits skip_list.mt_put_result [OF sl, of "x_to_vec x" vid v "en_mem e"] by (simp add: put_fits_def)
  moreover have "\<not> should_flush (snd (mt_put (x_skip x) (x_to_vec x) vid v (en_mem e)))"
    using fits by (simp add: put_fits_def)
  ultimately show ?thesis
    by (cases "mt_put (x_skip x) (x_to_vec x) vid v (en_mem e)") (simp add: engine_put_def d(1) w maybe_flush_def Let_def)
qed

text \<open>The vectors of an upsert have the right dimension and fit into the memory table, one after the other.\<close>

fun items_fit :: "(payload, 'm) ext \<Rightarrow> upsert_item list \<Rightarrow> nat \<Rightarrow> 'm memtable \<Rightarrow> bool" where
  "items_fit x [] dim mt = True"
| "items_fit x ((now, level, vid, v) # items) dim mt =
     (vector_dim v = dim \<and> put_fits x now vid v mt \<and> items_fit x items dim (snd (mt_put (x_skip x) (x_to_vec x) vid v mt)))"

lemma upsert_loop_gets:
  assumes "ordered_map (x_skip x)" and "items_fit x items (cc_dimension (co_config c)) (en_mem (co_storage c))"
  shows "\<exists>c'. upsert_loop x fp items c = Some (Inr (), c') \<and> co_config c' = co_config c \<and>
    (\<forall>vid. collection_get x vid c' =
       (case map_of (rev (map item_entry items)) vid of
          None \<Rightarrow> collection_get x vid c
        | Some v \<Rightarrow> Some (Inr (Some \<lparr>rv_id = vid, rv_vector = v_data v, rv_payload = v_payload v\<rparr>))))"
  using assms(2)
proof (induction items arbitrary: c)
  case (Cons item items)
  obtain now level vid v where item: "item = (now, level, vid, v)" by (cases item) auto
  have fits: "put_fits x now vid v (en_mem (co_storage c))" "vector_dim v = cc_dimension (co_config c)"
    using Cons.prems by (simp_all add: item)
  obtain e' where e': "engine_put x now vid v (co_storage c) = Some (Inr (), e')"
      "en_mem e' = snd (mt_put (x_skip x) (x_to_vec x) vid v (en_mem (co_storage c)))"
    using engine_put_fits [OF assms(1) fits(1)] by blast
  let ?c1 = "c\<lparr>co_storage := e', co_index := hnsw_add fp level vid v (co_index c),
      co_next_id := (if vid \<ge> co_next_id c then vid + 1 else co_next_id c)\<rparr>"
  have "engine_get x e' i = (if i = vid then Some (Inr (Some v)) else engine_get x (co_storage c) i)" for i
    by (rule engine_put_read [OF assms(1) e'(1)]) (use fits in \<open>simp add: put_fits_def\<close>)
  then have get: "collection_get x i ?c1 = (if i = vid
      then Some (Inr (Some \<lparr>rv_id = vid, rv_vector = v_data v, rv_payload = v_payload v\<rparr>)) else collection_get x i c)" for i
    by (simp add: collection_get_def)
  obtain c' where c': "upsert_loop x fp items ?c1 = Some (Inr (), c')" "co_config c' = co_config c"
      "\<forall>i. collection_get x i c' =
         (case map_of (rev (map item_entry items)) i of
            None \<Rightarrow> collection_get x i ?c1
          | Some v \<Rightarrow> Some (Inr (Some \<lparr>rv_id = i, rv_vector = v_data v, rv_payload = v_payload v\<rparr>)))"
    using Cons.IH [of ?c1] e'(2) Cons.prems by (auto simp: item)
  have "upsert_loop x fp (item # items) c = Some (Inr (), c')"
    using c'(1) e'(1) fits(2) by (simp add: item)
  then show ?case using c'(2,3) get by (auto simp: item split: option.splits)
qed simp

lemma get_put_collection:
  "get_collection name m = Inr c \<Longrightarrow> get_collection name (put_collection name c' m) = Inr c'"
  by (auto simp: get_collection_def put_collection_def ok_or_def split: option.splits)

lemma item_entries [simp]: "map item_entry (draw_vectors draw vs) = vs"
proof -
  have "item_entry (a, b, p) = p" for a b p by (cases p) simp
  then have "map item_entry (draw_vectors draw vs) = map snd (enumerate 0 vs)"
    by (simp add: draw_vectors_def comp_def case_prod_beta)
  then show ?thesis by (simp add: enumerate_eq_zip)
qed

end
