(* ===== verification/CollectionClaims.thy ===== *)
theory CollectionClaims
  imports CollectionProps HnswClaims
begin

text \<open>
  The properties of collections, each with a witness on a small collection whose third-party parts
  are concrete functions.
\<close>

subsection \<open>A sample collection\<close>

definition json_ext :: "(payload, (u64, payload entry) btree) ext" where
  "json_ext = \<lparr>x_skip = btree_ops, x_crc = sample_crc, x_to_vec = (\<lambda>_. Some [110]), x_from_slice = (\<lambda>_. Inr None),
     x_meta_enc = sample_meta_enc, x_meta_dec = sample_meta_dec, x_rec_enc = sample_rec_enc, x_rec_dec = sample_rec_dec\<rparr>"

lemma json_ext_ok: "ordered_map (x_skip json_ext)"
  by (simp add: json_ext_def btree.ordered_map_axioms)

lemma json_record_ok: "record_ok json_ext (PutRecord k (point x) t)"
  using map_u32_concat [of "[x]" "[]"]
  by (simp add: record_ok_def json_ext_def sample_rec_enc_def sample_rec_dec_def byte_range_def point_def)

definition line_config :: collection_config where
  "line_config = (collection_config_new 1)\<lparr>cc_distance := Manhattan\<rparr>"

definition line_codec :: config_codec where
  "line_codec = \<lparr>jc_to_string = (\<lambda>_. Some ''{}''), jc_from_str = (\<lambda>_. Some line_config)\<rparr>"

definition line_items :: "upsert_item list" where
  "line_items = [(1, 0, 10, point 5), (2, 0, 11, point 7)]"

lemma line_items_ok: "\<forall>it \<in> set line_items. record_ok json_ext (item_record it) \<and> vector_dim (snd (item_entry it)) = 1"
  by (simp add: line_items_def json_record_ok) (simp add: vector_dim_def point_def)

subsection \<open>Searching\<close>

lemma pairs_of_maps:
  assumes "map f xs = map f ys" and "map g xs = map g ys"
  shows "map (\<lambda>x. (f x, g x)) xs = map (\<lambda>x. (f x, g x)) ys"
proof -
  have "map (\<lambda>x. (f x, g x)) zs = zip (map f zs) (map g zs)" for zs by (induction zs) simp_all
  with assms show ?thesis by metis
qed

text \<open>
  C16.  What an answered search of a collection promises, with a filter or without: at most \<open>limit\<close> results,
  no id twice, each with the distance of the indexed vector to the query as its score, and with a
  filter each one has a stored vector now whose payload passes it.
\<close>

theorem filtered_search_sound:
  assumes "collection_search x fp lower rq c = Some (Inr rs)"
  shows "length rs \<le> sr_limit rq \<and> distinct (map sv_id rs) \<and>
    (\<forall>r \<in> set rs. hnsw_distance fp (co_index c) (sr_vector rq) (sv_id r) = Some (sv_score r) \<and>
       (\<forall>f. sr_filter rq = Some f \<longrightarrow>
          (\<exists>v. engine_get x (co_storage c) (sv_id r) = Some (Inr (Some v)) \<and> filter_matches lower f (sv_id r) v)))"
proof -
  let ?keep = "\<lambda>r. keeps_filter x lower (co_storage c) rq (sv_id r)"
  let ?raw = "hnsw_search fp rq (co_index c)"
  note fields = finish_search_fields [OF collection_search_finish [OF assms]]
  have "hnsw_distance fp (co_index c) (sr_vector rq) (sv_id r) = Some (sv_score r) \<and>
      (\<forall>f. sr_filter rq = Some f \<longrightarrow>
        (\<exists>v. engine_get x (co_storage c) (sv_id r) = Some (Inr (Some v)) \<and> filter_matches lower f (sv_id r) v))"
    if r: "r \<in> set rs" for r
  proof -
    have "map (\<lambda>r. (sv_id r, sv_score r)) rs = map (\<lambda>r. (sv_id r, sv_score r)) (take (sr_limit rq) (filter ?keep ?raw))"
      using fields by (rule pairs_of_maps)
    then have "(sv_id r, sv_score r) \<in> (\<lambda>r. (sv_id r, sv_score r)) ` set (take (sr_limit rq) (filter ?keep ?raw))"
      using r by (metis (no_types, lifting) image_eqI set_map)
    then obtain r' where r': "r' \<in> set ?raw" "?keep r'" "sv_id r' = sv_id r" "sv_score r' = sv_score r"
      by (auto dest!: in_set_takeD)
    show ?thesis using hnsw_search_mem [OF r'(1)] r'(2-)
      by (auto simp: keeps_filter_def split: option.splits sum.splits)
  qed
  with hx.selection_promises(1, 2) [OF fields(1)] show ?thesis by blast
qed

subsection \<open>Ids\<close>

text \<open>
  Automatic ids are fresh.  While all ids in the index are below the next id and no vector is upserted
  at the greatest \<open>u64\<close>, an upsert keeps this, also when it stops at an error, and the next id that the
  collection hands out is not the id of a vector in the index.
\<close>

theorem next_id_is_fresh:
  assumes "\<forall>k \<in> stored_ids (co_index c). k < co_next_id c"
    and "\<forall>(now, level, vid, v) \<in> set items. vid \<noteq> - 1" and "collection_upsert x fp items c = Some (r, c')"
  shows "(\<forall>k \<in> stored_ids (co_index c'). k < co_next_id c') \<and>
    fst (collection_next_id c') \<notin> stored_ids (co_index c')"
proof -
  have below: "hx.ids_below (co_index c) (co_next_id c) \<longleftrightarrow> (\<forall>k \<in> stored_ids (co_index c). k < co_next_id c)"
    for c :: "'a collection"
    by (auto simp: hx.ids_below_def stored_ids_def hm_get_None_iff)
  obtain r1 c1 where loop: "upsert_loop x fp items c = Some (r1, c1)"
    using assms(3) by (auto simp: collection_upsert_def split: option.splits)
  then have "co_index c' = co_index c1" "co_next_id c' = co_next_id c1"
    using assms(3) by (auto simp: collection_upsert_def finish_operation_def split: sum.splits)
  then have "hx.ids_below (co_index c') (co_next_id c')"
    using upsert_loop_fresh [OF loop] assms(1, 2) by (simp add: below)
  then show ?thesis
    using hx.ids_below_fresh by (fastforce simp: below collection_next_id_def)
qed

subsection \<open>Durability\<close>

lemma fresh_collection:
  assumes sk: "ordered_map (x_skip x)" and len: "length items < 2 ^ 64"
    and ok: "\<forall>it \<in> set items. record_ok x (item_record it) \<and> vector_dim (snd (item_entry it)) = cc_dimension cfg"
    and json: "jc_to_string json cfg = Some text"
  obtains c0 c1 info where
    "collection_create x json name \<lparr>cd_config = None, cd_wal = [], cd_tables = []\<rparr> cfg =
       Some (Inr c0, \<lparr>cd_config = Some text, cd_wal = [], cd_tables = []\<rparr>)"
    and "collection_upsert x fp items c0 = Some (Inr info, c1)"
    and "log_inv x (en_wal (co_storage c1)) (map item_record items)"
    and "en_disk (co_storage c1) = map (\<lambda>l. (l, [])) [0..<7]"
proof -
  have rec: "\<forall>r \<in> set (map item_record items). record_ok x r" using ok by auto
  have rep: "replay Map.empty (map item_record items) = Some (map_option Put \<circ> map_of (rev (map item_entry items)))"
    using replay_puts [of Map.empty items] by simp
  obtain e0 e where e0: "engine_open x storage_config_default [] [] = Some (Inr e0)"
    and run: "engine_run x (map item_record items) e0 = Some (Inr (), e)"
    and log: "log_inv x (en_wal e) (map item_record items)"
    by (rule engine_history [OF sk rec _ rep, of storage_config_default]) (use len in auto)
  let ?c0 = "\<lparr>co_name = name, co_config = cfg, co_storage = e0,
    co_index = hnsw_new (index_config cfg) (cc_distance cfg), co_next_id = 1, co_next_op = 1\<rparr>"
  have "\<forall>it \<in> set items. vector_dim (snd (item_entry it)) = cc_dimension (co_config ?c0)" using ok by simp
  moreover have "engine_run x (map item_record items) (co_storage ?c0) = Some (Inr (), e)" using run by simp
  ultimately obtain c1 where c1: "upsert_loop x fp items ?c0 = Some (Inr (), c1)" "co_storage c1 = e"
    using upsert_loop_run by blast
  have "en_disk e = map (\<lambda>l. (l, [])) [0..<7]"
    using engine_run_disk [OF run] engine_open_levels [OF e0] load_fresh_levels(1) [of x] by simp
  then show thesis
    using c1 log e0 json
    by (intro that [of ?c0 "\<lparr>oi_id = co_next_op c1, oi_status = OpCompleted\<rparr>" "c1\<lparr>co_next_op := co_next_op c1 + 1\<rparr>"])
      (simp_all add: collection_create_def collection_upsert_def finish_operation_def)
qed

text \<open>
  C4.  Acknowledged upserts survive.  A new collection accepts any vectors of its dimension that its storage
  can encode; when the process then stops at any time and the collection is opened again from what is
  on disk, the index holds for each id the last vector that was upserted, and the ids it hands out
  start above the greatest one.
\<close>

theorem upserts_survive_reopen:
  assumes sk: "ordered_map (x_skip x)" and len: "length items < 2 ^ 64"
    and ok: "\<forall>it \<in> set items. record_ok x (item_record it) \<and> vector_dim (snd (item_entry it)) = cc_dimension cfg"
    and json: "jc_to_string json cfg = Some text" "jc_from_str json text = Some cfg"
  shows "\<exists>c0 cd c1 info c2.
    collection_create x json name \<lparr>cd_config = None, cd_wal = [], cd_tables = []\<rparr> cfg = Some (Inr c0, cd) \<and>
    collection_upsert x fp items c0 = Some (Inr info, c1) \<and>
    collection_open x fp json draw name (collection_dir text c1) = Some (Inr c2) \<and>
    hm_get (hx_vectors (co_index c2)) = map_of (rev (map item_entry items)) \<and>
    co_config c2 = cfg \<and> co_next_id c2 = max_id (map item_entry items) + 1"
proof -
  obtain c0 c1 info where create: "collection_create x json name \<lparr>cd_config = None, cd_wal = [], cd_tables = []\<rparr> cfg =
      Some (Inr c0, \<lparr>cd_config = Some text, cd_wal = [], cd_tables = []\<rparr>)"
    and upsert: "collection_upsert x fp items c0 = Some (Inr info, c1)"
    and log: "log_inv x (en_wal (co_storage c1)) (map item_record items)"
    and disk: "en_disk (co_storage c1) = map (\<lambda>l. (l, [])) [0..<7]"
    by (rule fresh_collection [OF sk len ok json(1)])
  have rep: "replay Map.empty (map item_record items) = Some (map_option Put \<circ> map_of (rev (map item_entry items)))"
    using replay_puts [of Map.empty items] by simp
  have "load_sstables x (en_disk (co_storage c1)) \<noteq> None" by (simp add: disk load_fresh_levels)
  from engine_reopen(2) [OF sk log rep this, of storage_config_default]
  obtain e where e: "engine_open x storage_config_default (wal_dir (en_wal (co_storage c1))) (en_disk (co_storage c1)) = Some (Inr e)"
    and mem: "mt_get (x_skip x) (en_mem e) = map_option Put \<circ> map_of (rev (map item_entry items))"
    by blast
  have "en_levels e = replicate 7 []" using engine_open_levels [OF e] by (simp add: disk load_fresh_levels)
  then have "search_order e = []" by (simp add: search_order_def)
  then have "tables_hold x (en_disk e) (search_order e) []" by (simp add: tables_hold_def)
  from engine_scan_spec [OF sk this, of None None] obtain vs where scan: "engine_scan x e None None = Some (Inr vs)"
    and sorted: "sorted_wrt (<) (map fst vs)"
    and vs: "\<forall>k. map_of vs k = (if in_range k None None then
       (case mt_get (x_skip x) (en_mem e) k of Some (Put v) \<Rightarrow> Some v | Some Delete \<Rightarrow> None
        | None \<Rightarrow> map_of (concat []) k) else None)"
    by blast
  have look: "map_of vs = map_of (rev (map item_entry items))"
  proof
    show "map_of vs k = map_of (rev (map item_entry items)) k" for k
      by (cases "map_of (rev (map item_entry items)) k") (simp_all add: vs mem in_range_def)
  qed
  have dist: "distinct (map fst vs)" using sorted by (rule sorted_keys_distinct)
  have "fst ` set vs = fst ` set (map item_entry items)"
    using arg_cong [OF look, of dom] by (simp add: dom_map_of_conv_image_fst)
  then have max: "max_id vs = max_id (map item_entry items)" by (metis (no_types, lifting) image_is_empty max_id_def set_empty)
  let ?index = "hnsw_build fp (with_levels draw vs) (hnsw_new (index_config cfg) (cc_distance cfg))"
  have open_c: "collection_open x fp json draw name (collection_dir text c1) =
      Some (Inr \<lparr>co_name = name, co_config = cfg, co_storage = e, co_index = ?index,
        co_next_id = max_id vs + 1, co_next_op = 1\<rparr>)"
    using e scan json(2) by (simp add: collection_open_def collection_dir_def)
  have "hm_get (hx_vectors ?index) = map_of (rev (map item_entry items))"
    using map_of_rev_distinct [OF dist] look by (simp add: hnsw_build_vectors hnsw_new_def map_add_def fun_eq_iff split: option.split)
  with create upsert open_c max show ?thesis by fastforce
qed

subsection \<open>Witnesses\<close>

lemma line_collection:
  obtains c0 c1 info where
    "collection_create json_ext line_codec ''line'' \<lparr>cd_config = None, cd_wal = [], cd_tables = []\<rparr> line_config =
       Some (Inr c0, \<lparr>cd_config = Some ''{}'', cd_wal = [], cd_tables = []\<rparr>)"
    and "collection_upsert json_ext bits_fp line_items c0 = Some (Inr info, c1)"
proof -
  have ok: "\<forall>it \<in> set line_items. record_ok json_ext (item_record it) \<and>
      vector_dim (snd (item_entry it)) = cc_dimension line_config"
    using line_items_ok by (simp add: line_config_def collection_config_new_def)
  show thesis
    by (rule fresh_collection [OF json_ext_ok _ ok, of line_codec "''{}''" "''line''" bits_fp])
      (auto simp: line_items_def line_codec_def intro: that)
qed

theorem next_id_is_fresh_witness:
  "\<exists>c0 info c1. collection_create json_ext line_codec ''line'' \<lparr>cd_config = None, cd_wal = [], cd_tables = []\<rparr> line_config =
       Some (Inr c0, \<lparr>cd_config = Some ''{}'', cd_wal = [], cd_tables = []\<rparr>) \<and>
     collection_upsert json_ext bits_fp line_items c0 = Some (Inr info, c1) \<and>
     fst (collection_next_id c1) \<notin> stored_ids (co_index c1)"
proof -
  obtain c0 c1 info where c: "collection_create json_ext line_codec ''line'' \<lparr>cd_config = None, cd_wal = [], cd_tables = []\<rparr> line_config =
       Some (Inr c0, \<lparr>cd_config = Some ''{}'', cd_wal = [], cd_tables = []\<rparr>)"
    "collection_upsert json_ext bits_fp line_items c0 = Some (Inr info, c1)"
    by (rule line_collection)
  have "stored_ids (co_index c0) = {}"
    using c(1) by (auto simp: collection_create_def line_codec_def and_then_Inr_iff stored_ids_def hnsw_new_def)
  then have "fst (collection_next_id c1) \<notin> stored_ids (co_index c1)"
    using next_id_is_fresh [OF _ _ c(2)] by (simp add: line_items_def)
  with c show ?thesis by blast
qed

theorem upserts_survive_reopen_witness:
  "\<exists>c0 cd c1 info c2.
    collection_create json_ext line_codec ''line'' \<lparr>cd_config = None, cd_wal = [], cd_tables = []\<rparr> line_config = Some (Inr c0, cd) \<and>
    collection_upsert json_ext bits_fp line_items c0 = Some (Inr info, c1) \<and>
    collection_open json_ext bits_fp line_codec (\<lambda>_. 0) ''line'' (collection_dir ''{}'' c1) = Some (Inr c2) \<and>
    hm_get (hx_vectors (co_index c2)) = [10 \<mapsto> point 5, 11 \<mapsto> point 7]"
proof -
  have ok: "\<forall>it \<in> set line_items. record_ok json_ext (item_record it) \<and>
      vector_dim (snd (item_entry it)) = cc_dimension line_config"
    using line_items_ok by (simp add: line_config_def collection_config_new_def)
  have items: "map_of (rev (map item_entry line_items)) = [10 \<mapsto> point 5, 11 \<mapsto> point 7]"
    by (simp add: line_items_def)
  have "length line_items < 2 ^ 64" "jc_to_string line_codec line_config = Some ''{}''"
    "jc_from_str line_codec ''{}'' = Some line_config"
    by (simp_all add: line_items_def line_codec_def)
  from upserts_survive_reopen [OF json_ext_ok this(1) ok this(2, 3), of "''line''" bits_fp "\<lambda>_. 0"] items
  show ?thesis by metis
qed

text \<open>A collection over an empty storage and the index with one point.\<close>

definition point_collection :: "(u64, payload entry) btree engine \<Rightarrow> (u64, payload entry) btree collection" where
  "point_collection e =
     \<lparr>co_name = ''line'', co_config = line_config, co_storage = e, co_index = point_index, co_next_id = 2, co_next_op = 1\<rparr>"

lemma point_search: "hnsw_search bits_fp point_query point_index =
    [\<lparr>sv_id = 1, sv_score = 2, sv_vector = None, sv_payload = None\<rparr>]"
proof -
  have "entry_isolated 0 1 point_index" unfolding point_index_def empty_index_def by (rule hnsw_add_first)
  from hnsw_search_isolated [OF this, of bits_fp point_query] show ?thesis
    using point_index_distance by (simp add: point_query_def search_request_new_def)
qed

theorem filtered_search_sound_witness:
  "\<exists>e. collection_search json_ext bits_fp (\<lambda>s. s) point_query (point_collection e) =
      Some (Inr [\<lparr>sv_id = 1, sv_score = 2, sv_vector = None, sv_payload = None\<rparr>]) \<and>
    hnsw_distance bits_fp point_index [7] 1 = Some 2"
proof -
  fix e :: "(u64, payload entry) btree engine"
  have q: "sr_vector point_query = [7]" "sr_limit point_query = 3" "sr_filter point_query = None"
    "sr_with_payload point_query = None" "\<not> sr_with_vector point_query"
    by (simp_all add: point_query_def search_request_new_def)
  have s: "collection_search json_ext bits_fp (\<lambda>s. s) point_query (point_collection e) =
      Some (Inr [\<lparr>sv_id = 1, sv_score = 2, sv_vector = None, sv_payload = None\<rparr>])"
    by (simp add: collection_search_def point_collection_def line_config_def collection_config_new_def q point_search
        finish_search_def apply_filter_def fetch_payloads_def fetch_vectors_def)
  from filtered_search_sound [OF s] have "hnsw_distance bits_fp point_index [7] 1 = Some 2"
    by (simp add: q point_collection_def)
  with s show ?thesis by blast
qed

end
