(* ===== verification/Auth.thy ===== *)
theory Auth
  imports Filters
begin

text \<open>
  Authentication and authorization: the roles and access rules of \<open>src/src/auth/rbac.rs\<close>, the API
  keys and the configuration of \<open>src/src/auth/mod.rs\<close> and the middleware of
  \<open>src/src/auth/middleware.rs\<close>.

  The clock is an argument.  The comparison of the crate \<open>constant_time_eq\<close> is the argument
  \<open>ct_eq\<close>, the header map of the HTTP library the function \<open>header\<close> from a name to the text of
  its value, Unicode lower-casing the argument \<open>lower\<close>.
\<close>

subsection \<open>Roles and permissions\<close>

datatype permission =
    CreateCollection | DeleteCollection | ListCollections | GetCollectionInfo
  | InsertVectors | DeleteVectors | SearchVectors | Retrieve
  | CreateIndex | DeleteIndex | OptimizeIndex
  | ClusterAdmin | ViewClusterStatus
  | SystemAdmin | ViewMetrics | ViewLogs

datatype role = Admin | Writer | Reader

definition writer_permissions :: "permission list" where
  "writer_permissions =
     [CreateCollection, ListCollections, GetCollectionInfo, InsertVectors, DeleteVectors, SearchVectors, Retrieve,
      ViewMetrics]"

definition reader_permissions :: "permission list" where
  "reader_permissions = [ListCollections, GetCollectionInfo, SearchVectors, Retrieve, ViewMetrics]"

definition has_permission :: "role \<Rightarrow> permission \<Rightarrow> bool" where
  "has_permission r p \<longleftrightarrow>
     (case r of
        Admin \<Rightarrow> True
      | Writer \<Rightarrow> p \<in> set writer_permissions
      | Reader \<Rightarrow> p \<in> set reader_permissions)"

definition role_as_str :: "role \<Rightarrow> string" where
  "role_as_str r = (case r of Admin \<Rightarrow> ''admin'' | Writer \<Rightarrow> ''writer'' | Reader \<Rightarrow> ''reader'')"

definition role_from_str :: "(string \<Rightarrow> string) \<Rightarrow> string \<Rightarrow> role option" where
  "role_from_str lower s =
     (if lower s = ''admin'' then Some Admin
      else if lower s = ''writer'' then Some Writer
      else if lower s = ''reader'' then Some Reader
      else None)"

record access_control =
  ac_default_role :: "role option"
  ac_rules :: "(string \<times> role list) list"

definition access_control_new :: access_control where
  "access_control_new = \<lparr>ac_default_role = None, ac_rules = []\<rparr>"

definition with_default_role :: "role \<Rightarrow> access_control \<Rightarrow> access_control" where
  "with_default_role r ac = ac\<lparr>ac_default_role := Some r\<rparr>"

definition grant_collection_access :: "string \<Rightarrow> role list \<Rightarrow> access_control \<Rightarrow> access_control" where
  "grant_collection_access c roles ac = ac\<lparr>ac_rules := hm_insert c roles (ac_rules ac)\<rparr>"

definition can_access_collection :: "access_control \<Rightarrow> string \<Rightarrow> role \<Rightarrow> bool" where
  "can_access_collection ac c r \<longleftrightarrow>
     (if r = Admin then True
      else (case hm_get (ac_rules ac) c of Some allowed \<Rightarrow> r \<in> set allowed | None \<Rightarrow> True))"

datatype collection_operation = OpCreate | OpDelete | OpList | OpGetInfo
datatype vector_operation = VecInsert | VecDelete | VecSearch | VecRetrieve

definition check_collection_op :: "role \<Rightarrow> collection_operation \<Rightarrow> bool" where
  "check_collection_op r op =
     has_permission r
       (case op of OpCreate \<Rightarrow> CreateCollection | OpDelete \<Rightarrow> DeleteCollection | OpList \<Rightarrow> ListCollections
        | OpGetInfo \<Rightarrow> GetCollectionInfo)"

definition check_vector_op :: "role \<Rightarrow> vector_operation \<Rightarrow> bool" where
  "check_vector_op r op =
     has_permission r
       (case op of VecInsert \<Rightarrow> InsertVectors | VecDelete \<Rightarrow> DeleteVectors | VecSearch \<Rightarrow> SearchVectors
        | VecRetrieve \<Rightarrow> Retrieve)"

subsection \<open>API keys\<close>

record auth_error =
  ae_message :: string
  ae_status :: nat

definition unauthorized :: "string \<Rightarrow> auth_error" where
  "unauthorized msg = \<lparr>ae_message = msg, ae_status = 401\<rparr>"

definition forbidden :: "string \<Rightarrow> auth_error" where
  "forbidden msg = \<lparr>ae_message = msg, ae_status = 403\<rparr>"

record api_key =
  ak_key :: string
  ak_name :: string
  ak_role :: role
  ak_expires_at :: "nat option"
  ak_rate_limit :: "u32 option"
  ak_created_at :: nat
  ak_last_used :: "nat option"
  ak_active :: bool

definition api_key_new :: "nat \<Rightarrow> string \<Rightarrow> string \<Rightarrow> role \<Rightarrow> api_key" where
  "api_key_new now key name r =
     \<lparr>ak_key = key, ak_name = name, ak_role = r, ak_expires_at = None, ak_rate_limit = None,
      ak_created_at = now, ak_last_used = None, ak_active = True\<rparr>"

definition with_expiration :: "nat \<Rightarrow> nat \<Rightarrow> api_key \<Rightarrow> api_key" where
  "with_expiration now duration k = k\<lparr>ak_expires_at := Some (now + duration)\<rparr>"

definition with_rate_limit :: "u32 \<Rightarrow> api_key \<Rightarrow> api_key" where
  "with_rate_limit limit k = k\<lparr>ak_rate_limit := Some limit\<rparr>"

definition is_expired :: "nat \<Rightarrow> api_key \<Rightarrow> bool" where
  "is_expired now k = (case ak_expires_at k of None \<Rightarrow> False | Some e \<Rightarrow> now > e)"

definition mark_used :: "nat \<Rightarrow> api_key \<Rightarrow> api_key" where
  "mark_used now k = k\<lparr>ak_last_used := Some now\<rparr>"

record auth_context =
  ax_key_name :: string
  ax_role :: role
  ax_authenticated_at :: nat

definition context_has_permission :: "auth_context \<Rightarrow> permission \<Rightarrow> bool" where
  "context_has_permission c p = has_permission (ax_role c) p"

definition context_can_access :: "auth_context \<Rightarrow> string \<Rightarrow> bool" where
  "context_can_access c collection \<longleftrightarrow> (if ax_role c = Admin then True else True)"

text \<open>The store is the hash map from the key's text, in its order of iteration.\<close>

type_synonym key_store = "(string \<times> api_key) list"

definition add_key :: "api_key \<Rightarrow> key_store \<Rightarrow> key_store" where
  "add_key k store = hm_insert (ak_key k) k store"

text \<open>\<open>from_env\<close>: the two environment variables are arguments.\<close>

definition store_from_env :: "nat \<Rightarrow> string option \<Rightarrow> string option \<Rightarrow> key_store" where
  "store_from_env now admin_key read_key =
     (let s1 = (case admin_key of None \<Rightarrow> [] | Some k \<Rightarrow> add_key (api_key_new now k ''admin'' Admin) [])
      in case read_key of None \<Rightarrow> s1 | Some k \<Rightarrow> add_key (api_key_new now k ''read-only'' Reader) s1)"

fun validate :: "(string \<Rightarrow> string \<Rightarrow> bool) \<Rightarrow> nat \<Rightarrow> string \<Rightarrow> key_store \<Rightarrow> auth_context option" where
  "validate ct_eq now key [] = None"
| "validate ct_eq now key ((stored, k) # store) =
     (if ct_eq stored key then
        (if \<not> ak_active k then None
         else if is_expired now k then None
         else Some \<lparr>ax_key_name = ak_name k, ax_role = ak_role k, ax_authenticated_at = now\<rparr>)
      else validate ct_eq now key store)"

fun revoke :: "string \<Rightarrow> key_store \<Rightarrow> bool \<times> key_store" where
  "revoke name [] = (False, [])"
| "revoke name ((stored, k) # store) =
     (if ak_name k = name then (True, (stored, k\<lparr>ak_active := False\<rparr>) # store)
      else (let (found, rest) = revoke name store in (found, (stored, k) # rest)))"

definition list_keys :: "key_store \<Rightarrow> (string \<times> role \<times> bool) list" where
  "list_keys store = map (\<lambda>k. (ak_name k, ak_role k, ak_active k)) (hm_values store)"

definition store_is_empty :: "key_store \<Rightarrow> bool" where
  "store_is_empty store \<longleftrightarrow> store = []"

subsection \<open>Configuration and headers\<close>

record auth_config =
  au_enabled :: bool
  au_public_paths :: "string list"
  au_api_key_header :: string
  au_accept_bearer :: bool

definition auth_config_default :: auth_config where
  "auth_config_default =
     \<lparr>au_enabled = False,
      au_public_paths = [''/health'', ''/health/live'', ''/health/ready'', ''/health/startup'', ''/metrics'', ''/''],
      au_api_key_header = ''X-API-Key'', au_accept_bearer = True\<rparr>"

definition is_public_path :: "auth_config \<Rightarrow> string \<Rightarrow> bool" where
  "is_public_path config path \<longleftrightarrow>
     list_ex (\<lambda>p. path = p \<or> starts_with_str (p @ ''/'') path) (au_public_paths config)"

definition config_enabled :: "auth_config \<Rightarrow> auth_config" where
  "config_enabled config = config\<lparr>au_enabled := True\<rparr>"

definition extract_api_key :: "(string \<Rightarrow> string option) \<Rightarrow> auth_config \<Rightarrow> string option" where
  "extract_api_key header config =
     (case header (au_api_key_header config) of
        Some key \<Rightarrow> Some key
      | None \<Rightarrow>
          if au_accept_bearer config then
            (case header ''authorization'' of
               None \<Rightarrow> None
             | Some auth \<Rightarrow> if starts_with_str ''Bearer '' auth then Some (drop 7 auth) else None)
          else None)"

subsection \<open>The middleware\<close>

text \<open>
  \<open>Inl\<close> is the error response; \<open>Inr\<close> passes the request on, with the context that is put into its
  extensions, if any.
\<close>

definition auth_middleware ::
  "(string \<Rightarrow> string \<Rightarrow> bool) \<Rightarrow> nat \<Rightarrow> auth_config \<Rightarrow> key_store \<Rightarrow> string \<Rightarrow> (string \<Rightarrow> string option) \<Rightarrow>
   auth_error + auth_context option"
where
  "auth_middleware ct_eq now config store path header =
     (if is_public_path config path then Inr None
      else if store_is_empty store then Inr None
      else
        and_then (ok_or (extract_api_key header config)
            (unauthorized ''API key required. Provide X-API-Key header or Authorization: Bearer token'')) (\<lambda>key.
          and_then (ok_or (validate ct_eq now key store) (unauthorized ''Invalid API key'')) (\<lambda>context.
            Inr (Some context))))"

definition permission_name :: "permission \<Rightarrow> string" where
  "permission_name p =
     (case p of
        CreateCollection \<Rightarrow> ''CreateCollection'' | DeleteCollection \<Rightarrow> ''DeleteCollection''
      | ListCollections \<Rightarrow> ''ListCollections'' | GetCollectionInfo \<Rightarrow> ''GetCollectionInfo''
      | InsertVectors \<Rightarrow> ''InsertVectors'' | DeleteVectors \<Rightarrow> ''DeleteVectors''
      | SearchVectors \<Rightarrow> ''Search'' | Retrieve \<Rightarrow> ''Retrieve''
      | CreateIndex \<Rightarrow> ''CreateIndex'' | DeleteIndex \<Rightarrow> ''DeleteIndex'' | OptimizeIndex \<Rightarrow> ''OptimizeIndex''
      | ClusterAdmin \<Rightarrow> ''ClusterAdmin'' | ViewClusterStatus \<Rightarrow> ''ViewClusterStatus''
      | SystemAdmin \<Rightarrow> ''SystemAdmin'' | ViewMetrics \<Rightarrow> ''ViewMetrics'' | ViewLogs \<Rightarrow> ''ViewLogs'')"

definition require_permission :: "permission \<Rightarrow> auth_context \<Rightarrow> 'r \<Rightarrow> auth_error + 'r" where
  "require_permission p context response =
     (if \<not> context_has_permission context p
      then Inl (forbidden (''Permission denied: '' @ permission_name p @ '' required''))
      else Inr response)"

definition get_permissions_for_role :: "role \<Rightarrow> string list" where
  "get_permissions_for_role r =
     map permission_name
       (filter (has_permission r)
          [CreateCollection, DeleteCollection, ListCollections, GetCollectionInfo, InsertVectors, DeleteVectors,
           SearchVectors, Retrieve, CreateIndex, DeleteIndex, OptimizeIndex, ClusterAdmin, ViewClusterStatus,
           SystemAdmin, ViewMetrics, ViewLogs])"

record auth_state =
  as_config :: auth_config
  as_key_store :: key_store

definition create_auth_state :: "key_store \<Rightarrow> auth_state" where
  "create_auth_state store = \<lparr>as_config = auth_config_default, as_key_store = store\<rparr>"

end
