(* ===== verification/AuthClaims.thy ===== *)
theory AuthClaims
  imports Auth
begin

text \<open>
  The properties of authentication and authorization: who is let through, what a revocation does,
  and the order of the roles.
\<close>

lemma validate_Some_iff:
  assumes ct: "\<And>a b. ct_eq a b \<longleftrightarrow> a = b"
  shows "validate ct_eq now key store = Some c \<longleftrightarrow>
    (\<exists>k. hm_get store key = Some k \<and> ak_active k \<and> \<not> is_expired now k \<and>
       c = \<lparr>ax_key_name = ak_name k, ax_role = ak_role k, ax_authenticated_at = now\<rparr>)"
proof (induction store)
  case (Cons e store)
  then show ?case by (cases e) (auto simp: ct hm_get_def)
qed (simp add: hm_get_def)

text \<open>
  C24.  A request is passed on exactly when its path is public, when no key is configured, or when it
  carries the text of a configured key that is active and not expired; in the last case the context
  has that key's name and role.
\<close>

theorem request_needs_valid_key:
  assumes "\<forall>a b. ct_eq a b = (a = b)"
  shows "auth_middleware ct_eq now config store path header = Inr context \<longleftrightarrow>
    (is_public_path config path \<or> store = []) \<and> context = None \<or>
    \<not> is_public_path config path \<and> store \<noteq> [] \<and>
    (\<exists>key k. extract_api_key header config = Some key \<and> hm_get store key = Some k \<and> ak_active k \<and>
       \<not> is_expired now k \<and>
       context = Some \<lparr>ax_key_name = ak_name k, ax_role = ak_role k, ax_authenticated_at = now\<rparr>)"
proof -
  have v: "validate ct_eq now key store = Some c \<longleftrightarrow>
    (\<exists>k. hm_get store key = Some k \<and> ak_active k \<and> \<not> is_expired now k \<and>
       c = \<lparr>ax_key_name = ak_name k, ax_role = ak_role k, ax_authenticated_at = now\<rparr>)" for key c
    using assms by (intro validate_Some_iff) blast
  show ?thesis
  proof (cases "extract_api_key header config")
    case None
    then show ?thesis by (auto simp: auth_middleware_def store_is_empty_def)
  next
    case (Some key)
    show ?thesis
    proof (cases "validate ct_eq now key store")
      case None
      with v [of key] have "\<not> (\<exists>k. hm_get store key = Some k \<and> ak_active k \<and> \<not> is_expired now k)" by auto
      with Some None show ?thesis by (auto simp: auth_middleware_def store_is_empty_def)
    next
      case (Some c)
      with \<open>extract_api_key header config = Some key\<close> v [of key c] show ?thesis
        by (auto simp: auth_middleware_def store_is_empty_def)
    qed
  qed
qed

definition env_store :: key_store where
  "env_store = store_from_env 0 (Some ''root'') (Some ''look'')"

lemma env_store_keys:
  "env_store = [(''root'', api_key_new 0 ''root'' ''admin'' Admin), (''look'', api_key_new 0 ''look'' ''read-only'' Reader)]"
  by (simp add: env_store_def store_from_env_def add_key_def api_key_new_def)

definition bearer_look :: "string \<Rightarrow> string option" where
  "bearer_look name = (if name = ''authorization'' then Some ''Bearer look'' else None)"

theorem request_needs_valid_key_witness:
  "auth_middleware (=) 5 auth_config_default env_store ''/collections'' bearer_look =
     Inr (Some \<lparr>ax_key_name = ''read-only'', ax_role = Reader, ax_authenticated_at = 5\<rparr>)"
proof -
  have "\<not> is_public_path auth_config_default ''/collections''" by (simp add: is_public_path_def auth_config_default_def)
  moreover have "extract_api_key bearer_look auth_config_default = Some ''look''"
    by (simp add: extract_api_key_def bearer_look_def auth_config_default_def)
  moreover have "hm_get env_store ''look'' = Some (api_key_new 0 ''look'' ''read-only'' Reader)"
    by (simp add: env_store_keys hm_get_def)
  ultimately show ?thesis
    by (subst request_needs_valid_key) (simp_all add: env_store_keys api_key_new_def is_expired_def)
qed

subsection \<open>Revocation\<close>

lemma revoke_keys: "map fst (snd (revoke name store)) = map fst store"
  by (induction name store rule: revoke.induct) (auto split: prod.split)

lemma revoke_get:
  assumes "hm_ok store" and "hm_get store key = Some k"
    and "\<forall>(key', k') \<in> set store. ak_name k' = name \<longrightarrow> key' = key"
  shows "hm_get (snd (revoke name store)) key = Some (if ak_name k = name then k\<lparr>ak_active := False\<rparr> else k)"
  using assms
proof (induction name store rule: revoke.induct)
  case (2 name stored k' store)
  show ?case
  proof (cases "stored = key")
    case True
    then show ?thesis using 2 by (auto simp: hm_get_def split: prod.split)
  next
    case False
    then have "ak_name k' \<noteq> name" using 2 by auto
    with False 2 show ?thesis by (auto simp: hm_get_def hm_ok_def split: prod.split)
  qed
qed (simp add: hm_get_def)

text \<open>
  After a key is revoked by a name that no other key has, no request is let through with it, at any
  time, on a path that is not public; all other keys are validated as before.
\<close>

theorem revoked_key_is_refused:
  assumes ct: "\<forall>a b. ct_eq a b = (a = b)" and ok: "hm_ok store" and k: "hm_get store key = Some k"
    and unique: "\<forall>(key', k') \<in> set store. ak_name k' = ak_name k \<longrightarrow> key' = key"
    and path: "\<not> is_public_path config path" and given: "extract_api_key header config = Some key"
  shows "auth_middleware ct_eq now config (snd (revoke (ak_name k) store)) path header =
    Inl (unauthorized ''Invalid API key'')"
proof -
  have "hm_get (snd (revoke (ak_name k) store)) key = Some (k\<lparr>ak_active := False\<rparr>)"
    using revoke_get [OF ok k unique] by simp
  then have "validate ct_eq now key (snd (revoke (ak_name k) store)) \<noteq> Some c" for c
    using validate_Some_iff [of ct_eq now key "snd (revoke (ak_name k) store)" c] ct by auto
  then have "validate ct_eq now key (snd (revoke (ak_name k) store)) = None" by blast
  moreover have "snd (revoke (ak_name k) store) \<noteq> []"
    using k revoke_keys [of "ak_name k" store] by (auto simp: hm_get_def)
  ultimately show ?thesis using path given by (simp add: auth_middleware_def store_is_empty_def)
qed

theorem revoked_key_is_refused_witness:
  "auth_middleware (=) 9 auth_config_default (snd (revoke ''read-only'' env_store)) ''/collections'' bearer_look =
     Inl (unauthorized ''Invalid API key'')"
proof -
  let ?k = "api_key_new 0 ''look'' ''read-only'' Reader"
  have "hm_ok env_store" "hm_get env_store ''look'' = Some ?k"
    "\<forall>(key', k') \<in> set env_store. ak_name k' = ak_name ?k \<longrightarrow> key' = ''look''"
    by (simp_all add: env_store_keys hm_ok_def hm_get_def api_key_new_def)
  moreover have "\<not> is_public_path auth_config_default ''/collections''" by (simp add: is_public_path_def auth_config_default_def)
  moreover have "extract_api_key bearer_look auth_config_default = Some ''look''"
    by (simp add: extract_api_key_def bearer_look_def auth_config_default_def)
  ultimately show ?thesis
    using revoked_key_is_refused [of "(=)" env_store "''look''" ?k auth_config_default "''/collections''" bearer_look 9]
    by (simp add: api_key_new_def)
qed

text \<open>
  The roles form a chain: what a reader may do a writer may do, an administrator may do everything.
  The writer's permissions beyond the reader's are to create collections and to insert and delete
  vectors; deleting a collection needs an administrator.  Roles are read back from their names.
\<close>

theorem roles_form_a_chain:
  "{p. has_permission Reader p} \<subset> {p. has_permission Writer p} \<and>
   {p. has_permission Writer p} \<subset> {p. has_permission Admin p} \<and> {p. has_permission Admin p} = UNIV \<and>
   {p. has_permission Writer p} - {p. has_permission Reader p} = {CreateCollection, InsertVectors, DeleteVectors} \<and>
   {r. check_collection_op r OpDelete} = {Admin} \<and> {r. check_vector_op r VecDelete} = {Admin, Writer} \<and>
   {r. role_from_str (\<lambda>s. s) (role_as_str r) = Some r} = UNIV"
proof -
  have r: "{p. has_permission Reader p} = {ListCollections, GetCollectionInfo, SearchVectors, Retrieve, ViewMetrics}"
    by (auto simp: has_permission_def reader_permissions_def)
  have w: "{p. has_permission Writer p} = {CreateCollection, ListCollections, GetCollectionInfo, InsertVectors,
      DeleteVectors, SearchVectors, Retrieve, ViewMetrics}"
    by (auto simp: has_permission_def writer_permissions_def)
  have a: "{p. has_permission Admin p} = UNIV" by (simp add: has_permission_def)
  have ops: "check_collection_op x OpDelete \<longleftrightarrow> x = Admin" "check_vector_op x VecDelete \<longleftrightarrow> x = Admin \<or> x = Writer" for x
    by (cases x; simp add: check_collection_op_def check_vector_op_def has_permission_def writer_permissions_def
        reader_permissions_def)+
  have names: "role_from_str (\<lambda>s. s) (role_as_str x) = Some x" for x
    by (cases x) (simp_all add: role_from_str_def role_as_str_def)
  have "DeleteCollection \<notin> {p. has_permission Writer p}" by (simp add: w)
  then show ?thesis unfolding r w a by (auto simp: ops names)
qed

end
