(* ===== verification/ClusterTopology.thy ===== *)
theory ClusterTopology
  imports HashRing Hnsw
begin

text \<open>
  The topology of a cluster, \<open>src/src/cluster/config.rs\<close>, and the \<open>ClusterManager\<close> of
  \<open>src/src/cluster/mod.rs\<close>: the nodes, the assignment of shards to nodes, and the router.

  A \<open>SocketAddr\<close> is its text.  The standard library's hash of a vector id is the argument \<open>idhash\<close>,
  that of the ring's keys \<open>hash\<close>; the clock and the fresh identifier of a default configuration are
  arguments.  The order of a hash map's list is its order of iteration, which the assignment of
  shards depends on.
\<close>

type_synonym shard_id = u32

datatype node_status = Joining | Active | Suspect | Offline | Leaving

record cluster_config =
  cl_node_id :: string
  cl_bind_addr :: string
  cl_seed_nodes :: "string list"
  cl_shard_count :: nat
  cl_replication_factor :: nat
  cl_heartbeat_interval_ms :: u64
  cl_failure_timeout_ms :: u64

definition cluster_config_default :: "string \<Rightarrow> cluster_config" where
  "cluster_config_default uuid =
     \<lparr>cl_node_id = ''node-'' @ uuid, cl_bind_addr = ''0.0.0.0:7000'', cl_seed_nodes = [], cl_shard_count = 256,
      cl_replication_factor = 3, cl_heartbeat_interval_ms = 1000, cl_failure_timeout_ms = 5000\<rparr>"

record node_info =
  ni_id :: string
  ni_address :: string
  ni_status :: node_status
  ni_shards :: "shard_id list"
  ni_capacity :: nat
  ni_load :: nat
  ni_last_heartbeat :: u64

record topology =
  tp_version :: u64
  tp_shard_to_node :: "(shard_id \<times> string) list"
  tp_shard_replicas :: "(shard_id \<times> string list) list"
  tp_nodes :: "(string \<times> node_info) list"

definition topology_new :: "nat \<Rightarrow> topology" where
  "topology_new shard_count = \<lparr>tp_version = 1, tp_shard_to_node = [], tp_shard_replicas = [], tp_nodes = []\<rparr>"

definition topology_add_node :: "node_info \<Rightarrow> topology \<Rightarrow> topology" where
  "topology_add_node n t = t\<lparr>tp_nodes := hm_insert (ni_id n) n (tp_nodes t), tp_version := tp_version t + 1\<rparr>"

definition topology_remove_node :: "string \<Rightarrow> topology \<Rightarrow> topology" where
  "topology_remove_node nid t =
     t\<lparr>tp_nodes := hm_remove nid (tp_nodes t),
       tp_shard_to_node := filter (\<lambda>(_, n). n \<noteq> nid) (tp_shard_to_node t),
       tp_shard_replicas := map (\<lambda>(s, rs). (s, filter (\<lambda>n. n \<noteq> nid) rs)) (tp_shard_replicas t),
       tp_version := tp_version t + 1\<rparr>"

definition node_for_shard :: "topology \<Rightarrow> shard_id \<Rightarrow> node_info option" where
  "node_for_shard t s =
     (case hm_get (tp_shard_to_node t) s of None \<Rightarrow> None | Some n \<Rightarrow> hm_get (tp_nodes t) n)"

definition owns_shard :: "topology \<Rightarrow> shard_id \<Rightarrow> string \<Rightarrow> bool" where
  "owns_shard t s n \<longleftrightarrow> (case hm_get (tp_shard_to_node t) s of None \<Rightarrow> False | Some m \<Rightarrow> m = n)"

definition active_nodes :: "topology \<Rightarrow> node_info list" where
  "active_nodes t = filter (\<lambda>n. ni_status n = Active) (hm_values (tp_nodes t))"

text \<open>The loop over the shards \<open>0..256\<close>.\<close>

definition assign_shards :: "node_info list \<Rightarrow> shard_id list \<Rightarrow> (shard_id \<times> string) list \<Rightarrow> (shard_id \<times> string) list" where
  "assign_shards nodes shards m =
     fold (\<lambda>s. hm_insert s (ni_id (nodes ! (unat s mod length nodes)))) shards m"

definition rebalance_shards :: "topology \<Rightarrow> topology" where
  "rebalance_shards t =
     (let nodes = active_nodes t
      in if nodes = [] then t
         else t\<lparr>tp_shard_to_node := assign_shards nodes (map of_nat [0..<256]) [],
                tp_version := tp_version t + 1\<rparr>)"

record cluster_state =
  ct_local_node_id :: string
  ct_topology :: topology
  ct_config :: cluster_config

definition cluster_state_new :: "cluster_config \<Rightarrow> cluster_state" where
  "cluster_state_new config =
     \<lparr>ct_local_node_id = cl_node_id config, ct_topology = topology_new (cl_shard_count config), ct_config = config\<rparr>"

text \<open>\<open>0..self.config.shard_count as ShardId\<close>: the count is cut to 32 bits.\<close>

definition shard_ids :: "nat \<Rightarrow> shard_id list" where
  "shard_ids count = map of_nat [0..<unat (of_nat count :: u32)]"

definition state_init_single_node :: "u64 \<Rightarrow> cluster_state \<Rightarrow> cluster_state" where
  "state_init_single_node now_secs s =
     (let count = cl_shard_count (ct_config s);
          node = \<lparr>ni_id = ct_local_node_id s, ni_address = cl_bind_addr (ct_config s), ni_status = Active,
                  ni_shards = shard_ids count, ni_capacity = 100000000, ni_load = 0, ni_last_heartbeat = now_secs\<rparr>;
          t = topology_add_node node (ct_topology s)
      in s\<lparr>ct_topology := t\<lparr>tp_shard_to_node :=
             fold (\<lambda>i. hm_insert i (ct_local_node_id s)) (shard_ids count) (tp_shard_to_node t)\<rparr>\<rparr>)"

definition is_single_node :: "cluster_state \<Rightarrow> bool" where
  "is_single_node s \<longleftrightarrow> length (tp_nodes (ct_topology s)) = 1"

definition local_node :: "cluster_state \<Rightarrow> node_info option" where
  "local_node s = hm_get (tp_nodes (ct_topology s)) (ct_local_node_id s)"

text \<open>The remainder panics when there are no shards.\<close>

definition shard_for_vector :: "(u64 \<Rightarrow> u64) \<Rightarrow> cluster_state \<Rightarrow> u64 \<Rightarrow> shard_id option" where
  "shard_for_vector idhash s vid =
     (let count = (of_nat (cl_shard_count (ct_config s)) :: u64)
      in if count = 0 then None else Some (ucast (idhash vid mod count)))"

subsection \<open>The manager\<close>

record cluster_manager =
  cm_state :: cluster_state
  cm_router :: shard_router

definition cm_new_standalone :: "hasher \<Rightarrow> string \<Rightarrow> u64 \<Rightarrow> cluster_manager" where
  "cm_new_standalone hash uuid now_secs =
     (let s = state_init_single_node now_secs (cluster_state_new (cluster_config_default uuid))
      in \<lparr>cm_state = s, cm_router = router_add_node hash ''standalone'' (router_new (cl_shard_count (ct_config s)))\<rparr>)"

definition cm_new_cluster :: "hasher \<Rightarrow> cluster_config \<Rightarrow> cluster_manager" where
  "cm_new_cluster hash config =
     \<lparr>cm_state = cluster_state_new config,
      cm_router = fold (router_add_node hash) (cl_seed_nodes config)
        (router_add_node hash (cl_node_id config) (router_new (cl_shard_count config)))\<rparr>"

definition cm_init_single_node :: "hasher \<Rightarrow> u64 \<Rightarrow> cluster_manager \<Rightarrow> cluster_manager" where
  "cm_init_single_node hash now_secs m =
     (let s = state_init_single_node now_secs (cm_state m)
      in m\<lparr>cm_state := s, cm_router := router_add_node hash (ct_local_node_id s) (cm_router m)\<rparr>)"

text \<open>\<open>init\<close>; \<open>join_cluster\<close> does nothing yet.\<close>

definition cm_init :: "hasher \<Rightarrow> u64 \<Rightarrow> cluster_manager \<Rightarrow> cluster_manager" where
  "cm_init hash now_secs m =
     (if cl_seed_nodes (ct_config (cm_state m)) \<noteq> [] then m else cm_init_single_node hash now_secs m)"

definition is_cluster_mode :: "cluster_manager \<Rightarrow> bool" where
  "is_cluster_mode m \<longleftrightarrow>
     cl_seed_nodes (ct_config (cm_state m)) \<noteq> [] \<or> length (tp_nodes (ct_topology (cm_state m))) > 1"

definition cm_get_node_for_vector :: "(u64 \<Rightarrow> u64) \<Rightarrow> cluster_manager \<Rightarrow> u64 \<Rightarrow> string option option" where
  "cm_get_node_for_vector idhash m vid =
     map_option (\<lambda>s. map_option ni_id (node_for_shard (ct_topology (cm_state m)) s))
       (shard_for_vector idhash (cm_state m) vid)"

definition cm_owns_vector :: "(u64 \<Rightarrow> u64) \<Rightarrow> cluster_manager \<Rightarrow> u64 \<Rightarrow> bool option" where
  "cm_owns_vector idhash m vid =
     map_option (\<lambda>s. owns_shard (ct_topology (cm_state m)) s (ct_local_node_id (cm_state m)))
       (shard_for_vector idhash (cm_state m) vid)"

definition cm_topology_version :: "cluster_manager \<Rightarrow> u64" where
  "cm_topology_version m = tp_version (ct_topology (cm_state m))"

definition cm_add_node :: "hasher \<Rightarrow> node_info \<Rightarrow> cluster_manager \<Rightarrow> cluster_manager" where
  "cm_add_node hash n m =
     (let s = cm_state m;
          t = rebalance_shards (topology_add_node n (ct_topology s))
      in m\<lparr>cm_state := s\<lparr>ct_topology := t\<rparr>, cm_router := router_add_node hash (ni_id n) (cm_router m)\<rparr>)"

definition cm_remove_node :: "hasher \<Rightarrow> string \<Rightarrow> cluster_manager \<Rightarrow> cluster_manager" where
  "cm_remove_node hash nid m =
     (let s = cm_state m;
          t = rebalance_shards (topology_remove_node nid (ct_topology s))
      in m\<lparr>cm_state := s\<lparr>ct_topology := t\<rparr>, cm_router := router_remove_node hash nid (cm_router m)\<rparr>)"

record cluster_stats =
  cs_node_count :: nat
  cs_active_node_count :: nat
  cs_shard_count :: nat
  cs_topology_version :: u64
  cs_is_single_node :: bool

definition cm_stats :: "cluster_manager \<Rightarrow> cluster_stats" where
  "cm_stats m =
     (let t = ct_topology (cm_state m)
      in \<lparr>cs_node_count = length (tp_nodes t), cs_active_node_count = length (active_nodes t),
          cs_shard_count = cl_shard_count (ct_config (cm_state m)), cs_topology_version = tp_version t,
          cs_is_single_node = (length (tp_nodes t) = 1)\<rparr>)"

end
