(* ===== verification/TopologyClaims.thy ===== *)
theory TopologyClaims
  imports ClusterTopology
begin

text \<open>
  The properties of the topology: the assignment of shards is total and balanced, its owners are nodes
  of the cluster after any joins and leaves, and it depends on the order of a hash map.
\<close>

subsection \<open>The assignment\<close>

lemma hm_get_assign:
  "hm_get (assign_shards nodes shards m) s =
     (if s \<in> set shards then Some (ni_id (nodes ! (unat s mod length nodes))) else hm_get m s)"
  unfolding assign_shards_def by (induction shards arbitrary: m) auto

lemma hm_ok_assign: "hm_ok m \<Longrightarrow> hm_ok (assign_shards nodes shards m)"
  unfolding assign_shards_def by (induction shards arbitrary: m) auto

lemma shard_in_256: "(s :: shard_id) \<in> set (map of_nat [0..<256]) \<longleftrightarrow> unat s < 256"
proof
  assume "s \<in> set (map of_nat [0..<256])"
  then obtain i where "s = of_nat i" "i < 256" by auto
  then show "unat s < 256" by (simp add: unat_of_nat_u32)
next
  assume "unat s < 256"
  then show "s \<in> set (map of_nat [0..<256])" by (auto intro: image_eqI [of _ _ "unat s"])
qed

lemma rebalance_owner:
  assumes "active_nodes t \<noteq> []"
  shows "hm_get (tp_shard_to_node (rebalance_shards t)) s =
    (if unat s < 256 then Some (ni_id (active_nodes t ! (unat s mod length (active_nodes t)))) else None)"
  using assms by (simp add: rebalance_shards_def Let_def hm_get_assign shard_in_256 del: set_map)

lemma rebalance_nodes [simp]: "tp_nodes (rebalance_shards t) = tp_nodes t"
  by (simp add: rebalance_shards_def Let_def)

text \<open>How many numbers below \<open>m\<close> have remainder \<open>i\<close>.\<close>

lemma card_residues:
  fixes n :: nat
  assumes "i < n"
  shows "card {s. s < m \<and> s mod n = i} = (if i < m mod n then m div n + 1 else m div n)"
proof (induction m)
  case (Suc m)
  have fin: "finite {s. s < m \<and> s mod n = i}" by simp
  have split: "{s. s < Suc m \<and> s mod n = i} =
      (if m mod n = i then insert m {s. s < m \<and> s mod n = i} else {s. s < m \<and> s mod n = i})"
    by (auto simp: less_Suc_eq)
  have "Suc m mod n = (if Suc (m mod n) = n then 0 else Suc (m mod n))"
    "Suc m div n = (if Suc (m mod n) = n then Suc (m div n) else m div n)"
    using assms by (simp_all add: mod_Suc div_Suc)
  with Suc assms fin split show ?case by (auto split: if_splits)
qed simp

text \<open>
  C28.  Rebalancing with at least one active node gives every shard below 256 exactly one owner, an active
  node, and every active node \<open>256 div n\<close> shards or one more, where \<open>n\<close> is the number of active
  nodes; no other shard has an owner.
\<close>

theorem rebalance_total_and_balanced:
  assumes "active_nodes t \<noteq> []" and "distinct (map ni_id (active_nodes t))" and "n \<in> set (active_nodes t)"
  defines "owned \<equiv> {s. hm_get (tp_shard_to_node (rebalance_shards t)) s = Some (ni_id n)}"
  shows "dom (hm_get (tp_shard_to_node (rebalance_shards t))) = {s. unat s < 256} \<and>
    ran (hm_get (tp_shard_to_node (rebalance_shards t))) \<subseteq> ni_id ` set (active_nodes t) \<and>
    card owned \<in> {256 div length (active_nodes t), 256 div length (active_nodes t) + 1}"
proof (intro conjI)
  let ?nodes = "active_nodes t"
  have mod: "unat (s :: shard_id) mod length ?nodes < length ?nodes" for s using assms(1) by simp
  show "dom (hm_get (tp_shard_to_node (rebalance_shards t))) = {s. unat s < 256}"
    by (auto simp: rebalance_owner [OF assms(1)] dom_def)
  show "ran (hm_get (tp_shard_to_node (rebalance_shards t))) \<subseteq> ni_id ` set ?nodes"
    using mod by (auto simp: rebalance_owner [OF assms(1)] ran_def)
  obtain i where i: "i < length ?nodes" "?nodes ! i = n" using assms(3) by (auto simp: in_set_conv_nth)
  have "ni_id (?nodes ! j) = ni_id n \<longleftrightarrow> j = i" if "j < length ?nodes" for j
    using nth_eq_iff_index_eq [OF assms(2), of j i] that i by simp
  then have "owned = {s :: shard_id. unat s < 256 \<and> unat s mod length ?nodes = i}"
    using mod by (auto simp: owned_def rebalance_owner [OF assms(1)])
  moreover have "x \<in> unat ` {s :: shard_id. unat s < 256 \<and> unat s mod length ?nodes = i}"
    if "x < 256" "x mod length ?nodes = i" for x
    using that by (intro image_eqI [of _ _ "of_nat x"]) (simp_all add: unat_of_nat_u32)
  ultimately have "unat ` owned = {s. s < 256 \<and> s mod length ?nodes = i}" by auto
  moreover have "inj_on unat owned" by (rule inj_onI) (metis word_unat_eq_iff)
  ultimately have "card owned = card {s. s < 256 \<and> s mod length ?nodes = i}" by (metis card_image)
  then show "card owned \<in> {256 div length ?nodes, 256 div length ?nodes + 1}"
    by (simp add: card_residues [OF i(1)])
qed

subsection \<open>Joins and leaves\<close>

datatype cluster_op = Join node_info | Leave string

definition cluster_apply :: "hasher \<Rightarrow> cluster_op \<Rightarrow> cluster_manager \<Rightarrow> cluster_manager" where
  "cluster_apply hash p m = (case p of Join n \<Rightarrow> cm_add_node hash n m | Leave nid \<Rightarrow> cm_remove_node hash nid m)"

definition topology_ok :: "topology \<Rightarrow> bool" where
  "topology_ok t \<longleftrightarrow>
     hm_ok (tp_nodes t) \<and> (\<forall>nid n. hm_get (tp_nodes t) nid = Some n \<longrightarrow> ni_id n = nid) \<and>
     ran (hm_get (tp_shard_to_node t)) \<subseteq> fst ` set (tp_nodes t)"

lemma hm_get_filter_values:
  "hm_ok m \<Longrightarrow> hm_get (filter (\<lambda>(_, v). P v) m) k = (case hm_get m k of None \<Rightarrow> None | Some v \<Rightarrow> if P v then Some v else None)"
proof (induction m)
  case (Cons e m)
  then show ?case
    by (cases e) (auto simp: hm_ok_def hm_get_def map_of_eq_None_iff image_iff split: option.splits)
qed simp

lemma active_ids: "topology_ok t \<Longrightarrow> n \<in> set (active_nodes t) \<Longrightarrow> hm_get (tp_nodes t) (ni_id n) = Some n"
proof -
  assume ok: "topology_ok t" and "n \<in> set (active_nodes t)"
  then obtain nid where "(nid, n) \<in> set (tp_nodes t)" by (auto simp: active_nodes_def hm_values_def)
  then have "hm_get (tp_nodes t) nid = Some n" using ok by (simp add: topology_ok_def hm_get_iff)
  with ok show ?thesis by (simp add: topology_ok_def)
qed

lemma active_distinct: "topology_ok t \<Longrightarrow> distinct (map ni_id (active_nodes t))"
proof -
  assume ok: "topology_ok t"
  have "map ni_id (hm_values (tp_nodes t)) = map fst (tp_nodes t)"
    using ok by (auto simp: topology_ok_def hm_values_def hm_get_iff)
  then have "distinct (map ni_id (hm_values (tp_nodes t)))" using ok by (simp add: topology_ok_def hm_ok_def)
  then show ?thesis unfolding active_nodes_def by (rule distinct_map_filter)
qed

lemma rebalance_ok:
  assumes ok: "topology_ok t"
  shows "topology_ok (rebalance_shards t)"
proof (cases "active_nodes t = []")
  case True
  then show ?thesis using ok by (simp add: rebalance_shards_def Let_def)
next
  case False
  then have "ran (hm_get (tp_shard_to_node (rebalance_shards t))) \<subseteq> ni_id ` set (active_nodes t)"
    by (auto simp: rebalance_owner ran_def)
  also have "\<dots> \<subseteq> fst ` set (tp_nodes t)"
    using active_ids [OF ok] by (force dest: hm_get_mem)
  finally show ?thesis using ok by (simp add: topology_ok_def)
qed

lemma topology_add_ok: "topology_ok t \<Longrightarrow> topology_ok (topology_add_node n t)"
  by (auto simp: topology_ok_def topology_add_node_def split: if_splits)

lemma topology_remove_ok:
  assumes "topology_ok t" and "hm_ok (tp_shard_to_node t)"
  shows "topology_ok (topology_remove_node nid t)"
proof -
  have "ran (hm_get (filter (\<lambda>(_, n). n \<noteq> nid) (tp_shard_to_node t))) \<subseteq> fst ` set (tp_nodes t) - {nid}"
  proof
    fix n assume "n \<in> ran (hm_get (filter (\<lambda>(_, n). n \<noteq> nid) (tp_shard_to_node t)))"
    then obtain s where "hm_get (tp_shard_to_node t) s = Some n" "n \<noteq> nid"
      by (auto simp: ran_def hm_get_filter_values [OF assms(2)] split: option.splits if_splits)
    then show "n \<in> fst ` set (tp_nodes t) - {nid}" using assms(1) by (auto simp: topology_ok_def ran_def)
  qed
  then show ?thesis using assms(1) unfolding topology_ok_def topology_remove_node_def by simp
qed

lemma hm_get_empty_ran: "ran (hm_get []) = {}"
  by (simp add: ran_def)

lemma hm_get_Cons: "hm_get ((k, v) # m) j = (if j = k then Some v else hm_get m j)"
  by (simp add: hm_get_def)

lemma fold_insert_ok: "hm_ok m \<Longrightarrow> hm_ok (fold (\<lambda>i. hm_insert i v) is m)"
  by (induction "is" arbitrary: m) simp_all

lemma fold_insert_ran: "ran (hm_get (fold (\<lambda>i. hm_insert i v) is m)) \<subseteq> insert v (ran (hm_get m))"
proof -
  have "hm_get (fold (\<lambda>i. hm_insert i v) is m) k = (if k \<in> set is then Some v else hm_get m k)" for k
    by (induction "is" arbitrary: m) auto
  then show ?thesis by (auto simp: ran_def)
qed

lemma init_single_node_ok:
  "topology_ok (ct_topology (state_init_single_node now (cluster_state_new config))) \<and>
   hm_ok (tp_shard_to_node (ct_topology (state_init_single_node now (cluster_state_new config))))"
  using fold_insert_ran [of "cl_node_id config" "shard_ids (cl_shard_count config)" "[]", unfolded hm_get_empty_ran]
  by (auto simp: topology_ok_def state_init_single_node_def cluster_state_new_def topology_add_node_def topology_new_def
      Let_def fold_insert_ok hm_get_Cons hm_ok_def [of "[_]"] split: if_splits)

lemma rebalance_shards_ok: "hm_ok (tp_shard_to_node t) \<Longrightarrow> hm_ok (tp_shard_to_node (rebalance_shards t))"
  by (simp add: rebalance_shards_def Let_def hm_ok_assign)

lemma cluster_apply_rebalances:
  "\<exists>t. ct_topology (cm_state (cluster_apply hash p m)) = rebalance_shards t \<and>
     (topology_ok (ct_topology (cm_state m)) \<and> hm_ok (tp_shard_to_node (ct_topology (cm_state m))) \<longrightarrow>
      topology_ok t \<and> hm_ok (tp_shard_to_node t))"
proof (cases p)
  case (Join n)
  then show ?thesis
    by (intro exI [of _ "topology_add_node n (ct_topology (cm_state m))"])
      (simp add: cluster_apply_def cm_add_node_def Let_def topology_add_ok, simp add: topology_add_node_def)
next
  case (Leave nid)
  have "hm_ok xs \<Longrightarrow> hm_ok (filter P xs)" for P and xs :: "(shard_id \<times> string) list"
    by (simp add: hm_ok_def distinct_map_filter)
  with Leave show ?thesis
    by (intro exI [of _ "topology_remove_node nid (ct_topology (cm_state m))"])
      (simp add: cluster_apply_def cm_remove_node_def Let_def topology_remove_ok, simp add: topology_remove_node_def)
qed

lemma cluster_ops_ok:
  assumes "topology_ok (ct_topology (cm_state m))" and "hm_ok (tp_shard_to_node (ct_topology (cm_state m)))"
  shows "topology_ok (ct_topology (cm_state (fold (cluster_apply hash) ps m))) \<and>
    hm_ok (tp_shard_to_node (ct_topology (cm_state (fold (cluster_apply hash) ps m))))"
  using assms
proof (induction ps arbitrary: m)
  case (Cons p ps)
  obtain t where "ct_topology (cm_state (cluster_apply hash p m)) = rebalance_shards t"
    "topology_ok t" "hm_ok (tp_shard_to_node t)"
    using cluster_apply_rebalances Cons.prems by blast
  then have "topology_ok (ct_topology (cm_state (cluster_apply hash p m)))"
    "hm_ok (tp_shard_to_node (ct_topology (cm_state (cluster_apply hash p m))))"
    by (simp_all add: rebalance_ok rebalance_shards_ok)
  with Cons.IH show ?case by simp
qed simp

text \<open>The shards are all owned by active nodes, if there are any.\<close>

definition all_shards_active :: "topology \<Rightarrow> bool" where
  "all_shards_active t \<longleftrightarrow>
     active_nodes t = [] \<or>
     dom (hm_get (tp_shard_to_node t)) = {s. unat s < 256} \<and>
     ran (hm_get (tp_shard_to_node t)) \<subseteq> ni_id ` set (active_nodes t)"

lemma rebalance_all_active: "all_shards_active (rebalance_shards t)"
proof -
  have "active_nodes (rebalance_shards t) = active_nodes t" by (simp add: active_nodes_def)
  then show ?thesis by (auto simp: all_shards_active_def rebalance_owner dom_def ran_def split: if_splits)
qed

text \<open>
  C25.  After any sequence of joins and leaves, in a stand-alone manager or in a cluster's, each node is
  stored under its own id, no shard is assigned to a node that has left, and while the cluster has an
  active node every shard below 256 belongs to an active node.
\<close>

theorem topology_stays_well_formed:
  "topology_ok (ct_topology (cm_state (fold (cluster_apply hash) (ps @ [p]) (cm_new_cluster hash config)))) \<and>
   all_shards_active (ct_topology (cm_state (fold (cluster_apply hash) (ps @ [p]) (cm_new_cluster hash config)))) \<and>
   topology_ok (ct_topology (cm_state (fold (cluster_apply hash) (ps @ [p]) (cm_new_standalone hash uuid now)))) \<and>
   all_shards_active (ct_topology (cm_state (fold (cluster_apply hash) (ps @ [p]) (cm_new_standalone hash uuid now))))"
proof -
  have active: "all_shards_active (ct_topology (cm_state (fold (cluster_apply hash) (ps @ [p]) m)))" for m
    using cluster_apply_rebalances [of hash p "fold (cluster_apply hash) ps m"] rebalance_all_active by fastforce
  have "topology_ok (ct_topology (cm_state (cm_new_cluster hash config)))"
    "hm_ok (tp_shard_to_node (ct_topology (cm_state (cm_new_cluster hash config))))"
    by (simp_all add: cm_new_cluster_def cluster_state_new_def topology_new_def topology_ok_def ran_def)
  moreover have "topology_ok (ct_topology (cm_state (cm_new_standalone hash uuid now)))"
    "hm_ok (tp_shard_to_node (ct_topology (cm_state (cm_new_standalone hash uuid now))))"
    using init_single_node_ok by (simp_all add: cm_new_standalone_def Let_def)
  ultimately show ?thesis using active cluster_ops_ok by blast
qed

text \<open>
  The assignment depends on the order in which the hash map of the nodes is iterated.  With two active
  nodes or more, a replica whose map has the same nodes in the reverse order gives shard 0 to another
  node: the replicas of a replicated command do not agree.
\<close>

theorem assignment_depends_on_map_order:
  assumes ok: "topology_ok t" and two: "2 \<le> length (active_nodes t)"
  shows "hm_get (rev (tp_nodes t)) = hm_get (tp_nodes t) \<and>
    node_for_shard (rebalance_shards (t\<lparr>tp_nodes := rev (tp_nodes t)\<rparr>)) 0 \<noteq> node_for_shard (rebalance_shards t) 0"
proof -
  let ?t = "t\<lparr>tp_nodes := rev (tp_nodes t)\<rparr>" and ?nodes = "active_nodes t"
  have dist: "distinct (map fst (tp_nodes t))" using ok by (simp add: topology_ok_def hm_ok_def)
  have same: "hm_get (rev (tp_nodes t)) = hm_get (tp_nodes t)"
    unfolding hm_get_def using dist by (auto simp: map_of_inject_set rev_map [symmetric])
  have rev: "active_nodes ?t = rev ?nodes" by (simp add: active_nodes_def hm_values_def rev_map rev_filter)
  have ne: "?nodes \<noteq> []" using two by auto
  have first: "hm_get (tp_shard_to_node (rebalance_shards t)) 0 = Some (ni_id (hd ?nodes))"
    using ne by (simp add: rebalance_owner hd_conv_nth)
  have last: "hm_get (tp_shard_to_node (rebalance_shards ?t)) 0 = Some (ni_id (last ?nodes))"
    using ne rebalance_owner [of ?t 0] by (simp add: rev hd_rev flip: hd_conv_nth)
  have mem: "hd ?nodes \<in> set ?nodes" "last ?nodes \<in> set ?nodes" using ne by simp_all
  have "node_for_shard (rebalance_shards t) 0 = Some (hd ?nodes)"
    using active_ids [OF ok mem(1)] by (simp add: node_for_shard_def first)
  moreover have "node_for_shard (rebalance_shards ?t) 0 = Some (last ?nodes)"
    using active_ids [OF ok mem(2)] by (simp add: node_for_shard_def last same)
  moreover have "hd ?nodes \<noteq> last ?nodes"
  proof -
    obtain a b ns where "?nodes = a # b # ns" using two by (metis Suc_le_length_iff numeral_2_eq_2)
    moreover have "distinct ?nodes" using active_distinct [OF ok] by (simp add: distinct_map)
    ultimately show ?thesis by auto
  qed
  ultimately show ?thesis using same by simp
qed

subsection \<open>Witnesses\<close>

definition sample_node :: "string \<Rightarrow> node_info" where
  "sample_node nid = \<lparr>ni_id = nid, ni_address = ''127.0.0.1:7000'', ni_status = Active, ni_shards = [], ni_capacity = 0,
     ni_load = 0, ni_last_heartbeat = 0\<rparr>"

definition two_nodes :: topology where
  "two_nodes = topology_add_node (sample_node ''b'') (topology_add_node (sample_node ''a'') (topology_new 256))"

lemma two_nodes_active: "active_nodes two_nodes = [sample_node ''a'', sample_node ''b'']" "topology_ok two_nodes"
  by (auto simp: two_nodes_def topology_add_node_def topology_new_def active_nodes_def hm_values_def sample_node_def
      topology_ok_def ran_def hm_get_Cons hm_ok_def [of "[_, _]"] split: if_splits)

theorem rebalance_total_and_balanced_witness:
  "dom (hm_get (tp_shard_to_node (rebalance_shards two_nodes))) = {s. unat s < 256} \<and>
   card {s. hm_get (tp_shard_to_node (rebalance_shards two_nodes)) s = Some ''a''} \<in> {128, 129}"
  using rebalance_total_and_balanced [of two_nodes "sample_node ''a''"]
  by (simp add: two_nodes_active) (simp add: sample_node_def numeral_2_eq_2 [symmetric])

theorem assignment_depends_on_map_order_witness:
  "node_for_shard (rebalance_shards (two_nodes\<lparr>tp_nodes := rev (tp_nodes two_nodes)\<rparr>)) 0 \<noteq>
   node_for_shard (rebalance_shards two_nodes) 0"
  using assignment_depends_on_map_order [of two_nodes] by (simp add: two_nodes_active)

end
