(* ===== verification/RaftRuntime.thy ===== *)
theory RaftRuntime
  imports RaftNode
begin

text \<open>
  The runtime that drives a consensus node, \<open>RaftRuntime\<close> of \<open>src/src/cluster/raft/runtime.rs\<close>,
  with its commands from \<open>src/src/cluster/raft/mod.rs\<close>: ticks, commands, messages, the handling of
  \<open>Ready\<close>, the answers to waiting proposals and reads, and the trigger of snapshots.

  One iteration of the event loop is one call of \<open>runtime_event\<close>.  The applied state machine and its
  operations are the argument \<open>ap\<close> (the trait \<open>Apply\<close>); a message given to the transport is
  appended to \<open>rt_sent\<close>, whether it arrives or not.  A \<open>oneshot\<close> channel is a number, an answer
  sent over it an entry of \<open>rt_answers\<close>.  The storage is never used by the runtime.  The clock and
  the drawn timeout are arguments; \<open>None\<close> is a panic.
\<close>

record 'a apply_ops =
  ap_apply :: "log_entry list \<Rightarrow> 'a \<Rightarrow> (unit res \<times> 'a) option"
  ap_apply_snapshot :: "snapshot \<Rightarrow> 'a \<Rightarrow> (unit res \<times> 'a) option"
  ap_snapshot :: "'a \<Rightarrow> (log_index \<times> u8 list) res"

record snapshot_config =
  sc_interval :: u64
  sc_max_retained :: u64
  sc_min_interval :: nat

definition snapshot_config_default :: snapshot_config where
  "snapshot_config_default = \<lparr>sc_interval = 10000, sc_max_retained = 1000, sc_min_interval = 60000\<rparr>"

record raft_status =
  rst_id :: node_id
  rst_state :: raft_state
  rst_term :: raft_term
  rst_leader_id :: node_id
  rst_commit_index :: log_index
  rst_applied_index :: log_index
  rst_last_index :: log_index

datatype answer = AnsPropose log_index raft_term | AnsRead log_index raft_term | AnsStatus raft_status

datatype raft_command =
    CmdPropose "u8 list" nat
  | CmdReadIndex "u8 list" nat
  | CmdStatus nat
  | CmdStepDown
  | CmdSnapshot
  | CmdShutdown

record 'a runtime =
  rt_node :: raft_node
  rt_machine :: 'a
  rt_sent :: "message list"
  rt_answers :: "(nat \<times> answer) list"
  rt_snapshot_config :: snapshot_config
  rt_last_snapshot :: nat
  rt_proposals :: "(log_index \<times> nat) list"
  rt_reads :: "(log_index \<times> nat) list"
  rt_shutdown :: bool

type_synonym 'a rt_result = "(unit res \<times> 'a runtime) option"

definition runtime_new :: "raft_node \<Rightarrow> 'a \<Rightarrow> nat \<Rightarrow> 'a runtime" where
  "runtime_new n machine now =
     \<lparr>rt_node = n, rt_machine = machine, rt_sent = [], rt_answers = [],
      rt_snapshot_config = snapshot_config_default, rt_last_snapshot = now, rt_proposals = [], rt_reads = [],
      rt_shutdown = False\<rparr>"

definition with_snapshot_config :: "snapshot_config \<Rightarrow> 'a runtime \<Rightarrow> 'a runtime" where
  "with_snapshot_config c r = r\<lparr>rt_snapshot_config := c\<rparr>"

definition create_memory_runtime :: "node_id \<Rightarrow> node_id list \<Rightarrow> 'a \<Rightarrow> nat \<Rightarrow> nat \<Rightarrow> 'a runtime" where
  "create_memory_runtime nid voters machine now rt =
     runtime_new (raft_new_with_conf (three_node_config nid) voters now rt) machine now"

subsection \<open>Handling a ready\<close>

text \<open>\<open>persist_hard_state\<close> and \<open>persist_entries\<close> write a trace message and nothing else.\<close>

definition persist_hard_state :: "hard_state \<Rightarrow> 'a runtime \<Rightarrow> 'a runtime" where
  "persist_hard_state hs r = r"

definition persist_entries :: "log_entry list \<Rightarrow> 'a runtime \<Rightarrow> 'a runtime" where
  "persist_entries es r = r"

definition send_messages :: "message list \<Rightarrow> 'a runtime \<Rightarrow> 'a runtime" where
  "send_messages ms r = r\<lparr>rt_sent := rt_sent r @ ms\<rparr>"

definition send_heartbeats :: "'a runtime \<Rightarrow> 'a runtime" where
  "send_heartbeats r =
     (let n = rt_node r
      in if \<not> is_leader n then r
         else r\<lparr>rt_sent := rt_sent r @
                map (\<lambda>peer. (message_new Heartbeat (rn_id n) peer (rn_term n))\<lparr>msg_commit := rn_commit_index n\<rparr>)
                  (filter (\<lambda>peer. peer \<noteq> rn_id n) (cs_voters (rn_conf_state n)))\<rparr>)"

definition notify_proposals :: "log_entry list \<Rightarrow> 'a runtime \<Rightarrow> 'a runtime" where
  "notify_proposals es r =
     (let committed = set (map le_index es);
          term_now = rn_term (rt_node r)
      in r\<lparr>rt_answers := rt_answers r @
             map (\<lambda>(i, ch). (ch, AnsPropose i term_now)) (filter (\<lambda>(i, ch). i \<in> committed) (rt_proposals r)),
           rt_proposals := filter (\<lambda>(i, ch). i \<notin> committed) (rt_proposals r)\<rparr>)"

text \<open>\<open>pending_reads.remove(i)\<close> at the first position whose index is committed.\<close>

fun take_read :: "log_index \<Rightarrow> (log_index \<times> nat) list \<Rightarrow> (nat \<times> (log_index \<times> nat) list) option" where
  "take_read commit [] = None"
| "take_read commit ((i, ch) # reads) =
     (if i \<le> commit then Some (ch, reads)
      else map_option (\<lambda>(c, rest). (c, (i, ch) # rest)) (take_read commit reads))"

fun notify_reads :: "read_state list \<Rightarrow> 'a runtime \<Rightarrow> 'a runtime" where
  "notify_reads [] r = r"
| "notify_reads (read # reads) r =
     notify_reads reads
       (case take_read (rn_commit_index (rt_node r)) (rt_reads r) of
          None \<Rightarrow> r
        | Some (ch, rest) \<Rightarrow>
            r\<lparr>rt_reads := rest,
              rt_answers := rt_answers r @ [(ch, AnsRead (rs_index read) (rn_term (rt_node r)))]\<rparr>)"

text \<open>The data of a snapshot is created and dropped.\<close>

definition trigger_snapshot :: "'a apply_ops \<Rightarrow> nat \<Rightarrow> 'a runtime \<Rightarrow> unit res \<times> 'a runtime" where
  "trigger_snapshot ap now r =
     (case ap_snapshot ap (rt_machine r) of
        Inl err \<Rightarrow> (Inl err, r)
      | Inr _ \<Rightarrow> (Inr (), r\<lparr>rt_last_snapshot := now\<rparr>))"

definition maybe_snapshot :: "'a apply_ops \<Rightarrow> nat \<Rightarrow> 'a runtime \<Rightarrow> unit res \<times> 'a runtime" where
  "maybe_snapshot ap now r =
     (if now - rt_last_snapshot r < sc_min_interval (rt_snapshot_config r) then (Inr (), r)
      else if rn_last_applied (rt_node r) \<ge> sc_interval (rt_snapshot_config r) then trigger_snapshot ap now r
      else (Inr (), r))"

definition apply_committed :: "'a apply_ops \<Rightarrow> nat \<Rightarrow> log_entry list \<Rightarrow> 'a runtime \<Rightarrow> 'a rt_result" where
  "apply_committed ap now es r =
     (if es = [] then Some (Inr (), r)
      else
        (case ap_apply ap es (rt_machine r) of
           None \<Rightarrow> None
         | Some (Inl err, a) \<Rightarrow> Some (Inl err, r\<lparr>rt_machine := a\<rparr>)
         | Some (Inr _, a) \<Rightarrow> Some (maybe_snapshot ap now (notify_proposals es (r\<lparr>rt_machine := a\<rparr>)))))"

definition handle_snapshot :: "'a apply_ops \<Rightarrow> snapshot option \<Rightarrow> 'a runtime \<Rightarrow> 'a rt_result" where
  "handle_snapshot ap sn r =
     (case sn of
        None \<Rightarrow> Some (Inr (), r)
      | Some s \<Rightarrow> map_option (\<lambda>(res, a). (res, r\<lparr>rt_machine := a\<rparr>)) (ap_apply_snapshot ap s (rt_machine r)))"

definition finish_reads :: "'a runtime \<Rightarrow> 'a runtime" where
  "finish_reads r =
     (let (reads, n) = take_read_states (rt_node r) in notify_reads reads (r\<lparr>rt_node := n\<rparr>))"

definition handle_ready :: "'a apply_ops \<Rightarrow> nat \<Rightarrow> ready \<Rightarrow> 'a runtime \<Rightarrow> 'a rt_result" where
  "handle_ready ap now rd r0 =
     (let r1 = (case rd_hard_state rd of None \<Rightarrow> r0 | Some hs \<Rightarrow> persist_hard_state hs r0);
          r2 = (if rd_entries rd \<noteq> [] then persist_entries (rd_entries rd) r1 else r1);
          r3 = (if rd_messages rd \<noteq> [] then send_messages (rd_messages rd) r2 else r2)
      in case apply_committed ap now (rd_committed rd) r3 of
           None \<Rightarrow> None
         | Some (Inl err, r4) \<Rightarrow> Some (Inl err, r4)
         | Some (Inr _, r4) \<Rightarrow>
             (case handle_snapshot ap (rd_snapshot rd) r4 of
                None \<Rightarrow> None
              | Some (Inl err, r5) \<Rightarrow> Some (Inl err, r5)
              | Some (Inr _, r5) \<Rightarrow> Some (Inr (), finish_reads r5)))"

definition process_ready :: "'a apply_ops \<Rightarrow> nat \<Rightarrow> 'a runtime \<Rightarrow> 'a rt_result" where
  "process_ready ap now r =
     (let (rd, n) = raft_ready (rt_node r); r1 = r\<lparr>rt_node := n\<rparr>
      in case rd of Some ready \<Rightarrow> handle_ready ap now ready r1 | None \<Rightarrow> Some (Inr (), send_heartbeats r1))"

subsection \<open>Events\<close>

definition on_tick :: "'a apply_ops \<Rightarrow> nat \<Rightarrow> nat \<Rightarrow> 'a runtime \<Rightarrow> 'a rt_result" where
  "on_tick ap now rt r =
     (let (needs_action, n) = raft_tick now rt (rt_node r); r1 = r\<lparr>rt_node := n\<rparr>
      in if needs_action then process_ready ap now r1 else Some (Inr (), r1))"

definition on_propose :: "'a apply_ops \<Rightarrow> nat \<Rightarrow> u8 list \<Rightarrow> nat \<Rightarrow> 'a runtime \<Rightarrow> 'a rt_result" where
  "on_propose ap now data ch r =
     (case raft_propose data (rt_node r) of
        (Inr index, n) \<Rightarrow>
          process_ready ap now (r\<lparr>rt_node := n, rt_proposals := rt_proposals r @ [(index, ch)]\<rparr>)
      | (Inl _, n) \<Rightarrow> Some (Inr (), r\<lparr>rt_node := n, rt_answers := rt_answers r @ [(ch, AnsPropose 0 0)]\<rparr>))"

definition on_read_index :: "'a apply_ops \<Rightarrow> nat \<Rightarrow> u8 list \<Rightarrow> nat \<Rightarrow> 'a runtime \<Rightarrow> 'a rt_result" where
  "on_read_index ap now ctx ch r =
     (case raft_read_index ctx (rt_node r) of
        (Inr _, n) \<Rightarrow>
          process_ready ap now (r\<lparr>rt_node := n, rt_reads := rt_reads r @ [(rn_commit_index n, ch)]\<rparr>)
      | (Inl _, n) \<Rightarrow> Some (Inr (), r\<lparr>rt_node := n, rt_answers := rt_answers r @ [(ch, AnsRead 0 0)]\<rparr>))"

definition status_of :: "raft_node \<Rightarrow> raft_status" where
  "status_of n =
     (let m = raft_node_metrics n
      in \<lparr>rst_id = rn_id n, rst_state = rm_state m, rst_term = rm_term m, rst_leader_id = rm_leader_id m,
          rst_commit_index = rm_commit_index m, rst_applied_index = rm_applied_index m,
          rst_last_index = rm_last_index m\<rparr>)"

definition on_command :: "'a apply_ops \<Rightarrow> nat \<Rightarrow> raft_command \<Rightarrow> 'a runtime \<Rightarrow> 'a rt_result" where
  "on_command ap now cmd r =
     (case cmd of
        CmdPropose data ch \<Rightarrow> on_propose ap now data ch r
      | CmdReadIndex ctx ch \<Rightarrow> on_read_index ap now ctx ch r
      | CmdStatus ch \<Rightarrow> Some (Inr (), r\<lparr>rt_answers := rt_answers r @ [(ch, AnsStatus (status_of (rt_node r)))]\<rparr>)
      | CmdStepDown \<Rightarrow> Some (Inr (), r)
      | CmdSnapshot \<Rightarrow> Some (trigger_snapshot ap now r)
      | CmdShutdown \<Rightarrow> Some (Inr (), r\<lparr>rt_shutdown := True\<rparr>))"

definition on_message :: "'a apply_ops \<Rightarrow> nat \<Rightarrow> nat \<Rightarrow> message \<Rightarrow> 'a runtime \<Rightarrow> 'a rt_result" where
  "on_message ap now rt m r =
     (case raft_step now rt m (rt_node r) of
        None \<Rightarrow> None
      | Some (rd, n) \<Rightarrow>
          (let r1 = r\<lparr>rt_node := n\<rparr>
           in case rd of None \<Rightarrow> Some (Inr (), r1) | Some ready \<Rightarrow> handle_ready ap now ready r1))"

text \<open>One turn of \<open>run\<close>: what \<open>select!\<close> chose, with the clock and the drawn timeout.\<close>

datatype runtime_event = EvTick | EvCommand raft_command | EvMessage message

definition runtime_event :: "'a apply_ops \<Rightarrow> nat \<Rightarrow> nat \<Rightarrow> runtime_event \<Rightarrow> 'a runtime \<Rightarrow> 'a rt_result" where
  "runtime_event ap now rt ev r =
     (case ev of
        EvTick \<Rightarrow> on_tick ap now rt r
      | EvCommand cmd \<Rightarrow> on_command ap now cmd r
      | EvMessage m \<Rightarrow> on_message ap now rt m r)"

text \<open>\<open>run\<close>: an error of an event is only logged, and the loop ends after a shutdown.\<close>

fun runtime_run :: "'a apply_ops \<Rightarrow> (nat \<times> nat \<times> runtime_event) list \<Rightarrow> 'a runtime \<Rightarrow> 'a runtime option" where
  "runtime_run ap [] r = Some r"
| "runtime_run ap ((now, rt, ev) # evs) r =
     (if rt_shutdown r then Some r
      else (case runtime_event ap now rt ev r of None \<Rightarrow> None | Some (_, r1) \<Rightarrow> runtime_run ap evs r1))"

end
