(* ===== verification/RaftApply.thy ===== *)
theory RaftApply
  imports Collection ClusterTopology RaftTypes
begin

text \<open>
  The replicated state machine \<open>RaftStateMachine\<close> of \<open>src/src/cluster/raft_apply.rs\<close>: the commands
  of log entries, their application to the collections and to the cluster's topology, and snapshots.

  The codecs of \<open>bincode\<close> and the parser of socket addresses are in the argument \<open>fx\<close>; what the
  collections need is the argument \<open>x\<close> and the codec \<open>json\<close>.  \<open>None\<close> is a panic in the storage
  engine.
\<close>

datatype state_machine_command =
    CmdCreateCollection string nat "u8 list"
  | CmdDeleteCollection string
  | CmdUpdateCollection string "u8 list"
  | CmdRegisterNode string string "u8 list"
  | CmdDeregisterNode string
  | CmdUpdateNodeStatus string u32
  | CmdReassignShards "u8 list"
  | CmdUpdateClusterConfig "u8 list"
  | CmdNoOp

definition command_create_collection :: "string \<Rightarrow> nat \<Rightarrow> state_machine_command" where
  "command_create_collection name dimension = CmdCreateCollection name dimension []"

definition command_delete_collection :: "string \<Rightarrow> state_machine_command" where
  "command_delete_collection name = CmdDeleteCollection name"

definition command_register_node :: "string \<Rightarrow> string \<Rightarrow> state_machine_command" where
  "command_register_node nid address = CmdRegisterNode nid address []"

definition command_deregister_node :: "string \<Rightarrow> state_machine_command" where
  "command_deregister_node nid = CmdDeregisterNode nid"

record fsm_snapshot =
  fs_collections :: "string list"
  fs_last_applied :: u64
  fs_timestamp :: int

record fsm_params =
  fx_command_dec :: "u8 list \<Rightarrow> state_machine_command option"
  fx_snapshot_enc :: "fsm_snapshot \<Rightarrow> u8 list option"
  fx_snapshot_dec :: "u8 list \<Rightarrow> fsm_snapshot option"
  fx_parse_addr :: "string \<Rightarrow> string option"
  fx_hash :: hasher
  fx_json :: config_codec

record 'm fsm =
  fsm_collections :: "'m manager"
  fsm_cluster :: cluster_manager
  fsm_last_applied :: u64

definition fsm_new :: "'m manager \<Rightarrow> cluster_manager \<Rightarrow> 'm fsm" where
  "fsm_new collections cluster = \<lparr>fsm_collections = collections, fsm_cluster = cluster, fsm_last_applied = 0\<rparr>"

type_synonym 'm fsm_result = "(unit res \<times> 'm fsm) option"

subsection \<open>Commands\<close>

definition apply_create_collection ::
  "(payload, 'm) ext \<Rightarrow> fsm_params \<Rightarrow> string \<Rightarrow> nat \<Rightarrow> 'm fsm \<Rightarrow> 'm fsm_result"
where
  "apply_create_collection x fx name dimension s =
     (case get_collection name (fsm_collections s) of
        Inr _ \<Rightarrow> Some (Inr (), s)
      | Inl _ \<Rightarrow>
          (let cfg = \<lparr>cc_dimension = dimension, cc_distance = Cosine, cc_hnsw_config = None,
                      cc_quantization_config = None, cc_optimizer_config = None\<rparr>
           in map_option (\<lambda>(r, m). (r, s\<lparr>fsm_collections := m\<rparr>))
                (create_collection x (fx_json fx) name cfg (fsm_collections s))))"

definition apply_delete_collection :: "string \<Rightarrow> 'm fsm \<Rightarrow> 'm fsm_result" where
  "apply_delete_collection name s =
     (let (r, m) = delete_collection name (fsm_collections s) in Some (r, s\<lparr>fsm_collections := m\<rparr>))"

definition apply_register_node :: "fsm_params \<Rightarrow> string \<Rightarrow> string \<Rightarrow> 'm fsm \<Rightarrow> 'm fsm_result" where
  "apply_register_node fx nid address s =
     (case fx_parse_addr fx address of
        None \<Rightarrow> Some (Inl EConfiguration, s)
      | Some addr \<Rightarrow>
          (let n = \<lparr>ni_id = nid, ni_address = addr, ni_status = Active, ni_shards = [], ni_capacity = 0,
                    ni_load = 0, ni_last_heartbeat = 0\<rparr>
           in Some (Inr (), s\<lparr>fsm_cluster := cm_add_node (fx_hash fx) n (fsm_cluster s)\<rparr>)))"

definition apply_deregister_node :: "fsm_params \<Rightarrow> string \<Rightarrow> 'm fsm \<Rightarrow> 'm fsm_result" where
  "apply_deregister_node fx nid s =
     Some (Inr (), s\<lparr>fsm_cluster := cm_remove_node (fx_hash fx) nid (fsm_cluster s)\<rparr>)"

text \<open>Four of the handlers only write a log message.\<close>

definition apply_command ::
  "(payload, 'm) ext \<Rightarrow> fsm_params \<Rightarrow> state_machine_command \<Rightarrow> 'm fsm \<Rightarrow> 'm fsm_result"
where
  "apply_command x fx cmd s =
     (case cmd of
        CmdCreateCollection name dimension _ \<Rightarrow> apply_create_collection x fx name dimension s
      | CmdDeleteCollection name \<Rightarrow> apply_delete_collection name s
      | CmdUpdateCollection _ _ \<Rightarrow> Some (Inr (), s)
      | CmdRegisterNode nid address _ \<Rightarrow> apply_register_node fx nid address s
      | CmdDeregisterNode nid \<Rightarrow> apply_deregister_node fx nid s
      | CmdUpdateNodeStatus _ _ \<Rightarrow> Some (Inr (), s)
      | CmdReassignShards _ \<Rightarrow> Some (Inr (), s)
      | CmdUpdateClusterConfig _ \<Rightarrow> Some (Inr (), s)
      | CmdNoOp \<Rightarrow> Some (Inr (), s))"

subsection \<open>Entries and snapshots\<close>

definition apply_entry :: "(payload, 'm) ext \<Rightarrow> fsm_params \<Rightarrow> log_entry \<Rightarrow> 'm fsm \<Rightarrow> 'm fsm_result" where
  "apply_entry x fx e s =
     (case le_type e of
        EtNormal \<Rightarrow>
          if le_data e = [] then Some (Inr (), s)
          else
            (case fx_command_dec fx (le_data e) of
               None \<Rightarrow> Some (Inl ESerialization, s)
             | Some cmd \<Rightarrow>
                 (case apply_command x fx cmd s of
                    None \<Rightarrow> None
                  | Some (Inl err, s1) \<Rightarrow> Some (Inl err, s1)
                  | Some (Inr _, s1) \<Rightarrow> Some (Inr (), s1\<lparr>fsm_last_applied := le_index e\<rparr>)))
      | EtConfigChange \<Rightarrow> Some (Inr (), s\<lparr>fsm_last_applied := le_index e\<rparr>))"

fun fsm_apply :: "(payload, 'm) ext \<Rightarrow> fsm_params \<Rightarrow> log_entry list \<Rightarrow> 'm fsm \<Rightarrow> 'm fsm_result" where
  "fsm_apply x fx [] s = Some (Inr (), s)"
| "fsm_apply x fx (e # es) s =
     (case apply_entry x fx e s of
        None \<Rightarrow> None
      | Some (Inl err, s1) \<Rightarrow> Some (Inl err, s1)
      | Some (Inr _, s1) \<Rightarrow> fsm_apply x fx es s1)"

definition create_snapshot_data :: "fsm_params \<Rightarrow> int \<Rightarrow> 'm fsm \<Rightarrow> u8 list res" where
  "create_snapshot_data fx now s =
     ok_or (fx_snapshot_enc fx
       \<lparr>fs_collections = list_collections (fsm_collections s), fs_last_applied = fsm_last_applied s,
        fs_timestamp = now\<rparr>) ESerialization"

definition restore_from_snapshot :: "fsm_params \<Rightarrow> u8 list \<Rightarrow> 'm fsm \<Rightarrow> unit res \<times> 'm fsm" where
  "restore_from_snapshot fx data s =
     (case fx_snapshot_dec fx data of
        None \<Rightarrow> (Inl ESerialization, s)
      | Some sn \<Rightarrow> (Inr (), s\<lparr>fsm_last_applied := fs_last_applied sn\<rparr>))"

definition fsm_apply_snapshot :: "fsm_params \<Rightarrow> snapshot \<Rightarrow> 'm fsm \<Rightarrow> 'm fsm_result" where
  "fsm_apply_snapshot fx sn s = Some (restore_from_snapshot fx (sn_data sn) s)"

definition fsm_snapshot_data :: "fsm_params \<Rightarrow> int \<Rightarrow> 'm fsm \<Rightarrow> (log_index \<times> u8 list) res" where
  "fsm_snapshot_data fx now s = and_then (create_snapshot_data fx now s) (\<lambda>data. Inr (fsm_last_applied s, data))"

end
