(* ===== verification/RuntimeProps.thy ===== *)
theory RuntimeProps
  imports RaftRuntime RaftApply RaftNodeProps
begin

text \<open>
  Properties of the runtime and of the state machine it drives.  The locale \<open>entry_machine\<close> is what
  the runtime needs of the trait \<open>Apply\<close>; the replicated state machine is its interpretation.
\<close>

subsection \<open>The applied machine\<close>

locale entry_machine =
  fixes app :: "log_entry list \<Rightarrow> 'a \<Rightarrow> (unit res \<times> 'a) option"
  assumes app_Nil: "app [] s = Some (Inr (), s)"
    and app_append: "app (es @ es') s =
      (case app es s of None \<Rightarrow> None | Some (Inl err, s') \<Rightarrow> Some (Inl err, s') | Some (Inr _, s') \<Rightarrow> app es' s')"
begin

fun app_batches :: "log_entry list list \<Rightarrow> 'a \<Rightarrow> (unit res \<times> 'a) option" where
  "app_batches [] s = Some (Inr (), s)"
| "app_batches (es # batches) s =
     (case app es s of None \<Rightarrow> None | Some (Inl err, s') \<Rightarrow> Some (Inl err, s') | Some (Inr _, s') \<Rightarrow> app_batches batches s')"

text \<open>How the entries are cut into batches does not matter.\<close>

lemma app_batches_concat: "app_batches batches s = app (concat batches) s"
proof (induction batches arbitrary: s)
  case (Cons es batches)
  then show ?case by (simp add: app_append split: option.split sum.split)
qed (simp add: app_Nil)

end

lemma fsm_apply_append:
  "fsm_apply x fx (es @ es') s =
     (case fsm_apply x fx es s of
        None \<Rightarrow> None | Some (Inl err, s') \<Rightarrow> Some (Inl err, s') | Some (Inr _, s') \<Rightarrow> fsm_apply x fx es' s')"
proof (induction es arbitrary: s)
  case (Cons e es)
  then show ?case by (cases "apply_entry x fx e s") (auto split: sum.split)
qed simp

interpretation fm: entry_machine "fsm_apply x fx" for x fx
  by unfold_locales (simp_all add: fsm_apply_append)

definition fsm_ops :: "(payload, 'm) ext \<Rightarrow> fsm_params \<Rightarrow> int \<Rightarrow> 'm fsm apply_ops" where
  "fsm_ops x fx now =
     \<lparr>ap_apply = fsm_apply x fx, ap_apply_snapshot = fsm_apply_snapshot fx, ap_snapshot = fsm_snapshot_data fx now\<rparr>"

subsection \<open>What a step hands to the runtime\<close>

lemma one_message_fields [simp]:
  "rd_committed (one_message m) = []" "rd_snapshot (one_message m) = None"
  "rd_committed (build_append_acks n) = []" "rd_snapshot (build_append_acks n) = None"
  by (simp_all add: one_message_def ready_default_def build_append_acks_def)

lemmas handler_defs = handle_heartbeat_def handle_append_entries_def handle_append_response_def handle_request_vote_def
  handle_vote_response_def handle_request_pre_vote_def handle_pre_vote_response_def handle_install_snapshot_def
  handle_snapshot_response_def

text \<open>No handler reports committed entries, and only a snapshot message brings a snapshot.\<close>

lemma step_reports_nothing_committed:
  assumes "raft_step now rt m n = Some (Some rd, n')"
  shows "rd_committed rd = []" and "msg_type m \<noteq> InstallSnapshot \<Longrightarrow> rd_snapshot rd = None"
proof -
  let ?n = "check_term now rt m n"
  have "rd_committed rd = [] \<and> (msg_type m \<noteq> InstallSnapshot \<longrightarrow> rd_snapshot rd = None)"
    using assms by (cases "msg_type m")
      (auto simp: raft_step_def Let_def handler_defs split: if_splits option.splits)
  then show "rd_committed rd = []" "msg_type m \<noteq> InstallSnapshot \<Longrightarrow> rd_snapshot rd = None" by blast+
qed

lemma notify_reads_machine [simp]:
  "rt_machine (notify_reads reads r) = rt_machine r" "rt_node (notify_reads reads r) = rt_node r"
  "rt_sent (notify_reads reads r) = rt_sent r" "set (rt_answers r) \<subseteq> set (rt_answers (notify_reads reads r))"
proof -
  show "rt_machine (notify_reads reads r) = rt_machine r"
    by (induction reads r rule: notify_reads.induct) (auto split: option.splits)
  show "rt_node (notify_reads reads r) = rt_node r"
    by (induction reads r rule: notify_reads.induct) (auto split: option.splits)
  show "rt_sent (notify_reads reads r) = rt_sent r"
    by (induction reads r rule: notify_reads.induct) (auto split: option.splits)
  show "set (rt_answers r) \<subseteq> set (rt_answers (notify_reads reads r))"
  proof (induction reads r rule: notify_reads.induct)
    case (2 read reads r)
    then show ?case by (cases "take_read (rn_commit_index (rt_node r)) (rt_reads r)") auto
  qed simp
qed

lemma finish_reads_machine [simp]:
  "rt_machine (finish_reads r) = rt_machine r" "rt_sent (finish_reads r) = rt_sent r"
  "set (rt_answers r) \<subseteq> set (rt_answers (finish_reads r))"
  using notify_reads_machine(4) [where reads = "fst (take_read_states (rt_node r))" and r = "r\<lparr>rt_node := snd (take_read_states (rt_node r))\<rparr>"]
  by (simp_all add: finish_reads_def take_read_states_def)

lemma handle_ready_machine:
  assumes "handle_ready ap now rd r = Some (res, r')" and "rd_committed rd = []" and "rd_snapshot rd = None"
  shows "rt_machine r' = rt_machine r"
  using assms
  by (auto simp: handle_ready_def Let_def apply_committed_def handle_snapshot_def send_messages_def persist_hard_state_def
      persist_entries_def split: option.splits)

lemma send_heartbeats_machine [simp]:
  "rt_machine (send_heartbeats r) = rt_machine r" "rt_node (send_heartbeats r) = rt_node r"
  "rn_state (rt_node r) \<noteq> Leader \<Longrightarrow> send_heartbeats r = r"
  by (simp_all add: send_heartbeats_def Let_def is_leader_def)

lemma process_ready_follower:
  "rn_state (rt_node r) \<noteq> Leader \<Longrightarrow> process_ready ap now r = Some (Inr (), r)"
  by (simp add: process_ready_def raft_ready_def)

lemma raft_tick_follower:
  "rn_state n \<noteq> Leader \<Longrightarrow> rn_state (snd (raft_tick now rt n)) \<noteq> Leader"
  by (simp add: raft_tick_def handle_election_timeout_def pre_campaign_def campaign_def become_pre_candidate_def
      become_candidate_def reset_election_timeout_def raft_reset_def Let_def)

text \<open>An event that is no message, at a node that does not lead.\<close>

lemma local_event_follower:
  assumes nl: "rn_state (rt_node r) \<noteq> Leader" and ev: "\<forall>m. ev \<noteq> EvMessage m"
    and run: "runtime_event ap now rt ev r = Some (res, r')"
  shows "rt_machine r' = rt_machine r \<and> rt_sent r' = rt_sent r \<and> rn_state (rt_node r') \<noteq> Leader"
proof (cases ev)
  case EvTick
  obtain b n where tick: "raft_tick now rt (rt_node r) = (b, n)" by force
  have "rn_state n \<noteq> Leader" using raft_tick_follower [OF nl, of now rt] by (simp add: tick)
  then show ?thesis using run
    by (auto simp: EvTick runtime_event_def on_tick_def tick Let_def process_ready_follower split: if_splits)
next
  case (EvCommand cmd)
  then show ?thesis using run nl
    by (cases cmd) (auto simp: runtime_event_def on_command_def on_propose_def on_read_index_def raft_propose_def
        raft_read_index_def is_leader_def trigger_snapshot_def split: sum.splits)
next
  case (EvMessage m)
  with ev show ?thesis by blast
qed

lemma message_event_machine:
  assumes "runtime_event ap now rt (EvMessage m) r = Some (res, r')" and "msg_type m \<noteq> InstallSnapshot"
  shows "rt_machine r' = rt_machine r"
proof -
  obtain rd n where step: "raft_step now rt m (rt_node r) = Some (rd, n)"
    using assms(1) by (auto simp: runtime_event_def on_message_def split: option.splits)
  show ?thesis
  proof (cases rd)
    case None
    with assms(1) step show ?thesis by (auto simp: runtime_event_def on_message_def)
  next
    case (Some ready)
    then have "rd_committed ready = []" "rd_snapshot ready = None"
      using step_reports_nothing_committed [of now rt m "rt_node r" ready n] step assms(2) by simp_all
    then show ?thesis using handle_ready_machine [of ap now ready "r\<lparr>rt_node := n\<rparr>" res r'] assms(1) step Some
      by (simp add: runtime_event_def on_message_def)
  qed
qed

end
