(* ===== verification/RuntimeClaims.thy ===== *)
theory RuntimeClaims
  imports RuntimeProps
begin

text \<open>
  The properties of the runtime and of the replicated state machine, each with a witness on a machine
  that records the entries it is given.
\<close>

subsection \<open>A node that does not lead\<close>

text \<open>The runtimes a runtime becomes by events while it does not lead and gets no snapshot.\<close>

inductive follows :: "'a apply_ops \<Rightarrow> 'a runtime \<Rightarrow> 'a runtime \<Rightarrow> bool" for ap r where
  start: "follows ap r r"
| event: "follows ap r r1 \<Longrightarrow> rn_state (rt_node r1) \<noteq> Leader \<Longrightarrow>
    (\<And>m. ev = EvMessage m \<Longrightarrow> msg_type m \<noteq> InstallSnapshot) \<Longrightarrow>
    runtime_event ap now rt ev r1 = Some (res, r2) \<Longrightarrow> follows ap r r2"

text \<open>
  A node that does not lead never applies an entry.  Whatever messages it gets, also appends that raise
  its commit index, and whatever timers and commands come, its state machine stays as it was: only a
  leader's \<open>ready\<close> reports committed entries.
\<close>

theorem follower_never_applies:
  assumes "follows ap r r'"
  shows "rt_machine r' = rt_machine r"
  using assms
proof induction
  case (event r1 ev now rt res r2)
  have "rt_machine r2 = rt_machine r1"
  proof (cases "\<exists>m. ev = EvMessage m")
    case True
    then obtain m where m: "ev = EvMessage m" by blast
    then show ?thesis
      using message_event_machine [of ap now rt m r1 res r2] event.hyps(3) [OF m] event.hyps(4) by simp
  next
    case False
    then show ?thesis using local_event_follower [OF event.hyps(2) _ event.hyps(4)] by blast
  qed
  with event.IH show ?case by simp
qed simp

definition recorder :: "log_entry list apply_ops" where
  "recorder = \<lparr>ap_apply = (\<lambda>es a. Some (Inr (), a @ es)), ap_apply_snapshot = (\<lambda>sn a. Some (Inr (), a)),
     ap_snapshot = (\<lambda>a. Inr (0, []))\<rparr>"

definition fresh_runtime :: "log_entry list runtime" where
  "fresh_runtime = runtime_new (raft_new_with_conf (three_node_config 1) [1, 2, 3] 0 150) [] 0"

text \<open>An append from node 2 with one entry that is committed.\<close>

definition committed_append :: message where
  "committed_append = (message_new AppendEntries 2 1 0)\<lparr>msg_index := 1, msg_entries := [log_entry_new 2 0 [9]], msg_commit := 2\<rparr>"

lemmas fresh_eval = fresh_runtime_def runtime_new_def raft_new_with_conf_def node_with_def three_node_config_def
  hard_state_default_def conf_state_new_def log_entry_new_def

lemma committed_append_step:
  "\<exists>res r'. runtime_event recorder 10 150 (EvMessage committed_append) fresh_runtime = Some (res, r') \<and>
     rn_commit_index (rt_node r') = 2 \<and> length (rn_log (rt_node r')) = 2"
  by (simp add: runtime_event_def on_message_def raft_step_def check_term_def handle_append_entries_def committed_append_def
      message_new_def log_term_def reset_election_timeout_def truncate_log_def handle_ready_def apply_committed_def
      handle_snapshot_def one_message_def ready_default_def persist_entries_def send_messages_def finish_reads_def
      take_read_states_def Let_def fresh_eval)

theorem follower_never_applies_witness:
  "\<exists>r'. follows recorder fresh_runtime r' \<and> rn_commit_index (rt_node r') = 2 \<and> rt_machine r' = []"
proof -
  obtain res r' where r': "runtime_event recorder 10 150 (EvMessage committed_append) fresh_runtime = Some (res, r')"
    "rn_commit_index (rt_node r') = 2"
    using committed_append_step by blast
  have "rn_state (rt_node fresh_runtime) \<noteq> Leader" by (simp add: fresh_eval)
  then have "follows recorder fresh_runtime r'"
    using follows.event [OF follows.start _ _ r'(1)] by (auto simp: committed_append_def message_new_def)
  with follower_never_applies [OF this] r'(2) show ?thesis by (auto simp: fresh_eval)
qed

subsection \<open>A cluster of runtimes\<close>

text \<open>
  Runtimes that start as followers and exchange messages: a runtime gets timer ticks and commands at
  any time, and any message that some runtime has sent to it, any number of times.
\<close>

type_synonym 'a system = "node_id \<Rightarrow> 'a runtime"

definition system_start :: "(node_id \<Rightarrow> raft_config) \<Rightarrow> node_id list \<Rightarrow> (node_id \<Rightarrow> nat) \<Rightarrow> 'a \<Rightarrow> 'a system" where
  "system_start cfg voters rt a = (\<lambda>i. runtime_new (raft_new_with_conf (cfg i) voters 0 (rt i)) a 0)"

inductive system_reachable :: "'a apply_ops \<Rightarrow> 'a system \<Rightarrow> 'a system \<Rightarrow> bool" for ap s0 where
  start: "system_reachable ap s0 s0"
| local_event: "system_reachable ap s0 s \<Longrightarrow> \<forall>m. ev \<noteq> EvMessage m \<Longrightarrow>
    runtime_event ap now rt ev (s i) = Some (res, r) \<Longrightarrow> system_reachable ap s0 (s(i := r))"
| delivery: "system_reachable ap s0 s \<Longrightarrow> m \<in> set (rt_sent (s j)) \<Longrightarrow>
    runtime_event ap now rt (EvMessage m) (s (msg_to m)) = Some (res, r) \<Longrightarrow>
    system_reachable ap s0 (s(msg_to m := r))"

text \<open>
  C23.  No cluster ever elects a leader.  However many voters there are, with or without pre-votes, and for
  any timeouts: since a campaign drops the requests it builds, no runtime ever sends a message, none
  becomes the leader, and no state machine ever applies an entry.
\<close>

theorem no_leader_is_elected:
  assumes "system_reachable ap (system_start cfg voters rt a) s"
  shows "rn_state (rt_node (s i)) \<noteq> Leader \<and> rt_sent (s i) = [] \<and> rt_machine (s i) = a"
  using assms
proof (induction arbitrary: i)
  case start
  show ?case by (simp add: system_start_def runtime_new_def raft_new_with_conf_def node_with_def)
next
  case (local_event s ev now rt j res r)
  have "rn_state (rt_node (s j)) \<noteq> Leader" using local_event.IH by blast
  from local_event_follower [OF this local_event.hyps(2, 3)] local_event.IH show ?case by simp
next
  case (delivery s m j now rt res r)
  then show ?case by simp
qed

lemma elect_tick:
  "\<exists>res r. runtime_event recorder 200 300 EvTick (system_start three_node_config [1, 2, 3] (\<lambda>_. 150) [] 1) = Some (res, r) \<and>
     rn_state (rt_node r) = PreCandidate"
  by (simp add: runtime_event_def on_tick_def raft_tick_def handle_election_timeout_def pre_campaign_def
      become_pre_candidate_def reset_election_timeout_def process_ready_def raft_ready_def send_heartbeats_def is_leader_def
      system_start_def runtime_new_def raft_new_with_conf_def node_with_def three_node_config_def)

theorem no_leader_is_elected_witness:
  "\<exists>s. system_reachable recorder (system_start three_node_config [1, 2, 3] (\<lambda>_. 150) []) s \<and>
     rn_state (rt_node (s 1)) = PreCandidate \<and> rt_sent (s 1) = [] \<and> rt_machine (s 1) = []"
proof -
  let ?s = "system_start three_node_config [1, 2, 3] (\<lambda>_. 150) ([] :: log_entry list)"
  obtain res r where r: "runtime_event recorder 200 300 EvTick (?s 1) = Some (res, r)" "rn_state (rt_node r) = PreCandidate"
    using elect_tick by blast
  have reach: "system_reachable recorder ?s (?s(1 := r))"
    using system_reachable.local_event [where s = ?s and i = 1, OF system_reachable.start _ r(1)] by simp
  with no_leader_is_elected [OF reach, of 1] r(2) show ?thesis by (intro exI [of _ "?s(1 := r)"]) simp
qed

subsection \<open>Acknowledged proposals\<close>

text \<open>
  A leader acknowledges proposals that are not committed.  When its commit index has moved past the
  last applied entry, every waiting proposal whose entry is anywhere behind that in the log is
  answered as committed, also one beyond the commit index, which a quorum does not have.
\<close>

theorem uncommitted_proposal_acknowledged:
  assumes lead: "rn_state (rt_node r) = Leader" and behind: "rn_last_applied (rt_node r) < rn_commit_index (rt_node r)"
    and size: "total_le_size (rn_log (rt_node r)) \<le> usize_max"
    and wait: "(le_index e, ch) \<in> set (rt_proposals r)"
    and entry: "e \<in> set (drop (unat (rn_last_applied (rt_node r))) (rn_log (rt_node r)))"
    and app: "\<forall>es. \<exists>a. ap_apply ap es (rt_machine r) = Some (Inr (), a)"
    and run: "process_ready ap now r = Some (res, r')"
  shows "(ch, AnsPropose (le_index e) (rn_term (rt_node r))) \<in> set (rt_answers r')"
proof -
  obtain rd n where ready: "raft_ready (rt_node r) = (Some rd, n)"
    using lead by (simp add: raft_ready_def ready_is_empty_def Let_def)
  have committed: "rd_committed rd = drop (unat (rn_last_applied (rt_node r))) (rn_log (rt_node r))"
    using raft_ready_committed [OF ready behind size] by blast
  have rest: "rd_snapshot rd = None" "rn_term n = rn_term (rt_node r)"
    using ready by (auto simp: raft_ready_def Let_def ready_default_def split: if_splits)
  have ne: "rd_committed rd \<noteq> []" using entry by (auto simp: committed)
  let ?r = "send_messages (rd_messages rd) (r\<lparr>rt_node := n\<rparr>)"
  obtain a where a: "ap_apply ap (rd_committed rd) (rt_machine r) = Some (Inr (), a)" using app by blast
  define r3 where "r3 = (if rd_messages rd \<noteq> [] then ?r else r\<lparr>rt_node := n\<rparr>)"
  define r4 where "r4 = notify_proposals (rd_committed rd) (r3\<lparr>rt_machine := a\<rparr>)"
  have r3: "rt_machine r3 = rt_machine r" "rt_proposals r3 = rt_proposals r" "rt_node r3 = n"
    by (simp_all add: r3_def send_messages_def)
  have ans: "(ch, AnsPropose (le_index e) (rn_term (rt_node r))) \<in> set (rt_answers r4)"
    using wait entry by (force simp: r4_def notify_proposals_def Let_def r3 committed rest(2))
  have snap: "rt_answers (snd (maybe_snapshot ap now r4)) = rt_answers r4"
    by (simp add: maybe_snapshot_def trigger_snapshot_def split: sum.split)
  have "handle_ready ap now rd (r\<lparr>rt_node := n\<rparr>) =
      (case maybe_snapshot ap now r4 of (Inl err, r5) \<Rightarrow> Some (Inl err, r5) | (Inr _, r5) \<Rightarrow> Some (Inr (), finish_reads r5))"
    using ne a rest(1) r3
    by (simp add: handle_ready_def Let_def persist_hard_state_def persist_entries_def apply_committed_def r3_def r4_def
        handle_snapshot_def send_messages_def split: option.split sum.split prod.split)
  then have "(case maybe_snapshot ap now r4 of (Inl err, r5) \<Rightarrow> Some (Inl err, r5) | (Inr _, r5) \<Rightarrow> Some (Inr (), finish_reads r5)) =
      Some (res, r')"
    using run ready by (simp add: process_ready_def)
  then have "r' = snd (maybe_snapshot ap now r4) \<or> r' = finish_reads (snd (maybe_snapshot ap now r4))"
    by (auto split: prod.splits sum.splits)
  then show ?thesis using ans snap finish_reads_machine(3) [of "snd (maybe_snapshot ap now r4)"] by auto
qed

definition eager_leader :: "log_entry list runtime" where
  "eager_leader = fresh_runtime
     \<lparr>rt_node := (rt_node fresh_runtime)
        \<lparr>rn_state := Leader, rn_term := 1,
         rn_log := [log_entry_new 1 0 [], log_entry_new 2 1 [], log_entry_new 3 1 [5], log_entry_new 4 1 [6]],
         rn_commit_index := 3, rn_last_applied := 2\<rparr>,
      rt_proposals := [(3, 7), (4, 8)]\<rparr>"

theorem uncommitted_proposal_acknowledged_witness:
  "\<exists>res r'. process_ready recorder 20 eager_leader = Some (res, r') \<and> (8, AnsPropose 4 1) \<in> set (rt_answers r') \<and>
     rn_commit_index (rt_node r') = 3"
proof -
  have "\<exists>res r'. process_ready recorder 20 eager_leader = Some (res, r') \<and> rn_commit_index (rt_node r') = 3"
    by (simp add: process_ready_def raft_ready_def Let_def ready_is_empty_def ready_default_def handle_ready_def
        persist_hard_state_def apply_committed_def recorder_def notify_proposals_def maybe_snapshot_def
        snapshot_config_default_def handle_snapshot_def finish_reads_def take_read_states_def get_entries_def
        usize_max_def le_size_def eager_leader_def fresh_eval)
  then obtain res r' where run: "process_ready recorder 20 eager_leader = Some (res, r')" "rn_commit_index (rt_node r') = 3"
    by blast
  have "(8, AnsPropose (le_index (log_entry_new 4 1 [6])) (rn_term (rt_node eager_leader))) \<in> set (rt_answers r')"
    by (rule uncommitted_proposal_acknowledged [OF _ _ _ _ _ _ run(1)])
      (simp_all add: eager_leader_def fresh_eval recorder_def total_le_size_def le_size_def usize_max_def)
  then show ?thesis using run by (simp add: eager_leader_def log_entry_new_def)
qed

subsection \<open>Snapshots of the replicated state machine\<close>

text \<open>
  A snapshot carries no state.  Restoring the snapshot of one state machine on another changes nothing
  there but the index of the last applied entry: a replica that is sent a snapshot instead of the log
  stays without the collections and the nodes that the skipped entries created.
\<close>

theorem snapshot_restores_only_index:
  assumes codec: "\<forall>sn. case fx_snapshot_enc fx sn of None \<Rightarrow> True | Some bytes \<Rightarrow> fx_snapshot_dec fx bytes = Some sn"
    and taken: "fsm_snapshot_data fx now s = Inr (index, data)"
  shows "fsm_apply_snapshot fx \<lparr>sn_metadata = meta, sn_data = data\<rparr> t =
      Some (Inr (), t\<lparr>fsm_last_applied := fsm_last_applied s\<rparr>)"
proof -
  let ?sn = "\<lparr>fs_collections = list_collections (fsm_collections s), fs_last_applied = fsm_last_applied s, fs_timestamp = now\<rparr>"
  have "fx_snapshot_enc fx ?sn = Some data"
    using taken by (cases "fx_snapshot_enc fx ?sn") (simp_all add: fsm_snapshot_data_def create_snapshot_data_def)
  then have "fx_snapshot_dec fx data = Some ?sn" using spec [OF codec, of ?sn] by simp
  then show ?thesis by (simp add: fsm_apply_snapshot_def restore_from_snapshot_def)
qed

text \<open>A codec for the snapshots of machines with no collection or one named \<open>c\<close>.\<close>

definition plain_params :: fsm_params where
  "plain_params = \<lparr>fx_command_dec = (\<lambda>_. None),
     fx_snapshot_enc = (\<lambda>sn. if fs_timestamp sn \<noteq> 0 then None
       else if fs_collections sn = [] then Some (0 # u64_le (fs_last_applied sn))
       else if fs_collections sn = [''c''] then Some (1 # u64_le (fs_last_applied sn)) else None),
     fx_snapshot_dec = (\<lambda>bs. case bs of [] \<Rightarrow> None
       | b # r \<Rightarrow> Some \<lparr>fs_collections = (if b = 0 then [] else [''c'']), fs_last_applied = u64_of_le r, fs_timestamp = 0\<rparr>),
     fx_parse_addr = Some, fx_hash = (\<lambda>s. of_nat (length s)),
     fx_json = \<lparr>jc_to_string = (\<lambda>_. None), jc_from_str = (\<lambda>_. None)\<rparr>\<rparr>"

lemma plain_codec:
  "\<forall>sn. case fx_snapshot_enc plain_params sn of None \<Rightarrow> True | Some bytes \<Rightarrow> fx_snapshot_dec plain_params bytes = Some sn"
  by (auto simp: plain_params_def)

definition empty_fsm :: "unit fsm" where
  "empty_fsm = fsm_new \<lparr>mg_collections = [], mg_other = []\<rparr>
     (cm_new_standalone (\<lambda>s. of_nat (length s)) ''x'' 0)"

definition one_fsm :: "unit collection \<Rightarrow> unit fsm" where
  "one_fsm c = empty_fsm\<lparr>fsm_collections := \<lparr>mg_collections = [(''c'', ''{}'', c)], mg_other = []\<rparr>, fsm_last_applied := 7\<rparr>"

theorem snapshot_restores_only_index_witness:
  "\<forall>c. \<exists>data t. list_collections (fsm_collections (one_fsm c)) = [''c''] \<and>
     fsm_snapshot_data plain_params 0 (one_fsm c) = Inr (7, data) \<and>
     fsm_apply_snapshot plain_params \<lparr>sn_metadata = \<lparr>sm_index = 7, sm_term = 1, sm_conf_state = conf_state_new [1]\<rparr>,
       sn_data = data\<rparr> empty_fsm = Some (Inr (), t) \<and>
     fsm_last_applied t = 7 \<and> list_collections (fsm_collections t) = []"
proof
  fix c :: "unit collection"
  have data: "fsm_snapshot_data plain_params 0 (one_fsm c) = Inr (7, 1 # u64_le 7)"
    by (simp add: fsm_snapshot_data_def create_snapshot_data_def plain_params_def one_fsm_def list_collections_def)
  have "list_collections (fsm_collections (one_fsm c)) = [''c'']" by (simp add: one_fsm_def list_collections_def)
  moreover have "fsm_last_applied (one_fsm c) = 7" by (simp add: one_fsm_def)
  moreover have "list_collections (fsm_collections empty_fsm) = []"
    by (simp add: empty_fsm_def fsm_new_def list_collections_def)
  ultimately show "\<exists>data t. list_collections (fsm_collections (one_fsm c)) = [''c''] \<and>
     fsm_snapshot_data plain_params 0 (one_fsm c) = Inr (7, data) \<and>
     fsm_apply_snapshot plain_params \<lparr>sn_metadata = \<lparr>sm_index = 7, sm_term = 1, sm_conf_state = conf_state_new [1]\<rparr>,
       sn_data = data\<rparr> empty_fsm = Some (Inr (), t) \<and>
     fsm_last_applied t = 7 \<and> list_collections (fsm_collections t) = []"
    using data snapshot_restores_only_index [OF plain_codec data,
        of "\<lparr>sm_index = 7, sm_term = 1, sm_conf_state = conf_state_new [1]\<rparr>" empty_fsm]
    by simp
qed

end
