(* ===== verification/Failover.thy ===== *)
theory Failover
  imports RaftTypes SearchTypes
begin

text \<open>
  Health monitoring, fencing, failover and membership, \<open>src/src/cluster/failover.rs\<close>.

  A time is a number of nanoseconds; a call of \<open>Instant::now\<close> is an argument, and \<open>duration_since\<close>
  is the difference cut off at 0.  The arithmetic of \<open>f64\<close> is the argument \<open>fd\<close>; comparisons, signs and
  literals are the bit patterns themselves.  A concurrent map of \<open>dashmap\<close> is an association list.
  Its documentation says of every operation that it may deadlock while the caller holds a reference
  into the map: iterating the map never returns while the caller holds an entry of it for writing,
  because the iteration locks every shard.  An operation that does not return has the result \<open>None\<close>.
  The policy, the counters and the event log are fields of one record; log messages are left out.
\<close>

unbundle bit_operations_syntax

subsection \<open>Configuration and health\<close>

record failover_config =
  fo_heartbeat_interval :: nat
  fo_phi_threshold :: f64
  fo_phi_window_size :: nat
  fo_warmup_count :: nat
  fo_suspicion_timeout :: nat
  fo_grace_period :: nat
  fo_auto_failover_enabled :: bool
  fo_max_concurrent_failovers :: nat
  fo_failover_cooldown :: nat

definition failover_config_default :: failover_config where
  "failover_config_default =
     \<lparr>fo_heartbeat_interval = secs 2, fo_phi_threshold = f64_eight, fo_phi_window_size = 1000,
      fo_warmup_count = 10, fo_suspicion_timeout = secs 10, fo_grace_period = secs 30,
      fo_auto_failover_enabled = True, fo_max_concurrent_failovers = 1, fo_failover_cooldown = secs 60\<rparr>"

datatype node_health = Healthy | Suspicious | Failed | Unknown

definition is_available :: "node_health \<Rightarrow> bool" where
  "is_available h \<longleftrightarrow> h = Healthy \<or> h = Suspicious"

definition is_failed :: "node_health \<Rightarrow> bool" where
  "is_failed h \<longleftrightarrow> h = Failed"

type_synonym node_metadata = "(string \<times> string) list"

subsection \<open>Epochs and fencing tokens\<close>

datatype epoch = Epoch (epoch_value: u64)

instantiation epoch :: linorder
begin

definition less_eq_epoch :: "epoch \<Rightarrow> epoch \<Rightarrow> bool" where
  "less_eq_epoch a b \<longleftrightarrow> epoch_value a \<le> epoch_value b"

definition less_epoch :: "epoch \<Rightarrow> epoch \<Rightarrow> bool" where
  "less_epoch a b \<longleftrightarrow> epoch_value a < epoch_value b"

instance
  by standard (auto simp: less_eq_epoch_def less_epoch_def epoch.expand)

end

definition epoch_increment :: "epoch \<Rightarrow> epoch" where
  "epoch_increment e = Epoch (epoch_value e + 1)"

definition epoch_is_valid :: "epoch \<Rightarrow> epoch \<Rightarrow> bool" where
  "epoch_is_valid e min_required \<longleftrightarrow> epoch_value min_required \<le> epoch_value e"

record fencing_token =
  ft_epoch :: epoch
  ft_node_id :: node_id
  ft_term :: raft_term

datatype fencing_error = EpochMismatch epoch epoch | InvalidToken | NodeNotLeader node_id

definition token_validate :: "fencing_token \<Rightarrow> epoch \<Rightarrow> fencing_error + unit" where
  "token_validate t min_epoch =
     (if \<not> epoch_is_valid (ft_epoch t) min_epoch then Inl (EpochMismatch (ft_epoch t) min_epoch) else Inr ())"

record heartbeat =
  hb_node_id :: node_id
  hb_seq :: u64
  hb_timestamp :: nat
  hb_epoch :: epoch
  hb_metadata :: node_metadata

subsection \<open>The failure detector\<close>

record phi_detector =
  pd_intervals :: "nat list"
  pd_window_size :: nat
  pd_last_heartbeat :: "nat option"
  pd_sample_count :: nat
  pd_warmup_count :: nat

definition phi_new :: "nat \<Rightarrow> nat \<Rightarrow> phi_detector" where
  "phi_new window_size warmup_count =
     \<lparr>pd_intervals = [], pd_window_size = window_size, pd_last_heartbeat = None, pd_sample_count = 0,
      pd_warmup_count = warmup_count\<rparr>"

definition phi_heartbeat :: "nat \<Rightarrow> phi_detector \<Rightarrow> phi_detector" where
  "phi_heartbeat now d =
     (let d' = (case pd_last_heartbeat d of
          None \<Rightarrow> d
        | Some prev \<Rightarrow>
            (let is = (if pd_window_size d \<le> length (pd_intervals d) then tl (pd_intervals d) else pd_intervals d)
             in d\<lparr>pd_intervals := is @ [now - prev], pd_sample_count := pd_sample_count d + 1\<rparr>))
      in d'\<lparr>pd_last_heartbeat := Some now\<rparr>)"

definition calculate_statistics :: "f64_ops \<Rightarrow> phi_detector \<Rightarrow> (f64 \<times> f64) option" where
  "calculate_statistics fd d =
     (if pd_intervals d = [] then None
      else
        (let samples = map (fd_of_nanos fd) (pd_intervals d);
             count = f64_of_nat (length (pd_intervals d));
             mean = fd_div fd (fd_sum fd samples) count;
             variance_sum = fd_sum fd (map (\<lambda>x. let diff = fd_sub fd x mean in fd_mul fd diff diff) samples)
         in Some (mean, fd_div fd variance_sum count)))"

definition normal_cdf :: "f64_ops \<Rightarrow> f64 \<Rightarrow> f64" where
  "normal_cdf fd x =
     (let a1 = 0x3FD04F20C6EC5A7E; a2 = 0xBFD23531CC3C1469; a3 = 0x3FF6BE1C55BAE157; a4 = 0xBFF7401C57014C39;
          a5 = 0x3FF0FB844255A12D; p = 0x3FD4F740A93D7B8C;
          sign = (if f64_less x 0 then f64_neg f64_one else f64_one);
          x = fd_div fd (f64_abs x) (fd_sqrt fd f64_two);
          t = fd_div fd f64_one (fd_add fd f64_one (fd_mul fd p x));
          poly = fd_add fd (fd_mul fd (fd_add fd (fd_mul fd (fd_add fd (fd_mul fd
                   (fd_add fd (fd_mul fd a5 t) a4) t) a3) t) a2) t) a1;
          y = fd_sub fd f64_one (fd_mul fd (fd_mul fd poly t) (fd_exp fd (fd_mul fd (f64_neg x) x)))
      in fd_mul fd f64_half (fd_add fd f64_one (fd_mul fd sign y)))"

definition phi_from_cdf :: "f64_ops \<Rightarrow> f64 \<Rightarrow> f64" where
  "phi_from_cdf fd y =
     (let prob = fd_sub fd f64_one (normal_cdf fd y)
      in if f64_le prob 0 then f64_ten else f64_neg (fd_log10 fd prob))"

definition phi_value :: "f64_ops \<Rightarrow> nat \<Rightarrow> phi_detector \<Rightarrow> f64 option" where
  "phi_value fd now d =
     (if pd_sample_count d < pd_warmup_count d then None
      else
        (case pd_last_heartbeat d of
           None \<Rightarrow> None
         | Some prev \<Rightarrow>
             (case calculate_statistics fd d of
                None \<Rightarrow> None
              | Some (mean, variance) \<Rightarrow>
                  (let elapsed = fd_of_nanos fd (now - prev);
                       std_dev = fd_sqrt fd variance
                   in if f64_eq std_dev 0
                      then if f64_less (fd_mul fd mean f64_two) elapsed then Some f64_ten else Some 0
                      else Some (phi_from_cdf fd (fd_div fd (fd_sub fd elapsed mean) std_dev))))))"

definition phi_is_ready :: "phi_detector \<Rightarrow> bool" where
  "phi_is_ready d \<longleftrightarrow> pd_warmup_count d \<le> pd_sample_count d"

subsection \<open>The health monitor\<close>

record health_monitor =
  hn_local_node_id :: node_id
  hn_config :: failover_config
  hn_detectors :: "(node_id \<times> phi_detector) list"
  hn_status :: "(node_id \<times> node_health) list"
  hn_metadata :: "(node_id \<times> node_metadata) list"
  hn_epoch :: u64
  hn_published :: "(node_id \<times> node_health) list"

definition health_monitor_new :: "node_id \<Rightarrow> failover_config \<Rightarrow> health_monitor" where
  "health_monitor_new local config =
     \<lparr>hn_local_node_id = local, hn_config = config, hn_detectors = [], hn_status = [], hn_metadata = [],
      hn_epoch = 0, hn_published = []\<rparr>"

definition get_all_health :: "health_monitor \<Rightarrow> (node_id \<times> node_health) list" where
  "get_all_health m = hn_status m"

text \<open>\<open>held\<close>: the caller holds an entry of the status map for writing.\<close>

definition broadcast_health :: "bool \<Rightarrow> health_monitor \<Rightarrow> health_monitor option" where
  "broadcast_health held m = (if held then None else Some (m\<lparr>hn_published := get_all_health m\<rparr>))"

definition monitor_register :: "node_id \<Rightarrow> health_monitor \<Rightarrow> health_monitor option" where
  "monitor_register nid m =
     (if nid = hn_local_node_id m then Some m
      else
        broadcast_health False
          (m\<lparr>hn_detectors := hm_insert nid
                (phi_new (fo_phi_window_size (hn_config m)) (fo_warmup_count (hn_config m))) (hn_detectors m),
             hn_status := hm_insert nid Unknown (hn_status m)\<rparr>))"

definition monitor_unregister :: "node_id \<Rightarrow> health_monitor \<Rightarrow> health_monitor option" where
  "monitor_unregister nid m =
     broadcast_health False
       (m\<lparr>hn_detectors := hm_remove nid (hn_detectors m), hn_status := hm_remove nid (hn_status m),
          hn_metadata := hm_remove nid (hn_metadata m)\<rparr>)"

definition health_of_phi :: "f64_ops \<Rightarrow> failover_config \<Rightarrow> f64 \<Rightarrow> node_health" where
  "health_of_phi fd config phi =
     (if f64_le (fo_phi_threshold config) phi then Failed
      else if f64_le (fd_mul fd (fo_phi_threshold config) f64_half) phi then Suspicious
      else Healthy)"

definition record_heartbeat :: "f64_ops \<Rightarrow> nat \<Rightarrow> nat \<Rightarrow> node_id \<Rightarrow> health_monitor \<Rightarrow> health_monitor option" where
  "record_heartbeat fd now now' nid m =
     (case hm_get (hn_detectors m) nid of
        None \<Rightarrow> Some m
      | Some d \<Rightarrow>
          (let d' = phi_heartbeat now d;
               m' = m\<lparr>hn_detectors := hm_insert nid d' (hn_detectors m)\<rparr>
           in case phi_value fd now' d' of
                None \<Rightarrow> Some m'
              | Some phi \<Rightarrow>
                  (let new_health = health_of_phi fd (hn_config m) phi;
                       status = (case hm_get (hn_status m) nid of None \<Rightarrow> Unknown | Some h \<Rightarrow> h)
                   in if status \<noteq> new_health
                      then broadcast_health True (m'\<lparr>hn_status := hm_insert nid new_health (hn_status m)\<rparr>)
                      else Some (m'\<lparr>hn_status := hm_insert nid status (hn_status m)\<rparr>))))"

definition process_heartbeat ::
  "f64_ops \<Rightarrow> nat \<Rightarrow> nat \<Rightarrow> heartbeat \<Rightarrow> health_monitor \<Rightarrow> health_monitor option"
where
  "process_heartbeat fd now now' hb m =
     (let nid = hb_node_id hb
      in if nid = hn_local_node_id m then Some m
         else
           (case (if hm_get (hn_detectors m) nid = None then monitor_register nid m else Some m) of
              None \<Rightarrow> None
            | Some m1 \<Rightarrow>
                map_option (\<lambda>m2. m2\<lparr>hn_metadata := hm_insert nid (hb_metadata hb) (hn_metadata m2)\<rparr>)
                  (record_heartbeat fd now now' nid m1)))"

definition get_health :: "health_monitor \<Rightarrow> node_id \<Rightarrow> node_health" where
  "get_health m nid =
     (if nid = hn_local_node_id m then Healthy
      else (case hm_get (hn_status m) nid of None \<Rightarrow> Unknown | Some h \<Rightarrow> h))"

record node_health_info =
  hi_node_id :: node_id
  hi_health :: node_health
  hi_phi_value :: f64
  hi_last_heartbeat :: nat
  hi_heartbeat_seq :: u64
  hi_metadata :: node_metadata

definition get_health_info :: "f64_ops \<Rightarrow> nat \<Rightarrow> health_monitor \<Rightarrow> node_health_info list" where
  "get_health_info fd now m =
     map (\<lambda>(nid, health).
       let (phi, last) = (case hm_get (hn_detectors m) nid of
             None \<Rightarrow> (0, now)
           | Some d \<Rightarrow> (case phi_value fd now d of None \<Rightarrow> 0 | Some p \<Rightarrow> p,
                        case pd_last_heartbeat d of None \<Rightarrow> now | Some t \<Rightarrow> t))
       in \<lparr>hi_node_id = nid, hi_health = health, hi_phi_value = phi, hi_last_heartbeat = last, hi_heartbeat_seq = 0,
           hi_metadata = (case hm_get (hn_metadata m) nid of None \<Rightarrow> [] | Some md \<Rightarrow> md)\<rparr>)
     (hn_status m)"

definition monitor_epoch :: "health_monitor \<Rightarrow> epoch" where
  "monitor_epoch m = Epoch (hn_epoch m)"

definition increment_epoch :: "health_monitor \<Rightarrow> epoch \<times> health_monitor" where
  "increment_epoch m = (Epoch (hn_epoch m + 1), m\<lparr>hn_epoch := hn_epoch m + 1\<rparr>)"

definition get_fencing_token :: "raft_term \<Rightarrow> health_monitor \<Rightarrow> fencing_token" where
  "get_fencing_token term m =
     \<lparr>ft_epoch = monitor_epoch m, ft_node_id = hn_local_node_id m, ft_term = term\<rparr>"

definition validate_token :: "fencing_token \<Rightarrow> health_monitor \<Rightarrow> fencing_error + unit" where
  "validate_token t m = token_validate t (monitor_epoch m)"

text \<open>
  One turn of \<open>run_health_checks\<close>.  The iteration still runs when the status of a node is overwritten;
  \<open>pinned\<close> says whether the iterator itself keeps the shard of the current entry locked, in which case
  the overwriting does not return.
\<close>

definition check_node :: "bool \<Rightarrow> nat \<Rightarrow> node_id \<times> node_health \<Rightarrow> health_monitor \<Rightarrow> health_monitor option" where
  "check_node pinned now e m =
     (case hm_get (hn_detectors m) (fst e) of
        None \<Rightarrow> Some m
      | Some d \<Rightarrow>
          (case pd_last_heartbeat d of
             None \<Rightarrow> Some m
           | Some prev \<Rightarrow>
               if fo_suspicion_timeout (hn_config m) < now - prev \<and> snd e \<noteq> Failed
               then if pinned then None
                    else broadcast_health False (m\<lparr>hn_status := hm_insert (fst e) Failed (hn_status m)\<rparr>)
               else Some m))"

fun check_nodes :: "bool \<Rightarrow> nat \<Rightarrow> (node_id \<times> node_health) list \<Rightarrow> health_monitor \<Rightarrow> health_monitor option" where
  "check_nodes pinned now [] m = Some m"
| "check_nodes pinned now (e # es) m = Option.bind (check_node pinned now e m) (check_nodes pinned now es)"

definition health_check_turn :: "bool \<Rightarrow> nat \<Rightarrow> health_monitor \<Rightarrow> health_monitor option" where
  "health_check_turn pinned now m = check_nodes pinned now (hn_status m) m"

subsection \<open>The failover manager\<close>

datatype failover_action = PromoteLeader u64 node_id | ReplaceNode node_id | Rebalance

record failover_event =
  fe_timestamp :: nat
  fe_action :: failover_action
  fe_success :: bool
  fe_error :: "rtdb_error option"

datatype failover_policy = Automatic | Manual | Disabled

text \<open>The shared health monitor is kept as a field of the manager; the replica tracker is not used.\<close>

record failover_manager =
  fm_config :: failover_config
  fm_monitor :: health_monitor
  fm_active_failovers :: u64
  fm_last_failover :: "nat option"
  fm_policy :: failover_policy
  fm_event_log :: "failover_event list"
  fm_max_log_size :: nat

definition failover_manager_new :: "failover_config \<Rightarrow> health_monitor \<Rightarrow> failover_manager" where
  "failover_manager_new config monitor =
     \<lparr>fm_config = config, fm_monitor = monitor, fm_active_failovers = 0, fm_last_failover = None,
      fm_policy = Automatic, fm_event_log = [], fm_max_log_size = 1000\<rparr>"

definition can_failover :: "nat \<Rightarrow> failover_manager \<Rightarrow> bool" where
  "can_failover now m \<longleftrightarrow>
     fm_policy m = Automatic \<and> fo_auto_failover_enabled (fm_config m) \<and>
     unat (fm_active_failovers m) < fo_max_concurrent_failovers (fm_config m) \<and>
     (case fm_last_failover m of None \<Rightarrow> True | Some prev \<Rightarrow> fo_failover_cooldown (fm_config m) \<le> now - prev)"

definition do_promote_leader :: "u64 \<Rightarrow> node_id \<Rightarrow> failover_manager \<Rightarrow> unit res \<times> failover_manager" where
  "do_promote_leader shard new_leader m = (Inr (), m\<lparr>fm_monitor := snd (increment_epoch (fm_monitor m))\<rparr>)"

definition do_replace_node :: "node_id \<Rightarrow> failover_manager \<Rightarrow> unit res \<times> failover_manager" where
  "do_replace_node failed_node m = (Inr (), m)"

definition do_rebalance :: "failover_manager \<Rightarrow> unit res \<times> failover_manager" where
  "do_rebalance m = (Inr (), m)"

definition log_event :: "failover_event \<Rightarrow> failover_manager \<Rightarrow> failover_manager" where
  "log_event e m =
     (let log = fm_event_log m @ [e]
      in m\<lparr>fm_event_log := drop (length log - fm_max_log_size m) log\<rparr>)"

text \<open>
  \<open>execute_failover\<close> in the steps between which other calls may run: the check, the start, the action
  and the end.
\<close>

definition start_failover :: "nat \<Rightarrow> failover_manager \<Rightarrow> failover_manager" where
  "start_failover now m = m\<lparr>fm_active_failovers := fm_active_failovers m + 1, fm_last_failover := Some now\<rparr>"

definition perform_failover :: "failover_action \<Rightarrow> failover_manager \<Rightarrow> unit res \<times> failover_manager" where
  "perform_failover action m =
     (case action of
        PromoteLeader shard new_leader \<Rightarrow> do_promote_leader shard new_leader m
      | ReplaceNode failed_node \<Rightarrow> do_replace_node failed_node m
      | Rebalance \<Rightarrow> do_rebalance m)"

definition finish_failover :: "nat \<Rightarrow> failover_action \<Rightarrow> unit res \<Rightarrow> failover_manager \<Rightarrow> failover_manager" where
  "finish_failover now action result m =
     log_event
       \<lparr>fe_timestamp = now, fe_action = action, fe_success = (case result of Inl _ \<Rightarrow> False | Inr _ \<Rightarrow> True),
        fe_error = (case result of Inl e \<Rightarrow> Some e | Inr _ \<Rightarrow> None)\<rparr>
       (m\<lparr>fm_active_failovers := fm_active_failovers m - 1\<rparr>)"

definition execute_failover ::
  "nat \<Rightarrow> nat \<Rightarrow> nat \<Rightarrow> failover_action \<Rightarrow> failover_manager \<Rightarrow> unit res \<times> failover_manager"
where
  "execute_failover now now1 now2 action m =
     (if \<not> can_failover now m then (Inl EConfiguration, m)
      else
        (let (result, m') = perform_failover action (start_failover now1 m)
         in (result, finish_failover now2 action result m')))"

definition set_policy :: "failover_policy \<Rightarrow> failover_manager \<Rightarrow> failover_manager" where
  "set_policy p m = m\<lparr>fm_policy := p\<rparr>"

subsection \<open>Membership\<close>

datatype membership_status = MsActive | MsJoining | MsLeaving | MsRemoved

record cluster_member =
  mb_node_id :: node_id
  mb_address :: string
  mb_status :: membership_status
  mb_joined_at :: nat
  mb_last_seen :: nat
  mb_metadata :: node_metadata

record membership =
  me_local_node_id :: node_id
  me_members :: "(node_id \<times> cluster_member) list"
  me_epoch :: u64
  me_published :: "cluster_member list"

definition membership_new :: "node_id \<Rightarrow> membership" where
  "membership_new local = \<lparr>me_local_node_id = local, me_members = [], me_epoch = 0, me_published = []\<rparr>"

definition get_all_members :: "membership \<Rightarrow> cluster_member list" where
  "get_all_members m = hm_values (me_members m)"

text \<open>\<open>held\<close>: the caller holds a member for writing.\<close>

definition broadcast_members :: "bool \<Rightarrow> membership \<Rightarrow> membership option" where
  "broadcast_members held m = (if held then None else Some (m\<lparr>me_published := get_all_members m\<rparr>))"

definition add_member :: "nat \<Rightarrow> node_id \<Rightarrow> string \<Rightarrow> membership \<Rightarrow> membership option" where
  "add_member now nid address m =
     broadcast_members False
       (m\<lparr>me_members := hm_insert nid
             \<lparr>mb_node_id = nid, mb_address = address, mb_status = MsJoining, mb_joined_at = now, mb_last_seen = now,
              mb_metadata = []\<rparr> (me_members m),
          me_epoch := me_epoch m + 1\<rparr>)"

definition activate_member :: "nat \<Rightarrow> node_id \<Rightarrow> membership \<Rightarrow> membership option" where
  "activate_member now nid m =
     (case hm_get (me_members m) nid of
        None \<Rightarrow> Some m
      | Some member \<Rightarrow>
          broadcast_members True
            (m\<lparr>me_members := hm_insert nid (member\<lparr>mb_status := MsActive, mb_last_seen := now\<rparr>) (me_members m)\<rparr>))"

definition remove_member :: "node_id \<Rightarrow> membership \<Rightarrow> membership option" where
  "remove_member nid m =
     (if hm_get (me_members m) nid = None then Some m
      else broadcast_members False (m\<lparr>me_members := hm_remove nid (me_members m), me_epoch := me_epoch m + 1\<rparr>))"

definition update_metadata :: "nat \<Rightarrow> node_id \<Rightarrow> node_metadata \<Rightarrow> membership \<Rightarrow> membership" where
  "update_metadata now nid metadata m =
     (case hm_get (me_members m) nid of
        None \<Rightarrow> m
      | Some member \<Rightarrow>
          m\<lparr>me_members := hm_insert nid (member\<lparr>mb_metadata := metadata, mb_last_seen := now\<rparr>) (me_members m)\<rparr>)"

definition get_active_members :: "membership \<Rightarrow> cluster_member list" where
  "get_active_members m = filter (\<lambda>mb. mb_status mb = MsActive) (hm_values (me_members m))"

definition member_count :: "membership \<Rightarrow> nat" where
  "member_count m = length (me_members m)"

definition active_member_count :: "membership \<Rightarrow> nat" where
  "active_member_count m = length (filter (\<lambda>mb. mb_status mb = MsActive) (hm_values (me_members m)))"

definition membership_epoch :: "membership \<Rightarrow> epoch" where
  "membership_epoch m = Epoch (me_epoch m)"

definition has_quorum :: "membership \<Rightarrow> bool" where
  "has_quorum m \<longleftrightarrow> member_count m div 2 < active_member_count m"

subsection \<open>The failover system\<close>

record failover_system =
  fs_manager :: failover_manager
  fs_membership :: membership
  fs_config :: failover_config

definition failover_system_new :: "node_id \<Rightarrow> failover_config \<Rightarrow> failover_system" where
  "failover_system_new local config =
     \<lparr>fs_manager = failover_manager_new config (health_monitor_new local config),
      fs_membership = membership_new local, fs_config = config\<rparr>"

definition create_heartbeat :: "nat \<Rightarrow> failover_system \<Rightarrow> heartbeat" where
  "create_heartbeat now s =
     \<lparr>hb_node_id = hn_local_node_id (fm_monitor (fs_manager s)), hb_seq = 0, hb_timestamp = now,
      hb_epoch = monitor_epoch (fm_monitor (fs_manager s)), hb_metadata = []\<rparr>"

definition generate_fencing_token :: "raft_term \<Rightarrow> failover_system \<Rightarrow> fencing_token" where
  "generate_fencing_token term s = get_fencing_token term (fm_monitor (fs_manager s))"

definition validate_fencing_token :: "fencing_token \<Rightarrow> failover_system \<Rightarrow> fencing_error + unit" where
  "validate_fencing_token t s = validate_token t (fm_monitor (fs_manager s))"

end
