(* ===== verification/FailoverClaims.thy ===== *)
theory FailoverClaims
  imports Failover
begin

text \<open>
  The properties of fencing, failover, health monitoring and membership.  The runs of a manager are
  lists of calls; the calls that other threads make in between are an inductive step relation.
\<close>

subsection \<open>Runs of the failover manager\<close>

datatype failover_call = CallExecute nat nat nat failover_action | CallSetPolicy failover_policy

text \<open>The results of the executions of a run, with the time each failover started, and the manager after it.\<close>

fun run_calls :: "failover_call list \<Rightarrow> failover_manager \<Rightarrow> (nat \<times> failover_action \<times> unit res) list \<times> failover_manager" where
  "run_calls [] m = ([], m)"
| "run_calls (CallSetPolicy p # cs) m = run_calls cs (set_policy p m)"
| "run_calls (CallExecute now now1 now2 a # cs) m =
     (let (r, m1) = execute_failover now now1 now2 a m; (rs, m2) = run_calls cs m1 in ((now1, a, r) # rs, m2))"

definition succeeded :: "nat \<times> failover_action \<times> unit res \<Rightarrow> bool" where
  "succeeded e \<longleftrightarrow> snd (snd e) = Inr ()"

definition promotes :: "nat \<times> failover_action \<times> unit res \<Rightarrow> bool" where
  "promotes e \<longleftrightarrow> succeeded e \<and> (\<exists>shard leader. fst (snd e) = PromoteLeader shard leader)"

lemma execute_allowed:
  "can_failover now m \<Longrightarrow> execute_failover now now1 now2 a m =
     (Inr (), finish_failover now2 a (Inr ()) (snd (perform_failover a (start_failover now1 m))))"
  by (cases a) (simp_all add: execute_failover_def perform_failover_def do_promote_leader_def do_replace_node_def do_rebalance_def)

lemma execute_refused: "\<not> can_failover now m \<Longrightarrow> execute_failover now now1 now2 a m = (Inl EConfiguration, m)"
  by (simp add: execute_failover_def)

lemmas failover_ops = finish_failover_def perform_failover_def do_promote_leader_def do_replace_node_def do_rebalance_def
  start_failover_def log_event_def increment_epoch_def Let_def

lemma execute_success_iff: "fst (execute_failover now now1 now2 a m) = Inr () \<longleftrightarrow> can_failover now m"
  by (cases "can_failover now m") (simp_all add: execute_allowed execute_refused)

lemma execute_epoch:
  "hn_epoch (fm_monitor (snd (execute_failover now now1 now2 a m))) =
     hn_epoch (fm_monitor m) + (if promotes (now1, a, fst (execute_failover now now1 now2 a m)) then 1 else 0)"
proof (cases "can_failover now m")
  case True
  then show ?thesis
    by (cases a) (simp_all add: execute_allowed promotes_def succeeded_def failover_ops)
qed (simp add: execute_refused promotes_def succeeded_def)

lemma run_epoch:
  "hn_epoch (fm_monitor (snd (run_calls cs m))) =
     hn_epoch (fm_monitor m) + of_nat (length (filter promotes (fst (run_calls cs m))))"
proof (induction cs m rule: run_calls.induct)
  case (3 now now1 now2 a cs m)
  obtain r m1 where e: "execute_failover now now1 now2 a m = (r, m1)" by force
  obtain rs m2 where rs: "run_calls cs m1 = (rs, m2)" by force
  have "hn_epoch (fm_monitor m2) = hn_epoch (fm_monitor m1) + of_nat (length (filter promotes rs))"
    using 3 [OF e [symmetric] refl] rs by simp
  moreover have "hn_epoch (fm_monitor m1) = hn_epoch (fm_monitor m) + (if promotes (now1, a, r) then 1 else 0)"
    using execute_epoch [of now now1 now2 a m] e by simp
  ultimately show ?case by (simp add: e rs)
qed (simp_all add: set_policy_def)

text \<open>
  C14.  Fencing.  A token that was taken before a run of calls is valid after it exactly when no leader was
  promoted in the run; otherwise it is refused with its own epoch and the current one, which is larger
  by the number of promotions.
\<close>

theorem token_valid_until_promotion:
  assumes "unat (hn_epoch (fm_monitor m)) + length cs < 2 ^ 64"
  defines "k \<equiv> length (filter promotes (fst (run_calls cs m)))"
  shows "validate_token (get_fencing_token term (fm_monitor m)) (fm_monitor (snd (run_calls cs m))) =
    (if k = 0 then Inr ()
     else Inl (EpochMismatch (monitor_epoch (fm_monitor m)) (Epoch (hn_epoch (fm_monitor m) + of_nat k)))) \<and>
    monitor_epoch (fm_monitor m) \<le> monitor_epoch (fm_monitor (snd (run_calls cs m)))"
proof -
  have "length (fst (run_calls cs m)) \<le> length cs"
    by (induction cs m rule: run_calls.induct) (auto split: prod.split)
  then have "k \<le> length cs" unfolding k_def using length_filter_le le_trans by blast
  then have "unat (hn_epoch (fm_monitor m) + of_nat k) = unat (hn_epoch (fm_monitor m)) + k"
    using assms(1) by (subst unat_add_lem [THEN iffD1]) (simp_all add: unat_of_nat_u64)
  then have "hn_epoch (fm_monitor m) + of_nat k \<le> hn_epoch (fm_monitor m) \<longleftrightarrow> k = 0"
    "hn_epoch (fm_monitor m) \<le> hn_epoch (fm_monitor m) + of_nat k"
    by (simp_all add: word_le_nat_alt)
  then show ?thesis
    by (simp add: validate_token_def token_validate_def epoch_is_valid_def get_fencing_token_def monitor_epoch_def
        run_epoch less_eq_epoch_def flip: k_def)
qed

definition small_config :: failover_config where
  "small_config = failover_config_default\<lparr>fo_failover_cooldown := 10\<rparr>"

definition fresh_manager :: failover_manager where
  "fresh_manager = failover_manager_new small_config (health_monitor_new 1 small_config)"

definition sample_calls :: "failover_call list" where
  "sample_calls = [CallExecute 5 5 6 (PromoteLeader 3 2), CallExecute 7 7 7 Rebalance, CallExecute 15 16 17 (PromoteLeader 3 1)]"

lemmas fresh_manager_defs = fresh_manager_def failover_manager_new_def health_monitor_new_def small_config_def
  failover_config_default_def

lemma sample_run:
  "fst (run_calls sample_calls fresh_manager) =
     [(5, PromoteLeader 3 2, Inr ()), (7, Rebalance, Inl EConfiguration), (16, PromoteLeader 3 1, Inr ())]"
  by (simp add: sample_calls_def execute_failover_def can_failover_def failover_ops fresh_manager_defs secs_def)

lemma fresh_epoch: "hn_epoch (fm_monitor fresh_manager) = 0"
  by (simp add: fresh_manager_defs)

theorem token_valid_until_promotion_witness:
  "validate_token (get_fencing_token 1 (fm_monitor fresh_manager))
     (fm_monitor (snd (run_calls sample_calls fresh_manager))) = Inl (EpochMismatch (Epoch 0) (Epoch 2))"
proof -
  have "unat (hn_epoch (fm_monitor fresh_manager)) + length sample_calls < 2 ^ 64"
    by (simp add: fresh_epoch sample_calls_def)
  from token_valid_until_promotion [OF this, of 1] show ?thesis
    by (simp add: sample_run promotes_def succeeded_def monitor_epoch_def fresh_epoch)
qed

subsection \<open>The cooldown\<close>

text \<open>The times of a run do not decrease.\<close>

fun in_order :: "nat \<Rightarrow> failover_call list \<Rightarrow> bool" where
  "in_order t [] \<longleftrightarrow> True"
| "in_order t (CallSetPolicy p # cs) \<longleftrightarrow> in_order t cs"
| "in_order t (CallExecute now now1 now2 a # cs) \<longleftrightarrow> t \<le> now \<and> now \<le> now1 \<and> now1 \<le> now2 \<and> in_order now2 cs"

definition manager_ok :: "failover_manager \<Rightarrow> bool" where
  "manager_ok m \<longleftrightarrow> fm_active_failovers m = 0 \<and> length (fm_event_log m) \<le> fm_max_log_size m"

lemma execute_keeps:
  assumes "manager_ok m"
  shows "manager_ok (snd (execute_failover now now1 now2 a m)) \<and>
    fm_config (snd (execute_failover now now1 now2 a m)) = fm_config m \<and>
    fm_last_failover (snd (execute_failover now now1 now2 a m)) =
      (if can_failover now m then Some now1 else fm_last_failover m)"
proof (cases "can_failover now m")
  case True
  then show ?thesis using assms by (cases a) (simp_all add: execute_allowed failover_ops manager_ok_def)
qed (simp add: execute_refused assms)

lemma run_cooldown:
  assumes "manager_ok m" and "in_order t cs"
  defines "starts \<equiv> map fst (filter succeeded (fst (run_calls cs m)))"
  shows "manager_ok (snd (run_calls cs m)) \<and>
    sorted_wrt (\<lambda>a b. a + fo_failover_cooldown (fm_config m) \<le> b) starts \<and> (\<forall>s \<in> set starts. t \<le> s) \<and>
    (\<forall>s \<in> set starts. \<forall>l. fm_last_failover m = Some l \<and> l \<le> t \<longrightarrow> l + fo_failover_cooldown (fm_config m) \<le> s)"
  using assms(1,2) unfolding starts_def
proof (induction cs m arbitrary: t rule: run_calls.induct)
  case (2 p cs m)
  then have "manager_ok (set_policy p m)" by (simp add: manager_ok_def set_policy_def)
  from 2(1) [OF this, of t] 2(3) show ?case by (simp add: set_policy_def)
next
  case (3 now now1 now2 a cs m)
  obtain r m1 where e: "execute_failover now now1 now2 a m = (r, m1)" by force
  obtain rs m2 where rs: "run_calls cs m1 = (rs, m2)" by force
  have ord: "t \<le> now" "now \<le> now1" "now1 \<le> now2" "in_order now2 cs" using 3(3) by simp_all
  have m1: "manager_ok m1" "fm_config m1 = fm_config m"
    "fm_last_failover m1 = (if can_failover now m then Some now1 else fm_last_failover m)"
    using execute_keeps [OF 3(2), of now now1 now2 a] e by simp_all
  have r: "r = Inr () \<longleftrightarrow> can_failover now m" using execute_success_iff [of now now1 now2 a m] e by simp
  let ?c = "fo_failover_cooldown (fm_config m)" and ?starts = "map fst (filter succeeded rs)"
  have IH: "manager_ok m2" "sorted_wrt (\<lambda>a b. a + ?c \<le> b) ?starts" "\<forall>s \<in> set ?starts. now2 \<le> s"
    "\<forall>s \<in> set ?starts. \<forall>l. fm_last_failover m1 = Some l \<and> l \<le> now2 \<longrightarrow> l + ?c \<le> s"
    using 3(1) [OF e [symmetric] refl m1(1) ord(4)] rs m1(2) by simp_all
  have first: "succeeded (now1, a, r) \<longleftrightarrow> r = Inr ()" by (simp add: succeeded_def)
  have late: "t \<le> s" "now1 \<le> s" if "s \<in> set ?starts" for s using IH(3) that ord by fastforce+
  show ?case
  proof (cases "can_failover now m")
    case True
    have gap: "l + ?c \<le> now1" if "fm_last_failover m = Some l" "l \<le> t" for l
      using True that ord by (auto simp: can_failover_def)
    have after: "now1 + ?c \<le> s" if "s \<in> set ?starts" for s using IH(4) that m1(3) True ord by (auto simp del: set_map)
    have "l + ?c \<le> s" if "fm_last_failover m = Some l" "l \<le> t" "s \<in> set ?starts" for l s
      using gap [OF that(1,2)] late [OF that(3)] by simp
    then show ?thesis
      using True IH(1,2) ord r gap late after by (simp add: e rs first)
  next
    case False
    then have "r \<noteq> Inr ()" using r by simp
    moreover have "l + ?c \<le> s" if "fm_last_failover m = Some l" "l \<le> t" "s \<in> set ?starts" for l s
      using IH(4) that m1(3) False ord by (auto simp del: set_map)
    ultimately show ?thesis using IH(1,2) late by (simp add: e rs first)
  qed
qed simp_all

text \<open>
  When the calls of a run come one after the other, no failover is active after it, its event log has
  kept its bound of 1000, and any two failovers that were executed started at least the cooldown apart.
\<close>

theorem failovers_keep_cooldown:
  assumes "in_order 0 cs"
  shows "fm_active_failovers (snd (run_calls cs (failover_manager_new config monitor))) = 0 \<and>
    length (fm_event_log (snd (run_calls cs (failover_manager_new config monitor)))) \<le>
      fm_max_log_size (snd (run_calls cs (failover_manager_new config monitor))) \<and>
    sorted_wrt (\<lambda>s s'. s + fo_failover_cooldown config \<le> s')
      (map fst (filter succeeded (fst (run_calls cs (failover_manager_new config monitor)))))"
  using run_cooldown [of "failover_manager_new config monitor" 0 cs] assms
  by (simp add: manager_ok_def failover_manager_new_def)

theorem failovers_keep_cooldown_witness:
  "sorted_wrt (\<lambda>s s'. s + 10 \<le> s') (map fst (filter succeeded (fst (run_calls sample_calls fresh_manager)))) \<and>
   map fst (filter succeeded (fst (run_calls sample_calls fresh_manager))) = [5, 16]"
proof -
  have "in_order 0 sample_calls" by (simp add: sample_calls_def)
  from failovers_keep_cooldown [OF this, of small_config "health_monitor_new 1 small_config"]
  have "sorted_wrt (\<lambda>s s'. s + 10 \<le> s') (map fst (filter succeeded (fst (run_calls sample_calls fresh_manager))))"
    by (simp add: fresh_manager_def small_config_def)
  then show ?thesis by (simp add: sample_run succeeded_def)
qed

subsection \<open>Overlapping failovers\<close>

text \<open>
  The check of \<open>execute_failover\<close> and the counting of the failover are two steps; calls of other threads
  may run between them.  A thread is idle, has passed the check, or runs an action.
\<close>

datatype fo_thread = FoIdle | FoChecked | FoRunning failover_action

inductive fo_step :: "(nat \<Rightarrow> fo_thread) \<times> failover_manager \<Rightarrow> (nat \<Rightarrow> fo_thread) \<times> failover_manager \<Rightarrow> bool" where
  check: "pc i = FoIdle \<Longrightarrow> can_failover now m \<Longrightarrow> fo_step (pc, m) (pc(i := FoChecked), m)"
| start: "pc i = FoChecked \<Longrightarrow> fo_step (pc, m) (pc(i := FoRunning a), start_failover now m)"
| finish: "pc i = FoRunning a \<Longrightarrow> perform_failover a m = (r, m1) \<Longrightarrow>
    fo_step (pc, m) (pc(i := FoIdle), finish_failover now a r m1)"

lemma check_all:
  assumes "can_failover now m"
  shows "fo_step\<^sup>*\<^sup>* (\<lambda>_. FoIdle, m) (\<lambda>i. if i < k then FoChecked else FoIdle, m)"
proof (induction k)
  case (Suc k)
  have "fo_step (\<lambda>i. if i < k then FoChecked else FoIdle, m) ((\<lambda>i. if i < k then FoChecked else FoIdle)(k := FoChecked), m)"
    using assms by (intro fo_step.check) simp_all
  moreover have "(\<lambda>i. if i < k then FoChecked else FoIdle)(k := FoChecked) = (\<lambda>i. if i < Suc k then FoChecked else FoIdle)"
    by auto
  ultimately show ?case using Suc by (metis rtranclp.rtrancl_into_rtrancl)
qed simp

lemma start_all:
  "j \<le> k \<Longrightarrow> fo_step\<^sup>*\<^sup>* (\<lambda>i. if i < k then FoChecked else FoIdle, m)
     (\<lambda>i. if i < j then FoRunning a else if i < k then FoChecked else FoIdle, (start_failover now ^^ j) m)"
proof (induction j)
  case (Suc j)
  let ?pc = "\<lambda>i. if i < j then FoRunning a else if i < k then FoChecked else FoIdle"
  have "fo_step (?pc, (start_failover now ^^ j) m) (?pc(j := FoRunning a), start_failover now ((start_failover now ^^ j) m))"
    using Suc.prems by (intro fo_step.start) simp
  moreover have "?pc(j := FoRunning a) = (\<lambda>i. if i < Suc j then FoRunning a else if i < k then FoChecked else FoIdle)"
    by auto
  ultimately show ?case using Suc by (simp add: rtranclp.rtrancl_into_rtrancl)
qed simp

text \<open>
  The limit of concurrent failovers does not hold between threads.  Whenever one failover is allowed, any
  number \<open>k\<close> of threads can pass the check before the first of them is counted, and then \<open>k\<close> failovers run at
  the same time, whatever \<open>fo_max_concurrent_failovers\<close> and the cooldown are.
\<close>

theorem failovers_can_overlap:
  assumes "can_failover now m" and "unat (fm_active_failovers m) + k < 2 ^ 64"
  shows "\<exists>pc m'. fo_step\<^sup>*\<^sup>* (\<lambda>_. FoIdle, m) (pc, m') \<and> (\<forall>i<k. pc i = FoRunning a) \<and>
    unat (fm_active_failovers m') = unat (fm_active_failovers m) + k"
proof -
  have "fm_active_failovers ((start_failover now ^^ j) m) = fm_active_failovers m + of_nat j" for j
    by (induction j) (simp_all add: start_failover_def)
  then have "unat (fm_active_failovers ((start_failover now ^^ k) m)) = unat (fm_active_failovers m) + k"
    using assms(2) by (simp add: unat_of_nat_u64 unat_add_lem [THEN iffD1])
  moreover have "fo_step\<^sup>*\<^sup>* (\<lambda>_. FoIdle, m)
      (\<lambda>i. if i < k then FoRunning a else if i < k then FoChecked else FoIdle, (start_failover now ^^ k) m)"
    using check_all [OF assms(1)] start_all [of k k m a now] by (rule rtranclp_trans) simp
  ultimately show ?thesis by fastforce
qed

theorem failovers_can_overlap_witness:
  "\<exists>pc m'. fo_step\<^sup>*\<^sup>* (\<lambda>_. FoIdle, fresh_manager) (pc, m') \<and> pc 0 = FoRunning Rebalance \<and> pc 1 = FoRunning Rebalance \<and>
     fo_max_concurrent_failovers (fm_config fresh_manager) = 1 \<and> unat (fm_active_failovers m') = 2"
proof -
  have "can_failover 0 fresh_manager" "unat (fm_active_failovers fresh_manager) + 2 < 2 ^ 64"
    "fo_max_concurrent_failovers (fm_config fresh_manager) = 1" "unat (fm_active_failovers fresh_manager) = 0"
    by (simp_all add: can_failover_def fresh_manager_defs)
  moreover obtain pc m' where "fo_step\<^sup>*\<^sup>* (\<lambda>_. FoIdle, fresh_manager) (pc, m')" "\<forall>i<2. pc i = FoRunning Rebalance"
    "unat (fm_active_failovers m') = unat (fm_active_failovers fresh_manager) + 2"
    using failovers_can_overlap [of 0 fresh_manager 2 Rebalance] calculation by auto
  ultimately show ?thesis by (intro exI [of _ pc] exI [of _ m']) simp
qed

subsection \<open>Health\<close>

text \<open>The monitors that a new one becomes by calls that return.\<close>

inductive monitor_reach :: "f64_ops \<Rightarrow> health_monitor \<Rightarrow> health_monitor \<Rightarrow> bool" for fd m0 where
  start: "monitor_reach fd m0 m0"
| register: "monitor_reach fd m0 m \<Longrightarrow> monitor_register nid m = Some m' \<Longrightarrow> monitor_reach fd m0 m'"
| unregister: "monitor_reach fd m0 m \<Longrightarrow> monitor_unregister nid m = Some m' \<Longrightarrow> monitor_reach fd m0 m'"
| heartbeat: "monitor_reach fd m0 m \<Longrightarrow> process_heartbeat fd now now' hb m = Some m' \<Longrightarrow> monitor_reach fd m0 m'"
| turn: "monitor_reach fd m0 m \<Longrightarrow> health_check_turn pinned now m = Some m' \<Longrightarrow> monitor_reach fd m0 m'"
| epoch: "monitor_reach fd m0 m \<Longrightarrow> monitor_reach fd m0 (snd (increment_epoch m))"

definition unavailable_all :: "(node_id \<times> node_health) list \<Rightarrow> bool" where
  "unavailable_all st \<longleftrightarrow> (\<forall>nid h. hm_get st nid = Some h \<longrightarrow> h = Unknown \<or> h = Failed)"

lemma unavailable_all_insert [intro]: "unavailable_all st \<Longrightarrow> h = Unknown \<or> h = Failed \<Longrightarrow> unavailable_all (hm_insert nid h st)"
  by (auto simp: unavailable_all_def)

lemma unavailable_all_remove [intro]: "unavailable_all st \<Longrightarrow> unavailable_all (hm_remove nid st)"
  by (auto simp: unavailable_all_def)

lemma unavailable_all_insert_same [intro]:
  "unavailable_all st \<Longrightarrow> hm_get st nid = Some h \<Longrightarrow> unavailable_all (hm_insert nid h st)"
  by (auto simp: unavailable_all_def)

lemma unavailable_all_get: "unavailable_all st \<Longrightarrow> hm_get st nid = Some h \<Longrightarrow> h = Unknown \<or> h = Failed"
  by (auto simp: unavailable_all_def)

abbreviation only_failures :: "health_monitor \<Rightarrow> bool" where
  "only_failures m \<equiv> unavailable_all (hn_status m)"

lemma register_only_failures:
  "monitor_register nid m = Some m' \<Longrightarrow> only_failures m \<Longrightarrow>
     only_failures m' \<and> hn_local_node_id m' = hn_local_node_id m"
  by (auto simp: monitor_register_def broadcast_health_def split: if_splits)

lemma health_of_phi_not_unknown [simp]: "health_of_phi fd config phi \<noteq> Unknown" "Unknown \<noteq> health_of_phi fd config phi"
  by (simp_all add: health_of_phi_def)

lemma record_only_failures:
  "record_heartbeat fd now now' nid m = Some m' \<Longrightarrow> only_failures m \<Longrightarrow>
     only_failures m' \<and> hn_local_node_id m' = hn_local_node_id m"
  by (auto simp: record_heartbeat_def broadcast_health_def Let_def dest: unavailable_all_get split: option.splits if_splits)

lemma heartbeat_only_failures:
  assumes "process_heartbeat fd now now' hb m = Some m'" and "only_failures m"
  shows "only_failures m' \<and> hn_local_node_id m' = hn_local_node_id m"
proof (cases "hb_node_id hb = hn_local_node_id m")
  case False
  obtain m1 m2 where m1: "m1 = m \<or> monitor_register (hb_node_id hb) m = Some m1"
    and m2: "record_heartbeat fd now now' (hb_node_id hb) m1 = Some m2"
    and m': "hn_status m' = hn_status m2" "hn_local_node_id m' = hn_local_node_id m2"
    using False assms(1) that by (cases "hm_get (hn_detectors m) (hb_node_id hb) = None")
      (fastforce simp: process_heartbeat_def Let_def split: option.splits)+
  have "only_failures m1 \<and> hn_local_node_id m1 = hn_local_node_id m"
    using m1 assms(2) register_only_failures by auto
  then have "only_failures m2 \<and> hn_local_node_id m2 = hn_local_node_id m"
    using record_only_failures [OF m2] by simp
  then show ?thesis using m' by simp
qed (use assms in \<open>simp add: process_heartbeat_def\<close>)

lemma turn_only_failures:
  "check_nodes pinned now es m = Some m' \<Longrightarrow> only_failures m \<Longrightarrow>
     only_failures m' \<and> hn_local_node_id m' = hn_local_node_id m"
proof (induction pinned now es m rule: check_nodes.induct)
  case (2 pinned now e es m)
  then obtain m1 where m1: "check_node pinned now e m = Some m1" "check_nodes pinned now es m1 = Some m'"
    by (auto simp: bind_eq_Some_conv)
  then have "only_failures m1 \<and> hn_local_node_id m1 = hn_local_node_id m"
    using 2(3) by (auto simp: check_node_def broadcast_health_def split: option.splits if_splits)
  with 2(1) [OF m1(1)] m1(2) show ?case by simp
qed simp

text \<open>
  No other node is ever seen as available.  A heartbeat that changes the verdict on a node publishes the new
  verdict while it holds the node's entry, and does not return; so after any calls that did return, a node
  other than the local one is unknown or failed, however regular its heartbeats are.
\<close>

theorem no_remote_node_is_available:
  assumes "monitor_reach fd (health_monitor_new local config) m" and "nid \<noteq> local"
  shows "\<not> is_available (get_health m nid)"
proof -
  have "only_failures m \<and> hn_local_node_id m = local"
    using assms(1)
  proof induction
    case (unregister m nid m')
    then show ?case by (auto simp: monitor_unregister_def broadcast_health_def)
  next
    case (epoch m)
    then show ?case by (simp add: increment_epoch_def)
  qed (auto simp: health_monitor_new_def unavailable_all_def [of "[]"] health_check_turn_def
      dest: register_only_failures heartbeat_only_failures turn_only_failures)
  then show ?thesis
    using assms(2) by (auto simp: get_health_def is_available_def dest: unavailable_all_get split: option.split)
qed

text \<open>A node whose heartbeats come every 10 nanoseconds, with a warm-up of one.\<close>

definition eager_config :: failover_config where
  "eager_config = failover_config_default\<lparr>fo_warmup_count := 1\<rparr>"

definition beat :: heartbeat where
  "beat = \<lparr>hb_node_id = 2, hb_seq = 0, hb_timestamp = 0, hb_epoch = Epoch 0, hb_metadata = []\<rparr>"

lemmas monitor_eval = process_heartbeat_def monitor_register_def broadcast_health_def record_heartbeat_def
  health_monitor_new_def eager_config_def failover_config_default_def beat_def phi_heartbeat_def phi_new_def
  phi_value_def calculate_statistics_def get_all_health_def Let_def

theorem no_remote_node_is_available_witness:
  "\<forall>fd. \<exists>m. process_heartbeat fd 10 11 beat (health_monitor_new 1 eager_config) = Some m \<and>
     process_heartbeat fd 20 21 beat m = None \<and> \<not> is_available (get_health m 2)"
proof
  fix fd
  obtain m where m: "process_heartbeat fd 10 11 beat (health_monitor_new 1 eager_config) = Some m"
    "process_heartbeat fd 20 21 beat m = None"
    by (simp add: monitor_eval hm_get_def split: if_splits)
  have "monitor_reach fd (health_monitor_new 1 eager_config) m"
    by (rule monitor_reach.heartbeat [OF monitor_reach.start m(1)])
  then have "\<not> is_available (get_health m 2)" by (rule no_remote_node_is_available) simp
  with m show "\<exists>m. process_heartbeat fd 10 11 beat (health_monitor_new 1 eager_config) = Some m \<and>
     process_heartbeat fd 20 21 beat m = None \<and> \<not> is_available (get_health m 2)" by blast
qed

subsection \<open>Membership\<close>

inductive membership_reach :: "membership \<Rightarrow> membership \<Rightarrow> bool" for m0 where
  start: "membership_reach m0 m0"
| add: "membership_reach m0 m \<Longrightarrow> add_member now nid address m = Some m' \<Longrightarrow> membership_reach m0 m'"
| activate: "membership_reach m0 m \<Longrightarrow> activate_member now nid m = Some m' \<Longrightarrow> membership_reach m0 m'"
| remove: "membership_reach m0 m \<Longrightarrow> remove_member nid m = Some m' \<Longrightarrow> membership_reach m0 m'"
| update: "membership_reach m0 m \<Longrightarrow> membership_reach m0 (update_metadata now nid metadata m)"

text \<open>
  No cluster has a quorum.  Activating a member publishes the members while the member is held for writing
  and does not return, so no member is ever active, and \<open>has_quorum\<close> is false after any calls that returned.
\<close>

theorem no_quorum_is_reached:
  assumes "membership_reach (membership_new local) m"
  shows "get_active_members m = [] \<and> \<not> has_quorum m \<and>
    (\<forall>nid. hm_get (me_members m) nid \<noteq> None \<longrightarrow> activate_member now nid m = None)"
proof -
  have "\<forall>(nid, mb) \<in> set (me_members m). mb_status mb \<noteq> MsActive"
    using assms
  proof induction
    case (add m now nid address m')
    then show ?case
      using set_hm_insert by (fastforce simp: add_member_def broadcast_members_def)
  next
    case (activate m now nid m')
    then show ?case by (auto simp: activate_member_def broadcast_members_def split: option.splits)
  next
    case (remove m nid m')
    then show ?case by (auto simp: remove_member_def broadcast_members_def hm_remove_def split: if_splits)
  next
    case (update m now nid metadata)
    show ?case
    proof (cases "hm_get (me_members m) nid")
      case (Some mb)
      then have "mb_status mb \<noteq> MsActive" using update.IH hm_get_mem by fastforce
      moreover have "me_members (update_metadata now nid metadata m) =
          hm_insert nid (mb\<lparr>mb_metadata := metadata, mb_last_seen := now\<rparr>) (me_members m)"
        using Some by (simp add: update_metadata_def)
      ultimately show ?thesis
        using update.IH set_hm_insert [of nid "mb\<lparr>mb_metadata := metadata, mb_last_seen := now\<rparr>" "me_members m"] by auto
    qed (use update.IH in \<open>simp add: update_metadata_def\<close>)
  qed (simp add: membership_new_def)
  then have "get_active_members m = []"
    by (auto simp: get_active_members_def filter_empty_conv hm_values_def)
  then show ?thesis
    by (auto simp: has_quorum_def active_member_count_def get_active_members_def activate_member_def
        broadcast_members_def)
qed

theorem no_quorum_is_reached_witness:
  "\<exists>m. add_member 3 7 ''host'' (membership_new 1) = Some m \<and> member_count m = 1 \<and> \<not> has_quorum m \<and>
     activate_member 4 7 m = None"
proof -
  obtain m where m: "add_member 3 7 ''host'' (membership_new 1) = Some m" "member_count m = 1" "hm_get (me_members m) 7 \<noteq> None"
    by (simp add: add_member_def broadcast_members_def membership_new_def member_count_def hm_get_def)
  have "membership_reach (membership_new 1) m"
    by (rule membership_reach.add [OF membership_reach.start m(1)])
  from no_quorum_is_reached [OF this, of 4] m show ?thesis by blast
qed

end
