(* ===== verification/Replication.thy ===== *)
theory Replication
  imports ClusterTopology
begin

text \<open>
  Replication of shards, \<open>src/src/cluster/replication.rs\<close>: the tracker of replicas, the coordination of
  a write over the replicas of a shard, and the choice of a replica for a read.

  The client that carries a write to another node is an argument \<open>rc\<close>: its two operations change a state
  of the outside world and return a result.  The futures of the code run when they are awaited, so the
  followers are sent the write one after the other, in the order of the list.  Time stamps and the measured
  latency are arguments.
\<close>

subsection \<open>Replicas\<close>

datatype replica_role = RoleLeader | RoleFollower | RoleLearner

definition role_display :: "replica_role \<Rightarrow> string" where
  "role_display r = (case r of RoleLeader \<Rightarrow> ''Leader'' | RoleFollower \<Rightarrow> ''Follower'' | RoleLearner \<Rightarrow> ''Learner'')"

record shard_replica =
  sr_shard_id :: shard_id
  sr_node_id :: string
  sr_role :: replica_role
  sr_lag_ms :: u64
  sr_last_applied :: u64
  sr_is_online :: bool
  sr_created_at :: u64

definition new_leader :: "u64 \<Rightarrow> shard_id \<Rightarrow> string \<Rightarrow> shard_replica" where
  "new_leader now shard node =
     \<lparr>sr_shard_id = shard, sr_node_id = node, sr_role = RoleLeader, sr_lag_ms = 0, sr_last_applied = 0,
      sr_is_online = True, sr_created_at = now\<rparr>"

definition new_follower :: "u64 \<Rightarrow> shard_id \<Rightarrow> string \<Rightarrow> shard_replica" where
  "new_follower now shard node =
     \<lparr>sr_shard_id = shard, sr_node_id = node, sr_role = RoleFollower, sr_lag_ms = 0, sr_last_applied = 0,
      sr_is_online = True, sr_created_at = now\<rparr>"

definition can_serve_reads :: "u64 \<Rightarrow> shard_replica \<Rightarrow> bool" where
  "can_serve_reads max_lag r \<longleftrightarrow> sr_is_online r \<and> sr_lag_ms r \<le> max_lag"

definition update_lag :: "u64 \<Rightarrow> shard_replica \<Rightarrow> shard_replica" where
  "update_lag leader_applied r =
     (if sr_role r = RoleLeader then r\<lparr>sr_lag_ms := 0\<rparr>
      else r\<lparr>sr_lag_ms := (if sr_last_applied r \<le> leader_applied then leader_applied - sr_last_applied r else 0)\<rparr>)"

datatype placement_strategy = PsSpread | PsZoneAware | PsLabelAware

record replication_config =
  rp_replication_factor :: nat
  rp_min_write_ack :: nat
  rp_placement_strategy :: placement_strategy
  rp_max_follower_read_lag_ms :: u64
  rp_enable_follower_reads :: bool
  rp_async_timeout_ms :: u64
  rp_sync_timeout_ms :: u64

definition replication_config_default :: replication_config where
  "replication_config_default =
     \<lparr>rp_replication_factor = 3, rp_min_write_ack = 2, rp_placement_strategy = PsSpread,
      rp_max_follower_read_lag_ms = 1000, rp_enable_follower_reads = True, rp_async_timeout_ms = 5000,
      rp_sync_timeout_ms = 1000\<rparr>"

subsection \<open>The tracker\<close>

record replica_tracker =
  tk_shard_replicas :: "(shard_id \<times> shard_replica list) list"
  tk_node_shards :: "(string \<times> shard_id set) list"
  tk_config :: replication_config
  tk_local_node_id :: string

definition tracker_new :: "replication_config \<Rightarrow> string \<Rightarrow> replica_tracker" where
  "tracker_new config local =
     \<lparr>tk_shard_replicas = [], tk_node_shards = [], tk_config = config, tk_local_node_id = local\<rparr>"

definition get_replicas :: "replica_tracker \<Rightarrow> shard_id \<Rightarrow> shard_replica list" where
  "get_replicas t shard = (case hm_get (tk_shard_replicas t) shard of None \<Rightarrow> [] | Some rs \<Rightarrow> rs)"

definition get_node_shards :: "replica_tracker \<Rightarrow> string \<Rightarrow> shard_id set" where
  "get_node_shards t node = (case hm_get (tk_node_shards t) node of None \<Rightarrow> {} | Some s \<Rightarrow> s)"

definition register_replica :: "shard_replica \<Rightarrow> replica_tracker \<Rightarrow> replica_tracker" where
  "register_replica r t =
     t\<lparr>tk_shard_replicas := hm_insert (sr_shard_id r) (get_replicas t (sr_shard_id r) @ [r]) (tk_shard_replicas t),
       tk_node_shards := hm_insert (sr_node_id r) (insert (sr_shard_id r) (get_node_shards t (sr_node_id r)))
         (tk_node_shards t)\<rparr>"

definition remove_replica :: "shard_id \<Rightarrow> string \<Rightarrow> replica_tracker \<Rightarrow> replica_tracker" where
  "remove_replica shard node t =
     t\<lparr>tk_shard_replicas :=
         (case hm_get (tk_shard_replicas t) shard of
            None \<Rightarrow> tk_shard_replicas t
          | Some rs \<Rightarrow> hm_insert shard (filter (\<lambda>r. sr_node_id r \<noteq> node) rs) (tk_shard_replicas t)),
       tk_node_shards :=
         (case hm_get (tk_node_shards t) node of
            None \<Rightarrow> tk_node_shards t
          | Some s \<Rightarrow> hm_insert node (s - {shard}) (tk_node_shards t))\<rparr>"

definition get_leader :: "replica_tracker \<Rightarrow> shard_id \<Rightarrow> shard_replica option" where
  "get_leader t shard = find (\<lambda>r. sr_role r = RoleLeader) (get_replicas t shard)"

definition get_followers :: "replica_tracker \<Rightarrow> shard_id \<Rightarrow> shard_replica list" where
  "get_followers t shard = filter (\<lambda>r. sr_role r = RoleFollower) (get_replicas t shard)"

definition get_readable_replicas :: "replica_tracker \<Rightarrow> shard_id \<Rightarrow> shard_replica list" where
  "get_readable_replicas t shard =
     filter (can_serve_reads (rp_max_follower_read_lag_ms (tk_config t))) (get_replicas t shard)"

definition is_local_leader :: "replica_tracker \<Rightarrow> shard_id \<Rightarrow> bool" where
  "is_local_leader t shard =
     (case get_leader t shard of None \<Rightarrow> False | Some l \<Rightarrow> sr_node_id l = tk_local_node_id t)"

text \<open>The loops that change the first replica of a node and \<open>break\<close>.\<close>

fun update_first :: "string \<Rightarrow> (shard_replica \<Rightarrow> shard_replica) \<Rightarrow> shard_replica list \<Rightarrow> shard_replica list" where
  "update_first node f [] = []"
| "update_first node f (r # rs) = (if sr_node_id r = node then f r # rs else r # update_first node f rs)"

definition update_replica_status :: "shard_id \<Rightarrow> string \<Rightarrow> bool \<Rightarrow> replica_tracker \<Rightarrow> replica_tracker" where
  "update_replica_status shard node online t =
     (case hm_get (tk_shard_replicas t) shard of
        None \<Rightarrow> t
      | Some rs \<Rightarrow>
          t\<lparr>tk_shard_replicas :=
             hm_insert shard (update_first node (\<lambda>r. r\<lparr>sr_is_online := online\<rparr>) rs) (tk_shard_replicas t)\<rparr>)"

definition update_replication_lag :: "shard_id \<Rightarrow> string \<Rightarrow> u64 \<Rightarrow> replica_tracker \<Rightarrow> replica_tracker" where
  "update_replication_lag shard node last_applied t =
     (case hm_get (tk_shard_replicas t) shard of
        None \<Rightarrow> t
      | Some rs \<Rightarrow>
          (let leader_applied =
                 (case find (\<lambda>r. sr_role r = RoleLeader) rs of None \<Rightarrow> 0 | Some r \<Rightarrow> sr_last_applied r)
           in t\<lparr>tk_shard_replicas :=
                hm_insert shard
                  (update_first node (\<lambda>r. update_lag leader_applied (r\<lparr>sr_last_applied := last_applied\<rparr>)) rs)
                  (tk_shard_replicas t)\<rparr>))"

text \<open>\<open>rf - 1\<close> wraps when the replication factor is 0: then every node gets a replica.\<close>

definition assign_replicas :: "u64 \<Rightarrow> shard_id \<Rightarrow> string list \<Rightarrow> replica_tracker \<Rightarrow> shard_replica list \<times> replica_tracker" where
  "assign_replicas now shard candidates t =
     (case candidates of
        [] \<Rightarrow> ([], t)
      | first # others \<Rightarrow>
          (let rf = min (rp_replication_factor (tk_config t)) (length candidates);
               followers = take (if rf = 0 then 2 ^ 64 - 1 else rf - 1) others;
               replicas = new_leader now shard first # map (new_follower now shard) followers
           in (replicas, fold register_replica replicas t)))"

record replication_stats =
  rs_total_shards :: nat
  rs_total_replicas :: nat
  rs_online_replicas :: nat
  rs_offline_replicas :: nat
  rs_avg_lag_ms :: u64

definition tracker_stats :: "replica_tracker \<Rightarrow> replication_stats" where
  "tracker_stats t =
     (let all = hm_values (tk_shard_replicas t);
          total = sum_list (map length all);
          online = sum_list (map (\<lambda>rs. length (filter sr_is_online rs)) all);
          total_lag = sum_list (map (\<lambda>rs. sum_list (map sr_lag_ms rs)) all)
      in \<lparr>rs_total_shards = length (tk_shard_replicas t), rs_total_replicas = total, rs_online_replicas = online,
          rs_offline_replicas = total - online,
          rs_avg_lag_ms = (if 0 < total then total_lag div of_nat total else 0)\<rparr>)"

subsection \<open>Writes\<close>

datatype write_consistency = WcAll | WcQuorum | WcOne | WcN nat

definition min_acks :: "write_consistency \<Rightarrow> nat \<Rightarrow> nat" where
  "min_acks c rf = (case c of WcAll \<Rightarrow> rf | WcQuorum \<Rightarrow> rf div 2 + 1 | WcOne \<Rightarrow> 1 | WcN n \<Rightarrow> min n rf)"

record 'c replication_client =
  rc_write_to_leader :: "string \<Rightarrow> shard_id \<Rightarrow> u8 list \<Rightarrow> 'c \<Rightarrow> u64 res \<times> 'c"
  rc_replicate :: "string \<Rightarrow> shard_id \<Rightarrow> u64 \<Rightarrow> u8 list \<Rightarrow> 'c \<Rightarrow> unit res \<times> 'c"

record write_result =
  wr_sequence :: u64
  wr_acknowledged :: nat
  wr_required :: nat
  wr_latency_ms :: u64
  wr_failed_nodes :: "string list"

fun await_followers ::
  "'c replication_client \<Rightarrow> shard_id \<Rightarrow> u64 \<Rightarrow> u8 list \<Rightarrow> nat \<Rightarrow> shard_replica list \<Rightarrow>
   nat \<times> string list \<times> 'c \<Rightarrow> nat \<times> string list \<times> 'c"
where
  "await_followers rc shard sequence data required [] st = st"
| "await_followers rc shard sequence data required (f # fs) (acks, failed, c) =
     (let (result, c') = rc_replicate rc (sr_node_id f) shard sequence data c;
          (acks', failed') = (case result of Inr _ \<Rightarrow> (acks + 1, failed) | Inl _ \<Rightarrow> (acks, failed @ [sr_node_id f]))
      in if required \<le> acks' then (acks', failed', c')
         else await_followers rc shard sequence data required fs (acks', failed', c'))"

definition coordinate_write ::
  "'c replication_client \<Rightarrow> u64 \<Rightarrow> shard_id \<Rightarrow> u8 list \<Rightarrow> write_consistency \<Rightarrow> replica_tracker \<Rightarrow> 'c \<Rightarrow>
   write_result res \<times> 'c"
where
  "coordinate_write rc latency shard data consistency t c =
     (let replicas = get_replicas t shard
      in if replicas = [] then (Inl EStorage, c)
         else
           (case find (\<lambda>r. sr_role r = RoleLeader) replicas of
              None \<Rightarrow> (Inl EConsensus, c)
            | Some leader \<Rightarrow>
                (let required = min_acks consistency (length replicas)
                 in case rc_write_to_leader rc (sr_node_id leader) shard data c of
                      (Inl err, c1) \<Rightarrow> (Inl err, c1)
                    | (Inr sequence, c1) \<Rightarrow>
                        (let followers = filter (\<lambda>r. sr_role r = RoleFollower \<and> sr_is_online r) replicas;
                             (acks, failed, c2) =
                               (if 1 < required \<and> followers \<noteq> []
                                then await_followers rc shard sequence data required followers (1, [], c1)
                                else (1, [], c1))
                         in if required \<le> acks
                            then (Inr \<lparr>wr_sequence = sequence, wr_acknowledged = acks, wr_required = required,
                                       wr_latency_ms = latency, wr_failed_nodes = failed\<rparr>, c2)
                            else (Inl EStorage, c2)))))"

subsection \<open>Reads\<close>

text \<open>A staleness bound is a duration in nanoseconds.\<close>

datatype read_consistency = RcStrong | RcBoundedStaleness nat | RcEventual | RcLocal

record read_balancer =
  rb_counters :: "(shard_id \<times> u64) list"

definition balancer_new :: read_balancer where
  "balancer_new = \<lparr>rb_counters = []\<rparr>"

definition get_local_replica :: "replica_tracker \<Rightarrow> shard_id \<Rightarrow> string \<Rightarrow> u64 \<Rightarrow> shard_replica option" where
  "get_local_replica t shard local max_lag =
     find (\<lambda>r. sr_node_id r = local \<and> sr_is_online r \<and> sr_lag_ms r \<le> max_lag) (get_replicas t shard)"

definition select_any_readable ::
  "replica_tracker \<Rightarrow> shard_id \<Rightarrow> u64 \<Rightarrow> read_balancer \<Rightarrow> shard_replica option \<times> read_balancer"
where
  "select_any_readable t shard max_lag b =
     (let readable = filter (\<lambda>r. sr_is_online r \<and> sr_lag_ms r \<le> max_lag) (get_replicas t shard)
      in if readable = [] then (None, b)
         else
           (let counter = (case hm_get (rb_counters b) shard of None \<Rightarrow> 0 | Some n \<Rightarrow> n)
            in (Some (readable ! (unat counter mod length readable)),
                b\<lparr>rb_counters := hm_insert shard (counter + 1) (rb_counters b)\<rparr>)))"

definition select_replica ::
  "replica_tracker \<Rightarrow> shard_id \<Rightarrow> read_consistency \<Rightarrow> string \<Rightarrow> read_balancer \<Rightarrow> shard_replica option \<times> read_balancer"
where
  "select_replica t shard consistency local b =
     (case consistency of
        RcStrong \<Rightarrow> (get_leader t shard, b)
      | RcBoundedStaleness max_lag \<Rightarrow>
          (let ms = of_nat (max_lag div 1000000)
           in case get_local_replica t shard local ms of
                Some r \<Rightarrow> (Some r, b)
              | None \<Rightarrow> select_any_readable t shard ms b)
      | _ \<Rightarrow>
          (case get_local_replica t shard local (- 1) of
             Some r \<Rightarrow> (Some r, b)
           | None \<Rightarrow> select_any_readable t shard (- 1) b))"

fun select_replicas_for_scatter ::
  "replica_tracker \<Rightarrow> shard_id list \<Rightarrow> read_consistency \<Rightarrow> string \<Rightarrow>
   (shard_id \<times> shard_replica) list \<times> read_balancer \<Rightarrow> (shard_id \<times> shard_replica) list \<times> read_balancer"
where
  "select_replicas_for_scatter t [] consistency local st = st"
| "select_replicas_for_scatter t (s # ss) consistency local (selected, b) =
     (let (r, b') = select_replica t s consistency local b
      in select_replicas_for_scatter t ss consistency local
           (case r of None \<Rightarrow> selected | Some replica \<Rightarrow> hm_insert s replica selected, b'))"

subsection \<open>The manager\<close>

record 'c replication_manager =
  rm_tracker :: replica_tracker
  rm_client :: "'c replication_client"
  rm_balancer :: read_balancer
  rm_config :: replication_config

definition replication_manager_new :: "replication_config \<Rightarrow> string \<Rightarrow> 'c replication_client \<Rightarrow> 'c replication_manager" where
  "replication_manager_new config local rc =
     \<lparr>rm_tracker = tracker_new config local, rm_client = rc, rm_balancer = balancer_new, rm_config = config\<rparr>"

definition manager_write ::
  "u64 \<Rightarrow> shard_id \<Rightarrow> u8 list \<Rightarrow> write_consistency \<Rightarrow> 'c replication_manager \<Rightarrow> 'c \<Rightarrow> write_result res \<times> 'c"
where
  "manager_write latency shard data consistency m =
     coordinate_write (rm_client m) latency shard data consistency (rm_tracker m)"

definition select_reader ::
  "shard_id \<Rightarrow> read_consistency \<Rightarrow> string \<Rightarrow> 'c replication_manager \<Rightarrow> shard_replica option \<times> 'c replication_manager"
where
  "select_reader shard consistency local m =
     (let (r, b) = select_replica (rm_tracker m) shard consistency local (rm_balancer m)
      in (r, m\<lparr>rm_balancer := b\<rparr>))"

definition manager_stats :: "'c replication_manager \<Rightarrow> replication_stats" where
  "manager_stats m = tracker_stats (rm_tracker m)"

definition follower_reads_enabled :: "'c replication_manager \<Rightarrow> bool" where
  "follower_reads_enabled m = rp_enable_follower_reads (rm_config m)"

end
