(* ===== verification/ReplicationClaims.thy ===== *)
theory ReplicationClaims
  imports Replication "HOL-Library.Sublist" "HOL-Library.Multiset"
begin

text \<open>
  The properties of replication: what a successful write guarantees, what a read may still miss, the
  tracker's two indices, and the balance of reads.
\<close>

subsection \<open>Writes\<close>

text \<open>
  What is known of the client: \<open>held\<close> is the set of writes that nodes have, with node, shard, sequence
  number and data.  An operation that succeeds adds its write; one that fails adds at most its write.
\<close>

type_synonym write_set = "(string \<times> shard_id \<times> u64 \<times> u8 list) set"

definition client_laws :: "'c replication_client \<Rightarrow> ('c \<Rightarrow> write_set) \<Rightarrow> bool" where
  "client_laws rc held \<longleftrightarrow>
     (\<forall>n s d c q c'. rc_write_to_leader rc n s d c = (Inr q, c') \<longrightarrow> held c' = insert (n, s, q, d) (held c)) \<and>
     (\<forall>n s q d c u c'. rc_replicate rc n s q d c = (Inr u, c') \<longrightarrow> held c' = insert (n, s, q, d) (held c)) \<and>
     (\<forall>n s q d c e c'. rc_replicate rc n s q d c = (Inl e, c') \<longrightarrow>
        held c \<subseteq> held c' \<and> held c' \<subseteq> insert (n, s, q, d) (held c))"

lemma client_leader:
  "client_laws rc held \<Longrightarrow> rc_write_to_leader rc n s d c = (Inr q, c') \<Longrightarrow> held c' = insert (n, s, q, d) (held c)"
  unfolding client_laws_def by metis

lemma client_replicate:
  assumes "client_laws rc held" and "rc_replicate rc n s q d c = (r, c')"
  shows "held c \<subseteq> held c' \<and> held c' \<subseteq> insert (n, s, q, d) (held c) \<and> (\<forall>u. r = Inr u \<longrightarrow> (n, s, q, d) \<in> held c')"
proof (cases r)
  case (Inl e)
  then show ?thesis using assms unfolding client_laws_def by (metis Inl_Inr_False)
next
  case (Inr u)
  then have "held c' = insert (n, s, q, d) (held c)" using assms unfolding client_laws_def by metis
  then show ?thesis by auto
qed

definition writes_of :: "string set \<Rightarrow> shard_id \<Rightarrow> u64 \<Rightarrow> u8 list \<Rightarrow> write_set" where
  "writes_of nodes shard sequence data = (\<lambda>n. (n, shard, sequence, data)) ` nodes"

lemma subseq_set_mem: "subseq xs ys \<Longrightarrow> x \<in> set xs \<Longrightarrow> x \<in> set ys"
  by (induction xs ys rule: list_emb.induct) auto

lemma subseq_distinct: "subseq xs ys \<Longrightarrow> distinct ys \<Longrightarrow> distinct xs"
  by (induction xs ys rule: list_emb.induct) (auto dest: subseq_set_mem)

lemma same_key: "distinct (map f xs) \<Longrightarrow> x \<in> set xs \<Longrightarrow> y \<in> set xs \<Longrightarrow> f x = f y \<Longrightarrow> x = y"
  by (auto simp: distinct_map inj_on_def)

lemma writes_of_insert [simp]: "writes_of (insert n ns) s q d = insert (n, s, q, d) (writes_of ns s q d)"
  by (simp add: writes_of_def)

lemma writes_of_empty [simp]: "writes_of {} s q d = {}"
  by (simp add: writes_of_def)

text \<open>
  The loop contacts the first \<open>k\<close> followers; those that acknowledged, in order, have the write; it stops
  when enough have acknowledged.
\<close>

lemma await_followers_prefix:
  assumes "client_laws rc held"
    and "await_followers rc s q d required fs (acks, failed, c) = (acks', failed', c')" and "acks < required"
  shows "\<exists>k acked. k \<le> length fs \<and> subseq acked (map sr_node_id (take k fs)) \<and>
    acks' = acks + length acked \<and> k + length failed = length acked + length failed' \<and>
    writes_of (set acked) s q d \<subseteq> held c' \<and> held c \<subseteq> held c' \<and>
    held c' \<subseteq> held c \<union> writes_of (sr_node_id ` set (take k fs)) s q d \<and>
    acks' \<le> required \<and> (acks' < required \<longrightarrow> k = length fs)"
  using assms(2,3)
proof (induction fs arbitrary: acks failed c)
  case Nil
  then show ?case by (intro exI [of _ 0] exI [of _ "[]"]) simp
next
  case (Cons f fs)
  obtain r c1 where r: "rc_replicate rc (sr_node_id f) s q d c = (r, c1)" by force
  let ?w = "(sr_node_id f, s, q, d)"
  let ?acks = "case r of Inr _ \<Rightarrow> acks + 1 | Inl _ \<Rightarrow> acks"
  let ?failed = "case r of Inr _ \<Rightarrow> failed | Inl _ \<Rightarrow> failed @ [sr_node_id f]"
  let ?acked = "case r of Inr _ \<Rightarrow> [sr_node_id f] | Inl _ \<Rightarrow> []"
  have c1: "held c \<subseteq> held c1" "held c1 \<subseteq> insert ?w (held c)" "writes_of (set ?acked) s q d \<subseteq> held c1"
    using client_replicate [OF assms(1) r] by (cases r; auto simp: writes_of_def)+
  have step: "await_followers rc s q d required (f # fs) (acks, failed, c) =
      (if required \<le> ?acks then (?acks, ?failed, c1)
       else await_followers rc s q d required fs (?acks, ?failed, c1))"
    using r by (cases r) simp_all
  show ?case
  proof (cases "required \<le> ?acks")
    case True
    then obtain u where u: "r = Inr u" using Cons.prems(2) by (cases r) auto
    with True step Cons.prems have "acks' = acks + 1" "failed' = failed" "c' = c1" "required = acks + 1" by auto
    then show ?thesis using c1 u by (intro exI [of _ 1] exI [of _ "[sr_node_id f]"]) simp
  next
    case False
    with step Cons.prems(1)
    have "await_followers rc s q d required fs (?acks, ?failed, c1) = (acks', failed', c')" by simp
    from Cons.IH [OF this] False obtain k acked where k: "k \<le> length fs"
      "subseq acked (map sr_node_id (take k fs))" "acks' = ?acks + length acked"
      "k + length ?failed = length acked + length failed'" "writes_of (set acked) s q d \<subseteq> held c'"
      "held c1 \<subseteq> held c'" "held c' \<subseteq> held c1 \<union> writes_of (sr_node_id ` set (take k fs)) s q d"
      "acks' \<le> required" "acks' < required \<longrightarrow> k = length fs" by auto
    have "subseq (?acked @ acked) (map sr_node_id (take (Suc k) (f # fs)))"
      using k(2) by (cases r) auto
    moreover have "writes_of (set (?acked @ acked)) s q d \<subseteq> held c'"
      using k(5,6) c1(3) by (auto simp: writes_of_def)
    moreover have "acks' = acks + length (?acked @ acked)"
      "Suc k + length failed = length (?acked @ acked) + length failed'"
      using k(3,4) by (cases r; simp)+
    moreover have "held c' \<subseteq> held c \<union> writes_of (sr_node_id ` set (take (Suc k) (f # fs))) s q d"
      using k(7) c1(2) by auto
    moreover have "held c \<subseteq> held c'" using k(6) c1(1) by (rule order_trans [rotated])
    ultimately show ?thesis using k(1,8,9) by (intro exI [of _ "Suc k"] exI [of _ "?acked @ acked"]) simp
  qed
qed

abbreviation online_followers :: "replica_tracker \<Rightarrow> shard_id \<Rightarrow> shard_replica list" where
  "online_followers t s \<equiv> filter (\<lambda>r. sr_role r = RoleFollower \<and> sr_is_online r) (get_replicas t s)"

lemma coordinate_write_split:
  assumes "coordinate_write rc ms s d cons t c = (Inr w, c')"
  obtains leader c1 where "get_leader t s = Some leader"
    "wr_required w = min_acks cons (length (get_replicas t s))" "wr_required w \<le> wr_acknowledged w"
    "rc_write_to_leader rc (sr_node_id leader) s d c = (Inr (wr_sequence w), c1)"
    "(wr_acknowledged w, wr_failed_nodes w, c') =
       (if 1 < wr_required w \<and> online_followers t s \<noteq> []
        then await_followers rc s (wr_sequence w) d (wr_required w) (online_followers t s) (1, [], c1)
        else (1, [], c1))"
  using assms that unfolding coordinate_write_def get_leader_def Let_def
  by (auto split: if_splits option.splits sum.splits prod.splits)

lemma write_stops_at_required_acks_lemma:
  assumes laws: "client_laws rc held" and distinct: "distinct (map sr_node_id (get_replicas t s))"
    and run: "coordinate_write rc ms s d cons t c = (Inr w, c')"
  shows "\<exists>leader acked k. get_leader t s = Some leader \<and>
    wr_required w = min_acks cons (length (get_replicas t s)) \<and>
    wr_acknowledged w = max 1 (wr_required w) \<and> length acked = wr_acknowledged w \<and> distinct acked \<and>
    set acked \<subseteq> insert (sr_node_id leader) (sr_node_id ` set (take k (online_followers t s))) \<and>
    k = wr_acknowledged w - 1 + length (wr_failed_nodes w) \<and>
    writes_of (set acked) s (wr_sequence w) d \<subseteq> held c' \<and> held c \<subseteq> held c' \<and>
    held c' \<subseteq> held c \<union>
      writes_of (insert (sr_node_id leader) (sr_node_id ` set (take k (online_followers t s)))) s (wr_sequence w) d"
proof -
  let ?q = "wr_sequence w" and ?fs = "online_followers t s"
  obtain leader c1 where lead: "get_leader t s = Some leader"
    and req: "wr_required w = min_acks cons (length (get_replicas t s))" "wr_required w \<le> wr_acknowledged w"
    and wl: "rc_write_to_leader rc (sr_node_id leader) s d c = (Inr ?q, c1)"
    and loop: "(wr_acknowledged w, wr_failed_nodes w, c') =
       (if 1 < wr_required w \<and> ?fs \<noteq> [] then await_followers rc s ?q d (wr_required w) ?fs (1, [], c1) else (1, [], c1))"
    using run by (rule coordinate_write_split)
  have c1: "held c1 = insert (sr_node_id leader, s, ?q, d) (held c)"
    using client_leader [OF laws wl] .
  have leader: "leader \<in> set (get_replicas t s)" "sr_role leader = RoleLeader"
    using lead by (auto simp: get_leader_def find_Some_iff)
  have fresh: "sr_node_id leader \<notin> sr_node_id ` set ?fs"
  proof
    assume "sr_node_id leader \<in> sr_node_id ` set ?fs"
    then obtain f where "f \<in> set (get_replicas t s)" "sr_role f = RoleFollower" "sr_node_id f = sr_node_id leader" by auto
    then have "f = leader" using same_key [OF distinct _ leader(1)] by blast
    with leader(2) \<open>sr_role f = RoleFollower\<close> show False by simp
  qed
  show ?thesis
  proof (cases "1 < wr_required w \<and> ?fs \<noteq> []")
    case True
    with loop have "await_followers rc s ?q d (wr_required w) ?fs (1, [], c1) = (wr_acknowledged w, wr_failed_nodes w, c')"
      by simp
    from await_followers_prefix [OF laws this] True obtain k acked where k: "k \<le> length ?fs"
      "subseq acked (map sr_node_id (take k ?fs))" "wr_acknowledged w = 1 + length acked"
      "k = length acked + length (wr_failed_nodes w)" "writes_of (set acked) s ?q d \<subseteq> held c'" "held c1 \<subseteq> held c'"
      "held c' \<subseteq> held c1 \<union> writes_of (sr_node_id ` set (take k ?fs)) s ?q d" "wr_acknowledged w \<le> wr_required w"
      by auto
    have "set acked \<subseteq> sr_node_id ` set (take k ?fs)" using k(2) by (auto dest: subseq_set_mem)
    moreover have "distinct (map sr_node_id (take k ?fs))"
      using distinct by (simp add: distinct_map_filter distinct_take flip: take_map)
    then have "distinct acked" by (rule subseq_distinct [OF k(2)])
    moreover have "sr_node_id ` set (take k ?fs) \<subseteq> sr_node_id ` set ?fs" by (intro image_mono set_take_subset)
    ultimately show ?thesis
      using lead req k c1 fresh True
      by (intro exI [of _ leader] exI [of _ "sr_node_id leader # acked"] exI [of _ k]) auto
  next
    case False
    then have "wr_acknowledged w = 1" "wr_failed_nodes w = []" "c' = c1" using loop by auto
    then show ?thesis
      using lead req c1 by (intro exI [of _ leader] exI [of _ "[sr_node_id leader]"] exI [of _ 0]) auto
  qed
qed

text \<open>
  C27.  A successful write.  The nodes of a shard being distinct, it succeeds only with a leader; the leader and
  exactly the required number of nodes, counted with it, have acknowledged and hold the write when more than
  one is required.  Only a prefix of the online followers was contacted at all: as many as acknowledged or
  failed.  No other node has got the write.
\<close>

theorem write_stops_at_required_acks:
  assumes laws: "client_laws rc held" and distinct: "distinct (map sr_node_id (get_replicas t s))"
    and run: "coordinate_write rc ms s d cons t c = (Inr w, c')"
  shows "\<exists>leader acked k. get_leader t s = Some leader \<and>
    wr_required w = min_acks cons (length (get_replicas t s)) \<and>
    wr_acknowledged w = max 1 (wr_required w) \<and> length acked = wr_acknowledged w \<and> distinct acked \<and>
    set acked \<subseteq> insert (sr_node_id leader) (sr_node_id ` set (take k (online_followers t s))) \<and>
    k = wr_acknowledged w - 1 + length (wr_failed_nodes w) \<and>
    writes_of (set acked) s (wr_sequence w) d \<subseteq> held c' \<and> held c \<subseteq> held c' \<and>
    held c' \<subseteq> held c \<union>
      writes_of (insert (sr_node_id leader) (sr_node_id ` set (take k (online_followers t s)))) s (wr_sequence w) d"
  using write_stops_at_required_acks_lemma [OF assms] .

text \<open>A client whose nodes are all up: its state is the list of the writes they have.\<close>

type_synonym write_log = "(string \<times> shard_id \<times> u64 \<times> u8 list) list"

definition up_client :: "write_log replication_client" where
  "up_client =
     \<lparr>rc_write_to_leader = (\<lambda>n s d c. (Inr (of_nat (length c)), (n, s, of_nat (length c), d) # c)),
      rc_replicate = (\<lambda>n s q d c. (Inr (), (n, s, q, d) # c))\<rparr>"

lemma up_client_laws: "client_laws up_client set"
  by (simp add: client_laws_def up_client_def)

text \<open>A shard with five replicas.\<close>

definition five_tracker :: replica_tracker where
  "five_tracker = snd (assign_replicas 0 1 [''a'', ''b'', ''c'', ''d'', ''e'']
     (tracker_new (replication_config_default\<lparr>rp_replication_factor := 5\<rparr>) ''a''))"

lemma five_replicas:
  "get_replicas five_tracker 1 = new_leader 0 1 ''a'' # map (new_follower 0 1) [''b'', ''c'', ''d'', ''e'']"
  by (simp add: five_tracker_def assign_replicas_def register_replica_def get_replicas_def tracker_new_def
      replication_config_default_def new_leader_def new_follower_def Let_def hm_get_def)

lemma five_write:
  "coordinate_write up_client 2 1 [9] WcQuorum five_tracker [] =
     (Inr \<lparr>wr_sequence = 0, wr_acknowledged = 3, wr_required = 3, wr_latency_ms = 2, wr_failed_nodes = []\<rparr>,
      [(''c'', 1, 0, [9]), (''b'', 1, 0, [9]), (''a'', 1, 0, [9])])"
  by (simp add: coordinate_write_def five_replicas new_leader_def new_follower_def min_acks_def up_client_def Let_def)

theorem write_stops_at_required_acks_witness:
  "\<exists>leader acked. get_leader five_tracker 1 = Some leader \<and> length acked = 3 \<and> distinct acked \<and>
     writes_of (set acked) 1 0 [9] \<subseteq> set (snd (coordinate_write up_client 2 1 [9] WcQuorum five_tracker []))"
proof -
  have "distinct (map sr_node_id (get_replicas five_tracker 1))"
    by (simp add: five_replicas new_leader_def new_follower_def)
  from write_stops_at_required_acks [OF up_client_laws this five_write]
  show ?thesis unfolding five_write by auto
qed

subsection \<open>A stale read\<close>

lemma nth_not_in_take:
  assumes "distinct xs" and "i < length xs" and "k \<le> i"
  shows "xs ! i \<notin> set (take k xs)"
proof
  assume "xs ! i \<in> set (take k xs)"
  then obtain j where "j < k" "j < length xs" "xs ! j = xs ! i" by (auto simp: in_set_conv_nth)
  then show False using assms nth_eq_iff_index_eq [OF assms(1)] by auto
qed

lemma find_first: "find P xs = Some x \<Longrightarrow> P x \<and> x \<in> set xs"
  by (induction xs) (auto split: if_splits)

lemma find_unique:
  assumes "x \<in> set xs" and "P x" and "\<And>y. y \<in> set xs \<Longrightarrow> P y \<Longrightarrow> y = x"
  shows "find P xs = Some x"
proof (cases "find P xs")
  case None
  then show ?thesis using assms(1,2) by (simp add: find_None_iff)
next
  case (Some y)
  then show ?thesis using find_first [OF Some] assms(3) by simp
qed

text \<open>
  A write that needs \<open>required\<close> acknowledgments and meets no failure is never sent to the online followers
  from position \<open>required - 1\<close> on, and their recorded lag is not raised: a read with a staleness bound of
  zero on such a node is answered by its own replica, which does not have the acknowledged write.
\<close>

theorem bounded_read_misses_acknowledged_write:
  assumes laws: "client_laws rc held" and distinct: "distinct (map sr_node_id (get_replicas t s))"
    and run: "coordinate_write rc ms s d cons t c = (Inr w, c')" and ok: "wr_failed_nodes w = []"
    and i: "i < length (online_followers t s)" "wr_required w \<le> i + 1"
    and lag: "sr_lag_ms (online_followers t s ! i) = 0"
    and new: "\<forall>n. (n, s, wr_sequence w, d) \<notin> held c"
  defines "node \<equiv> sr_node_id (online_followers t s ! i)"
  shows "select_replica t s (RcBoundedStaleness 0) node b = (Some (online_followers t s ! i), b) \<and>
    (node, s, wr_sequence w, d) \<notin> held c'"
proof
  let ?fs = "online_followers t s" and ?rs = "get_replicas t s"
  let ?f = "?fs ! i"
  have f: "?f \<in> set ?rs" "sr_role ?f = RoleFollower" "sr_is_online ?f" using i(1) nth_mem by fastforce+
  have unique: "r = ?f" if "r \<in> set ?rs" "sr_node_id r = node" for r
    using same_key [OF distinct that(1) f(1)] that(2) by (simp add: node_def)
  have "find (\<lambda>r. sr_node_id r = node \<and> sr_is_online r \<and> sr_lag_ms r \<le> 0) ?rs = Some ?f"
  proof (rule find_unique)
    show "sr_node_id ?f = node \<and> sr_is_online ?f \<and> sr_lag_ms ?f \<le> 0"
      using f(3) lag by (simp add: node_def)
    show "r = ?f" if "r \<in> set ?rs" "sr_node_id r = node \<and> sr_is_online r \<and> sr_lag_ms r \<le> 0" for r
      using unique [of r] that by simp
  qed (rule f(1))
  then show "select_replica t s (RcBoundedStaleness 0) node b = (Some ?f, b)"
    by (simp add: select_replica_def get_local_replica_def)
  obtain leader k where lead: "get_leader t s = Some leader" and k: "k = wr_acknowledged w - 1"
    "wr_acknowledged w = max 1 (wr_required w)"
    "held c' \<subseteq> held c \<union> writes_of (insert (sr_node_id leader) (sr_node_id ` set (take k ?fs))) s (wr_sequence w) d"
    using write_stops_at_required_acks_lemma [OF laws distinct run] ok by auto
  have "leader \<in> set ?rs" "sr_role leader = RoleLeader"
    using lead find_first unfolding get_leader_def by fastforce+
  then have "sr_node_id leader \<noteq> node" using unique f(2) by force
  moreover have "k \<le> i" using k(1,2) i(2) by simp
  then have "map sr_node_id ?fs ! i \<notin> set (take k (map sr_node_id ?fs))"
    using distinct i(1) by (intro nth_not_in_take) (simp_all add: distinct_map_filter)
  then have "node \<notin> sr_node_id ` set (take k ?fs)" using i(1) by (simp add: node_def take_map)
  ultimately show "(node, s, wr_sequence w, d) \<notin> held c'" using k(3) new by (auto simp: writes_of_def)
qed

theorem bounded_read_misses_acknowledged_write_witness:
  "select_replica five_tracker 1 (RcBoundedStaleness 0) ''e'' balancer_new = (Some (new_follower 0 1 ''e''), balancer_new) \<and>
   (''e'', 1, 0, [9]) \<notin> set (snd (coordinate_write up_client 2 1 [9] WcQuorum five_tracker []))"
proof -
  have d: "distinct (map sr_node_id (get_replicas five_tracker 1))"
    by (simp add: five_replicas new_leader_def new_follower_def)
  have f: "online_followers five_tracker 1 = map (new_follower 0 1) [''b'', ''c'', ''d'', ''e'']"
    by (simp add: five_replicas new_leader_def new_follower_def)
  show ?thesis
    using bounded_read_misses_acknowledged_write [OF up_client_laws d five_write, of 3 balancer_new] five_write
    by (simp add: f new_follower_def)
qed

subsection \<open>The two indices of the tracker\<close>

datatype tracker_op =
    TkRegister shard_replica
  | TkRemove shard_id string
  | TkAssign u64 shard_id "string list"
  | TkStatus shard_id string bool
  | TkLag shard_id string u64

definition tracker_apply :: "tracker_op \<Rightarrow> replica_tracker \<Rightarrow> replica_tracker" where
  "tracker_apply p t =
     (case p of
        TkRegister r \<Rightarrow> register_replica r t
      | TkRemove s n \<Rightarrow> remove_replica s n t
      | TkAssign now s ns \<Rightarrow> snd (assign_replicas now s ns t)
      | TkStatus s n online \<Rightarrow> update_replica_status s n online t
      | TkLag s n applied \<Rightarrow> update_replication_lag s n applied t)"

definition replica_keys :: "shard_replica list \<Rightarrow> (string \<times> shard_id) set" where
  "replica_keys rs = set (map (\<lambda>r. (sr_node_id r, sr_shard_id r)) rs)"

definition tracker_ok :: "replica_tracker \<Rightarrow> bool" where
  "tracker_ok t \<longleftrightarrow> (\<forall>s. replica_keys (get_replicas t s) = {n. s \<in> get_node_shards t n} \<times> {s})"

lemma get_replicas_register:
  "get_replicas (register_replica r t) s = get_replicas t s @ (if s = sr_shard_id r then [r] else [])"
  by (simp add: register_replica_def get_replicas_def split: option.split)

lemma get_node_shards_register:
  "get_node_shards (register_replica r t) n = get_node_shards t n \<union> (if n = sr_node_id r then {sr_shard_id r} else {})"
  by (simp add: register_replica_def get_node_shards_def split: option.split)

lemma register_ok:
  assumes "tracker_ok t"
  shows "tracker_ok (register_replica r t)"
proof -
  have "replica_keys (get_replicas t s) = {n. s \<in> get_node_shards t n} \<times> {s}" for s
    using assms by (simp add: tracker_ok_def)
  then show ?thesis
    by (auto simp: tracker_ok_def get_replicas_register get_node_shards_register replica_keys_def)
qed

lemma get_replicas_remove:
  "get_replicas (remove_replica s n t) s' =
     (if s' = s then filter (\<lambda>r. sr_node_id r \<noteq> n) (get_replicas t s) else get_replicas t s')"
  by (simp add: remove_replica_def get_replicas_def split: option.split)

lemma get_node_shards_remove:
  "get_node_shards (remove_replica s n t) n' = (if n' = n then get_node_shards t n - {s} else get_node_shards t n')"
  by (simp add: remove_replica_def get_node_shards_def split: option.split)

lemma remove_ok:
  assumes "tracker_ok t"
  shows "tracker_ok (remove_replica s n t)"
proof -
  have keys: "replica_keys (filter (\<lambda>r. sr_node_id r \<noteq> n) rs) = {k \<in> replica_keys rs. fst k \<noteq> n}" for rs
    by (induction rs) (auto simp: replica_keys_def)
  have "replica_keys (get_replicas t s') = {n. s' \<in> get_node_shards t n} \<times> {s'}" for s'
    using assms by (simp add: tracker_ok_def)
  then show ?thesis
    by (auto simp: tracker_ok_def get_replicas_remove get_node_shards_remove keys)
qed

lemma fold_register_ok: "tracker_ok t \<Longrightarrow> tracker_ok (fold register_replica rs t)"
  by (induction rs arbitrary: t) (simp_all add: register_ok)

lemma update_first_keys:
  "(\<And>r. sr_node_id (f r) = sr_node_id r \<and> sr_shard_id (f r) = sr_shard_id r) \<Longrightarrow>
     replica_keys (update_first n f rs) = replica_keys rs"
  by (induction n f rs rule: update_first.induct) (simp_all add: replica_keys_def)

lemma tracker_ok_keys:
  assumes "tracker_ok t" and "\<And>s. replica_keys (get_replicas t' s) = replica_keys (get_replicas t s)"
    and "tk_node_shards t' = tk_node_shards t"
  shows "tracker_ok t'"
  using assms by (simp add: tracker_ok_def get_node_shards_def)

lemma tracker_apply_ok:
  assumes "tracker_ok t"
  shows "tracker_ok (tracker_apply p t)"
proof (cases p)
  case (TkAssign now s ns)
  then show ?thesis
    using assms by (simp add: tracker_apply_def assign_replicas_def Let_def fold_register_ok register_ok split: list.split)
next
  case (TkStatus s n online)
  then show ?thesis
    by (intro tracker_ok_keys [OF assms])
      (auto simp: tracker_apply_def update_replica_status_def get_replicas_def update_first_keys split: option.split)
next
  case (TkLag s n applied)
  then show ?thesis
    by (intro tracker_ok_keys [OF assms])
      (auto simp: tracker_apply_def update_replication_lag_def get_replicas_def update_first_keys update_lag_def Let_def
        split: option.split)
qed (use assms in \<open>simp_all add: tracker_apply_def register_ok remove_ok\<close>)

lemma tracker_stats_total:
  "rs_total_replicas (tracker_stats t) = rs_online_replicas (tracker_stats t) + rs_offline_replicas (tracker_stats t)"
proof -
  have "sum_list (map (\<lambda>rs. length (filter sr_is_online rs)) xs) \<le> sum_list (map length xs)" for xs
    by (induction xs) (simp_all add: add_mono)
  from this [of "hm_values (tk_shard_replicas t)"] show ?thesis by (simp add: tracker_stats_def Let_def)
qed

text \<open>
  C36.  After any operations the tracker's two maps agree: a node is listed with a shard exactly when the shard
  has a replica on the node, and the replicas of a shard carry its number; the offline replicas of the
  statistics are those that are not online.
\<close>

theorem tracker_indices_agree:
  "(s \<in> get_node_shards (fold tracker_apply ps (tracker_new config local)) n \<longleftrightarrow>
     n \<in> sr_node_id ` set (get_replicas (fold tracker_apply ps (tracker_new config local)) s)) \<and>
   sr_shard_id ` set (get_replicas (fold tracker_apply ps (tracker_new config local)) s) \<subseteq> {s} \<and>
   rs_total_replicas (tracker_stats (fold tracker_apply ps (tracker_new config local))) =
     rs_online_replicas (tracker_stats (fold tracker_apply ps (tracker_new config local))) +
     rs_offline_replicas (tracker_stats (fold tracker_apply ps (tracker_new config local)))"
proof -
  have "tracker_ok (tracker_new config local)"
    by (simp add: tracker_ok_def tracker_new_def get_node_shards_def get_replicas_def replica_keys_def)
  moreover have "tracker_ok (fold tracker_apply ps u)" if "tracker_ok u" for u
    using that by (induction ps arbitrary: u) (simp_all add: tracker_apply_ok)
  ultimately have "tracker_ok (fold tracker_apply ps (tracker_new config local))" by blast
  then have "n \<in> fst ` replica_keys (get_replicas u s) \<longleftrightarrow> s \<in> get_node_shards u n"
      "snd ` replica_keys (get_replicas u s) \<subseteq> {s}" if "u = fold tracker_apply ps (tracker_new config local)" for u
    using that by (auto simp: tracker_ok_def)
  then show ?thesis by (simp add: replica_keys_def image_image tracker_stats_total)
qed

subsection \<open>Balanced reads\<close>

fun read_times :: "nat \<Rightarrow> replica_tracker \<Rightarrow> shard_id \<Rightarrow> u64 \<Rightarrow> read_balancer \<Rightarrow> shard_replica option list" where
  "read_times 0 t s max_lag b = []"
| "read_times (Suc n) t s max_lag b =
     (let (r, b') = select_any_readable t s max_lag b in r # read_times n t s max_lag b')"

definition counter_of :: "read_balancer \<Rightarrow> shard_id \<Rightarrow> u64" where
  "counter_of b s = (case hm_get (rb_counters b) s of None \<Rightarrow> 0 | Some n \<Rightarrow> n)"

abbreviation readable :: "replica_tracker \<Rightarrow> shard_id \<Rightarrow> u64 \<Rightarrow> shard_replica list" where
  "readable t s max_lag \<equiv> filter (can_serve_reads max_lag) (get_replicas t s)"

lemma select_any_readable_eq:
  "select_any_readable t s max_lag b =
     (if readable t s max_lag = [] then (None, b)
      else (Some (readable t s max_lag ! (unat (counter_of b s) mod length (readable t s max_lag))),
            b\<lparr>rb_counters := hm_insert s (counter_of b s + 1) (rb_counters b)\<rparr>))"
  by (simp add: select_any_readable_def counter_of_def Let_def can_serve_reads_def [abs_def])

lemma read_times_nth:
  assumes "readable t s max_lag \<noteq> []" and "unat (counter_of b s) + n < 2 ^ 64"
  shows "read_times n t s max_lag b =
    map (\<lambda>i. Some (readable t s max_lag ! (i mod length (readable t s max_lag))))
      [unat (counter_of b s)..<unat (counter_of b s) + n]"
  using assms(2)
proof (induction n arbitrary: b)
  case (Suc n)
  let ?c = "counter_of b s" and ?rs = "readable t s max_lag"
  obtain b' where b': "select_any_readable t s max_lag b = (Some (?rs ! (unat ?c mod length ?rs)), b')"
    "counter_of b' s = ?c + 1"
    using assms(1) by (simp add: select_any_readable_eq counter_of_def)
  have inc: "unat (?c + 1) = Suc (unat ?c)" using Suc.prems by (intro unat_u64_inc u64_not_max) simp
  have "read_times n t s max_lag b' = map (\<lambda>i. Some (?rs ! (i mod length ?rs))) [Suc (unat ?c)..<Suc (unat ?c) + n]"
    using Suc by (simp add: b'(2) inc)
  moreover have "[unat ?c..<unat ?c + Suc n] = unat ?c # [Suc (unat ?c)..<Suc (unat ?c) + n]"
    by (simp add: upt_conv_Cons del: upt_Suc)
  ultimately show ?case by (simp add: b'(1) del: upt_Suc)
qed simp

lemma mset_map_shift:
  "add_mset (f c) (mset (map f [Suc c..<Suc c + n])) = add_mset (f (c + n)) (mset (map f [c..<c + n]))"
  by (induction n) simp_all

lemma mset_rotation: "xs \<noteq> [] \<Longrightarrow> mset (map (\<lambda>i. xs ! (i mod length xs)) [c..<c + length xs]) = mset xs"
proof (induction c)
  case 0
  have "map (\<lambda>i. xs ! (i mod length xs)) [0..<length xs] = map ((!) xs) [0..<length xs]" by (rule map_cong) simp_all
  then show ?case by (simp add: map_nth)
next
  case (Suc c)
  from mset_map_shift [of "\<lambda>i. xs ! (i mod length xs)" c "length xs"] Suc show ?case by simp
qed

text \<open>
  Round robin.  As many consecutive reads as there are readable replicas return each of them once, from any
  state of the counter that does not overflow meanwhile.
\<close>

theorem reads_are_balanced:
  assumes "readable t s max_lag \<noteq> []" and "unat (counter_of b s) + length (readable t s max_lag) < 2 ^ 64"
  shows "mset (read_times (length (readable t s max_lag)) t s max_lag b) = image_mset Some (mset (readable t s max_lag))"
proof -
  let ?rs = "readable t s max_lag"
  have "mset (read_times (length ?rs) t s max_lag b) =
      mset (map Some (map (\<lambda>i. ?rs ! (i mod length ?rs)) [unat (counter_of b s)..<unat (counter_of b s) + length ?rs]))"
    using read_times_nth [OF assms] by (simp add: comp_def)
  also have "\<dots> = image_mset Some (mset ?rs)" unfolding mset_map mset_rotation [OF assms(1), unfolded mset_map] ..
  finally show ?thesis .
qed

theorem reads_are_balanced_witness:
  "mset (read_times 5 five_tracker 1 0 balancer_new) = mset (map Some (get_replicas five_tracker 1))"
proof -
  have r: "readable five_tracker 1 0 = get_replicas five_tracker 1"
    by (simp add: five_replicas can_serve_reads_def new_leader_def new_follower_def)
  have "counter_of balancer_new 1 = 0" by (simp add: counter_of_def balancer_new_def)
  moreover have "length (get_replicas five_tracker 1) = 5" "get_replicas five_tracker 1 \<noteq> []"
    by (simp_all add: five_replicas)
  ultimately show ?thesis
    using reads_are_balanced [of 0 five_tracker 1 balancer_new, unfolded r] by simp
qed

end
