(* ===== verification/Validation.thy ===== *)
theory Validation
  imports SearchTypes Wal
begin

text \<open>
  The errors of the HTTP interface and the validation of its requests, \<open>src/src/api/error.rs\<close> and
  \<open>src/src/api/validation.rs\<close>.

  The messages of errors are left out; the field and the code of a validation error are kept, since the
  code builds the fields.  A string is its UTF-8 bytes; the characters of a string, the classes of
  Unicode characters and lower-casing are the argument \<open>tx\<close>.
\<close>

unbundle bit_operations_syntax

subsection \<open>Errors\<close>

record validation_error =
  ve_field :: string
  ve_code :: string

datatype api_error =
    ApiCollectionNotFound string
  | ApiCollectionAlreadyExists string
  | ApiInvalidVectorDimension nat nat
  | ApiPointNotFound string
  | ApiInvalidRequest
  | ApiValidationFailed "validation_error list"
  | ApiRateLimitExceeded u32 string
  | ApiInternalError
  | ApiServiceUnavailable
  | ApiTimeout u64
  | ApiStorageError
  | ApiIndexError

definition status_code :: "api_error \<Rightarrow> nat" where
  "status_code e =
     (case e of
        ApiCollectionNotFound _ \<Rightarrow> 404
      | ApiPointNotFound _ \<Rightarrow> 404
      | ApiCollectionAlreadyExists _ \<Rightarrow> 409
      | ApiInvalidRequest \<Rightarrow> 400
      | ApiInvalidVectorDimension _ _ \<Rightarrow> 400
      | ApiValidationFailed _ \<Rightarrow> 400
      | ApiRateLimitExceeded _ _ \<Rightarrow> 429
      | ApiServiceUnavailable \<Rightarrow> 503
      | ApiTimeout _ \<Rightarrow> 408
      | ApiInternalError \<Rightarrow> 500
      | ApiStorageError \<Rightarrow> 500
      | ApiIndexError \<Rightarrow> 500)"

definition error_code :: "api_error \<Rightarrow> string" where
  "error_code e =
     (case e of
        ApiCollectionNotFound _ \<Rightarrow> ''COLLECTION_NOT_FOUND''
      | ApiPointNotFound _ \<Rightarrow> ''POINT_NOT_FOUND''
      | ApiCollectionAlreadyExists _ \<Rightarrow> ''COLLECTION_ALREADY_EXISTS''
      | ApiInvalidRequest \<Rightarrow> ''INVALID_REQUEST''
      | ApiInvalidVectorDimension _ _ \<Rightarrow> ''INVALID_VECTOR_DIMENSION''
      | ApiValidationFailed _ \<Rightarrow> ''VALIDATION_FAILED''
      | ApiRateLimitExceeded _ _ \<Rightarrow> ''RATE_LIMIT_EXCEEDED''
      | ApiServiceUnavailable \<Rightarrow> ''SERVICE_UNAVAILABLE''
      | ApiTimeout _ \<Rightarrow> ''TIMEOUT''
      | ApiInternalError \<Rightarrow> ''INTERNAL_ERROR''
      | ApiStorageError \<Rightarrow> ''STORAGE_ERROR''
      | ApiIndexError \<Rightarrow> ''INDEX_ERROR'')"

definition error_details :: "api_error \<Rightarrow> json option" where
  "error_details e =
     (case e of
        ApiInvalidVectorDimension expected actual \<Rightarrow>
          Some (JObject [(''expected_dimension'', JNumber (NPos (of_nat expected))),
                         (''actual_dimension'', JNumber (NPos (of_nat actual)))])
      | ApiRateLimitExceeded limit window \<Rightarrow>
          Some (JObject [(''limit'', JNumber (NPos (ucast limit))), (''window'', JString window),
                         (''retry_after'', JString ''60s'')])
      | _ \<Rightarrow> None)"

record error_response =
  er_http_status :: nat
  er_status :: string
  er_code :: string
  er_details :: "json option"
  er_validation_errors :: "validation_error list"

definition into_response :: "api_error \<Rightarrow> error_response" where
  "into_response e =
     \<lparr>er_http_status = status_code e, er_status = ''error'', er_code = error_code e, er_details = error_details e,
      er_validation_errors = (case e of ApiValidationFailed errors \<Rightarrow> errors | _ \<Rightarrow> [])\<rparr>"

definition api_error_from :: "rtdb_error \<Rightarrow> api_error" where
  "api_error_from e =
     (case e of
        ECollectionNotFound name \<Rightarrow> ApiCollectionNotFound name
      | EInvalidDimension expected actual \<Rightarrow> ApiInvalidVectorDimension expected actual
      | EStorage \<Rightarrow> ApiStorageError
      | EIndex \<Rightarrow> ApiIndexError
      | ESerialization \<Rightarrow> ApiInternalError
      | EIo \<Rightarrow> ApiInternalError
      | _ \<Rightarrow> ApiInternalError)"

subsection \<open>Names, dimensions and limits\<close>

record text_ops =
  tx_chars :: "string \<Rightarrow> nat list"
  tx_is_alphanumeric :: "nat \<Rightarrow> bool"
  tx_to_lowercase :: "string \<Rightarrow> string"

type_synonym check = "validation_error + unit"

definition invalid :: "string \<Rightarrow> string \<Rightarrow> validation_error" where
  "invalid field code = \<lparr>ve_field = field, ve_code = code\<rparr>"

definition validate_collection_name :: "text_ops \<Rightarrow> string \<Rightarrow> check" where
  "validate_collection_name tx name =
     (if name = '''' then Inl (invalid ''name'' ''REQUIRED'')
      else if 255 < length name then Inl (invalid ''name'' ''MAX_LENGTH'')
      else if \<not> list_all (\<lambda>c. tx_is_alphanumeric tx c \<or> c = 95 \<or> c = 45) (tx_chars tx name)
      then Inl (invalid ''name'' ''INVALID_FORMAT'')
      else Inr ())"

definition validate_vector_dimension :: "nat \<Rightarrow> check" where
  "validate_vector_dimension dimension =
     (if dimension = 0 then Inl (invalid ''dimension'' ''MIN_VALUE'')
      else if 65536 < dimension then Inl (invalid ''dimension'' ''MAX_VALUE'')
      else Inr ())"

definition validate_limit :: "nat \<Rightarrow> check" where
  "validate_limit limit =
     (if limit = 0 then Inl (invalid ''limit'' ''MIN_VALUE'')
      else if 10000 < limit then Inl (invalid ''limit'' ''MAX_VALUE'')
      else Inr ())"

type_synonym api_result = "api_error + unit"

text \<open>\<open>map_err(|e| ApiError::ValidationFailed { errors: vec![e] })\<close>.\<close>

definition as_api :: "check \<Rightarrow> api_result" where
  "as_api r = (case r of Inl e \<Rightarrow> Inl (ApiValidationFailed [e]) | Inr u \<Rightarrow> Inr u)"

definition validate_distance_metric :: "text_ops \<Rightarrow> string \<Rightarrow> api_result" where
  "validate_distance_metric tx distance =
     (if tx_to_lowercase tx distance \<in> {''cosine'', ''euclidean'', ''dot'', ''manhattan''} then Inr ()
      else Inl (ApiValidationFailed [invalid ''distance'' ''INVALID_VALUE'']))"

definition validate_collection_config :: "text_ops \<Rightarrow> string \<Rightarrow> nat option \<Rightarrow> string option \<Rightarrow> api_result" where
  "validate_collection_config tx name dimension distance =
     and_then (as_api (validate_collection_name tx name)) (\<lambda>_.
     and_then (case dimension of None \<Rightarrow> Inr () | Some d \<Rightarrow> as_api (validate_vector_dimension d)) (\<lambda>_.
       case distance of None \<Rightarrow> Inr () | Some d \<Rightarrow> validate_distance_metric tx d))"

subsection \<open>Points\<close>

definition f32_is_finite :: "f32 \<Rightarrow> bool" where
  "f32_is_finite x \<longleftrightarrow> x AND 0x7F800000 \<noteq> 0x7F800000"

definition f64_is_finite :: "f64 \<Rightarrow> bool" where
  "f64_is_finite x \<longleftrightarrow> x AND 0x7FF0000000000000 \<noteq> 0x7FF0000000000000"

definition is_valid_point_id :: "json \<Rightarrow> bool" where
  "is_valid_point_id v =
     (case v of
        JNumber (NPos _) \<Rightarrow> True
      | JString s \<Rightarrow> s \<noteq> '''' \<and> length s \<le> 255
      | _ \<Rightarrow> False)"

definition validate_payload :: "json \<Rightarrow> validation_error list" where
  "validate_payload v =
     (case v of JObject _ \<Rightarrow> [] | JNull \<Rightarrow> [] | _ \<Rightarrow> [invalid ''payload'' ''INVALID_TYPE''])"

definition validate_component :: "string \<Rightarrow> nat \<times> json \<Rightarrow> validation_error list" where
  "validate_component field_name e =
     (let field = field_name @ ''['' @ decimal (fst e) @ '']''
      in case snd e of
           JNumber n \<Rightarrow>
             (case number_as_f64 n of
                Some f \<Rightarrow> if f64_is_finite f then [] else [invalid field ''INVALID_VALUE'']
              | None \<Rightarrow> [invalid field ''INVALID_TYPE''])
         | _ \<Rightarrow> [invalid field ''INVALID_TYPE''])"

text \<open>The functions with a list of errors: the empty list is \<open>Ok(())\<close>.\<close>

definition validate_vector_array :: "json list \<Rightarrow> nat option \<Rightarrow> string \<Rightarrow> validation_error list" where
  "validate_vector_array arr expected field_name =
     (if (case expected of None \<Rightarrow> False | Some d \<Rightarrow> length arr \<noteq> d) then [invalid field_name ''INVALID_DIMENSION'']
      else
        (if arr = [] then [invalid field_name ''MIN_LENGTH'']
         else if 65536 < length arr then [invalid field_name ''MAX_LENGTH''] else []) @
        concat (map (validate_component field_name) (enumerate 0 arr)))"

definition validate_vector_value :: "json \<Rightarrow> nat option \<Rightarrow> validation_error list" where
  "validate_vector_value v expected =
     (case v of
        JArray arr \<Rightarrow> validate_vector_array arr expected ''vector''
      | JObject obj \<Rightarrow>
          concat (map (\<lambda>(name, value).
            case value of
              JArray arr \<Rightarrow> validate_vector_array arr expected (''vector.'' @ name)
            | _ \<Rightarrow> [invalid (''vector.'' @ name) ''INVALID_TYPE'']) obj)
      | _ \<Rightarrow> [invalid ''vector'' ''INVALID_TYPE''])"

definition validate_point_data :: "nat option \<Rightarrow> json \<Rightarrow> validation_error list" where
  "validate_point_data expected point =
     (case json_get point ''id'' of
        Some v \<Rightarrow> if is_valid_point_id v then [] else [invalid ''id'' ''INVALID_FORMAT'']
      | None \<Rightarrow> [invalid ''id'' ''REQUIRED'']) @
     (case json_get point ''vector'' of
        Some v \<Rightarrow> validate_vector_value v expected
      | None \<Rightarrow> [invalid ''vector'' ''REQUIRED'']) @
     (case json_get point ''payload'' of
        Some v \<Rightarrow> validate_payload v
      | None \<Rightarrow> [])"

subsection \<open>Requests\<close>

definition at_point :: "nat \<Rightarrow> validation_error \<Rightarrow> validation_error" where
  "at_point i e = e\<lparr>ve_field := ''points['' @ decimal i @ ''].'' @ ve_field e\<rparr>"

definition validate_upsert_request :: "text_ops \<Rightarrow> string \<Rightarrow> json list \<Rightarrow> nat option \<Rightarrow> api_result" where
  "validate_upsert_request tx name vectors expected =
     and_then (as_api (validate_collection_name tx name)) (\<lambda>_.
       if vectors = [] then Inl (ApiValidationFailed [invalid ''points'' ''REQUIRED''])
       else if 10000 < length vectors then Inl (ApiValidationFailed [invalid ''points'' ''MAX_BATCH_SIZE''])
       else
         (let errors = concat (map (\<lambda>(i, p). map (at_point i) (validate_point_data expected p)) (enumerate 0 vectors))
          in if errors \<noteq> [] then Inl (ApiValidationFailed errors) else Inr ()))"

text \<open>The first component that is not finite.\<close>

fun first_not_finite :: "nat \<Rightarrow> f32 list \<Rightarrow> nat option" where
  "first_not_finite i [] = None"
| "first_not_finite i (x # xs) = (if \<not> f32_is_finite x then Some i else first_not_finite (i + 1) xs)"

definition validate_search_request ::
  "text_ops \<Rightarrow> string \<Rightarrow> f32 list \<Rightarrow> nat \<Rightarrow> nat option \<Rightarrow> nat option \<Rightarrow> api_result"
where
  "validate_search_request tx name vector limit offset expected =
     and_then (as_api (validate_collection_name tx name)) (\<lambda>_.
       if vector = [] then Inl (ApiValidationFailed [invalid ''vector'' ''REQUIRED''])
       else
         and_then
           (case expected of
              Some d \<Rightarrow> if length vector \<noteq> d then Inl (ApiInvalidVectorDimension d (length vector)) else Inr ()
            | None \<Rightarrow> Inr ()) (\<lambda>_.
         case first_not_finite 0 vector of
           Some i \<Rightarrow> Inl (ApiValidationFailed [invalid (''vector['' @ decimal i @ '']'') ''INVALID_VALUE''])
         | None \<Rightarrow>
             and_then (as_api (validate_limit limit)) (\<lambda>_.
               case offset of
                 Some off \<Rightarrow>
                   if 1000000 < off then Inl (ApiValidationFailed [invalid ''offset'' ''MAX_VALUE'']) else Inr ()
               | None \<Rightarrow> Inr ())))"

end
