(* ===== verification/ValidationClaims.thy ===== *)
theory ValidationClaims
  imports Validation
begin

text \<open>
  The properties of the validation: what an accepted request looks like, and that the errors of a refused
  one name exactly the points that are not valid.
\<close>

subsection \<open>Valid requests\<close>

definition name_ok :: "text_ops \<Rightarrow> string \<Rightarrow> bool" where
  "name_ok tx name \<longleftrightarrow> name \<noteq> '''' \<and> length name \<le> 255 \<and>
     (\<forall>c \<in> set (tx_chars tx name). tx_is_alphanumeric tx c \<or> c = 95 \<or> c = 45)"

definition component_ok :: "json \<Rightarrow> bool" where
  "component_ok v \<longleftrightarrow> (\<exists>n f. v = JNumber n \<and> number_as_f64 n = Some f \<and> f64_is_finite f)"

definition array_ok :: "nat option \<Rightarrow> json list \<Rightarrow> bool" where
  "array_ok expected arr \<longleftrightarrow> expected \<in> {None, Some (length arr)} \<and> arr \<noteq> [] \<and> length arr \<le> 65536 \<and>
     (\<forall>v \<in> set arr. component_ok v)"

text \<open>A vector is an array, or an object whose values are arrays; an empty object passes.\<close>

definition vector_ok :: "nat option \<Rightarrow> json \<Rightarrow> bool" where
  "vector_ok expected v \<longleftrightarrow>
     (\<exists>arr. v = JArray arr \<and> array_ok expected arr) \<or>
     (\<exists>obj. v = JObject obj \<and> (\<forall>(name, value) \<in> set obj. \<exists>arr. value = JArray arr \<and> array_ok expected arr))"

definition point_ok :: "nat option \<Rightarrow> json \<Rightarrow> bool" where
  "point_ok expected p \<longleftrightarrow>
     (\<exists>v. json_get p ''id'' = Some v \<and> is_valid_point_id v) \<and>
     (\<exists>v. json_get p ''vector'' = Some v \<and> vector_ok expected v) \<and>
     (json_get p ''payload'' \<in> {None, Some JNull} \<union> Some ` range JObject)"

lemma validate_name_iff: "as_api (validate_collection_name tx name) = Inr () \<longleftrightarrow> name_ok tx name"
  by (auto simp: as_api_def validate_collection_name_def name_ok_def list_all_iff)

lemma validate_component_iff: "validate_component field (i, v) = [] \<longleftrightarrow> component_ok v"
  by (cases v) (auto simp: validate_component_def component_ok_def Let_def split: option.split)

lemma validate_array_iff: "validate_vector_array arr expected field = [] \<longleftrightarrow> array_ok expected arr"
proof -
  have "(\<forall>e \<in> set (enumerate 0 arr). validate_component field e = []) \<longleftrightarrow> (\<forall>v \<in> set arr. component_ok v)"
    by (simp add: all_set_conv_all_nth nth_enumerate_eq validate_component_iff)
  then show ?thesis
    by (auto simp: validate_vector_array_def array_ok_def split: option.splits if_splits)
qed

lemma validate_vector_iff: "validate_vector_value v expected = [] \<longleftrightarrow> vector_ok expected v"
proof (cases v)
  case (JObject obj)
  have "(case w of JArray arr \<Rightarrow> validate_vector_array arr expected f | _ \<Rightarrow> [invalid f c]) = [] \<longleftrightarrow>
      (\<exists>arr. w = JArray arr \<and> array_ok expected arr)" for w f c
    by (cases w) (simp_all add: validate_array_iff)
  with JObject show ?thesis by (simp add: validate_vector_value_def vector_ok_def split_beta)
qed (simp_all add: validate_vector_value_def vector_ok_def validate_array_iff)

lemma validate_point_iff: "validate_point_data expected p = [] \<longleftrightarrow> point_ok expected p"
proof -
  have "validate_payload v = [] \<longleftrightarrow> v = JNull \<or> v \<in> range JObject" for v
    by (cases v) (auto simp: validate_payload_def)
  then show ?thesis
    by (auto simp: validate_point_data_def point_ok_def validate_vector_iff split: option.splits if_splits)
qed

subsection \<open>The points an error names\<close>

lemma bracket_notin_decimal: "CHR '']'' \<notin> set (decimal n)"
proof (induction n rule: decimal.induct)
  case (1 n)
  have ne: "CHR '']'' \<noteq> digit_char d" if "d < 10" for d
  proof
    assume "CHR '']'' = digit_char d"
    then have "of_char CHR '']'' = (of_char (digit_char d) :: nat)" by (rule arg_cong)
    with that show False by (simp add: digit_char_def)
  qed
  show ?case
  proof (cases "n < 10")
    case True
    with ne [of n] show ?thesis by (subst decimal.simps) simp
  next
    case False
    with 1 ne [of "n mod 10"] show ?thesis by (subst decimal.simps) simp
  qed
qed

definition names_point :: "nat \<Rightarrow> validation_error \<Rightarrow> bool" where
  "names_point i e \<longleftrightarrow> (\<exists>f. ve_field e = ''points['' @ decimal i @ ''].'' @ f)"

lemma names_point_at_point:
  assumes "i < 2 ^ 64" and "j < 2 ^ 64"
  shows "names_point i (at_point j e) \<longleftrightarrow> i = j"
proof
  assume "names_point i (at_point j e)"
  then obtain f where "decimal j @ CHR '']'' # CHR ''.'' # ve_field e = decimal i @ CHR '']'' # CHR ''.'' # f"
    by (auto simp: names_point_def at_point_def)
  moreover have "takeWhile (\<lambda>c. c \<noteq> CHR '']'') (decimal n @ CHR '']'' # rest) = decimal n" for n rest
    using bracket_notin_decimal [of n] by (subst takeWhile_append2) auto
  ultimately have "decimal j = decimal i" by metis
  then show "i = j" using decimal_inject assms by metis
qed (simp add: names_point_def at_point_def)

lemma upsert_errors:
  assumes "i < length vectors" and "length vectors \<le> 10000"
  shows "(\<exists>e \<in> set (concat (map (\<lambda>(i, p). map (at_point i) (validate_point_data expected p)) (enumerate 0 vectors))).
      names_point i e) \<longleftrightarrow> \<not> point_ok expected (vectors ! i)"
proof -
  have "(\<exists>e \<in> set (concat (map (\<lambda>(i, p). map (at_point i) (validate_point_data expected p)) (enumerate 0 vectors))).
      names_point i e) \<longleftrightarrow>
      (\<exists>j < length vectors. \<exists>e \<in> set (validate_point_data expected (vectors ! j)). names_point i (at_point j e))"
    by (fastforce simp: in_set_enumerate_eq)
  also have "\<dots> \<longleftrightarrow> (\<exists>e. e \<in> set (validate_point_data expected (vectors ! i)))"
    using assms names_point_at_point [of i] by (fastforce simp: names_point_at_point)
  also have "\<dots> \<longleftrightarrow> \<not> point_ok expected (vectors ! i)"
    by (metis validate_point_iff ex_in_conv set_empty)
  finally show ?thesis .
qed

lemma upsert_validation_iff:
  "validate_upsert_request tx name vectors expected = Inr () \<longleftrightarrow>
     name_ok tx name \<and> vectors \<noteq> [] \<and> length vectors \<le> 10000 \<and> (\<forall>p \<in> set vectors. point_ok expected p)"
proof -
  have "concat (map (\<lambda>(i, p). map (at_point i) (validate_point_data expected p)) (enumerate 0 vectors)) = []
      \<longleftrightarrow> (\<forall>p \<in> set vectors. point_ok expected p)"
    by (simp add: all_set_conv_all_nth nth_enumerate_eq validate_point_iff split_beta)
  then show ?thesis
    by (auto simp: validate_upsert_request_def and_then_Inr_iff validate_name_iff Let_def simp del: concat_eq_Nil_conv
        split: if_splits)
qed

text \<open>
  An upsert request with a valid name and between 1 and 10000 points is accepted when all its points are
  valid.  Otherwise it is answered with status 400 and a list of errors in which a point is named exactly
  when it is not valid: no bad point is missed after the first one.  Any other request is refused.
\<close>

theorem upsert_validation_names_bad_points:
  assumes "i < length vectors" and "length vectors \<le> 10000" and "name_ok tx name"
    and "r = validate_upsert_request tx name vectors expected"
  shows "(r = Inr () \<longleftrightarrow> (\<forall>p \<in> set vectors. point_ok expected p)) \<and>
    (r \<noteq> Inr () \<longrightarrow> (\<exists>errors. r = Inl (ApiValidationFailed errors) \<and> status_code (ApiValidationFailed errors) = 400 \<and>
      ((\<exists>e \<in> set errors. names_point i e) \<longleftrightarrow> \<not> point_ok expected (vectors ! i)))) \<and>
    (validate_upsert_request tx name' vectors' expected = Inr () \<longrightarrow>
      name_ok tx name' \<and> vectors' \<noteq> [] \<and> length vectors' \<le> 10000)"
proof -
  let ?errors = "concat (map (\<lambda>(i, p). map (at_point i) (validate_point_data expected p)) (enumerate 0 vectors))"
  have "as_api (validate_collection_name tx name) = Inr ()" using assms(3) by (simp add: validate_name_iff)
  then have r: "r = (if ?errors = [] then Inr () else Inl (ApiValidationFailed ?errors))"
    using assms(1,2) by (auto simp: assms(4) validate_upsert_request_def Let_def simp del: concat_eq_Nil_conv)
  have "?errors = [] \<longleftrightarrow> (\<forall>p \<in> set vectors. point_ok expected p)"
    by (simp add: all_set_conv_all_nth nth_enumerate_eq validate_point_iff split_beta)
  moreover have "name_ok tx name' \<and> vectors' \<noteq> [] \<and> length vectors' \<le> 10000"
    if "validate_upsert_request tx name' vectors' expected = Inr ()"
    using that by (auto simp: validate_upsert_request_def and_then_Inr_iff validate_name_iff split: if_splits)
  ultimately show ?thesis
    using upsert_errors [OF assms(1,2), of expected] r by (simp add: status_code_def)
qed

text \<open>Texts of single-byte characters, of which the lower-case letters count as alphanumeric.\<close>

definition ascii_ops :: text_ops where
  "ascii_ops = \<lparr>tx_chars = map of_char, tx_is_alphanumeric = (\<lambda>c. 97 \<le> c \<and> c \<le> 122), tx_to_lowercase = (\<lambda>s. s)\<rparr>"

text \<open>A valid point and one without an id.\<close>

definition sample_points :: "json list" where
  "sample_points =
     [JObject [(''id'', JNumber (NPos 1)), (''vector'', JArray [JNumber (NPos 1)])],
      JObject [(''vector'', JArray [JNumber (NPos 1), JNull])]]"

theorem upsert_validation_names_bad_points_witness:
  "\<exists>errors. validate_upsert_request ascii_ops ''docs'' sample_points (Some 1) = Inl (ApiValidationFailed errors) \<and>
     (\<exists>e \<in> set errors. names_point 1 e)"
proof -
  have name: "name_ok ascii_ops ''docs''" by (simp add: name_ok_def ascii_ops_def)
  have bad: "\<not> point_ok (Some 1) (sample_points ! 1)" by (simp add: point_ok_def sample_points_def json_get_def hm_get_def)
  have len: "1 < length sample_points" "length sample_points \<le> 10000" by (simp_all add: sample_points_def)
  note r = upsert_validation_names_bad_points [OF len name refl, of "Some 1" "[]" "[]"]
  have "sample_points ! 1 \<in> set sample_points" using len(1) by (rule nth_mem)
  with r bad have "validate_upsert_request ascii_ops ''docs'' sample_points (Some 1) \<noteq> Inr ()" by blast
  with r bad show ?thesis by blast
qed

subsection \<open>Searches\<close>

lemma first_not_finite_None: "first_not_finite i xs = None \<longleftrightarrow> set xs \<subseteq> {x. f32_is_finite x}"
  by (induction i xs rule: first_not_finite.induct) auto

lemma limit_iff: "as_api (validate_limit limit) = Inr () \<longleftrightarrow> limit \<in> {1..10000}"
  by (auto simp: as_api_def validate_limit_def)

text \<open>
  C32.  A search request is accepted exactly when its name is valid, its vector has the collection's dimension,
  at least one component and only finite ones, its limit is between 1 and 10000 and its offset at most a
  million.
\<close>

theorem search_validation_exact:
  "validate_search_request tx name vector limit offset expected = Inr () \<longleftrightarrow>
     name_ok tx name \<and> vector \<noteq> [] \<and> expected \<in> {None, Some (length vector)} \<and>
     set vector \<subseteq> {x. f32_is_finite x} \<and> limit \<in> {1..10000} \<and> offset \<in> {None} \<union> Some ` {0..1000000}"
proof (cases "set vector \<subseteq> {x. f32_is_finite x}")
  case True
  then have "first_not_finite 0 vector = None" by (simp add: first_not_finite_None)
  with True show ?thesis
    by (auto simp: validate_search_request_def and_then_Inr_iff validate_name_iff limit_iff split: option.splits if_splits)
next
  case False
  then obtain i where "first_not_finite 0 vector = Some i"
    using first_not_finite_None [of 0 vector] by (cases "first_not_finite 0 vector") auto
  with False show ?thesis by (simp add: validate_search_request_def and_then_Inr_iff)
qed

end
