(* ===== verification/Snapshots.thy ===== *)
theory Snapshots
  imports SearchTypes Bytes Wal
begin

text \<open>
  Snapshots of collections, \<open>src/src/storage/snapshot.rs\<close>, and backups of a storage directory,
  \<open>src/src/storage/backup.rs\<close>.

  \<open>bincode\<close> writes the JSON values of a payload and cannot read them back, so a decoder that follows it is
  \<open>None\<close> on an entry with such a value.  The snapshot directory has, for each id, the file with extension \<open>snap\<close> and the one with extension
  \<open>meta\<close>; calls of the file system succeed.  The codecs of \<open>bincode\<close>, \<open>serde_json\<close> and \<open>zstd\<close>, the
  digest of \<open>sha2\<close> and the archives of \<open>tar\<close> with \<open>flate2\<close> are arguments.  Time is a number of seconds.
\<close>

subsection \<open>Snapshots\<close>

definition SNAPSHOT_VERSION :: u32 where
  "SNAPSHOT_VERSION = 1"

definition DEFAULT_COMPRESSION_LEVEL :: nat where
  "DEFAULT_COMPRESSION_LEVEL = 3"

datatype snapshot_type = SnFull | SnIncremental

datatype snapshot_compression = CompNone | CompZstd

record snapshot_meta =
  sm_version :: u32
  sm_id :: string
  sm_collection :: string
  sm_created_at :: nat
  sm_vector_count :: u64
  sm_size_bytes :: u64
  sm_compression :: snapshot_compression
  sm_checksum :: string
  sm_wal_sequence :: u64
  sm_parent_id :: "string option"
  sm_type :: snapshot_type

record snapshot_description =
  sd_name :: string
  sd_collection :: string
  sd_size :: u64
  sd_creation_time :: nat
  sd_vector_count :: u64
  sd_type :: snapshot_type

record snapshot_settings =
  ss_s3_endpoint :: "string option"
  ss_s3_bucket :: "string option"
  ss_s3_access_key :: "string option"
  ss_s3_secret_key :: "string option"
  ss_compression_level :: nat
  ss_max_incremental :: nat
  ss_retention_days :: u32

definition snapshot_settings_default :: snapshot_settings where
  "snapshot_settings_default =
     \<lparr>ss_s3_endpoint = None, ss_s3_bucket = None, ss_s3_access_key = None, ss_s3_secret_key = None,
      ss_compression_level = DEFAULT_COMPRESSION_LEVEL, ss_max_incremental = 10, ss_retention_days = 30\<rparr>"

record vector_entry =
  ve_id :: u64
  ve_vector :: "f32 list"
  ve_payload :: "payload option"
  ve_deleted :: bool

text \<open>
  \<open>sx_unfinished\<close> is what an encoder that is dropped before \<open>finish\<close> has written; \<open>sx_unzip\<close> is \<open>None\<close>
  on data that does not decode.
\<close>

record snapshot_codec =
  sx_entry_enc :: "vector_entry \<Rightarrow> u8 list option"
  sx_entry_dec :: "u8 list \<Rightarrow> vector_entry option"
  sx_zip :: "nat \<Rightarrow> u8 list \<Rightarrow> u8 list"
  sx_unfinished :: "nat \<Rightarrow> u8 list \<Rightarrow> u8 list"
  sx_unzip :: "u8 list \<Rightarrow> u8 list option"
  sx_sha256 :: "u8 list \<Rightarrow> string"
  sx_meta_enc :: "snapshot_meta \<Rightarrow> u8 list option"
  sx_meta_dec :: "u8 list \<Rightarrow> snapshot_meta option"

record snapshot_dir =
  dr_snaps :: "(string \<times> u8 list) list"
  dr_metas :: "(string \<times> u8 list) list"

record snapshot_manager =
  sg_settings :: snapshot_settings
  sg_dir :: snapshot_dir
  sg_snapshots :: "(string \<times> snapshot_meta) list"

definition read_snapshot_metadata :: "snapshot_codec \<Rightarrow> snapshot_dir \<Rightarrow> string \<Rightarrow> snapshot_meta res" where
  "read_snapshot_metadata x d file =
     and_then (ok_or (hm_get (dr_metas d) file) EStorage) (\<lambda>bytes. ok_or (sx_meta_dec x bytes) ESerialization)"

definition load_existing_snapshots :: "snapshot_codec \<Rightarrow> snapshot_dir \<Rightarrow> (string \<times> snapshot_meta) list" where
  "load_existing_snapshots x d =
     fold (\<lambda>(file, _) m.
       case read_snapshot_metadata x d file of Inl _ \<Rightarrow> m | Inr meta \<Rightarrow> hm_insert (sm_id meta) meta m) (dr_snaps d) []"

text \<open>
  The map is filled under a blocking lock, which tokio refuses, with a panic, to a thread that runs
  asynchronous tasks.  The flag tells whether the constructor is called from such a thread.
\<close>

definition snapshot_manager_new ::
  "snapshot_codec \<Rightarrow> bool \<Rightarrow> snapshot_settings \<Rightarrow> snapshot_dir \<Rightarrow> snapshot_manager option"
where
  "snapshot_manager_new x in_runtime settings d =
     (if in_runtime \<and> list_ex (\<lambda>(file, _). case read_snapshot_metadata x d file of Inl _ \<Rightarrow> False | Inr _ \<Rightarrow> True) (dr_snaps d)
      then None
      else Some \<lparr>sg_settings = settings, sg_dir = d, sg_snapshots = load_existing_snapshots x d\<rparr>)"

text \<open>The bytes handed to the encoder, and whether every entry could be serialized.\<close>

fun write_entries :: "snapshot_codec \<Rightarrow> (u64 \<times> payload vector) list \<Rightarrow> u8 list \<Rightarrow> u8 list \<times> bool" where
  "write_entries x [] written = (written, True)"
| "write_entries x ((vid, v) # vectors) written =
     (case sx_entry_enc x \<lparr>ve_id = vid, ve_vector = v_data v, ve_payload = v_payload v, ve_deleted = False\<rparr> of
        None \<Rightarrow> (written, False)
      | Some data \<Rightarrow> write_entries x vectors (written @ u32_le (of_nat (length data)) @ data))"

definition calculate_checksum :: "snapshot_codec \<Rightarrow> u8 list \<Rightarrow> string" where
  "calculate_checksum x file = sx_sha256 x file"

definition write_snapshot ::
  "snapshot_codec \<Rightarrow> nat \<Rightarrow> string \<Rightarrow> string \<Rightarrow> (u64 \<times> payload vector) list \<Rightarrow> u64 \<Rightarrow> snapshot_type \<Rightarrow> string option \<Rightarrow>
   snapshot_manager \<Rightarrow> snapshot_meta res \<times> snapshot_manager"
where
  "write_snapshot x now collection sid vectors wal_sequence ty parent m =
     (let level = ss_compression_level (sg_settings m);
          (written, ok) = write_entries x vectors [];
          file = (if ok then sx_zip x level written else sx_unfinished x level written);
          m1 = m\<lparr>sg_dir := (sg_dir m)\<lparr>dr_snaps := hm_insert sid file (dr_snaps (sg_dir m))\<rparr>\<rparr>
      in if \<not> ok then (Inl ESerialization, m1)
         else
           (let meta = \<lparr>sm_version = SNAPSHOT_VERSION, sm_id = sid, sm_collection = collection, sm_created_at = now,
                  sm_vector_count = u64_len vectors, sm_size_bytes = u64_len file, sm_compression = CompZstd,
                  sm_checksum = calculate_checksum x file, sm_wal_sequence = wal_sequence, sm_parent_id = parent,
                  sm_type = ty\<rparr>
            in case sx_meta_enc x meta of
                 None \<Rightarrow> (Inl ESerialization, m1)
               | Some bytes \<Rightarrow>
                   (Inr meta, m1\<lparr>sg_dir := (sg_dir m1)\<lparr>dr_metas := hm_insert sid bytes (dr_metas (sg_dir m1))\<rparr>\<rparr>)))"

text \<open>The two calls that create a snapshot: the index of snapshots gets the metadata after the files are written.\<close>

definition snapshot_id :: "string \<Rightarrow> nat \<Rightarrow> snapshot_type \<Rightarrow> string" where
  "snapshot_id collection now ty =
     collection @ ''-'' @ decimal now @ (case ty of SnFull \<Rightarrow> ''-full'' | SnIncremental \<Rightarrow> ''-inc'')"

definition create_full_snapshot ::
  "snapshot_codec \<Rightarrow> nat \<Rightarrow> string \<Rightarrow> (u64 \<times> payload vector) list \<Rightarrow> u64 \<Rightarrow> snapshot_manager \<Rightarrow>
   snapshot_meta res \<times> snapshot_manager"
where
  "create_full_snapshot x now collection vectors wal_sequence m =
     (let sid = snapshot_id collection now SnFull
      in case write_snapshot x now collection sid vectors wal_sequence SnFull None m of
           (Inl e, m') \<Rightarrow> (Inl e, m')
         | (Inr meta, m') \<Rightarrow> (Inr meta, m'\<lparr>sg_snapshots := hm_insert sid meta (sg_snapshots m')\<rparr>))"

definition create_incremental_snapshot ::
  "snapshot_codec \<Rightarrow> nat \<Rightarrow> string \<Rightarrow> (u64 \<times> payload vector) list \<Rightarrow> u64 \<Rightarrow> string \<Rightarrow> snapshot_manager \<Rightarrow>
   snapshot_meta res \<times> snapshot_manager"
where
  "create_incremental_snapshot x now collection vectors wal_sequence parent m =
     (let sid = snapshot_id collection now SnIncremental
      in case write_snapshot x now collection sid vectors wal_sequence SnIncremental (Some parent) m of
           (Inl e, m') \<Rightarrow> (Inl e, m')
         | (Inr meta, m') \<Rightarrow> (Inr meta, m'\<lparr>sg_snapshots := hm_insert sid meta (sg_snapshots m')\<rparr>))"

text \<open>Fewer than four bytes at the end are taken for the end of the data.\<close>

function read_entries_from :: "snapshot_codec \<Rightarrow> u8 list \<Rightarrow> (u64 \<times> payload vector) list \<Rightarrow> (u64 \<times> payload vector) list res" where
  "read_entries_from x bytes vectors =
     (if length bytes < 4 then Inr vectors
      else
        (let len = unat (u32_of_le (take 4 bytes)); rest = drop 4 bytes
         in if length rest < len then Inl EStorage
            else
              (case sx_entry_dec x (take len rest) of
                 None \<Rightarrow> Inl ESerialization
               | Some e \<Rightarrow>
                   read_entries_from x (drop len rest)
                     (if ve_deleted e then vectors
                      else vectors @ [(ve_id e, \<lparr>v_data = ve_vector e, v_payload = ve_payload e\<rparr>)]))))"
  by pat_completeness auto
termination
  by (relation "measure (\<lambda>(x, bytes, vectors). length bytes)") auto

declare read_entries_from.simps [simp del]

definition read_snapshot_data :: "snapshot_codec \<Rightarrow> u8 list \<Rightarrow> (u64 \<times> payload vector) list res" where
  "read_snapshot_data x file =
     and_then (ok_or (sx_unzip x file) EStorage) (\<lambda>bytes. read_entries_from x bytes [])"

definition restore_snapshot :: "snapshot_codec \<Rightarrow> string \<Rightarrow> snapshot_manager \<Rightarrow> (u64 \<times> payload vector) list res" where
  "restore_snapshot x sid m =
     (case hm_get (dr_snaps (sg_dir m)) sid of
        None \<Rightarrow> Inl EStorage
      | Some file \<Rightarrow>
          (case hm_get (sg_snapshots m) sid of
             None \<Rightarrow> Inl EStorage
           | Some meta \<Rightarrow>
               if calculate_checksum x file \<noteq> sm_checksum meta then Inl EStorage else read_snapshot_data x file))"

definition list_snapshots :: "string \<Rightarrow> snapshot_manager \<Rightarrow> snapshot_description list" where
  "list_snapshots collection m =
     map (\<lambda>meta. \<lparr>sd_name = sm_id meta, sd_collection = sm_collection meta, sd_size = sm_size_bytes meta,
            sd_creation_time = sm_created_at meta, sd_vector_count = sm_vector_count meta, sd_type = sm_type meta\<rparr>)
       (filter (\<lambda>meta. sm_collection meta = collection) (hm_values (sg_snapshots m)))"

definition delete_snapshot :: "string \<Rightarrow> snapshot_manager \<Rightarrow> bool \<times> snapshot_manager" where
  "delete_snapshot sid m =
     (if hm_get (sg_snapshots m) sid = None then (False, m)
      else
        (True, m\<lparr>sg_snapshots := hm_remove sid (sg_snapshots m),
                 sg_dir := \<lparr>dr_snaps = hm_remove sid (dr_snaps (sg_dir m)), dr_metas = hm_remove sid (dr_metas (sg_dir m))\<rparr>\<rparr>))"

definition get_snapshot_metadata :: "string \<Rightarrow> snapshot_manager \<Rightarrow> snapshot_meta option" where
  "get_snapshot_metadata sid m = hm_get (sg_snapshots m) sid"

fun cleanup_loop :: "nat \<Rightarrow> (string \<times> snapshot_meta) list \<Rightarrow> nat \<times> snapshot_manager \<Rightarrow> nat \<times> snapshot_manager" where
  "cleanup_loop cutoff [] st = st"
| "cleanup_loop cutoff ((sid, meta) # es) (deleted, m) =
     (if sm_created_at meta < cutoff
      then (let (found, m') = delete_snapshot sid m
            in cleanup_loop cutoff es (if found then deleted + 1 else deleted, m'))
      else cleanup_loop cutoff es (deleted, m))"

definition cleanup_old_snapshots :: "nat \<Rightarrow> snapshot_manager \<Rightarrow> nat \<times> snapshot_manager" where
  "cleanup_old_snapshots now m =
     cleanup_loop (now - unat (ss_retention_days (sg_settings m)) * 86400) (sg_snapshots m) (0, m)"

subsection \<open>Backups\<close>

text \<open>A directory tree: a file with its bytes, or a directory with its entries.\<close>

datatype fs_tree = File "u8 list" | Dir "(string \<times> fs_tree) list"

record archive_codec =
  ac_pack :: "fs_tree \<Rightarrow> u8 list"
  ac_unpack :: "u8 list \<Rightarrow> fs_tree option"

text \<open>
  \<open>copy_dir_all\<close> into a directory that may exist: directories are merged, files overwritten.  Copying a
  file to a directory, or a directory to a file, is an error.
\<close>

fun copy_tree :: "fs_tree \<Rightarrow> fs_tree option \<Rightarrow> fs_tree res"
  and copy_entries :: "(string \<times> fs_tree) list \<Rightarrow> (string \<times> fs_tree) list \<Rightarrow> (string \<times> fs_tree) list res"
where
  "copy_tree (File bytes) dst = (case dst of Some (Dir _) \<Rightarrow> Inl EStorage | _ \<Rightarrow> Inr (File bytes))"
| "copy_tree (Dir es) dst =
     (case dst of
        Some (File _) \<Rightarrow> Inl EStorage
      | Some (Dir ds) \<Rightarrow> and_then (copy_entries es ds) (\<lambda>ds'. Inr (Dir ds'))
      | None \<Rightarrow> and_then (copy_entries es []) (\<lambda>ds'. Inr (Dir ds')))"
| "copy_entries [] ds = Inr ds"
| "copy_entries ((name, t) # es) ds =
     and_then (copy_tree t (hm_get ds name)) (\<lambda>t'. copy_entries es (hm_insert name t' ds))"

record backup_entry =
  be_bytes :: "u8 list"
  be_created :: nat

record backup_manager =
  bm_storage :: "fs_tree option"
  bm_backups :: "(string \<times> backup_entry) list"

record backup_info =
  bi_name :: string
  bi_size :: u64
  bi_created :: nat

text \<open>The archive of a backup named \<open>n\<close> is the file \<open>n.tar.gz\<close>, here stored under \<open>n\<close>.\<close>

definition create_backup :: "archive_codec \<Rightarrow> nat \<Rightarrow> string \<Rightarrow> backup_manager \<Rightarrow> unit res \<times> backup_manager" where
  "create_backup a now name m =
     (case bm_storage m of
        None \<Rightarrow> (Inl EStorage, m)
      | Some tree \<Rightarrow>
          (case tree of
             File _ \<Rightarrow> (Inl EStorage, m)
           | Dir _ \<Rightarrow>
               (case copy_tree tree None of
                  Inl e \<Rightarrow> (Inl e, m)
                | Inr temp \<Rightarrow>
                    (Inr (), m\<lparr>bm_backups := hm_insert name \<lparr>be_bytes = ac_pack a temp, be_created = now\<rparr> (bm_backups m)\<rparr>))))"

definition restore_backup :: "archive_codec \<Rightarrow> string \<Rightarrow> backup_manager \<Rightarrow> unit res \<times> backup_manager" where
  "restore_backup a name m =
     (case hm_get (bm_backups m) name of
        None \<Rightarrow> (Inl EStorage, m)
      | Some b \<Rightarrow>
          (case ac_unpack a (be_bytes b) of
             None \<Rightarrow> (Inl EStorage, m)
           | Some extracted \<Rightarrow>
               (case copy_tree extracted None of
                  Inl e \<Rightarrow> (Inl e, m\<lparr>bm_storage := None\<rparr>)
                | Inr t \<Rightarrow> (Inr (), m\<lparr>bm_storage := Some t\<rparr>))))"

text \<open>\<open>file_stem\<close> of \<open>n.tar.gz\<close> is \<open>n.tar\<close>; the newest backup is first.\<close>

definition list_backups :: "backup_manager \<Rightarrow> backup_info list" where
  "list_backups m =
     rev (sort_key bi_created (rev (map (\<lambda>(name, b).
       \<lparr>bi_name = name @ ''.tar'', bi_size = u64_len (be_bytes b), bi_created = be_created b\<rparr>) (bm_backups m))))"

end
