(* ===== verification/SnapshotClaims.thy ===== *)
theory SnapshotClaims
  imports Snapshots
begin

text \<open>
  The properties of snapshots and backups: what is restored from them, in the same process and after a
  restart, and which snapshots are lost.
\<close>

subsection \<open>Writing and reading entries\<close>

definition entry_of :: "u64 \<times> payload vector \<Rightarrow> vector_entry" where
  "entry_of e = \<lparr>ve_id = fst e, ve_vector = v_data (snd e), ve_payload = v_payload (snd e), ve_deleted = False\<rparr>"

text \<open>
  What \<open>bincode\<close> does with an entry.  Its format does not describe itself, and it refuses \<open>deserialize_any\<close>, by
  which \<open>serde_json\<close> reads a value of a payload: an entry with a payload that is not empty is encoded, and what is
  written does not decode.
\<close>

definition no_values :: "u64 \<times> payload vector \<Rightarrow> bool" where
  "no_values e \<longleftrightarrow> (case v_payload (snd e) of None \<Rightarrow> True | Some m \<Rightarrow> m = [])"

definition entry_codec_ok :: "snapshot_codec \<Rightarrow> u64 \<times> payload vector \<Rightarrow> bool" where
  "entry_codec_ok x e \<longleftrightarrow>
     (case sx_entry_enc x (entry_of e) of
        None \<Rightarrow> True
      | Some data \<Rightarrow> sx_entry_dec x data = (if no_values e then Some (entry_of e) else None) \<and> length data < 2 ^ 32)"

definition restored :: "(u64 \<times> payload vector) list \<Rightarrow> (u64 \<times> payload vector) list res" where
  "restored vectors = (if list_all no_values vectors then Inr vectors else Inl ESerialization)"

text \<open>The compression, and the metadata, are read back.\<close>

definition file_codec_ok :: "snapshot_codec \<Rightarrow> bool" where
  "file_codec_ok x \<longleftrightarrow>
     (\<forall>level bytes. sx_unzip x (sx_zip x level bytes) = Some bytes) \<and>
     (\<forall>meta. case sx_meta_enc x meta of None \<Rightarrow> True | Some bytes \<Rightarrow> sx_meta_dec x bytes = Some meta)"

lemma write_entries_reads:
  assumes "\<forall>e \<in> set vectors. entry_codec_ok x e" and "snd (write_entries x vectors written)"
  shows "\<exists>bytes. write_entries x vectors written = (written @ bytes, True) \<and>
    (\<forall>acc. read_entries_from x bytes acc =
       (if list_all no_values vectors then Inr (acc @ vectors) else Inl ESerialization))"
  using assms
proof (induction vectors arbitrary: written)
  case Nil
  then show ?case by (simp add: read_entries_from.simps)
next
  case (Cons e vectors)
  obtain vid v where e: "e = (vid, v)" by force
  obtain data where data: "sx_entry_enc x (entry_of e) = Some data"
    "sx_entry_dec x data = (if no_values e then Some (entry_of e) else None)" "length data < 2 ^ 32"
    using Cons.prems by (auto simp: entry_codec_ok_def entry_of_def e split: option.splits)
  let ?len = "u32_le (of_nat (length data))"
  obtain bytes where bytes: "write_entries x vectors (written @ ?len @ data) = ((written @ ?len @ data) @ bytes, True)"
    "\<forall>acc. read_entries_from x bytes acc = (if list_all no_values vectors then Inr (acc @ vectors) else Inl ESerialization)"
    using Cons.IH [of "written @ ?len @ data"] Cons.prems data(1) by (auto simp: e entry_of_def)
  have "read_entries_from x (?len @ data @ bytes) acc =
      (if list_all no_values (e # vectors) then Inr (acc @ e # vectors) else Inl ESerialization)" for acc
    using data bytes(2)
    by (subst read_entries_from.simps) (simp add: Let_def unat_of_nat_u32 entry_of_def e)
  then show ?case
    using data(1) bytes(1) by (intro exI [of _ "?len @ data @ bytes"]) (simp add: e entry_of_def)
qed

text \<open>The metadata files are stored under the ids they hold.\<close>

definition dir_ok :: "snapshot_codec \<Rightarrow> snapshot_dir \<Rightarrow> bool" where
  "dir_ok x d \<longleftrightarrow>
     (\<forall>file bytes meta. hm_get (dr_metas d) file = Some bytes \<and> sx_meta_dec x bytes = Some meta \<longrightarrow> sm_id meta = file)"

lemma load_gets:
  assumes "dir_ok x d" and "hm_get (dr_snaps d) sid = Some contents" and "read_snapshot_metadata x d sid = Inr meta"
  shows "hm_get (load_existing_snapshots x d) sid = Some meta"
proof -
  let ?step = "\<lambda>(file, _ :: u8 list) m. case read_snapshot_metadata x d file of Inl _ \<Rightarrow> m | Inr meta \<Rightarrow> hm_insert (sm_id meta) meta m"
  have ids: "sm_id meta' = f" if "read_snapshot_metadata x d f = Inr meta'" for f meta'
    using assms(1) that by (auto simp: read_snapshot_metadata_def dir_ok_def and_then_Inr_iff ok_or_def split: option.splits)
  have step: "hm_get (?step e m) sid = (if fst e = sid then Some meta else hm_get m sid)" for e m
    using ids assms(3) by (cases e) (auto split: sum.splits)
  have "hm_get (fold ?step es m) sid = (if sid \<in> fst ` set es then Some meta else hm_get m sid)" for es m
    by (induction es arbitrary: m) (simp_all add: step)
  moreover have "sid \<in> fst ` set (dr_snaps d)" using assms(2) hm_get_mem by force
  ultimately show ?thesis unfolding load_existing_snapshots_def by simp
qed

text \<open>Creating a snapshot of either type.\<close>

definition create_snapshot ::
  "snapshot_codec \<Rightarrow> nat \<Rightarrow> string \<Rightarrow> (u64 \<times> payload vector) list \<Rightarrow> u64 \<Rightarrow> string option \<Rightarrow> snapshot_manager \<Rightarrow>
   snapshot_meta res \<times> snapshot_manager"
where
  "create_snapshot x now collection vectors w parent m =
     (case parent of
        None \<Rightarrow> create_full_snapshot x now collection vectors w m
      | Some p \<Rightarrow> create_incremental_snapshot x now collection vectors w p m)"

lemma create_snapshot_result:
  assumes entries: "\<forall>e \<in> set vectors. entry_codec_ok x e" and codec: "file_codec_ok x"
    and create: "create_snapshot x now collection vectors w parent m = (Inr meta, m')"
  shows "\<exists>contents.
    sm_id meta = snapshot_id collection now (if parent = None then SnFull else SnIncremental) \<and>
    sm_collection meta = collection \<and> sm_vector_count meta = u64_len vectors \<and> sm_parent_id meta = parent \<and>
    sg_snapshots m' = hm_insert (sm_id meta) meta (sg_snapshots m) \<and>
    dr_snaps (sg_dir m') = hm_insert (sm_id meta) contents (dr_snaps (sg_dir m)) \<and>
    sm_checksum meta = sx_sha256 x contents \<and> read_snapshot_data x contents = restored vectors \<and>
    read_snapshot_metadata x (sg_dir m') (sm_id meta) = Inr meta \<and>
    (dir_ok x (sg_dir m) \<longrightarrow> dir_ok x (sg_dir m'))"
proof -
  let ?ty = "if parent = None then SnFull else SnIncremental"
  let ?sid = "snapshot_id collection now ?ty"
  have ws: "\<exists>m1. write_snapshot x now collection ?sid vectors w ?ty parent m = (Inr meta, m1) \<and>
      m' = m1\<lparr>sg_snapshots := hm_insert ?sid meta (sg_snapshots m1)\<rparr>"
    using create
    by (cases parent)
      (auto simp: create_snapshot_def create_full_snapshot_def create_incremental_snapshot_def Let_def
        split: prod.splits sum.splits)
  then have "snd (write_entries x vectors [])"
    by (auto simp: write_snapshot_def Let_def split: prod.splits if_splits)
  then obtain bytes where w: "write_entries x vectors [] = (bytes, True)" "read_entries_from x bytes [] = restored vectors"
    using write_entries_reads [OF entries, of "[]"] by (auto simp: restored_def)
  let ?file = "sx_zip x (ss_compression_level (sg_settings m)) bytes"
  have zip: "sx_unzip x ?file = Some bytes" using codec by (simp add: file_codec_ok_def)
  let ?meta = "\<lparr>sm_version = SNAPSHOT_VERSION, sm_id = ?sid, sm_collection = collection, sm_created_at = now,
      sm_vector_count = u64_len vectors, sm_size_bytes = u64_len ?file, sm_compression = CompZstd,
      sm_checksum = sx_sha256 x ?file, sm_wal_sequence = w, sm_parent_id = parent, sm_type = ?ty\<rparr>"
  let ?d1 = "(sg_dir m)\<lparr>dr_snaps := hm_insert ?sid ?file (dr_snaps (sg_dir m))\<rparr>"
  have wr: "write_snapshot x now collection ?sid vectors w ?ty parent m =
      (case sx_meta_enc x ?meta of
         None \<Rightarrow> (Inl ESerialization, m\<lparr>sg_dir := ?d1\<rparr>)
       | Some bytes \<Rightarrow> (Inr ?meta, m\<lparr>sg_dir := ?d1\<lparr>dr_metas := hm_insert ?sid bytes (dr_metas (sg_dir m))\<rparr>\<rparr>))"
    by (simp add: write_snapshot_def w(1) calculate_checksum_def Let_def split: option.split)
  obtain mb where mb0: "sx_meta_enc x ?meta = Some mb" using ws wr by (cases "sx_meta_enc x ?meta") auto
  obtain m1 where m1: "write_snapshot x now collection ?sid vectors w ?ty parent m = (Inr meta, m1)"
    "m' = m1\<lparr>sg_snapshots := hm_insert ?sid meta (sg_snapshots m1)\<rparr>" using ws by blast
  have m1_eq: "(Inr meta, m1) =
      (Inr ?meta :: snapshot_meta res, m\<lparr>sg_dir := ?d1\<lparr>dr_metas := hm_insert ?sid mb (dr_metas (sg_dir m))\<rparr>\<rparr>)"
    unfolding m1(1) [symmetric] wr mb0 by (simp only: option.case)
  have meta_eq: "meta = ?meta" using m1_eq by (simp only: prod.inject sum.inject)
  have "m1 = m\<lparr>sg_dir := ?d1\<lparr>dr_metas := hm_insert ?sid mb (dr_metas (sg_dir m))\<rparr>\<rparr>" using m1_eq by (simp only: prod.inject)
  then have m': "sg_snapshots m' = hm_insert ?sid meta (sg_snapshots m)"
      "dr_snaps (sg_dir m') = hm_insert ?sid ?file (dr_snaps (sg_dir m))"
      "dr_metas (sg_dir m') = hm_insert ?sid mb (dr_metas (sg_dir m))"
    unfolding m1(2) by simp_all
  have meta: "sm_id meta = ?sid" "sm_collection meta = collection" "sm_vector_count meta = u64_len vectors"
    "sm_parent_id meta = parent" "sm_checksum meta = sx_sha256 x ?file"
    unfolding meta_eq by simp_all
  have mb: "sx_meta_enc x meta = Some mb" unfolding meta_eq by (rule mb0)
  have "case sx_meta_enc x meta of None \<Rightarrow> True | Some bytes \<Rightarrow> sx_meta_dec x bytes = Some meta"
    using codec unfolding file_codec_ok_def by blast
  then have dec: "sx_meta_dec x mb = Some meta" by (simp only: mb option.case)
  have "dir_ok x (sg_dir m) \<longrightarrow> dir_ok x (sg_dir m')" using dec meta(1) m'(3) by (auto simp: dir_ok_def)
  moreover have "read_snapshot_metadata x (sg_dir m') ?sid = Inr meta"
    using dec m'(3) by (simp add: read_snapshot_metadata_def)
  moreover have "read_snapshot_data x ?file = restored vectors" using w(2) zip by (simp add: read_snapshot_data_def)
  ultimately show ?thesis using meta m' by (intro exI [of _ ?file]) simp
qed

lemma restore_created:
  assumes "hm_get (dr_snaps (sg_dir m)) sid = Some contents" and "hm_get (sg_snapshots m) sid = Some meta"
    and "sm_checksum meta = sx_sha256 x contents"
  shows "restore_snapshot x sid m = read_snapshot_data x contents"
  using assms by (simp add: restore_snapshot_def calculate_checksum_def)

text \<open>
  C26.  A directory has its metadata files under the ids they hold.  A snapshot made in it, full or incremental, of
  vectors without payloads or with empty ones is restored as exactly these vectors, by the manager that made it and
  by one that is started on the directory later outside the asynchronous runtime; those of a parent are not added.
  When some vector has a payload with an entry, the snapshot is made all the same, and restoring it fails with a
  serialization error: what \<open>bincode\<close> has written of the payload's values it cannot read.
\<close>

theorem snapshot_round_trip:
  assumes "\<forall>e \<in> set vectors. entry_codec_ok x e" and "file_codec_ok x" and "dir_ok x (sg_dir m)"
    and "create_snapshot x now collection vectors w parent m = (Inr meta, m')"
  shows "sm_vector_count meta = u64_len vectors \<and>
    restore_snapshot x (sm_id meta) m' = (if list_all no_values vectors then Inr vectors else Inl ESerialization) \<and>
    (\<exists>m2. snapshot_manager_new x False settings (sg_dir m') = Some m2 \<and>
       restore_snapshot x (sm_id meta) m2 = (if list_all no_values vectors then Inr vectors else Inl ESerialization))"
proof -
  obtain contents where c: "sm_vector_count meta = u64_len vectors"
    "sg_snapshots m' = hm_insert (sm_id meta) meta (sg_snapshots m)"
    "dr_snaps (sg_dir m') = hm_insert (sm_id meta) contents (dr_snaps (sg_dir m))"
    "sm_checksum meta = sx_sha256 x contents" "read_snapshot_data x contents = restored vectors"
    "read_snapshot_metadata x (sg_dir m') (sm_id meta) = Inr meta" "dir_ok x (sg_dir m')"
    using create_snapshot_result [OF assms(1,2,4)] assms(3) by blast
  have "hm_get (dr_snaps (sg_dir m')) (sm_id meta) = Some contents" by (simp add: c(3))
  then have "restore_snapshot x (sm_id meta) m' = restored vectors"
    "\<exists>m2. snapshot_manager_new x False settings (sg_dir m') = Some m2 \<and> restore_snapshot x (sm_id meta) m2 = restored vectors"
    using c(2,4,5) load_gets [OF c(7) _ c(6)] by (simp_all add: restore_created snapshot_manager_new_def)
  with c(1) show ?thesis unfolding restored_def by blast
qed

text \<open>
  A codec for entries without components, and for the metadata of the snapshots below, of one and two vectors
  without payload and of one with a payload.
\<close>

definition tiny_meta :: "nat \<Rightarrow> nat \<Rightarrow> snapshot_meta" where
  "tiny_meta n sz = \<lparr>sm_version = SNAPSHOT_VERSION, sm_id = snapshot_id ''c'' 5 SnFull, sm_collection = ''c'', sm_created_at = 5,
     sm_vector_count = of_nat n, sm_size_bytes = of_nat sz, sm_compression = CompZstd, sm_checksum = ''sha'',
     sm_wal_sequence = 0, sm_parent_id = None, sm_type = SnFull\<rparr>"

definition tiny_codec :: snapshot_codec where
  "tiny_codec = \<lparr>
     sx_entry_enc = (\<lambda>e. if ve_vector e = [] \<and> \<not> ve_deleted e
       then Some (u64_le (ve_id e) @ (case ve_payload e of None \<Rightarrow> [] | Some m \<Rightarrow> [of_nat (length m)])) else None),
     sx_entry_dec = (\<lambda>bs.
       if length bs = 8 then Some \<lparr>ve_id = u64_of_le bs, ve_vector = [], ve_payload = None, ve_deleted = False\<rparr> else None),
     sx_zip = (\<lambda>_ bs. bs), sx_unfinished = (\<lambda>_ bs. []), sx_unzip = Some, sx_sha256 = (\<lambda>_. ''sha''),
     sx_meta_enc = (\<lambda>meta. if meta = tiny_meta 1 12 then Some [1] else if meta = tiny_meta 2 24 then Some [2]
       else if meta = tiny_meta 1 13 then Some [3] else None),
     sx_meta_dec = (\<lambda>bs. if bs = [1] then Some (tiny_meta 1 12) else if bs = [2] then Some (tiny_meta 2 24)
       else if bs = [3] then Some (tiny_meta 1 13) else None)\<rparr>"

definition empty_manager :: snapshot_manager where
  "empty_manager = the (snapshot_manager_new tiny_codec True snapshot_settings_default \<lparr>dr_snaps = [], dr_metas = []\<rparr>)"

definition one_vector :: "(u64 \<times> payload vector) list" where
  "one_vector = [(7, vector_new [])]"

definition two_vectors :: "(u64 \<times> payload vector) list" where
  "two_vectors = [(8, vector_new []), (9, vector_new [])]"

text \<open>The point 7 with the payload of one key.\<close>

definition payload_vectors :: "(u64 \<times> payload vector) list" where
  "payload_vectors = [(7, \<lparr>v_data = [], v_payload = Some [(''city'', JNull)]\<rparr>)]"

lemma tiny_entries: "set vs \<subseteq> range (\<lambda>i. (i, vector_new [])) \<Longrightarrow> \<forall>e \<in> set vs. entry_codec_ok tiny_codec e"
  by (auto simp: entry_codec_ok_def tiny_codec_def entry_of_def vector_new_def no_values_def)

lemma tiny_payload: "\<forall>e \<in> set payload_vectors. entry_codec_ok tiny_codec e"
  by (simp add: payload_vectors_def entry_codec_ok_def tiny_codec_def entry_of_def no_values_def)

lemma tiny_files: "file_codec_ok tiny_codec"
  by (auto simp: file_codec_ok_def tiny_codec_def split: option.splits)

lemma tiny_dir: "dir_ok tiny_codec (sg_dir empty_manager)"
  by (simp add: dir_ok_def empty_manager_def snapshot_manager_new_def)

lemmas create_eval = create_snapshot_def create_full_snapshot_def write_snapshot_def Let_def
  snapshot_settings_default_def calculate_checksum_def u64_len_def

lemma tiny_create:
  "fst (create_snapshot tiny_codec 5 ''c'' one_vector 0 None m) = Inr (tiny_meta 1 12)"
  "fst (create_snapshot tiny_codec 5 ''c'' two_vectors 0 None m) = Inr (tiny_meta 2 24)"
  "fst (create_snapshot tiny_codec 5 ''c'' payload_vectors 0 None m) = Inr (tiny_meta 1 13)"
  by (simp_all add: create_eval one_vector_def two_vectors_def payload_vectors_def vector_new_def tiny_codec_def tiny_meta_def)

theorem snapshot_round_trip_witness:
  "(\<exists>meta m'. create_snapshot tiny_codec 5 ''c'' two_vectors 0 None empty_manager = (Inr meta, m') \<and>
     (\<exists>m2. snapshot_manager_new tiny_codec False snapshot_settings_default (sg_dir m') = Some m2 \<and>
        restore_snapshot tiny_codec (sm_id meta) m2 = Inr two_vectors)) \<and>
   (\<exists>meta m'. create_snapshot tiny_codec 5 ''c'' payload_vectors 0 None empty_manager = (Inr meta, m') \<and>
     restore_snapshot tiny_codec (sm_id meta) m' = Inl ESerialization)"
proof
  obtain m' where c: "create_snapshot tiny_codec 5 ''c'' two_vectors 0 None empty_manager = (Inr (tiny_meta 2 24), m')"
    using tiny_create(2) [of empty_manager] by (metis prod.collapse)
  have e: "\<forall>e \<in> set two_vectors. entry_codec_ok tiny_codec e" by (rule tiny_entries) (auto simp: two_vectors_def)
  have "list_all no_values two_vectors" by (simp add: two_vectors_def vector_new_def no_values_def)
  with snapshot_round_trip [OF e tiny_files tiny_dir c, of snapshot_settings_default] c
  show "\<exists>meta m'. create_snapshot tiny_codec 5 ''c'' two_vectors 0 None empty_manager = (Inr meta, m') \<and>
     (\<exists>m2. snapshot_manager_new tiny_codec False snapshot_settings_default (sg_dir m') = Some m2 \<and>
        restore_snapshot tiny_codec (sm_id meta) m2 = Inr two_vectors)" by auto
next
  obtain m' where c: "create_snapshot tiny_codec 5 ''c'' payload_vectors 0 None empty_manager = (Inr (tiny_meta 1 13), m')"
    using tiny_create(3) [of empty_manager] by (metis prod.collapse)
  have "\<not> list_all no_values payload_vectors" by (simp add: payload_vectors_def no_values_def)
  with snapshot_round_trip [OF tiny_payload tiny_files tiny_dir c, of snapshot_settings_default] c
  show "\<exists>meta m'. create_snapshot tiny_codec 5 ''c'' payload_vectors 0 None empty_manager = (Inr meta, m') \<and>
     restore_snapshot tiny_codec (sm_id meta) m' = Inl ESerialization" by auto
qed

subsection \<open>Starting with a snapshot\<close>

text \<open>
  Once a snapshot has been made, a manager that is started on its directory from the asynchronous runtime
  panics: every start of the servers after the first snapshot does.
\<close>

theorem start_after_snapshot_panics:
  assumes "\<forall>e \<in> set vectors. entry_codec_ok x e" and "file_codec_ok x"
    and "create_snapshot x now collection vectors w parent m = (Inr meta, m')"
  shows "snapshot_manager_new x True settings (sg_dir m') = None"
proof -
  obtain contents where "dr_snaps (sg_dir m') = hm_insert (sm_id meta) contents (dr_snaps (sg_dir m))"
    "read_snapshot_metadata x (sg_dir m') (sm_id meta) = Inr meta"
    using create_snapshot_result [OF assms] by blast
  then show ?thesis by (force simp: snapshot_manager_new_def list_ex_iff intro: hm_insert_mem)
qed

theorem start_after_snapshot_panics_witness:
  "\<exists>meta m'. create_snapshot tiny_codec 5 ''c'' two_vectors 0 None empty_manager = (Inr meta, m') \<and>
     snapshot_manager_new tiny_codec True snapshot_settings_default (sg_dir m') = None"
proof -
  obtain m' where c: "create_snapshot tiny_codec 5 ''c'' two_vectors 0 None empty_manager = (Inr (tiny_meta 2 24), m')"
    using tiny_create(2) [of empty_manager] by (metis prod.collapse)
  have "\<forall>e \<in> set two_vectors. entry_codec_ok tiny_codec e" by (rule tiny_entries) (auto simp: two_vectors_def)
  from start_after_snapshot_panics [OF this tiny_files c, of snapshot_settings_default] c show ?thesis by blast
qed

subsection \<open>Two snapshots in one second\<close>

text \<open>
  The id of a snapshot has its time in seconds.  Of two snapshots of the same type and collection that are
  made in the same second only the second is kept: restoring the first gives what is restored of the second.
\<close>

theorem second_snapshot_replaces_first:
  assumes "\<forall>e \<in> set (vectors @ vectors'). entry_codec_ok x e" and "file_codec_ok x"
    and first: "create_snapshot x now collection vectors w None m = (Inr meta, m1)"
    and second: "create_snapshot x now collection vectors' w' None m1 = (Inr meta', m2)"
  shows "sm_id meta' = sm_id meta \<and> restore_snapshot x (sm_id meta) m2 = restored vectors'"
proof -
  have entries: "\<forall>e \<in> set vectors. entry_codec_ok x e" "\<forall>e \<in> set vectors'. entry_codec_ok x e" using assms(1) by auto
  have same: "sm_id meta = snapshot_id collection now SnFull"
    using create_snapshot_result [OF entries(1) assms(2) first] by auto
  obtain contents where c: "sm_id meta' = snapshot_id collection now SnFull"
    "sg_snapshots m2 = hm_insert (sm_id meta') meta' (sg_snapshots m1)"
    "dr_snaps (sg_dir m2) = hm_insert (sm_id meta') contents (dr_snaps (sg_dir m1))"
    "sm_checksum meta' = sx_sha256 x contents" "read_snapshot_data x contents = restored vectors'"
    using create_snapshot_result [OF entries(2) assms(2) second] by auto
  then show ?thesis using same restore_created [of m2 "sm_id meta'" contents meta' x] by simp
qed

theorem second_snapshot_replaces_first_witness:
  "\<exists>meta m1 meta' m2. create_snapshot tiny_codec 5 ''c'' one_vector 0 None empty_manager = (Inr meta, m1) \<and>
     create_snapshot tiny_codec 5 ''c'' two_vectors 0 None m1 = (Inr meta', m2) \<and>
     restore_snapshot tiny_codec (sm_id meta) m1 = Inr one_vector \<and>
     restore_snapshot tiny_codec (sm_id meta) m2 = Inr two_vectors"
proof -
  obtain m1 where c1: "create_snapshot tiny_codec 5 ''c'' one_vector 0 None empty_manager = (Inr (tiny_meta 1 12), m1)"
    using tiny_create(1) [of empty_manager] by (metis prod.collapse)
  obtain m2 where c2: "create_snapshot tiny_codec 5 ''c'' two_vectors 0 None m1 = (Inr (tiny_meta 2 24), m2)"
    using tiny_create(2) [of m1] by (metis prod.collapse)
  have e: "\<forall>e \<in> set (one_vector @ two_vectors). entry_codec_ok tiny_codec e"
    by (rule tiny_entries) (auto simp: one_vector_def two_vectors_def)
  have whole: "restored one_vector = Inr one_vector" "restored two_vectors = Inr two_vectors"
    by (simp_all add: restored_def one_vector_def two_vectors_def vector_new_def no_values_def)
  from e have e1: "\<forall>e \<in> set one_vector. entry_codec_ok tiny_codec e" by simp
  obtain contents where "dr_snaps (sg_dir m1) = hm_insert (sm_id (tiny_meta 1 12)) contents (dr_snaps (sg_dir empty_manager))"
    "sg_snapshots m1 = hm_insert (sm_id (tiny_meta 1 12)) (tiny_meta 1 12) (sg_snapshots empty_manager)"
    "sm_checksum (tiny_meta 1 12) = sx_sha256 tiny_codec contents" "read_snapshot_data tiny_codec contents = restored one_vector"
    using create_snapshot_result [OF e1 tiny_files c1] by blast
  then have "restore_snapshot tiny_codec (sm_id (tiny_meta 1 12)) m1 = restored one_vector" by (simp add: restore_created)
  moreover have "restore_snapshot tiny_codec (sm_id (tiny_meta 1 12)) m2 = Inr two_vectors"
    using second_snapshot_replaces_first [OF e tiny_files c1 c2] by (simp add: whole)
  ultimately show ?thesis using c1 c2 unfolding whole by blast
qed

end
