(* ===== verification/Jepsen.thy ===== *)
theory Jepsen
  imports SearchTypes
begin

text \<open>
  The consistency test harness, \<open>src/src/jepsen/\<close>: operations and histories, the checkers
  (\<open>checkers.rs\<close>), the analysis of histories (\<open>history.rs\<close>, \<open>operations.rs\<close>), the runner, the analyzer
  of timed operations and the simulator of network partitions (\<open>mod.rs\<close>).

  A time is a number of nanoseconds and a duration a difference of them; an identifier is a 128-bit word.
  A local hash map is filled in insertion order, and where it is iterated the argument \<open>ord\<close> puts its keys
  into the order of the iteration.  A panic is \<open>None\<close>.  Descriptions of violations are left out.
\<close>

subsection \<open>Equality of JSON values\<close>

text \<open>
  The derived equality of \<open>serde_json::Value\<close>: floats are compared as floats, objects as maps.
\<close>

fun number_eq :: "json_number \<Rightarrow> json_number \<Rightarrow> bool" where
  "number_eq (NPos x) (NPos y) = (x = y)"
| "number_eq (NNeg x) (NNeg y) = (x = y)"
| "number_eq (NFloat x) (NFloat y) = f64_eq x y"
| "number_eq _ _ = False"

fun json_eq :: "json \<Rightarrow> json \<Rightarrow> bool"
  and json_list_eq :: "json list \<Rightarrow> json list \<Rightarrow> bool"
  and json_fields_eq :: "(string \<times> json) list \<Rightarrow> (string \<times> json) list \<Rightarrow> bool"
where
  "json_eq JNull JNull = True"
| "json_eq (JBool x) (JBool y) = (x = y)"
| "json_eq (JNumber x) (JNumber y) = number_eq x y"
| "json_eq (JString x) (JString y) = (x = y)"
| "json_eq (JArray xs) (JArray ys) = json_list_eq xs ys"
| "json_eq (JObject xs) (JObject ys) = (length xs = length ys \<and> json_fields_eq xs ys)"
| "json_eq _ _ = False"
| "json_list_eq [] [] = True"
| "json_list_eq (x # xs) (y # ys) = (json_eq x y \<and> json_list_eq xs ys)"
| "json_list_eq _ _ = False"
| "json_fields_eq [] ys = True"
| "json_fields_eq ((k, x) # xs) ys =
     ((case hm_get ys k of None \<Rightarrow> False | Some y \<Rightarrow> json_eq x y) \<and> json_fields_eq xs ys)"

lemma json_eq_null [simp]: "json_eq x JNull \<longleftrightarrow> x = JNull" "json_eq JNull x \<longleftrightarrow> x = JNull"
  by (cases x; simp)+

subsection \<open>Operations and histories\<close>

type_synonym uuid = "128 word"
type_synonym i64 = "64 word"

datatype transaction_op = TxnRead string | TxnWrite string json

datatype operation_type =
    OpRead string
  | OpWrite string json
  | OpCas string json json
  | OpTransaction "transaction_op list"
  | OpAppend string json
  | OpSetAdd string json
  | OpIncrement string i64

datatype operation_result =
    ReadOk "json option"
  | WriteOk
  | CasOk bool
  | TransactionOk "json option list"
  | AppendOk
  | SetAddOk
  | IncrementOk i64

record operation =
  jo_id :: uuid
  jo_process :: nat
  jo_op :: operation_type
  jo_invoke :: nat
  jo_complete :: "nat option"
  jo_result :: "operation_result option"
  jo_error :: "string option"

datatype consistency_model =
    Linearizable | Linearizability | Sequential | SequentialConsistency | StrictSerializability
  | Serializability | Eventual | CausalConsistency

record jepsen_config =
  jc_client_count :: nat
  jc_test_duration_secs :: u64
  jc_operation_rate :: u64
  jc_partition_probability :: f64
  jc_enable_simdx :: bool
  jc_consistency_model :: consistency_model
  jc_max_operation_latency_ms :: u64

text \<open>The literal is 0.1.\<close>

definition jepsen_config_default :: jepsen_config where
  "jepsen_config_default =
     \<lparr>jc_client_count = 8, jc_test_duration_secs = 300, jc_operation_rate = 100,
      jc_partition_probability = 0x3FB999999999999A, jc_enable_simdx = True,
      jc_consistency_model = Linearizable, jc_max_operation_latency_ms = 5000\<rparr>"

datatype partition_type = MajorityMinority | Complete | Random | RingPartition

datatype fault_type = PartitionFault partition_type | Crash | Pause | ClockSkew | Delay

record fault_event =
  fv_fault_type :: fault_type
  fv_start_time :: nat
  fv_end_time :: "nat option"
  fv_affected_nodes :: "nat list"

record history_metadata =
  hd_config :: jepsen_config
  hd_start_time :: nat
  hd_end_time :: nat
  hd_total_ops :: nat
  hd_successful_ops :: nat
  hd_failed_ops :: nat
  hd_faults_injected :: "fault_event list"

record history =
  hy_operations :: "operation list"
  hy_metadata :: history_metadata

datatype violation_type =
    ReadAfterWrite | WriteAfterRead | ConcurrentWrites | StaleRead | LostUpdate
  | LinearizabilityViolation | StrictSerializabilityViolation | SerializabilityViolation

record violation =
  vn_type :: violation_type
  vn_operations :: "uuid list"

record checker_metadata =
  cm_check_duration :: nat
  cm_operations_analyzed :: nat
  cm_stats :: "(string \<times> json) list"

record checker_result =
  cr_valid :: bool
  cr_model :: consistency_model
  cr_violations :: "violation list"
  cr_metadata :: checker_metadata

text \<open>The entry of a hash map of vectors, empty if there is none, and the entry extended by an element.\<close>

definition hm_list :: "('k \<times> 'v list) list \<Rightarrow> 'k \<Rightarrow> 'v list" where
  "hm_list m k = (case hm_get m k of None \<Rightarrow> [] | Some vs \<Rightarrow> vs)"

definition hm_push :: "'k \<Rightarrow> 'v \<Rightarrow> ('k \<times> 'v list) list \<Rightarrow> ('k \<times> 'v list) list" where
  "hm_push k v m = hm_insert k (hm_list m k @ [v]) m"

subsection \<open>The linearizability checker\<close>

text \<open>The run of a register through the operations: whether every result is possible in their order.\<close>

fun is_linearizable :: "json \<Rightarrow> operation list \<Rightarrow> bool" where
  "is_linearizable state [] = True"
| "is_linearizable state (op # ops) =
     (case (jo_op op, jo_result op) of
        (OpWrite _ value, Some WriteOk) \<Rightarrow> is_linearizable value ops
      | (OpRead _, Some (ReadOk (Some read_value))) \<Rightarrow>
          if \<not> json_eq read_value state \<and> state \<noteq> JNull then False else is_linearizable state ops
      | (OpCas _ old new, Some (CasOk success)) \<Rightarrow>
          if success then (if json_eq state old then is_linearizable new ops else False)
          else is_linearizable state ops
      | _ \<Rightarrow> is_linearizable state ops)"

definition check_key_linearizability :: "operation list \<Rightarrow> violation option" where
  "check_key_linearizability ops =
     (let sorted_ops = sort_key jo_invoke ops
      in if is_linearizable JNull sorted_ops then None
         else Some \<lparr>vn_type = LinearizabilityViolation, vn_operations = map jo_id sorted_ops\<rparr>)"

text \<open>The key of an operation on a single register.\<close>

fun register_key :: "operation_type \<Rightarrow> string option" where
  "register_key (OpRead key) = Some key"
| "register_key (OpWrite key _) = Some key"
| "register_key (OpCas key _ _) = Some key"
| "register_key _ = None"

definition group_by_key :: "operation list \<Rightarrow> (string \<times> operation list) list" where
  "group_by_key ops =
     fold (\<lambda>op m. case register_key (jo_op op) of None \<Rightarrow> m | Some key \<Rightarrow> hm_push key op m) ops []"

definition find_linearizability_violations ::
  "((string \<times> operation list) list \<Rightarrow> (string \<times> operation list) list) \<Rightarrow> operation list \<Rightarrow> violation list"
where
  "find_linearizability_violations ord ops =
     List.map_filter (\<lambda>(key, key_operations). check_key_linearizability key_operations) (ord (group_by_key ops))"

definition linearizability_check ::
  "((string \<times> operation list) list \<Rightarrow> (string \<times> operation list) list) \<Rightarrow> nat \<Rightarrow> history \<Rightarrow> checker_result"
where
  "linearizability_check ord duration h =
     (let ops = filter (\<lambda>op. jo_complete op \<noteq> None) (filter (\<lambda>op. register_key (jo_op op) \<noteq> None) (hy_operations h));
          violations = find_linearizability_violations ord ops
      in \<lparr>cr_valid = (violations = []), cr_model = Linearizability, cr_violations = violations,
          cr_metadata = \<lparr>cm_check_duration = duration, cm_operations_analyzed = length ops, cm_stats = []\<rparr>\<rparr>)"

subsection \<open>The serializability checker\<close>

fun txn_key :: "transaction_op \<Rightarrow> string" where
  "txn_key (TxnRead key) = key"
| "txn_key (TxnWrite key _) = key"

definition has_dependency :: "operation \<Rightarrow> operation \<Rightarrow> bool" where
  "has_dependency op1 op2 =
     (case (jo_op op1, jo_op op2) of
        (OpTransaction ops1, OpTransaction ops2) \<Rightarrow>
          set (map txn_key ops1) \<inter> set (map txn_key ops2) \<noteq> {}
      | _ \<Rightarrow> False)"

type_synonym dependency_graph = "(uuid \<times> uuid list) list"

fun dependencies_from :: "operation list \<Rightarrow> dependency_graph \<Rightarrow> dependency_graph" where
  "dependencies_from [] graph = graph"
| "dependencies_from (op1 # rest) graph =
     dependencies_from rest
       (fold (\<lambda>op2 g. if has_dependency op1 op2 then hm_push (jo_id op1) (jo_id op2) g else g) rest graph)"

definition build_dependency_graph :: "operation list \<Rightarrow> dependency_graph" where
  "build_dependency_graph ops = dependencies_from ops []"

text \<open>
  The depth-first search for a cycle.  Its state are the visited nodes, the nodes of the recursion and the
  path; it ends with a cycle (\<open>Inl\<close>) or a new state.  The loop over the neighbours of a node calls
  itself for the neighbours of an unvisited neighbour, as the source does through \<open>dfs_cycle\<close> below.
\<close>

type_synonym 'n dfs_state = "'n set \<times> 'n set \<times> 'n list"

definition dfs_enter :: "'n \<Rightarrow> 'n dfs_state \<Rightarrow> 'n dfs_state" where
  "dfs_enter n st = (case st of (visited, rec_stack, path) \<Rightarrow> (insert n visited, insert n rec_stack, path @ [n]))"

definition dfs_leave :: "'n \<Rightarrow> 'n dfs_state \<Rightarrow> 'n dfs_state" where
  "dfs_leave n st = (case st of (visited, rec_stack, path) \<Rightarrow> (visited, rec_stack - {n}, butlast path))"

definition cycle_at :: "'n \<Rightarrow> 'n list \<Rightarrow> 'n list option" where
  "cycle_at n path = (if n \<in> set path then Some (dropWhile (\<lambda>x. x \<noteq> n) path) else None)"

function dfs_neighbors ::
  "('n \<times> 'n list) list \<Rightarrow> 'n list \<Rightarrow> 'n dfs_state \<Rightarrow> ('n list + 'n dfs_state) option"
where
  "dfs_neighbors graph [] st = Some (Inr st)"
| "dfs_neighbors graph (n # ns) st =
     (if n \<notin> fst st
      then (case dfs_neighbors graph (hm_list graph n) (dfs_enter n st) of
              None \<Rightarrow> None
            | Some (Inl cycle) \<Rightarrow> Some (Inl cycle)
            | Some (Inr st') \<Rightarrow> dfs_neighbors graph ns (dfs_leave n st'))
      else if n \<in> fst (snd st)
      then (case cycle_at n (snd (snd st)) of None \<Rightarrow> None | Some cycle \<Rightarrow> Some (Inl cycle))
      else dfs_neighbors graph ns st)"
  by pat_completeness auto

lemma dfs_enter_visited [simp]: "fst (dfs_enter n st) = insert n (fst st)"
  by (simp add: dfs_enter_def split: prod.split)

lemma dfs_leave_visited [simp]: "fst (dfs_leave n st) = fst st"
  by (simp add: dfs_leave_def split: prod.split)

text \<open>The nodes that edges lead to; the search only enters these and the ones it is called with.\<close>

definition targets :: "('n \<times> 'n list) list \<Rightarrow> 'n set" where
  "targets graph = \<Union> (set ` snd ` set graph)"

lemma finite_targets [simp]: "finite (targets graph)"
  by (simp add: targets_def)

lemma neighbors_in_targets: "set (hm_list graph n) \<subseteq> targets graph"
proof (cases "hm_get graph n")
  case (Some ns)
  then have "(n, ns) \<in> set graph" by (rule hm_get_mem)
  then show ?thesis using Some by (force simp: hm_list_def targets_def)
qed (simp add: hm_list_def)

lemma dfs_visited_grows:
  "dfs_neighbors_dom (graph, ns, st) \<Longrightarrow> dfs_neighbors graph ns st = Some (Inr st') \<Longrightarrow> fst st \<subseteq> fst st'"
proof (induction graph ns st arbitrary: st' rule: dfs_neighbors.pinduct)
  case (1 graph st)
  then show ?case by (simp add: dfs_neighbors.psimps)
next
  case (2 graph n ns st)
  note eq = 2(5) [unfolded dfs_neighbors.psimps(2) [OF 2(1)]]
  consider "n \<notin> fst st" | "n \<in> fst st" "n \<in> fst (snd st)" | "n \<in> fst st" "n \<notin> fst (snd st)" by blast
  then show ?case
  proof cases
    case 1
    then obtain st1 where st1: "dfs_neighbors graph (hm_list graph n) (dfs_enter n st) = Some (Inr st1)"
      "dfs_neighbors graph ns (dfs_leave n st1) = Some (Inr st')"
      using eq by (simp split: option.splits sum.splits)
    have "insert n (fst st) \<subseteq> fst st1" using 2(2) [OF 1 st1(1)] by simp
    moreover have "fst st1 \<subseteq> fst st'" using 2(3) [OF 1 st1(1) refl st1(2)] by simp
    ultimately show ?thesis by blast
  next
    case 2
    then show ?thesis using eq by (simp split: option.splits)
  next
    case 3
    then show ?thesis using eq 2(4) by simp
  qed
qed

termination dfs_neighbors
proof (relation "inv_image (finite_psubset <*lex*> less_than)
    (\<lambda>(graph, ns, st). ((targets graph \<union> set ns) - fst st, length ns))", goal_cases)
  case 1 show ?case by auto
next
  case (2 graph n ns st)
  then show ?case using neighbors_in_targets [of graph n] by (auto simp: finite_psubset_def)
next
  case (3 graph n ns st r st')
  then have "insert n (fst st) \<subseteq> fst st'" using dfs_visited_grows [of graph "hm_list graph n" "dfs_enter n st" st'] by simp
  then show ?case using 3(1) by (auto simp: finite_psubset_def)
next
  case (4 graph n ns st)
  then have "(targets graph \<union> set ns) - fst st = (targets graph \<union> set (n # ns)) - fst st" by auto
  then show ?case by simp
qed

text \<open>The recursive function of the source.\<close>

definition dfs_cycle ::
  "'n \<Rightarrow> ('n \<times> 'n list) list \<Rightarrow> 'n dfs_state \<Rightarrow> ('n list + 'n dfs_state) option"
where
  "dfs_cycle node graph st =
     (case dfs_neighbors graph (hm_list graph node) (dfs_enter node st) of
        None \<Rightarrow> None
      | Some (Inl cycle) \<Rightarrow> Some (Inl cycle)
      | Some (Inr st') \<Rightarrow> Some (Inr (dfs_leave node st')))"

lemma dfs_neighbors_calls_dfs_cycle:
  "n \<notin> fst st \<Longrightarrow> dfs_neighbors graph (n # ns) st =
     (case dfs_cycle n graph st of
        None \<Rightarrow> None | Some (Inl cycle) \<Rightarrow> Some (Inl cycle) | Some (Inr st') \<Rightarrow> dfs_neighbors graph ns st')"
  by (auto simp: dfs_cycle_def split: option.split sum.split)

text \<open>The loop over the nodes: a cycle if there is one, \<open>None\<close> if it panics.\<close>

fun find_cycle_from :: "'n list \<Rightarrow> ('n \<times> 'n list) list \<Rightarrow> 'n dfs_state \<Rightarrow> 'n list option option" where
  "find_cycle_from [] graph st = Some None"
| "find_cycle_from (node # nodes) graph st =
     (if node \<notin> fst st
      then (case dfs_cycle node graph st of
              None \<Rightarrow> None
            | Some (Inl cycle) \<Rightarrow> Some (Some cycle)
            | Some (Inr st') \<Rightarrow> find_cycle_from nodes graph st')
      else find_cycle_from nodes graph st)"

definition find_cycle :: "('n list \<Rightarrow> 'n list) \<Rightarrow> ('n \<times> 'n list) list \<Rightarrow> 'n list option option" where
  "find_cycle ord graph = find_cycle_from (ord (map fst graph)) graph ({}, {}, [])"

definition find_serializability_violations ::
  "(uuid list \<Rightarrow> uuid list) \<Rightarrow> bool \<Rightarrow> operation list \<Rightarrow> violation list option"
where
  "find_serializability_violations ord strict ops =
     (case find_cycle ord (build_dependency_graph ops) of
        None \<Rightarrow> None
      | Some None \<Rightarrow> Some []
      | Some (Some cycle) \<Rightarrow>
          Some [\<lparr>vn_type = (if strict then StrictSerializabilityViolation else SerializabilityViolation),
                 vn_operations = cycle\<rparr>])"

fun is_transaction :: "operation_type \<Rightarrow> bool" where
  "is_transaction (OpTransaction _) = True"
| "is_transaction _ = False"

definition serializability_check ::
  "(uuid list \<Rightarrow> uuid list) \<Rightarrow> bool \<Rightarrow> nat \<Rightarrow> history \<Rightarrow> checker_result option"
where
  "serializability_check ord strict duration h =
     (let txn_ops = filter (\<lambda>op. jo_complete op \<noteq> None) (filter (\<lambda>op. is_transaction (jo_op op)) (hy_operations h))
      in map_option (\<lambda>violations.
           \<lparr>cr_valid = (violations = []), cr_model = (if strict then StrictSerializability else Serializability),
            cr_violations = violations,
            cr_metadata = \<lparr>cm_check_duration = duration, cm_operations_analyzed = length txn_ops, cm_stats = []\<rparr>\<rparr>)
         (find_serializability_violations ord strict txn_ops))"

subsection \<open>Keys and conflicts\<close>

text \<open>The functions of \<open>operations::analysis\<close>.\<close>

fun extract_keys :: "operation_type \<Rightarrow> string set" where
  "extract_keys (OpRead key) = {key}"
| "extract_keys (OpWrite key _) = {key}"
| "extract_keys (OpCas key _ _) = {key}"
| "extract_keys (OpTransaction ops) = set (map txn_key ops)"
| "extract_keys (OpAppend key _) = {key}"
| "extract_keys (OpSetAdd key _) = {key}"
| "extract_keys (OpIncrement key _) = {key}"

fun is_txn_write :: "transaction_op \<Rightarrow> bool" where
  "is_txn_write (TxnRead _) = False"
| "is_txn_write (TxnWrite _ _) = True"

fun is_write_operation :: "operation_type \<Rightarrow> bool" where
  "is_write_operation (OpRead _) = False"
| "is_write_operation (OpTransaction ops) = list_ex is_txn_write ops"
| "is_write_operation _ = True"

definition operations_conflict :: "operation_type \<Rightarrow> operation_type \<Rightarrow> bool" where
  "operations_conflict op1 op2 \<longleftrightarrow>
     extract_keys op1 \<inter> extract_keys op2 \<noteq> {} \<and> (is_write_operation op1 \<or> is_write_operation op2)"

text \<open>The order in which the keys of one operation are visited does not matter: the groups are distinct.\<close>

definition group_by_keys :: "(string set \<Rightarrow> string list) \<Rightarrow> operation list \<Rightarrow> (string \<times> operation list) list" where
  "group_by_keys ord ops = fold (\<lambda>op m. fold (\<lambda>key. hm_push key op) (ord (extract_keys (jo_op op))) m) ops []"

record operation_stats =
  os_total :: nat
  os_successful :: nat
  os_failed :: nat
  os_reads :: nat
  os_writes :: nat
  os_cas_ops :: nat
  os_transactions :: nat
  os_appends :: nat
  os_set_adds :: nat
  os_increments :: nat

definition count_operation :: "operation \<Rightarrow> operation_stats \<Rightarrow> operation_stats" where
  "count_operation op s =
     (let s1 = (case jo_op op of
                  OpRead _ \<Rightarrow> s\<lparr>os_reads := os_reads s + 1\<rparr>
                | OpWrite _ _ \<Rightarrow> s\<lparr>os_writes := os_writes s + 1\<rparr>
                | OpCas _ _ _ \<Rightarrow> s\<lparr>os_cas_ops := os_cas_ops s + 1\<rparr>
                | OpTransaction _ \<Rightarrow> s\<lparr>os_transactions := os_transactions s + 1\<rparr>
                | OpAppend _ _ \<Rightarrow> s\<lparr>os_appends := os_appends s + 1\<rparr>
                | OpSetAdd _ _ \<Rightarrow> s\<lparr>os_set_adds := os_set_adds s + 1\<rparr>
                | OpIncrement _ _ \<Rightarrow> s\<lparr>os_increments := os_increments s + 1\<rparr>)
      in if jo_result op \<noteq> None then s1\<lparr>os_successful := os_successful s1 + 1\<rparr>
         else if jo_error op \<noteq> None then s1\<lparr>os_failed := os_failed s1 + 1\<rparr>
         else s1)"

definition calculate_stats :: "operation list \<Rightarrow> operation_stats" where
  "calculate_stats ops =
     (fold count_operation ops
       \<lparr>os_total = 0, os_successful = 0, os_failed = 0, os_reads = 0, os_writes = 0, os_cas_ops = 0,
        os_transactions = 0, os_appends = 0, os_set_adds = 0, os_increments = 0\<rparr>)\<lparr>os_total := length ops\<rparr>"

end
