(* ===== verification/JepsenClaims.thy ===== *)
theory JepsenClaims
  imports Jepsen "HOL-Library.Multiset"
begin

text \<open>
  The properties of the test harness: what its checkers find and what they miss.
\<close>

subsection \<open>The search for a cycle\<close>

definition edges :: "('n \<times> 'n list) list \<Rightarrow> ('n \<times> 'n) set" where
  "edges graph = {(a, b). b \<in> set (hm_list graph a)}"

text \<open>A closed walk along the edges.\<close>

definition is_cycle :: "('n \<times> 'n list) list \<Rightarrow> 'n list \<Rightarrow> bool" where
  "is_cycle graph c \<longleftrightarrow> c \<noteq> [] \<and> successively (\<lambda>a b. (a, b) \<in> edges graph) c \<and> (last c, hd c) \<in> edges graph"

text \<open>
  The invariant of the search: the recursion is the path, the finished nodes lead to finished ones only
  and have no cycle among them.
\<close>

definition dfs_ok :: "('n \<times> 'n list) list \<Rightarrow> 'n dfs_state \<Rightarrow> bool" where
  "dfs_ok graph st \<longleftrightarrow>
     (case st of (visited, rec_stack, path) \<Rightarrow>
        rec_stack = set path \<and> distinct path \<and> rec_stack \<subseteq> visited \<and>
        successively (\<lambda>a b. (a, b) \<in> edges graph) path \<and>
        edges graph `` (visited - rec_stack) \<subseteq> visited - rec_stack \<and>
        acyclic (edges graph \<inter> (visited - rec_stack) \<times> (visited - rec_stack)))"

lemma trancl_stays:
  assumes "(a, b) \<in> (E \<inter> B \<times> B)\<^sup>+" and "a \<in> F" and "E `` F \<subseteq> F"
  shows "(a, b) \<in> (E \<inter> F \<times> F)\<^sup>+ \<and> b \<in> F"
  using assms(1)
proof (induction rule: trancl_induct)
  case (base y)
  then show ?case using assms(2,3) by auto
next
  case (step y z)
  then have "(y, z) \<in> E \<inter> F \<times> F" using assms(3) by auto
  with step.IH show ?case by (meson IntD2 SigmaD2 trancl.trancl_into_trancl)
qed

lemma acyclic_finish:
  assumes ac: "acyclic (E \<inter> F \<times> F)" and closed: "E `` F \<subseteq> F" and new: "x \<notin> F" "E `` {x} \<subseteq> F"
  shows "acyclic (E \<inter> insert x F \<times> insert x F)"
proof (rule acyclicI, rule allI, rule notI)
  fix y
  assume y: "(y, y) \<in> (E \<inter> insert x F \<times> insert x F)\<^sup>+"
  show False
  proof (cases "y \<in> F")
    case True
    then show False using trancl_stays [OF y True closed] ac by (simp add: acyclic_def)
  next
    case False
    let ?R = "E \<inter> insert x F \<times> insert x F"
    obtain z where z: "(y, z) \<in> ?R" "(z, y) \<in> ?R\<^sup>*" using y by (blast dest: tranclD)
    have yx: "y = x" using z(1) False by blast
    have zF: "z \<in> F" using z(1) new(2) yx by blast
    then have "(z, y) \<in> ?R\<^sup>+" using z(2) False by (metis rtranclD)
    then have "y \<in> F" using trancl_stays [OF _ zF closed] by blast
    with False show False by blast
  qed
qed

lemma dfs_ok_enter:
  assumes "dfs_ok graph st" and "n \<notin> fst st" and "snd (snd st) = [] \<or> (last (snd (snd st)), n) \<in> edges graph"
  shows "dfs_ok graph (dfs_enter n st)"
proof -
  obtain v r p where st: "st = (v, r, p)" by (cases st) auto
  have "insert n v - insert n r = v - r" using assms by (auto simp: st dfs_ok_def)
  then show ?thesis using assms by (auto simp: st dfs_ok_def dfs_enter_def successively_append_iff)
qed

lemma dfs_ok_leave:
  assumes "dfs_ok graph st" and "snd st = (insert n r, p @ [n])" and "n \<notin> r" and "r = set p"
    and "set (hm_list graph n) \<subseteq> fst st - insert n r"
  shows "dfs_ok graph (dfs_leave n st)" "snd (dfs_leave n st) = (r, p)"
proof -
  obtain v where st: "st = (v, insert n r, p @ [n])" using assms(2) by (cases st) auto
  let ?F = "v - insert n r"
  have ok: "distinct (p @ [n])" "insert n r \<subseteq> v" "successively (\<lambda>a b. (a, b) \<in> edges graph) (p @ [n])"
    and closed: "edges graph `` ?F \<subseteq> ?F" and ac: "acyclic (edges graph \<inter> ?F \<times> ?F)"
    using assms(1,4) by (simp_all add: st dfs_ok_def)
  have nb: "edges graph `` {n} \<subseteq> ?F" using assms(5) by (auto simp: st edges_def)
  have F: "v - r = insert n ?F" using ok(2) assms(3) by blast
  have "acyclic (edges graph \<inter> (v - r) \<times> (v - r))"
    unfolding F by (rule acyclic_finish [OF ac closed _ nb]) simp
  moreover have "edges graph `` (v - r) \<subseteq> v - r" unfolding F using closed nb by blast
  moreover have "dfs_leave n st = (v, r, p)" using assms(3) by (simp add: st dfs_leave_def)
  ultimately show "dfs_ok graph (dfs_leave n st)"
    using ok assms(4) by (simp add: dfs_ok_def successively_append_iff)
  show "snd (dfs_leave n st) = (r, p)" using assms(3) by (simp add: st dfs_leave_def)
qed

lemma cycle_at_is_cycle:
  assumes "dfs_ok graph (v, r, p)" and "n \<in> r" and "(last p, n) \<in> edges graph"
  shows "\<exists>c. cycle_at n p = Some c \<and> is_cycle graph c"
proof -
  let ?c = "dropWhile (\<lambda>x. x \<noteq> n) p"
  have n: "n \<in> set p" using assms(1,2) by (simp add: dfs_ok_def)
  then have ne: "?c \<noteq> []" by (simp add: dropWhile_eq_Nil_conv)
  then have hd: "hd ?c = n" using hd_dropWhile [of "\<lambda>x. x \<noteq> n" p] by simp
  have split: "p = takeWhile (\<lambda>x. x \<noteq> n) p @ ?c" by simp
  then have lst: "last ?c = last p" using ne by (metis last_appendR)
  have "successively (\<lambda>a b. (a, b) \<in> edges graph) p" using assms(1) by (simp add: dfs_ok_def)
  then have "successively (\<lambda>a b. (a, b) \<in> edges graph) ?c" by (subst (asm) split, simp only: successively_append_iff)
  then show ?thesis using n ne hd lst assms(3) by (simp add: cycle_at_def is_cycle_def)
qed

lemma dfs_neighbors_correct:
  assumes "dfs_ok graph st" and "\<forall>n \<in> set ns. snd (snd st) = [] \<or> (last (snd (snd st)), n) \<in> edges graph"
    and "set ns \<inter> fst (snd st) \<noteq> {} \<longrightarrow> snd (snd st) \<noteq> []"
  shows "case dfs_neighbors graph ns st of
      None \<Rightarrow> False
    | Some (Inl c) \<Rightarrow> is_cycle graph c
    | Some (Inr st') \<Rightarrow> dfs_ok graph st' \<and> snd st' = snd st \<and> fst st \<union> set ns \<subseteq> fst st' \<and> set ns \<inter> fst (snd st) = {}"
  using assms
proof (induction graph ns st rule: dfs_neighbors.induct)
  case (1 graph st)
  then show ?case by simp
next
  case (2 graph n ns st)
  obtain v r p where st: "st = (v, r, p)" by (cases st) auto
  have ok: "r = set p" "r \<subseteq> v" using 2(4) by (auto simp: st dfs_ok_def)
  consider "n \<notin> v" | "n \<in> v" "n \<in> r" | "n \<in> v" "n \<notin> r" by blast
  then show ?case
  proof cases
    case 1
    have n: "n \<notin> fst st" using 1 by (simp add: st)
    have nr: "n \<notin> r" using 1 ok by blast
    have enter: "dfs_ok graph (dfs_enter n st)" by (rule dfs_ok_enter [OF 2(4) n]) (use 2(5) in auto)
    have IH: "case dfs_neighbors graph (hm_list graph n) (dfs_enter n st) of
        None \<Rightarrow> False
      | Some (Inl c) \<Rightarrow> is_cycle graph c
      | Some (Inr st') \<Rightarrow> dfs_ok graph st' \<and> snd st' = (insert n r, p @ [n]) \<and>
          insert n v \<union> set (hm_list graph n) \<subseteq> fst st' \<and> set (hm_list graph n) \<inter> insert n r = {}"
      using 2(1) [OF n enter] by (auto simp: st dfs_enter_def edges_def split: option.splits sum.splits)
    show ?thesis
    proof (cases "dfs_neighbors graph (hm_list graph n) (dfs_enter n st)")
      case None
      then show ?thesis using IH by simp
    next
      case (Some x)
      show ?thesis
      proof (cases x)
        case (Inl c)
        then show ?thesis using IH Some n by simp
      next
        case (Inr st1)
        then have st1: "dfs_ok graph st1" "snd st1 = (insert n r, p @ [n])"
            "insert n v \<union> set (hm_list graph n) \<subseteq> fst st1" "set (hm_list graph n) \<inter> insert n r = {}"
          using IH Some by simp_all
        have "set (hm_list graph n) \<subseteq> fst st1 - insert n r" using st1(3,4) by blast
        note leave = dfs_ok_leave [OF st1(1,2) nr ok(1) this]
        have "dfs_neighbors graph (n # ns) st = dfs_neighbors graph ns (dfs_leave n st1)"
          using n Some Inr by simp
        moreover have "\<forall>m \<in> set ns. snd (snd (dfs_leave n st1)) = [] \<or> (last (snd (snd (dfs_leave n st1))), m) \<in> edges graph"
          using 2(5) leave(2) by (auto simp: st)
        moreover have "set ns \<inter> fst (snd (dfs_leave n st1)) \<noteq> {} \<longrightarrow> snd (snd (dfs_leave n st1)) \<noteq> []"
          using 2(6) leave(2) by (simp add: st)
        ultimately show ?thesis
          using 2(2) [OF n Some Inr leave(1)] leave(2) st1(3) nr
          by (auto simp: st split: option.splits sum.splits)
      qed
    qed
  next
    case seen: 2
    then have "p \<noteq> []" using ok by auto
    then have "(last p, n) \<in> edges graph" using 2(5) by (simp add: st)
    then obtain c where "cycle_at n p = Some c" "is_cycle graph c"
      using cycle_at_is_cycle [of graph v r p n] 2(4) seen(2) by (auto simp: st)
    then show ?thesis using seen by (simp add: st)
  next
    case 3
    have f: "n \<in> fst st" "n \<notin> fst (snd st)" using 3 by (simp_all add: st)
    have "\<forall>m \<in> set ns. snd (snd st) = [] \<or> (last (snd (snd st)), m) \<in> edges graph" using 2(5) by auto
    moreover have "set ns \<inter> fst (snd st) \<noteq> {} \<longrightarrow> snd (snd st) \<noteq> []" using 2(6) by auto
    ultimately show ?thesis
      using 2(3) [of] f 2(4) by (auto split: option.splits sum.splits)
  qed
qed


lemma find_cycle_from_correct:
  assumes "dfs_ok graph st" and "snd st = ({}, [])"
  shows "case find_cycle_from nodes graph st of
      None \<Rightarrow> False
    | Some None \<Rightarrow> \<exists>v. dfs_ok graph (v, {}, []) \<and> fst st \<union> set nodes \<subseteq> v
    | Some (Some c) \<Rightarrow> is_cycle graph c"
  using assms
proof (induction nodes graph st rule: find_cycle_from.induct)
  case (1 graph st)
  then show ?case by (cases st) auto
next
  case (2 n nodes graph st)
  show ?case
  proof (cases "n \<in> fst st")
    case True
    then show ?thesis using 2(2) [OF _ 2(3,4)] by (auto split: option.splits)
  next
    case False
    have step: "dfs_neighbors graph [n] st =
        (case dfs_cycle n graph st of
           None \<Rightarrow> None | Some (Inl cycle) \<Rightarrow> Some (Inl cycle) | Some (Inr st') \<Rightarrow> Some (Inr st'))"
      using False by (simp add: dfs_cycle_def split: option.split sum.split)
    have "case dfs_neighbors graph [n] st of
        None \<Rightarrow> False
      | Some (Inl c) \<Rightarrow> is_cycle graph c
      | Some (Inr st') \<Rightarrow> dfs_ok graph st' \<and> snd st' = snd st \<and> fst st \<union> set [n] \<subseteq> fst st' \<and> set [n] \<inter> fst (snd st) = {}"
      by (rule dfs_neighbors_correct) (use 2(3,4) in auto)
    then show ?thesis
      unfolding step using False 2(1) [OF False] 2(4)
      by (fastforce split: option.splits sum.splits)
  qed
qed

lemma edges_key: "(a, b) \<in> edges graph \<Longrightarrow> a \<in> fst ` set graph"
  by (cases "hm_get graph a") (auto simp: edges_def hm_list_def hm_get_None_iff dest!: hm_get_mem intro: rev_image_eqI)

lemma find_cycle_correct:
  assumes "set (ord (map fst graph)) = set (map fst graph)"
  shows "case find_cycle ord graph of
      None \<Rightarrow> False
    | Some None \<Rightarrow> acyclic (edges graph)
    | Some (Some c) \<Rightarrow> is_cycle graph c"
proof -
  have start: "dfs_ok graph ({}, {}, [])" by (simp add: dfs_ok_def acyclic_def)
  note found = find_cycle_from_correct [OF start, of "ord (map fst graph)"]
  have "acyclic (edges graph)" if v: "dfs_ok graph (v, {}, [])" "set (map fst graph) \<subseteq> v" for v
  proof -
    have "edges graph \<subseteq> v \<times> v"
    proof (rule subrelI)
      fix a b
      assume ab: "(a, b) \<in> edges graph"
      then have "a \<in> v" using edges_key v(2) by fastforce
      moreover have "edges graph `` v \<subseteq> v" using v(1) by (simp add: dfs_ok_def)
      ultimately show "(a, b) \<in> v \<times> v" using ab by blast
    qed
    then have "edges graph \<inter> v \<times> v = edges graph" by blast
    then show ?thesis using v(1) by (simp add: dfs_ok_def)
  qed
  then show ?thesis
    using found unfolding find_cycle_def assms by (fastforce split: option.splits)
qed

text \<open>
  C21.  The search for a cycle is exact: it never panics, what it returns is a closed walk along the edges, and
  it returns nothing only for a graph without cycles.
\<close>

theorem find_cycle_exact:
  assumes "set (ord (map fst graph)) = set (map fst graph)"
  shows "case find_cycle ord graph of
      None \<Rightarrow> False
    | Some None \<Rightarrow> acyclic (edges graph)
    | Some (Some c) \<Rightarrow> is_cycle graph c"
  using assms by (rule find_cycle_correct)

theorem find_cycle_exact_witness:
  "find_cycle (\<lambda>ns. ns) [(1, [2]), (2, [1 :: uuid])] = Some (Some [1, 2]) \<and>
   is_cycle [(1, [2]), (2, [1 :: uuid])] [1, 2]"
proof -
  have "find_cycle (\<lambda>ns. ns) [(1, [2]), (2, [1 :: uuid])] = Some (Some [1, 2])"
    by (simp add: find_cycle_def dfs_cycle_def hm_list_def hm_get_def dfs_enter_def cycle_at_def)
  then show ?thesis using find_cycle_exact [of "\<lambda>ns. ns" "[(1, [2]), (2, [1 :: uuid])]"] by simp
qed

subsection \<open>Serializability\<close>

lemma edges_push [simp]: "edges (hm_push a b graph) = insert (a, b) (edges graph)"
  by (auto simp: edges_def hm_list_def hm_push_def split: option.splits if_splits)

text \<open>The pairs of elements in the order of a list.\<close>

fun before :: "'a list \<Rightarrow> ('a \<times> 'a) set" where
  "before [] = {}"
| "before (x # xs) = {x} \<times> set xs \<union> before xs"

lemma before_set: "before xs \<subseteq> set xs \<times> set xs"
  by (induction xs) auto

lemma acyclic_before: "distinct xs \<Longrightarrow> acyclic (before xs)"
proof (induction xs)
  case Nil
  then show ?case by (simp add: acyclic_def)
next
  case (Cons x xs)
  note sub = before_set [of xs]
  have "(a, b) \<in> (before (x # xs))\<^sup>+ \<Longrightarrow> b \<in> set xs \<and> (a \<in> set xs \<longrightarrow> (a, b) \<in> (before xs)\<^sup>+)" for a b
  proof (induction rule: trancl_induct)
    case (base b)
    then show ?case using sub Cons.prems by auto
  next
    case (step b c)
    then show ?case using sub Cons.prems by (auto intro: trancl.trancl_into_trancl)
  qed
  then show ?case using Cons by (fastforce simp: acyclic_def)
qed

lemma edges_dependencies: "edges (dependencies_from ops graph) \<subseteq> edges graph \<union> before (map jo_id ops)"
proof (induction ops graph rule: dependencies_from.induct)
  case (2 op1 rest graph)
  let ?add = "\<lambda>op2 g. if has_dependency op1 op2 then hm_push (jo_id op1) (jo_id op2) g else g"
  have "edges (fold ?add ops graph) \<subseteq> edges graph \<union> {jo_id op1} \<times> set (map jo_id ops)" for ops
  proof (induction ops arbitrary: graph)
    case (Cons a ops)
    have "edges (?add a graph) \<subseteq> edges graph \<union> {(jo_id op1, jo_id a)}" by auto
    with Cons [of "?add a graph"] show ?case unfolding fold_Cons comp_apply by (fastforce simp del: edges_push)
  qed simp
  from this [of rest] 2 show ?case by auto
qed simp

text \<open>
  The serializability checker accepts every history.  Dependencies are only drawn from an earlier to a later
  transaction of the list, so that there is no cycle to find, whatever the transactions read and wrote.
\<close>

theorem serializability_check_accepts_everything:
  assumes "distinct (map jo_id (hy_operations h))" and "\<forall>ns. set (ord ns) = set ns"
  shows "\<exists>r. serializability_check ord strict duration h = Some r \<and> cr_valid r \<and> cr_violations r = []"
proof -
  let ?ops = "filter (\<lambda>op. jo_complete op \<noteq> None) (filter (\<lambda>op. is_transaction (jo_op op)) (hy_operations h))"
  let ?g = "build_dependency_graph ?ops"
  have d: "distinct (map jo_id ?ops)" using assms(1) by (simp add: distinct_map_filter)
  have sub: "edges ?g \<subseteq> before (map jo_id ?ops)"
    using edges_dependencies [of ?ops "[]"] by (simp add: build_dependency_graph_def edges_def hm_list_def)
  have ac: "acyclic (edges ?g)" by (rule acyclic_subset [OF acyclic_before [OF d] sub])
  have no: "\<not> is_cycle ?g c" for c
  proof
    assume "is_cycle ?g c"
    then have c: "c \<noteq> []" "successively (\<lambda>a b. (a, b) \<in> edges ?g) c" "(last c, hd c) \<in> edges ?g"
      by (simp_all add: is_cycle_def)
    have "successively (\<lambda>a b. (a, b) \<in> edges ?g) c \<Longrightarrow> c \<noteq> [] \<Longrightarrow> (hd c, last c) \<in> (edges ?g)\<^sup>*"
      by (induction c rule: induct_list012) (auto intro: converse_rtrancl_into_rtrancl)
    then have "(hd c, last c) \<in> (edges ?g)\<^sup>*" using c by blast
    then have "(hd c, hd c) \<in> (edges ?g)\<^sup>+" using c(3) by (rule rtrancl_into_trancl1)
    then show False using ac by (simp add: acyclic_def)
  qed
  have "find_cycle ord ?g = Some None"
    using find_cycle_correct [of ord ?g] assms(2) no by (auto split: option.splits)
  then show ?thesis
    by (simp add: serializability_check_def find_serializability_violations_def Let_def)
qed

text \<open>The runs of a transaction on a store, and the histories that some serial order explains.\<close>

definition same_value :: "json option \<Rightarrow> json option \<Rightarrow> bool" where
  "same_value x y = (case (x, y) of (None, None) \<Rightarrow> True | (Some a, Some b) \<Rightarrow> json_eq a b | _ \<Rightarrow> False)"

fun txn_run :: "(string \<rightharpoonup> json) \<Rightarrow> transaction_op list \<Rightarrow> json option list \<Rightarrow> (string \<rightharpoonup> json) option" where
  "txn_run m [] [] = Some m"
| "txn_run m (TxnRead key # ops) (r # rs) = (if same_value r (m key) then txn_run m ops rs else None)"
| "txn_run m (TxnWrite key value # ops) (r # rs) = txn_run (m(key \<mapsto> value)) ops rs"
| "txn_run m _ _ = None"

fun serial_run :: "(string \<rightharpoonup> json) \<Rightarrow> operation list \<Rightarrow> bool" where
  "serial_run m [] = True"
| "serial_run m (op # ops) =
     (case (jo_op op, jo_result op) of
        (OpTransaction txn, Some (TransactionOk rs)) \<Rightarrow>
          (case txn_run m txn rs of None \<Rightarrow> False | Some m' \<Rightarrow> serial_run m' ops)
      | _ \<Rightarrow> False)"

definition serializable :: "operation list \<Rightarrow> bool" where
  "serializable ops \<longleftrightarrow> (\<exists>p. mset p = mset ops \<and> serial_run Map.empty p)"

text \<open>Two transactions that both find the key empty and then write it.\<close>

definition lost_update :: history where
  "lost_update =
     (let txn = (\<lambda>i v. \<lparr>jo_id = i, jo_process = 0, jo_op = OpTransaction [TxnRead ''x'', TxnWrite ''x'' v],
            jo_invoke = 1, jo_complete = Some 2, jo_result = Some (TransactionOk [None, Some (JBool True)]),
            jo_error = None\<rparr>)
      in \<lparr>hy_operations = [txn 1 (JBool True), txn 2 (JBool False)],
          hy_metadata = \<lparr>hd_config = jepsen_config_default, hd_start_time = 0, hd_end_time = 3, hd_total_ops = 2,
            hd_successful_ops = 2, hd_failed_ops = 0, hd_faults_injected = []\<rparr>\<rparr>)"

lemma lost_update_not_serializable: "\<not> serializable (hy_operations lost_update)"
proof
  assume "serializable (hy_operations lost_update)"
  then obtain p where p: "mset p = mset (hy_operations lost_update)" "serial_run Map.empty p"
    by (auto simp: serializable_def)
  then have "length p = 2" using mset_eq_length [OF p(1)] by (simp add: lost_update_def)
  then obtain a b where ab: "p = [a, b]" by (auto simp: length_Suc_conv eval_nat_numeral)
  then have "a \<in> set (hy_operations lost_update)" "b \<in> set (hy_operations lost_update)"
    using mset_eq_setD [OF p(1)] by auto
  then show False
    using p(2) ab by (auto simp: lost_update_def same_value_def split: if_splits)
qed

theorem serializability_check_accepts_everything_witness:
  "\<not> serializable (hy_operations lost_update) \<and>
   (\<exists>r. serializability_check (\<lambda>ns. ns) True 0 lost_update = Some r \<and> cr_valid r \<and> cr_violations r = [])"
  using lost_update_not_serializable serializability_check_accepts_everything [of lost_update "\<lambda>ns. ns" True 0]
  by (simp add: lost_update_def)

subsection \<open>Linearizability\<close>

text \<open>
  A history of one register is linearizable if some order of its operations respects their times and
  explains their results.
\<close>

fun register_run :: "json option \<Rightarrow> operation list \<Rightarrow> bool" where
  "register_run state [] = True"
| "register_run state (op # ops) =
     (case (jo_op op, jo_result op) of
        (OpWrite _ value, Some WriteOk) \<Rightarrow> register_run (Some value) ops
      | (OpRead _, Some (ReadOk r)) \<Rightarrow> same_value r state \<and> register_run state ops
      | (OpCas _ old new, Some (CasOk success)) \<Rightarrow>
          success = same_value state (Some old) \<and> register_run (if success then Some new else state) ops
      | _ \<Rightarrow> False)"

definition respects_time :: "operation list \<Rightarrow> bool" where
  "respects_time p \<longleftrightarrow>
     (\<forall>(a, b) \<in> before p. case jo_complete b of None \<Rightarrow> True | Some t \<Rightarrow> jo_invoke a \<le> t)"

definition linearizable :: "operation list \<Rightarrow> bool" where
  "linearizable ops \<longleftrightarrow> (\<exists>p. mset p = mset ops \<and> respects_time p \<and> register_run None p)"

text \<open>Operations whose results the checker looks at: acknowledged writes and successful swaps of values
  other than null, and reads that found a value.\<close>

fun conclusive :: "operation_type \<Rightarrow> operation_result option \<Rightarrow> bool" where
  "conclusive (OpWrite _ v) (Some WriteOk) \<longleftrightarrow> v \<noteq> JNull"
| "conclusive (OpRead _) (Some (ReadOk (Some _))) \<longleftrightarrow> True"
| "conclusive (OpCas _ _ new) (Some (CasOk True)) \<longleftrightarrow> new \<noteq> JNull"
| "conclusive _ _ \<longleftrightarrow> False"

lemma is_linearizable_run:
  assumes "state \<noteq> JNull" and "\<forall>op \<in> set ops. conclusive (jo_op op) (jo_result op)"
  shows "is_linearizable state ops \<longleftrightarrow> register_run (Some state) ops"
  using assms
proof (induction state ops rule: is_linearizable.induct)
  case (2 state op ops)
  then show ?case
    by (cases "(jo_op op, jo_result op)" rule: conclusive.cases) (auto simp: same_value_def)
qed simp

lemma sorted_respects_time:
  assumes "sorted (map jo_invoke p)" and "\<forall>op \<in> set p. \<exists>t. jo_complete op = Some t \<and> jo_invoke op \<le> t"
  shows "respects_time p"
  using assms by (induction p) (fastforce simp: respects_time_def)+

lemma hm_get_push [simp]:
  "hm_get (hm_push k v m) j = (if j = k then Some (hm_list m k @ [v]) else hm_get m j)"
  by (simp add: hm_push_def hm_list_def)

lemma hm_ok_push [simp]: "hm_ok m \<Longrightarrow> hm_ok (hm_push k v m)"
  by (simp add: hm_push_def)

abbreviation on_key :: "string \<Rightarrow> operation list \<Rightarrow> operation list" where
  "on_key key \<equiv> filter (\<lambda>op. register_key (jo_op op) = Some key)"

lemma group_by_key_get:
  "hm_ok (group_by_key ops) \<and>
   hm_get (group_by_key ops) key = (if on_key key ops = [] then None else Some (on_key key ops))"
proof -
  let ?add = "\<lambda>op m. case register_key (jo_op op) of None \<Rightarrow> m | Some key \<Rightarrow> hm_push key op m"
  have "hm_ok m \<Longrightarrow> hm_ok (fold ?add ops m) \<and>
      hm_get (fold ?add ops m) key =
        (if on_key key ops = [] then hm_get m key else Some (hm_list m key @ on_key key ops))" for m
    by (induction ops arbitrary: m) (auto simp: hm_list_def split: option.splits)
  from this [of "[]"] show ?thesis by (simp add: group_by_key_def hm_list_def)
qed

lemma group_by_key_all:
  assumes "P []"
  shows "(\<forall>e \<in> set (group_by_key ops). P (snd e)) \<longleftrightarrow> (\<forall>key. P (on_key key ops))"
proof -
  have ok: "hm_ok (group_by_key ops)" using group_by_key_get by blast
  have "(key, l) \<in> set (group_by_key ops) \<longleftrightarrow> on_key key ops \<noteq> [] \<and> l = on_key key ops" for key l
    unfolding hm_get_iff [OF ok, symmetric] using group_by_key_get [of ops key] by auto
  then have "(\<forall>e \<in> set (group_by_key ops). P (snd e)) \<longleftrightarrow> (\<forall>key. on_key key ops \<noteq> [] \<longrightarrow> P (on_key key ops))"
    by fastforce
  with assms show ?thesis by metis
qed

lemma map_filter_Nil_iff: "List.map_filter f xs = [] \<longleftrightarrow> (\<forall>x \<in> set xs. f x = None)"
  by (induction xs) (auto simp: List.map_filter_def split: option.splits)

lemma valid_iff_keys_linearizable:
  assumes "\<forall>m. set (ord m) = set m" and "\<forall>op \<in> set (hy_operations h). jo_complete op \<noteq> None"
  shows "cr_valid (linearizability_check ord duration h) \<longleftrightarrow>
    (\<forall>key. is_linearizable JNull (sort_key jo_invoke (on_key key (hy_operations h))))"
proof -
  let ?ops = "filter (\<lambda>op. jo_complete op \<noteq> None) (filter (\<lambda>op. register_key (jo_op op) \<noteq> None) (hy_operations h))"
  have keys: "on_key key ?ops = on_key key (hy_operations h)" for key
    using assms(2) by (auto intro!: filter_cong)
  have "cr_valid (linearizability_check ord duration h) \<longleftrightarrow>
      (\<forall>e \<in> set (group_by_key ?ops). is_linearizable JNull (sort_key jo_invoke (snd e)))"
    using assms(1)
    by (auto simp: linearizability_check_def find_linearizability_violations_def map_filter_Nil_iff
        check_key_linearizability_def Let_def split: if_splits)
  also have "\<dots> \<longleftrightarrow> (\<forall>key. is_linearizable JNull (sort_key jo_invoke (on_key key ?ops)))"
    by (rule group_by_key_all [where P = "\<lambda>l. is_linearizable JNull (sort_key jo_invoke l)"]) simp
  finally show ?thesis by (simp only: keys)
qed

text \<open>The first operation of a key, in the order of invocation, writes it.\<close>

definition starts_with_write :: "operation list \<Rightarrow> bool" where
  "starts_with_write ops \<longleftrightarrow>
     (case sort_key jo_invoke ops of [] \<Rightarrow> True | op # _ \<Rightarrow> (case jo_op op of OpWrite _ _ \<Rightarrow> True | _ \<Rightarrow> False))"

text \<open>
  C20.  Soundness.  In a history every operation is complete and conclusive: an acknowledged write or a successful
  swap of a value other than null, or a read that found a value; and the first operation of every key, by the time of
  its invocation, is a write.  If the linearizability checker accepts such a history, its operations on each key are
  linearizable.  Without these conditions the checker also accepts others (\<open>empty_read_accepted\<close>).
\<close>

theorem linearizability_check_sound:
  assumes "\<forall>m. set (ord m) = set m"
    and "\<forall>op \<in> set (hy_operations h). conclusive (jo_op op) (jo_result op) \<and> (\<exists>t. jo_complete op = Some t \<and> jo_invoke op \<le> t)"
    and "\<forall>key. starts_with_write (on_key key (hy_operations h))"
    and "cr_valid (linearizability_check ord duration h)"
  shows "linearizable (on_key key (hy_operations h))"
proof -
  let ?p = "sort_key jo_invoke (on_key key (hy_operations h))"
  have sub: "set ?p \<subseteq> set (hy_operations h)" by auto
  have lin: "is_linearizable JNull ?p"
    using valid_iff_keys_linearizable [OF assms(1), of h duration] assms(2,4) by fastforce
  have "register_run None ?p"
  proof (cases ?p)
    case (Cons op ops)
    then obtain k v where op: "jo_op op = OpWrite k v" using assms(3)
      by (auto simp: starts_with_write_def split: operation_type.splits dest!: spec [of _ key])
    have con: "\<forall>op \<in> set (op # ops). conclusive (jo_op op) (jo_result op)"
      using sub assms(2) unfolding Cons by blast
    then have res: "jo_result op = Some WriteOk" "v \<noteq> JNull"
      using op by (cases "(jo_op op, jo_result op)" rule: conclusive.cases; simp)+
    then have "is_linearizable v ops" using lin op by (simp add: Cons)
    then have "register_run (Some v) ops" using is_linearizable_run [OF res(2)] con by simp
    then show ?thesis using op res by (simp add: Cons)
  qed simp
  moreover have "respects_time ?p" by (rule sorted_respects_time) (use sub assms(2) in auto)
  moreover have "mset ?p = mset (on_key key (hy_operations h))" by simp
  ultimately show ?thesis unfolding linearizable_def by blast
qed

text \<open>A completed operation on the key x, and a history of some of them.\<close>

definition on_x :: "uuid \<Rightarrow> operation_type \<Rightarrow> operation_result \<Rightarrow> nat \<Rightarrow> nat \<Rightarrow> operation" where
  "on_x i ty r t t' = \<lparr>jo_id = i, jo_process = 0, jo_op = ty, jo_invoke = t, jo_complete = Some t', jo_result = Some r,
     jo_error = None\<rparr>"

definition short_history :: "operation list \<Rightarrow> history" where
  "short_history ops = \<lparr>hy_operations = ops, hy_metadata = \<lparr>hd_config = jepsen_config_default, hd_start_time = 0,
     hd_end_time = 9, hd_total_ops = length ops, hd_successful_ops = length ops, hd_failed_ops = 0, hd_faults_injected = []\<rparr>\<rparr>"

definition write_and_read :: "operation list" where
  "write_and_read = [on_x 2 (OpRead ''x'') (ReadOk (Some (JBool True))) 3 4, on_x 1 (OpWrite ''x'' (JBool True)) WriteOk 1 2]"

theorem linearizability_check_sound_witness:
  "cr_valid (linearizability_check (\<lambda>m. m) 0 (short_history write_and_read)) \<and>
   linearizable (on_key ''x'' (hy_operations (short_history write_and_read)))"
proof -
  let ?h = "short_history write_and_read"
  have v: "cr_valid (linearizability_check (\<lambda>m. m) 0 ?h)"
    by (subst valid_iff_keys_linearizable) (auto simp: short_history_def write_and_read_def on_x_def)
  have "linearizable (on_key ''x'' (hy_operations ?h))"
    by (rule linearizability_check_sound [OF _ _ _ v])
      (auto simp: short_history_def write_and_read_def on_x_def starts_with_write_def)
  with v show ?thesis by blast
qed

text \<open>
  Incompleteness.  The checker runs the operations in the order of their invocations.  When a write of w is
  invoked and completed during a write of v, and v is read later, then the writes took effect in the other
  order, which is allowed; the checker reports a violation.
\<close>

theorem linearizable_history_rejected:
  assumes h: "hy_operations h = [w1, w2, r]" and "\<forall>m. set (ord m) = set m"
    and w1: "jo_op w1 = OpWrite key v" "jo_result w1 = Some WriteOk" "jo_complete w1 = Some t3"
    and w2: "jo_op w2 = OpWrite key w" "jo_result w2 = Some WriteOk" "jo_complete w2 = Some t2"
    and r: "jo_op r = OpRead key" "jo_result r = Some (ReadOk (Some v'))" "jo_complete r = Some t5"
    and times: "jo_invoke w1 < jo_invoke w2" "jo_invoke w2 \<le> t2" "t2 \<le> t3" "t3 < jo_invoke r" "jo_invoke r \<le> t5"
    and vals: "json_eq v' v" "\<not> json_eq v' w" "w \<noteq> JNull"
  shows "linearizable (hy_operations h) \<and> \<not> cr_valid (linearizability_check ord duration h)"
proof
  have "register_run None [w2, w1, r]" using w1 w2 r vals by (simp add: same_value_def)
  moreover have "respects_time [w2, w1, r]" using w1 w2 r times by (auto simp: respects_time_def)
  ultimately show "linearizable (hy_operations h)"
    unfolding linearizable_def h by (intro exI [of _ "[w2, w1, r]"]) (simp add: add_mset_commute)
  have "on_key key (hy_operations h) = [w1, w2, r]" using w1 w2 r by (simp add: h)
  moreover have "sort_key jo_invoke [w1, w2, r] = [w1, w2, r]" using times by simp
  moreover have "\<not> is_linearizable JNull [w1, w2, r]" using w1 w2 r vals by simp
  ultimately have "\<not> is_linearizable JNull (sort_key jo_invoke (on_key key (hy_operations h)))" by metis
  then show "\<not> cr_valid (linearizability_check ord duration h)"
    using valid_iff_keys_linearizable [OF assms(2), of h duration] w1 w2 r by (auto simp: h)
qed

theorem linearizable_history_rejected_witness:
  "linearizable [on_x 1 (OpWrite ''x'' (JBool True)) WriteOk 1 4, on_x 2 (OpWrite ''x'' (JBool False)) WriteOk 2 3,
     on_x 3 (OpRead ''x'') (ReadOk (Some (JBool True))) 5 6] \<and>
   \<not> cr_valid (linearizability_check (\<lambda>m. m) 0 (short_history
     [on_x 1 (OpWrite ''x'' (JBool True)) WriteOk 1 4, on_x 2 (OpWrite ''x'' (JBool False)) WriteOk 2 3,
      on_x 3 (OpRead ''x'') (ReadOk (Some (JBool True))) 5 6]))"
  using linearizable_history_rejected [of "short_history
     [on_x 1 (OpWrite ''x'' (JBool True)) WriteOk 1 4, on_x 2 (OpWrite ''x'' (JBool False)) WriteOk 2 3,
      on_x 3 (OpRead ''x'') (ReadOk (Some (JBool True))) 5 6]" _ _ _ "\<lambda>m. m"]
  by (simp add: short_history_def on_x_def)

text \<open>A read that finds nothing after a completed write: accepted, and not linearizable.\<close>

definition write_and_empty_read :: "operation list" where
  "write_and_empty_read = [on_x 1 (OpWrite ''x'' (JBool True)) WriteOk 1 2, on_x 2 (OpRead ''x'') (ReadOk None) 3 4]"

theorem empty_read_accepted:
  "cr_valid (linearizability_check (\<lambda>m. m) 0 (short_history write_and_empty_read)) \<and>
   \<not> linearizable (on_key ''x'' (hy_operations (short_history write_and_empty_read)))"
proof
  show "cr_valid (linearizability_check (\<lambda>m. m) 0 (short_history write_and_empty_read))"
    by (subst valid_iff_keys_linearizable) (auto simp: short_history_def write_and_empty_read_def on_x_def)
  let ?w = "on_x 1 (OpWrite ''x'' (JBool True)) WriteOk 1 2" and ?r = "on_x 2 (OpRead ''x'') (ReadOk None) 3 4"
  have ops: "on_key ''x'' (hy_operations (short_history write_and_empty_read)) = [?w, ?r]"
    by (simp add: short_history_def write_and_empty_read_def on_x_def)
  have "p = [?w, ?r] \<or> p = [?r, ?w]" if "mset p = mset [?w, ?r]" for p
    using that by (cases p; cases "tl p") (auto simp: add_eq_conv_ex)
  moreover have "\<not> register_run None [?w, ?r]" by (simp add: on_x_def same_value_def)
  moreover have "\<not> respects_time [?r, ?w]" by (simp add: respects_time_def on_x_def)
  ultimately show "\<not> linearizable (on_key ''x'' (hy_operations (short_history write_and_empty_read)))"
    unfolding linearizable_def ops by metis
qed

end
