(* ===== verification/JepsenClients.thy ===== *)
theory JepsenClients
  imports Jepsen Collection
begin

text \<open>
  The clients of the test harness that work inside the process: \<open>DirectJepsenClient\<close>
  (\<open>jepsen/direct_client.rs\<close>) and \<open>SyncBatchedDirectJepsenClient\<close> (\<open>jepsen/direct_client_sync_batched.rs\<close>)
  on a collection, \<open>UltraFastJepsenClient\<close> (\<open>jepsen/high_perf_store.rs\<close>) on a map in memory.

  All of them hash a key to the id of a vector and keep the value in its payload.  The hash function is the
  argument \<open>hash\<close>.  What a client reads and upserts is a \<open>store_ops\<close>, so that the operations of the direct
  and of the batched client are stated once; a collection is found by its name before each call, which is
  left out.  A result \<open>None\<close> is a panic of the store.
\<close>

record 's store_ops =
  so_read :: "'s \<Rightarrow> u64 \<Rightarrow> json option res option"
  so_upsert :: "(u64 \<times> json) list \<Rightarrow> 's \<Rightarrow> (unit res \<times> 's) option"

type_synonym 's step = "(operation_result res \<times> 's) option"

text \<open>An operation whose first part may fail (\<open>await?\<close>).\<close>

definition on_success :: "'s step \<Rightarrow> (operation_result \<Rightarrow> 's \<Rightarrow> 's step) \<Rightarrow> 's step" where
  "on_success m f =
     (case m of None \<Rightarrow> None | Some (Inl err, s) \<Rightarrow> Some (Inl err, s) | Some (Inr r, s) \<Rightarrow> f r s)"

subsection \<open>The direct client\<close>

definition execute_read :: "'s store_ops \<Rightarrow> (string \<Rightarrow> u64) \<Rightarrow> string \<Rightarrow> 's \<Rightarrow> 's step" where
  "execute_read st hash key s =
     (case so_read st s (hash key) of
        None \<Rightarrow> None
      | Some (Inl err) \<Rightarrow> Some (Inl err, s)
      | Some (Inr value) \<Rightarrow> Some (Inr (ReadOk value), s))"

definition execute_write :: "'s store_ops \<Rightarrow> (string \<Rightarrow> u64) \<Rightarrow> string \<Rightarrow> json \<Rightarrow> 's \<Rightarrow> 's step" where
  "execute_write st hash key value s =
     (case so_upsert st [(hash key, value)] s of
        None \<Rightarrow> None
      | Some (Inl err, s') \<Rightarrow> Some (Inl err, s')
      | Some (Inr _, s') \<Rightarrow> Some (Inr WriteOk, s'))"

definition execute_cas :: "'s store_ops \<Rightarrow> (string \<Rightarrow> u64) \<Rightarrow> string \<Rightarrow> json \<Rightarrow> json \<Rightarrow> 's \<Rightarrow> 's step" where
  "execute_cas st hash key old new s =
     on_success (execute_read st hash key s) (\<lambda>r s.
       let write = on_success (execute_write st hash key new s) (\<lambda>_ s. Some (Inr (CasOk True), s))
       in case r of
            ReadOk (Some current) \<Rightarrow>
              if json_eq current old then write else Some (Inr (CasOk False), s)
          | ReadOk None \<Rightarrow> if old = JNull then write else Some (Inr (CasOk False), s)
          | _ \<Rightarrow> Some (Inr (CasOk False), s))"

definition as_i64 :: "json \<Rightarrow> i64 option" where
  "as_i64 v =
     (case v of
        JNumber (NPos u) \<Rightarrow> if u < 0x8000000000000000 then Some u else None
      | JNumber (NNeg i) \<Rightarrow> Some i
      | _ \<Rightarrow> None)"

definition json_of_i64 :: "i64 \<Rightarrow> json" where
  "json_of_i64 i = JNumber (if 0 \<le> sint i then NPos i else NNeg i)"

text \<open>The sum wraps, as it does in a release build; a build with overflow checks panics there instead.\<close>

definition execute_increment :: "'s store_ops \<Rightarrow> (string \<Rightarrow> u64) \<Rightarrow> string \<Rightarrow> i64 \<Rightarrow> 's \<Rightarrow> 's step" where
  "execute_increment st hash key delta s =
     on_success (execute_read st hash key s) (\<lambda>r s.
       let current = (case r of ReadOk (Some v) \<Rightarrow> (case as_i64 v of None \<Rightarrow> 0 | Some i \<Rightarrow> i) | _ \<Rightarrow> 0);
           new_value = current + delta
       in on_success (execute_write st hash key (json_of_i64 new_value) s) (\<lambda>_ s. Some (Inr (IncrementOk new_value), s)))"

definition execute_append :: "'s store_ops \<Rightarrow> (string \<Rightarrow> u64) \<Rightarrow> string \<Rightarrow> json \<Rightarrow> 's \<Rightarrow> 's step" where
  "execute_append st hash key value s =
     on_success (execute_read st hash key s) (\<lambda>r s.
       let list = (case r of ReadOk (Some (JArray arr)) \<Rightarrow> arr | _ \<Rightarrow> [])
       in on_success (execute_write st hash key (JArray (list @ [value])) s) (\<lambda>_ s. Some (Inr AppendOk, s)))"

definition execute_set_add :: "'s store_ops \<Rightarrow> (string \<Rightarrow> u64) \<Rightarrow> string \<Rightarrow> json \<Rightarrow> 's \<Rightarrow> 's step" where
  "execute_set_add st hash key value s =
     on_success (execute_read st hash key s) (\<lambda>r s.
       let elems = (case r of ReadOk (Some (JArray arr)) \<Rightarrow> arr | _ \<Rightarrow> [])
       in if \<not> list_ex (\<lambda>e. json_eq e value) elems
          then on_success (execute_write st hash key (JArray (elems @ [value])) s) (\<lambda>_ s. Some (Inr SetAddOk, s))
          else Some (Inr SetAddOk, s))"

text \<open>The loop of a transaction, with the results so far.\<close>

fun transaction_loop ::
  "'s store_ops \<Rightarrow> (string \<Rightarrow> u64) \<Rightarrow> transaction_op list \<Rightarrow> json option list \<Rightarrow> 's \<Rightarrow> 's step"
where
  "transaction_loop st hash [] results s = Some (Inr (TransactionOk results), s)"
| "transaction_loop st hash (TxnRead key # ops) results s =
     on_success (execute_read st hash key s) (\<lambda>r s.
       transaction_loop st hash ops (case r of ReadOk value \<Rightarrow> results @ [value] | _ \<Rightarrow> results) s)"
| "transaction_loop st hash (TxnWrite key value # ops) results s =
     on_success (execute_write st hash key value s) (\<lambda>_ s.
       transaction_loop st hash ops (results @ [Some (JBool True)]) s)"

definition execute_transaction :: "'s store_ops \<Rightarrow> (string \<Rightarrow> u64) \<Rightarrow> transaction_op list \<Rightarrow> 's \<Rightarrow> 's step" where
  "execute_transaction st hash ops s = transaction_loop st hash ops [] s"

definition direct_execute :: "'s store_ops \<Rightarrow> (string \<Rightarrow> u64) \<Rightarrow> operation_type \<Rightarrow> 's \<Rightarrow> 's step" where
  "direct_execute st hash op s =
     (case op of
        OpRead key \<Rightarrow> execute_read st hash key s
      | OpWrite key value \<Rightarrow> execute_write st hash key value s
      | OpCas key old new \<Rightarrow> execute_cas st hash key old new s
      | OpIncrement key delta \<Rightarrow> execute_increment st hash key delta s
      | OpAppend key value \<Rightarrow> execute_append st hash key value s
      | OpSetAdd key element \<Rightarrow> execute_set_add st hash key element s
      | OpTransaction ops \<Rightarrow> execute_transaction st hash ops s)"

subsection \<open>A collection as the store\<close>

text \<open>
  The state of a direct client: the collection and the number of vectors upserted so far.  The argument
  \<open>draw\<close> gives the time and the level of the n-th vector.
\<close>

definition value_vector :: "nat \<Rightarrow> json \<Rightarrow> payload vector" where
  "value_vector dim value = (vector_new (replicate dim 0))\<lparr>v_payload := Some [(''value'', value)]\<rparr>"

definition payload_value :: "payload option \<Rightarrow> json option" where
  "payload_value p = Option.bind p (\<lambda>p. hm_get p ''value'')"

definition collection_read :: "(payload, 'm) ext \<Rightarrow> 'm collection \<times> nat \<Rightarrow> u64 \<Rightarrow> json option res option" where
  "collection_read x s vid =
     map_option (\<lambda>r. and_then r (\<lambda>found. Inr (Option.bind found (\<lambda>v. payload_value (rv_payload v)))))
       (collection_get x vid (fst s))"

fun draw_items :: "(nat \<Rightarrow> u64 \<times> nat) \<Rightarrow> nat \<Rightarrow> nat \<Rightarrow> (u64 \<times> json) list \<Rightarrow> upsert_item list" where
  "draw_items draw dim n [] = []"
| "draw_items draw dim n ((vid, value) # items) =
     (fst (draw n), snd (draw n), vid, value_vector dim value) # draw_items draw dim (n + 1) items"

definition collection_write ::
  "(payload, 'm) ext \<Rightarrow> f32_ops \<Rightarrow> (nat \<Rightarrow> u64 \<times> nat) \<Rightarrow> nat \<Rightarrow> (u64 \<times> json) list \<Rightarrow> 'm collection \<times> nat \<Rightarrow>
   (unit res \<times> 'm collection \<times> nat) option"
where
  "collection_write x fp draw dim items s =
     map_option (\<lambda>(r, c). (and_then r (\<lambda>_. Inr ()), c, snd s + length items))
       (collection_upsert x fp (draw_items draw dim (snd s) items) (fst s))"

definition collection_store ::
  "(payload, 'm) ext \<Rightarrow> f32_ops \<Rightarrow> (nat \<Rightarrow> u64 \<times> nat) \<Rightarrow> nat \<Rightarrow> ('m collection \<times> nat) store_ops"
where
  "collection_store x fp draw dim =
     \<lparr>so_read = collection_read x, so_upsert = collection_write x fp draw dim\<rparr>"

subsection \<open>The synchronous batched client\<close>

record 's sync_client =
  sb_ops :: "(string \<times> json) list"
  sb_batch_size :: nat
  sb_store :: 's

text \<open>The buffer is emptied before the upsert, so that a failing upsert loses it.\<close>

definition flush_buffer ::
  "'s store_ops \<Rightarrow> (string \<Rightarrow> u64) \<Rightarrow> 's sync_client \<Rightarrow> (unit res \<times> 's sync_client) option"
where
  "flush_buffer st hash b =
     (if sb_ops b = [] then Some (Inr (), b)
      else
        (let vectors = map (\<lambda>(key, value). (hash key, value)) (sb_ops b)
         in map_option (\<lambda>(r, s). (r, b\<lparr>sb_ops := [], sb_store := s\<rparr>)) (so_upsert st vectors (sb_store b))))"

definition buffer_write ::
  "'s store_ops \<Rightarrow> (string \<Rightarrow> u64) \<Rightarrow> string \<Rightarrow> json \<Rightarrow> 's sync_client \<Rightarrow>
   (operation_result option res \<times> 's sync_client) option"
where
  "buffer_write st hash key value b =
     (let b1 = b\<lparr>sb_ops := sb_ops b @ [(key, value)]\<rparr>
      in if sb_batch_size b1 \<le> length (sb_ops b1)
         then map_option (\<lambda>(r, b2). (and_then r (\<lambda>_. Inr (Some WriteOk)), b2)) (flush_buffer st hash b1)
         else Some (Inr None, b1))"

definition execute_batched_write ::
  "'s store_ops \<Rightarrow> (string \<Rightarrow> u64) \<Rightarrow> string \<Rightarrow> json \<Rightarrow> 's sync_client \<Rightarrow> 's sync_client step"
where
  "execute_batched_write st hash key value b =
     map_option (\<lambda>(r, b'). (and_then r (\<lambda>result. Inr (case result of Some ok \<Rightarrow> ok | None \<Rightarrow> WriteOk)), b'))
       (buffer_write st hash key value b)"

definition sync_read ::
  "'s store_ops \<Rightarrow> (string \<Rightarrow> u64) \<Rightarrow> string \<Rightarrow> 's sync_client \<Rightarrow> 's sync_client step"
where
  "sync_read st hash key b =
     (case flush_buffer st hash b of
        None \<Rightarrow> None
      | Some (Inl err, b1) \<Rightarrow> Some (Inl err, b1)
      | Some (Inr _, b1) \<Rightarrow>
          map_option (\<lambda>(r, s). (r, b1\<lparr>sb_store := s\<rparr>)) (execute_read st hash key (sb_store b1)))"

definition sync_execute ::
  "'s store_ops \<Rightarrow> (string \<Rightarrow> u64) \<Rightarrow> operation_type \<Rightarrow> 's sync_client \<Rightarrow> 's sync_client step"
where
  "sync_execute st hash op b =
     (case op of
        OpRead key \<Rightarrow> sync_read st hash key b
      | OpWrite key value \<Rightarrow> execute_batched_write st hash key value b
      | _ \<Rightarrow> Some (Inl EQuery, b))"

subsection \<open>The store in memory and its client\<close>

record hp_store =
  hs_vectors :: "(u64 \<times> payload vector) list"
  hs_next_id :: u64

definition hp_store_new :: hp_store where
  "hp_store_new = \<lparr>hs_vectors = [], hs_next_id = 1\<rparr>"

definition hp_put :: "u64 \<Rightarrow> payload vector \<Rightarrow> hp_store \<Rightarrow> unit res \<times> hp_store" where
  "hp_put vid v s = (Inr (), s\<lparr>hs_vectors := hm_insert vid v (hs_vectors s)\<rparr>)"

fun hp_put_batch :: "(u64 \<times> payload vector) list \<Rightarrow> hp_store \<Rightarrow> unit res \<times> hp_store" where
  "hp_put_batch [] s = (Inr (), s)"
| "hp_put_batch ((vid, v) # vectors) s = hp_put_batch vectors (s\<lparr>hs_vectors := hm_insert vid v (hs_vectors s)\<rparr>)"

definition hp_get :: "u64 \<Rightarrow> hp_store \<Rightarrow> retrieved_vector option" where
  "hp_get vid s =
     map_option (\<lambda>v. \<lparr>rv_id = vid, rv_vector = v_data v, rv_payload = v_payload v\<rparr>) (hm_get (hs_vectors s) vid)"

definition hp_delete :: "u64 \<Rightarrow> hp_store \<Rightarrow> unit res \<times> hp_store" where
  "hp_delete vid s = (Inr (), s\<lparr>hs_vectors := hm_remove vid (hs_vectors s)\<rparr>)"

definition hp_len :: "hp_store \<Rightarrow> nat" where
  "hp_len s = length (hs_vectors s)"

definition hp_is_empty :: "hp_store \<Rightarrow> bool" where
  "hp_is_empty s \<longleftrightarrow> hs_vectors s = []"

definition hp_next_id :: "hp_store \<Rightarrow> u64 \<times> hp_store" where
  "hp_next_id s = (hs_next_id s, s\<lparr>hs_next_id := hs_next_id s + 1\<rparr>)"

definition hp_clear :: "hp_store \<Rightarrow> hp_store" where
  "hp_clear s = s\<lparr>hs_vectors := []\<rparr>"

definition uf_write :: "(string \<Rightarrow> u64) \<Rightarrow> string \<Rightarrow> json \<Rightarrow> hp_store \<Rightarrow> unit res \<times> hp_store" where
  "uf_write hash key value s = hp_put (hash key) (value_vector 1 value) s"

definition uf_read :: "(string \<Rightarrow> u64) \<Rightarrow> string \<Rightarrow> hp_store \<Rightarrow> json option" where
  "uf_read hash key s = Option.bind (hp_get (hash key) s) (\<lambda>v. payload_value (rv_payload v))"

definition uf_write_batch :: "(string \<Rightarrow> u64) \<Rightarrow> (string \<times> json) list \<Rightarrow> hp_store \<Rightarrow> unit res \<times> hp_store" where
  "uf_write_batch hash batch s =
     hp_put_batch (map (\<lambda>(key, value). (hash key, value_vector 1 value)) batch) s"

definition uf_stats :: "hp_store \<Rightarrow> nat \<times> nat" where
  "uf_stats s = (hp_len s, 0)"

text \<open>The pool: every client has a store of its own.\<close>

definition uf_pool_new :: "nat \<Rightarrow> (nat \<times> hp_store) list" where
  "uf_pool_new num_clients = map (\<lambda>i. (i, hp_store_new)) [0..<num_clients]"

definition uf_pool_get :: "(nat \<times> hp_store) list \<Rightarrow> nat \<Rightarrow> (nat \<times> hp_store) option option" where
  "uf_pool_get clients i =
     (if clients = [] then None
      else (let j = i mod length clients in Some (if j < length clients then Some (clients ! j) else None)))"

text \<open>The store in memory as the store of a client.\<close>

definition hp_store_ops :: "hp_store store_ops" where
  "hp_store_ops =
     \<lparr>so_read = (\<lambda>s vid. Some (Inr (Option.bind (hp_get vid s) (\<lambda>v. payload_value (rv_payload v))))),
      so_upsert = (\<lambda>items s. Some (hp_put_batch (map (\<lambda>(vid, value). (vid, value_vector 1 value)) items) s))\<rparr>"

end
