(* ===== verification/JepsenClientClaims.thy ===== *)
theory JepsenClientClaims
  imports JepsenClients CollectionClaims
begin

text \<open>
  The clients of the test harness refine a map from keys to JSON values, on every store that keeps what is
  upserted; the collection is one as long as its memory table is not flushed, the store in memory always.
\<close>

subsection \<open>The abstract map\<close>

text \<open>What each operation does to a map from keys to values.\<close>

definition value_or_null :: "json option \<Rightarrow> json" where
  "value_or_null v = (case v of None \<Rightarrow> JNull | Some v \<Rightarrow> v)"

definition number_or_zero :: "json option \<Rightarrow> i64" where
  "number_or_zero v = (case Option.bind v as_i64 of None \<Rightarrow> 0 | Some i \<Rightarrow> i)"

definition elements :: "json option \<Rightarrow> json list" where
  "elements v = (case v of Some (JArray arr) \<Rightarrow> arr | _ \<Rightarrow> [])"

fun kv_transaction :: "transaction_op list \<Rightarrow> (string \<rightharpoonup> json) \<Rightarrow> json option list \<times> (string \<rightharpoonup> json)" where
  "kv_transaction [] m = ([], m)"
| "kv_transaction (TxnRead key # ops) m = (let (rs, m') = kv_transaction ops m in (m key # rs, m'))"
| "kv_transaction (TxnWrite key v # ops) m =
     (let (rs, m') = kv_transaction ops (m(key \<mapsto> v)) in (Some (JBool True) # rs, m'))"

text \<open>The result of an operation, the value it writes, and the map after it.\<close>

fun kv_effect :: "operation_type \<Rightarrow> (string \<rightharpoonup> json) \<Rightarrow> operation_result \<times> (string \<times> json) option" where
  "kv_effect (OpRead key) m = (ReadOk (m key), None)"
| "kv_effect (OpWrite key v) m = (WriteOk, Some (key, v))"
| "kv_effect (OpCas key old new) m =
     (if json_eq (value_or_null (m key)) old then (CasOk True, Some (key, new)) else (CasOk False, None))"
| "kv_effect (OpIncrement key d) m =
     (let n = number_or_zero (m key) + d in (IncrementOk n, Some (key, json_of_i64 n)))"
| "kv_effect (OpAppend key v) m = (AppendOk, Some (key, JArray (elements (m key) @ [v])))"
| "kv_effect (OpSetAdd key v) m =
     (SetAddOk, if list_ex (\<lambda>e. json_eq e v) (elements (m key)) then None
                else Some (key, JArray (elements (m key) @ [v])))"
| "kv_effect (OpTransaction ops) m = (TransactionOk (fst (kv_transaction ops m)), None)"

definition kv_step :: "operation_type \<Rightarrow> (string \<rightharpoonup> json) \<Rightarrow> operation_result \<times> (string \<rightharpoonup> json)" where
  "kv_step op m =
     (case op of
        OpTransaction ops \<Rightarrow> (TransactionOk (fst (kv_transaction ops m)), snd (kv_transaction ops m))
      | _ \<Rightarrow> (case kv_effect op m of
                (r, None) \<Rightarrow> (r, m)
              | (r, Some (key, v)) \<Rightarrow> (r, m(key \<mapsto> v))))"

fun kv_run :: "operation_type list \<Rightarrow> (string \<rightharpoonup> json) \<Rightarrow> operation_result list" where
  "kv_run [] m = []"
| "kv_run (op # ops) m = (let (r, m') = kv_step op m in r # kv_run ops m')"

text \<open>A client that executes operations one after the other.\<close>

fun client_run :: "(operation_type \<Rightarrow> 's \<Rightarrow> 's step) \<Rightarrow> operation_type list \<Rightarrow> 's \<Rightarrow> (operation_result list \<times> 's) option" where
  "client_run ex [] s = Some ([], s)"
| "client_run ex (op # ops) s =
     (case ex op s of
        Some (Inr r, s') \<Rightarrow> map_option (\<lambda>(rs, s''). (r # rs, s'')) (client_run ex ops s')
      | _ \<Rightarrow> None)"

subsection \<open>Stores that keep what is upserted\<close>

text \<open>
  The store holds the map on the keys K, and the values that a run of operations writes fit: \<open>fits\<close> is a
  condition under which the store takes an upsert and then has its values.
\<close>

definition agrees :: "'s store_ops \<Rightarrow> (string \<Rightarrow> u64) \<Rightarrow> string set \<Rightarrow> (string \<rightharpoonup> json) \<Rightarrow> 's \<Rightarrow> bool" where
  "agrees st hash K m s \<longleftrightarrow> (\<forall>key \<in> K. so_read st s (hash key) = Some (Inr (m key)))"

fun txn_fits :: "'s store_ops \<Rightarrow> ((u64 \<times> json) list \<Rightarrow> 's \<Rightarrow> bool) \<Rightarrow> (string \<Rightarrow> u64) \<Rightarrow> transaction_op list \<Rightarrow> 's \<Rightarrow> bool" where
  "txn_fits st fits hash [] s = True"
| "txn_fits st fits hash (TxnRead key # ops) s = txn_fits st fits hash ops s"
| "txn_fits st fits hash (TxnWrite key v # ops) s =
     (fits [(hash key, v)] s \<and>
      (case so_upsert st [(hash key, v)] s of Some (_, s') \<Rightarrow> txn_fits st fits hash ops s' | None \<Rightarrow> True))"

definition op_fits :: "'s store_ops \<Rightarrow> ((u64 \<times> json) list \<Rightarrow> 's \<Rightarrow> bool) \<Rightarrow> (string \<Rightarrow> u64) \<Rightarrow> operation_type \<Rightarrow> (string \<rightharpoonup> json) \<Rightarrow> 's \<Rightarrow> bool" where
  "op_fits st fits hash op m s \<longleftrightarrow>
     (case op of
        OpTransaction ops \<Rightarrow> txn_fits st fits hash ops s
      | _ \<Rightarrow> (case snd (kv_effect op m) of None \<Rightarrow> True | Some (key, v) \<Rightarrow> fits [(hash key, v)] s))"

fun run_fits ::
  "'s store_ops \<Rightarrow> ((u64 \<times> json) list \<Rightarrow> 's \<Rightarrow> bool) \<Rightarrow> (string \<Rightarrow> u64) \<Rightarrow> operation_type list \<Rightarrow> (string \<rightharpoonup> json) \<Rightarrow> 's \<Rightarrow> bool"
where
  "run_fits st fits hash [] m s = True"
| "run_fits st fits hash (op # ops) m s =
     (op_fits st fits hash op m s \<and>
      (case direct_execute st hash op s of
         Some (_, s') \<Rightarrow> run_fits st fits hash ops (snd (kv_step op m)) s' | None \<Rightarrow> True))"

text \<open>The same for the batched client, whose map is what is in the store overridden by what is in the buffer.\<close>

definition sync_agrees :: "'s store_ops \<Rightarrow> (string \<Rightarrow> u64) \<Rightarrow> string set \<Rightarrow> (string \<rightharpoonup> json) \<Rightarrow> 's sync_client \<Rightarrow> bool" where
  "sync_agrees st hash K m b \<longleftrightarrow>
     fst ` set (sb_ops b) \<subseteq> K \<and>
     (\<exists>m0. agrees st hash K m0 (sb_store b) \<and> m = m0 ++ map_of (rev (sb_ops b)))"

definition hashed :: "(string \<Rightarrow> u64) \<Rightarrow> (string \<times> json) list \<Rightarrow> (u64 \<times> json) list" where
  "hashed hash ops = map (\<lambda>(key, value). (hash key, value)) ops"

definition sync_op_fits :: "((u64 \<times> json) list \<Rightarrow> 's \<Rightarrow> bool) \<Rightarrow> (string \<Rightarrow> u64) \<Rightarrow> operation_type \<Rightarrow> 's sync_client \<Rightarrow> bool" where
  "sync_op_fits fits hash op b =
     (case op of
        OpRead key \<Rightarrow> sb_ops b = [] \<or> fits (hashed hash (sb_ops b)) (sb_store b)
      | OpWrite key value \<Rightarrow>
          length (sb_ops b) + 1 < sb_batch_size b \<or> fits (hashed hash (sb_ops b @ [(key, value)])) (sb_store b)
      | _ \<Rightarrow> False)"

fun sync_run_fits ::
  "'s store_ops \<Rightarrow> ((u64 \<times> json) list \<Rightarrow> 's \<Rightarrow> bool) \<Rightarrow> (string \<Rightarrow> u64) \<Rightarrow> operation_type list \<Rightarrow> 's sync_client \<Rightarrow> bool"
where
  "sync_run_fits st fits hash [] b = True"
| "sync_run_fits st fits hash (op # ops) b =
     (sync_op_fits fits hash op b \<and>
      (case sync_execute st hash op b of Some (_, b') \<Rightarrow> sync_run_fits st fits hash ops b' | None \<Rightarrow> True))"

locale register_store =
  fixes st :: "'s store_ops" and fits :: "(u64 \<times> json) list \<Rightarrow> 's \<Rightarrow> bool"
  assumes upsert: "fits items s \<Longrightarrow>
    \<exists>s'. so_upsert st items s = Some (Inr (), s') \<and>
      (\<forall>vid. so_read st s' vid = (case map_of (rev items) vid of None \<Rightarrow> so_read st s vid | Some v \<Rightarrow> Some (Inr (Some v))))"
begin

lemma agrees_read: "agrees st hash K m s \<Longrightarrow> key \<in> K \<Longrightarrow> execute_read st hash key s = Some (Inr (ReadOk (m key)), s)"
  by (simp add: agrees_def execute_read_def)

lemma agrees_write:
  assumes "agrees st hash K m s" and "inj_on hash K" and "key \<in> K" and "fits [(hash key, v)] s"
  shows "\<exists>s'. so_upsert st [(hash key, v)] s = Some (Inr (), s') \<and>
    execute_write st hash key v s = Some (Inr WriteOk, s') \<and> agrees st hash K (m(key \<mapsto> v)) s'"
proof -
  obtain s' where s': "so_upsert st [(hash key, v)] s = Some (Inr (), s')"
    "\<forall>vid. so_read st s' vid = (if vid = hash key then Some (Inr (Some v)) else so_read st s vid)"
    using upsert [OF assms(4)] by (force split: if_splits)
  then have "agrees st hash K (m(key \<mapsto> v)) s'"
    using assms(1-3) by (auto simp: agrees_def dest: inj_onD)
  then show ?thesis using s'(1) by (simp add: execute_write_def)
qed

lemma transaction_refines:
  assumes "agrees st hash K m s" and "inj_on hash K" and "set (map txn_key ops) \<subseteq> K" and "txn_fits st fits hash ops s"
  shows "\<exists>s'. transaction_loop st hash ops results s = Some (Inr (TransactionOk (results @ fst (kv_transaction ops m))), s') \<and>
    agrees st hash K (snd (kv_transaction ops m)) s'"
  using assms(1,3,4)
proof (induction ops arbitrary: results m s)
  case (Cons op ops)
  show ?case
  proof (cases op)
    case (TxnRead key)
    then have "execute_read st hash key s = Some (Inr (ReadOk (m key)), s)"
      using Cons.prems by (intro agrees_read) auto
    then show ?thesis
      using Cons.IH [of m s "results @ [m key]"] Cons.prems
      by (auto simp: TxnRead on_success_def Let_def split: prod.splits)
  next
    case (TxnWrite key v)
    then obtain s' where s': "so_upsert st [(hash key, v)] s = Some (Inr (), s')"
        "execute_write st hash key v s = Some (Inr WriteOk, s')" "agrees st hash K (m(key \<mapsto> v)) s'"
      using agrees_write [OF Cons.prems(1) assms(2), of key v] Cons.prems by auto
    have "set (map txn_key ops) \<subseteq> K" "txn_fits st fits hash ops s'" using Cons.prems s'(1) by (simp_all add: TxnWrite)
    from Cons.IH [OF s'(3) this, of "results @ [Some (JBool True)]"] show ?thesis
      by (simp add: TxnWrite on_success_def s'(2) case_prod_beta Let_def del: fun_upd_apply)
  qed
qed simp

lemma single_write:
  assumes "agrees st hash K m s" and "inj_on hash K" and "key \<in> K" and "fits [(hash key, v)] s"
  shows "\<exists>s'. on_success (execute_write st hash key v s) (\<lambda>_ s. Some (Inr r, s)) = Some (Inr r, s') \<and>
    agrees st hash K (m(key \<mapsto> v)) s'"
  using agrees_write [OF assms] by (auto simp: on_success_def)

lemma direct_refines:
  assumes ag: "agrees st hash K m s" and inj: "inj_on hash K" and K: "extract_keys op \<subseteq> K" and fit: "op_fits st fits hash op m s"
  shows "\<exists>s'. direct_execute st hash op s = Some (Inr (fst (kv_step op m)), s') \<and>
    agrees st hash K (snd (kv_step op m)) s'"
proof (cases op)
  case (OpTransaction ops)
  then show ?thesis using transaction_refines [OF ag inj, of ops "[]"] K fit
    by (simp add: direct_execute_def execute_transaction_def kv_step_def op_fits_def)
next
  case (OpCas key old new)
  then have read: "execute_read st hash key s = Some (Inr (ReadOk (m key)), s)" using agrees_read [OF ag] K by simp
  show ?thesis
  proof (cases "json_eq (value_or_null (m key)) old")
    case True
    then have "fits [(hash key, new)] s" using fit OpCas by (simp add: op_fits_def)
    from single_write [OF ag inj _ this, of "CasOk True"] True K OpCas show ?thesis
      by (auto simp: direct_execute_def execute_cas_def read on_success_def [of "Some _"] Let_def kv_step_def
          value_or_null_def split: option.splits)
  next
    case False
    then show ?thesis using ag OpCas
      by (auto simp: direct_execute_def execute_cas_def read on_success_def Let_def kv_step_def
          value_or_null_def split: option.splits)
  qed
next
  case (OpWrite key v)
  then show ?thesis using agrees_write [OF ag inj, of key v] K fit
    by (auto simp: direct_execute_def kv_step_def op_fits_def)
next
  case (OpRead key)
  then show ?thesis using agrees_read [OF ag, of key] K ag by (simp add: direct_execute_def kv_step_def)
next
  case (OpIncrement key d)
  then have read: "execute_read st hash key s = Some (Inr (ReadOk (m key)), s)" using agrees_read [OF ag] K by simp
  let ?n = "number_or_zero (m key) + d"
  have "fits [(hash key, json_of_i64 ?n)] s" using fit OpIncrement by (simp add: op_fits_def Let_def)
  from single_write [OF ag inj _ this, of "IncrementOk ?n"] K OpIncrement show ?thesis
    by (auto simp: direct_execute_def execute_increment_def read on_success_def [of "Some _"] Let_def kv_step_def
        number_or_zero_def split: option.splits)
next
  case (OpAppend key v)
  then have read: "execute_read st hash key s = Some (Inr (ReadOk (m key)), s)" using agrees_read [OF ag] K by simp
  have "fits [(hash key, JArray (elements (m key) @ [v]))] s" using fit OpAppend by (simp add: op_fits_def)
  from single_write [OF ag inj _ this, of AppendOk] K OpAppend show ?thesis
    by (auto simp: direct_execute_def execute_append_def read on_success_def [of "Some _"] Let_def kv_step_def
        elements_def split: option.splits json.splits)
next
  case (OpSetAdd key v)
  then have read: "execute_read st hash key s = Some (Inr (ReadOk (m key)), s)" using agrees_read [OF ag] K by simp
  show ?thesis
  proof (cases "list_ex (\<lambda>e. json_eq e v) (elements (m key))")
    case True
    then show ?thesis using ag OpSetAdd
      by (auto simp: direct_execute_def execute_set_add_def read on_success_def [of "Some _"] Let_def kv_step_def
          elements_def split: option.splits json.splits)
  next
    case False
    then have "fits [(hash key, JArray (elements (m key) @ [v]))] s" using fit OpSetAdd by (simp add: op_fits_def)
    from single_write [OF ag inj _ this, of SetAddOk] False K OpSetAdd show ?thesis
      by (auto simp: direct_execute_def execute_set_add_def read on_success_def [of "Some _"] Let_def kv_step_def
          elements_def split: option.splits json.splits)
  qed
qed

lemma direct_run_refines:
  assumes "agrees st hash K m s" and "inj_on hash K" and "\<Union> (extract_keys ` set ops) \<subseteq> K" and "run_fits st fits hash ops m s"
  shows "\<exists>s'. client_run (direct_execute st hash) ops s = Some (kv_run ops m, s')"
  using assms(1,3,4)
proof (induction ops arbitrary: m s)
  case (Cons op ops)
  then obtain s' where s': "direct_execute st hash op s = Some (Inr (fst (kv_step op m)), s')"
      "agrees st hash K (snd (kv_step op m)) s'"
    using direct_refines [OF Cons.prems(1) assms(2), of op] by auto
  then have "run_fits st fits hash ops (snd (kv_step op m)) s'" using Cons.prems(3) by simp
  with Cons.IH [OF s'(2)] Cons.prems(2) s'(1) show ?case by (auto simp: case_prod_beta Let_def)
qed simp

lemma map_of_hashed:
  assumes "inj_on hash K" and "fst ` set ops \<subseteq> K" and "key \<in> K"
  shows "map_of (hashed hash ops) (hash key) = map_of ops key"
  using assms(2) by (induction ops) (use assms(1,3) in \<open>auto simp: hashed_def dest: inj_onD\<close>)

lemma rev_hashed: "rev (hashed hash ops) = hashed hash (rev ops)"
  by (simp add: hashed_def rev_map)

lemma flush_refines:
  assumes ag: "sync_agrees st hash K m b" and inj: "inj_on hash K"
    and fit: "sb_ops b = [] \<or> fits (hashed hash (sb_ops b)) (sb_store b)"
  shows "\<exists>s'. flush_buffer st hash b = Some (Inr (), b\<lparr>sb_ops := [], sb_store := s'\<rparr>) \<and> agrees st hash K m s'"
proof (cases "sb_ops b = []")
  case True
  then have "b = b\<lparr>sb_ops := [], sb_store := sb_store b\<rparr>" by simp
  then show ?thesis using ag True by (intro exI [of _ "sb_store b"]) (auto simp: flush_buffer_def sync_agrees_def)
next
  case False
  then have "fits (hashed hash (sb_ops b)) (sb_store b)" using fit by blast
  from upsert [OF this] obtain s' where s': "so_upsert st (hashed hash (sb_ops b)) (sb_store b) = Some (Inr (), s')"
      "\<forall>vid. so_read st s' vid = (case map_of (hashed hash (rev (sb_ops b))) vid of
         None \<Rightarrow> so_read st (sb_store b) vid | Some v \<Rightarrow> Some (Inr (Some v)))"
    by (auto simp: rev_hashed)
  obtain m0 where m0: "agrees st hash K m0 (sb_store b)" "m = m0 ++ map_of (rev (sb_ops b))" "fst ` set (sb_ops b) \<subseteq> K"
    using ag by (auto simp: sync_agrees_def)
  have "agrees st hash K m s'"
    using s'(2) m0 map_of_hashed [OF inj, of "rev (sb_ops b)"]
    by (auto simp: agrees_def map_add_def split: option.splits)
  then show ?thesis using False s'(1) by (auto simp: flush_buffer_def hashed_def)
qed

lemma sync_refines:
  assumes ag: "sync_agrees st hash K m b" and inj: "inj_on hash K" and K: "extract_keys op \<subseteq> K"
    and fit: "sync_op_fits fits hash op b"
  shows "\<exists>b'. sync_execute st hash op b = Some (Inr (fst (kv_step op m)), b') \<and>
    sync_agrees st hash K (snd (kv_step op m)) b'"
proof (cases op)
  case (OpRead key)
  then obtain s' where s': "flush_buffer st hash b = Some (Inr (), b\<lparr>sb_ops := [], sb_store := s'\<rparr>)" "agrees st hash K m s'"
    using flush_refines [OF ag inj] fit by (auto simp: sync_op_fits_def)
  have "execute_read st hash key s' = Some (Inr (ReadOk (m key)), s')" using agrees_read [OF s'(2)] K OpRead by simp
  then show ?thesis using s' OpRead
    by (auto simp: sync_execute_def sync_read_def kv_step_def sync_agrees_def intro!: exI [of _ m])
next
  case (OpWrite key v)
  let ?b = "b\<lparr>sb_ops := sb_ops b @ [(key, v)]\<rparr>"
  have ag': "sync_agrees st hash K (m(key \<mapsto> v)) ?b"
    using ag K OpWrite by (auto simp: sync_agrees_def)
  show ?thesis
  proof (cases "sb_batch_size b \<le> length (sb_ops b) + 1")
    case False
    then show ?thesis using ag' OpWrite
      by (simp add: sync_execute_def execute_batched_write_def buffer_write_def kv_step_def)
  next
    case True
    then have "fits (hashed hash (sb_ops ?b)) (sb_store ?b)" using fit OpWrite by (simp add: sync_op_fits_def)
    then obtain s' where "flush_buffer st hash ?b = Some (Inr (), ?b\<lparr>sb_ops := [], sb_store := s'\<rparr>)"
        "agrees st hash K (m(key \<mapsto> v)) s'"
      using flush_refines [OF ag' inj] by blast
    then show ?thesis using True OpWrite
      by (auto simp: sync_execute_def execute_batched_write_def buffer_write_def kv_step_def sync_agrees_def
          intro!: exI [of _ "m(key \<mapsto> v)"])
  qed
qed (use fit in \<open>simp_all add: sync_op_fits_def\<close>)

lemma sync_run_refines:
  assumes "sync_agrees st hash K m b" and "inj_on hash K" and "\<Union> (extract_keys ` set ops) \<subseteq> K" and "sync_run_fits st fits hash ops b"
  shows "\<exists>b'. client_run (sync_execute st hash) ops b = Some (kv_run ops m, b')"
  using assms(1,3,4)
proof (induction ops arbitrary: m b)
  case (Cons op ops)
  then obtain b' where b': "sync_execute st hash op b = Some (Inr (fst (kv_step op m)), b')"
      "sync_agrees st hash K (snd (kv_step op m)) b'"
    using sync_refines [OF Cons.prems(1) assms(2), of op] by auto
  then have "sync_run_fits st fits hash ops b'" using Cons.prems(3) by simp
  with Cons.IH [OF b'(2)] Cons.prems(2) b'(1) show ?case by (auto simp: case_prod_beta Let_def)
qed simp

end

subsection \<open>The store in memory\<close>

lemma hp_put_batch_get:
  "hp_get vid (snd (hp_put_batch items s)) =
     (case map_of (rev items) vid of
        None \<Rightarrow> hp_get vid s
      | Some v \<Rightarrow> Some \<lparr>rv_id = vid, rv_vector = v_data v, rv_payload = v_payload v\<rparr>)"
proof (induction items s rule: hp_put_batch.induct)
  case (2 vid' v vectors s)
  then show ?case by (auto simp: hp_get_def split: option.splits)
qed simp

lemma hp_put_batch_ok: "fst (hp_put_batch items s) = Inr ()"
  by (induction items s rule: hp_put_batch.induct) auto

lemma payload_value_vector [simp]: "payload_value (v_payload (value_vector dim v)) = Some v"
  by (simp add: payload_value_def value_vector_def hm_get_def)

lemma map_of_map_values: "map_of (map (\<lambda>(k, v). (k, f v)) xs) k = map_option f (map_of xs k)"
  by (induction xs) auto

interpretation hp: register_store hp_store_ops "\<lambda>_ _. True"
proof
  fix items :: "(u64 \<times> json) list" and s
  let ?items = "map (\<lambda>(vid, value). (vid, value_vector 1 value)) items"
  let ?s' = "snd (hp_put_batch ?items s)"
  have "hp_put_batch ?items s = (Inr (), ?s')" using hp_put_batch_ok [of ?items s] by (metis prod.collapse)
  moreover have "so_read hp_store_ops ?s' vid =
      (case map_of (rev items) vid of None \<Rightarrow> so_read hp_store_ops s vid | Some v \<Rightarrow> Some (Inr (Some v)))" for vid
    by (simp add: hp_store_ops_def hp_put_batch_get rev_map map_of_map_values split: option.split)
  ultimately show "\<exists>s'. so_upsert hp_store_ops items s = Some (Inr (), s') \<and>
      (\<forall>vid. so_read hp_store_ops s' vid =
         (case map_of (rev items) vid of None \<Rightarrow> so_read hp_store_ops s vid | Some v \<Rightarrow> Some (Inr (Some v))))"
    by (auto simp: hp_store_ops_def)
qed

subsection \<open>A collection\<close>

definition collection_fits ::
  "(payload, 'm) ext \<Rightarrow> (nat \<Rightarrow> u64 \<times> nat) \<Rightarrow> nat \<Rightarrow> (u64 \<times> json) list \<Rightarrow> 'm collection \<times> nat \<Rightarrow> bool"
where
  "collection_fits x draw dim items s \<longleftrightarrow>
     items_fit x (draw_items draw dim (snd s) items) (cc_dimension (co_config (fst s))) (en_mem (co_storage (fst s)))"

lemma map_of_draw_items:
  "map_of (rev (map item_entry (draw_items draw dim n items))) vid = map_option (value_vector dim) (map_of (rev items) vid)"
proof -
  have "map item_entry (draw_items draw dim n items) = map (\<lambda>(k, v). (k, value_vector dim v)) items"
    by (induction items arbitrary: n) auto
  then show ?thesis by (simp add: rev_map map_of_map_values)
qed

lemma upsert_loop_reads:
  assumes "ordered_map (x_skip x)" and "items_fit x (draw_items draw dim n items) (cc_dimension (co_config c)) (en_mem (co_storage c))"
  shows "\<exists>c'. upsert_loop x fp (draw_items draw dim n items) c = Some (Inr (), c') \<and>
    (\<forall>vid. collection_read x (c', j) vid =
       (case map_of (rev items) vid of None \<Rightarrow> collection_read x (c, j) vid | Some v \<Rightarrow> Some (Inr (Some v))))"
  using upsert_loop_gets [OF assms, of fp]
  by (auto simp: collection_read_def map_of_draw_items split: option.split)

lemma collection_store_read [simp]: "so_read (collection_store x fp draw dim) = collection_read x"
  by (simp add: collection_store_def)

lemma collection_is_register_store:
  assumes "ordered_map (x_skip x)"
  shows "register_store (collection_store x fp draw dim) (collection_fits x draw dim)"
proof
  fix items :: "(u64 \<times> json) list" and s :: "'a collection \<times> nat"
  assume fit: "collection_fits x draw dim items s"
  obtain c n where s: "s = (c, n)" by fastforce
  obtain c' where c': "upsert_loop x fp (draw_items draw dim n items) c = Some (Inr (), c')"
      "\<forall>vid. collection_read x (c', n) vid =
         (case map_of (rev items) vid of None \<Rightarrow> collection_read x (c, n) vid | Some v \<Rightarrow> Some (Inr (Some v)))"
    using upsert_loop_reads [OF assms, of draw dim n items c fp n] fit by (auto simp: collection_fits_def s)
  let ?c2 = "c'\<lparr>co_next_op := co_next_op c' + 1\<rparr>"
  have up: "collection_write x fp draw dim items s = Some (Inr (), (?c2, n + length items))"
    by (simp add: collection_write_def s collection_upsert_def c'(1) finish_operation_def)
  have "collection_read x (?c2, n + length items) vid = collection_read x (c', n) vid" for vid
    by (simp add: collection_read_def collection_get_def)
  then have "\<forall>vid. so_read (collection_store x fp draw dim) (?c2, n + length items) vid =
      (case map_of (rev items) vid of
         None \<Rightarrow> so_read (collection_store x fp draw dim) s vid | Some v \<Rightarrow> Some (Inr (Some v)))"
    using c'(2) unfolding collection_store_read s by simp
  then show "\<exists>s'. so_upsert (collection_store x fp draw dim) items s = Some (Inr (), s') \<and>
      (\<forall>vid. so_read (collection_store x fp draw dim) s' vid =
         (case map_of (rev items) vid of
            None \<Rightarrow> so_read (collection_store x fp draw dim) s vid | Some v \<Rightarrow> Some (Inr (Some v))))"
    using up by (intro exI [of _ "(?c2, n + length items)"]) (simp add: collection_store_def)
qed

subsection \<open>The clients on a collection\<close>

text \<open>
  C8.  Refinement.  On a collection that holds a map of registers, a direct client answers a sequence of reads,
  writes, swaps, increments, appends, set additions and transactions, one after the other, as the map does,
  provided that no two of the keys have the same hash and that the vectors written fit when their turn comes: they
  have the collection's dimension, their ids are not deleted, the log can hold their records, and the memory table
  does not reach its threshold and is not flushed.
\<close>

theorem direct_client_refines_map:
  assumes "ordered_map (x_skip x)" and "inj_on hash K" and "\<Union> (extract_keys ` set ops) \<subseteq> K"
    and "agrees (collection_store x fp draw dim) hash K m s"
    and "run_fits (collection_store x fp draw dim) (collection_fits x draw dim) hash ops m s"
  shows "\<exists>s'. client_run (direct_execute (collection_store x fp draw dim) hash) ops s = Some (kv_run ops m, s')"
  by (rule register_store.direct_run_refines [OF collection_is_register_store [OF assms(1)] assms(4,2,3,5)])

text \<open>
  Refinement.  So does the batched client for reads and writes: a read empties the buffer first, so that a
  buffered write is always seen by the client's own reads.
\<close>

theorem batched_client_refines_map:
  assumes "ordered_map (x_skip x)" and "inj_on hash K" and "\<Union> (extract_keys ` set ops) \<subseteq> K"
    and "sync_agrees (collection_store x fp draw dim) hash K m b"
    and "sync_run_fits (collection_store x fp draw dim) (collection_fits x draw dim) hash ops b"
  shows "\<exists>b'. client_run (sync_execute (collection_store x fp draw dim) hash) ops b = Some (kv_run ops m, b')"
  by (rule register_store.sync_run_refines [OF collection_is_register_store [OF assms(1)] assms(4,2,3,5)])

text \<open>An empty collection of dimension 1, and one vector that fits.\<close>

definition empty_engine :: "(u64, payload entry) btree engine" where
  "empty_engine = \<lparr>en_config = storage_config_default, en_wal = wal_open [] 1024, en_mem = mt_new btree_ops 1000,
     en_immutable = [], en_levels = [], en_count = 0, en_handle = False, en_tasks = [], en_disk = []\<rparr>"

abbreviation line_store :: "((u64, payload entry) btree collection \<times> nat) store_ops" where
  "line_store \<equiv> collection_store json_ext bits_fp (\<lambda>n. (of_nat n, 0)) 1"

abbreviation line_fits :: "(u64 \<times> json) list \<Rightarrow> (u64, payload entry) btree collection \<times> nat \<Rightarrow> bool" where
  "line_fits \<equiv> collection_fits json_ext (\<lambda>n. (of_nat n, 0)) 1"

lemma empty_reads: "so_read line_store (point_collection empty_engine, n) vid = Some (Inr None)"
  by (simp add: collection_read_def collection_get_def point_collection_def engine_get_def get_from_memtables_def
      get_from_sstables_def search_order_def empty_engine_def json_ext_def mt_get_def mt_new_def btree_ops_def)

lemma one_item_fits:
  assumes dim: "length (v_data v) = 1"
  shows "items_fit json_ext [(now, level, vid, v)] 1 (en_mem empty_engine)"
proof -
  have "x_rec_enc json_ext (PutRecord vid v now) = Some (1 # u64_le vid @ u64_le now @ concat (map u32_le (v_data v)))"
    by (simp add: json_ext_def sample_rec_enc_def)
  moreover have "\<not> should_flush (snd (mt_put (x_skip json_ext) (x_to_vec json_ext) vid v (en_mem empty_engine)))"
    using dim by (cases "v_payload v")
      (simp_all add: mt_put_def json_ext_def btree_ops_def empty_engine_def mt_new_def should_flush_def Let_def
        estimate_entry_size_def payload_size_def)
  moreover have "mt_get (x_skip json_ext) (en_mem empty_engine) vid = None"
    by (simp add: mt_get_def json_ext_def btree_ops_def empty_engine_def mt_new_def)
  ultimately show ?thesis using dim by (simp add: put_fits_def vector_dim_def MAX_RECORD_SIZE_def)
qed

lemma one_value_fits: "line_fits [(vid, v)] (point_collection empty_engine, n)"
  using one_item_fits [of "value_vector 1 v"]
  by (simp add: collection_fits_def point_collection_def line_config_def collection_config_new_def value_vector_def
      vector_new_def del: items_fit.simps)

theorem direct_client_refines_map_witness:
  "\<exists>s'. client_run (direct_execute line_store (\<lambda>_. 1)) [OpIncrement ''n'' 5, OpRead ''n''] (point_collection empty_engine, 0)
     = Some ([IncrementOk 5, ReadOk (Some (JNumber (NPos 5)))], s')"
proof -
  let ?ops = "[OpIncrement ''n'' 5, OpRead ''n'']"
  let ?s = "(point_collection empty_engine, 0 :: nat)"
  have run: "kv_run ?ops Map.empty = [IncrementOk 5, ReadOk (Some (JNumber (NPos 5)))]"
    by (simp add: kv_step_def number_or_zero_def json_of_i64_def)
  have "\<exists>s'. client_run (direct_execute line_store (\<lambda>_. 1)) ?ops ?s = Some (kv_run ?ops Map.empty, s')"
  proof (rule direct_client_refines_map [OF json_ext_ok, where K = "{''n''}"])
    show "agrees line_store (\<lambda>_. 1) {''n''} Map.empty ?s" by (simp add: agrees_def empty_reads del: collection_store_read One_nat_def)
    show "run_fits line_store line_fits (\<lambda>_. 1) ?ops Map.empty ?s"
      using one_value_fits by (simp add: op_fits_def Let_def del: One_nat_def split: option.split)
  qed simp_all
  then show ?thesis by (simp only: run)
qed

theorem batched_client_refines_map_witness:
  "\<exists>b'. client_run (sync_execute line_store (\<lambda>_. 1)) [OpWrite ''x'' JNull, OpRead ''x'']
     \<lparr>sb_ops = [], sb_batch_size = 2, sb_store = (point_collection empty_engine, 0)\<rparr> = Some ([WriteOk, ReadOk (Some JNull)], b')"
proof -
  let ?ops = "[OpWrite ''x'' JNull, OpRead ''x'']"
  let ?b = "\<lparr>sb_ops = [], sb_batch_size = 2, sb_store = (point_collection empty_engine, 0 :: nat)\<rparr>"
  have "\<exists>b'. client_run (sync_execute line_store (\<lambda>_. 1)) ?ops ?b = Some (kv_run ?ops Map.empty, b')"
  proof (rule batched_client_refines_map [OF json_ext_ok, where K = "{''x''}"])
    show "sync_agrees line_store (\<lambda>_. 1) {''x''} Map.empty ?b"
      by (auto simp: sync_agrees_def agrees_def empty_reads simp del: collection_store_read One_nat_def intro!: exI [of _ Map.empty])
    show "sync_run_fits line_store line_fits (\<lambda>_. 1) ?ops ?b"
      using one_value_fits by (simp add: sync_op_fits_def sync_execute_def execute_batched_write_def buffer_write_def hashed_def
          del: One_nat_def split: option.split)
  qed simp_all
  then show ?thesis by (simp add: kv_step_def)
qed

end
