(* ===== verification/JepsenRun.thy ===== *)
theory JepsenRun
  imports Jepsen Wal
begin

text \<open>
  Running tests and analysing their histories: \<open>jepsen/history.rs\<close>, the checkers' interface
  (\<open>jepsen/checkers.rs\<close>, \<open>CombinedChecker\<close> and \<open>create_checker\<close>), the runner, the analyzer of timed
  operations, the simulator of network partitions and the test executor of \<open>jepsen/mod.rs\<close>.

  Clients, the nemesis and random choices are arguments: what they answer or draw.
\<close>

subsection \<open>Checkers\<close>

datatype checker =
    LinearizabilityChecker nat
  | SerializabilityChecker bool
  | CombinedChecker "checker list"

definition linearizability_checker_new :: checker where
  "linearizability_checker_new = LinearizabilityChecker 1000"

definition combined_checker_new :: checker where
  "combined_checker_new = CombinedChecker [linearizability_checker_new, SerializabilityChecker False]"

record hash_orders =
  ho_groups :: "(string \<times> operation list) list \<Rightarrow> (string \<times> operation list) list"
  ho_nodes :: "uuid list \<Rightarrow> uuid list"

text \<open>The durations of the checks inside a combined one are dropped.\<close>

fun checker_check :: "hash_orders \<Rightarrow> nat \<Rightarrow> checker \<Rightarrow> history \<Rightarrow> checker_result option"
  and checkers_check :: "hash_orders \<Rightarrow> nat \<Rightarrow> checker list \<Rightarrow> history \<Rightarrow> (violation list \<times> nat) option"
where
  "checker_check ord duration (LinearizabilityChecker _) h = Some (linearizability_check (ho_groups ord) duration h)"
| "checker_check ord duration (SerializabilityChecker strict) h =
     serializability_check (ho_nodes ord) strict duration h"
| "checker_check ord duration (CombinedChecker checkers) h =
     map_option (\<lambda>(violations, total).
         \<lparr>cr_valid = (violations = []), cr_model = StrictSerializability, cr_violations = violations,
          cr_metadata = \<lparr>cm_check_duration = duration, cm_operations_analyzed = total, cm_stats = []\<rparr>\<rparr>)
       (checkers_check ord duration checkers h)"
| "checkers_check ord duration [] h = Some ([], 0)"
| "checkers_check ord duration (c # cs) h =
     (case checker_check ord duration c h of
        None \<Rightarrow> None
      | Some r \<Rightarrow>
          map_option (\<lambda>(violations, total).
              (cr_violations r @ violations, cm_operations_analyzed (cr_metadata r) + total))
            (checkers_check ord duration cs h))"

definition create_checker :: "consistency_model \<Rightarrow> checker" where
  "create_checker model =
     (case model of
        Linearizability \<Rightarrow> linearizability_checker_new
      | Linearizable \<Rightarrow> linearizability_checker_new
      | Serializability \<Rightarrow> SerializabilityChecker False
      | StrictSerializability \<Rightarrow> SerializabilityChecker True
      | SequentialConsistency \<Rightarrow> linearizability_checker_new
      | Sequential \<Rightarrow> linearizability_checker_new
      | CausalConsistency \<Rightarrow> linearizability_checker_new
      | Eventual \<Rightarrow> linearizability_checker_new)"

text \<open>The consistency model that a checker states.\<close>

fun checker_model :: "checker \<Rightarrow> consistency_model" where
  "checker_model (LinearizabilityChecker _) = Linearizability"
| "checker_model (SerializabilityChecker strict) = (if strict then StrictSerializability else Serializability)"
| "checker_model (CombinedChecker _) = StrictSerializability"

subsection \<open>The runner\<close>

text \<open>
  A run: the answers of the nemesis when it is started and stopped, and what each client's task returned.
  Errors of a task are panics of the client.
\<close>

definition jepsen_run ::
  "hash_orders \<Rightarrow> nat \<Rightarrow> jepsen_config \<Rightarrow> checker \<Rightarrow> unit res \<Rightarrow> unit res \<Rightarrow> (operation list) res list \<Rightarrow> nat \<Rightarrow> nat \<Rightarrow>
   (history \<times> checker_result) res option"
where
  "jepsen_run ord duration config ck started stopped tasks start_time end_time =
     (case started of
        Inl err \<Rightarrow> Some (Inl err)
      | Inr _ \<Rightarrow>
          (case foldl (\<lambda>acc task. and_then acc (\<lambda>ops. case task of Inl _ \<Rightarrow> Inl EInternal | Inr l \<Rightarrow> Inr (ops @ l)))
                  (Inr []) tasks of
             Inl err \<Rightarrow> Some (Inl err)
           | Inr operations \<Rightarrow>
               (case stopped of
                  Inl err \<Rightarrow> Some (Inl err)
                | Inr _ \<Rightarrow>
                    (let successful = length (filter (\<lambda>op. jo_result op \<noteq> None) operations);
                         h = \<lparr>hy_operations = operations, hy_metadata =
                                \<lparr>hd_config = config, hd_start_time = start_time, hd_end_time = end_time,
                                 hd_total_ops = length operations, hd_successful_ops = successful,
                                 hd_failed_ops = length operations - successful, hd_faults_injected = []\<rparr>\<rparr>
                     in map_option (\<lambda>r. Inr (h, r)) (checker_check ord duration ck h)))))"

subsection \<open>The analysis of histories\<close>

text \<open>The conversion \<open>x as usize\<close> of a float: truncated, 0 for a negative one or a NaN, cut off at the top.\<close>

definition f64_as_usize :: "f64 \<Rightarrow> nat" where
  "f64_as_usize x =
     (if f64_is_nan x \<or> x AND 0x8000000000000000 \<noteq> 0 then 0
      else
        (let e = unat (drop_bit 52 x AND 0x7FF); m = unat (x AND 0xFFFFFFFFFFFFF)
         in if e = 0 then 0
            else min (2 ^ 64 - 1) (if 1075 \<le> e then (2 ^ 52 + m) * 2 ^ (e - 1075) else (2 ^ 52 + m) div 2 ^ (1075 - e))))"

record latency_analysis =
  la_count :: nat
  la_min :: nat
  la_max :: nat
  la_mean :: nat
  la_median :: nat
  la_p95 :: nat
  la_p99 :: nat

definition latencies_of :: "operation list \<Rightarrow> nat list" where
  "latencies_of ops =
     List.map_filter (\<lambda>op. case jo_complete op of
         Some t \<Rightarrow> if jo_invoke op \<le> t then Some (t - jo_invoke op) else None
       | None \<Rightarrow> None) ops"

text \<open>The literals are 0.95 and 0.99; \<open>None\<close> is an index out of range or the division by a count that is
  0 as a \<open>u32\<close>.\<close>

definition analyze_latencies :: "f64_ops \<Rightarrow> history \<Rightarrow> latency_analysis option" where
  "analyze_latencies fd h =
     (let latencies = sort (latencies_of (hy_operations h)); count = length latencies;
          at = (\<lambda>p. f64_as_usize (fd_mul fd (f64_of_nat count) p));
          i95 = at 0x3FEE666666666666; i99 = at 0x3FEFAE147AE147AE
      in if count = 0
         then Some \<lparr>la_count = 0, la_min = 0, la_max = 0, la_mean = 0, la_median = 0, la_p95 = 0, la_p99 = 0\<rparr>
         else if i95 < count \<and> i99 < count \<and> count mod 2 ^ 32 \<noteq> 0
         then Some \<lparr>la_count = count, la_min = latencies ! 0, la_max = latencies ! (count - 1),
                la_mean = sum_list latencies div (count mod 2 ^ 32), la_median = latencies ! (count div 2),
                la_p95 = latencies ! i95, la_p99 = latencies ! i99\<rparr>
         else None)"

record throughput_window =
  tw_start_time :: nat
  tw_end_time :: nat
  tw_total_ops :: nat
  tw_successful_ops :: nat
  tw_ops_per_second :: f64

definition window_of :: "f64_ops \<Rightarrow> nat \<Rightarrow> nat \<Rightarrow> operation list \<Rightarrow> throughput_window" where
  "window_of fd start width ops =
     (let inside = filter (\<lambda>op. start \<le> jo_invoke op \<and> jo_invoke op < start + width) ops
      in \<lparr>tw_start_time = start, tw_end_time = start + width, tw_total_ops = length inside,
          tw_successful_ops = length (filter (\<lambda>op. jo_result op \<noteq> None) inside),
          tw_ops_per_second = fd_div fd (f64_of_nat (length inside)) (fd_of_nanos fd width)\<rparr>)"

text \<open>The loop over the windows does not end for a window of length 0.\<close>

partial_function (option) windows_loop ::
  "f64_ops \<Rightarrow> nat \<Rightarrow> nat \<Rightarrow> operation list \<Rightarrow> nat \<Rightarrow> throughput_window list option"
where
  "windows_loop fd width end_time ops start =
     (if start < end_time
      then Option.bind (windows_loop fd width end_time ops (start + width)) (\<lambda>ws. Some (window_of fd start width ops # ws))
      else Some [])"

definition analyze_throughput :: "f64_ops \<Rightarrow> history \<Rightarrow> nat \<Rightarrow> throughput_window list option" where
  "analyze_throughput fd h width =
     (if hy_operations h = [] then Some []
      else windows_loop fd width (hd_end_time (hy_metadata h)) (hy_operations h) (hd_start_time (hy_metadata h)))"

record concurrent_group =
  cg_operations :: "uuid list"
  cg_start_time :: nat
  cg_end_time :: nat

text \<open>
  The groups found so far, the current group and its end.  A group that is closed takes the time of the
  operation with its first id.
\<close>

fun group_loop ::
  "operation list \<Rightarrow> operation list \<Rightarrow> concurrent_group list \<Rightarrow> uuid list \<Rightarrow> nat \<Rightarrow>
   (concurrent_group list \<times> uuid list \<times> nat) option"
where
  "group_loop all [] groups current end_time = Some (groups, current, end_time)"
| "group_loop all (op # ops) groups current end_time =
     (case jo_complete op of
        None \<Rightarrow> group_loop all ops groups current end_time
      | Some t \<Rightarrow>
          if current = [] \<or> jo_invoke op \<le> end_time
          then group_loop all ops groups (current @ [jo_id op]) (max end_time t)
          else if 1 < length current
          then (case List.find (\<lambda>o'. jo_id o' = current ! 0) all of
                  None \<Rightarrow> None
                | Some o' \<Rightarrow>
                    group_loop all ops
                      (groups @ [\<lparr>cg_operations = current, cg_start_time = jo_invoke o', cg_end_time = end_time\<rparr>])
                      [jo_id op] t)
          else group_loop all ops groups [jo_id op] t)"

definition find_concurrent_operations :: "history \<Rightarrow> concurrent_group list option" where
  "find_concurrent_operations h =
     map_option (\<lambda>(groups, current, end_time).
         if 1 < length current
         then groups @ [\<lparr>cg_operations = current, cg_start_time = 0, cg_end_time = end_time\<rparr>]
         else groups)
       (group_loop (hy_operations h) (sort_key jo_invoke (hy_operations h)) [] [] 0)"

definition invoke_time_of :: "operation list \<Rightarrow> uuid \<Rightarrow> nat" where
  "invoke_time_of ops i = (case List.find (\<lambda>op. jo_id op = i) ops of None \<Rightarrow> 0 | Some op \<Rightarrow> jo_invoke op)"

definition extract_process_sequences :: "history \<Rightarrow> (nat \<times> uuid list) list" where
  "extract_process_sequences h =
     map (\<lambda>(p, ids). (p, sort_key (invoke_time_of (hy_operations h)) ids))
       (fold (\<lambda>op. hm_push (jo_process op) (jo_id op)) (hy_operations h) [])"

record error_rate =
  er_total :: nat
  er_successes :: nat
  er_errors :: nat
  er_success_rate :: f64
  er_error_rate :: f64

definition error_rate_default :: error_rate where
  "error_rate_default = \<lparr>er_total = 0, er_successes = 0, er_errors = 0, er_success_rate = 0, er_error_rate = 0\<rparr>"

fun operation_type_name :: "operation_type \<Rightarrow> string" where
  "operation_type_name (OpRead _) = ''read''"
| "operation_type_name (OpWrite _ _) = ''write''"
| "operation_type_name (OpCas _ _ _) = ''cas''"
| "operation_type_name (OpTransaction _) = ''transaction''"
| "operation_type_name (OpAppend _ _) = ''append''"
| "operation_type_name (OpSetAdd _ _) = ''set_add''"
| "operation_type_name (OpIncrement _ _) = ''increment''"

definition count_outcome :: "operation \<Rightarrow> (string \<times> error_rate) list \<Rightarrow> (string \<times> error_rate) list" where
  "count_outcome op m =
     (let name = operation_type_name (jo_op op);
          e = (case hm_get m name of None \<Rightarrow> error_rate_default | Some e \<Rightarrow> e);
          e1 = e\<lparr>er_total := er_total e + 1\<rparr>
      in hm_insert name
           (if jo_error op \<noteq> None then e1\<lparr>er_errors := er_errors e1 + 1\<rparr>
            else if jo_result op \<noteq> None then e1\<lparr>er_successes := er_successes e1 + 1\<rparr>
            else e1) m)"

definition analyze_error_rates :: "f64_ops \<Rightarrow> history \<Rightarrow> (string \<times> error_rate) list" where
  "analyze_error_rates fd h =
     map (\<lambda>(name, e). (name,
         if 0 < er_total e
         then e\<lparr>er_error_rate := fd_div fd (f64_of_nat (er_errors e)) (f64_of_nat (er_total e)),
                er_success_rate := fd_div fd (f64_of_nat (er_successes e)) (f64_of_nat (er_total e))\<rparr>
         else e))
       (fold count_outcome (hy_operations h) [])"

definition by_operation_type :: "history \<Rightarrow> string \<Rightarrow> operation list" where
  "by_operation_type h name = filter (\<lambda>op. operation_type_name (jo_op op) = name) (hy_operations h)"

definition by_time_range :: "history \<Rightarrow> nat \<Rightarrow> nat \<Rightarrow> operation list" where
  "by_time_range h start end_time = filter (\<lambda>op. start \<le> jo_invoke op \<and> jo_invoke op \<le> end_time) (hy_operations h)"

definition by_process :: "history \<Rightarrow> nat \<Rightarrow> operation list" where
  "by_process h p = filter (\<lambda>op. jo_process op = p) (hy_operations h)"

definition successful_only :: "history \<Rightarrow> operation list" where
  "successful_only h = filter (\<lambda>op. jo_result op \<noteq> None) (hy_operations h)"

definition failed_only :: "history \<Rightarrow> operation list" where
  "failed_only h = filter (\<lambda>op. jo_error op \<noteq> None) (hy_operations h)"

definition by_key :: "history \<Rightarrow> string \<Rightarrow> operation list" where
  "by_key h key =
     filter (\<lambda>op. case jo_op op of
         OpTransaction ops \<Rightarrow> list_ex (\<lambda>t. txn_key t = key) ops
       | ty \<Rightarrow> key \<in> extract_keys ty) (hy_operations h)"

subsection \<open>The analyzer of timed operations\<close>

datatype jepsen_operation =
    JRead u64 string
  | JWrite u64 string "f32 list"
  | JSearch u64 "f32 list" nat
  | JDelete u64 string
  | JCompareAndSwap u64 string "f32 list" "f32 list"

record timed_result =
  tr_operation :: jepsen_operation
  tr_start_time :: nat
  tr_end_time :: nat
  tr_success :: bool
  tr_error :: "string option"
  tr_result_data :: "u8 list option"
  tr_node_id :: string

record history_analyzer =
  an_operations :: "timed_result list"
  an_simdx_enabled :: bool
  an_consistency_model :: consistency_model

definition analyzer_new :: "consistency_model \<Rightarrow> bool \<Rightarrow> history_analyzer" where
  "analyzer_new model simdx = \<lparr>an_operations = [], an_simdx_enabled = simdx, an_consistency_model = model\<rparr>"

definition optimize_operation_batch :: "history_analyzer \<Rightarrow> history_analyzer" where
  "optimize_operation_batch a =
     (if \<not> an_simdx_enabled a then a else a\<lparr>an_operations := sort_key tr_start_time (an_operations a)\<rparr>)"

definition add_operation :: "timed_result \<Rightarrow> history_analyzer \<Rightarrow> history_analyzer" where
  "add_operation r a =
     (let a1 = a\<lparr>an_operations := an_operations a @ [r]\<rparr>
      in if an_simdx_enabled a1 \<and> length (an_operations a1) mod 64 = 0 then optimize_operation_batch a1 else a1)"

record consistency_violation =
  cv_type :: violation_type
  cv_operation1 :: timed_result
  cv_operation2 :: timed_result

definition detect_violation :: "timed_result \<Rightarrow> timed_result \<Rightarrow> consistency_violation option" where
  "detect_violation op1 op2 =
     (case (tr_operation op1, tr_operation op2) of
        (JWrite _ _ _, JRead _ _) \<Rightarrow>
          if tr_end_time op1 < tr_start_time op2 \<and> \<not> tr_success op2
          then Some \<lparr>cv_type = ReadAfterWrite, cv_operation1 = op1, cv_operation2 = op2\<rparr>
          else None
      | _ \<Rightarrow> None)"

text \<open>The loop over the windows of two neighbours.\<close>

fun detect_in_windows :: "timed_result list \<Rightarrow> consistency_violation option" where
  "detect_in_windows (op1 # op2 # ops) =
     (case detect_violation op1 op2 of
        Some v \<Rightarrow> Some v
      | None \<Rightarrow> detect_in_windows (op2 # ops))"
| "detect_in_windows _ = None"

definition analyze_vector_history :: "timed_result list \<Rightarrow> consistency_violation option" where
  "analyze_vector_history ops = detect_in_windows (sort_key tr_start_time ops)"

fun operation_vector :: "jepsen_operation \<Rightarrow> string option" where
  "operation_vector (JRead _ vid) = Some vid"
| "operation_vector (JWrite _ vid _) = Some vid"
| "operation_vector (JDelete _ vid) = Some vid"
| "operation_vector (JCompareAndSwap _ vid _ _) = Some vid"
| "operation_vector (JSearch _ _ _) = None"

definition operations_by_id :: "timed_result list \<Rightarrow> (string \<times> timed_result list) list" where
  "operations_by_id ops =
     fold (\<lambda>op m. case operation_vector (tr_operation op) of None \<Rightarrow> m | Some vid \<Rightarrow> hm_push vid op m) ops []"

definition check_linearizability_simdx ::
  "((string \<times> timed_result list) list \<Rightarrow> (string \<times> timed_result list) list) \<Rightarrow> history_analyzer \<Rightarrow> consistency_violation list"
where
  "check_linearizability_simdx ord a =
     List.map_filter (\<lambda>(vid, ops). analyze_vector_history ops) (ord (operations_by_id (an_operations a)))"

definition check_linearizability_scalar :: "history_analyzer \<Rightarrow> consistency_violation list" where
  "check_linearizability_scalar a = []"

record linearizability_result =
  lr_is_linearizable :: bool
  lr_violations :: "consistency_violation list"
  lr_analysis_duration :: nat
  lr_operations_analyzed :: nat
  lr_simdx_acceleration :: bool

definition check_linearizability ::
  "((string \<times> timed_result list) list \<Rightarrow> (string \<times> timed_result list) list) \<Rightarrow> nat \<Rightarrow> history_analyzer \<Rightarrow> linearizability_result"
where
  "check_linearizability ord duration a =
     (let violations = (if an_simdx_enabled a then check_linearizability_simdx ord a else check_linearizability_scalar a)
      in \<lparr>lr_is_linearizable = (violations = []), lr_violations = violations, lr_analysis_duration = duration,
          lr_operations_analyzed = length (an_operations a), lr_simdx_acceleration = an_simdx_enabled a\<rparr>)"

subsection \<open>Network partitions\<close>

text \<open>A partition is named by the time of its creation (\<open>now\<close>, in nanoseconds).\<close>

record partition_simulator =
  ps_partitions :: "(string \<times> string list) list"
  ps_active_partitions :: u64

definition simulator_new :: partition_simulator where
  "simulator_new = \<lparr>ps_partitions = [], ps_active_partitions = 0\<rparr>"

definition create_partition :: "(nat \<Rightarrow> string) \<Rightarrow> nat \<Rightarrow> string list \<Rightarrow> partition_simulator \<Rightarrow> string \<times> partition_simulator" where
  "create_partition name now nodes s =
     (let partition_id = name now
      in (partition_id, s\<lparr>ps_partitions := hm_insert partition_id nodes (ps_partitions s),
                          ps_active_partitions := ps_active_partitions s + 1\<rparr>))"

definition heal_partition :: "string \<Rightarrow> partition_simulator \<Rightarrow> partition_simulator" where
  "heal_partition partition_id s =
     (case hm_get (ps_partitions s) partition_id of
        None \<Rightarrow> s
      | Some _ \<Rightarrow> s\<lparr>ps_partitions := hm_remove partition_id (ps_partitions s),
                     ps_active_partitions := ps_active_partitions s - 1\<rparr>)"

definition can_communicate :: "string \<Rightarrow> string \<Rightarrow> partition_simulator \<Rightarrow> bool" where
  "can_communicate node1 node2 s \<longleftrightarrow>
     list_all (\<lambda>(_, nodes). (node1 \<in> set nodes) = (node2 \<in> set nodes)) (ps_partitions s)"

text \<open>
  One turn of the chaos monkey with what it draws.  The partitions older than two minutes are healed by tasks
  of their own, which run before the next turn.
\<close>

record chaos_draw =
  ch_now :: nat
  ch_roll :: f64
  ch_size :: nat
  ch_index :: nat

type_synonym chaos_state = "partition_simulator \<times> (string \<times> nat) list"

definition chaos_turn ::
  "(nat \<Rightarrow> string) \<Rightarrow> string list \<Rightarrow> f64 \<Rightarrow> chaos_draw \<Rightarrow> chaos_state \<Rightarrow> chaos_state"
where
  "chaos_turn name nodes probability d st =
     (let (s, active) = st;
          (s1, active1) =
            (if f64_less (ch_roll d) probability \<and> 1 < length nodes
             then (let partition_size = ch_size d mod max 1 (length nodes div 2) + 1;
                       (partition_id, s') = create_partition name (ch_now d) (take partition_size nodes) s
                   in (s', active @ [(partition_id, ch_now d)]))
             else if active \<noteq> []
             then (let i = ch_index d mod length active
                   in (heal_partition (fst (active ! i)) s, take i active @ drop (i + 1) active))
             else (s, active));
          old = filter (\<lambda>(_, created_at). secs 120 < ch_now d - created_at) active1
      in (fold (\<lambda>(partition_id, _). heal_partition partition_id) old s1,
          filter (\<lambda>(_, created_at). \<not> secs 120 < ch_now d - created_at) active1))"

definition run_chaos_monkey ::
  "(nat \<Rightarrow> string) \<Rightarrow> string list \<Rightarrow> f64 \<Rightarrow> chaos_draw list \<Rightarrow> partition_simulator \<Rightarrow> partition_simulator"
where
  "run_chaos_monkey name nodes probability draws s =
     (let (s1, active) = fold (chaos_turn name nodes probability) draws (s, [])
      in fold (\<lambda>(partition_id, _). heal_partition partition_id) active s1)"

definition partition_name :: "nat \<Rightarrow> string" where
  "partition_name now = ''partition_'' @ decimal now"

subsection \<open>The test executor\<close>

record 'c client_pool =
  cp_clients :: "'c list"
  cp_current_index :: nat

text \<open>The index is an \<open>AtomicUsize\<close> and wraps; without clients the remainder panics.\<close>

definition get_client :: "'c client_pool \<Rightarrow> ('c \<times> 'c client_pool) option" where
  "get_client p =
     (if cp_clients p = [] then None
      else Some (cp_clients p ! (cp_current_index p mod length (cp_clients p)),
                 p\<lparr>cp_current_index := (cp_current_index p + 1) mod 2 ^ 64\<rparr>))"

definition numeric_id :: "u64 \<Rightarrow> u64 \<Rightarrow> u64" where
  "numeric_id operation_id client_id = client_id * 1000 + operation_id mod 100"

text \<open>The interval between the operations of a client in milliseconds; a rate of 0 panics, as does the timer
  for an interval of 0.\<close>

definition operation_interval :: "jepsen_config \<Rightarrow> u64 option" where
  "operation_interval config =
     (if jc_operation_rate config = 0 then None
      else (let i = 1000 div jc_operation_rate config in if i = 0 then None else Some i))"

record jepsen_test_result =
  jt_total_operations :: nat
  jt_test_duration :: nat
  jt_linearizability_result :: linearizability_result
  jt_throughput :: f64
  jt_simdx_enabled :: bool
  jt_partition_events :: u64

text \<open>The end of a test: the collected results and the simulator after all tasks have finished.\<close>

definition finish_test_suite ::
  "f64_ops \<Rightarrow> ((string \<times> timed_result list) list \<Rightarrow> (string \<times> timed_result list) list) \<Rightarrow> jepsen_config \<Rightarrow> nat \<Rightarrow> nat \<Rightarrow>
   timed_result list \<Rightarrow> partition_simulator \<Rightarrow> jepsen_test_result"
where
  "finish_test_suite fd ord config duration total_duration results s =
     (let a = fold add_operation results (analyzer_new (jc_consistency_model config) (jc_enable_simdx config))
      in \<lparr>jt_total_operations = length results, jt_test_duration = total_duration,
          jt_linearizability_result = check_linearizability ord duration a,
          jt_throughput = fd_div fd (f64_of_nat (length results)) (fd_of_nanos fd total_duration),
          jt_simdx_enabled = jc_enable_simdx config, jt_partition_events = ps_active_partitions s\<rparr>)"

end
