(* ===== verification/JepsenRunClaims.thy ===== *)
theory JepsenRunClaims
  imports JepsenRun WalProps
begin

text \<open>
  The properties of test runs: the partitions of the chaos monkey, what the analyzer of timed operations
  reports, and when the analysis of the throughput returns.
\<close>

subsection \<open>Partitions\<close>

text \<open>The partitions are the ones that the monkey knows, each counted once, and named by past times.\<close>

definition chaos_ok :: "(nat \<Rightarrow> string) \<Rightarrow> nat set \<Rightarrow> chaos_state \<Rightarrow> bool" where
  "chaos_ok name past st \<longleftrightarrow>
     (case st of (s, active) \<Rightarrow>
        distinct (map fst active) \<and> fst ` set active \<subseteq> name ` past \<and>
        (\<forall>pid. hm_get (ps_partitions s) pid = None \<longleftrightarrow> pid \<notin> fst ` set active) \<and>
        ps_active_partitions s = of_nat (length active))"

lemma chaos_ok_create:
  assumes "chaos_ok name past (s, active)" and "inj name" and "now \<notin> past"
  shows "chaos_ok name (insert now past) (snd (create_partition name now nodes s), active @ [(name now, now)])"
proof -
  have "name now \<notin> name ` past" using assms(2,3) by (simp add: inj_image_mem_iff)
  moreover have "fst ` set active \<subseteq> name ` past" using assms(1) by (simp add: chaos_ok_def)
  ultimately have "name now \<notin> fst ` set active" by blast
  then show ?thesis using assms(1) by (auto simp: chaos_ok_def create_partition_def Let_def)
qed

lemma chaos_ok_heal:
  assumes ok: "chaos_ok name past (s, xs @ (pid, t) # ys)"
  shows "chaos_ok name past (heal_partition pid s, xs @ ys)"
proof -
  obtain v where "hm_get (ps_partitions s) pid = Some v" using ok by (fastforce simp: chaos_ok_def)
  then show ?thesis using ok by (auto simp: chaos_ok_def heal_partition_def)
qed

lemma chaos_ok_heal_old:
  assumes "chaos_ok name past (s, xs @ active)"
  shows "chaos_ok name past
    (fold (\<lambda>(pid, _). heal_partition pid) (filter (\<lambda>(_, t). P t) active) s, xs @ filter (\<lambda>(_, t). \<not> P t) active)"
  using assms
proof (induction active arbitrary: s xs)
  case (Cons a active)
  obtain pid t where a: "a = (pid, t)" by fastforce
  show ?case
  proof (cases "P t")
    case True
    then show ?thesis using Cons.IH [OF chaos_ok_heal [OF Cons.prems [unfolded a]]] by (simp add: a)
  next
    case False
    then show ?thesis using Cons.IH [of s "xs @ [a]"] Cons.prems by (simp add: a)
  qed
qed simp

lemma chaos_ok_mono: "chaos_ok name past st \<Longrightarrow> past \<subseteq> past' \<Longrightarrow> chaos_ok name past' st"
  by (cases st) (simp add: chaos_ok_def, meson image_mono order_trans)

lemma chaos_ok_turn:
  assumes ok: "chaos_ok name past st" and inj: "inj name" and new: "ch_now d \<notin> past"
  shows "chaos_ok name (insert (ch_now d) past) (chaos_turn name nodes probability d st)"
proof -
  obtain s active where st: "st = (s, active)" by fastforce
  let ?past = "insert (ch_now d) past"
  let ?finish = "\<lambda>(s1, active1). (fold (\<lambda>(pid, _). heal_partition pid) (filter (\<lambda>(_, t). secs 120 < ch_now d - t) active1) s1,
      filter (\<lambda>(_, t). \<not> secs 120 < ch_now d - t) active1)"
  have finish: "chaos_ok name ?past st1 \<Longrightarrow> chaos_ok name ?past (?finish st1)" for st1
    using chaos_ok_heal_old [of name ?past "fst st1" "[]" "snd st1" "\<lambda>t. secs 120 < ch_now d - t"]
    by (simp add: case_prod_beta)
  have ok': "chaos_ok name ?past (s, active)" using ok by (auto simp: st intro: chaos_ok_mono)
  consider "f64_less (ch_roll d) probability \<and> 1 < length nodes"
    | "\<not> (f64_less (ch_roll d) probability \<and> 1 < length nodes)" "active \<noteq> []"
    | "\<not> (f64_less (ch_roll d) probability \<and> 1 < length nodes)" "active = []" by blast
  then show ?thesis
  proof cases
    case 1
    let ?nodes = "take (ch_size d mod max 1 (length nodes div 2) + 1) nodes"
    have "chaos_ok name ?past (snd (create_partition name (ch_now d) ?nodes s), active @ [(name (ch_now d), ch_now d)])"
      by (rule chaos_ok_create [OF _ inj new]) (use ok in \<open>simp add: st\<close>)
    from finish [OF this] 1 show ?thesis
      by (simp add: chaos_turn_def st Let_def create_partition_def)
  next
    case 2
    let ?i = "ch_index d mod length active"
    have i: "?i < length active" using 2 by simp
    then have "active = take ?i active @ (fst (active ! ?i), snd (active ! ?i)) # drop (?i + 1) active"
      by (simp add: id_take_nth_drop)
    then have "chaos_ok name ?past (heal_partition (fst (active ! ?i)) s, take ?i active @ drop (?i + 1) active)"
      using chaos_ok_heal [of name ?past s "take ?i active" "fst (active ! ?i)" "snd (active ! ?i)" "drop (?i + 1) active"] ok' by simp
    from finish [OF this] show ?thesis
      using 2 by (simp add: chaos_turn_def st Let_def if_not_P [OF 2(1)] del: One_nat_def)
  next
    case 3
    from finish [OF ok'] show ?thesis
      using 3 by (simp add: chaos_turn_def st Let_def if_not_P [OF 3(1)] del: One_nat_def)
  qed
qed

lemma chaos_ok_run:
  assumes "chaos_ok name past st" and "inj name" and "distinct (map ch_now draws)" and "ch_now ` set draws \<inter> past = {}"
  shows "\<exists>past'. chaos_ok name past' (fold (chaos_turn name nodes probability) draws st)"
  using assms(1,3,4)
proof (induction draws arbitrary: past st)
  case (Cons d draws)
  have "chaos_ok name (insert (ch_now d) past) (chaos_turn name nodes probability d st)"
    by (rule chaos_ok_turn [OF Cons.prems(1) assms(2)]) (use Cons.prems in auto)
  from Cons.IH [OF this] Cons.prems show ?case by auto
qed auto

lemma no_entries: "(\<forall>k. hm_get m k = None) \<Longrightarrow> m = []"
  by (cases m) (auto simp: hm_get_None_iff)

lemma chaos_run_clean:
  assumes "inj name" and "distinct (map ch_now draws)"
  shows "run_chaos_monkey name nodes probability draws simulator_new = simulator_new"
proof -
  have "chaos_ok name {} (simulator_new, [])" by (simp add: chaos_ok_def simulator_new_def)
  then obtain past where ok: "chaos_ok name past (fold (chaos_turn name nodes probability) draws (simulator_new, []))"
    using chaos_ok_run [OF _ assms, of "{}"] by blast
  obtain s active where r: "fold (chaos_turn name nodes probability) draws (simulator_new, []) = (s, active)" by fastforce
  let ?s = "fold (\<lambda>(pid, _). heal_partition pid) active s"
  have "chaos_ok name past (?s, [])"
    using chaos_ok_heal_old [of name past s "[]" active "\<lambda>_. True"] ok by (simp add: r)
  then have "ps_partitions ?s = []" "ps_active_partitions ?s = 0"
    using no_entries by (auto simp: chaos_ok_def)
  then have "?s = simulator_new" by (simp add: simulator_new_def)
  then show ?thesis by (simp add: run_chaos_monkey_def r)
qed

lemma inj_partition_name: "inj partition_name"
  by (auto simp: inj_on_def partition_name_def dest: decimal_inject)

text \<open>
  When the chaos monkey has run, every partition it made is healed, if no two were made in the same
  nanosecond; and as the result of a test is only put together then, it always reports no partition events.
\<close>

theorem chaos_monkey_heals_everything:
  assumes "distinct (map ch_now draws)"
  shows "run_chaos_monkey partition_name nodes probability draws simulator_new = simulator_new \<and>
    (\<forall>a b. can_communicate a b (run_chaos_monkey partition_name nodes probability draws simulator_new)) \<and>
    jt_partition_events (finish_test_suite fd ord config duration elapsed results
      (run_chaos_monkey partition_name nodes probability draws simulator_new)) = 0"
  using chaos_run_clean [OF inj_partition_name assms, of nodes probability]
  by (simp add: can_communicate_def finish_test_suite_def Let_def simulator_new_def)

text \<open>Two turns: one partition is made, then healed at the end.\<close>

theorem chaos_monkey_heals_everything_witness:
  "\<exists>pid. \<not> can_communicate ''a'' ''b'' (fst (chaos_turn partition_name [''a'', ''b''] f64_one
       \<lparr>ch_now = 1, ch_roll = 0, ch_size = 0, ch_index = 0\<rparr> (simulator_new, []))) \<and>
     can_communicate ''a'' ''b'' (run_chaos_monkey partition_name [''a'', ''b''] f64_one
       [\<lparr>ch_now = 1, ch_roll = 0, ch_size = 0, ch_index = pid\<rparr>, \<lparr>ch_now = 2, ch_roll = 0, ch_size = 0, ch_index = 0\<rparr>] simulator_new)"
proof -
  have "distinct (map ch_now [\<lparr>ch_now = 1, ch_roll = 0, ch_size = 0, ch_index = 0\<rparr>, \<lparr>ch_now = 2, ch_roll = 0, ch_size = 0, ch_index = 0\<rparr>])"
    by simp
  from chaos_monkey_heals_everything [OF this, of "[''a'', ''b'']" f64_one]
  have "can_communicate ''a'' ''b'' (run_chaos_monkey partition_name [''a'', ''b''] f64_one
       [\<lparr>ch_now = 1, ch_roll = 0, ch_size = 0, ch_index = 0\<rparr>, \<lparr>ch_now = 2, ch_roll = 0, ch_size = 0, ch_index = 0\<rparr>] simulator_new)"
    by blast
  moreover have "f64_less 0 f64_one" by (simp add: f64_less_def f64_is_nan_def f64_rank_def f64_one_def)
  then have "\<not> can_communicate ''a'' ''b'' (fst (chaos_turn partition_name [''a'', ''b''] f64_one
       \<lparr>ch_now = 1, ch_roll = 0, ch_size = 0, ch_index = 0\<rparr> (simulator_new, [])))"
    by (simp add: chaos_turn_def Let_def create_partition_def simulator_new_def can_communicate_def)
  ultimately show ?thesis by blast
qed

subsection \<open>The analyzer of timed operations\<close>

lemma detect_in_windows_failed_read:
  "detect_in_windows ops = Some v \<Longrightarrow> cv_operation2 v \<in> set ops \<and> \<not> tr_success (cv_operation2 v) \<and>
     (\<exists>i vid. tr_operation (cv_operation2 v) = JRead i vid)"
  by (induction ops rule: detect_in_windows.induct)
    (auto simp: detect_violation_def split: option.splits jepsen_operation.splits if_splits)

lemma set_add_operations: "set (an_operations (fold add_operation ops a)) = set (an_operations a) \<union> set ops"
  by (induction ops arbitrary: a) (auto simp: add_operation_def optimize_operation_batch_def Let_def)

lemma operations_by_id_set: "(vid, l) \<in> set (operations_by_id ops) \<Longrightarrow> set l \<subseteq> set ops"
proof -
  let ?add = "\<lambda>op m. case operation_vector (tr_operation op) of None \<Rightarrow> m | Some vid \<Rightarrow> hm_push vid op m"
  have push: "\<forall>e \<in> set m. set (snd e) \<subseteq> A \<Longrightarrow> op \<in> A \<Longrightarrow> \<forall>e \<in> set (hm_push vid op m). set (snd e) \<subseteq> A" for m A op vid
  proof -
    assume m: "\<forall>e \<in> set m. set (snd e) \<subseteq> A" and op: "op \<in> A"
    have "set (hm_list m vid) \<subseteq> A"
    proof (cases "hm_get m vid")
      case (Some l)
      then have "(vid, l) \<in> set m" by (rule hm_get_mem)
      then show ?thesis using m Some by (fastforce simp: hm_list_def)
    qed (simp add: hm_list_def)
    moreover have "set (hm_insert k v m) \<subseteq> insert (k, v) (set m)" for k v
      by (induction k v m rule: hm_insert.induct) auto
    ultimately show ?thesis using m op by (fastforce simp: hm_push_def)
  qed
  have "set ops' \<subseteq> A \<Longrightarrow> \<forall>e \<in> set m. set (snd e) \<subseteq> A \<Longrightarrow> \<forall>e \<in> set (fold ?add ops' m). set (snd e) \<subseteq> A" for ops' m A
  proof (induction ops' arbitrary: m)
    case (Cons op ops')
    have "\<forall>e \<in> set (?add op m). set (snd e) \<subseteq> A"
      using push [OF Cons.prems(2), of op] Cons.prems by (cases "operation_vector (tr_operation op)") simp_all
    with Cons show ?case by simp
  qed simp
  from this [of ops "set ops" "[]"] show "(vid, l) \<in> set (operations_by_id ops) \<Longrightarrow> set l \<subseteq> set ops"
    by (fastforce simp: operations_by_id_def)
qed

text \<open>
  Whatever the reads of a test returned, the analyzer finds the test linearizable as long as no read failed;
  and without the acceleration it finds every test linearizable.
\<close>

theorem analyzer_ignores_read_values:
  assumes "(\<forall>r \<in> set results. (\<exists>i vid. tr_operation r = JRead i vid) \<longrightarrow> tr_success r) \<or> \<not> jc_enable_simdx config"
    and "\<forall>m. set (ord m) = set m"
  shows "lr_is_linearizable (jt_linearizability_result (finish_test_suite fd ord config duration elapsed results s))"
proof -
  let ?a = "fold add_operation results (analyzer_new (jc_consistency_model config) (jc_enable_simdx config))"
  have simdx: "an_simdx_enabled ?a = jc_enable_simdx config"
  proof -
    have "an_simdx_enabled (fold add_operation rs a) = an_simdx_enabled a" for rs a
      by (induction rs arbitrary: a) (simp_all add: add_operation_def optimize_operation_batch_def Let_def)
    then show ?thesis by (simp add: analyzer_new_def)
  qed
  have "analyze_vector_history l = None" if "jc_enable_simdx config" "(vid, l) \<in> set (operations_by_id (an_operations ?a))" for vid l
  proof (rule ccontr)
    assume "analyze_vector_history l \<noteq> None"
    then obtain v where "detect_in_windows (sort_key tr_start_time l) = Some v" by (auto simp: analyze_vector_history_def)
    from detect_in_windows_failed_read [OF this] operations_by_id_set [OF that(2)] set_add_operations [of results]
    show False using assms(1) that(1) by (fastforce simp: analyzer_new_def)
  qed
  then have "jc_enable_simdx config \<Longrightarrow> check_linearizability_simdx ord ?a = []"
    using assms(2) by (auto simp: check_linearizability_simdx_def List.map_filter_def filter_empty_conv)
  then show ?thesis
    by (simp add: finish_test_suite_def check_linearizability_def check_linearizability_scalar_def simdx Let_def)
qed

text \<open>A read that returns nothing although a write has completed before it.\<close>

definition stale_results :: "timed_result list" where
  "stale_results =
     [\<lparr>tr_operation = JWrite 1 ''v'' [0], tr_start_time = 1, tr_end_time = 2, tr_success = True, tr_error = None,
       tr_result_data = None, tr_node_id = ''a''\<rparr>,
      \<lparr>tr_operation = JRead 2 ''v'', tr_start_time = 3, tr_end_time = 4, tr_success = True, tr_error = None,
       tr_result_data = Some [], tr_node_id = ''b''\<rparr>]"

theorem analyzer_ignores_read_values_witness:
  "\<forall>fd. lr_is_linearizable (jt_linearizability_result
     (finish_test_suite fd (\<lambda>m. m) jepsen_config_default 0 5 stale_results simulator_new))"
  using analyzer_ignores_read_values [of stale_results jepsen_config_default "\<lambda>m. m"]
  by (simp add: stale_results_def)

subsection \<open>Throughput\<close>

lemma windows_loop_return:
  assumes "0 < width"
  shows "\<exists>ws. windows_loop fd width end_time ops start = Some ws \<and>
    sum_list (map tw_total_ops ws) \<ge> length (filter (\<lambda>op. start \<le> jo_invoke op \<and> jo_invoke op < end_time) ops)"
proof (induction "end_time - start" arbitrary: start rule: less_induct)
  case less
  show ?case
  proof (cases "start < end_time")
    case False
    then have "filter (\<lambda>op. start \<le> jo_invoke op \<and> jo_invoke op < end_time) ops = []" by (auto simp: filter_empty_conv)
    then show ?thesis using False by (simp add: windows_loop.simps [of _ _ _ _ start])
  next
    case True
    then obtain ws where ws: "windows_loop fd width end_time ops (start + width) = Some ws"
      "sum_list (map tw_total_ops ws) \<ge> length (filter (\<lambda>op. start + width \<le> jo_invoke op \<and> jo_invoke op < end_time) ops)"
    proof -
      have "end_time - (start + width) < end_time - start" using True assms by simp
      from less [OF this] show ?thesis using that by blast
    qed
    have "length (filter (\<lambda>op. start \<le> jo_invoke op \<and> jo_invoke op < end_time) ops) \<le>
        length (filter (\<lambda>op. start \<le> jo_invoke op \<and> jo_invoke op < start + width) ops) +
        length (filter (\<lambda>op. start + width \<le> jo_invoke op \<and> jo_invoke op < end_time) ops)"
      by (induction ops) auto
    then show ?thesis using True ws by (simp add: windows_loop.simps [of _ _ _ _ start] window_of_def Let_def)
  qed
qed

lemma windows_loop_diverges: "start < end_time \<Longrightarrow> windows_loop fd 0 end_time ops start = None"
  using windows_loop.simps [of fd 0 end_time ops start]
  by (cases "windows_loop fd 0 end_time ops start") simp_all

text \<open>
  Termination.  The analysis of the throughput returns exactly if there are no operations, the windows
  have a positive length or the test has no duration; and then every operation invoked during the test is
  counted in some window.
\<close>

theorem throughput_analysis_returns:
  "case analyze_throughput fd h width of
     None \<Rightarrow> hy_operations h \<noteq> [] \<and> width = 0 \<and> hd_start_time (hy_metadata h) < hd_end_time (hy_metadata h)
   | Some ws \<Rightarrow>
       (hy_operations h = [] \<or> 0 < width \<or> hd_end_time (hy_metadata h) \<le> hd_start_time (hy_metadata h)) \<and>
       length (filter (\<lambda>op. hd_start_time (hy_metadata h) \<le> jo_invoke op \<and> jo_invoke op < hd_end_time (hy_metadata h))
         (hy_operations h)) \<le> sum_list (map tw_total_ops ws)"
proof -
  let ?s = "hd_start_time (hy_metadata h)" and ?e = "hd_end_time (hy_metadata h)"
  consider "hy_operations h = []" | "hy_operations h \<noteq> []" "0 < width" | "hy_operations h \<noteq> []" "width = 0" "?e \<le> ?s"
    | "hy_operations h \<noteq> []" "width = 0" "?s < ?e" by fastforce
  then show ?thesis
  proof cases
    case 1
    then show ?thesis by (simp add: analyze_throughput_def)
  next
    case 2
    then show ?thesis using windows_loop_return [OF 2(2), of fd ?e "hy_operations h" ?s]
      by (auto simp: analyze_throughput_def)
  next
    case 3
    then have "filter (\<lambda>op. ?s \<le> jo_invoke op \<and> jo_invoke op < ?e) (hy_operations h) = []" by (auto simp: filter_empty_conv)
    then show ?thesis using 3 by (simp add: analyze_throughput_def windows_loop.simps)
  next
    case 4
    then show ?thesis by (simp add: analyze_throughput_def windows_loop_diverges)
  qed
qed

end
