(* ===== verification/Mmap.thy ===== *)
theory Mmap
  imports SearchTypes Bytes Hnsw
begin

text \<open>
  Memory-mapped vectors and the disk index, \<open>src/src/storage/mmap.rs\<close>.

  The mapping is the list of bytes of its file; a mapped \<open>f32\<close> is read in the machine's little-endian
  order.  Creating and opening the file itself succeed.  The candidates of a search are kept in ascending
  order of the heap's keys, so that the last one is popped.  \<open>None\<close> is a panic.
\<close>

subsection \<open>The vector storage\<close>

record mmap_config =
  mo_path :: string
  mo_dimension :: nat
  mo_max_memory_cache :: nat
  mo_use_direct_io :: bool

definition mmap_config_default :: mmap_config where
  "mmap_config_default =
     \<lparr>mo_path = ''./data/mmap'', mo_dimension = 128, mo_max_memory_cache = 1024 * 1024 * 1024, mo_use_direct_io = True\<rparr>"

record mmap_storage =
  mm_config :: mmap_config
  mm_mmap :: "u8 list"
  mm_count :: nat
  mm_vector_size :: nat

definition mmap_create :: "nat \<Rightarrow> nat \<Rightarrow> mmap_storage" where
  "mmap_create dimension capacity =
     (let vector_size = dimension * 4
      in \<lparr>mm_config = mmap_config_default\<lparr>mo_dimension := dimension\<rparr>,
          mm_mmap = replicate (vector_size * capacity) 0, mm_count = 0, mm_vector_size = vector_size\<rparr>)"

text \<open>The capacity is computed, by a division that panics for the dimension 0, and dropped.\<close>

definition mmap_open :: "u8 list \<Rightarrow> nat \<Rightarrow> mmap_storage option" where
  "mmap_open bytes dimension =
     (let vector_size = dimension * 4
      in if vector_size = 0 then None
         else Some \<lparr>mm_config = mmap_config_default\<lparr>mo_dimension := dimension\<rparr>, mm_mmap = bytes, mm_count = 0,
                mm_vector_size = vector_size\<rparr>)"

text \<open>The \<open>f32\<close>s of a slice of the mapping.\<close>

fun floats_of :: "nat \<Rightarrow> u8 list \<Rightarrow> f32 list" where
  "floats_of 0 bs = []"
| "floats_of (Suc n) bs = u32_of_le (take 4 bs) # floats_of n (drop 4 bs)"

definition mmap_get :: "mmap_storage \<Rightarrow> nat \<Rightarrow> payload vector option option" where
  "mmap_get s idx =
     (if idx \<ge> mm_count s then Some None
      else
        (let offset = idx * mm_vector_size s
         in if offset + mm_vector_size s > length (mm_mmap s) then None
            else Some (Some (vector_new
              (floats_of (mo_dimension (mm_config s)) (take (mm_vector_size s) (drop offset (mm_mmap s))))))))"

definition mmap_append :: "payload vector \<Rightarrow> mmap_storage \<Rightarrow> nat res \<times> mmap_storage" where
  "mmap_append v s =
     (if length (v_data v) \<noteq> mo_dimension (mm_config s)
      then (Inl (EInvalidDimension (mo_dimension (mm_config s)) (length (v_data v))), s)
      else
        (let idx = mm_count s; offset = idx * mm_vector_size s; bytes = concat (map u32_le (v_data v))
         in if offset + mm_vector_size s > length (mm_mmap s) then (Inl EStorage, s)
            else (Inr idx, s\<lparr>mm_mmap := take offset (mm_mmap s) @ bytes @ drop (offset + mm_vector_size s) (mm_mmap s),
                             mm_count := mm_count s + 1\<rparr>)))"

definition mmap_len :: "mmap_storage \<Rightarrow> nat" where
  "mmap_len s = mm_count s"

definition mmap_is_empty :: "mmap_storage \<Rightarrow> bool" where
  "mmap_is_empty s \<longleftrightarrow> mm_count s = 0"

definition mmap_flush :: "mmap_storage \<Rightarrow> unit res" where
  "mmap_flush s = Inr ()"

definition mmap_file_size :: "mmap_storage \<Rightarrow> nat" where
  "mmap_file_size s = length (mm_mmap s)"

subsection \<open>The disk index\<close>

record disk_search_config =
  dk_beam_width :: nat
  dk_search_list_size :: nat
  dk_k :: nat

definition disk_search_config_default :: disk_search_config where
  "disk_search_config_default = \<lparr>dk_beam_width = 4, dk_search_list_size = 64, dk_k = 10\<rparr>"

record disk_index =
  dx_config :: disk_search_config
  dx_pq_vectors :: "u8 list list"
  dx_graph :: "u64 list list"
  dx_storage :: mmap_storage
  dx_entry_point :: u64

definition disk_index_new :: "disk_search_config \<Rightarrow> mmap_storage \<Rightarrow> disk_index" where
  "disk_index_new config s =
     \<lparr>dx_config = config, dx_pq_vectors = [], dx_graph = [], dx_storage = s, dx_entry_point = 0\<rparr>"

definition disk_add :: "u8 list \<Rightarrow> u64 list \<Rightarrow> disk_index \<Rightarrow> u64 \<times> disk_index" where
  "disk_add pq_code neighbors ix =
     (of_nat (length (dx_pq_vectors ix)),
      ix\<lparr>dx_pq_vectors := dx_pq_vectors ix @ [pq_code], dx_graph := dx_graph ix @ [neighbors]\<rparr>)"

text \<open>The exact conversion of a byte to an \<open>f32\<close>, and the greatest finite \<open>f32\<close>.\<close>

definition f32_of_u8 :: "u8 \<Rightarrow> f32" where
  "f32_of_u8 x =
     (let n = unat x in
      if n = 0 then 0 else (let e = bit_length n - 1 in of_nat ((127 + e) * 2 ^ 23 + (n * 2 ^ (23 - e) - 2 ^ 23))))"

definition f32_max :: f32 where "f32_max = 0x7F7FFFFF"

definition pq_distance :: "f32_ops \<Rightarrow> disk_index \<Rightarrow> u8 list \<Rightarrow> nat \<Rightarrow> f32" where
  "pq_distance fp ix query node_id =
     (if node_id \<ge> length (dx_pq_vectors ix) then f32_max
      else fp_sqrt fp (fp_sum fp (map (\<lambda>(a, b).
        let diff = fp_sub fp (f32_of_u8 a) (f32_of_u8 b) in fp_mul fp diff diff)
          (zip (dx_pq_vectors ix ! node_id) query))))"

text \<open>\<open>powi(2)\<close> is the product of the difference with itself.\<close>

definition l2_distance :: "f32_ops \<Rightarrow> f32 list \<Rightarrow> f32 list \<Rightarrow> f32" where
  "l2_distance fp a b =
     fp_sqrt fp (fp_sum fp (map (\<lambda>(x, y). let diff = fp_sub fp x y in fp_mul fp diff diff) (zip a b)))"

text \<open>The batches in which neighbours are visited only group them; a beam width of 0 panics.\<close>

fun expand_neighbors ::
  "f32_ops \<Rightarrow> disk_index \<Rightarrow> u8 list \<Rightarrow> payload vector option \<Rightarrow> u64 list \<Rightarrow> scored_id list \<Rightarrow> scored_id list option"
where
  "expand_neighbors fp ix query_pq query_full [] candidates = Some candidates"
| "expand_neighbors fp ix query_pq query_full (n # ns) candidates =
     (case query_full of
        Some q \<Rightarrow>
          (case mmap_get (dx_storage ix) (unat n) of
             None \<Rightarrow> None
           | Some None \<Rightarrow> expand_neighbors fp ix query_pq query_full ns candidates
           | Some (Some v) \<Rightarrow>
               expand_neighbors fp ix query_pq query_full ns
                 (heap_push (l2_distance fp (v_data q) (v_data v), n) candidates))
      | None \<Rightarrow>
          expand_neighbors fp ix query_pq query_full ns (heap_push (pq_distance fp ix query_pq (unat n), n) candidates))"

definition expand_node ::
  "f32_ops \<Rightarrow> disk_index \<Rightarrow> u8 list \<Rightarrow> payload vector option \<Rightarrow> u64 \<Rightarrow> scored_id list \<Rightarrow> scored_id list option"
where
  "expand_node fp ix query_pq query_full node candidates =
     (if unat node < length (dx_graph ix)
      then if dk_beam_width (dx_config ix) = 0 then None
           else expand_neighbors fp ix query_pq query_full (dx_graph ix ! unat node) candidates
      else Some candidates)"

text \<open>The search: visited nodes, waiting candidates, and the results in the order they are pushed.\<close>

function beam_loop ::
  "f32_ops \<Rightarrow> disk_index \<Rightarrow> u8 list \<Rightarrow> payload vector option \<Rightarrow> u64 list \<Rightarrow> scored_id list \<Rightarrow> scored_id list \<Rightarrow>
   scored_id list option"
where
  "beam_loop fp ix query_pq query_full visited candidates results =
     (if candidates = [] then Some results
      else
        (let node = snd (last candidates); rest = butlast candidates
         in if node \<in> set visited then beam_loop fp ix query_pq query_full visited rest results
            else
              (let visited' = node # visited;
                   results' = results @ [(pq_distance fp ix query_pq (unat node), node)]
               in case expand_node fp ix query_pq query_full node rest of
                    None \<Rightarrow> None
                  | Some candidates' \<Rightarrow>
                      if dk_search_list_size (dx_config ix) \<le> length visited' then Some results'
                      else beam_loop fp ix query_pq query_full visited' candidates' results')))"
  by pat_completeness auto
termination
  by (relation "measures
      [\<lambda>(fp, ix, qp, qf, visited, candidates, results). dk_search_list_size (dx_config ix) - length visited,
       \<lambda>(fp, ix, qp, qf, visited, candidates, results). length candidates]") auto

declare beam_loop.simps [simp del]

text \<open>
  The results leave their heap in the order of its array, \<open>ord\<close>; the first k of them are sorted by a
  comparison that panics on a NaN.
\<close>

definition search_beam ::
  "f32_ops \<Rightarrow> (scored_id list \<Rightarrow> scored_id list) \<Rightarrow> disk_index \<Rightarrow> u8 list \<Rightarrow> payload vector option \<Rightarrow> nat \<Rightarrow>
   (u64 \<times> f32) list option"
where
  "search_beam fp ord ix query_pq query_full k =
     (case beam_loop fp ix query_pq query_full [] [(0, dx_entry_point ix)] [] of
        None \<Rightarrow> None
      | Some results \<Rightarrow>
          (let chosen = take k (map (\<lambda>(d, node). (node, d)) (ord results))
           in if 1 < length chosen \<and> list_ex (\<lambda>r. f32_is_nan (snd r)) chosen then None
              else Some (sort_key (\<lambda>r. f32_rank (snd r)) chosen)))"

definition set_entry_point :: "u64 \<Rightarrow> disk_index \<Rightarrow> disk_index" where
  "set_entry_point i ix = ix\<lparr>dx_entry_point := i\<rparr>"

record disk_stats =
  ds_num_vectors :: nat
  ds_pq_memory_bytes :: nat
  ds_graph_memory_bytes :: nat
  ds_disk_bytes :: nat

text \<open>A vector of the standard library is 24 bytes long.\<close>

definition disk_stats_of :: "disk_index \<Rightarrow> disk_stats" where
  "disk_stats_of ix =
     \<lparr>ds_num_vectors = length (dx_pq_vectors ix),
      ds_pq_memory_bytes = length (dx_pq_vectors ix) * (case dx_pq_vectors ix of [] \<Rightarrow> 0 | v # _ \<Rightarrow> length v),
      ds_graph_memory_bytes = length (dx_graph ix) * 24,
      ds_disk_bytes = mmap_file_size (dx_storage ix)\<rparr>"

end
