(* ===== verification/MmapClaims.thy ===== *)
theory MmapClaims
  imports Mmap "HOL-Library.Multiset"
begin

text \<open>
  Properties of the memory-mapped vectors and of the beam search over them: the storage is a list of
  vectors as long as it stays open, and a search is bounded by its search list.
\<close>

subsection \<open>The storage as a list\<close>

definition slot :: "mmap_storage \<Rightarrow> nat \<Rightarrow> u8 list" where
  "slot s i = take (mm_vector_size s) (drop (i * mm_vector_size s) (mm_mmap s))"

definition mmap_vectors :: "mmap_storage \<Rightarrow> f32 list list" where
  "mmap_vectors s = map (\<lambda>i. floats_of (mo_dimension (mm_config s)) (slot s i)) [0..<mm_count s]"

definition mmap_ok :: "mmap_storage \<Rightarrow> bool" where
  "mmap_ok s \<longleftrightarrow> mm_vector_size s = mo_dimension (mm_config s) * 4 \<and> mm_count s * mm_vector_size s \<le> length (mm_mmap s)"

lemma floats_of_bytes [simp]: "floats_of (length xs) (concat (map u32_le xs)) = xs"
proof (induction xs)
  case (Cons x xs)
  have "take 4 (u32_le x @ bs) = u32_le x" "drop 4 (u32_le x @ bs) = bs" for bs
    by simp_all
  with Cons show ?case by simp
qed simp

lemma length_mmap_vectors [simp]: "length (mmap_vectors s) = mm_count s"
  by (simp add: mmap_vectors_def)

lemma mmap_create_ok: "mmap_ok (mmap_create dimension capacity)" "mmap_vectors (mmap_create dimension capacity) = []"
  by (simp_all add: mmap_ok_def mmap_create_def mmap_vectors_def Let_def)

lemma Suc_slot_le: "(i::nat) < n \<Longrightarrow> i * k + k \<le> n * k"
  by (metis Suc_leI add.commute mult_Suc mult_le_mono1)

lemma mmap_get_vectors:
  assumes "mmap_ok s"
  shows "mmap_get s i = Some (if i < length (mmap_vectors s) then Some (vector_new (mmap_vectors s ! i)) else None)"
proof (cases "i < mm_count s")
  case True
  then have "i * mm_vector_size s + mm_vector_size s \<le> length (mm_mmap s)"
    using Suc_slot_le [OF True, of "mm_vector_size s"] assms unfolding mmap_ok_def by linarith
  with True show ?thesis by (simp add: mmap_get_def mmap_vectors_def slot_def)
qed (simp add: mmap_get_def)

text \<open>Writing a slot changes no other one.\<close>

lemma write_slot:
  assumes "length bs = k" and "n * k + k \<le> length m"
  shows "take k (drop (n * k) (take (n * k) m @ bs @ drop (n * k + k) m)) = bs"
    and "i < n \<Longrightarrow> take k (drop (i * k) (take (n * k) m @ bs @ drop (n * k + k) m)) = take k (drop (i * k) m)"
proof -
  show "take k (drop (n * k) (take (n * k) m @ bs @ drop (n * k + k) m)) = bs"
    using assms by simp
  assume "i < n"
  then have le: "i * k + k \<le> n * k" by (rule Suc_slot_le)
  then have "take k (drop (i * k) (take (n * k) m @ bs @ drop (n * k + k) m)) = take k (drop (i * k) (take (n * k) m))"
    using assms by (simp add: take_drop)
  also have "\<dots> = take k (drop (i * k) m)"
    using le by (simp add: take_drop min_def)
  finally show "take k (drop (i * k) (take (n * k) m @ bs @ drop (n * k + k) m)) = take k (drop (i * k) m)" .
qed

lemma mmap_append_Inr:
  assumes ok: "mmap_ok s" and dim: "length (v_data v) = mo_dimension (mm_config s)"
    and room: "mm_count s * mm_vector_size s + mm_vector_size s \<le> length (mm_mmap s)"
    and s': "mmap_append v s = (r, s')"
  shows "r = Inr (mm_count s)" "mmap_ok s'" "mmap_vectors s' = mmap_vectors s @ [v_data v]"
    "length (mm_mmap s') = length (mm_mmap s)"
proof -
  let ?bs = "concat (map u32_le (v_data v))" and ?k = "mm_vector_size s" and ?n = "mm_count s"
  have len: "length ?bs = ?k"
    using ok dim by (simp add: mmap_ok_def)
  have s'_def: "s' = s\<lparr>mm_mmap := take (?n * ?k) (mm_mmap s) @ ?bs @ drop (?n * ?k + ?k) (mm_mmap s), mm_count := ?n + 1\<rparr>"
    and r: "r = Inr (mm_count s)"
    using s' dim room by (simp_all add: mmap_append_def Let_def)
  show "r = Inr (mm_count s)" by (rule r)
  show "length (mm_mmap s') = length (mm_mmap s)"
    unfolding s'_def using room len by simp
  then show "mmap_ok s'"
    using ok room by (simp add: s'_def mmap_ok_def add.commute)
  show "mmap_vectors s' = mmap_vectors s @ [v_data v]"
    using write_slot [OF len room] dim [symmetric]
    by (simp add: mmap_vectors_def slot_def s'_def)
qed

lemma mmap_append_Inl:
  assumes "length (v_data v) \<noteq> mo_dimension (mm_config s)
      \<or> \<not> mm_count s * mm_vector_size s + mm_vector_size s \<le> length (mm_mmap s)"
  shows "\<exists>e. mmap_append v s = (Inl e, s)"
  using assms by (auto simp: mmap_append_def Let_def)

lemma mmap_append_cases:
  assumes "mmap_ok s" and "mmap_append v s = (r, s')"
  shows "mmap_ok s'"
    and "case r of
        Inr i \<Rightarrow> i = length (mmap_vectors s) \<and> mmap_vectors s' = mmap_vectors s @ [v_data v]
      | Inl e \<Rightarrow> s' = s"
    and "isl r \<longleftrightarrow> length (v_data v) \<noteq> mo_dimension (mm_config s)
      \<or> mmap_file_size s < (length (mmap_vectors s) + 1) * mm_vector_size s"
    and "mmap_get s' i = Some (if i < length (mmap_vectors s') then Some (vector_new (mmap_vectors s' ! i)) else None)"
proof -
  let ?fits = "length (v_data v) = mo_dimension (mm_config s)
      \<and> mm_count s * mm_vector_size s + mm_vector_size s \<le> length (mm_mmap s)"
  consider (fits) "?fits" | (not) e where "\<not> ?fits" "r = Inl e" "s' = s"
    using mmap_append_Inl [of v s] assms(2) by fastforce
  then have all: "mmap_ok s' \<and> (case r of
        Inr i \<Rightarrow> i = length (mmap_vectors s) \<and> mmap_vectors s' = mmap_vectors s @ [v_data v]
      | Inl e \<Rightarrow> s' = s) \<and> (isl r \<longleftrightarrow> \<not> ?fits)"
  proof cases
    case fits
    then show ?thesis
      using mmap_append_Inr [OF assms(1) _ _ assms(2)] by simp
  next
    case not
    then show ?thesis using assms(1) by auto
  qed
  then show "mmap_ok s'" by blast
  then show "mmap_get s' i = Some (if i < length (mmap_vectors s') then Some (vector_new (mmap_vectors s' ! i)) else None)"
    by (rule mmap_get_vectors)
  show "case r of
        Inr i \<Rightarrow> i = length (mmap_vectors s) \<and> mmap_vectors s' = mmap_vectors s @ [v_data v]
      | Inl e \<Rightarrow> s' = s"
    using all by blast
  show "isl r \<longleftrightarrow> length (v_data v) \<noteq> mo_dimension (mm_config s)
      \<or> mmap_file_size s < (length (mmap_vectors s) + 1) * mm_vector_size s"
    using all by (auto simp: mmap_file_size_def add.commute)
qed

text \<open>
  C18.  The memory-mapped storage refines a list of vectors of its dimension: an append either stores the
  vector at the end and returns its index, exactly if the dimension fits and there is room, or changes
  nothing; a read returns the vector of that index bit for bit, and nothing beyond the end.
\<close>

theorem mmap_storage_refines_list:
  assumes "mmap_ok s" and "mmap_append v s = (r, s')"
  shows "mmap_ok s'
    \<and> (case r of
        Inr i \<Rightarrow> i = length (mmap_vectors s) \<and> mmap_vectors s' = mmap_vectors s @ [v_data v]
      | Inl e \<Rightarrow> s' = s)
    \<and> (isl r \<longleftrightarrow> length (v_data v) \<noteq> mo_dimension (mm_config s)
        \<or> mmap_file_size s < (length (mmap_vectors s) + 1) * mm_vector_size s)
    \<and> (\<forall>i. mmap_get s' i =
        Some (if i < length (mmap_vectors s') then Some (vector_new (mmap_vectors s' ! i)) else None))"
  using mmap_append_cases [OF assms] by blast

theorem mmap_storage_refines_list_witness:
  "mmap_get (snd (mmap_append (vector_new [1, 2]) (mmap_create 2 1))) 0 = Some (Some (vector_new [1, 2]))
   \<and> isl (fst (mmap_append (vector_new [1, 2, 3]) (mmap_create 2 1)))"
proof -
  let ?s = "mmap_create 2 1" and ?v = "vector_new [1, 2] :: payload vector" and ?w = "vector_new [1, 2, 3] :: payload vector"
  have dims: "mo_dimension (mm_config ?s) = 2" "mm_vector_size ?s = 8" "length (mm_mmap ?s) = 8"
    by (simp_all add: mmap_create_def mmap_config_default_def)
  obtain r s' where a: "mmap_append ?v ?s = (r, s')" by force
  obtain q t where b: "mmap_append ?w ?s = (q, t)" by force
  have "\<not> isl r"
    using mmap_storage_refines_list [OF mmap_create_ok(1) a] dims
    by (simp add: mmap_create_ok mmap_file_size_def vector_new_def del: length_mmap_vectors One_nat_def)
  then have "mmap_vectors s' = [[1, 2]]"
    using mmap_storage_refines_list [OF mmap_create_ok(1) a]
    by (cases r) (simp_all add: mmap_create_ok vector_new_def)
  then have "mmap_get s' 0 = Some (Some ?v)"
    using mmap_storage_refines_list [OF mmap_create_ok(1) a] by (simp del: length_mmap_vectors)
  moreover have "isl q"
    using mmap_storage_refines_list [OF mmap_create_ok(1) b] dims by (simp add: vector_new_def del: One_nat_def)
  ultimately show ?thesis by (simp add: a b del: One_nat_def)
qed

text \<open>
  Opening the file of a storage again forgets what it holds: nothing can be read, and the first vector
  that is appended overwrites the first one of the file.
\<close>

theorem reopened_mmap_is_overwritten:
  assumes "mmap_ok s" and "0 < mo_dimension (mm_config s)" and "mmap_vectors s \<noteq> []"
    and "length (v_data v) = mo_dimension (mm_config s)"
  shows "\<exists>t t'. mmap_open (mm_mmap s) (mo_dimension (mm_config s)) = Some t
      \<and> (\<forall>i. mmap_get t i = Some None)
      \<and> mmap_append v t = (Inr 0, t')
      \<and> floats_of (mo_dimension (mm_config s)) (slot \<lparr>mm_config = mm_config s, mm_mmap = mm_mmap t',
            mm_count = mm_count s, mm_vector_size = mm_vector_size s\<rparr> 0) = v_data v"
proof -
  obtain t where t: "mmap_open (mm_mmap s) (mo_dimension (mm_config s)) = Some t"
    "mm_count t = 0" "mm_mmap t = mm_mmap s" "mm_vector_size t = mm_vector_size s"
    "mo_dimension (mm_config t) = mo_dimension (mm_config s)" "mmap_ok t"
    using assms(1,2) by (auto simp: mmap_open_def mmap_ok_def mmap_config_default_def)
  have "mm_vector_size s \<le> length (mm_mmap s)"
    using assms(1,3) Suc_slot_le [of 0 "mm_count s" "mm_vector_size s"]
    by (cases "mm_count s") (auto simp: mmap_ok_def mmap_vectors_def)
  then have room: "mm_count t * mm_vector_size t + mm_vector_size t \<le> length (mm_mmap t)"
    using t by simp
  obtain r t' where a: "mmap_append v t = (r, t')" by force
  note A = mmap_append_Inr [OF t(6) _ room a]
  have r: "r = Inr 0" using A(1) assms(4) t by simp
  have k: "mm_vector_size t' = mm_vector_size t" "mm_config t' = mm_config t" "mm_count t' = 1"
    using a room assms(4) t by (auto simp: mmap_append_def Let_def)
  have "mmap_vectors t' = [v_data v]"
    using A(3) assms(4) t by (simp add: mmap_vectors_def)
  then have "floats_of (mo_dimension (mm_config s)) (slot t' 0) = v_data v"
    using k t by (simp add: mmap_vectors_def)
  then have "floats_of (mo_dimension (mm_config s)) (slot \<lparr>mm_config = mm_config s, mm_mmap = mm_mmap t',
            mm_count = mm_count s, mm_vector_size = mm_vector_size s\<rparr> 0) = v_data v"
    using k t by (simp add: slot_def)
  moreover have "\<forall>i. mmap_get t i = Some None" using t by (simp add: mmap_get_def)
  ultimately show ?thesis using t(1) a r by blast
qed

theorem reopened_mmap_is_overwritten_witness:
  "\<exists>t. mmap_open (mm_mmap (snd (mmap_append (vector_new [7]) (mmap_create 1 2)))) 1 = Some t
     \<and> (\<forall>i. mmap_get t i = Some None) \<and> (\<exists>t'. mmap_append (vector_new [9]) t = (Inr 0, t'))"
proof -
  let ?s = "mmap_create 1 2" and ?v = "vector_new [7] :: payload vector"
  obtain r s where a: "mmap_append ?v ?s = (r, s)" by force
  have "mm_count ?s * mm_vector_size ?s + mm_vector_size ?s \<le> length (mm_mmap ?s)" "length (v_data ?v) = mo_dimension (mm_config ?s)"
    by (simp_all add: mmap_create_def mmap_config_default_def vector_new_def)
  note A = mmap_append_Inr [OF mmap_create_ok(1) this(2,1) a]
  have dim: "mo_dimension (mm_config s) = 1"
    using a by (auto simp: mmap_append_def mmap_create_def mmap_config_default_def vector_new_def Let_def)
  show ?thesis
    using reopened_mmap_is_overwritten [OF A(2), of "vector_new [9]"] A(3) dim a
    by (auto simp: vector_new_def)
qed

subsection \<open>The beam search\<close>

lemma beam_loop_results:
  "beam_loop fp ix qp qf visited candidates results = Some rs \<Longrightarrow>
   distinct visited \<Longrightarrow> map snd results = rev visited \<Longrightarrow>
   \<forall>(d, n) \<in> set results. d = pq_distance fp ix qp (unat n) \<Longrightarrow>
   length visited \<le> max 1 (dk_search_list_size (dx_config ix)) - 1 \<Longrightarrow>
   distinct (map snd rs) \<and> length rs \<le> max 1 (dk_search_list_size (dx_config ix))
   \<and> (\<forall>(d, n) \<in> set rs. d = pq_distance fp ix qp (unat n))"
proof (induction fp ix qp qf visited candidates results rule: beam_loop.induct)
  case (1 fp ix qp qf visited candidates results)
  let ?node = "snd (last candidates)" and ?L = "dk_search_list_size (dx_config ix)"
  let ?results' = "results @ [(pq_distance fp ix qp (unat ?node), ?node)]"
  have len: "length results = length visited"
    using "1.prems"(3) by (metis length_map length_rev)
  have now: "distinct (map snd results) \<and> length results \<le> max 1 ?L"
    using "1.prems"(2,3,5) len by simp
  consider (stop) "candidates = []" | (old) "candidates \<noteq> []" "?node \<in> set visited"
    | (new) "candidates \<noteq> []" "?node \<notin> set visited"
    by blast
  then show ?case
  proof cases
    case stop
    then show ?thesis using "1.prems" now by (simp add: beam_loop.simps)
  next
    case old
    then show ?thesis
      using "1.prems"
      by (intro "1.IH"(1)) (simp_all add: beam_loop.simps [of _ _ _ _ _ candidates])
  next
    case new
    obtain cs where cs: "expand_node fp ix qp qf ?node (butlast candidates) = Some cs"
      using "1.prems"(1) new by (subst (asm) beam_loop.simps) (auto simp: Let_def split: option.splits)
    have len': "length (?node # visited) \<le> max 1 ?L" using "1.prems"(5) by simp
    have d': "distinct (map snd ?results')" "length ?results' \<le> max 1 ?L"
      using now "1.prems"(3,5) new(2) len by auto
    show ?thesis
    proof (cases "?L \<le> length (?node # visited)")
      case True
      then have "rs = ?results'"
        using "1.prems"(1) new cs by (subst (asm) beam_loop.simps) (simp add: Let_def)
      then show ?thesis using d' "1.prems"(4) by auto
    next
      case False
      then have "beam_loop fp ix qp qf (?node # visited) cs ?results' = Some rs"
        using "1.prems"(1) new cs by (subst (asm) beam_loop.simps) (simp add: Let_def)
      with False show ?thesis
        using "1.prems" new cs
        by (intro "1.IH"(2) [OF new(1) refl refl new(2) refl refl cs]) auto
    qed
  qed
qed

text \<open>
  A beam search returns at most k vectors and at most as many as its search list holds (one at least), no
  vector twice, each with the distance of its compressed code to the query, nearest first; this holds
  whatever the graph is and in whatever order the heap of results is read.
\<close>

theorem beam_search_bounded:
  assumes "\<And>xs. mset (ord xs) = mset xs" and "search_beam fp ord ix query_pq query_full k = Some rs"
  shows "length rs \<le> min k (max 1 (dk_search_list_size (dx_config ix)))
    \<and> distinct (map fst rs) \<and> sorted (map (\<lambda>r. f32_rank (snd r)) rs)
    \<and> (\<forall>(n, d) \<in> set rs. d = pq_distance fp ix query_pq (unat n))"
proof -
  obtain found where found: "beam_loop fp ix query_pq query_full [] [(0, dx_entry_point ix)] [] = Some found"
    using assms(2) by (auto simp: search_beam_def split: option.splits)
  define chosen where "chosen = take k (map (\<lambda>(d, node). (node, d)) (ord found))"
  have rs: "rs = sort_key (\<lambda>r. f32_rank (snd r)) chosen"
    using assms(2) found by (auto simp: search_beam_def chosen_def Let_def split: if_splits)
  have *: "distinct (map snd found) \<and> length found \<le> max 1 (dk_search_list_size (dx_config ix))
      \<and> (\<forall>(d, n) \<in> set found. d = pq_distance fp ix query_pq (unat n))"
    using beam_loop_results [OF found] by simp
  have set: "set (ord found) = set found" and len: "length (ord found) = length found"
    using assms(1) by (metis set_mset_mset, metis size_mset)
  have "distinct (map snd (ord found))"
    using * assms(1) [of found] by (metis mset_eq_imp_distinct_iff mset_map)
  then have "distinct (map fst chosen)"
    using distinct_take [of "map snd (ord found)" k] by (simp add: chosen_def take_map case_prod_beta comp_def)
  then have "distinct (map fst rs)"
    by (metis mset_eq_imp_distinct_iff mset_map mset_sort rs)
  moreover have "length rs \<le> min k (max 1 (dk_search_list_size (dx_config ix)))"
    using * len by (auto simp: rs chosen_def intro: min.coboundedI1)
  moreover have "\<forall>(n, d) \<in> set rs. d = pq_distance fp ix query_pq (unat n)"
    using * set by (auto simp: rs chosen_def dest!: in_set_takeD)
  ultimately show ?thesis by (simp add: rs)
qed

theorem beam_search_bounded_witness:
  "\<forall>fp. \<exists>rs. search_beam fp (\<lambda>xs. xs) (disk_index_new disk_search_config_default (mmap_create 1 1)) [] None 5 = Some rs
      \<and> length rs \<le> 5"
proof (rule allI)
  fix fp
  let ?ix = "disk_index_new disk_search_config_default (mmap_create 1 1)"
  obtain rs where rs: "search_beam fp (\<lambda>xs. xs) ?ix [] None 5 = Some rs"
    by (simp add: search_beam_def disk_index_new_def beam_loop.simps expand_node_def Let_def
        disk_search_config_default_def)
  have "length rs \<le> min 5 (max 1 (dk_search_list_size (dx_config ?ix)))"
    using beam_search_bounded [OF refl rs] by blast
  with rs show "\<exists>rs. search_beam fp (\<lambda>xs. xs) ?ix [] None 5 = Some rs \<and> length rs \<le> 5"
    by auto
qed

lemma expand_node_codes:
  assumes "0 < dk_beam_width (dx_config ix)"
  shows "\<exists>cs'. expand_node fp ix qp None n cs = Some cs'"
proof -
  have "\<exists>cs'. expand_neighbors fp ix qp None ns cs = Some cs'" for ns cs
    by (induction ns arbitrary: cs) simp_all
  with assms show ?thesis by (simp add: expand_node_def)
qed

lemma beam_loop_two_neighbours:
  assumes "dk_search_list_size (dx_config ix) = 2" and "0 < dk_beam_width (dx_config ix)"
    and "unat (dx_entry_point ix) < length (dx_graph ix)"
    and "dx_graph ix ! unat (dx_entry_point ix) = [near, far]" and "far \<noteq> dx_entry_point ix"
    and "of_rank (pq_distance fp ix qp (unat near)) < of_rank (pq_distance fp ix qp (unat far))"
  shows "beam_loop fp ix qp None [] [(0, dx_entry_point ix)] [] =
    Some [(pq_distance fp ix qp (unat (dx_entry_point ix)), dx_entry_point ix), (pq_distance fp ix qp (unat far), far)]"
proof -
  let ?d = "\<lambda>n. pq_distance fp ix qp (unat n)" and ?e = "dx_entry_point ix"
  have cs: "expand_node fp ix qp None ?e [] = Some [(?d near, near), (?d far, far)]"
    using assms(2-4,6) by (simp add: expand_node_def heap_push_def heap_key_def)
  obtain cs' where cs': "expand_node fp ix qp None far [(?d near, near)] = Some cs'"
    using expand_node_codes [OF assms(2)] by blast
  show ?thesis
    using assms(1,5) cs cs'
    by (subst beam_loop.simps, simp add: Let_def) (subst beam_loop.simps, simp add: Let_def)
qed

text \<open>
  The waiting candidates are kept in a heap that gives the greatest distance first.  So a search that
  may visit two nodes goes from its entry point to the farther of two neighbours, and never returns the
  nearer one.
\<close>

theorem beam_search_misses_nearest:
  assumes "dk_search_list_size (dx_config ix) = 2" and "0 < dk_beam_width (dx_config ix)"
    and "unat (dx_entry_point ix) < length (dx_graph ix)"
    and "dx_graph ix ! unat (dx_entry_point ix) = [near, far]"
    and "far \<noteq> dx_entry_point ix" and "near \<noteq> dx_entry_point ix"
    and "of_rank (pq_distance fp ix query_pq (unat near)) < of_rank (pq_distance fp ix query_pq (unat far))"
    and "\<And>xs. mset (ord xs) = mset xs" and "search_beam fp ord ix query_pq None k = Some rs"
  shows "near \<notin> fst ` set rs"
proof -
  let ?found = "[(pq_distance fp ix query_pq (unat (dx_entry_point ix)), dx_entry_point ix),
    (pq_distance fp ix query_pq (unat far), far)]"
  have "set rs \<subseteq> set (map (\<lambda>(d, n). (n, d)) (ord ?found))"
    using assms(9) beam_loop_two_neighbours [OF assms(1-5,7)]
    by (auto simp: search_beam_def Let_def split: if_splits dest!: in_set_takeD)
  moreover have "set (ord ?found) = set ?found"
    using assms(8) by (metis set_mset_mset)
  moreover have "near \<noteq> far" using assms(7) by blast
  ultimately show ?thesis using assms(6) by auto
qed

definition star_index :: disk_index where
  "star_index = \<lparr>dx_config = \<lparr>dk_beam_width = 4, dk_search_list_size = 2, dk_k = 10\<rparr>,
     dx_pq_vectors = [[0], [1], [9]], dx_graph = [[1, 2], [], []], dx_storage = mmap_create 1 0, dx_entry_point = 0\<rparr>"

definition code_floats :: f32_ops where
  "code_floats = \<lparr>fp_zero = 0, fp_add = (+), fp_sub = (-), fp_mul = (\<lambda>a b. a), fp_abs = id, fp_sqrt = id,
     fp_sum = (\<lambda>xs. if xs = [] then 0 else hd xs), fp_cosine = (\<lambda>a b. None)\<rparr>"

lemma star_near_far:
  "of_rank (pq_distance code_floats star_index [0] 1) < of_rank (pq_distance code_floats star_index [0] 2)"
  by (simp add: code_floats_def star_index_def pq_distance_def f32_of_u8_def bit_length.simps of_rank_def
      f32_rank_def f32_is_nan_def Let_def)

theorem beam_search_misses_nearest_witness:
  "\<exists>rs. search_beam code_floats (\<lambda>xs. xs) star_index [0] None 1 = Some rs \<and> 1 \<notin> fst ` set rs
      \<and> of_rank (pq_distance code_floats star_index [0] 1) < of_rank (pq_distance code_floats star_index [0] 2)"
proof -
  have star: "dk_search_list_size (dx_config star_index) = 2" "0 < dk_beam_width (dx_config star_index)"
    "unat (dx_entry_point star_index) < length (dx_graph star_index)"
    "dx_graph star_index ! unat (dx_entry_point star_index) = [1, 2]"
    "2 \<noteq> dx_entry_point star_index" "1 \<noteq> dx_entry_point star_index"
    by (simp_all add: star_index_def)
  have less: "of_rank (pq_distance code_floats star_index [0] (unat (1::u64)))
      < of_rank (pq_distance code_floats star_index [0] (unat (2::u64)))"
    using star_near_far by simp
  obtain rs where rs: "search_beam code_floats (\<lambda>xs. xs) star_index [0] None 1 = Some rs"
    using beam_loop_two_neighbours [OF star(1-5) less] by (simp add: search_beam_def Let_def)
  show ?thesis
    using beam_search_misses_nearest [OF star less refl rs] rs star_near_far by blast
qed

end
