(* ===== verification/Middleware.thy ===== *)
theory Middleware
  imports Validation
begin

text \<open>
  The middleware of the HTTP interfaces, \<open>src/src/api/middleware.rs\<close>: the rate limiter, the security
  headers, the timeout and the size limit.

  Requests and responses carry their headers as association lists with lower-case names.  A middleware is
  a function on the inner service \<open>next\<close>, which maps a request and a state to a response and a state.
  Times are nanoseconds of a monotonic clock.  Logging is left out.
\<close>

subsection \<open>The rate limiter\<close>

record rate_limit_config =
  rl_max_requests :: u32
  rl_window_duration :: nat
  rl_sliding_window :: bool

definition rate_limit_config_default :: rate_limit_config where
  "rate_limit_config_default = \<lparr>rl_max_requests = 1000, rl_window_duration = secs 60, rl_sliding_window = True\<rparr>"

record rate_limiter =
  lm_config :: rate_limit_config
  lm_clients :: "(string \<times> u32 \<times> nat) list"

definition rate_limiter_new :: "rate_limit_config \<Rightarrow> rate_limiter" where
  "rate_limiter_new config = \<lparr>lm_config = config, lm_clients = []\<rparr>"

text \<open>\<open>duration_since\<close> of an earlier time is 0.\<close>

definition is_allowed :: "nat \<Rightarrow> string \<Rightarrow> rate_limiter \<Rightarrow> bool \<times> rate_limiter" where
  "is_allowed now ip l =
     (case hm_get (lm_clients l) ip of
        Some (count, window_start) \<Rightarrow>
          if rl_window_duration (lm_config l) \<le> now - window_start
          then (True, l\<lparr>lm_clients := hm_insert ip (1, now) (lm_clients l)\<rparr>)
          else if rl_max_requests (lm_config l) \<le> count then (False, l)
          else (True, l\<lparr>lm_clients := hm_insert ip (count + 1, window_start) (lm_clients l)\<rparr>)
      | None \<Rightarrow> (True, l\<lparr>lm_clients := hm_insert ip (1, now) (lm_clients l)\<rparr>))"

definition remaining_requests :: "nat \<Rightarrow> string \<Rightarrow> rate_limiter \<Rightarrow> u32" where
  "remaining_requests now ip l =
     (case hm_get (lm_clients l) ip of
        Some (count, window_start) \<Rightarrow>
          if rl_window_duration (lm_config l) \<le> now - window_start then rl_max_requests (lm_config l)
          else if count \<le> rl_max_requests (lm_config l) then rl_max_requests (lm_config l) - count
          else 0
      | None \<Rightarrow> rl_max_requests (lm_config l))"

definition cleanup_expired :: "nat \<Rightarrow> rate_limiter \<Rightarrow> rate_limiter" where
  "cleanup_expired now l =
     l\<lparr>lm_clients := filter (\<lambda>(_, _, window_start). now - window_start < rl_window_duration (lm_config l) * 2) (lm_clients l)\<rparr>"

subsection \<open>Requests and responses\<close>

record 'q http_request =
  hq_headers :: "(string \<times> string) list"
  hq_body :: 'q

record 'b http_response =
  hr_status :: nat
  hr_headers :: "(string \<times> string) list"
  hr_body :: "error_response + 'b"

type_synonym ('q, 'b, 's) service = "'q http_request \<Rightarrow> 's \<Rightarrow> 'b http_response \<times> 's"

definition error_http :: "api_error \<Rightarrow> 'b http_response" where
  "error_http e = (let r = into_response e in \<lparr>hr_status = er_http_status r, hr_headers = [], hr_body = Inl r\<rparr>)"

definition add_headers :: "(string \<times> string) list \<Rightarrow> 'b http_response \<Rightarrow> 'b http_response" where
  "add_headers hs r = r\<lparr>hr_headers := fold (\<lambda>(k, v). hm_insert k v) hs (hr_headers r)\<rparr>"

text \<open>\<open>HeaderValue::to_str\<close>: visible ASCII characters and tabs.\<close>

definition header_to_str :: "string \<Rightarrow> string option" where
  "header_to_str s =
     (if list_all (\<lambda>c. let n = (of_char c :: nat) in 32 \<le> n \<and> n < 127 \<or> n = 9) s then Some s else None)"

text \<open>\<open>trim\<close> on such a string.\<close>

definition trim_ascii :: "string \<Rightarrow> string" where
  "trim_ascii s =
     (let blank = (\<lambda>c. (of_char c :: nat) \<in> {9, 32}) in rev (dropWhile blank (rev (dropWhile blank s))))"

definition extract_client_ip :: "'q http_request \<Rightarrow> string" where
  "extract_client_ip rq =
     (case Option.bind (hm_get (hq_headers rq) ''x-forwarded-for'') header_to_str of
        Some forwarded \<Rightarrow> trim_ascii (takeWhile (\<lambda>c. c \<noteq> CHR '','') forwarded)
      | None \<Rightarrow>
          (case Option.bind (hm_get (hq_headers rq) ''x-real-ip'') header_to_str of
             Some ip \<Rightarrow> ip
           | None \<Rightarrow> ''unknown''))"

subsection \<open>The middleware\<close>

text \<open>\<open>now\<close> is the time of the check, \<open>later\<close> that of the count of the remaining requests.\<close>

definition rate_limit_middleware ::
  "nat \<Rightarrow> nat \<Rightarrow> ('q, 'b, 's) service \<Rightarrow> 'q http_request \<Rightarrow> rate_limiter \<times> 's \<Rightarrow> 'b http_response \<times> rate_limiter \<times> 's"
where
  "rate_limit_middleware now later nxt rq = (\<lambda>(l, s).
     let ip = extract_client_ip rq; (allowed, l1) = is_allowed now ip l;
         limit = (''x-ratelimit-limit'', decimal (unat (rl_max_requests (lm_config l))));
         remaining = (''x-ratelimit-remaining'', decimal (unat (remaining_requests later ip l1)))
     in if \<not> allowed
        then
          (let retry = decimal (rl_window_duration (lm_config l) div secs 1)
           in (add_headers [limit, remaining, (''x-ratelimit-reset'', retry), (''retry-after'', retry)]
                 (error_http (ApiRateLimitExceeded (rl_max_requests (lm_config l)) (retry @ ''s''))), l1, s))
        else
          (let (response, s') = nxt rq s in (add_headers [limit, remaining] response, l1, s')))"

definition security_headers :: "(string \<times> string) list" where
  "security_headers =
     [(''x-content-type-options'', ''nosniff''),
      (''x-frame-options'', ''DENY''),
      (''x-xss-protection'', ''1; mode=block''),
      (''referrer-policy'', ''strict-origin-when-cross-origin''),
      (''content-security-policy'', ''default-src ''@ [CHR 0x27] @ ''self'' @ [CHR 0x27]),
      (''access-control-allow-origin'', ''*''),
      (''access-control-allow-methods'', ''GET, POST, PUT, DELETE, OPTIONS''),
      (''access-control-allow-headers'', ''Content-Type, Authorization, X-API-Key''),
      (''access-control-max-age'', ''86400'')]"

definition security_headers_middleware :: "('q, 'b, 's) service \<Rightarrow> ('q, 'b, 's) service" where
  "security_headers_middleware nxt rq s = (let (response, s') = nxt rq s in (add_headers security_headers response, s'))"

definition request_logging_middleware :: "('q, 'b, 's) service \<Rightarrow> ('q, 'b, 's) service" where
  "request_logging_middleware nxt rq s = nxt rq s"

text \<open>
  The inner service has no response when it has not answered within 30 seconds; its state is then the one
  it has reached.
\<close>

definition timeout_middleware ::
  "('q http_request \<Rightarrow> 's \<Rightarrow> 'b http_response option \<times> 's) \<Rightarrow> ('q, 'b, 's) service"
where
  "timeout_middleware nxt rq s =
     (case nxt rq s of
        (Some response, s') \<Rightarrow> (response, s')
      | (None, s') \<Rightarrow> (error_http (ApiTimeout 30000), s'))"

definition MAX_REQUEST_SIZE :: u64 where
  "MAX_REQUEST_SIZE = 10 * 1024 * 1024"

definition request_size_limit_middleware :: "('q, 'b, 's) service \<Rightarrow> ('q, 'b, 's) service" where
  "request_size_limit_middleware nxt rq s =
     (case Option.bind (Option.bind (hm_get (hq_headers rq) ''content-length'') header_to_str) parse_u64 of
        Some len \<Rightarrow> if MAX_REQUEST_SIZE < len then (error_http ApiInvalidRequest, s) else nxt rq s
      | None \<Rightarrow> nxt rq s)"

end
