(* ===== verification/MiddlewareClaims.thy ===== *)
theory MiddlewareClaims
  imports Middleware
begin

text \<open>
  Properties of the rate limiter: what a client can send, and that removing expired entries is invisible.
\<close>

subsection \<open>Decisions\<close>

datatype limiter_event = Check nat string | Cleanup nat

fun event_time :: "limiter_event \<Rightarrow> nat" where
  "event_time (Check t _) = t"
| "event_time (Cleanup t) = t"

fun is_check :: "limiter_event \<Rightarrow> bool" where
  "is_check (Check _ _) = True"
| "is_check (Cleanup _) = False"

text \<open>The decisions of a run.\<close>

fun limiter_run :: "limiter_event list \<Rightarrow> rate_limiter \<Rightarrow> bool list" where
  "limiter_run [] l = []"
| "limiter_run (Check t ip # evs) l = (let (ok, l') = is_allowed t ip l in ok # limiter_run evs l')"
| "limiter_run (Cleanup t # evs) l = limiter_run evs (cleanup_expired t l)"

text \<open>The entry of one client, and what a check does to it.\<close>

definition check_entry :: "rate_limit_config \<Rightarrow> nat \<Rightarrow> (u32 \<times> nat) option \<Rightarrow> bool \<times> (u32 \<times> nat) option" where
  "check_entry cfg t e =
     (case e of
        Some (c, w) \<Rightarrow>
          if rl_window_duration cfg \<le> t - w then (True, Some (1, t))
          else if rl_max_requests cfg \<le> c then (False, e)
          else (True, Some (c + 1, w))
      | None \<Rightarrow> (True, Some (1, t)))"

lemma is_allowed_entry:
  "fst (is_allowed t ip l) = fst (check_entry (lm_config l) t (hm_get (lm_clients l) ip))"
  "lm_config (snd (is_allowed t ip l)) = lm_config l"
  "hm_get (lm_clients (snd (is_allowed t ip l))) k =
     (if k = ip then snd (check_entry (lm_config l) t (hm_get (lm_clients l) ip)) else hm_get (lm_clients l) k)"
  by (auto simp: is_allowed_def check_entry_def split: option.split)

lemma is_allowed_keeps_ok: "hm_ok (lm_clients l) \<Longrightarrow> hm_ok (lm_clients (snd (is_allowed t ip l)))"
  by (auto simp: is_allowed_def split: option.split)

lemma hm_get_filter:
  "hm_ok m \<Longrightarrow> hm_get (filter P m) k = (case hm_get m k of Some v \<Rightarrow> if P (k, v) then Some v else None | None \<Rightarrow> None)"
  by (induction m) (auto simp: hm_get_def hm_ok_def map_of_eq_None_iff split: option.split)

lemma hm_ok_filter: "hm_ok m \<Longrightarrow> hm_ok (filter P m)"
  by (simp add: hm_ok_def distinct_map_filter)

subsection \<open>Cleaning up\<close>

text \<open>An entry that is expired at time \<open>T\<close> may be lost; a limiter may have lost such entries.\<close>

definition may_lose :: "rate_limit_config \<Rightarrow> nat \<Rightarrow> (u32 \<times> nat) option \<Rightarrow> (u32 \<times> nat) option \<Rightarrow> bool" where
  "may_lose cfg T e e' \<longleftrightarrow> e' = e \<or> e' = None \<and> (\<exists>c w. e = Some (c, w) \<and> rl_window_duration cfg \<le> T - w)"

definition forgets :: "nat \<Rightarrow> rate_limiter \<Rightarrow> rate_limiter \<Rightarrow> bool" where
  "forgets T l l' \<longleftrightarrow> lm_config l' = lm_config l \<and> hm_ok (lm_clients l) \<and> hm_ok (lm_clients l') \<and>
     (\<forall>ip. may_lose (lm_config l) T (hm_get (lm_clients l) ip) (hm_get (lm_clients l') ip))"

lemma may_lose_refl [simp]: "may_lose cfg T e e"
  by (simp add: may_lose_def)

lemma may_lose_later: "may_lose cfg T e e' \<Longrightarrow> T \<le> T' \<Longrightarrow> may_lose cfg T' e e'"
  by (fastforce simp: may_lose_def)

lemma may_lose_check: "may_lose cfg T e e' \<Longrightarrow> check_entry cfg T e' = check_entry cfg T e"
  by (auto simp: may_lose_def check_entry_def)

lemma forgets_refl: "hm_ok (lm_clients l) \<Longrightarrow> forgets T l l"
  by (simp add: forgets_def)

lemma forgets_later: "forgets T l l' \<Longrightarrow> T \<le> T' \<Longrightarrow> forgets T' l l'"
  by (auto simp: forgets_def intro: may_lose_later)

lemma cleanup_get:
  "hm_ok (lm_clients l) \<Longrightarrow> may_lose (lm_config l) T (hm_get (lm_clients l) ip) (hm_get (lm_clients (cleanup_expired T l)) ip)"
  by (auto simp: cleanup_expired_def hm_get_filter may_lose_def split: option.split)

lemma forgets_cleanup:
  assumes "forgets T l l'"
  shows "forgets T l (cleanup_expired T l')"
proof -
  have "may_lose cfg T e e'' " if "may_lose cfg T e e'" "may_lose cfg T e' e''" for cfg e e' e''
    using that by (auto simp: may_lose_def)
  moreover have "lm_config (cleanup_expired T l') = lm_config l'" "hm_ok (lm_clients (cleanup_expired T l'))"
    using assms by (simp_all add: cleanup_expired_def forgets_def hm_ok_filter)
  ultimately show ?thesis
    using assms cleanup_get [of l' T] by (simp add: forgets_def) metis
qed

lemma forgets_check:
  assumes "forgets T l l'"
  shows "fst (is_allowed T ip l') = fst (is_allowed T ip l)"
    and "forgets T (snd (is_allowed T ip l)) (snd (is_allowed T ip l'))"
proof -
  have cfg: "lm_config l' = lm_config l" using assms by (simp add: forgets_def)
  have same: "check_entry (lm_config l) T (hm_get (lm_clients l') ip) = check_entry (lm_config l) T (hm_get (lm_clients l) ip)"
    using assms by (simp add: forgets_def may_lose_check)
  show "fst (is_allowed T ip l') = fst (is_allowed T ip l)"
    by (simp add: is_allowed_entry(1) cfg same)
  show "forgets T (snd (is_allowed T ip l)) (snd (is_allowed T ip l'))"
    using assms same by (simp add: forgets_def is_allowed_entry is_allowed_keeps_ok cfg)
qed

lemma forgets_run:
  "forgets T l l' \<Longrightarrow> sorted (T # map event_time evs) \<Longrightarrow> limiter_run evs l' = limiter_run (filter is_check evs) l"
proof (induction evs arbitrary: T l l')
  case (Cons ev evs)
  have later: "forgets (event_time ev) l l'"
    using Cons.prems by (auto intro: forgets_later)
  show ?case
  proof (cases ev)
    case (Check t ip)
    with later have "forgets t l l'" by simp
    with Cons.IH [OF forgets_check(2) [OF this, of ip]] Cons.prems(2) forgets_check(1) [OF this, of ip] Check
    show ?thesis by (simp add: case_prod_beta)
  next
    case (Cleanup t)
    with Cons.IH [OF forgets_cleanup [OF later]] Cons.prems(2) show ?thesis by simp
  qed
qed simp

text \<open>
  Removing expired entries never changes a decision: a run with clean-ups at any times decides as the same
  run without them.
\<close>

theorem cleanup_is_invisible:
  assumes "sorted (map event_time evs)"
  shows "limiter_run evs (rate_limiter_new cfg) = limiter_run (filter is_check evs) (rate_limiter_new cfg)"
  using forgets_run [of 0 "rate_limiter_new cfg" "rate_limiter_new cfg" evs] assms
  by (simp add: forgets_refl rate_limiter_new_def)

theorem cleanup_is_invisible_witness:
  "limiter_run [Check 0 ''a'', Cleanup (secs 200), Check (secs 200) ''a''] (rate_limiter_new rate_limit_config_default)
     = limiter_run [Check 0 ''a'', Check (secs 200) ''a''] (rate_limiter_new rate_limit_config_default)"
  using cleanup_is_invisible [of "[Check 0 ''a'', Cleanup (secs 200), Check (secs 200) ''a'']" rate_limit_config_default]
  by simp

subsection \<open>What a client can send\<close>

text \<open>The requests of one client that are allowed in the time from \<open>a\<close> up to before \<open>b\<close>.\<close>

fun allowed_between :: "string \<Rightarrow> nat \<Rightarrow> nat \<Rightarrow> (nat \<times> string) list \<Rightarrow> rate_limiter \<Rightarrow> nat" where
  "allowed_between ip a b [] l = 0"
| "allowed_between ip a b ((t, c) # rest) l =
     (let (ok, l') = is_allowed t c l
      in (if ok \<and> c = ip \<and> a \<le> t \<and> t < b then 1 else 0) + allowed_between ip a b rest l')"

text \<open>What is left to a client after \<open>a\<close>, by its entry.\<close>

definition quota :: "rate_limit_config \<Rightarrow> nat" where
  "quota cfg = max 1 (unat (rl_max_requests cfg))"

definition entry_left :: "rate_limit_config \<Rightarrow> nat \<Rightarrow> (u32 \<times> nat) option \<Rightarrow> nat" where
  "entry_left cfg a e =
     (case e of None \<Rightarrow> quota cfg | Some (c, w) \<Rightarrow> (if a \<le> w then quota cfg else 2 * quota cfg) - unat c)"

definition entry_ok :: "rate_limit_config \<Rightarrow> (u32 \<times> nat) option \<Rightarrow> bool" where
  "entry_ok cfg e \<longleftrightarrow> (case e of None \<Rightarrow> True | Some (c, w) \<Rightarrow> unat c \<le> quota cfg)"

lemma unat_below_max: "\<not> (m :: u32) \<le> c \<Longrightarrow> unat (c + 1) = unat c + 1 \<and> unat c + 1 \<le> unat m"
  using unat_u32_less [of m] by (simp add: not_le word_less_nat_alt unat_word_ariths)

lemma check_entry_ok: "entry_ok cfg e \<Longrightarrow> entry_ok cfg (snd (check_entry cfg t e))"
  using unat_below_max
  by (fastforce simp: entry_ok_def check_entry_def quota_def split: option.split)

lemma is_allowed_entry_ok:
  "entry_ok (lm_config l) (hm_get (lm_clients l) ip) \<Longrightarrow>
   entry_ok (lm_config (snd (is_allowed t c l))) (hm_get (lm_clients (snd (is_allowed t c l))) ip)"
  by (auto simp: is_allowed_entry check_entry_ok)

lemma check_entry_left:
  assumes "entry_ok cfg e" and "a \<le> t" and "t < a + rl_window_duration cfg" and "fst (check_entry cfg t e)"
  shows "1 + entry_left cfg a (snd (check_entry cfg t e)) \<le> entry_left cfg a e"
  using assms unat_below_max
  by (fastforce simp: entry_ok_def check_entry_def quota_def entry_left_def max_def split: option.splits if_splits)

text \<open>All requests of a run that come after \<open>a\<close>, and then any run.\<close>

lemma allowed_late:
  "sorted (map fst rs) \<Longrightarrow> \<forall>(t, c) \<in> set rs. a \<le> t \<Longrightarrow> entry_ok (lm_config l) (hm_get (lm_clients l) ip) \<Longrightarrow>
   allowed_between ip a (a + rl_window_duration (lm_config l)) rs l \<le> entry_left (lm_config l) a (hm_get (lm_clients l) ip)"
proof (induction rs arbitrary: l)
  case (Cons r rs)
  obtain t c where r: "r = (t, c)" by force
  let ?b = "a + rl_window_duration (lm_config l)" and ?e = "hm_get (lm_clients l) ip"
    and ?l = "snd (is_allowed t c l)"
  have IH: "allowed_between ip a ?b rs ?l \<le> entry_left (lm_config l) a (hm_get (lm_clients ?l) ip)"
    using Cons.IH [OF _ _ is_allowed_entry_ok [OF Cons.prems(3)]] Cons.prems(1,2)
    by (simp add: is_allowed_entry(2) r)
  show ?case
  proof (cases "c = ip")
    case True
    consider (out) "?b \<le> t" | (refused) "\<not> fst (check_entry (lm_config l) t ?e)"
      | (counted) "t < ?b" "fst (check_entry (lm_config l) t ?e)"
      by linarith
    then show ?thesis
    proof cases
      case out
      then have "allowed_between ip a ?b rs l' = 0" for l'
        using Cons.prems(1) r by (induction rs arbitrary: l') (auto simp: case_prod_beta)
      with out show ?thesis by (simp add: r case_prod_beta)
    next
      case refused
      then have "snd (check_entry (lm_config l) t ?e) = ?e"
        by (auto simp: check_entry_def split: option.splits if_splits)
      with refused IH True show ?thesis by (simp add: r case_prod_beta is_allowed_entry)
    next
      case counted
      with check_entry_left [of "lm_config l" ?e a t] Cons.prems IH True show ?thesis
        by (simp add: r case_prod_beta is_allowed_entry)
    qed
  next
    case False
    with IH show ?thesis by (simp add: r case_prod_beta is_allowed_entry)
  qed
qed simp

lemma allowed_at_most:
  "sorted (map fst rs) \<Longrightarrow> entry_ok (lm_config l) (hm_get (lm_clients l) ip) \<Longrightarrow>
   allowed_between ip a (a + rl_window_duration (lm_config l)) rs l \<le> 2 * quota (lm_config l)"
proof (induction rs arbitrary: l)
  case (Cons r rs)
  obtain t c where r: "r = (t, c)" by force
  show ?case
  proof (cases "a \<le> t")
    case True
    then have "\<forall>(t, c) \<in> set (r # rs). a \<le> t" using Cons.prems(1) r by fastforce
    from allowed_late [OF Cons.prems(1) this Cons.prems(2)]
    show ?thesis by (auto simp: entry_left_def quota_def split: option.splits if_splits)
  next
    case False
    with Cons.IH [OF _ is_allowed_entry_ok [OF Cons.prems(2), of t c]] Cons.prems(1) show ?thesis
      by (simp add: r case_prod_beta is_allowed_entry(2))
  qed
qed simp

text \<open>
  C35.  In any stretch of time as long as the window a client gets at most twice the number of requests that the
  limit names (and one, if that is zero), whatever it and the others send.
\<close>

theorem rate_limit_bound:
  assumes "sorted (map fst rs)"
  shows "allowed_between ip a (a + rl_window_duration cfg) rs (rate_limiter_new cfg) \<le> 2 * max 1 (unat (rl_max_requests cfg))"
  using allowed_at_most [OF assms, of "rate_limiter_new cfg" ip a]
  by (simp add: rate_limiter_new_def entry_ok_def quota_def)

theorem rate_limit_bound_witness:
  "allowed_between ''a'' 0 (0 + secs 60) (replicate 9 (5, ''a'')) (rate_limiter_new (rate_limit_config_default\<lparr>rl_max_requests := 2\<rparr>))
     \<le> 4"
  using rate_limit_bound [of "replicate 9 (5, ''a'')" "''a''" 0 "rate_limit_config_default\<lparr>rl_max_requests := 2\<rparr>"]
  by (simp add: rate_limit_config_default_def del: replicate.simps)

lemma check_many:
  "hm_get (lm_clients l) ip = Some (c, w) \<Longrightarrow> t - w < rl_window_duration (lm_config l) \<Longrightarrow>
   unat c + n \<le> unat (rl_max_requests (lm_config l)) \<Longrightarrow>
   \<exists>l'. (\<forall>evs. limiter_run (replicate n (Check t ip) @ evs) l = replicate n True @ limiter_run evs l')
     \<and> lm_config l' = lm_config l \<and> hm_get (lm_clients l') ip = Some (c + of_nat n, w)"
proof (induction n arbitrary: l c)
  case 0
  then show ?case by (intro exI [of _ l]) simp
next
  case (Suc n)
  let ?l = "snd (is_allowed t ip l)"
  have less: "c < rl_max_requests (lm_config l)"
    using Suc.prems(3) by (simp add: word_less_nat_alt)
  then have "unat (c + 1) = unat c + 1" by (simp add: unat_below_max not_le)
  moreover have e: "check_entry (lm_config l) t (Some (c, w)) = (True, Some (c + 1, w))"
    using less Suc.prems(2) by (auto simp: check_entry_def)
  ultimately obtain l' where
    "\<forall>evs. limiter_run (replicate n (Check t ip) @ evs) ?l = replicate n True @ limiter_run evs l'"
    "lm_config l' = lm_config l" "hm_get (lm_clients l') ip = Some (c + 1 + of_nat n, w)"
    using Suc.IH [of ?l "c + 1"] Suc.prems by (auto simp: is_allowed_entry)
  with e Suc.prems(1) show ?case
    by (intro exI [of _ l']) (simp add: case_prod_beta is_allowed_entry add.assoc)
qed

text \<open>
  The windows are fixed, also when the configuration asks for a sliding one: a client that keeps most of
  its requests for the end of a window and sends the next window's right after gets nearly twice the limit
  at once.
\<close>

theorem windows_do_not_slide:
  assumes "0 < rl_max_requests cfg" and "0 < rl_window_duration cfg"
  shows "limiter_run (Check 0 ip # replicate (unat (rl_max_requests cfg) - 1) (Check (rl_window_duration cfg - 1) ip)
      @ Check (rl_window_duration cfg) ip # replicate (unat (rl_max_requests cfg) - 1) (Check (rl_window_duration cfg) ip))
      (rate_limiter_new cfg) = replicate (2 * unat (rl_max_requests cfg)) True"
proof -
  let ?W = "rl_window_duration cfg" and ?m = "unat (rl_max_requests cfg)"
  have m: "?m > 0" using assms(1) by (simp add: word_less_nat_alt)
  let ?l1 = "snd (is_allowed 0 ip (rate_limiter_new cfg))"
  have l1: "hm_get (lm_clients ?l1) ip = Some (1, 0)" "lm_config ?l1 = cfg" "fst (is_allowed 0 ip (rate_limiter_new cfg))"
    by (simp_all add: is_allowed_entry rate_limiter_new_def check_entry_def)
  obtain l2 where l2: "\<forall>evs. limiter_run (replicate (?m - 1) (Check (?W - 1) ip) @ evs) ?l1 = replicate (?m - 1) True @ limiter_run evs l2"
    "lm_config l2 = cfg" "hm_get (lm_clients l2) ip = Some (1 + of_nat (?m - 1), 0)"
    using check_many [OF l1(1), of "?W - 1" "?m - 1"] l1(2) assms(2) m by auto
  let ?l3 = "snd (is_allowed ?W ip l2)"
  have l3: "hm_get (lm_clients ?l3) ip = Some (1, ?W)" "lm_config ?l3 = cfg" "fst (is_allowed ?W ip l2)"
    using l2 by (simp_all add: is_allowed_entry check_entry_def)
  obtain l4 where l4: "\<forall>evs. limiter_run (replicate (?m - 1) (Check ?W ip) @ evs) ?l3 = replicate (?m - 1) True @ limiter_run evs l4"
    using check_many [OF l3(1), of ?W "?m - 1"] l3(2) assms(2) m by auto
  have "replicate (2 * ?m) True = True # replicate (?m - 1) True @ True # replicate (?m - 1) True"
    using m by (cases ?m) (simp_all add: replicate_add [symmetric] replicate_app_Cons_same mult_2)
  then show ?thesis
    using l1(3) l3(3) spec [OF l2(1), of "Check ?W ip # replicate (?m - 1) (Check ?W ip)"] spec [OF l4, of "[]"]
    by (simp add: case_prod_beta)
qed

theorem windows_do_not_slide_witness:
  "limiter_run (Check 0 ''a'' # replicate 999 (Check (secs 60 - 1) ''a'')
      @ Check (secs 60) ''a'' # replicate 999 (Check (secs 60) ''a''))
      (rate_limiter_new rate_limit_config_default) = replicate 2000 True"
  using windows_do_not_slide [of rate_limit_config_default "''a''"]
  by (simp add: rate_limit_config_default_def secs_def del: replicate.simps limiter_run.simps)

end
