(* ===== verification/QdrantApi.thy ===== *)
theory QdrantApi
  imports Collection Validation Snapshots Middleware
begin

text \<open>
  The Qdrant-compatible interface, \<open>src/src/api/qdrant_compat.rs\<close>: its requests, its handlers over the
  collection manager and the snapshot manager, and the stack of middleware around them.

  A request has been deserialized and a response is not yet serialized.  Messages and elapsed times are
  left out of responses.  The shared collection that a handler works on is the one the manager holds.  A
  handler yields \<open>None\<close> when it panics; the loop of \<open>scroll_points\<close>, also when it does not end.
\<close>

unbundle bit_operations_syntax

subsection \<open>State and environment\<close>

record 'm qdrant_state =
  qs_collections :: "'m manager"
  qs_snapshots :: snapshot_manager

text \<open>
  The third-party code below the handlers, and the text of a JSON value and of a quoted string; the clock
  and the level drawn for the i-th vector of a request.
\<close>

record 'm qdrant_env =
  qe_ext :: "(payload, 'm) ext"
  qe_fp :: f32_ops
  qe_json :: config_codec
  qe_text :: text_ops
  qe_snap :: snapshot_codec
  qe_json_text :: "json \<Rightarrow> string"
  qe_quote :: "string \<Rightarrow> string"
  qe_draw :: "nat \<Rightarrow> u64 \<times> nat"

subsection \<open>Common types\<close>

record 'a api_response =
  ar_result :: "'a option"
  ar_status :: string
  ar_error :: bool

definition api_success :: "'a \<Rightarrow> 'a api_response" where
  "api_success r = \<lparr>ar_result = Some r, ar_status = ''ok'', ar_error = False\<rparr>"

definition api_failure :: "'a api_response" where
  "api_failure = \<lparr>ar_result = None, ar_status = ''error'', ar_error = True\<rparr>"

datatype point_id = PidInteger u64 | PidString string

definition pid_as_u64 :: "point_id \<Rightarrow> u64 option" where
  "pid_as_u64 p = (case p of PidInteger i \<Rightarrow> Some i | PidString s \<Rightarrow> parse_u64 s)"

datatype vector_input = VecPlain "f32 list" | VecNamed "(string \<times> f32 list) list"

record point_struct =
  pt_id :: point_id
  pt_vector :: vector_input
  pt_payload :: "payload option"

record scored_point =
  sc_id :: point_id
  sc_version :: u64
  sc_score :: f32
  sc_payload :: "payload option"
  sc_vector :: "f32 list option"

subsection \<open>Service endpoints\<close>

record service_info =
  si_title :: string
  si_version :: string
  si_commit :: "string option"

definition root_info :: "string \<Rightarrow> service_info api_response" where
  "root_info pkg_version =
     api_success \<lparr>si_title = ''RTDB - Qdrant-compatible Vector Database'', si_version = pkg_version, si_commit = None\<rparr>"

definition healthz :: nat where "healthz = 200"
definition readyz :: nat where "readyz = 200"
definition livez :: nat where "livez = 200"

definition telemetry :: "string \<Rightarrow> json api_response" where
  "telemetry pkg_version =
     api_success (JObject [(''result'', JObject [(''app'', JObject
       [(''version'', JString pkg_version), (''name'', JString ''rtdb'')])])])"

subsection \<open>Collection endpoints\<close>

definition qd_list_collections :: "'m qdrant_state \<Rightarrow> string list api_response" where
  "qd_list_collections s = api_success (list_collections (qs_collections s))"

record create_collection_request =
  qc_config :: collection_config
  qc_init_from :: "string option"

definition distance_debug :: "distance \<Rightarrow> string" where
  "distance_debug d =
     (case d of Euclidean \<Rightarrow> ''Euclidean'' | Cosine \<Rightarrow> ''Cosine'' | Dot \<Rightarrow> ''Dot'' | Manhattan \<Rightarrow> ''Manhattan'')"

definition qd_create_collection ::
  "'m qdrant_env \<Rightarrow> string \<Rightarrow> create_collection_request \<Rightarrow> 'm qdrant_state \<Rightarrow>
   (bool api_response \<times> 'm qdrant_state) option"
where
  "qd_create_collection e name rq s =
     (case validate_collection_config (qe_text e) name (Some (cc_dimension (qc_config rq)))
             (Some (distance_debug (cc_distance (qc_config rq)))) of
        Inl _ \<Rightarrow> Some (api_failure, s)
      | Inr _ \<Rightarrow>
          map_option (\<lambda>(r, m). (case r of Inr _ \<Rightarrow> api_success True | Inl _ \<Rightarrow> api_failure, s\<lparr>qs_collections := m\<rparr>))
            (create_collection (qe_ext e) (qe_json e) name (qc_config rq) (qs_collections s)))"

record collection_info =
  ci_status :: "string \<times> string"
  ci_optimizer_status :: string
  ci_vectors_count :: u64
  ci_indexed_vectors_count :: u64
  ci_points_count :: u64
  ci_segments_count :: nat
  ci_config :: collection_config
  ci_payload_schema :: "(string \<times> string) list"

definition qd_get_collection :: "string \<Rightarrow> 'm qdrant_state \<Rightarrow> collection_info api_response" where
  "qd_get_collection name s =
     (case get_collection name (qs_collections s) of
        Inr c \<Rightarrow>
          api_success \<lparr>ci_status = (''green'', ''ok''), ci_optimizer_status = ''ok'', ci_vectors_count = vector_count c,
            ci_indexed_vectors_count = vector_count c, ci_points_count = vector_count c, ci_segments_count = 1,
            ci_config = co_config c, ci_payload_schema = []\<rparr>
      | Inl _ \<Rightarrow> api_failure)"

definition qd_delete_collection :: "string \<Rightarrow> 'm qdrant_state \<Rightarrow> bool api_response \<times> 'm qdrant_state" where
  "qd_delete_collection name s =
     (let (r, m) = delete_collection name (qs_collections s)
      in (case r of Inr _ \<Rightarrow> api_success True | Inl _ \<Rightarrow> api_failure, s\<lparr>qs_collections := m\<rparr>))"

definition qd_collection_exists :: "string \<Rightarrow> 'm qdrant_state \<Rightarrow> bool api_response" where
  "qd_collection_exists name s = api_success (\<not> isl (get_collection name (qs_collections s)))"

record create_index_request =
  ix_field_name :: string
  ix_field_schema :: string

text \<open>The two checks that \<open>create_index\<close> and \<open>delete_index\<close> share, and the lookup of the collection.\<close>

definition check_index_request :: "'m qdrant_env \<Rightarrow> string \<Rightarrow> string \<Rightarrow> 'm qdrant_state \<Rightarrow> api_error + unit" where
  "check_index_request e name field s =
     and_then (as_api (validate_collection_name (qe_text e) name)) (\<lambda>_.
       if field = '''' then Inl (ApiValidationFailed [invalid ''field_name'' ''REQUIRED''])
       else
         (case get_collection name (qs_collections s) of
            Inl _ \<Rightarrow> Inl (ApiCollectionNotFound name)
          | Inr _ \<Rightarrow> Inr ()))"

definition qd_create_index ::
  "'m qdrant_env \<Rightarrow> string \<Rightarrow> create_index_request \<Rightarrow> 'm qdrant_state \<Rightarrow> api_error + bool api_response"
where
  "qd_create_index e name rq s =
     and_then (check_index_request e name (ix_field_name rq) s) (\<lambda>_.
       if ix_field_schema rq \<in> {''keyword'', ''text'', ''integer'', ''float'', ''geo''} then Inr (api_success True)
       else Inl ApiInvalidRequest)"

definition qd_delete_index ::
  "'m qdrant_env \<Rightarrow> string \<Rightarrow> string \<Rightarrow> 'm qdrant_state \<Rightarrow> api_error + bool api_response"
where
  "qd_delete_index e name field s =
     and_then (check_index_request e name field s) (\<lambda>_. Inr (api_success True))"

subsection \<open>Upserting points\<close>

record points_batch =
  pb_ids :: "point_id list"
  pb_vectors :: "f32 list list"
  pb_payloads :: "payload list option"

record upsert_points_request =
  up_points :: "point_struct list"
  up_batch :: "points_batch option"

record update_result =
  ur_operation_id :: u64
  ur_status :: string

definition status_text :: "'m qdrant_env \<Rightarrow> operation_status \<Rightarrow> string" where
  "status_text e st =
     (case st of
        OpCompleted \<Rightarrow> ''completed''
      | OpPending \<Rightarrow> ''pending''
      | OpFailed msg \<Rightarrow> tx_to_lowercase (qe_text e) (''Failed('' @ qe_quote e msg @ '')''))"

text \<open>The exact conversion of a finite \<open>f32\<close> to an \<open>f64\<close>.\<close>

definition f64_of_f32 :: "f32 \<Rightarrow> f64" where
  "f64_of_f32 x =
     (let frac = unat (x AND 0x7FFFFF); ex = unat (drop_bit 23 x AND 0xFF);
          magnitude =
            (if ex = 0
             then if frac = 0 then 0
                  else (let b = bit_length frac - 1 in (b + 874) * 2 ^ 52 + (frac * 2 ^ (52 - b) - 2 ^ 52))
             else (ex + 896) * 2 ^ 52 + frac * 2 ^ 29)
      in of_nat magnitude OR (if x AND 0x80000000 = 0 then 0 else 0x8000000000000000))"

text \<open>
  A number in a JSON tree: \<open>from_f64\<close> has no value for an infinity or a NaN, which the batch form replaces
  by 0 and the serializer of the other form by null.
\<close>

definition json_or_zero :: "f32 \<Rightarrow> json" where
  "json_or_zero x = JNumber (if f32_is_finite x then NFloat (f64_of_f32 x) else NPos 0)"

definition json_or_null :: "f32 \<Rightarrow> json" where
  "json_or_null x = (if f32_is_finite x then JNumber (NFloat (f64_of_f32 x)) else JNull)"

definition json_of_id :: "point_id \<Rightarrow> json" where
  "json_of_id p = (case p of PidInteger n \<Rightarrow> JNumber (NPos n) | PidString s \<Rightarrow> JString s)"

definition json_of_payload :: "payload option \<Rightarrow> (string \<times> json) list" where
  "json_of_payload p = (case p of None \<Rightarrow> [] | Some m \<Rightarrow> [(''payload'', JObject m)])"

definition batch_payload :: "points_batch \<Rightarrow> nat \<Rightarrow> payload option" where
  "batch_payload b i =
     (case pb_payloads b of None \<Rightarrow> None | Some ps \<Rightarrow> if i < length ps then Some (ps ! i) else None)"

definition batch_json :: "points_batch \<Rightarrow> json list" where
  "batch_json b =
     map (\<lambda>(i, (pid, v)). JObject ([(''id'', json_of_id pid), (''vector'', JArray (map json_or_zero v))]
            @ json_of_payload (batch_payload b i)))
       (enumerate 0 (zip (pb_ids b) (pb_vectors b)))"

definition json_of_vector :: "vector_input \<Rightarrow> json" where
  "json_of_vector v =
     (case v of
        VecPlain xs \<Rightarrow> JArray (map json_or_null xs)
      | VecNamed m \<Rightarrow> JObject (map (\<lambda>(name, xs). (name, JArray (map json_or_null xs))) m))"

definition point_json :: "point_struct \<Rightarrow> json" where
  "point_json p =
     JObject ([(''id'', json_of_id (pt_id p)), (''vector'', json_of_vector (pt_vector p))] @ json_of_payload (pt_payload p))"

type_synonym raw_point = "point_id \<times> f32 list \<times> payload option"

definition batch_points :: "points_batch \<Rightarrow> raw_point list" where
  "batch_points b =
     map (\<lambda>(i, (pid, v)). (pid, v, batch_payload b i)) (enumerate 0 (zip (pb_ids b) (pb_vectors b)))"

definition plain_vector :: "vector_input \<Rightarrow> f32 list" where
  "plain_vector v =
     (case v of VecPlain xs \<Rightarrow> xs | VecNamed m \<Rightarrow> (case hm_get m ''default'' of Some xs \<Rightarrow> xs | None \<Rightarrow> []))"

definition struct_points :: "point_struct list \<Rightarrow> raw_point list" where
  "struct_points ps = map (\<lambda>p. (pt_id p, plain_vector (pt_vector p), pt_payload p)) ps"

text \<open>A point whose id is no number is left out.\<close>

definition core_vectors :: "raw_point list \<Rightarrow> (u64 \<times> payload vector) list" where
  "core_vectors ps =
     List.map_filter (\<lambda>(pid, v, payload).
       map_option (\<lambda>i. (i, \<lparr>v_data = v, v_payload = payload\<rparr>)) (pid_as_u64 pid)) ps"

definition upsert_points ::
  "'m qdrant_env \<Rightarrow> string \<Rightarrow> upsert_points_request \<Rightarrow> 'm qdrant_state \<Rightarrow>
   (update_result api_response \<times> 'm qdrant_state) option"
where
  "upsert_points e name rq s =
     (case get_collection name (qs_collections s) of
        Inl _ \<Rightarrow> Some (api_failure, s)
      | Inr c \<Rightarrow>
          (let points_data = (case up_batch rq of Some b \<Rightarrow> batch_json b | None \<Rightarrow> map point_json (up_points rq))
           in case validate_upsert_request (qe_text e) name points_data (Some (cc_dimension (co_config c))) of
                Inl _ \<Rightarrow> Some (api_failure, s)
              | Inr _ \<Rightarrow>
                  (let points = (case up_batch rq of Some b \<Rightarrow> batch_points b | None \<Rightarrow> struct_points (up_points rq))
                   in map_option
                        (\<lambda>(r, c'). (case r of
                             Inr info \<Rightarrow> api_success \<lparr>ur_operation_id = oi_id info, ur_status = status_text e (oi_status info)\<rparr>
                           | Inl _ \<Rightarrow> api_failure,
                           s\<lparr>qs_collections := put_collection name c' (qs_collections s)\<rparr>))
                        (collection_upsert (qe_ext e) (qe_fp e) (draw_vectors (qe_draw e) (core_vectors points)) c))))"

subsection \<open>Filters\<close>

datatype match_condition = McValue json | McKeyword string | McText string | McInteger int

record api_condition =
  ac_key :: string
  ac_condition :: match_condition

record api_filter =
  af_must :: "api_condition list option"
  af_should :: "api_condition list option"
  af_must_not :: "api_condition list option"

definition to_core_match :: "(json \<Rightarrow> string) \<Rightarrow> match_condition \<Rightarrow> match_cond" where
  "to_core_match text c =
     (case c of
        McValue v \<Rightarrow>
          (case json_as_str v of
             Some str \<Rightarrow> MatchValue (MvKeyword str)
           | None \<Rightarrow>
               (case json_as_i64 v of
                  Some i \<Rightarrow> MatchValue (MvInteger i)
                | None \<Rightarrow> MatchValue (MvKeyword (text v))))
      | McKeyword k \<Rightarrow> MatchValue (MvKeyword k)
      | McText t \<Rightarrow> MatchText t
      | McInteger i \<Rightarrow> MatchInteger i)"

definition to_core_condition :: "(json \<Rightarrow> string) \<Rightarrow> api_condition \<Rightarrow> condition" where
  "to_core_condition text c = CondField \<lparr>fc_key = ac_key c, fc_match = to_core_match text (ac_condition c)\<rparr>"

definition to_core_filter :: "(json \<Rightarrow> string) \<Rightarrow> api_filter \<Rightarrow> filter_spec" where
  "to_core_filter text f =
     Filter (map_option (map (to_core_condition text)) (af_must f))
       (map_option (map (to_core_condition text)) (af_should f))
       (map_option (map (to_core_condition text)) (af_must_not f))"

subsection \<open>Searching\<close>

record qd_quantization_params =
  qp_ignore :: bool
  qp_rescore :: bool
  qp_oversampling :: "f64 option"

record search_params_config =
  pc_hnsw_ef :: "nat option"
  pc_exact :: bool
  pc_quantization :: "qd_quantization_params option"

record qd_search_request =
  qr_vector :: "f32 list"
  qr_limit :: nat
  qr_offset :: "nat option"
  qr_filter :: "api_filter option"
  qr_params :: "search_params_config option"
  qr_with_vector :: "bool option"
  qr_with_payload :: bool
  qr_score_threshold :: "f32 option"

definition default_limit :: nat where "default_limit = 10"
definition default_with_payload :: bool where "default_with_payload = True"

definition core_params :: "search_params_config option \<Rightarrow> search_params" where
  "core_params ps =
     \<lparr>sp_hnsw_ef = Option.bind ps pc_hnsw_ef, sp_exact = (case ps of None \<Rightarrow> False | Some p \<Rightarrow> pc_exact p),
      sp_quantization = None\<rparr>"

definition or_false :: "bool option \<Rightarrow> bool" where
  "or_false b = (case b of None \<Rightarrow> False | Some v \<Rightarrow> v)"

text \<open>The request that a collection gets; \<open>keep_filter\<close> tells the single search from the batch.\<close>

definition core_search_request :: "(json \<Rightarrow> string) \<Rightarrow> bool \<Rightarrow> qd_search_request \<Rightarrow> search_request" where
  "core_search_request text keep_filter rq =
     \<lparr>sr_vector = qr_vector rq, sr_limit = qr_limit rq,
      sr_offset = (case qr_offset rq of None \<Rightarrow> 0 | Some n \<Rightarrow> n), sr_score_threshold = qr_score_threshold rq,
      sr_with_payload = Some (WpBool (qr_with_payload rq)), sr_with_vector = or_false (qr_with_vector rq),
      sr_filter = (if keep_filter then map_option (to_core_filter text) (qr_filter rq) else None),
      sr_params = Some (core_params (qr_params rq))\<rparr>"

definition scored_of :: "bool \<Rightarrow> scored_vector \<Rightarrow> scored_point" where
  "scored_of with_vector r =
     \<lparr>sc_id = PidInteger (sv_id r), sc_version = 0, sc_score = sv_score r, sc_payload = sv_payload r,
      sc_vector = (if with_vector then sv_vector r else None)\<rparr>"

definition core_search ::
  "'m qdrant_env \<Rightarrow> search_request \<Rightarrow> 'm collection \<Rightarrow> scored_vector list res option"
where
  "core_search e rq c = collection_search (qe_ext e) (qe_fp e) (tx_to_lowercase (qe_text e)) rq c"

definition search_points ::
  "'m qdrant_env \<Rightarrow> string \<Rightarrow> qd_search_request \<Rightarrow> 'm qdrant_state \<Rightarrow> scored_point list api_response option"
where
  "search_points e name rq s =
     (case get_collection name (qs_collections s) of
        Inl _ \<Rightarrow> Some api_failure
      | Inr c \<Rightarrow>
          (case validate_search_request (qe_text e) name (qr_vector rq) (qr_limit rq) (qr_offset rq)
                  (Some (cc_dimension (co_config c))) of
             Inl _ \<Rightarrow> Some api_failure
           | Inr _ \<Rightarrow>
               map_option (\<lambda>r. case r of
                   Inr results \<Rightarrow> api_success (map (scored_of (or_false (qr_with_vector rq))) results)
                 | Inl _ \<Rightarrow> api_failure)
                 (core_search e (core_search_request (qe_json_text e) True rq) c)))"

text \<open>A search of a batch that fails has no results; its filter is not passed on.\<close>

definition batch_search_one ::
  "'m qdrant_env \<Rightarrow> string \<Rightarrow> qd_search_request \<Rightarrow> 'm qdrant_state \<Rightarrow> scored_point list option"
where
  "batch_search_one e name rq s =
     (case get_collection name (qs_collections s) of
        Inr c \<Rightarrow>
          map_option (\<lambda>r. case r of Inr results \<Rightarrow> map (scored_of False) results | Inl _ \<Rightarrow> [])
            (core_search e (core_search_request (qe_json_text e) False rq) c)
      | Inl _ \<Rightarrow> Some [])"

fun batch_search_loop ::
  "'m qdrant_env \<Rightarrow> string \<Rightarrow> qd_search_request list \<Rightarrow> 'm qdrant_state \<Rightarrow> scored_point list list \<Rightarrow> scored_point list list option"
where
  "batch_search_loop e name [] s results = Some results"
| "batch_search_loop e name (rq # rqs) s results =
     (case batch_search_one e name rq s of
        None \<Rightarrow> None
      | Some r \<Rightarrow> batch_search_loop e name rqs s (results @ [r]))"

definition search_batch ::
  "'m qdrant_env \<Rightarrow> string \<Rightarrow> qd_search_request list \<Rightarrow> 'm qdrant_state \<Rightarrow> scored_point list list api_response option"
where
  "search_batch e name searches s = map_option api_success (batch_search_loop e name searches s [])"

record query_request =
  qq_query :: "f32 list option"
  qq_using :: "string option"
  qq_limit :: nat
  qq_filter :: "api_filter option"
  qq_params :: "search_params_config option"

definition query_points ::
  "'m qdrant_env \<Rightarrow> string \<Rightarrow> query_request \<Rightarrow> 'm qdrant_state \<Rightarrow> scored_point list api_response option"
where
  "query_points e name rq s =
     (case qq_query rq of
        None \<Rightarrow> Some api_failure
      | Some vector \<Rightarrow>
          (case get_collection name (qs_collections s) of
             Inr c \<Rightarrow>
               map_option (\<lambda>r. case r of Inr results \<Rightarrow> api_success (map (scored_of False) results) | Inl _ \<Rightarrow> api_failure)
                 (core_search e
                   \<lparr>sr_vector = vector, sr_limit = qq_limit rq, sr_offset = 0, sr_score_threshold = None,
                    sr_with_payload = Some (WpBool True), sr_with_vector = False, sr_filter = None,
                    sr_params = Some (core_params (qq_params rq))\<rparr> c)
           | Inl _ \<Rightarrow> Some api_failure))"

subsection \<open>Reading and deleting points\<close>

record retrieve_request =
  rr_ids :: "point_id list"
  rr_with_vector :: "bool option"
  rr_with_payload :: bool

definition shown_vector :: "bool option \<Rightarrow> retrieved_vector \<Rightarrow> vector_input" where
  "shown_vector with_vector v = VecPlain (if or_false with_vector then rv_vector v else [])"

fun retrieve_loop ::
  "'m qdrant_env \<Rightarrow> bool option \<Rightarrow> point_id list \<Rightarrow> 'm collection \<Rightarrow> point_struct list \<Rightarrow> point_struct list option"
where
  "retrieve_loop e with_vector [] c points = Some points"
| "retrieve_loop e with_vector (pid # ids) c points =
     (case pid_as_u64 pid of
        None \<Rightarrow> retrieve_loop e with_vector ids c points
      | Some i \<Rightarrow>
          (case collection_get (qe_ext e) i c of
             None \<Rightarrow> None
           | Some (Inr (Some v)) \<Rightarrow>
               retrieve_loop e with_vector ids c
                 (points @ [\<lparr>pt_id = pid, pt_vector = shown_vector with_vector v, pt_payload = rv_payload v\<rparr>])
           | Some _ \<Rightarrow> retrieve_loop e with_vector ids c points))"

definition retrieve_points ::
  "'m qdrant_env \<Rightarrow> string \<Rightarrow> retrieve_request \<Rightarrow> 'm qdrant_state \<Rightarrow> point_struct list api_response option"
where
  "retrieve_points e name rq s =
     (case get_collection name (qs_collections s) of
        Inr c \<Rightarrow> map_option api_success (retrieve_loop e (rr_with_vector rq) (rr_ids rq) c [])
      | Inl _ \<Rightarrow> Some api_failure)"

record delete_points_request =
  dq_points :: "point_id list option"
  dq_filter :: "api_filter option"

definition delete_ids ::
  "'m qdrant_env \<Rightarrow> string \<Rightarrow> u64 list \<Rightarrow> 'm collection \<Rightarrow> 'm qdrant_state \<Rightarrow>
   (update_result api_response \<times> 'm qdrant_state) option"
where
  "delete_ids e name ids c s =
     map_option (\<lambda>(r, c'). (case r of
          Inr _ \<Rightarrow> api_success \<lparr>ur_operation_id = 0, ur_status = ''completed''\<rparr>
        | Inl _ \<Rightarrow> api_failure,
        s\<lparr>qs_collections := put_collection name c' (qs_collections s)\<rparr>))
       (collection_delete (qe_ext e) (map (\<lambda>(i, vid). (fst (qe_draw e i), vid)) (enumerate 0 ids)) c)"

definition delete_points ::
  "'m qdrant_env \<Rightarrow> string \<Rightarrow> delete_points_request \<Rightarrow> 'm qdrant_state \<Rightarrow>
   (update_result api_response \<times> 'm qdrant_state) option"
where
  "delete_points e name rq s =
     (case get_collection name (qs_collections s) of
        Inr c \<Rightarrow>
          (case dq_points rq of
             Some points \<Rightarrow> delete_ids e name (List.map_filter pid_as_u64 points) c s
           | None \<Rightarrow> Some (api_failure, s))
      | Inl _ \<Rightarrow> Some (api_failure, s))"

definition get_point :: "'m qdrant_env \<Rightarrow> string \<Rightarrow> u64 \<Rightarrow> 'm qdrant_state \<Rightarrow> point_struct api_response option" where
  "get_point e name vid s =
     (case get_collection name (qs_collections s) of
        Inr c \<Rightarrow>
          map_option (\<lambda>r. case r of
              Inr (Some v) \<Rightarrow>
                api_success \<lparr>pt_id = PidInteger vid, pt_vector = VecPlain (rv_vector v), pt_payload = rv_payload v\<rparr>
            | _ \<Rightarrow> api_failure)
            (collection_get (qe_ext e) vid c)
      | Inl _ \<Rightarrow> Some api_failure)"

definition delete_point ::
  "'m qdrant_env \<Rightarrow> string \<Rightarrow> u64 \<Rightarrow> 'm qdrant_state \<Rightarrow> (update_result api_response \<times> 'm qdrant_state) option"
where
  "delete_point e name vid s =
     (case get_collection name (qs_collections s) of
        Inr c \<Rightarrow> delete_ids e name [vid] c s
      | Inl _ \<Rightarrow> Some (api_failure, s))"

record count_request =
  cq_filter :: "api_filter option"
  cq_exact :: bool

definition count_points :: "string \<Rightarrow> count_request \<Rightarrow> 'm qdrant_state \<Rightarrow> u64 api_response" where
  "count_points name rq s =
     (case get_collection name (qs_collections s) of
        Inr c \<Rightarrow> api_success (vector_count c)
      | Inl _ \<Rightarrow> api_failure)"

subsection \<open>Scrolling\<close>

record scroll_request =
  sl_offset :: "point_id option"
  sl_limit :: nat
  sl_filter :: "api_filter option"
  sl_with_vector :: "bool option"
  sl_with_payload :: bool

record scroll_response =
  sp_points :: "point_struct list"
  sp_next_page_offset :: "point_id option"

definition scroll_point :: "scroll_request \<Rightarrow> u64 \<Rightarrow> retrieved_vector \<Rightarrow> point_struct" where
  "scroll_point rq i v =
     \<lparr>pt_id = PidInteger i, pt_vector = shown_vector (sl_with_vector rq) v,
      pt_payload = (if sl_with_payload rq then rv_payload v else None)\<rparr>"

text \<open>
  The loop of \<open>scroll_points\<close>; \<open>get i\<close> is the lookup of id \<open>i\<close>, an error counting as absence.  The bound
  \<open>start_id + 100000\<close> and the increment wrap.
\<close>

partial_function (option) scroll_loop ::
  "(u64 \<Rightarrow> retrieved_vector option option) \<Rightarrow> scroll_request \<Rightarrow> u64 \<Rightarrow> u64 \<Rightarrow> point_struct list \<Rightarrow>
   (point_struct list \<times> point_id option) option"
where
  "scroll_loop get rq start i points =
     (if sl_limit rq \<le> length points then Some (points, None)
      else Option.bind (get i) (\<lambda>found.
        let points' = (case found of None \<Rightarrow> points | Some v \<Rightarrow> points @ [scroll_point rq i v]);
            next_offset = (if length points' = sl_limit rq then Some (PidInteger (i + 1)) else None)
        in if length points' = sl_limit rq \<or> i + 1 > start + 100000 then Some (points', next_offset)
           else scroll_loop get rq start (i + 1) points'))"

definition scroll_get :: "'m qdrant_env \<Rightarrow> 'm collection \<Rightarrow> u64 \<Rightarrow> retrieved_vector option option" where
  "scroll_get e c i =
     map_option (\<lambda>r. case r of Inr found \<Rightarrow> found | Inl _ \<Rightarrow> None) (collection_get (qe_ext e) i c)"

definition scroll_start :: "point_id option \<Rightarrow> u64" where
  "scroll_start p =
     (case p of
        Some (PidInteger i) \<Rightarrow> i
      | Some (PidString str) \<Rightarrow> (case parse_u64 str of Some i \<Rightarrow> i | None \<Rightarrow> 0)
      | None \<Rightarrow> 0)"

definition scroll_points ::
  "'m qdrant_env \<Rightarrow> string \<Rightarrow> scroll_request \<Rightarrow> 'm qdrant_state \<Rightarrow> (api_error + scroll_response api_response) option"
where
  "scroll_points e name rq s =
     (case and_then (as_api (validate_collection_name (qe_text e) name)) (\<lambda>_. as_api (validate_limit (sl_limit rq))) of
        Inl err \<Rightarrow> Some (Inl err)
      | Inr _ \<Rightarrow>
          (case get_collection name (qs_collections s) of
             Inl _ \<Rightarrow> Some (Inl (ApiCollectionNotFound name))
           | Inr c \<Rightarrow>
               (let start = scroll_start (sl_offset rq)
                in map_option (\<lambda>(points, next_offset).
                     Inr (api_success \<lparr>sp_points = points, sp_next_page_offset = next_offset\<rparr>))
                     (scroll_loop (scroll_get e c) rq start start []))))"

subsection \<open>Snapshots\<close>

definition description_of :: "snapshot_meta \<Rightarrow> snapshot_description" where
  "description_of meta =
     \<lparr>sd_name = sm_id meta, sd_collection = sm_collection meta, sd_size = sm_size_bytes meta,
      sd_creation_time = sm_created_at meta, sd_vector_count = sm_vector_count meta, sd_type = sm_type meta\<rparr>"

definition qd_list_snapshots :: "string \<Rightarrow> 'm qdrant_state \<Rightarrow> snapshot_description list api_response" where
  "qd_list_snapshots name s = api_success (list_snapshots name (qs_snapshots s))"

definition qd_create_snapshot ::
  "'m qdrant_env \<Rightarrow> nat \<Rightarrow> string \<Rightarrow> 'm qdrant_state \<Rightarrow> (snapshot_description api_response \<times> 'm qdrant_state) option"
where
  "qd_create_snapshot e now name s =
     (case get_collection name (qs_collections s) of
        Inl _ \<Rightarrow> Some (api_failure, s)
      | Inr c \<Rightarrow>
          map_option (\<lambda>vectors.
            let (r, sg) = create_full_snapshot (qe_snap e) now name vectors 0 (qs_snapshots s)
            in (case r of Inr meta \<Rightarrow> api_success (description_of meta) | Inl _ \<Rightarrow> api_failure, s\<lparr>qs_snapshots := sg\<rparr>))
            (get_all_vectors (qe_ext e) c))"

text \<open>
  A download opens a path below \<open>./snapshots\<close>; \<open>files\<close> gives the content of a file that can be opened, if
  it can be read to its end.
\<close>

datatype download_body = BodyText | BodyBytes "u8 list"

record download_response =
  dl_status :: nat
  dl_headers :: "(string \<times> string) list"
  dl_body :: download_body

definition download_snapshot :: "(string \<Rightarrow> u8 list option option) \<Rightarrow> string \<Rightarrow> string \<Rightarrow> download_response" where
  "download_snapshot files name snapshot =
     (case files (''./snapshots/'' @ snapshot @ ''.snap'') of
        Some (Some contents) \<Rightarrow>
          \<lparr>dl_status = 200,
           dl_headers = [(''content-type'', ''application/octet-stream''),
             (''content-disposition'', ''attachment; filename='' @ [CHR 0x22] @ name @ ''-'' @ snapshot @ [CHR 0x22])],
           dl_body = BodyBytes contents\<rparr>
      | Some None \<Rightarrow> \<lparr>dl_status = 500, dl_headers = [], dl_body = BodyText\<rparr>
      | None \<Rightarrow> \<lparr>dl_status = 404, dl_headers = [], dl_body = BodyText\<rparr>)"

definition qd_delete_snapshot :: "string \<Rightarrow> string \<Rightarrow> 'm qdrant_state \<Rightarrow> bool api_response \<times> 'm qdrant_state" where
  "qd_delete_snapshot name snapshot s =
     (let (found, sg) = delete_snapshot snapshot (qs_snapshots s)
      in (if found then api_success True else api_failure, s\<lparr>qs_snapshots := sg\<rparr>))"

definition list_full_snapshots :: "'m qdrant_state \<Rightarrow> snapshot_description list api_response" where
  "list_full_snapshots s =
     api_success (concat (map (\<lambda>name. list_snapshots name (qs_snapshots s)) (list_collections (qs_collections s))))"

fun snapshot_all ::
  "'m qdrant_env \<Rightarrow> (nat \<Rightarrow> nat) \<Rightarrow> string list \<Rightarrow> snapshot_description option \<Rightarrow> 'm qdrant_state \<Rightarrow>
   (snapshot_description option \<times> 'm qdrant_state) option"
where
  "snapshot_all e clock [] latest s = Some (latest, s)"
| "snapshot_all e clock (name # names) latest s =
     (case get_collection name (qs_collections s) of
        Inl _ \<Rightarrow> snapshot_all e clock names latest s
      | Inr c \<Rightarrow>
          (case get_all_vectors (qe_ext e) c of
             None \<Rightarrow> None
           | Some vectors \<Rightarrow>
               (let (r, sg) = create_full_snapshot (qe_snap e) (clock (length names)) name vectors 0 (qs_snapshots s);
                    s' = s\<lparr>qs_snapshots := sg\<rparr>
                in case r of
                     Inr meta \<Rightarrow> snapshot_all e clock names (Some (description_of meta)) s'
                   | Inl _ \<Rightarrow> snapshot_all e clock names latest s')))"

definition qd_create_full_snapshot ::
  "'m qdrant_env \<Rightarrow> (nat \<Rightarrow> nat) \<Rightarrow> 'm qdrant_state \<Rightarrow> (snapshot_description api_response \<times> 'm qdrant_state) option"
where
  "qd_create_full_snapshot e clock s =
     map_option (\<lambda>(latest, s'). (case latest of Some d \<Rightarrow> api_success d | None \<Rightarrow> api_failure, s'))
       (snapshot_all e clock (list_collections (qs_collections s)) None s)"

definition download_full_snapshot ::
  "(string \<Rightarrow> u8 list option option) \<Rightarrow> string \<Rightarrow> 'm qdrant_state \<Rightarrow> download_response"
where
  "download_full_snapshot files snapshot s =
     (case find (\<lambda>name. list_ex (\<lambda>d. sd_name d = snapshot) (list_snapshots name (qs_snapshots s)))
             (list_collections (qs_collections s)) of
        Some name \<Rightarrow> download_snapshot files name snapshot
      | None \<Rightarrow> \<lparr>dl_status = 404, dl_headers = [], dl_body = BodyText\<rparr>)"

subsection \<open>The router\<close>

definition qdrant_rate_limit :: rate_limit_config where
  "qdrant_rate_limit = \<lparr>rl_max_requests = 100000, rl_window_duration = secs 60, rl_sliding_window = True\<rparr>"

text \<open>
  The layer that is added last is the outermost one.  \<open>handlers\<close> is the router without layers, which has
  no response when it runs into the timeout.
\<close>

definition qdrant_service ::
  "nat \<Rightarrow> nat \<Rightarrow> ('q http_request \<Rightarrow> 's \<Rightarrow> 'b http_response option \<times> 's) \<Rightarrow>
   'q http_request \<Rightarrow> rate_limiter \<times> 's \<Rightarrow> 'b http_response \<times> rate_limiter \<times> 's"
where
  "qdrant_service now later handlers =
     rate_limit_middleware now later
       (request_size_limit_middleware
         (timeout_middleware
           (\<lambda>rq s. case handlers rq s of
                (Some response, s') \<Rightarrow> (Some (add_headers security_headers response), s')
              | (None, s') \<Rightarrow> (None, s'))))"

end
