(* ===== verification/QdrantClaims.thy ===== *)
theory QdrantClaims
  imports QdrantApi ValidationClaims JepsenClientClaims
begin

text \<open>
  Properties of the Qdrant-compatible interface: what is read after an upsert, which requests are
  acknowledged without effect, and what a scroll returns.
\<close>

subsection \<open>Reading upserted points\<close>

text \<open>The points of a request, in either form, and what its validation looks at.\<close>

definition request_points :: "upsert_points_request \<Rightarrow> raw_point list" where
  "request_points rq = (case up_batch rq of Some b \<Rightarrow> batch_points b | None \<Rightarrow> struct_points (up_points rq))"

definition request_json :: "upsert_points_request \<Rightarrow> json list" where
  "request_json rq = (case up_batch rq of Some b \<Rightarrow> batch_json b | None \<Rightarrow> map point_json (up_points rq))"

definition request_items :: "'m qdrant_env \<Rightarrow> upsert_points_request \<Rightarrow> upsert_item list" where
  "request_items e rq = draw_vectors (qe_draw e) (core_vectors (request_points rq))"

text \<open>The last point of a list whose id is the given number.\<close>

definition last_point :: "u64 \<Rightarrow> raw_point list \<Rightarrow> raw_point option" where
  "last_point i ps = List.find (\<lambda>p. pid_as_u64 (fst p) = Some i) (rev ps)"

lemma core_vectors_find:
  "map_of (core_vectors ps) i =
     map_option (\<lambda>(_, xs, payload). \<lparr>v_data = xs, v_payload = payload\<rparr>) (List.find (\<lambda>p. pid_as_u64 (fst p) = Some i) ps)"
  by (induction ps) (auto simp: core_vectors_def map_filter_def)

lemma core_vectors_last:
  "map_of (rev (core_vectors ps)) i =
     map_option (\<lambda>(_, xs, payload). \<lparr>v_data = xs, v_payload = payload\<rparr>) (last_point i ps)"
proof -
  have "rev (core_vectors ps) = core_vectors (rev ps)"
    by (simp add: core_vectors_def map_filter_def rev_map rev_filter)
  then show ?thesis by (simp add: core_vectors_find last_point_def)
qed

lemma upsert_points_valid:
  assumes "get_collection name (qs_collections s) = Inr c"
    and "validate_upsert_request (qe_text e) name (request_json rq) (Some (cc_dimension (co_config c))) = Inr ()"
  shows "upsert_points e name rq s =
    map_option (\<lambda>(r, c'). (case r of
         Inr info \<Rightarrow> api_success \<lparr>ur_operation_id = oi_id info, ur_status = status_text e (oi_status info)\<rparr>
       | Inl _ \<Rightarrow> api_failure, s\<lparr>qs_collections := put_collection name c' (qs_collections s)\<rparr>))
      (collection_upsert (qe_ext e) (qe_fp e) (request_items e rq) c)"
  using assms by (simp add: upsert_points_def Let_def request_json_def request_items_def request_points_def)

text \<open>
  C19.  A valid upsert, in either form, whose vectors have the collection's dimension, whose ids are not deleted,
  whose records the log can hold and which does not fill the memory table up to a flush, is acknowledged as
  completed; after it every id of the request is read as its last point, with exactly the vector and the payload
  sent, and every other id as before.
\<close>

theorem upserted_points_are_read:
  assumes "ordered_map (x_skip (qe_ext e))" and held: "get_collection name (qs_collections s) = Inr c"
    and valid: "validate_upsert_request (qe_text e) name (request_json rq) (Some (cc_dimension (co_config c))) = Inr ()"
    and "items_fit (qe_ext e) (request_items e rq) (cc_dimension (co_config c)) (en_mem (co_storage c))"
  shows "\<exists>n s'. upsert_points e name rq s = Some (api_success \<lparr>ur_operation_id = n, ur_status = ''completed''\<rparr>, s')
    \<and> (\<forall>i. get_point e name i s' =
         (case last_point i (request_points rq) of
            None \<Rightarrow> get_point e name i s
          | Some (_, xs, payload) \<Rightarrow>
              Some (api_success \<lparr>pt_id = PidInteger i, pt_vector = VecPlain xs, pt_payload = payload\<rparr>)))"
proof -
  obtain c' where up: "upsert_loop (qe_ext e) (qe_fp e) (request_items e rq) c = Some (Inr (), c')"
    and gets: "\<forall>i. collection_get (qe_ext e) i c' =
         (case map_of (rev (core_vectors (request_points rq))) i of
            None \<Rightarrow> collection_get (qe_ext e) i c
          | Some v \<Rightarrow> Some (Inr (Some \<lparr>rv_id = i, rv_vector = v_data v, rv_payload = v_payload v\<rparr>)))"
    using upsert_loop_gets [OF assms(1,4), of "qe_fp e"] by (auto simp: request_items_def)
  let ?c2 = "c'\<lparr>co_next_op := co_next_op c' + 1\<rparr>"
  let ?s' = "s\<lparr>qs_collections := put_collection name ?c2 (qs_collections s)\<rparr>"
  have "collection_upsert (qe_ext e) (qe_fp e) (request_items e rq) c =
      Some (Inr \<lparr>oi_id = co_next_op c', oi_status = OpCompleted\<rparr>, ?c2)"
    by (simp add: collection_upsert_def up finish_operation_def)
  then have "upsert_points e name rq s =
      Some (api_success \<lparr>ur_operation_id = co_next_op c', ur_status = ''completed''\<rparr>, ?s')"
    using upsert_points_valid [OF held valid] by (simp add: status_text_def)
  moreover have "get_point e name i ?s' =
      map_option (\<lambda>r. case r of
              Inr (Some v) \<Rightarrow> api_success \<lparr>pt_id = PidInteger i, pt_vector = VecPlain (rv_vector v), pt_payload = rv_payload v\<rparr>
            | _ \<Rightarrow> api_failure) (collection_get (qe_ext e) i c')" for i
    using get_put_collection [OF held, of ?c2] by (simp add: get_point_def collection_get_def)
  ultimately show ?thesis
    using gets held
    by (auto simp: get_point_def core_vectors_last split: option.split intro!: exI [of _ ?s'])
qed

text \<open>
  A point whose id is a string other than a number, as a UUID is, passes the validation and is dropped: an
  upsert of such points is acknowledged as completed and stores nothing.
\<close>

theorem string_ids_are_dropped:
  assumes held: "get_collection name (qs_collections s) = Inr c" and "up_batch rq = None"
    and valid: "validate_upsert_request (qe_text e) name (map point_json (up_points rq)) (Some (cc_dimension (co_config c))) = Inr ()"
    and "\<forall>p \<in> set (up_points rq). \<exists>str. pt_id p = PidString str \<and> parse_u64 str = None"
  shows "\<exists>s'. upsert_points e name rq s = Some (api_success \<lparr>ur_operation_id = co_next_op c, ur_status = ''completed''\<rparr>, s')
    \<and> (\<forall>i. get_point e name i s' = get_point e name i s)"
proof -
  have "core_vectors (request_points rq) = []"
    using assms(2,4) by (auto simp: core_vectors_def request_points_def struct_points_def map_filter_def pid_as_u64_def
        filter_empty_conv)
  then have none: "request_items e rq = []" by (simp add: request_items_def draw_vectors_def)
  let ?c2 = "c\<lparr>co_next_op := co_next_op c + 1\<rparr>"
  let ?s' = "s\<lparr>qs_collections := put_collection name ?c2 (qs_collections s)\<rparr>"
  have "upsert_points e name rq s = Some (api_success \<lparr>ur_operation_id = co_next_op c, ur_status = ''completed''\<rparr>, ?s')"
    using upsert_points_valid [OF held, of e rq] assms(2) valid
    by (simp add: request_json_def none collection_upsert_def finish_operation_def status_text_def)
  moreover have "get_point e name i ?s' = get_point e name i s" for i
    using get_put_collection [OF held, of ?c2] held by (simp add: get_point_def collection_get_def)
  ultimately show ?thesis by blast
qed

subsection \<open>What is accepted\<close>

lemma bit_length_less: "n < 2 ^ bit_length n"
proof (induction n rule: bit_length.induct)
  case (1 n)
  then show ?case by (cases "n = 0") (simp_all add: bit_length.simps [of n])
qed

lemma bit_length_le: "n < 2 ^ k \<Longrightarrow> bit_length n \<le> k"
proof (induction n arbitrary: k rule: bit_length.induct)
  case (1 n)
  show ?case
  proof (cases "n = 0")
    case False
    with "1.prems" obtain k' where k: "k = Suc k'" by (cases k) auto
    with "1.prems" have "n div 2 < 2 ^ k'" by (simp add: less_mult_imp_div_less mult.commute)
    with "1.IH" [OF False] False k show ?thesis by (simp add: bit_length.simps [of n])
  qed (simp add: bit_length.simps)
qed

text \<open>The conversion to \<open>f64\<close> never makes an infinity: the exponent stays below 2047.\<close>

lemma f64_finite_bound:
  assumes "m < 2047 * 2 ^ 52"
  shows "f64_is_finite (of_nat m OR (if b then 0 else 0x8000000000000000))"
proof -
  let ?M = "0x7FF0000000000000 :: u64"
  have "(of_nat m OR (if b then 0 else 0x8000000000000000)) AND ?M = (of_nat m :: u64) AND ?M"
    by (simp add: bit.conj_disj_distrib2)
  moreover have "(of_nat m :: u64) AND ?M \<noteq> ?M"
  proof
    assume "(of_nat m :: u64) AND ?M = ?M"
    then have "?M \<le> of_nat m" by (metis word_and_le2)
    then have "unat ?M \<le> unat (of_nat m :: u64)" by (simp add: word_le_nat_alt)
    also have "\<dots> \<le> m" by (simp add: unat_of_nat)
    finally show False using assms by simp
  qed
  ultimately show ?thesis by (simp add: f64_is_finite_def)
qed

lemma if_below: "0 < k \<Longrightarrow> x < k \<Longrightarrow> y < k \<Longrightarrow> (if a then if b then 0 else x else y) < (k :: nat)"
  by simp

lemma f64_of_f32_finite [simp]: "f64_is_finite (f64_of_f32 x)"
proof -
  let ?frac = "unat (x AND 0x7FFFFF)" and ?ex = "unat (drop_bit 23 x AND 0xFF)"
  have frac: "?frac < 2 ^ 23"
    using unat_mono [of "x AND 0x7FFFFF" "0x800000"] word_and_le1 [of x "0x7FFFFF"]
    by (simp add: order_le_less_trans)
  have ex: "?ex < 256"
    using unat_mono [of "drop_bit 23 x AND 0xFF" "0x100"] word_and_le1 [of "drop_bit 23 x" "0xFF"]
    by (simp add: order_le_less_trans)
  define b where "b = bit_length ?frac - 1"
  have "(b + 874) * 2 ^ 52 + (?frac * 2 ^ (52 - b) - 2 ^ 52) < 2047 * 2 ^ 52"
  proof -
    have b: "b \<le> 22" using bit_length_le [OF frac] by (simp add: b_def)
    have "?frac < 2 ^ (b + 1)"
      using bit_length_less [of ?frac] by (cases "bit_length ?frac") (auto simp: b_def)
    then have "?frac * 2 ^ (52 - b) < 2 ^ (b + 1) * 2 ^ (52 - b)" by simp
    also have "\<dots> = 2 ^ 53" using b by (simp flip: power_add)
    finally show ?thesis using b by simp
  qed
  moreover have "(?ex + 896) * 2 ^ 52 + ?frac * 2 ^ 29 < 2047 * 2 ^ 52"
    using ex frac by simp
  ultimately have "(if ?ex = 0 then if ?frac = 0 then 0 else (b + 874) * 2 ^ 52 + (?frac * 2 ^ (52 - b) - 2 ^ 52)
      else (?ex + 896) * 2 ^ 52 + ?frac * 2 ^ 29) < 2047 * 2 ^ 52" (is "?M < _")
    by (intro if_below) simp_all
  from f64_finite_bound [OF this, of "x AND 0x80000000 = 0"]
  show ?thesis by (simp only: f64_of_f32_def Let_def b_def)
qed

lemma component_ok_json [simp]: "component_ok (json_or_zero x)" "component_ok (json_or_null x) \<longleftrightarrow> f32_is_finite x"
proof -
  have "f64_is_finite (f64_of_int 0)" by (simp add: f64_of_int_def f64_of_nat_def f64_is_finite_def)
  then show "component_ok (json_or_zero x)"
    by (simp add: component_ok_def json_or_zero_def number_as_f64_def)
qed (simp add: component_ok_def json_or_null_def number_as_f64_def)

definition point_id_ok :: "point_id \<Rightarrow> bool" where
  "point_id_ok p \<longleftrightarrow> (case p of PidInteger _ \<Rightarrow> True | PidString str \<Rightarrow> str \<noteq> '''' \<and> length str \<le> 255)"

definition components_ok :: "nat \<Rightarrow> f32 list \<Rightarrow> bool" where
  "components_ok dim xs \<longleftrightarrow> length xs = dim \<and> xs \<noteq> [] \<and> length xs \<le> 65536 \<and> (\<forall>x \<in> set xs. f32_is_finite x)"

lemma valid_id_json [simp]: "is_valid_point_id (json_of_id p) \<longleftrightarrow> point_id_ok p"
  by (simp add: is_valid_point_id_def json_of_id_def point_id_ok_def split: point_id.split)

lemma point_fields [simp]:
  "json_get (JObject ((''id'', i) # (''vector'', v) # json_of_payload p)) ''id'' = Some i"
  "json_get (JObject ((''id'', i) # (''vector'', v) # json_of_payload p)) ''vector'' = Some v"
  "json_get (JObject ((''id'', i) # (''vector'', v) # json_of_payload p)) ''payload'' = map_option JObject p"
  by (auto simp: json_get_def hm_get_def json_of_payload_def split: option.split)

lemma point_ok_fields:
  "point_ok d (JObject ((''id'', json_of_id pid) # (''vector'', v) # json_of_payload p)) \<longleftrightarrow> point_id_ok pid \<and> vector_ok d v"
  unfolding point_ok_def point_fields by (cases p) auto

text \<open>
  An upsert in the form of points is valid exactly if there are between 1 and 10000 of them, every id is a
  number or a short string, and every vector, or every named vector, has the collection's dimension and
  finite components.
\<close>

theorem accepted_points_exact:
  "validate_upsert_request tx name (map point_json ps) (Some dim) = Inr () \<longleftrightarrow>
     name_ok tx name \<and> ps \<noteq> [] \<and> length ps \<le> 10000 \<and>
     (\<forall>p \<in> set ps. point_id_ok (pt_id p) \<and>
        (case pt_vector p of
           VecPlain xs \<Rightarrow> components_ok dim xs
         | VecNamed m \<Rightarrow> \<forall>(_, xs) \<in> set m. components_ok dim xs))"
proof -
  have "vector_ok (Some dim) (json_of_vector v) \<longleftrightarrow>
      (case v of VecPlain xs \<Rightarrow> components_ok dim xs | VecNamed m \<Rightarrow> \<forall>(_, xs) \<in> set m. components_ok dim xs)" for v
    by (auto simp: vector_ok_def array_ok_def json_of_vector_def components_ok_def split: vector_input.split)
  then show ?thesis
    unfolding upsert_validation_iff by (simp add: point_json_def point_ok_fields)
qed

text \<open>
  In the form of a batch the components are not looked at: the conversion for the validation replaces
  infinities and NaNs by zero, and the vectors themselves are stored.
\<close>

theorem batch_components_unchecked:
  assumes "name_ok tx name" and "pb_ids b \<noteq> []" and "length (pb_ids b) \<le> 10000" and "length (pb_vectors b) = length (pb_ids b)"
    and "\<forall>pid \<in> set (pb_ids b). point_id_ok pid"
    and "\<forall>xs \<in> set (pb_vectors b). length xs = dim" and "0 < dim" and "dim \<le> 65536"
  shows "validate_upsert_request tx name (batch_json b) (Some dim) = Inr ()
    \<and> map (\<lambda>(_, xs, _). xs) (batch_points b) = pb_vectors b"
proof
  have "point_ok (Some dim) p" if mem: "p \<in> set (batch_json b)" for p
  proof -
    obtain i pid v where p: "p = JObject ((''id'', json_of_id pid) # (''vector'', JArray (map json_or_zero v)) #
        json_of_payload (batch_payload b i))" and i: "(i, pid, v) \<in> set (enumerate 0 (zip (pb_ids b) (pb_vectors b)))"
      using mem by (auto simp: batch_json_def)
    from i have "(pid, v) \<in> set (zip (pb_ids b) (pb_vectors b))"
      by (auto simp: enumerate_eq_zip dest: set_zip_rightD)
    then have "pid \<in> set (pb_ids b)" "length v = dim" using assms(6) by (auto dest: set_zip_leftD set_zip_rightD)
    then show ?thesis
      using assms(5,7,8) unfolding p point_ok_fields by (auto simp: vector_ok_def array_ok_def)
  qed
  then show "validate_upsert_request tx name (batch_json b) (Some dim) = Inr ()"
    using assms(1-4) unfolding upsert_validation_iff by (auto simp: batch_json_def enumerate_eq_zip)
  have "map (\<lambda>(_, xs, _). xs) (batch_points b) = map (snd \<circ> snd) (enumerate 0 (zip (pb_ids b) (pb_vectors b)))"
    by (simp add: batch_points_def case_prod_beta comp_def)
  also have "\<dots> = map snd (zip (pb_ids b) (pb_vectors b))"
    by (simp add: enumerate_eq_zip flip: map_map)
  finally show "map (\<lambda>(_, xs, _). xs) (batch_points b) = pb_vectors b" using assms(4) by simp
qed

subsection \<open>Scrolling\<close>

text \<open>The ids from \<open>n\<close> up to \<open>m\<close> that are stored, for a lookup that does not panic.\<close>

definition stored_between :: "(u64 \<Rightarrow> retrieved_vector option) \<Rightarrow> nat \<Rightarrow> nat \<Rightarrow> nat list" where
  "stored_between g n m = filter (\<lambda>j. g (of_nat j) \<noteq> None) [n..<Suc m]"

definition page_points :: "(u64 \<Rightarrow> retrieved_vector option) \<Rightarrow> scroll_request \<Rightarrow> nat list \<Rightarrow> point_struct list" where
  "page_points g rq js = map (\<lambda>j. scroll_point rq (of_nat j) (the (g (of_nat j)))) js"

definition page_next :: "nat \<Rightarrow> nat list \<Rightarrow> point_id option" where
  "page_next k js = (if k \<le> length js then Some (PidInteger (of_nat (last (take k js) + 1))) else None)"

lemma stored_between_step:
  "n \<le> m \<Longrightarrow> stored_between g n m = (if g (of_nat n) \<noteq> None then [n] else []) @ stored_between g (Suc n) m"
  using upt_conv_Cons [of n "Suc m"] by (simp add: stored_between_def del: upt_Suc)

lemma stored_between_empty: "m < n \<Longrightarrow> stored_between g n m = []"
  by (simp add: stored_between_def)

lemma scroll_loop_page:
  "n \<le> m \<Longrightarrow> m = unat start + 100000 \<Longrightarrow> m + 1 < 2 ^ 64 \<Longrightarrow> length points < sl_limit rq \<Longrightarrow>
   scroll_loop (\<lambda>i. Some (g i)) rq start (of_nat n) points =
     (let k = sl_limit rq - length points; js = stored_between g n m
      in Some (points @ page_points g rq (take k js), page_next k js))"
proof (induction "m - n" arbitrary: n points)
  case (0 n points)
  then have n: "n = m" by simp
  have "of_nat n + 1 > start + 100000"
    using 0 n by (simp add: word_less_nat_alt unat_word_ariths unat_of_nat)
  moreover have "stored_between g n m = (if g (of_nat n) \<noteq> None then [n] else [])"
    by (simp add: stored_between_step n stored_between_empty)
  ultimately show ?case
    using 0(5) by (subst scroll_loop.simps) (auto simp: Let_def page_points_def page_next_def split: option.split)
next
  case (Suc d n points)
  then have n: "n < m" by simp
  have le: "\<not> of_nat n + 1 > start + 100000"
    using Suc.prems n by (simp add: word_less_nat_alt unat_word_ariths unat_of_nat)
  let ?points = "points @ (case g (of_nat n) of None \<Rightarrow> [] | Some v \<Rightarrow> [scroll_point rq (of_nat n) v])"
  have step: "scroll_loop (\<lambda>i. Some (g i)) rq start (of_nat n) points =
      (if length ?points = sl_limit rq then Some (?points, Some (PidInteger (of_nat (Suc n))))
       else scroll_loop (\<lambda>i. Some (g i)) rq start (of_nat (Suc n)) ?points)"
    using Suc.prems(4) le
    by (subst scroll_loop.simps) (auto simp: Let_def add.commute split: option.split)
  have IH: "scroll_loop (\<lambda>i. Some (g i)) rq start (of_nat (Suc n)) ?points =
      (let k = sl_limit rq - length ?points; js = stored_between g (Suc n) m
       in Some (?points @ page_points g rq (take k js), page_next k js))"
    if "length ?points < sl_limit rq"
    using that Suc.hyps(2) Suc.prems by (intro Suc.hyps(1)) simp_all
  show ?case
  proof (cases "g (of_nat n)")
    case None
    with step IH Suc.prems(4) n show ?thesis by (simp add: stored_between_step [of n] Let_def)
  next
    case (Some v)
    show ?thesis
    proof (cases "length points + 1 = sl_limit rq")
      case True
      then have "sl_limit rq - length points = 1" by simp
      with True Some step n show ?thesis
        by (simp add: stored_between_step [of n] Let_def page_points_def page_next_def)
    next
      case False
      then obtain k where k: "sl_limit rq - length points = Suc (Suc k)" "sl_limit rq - Suc (length points) = Suc k"
        using Suc.prems(4) by (metis Suc_diff_Suc Suc_eq_plus1 Suc_lessI)
      with False Some step IH Suc.prems(4) n show ?thesis
        by (auto simp: stored_between_step [of n] Let_def page_points_def page_next_def)
    qed
  qed
qed

text \<open>
  C29.  A scroll that starts at least 100001 ids below the end of the id space returns, and returns the stored
  points among the next 100001 ids in ascending order, at most as many as the limit; and the offset of a
  next page is the id after the last point exactly if the limit was reached.
\<close>

theorem scroll_returns_page:
  assumes "unat start + 100001 < 2 ^ 64" and "0 < sl_limit rq" and "\<And>i. get i = Some (g i)"
  shows "scroll_loop get rq start start [] =
    Some (page_points g rq (take (sl_limit rq) (stored_between g (unat start) (unat start + 100000))),
      page_next (sl_limit rq) (stored_between g (unat start) (unat start + 100000)))"
proof -
  have get: "get = (\<lambda>i. Some (g i))" using assms(3) by blast
  show ?thesis
    using scroll_loop_page [of "unat start" _ start "[]" rq g] assms(1,2) by (simp add: get Let_def)
qed

definition wraps_around :: "(u64 \<Rightarrow> retrieved_vector option option) \<Rightarrow> scroll_request \<Rightarrow> u64 \<Rightarrow> point_struct list \<Rightarrow> bool" where
  "wraps_around get rq start points \<longleftrightarrow>
     get = (\<lambda>_. Some None) \<and> 0 < sl_limit rq \<and> start = 18446744073709451615 \<and> points = []"

lemma wraps_around_no_result:
  assumes "scroll_loop get rq start i points = Some y"
  shows "\<not> wraps_around get rq start points"
proof (rule scroll_loop.raw_induct [where P = "\<lambda>get rq start i points y. \<not> wraps_around get rq start points", OF _ assms])
  fix loop get rq start i points and y :: "point_struct list \<times> point_id option"
  assume IH: "\<And>get rq start i points y. loop get rq start i points = Some y \<Longrightarrow> \<not> wraps_around get rq start points"
    and body: "(if sl_limit rq \<le> length points then Some (points, None)
      else Option.bind (get i) (\<lambda>found.
        let points' = (case found of None \<Rightarrow> points | Some v \<Rightarrow> points @ [scroll_point rq i v]);
            next_offset = (if length points' = sl_limit rq then Some (PidInteger (i + 1)) else None)
        in if length points' = sl_limit rq \<or> i + 1 > start + 100000 then Some (points', next_offset)
           else loop get rq start (i + 1) points')) = Some y"
  show "\<not> wraps_around get rq start points"
  proof
    assume w: "wraps_around get rq start points"
    then have "start + 100000 = -1" by (simp add: wraps_around_def)
    then have "\<not> i + 1 > start + 100000" by (metis word_not_simps(3))
    with w body have "loop get rq start (i + 1) points = Some y"
      by (auto simp: wraps_around_def)
    from IH [OF this] w show False by simp
  qed
qed

text \<open>
  The bound of the loop wraps: from the one id where it comes to the greatest number, a scroll of an empty
  collection never returns.
\<close>

theorem scroll_can_diverge:
  assumes "0 < sl_limit rq" and "start = 18446744073709451615"
  shows "scroll_loop (\<lambda>_. Some None) rq start start [] = None"
  using wraps_around_no_result [of "\<lambda>_. Some None" rq start start "[]"] assms
  by (cases "scroll_loop (\<lambda>_. Some None) rq start start []") (auto simp: wraps_around_def)

subsection \<open>Examples\<close>

text \<open>A collection of dimension 1 without points, over any snapshots.\<close>

definition line_env :: "snapshot_codec \<Rightarrow> (u64, payload entry) btree qdrant_env" where
  "line_env sx = \<lparr>qe_ext = json_ext, qe_fp = bits_fp, qe_json = line_codec, qe_text = ascii_ops, qe_snap = sx,
     qe_json_text = (\<lambda>_. ''''), qe_quote = (\<lambda>s. s), qe_draw = (\<lambda>n. (of_nat n, 0))\<rparr>"

definition line_state :: "snapshot_manager \<Rightarrow> (u64, payload entry) btree qdrant_state" where
  "line_state sg = \<lparr>qs_collections = \<lparr>mg_collections = [(''line'', ''{}'', point_collection empty_engine)], mg_other = []\<rparr>,
     qs_snapshots = sg\<rparr>"

lemma line_env_simps [simp]:
  "qe_ext (line_env sx) = json_ext" "qe_text (line_env sx) = ascii_ops" "qe_draw (line_env sx) = (\<lambda>n. (of_nat n, 0))"
  by (simp_all add: line_env_def)

lemma line_state_held: "get_collection ''line'' (qs_collections (line_state sg)) = Inr (point_collection empty_engine)"
  by (simp add: get_collection_def line_state_def hm_get_def ok_or_def)

lemma line_dimension: "cc_dimension (co_config (point_collection e)) = 1"
  by (simp add: point_collection_def line_config_def collection_config_new_def)

lemma line_name: "name_ok ascii_ops ''line''"
  by (simp add: name_ok_def ascii_ops_def)

definition one_point :: "point_id \<Rightarrow> upsert_points_request" where
  "one_point pid = \<lparr>up_points = [\<lparr>pt_id = pid, pt_vector = VecPlain [7], pt_payload = None\<rparr>], up_batch = None\<rparr>"

lemma one_point_valid:
  "point_id_ok pid \<Longrightarrow> validate_upsert_request ascii_ops ''line'' (map point_json (up_points (one_point pid))) (Some 1) = Inr ()"
  unfolding accepted_points_exact
  by (simp add: one_point_def line_name components_ok_def f32_is_finite_def)

theorem accepted_points_exact_witness:
  "validate_upsert_request ascii_ops ''line'' (map point_json (up_points (one_point (PidInteger 3)))) (Some 1) = Inr ()"
  unfolding accepted_points_exact
  by (simp add: one_point_def line_name components_ok_def f32_is_finite_def point_id_ok_def)

theorem upserted_points_are_read_witness:
  "\<forall>sx sg. \<exists>r s'. upsert_points (line_env sx) ''line'' (one_point (PidInteger 3)) (line_state sg) = Some (api_success r, s')
     \<and> get_point (line_env sx) ''line'' 3 s' =
         Some (api_success \<lparr>pt_id = PidInteger 3, pt_vector = VecPlain [7], pt_payload = None\<rparr>)"
proof (intro allI)
  fix sx sg
  let ?rq = "one_point (PidInteger 3)"
  have core: "core_vectors (request_points ?rq) = [(3, \<lparr>v_data = [7], v_payload = None\<rparr>)]"
    by (simp add: request_points_def one_point_def struct_points_def core_vectors_def map_filter_def pid_as_u64_def
        plain_vector_def)
  have items: "request_items (line_env sx) ?rq = [(0, 0, 3, \<lparr>v_data = [7], v_payload = None\<rparr>)]"
    by (simp add: request_items_def core draw_vectors_def)
  have valid: "validate_upsert_request (qe_text (line_env sx)) ''line'' (request_json ?rq)
      (Some (cc_dimension (co_config (point_collection empty_engine)))) = Inr ()"
    using one_point_valid [of "PidInteger 3"]
    by (simp add: request_json_def point_id_ok_def line_dimension) (simp add: one_point_def)
  have fit: "items_fit (qe_ext (line_env sx)) (request_items (line_env sx) ?rq)
      (cc_dimension (co_config (point_collection empty_engine))) (en_mem (co_storage (point_collection empty_engine)))"
    unfolding items line_env_simps line_dimension
    using one_item_fits [of "\<lparr>v_data = [7], v_payload = None\<rparr>" 0 0 3] by (simp add: point_collection_def)
  have skip: "ordered_map (x_skip (qe_ext (line_env sx)))" using json_ext_ok by simp
  show "\<exists>r s'. upsert_points (line_env sx) ''line'' ?rq (line_state sg) = Some (api_success r, s')
     \<and> get_point (line_env sx) ''line'' 3 s' =
         Some (api_success \<lparr>pt_id = PidInteger 3, pt_vector = VecPlain [7], pt_payload = None\<rparr>)"
    using upserted_points_are_read [OF skip line_state_held valid fit] by (fastforce simp: last_point_def request_points_def one_point_def struct_points_def pid_as_u64_def plain_vector_def)
qed

theorem string_ids_are_dropped_witness:
  "\<forall>sx sg. \<exists>r s'. upsert_points (line_env sx) ''line'' (one_point (PidString ''c56a4180-65aa'')) (line_state sg)
       = Some (api_success r, s')
     \<and> (\<forall>i. get_point (line_env sx) ''line'' i s' = get_point (line_env sx) ''line'' i (line_state sg))"
proof (intro allI)
  fix sx sg
  let ?pid = "PidString ''c56a4180-65aa''"
  have "parse_u64 ''c56a4180-65aa'' = None"
    by (simp add: parse_u64_def char_digit_def)
  then have ids: "\<forall>p \<in> set (up_points (one_point ?pid)). \<exists>str. pt_id p = PidString str \<and> parse_u64 str = None"
    by (simp add: one_point_def)
  have valid: "validate_upsert_request (qe_text (line_env sx)) ''line'' (map point_json (up_points (one_point ?pid)))
      (Some (cc_dimension (co_config (point_collection empty_engine)))) = Inr ()"
    using one_point_valid [of ?pid] by (simp add: point_id_ok_def line_dimension)
  have "up_batch (one_point ?pid) = None" by (simp add: one_point_def)
  from string_ids_are_dropped [OF line_state_held this valid ids]
  show "\<exists>r s'. upsert_points (line_env sx) ''line'' (one_point ?pid) (line_state sg) = Some (api_success r, s')
     \<and> (\<forall>i. get_point (line_env sx) ''line'' i s' = get_point (line_env sx) ''line'' i (line_state sg))"
    by blast
qed

text \<open>A batch with an infinite component.\<close>

theorem batch_components_unchecked_witness:
  "validate_upsert_request ascii_ops ''line'' (batch_json \<lparr>pb_ids = [PidInteger 3], pb_vectors = [[0x7F800000]], pb_payloads = None\<rparr>)
     (Some 1) = Inr () \<and> \<not> f32_is_finite 0x7F800000"
  using batch_components_unchecked [OF line_name,
      of "\<lparr>pb_ids = [PidInteger 3], pb_vectors = [[0x7F800000]], pb_payloads = None\<rparr>" 1]
  by (simp add: point_id_ok_def f32_is_finite_def)

definition page_request :: "nat \<Rightarrow> scroll_request" where
  "page_request n = \<lparr>sl_offset = None, sl_limit = n, sl_filter = None, sl_with_vector = None, sl_with_payload = True\<rparr>"

theorem scroll_returns_page_witness:
  "scroll_loop (\<lambda>_. Some None) (page_request 10) 5 5 [] = Some ([], None)"
proof -
  have "scroll_loop (\<lambda>_. Some None) (page_request 10) 5 5 [] =
      Some (page_points (\<lambda>_. None) (page_request 10) (take (sl_limit (page_request 10))
          (stored_between (\<lambda>_. None) (unat (5 :: u64)) (unat (5 :: u64) + 100000))),
        page_next (sl_limit (page_request 10)) (stored_between (\<lambda>_. None) (unat (5 :: u64)) (unat (5 :: u64) + 100000)))"
    by (rule scroll_returns_page) (simp_all add: page_request_def)
  moreover have "stored_between (\<lambda>_. None) n m = []" for n m
    by (simp add: stored_between_def)
  ultimately show ?thesis by (simp add: page_points_def page_next_def page_request_def)
qed

theorem scroll_can_diverge_witness:
  "scroll_loop (\<lambda>_. Some None) (page_request 10) 18446744073709451615 18446744073709451615 [] = None"
  by (rule scroll_can_diverge) (simp_all add: page_request_def)

end
