(* ===== verification/ClusterRpc.thy ===== *)
theory ClusterRpc
  imports Collection ClusterTopology Bytes
begin

text \<open>
  The calls between the nodes of a cluster: the client with its connection pools
  (\<open>src/src/cluster/client.rs\<close>), the handlers of the server (\<open>src/src/cluster/server.rs\<close>) and the
  router that puts an operation on the node that owns it (\<open>src/src/cluster/storage_router.rs\<close>).

  A channel is the address it is connected to; whether a connection succeeds is the argument \<open>dial\<close>.
  The generated code carries a message as it is.  A network is the list of the nodes by the address
  they listen at, and what the network and the time limits do to a call is its \<open>fate\<close>.  Clocks and
  random numbers are arguments.
\<close>

subsection \<open>Vectors as bytes\<close>

definition vector_to_bytes :: "f32 list \<Rightarrow> u8 list" where
  "vector_to_bytes v = concat (map u32_le v)"

text \<open>\<open>chunks_exact(4)\<close>: an incomplete last chunk is left out.\<close>

fun bytes_to_vector :: "u8 list \<Rightarrow> f32 list" where
  "bytes_to_vector (a # b # c # d # bs) = u32_of_le [a, b, c, d] # bytes_to_vector bs"
| "bytes_to_vector _ = []"

subsection \<open>The messages\<close>

text \<open>Error texts and measured times are left out, and the answer of a leave request, which is constant.\<close>

record join_request =
  jq_node_id :: string
  jq_address :: string
  jq_capacity :: u64
  jq_metadata :: "u8 list"

record proto_node =
  px_id :: string
  px_address :: string
  px_status :: "32 word"
  px_capacity :: u64
  px_load :: u64
  px_shards :: "u32 list"
  px_last_heartbeat :: u64
  px_metadata :: "u8 list"

record shard_mapping =
  px_shard_id :: u32
  px_primary_node :: string
  px_replica_nodes :: "string list"

record proto_topology =
  px_version :: u64
  px_nodes :: "proto_node list"
  px_shard_mapping :: "shard_mapping list"
  px_timestamp :: u64

record join_response =
  jr_success :: bool
  jr_topology :: "proto_topology option"
  jr_config :: "u8 list"

record heartbeat_request =
  hq_node_id :: string
  hq_timestamp :: u64
  hq_load :: u64
  hq_shards :: "u32 list"
  hq_metrics :: "u8 list"

record heartbeat_response =
  hr_acknowledged :: bool
  hr_server_timestamp :: u64
  hr_topology :: "proto_topology option"
  hr_topology_changed :: bool

record topology_response =
  tr_topology :: "proto_topology option"
  tr_server_timestamp :: u64

record leave_request =
  lq_node_id :: string
  lq_graceful :: bool

record health_response =
  he_status :: nat
  he_node_id :: string
  he_uptime_seconds :: u64

record rpc_search_request =
  sq_collection :: string
  sq_vector :: "u8 list"
  sq_top_k :: u32
  sq_score_threshold :: f32
  sq_filter :: "u8 list"
  sq_request_id :: u64

record proto_scored_vector =
  pv_id :: u64
  pv_score :: f32
  pv_payload :: "u8 list"
  pv_version :: u64

record rpc_search_response =
  ss_results :: "proto_scored_vector list"
  ss_failed :: bool
  ss_request_id :: u64

record batch_search_request =
  bs_collection :: string
  bs_vectors :: "u8 list list"
  bs_top_k :: u32
  bs_score_threshold :: f32
  bs_filter :: "u8 list"
  bs_request_id :: u64

record insert_request =
  iq_collection :: string
  iq_id :: u64
  iq_vector :: "u8 list"
  iq_payload :: "u8 list"
  iq_timestamp :: u64
  iq_request_id :: u64

record insert_response =
  is_success :: bool
  is_request_id :: u64

record batch_entry =
  ve_id :: u64
  ve_vector :: "u8 list"
  ve_payload :: "u8 list"
  ve_timestamp :: u64

record batch_insert_request =
  bq_collection :: string
  bq_entries :: "batch_entry list"
  bq_request_id :: u64

record batch_insert_response =
  bi_success :: bool
  bi_inserted_count :: u32
  bi_failed_ids :: "u64 list"
  bi_request_id :: u64

record replicate_request =
  rq_collection :: string
  rq_id :: u64
  rq_vector :: "u8 list"
  rq_payload :: "u8 list"
  rq_timestamp :: u64
  rq_sequence_number :: u64
  rq_is_delete :: bool

record replicate_response =
  rp_success :: bool
  rp_replicated_at :: u64
  rp_applied_sequence :: u64

record batch_replicate_request =
  bp_collection :: string
  bp_entries :: "replicate_request list"
  bp_base_sequence :: u64

record batch_replicate_response =
  br_success :: bool
  br_replicated_at :: u64
  br_highest_applied_sequence :: u64
  br_applied_count :: u32

subsection \<open>The client\<close>

record pool =
  pl_channels :: "string list"
  pl_current_index :: u64
  pl_address :: string

record client_config =
  xc_pool_size :: nat
  xc_request_timeout :: nat
  xc_search_timeout :: nat
  xc_enable_compression :: bool
  xc_enable_keepalive :: bool

definition client_config_default :: client_config where
  "client_config_default =
     \<lparr>xc_pool_size = 4, xc_request_timeout = secs 5, xc_search_timeout = secs 30, xc_enable_compression = True,
      xc_enable_keepalive = True\<rparr>"

record cluster_client =
  xl_config :: cluster_config
  xl_client_config :: client_config
  xl_pools :: "(string \<times> pool) list"
  xl_request_id :: u64

text \<open>Whether the \<open>i\<close>-th connection to an address succeeds.\<close>

type_synonym dialer = "string \<Rightarrow> nat \<Rightarrow> bool"

definition create_channel :: "dialer \<Rightarrow> string \<Rightarrow> nat \<Rightarrow> string res" where
  "create_channel dial addr i = (if dial addr i then Inr addr else Inl EIo)"

fun create_channels :: "dialer \<Rightarrow> string \<Rightarrow> nat list \<Rightarrow> string list res" where
  "create_channels dial addr [] = Inr []"
| "create_channels dial addr (i # is) =
     and_then (create_channel dial addr i) (\<lambda>c. and_then (create_channels dial addr is) (\<lambda>cs. Inr (c # cs)))"

definition pool_new :: "dialer \<Rightarrow> string \<Rightarrow> nat \<Rightarrow> pool res" where
  "pool_new dial addr pool_size =
     and_then (create_channels dial addr [0..<pool_size])
       (\<lambda>cs. Inr \<lparr>pl_channels = cs, pl_current_index = 0, pl_address = addr\<rparr>)"

text \<open>The remainder panics when the pool is empty.\<close>

definition get_channel :: "pool \<Rightarrow> (string \<times> pool) option" where
  "get_channel p =
     (if pl_channels p = [] then None
      else Some (pl_channels p ! (unat (pl_current_index p) mod length (pl_channels p)),
                 p\<lparr>pl_current_index := pl_current_index p + 1\<rparr>))"

definition get_channel_at :: "nat \<Rightarrow> pool \<Rightarrow> string option option" where
  "get_channel_at index p =
     (if pl_channels p = [] then None else Some (Some (pl_channels p ! (index mod length (pl_channels p)))))"

definition refresh_channel :: "dialer \<Rightarrow> nat \<Rightarrow> pool \<Rightarrow> unit res \<times> pool" where
  "refresh_channel dial index p =
     (if index < length (pl_channels p) then
        (case create_channel dial (pl_address p) index of
           Inl err \<Rightarrow> (Inl err, p)
         | Inr c \<Rightarrow> (Inr (), p\<lparr>pl_channels := (pl_channels p)[index := c]\<rparr>))
      else (Inr (), p))"

definition client_with_config :: "cluster_config \<Rightarrow> client_config \<Rightarrow> cluster_client" where
  "client_with_config config cc = \<lparr>xl_config = config, xl_client_config = cc, xl_pools = [], xl_request_id = 1\<rparr>"

definition cluster_client_new :: "cluster_config \<Rightarrow> cluster_client" where
  "cluster_client_new config = client_with_config config client_config_default"

definition next_request_id :: "cluster_client \<Rightarrow> u64 \<times> cluster_client" where
  "next_request_id cl = (xl_request_id cl, cl\<lparr>xl_request_id := xl_request_id cl + 1\<rparr>)"

definition client_connect :: "dialer \<Rightarrow> node_info \<Rightarrow> cluster_client \<Rightarrow> unit res \<times> cluster_client" where
  "client_connect dial node cl =
     (case pool_new dial (ni_address node) (xc_pool_size (xl_client_config cl)) of
        Inl err \<Rightarrow> (Inl err, cl)
      | Inr p \<Rightarrow> (Inr (), cl\<lparr>xl_pools := hm_insert (ni_id node) p (xl_pools cl)\<rparr>))"

definition client_disconnect :: "string \<Rightarrow> cluster_client \<Rightarrow> cluster_client" where
  "client_disconnect nid cl = cl\<lparr>xl_pools := hm_remove nid (xl_pools cl)\<rparr>"

definition get_pool :: "string \<Rightarrow> cluster_client \<Rightarrow> pool res" where
  "get_pool nid cl = ok_or (hm_get (xl_pools cl) nid) EStorage"

definition connected_nodes :: "cluster_client \<Rightarrow> string list" where
  "connected_nodes cl = map fst (xl_pools cl)"

definition is_connected :: "string \<Rightarrow> cluster_client \<Rightarrow> bool" where
  "is_connected nid cl \<longleftrightarrow> hm_get (xl_pools cl) nid \<noteq> None"

definition pool_stats :: "cluster_client \<Rightarrow> (string \<times> nat) list" where
  "pool_stats cl = map (\<lambda>(nid, p). (nid, length (pl_channels p))) (xl_pools cl)"

text \<open>
  The head of every call: the pool of the node and its next channel, whose counter is shared with the
  pool that stays in the map.
\<close>

definition open_call :: "string \<Rightarrow> cluster_client \<Rightarrow> (string \<times> cluster_client) res option" where
  "open_call nid cl =
     (case get_pool nid cl of
        Inl err \<Rightarrow> Some (Inl err)
      | Inr p \<Rightarrow> map_option (\<lambda>(addr, p'). Inr (addr, cl\<lparr>xl_pools := hm_insert nid p' (xl_pools cl)\<rparr>)) (get_channel p))"

subsection \<open>Joining\<close>

definition capacity_default :: nat where
  "capacity_default = 100000000"

definition joining_node :: "u64 \<Rightarrow> cluster_client \<Rightarrow> node_info" where
  "joining_node now cl =
     \<lparr>ni_id = cl_node_id (xl_config cl), ni_address = cl_bind_addr (xl_config cl), ni_status = Joining, ni_shards = [],
      ni_capacity = capacity_default, ni_load = 0, ni_last_heartbeat = now\<rparr>"

text \<open>
  \<open>ask seed request\<close> is the seed's answer, \<open>None\<close> when it cannot be reached or answers with a status.
\<close>

definition try_join_seed ::
  "(string \<Rightarrow> join_request \<Rightarrow> join_response option) \<Rightarrow> string \<Rightarrow> node_info \<Rightarrow> proto_topology res"
where
  "try_join_seed ask seed local =
     (case ask seed \<lparr>jq_node_id = ni_id local, jq_address = ni_address local, jq_capacity = of_nat (ni_capacity local),
                     jq_metadata = []\<rparr> of
        None \<Rightarrow> Inl EIo
      | Some r \<Rightarrow> if \<not> jr_success r then Inl EStorage else ok_or (jr_topology r) EStorage)"

definition connect_listed :: "dialer \<Rightarrow> (string \<Rightarrow> string option) \<Rightarrow> u64 \<Rightarrow> proto_node \<Rightarrow> cluster_client \<Rightarrow> cluster_client" where
  "connect_listed dial parse_addr now n cl =
     (if px_id n = cl_node_id (xl_config cl) then cl
      else
        (case parse_addr (px_address n) of
           None \<Rightarrow> cl
         | Some addr \<Rightarrow>
             snd (client_connect dial
               \<lparr>ni_id = px_id n, ni_address = addr, ni_status = Active, ni_shards = px_shards n,
                ni_capacity = unat (px_capacity n), ni_load = unat (px_load n), ni_last_heartbeat = now\<rparr> cl)))"

fun join_via ::
  "dialer \<Rightarrow> (string \<Rightarrow> string option) \<Rightarrow> u64 \<Rightarrow> (string \<Rightarrow> join_request \<Rightarrow> join_response option) \<Rightarrow> node_info \<Rightarrow>
   string list \<Rightarrow> cluster_client \<Rightarrow> node_info res \<times> cluster_client"
where
  "join_via dial parse_addr now ask local [] cl = (Inl EStorage, cl)"
| "join_via dial parse_addr now ask local (seed # seeds) cl =
     (case try_join_seed ask seed local of
        Inr t \<Rightarrow> (Inr local, fold (connect_listed dial parse_addr now) (px_nodes t) cl)
      | Inl _ \<Rightarrow> join_via dial parse_addr now ask local seeds cl)"

definition client_join_cluster ::
  "dialer \<Rightarrow> (string \<Rightarrow> string option) \<Rightarrow> u64 \<Rightarrow> (string \<Rightarrow> join_request \<Rightarrow> join_response option) \<Rightarrow>
   string list \<Rightarrow> cluster_client \<Rightarrow> node_info res \<times> cluster_client"
where
  "client_join_cluster dial parse_addr now ask seeds cl =
     join_via dial parse_addr now ask (joining_node now cl) seeds cl"

text \<open>
  Calls without effect on the other node; \<open>reply\<close> is its answer, \<open>None\<close> an error status.  A heartbeat
  that fails drops the pool.
\<close>

definition send_heartbeat ::
  "u64 \<Rightarrow> (string \<Rightarrow> heartbeat_request \<Rightarrow> heartbeat_response option) \<Rightarrow> string \<Rightarrow> cluster_client \<Rightarrow>
   (bool res \<times> cluster_client) option"
where
  "send_heartbeat now ask nid cl =
     (case open_call nid cl of
        None \<Rightarrow> None
      | Some (Inl err) \<Rightarrow> Some (Inl err, cl)
      | Some (Inr (addr, cl1)) \<Rightarrow>
          (case ask addr \<lparr>hq_node_id = cl_node_id (xl_config cl), hq_timestamp = now, hq_load = 0, hq_shards = [],
                          hq_metrics = []\<rparr> of
             Some r \<Rightarrow> Some (Inr (hr_acknowledged r), cl1)
           | None \<Rightarrow> Some (Inl EIo, cl1\<lparr>xl_pools := hm_remove nid (xl_pools cl1)\<rparr>)))"

definition client_get_topology ::
  "(string \<Rightarrow> bool \<Rightarrow> topology_response option) \<Rightarrow> string \<Rightarrow> cluster_client \<Rightarrow> (proto_topology res \<times> cluster_client) option"
where
  "client_get_topology ask nid cl =
     (case open_call nid cl of
        None \<Rightarrow> None
      | Some (Inl err) \<Rightarrow> Some (Inl err, cl)
      | Some (Inr (addr, cl1)) \<Rightarrow>
          (case ask addr True of
             None \<Rightarrow> Some (Inl EStorage, cl1)
           | Some r \<Rightarrow> Some (ok_or (tr_topology r) EStorage, cl1)))"

definition health_check ::
  "(string \<Rightarrow> health_response option) \<Rightarrow> string \<Rightarrow> cluster_client \<Rightarrow> (bool res \<times> cluster_client) option"
where
  "health_check ask nid cl =
     (case open_call nid cl of
        None \<Rightarrow> None
      | Some (Inl err) \<Rightarrow> Some (Inl err, cl)
      | Some (Inr (addr, cl1)) \<Rightarrow>
          (case ask addr of
             None \<Rightarrow> Some (Inr False, cl1)
           | Some r \<Rightarrow> Some (Inr (he_status r = 1), cl1)))"

subsection \<open>The answers that do not depend on the node\<close>

definition srv_join_cluster :: "join_request \<Rightarrow> join_response" where
  "srv_join_cluster rq = \<lparr>jr_success = True, jr_topology = None, jr_config = []\<rparr>"

text \<open>Whether the leave is acknowledged.\<close>

definition srv_leave_cluster :: "leave_request \<Rightarrow> bool" where
  "srv_leave_cluster rq = True"

definition srv_get_topology :: "u64 \<Rightarrow> bool \<Rightarrow> topology_response" where
  "srv_get_topology now mappings = \<lparr>tr_topology = None, tr_server_timestamp = now\<rparr>"

definition srv_heartbeat :: "u64 \<Rightarrow> heartbeat_request \<Rightarrow> heartbeat_response" where
  "srv_heartbeat now rq =
     \<lparr>hr_acknowledged = True, hr_server_timestamp = now, hr_topology = None, hr_topology_changed = False\<rparr>"

definition srv_health :: health_response where
  "srv_health = \<lparr>he_status = 1, he_node_id = [], he_uptime_seconds = 0\<rparr>"

subsection \<open>The network\<close>

text \<open>
  What happens to a call: it does not arrive, it is carried out but its answer is lost or comes after
  the time limit, or it is answered.
\<close>

datatype fate = LostRequest | LostReply | Delivered

record 'm member =
  mb_id :: string
  mb_collections :: "'m manager"
  mb_cluster :: cluster_manager
  mb_client :: cluster_client

type_synonym 'm net = "(string \<times> 'm member) list"

text \<open>
  What the definitions take from outside: third-party code, the clock, whether the transport of the servers has
  the codec for gzip, the draws of an upsert.
\<close>

record 'm rpc_env =
  re_ext :: "(payload, 'm) ext"
  re_fp :: f32_ops
  re_lower :: "string \<Rightarrow> string"
  re_idhash :: "u64 \<Rightarrow> u64"
  re_now :: u64
  re_gzip :: bool
  re_draw :: "nat \<Rightarrow> u64 \<times> nat"

text \<open>A call carries a request to an address; no answer is an error status or a time limit.\<close>

type_synonym ('m, 'q, 'r) carrier = "string \<Rightarrow> 'q \<Rightarrow> 'm net \<Rightarrow> ('r option \<times> 'm net) option"

text \<open>
  With compression the client sets the metadata \<open>grpc-encoding: gzip\<close> on its request, which it sends as it is.
  A transport that has not the codec answers a request with this metadata with a status; no handler sees it.
\<close>

definition encoding_refused :: "'m rpc_env \<Rightarrow> 'm member \<Rightarrow> bool" where
  "encoding_refused e mb \<longleftrightarrow> xc_enable_compression (xl_client_config (mb_client mb)) \<and> \<not> re_gzip e"

definition send_encoded :: "'m rpc_env \<Rightarrow> 'm member \<Rightarrow> ('m, 'q, 'r) carrier \<Rightarrow> ('m, 'q, 'r) carrier" where
  "send_encoded e mb carry addr rq net = (if encoding_refused e mb then Some (None, net) else carry addr rq net)"

text \<open>The head of a forwarded call of the node at \<open>self\<close>: its pool, channel and request number.\<close>

definition start_call ::
  "string \<Rightarrow> string \<Rightarrow> 'm member \<Rightarrow> 'm net \<Rightarrow> ((string \<times> u64) res \<times> 'm net) option"
where
  "start_call self nid mb net =
     (case open_call nid (mb_client mb) of
        None \<Rightarrow> None
      | Some (Inl err) \<Rightarrow> Some (Inl err, net)
      | Some (Inr (addr, cl1)) \<Rightarrow>
          (let (rid, cl2) = next_request_id cl1
           in Some (Inr (addr, rid), hm_insert self (mb\<lparr>mb_client := cl2\<rparr>) net)))"

subsection \<open>Inserting\<close>

definition forward_insert ::
  "'m rpc_env \<Rightarrow> ('m, insert_request, insert_response) carrier \<Rightarrow> string \<Rightarrow> 'm member \<Rightarrow> string \<Rightarrow> string \<Rightarrow> u64 \<Rightarrow>
   f32 list \<Rightarrow> 'm net \<Rightarrow> (unit res \<times> 'm net) option"
where
  "forward_insert e carry self mb nid coll vid data net =
     (case start_call self nid mb net of
        None \<Rightarrow> None
      | Some (Inl err, net1) \<Rightarrow> Some (Inl err, net1)
      | Some (Inr (addr, rid), net1) \<Rightarrow>
          map_option (\<lambda>(r, net2). (case r of
               None \<Rightarrow> Inl EStorage
             | Some resp \<Rightarrow> if is_success resp then Inr () else Inl EStorage, net2))
            (send_encoded e mb carry addr \<lparr>iq_collection = coll, iq_id = vid, iq_vector = vector_to_bytes data, iq_payload = [],
                         iq_timestamp = re_now e, iq_request_id = rid\<rparr> net1))"

text \<open>\<open>collection_ref.upsert\<close> with the vectors given, on the collections of a node.\<close>

definition upsert_into ::
  "'m rpc_env \<Rightarrow> string \<Rightarrow> (u64 \<times> payload vector) list \<Rightarrow> 'm manager \<Rightarrow> (unit res \<times> 'm manager) option"
where
  "upsert_into e coll vs m =
     (case get_collection coll m of
        Inl _ \<Rightarrow> Some (Inl (ECollectionNotFound coll), m)
      | Inr c \<Rightarrow>
          map_option (\<lambda>(r, c'). (and_then r (\<lambda>_. Inr ()), put_collection coll c' m))
            (collection_upsert (re_ext e) (re_fp e) (draw_vectors (re_draw e) vs) c))"

definition local_insert ::
  "'m rpc_env \<Rightarrow> string \<Rightarrow> 'm member \<Rightarrow> string \<Rightarrow> u64 \<Rightarrow> payload vector \<Rightarrow> payload option \<Rightarrow> 'm net \<Rightarrow>
   (unit res \<times> 'm net) option"
where
  "local_insert e self mb coll vid v pl net =
     map_option (\<lambda>(r, m'). (r, hm_insert self (mb\<lparr>mb_collections := m'\<rparr>) net))
       (upsert_into e coll [(vid, v)] (mb_collections mb))"

definition remote_insert ::
  "'m rpc_env \<Rightarrow> ('m, insert_request, insert_response) carrier \<Rightarrow> string \<Rightarrow> 'm member \<Rightarrow> string \<Rightarrow> string \<Rightarrow> u64 \<Rightarrow>
   payload vector \<Rightarrow> 'm net \<Rightarrow> (unit res \<times> 'm net) option"
where
  "remote_insert e carry self mb nid coll vid v net = forward_insert e carry self mb nid coll vid (v_data v) net"

definition router_insert ::
  "'m rpc_env \<Rightarrow> ('m, insert_request, insert_response) carrier \<Rightarrow> string \<Rightarrow> 'm member \<Rightarrow> string \<Rightarrow> u64 \<Rightarrow>
   payload vector \<Rightarrow> payload option \<Rightarrow> 'm net \<Rightarrow> (unit res \<times> 'm net) option"
where
  "router_insert e carry self mb coll vid v pl net =
     (case cm_get_node_for_vector (re_idhash e) (mb_cluster mb) vid of
        None \<Rightarrow> None
      | Some None \<Rightarrow> local_insert e self mb coll vid v pl net
      | Some (Some nid) \<Rightarrow>
          if nid = mb_id mb then local_insert e self mb coll vid v pl net
          else remote_insert e carry self mb nid coll vid v net)"

definition srv_insert ::
  "'m rpc_env \<Rightarrow> ('m, insert_request, insert_response) carrier \<Rightarrow> string \<Rightarrow> 'm member \<Rightarrow> insert_request \<Rightarrow> 'm net \<Rightarrow>
   (insert_response \<times> 'm net) option"
where
  "srv_insert e carry self mb rq net =
     map_option (\<lambda>(r, net'). (\<lparr>is_success = (\<not> isl r), is_request_id = iq_request_id rq\<rparr>, net'))
       (router_insert e carry self mb (iq_collection rq) (iq_id rq) (vector_new (bytes_to_vector (iq_vector rq))) None net)"

text \<open>
  The fates of the calls that one insertion leads to, in the order in which they are made; when the list
  is used up, the time limits have passed.  Each handler makes at most one call of its own.
\<close>

definition deliver :: "fate \<Rightarrow> 'r \<times> 'm net \<Rightarrow> 'r option \<times> 'm net" where
  "deliver f = (\<lambda>(r, net). (if f = Delivered then Some r else None, net))"

primrec carry_insert :: "'m rpc_env \<Rightarrow> fate list \<Rightarrow> ('m, insert_request, insert_response) carrier" where
  "carry_insert e [] = (\<lambda>addr rq net. Some (None, net))"
| "carry_insert e (f # fs) = (\<lambda>addr rq net.
     case hm_get net addr of
       None \<Rightarrow> Some (None, net)
     | Some mb \<Rightarrow>
         if f = LostRequest then Some (None, net)
         else map_option (deliver f) (srv_insert e (carry_insert e fs) addr mb rq net))"

subsection \<open>Replicating\<close>

definition srv_replicate ::
  "'m rpc_env \<Rightarrow> ('m, insert_request, insert_response) carrier \<Rightarrow> string \<Rightarrow> 'm member \<Rightarrow> replicate_request \<Rightarrow> 'm net \<Rightarrow>
   (replicate_response \<times> 'm net) option"
where
  "srv_replicate e carry self mb rq net =
     map_option (\<lambda>(r, net'). (\<lparr>rp_success = (\<not> isl r), rp_replicated_at = re_now e,
                               rp_applied_sequence = rq_sequence_number rq\<rparr>, net'))
       (router_insert e carry self mb (rq_collection rq) (rq_id rq) (vector_new (bytes_to_vector (rq_vector rq))) None net)"

definition carry_replicate :: "'m rpc_env \<Rightarrow> fate list \<Rightarrow> ('m, replicate_request, replicate_response) carrier" where
  "carry_replicate e fs addr rq net =
     (case fs of
        [] \<Rightarrow> Some (None, net)
      | f # fs' \<Rightarrow>
          (case hm_get net addr of
             None \<Rightarrow> Some (None, net)
           | Some mb \<Rightarrow>
               if f = LostRequest then Some (None, net)
               else map_option (deliver f) (srv_replicate e (carry_insert e fs') addr mb rq net)))"

text \<open>A replicated write has no request number.\<close>

definition cluster_replicate ::
  "'m rpc_env \<Rightarrow> ('m, replicate_request, replicate_response) carrier \<Rightarrow> string \<Rightarrow> 'm member \<Rightarrow> string \<Rightarrow> string \<Rightarrow> u64 \<Rightarrow>
   f32 list \<Rightarrow> 'm net \<Rightarrow> (unit res \<times> 'm net) option"
where
  "cluster_replicate e carry self mb nid coll vid data net =
     (case open_call nid (mb_client mb) of
        None \<Rightarrow> None
      | Some (Inl err) \<Rightarrow> Some (Inl err, net)
      | Some (Inr (addr, cl1)) \<Rightarrow>
          map_option (\<lambda>(r, net2). (case r of
               None \<Rightarrow> Inl EStorage
             | Some resp \<Rightarrow> if rp_success resp then Inr () else Inl EStorage, net2))
            (send_encoded e mb carry addr \<lparr>rq_collection = coll, rq_id = vid, rq_vector = vector_to_bytes data, rq_payload = [],
                         rq_timestamp = re_now e, rq_sequence_number = 0, rq_is_delete = False\<rparr>
               (hm_insert self (mb\<lparr>mb_client := cl1\<rparr>) net)))"

text \<open>
  The router's \<open>replicate\<close>: one task for each replica, here one after another, each with the fates of its
  calls; a panic ends its task and is logged, and the result is always a success.
\<close>

fun router_replicate ::
  "'m rpc_env \<Rightarrow> string \<Rightarrow> string \<Rightarrow> u64 \<Rightarrow> payload vector \<Rightarrow> (string \<times> fate list) list \<Rightarrow> 'm net \<Rightarrow> unit res \<times> 'm net"
where
  "router_replicate e self coll vid v [] net = (Inr (), net)"
| "router_replicate e self coll vid v ((nid, fs) # rest) net =
     (case hm_get net self of
        None \<Rightarrow> (Inr (), net)
      | Some mb \<Rightarrow>
          if nid = mb_id mb then router_replicate e self coll vid v rest net
          else
            (case cluster_replicate e (carry_replicate e fs) self mb nid coll vid (v_data v) net of
               None \<Rightarrow> router_replicate e self coll vid v rest net
             | Some (_, net') \<Rightarrow> router_replicate e self coll vid v rest net'))"

fun replicate_entries ::
  "'m rpc_env \<Rightarrow> (nat \<Rightarrow> fate list) \<Rightarrow> string \<Rightarrow> string \<Rightarrow> nat \<Rightarrow> replicate_request list \<Rightarrow> u32 \<Rightarrow> u64 \<Rightarrow> 'm net \<Rightarrow>
   (u32 \<times> u64 \<times> 'm net) option"
where
  "replicate_entries e fates self coll i [] applied highest net = Some (applied, highest, net)"
| "replicate_entries e fates self coll i (en # ens) applied highest net =
     (case hm_get net self of
        None \<Rightarrow> None
      | Some mb \<Rightarrow>
          (case router_insert e (carry_insert e (fates i)) self mb coll (rq_id en)
                  (vector_new (bytes_to_vector (rq_vector en))) None net of
             None \<Rightarrow> None
           | Some (Inl _, net') \<Rightarrow> replicate_entries e fates self coll (i + 1) ens applied highest net'
           | Some (Inr _, net') \<Rightarrow>
               replicate_entries e fates self coll (i + 1) ens (applied + 1) (max highest (rq_sequence_number en)) net'))"

definition srv_batch_replicate ::
  "'m rpc_env \<Rightarrow> (nat \<Rightarrow> fate list) \<Rightarrow> string \<Rightarrow> batch_replicate_request \<Rightarrow> 'm net \<Rightarrow>
   (batch_replicate_response \<times> 'm net) option"
where
  "srv_batch_replicate e fates self rq net =
     map_option (\<lambda>(applied, highest, net').
         (\<lparr>br_success = (applied > 0), br_replicated_at = re_now e, br_highest_applied_sequence = highest,
           br_applied_count = applied\<rparr>, net'))
       (replicate_entries e fates self (bp_collection rq) 0 (bp_entries rq) 0 (bp_base_sequence rq) net)"

text \<open>A stream of requests, \<open>None\<close> a broken stream, which ends the call with its status.\<close>

fun stream_entries ::
  "'m rpc_env \<Rightarrow> (nat \<Rightarrow> fate list) \<Rightarrow> string \<Rightarrow> nat \<Rightarrow> replicate_request option list \<Rightarrow> u64 \<Rightarrow> u64 \<Rightarrow> 'm net \<Rightarrow>
   ((u64 \<times> u64) option \<times> 'm net) option"
where
  "stream_entries e fates self i [] count failed net = Some (Some (count, failed), net)"
| "stream_entries e fates self i (None # ens) count failed net = Some (None, net)"
| "stream_entries e fates self i (Some en # ens) count failed net =
     (case hm_get net self of
        None \<Rightarrow> None
      | Some mb \<Rightarrow>
          (case router_insert e (carry_insert e (fates i)) self mb (rq_collection en) (rq_id en)
                  (vector_new (bytes_to_vector (rq_vector en))) None net of
             None \<Rightarrow> None
           | Some (Inl _, net') \<Rightarrow> stream_entries e fates self (i + 1) ens count (failed + 1) net'
           | Some (Inr _, net') \<Rightarrow> stream_entries e fates self (i + 1) ens (count + 1) failed net'))"

definition srv_stream_replicate ::
  "'m rpc_env \<Rightarrow> (nat \<Rightarrow> fate list) \<Rightarrow> string \<Rightarrow> replicate_request option list \<Rightarrow> 'm net \<Rightarrow>
   (replicate_response option \<times> 'm net) option"
where
  "srv_stream_replicate e fates self stream net =
     map_option (\<lambda>(r, net').
         (map_option (\<lambda>(count, failed). \<lparr>rp_success = (failed = 0), rp_replicated_at = re_now e,
                                          rp_applied_sequence = count\<rparr>) r, net'))
       (stream_entries e fates self 0 stream 0 0 net)"

subsection \<open>Batches\<close>

text \<open>\<open>entry(node_id).or_default().push(...)\<close>\<close>

definition group_push :: "string \<Rightarrow> 'a \<Rightarrow> (string \<times> 'a list) list \<Rightarrow> (string \<times> 'a list) list" where
  "group_push nid x groups =
     hm_insert nid ((case hm_get groups nid of None \<Rightarrow> [] | Some xs \<Rightarrow> xs) @ [x]) groups"

fun group_by_node ::
  "'m rpc_env \<Rightarrow> 'm member \<Rightarrow> (u64 \<times> payload vector) list \<Rightarrow> (string \<times> (u64 \<times> f32 list) list) list \<Rightarrow>
   (string \<times> (u64 \<times> f32 list) list) list option"
where
  "group_by_node e mb [] groups = Some groups"
| "group_by_node e mb ((vid, v) # vs) groups =
     (case cm_get_node_for_vector (re_idhash e) (mb_cluster mb) vid of
        None \<Rightarrow> None
      | Some target \<Rightarrow>
          group_by_node e mb vs
            (group_push (case target of None \<Rightarrow> mb_id mb | Some nid \<Rightarrow> nid) (vid, v_data v) groups))"

definition forward_batch_insert ::
  "'m rpc_env \<Rightarrow> ('m, batch_insert_request, batch_insert_response) carrier \<Rightarrow> string \<Rightarrow> 'm member \<Rightarrow> string \<Rightarrow> string \<Rightarrow>
   (u64 \<times> f32 list) list \<Rightarrow> 'm net \<Rightarrow> (u32 res \<times> 'm net) option"
where
  "forward_batch_insert e carry self mb nid coll entries net =
     (case start_call self nid mb net of
        None \<Rightarrow> None
      | Some (Inl err, net1) \<Rightarrow> Some (Inl err, net1)
      | Some (Inr (addr, rid), net1) \<Rightarrow>
          map_option (\<lambda>(r, net2). (case r of
               None \<Rightarrow> Inl EStorage
             | Some resp \<Rightarrow> if bi_success resp then Inr (bi_inserted_count resp) else Inl EStorage, net2))
            (send_encoded e mb carry addr \<lparr>bq_collection = coll,
                         bq_entries = map (\<lambda>(vid, data). \<lparr>ve_id = vid, ve_vector = vector_to_bytes data, ve_payload = [],
                                                          ve_timestamp = re_now e\<rparr>) entries,
                         bq_request_id = rid\<rparr> net1))"

text \<open>
  The tasks of a batch, one for each group, here one after another; each remote one takes the next of the
  carriers, and without one its time limit passes.  A panic ends its task and is only logged.
\<close>

fun batch_tasks ::
  "'m rpc_env \<Rightarrow> ('m, batch_insert_request, batch_insert_response) carrier list \<Rightarrow> string \<Rightarrow> string \<Rightarrow>
   (string \<times> (u64 \<times> f32 list) list) list \<Rightarrow> u32 \<Rightarrow> string list \<Rightarrow> 'm net \<Rightarrow> (u32 \<times> string list) \<times> 'm net"
where
  "batch_tasks e carriers self coll [] inserted failed net = ((inserted, failed), net)"
| "batch_tasks e carriers self coll ((nid, entries) # groups) inserted failed net =
     (case hm_get net self of
        None \<Rightarrow> ((inserted, failed), net)
      | Some mb \<Rightarrow>
          (if nid = mb_id mb then
             (case upsert_into e coll (map (\<lambda>(vid, data). (vid, vector_new data)) entries) (mb_collections mb) of
                None \<Rightarrow> batch_tasks e carriers self coll groups inserted failed net
              | Some (r, m') \<Rightarrow>
                  (let net' = hm_insert self (mb\<lparr>mb_collections := m'\<rparr>) net
                   in case r of
                        Inr _ \<Rightarrow> batch_tasks e carriers self coll groups (inserted + of_nat (length entries)) failed net'
                      | Inl _ \<Rightarrow> batch_tasks e carriers self coll groups inserted (failed @ [nid]) net'))
           else
             (case forward_batch_insert e (case carriers of [] \<Rightarrow> \<lambda>_ _ n. Some (None, n) | c # _ \<Rightarrow> c)
                     self mb nid coll entries net of
                None \<Rightarrow> batch_tasks e (tl carriers) self coll groups inserted failed net
              | Some (Inr count, net') \<Rightarrow>
                  batch_tasks e (tl carriers) self coll groups (inserted + count) failed net'
              | Some (Inl _, net') \<Rightarrow>
                  batch_tasks e (tl carriers) self coll groups inserted (failed @ [nid]) net')))"

text \<open>The tasks run in the order \<open>ord\<close> of the map.\<close>

definition router_batch_insert ::
  "'m rpc_env \<Rightarrow> ((string \<times> (u64 \<times> f32 list) list) list \<Rightarrow> (string \<times> (u64 \<times> f32 list) list) list) \<Rightarrow>
   ('m, batch_insert_request, batch_insert_response) carrier list \<Rightarrow> string \<Rightarrow> 'm member \<Rightarrow> string \<Rightarrow>
   (u64 \<times> payload vector) list \<Rightarrow> 'm net \<Rightarrow> ((u32 \<times> string list) \<times> 'm net) option"
where
  "router_batch_insert e ord carriers self mb coll vs net =
     (case group_by_node e mb vs [] of
        None \<Rightarrow> None
      | Some groups \<Rightarrow> Some (batch_tasks e carriers self coll (ord groups) 0 [] net))"

definition srv_batch_insert ::
  "'m rpc_env \<Rightarrow> ((string \<times> (u64 \<times> f32 list) list) list \<Rightarrow> (string \<times> (u64 \<times> f32 list) list) list) \<Rightarrow>
   ('m, batch_insert_request, batch_insert_response) carrier list \<Rightarrow> string \<Rightarrow> 'm member \<Rightarrow> batch_insert_request \<Rightarrow>
   'm net \<Rightarrow> (batch_insert_response \<times> 'm net) option"
where
  "srv_batch_insert e ord carriers self mb rq net =
     map_option (\<lambda>((inserted, failed), net').
         (\<lparr>bi_success = (failed = []), bi_inserted_count = inserted, bi_failed_ids = [], bi_request_id = bq_request_id rq\<rparr>, net'))
       (router_batch_insert e ord carriers self mb (bq_collection rq)
         (map (\<lambda>en. (ve_id en, vector_new (bytes_to_vector (ve_vector en)))) (bq_entries rq)) net)"

text \<open>The fate of a batch with the trips of the batches that its handler sends on.\<close>

datatype trip = Trip fate "trip list"

primrec carry_batch_insert ::
  "'m rpc_env \<Rightarrow> ((string \<times> (u64 \<times> f32 list) list) list \<Rightarrow> (string \<times> (u64 \<times> f32 list) list) list) \<Rightarrow> trip \<Rightarrow>
   ('m, batch_insert_request, batch_insert_response) carrier"
where
  "carry_batch_insert e ord (Trip f ts) = (\<lambda>addr rq net.
     case hm_get net addr of
       None \<Rightarrow> Some (None, net)
     | Some mb \<Rightarrow>
         if f = LostRequest then Some (None, net)
         else map_option (deliver f) (srv_batch_insert e ord (map (carry_batch_insert e ord) ts) addr mb rq net))"

text \<open>The client's batch of replicated writes, of which the router makes no use.\<close>

definition client_batch_replicate ::
  "'m rpc_env \<Rightarrow> ('m, batch_replicate_request, batch_replicate_response) carrier \<Rightarrow> string \<Rightarrow> 'm member \<Rightarrow> string \<Rightarrow>
   string \<Rightarrow> (u64 \<times> f32 list) list \<Rightarrow> u64 \<Rightarrow> 'm net \<Rightarrow> (u32 res \<times> 'm net) option"
where
  "client_batch_replicate e carry self mb nid coll entries base net =
     (case open_call nid (mb_client mb) of
        None \<Rightarrow> None
      | Some (Inl err) \<Rightarrow> Some (Inl err, net)
      | Some (Inr (addr, cl1)) \<Rightarrow>
          map_option (\<lambda>(r, net2). (case r of
               None \<Rightarrow> Inl EStorage
             | Some resp \<Rightarrow> if br_success resp then Inr (br_applied_count resp) else Inl EStorage, net2))
            (send_encoded e mb carry addr \<lparr>bp_collection = coll,
                         bp_entries = map (\<lambda>(i, vid, data). \<lparr>rq_collection = coll, rq_id = vid,
                             rq_vector = vector_to_bytes data, rq_payload = [], rq_timestamp = re_now e,
                             rq_sequence_number = base + of_nat i, rq_is_delete = False\<rparr>) (enumerate 0 entries),
                         bp_base_sequence = base\<rparr>
               (hm_insert self (mb\<lparr>mb_client := cl1\<rparr>) net)))"

subsection \<open>Searching\<close>

record scored_result =
  rr_id :: u64
  rr_score :: f32
  rr_node_id :: string

definition local_search ::
  "'m rpc_env \<Rightarrow> 'm member \<Rightarrow> string \<Rightarrow> f32 list \<Rightarrow> u32 \<Rightarrow> scored_result list res option"
where
  "local_search e mb coll v top_k =
     (case get_collection coll (mb_collections mb) of
        Inl _ \<Rightarrow> Some (Inl (ECollectionNotFound coll))
      | Inr c \<Rightarrow>
          map_option (\<lambda>r. and_then r (\<lambda>rs. Inr (map (\<lambda>s. \<lparr>rr_id = sv_id s, rr_score = sv_score s, rr_node_id = mb_id mb\<rparr>) rs)))
            (collection_search (re_ext e) (re_fp e) (re_lower e) (search_request_new v (unat top_k)) c))"

definition forward_search ::
  "'m rpc_env \<Rightarrow> ('m, rpc_search_request, rpc_search_response) carrier \<Rightarrow> string \<Rightarrow> 'm member \<Rightarrow> string \<Rightarrow> string \<Rightarrow> f32 list \<Rightarrow>
   u32 \<Rightarrow> 'm net \<Rightarrow> (proto_scored_vector list res \<times> 'm net) option"
where
  "forward_search e carry self mb nid coll v top_k net =
     (case start_call self nid mb net of
        None \<Rightarrow> None
      | Some (Inl err, net1) \<Rightarrow> Some (Inl err, net1)
      | Some (Inr (addr, rid), net1) \<Rightarrow>
          map_option (\<lambda>(r, net2). (case r of None \<Rightarrow> Inl EStorage | Some resp \<Rightarrow> Inr (ss_results resp), net2))
            (send_encoded e mb carry addr \<lparr>sq_collection = coll, sq_vector = vector_to_bytes v, sq_top_k = top_k, sq_score_threshold = 0,
                         sq_filter = [], sq_request_id = rid\<rparr> net1))"

definition remote_search ::
  "'m rpc_env \<Rightarrow> ('m, rpc_search_request, rpc_search_response) carrier \<Rightarrow> string \<Rightarrow> 'm member \<Rightarrow> string \<Rightarrow> string \<Rightarrow> f32 list \<Rightarrow>
   u32 \<Rightarrow> 'm net \<Rightarrow> (scored_result list res \<times> 'm net) option"
where
  "remote_search e carry self mb nid coll v top_k net =
     map_option (\<lambda>(r, net').
         (and_then r (\<lambda>rs. Inr (map (\<lambda>p. \<lparr>rr_id = pv_id p, rr_score = pv_score p, rr_node_id = nid\<rparr>) rs)), net'))
       (forward_search e carry self mb nid coll v top_k net)"

text \<open>\<open>draw\<close> is the random number whose owner is asked.\<close>

definition single_shard_search ::
  "'m rpc_env \<Rightarrow> ('m, rpc_search_request, rpc_search_response) carrier \<Rightarrow> u64 \<Rightarrow> string \<Rightarrow> 'm member \<Rightarrow> string \<Rightarrow>
   f32 list \<Rightarrow> u32 \<Rightarrow> 'm net \<Rightarrow> (scored_result list res \<times> 'm net) option"
where
  "single_shard_search e carry draw self mb coll v top_k net =
     (case cm_get_node_for_vector (re_idhash e) (mb_cluster mb) draw of
        None \<Rightarrow> None
      | Some None \<Rightarrow> map_option (\<lambda>r. (r, net)) (local_search e mb coll v top_k)
      | Some (Some nid) \<Rightarrow>
          if nid = mb_id mb then map_option (\<lambda>r. (r, net)) (local_search e mb coll v top_k)
          else remote_search e carry self mb nid coll v top_k net)"

definition proto_results :: "scored_result list \<Rightarrow> proto_scored_vector list" where
  "proto_results rs = map (\<lambda>r. \<lparr>pv_id = rr_id r, pv_score = rr_score r, pv_payload = [], pv_version = 0\<rparr>) rs"

text \<open>A search that fails is answered with an empty list and an error text.\<close>

definition srv_search ::
  "'m rpc_env \<Rightarrow> ('m, rpc_search_request, rpc_search_response) carrier \<Rightarrow> u64 \<Rightarrow> string \<Rightarrow> 'm member \<Rightarrow>
   rpc_search_request \<Rightarrow> 'm net \<Rightarrow> (rpc_search_response \<times> 'm net) option"
where
  "srv_search e carry draw self mb rq net =
     map_option (\<lambda>(r, net').
         (case r of
            Inr rs \<Rightarrow> \<lparr>ss_results = proto_results rs, ss_failed = False, ss_request_id = sq_request_id rq\<rparr>
          | Inl _ \<Rightarrow> \<lparr>ss_results = [], ss_failed = True, ss_request_id = sq_request_id rq\<rparr>, net'))
       (single_shard_search e carry draw self mb (sq_collection rq) (bytes_to_vector (sq_vector rq)) (sq_top_k rq) net)"

text \<open>The fates of the calls of a search, each with the number that the node it reaches draws.\<close>

primrec carry_search ::
  "'m rpc_env \<Rightarrow> (fate \<times> u64) list \<Rightarrow> ('m, rpc_search_request, rpc_search_response) carrier"
where
  "carry_search e [] = (\<lambda>addr rq net. Some (None, net))"
| "carry_search e (h # hops) = (\<lambda>addr rq net.
     case hm_get net addr of
       None \<Rightarrow> Some (None, net)
     | Some mb \<Rightarrow>
         if fst h = LostRequest then Some (None, net)
         else map_option (deliver (fst h)) (srv_search e (carry_search e hops) (snd h) addr mb rq net))"

text \<open>A batch of searches: for each vector its draw and the fates of its calls.\<close>

fun rpc_search_loop ::
  "'m rpc_env \<Rightarrow> (nat \<Rightarrow> u64 \<times> (fate \<times> u64) list) \<Rightarrow> string \<Rightarrow> string \<Rightarrow> u32 \<Rightarrow> nat \<Rightarrow> u8 list list \<Rightarrow> 'm net \<Rightarrow>
   (proto_scored_vector list list \<times> 'm net) option"
where
  "rpc_search_loop e plan self coll top_k i [] net = Some ([], net)"
| "rpc_search_loop e plan self coll top_k i (bytes # rest) net =
     (case hm_get net self of
        None \<Rightarrow> None
      | Some mb \<Rightarrow>
          (case single_shard_search e (carry_search e (snd (plan i))) (fst (plan i)) self mb coll (bytes_to_vector bytes)
                  top_k net of
             None \<Rightarrow> None
           | Some (r, net1) \<Rightarrow>
               map_option (\<lambda>(out, net2). ((case r of Inr rs \<Rightarrow> proto_results rs | Inl _ \<Rightarrow> []) # out, net2))
                 (rpc_search_loop e plan self coll top_k (i + 1) rest net1)))"

definition srv_batch_search ::
  "'m rpc_env \<Rightarrow> (nat \<Rightarrow> u64 \<times> (fate \<times> u64) list) \<Rightarrow> string \<Rightarrow> batch_search_request \<Rightarrow> 'm net \<Rightarrow>
   (proto_scored_vector list list \<times> 'm net) option"
where
  "srv_batch_search e plan self rq net = rpc_search_loop e plan self (bs_collection rq) (bs_top_k rq) 0 (bs_vectors rq) net"

definition carry_batch_search ::
  "'m rpc_env \<Rightarrow> fate \<Rightarrow> (nat \<Rightarrow> u64 \<times> (fate \<times> u64) list) \<Rightarrow>
   ('m, batch_search_request, proto_scored_vector list list) carrier"
where
  "carry_batch_search e f plan addr rq net =
     (case hm_get net addr of
        None \<Rightarrow> Some (None, net)
      | Some mb \<Rightarrow>
          if f = LostRequest then Some (None, net)
          else map_option (deliver f) (srv_batch_search e plan addr rq net))"

definition forward_batch_search ::
  "'m rpc_env \<Rightarrow> ('m, batch_search_request, proto_scored_vector list list) carrier \<Rightarrow> string \<Rightarrow> 'm member \<Rightarrow> string \<Rightarrow> string \<Rightarrow>
   f32 list list \<Rightarrow> u32 \<Rightarrow> 'm net \<Rightarrow> (proto_scored_vector list list res \<times> 'm net) option"
where
  "forward_batch_search e carry self mb nid coll vs top_k net =
     (case start_call self nid mb net of
        None \<Rightarrow> None
      | Some (Inl err, net1) \<Rightarrow> Some (Inl err, net1)
      | Some (Inr (addr, rid), net1) \<Rightarrow>
          map_option (\<lambda>(r, net2). (case r of None \<Rightarrow> Inl EStorage | Some rs \<Rightarrow> Inr rs, net2))
            (send_encoded e mb carry addr \<lparr>bs_collection = coll, bs_vectors = map vector_to_bytes vs, bs_top_k = top_k,
                         bs_score_threshold = 0, bs_filter = [], bs_request_id = rid\<rparr> net1))"

text \<open>
  The tasks of a scattered search in the order in which they finish, each with the fate of its call and
  the plan of the node it asks: the results that arrive and the number of nodes that failed.
\<close>

fun scatter_tasks ::
  "'m rpc_env \<Rightarrow> (string \<Rightarrow> fate \<times> (nat \<Rightarrow> u64 \<times> (fate \<times> u64) list)) \<Rightarrow> string \<Rightarrow> string \<Rightarrow> f32 list \<Rightarrow> u32 \<Rightarrow>
   string list \<Rightarrow> 'm net \<Rightarrow> (scored_result list \<times> nat) \<times> 'm net"
where
  "scatter_tasks e trip self coll v top_k [] net = (([], 0), net)"
| "scatter_tasks e trip self coll v top_k (nid # nids) net =
     (case hm_get net self of
        None \<Rightarrow> (([], 0), net)
      | Some mb \<Rightarrow>
          (case forward_batch_search e (carry_batch_search e (fst (trip nid)) (snd (trip nid))) self mb nid coll [v] top_k net of
             Some (Inr found, net1) \<Rightarrow>
               (let ((rs, failed), net2) = scatter_tasks e trip self coll v top_k nids net1
                in ((map (\<lambda>p. \<lparr>rr_id = pv_id p, rr_score = pv_score p, rr_node_id = nid\<rparr>) (concat found) @ rs, failed), net2))
           | Some (Inl _, net1) \<Rightarrow>
               (let ((rs, failed), net2) = scatter_tasks e trip self coll v top_k nids net1 in ((rs, failed + 1), net2))
           | None \<Rightarrow>
               (let ((rs, failed), net2) = scatter_tasks e trip self coll v top_k nids net in ((rs, failed + 1), net2))))"

text \<open>\<open>sort_by(|a, b| b.score.partial_cmp(&a.score).unwrap())\<close> panics on a NaN among several results.\<close>

definition rank_results :: "scored_result list \<Rightarrow> scored_result list option" where
  "rank_results rs =
     (if 1 < length rs \<and> list_ex (\<lambda>r. f32_is_nan (rr_score r)) rs then None
      else Some (sort_key (\<lambda>r. - f32_rank (rr_score r)) rs))"

definition scatter_search ::
  "'m rpc_env \<Rightarrow> (string list \<Rightarrow> string list) \<Rightarrow> (string \<Rightarrow> fate \<times> (nat \<Rightarrow> u64 \<times> (fate \<times> u64) list)) \<Rightarrow> string \<Rightarrow>
   'm member \<Rightarrow> string \<Rightarrow> f32 list \<Rightarrow> u32 \<Rightarrow> 'm net \<Rightarrow> (scored_result list res \<times> 'm net) option"
where
  "scatter_search e finish trip self mb coll v top_k net =
     (let nodes = map ni_id (active_nodes (ct_topology (cm_state (mb_cluster mb))))
      in if nodes = [] then map_option (\<lambda>r. (r, net)) (local_search e mb coll v top_k)
         else
           (let ((rs, failed), net1) = scatter_tasks e trip self coll v top_k (finish nodes) net
            in if rs = [] \<and> failed > 0 then Some (Inl EStorage, net1)
               else map_option (\<lambda>ranked. (Inr (take (unat top_k) ranked), net1)) (rank_results rs)))"

definition router_search ::
  "'m rpc_env \<Rightarrow> (string list \<Rightarrow> string list) \<Rightarrow> (string \<Rightarrow> fate \<times> (nat \<Rightarrow> u64 \<times> (fate \<times> u64) list)) \<Rightarrow>
   u64 \<times> (fate \<times> u64) list \<Rightarrow> string \<Rightarrow> 'm member \<Rightarrow> string \<Rightarrow> f32 list \<Rightarrow> u32 \<Rightarrow> bool \<Rightarrow> 'm net \<Rightarrow>
   (scored_result list res \<times> 'm net) option"
where
  "router_search e finish trip single self mb coll v top_k broadcast net =
     (if broadcast then scatter_search e finish trip self mb coll v top_k net
      else single_shard_search e (carry_search e (snd single)) (fst single) self mb coll v top_k net)"

end
