(* ===== verification/ClusterRpcClaims.thy ===== *)
theory ClusterRpcClaims
  imports ClusterRpc CollectionProps JepsenClientClaims
begin

text \<open>
  Properties of the calls between nodes: where a routed write is stored, what an acknowledgement means
  under every loss of messages, what becomes of replicas, and who can join.
\<close>

subsection \<open>Bytes and calls\<close>

lemma bytes_to_vector_le [simp]: "bytes_to_vector (u32_le x @ bs) = x # bytes_to_vector bs"
proof -
  have "length (u32_le x) = Suc (Suc (Suc (Suc 0)))" by simp
  then obtain a b c d where *: "u32_le x = [a, b, c, d]" unfolding length_Suc_conv by blast
  have "u32_of_le [a, b, c, d] = x" using u32_of_le_u32_le [of x] by (simp only: *)
  with * show ?thesis by simp
qed

lemma vector_bytes_round_trip [simp]: "bytes_to_vector (vector_to_bytes v) = v"
  by (induction v) (simp_all add: vector_to_bytes_def)

text \<open>What routing depends on, and what a write changes: a node without its client.\<close>

definition node_view :: "'m net \<Rightarrow> string \<Rightarrow> (string \<times> cluster_manager) option" where
  "node_view net a = map_option (\<lambda>m. (mb_id m, mb_cluster m)) (hm_get net a)"

definition stored_at :: "'m net \<Rightarrow> string \<Rightarrow> 'm manager option" where
  "stored_at net a = map_option mb_collections (hm_get net a)"

lemma client_update [simp]:
  assumes "hm_get net self = Some mb"
  shows "node_view (hm_insert self (mb\<lparr>mb_client := cl\<rparr>) net) = node_view net"
    "stored_at (hm_insert self (mb\<lparr>mb_client := cl\<rparr>) net) = stored_at net"
  using assms by (auto simp: node_view_def stored_at_def)

lemma collections_update [simp]:
  assumes "hm_get net self = Some mb"
  shows "node_view (hm_insert self (mb\<lparr>mb_collections := m\<rparr>) net) = node_view net"
    "stored_at (hm_insert self (mb\<lparr>mb_collections := m\<rparr>) net) = (stored_at net)(self \<mapsto> m)"
  using assms by (auto simp: node_view_def stored_at_def)

lemma start_call_keeps:
  assumes "start_call self nid mb net = Some (r, net1)" "hm_get net self = Some mb"
  shows "node_view net1 = node_view net" "stored_at net1 = stored_at net"
  using assms
  by (auto simp: start_call_def next_request_id_def split: option.splits sum.splits)

text \<open>A node stores a vector itself when it believes to own it or knows of no owner.\<close>

definition accepts :: "(u64 \<Rightarrow> u64) \<Rightarrow> u64 \<Rightarrow> string \<times> cluster_manager \<Rightarrow> bool" where
  "accepts idhash vid m \<longleftrightarrow> cm_get_node_for_vector idhash (snd m) vid \<in> {Some None, Some (Some (fst m))}"

text \<open>What one insertion does to a network: nothing and no success, or one upsert at one accepting node.\<close>

definition stored_once ::
  "'m rpc_env \<Rightarrow> string \<Rightarrow> u64 \<Rightarrow> f32 list \<Rightarrow> 'm net \<Rightarrow> bool \<Rightarrow> 'm net \<Rightarrow> bool"
where
  "stored_once e coll vid data net ok net' \<longleftrightarrow>
     node_view net' = node_view net \<and>
     (stored_at net' = stored_at net \<and> \<not> ok \<or>
      (\<exists>b view m v r m'. node_view net b = Some view \<and> accepts (re_idhash e) vid view \<and> stored_at net b = Some m \<and>
         v_data v = data \<and> upsert_into e coll [(vid, v)] m = Some (r, m') \<and>
         stored_at net' = (stored_at net)(b \<mapsto> m') \<and> (ok \<longrightarrow> \<not> isl r)))"

lemma local_insert_once:
  assumes "hm_get net self = Some mb" "accepts (re_idhash e) vid (mb_id mb, mb_cluster mb)"
    and "local_insert e self mb coll vid v pl net = Some (r, net')"
  shows "stored_once e coll vid (v_data v) net (\<not> isl r) net'"
proof -
  obtain m' where m': "upsert_into e coll [(vid, v)] (mb_collections mb) = Some (r, m')"
      "net' = hm_insert self (mb\<lparr>mb_collections := m'\<rparr>) net"
    using assms(3) by (auto simp: local_insert_def)
  have "node_view net self = Some (mb_id mb, mb_cluster mb)" "stored_at net self = Some (mb_collections mb)"
    using assms(1) by (simp_all add: node_view_def stored_at_def)
  then have "\<exists>b view m v' r' m'. node_view net b = Some view \<and> accepts (re_idhash e) vid view \<and> stored_at net b = Some m \<and>
      v_data v' = v_data v \<and> upsert_into e coll [(vid, v')] m = Some (r', m') \<and>
      stored_at net' = (stored_at net)(b \<mapsto> m') \<and> (\<not> isl r \<longrightarrow> \<not> isl r')"
    using assms(1,2) m'
    by (intro exI [of _ self] exI [of _ "(mb_id mb, mb_cluster mb)"] exI [of _ "mb_collections mb"] exI [of _ v]
        exI [of _ r] exI [of _ m']) simp
  with m'(2) assms(1) show ?thesis by (simp add: stored_once_def)
qed

text \<open>A carrier whose answers are those of one insertion.\<close>

definition carries_once :: "'m rpc_env \<Rightarrow> ('m, insert_request, insert_response) carrier \<Rightarrow> bool" where
  "carries_once e carry \<longleftrightarrow>
     (\<forall>addr rq net r net'. carry addr rq net = Some (r, net') \<longrightarrow>
        stored_once e (iq_collection rq) (iq_id rq) (bytes_to_vector (iq_vector rq)) net
          (case r of None \<Rightarrow> False | Some resp \<Rightarrow> is_success resp) net')"

lemma carries_once_encoded: "carries_once e carry \<Longrightarrow> carries_once e (send_encoded e mb carry)"
  by (auto simp: carries_once_def send_encoded_def stored_once_def split: if_splits)

lemma forward_insert_once:
  assumes "carries_once e carry" "hm_get net self = Some mb"
    and "forward_insert e carry self mb nid coll vid data net = Some (r, net')"
  shows "stored_once e coll vid data net (\<not> isl r) net'"
proof (cases "start_call self nid mb net")
  case (Some s)
  obtain q net1 where q: "start_call self nid mb net = Some (q, net1)" using Some by (cases s) simp
  have keep: "node_view net1 = node_view net" "stored_at net1 = stored_at net"
    using start_call_keeps [OF q assms(2)] by simp_all
  show ?thesis
  proof (cases q)
    case (Inl err)
    then show ?thesis using assms(3) q keep by (auto simp: forward_insert_def stored_once_def)
  next
    case (Inr c)
    obtain addr rid where "c = (addr, rid)" by (cases c)
    with Inr q assms(3) obtain r1 where
      c: "send_encoded e mb carry addr \<lparr>iq_collection = coll, iq_id = vid, iq_vector = vector_to_bytes data, iq_payload = [],
          iq_timestamp = re_now e, iq_request_id = rid\<rparr> net1 = Some (r1, net')" and
      r: "r = (case r1 of None \<Rightarrow> Inl EStorage | Some resp \<Rightarrow> if is_success resp then Inr () else Inl EStorage)"
      by (auto simp: forward_insert_def)
    have "stored_once e coll vid data net1 (case r1 of None \<Rightarrow> False | Some resp \<Rightarrow> is_success resp) net'"
      using carries_once_encoded [OF assms(1)] c unfolding carries_once_def by fastforce
    moreover have "(case r1 of None \<Rightarrow> False | Some resp \<Rightarrow> is_success resp) = (\<not> isl r)"
      by (simp add: r split: option.split)
    ultimately show ?thesis by (simp add: stored_once_def keep)
  qed
qed (use assms(3) in \<open>simp add: forward_insert_def\<close>)

lemma router_insert_once:
  assumes "carries_once e carry" "hm_get net self = Some mb"
    and run: "router_insert e carry self mb coll vid v pl net = Some (r, net')"
  shows "stored_once e coll vid (v_data v) net (\<not> isl r) net'"
proof (cases "accepts (re_idhash e) vid (mb_id mb, mb_cluster mb)")
  case True
  then have "local_insert e self mb coll vid v pl net = Some (r, net')"
    using run by (auto simp: router_insert_def accepts_def)
  then show ?thesis by (rule local_insert_once [OF assms(2) True])
next
  case False
  then obtain nid where "forward_insert e carry self mb nid coll vid (v_data v) net = Some (r, net')"
    using run by (auto simp: router_insert_def accepts_def remote_insert_def split: option.splits if_splits)
  then show ?thesis by (rule forward_insert_once [OF assms(1,2)])
qed

text \<open>A call whose answer is lost has the same effect, without its success.\<close>

lemma stored_once_lost: "stored_once e coll vid data net ok net' \<Longrightarrow> stored_once e coll vid data net False net'"
  unfolding stored_once_def by metis

lemma stored_once_lostI:
  "stored_once e coll vid data net ok net' \<Longrightarrow> (ok' \<Longrightarrow> ok) \<Longrightarrow> stored_once e coll vid data net ok' net'"
  by (cases ok') (auto dest: stored_once_lost)

lemma stored_once_refl: "stored_once e coll vid data net False net"
  by (simp add: stored_once_def)

lemma carry_insert_once: "carries_once e (carry_insert e fs)"
proof (induction fs)
  case (Cons f fs)
  show ?case
    unfolding carries_once_def
  proof (intro allI impI)
    fix addr rq net r net'
    assume run: "carry_insert e (f # fs) addr rq net = Some (r, net')"
    let ?once = "\<lambda>ok. stored_once e (iq_collection rq) (iq_id rq) (bytes_to_vector (iq_vector rq)) net ok net'"
    show "?once (case r of None \<Rightarrow> False | Some resp \<Rightarrow> is_success resp)"
    proof (cases "hm_get net addr = None \<or> f = LostRequest")
      case True
      then show ?thesis using run by (auto simp: stored_once_refl split: option.splits)
    next
      case False
      then obtain mb where mb: "hm_get net addr = Some mb" by auto
      obtain q where q: "router_insert e (carry_insert e fs) addr mb (iq_collection rq) (iq_id rq)
          (vector_new (bytes_to_vector (iq_vector rq))) None net = Some (q, net')"
        and r: "r = (if f = Delivered then Some \<lparr>is_success = \<not> isl q, is_request_id = iq_request_id rq\<rparr> else None)"
        using run mb False by (auto simp: deliver_def srv_insert_def)
      have "?once (\<not> isl q)"
        using router_insert_once [OF Cons.IH mb q] by (simp add: vector_new_def)
      then show ?thesis by (rule stored_once_lostI) (auto simp: r split: if_splits)
    qed
  qed
qed (auto simp: carries_once_def stored_once_refl)

lemmas routed_once = router_insert_once [OF carry_insert_once]

subsection \<open>Writes\<close>

text \<open>
  C10.  Whatever is lost, delayed, refused or repeated by forwarding, and however the nodes' views of the topology
  differ: an insertion stores its vector at no node, and then fails, or by one upsert at one node, which
  takes itself for the owner or knows of no owner, as every node does that has no topology; a success is
  reported only for an upsert that succeeded there.
\<close>

theorem acknowledged_insert_stored_once:
  assumes "hm_get net self = Some mb"
    and "router_insert e (carry_insert e fs) self mb coll vid v pl net = Some (r, net')"
  shows "stored_at net' = stored_at net \<and> isl r \<or>
    (\<exists>b view m v' q m'. node_view net b = Some view \<and>
       cm_get_node_for_vector (re_idhash e) (snd view) vid \<in> {Some None, Some (Some (fst view))} \<and>
       stored_at net b = Some m \<and> v_data v' = v_data v \<and> upsert_into e coll [(vid, v')] m = Some (q, m') \<and>
       stored_at net' = (stored_at net)(b \<mapsto> m') \<and> (r = Inr () \<longrightarrow> \<not> isl q))"
proof -
  from routed_once [OF assms] have "stored_once e coll vid (v_data v) net (\<not> isl r) net'" .
  moreover have "r = Inr () \<longleftrightarrow> \<not> isl r" by (cases r) simp_all
  ultimately show ?thesis unfolding stored_once_def accepts_def by auto
qed

lemma upsert_into_gets:
  assumes "ordered_map (x_skip (re_ext e))" and held: "get_collection coll m = Inr c"
    and "items_fit (re_ext e) (draw_vectors (re_draw e) vs) (cc_dimension (co_config c)) (en_mem (co_storage c))"
  shows "\<exists>c'. upsert_into e coll vs m = Some (Inr (), put_collection coll c' m) \<and>
    (\<forall>i. collection_get (re_ext e) i c' =
       (case map_of (rev vs) i of
          None \<Rightarrow> collection_get (re_ext e) i c
        | Some v \<Rightarrow> Some (Inr (Some \<lparr>rv_id = i, rv_vector = v_data v, rv_payload = v_payload v\<rparr>))))"
proof -
  obtain c' where c': "upsert_loop (re_ext e) (re_fp e) (draw_vectors (re_draw e) vs) c = Some (Inr (), c')"
      "\<forall>i. collection_get (re_ext e) i c' =
         (case map_of (rev vs) i of
            None \<Rightarrow> collection_get (re_ext e) i c
          | Some v \<Rightarrow> Some (Inr (Some \<lparr>rv_id = i, rv_vector = v_data v, rv_payload = v_payload v\<rparr>)))"
    using upsert_loop_gets [OF assms(1,3), of "re_fp e"] by auto
  let ?c2 = "c'\<lparr>co_next_op := co_next_op c' + 1\<rparr>"
  have "upsert_into e coll vs m = Some (Inr (), put_collection coll ?c2 m)"
    using c'(1) held by (simp add: upsert_into_def collection_upsert_def finish_operation_def)
  moreover have "collection_get (re_ext e) i ?c2 = collection_get (re_ext e) i c'" for i
    by (simp add: collection_get_def)
  ultimately show ?thesis using c'(2) by (intro exI [of _ ?c2]) simp
qed

text \<open>A call that finds a pool whose channels all lead to one address.\<close>

lemma start_call_to:
  assumes "get_pool nid (mb_client mb) = Inr p" "pl_channels p \<noteq> []" "\<forall>a \<in> set (pl_channels p). a = addr"
  shows "\<exists>rid cl. start_call self nid mb net = Some (Inr (addr, rid), hm_insert self (mb\<lparr>mb_client := cl\<rparr>) net)"
proof -
  have "pl_channels p ! (unat (pl_current_index p) mod length (pl_channels p)) \<in> set (pl_channels p)"
    using assms(2) by (intro nth_mem) simp
  then show ?thesis
    using assms by (simp add: start_call_def open_call_def get_channel_def next_request_id_def) blast
qed

text \<open>
  C17.  Two nodes agree on the owner of a vector, all channels to it lead to the owner, and the first call is
  carried out and answered; the owner has the collection, and the vector fits: it has the dimension, its id is
  not deleted, its record can be logged and the memory table is not flushed.  Then an insertion at the other
  node fails and stores nothing anywhere if the client compresses and the servers have not the codec (what the
  defaults come to); else it stores the vector at its owner, where it is read with its data, but without the
  payload, other ids are read as before, and no other collection of any node changes.
\<close>

theorem routed_insert_read_at_owner:
  assumes "ordered_map (x_skip (re_ext e))" and self: "hm_get net self = Some mb"
    and route: "cm_get_node_for_vector (re_idhash e) (mb_cluster mb) vid = Some (Some nid)" "nid \<noteq> mb_id mb"
    and pool: "get_pool nid (mb_client mb) = Inr p" "pl_channels p \<noteq> []" "\<forall>a \<in> set (pl_channels p). a = addr"
    and owner: "hm_get net addr = Some ob" "mb_id ob = nid" "addr \<noteq> self"
      "cm_get_node_for_vector (re_idhash e) (mb_cluster ob) vid = Some (Some nid)"
    and held: "get_collection coll (mb_collections ob) = Inr c"
    and fit: "items_fit (re_ext e) (draw_vectors (re_draw e) [(vid, vector_new (v_data v))])
      (cc_dimension (co_config c)) (en_mem (co_storage c))"
  shows "\<exists>r net'. router_insert e (carry_insert e (Delivered # fs)) self mb coll vid v pl net = Some (r, net') \<and>
    (if encoding_refused e mb then isl r \<and> stored_at net' = stored_at net
     else r = Inr () \<and>
       (\<exists>c'. stored_at net' = (stored_at net)(addr \<mapsto> put_collection coll c' (mb_collections ob)) \<and>
          (\<forall>i. collection_get (re_ext e) i c' =
             (if i = vid then Some (Inr (Some \<lparr>rv_id = vid, rv_vector = v_data v, rv_payload = None\<rparr>))
              else collection_get (re_ext e) i c))))"
proof -
  obtain rid cl where start: "start_call self nid mb net = Some (Inr (addr, rid), hm_insert self (mb\<lparr>mb_client := cl\<rparr>) net)"
    using start_call_to [OF pool] by blast
  let ?net1 = "hm_insert self (mb\<lparr>mb_client := cl\<rparr>) net"
  obtain c' where up: "upsert_into e coll [(vid, vector_new (v_data v))] (mb_collections ob) =
        Some (Inr (), put_collection coll c' (mb_collections ob))"
      and gets: "\<forall>i. collection_get (re_ext e) i c' =
        (case map_of (rev [(vid, vector_new (v_data v) :: payload vector)]) i of
           None \<Rightarrow> collection_get (re_ext e) i c
         | Some v \<Rightarrow> Some (Inr (Some \<lparr>rv_id = i, rv_vector = v_data v, rv_payload = v_payload v\<rparr>)))"
    using upsert_into_gets [OF assms(1) held fit] by blast
  let ?net2 = "hm_insert addr (ob\<lparr>mb_collections := put_collection coll c' (mb_collections ob)\<rparr>) ?net1"
  have at: "hm_get ?net1 addr = Some ob" using owner by simp
  have "router_insert e (carry_insert e (Delivered # fs)) self mb coll vid v pl net = Some (Inr (), ?net2)"
    if "\<not> encoding_refused e mb"
    using that route owner start up at
    by (simp add: router_insert_def remote_insert_def forward_insert_def send_encoded_def srv_insert_def local_insert_def
        deliver_def)
  moreover have "router_insert e (carry_insert e (Delivered # fs)) self mb coll vid v pl net = Some (Inl EStorage, ?net1)"
    if "encoding_refused e mb"
    using that route start by (simp add: router_insert_def remote_insert_def forward_insert_def send_encoded_def)
  moreover have "stored_at ?net2 = (stored_at net)(addr \<mapsto> put_collection coll c' (mb_collections ob))"
    using collections_update(2) [OF at] client_update(2) [OF self] by simp
  moreover have "stored_at ?net1 = stored_at net" by (rule client_update(2) [OF self])
  ultimately show ?thesis using gets by (cases "encoding_refused e mb") (auto simp: vector_new_def)
qed

text \<open>
  With the default settings of the client, and servers whose transport has not the codec, no write leaves its
  node: an insertion that any other node owns fails, whatever becomes of the calls, and is stored nowhere.
\<close>

theorem compressing_client_forwards_nothing:
  assumes "encoding_refused e mb" and self: "hm_get net self = Some mb"
    and route: "cm_get_node_for_vector (re_idhash e) (mb_cluster mb) vid = Some (Some nid)" "nid \<noteq> mb_id mb"
    and run: "router_insert e carry self mb coll vid v pl net = Some (r, net')"
  shows "isl r \<and> stored_at net' = stored_at net"
proof (cases "start_call self nid mb net")
  case (Some s)
  then obtain q net1 where s: "start_call self nid mb net = Some (q, net1)" by (cases s) simp
  show ?thesis
    using run route assms(1) s start_call_keeps(2) [OF s self]
    by (cases q) (auto simp: router_insert_def remote_insert_def forward_insert_def send_encoded_def)
qed (use run route in \<open>simp add: router_insert_def remote_insert_def forward_insert_def\<close>)

text \<open>
  A write that no node takes for its own, since every view names another node, fails at every node,
  however long it is passed on, and is stored nowhere.
\<close>

theorem insert_without_owner_fails:
  assumes "hm_get net self = Some mb"
    and none: "\<forall>a view. node_view net a = Some view \<longrightarrow>
      cm_get_node_for_vector (re_idhash e) (snd view) vid \<notin> {Some None, Some (Some (fst view))}"
    and "router_insert e (carry_insert e fs) self mb coll vid v pl net = Some (r, net')"
  shows "r \<noteq> Inr () \<and> stored_at net' = stored_at net"
proof -
  have "\<not> accepts (re_idhash e) vid view" if "node_view net a = Some view" for a view
    using that none unfolding accepts_def by blast
  then show ?thesis using routed_once [OF assms(1,3)] unfolding stored_once_def by fastforce
qed

subsection \<open>Replicas\<close>

lemma cluster_replicate_once:
  assumes "hm_get net self = Some mb"
    and run: "cluster_replicate e (carry_replicate e fs) self mb nid coll vid data net = Some (r, net')"
  shows "stored_once e coll vid data net (\<not> isl r) net'"
proof (cases "open_call nid (mb_client mb)")
  case (Some q)
  show ?thesis
  proof (cases q)
    case (Inl err)
    then show ?thesis using run Some by (auto simp: cluster_replicate_def stored_once_def)
  next
    case (Inr ac)
    obtain addr cl where "ac = (addr, cl)" by (cases ac)
    let ?net1 = "hm_insert self (mb\<lparr>mb_client := cl\<rparr>) net"
    let ?rq = "\<lparr>rq_collection = coll, rq_id = vid, rq_vector = vector_to_bytes data, rq_payload = [],
        rq_timestamp = re_now e, rq_sequence_number = 0, rq_is_delete = False\<rparr>"
    obtain r1 where sent: "send_encoded e mb (carry_replicate e fs) addr ?rq ?net1 = Some (r1, net')"
      and r: "r = (case r1 of None \<Rightarrow> Inl EStorage | Some resp \<Rightarrow> if rp_success resp then Inr () else Inl EStorage)"
      using run Some Inr \<open>ac = (addr, cl)\<close> by (auto simp: cluster_replicate_def)
    have "stored_once e coll vid data ?net1 (\<not> isl r) net'" if refused: "encoding_refused e mb"
      using sent refused stored_once_refl [of e coll vid data ?net1] by (simp add: send_encoded_def r)
    moreover have "stored_once e coll vid data ?net1 (\<not> isl r) net'"
      if carried: "carry_replicate e fs addr ?rq ?net1 = Some (r1, net')"
    proof (cases "fs = [] \<or> hm_get ?net1 addr = None \<or> hd fs = LostRequest")
      case True
      then have "r1 = None" "net' = ?net1"
        using carried by (auto simp: carry_replicate_def split: list.splits option.splits if_splits)
      then show ?thesis using stored_once_refl [of e coll vid data ?net1] by (simp add: r)
    next
      case False
      then obtain f fs' ob where f: "fs = f # fs'" "f \<noteq> LostRequest" and ob: "hm_get ?net1 addr = Some ob"
        by (cases fs) auto
      obtain q' where q': "router_insert e (carry_insert e fs') addr ob coll vid (vector_new data) None ?net1 = Some (q', net')"
        and r1: "r1 = (if f = Delivered then Some \<lparr>rp_success = \<not> isl q', rp_replicated_at = re_now e,
          rp_applied_sequence = 0\<rparr> else None)"
        using carried f ob by (auto simp: carry_replicate_def deliver_def srv_replicate_def)
      have "stored_once e coll vid data ?net1 (\<not> isl q') net'"
        using routed_once [OF ob q'] by (simp add: vector_new_def)
      then show ?thesis by (rule stored_once_lostI) (auto simp: r r1 split: if_splits)
    qed
    ultimately have "stored_once e coll vid data ?net1 (\<not> isl r) net'"
      using sent by (auto simp: send_encoded_def split: if_splits)
    then show ?thesis using assms(1) by (simp add: stored_once_def)
  qed
qed (use run in \<open>simp add: cluster_replicate_def\<close>)

lemma stored_once_elsewhere:
  assumes "stored_once e coll vid data net ok net'"
    and agree: "\<forall>a view. node_view net a = Some view \<longrightarrow>
      cm_get_node_for_vector (re_idhash e) (snd view) vid = Some (Some owner)"
    and "node_view net a = Some view" "fst view \<noteq> owner"
  shows "stored_at net' a = stored_at net a"
proof -
  have "\<not> accepts (re_idhash e) vid view"
    using agree [rule_format, OF assms(3)] assms(4) by (auto simp: accepts_def)
  then show ?thesis using assms(1,3) unfolding stored_once_def by (metis fun_upd_other option.inject)
qed

text \<open>
  When all nodes agree on the owner of a vector, replicating it stores it at no node but the owner: the
  handler of a replica sends the write on to the owner instead of storing it.  The result is a success all
  the same, whatever happened to the calls.
\<close>

theorem replicas_never_store:
  assumes "\<forall>a view. node_view net a = Some view \<longrightarrow>
      cm_get_node_for_vector (re_idhash e) (snd view) vid = Some (Some owner)"
    and "node_view net a = Some view" "fst view \<noteq> owner"
  shows "fst (router_replicate e self coll vid v replicas net) = Inr () \<and>
    stored_at (snd (router_replicate e self coll vid v replicas net)) a = stored_at net a"
  using assms
proof (induction e self coll vid v replicas net rule: router_replicate.induct)
  case (2 e self coll vid v nid fs rest net)
  show ?case
  proof (cases "hm_get net self")
    case (Some mb)
    let ?run = "cluster_replicate e (carry_replicate e fs) self mb nid coll vid (v_data v) net"
    consider "nid = mb_id mb" | "nid \<noteq> mb_id mb" "?run = None"
      | r net1 where "nid \<noteq> mb_id mb" "?run = Some (r, net1)" by (cases ?run) auto
    then show ?thesis
    proof cases
      case (3 r net1)
      have once: "stored_once e coll vid (v_data v) net (\<not> isl r) net1"
        by (rule cluster_replicate_once [OF Some 3(2)])
      then have "node_view net1 = node_view net" by (simp add: stored_once_def)
      moreover have "stored_at net1 a = stored_at net a"
        by (rule stored_once_elsewhere [OF once 2(4-6)])
      ultimately show ?thesis using 2(3) [OF Some 3(1,2) refl] 2(4-6) Some 3 by simp
    qed (use 2 Some in simp_all)
  qed simp
qed simp

subsection \<open>Joining and heartbeats\<close>

text \<open>
  Nobody joins through a server of this code: it answers every request with a success that carries no
  topology, which the client takes for a failure; so no seed helps, and the client connects to no one.
\<close>

theorem join_never_succeeds:
  assumes "\<forall>seed rq. ask seed rq \<in> {None, Some (srv_join_cluster rq)}"
  shows "client_join_cluster dial parse_addr now ask seeds cl = (Inl EStorage, cl)"
proof -
  have "\<exists>err. try_join_seed ask seed local = Inl err" for seed local
    using assms [rule_format, of seed "\<lparr>jq_node_id = ni_id local, jq_address = ni_address local,
        jq_capacity = of_nat (ni_capacity local), jq_metadata = []\<rparr>"]
    by (auto simp: try_join_seed_def srv_join_cluster_def ok_or_def)
  then have "join_via dial parse_addr now ask local seeds cl = (Inl EStorage, cl)" for local
    by (induction seeds) (auto split: sum.split, metis sum.distinct(1))
  then show ?thesis by (simp add: client_join_cluster_def)
qed

text \<open>
  After one heartbeat without an answer every call to that node fails, until someone connects to it again:
  nothing reconnects on the next use.
\<close>

theorem failed_heartbeat_cuts_node:
  assumes "send_heartbeat now ask nid cl = Some (Inl err, cl')" and "mb_client mb = cl'"
    and "cm_get_node_for_vector (re_idhash e) (mb_cluster mb) vid = Some (Some nid)" "nid \<noteq> mb_id mb"
  shows "router_insert e carry self mb coll vid v pl net = Some (Inl EStorage, net) \<and>
    forward_search e' scarry self mb nid coll q k net = Some (Inl EStorage, net) \<and>
    send_heartbeat now' ask' nid cl' = Some (Inl EStorage, cl')"
proof -
  have "get_pool nid cl' = Inl EStorage"
    using assms(1)
    by (auto simp: send_heartbeat_def open_call_def get_pool_def ok_or_def get_channel_def split: option.splits sum.splits if_splits)
  then have "open_call nid cl' = Some (Inl EStorage)" by (simp add: open_call_def)
  then show ?thesis
    using assms(2-4)
    by (simp add: forward_search_def send_heartbeat_def start_call_def router_insert_def remote_insert_def
        forward_insert_def)
qed

subsection \<open>Scattered searches\<close>

text \<open>
  A scattered search returns the \<open>k\<close> results with the largest scores of all that arrived, largest first.
  The scores are distances: these are the results farthest from the query.
\<close>

theorem scatter_keeps_largest_scores:
  assumes nodes: "map ni_id (active_nodes (ct_topology (cm_state (mb_cluster mb)))) = nodes" "nodes \<noteq> []"
    and run: "scatter_search e finish trip self mb coll v k net = Some (Inr out, net1)"
  shows "\<exists>rest. mset (out @ rest) = mset (fst (fst (scatter_tasks e trip self coll v k (finish nodes) net))) \<and>
    length out \<le> unat k \<and> sorted_wrt (\<lambda>x y. f32_rank (rr_score y) \<le> f32_rank (rr_score x)) out \<and>
    (\<forall>x \<in> set out. \<forall>y \<in> set rest. f32_rank (rr_score y) \<le> f32_rank (rr_score x))"
proof -
  obtain rs failed net2 where tasks: "scatter_tasks e trip self coll v k (finish nodes) net = ((rs, failed), net2)"
    by (metis prod.exhaust)
  then obtain ranked where ranked: "rank_results rs = Some ranked" "out = take (unat k) ranked"
    using run nodes by (auto simp: scatter_search_def Let_def split: if_splits)
  let ?key = "\<lambda>r. - f32_rank (rr_score r)" and ?rest = "drop (unat k) ranked"
  have sorted: "ranked = sort_key ?key rs" using ranked(1) by (simp add: rank_results_def split: if_splits)
  have "sorted_wrt (\<lambda>x y. ?key x \<le> ?key y) ranked"
    using sorted_sort_key [of ?key rs] by (simp add: sorted sorted_map)
  then have "sorted_wrt (\<lambda>x y. f32_rank (rr_score y) \<le> f32_rank (rr_score x)) (out @ ?rest)"
    by (simp add: ranked(2))
  then have "sorted_wrt (\<lambda>x y. f32_rank (rr_score y) \<le> f32_rank (rr_score x)) out"
    "\<forall>x \<in> set out. \<forall>y \<in> set ?rest. f32_rank (rr_score y) \<le> f32_rank (rr_score x)"
    unfolding sorted_wrt_append by blast+
  moreover have "mset (out @ ?rest) = mset rs" by (simp only: ranked(2) append_take_drop_id) (simp add: sorted)
  moreover have "length out \<le> unat k" by (simp add: ranked(2))
  ultimately show ?thesis using tasks by (intro exI [of _ ?rest]) simp
qed

subsection \<open>Two nodes\<close>

text \<open>Two nodes, each with the collection of one vector, each with its own view of the owner.\<close>

definition pair_node :: "string \<Rightarrow> node_status \<Rightarrow> node_info" where
  "pair_node i s = \<lparr>ni_id = i, ni_address = [], ni_status = s, ni_shards = [], ni_capacity = 1, ni_load = 0, ni_last_heartbeat = 0\<rparr>"

definition pair_view :: "string \<Rightarrow> cluster_manager" where
  "pair_view owner =
     \<lparr>cm_state = \<lparr>ct_local_node_id = [], ct_topology = \<lparr>tp_version = 1, tp_shard_to_node = [(0, owner)],
          tp_shard_replicas = [], tp_nodes = [(''a'', pair_node ''a'' Suspect), (''b'', pair_node ''b'' Active)]\<rparr>,
        ct_config = (cluster_config_default [])\<lparr>cl_shard_count := 1\<rparr>\<rparr>,
      cm_router = router_new 1\<rparr>"

definition pair_client :: cluster_client where
  "pair_client = (cluster_client_new (cluster_config_default []))\<lparr>xl_pools :=
     [(''a'', \<lparr>pl_channels = [''A''], pl_current_index = 0, pl_address = ''A''\<rparr>),
      (''b'', \<lparr>pl_channels = [''B''], pl_current_index = 0, pl_address = ''B''\<rparr>)]\<rparr>"

definition pair_member :: "string \<Rightarrow> string \<Rightarrow> (u64, payload entry) btree member" where
  "pair_member i owner =
     \<lparr>mb_id = i, mb_collections = \<lparr>mg_collections = [(''line'', ''{}'', point_collection empty_engine)], mg_other = []\<rparr>,
      mb_cluster = pair_view owner, mb_client = pair_client\<rparr>"

definition pair_net :: "string \<Rightarrow> string \<Rightarrow> (u64, payload entry) btree net" where
  "pair_net owner_a owner_b = [(''A'', pair_member ''a'' owner_a), (''B'', pair_member ''b'' owner_b)]"

definition line_rpc :: "(u64, payload entry) btree rpc_env" where
  "line_rpc = \<lparr>re_ext = json_ext, re_fp = bits_fp, re_lower = (\<lambda>s. s), re_idhash = (\<lambda>x. x), re_now = 0, re_gzip = True,
     re_draw = (\<lambda>n. (of_nat n, 0))\<rparr>"

lemma line_rpc_simps [simp]:
  "re_ext line_rpc = json_ext" "re_fp line_rpc = bits_fp" "re_lower line_rpc = (\<lambda>s. s)" "re_idhash line_rpc = (\<lambda>x. x)"
  "re_now line_rpc = 0" "re_gzip line_rpc" "re_draw line_rpc = (\<lambda>n. (of_nat n, 0))"
  by (simp_all add: line_rpc_def)

lemma line_rpc_encoding [simp]:
  "\<not> encoding_refused line_rpc mb" "send_encoded line_rpc mb carry addr rq net = carry addr rq net"
  by (simp_all add: encoding_refused_def send_encoded_def)

lemma pair_member_simps [simp]:
  "mb_id (pair_member i owner) = i" "mb_cluster (pair_member i owner) = pair_view owner"
  "mb_client (pair_member i owner) = pair_client"
  by (simp_all add: pair_member_def)

lemma pair_owner [simp]:
  "owner \<in> {''a'', ''b''} \<Longrightarrow> cm_get_node_for_vector (\<lambda>x. x) (pair_view owner) vid = Some (Some owner)"
  by (auto simp: cm_get_node_for_vector_def shard_for_vector_def pair_view_def node_for_shard_def hm_get_def
      pair_node_def)

lemma pair_net_at [simp]:
  "hm_get (pair_net x y) ''A'' = Some (pair_member ''a'' x)" "hm_get (pair_net x y) ''B'' = Some (pair_member ''b'' y)"
  by (simp_all add: pair_net_def hm_get_def)

lemma pair_net_views:
  "node_view (pair_net x y) a = Some view \<Longrightarrow> view \<in> {(''a'', pair_view x), (''b'', pair_view y)}"
  by (auto simp: node_view_def pair_net_def hm_get_def split: if_splits)

lemma pair_held: "get_collection ''line'' (mb_collections (pair_member i owner)) = Inr (point_collection empty_engine)"
  by (simp add: get_collection_def pair_member_def hm_get_def ok_or_def)

lemma pair_fits:
  "items_fit json_ext (draw_vectors (\<lambda>n. (of_nat n, 0)) [(3, vector_new [7])])
     (cc_dimension (co_config (point_collection empty_engine))) (en_mem (co_storage (point_collection empty_engine)))"
  using one_item_fits [of "vector_new [7]" 0 0 3]
  by (simp add: draw_vectors_def point_collection_def line_config_def collection_config_new_def vector_new_def
      del: items_fit.simps)

subsection \<open>Witnesses\<close>

text \<open>The owner inserts for itself.\<close>

theorem acknowledged_insert_stored_once_witness:
  "\<exists>net' b m' q. router_insert line_rpc (carry_insert line_rpc []) ''B'' (pair_member ''b'' ''b'') ''line'' 3
       (vector_new [7]) None (pair_net ''b'' ''b'') = Some (Inr (), net') \<and>
     stored_at net' = (stored_at (pair_net ''b'' ''b''))(b \<mapsto> m') \<and> \<not> isl (q :: unit res)"
proof -
  obtain c' where "upsert_into line_rpc ''line'' [(3, vector_new [7])] (mb_collections (pair_member ''b'' ''b'')) =
      Some (Inr (), put_collection ''line'' c' (mb_collections (pair_member ''b'' ''b'')))"
    using upsert_into_gets [of line_rpc "''line''" "mb_collections (pair_member ''b'' ''b'')", OF _ pair_held]
      pair_fits json_ext_ok by fastforce
  then obtain net' where run: "router_insert line_rpc (carry_insert line_rpc []) ''B'' (pair_member ''b'' ''b'') ''line'' 3
       (vector_new [7]) None (pair_net ''b'' ''b'') = Some (Inr (), net')"
    by (simp add: router_insert_def local_insert_def)
  from acknowledged_insert_stored_once [OF pair_net_at(2) run] obtain b m' q where
    "stored_at net' = (stored_at (pair_net ''b'' ''b''))(b \<mapsto> m') \<and> \<not> isl (q :: unit res)"
    by auto
  with run show ?thesis by blast
qed

text \<open>The other node passes a vector with a payload on to the owner.\<close>

theorem routed_insert_read_at_owner_witness:
  "\<exists>net' c'. router_insert line_rpc (carry_insert line_rpc [Delivered]) ''A'' (pair_member ''a'' ''b'') ''line'' 3
       \<lparr>v_data = [7], v_payload = Some []\<rparr> (Some []) (pair_net ''b'' ''b'') = Some (Inr (), net') \<and>
     stored_at net' = (stored_at (pair_net ''b'' ''b''))
       (''B'' \<mapsto> put_collection ''line'' c' (mb_collections (pair_member ''b'' ''b''))) \<and>
     collection_get json_ext 3 c' = Some (Inr (Some \<lparr>rv_id = 3, rv_vector = [7], rv_payload = None\<rparr>))"
proof -
  let ?p = "\<lparr>pl_channels = [''B''], pl_current_index = 0, pl_address = ''B''\<rparr>"
  have pool: "get_pool ''b'' (mb_client (pair_member ''a'' ''b'')) = Inr ?p"
    by (simp add: get_pool_def pair_client_def hm_get_def ok_or_def)
  have skip: "ordered_map (x_skip (re_ext line_rpc))" using json_ext_ok by simp
  have fits: "items_fit (re_ext line_rpc) (draw_vectors (re_draw line_rpc)
      [(3, vector_new (v_data \<lparr>v_data = [7], v_payload = Some []\<rparr>))])
      (cc_dimension (co_config (point_collection empty_engine))) (en_mem (co_storage (point_collection empty_engine)))"
    using pair_fits by simp
  have route: "cm_get_node_for_vector (re_idhash line_rpc) (mb_cluster (pair_member i ''b'')) 3 = Some (Some ''b'')" for i
    by simp
  have names: "''b'' \<noteq> mb_id (pair_member ''a'' ''b'')" "mb_id (pair_member ''b'' ''b'') = ''b''" by simp_all
  have channels: "pl_channels ?p \<noteq> []" "\<forall>a \<in> set (pl_channels ?p). a = ''B''" and apart: "''B'' \<noteq> ''A''" by simp_all
  from routed_insert_read_at_owner [OF skip pair_net_at(1) route names(1) pool channels pair_net_at(2) names(2) apart
      route pair_held fits, where fs = "[]" and pl = "Some []"]
  obtain net' c' where run: "router_insert line_rpc (carry_insert line_rpc [Delivered]) ''A'' (pair_member ''a'' ''b'') ''line'' 3
       \<lparr>v_data = [7], v_payload = Some []\<rparr> (Some []) (pair_net ''b'' ''b'') = Some (Inr (), net')"
    "stored_at net' = (stored_at (pair_net ''b'' ''b''))
       (''B'' \<mapsto> put_collection ''line'' c' (mb_collections (pair_member ''b'' ''b'')))"
    and gets: "\<forall>i. collection_get (re_ext line_rpc) i c' =
      (if i = 3 then Some (Inr (Some \<lparr>rv_id = 3, rv_vector = v_data \<lparr>v_data = [7], v_payload = Some [] :: payload option\<rparr>,
         rv_payload = None\<rparr>)) else collection_get (re_ext line_rpc) i (point_collection empty_engine))"
    by (simp only: line_rpc_encoding if_False) blast
  have "collection_get json_ext 3 c' = Some (Inr (Some \<lparr>rv_id = 3, rv_vector = [7], rv_payload = None\<rparr>))"
    using gets by simp
  with run show ?thesis by blast
qed

text \<open>The same with servers that have no codec.\<close>

theorem compressing_client_forwards_nothing_witness:
  "\<exists>r net'. router_insert (line_rpc\<lparr>re_gzip := False\<rparr>) (carry_insert line_rpc [Delivered]) ''A'' (pair_member ''a'' ''b'') ''line'' 3
       (vector_new [7]) None (pair_net ''b'' ''b'') = Some (r, net') \<and>
     isl r \<and> stored_at net' = stored_at (pair_net ''b'' ''b'')"
proof -
  let ?e = "line_rpc\<lparr>re_gzip := False\<rparr>"
  have refused: "encoding_refused ?e (pair_member ''a'' ''b'')"
    by (simp add: encoding_refused_def pair_client_def cluster_client_new_def client_with_config_def client_config_default_def)
  have route: "cm_get_node_for_vector (re_idhash ?e) (mb_cluster (pair_member ''a'' ''b'')) 3 = Some (Some ''b'')" by simp
  have "\<exists>x. router_insert ?e (carry_insert line_rpc [Delivered]) ''A'' (pair_member ''a'' ''b'') ''line'' 3
       (vector_new [7]) None (pair_net ''b'' ''b'') = Some x"
    using route refused by (simp add: router_insert_def remote_insert_def forward_insert_def start_call_def open_call_def get_pool_def
        pair_client_def hm_get_def ok_or_def get_channel_def next_request_id_def send_encoded_def)
  then obtain r net' where run: "router_insert ?e (carry_insert line_rpc [Delivered]) ''A'' (pair_member ''a'' ''b'') ''line'' 3
       (vector_new [7]) None (pair_net ''b'' ''b'') = Some (r, net')" by auto
  from compressing_client_forwards_nothing [OF refused pair_net_at(1) route _ run] run show ?thesis by simp
qed

text \<open>Each node takes the other for the owner.\<close>

theorem insert_without_owner_fails_witness:
  "\<exists>r net'. router_insert line_rpc (carry_insert line_rpc [Delivered, Delivered]) ''A'' (pair_member ''a'' ''b'') ''line'' 3
       (vector_new [7]) None (pair_net ''b'' ''a'') = Some (r, net') \<and>
     r \<noteq> Inr () \<and> stored_at net' = stored_at (pair_net ''b'' ''a'')"
proof -
  have "\<exists>x. router_insert line_rpc (carry_insert line_rpc [Delivered, Delivered]) ''A'' (pair_member ''a'' ''b'') ''line'' 3
       (vector_new [7]) None (pair_net ''b'' ''a'') = Some x"
    by (simp add: router_insert_def remote_insert_def forward_insert_def start_call_def open_call_def get_pool_def
        pair_client_def hm_get_def ok_or_def get_channel_def next_request_id_def srv_insert_def pair_net_def
        pair_member_def [of "''b''"] vector_new_def)
  then obtain r net' where run: "router_insert line_rpc (carry_insert line_rpc [Delivered, Delivered]) ''A''
      (pair_member ''a'' ''b'') ''line'' 3 (vector_new [7]) None (pair_net ''b'' ''a'') = Some (r, net')"
    by auto
  have none: "\<forall>a view. node_view (pair_net ''b'' ''a'') a = Some view \<longrightarrow>
      cm_get_node_for_vector (re_idhash line_rpc) (snd view) 3 \<notin> {Some None, Some (Some (fst view))}"
    using pair_net_views [of "''b''" "''a''"] by fastforce
  from insert_without_owner_fails [OF pair_net_at(1) none run] run show ?thesis by blast
qed

text \<open>The owner replicates to the other node.\<close>

theorem replicas_never_store_witness:
  "fst (router_replicate line_rpc ''A'' ''line'' 3 (vector_new [7]) [(''b'', [Delivered, Delivered])] (pair_net ''a'' ''a''))
     = Inr () \<and>
   stored_at (snd (router_replicate line_rpc ''A'' ''line'' 3 (vector_new [7]) [(''b'', [Delivered, Delivered])]
     (pair_net ''a'' ''a''))) ''B'' = stored_at (pair_net ''a'' ''a'') ''B''"
proof -
  have agree: "\<forall>a view. node_view (pair_net ''a'' ''a'') a = Some view \<longrightarrow>
      cm_get_node_for_vector (re_idhash line_rpc) (snd view) 3 = Some (Some ''a'')"
    using pair_net_views [of "''a''" "''a''"] by fastforce
  have "node_view (pair_net ''a'' ''a'') ''B'' = Some (''b'', pair_view ''a'')" by (simp add: node_view_def)
  then show ?thesis by (rule replicas_never_store [OF agree]) simp
qed

text \<open>A seed that answers, and one that does not.\<close>

theorem join_never_succeeds_witness:
  "client_join_cluster (\<lambda>_ _. True) Some 0 (\<lambda>seed rq. if seed = ''B'' then Some (srv_join_cluster rq) else None)
     [''A'', ''B''] pair_client = (Inl EStorage, pair_client)"
  by (rule join_never_succeeds) simp

theorem failed_heartbeat_cuts_node_witness:
  "\<exists>err cl'. send_heartbeat 0 (\<lambda>_ _. None) ''b'' pair_client = Some (Inl err, cl') \<and>
     send_heartbeat 1 (\<lambda>_ rq. Some (srv_heartbeat 1 rq)) ''b'' cl' = Some (Inl EStorage, cl')"
proof -
  obtain err cl' where fail: "send_heartbeat 0 (\<lambda>_ _. None) ''b'' pair_client = Some (Inl err, cl')"
    by (simp add: send_heartbeat_def open_call_def get_pool_def pair_client_def hm_get_def ok_or_def get_channel_def)
  have "mb_client (pair_member ''a'' ''b''\<lparr>mb_client := cl'\<rparr>) = cl'"
    "cm_get_node_for_vector (re_idhash line_rpc) (mb_cluster (pair_member ''a'' ''b''\<lparr>mb_client := cl'\<rparr>)) 3 = Some (Some ''b'')"
    "''b'' \<noteq> mb_id (pair_member ''a'' ''b''\<lparr>mb_client := cl'\<rparr>)"
    by simp_all
  from failed_heartbeat_cuts_node [OF fail this] fail show ?thesis by blast
qed

text \<open>The other node answers with its one vector.\<close>

theorem scatter_keeps_largest_scores_witness:
  "\<exists>out net1 rest. scatter_search line_rpc (\<lambda>ns. ns) (\<lambda>_. (Delivered, \<lambda>_. (0, []))) ''A'' (pair_member ''a'' ''b'') ''line''
       [7] 3 (pair_net ''b'' ''b'') = Some (Inr out, net1) \<and> rr_score (hd (out @ rest)) = 2 \<and> length out \<le> 3"
proof -
  let ?trip = "\<lambda>_ :: string. (Delivered, \<lambda>_ :: nat. (0 :: u64, [] :: (fate \<times> u64) list))"
  have found: "local_search line_rpc (pair_member ''b'' ''b'') ''line'' [7] 3 =
      Some (Inr [\<lparr>rr_id = 1, rr_score = 2, rr_node_id = ''b''\<rparr>])"
    using point_search
    by (simp add: local_search_def pair_held collection_search_def point_collection_def line_config_def
        collection_config_new_def point_query_def search_request_new_def finish_search_def apply_filter_def
        fetch_payloads_def fetch_vectors_def)
  have nodes: "map ni_id (active_nodes (ct_topology (cm_state (mb_cluster (pair_member ''a'' ''b''))))) = [''b'']"
    by (simp add: active_nodes_def pair_view_def hm_values_def pair_node_def)
  obtain cl where start: "start_call ''A'' ''b'' (pair_member ''a'' ''b'') (pair_net ''b'' ''b'') =
      Some (Inr (''B'', 1), hm_insert ''A'' (pair_member ''a'' ''b''\<lparr>mb_client := cl\<rparr>) (pair_net ''b'' ''b''))"
    by (simp add: start_call_def open_call_def get_pool_def pair_client_def hm_get_def ok_or_def get_channel_def
        next_request_id_def cluster_client_new_def client_with_config_def)
  have tasks: "fst (scatter_tasks line_rpc ?trip ''A'' ''line'' [7] 3 [''b''] (pair_net ''b'' ''b'')) =
      ([\<lparr>rr_id = 1, rr_score = 2, rr_node_id = ''b''\<rparr>], 0)"
    by (simp add: forward_batch_search_def start carry_batch_search_def srv_batch_search_def single_shard_search_def found
        deliver_def proto_results_def)
  obtain net1 where all: "scatter_tasks line_rpc ?trip ''A'' ''line'' [7] 3 [''b''] (pair_net ''b'' ''b'') =
      (([\<lparr>rr_id = 1, rr_score = 2, rr_node_id = ''b''\<rparr>], 0), net1)"
    using tasks by (metis prod.collapse)
  have one: "rank_results [r] = Some [r]" for r by (simp add: rank_results_def)
  have run: "scatter_search line_rpc (\<lambda>ns. ns) ?trip ''A'' (pair_member ''a'' ''b'') ''line'' [7] 3
      (pair_net ''b'' ''b'') = Some (Inr [\<lparr>rr_id = 1, rr_score = 2, rr_node_id = ''b''\<rparr>], net1)"
    unfolding scatter_search_def nodes all Let_def by (simp add: one)
  from scatter_keeps_largest_scores [OF nodes _ run] obtain rest where
    "length [\<lparr>rr_id = 1, rr_score = 2 :: f32, rr_node_id = ''b''\<rparr>] \<le> unat (3 :: u32)"
    by auto
  with run show ?thesis by fastforce
qed

end
