(* ===== verification/CrossRegion.thy ===== *)
theory CrossRegion
  imports Prelude
begin

text \<open>
  Replication between regions, \<open>src/src/replication/cross_region.rs\<close>: vector clocks, the replicator with
  its detection and resolution of conflicts, the merge of operations, and the partition detector.

  A \<open>BTreeMap\<close> of a clock is an association list, whose order nothing depends on.  Fresh identifiers and
  the clock of the host are arguments.  A channel is the list of the operations handed to the task of its
  region, which takes them one by one and never ends before its channel.  Applying an operation only logs
  it; what a handler applies is part of its result.
\<close>

subsection \<open>Vector clocks\<close>

datatype replication_error =
    RegionNotFound string
  | ConflictResolutionFailed
  | NetworkPartition
  | ReplicationTimeout
  | InvalidVectorClock
  | SerializationError string

type_synonym vector_clock = "(string \<times> u64) list"

definition clock_new :: vector_clock where
  "clock_new = []"

text \<open>\<open>clocks.get(node_id).unwrap_or(&0)\<close>\<close>

definition clock_at :: "vector_clock \<Rightarrow> string \<Rightarrow> u64" where
  "clock_at c n = (case hm_get c n of None \<Rightarrow> 0 | Some t \<Rightarrow> t)"

definition clock_increment :: "string \<Rightarrow> vector_clock \<Rightarrow> vector_clock" where
  "clock_increment n c = hm_insert n (clock_at c n + 1) c"

definition clock_update :: "vector_clock \<Rightarrow> vector_clock \<Rightarrow> vector_clock" where
  "clock_update other c = fold (\<lambda>(n, t) c. hm_insert n (max (clock_at c n) t) c) other c"

datatype clock_ordering = ClockLess | ClockGreater | ClockEqual | ClockConcurrent

definition clock_compare :: "vector_clock \<Rightarrow> vector_clock \<Rightarrow> clock_ordering" where
  "clock_compare a b =
     (let nodes = map fst a @ map fst b;
          self_greater = list_ex (\<lambda>n. clock_at a n > clock_at b n) nodes;
          other_greater = list_ex (\<lambda>n. clock_at b n > clock_at a n) nodes
      in if self_greater then (if other_greater then ClockConcurrent else ClockGreater)
         else if other_greater then ClockLess else ClockEqual)"

subsection \<open>Operations and regions\<close>

datatype region_op_type = OtInsert | OtUpdate | OtDelete | OtCreateCollection | OtDeleteCollection

record replicated_operation =
  ro_id :: nat
  ro_type :: region_op_type
  ro_data :: "u8 list"
  ro_clock :: vector_clock
  ro_timestamp :: u64
  ro_region :: string

datatype conflict_resolution = LastWriterWins | FirstWriterWins | VectorClockMerge | CustomResolver string

record region_config =
  rg_region_id :: string
  rg_endpoints :: "string list"
  rg_priority :: u8
  rg_is_primary :: bool
  rg_lag_threshold_ms :: u64
  rg_conflict_resolution :: conflict_resolution

text \<open>A custom resolver is a function of the incoming operation and its conflicts.\<close>

type_synonym resolver =
  "replicated_operation \<Rightarrow> replicated_operation list \<Rightarrow> replication_error + replicated_operation"

record replicator =
  cr_local_region :: string
  cr_regions :: "(string \<times> region_config) list"
  cr_clock :: vector_clock
  cr_log :: "replicated_operation list"
  cr_resolvers :: "(string \<times> resolver) list"
  cr_channels :: "(string \<times> replicated_operation list) list"

definition replicator_new :: "string \<Rightarrow> replicator" where
  "replicator_new region =
     \<lparr>cr_local_region = region, cr_regions = [], cr_clock = clock_new, cr_log = [], cr_resolvers = [], cr_channels = []\<rparr>"

definition add_region :: "region_config \<Rightarrow> replicator \<Rightarrow> replicator" where
  "add_region cfg r =
     r\<lparr>cr_channels := hm_insert (rg_region_id cfg) [] (cr_channels r),
       cr_regions := hm_insert (rg_region_id cfg) cfg (cr_regions r)\<rparr>"

definition register_custom_resolver :: "string \<Rightarrow> resolver \<Rightarrow> replicator \<Rightarrow> replicator" where
  "register_custom_resolver name f r = r\<lparr>cr_resolvers := hm_insert name f (cr_resolvers r)\<rparr>"

text \<open>
  The atomic sections of a local call, each under a lock of its own: the increment of the clock, the operation
  with the clock that is read afterwards, the entry in the log, and one message on a channel.  What other
  calls of the replicator do in between is in the state that a section finds.
\<close>

definition increment_local :: "replicator \<Rightarrow> replicator" where
  "increment_local r = r\<lparr>cr_clock := clock_increment (cr_local_region r) (cr_clock r)\<rparr>"

definition local_operation ::
  "nat \<Rightarrow> u64 \<Rightarrow> region_op_type \<Rightarrow> u8 list \<Rightarrow> replicator \<Rightarrow> replicated_operation"
where
  "local_operation uuid now ty data r =
     \<lparr>ro_id = uuid, ro_type = ty, ro_data = data, ro_clock = cr_clock r, ro_timestamp = now, ro_region = cr_local_region r\<rparr>"

definition log_operation :: "replicated_operation \<Rightarrow> replicator \<Rightarrow> replicator" where
  "log_operation operation r = r\<lparr>cr_log := cr_log r @ [operation]\<rparr>"

definition send_to :: "replicated_operation \<Rightarrow> string \<Rightarrow> replicator \<Rightarrow> replicator" where
  "send_to operation region r =
     (if region = cr_local_region r then r
      else r\<lparr>cr_channels := map (\<lambda>(q, sent). (q, if q = region then sent @ [operation] else sent)) (cr_channels r)\<rparr>)"

text \<open>A call that runs alone.\<close>

definition replicate_operation ::
  "nat \<Rightarrow> u64 \<Rightarrow> region_op_type \<Rightarrow> u8 list \<Rightarrow> replicator \<Rightarrow> replicator"
where
  "replicate_operation uuid now ty data r =
     (let r1 = increment_local r; operation = local_operation uuid now ty data r1
      in fold (send_to operation) (map fst (cr_channels r1)) (log_operation operation r1))"

subsection \<open>Conflicts\<close>

definition same_resource :: "u8 list \<Rightarrow> u8 list \<Rightarrow> bool" where
  "same_resource data1 data2 \<longleftrightarrow> data1 = data2"

fun region_ops_conflict :: "replicated_operation \<Rightarrow> replicated_operation \<Rightarrow> bool" where
  "region_ops_conflict op1 op2 =
     (case (ro_type op1, ro_type op2) of
        (OtUpdate, OtUpdate) \<Rightarrow> same_resource (ro_data op1) (ro_data op2)
      | (OtUpdate, OtDelete) \<Rightarrow> same_resource (ro_data op1) (ro_data op2)
      | (OtDelete, OtUpdate) \<Rightarrow> same_resource (ro_data op1) (ro_data op2)
      | (OtDelete, OtDelete) \<Rightarrow> same_resource (ro_data op1) (ro_data op2)
      | _ \<Rightarrow> False)"

definition detect_conflicts :: "replicated_operation \<Rightarrow> replicator \<Rightarrow> replicated_operation list" where
  "detect_conflicts operation r =
     filter (\<lambda>existing. clock_compare (ro_clock operation) (ro_clock existing) = ClockConcurrent \<and>
                        region_ops_conflict operation existing) (cr_log r)"

fun last_writer :: "replicated_operation \<Rightarrow> replicated_operation list \<Rightarrow> replicated_operation" where
  "last_writer latest [] = latest"
| "last_writer latest (c # cs) = last_writer (if ro_timestamp c > ro_timestamp latest then c else latest) cs"

fun first_writer :: "replicated_operation \<Rightarrow> replicated_operation list \<Rightarrow> replicated_operation" where
  "first_writer earliest [] = earliest"
| "first_writer earliest (c # cs) = first_writer (if ro_timestamp c < ro_timestamp earliest then c else earliest) cs"

definition merge_operation_data :: "replicated_operation \<Rightarrow> replicated_operation list \<Rightarrow> u8 list" where
  "merge_operation_data operation conflicts =
     (case ro_type operation of
        OtInsert \<Rightarrow> ro_data (last_writer operation conflicts)
      | OtUpdate \<Rightarrow> ro_data operation
      | OtDelete \<Rightarrow> ro_data operation
      | _ \<Rightarrow> ro_data operation)"

definition merge_operations ::
  "nat \<Rightarrow> u64 \<Rightarrow> replicated_operation \<Rightarrow> replicated_operation list \<Rightarrow> replicated_operation"
where
  "merge_operations uuid now operation conflicts =
     \<lparr>ro_id = uuid, ro_type = ro_type operation, ro_data = merge_operation_data operation conflicts,
      ro_clock = fold (\<lambda>c. clock_update (ro_clock c)) conflicts (ro_clock operation), ro_timestamp = now,
      ro_region = ''merged''\<rparr>"

definition resolve_custom ::
  "(string \<times> resolver) list \<Rightarrow> replicated_operation \<Rightarrow> replicated_operation list \<Rightarrow> string \<Rightarrow>
   replication_error + replicated_operation"
where
  "resolve_custom resolvers operation conflicts name =
     (case hm_get resolvers name of
        Some f \<Rightarrow> f operation conflicts
      | None \<Rightarrow> Inl ConflictResolutionFailed)"

text \<open>The operation that is applied in place of the incoming one.\<close>

definition resolve_conflicts ::
  "nat \<Rightarrow> u64 \<Rightarrow> replicated_operation \<Rightarrow> replicated_operation list \<Rightarrow> replicator \<Rightarrow>
   replication_error + replicated_operation"
where
  "resolve_conflicts uuid now operation conflicts r =
     (case hm_get (cr_regions r) (cr_local_region r) of
        None \<Rightarrow> Inl (RegionNotFound (cr_local_region r))
      | Some cfg \<Rightarrow>
          (case rg_conflict_resolution cfg of
             LastWriterWins \<Rightarrow> Inr (last_writer operation conflicts)
           | FirstWriterWins \<Rightarrow> Inr (first_writer operation conflicts)
           | VectorClockMerge \<Rightarrow> Inr (merge_operations uuid now operation conflicts)
           | CustomResolver name \<Rightarrow> resolve_custom (cr_resolvers r) operation conflicts name))"

text \<open>The first section of the handler, and the handler alone; an error of the resolution returns before the operation is logged.\<close>

definition merge_clock :: "replicated_operation \<Rightarrow> replicator \<Rightarrow> replicator" where
  "merge_clock operation r = r\<lparr>cr_clock := clock_update (ro_clock operation) (cr_clock r)\<rparr>"

definition decide ::
  "nat \<Rightarrow> u64 \<Rightarrow> replicated_operation \<Rightarrow> replicated_operation list \<Rightarrow> replicator \<Rightarrow>
   replication_error + replicated_operation"
where
  "decide uuid now operation conflicts r =
     (if conflicts \<noteq> [] then resolve_conflicts uuid now operation conflicts r else Inr operation)"

definition handle_replicated_operation ::
  "nat \<Rightarrow> u64 \<Rightarrow> replicated_operation \<Rightarrow> replicator \<Rightarrow> (replication_error + replicated_operation) \<times> replicator"
where
  "handle_replicated_operation uuid now operation r =
     (let r1 = merge_clock operation r
      in case decide uuid now operation (detect_conflicts operation r1) r1 of
           Inl err \<Rightarrow> (Inl err, r1)
         | Inr op \<Rightarrow> (Inr op, log_operation operation r1))"

subsection \<open>Concurrent calls\<close>

text \<open>
  A call between two of its atomic sections: of \<open>replicate_operation\<close> before the increment, before the clock is
  read, before the log, and with the channels that are left; of \<open>handle_replicated_operation\<close> before the merge,
  before the detection, before the decision on its conflicts, and before the log.
\<close>

datatype region_call =
    CallReplicate region_op_type "u8 list"
  | CallTicked region_op_type "u8 list"
  | CallCreated replicated_operation
  | CallSending replicated_operation "string list"
  | CallHandle replicated_operation
  | CallMerged replicated_operation
  | CallDetected replicated_operation "replicated_operation list"
  | CallDecided replicated_operation replicated_operation
  | CallReturned "replication_error + replicated_operation option"

definition call_step :: "nat \<Rightarrow> u64 \<Rightarrow> region_call \<Rightarrow> replicator \<Rightarrow> region_call \<times> replicator" where
  "call_step uuid now c r =
     (case c of
        CallReplicate ty data \<Rightarrow> (CallTicked ty data, increment_local r)
      | CallTicked ty data \<Rightarrow> (CallCreated (local_operation uuid now ty data r), r)
      | CallCreated op \<Rightarrow> (CallSending op (map fst (cr_channels r)), log_operation op r)
      | CallSending op [] \<Rightarrow> (CallReturned (Inr None), r)
      | CallSending op (q # qs) \<Rightarrow> (CallSending op qs, send_to op q r)
      | CallHandle op \<Rightarrow> (CallMerged op, merge_clock op r)
      | CallMerged op \<Rightarrow> (CallDetected op (detect_conflicts op r), r)
      | CallDetected op conflicts \<Rightarrow>
          (case decide uuid now op conflicts r of
             Inl err \<Rightarrow> (CallReturned (Inl err), r)
           | Inr applied \<Rightarrow> (CallDecided op applied, r))
      | CallDecided op applied \<Rightarrow> (CallReturned (Inr (Some applied)), log_operation op r)
      | CallReturned _ \<Rightarrow> (c, r))"

subsection \<open>Status\<close>

datatype channel_status = ChannelActive | ChannelClosed | ChannelNotFound

record region_status =
  rt_region_id :: string
  rt_is_primary :: bool
  rt_channel_status :: channel_status
  rt_last_sync_timestamp :: u64
  rt_replication_lag_ms :: u64

text \<open>The task of a region holds its receiver as long as the channel is in the map.\<close>

definition get_replication_status :: "u64 \<Rightarrow> replicator \<Rightarrow> (string \<times> region_status) list" where
  "get_replication_status now r =
     map (\<lambda>(region, cfg).
            (region, \<lparr>rt_region_id = region, rt_is_primary = rg_is_primary cfg,
                      rt_channel_status = (if hm_get (cr_channels r) region \<noteq> None then ChannelActive else ChannelNotFound),
                      rt_last_sync_timestamp = now, rt_replication_lag_ms = 0\<rparr>)) (cr_regions r)"

subsection \<open>Resolution by priority\<close>

fun highest_priority ::
  "(string \<times> u8) list \<Rightarrow> replicated_operation \<Rightarrow> u8 \<Rightarrow> replicated_operation list \<Rightarrow> replicated_operation"
where
  "highest_priority priorities best p [] = best"
| "highest_priority priorities best p (c # cs) =
     (let q = (case hm_get priorities (ro_region c) of None \<Rightarrow> 0 | Some q \<Rightarrow> q)
      in if q > p then highest_priority priorities c q cs else highest_priority priorities best p cs)"

definition priority_resolver :: "(string \<times> u8) list \<Rightarrow> resolver" where
  "priority_resolver priorities operation conflicts =
     Inr (highest_priority priorities operation
       (case hm_get priorities (ro_region operation) of None \<Rightarrow> 0 | Some q \<Rightarrow> q) conflicts)"

subsection \<open>The partition detector\<close>

record region_health =
  rh_last_heartbeat :: nat
  rh_is_healthy :: bool
  rh_consecutive_failures :: u32

text \<open>The background task of each start works on its own copy of the map.\<close>

record partition_detector =
  pd_regions :: "(string \<times> region_health) list"
  pd_check_interval :: nat
  pd_tasks :: "(string \<times> region_health) list list"

definition detector_new :: "nat \<Rightarrow> partition_detector" where
  "detector_new interval = \<lparr>pd_regions = [], pd_check_interval = interval, pd_tasks = []\<rparr>"

definition start_detection :: "nat \<Rightarrow> string list \<Rightarrow> partition_detector \<Rightarrow> partition_detector" where
  "start_detection now regions d =
     (let m = fold (\<lambda>region. hm_insert region \<lparr>rh_last_heartbeat = now, rh_is_healthy = True, rh_consecutive_failures = 0\<rparr>)
                regions (pd_regions d)
      in d\<lparr>pd_regions := m, pd_tasks := pd_tasks d @ [m]\<rparr>)"

definition health_after :: "nat \<Rightarrow> bool \<Rightarrow> region_health \<Rightarrow> region_health" where
  "health_after now reachable h =
     (if reachable then h\<lparr>rh_last_heartbeat := now, rh_consecutive_failures := 0, rh_is_healthy := True\<rparr>
      else
        (let h1 = h\<lparr>rh_consecutive_failures := rh_consecutive_failures h + 1\<rparr>
         in if rh_consecutive_failures h1 \<ge> 3 \<and> rh_is_healthy h1 then h1\<lparr>rh_is_healthy := False\<rparr> else h1))"

text \<open>One tick of the \<open>i\<close>-th task.\<close>

definition detection_tick :: "nat \<Rightarrow> (string \<Rightarrow> bool) \<Rightarrow> nat \<Rightarrow> partition_detector \<Rightarrow> partition_detector" where
  "detection_tick now reachable i d =
     d\<lparr>pd_tasks := (pd_tasks d)[i := map (\<lambda>(region, h). (region, health_after now (reachable region) h)) (pd_tasks d ! i)]\<rparr>"

definition get_partition_status :: "partition_detector \<Rightarrow> (string \<times> bool) list" where
  "get_partition_status d = map (\<lambda>(region, h). (region, rh_is_healthy h)) (pd_regions d)"

end
