(* ===== verification/CrossRegionProps.thy ===== *)
theory CrossRegionProps
  imports CrossRegion
begin

text \<open>
  Lemmas on the replication between regions: the clocks as functions, the runs in which the atomic sections of
  the calls of all regions interleave, their abstraction to clocks alone, and the invariants of these.
\<close>

subsection \<open>Clocks as functions\<close>

lemma clock_at_new [simp]: "clock_at clock_new n = 0"
  by (simp add: clock_at_def clock_new_def)

lemma clock_at_insert [simp]: "clock_at (hm_insert n t c) m = (if m = n then t else clock_at c m)"
  by (simp add: clock_at_def)

lemma clock_at_increment [simp]:
  "clock_at (clock_increment n c) m = (if m = n then clock_at c n + 1 else clock_at c m)"
  by (simp add: clock_increment_def)

lemma clock_at_absent: "n \<notin> fst ` set c \<Longrightarrow> clock_at c n = 0"
  by (simp add: clock_at_def hm_get_None_iff [THEN iffD2])

lemma clock_at_Cons: "clock_at ((n, t) # c) m = (if m = n then t else clock_at c m)"
  by (simp add: clock_at_def hm_get_def)

lemma clock_at_update [simp]:
  "hm_ok other \<Longrightarrow> clock_at (clock_update other c) m = max (clock_at c m) (clock_at other m)"
proof (induction other arbitrary: c)
  case (Cons p other)
  obtain n t where p: "p = (n, t)" by (cases p)
  have ok: "hm_ok other" "n \<notin> fst ` set other" using Cons.prems by (simp_all add: p hm_ok_def)
  have "clock_at (clock_update (p # other) c) m = clock_at (clock_update other (hm_insert n (max (clock_at c n) t) c)) m"
    by (simp add: p clock_update_def)
  then show ?case
    using Cons.IH [OF ok(1)] clock_at_absent [OF ok(2)] by (simp add: p clock_at_Cons)
qed (simp add: clock_update_def clock_at_def hm_get_def)

lemma hm_ok_increment [simp]: "hm_ok c \<Longrightarrow> hm_ok (clock_increment n c)"
  by (simp add: clock_increment_def)

lemma hm_ok_update [simp]: "hm_ok c \<Longrightarrow> hm_ok (clock_update other c)"
proof -
  have "hm_ok c \<Longrightarrow> hm_ok (fold (\<lambda>(n, t) c. hm_insert n (max (clock_at c n) t) c) other c)"
    by (induction other arbitrary: c) auto
  then show "hm_ok c \<Longrightarrow> ?thesis" by (simp add: clock_update_def)
qed

definition clock_le :: "vector_clock \<Rightarrow> vector_clock \<Rightarrow> bool" where
  "clock_le a b \<longleftrightarrow> (\<forall>n. clock_at a n \<le> clock_at b n)"

lemma clock_le_refl [simp]: "clock_le a a"
  by (simp add: clock_le_def)

lemma clock_le_trans: "clock_le a b \<Longrightarrow> clock_le b c \<Longrightarrow> clock_le a c"
  unfolding clock_le_def using order_trans by blast

lemma clock_nodes:
  "(\<exists>n \<in> set (map fst a @ map fst b). clock_at a n > clock_at b n) \<longleftrightarrow> \<not> clock_le a b"
  "(\<exists>n \<in> set (map fst a @ map fst b). clock_at b n > clock_at a n) \<longleftrightarrow> \<not> clock_le b a"
proof -
  have "n \<in> set (map fst a @ map fst b)" if "clock_at a n \<noteq> clock_at b n" for n
    using that clock_at_absent [of n a] clock_at_absent [of n b] by (cases "n \<in> fst ` set a") auto
  then show "(\<exists>n \<in> set (map fst a @ map fst b). clock_at a n > clock_at b n) \<longleftrightarrow> \<not> clock_le a b"
    "(\<exists>n \<in> set (map fst a @ map fst b). clock_at b n > clock_at a n) \<longleftrightarrow> \<not> clock_le b a"
    unfolding clock_le_def by (metis less_irrefl not_le)+
qed

lemma clock_compare_le:
  "clock_compare a b =
     (if clock_le a b then (if clock_le b a then ClockEqual else ClockLess)
      else if clock_le b a then ClockGreater else ClockConcurrent)"
  unfolding clock_compare_def Let_def list_ex_iff clock_nodes by simp

lemma clock_compare_self [simp]: "clock_compare c c = ClockEqual"
  by (simp add: clock_compare_le)

subsection \<open>Runs of the regions\<close>

text \<open>The sections that touch a clock: the increment of a call, its reading with the operation created, and a merge.\<close>

datatype region_event =
    Began string nat
  | Issued string nat replicated_operation
  | Received string replicated_operation

definition call_events :: "string \<Rightarrow> nat \<Rightarrow> region_call \<Rightarrow> region_call \<Rightarrow> region_event list" where
  "call_events r i c c' =
     (case (c, c') of
        (CallReplicate _ _, _) \<Rightarrow> [Began r i]
      | (CallTicked _ _, CallCreated op) \<Rightarrow> [Issued r i op]
      | (CallHandle op, _) \<Rightarrow> [Received r op]
      | _ \<Rightarrow> [])"

text \<open>
  Regions are configured while they have no calls running, which is what the exclusive reference of the methods
  demands; they call \<open>replicate_operation\<close>, and \<open>handle_replicated_operation\<close> for operations that some region
  has created, in any order and any number of times; every call proceeds section by section, interleaved
  with all others.  The \<open>i\<close>-th call of a region is \<open>cs r i\<close>.
\<close>

inductive regions_run ::
  "(string \<Rightarrow> replicator) \<Rightarrow> (string \<Rightarrow> nat \<Rightarrow> region_call option) \<Rightarrow> region_event list \<Rightarrow> bool"
where
  start: "regions_run replicator_new (\<lambda>_ _. None) []"
| configure: "regions_run s cs tr \<Longrightarrow> \<forall>i. cs r i \<in> {None} \<union> range (Some \<circ> CallReturned) \<Longrightarrow>
    regions_run (s(r := add_region cfg (s r))) cs tr"
| resolver: "regions_run s cs tr \<Longrightarrow> \<forall>i. cs r i \<in> {None} \<union> range (Some \<circ> CallReturned) \<Longrightarrow>
    regions_run (s(r := register_custom_resolver name f (s r))) cs tr"
| replicate: "regions_run s cs tr \<Longrightarrow> cs r i = None \<Longrightarrow>
    regions_run s (cs(r := (cs r)(i \<mapsto> CallReplicate ty data))) tr"
| handle: "regions_run s cs tr \<Longrightarrow> cs r i = None \<Longrightarrow> Issued q k op \<in> set tr \<Longrightarrow>
    regions_run s (cs(r := (cs r)(i \<mapsto> CallHandle op))) tr"
| proceed: "regions_run s cs tr \<Longrightarrow> cs r i = Some c \<Longrightarrow> call_step uuid now c (s r) = (c', r') \<Longrightarrow>
    regions_run (s(r := r')) (cs(r := (cs r)(i \<mapsto> c'))) (tr @ call_events r i c c')"

text \<open>What a region has: the operations it has created and those whose clocks it has merged.\<close>

definition seen_at :: "region_event list \<Rightarrow> string \<Rightarrow> replicated_operation \<Rightarrow> bool" where
  "seen_at tr r a \<longleftrightarrow> (\<exists>i. Issued r i a \<in> set tr) \<or> Received r a \<in> set tr"

text \<open>An operation is directly before another whose call began when its region already had the first.\<close>

definition directly_before :: "region_event list \<Rightarrow> replicated_operation \<Rightarrow> replicated_operation \<Rightarrow> bool" where
  "directly_before tr a b \<longleftrightarrow>
     (\<exists>xs r i ys zs. tr = xs @ Began r i # ys @ Issued r i b # zs \<and> seen_at xs r a)"

definition happened_before :: "region_event list \<Rightarrow> replicated_operation \<Rightarrow> replicated_operation \<Rightarrow> bool" where
  "happened_before tr = (directly_before tr)\<^sup>+\<^sup>+"

definition event_region :: "region_event \<Rightarrow> string" where
  "event_region ev = (case ev of Began r _ \<Rightarrow> r | Issued r _ _ \<Rightarrow> r | Received r _ \<Rightarrow> r)"

text \<open>A call that has incremented the clock and not yet read it.\<close>

definition pending :: "region_event list \<Rightarrow> string \<Rightarrow> nat \<Rightarrow> bool" where
  "pending tr r i \<longleftrightarrow> Began r i \<in> set tr \<and> (\<forall>op. Issued r i op \<notin> set tr)"

text \<open>Between the increment and the reading of a call nothing else happens to the clock of its region.\<close>

definition undisturbed :: "region_event list \<Rightarrow> bool" where
  "undisturbed tr \<longleftrightarrow>
     (\<forall>xs ev ys r i. tr = xs @ ev # ys \<longrightarrow> pending xs r i \<longrightarrow> event_region ev = r \<longrightarrow> (\<exists>op. ev = Issued r i op))"

lemma event_region_simps [simp]:
  "event_region (Began r i) = r" "event_region (Issued r i op) = r" "event_region (Received r op) = r"
  by (simp_all add: event_region_def)

lemma undisturbed_snoc:
  "undisturbed (tr @ [ev]) \<longleftrightarrow>
     undisturbed tr \<and> (\<forall>i. pending tr (event_region ev) i \<longrightarrow> (\<exists>op. ev = Issued (event_region ev) i op))"
proof
  assume u: "undisturbed (tr @ [ev])"
  have "\<exists>op. e = Issued r i op" if "tr = xs @ e # ys" "pending xs r i" "event_region e = r" for xs e ys r i
    using u that unfolding undisturbed_def by (metis append.assoc append_Cons)
  moreover have "\<exists>op. ev = Issued (event_region ev) i op" if "pending tr (event_region ev) i" for i
    using u that unfolding undisturbed_def by blast
  ultimately show "undisturbed tr \<and> (\<forall>i. pending tr (event_region ev) i \<longrightarrow> (\<exists>op. ev = Issued (event_region ev) i op))"
    unfolding undisturbed_def by blast
next
  assume u: "undisturbed tr \<and> (\<forall>i. pending tr (event_region ev) i \<longrightarrow> (\<exists>op. ev = Issued (event_region ev) i op))"
  show "undisturbed (tr @ [ev])"
    unfolding undisturbed_def
  proof (intro allI impI)
    fix xs e ys r i
    assume *: "tr @ [ev] = xs @ e # ys" "pending xs r i" "event_region e = r"
    show "\<exists>op. e = Issued r i op"
    proof (cases ys rule: rev_cases)
      case Nil
      then show ?thesis using * u by auto
    next
      case (snoc zs z)
      then have "tr = xs @ e # zs" using *(1) by simp
      then show ?thesis using u *(2,3) unfolding undisturbed_def by blast
    qed
  qed
qed

lemma directly_before_snoc:
  "directly_before (tr @ [ev]) a b \<longleftrightarrow>
     directly_before tr a b \<or> (\<exists>r i xs ys. ev = Issued r i b \<and> tr = xs @ Began r i # ys \<and> seen_at xs r a)"
proof
  assume "directly_before (tr @ [ev]) a b"
  then obtain xs r i ys zs where xs: "tr @ [ev] = (xs @ Began r i # ys) @ Issued r i b # zs" "seen_at xs r a"
    by (auto simp: directly_before_def)
  show "directly_before tr a b \<or> (\<exists>r i xs ys. ev = Issued r i b \<and> tr = xs @ Began r i # ys \<and> seen_at xs r a)"
  proof (cases zs rule: rev_cases)
    case Nil
    then show ?thesis using xs by auto
  next
    case (snoc us u)
    then have "tr = xs @ Began r i # ys @ Issued r i b # us" using xs(1) by simp
    then show ?thesis using xs(2) unfolding directly_before_def by blast
  qed
next
  assume "directly_before tr a b \<or> (\<exists>r i xs ys. ev = Issued r i b \<and> tr = xs @ Began r i # ys \<and> seen_at xs r a)"
  then show "directly_before (tr @ [ev]) a b"
    unfolding directly_before_def by fastforce
qed

lemma happened_before_mono: "happened_before tr a b \<Longrightarrow> happened_before (tr @ [ev]) a b"
  unfolding happened_before_def
proof (induction rule: tranclp_induct)
  case (base b)
  then show ?case by (simp add: directly_before_snoc tranclp.r_into_trancl)
next
  case (step b c)
  then show ?case by (metis directly_before_snoc tranclp.trancl_into_trancl)
qed

lemma directly_before_same [simp]:
  "directly_before (tr @ [Began r i]) = directly_before tr" "directly_before (tr @ [Received r op]) = directly_before tr"
  by (auto simp: directly_before_snoc fun_eq_iff)

lemma happened_before_same [simp]:
  "happened_before (tr @ [Began r i]) = happened_before tr" "happened_before (tr @ [Received r op]) = happened_before tr"
  unfolding happened_before_def by simp_all

lemma seen_at_snoc:
  "seen_at (tr @ [ev]) r op \<longleftrightarrow> seen_at tr r op \<or> (\<exists>i. ev = Issued r i op) \<or> ev = Received r op"
  by (auto simp: seen_at_def)

lemma pending_snoc:
  "pending (tr @ [ev]) r i \<longleftrightarrow> (pending tr r i \<or> ev = Began r i \<and> (\<forall>op. Issued r i op \<notin> set tr)) \<and> (\<forall>op. ev \<noteq> Issued r i op)"
  by (auto simp: pending_def)

definition issued :: "region_event list \<Rightarrow> replicated_operation \<Rightarrow> bool" where
  "issued tr a \<longleftrightarrow> (\<exists>i. Issued (ro_region a) i a \<in> set tr)"

lemma issued_snoc: "issued (tr @ [ev]) a \<longleftrightarrow> issued tr a \<or> (\<exists>i. ev = Issued (ro_region a) i a)"
  by (auto simp: issued_def)

subsection \<open>The clocks alone\<close>

text \<open>The abstraction: an increment, a reading of a call that is pending, and a merge.\<close>

inductive clocks_run :: "(string \<Rightarrow> vector_clock) \<Rightarrow> region_event list \<Rightarrow> bool" where
  none: "clocks_run (\<lambda>_. clock_new) []"
| tick: "clocks_run C tr \<Longrightarrow> Began r i \<notin> set tr \<Longrightarrow> \<forall>op. Issued r i op \<notin> set tr \<Longrightarrow>
    clocks_run (C(r := clock_increment r (C r))) (tr @ [Began r i])"
| reading: "clocks_run C tr \<Longrightarrow> pending tr r i \<Longrightarrow> ro_region op = r \<Longrightarrow> ro_clock op = C r \<Longrightarrow>
    clocks_run C (tr @ [Issued r i op])"
| merge: "clocks_run C tr \<Longrightarrow> issued tr op \<Longrightarrow>
    clocks_run (C(r := clock_update (ro_clock op) (C r))) (tr @ [Received r op])"

text \<open>What a region had when one of its calls began.\<close>

definition had_at_call :: "region_event list \<Rightarrow> string \<Rightarrow> replicated_operation \<Rightarrow> bool" where
  "had_at_call tr r a \<longleftrightarrow> (\<exists>xs i ys. tr = xs @ Began r i # ys \<and> seen_at xs r a)"

lemma had_at_call_snoc:
  "had_at_call (tr @ [ev]) r a \<longleftrightarrow> had_at_call tr r a \<or> (\<exists>i. ev = Began r i) \<and> seen_at tr r a"
proof
  assume "had_at_call (tr @ [ev]) r a"
  then obtain xs i ys where xs: "tr @ [ev] = xs @ Began r i # ys" "seen_at xs r a" by (auto simp: had_at_call_def)
  then show "had_at_call tr r a \<or> (\<exists>i. ev = Began r i) \<and> seen_at tr r a"
    by (cases ys rule: rev_cases) (auto simp: had_at_call_def)
next
  assume "had_at_call tr r a \<or> (\<exists>i. ev = Began r i) \<and> seen_at tr r a"
  then show "had_at_call (tr @ [ev]) r a" unfolding had_at_call_def by fastforce
qed

lemma directly_before_had: "directly_before (tr @ [Issued r i b]) a c \<Longrightarrow> directly_before tr a c \<or> c = b \<and> had_at_call tr r a"
  by (auto simp: directly_before_snoc had_at_call_def)

text \<open>The invariant of the clocks in any interleaving: bounded, own counts greatest, and growing with what is seen.\<close>

definition clocks_wf :: "(string \<Rightarrow> vector_clock) \<Rightarrow> region_event list \<Rightarrow> bool" where
  "clocks_wf C tr \<longleftrightarrow>
     (\<forall>r. hm_ok (C r)) \<and> (\<forall>r i a. Issued r i a \<in> set tr \<longrightarrow> ro_region a = r) \<and>
     (\<forall>r a. seen_at tr r a \<longrightarrow> issued tr a) \<and> (\<forall>a. issued tr a \<longrightarrow> hm_ok (ro_clock a)) \<and>
     (\<forall>r n. unat (clock_at (C r) n) \<le> length tr) \<and> (\<forall>q r. clock_at (C q) r \<le> clock_at (C r) r) \<and>
     (\<forall>r a. seen_at tr r a \<longrightarrow> clock_le (ro_clock a) (C r)) \<and>
     (\<forall>r a. had_at_call tr r a \<longrightarrow> clock_at (ro_clock a) r < clock_at (C r) r)"

lemma clocks_wfD:
  assumes "clocks_wf C tr"
  shows "hm_ok (C r)" "Issued r i a \<in> set tr \<Longrightarrow> ro_region a = r" "seen_at tr r a \<Longrightarrow> issued tr a"
    "issued tr a \<Longrightarrow> hm_ok (ro_clock a)" "unat (clock_at (C r) n) \<le> length tr"
    "clock_at (C q) r \<le> clock_at (C r) r" "seen_at tr r a \<Longrightarrow> clock_le (ro_clock a) (C r)"
    "had_at_call tr r a \<Longrightarrow> clock_at (ro_clock a) r < clock_at (C r) r"
  using assms unfolding clocks_wf_def by blast+

lemma had_at_call_seen: "had_at_call tr r a \<Longrightarrow> seen_at tr r a"
  by (auto simp: had_at_call_def seen_at_def)

lemma issued_own:
  assumes "clocks_wf C tr" "issued tr a"
  shows "clock_at (ro_clock a) r \<le> clock_at (C r) r"
proof -
  have "seen_at tr (ro_region a) a" using assms(2) by (auto simp: issued_def seen_at_def)
  then have "clock_at (ro_clock a) r \<le> clock_at (C (ro_region a)) r"
    using clocks_wfD(7) [OF assms(1)] by (simp add: clock_le_def)
  also have "\<dots> \<le> clock_at (C r) r" by (rule clocks_wfD(6) [OF assms(1)])
  finally show ?thesis .
qed

lemma clock_no_wrap:
  assumes "clocks_wf C tr" "length tr + 1 < 2 ^ 64"
  shows "clock_at (C r) n < clock_at (C r) n + 1" "unat (clock_at (C r) n + 1) = unat (clock_at (C r) n) + 1"
proof -
  let ?x = "clock_at (C r) n"
  have "unat ?x + 1 < 2 ^ LENGTH(64)" using clocks_wfD(5) [OF assms(1), of r n] assms(2) by simp
  then show *: "unat (?x + 1) = unat ?x + 1" by (simp add: unat_add_lem [THEN iffD1])
  then show "?x < ?x + 1" by (simp add: word_less_nat_alt)
qed

lemma tick_wf:
  assumes wf: "clocks_wf C tr" and room: "length tr + 1 < 2 ^ 64"
  shows "clocks_wf (C(r := clock_increment r (C r))) (tr @ [Began r i])"
proof -
  let ?C = "C(r := clock_increment r (C r))" and ?tr = "tr @ [Began r i]"
  note up = clock_no_wrap [OF wf room]
  have grow: "clock_at (C q) n \<le> clock_at (?C q) n" for q n
    using up(1) [of r r] by (auto simp: less_imp_le)
  have "unat (clock_at (?C q) n) \<le> length ?tr" for q n
    using clocks_wfD(5) [OF wf, of q n] clocks_wfD(5) [OF wf, of r n] up(2) [of r n] by auto
  moreover have "clock_at (?C p) q \<le> clock_at (?C q) q" for p q
    using clocks_wfD(6) [OF wf, of p q] grow [of q q] by (cases "p = r"; cases "q = r") (auto intro: order_trans)
  moreover have "clock_le (ro_clock a) (?C q)" if "seen_at ?tr q a" for q a
  proof -
    have "clock_le (ro_clock a) (C q)" using that clocks_wfD(7) [OF wf] by (auto simp: seen_at_snoc)
    then show ?thesis using grow unfolding clock_le_def by (meson order_trans)
  qed
  moreover have "clock_at (ro_clock a) q < clock_at (?C q) q" if had: "had_at_call ?tr q a" for q a
  proof (cases "had_at_call tr q a")
    case True
    show ?thesis by (rule less_le_trans [OF clocks_wfD(8) [OF wf True] grow])
  next
    case False
    then have q: "q = r" "seen_at tr r a" using had by (auto simp: had_at_call_snoc)
    then have "clock_at (ro_clock a) r \<le> clock_at (C r) r"
      using clocks_wfD(7) [OF wf q(2)] by (simp add: clock_le_def)
    then show ?thesis using up(1) [of r r] q(1) by (auto intro: le_less_trans)
  qed
  ultimately show ?thesis
    using clocks_wfD(1-4) [OF wf] unfolding clocks_wf_def by (simp add: seen_at_snoc issued_snoc)
qed

lemma reading_wf:
  assumes wf: "clocks_wf C tr" and op: "ro_region op = r" "ro_clock op = C r"
  shows "clocks_wf C (tr @ [Issued r i op])"
proof -
  have "issued (tr @ [Issued r i op]) op" using op(1) by (auto simp: issued_snoc)
  moreover have "unat (clock_at (C q) n) \<le> Suc (length tr)" for q n
    using clocks_wfD(5) [OF wf, of q n] by simp
  ultimately show ?thesis
    using wf op unfolding clocks_wf_def by (auto simp: seen_at_snoc issued_snoc had_at_call_snoc)
qed

lemma merge_wf:
  assumes wf: "clocks_wf C tr" and op: "issued tr op"
  shows "clocks_wf (C(r := clock_update (ro_clock op) (C r))) (tr @ [Received r op])"
proof -
  let ?C = "C(r := clock_update (ro_clock op) (C r))" and ?tr = "tr @ [Received r op]"
  have ok: "hm_ok (ro_clock op)" by (rule clocks_wfD(4) [OF wf op])
  have grow: "clock_at (C p) n \<le> clock_at (?C p) n" for p n by (simp add: ok)
  have "unat (clock_at (ro_clock op) n) \<le> length tr" for n
    using issued_own [OF wf op, of n] clocks_wfD(5) [OF wf, of n n] by (simp add: word_le_nat_alt)
  then have "unat (clock_at (?C p) n) \<le> length ?tr" for p n
    using clocks_wfD(5) [OF wf, of p n] by (auto simp: ok max_def le_Suc_eq)
  moreover have "clock_at (?C p) n \<le> clock_at (?C n) n" for p n
    using clocks_wfD(6) [OF wf, of p n] issued_own [OF wf op, of n] grow [of n n]
    by (cases "p = r"; cases "n = r") (auto simp: ok intro: order_trans)
  moreover have "clock_le (ro_clock a) (?C p)" if "seen_at ?tr p a" for p a
  proof (cases "seen_at tr p a")
    case True
    then show ?thesis using clocks_wfD(7) [OF wf True] grow unfolding clock_le_def by (meson order_trans)
  next
    case False
    then have "p = r" "a = op" using that by (auto simp: seen_at_snoc)
    then show ?thesis by (simp add: clock_le_def ok)
  qed
  moreover have "clock_at (ro_clock a) p < clock_at (?C p) p" if "had_at_call ?tr p a" for p a
  proof -
    have "had_at_call tr p a" using that by (simp add: had_at_call_snoc)
    then show ?thesis using less_le_trans [OF clocks_wfD(8) [OF wf] grow] by blast
  qed
  moreover have "issued ?tr a" if "seen_at ?tr p a" for p a
    using that clocks_wfD(3) [OF wf] op by (auto simp: seen_at_snoc issued_snoc)
  ultimately show ?thesis
    using clocks_wfD(1,2,4) [OF wf] unfolding clocks_wf_def by (auto simp: issued_snoc)
qed

lemma clocks_run_wf: "clocks_run C tr \<Longrightarrow> length tr < 2 ^ 64 \<Longrightarrow> clocks_wf C tr"
proof (induction rule: clocks_run.induct)
  case none
  then show ?case by (simp add: clocks_wf_def seen_at_def issued_def had_at_call_def) (simp add: clock_new_def)
qed (simp_all add: tick_wf reading_wf merge_wf)

text \<open>What is directly before an operation has a clock that is less, and less at the region of the operation.\<close>

lemma directly_before_less:
  assumes "clocks_run C tr" "length tr < 2 ^ 64" "directly_before tr a b"
  shows "clock_le (ro_clock a) (ro_clock b) \<and> clock_at (ro_clock a) (ro_region b) < clock_at (ro_clock b) (ro_region b)"
  using assms
proof (induction rule: clocks_run.induct)
  case (reading C tr r i op)
  have wf: "clocks_wf C tr" using reading.hyps(1) reading.prems(1) by (simp add: clocks_run_wf)
  from directly_before_had [OF reading.prems(2)] show ?case
  proof
    assume "b = op \<and> had_at_call tr r a"
    then show ?thesis
      using clocks_wfD(7) [OF wf had_at_call_seen] clocks_wfD(8) [OF wf] reading.hyps(3,4) by simp
  qed (use reading in simp)
next
  case none
  then show ?case by (simp add: directly_before_def)
qed simp_all

lemma happened_before_less:
  assumes "clocks_run C tr" "length tr < 2 ^ 64" "happened_before tr a b"
  shows "clock_le (ro_clock a) (ro_clock b) \<and> clock_at (ro_clock a) (ro_region b) < clock_at (ro_clock b) (ro_region b)"
  using assms(3) unfolding happened_before_def
proof (induction rule: tranclp_induct)
  case (base b)
  then show ?case by (rule directly_before_less [OF assms(1,2)])
next
  case (step b c)
  then have "clock_le (ro_clock b) (ro_clock c)" "clock_at (ro_clock b) (ro_region c) < clock_at (ro_clock c) (ro_region c)"
    using directly_before_less [OF assms(1,2)] by blast+
  then show ?case using step.IH by (auto simp: clock_le_def intro: order_trans le_less_trans)
qed

subsection \<open>Undisturbed calls\<close>

text \<open>The number of an operation among those of its region.\<close>

definition op_number :: "replicated_operation \<Rightarrow> u64" where
  "op_number a = clock_at (ro_clock a) (ro_region a)"

abbreviation known :: "vector_clock \<Rightarrow> replicated_operation \<Rightarrow> bool" where
  "known c a \<equiv> op_number a \<le> clock_at c (ro_region a)"

text \<open>The number of a pending call is in no other clock.\<close>

definition number_fresh :: "(string \<Rightarrow> vector_clock) \<Rightarrow> region_event list \<Rightarrow> string \<Rightarrow> bool" where
  "number_fresh C tr r \<longleftrightarrow>
     (\<forall>a. issued tr a \<longrightarrow> clock_at (ro_clock a) r < clock_at (C r) r) \<and>
     (\<forall>q. q \<noteq> r \<longrightarrow> clock_at (C q) r < clock_at (C r) r)"

lemma undisturbed_pending_unique:
  assumes "undisturbed tr" "pending tr r i" "pending tr r j"
  shows "i = j"
  using assms
proof (induction tr rule: rev_induct)
  case (snoc ev tr)
  then show ?case
    by (auto simp: undisturbed_snoc pending_snoc)
qed (simp add: pending_def)

lemma pending_fresh:
  assumes "clocks_run C tr" "length tr < 2 ^ 64" "undisturbed tr" "pending tr r i"
  shows "number_fresh C tr r"
  using assms
proof (induction arbitrary: r i rule: clocks_run.induct)
  case none
  then show ?case by (simp add: pending_def)
next
  case (tick C tr q j)
  have wf: "clocks_wf C tr" and room: "length tr + 1 < 2 ^ 64"
    using clocks_run_wf [OF tick.hyps(1)] tick.prems(1) by simp_all
  have u: "undisturbed tr" using tick.prems(2) by (simp add: undisturbed_snoc)
  show ?case
  proof (cases "r = q")
    case True
    have "clock_at (ro_clock a) q < clock_at (C q) q + 1" if "issued tr a" for a
      using issued_own [OF wf that, of q] clock_no_wrap(1) [OF wf room, of q q] by (rule le_less_trans)
    moreover have "clock_at (C p) q < clock_at (C q) q + 1" for p
      using clocks_wfD(6) [OF wf, of p q] clock_no_wrap(1) [OF wf room, of q q] by (rule le_less_trans)
    ultimately show ?thesis using True by (simp add: number_fresh_def issued_snoc)
  next
    case False
    then have "number_fresh C tr r" using tick.IH [OF _ u] tick.prems(1,3) by (simp add: pending_snoc)
    then show ?thesis using False by (simp add: number_fresh_def issued_snoc)
  qed
next
  case (reading C tr q j op)
  have u: "undisturbed tr" using reading.prems(2) by (simp add: undisturbed_snoc)
  have p: "pending tr r i" using reading.prems(3) by (auto simp: pending_snoc)
  have "r \<noteq> q"
  proof
    assume r: "r = q"
    then have "i = j" using undisturbed_pending_unique [OF u p] reading.hyps(2) by simp
    then show False using reading.prems(3) r by (simp add: pending_snoc)
  qed
  moreover have "number_fresh C tr r" using reading.IH [OF _ u p] reading.prems(1) by simp
  ultimately show ?case using reading.hyps(4) by (auto simp: number_fresh_def issued_snoc)
next
  case (merge C tr op q)
  have wf: "clocks_wf C tr" using clocks_run_wf [OF merge.hyps(1)] merge.prems(1) by simp
  have u: "undisturbed tr" and p: "pending tr r i"
    using merge.prems(2,3) by (simp_all add: undisturbed_snoc pending_snoc)
  have "r \<noteq> q" using merge.prems(2) p by (auto simp: undisturbed_snoc)
  moreover have "number_fresh C tr r" using merge.IH [OF _ u p] merge.prems(1) by simp
  ultimately show ?case
    using merge.hyps(2) clocks_wfD(4) [OF wf merge.hyps(2)] by (auto simp: number_fresh_def issued_snoc)
qed

text \<open>What a region has seen when it reads its clock, it had when the call began.\<close>

lemma undisturbed_had:
  assumes "undisturbed tr" "pending tr r i" "seen_at tr r a"
  shows "\<exists>xs ys. tr = xs @ Began r i # ys \<and> seen_at xs r a"
proof -
  obtain xs ys where tr: "tr = xs @ Began r i # ys" using assms(2) by (meson pending_def split_list)
  have "event_region ev \<noteq> r" if ys: "ys = us @ ev # vs" for us ev vs
  proof
    assume r: "event_region ev = r"
    have "pending (xs @ Began r i # us) r i" using assms(2) unfolding pending_def tr ys by auto
    then obtain op where "ev = Issued r i op"
      using assms(1) r unfolding undisturbed_def by (metis append.assoc append_Cons tr ys)
    then show False using assms(2) unfolding pending_def tr ys by auto
  qed
  then have "\<forall>ev \<in> set ys. event_region ev \<noteq> r" by (metis split_list)
  then have "seen_at xs r a" using assms(3) unfolding tr seen_at_def by fastforce
  with tr show ?thesis by blast
qed

definition clocks_exact :: "(string \<Rightarrow> vector_clock) \<Rightarrow> region_event list \<Rightarrow> bool" where
  "clocks_exact C tr \<longleftrightarrow>
     (\<forall>r a. issued tr a \<longrightarrow> known (C r) a \<longrightarrow> (\<exists>c. (a = c \<or> happened_before tr a c) \<and> seen_at tr r c)) \<and>
     (\<forall>a b. issued tr a \<longrightarrow> issued tr b \<longrightarrow> known (ro_clock b) a \<longrightarrow> a = b \<or> happened_before tr a b)"

lemma tick_exact:
  assumes wf: "clocks_wf C tr" and exact: "clocks_exact C tr"
  shows "clocks_exact (C(r := clock_increment r (C r))) (tr @ [Began r i])"
proof -
  have "known (C q) a" if "issued tr a" "known ((C(r := clock_increment r (C r))) q) a" for q a
  proof (cases "q = r \<and> ro_region a = r")
    case True
    then show ?thesis using issued_own [OF wf that(1), of r] by (simp add: op_number_def)
  next
    case False
    then show ?thesis using that(2) by (auto split: if_splits)
  qed
  then show ?thesis using exact unfolding clocks_exact_def by (simp add: issued_snoc seen_at_snoc)
qed

lemma reading_exact:
  assumes fresh: "number_fresh C tr r" and exact: "clocks_exact C tr"
    and u: "undisturbed tr" "pending tr r i" and op: "ro_region op = r" "ro_clock op = C r"
  shows "clocks_exact C (tr @ [Issued r i op])"
proof -
  let ?tr = "tr @ [Issued r i op]"
  have new: "\<not> known c op" if "clock_at c r < clock_at (C r) r" for c
    using that op by (simp add: op_number_def)
  have before: "happened_before ?tr a op" if "a = c \<or> happened_before tr a c" "seen_at tr r c" for a c
  proof -
    have "directly_before ?tr c op"
      using undisturbed_had [OF u that(2)] by (auto simp: directly_before_snoc)
    then show ?thesis
      using that(1) happened_before_mono [of tr a c] unfolding happened_before_def
      by (metis tranclp.r_into_trancl tranclp.trancl_into_trancl)
  qed
  have old: "issued tr a" if "issued ?tr a" "a \<noteq> op" for a using that by (auto simp: issued_snoc)
  have 1: "\<exists>c. (a = c \<or> happened_before ?tr a c) \<and> seen_at ?tr q c" if a: "issued ?tr a" "known (C q) a" for a q
  proof (cases "a = op")
    case True
    then have "q = r" using a(2) new fresh unfolding number_fresh_def by blast
    then show ?thesis using True by (auto simp: seen_at_snoc)
  next
    case False
    then show ?thesis
      using exact old [OF a(1)] a(2) happened_before_mono seen_at_snoc unfolding clocks_exact_def by metis
  qed
  have 2: "a = b \<or> happened_before ?tr a b" if ab: "issued ?tr a" "issued ?tr b" "known (ro_clock b) a" for a b
  proof (cases "b = op")
    case True
    show ?thesis
    proof (cases "a = op")
      case False
      then obtain c where "a = c \<or> happened_before tr a c" "seen_at tr r c"
        using exact old [OF ab(1)] ab(3) True op(2) unfolding clocks_exact_def by metis
      then show ?thesis using before True by blast
    qed (use True in simp)
  next
    case False
    then have b: "issued tr b" using old ab(2) by blast
    then have "a \<noteq> op" using ab(3) new fresh unfolding number_fresh_def by blast
    then show ?thesis using exact b old [OF ab(1)] ab(3) happened_before_mono unfolding clocks_exact_def by blast
  qed
  show ?thesis unfolding clocks_exact_def using 1 2 by blast
qed

lemma merge_exact:
  assumes wf: "clocks_wf C tr" and exact: "clocks_exact C tr" and op: "issued tr op"
  shows "clocks_exact (C(r := clock_update (ro_clock op) (C r))) (tr @ [Received r op])"
proof -
  let ?C = "C(r := clock_update (ro_clock op) (C r))" and ?tr = "tr @ [Received r op]"
  have ok: "hm_ok (ro_clock op)" by (rule clocks_wfD(4) [OF wf op])
  have "\<exists>c. (a = c \<or> happened_before tr a c) \<and> seen_at ?tr p c" if a: "issued tr a" "known (?C p) a" for a p
  proof (cases "known (C p) a")
    case True
    then show ?thesis using exact a(1) seen_at_snoc unfolding clocks_exact_def by metis
  next
    case False
    then have "p = r" "known (ro_clock op) a" using a(2) by (auto simp: ok le_max_iff_disj split: if_splits)
    then show ?thesis using exact a(1) op seen_at_snoc unfolding clocks_exact_def by metis
  qed
  then show ?thesis using exact unfolding clocks_exact_def by (simp add: issued_snoc)
qed

lemma clocks_run_exact: "clocks_run C tr \<Longrightarrow> length tr < 2 ^ 64 \<Longrightarrow> undisturbed tr \<Longrightarrow> clocks_exact C tr"
proof (induction rule: clocks_run.induct)
  case none
  then show ?case by (simp add: clocks_exact_def issued_def)
next
  case (tick C tr r i)
  then have len: "length tr < 2 ^ 64" and u: "undisturbed tr" by (simp_all add: undisturbed_snoc)
  show ?case by (rule tick_exact [OF clocks_run_wf [OF tick.hyps(1) len] tick.IH [OF len u]])
next
  case (reading C tr r i op)
  then have len: "length tr < 2 ^ 64" and u: "undisturbed tr" by (simp_all add: undisturbed_snoc)
  show ?case
    by (rule reading_exact [OF pending_fresh [OF reading.hyps(1) len u reading.hyps(2)] reading.IH [OF len u] u
        reading.hyps(2-4)])
next
  case (merge C tr op r)
  then have len: "length tr < 2 ^ 64" and u: "undisturbed tr" by (simp_all add: undisturbed_snoc)
  show ?case by (rule merge_exact [OF clocks_run_wf [OF merge.hyps(1) len] merge.IH [OF len u] merge.hyps(2)])
qed

subsection \<open>The runs refine the clocks\<close>

lemma increment_local_simps [simp]:
  "cr_clock (increment_local r) = clock_increment (cr_local_region r) (cr_clock r)"
  "cr_local_region (increment_local r) = cr_local_region r" "cr_regions (increment_local r) = cr_regions r"
  "cr_log (increment_local r) = cr_log r" "cr_channels (increment_local r) = cr_channels r"
  by (simp_all add: increment_local_def)

lemma merge_clock_simps [simp]:
  "cr_clock (merge_clock op r) = clock_update (ro_clock op) (cr_clock r)"
  "cr_local_region (merge_clock op r) = cr_local_region r" "cr_regions (merge_clock op r) = cr_regions r"
  "cr_log (merge_clock op r) = cr_log r"
  by (simp_all add: merge_clock_def)

lemma log_operation_simps [simp]:
  "cr_clock (log_operation op r) = cr_clock r" "cr_local_region (log_operation op r) = cr_local_region r"
  "cr_regions (log_operation op r) = cr_regions r" "cr_log (log_operation op r) = cr_log r @ [op]"
  "cr_channels (log_operation op r) = cr_channels r"
  by (simp_all add: log_operation_def)

lemma send_to_simps [simp]:
  "cr_clock (send_to op q r) = cr_clock r" "cr_local_region (send_to op q r) = cr_local_region r"
  "cr_regions (send_to op q r) = cr_regions r" "cr_log (send_to op q r) = cr_log r"
  by (simp_all add: send_to_def)

lemma sends_simps [simp]:
  "cr_clock (fold (send_to op) qs r) = cr_clock r" "cr_local_region (fold (send_to op) qs r) = cr_local_region r"
  "cr_regions (fold (send_to op) qs r) = cr_regions r" "cr_log (fold (send_to op) qs r) = cr_log r"
  by (induction qs arbitrary: r) simp_all

lemma local_operation_simps [simp]:
  "ro_clock (local_operation uuid now ty data r) = cr_clock r"
  "ro_region (local_operation uuid now ty data r) = cr_local_region r"
  "ro_data (local_operation uuid now ty data r) = data"
  "ro_type (local_operation uuid now ty data r) = ty"
  by (simp_all add: local_operation_def)

lemma setup_clock [simp]:
  "cr_clock (add_region cfg r) = cr_clock r" "cr_local_region (add_region cfg r) = cr_local_region r"
  "cr_clock (register_custom_resolver name f r) = cr_clock r"
  "cr_local_region (register_custom_resolver name f r) = cr_local_region r"
  by (simp_all add: add_region_def register_custom_resolver_def)

text \<open>A call whose sections are not interleaved is the sequential one.\<close>

fun run_call :: "nat \<Rightarrow> nat \<Rightarrow> u64 \<Rightarrow> region_call \<Rightarrow> replicator \<Rightarrow> region_call \<times> replicator" where
  "run_call 0 uuid now c r = (c, r)"
| "run_call (Suc n) uuid now c r = (let (c', r') = call_step uuid now c r in run_call n uuid now c' r')"

lemma run_call_sends: "run_call (Suc (length qs)) uuid now (CallSending op qs) r = (CallReturned (Inr None), fold (send_to op) qs r)"
  by (induction qs arbitrary: r) (simp_all add: call_step_def)

lemma replicate_alone:
  "run_call (4 + length (cr_channels r)) uuid now (CallReplicate ty data) r =
     (CallReturned (Inr None), replicate_operation uuid now ty data r)"
proof -
  let ?r1 = "increment_local r"
  let ?op = "local_operation uuid now ty data ?r1"
  have "run_call (4 + length (cr_channels r)) uuid now (CallReplicate ty data) r =
      run_call (Suc (length (map fst (cr_channels r)))) uuid now (CallSending ?op (map fst (cr_channels r))) (log_operation ?op ?r1)"
    by (simp add: numeral_eq_Suc call_step_def)
  then show ?thesis unfolding run_call_sends by (simp add: replicate_operation_def Let_def)
qed

lemma handle_alone:
  "run_call 4 uuid now (CallHandle op) r =
     (let (result, r') = handle_replicated_operation uuid now op r in (CallReturned (map_sum id Some result), r'))"
  by (simp add: call_step_def handle_replicated_operation_def Let_def numeral_eq_Suc split: sum.split)

text \<open>The calls of a region are in step with the trace.\<close>

definition call_traced :: "region_event list \<Rightarrow> string \<Rightarrow> nat \<Rightarrow> region_call option \<Rightarrow> bool" where
  "call_traced tr r i c \<longleftrightarrow>
     (case c of
        None \<Rightarrow> Began r i \<notin> set tr \<and> (\<forall>op. Issued r i op \<notin> set tr)
      | Some (CallReplicate _ _) \<Rightarrow> Began r i \<notin> set tr \<and> (\<forall>op. Issued r i op \<notin> set tr)
      | Some (CallTicked _ _) \<Rightarrow> pending tr r i
      | Some (CallHandle op) \<Rightarrow> issued tr op
      | _ \<Rightarrow> True)"

definition regions_traced ::
  "(string \<Rightarrow> replicator) \<Rightarrow> (string \<Rightarrow> nat \<Rightarrow> region_call option) \<Rightarrow> region_event list \<Rightarrow> bool"
where
  "regions_traced s cs tr \<longleftrightarrow> (\<forall>r. cr_local_region (s r) = r) \<and> (\<forall>r i. call_traced tr r i (cs r i)) \<and>
     (\<forall>r i a. Issued r i a \<in> set tr \<longrightarrow> ro_region a = r)"

lemma call_traced_mono:
  "call_traced tr r i c \<Longrightarrow> ev \<noteq> Began r i \<Longrightarrow> \<forall>op. ev \<noteq> Issued r i op \<Longrightarrow> call_traced (tr @ [ev]) r i c"
  by (auto simp: call_traced_def pending_snoc issued_snoc split: option.splits region_call.splits)

lemma call_traced_step:
  assumes "call_traced tr r i (Some c)" and "call_step uuid now c s = (c', s')"
  shows "call_traced (tr @ call_events r i c c') r i (Some c')"
  using assms
  by (cases c) (auto simp: call_traced_def call_step_def call_events_def pending_def split: list.splits sum.splits)

text \<open>A section without an event leaves the clock; the others do what the abstraction does.\<close>

lemma section_clocks:
  assumes clocks: "clocks_run (\<lambda>r. cr_clock (s r)) tr" and traced: "regions_traced s cs tr"
    and call: "cs r i = Some c" and step: "call_step uuid now c (s r) = (c', r')"
  shows "clocks_run (\<lambda>q. cr_clock ((s(r := r')) q)) (tr @ call_events r i c c')" "cr_local_region r' = r"
    "\<forall>q j a. Issued q j a \<in> set (call_events r i c c') \<longrightarrow> ro_region a = q"
proof -
  have region: "cr_local_region (s r) = r" and c: "call_traced tr r i (Some c)"
    using traced call unfolding regions_traced_def by metis+
  have upd: "(\<lambda>q. cr_clock ((s(r := r')) q)) = (\<lambda>q. cr_clock (s q))(r := cr_clock r')" by (simp add: fun_eq_iff)
  have same: "(\<lambda>q. cr_clock ((s(r := r')) q)) = (\<lambda>q. cr_clock (s q))" if "cr_clock r' = cr_clock (s r)"
    using that by (auto simp: fun_eq_iff)
  have "clocks_run (\<lambda>q. cr_clock ((s(r := r')) q)) (tr @ call_events r i c c') \<and> cr_local_region r' = r \<and>
      (\<forall>q j a. Issued q j a \<in> set (call_events r i c c') \<longrightarrow> ro_region a = q)"
  proof (cases c)
    case (CallReplicate ty data)
    then have "r' = increment_local (s r)" "call_events r i c c' = [Began r i]"
      "Began r i \<notin> set tr" "\<forall>op. Issued r i op \<notin> set tr"
      using step c by (simp_all add: call_step_def call_events_def call_traced_def)
    then show ?thesis using clocks_run.tick [OF clocks, of r i] region unfolding upd by simp
  next
    case (CallTicked ty data)
    then have new: "r' = s r" "call_events r i c c' = [Issued r i (local_operation uuid now ty data (s r))]" "pending tr r i"
      using step c by (auto simp: call_step_def call_events_def call_traced_def)
    then have "clocks_run (\<lambda>q. cr_clock (s q)) (tr @ call_events r i c c')"
      using clocks_run.reading [OF clocks new(3), of "local_operation uuid now ty data (s r)"] region by simp
    then show ?thesis using new region same by simp
  next
    case (CallHandle op)
    then have "r' = merge_clock op (s r)" "call_events r i c c' = [Received r op]" "issued tr op"
      using step c by (simp_all add: call_step_def call_events_def call_traced_def)
    then show ?thesis using clocks_run.merge [OF clocks, of op r] region unfolding upd by simp
  next
    case (CallSending op qs)
    then show ?thesis using step clocks region same
      by (cases qs) (auto simp: call_step_def call_events_def)
  qed (use step clocks region same in \<open>auto simp: call_step_def call_events_def split: sum.splits\<close>)
  then show "clocks_run (\<lambda>q. cr_clock ((s(r := r')) q)) (tr @ call_events r i c c')" "cr_local_region r' = r"
    "\<forall>q j a. Issued q j a \<in> set (call_events r i c c') \<longrightarrow> ro_region a = q" by blast+
qed

lemma call_events_cases: "call_events r i c c' = [] \<or> (\<exists>ev. call_events r i c c' = [ev] \<and>
    (\<forall>q j. (q, j) \<noteq> (r, i) \<longrightarrow> ev \<noteq> Began q j \<and> (\<forall>op. ev \<noteq> Issued q j op)))"
  by (auto simp: call_events_def split: region_call.split)

lemma regions_run_refines:
  "regions_run s cs tr \<Longrightarrow> clocks_run (\<lambda>r. cr_clock (s r)) tr \<and> regions_traced s cs tr"
proof (induction rule: regions_run.induct)
  case start
  then show ?case
    using clocks_run.none by (simp add: regions_traced_def call_traced_def replicator_new_def)
next
  case (configure s cs tr r cfg)
  moreover have "(\<lambda>q. cr_clock ((s(r := add_region cfg (s r))) q)) = (\<lambda>q. cr_clock (s q))" by (simp add: fun_eq_iff)
  ultimately show ?case by (simp add: regions_traced_def)
next
  case (resolver s cs tr r name f)
  moreover have "(\<lambda>q. cr_clock ((s(r := register_custom_resolver name f (s r))) q)) = (\<lambda>q. cr_clock (s q))"
    by (simp add: fun_eq_iff)
  ultimately show ?case by (simp add: regions_traced_def)
next
  case (replicate s cs tr r i ty data)
  then have "call_traced tr r i None" unfolding regions_traced_def by metis
  then show ?case using replicate.IH by (simp add: regions_traced_def call_traced_def)
next
  case (handle s cs tr r i q k op)
  then have "issued tr op" unfolding regions_traced_def issued_def by metis
  then show ?case using handle.IH by (simp add: regions_traced_def call_traced_def)
next
  case (proceed s cs tr r i c uuid now c' r')
  note clocks = proceed.IH [THEN conjunct1] and traced = proceed.IH [THEN conjunct2]
  note sec = section_clocks [OF clocks traced proceed.hyps(2,3)]
  have "call_traced tr r i (Some c)" using traced proceed.hyps(2) unfolding regions_traced_def by metis
  then have here: "call_traced (tr @ call_events r i c c') r i (Some c')"
    by (rule call_traced_step [OF _ proceed.hyps(3)])
  have there: "call_traced (tr @ call_events r i c c') q j (cs q j)" if "(q, j) \<noteq> (r, i)" for q j
    using call_events_cases [of r i c c'] that traced call_traced_mono [of tr q j "cs q j"]
    unfolding regions_traced_def by (metis append_Nil2)
  have "call_traced (tr @ call_events r i c c') q j ((cs(r := (cs r)(i \<mapsto> c'))) q j)" for q j
    using here there [of q j] by (cases "q = r \<and> j = i") auto
  then have "regions_traced (s(r := r')) (cs(r := (cs r)(i \<mapsto> c'))) (tr @ call_events r i c c')"
    using traced sec(2,3) unfolding regions_traced_def by auto
  with sec(1) show ?case by blast
qed

end
