(* ===== verification/CrossRegionClaims.thy ===== *)
theory CrossRegionClaims
  imports CrossRegionProps
begin

text \<open>
  Properties of the replication between regions: what the vector clocks say of the order of operations, with
  concurrent calls and without, the conflicts that are detected, and what the partition detector reports.
\<close>

subsection \<open>Causality\<close>

text \<open>
  C6.  In every interleaving of the calls of all regions, whatever is lost, delayed or repeated: if the region of
  an operation had another when the call for it began, or there is a chain of such pairs, then the other has
  the lesser clock.  In runs where nothing happens to a region's clock between the increment and the reading
  of one of its calls the clocks are exact: less exactly for what happened before, equal only for one and
  the same operation, and hence concurrent exactly where neither happened before the other.
\<close>

theorem vector_clocks_capture_causality:
  assumes run: "regions_run s cs tr" and room: "length tr < 2 ^ 64"
    and issued_a: "Issued p i a \<in> set tr" and issued_b: "Issued q j b \<in> set tr"
  shows "(happened_before tr a b \<longrightarrow> clock_compare (ro_clock a) (ro_clock b) = ClockLess) \<and>
    (undisturbed tr \<longrightarrow>
       (clock_compare (ro_clock a) (ro_clock b) = ClockLess \<longleftrightarrow> happened_before tr a b) \<and>
       (clock_compare (ro_clock a) (ro_clock b) = ClockGreater \<longleftrightarrow> happened_before tr b a) \<and>
       (clock_compare (ro_clock a) (ro_clock b) = ClockEqual \<longleftrightarrow> a = b))"
proof -
  have clocks: "clocks_run (\<lambda>r. cr_clock (s r)) tr" and traced: "regions_traced s cs tr"
    using regions_run_refines [OF run] by blast+
  have ab: "issued tr a" "issued tr b"
    using issued_a issued_b traced unfolding regions_traced_def issued_def by metis+
  have strict: "clock_le (ro_clock x) (ro_clock y) \<and> \<not> clock_le (ro_clock y) (ro_clock x)"
    if "happened_before tr x y" for x y
    using happened_before_less [OF clocks room that] unfolding clock_le_def by (meson not_le)
  have less: "clock_compare (ro_clock a) (ro_clock b) = ClockLess" if "happened_before tr a b"
    using strict [OF that] by (simp add: clock_compare_le)
  have "(clock_compare (ro_clock a) (ro_clock b) = ClockLess \<longleftrightarrow> happened_before tr a b) \<and>
      (clock_compare (ro_clock a) (ro_clock b) = ClockGreater \<longleftrightarrow> happened_before tr b a) \<and>
      (clock_compare (ro_clock a) (ro_clock b) = ClockEqual \<longleftrightarrow> a = b)" if u: "undisturbed tr"
  proof -
    have before: "x = y \<or> happened_before tr x y" if "issued tr x" "issued tr y" "clock_le (ro_clock x) (ro_clock y)" for x y
      using clocks_run_exact [OF clocks room u] that unfolding clocks_exact_def clock_le_def op_number_def by blast
    consider "a = b" | "happened_before tr a b" | "happened_before tr b a"
      | "a \<noteq> b" "\<not> happened_before tr a b" "\<not> happened_before tr b a" by blast
    then show ?thesis
    proof cases
      case 4
      then have "\<not> clock_le (ro_clock a) (ro_clock b)" "\<not> clock_le (ro_clock b) (ro_clock a)"
        using before ab by blast+
      with 4 show ?thesis by (simp add: clock_compare_le)
    qed (use strict in \<open>auto simp: clock_compare_le\<close>)
  qed
  with less show ?thesis by blast
qed

text \<open>
  Without that the clocks are not exact: two overlapping calls of one region, in which both increments come
  before both readings, create different operations with one and the same clock, which no region ever
  takes for concurrent.
\<close>

theorem overlapping_calls_share_clock:
  "\<exists>s cs tr a b. regions_run s cs tr \<and> Issued r 0 a \<in> set tr \<and> Issued r 1 b \<in> set tr \<and>
     ro_data a = data1 \<and> ro_data b = data2 \<and> ro_id a = 1 \<and> ro_id b = 2 \<and>
     clock_compare (ro_clock a) (ro_clock b) = ClockEqual"
proof -
  let ?r0 = "replicator_new r" and ?none = "(\<lambda>_. None) :: nat \<Rightarrow> region_call option"
  let ?r2 = "increment_local (increment_local ?r0)"
  let ?a = "local_operation 1 now ty data1 ?r2" and ?b = "local_operation 2 now ty data2 ?r2"
  have region: "cr_local_region ?r0 = r" by (simp add: replicator_new_def)
  have "regions_run replicator_new (\<lambda>_ _. None) []" by (rule regions_run.start)
  from regions_run.replicate [OF this, of r 0 ty data1]
  have "regions_run replicator_new ((\<lambda>_ _. None)(r := ?none(0 \<mapsto> CallReplicate ty data1))) []" by simp
  from regions_run.replicate [OF this, of r 1 ty data2]
  have "regions_run replicator_new
      ((\<lambda>_ _. None)(r := ?none(0 \<mapsto> CallReplicate ty data1, 1 \<mapsto> CallReplicate ty data2))) []" by simp
  from regions_run.proceed [OF this, of r 0 "CallReplicate ty data1" 0 0]
  have "regions_run (replicator_new(r := increment_local ?r0))
      ((\<lambda>_ _. None)(r := ?none(0 \<mapsto> CallTicked ty data1, 1 \<mapsto> CallReplicate ty data2))) [Began r 0]"
    by (simp add: call_step_def call_events_def fun_upd_twist)
  from regions_run.proceed [OF this, of r 1 "CallReplicate ty data2" 0 0]
  have "regions_run (replicator_new(r := ?r2))
      ((\<lambda>_ _. None)(r := ?none(0 \<mapsto> CallTicked ty data1, 1 \<mapsto> CallTicked ty data2))) [Began r 0, Began r 1]"
    by (simp add: call_step_def call_events_def)
  from regions_run.proceed [OF this, of r 0 "CallTicked ty data1" 1 now]
  have "regions_run (replicator_new(r := ?r2))
      ((\<lambda>_ _. None)(r := ?none(0 \<mapsto> CallCreated ?a, 1 \<mapsto> CallTicked ty data2))) [Began r 0, Began r 1, Issued r 0 ?a]"
    by (simp add: call_step_def call_events_def fun_upd_twist)
  from regions_run.proceed [OF this, of r 1 "CallTicked ty data2" 2 now]
  obtain cs where run: "regions_run (replicator_new(r := ?r2)) cs [Began r 0, Began r 1, Issued r 0 ?a, Issued r 1 ?b]"
    by (simp add: call_step_def call_events_def)
  have "ro_id ?a = 1" "ro_id ?b = 2" by (simp_all add: local_operation_def)
  then show ?thesis
    by (intro exI [of _ "replicator_new(r := ?r2)"] exI [of _ cs] exI [of _ "[Began r 0, Began r 1, Issued r 0 ?a, Issued r 1 ?b]"]
        exI [of _ ?a] exI [of _ ?b] conjI run) simp_all
qed

subsection \<open>Conflicts\<close>

lemma last_writer_in: "last_writer op cs \<in> insert op (set cs)"
  by (induction op cs rule: last_writer.induct) (auto split: if_splits)

lemma first_writer_in: "first_writer op cs \<in> insert op (set cs)"
  by (induction op cs rule: first_writer.induct) (auto split: if_splits)

text \<open>The last writer is the operation with the greatest time, the incoming one first among equals.\<close>

lemma last_writer_greatest:
  "c \<in> insert op (set cs) \<Longrightarrow> ro_timestamp c \<le> ro_timestamp (last_writer op cs)"
proof (induction op cs arbitrary: c rule: last_writer.induct)
  case (2 latest d cs)
  let ?l = "if ro_timestamp d > ro_timestamp latest then d else latest"
  have greatest: "ro_timestamp ?l \<le> ro_timestamp (last_writer ?l cs)" by (rule "2.IH") simp
  consider "c \<in> set cs" | "ro_timestamp c \<le> ro_timestamp ?l" using "2.prems" by (auto simp: not_less less_imp_le)
  then show ?case
  proof cases
    case 1
    then have "ro_timestamp c \<le> ro_timestamp (last_writer ?l cs)" by (intro "2.IH") simp
    then show ?thesis by simp
  qed (use greatest order_trans in auto)
qed simp

lemma conflict_same_data: "region_ops_conflict a b \<Longrightarrow> ro_data a = ro_data b"
  by (auto simp: same_resource_def split: region_op_type.splits)

text \<open>
  C40.  Two operations conflict only if their data are the same, bit for bit: two regions that concurrently give
  the same vector different values never conflict, and none of the built-in strategies ever applies other
  data than those of the operation that comes in last.
\<close>

theorem resolution_keeps_incoming_data:
  assumes cfg: "hm_get (cr_regions r) (cr_local_region r) = Some cfg" "\<forall>name. rg_conflict_resolution cfg \<noteq> CustomResolver name"
    and handled: "handle_replicated_operation uuid now op r = (result, r')"
  shows "\<exists>applied. result = Inr applied \<and> ro_data applied = ro_data op \<and> cr_log r' = cr_log r @ [op]"
proof -
  let ?r1 = "merge_clock op r"
  let ?cs = "detect_conflicts op ?r1"
  have data: "ro_data c = ro_data op" if "c \<in> insert op (set ?cs)" for c
    using that conflict_same_data by (fastforce simp: detect_conflicts_def)
  have "\<exists>applied. resolve_conflicts uuid now op ?cs ?r1 = Inr applied \<and> ro_data applied = ro_data op"
  proof (cases "rg_conflict_resolution cfg")
    case VectorClockMerge
    then show ?thesis
      using cfg(1) data [OF last_writer_in]
      by (simp add: resolve_conflicts_def merge_operations_def merge_operation_data_def split: region_op_type.split)
  qed (use cfg data [OF last_writer_in] data [OF first_writer_in] in \<open>simp_all add: resolve_conflicts_def\<close>)
  then obtain applied where res: "resolve_conflicts uuid now op ?cs ?r1 = Inr applied" "ro_data applied = ro_data op"
    by blast
  have "handle_replicated_operation uuid now op r =
      (Inr (if ?cs = [] then op else applied), log_operation op ?r1)"
    by (simp add: handle_replicated_operation_def decide_def Let_def res(1))
  then show ?thesis using handled res(2) by auto
qed

text \<open>
  A region that was never added to its own map refuses an operation with a conflict, but has already taken
  over its clock: the operation is in no log, and everything the region issues claims to come after it.
\<close>

theorem refused_operation_leaves_clock:
  assumes "hm_get (cr_regions r) (cr_local_region r) = None" "hm_ok (ro_clock op)"
    and "detect_conflicts op (merge_clock op r) \<noteq> []"
  shows "\<exists>r'. handle_replicated_operation uuid now op r = (Inl (RegionNotFound (cr_local_region r)), r') \<and>
    cr_log r' = cr_log r \<and> clock_le (ro_clock op) (cr_clock r')"
  using assms by (simp add: handle_replicated_operation_def decide_def Let_def resolve_conflicts_def clock_le_def)

subsection \<open>The partition detector\<close>

definition all_healthy :: "(string \<times> region_health) list \<Rightarrow> bool" where
  "all_healthy m \<longleftrightarrow> (\<forall>h \<in> snd ` set m. rh_is_healthy h)"

lemma all_healthy_insert: "all_healthy m \<Longrightarrow> rh_is_healthy h \<Longrightarrow> all_healthy (hm_insert k h m)"
  using set_hm_insert [of k h m] unfolding all_healthy_def by fastforce

lemma healthy_status: "(\<forall>(region, healthy) \<in> set (get_partition_status d). healthy) \<longleftrightarrow> all_healthy (pd_regions d)"
  by (auto simp: get_partition_status_def all_healthy_def)

text \<open>
  However many regions stay unreachable in however many ticks, the status that the detector reports is that
  of its start: all regions healthy.
\<close>

theorem partitions_never_reported:
  assumes "\<forall>(region, healthy) \<in> set (get_partition_status d). healthy"
  shows "\<forall>(region, healthy) \<in> set (get_partition_status
    (fold (\<lambda>(now, reachable, i). detection_tick now reachable i) ticks (start_detection t regions d))). healthy"
proof -
  let ?h = "\<lparr>rh_last_heartbeat = t, rh_is_healthy = True, rh_consecutive_failures = 0\<rparr>"
  have "all_healthy m \<Longrightarrow> all_healthy (fold (\<lambda>region. hm_insert region ?h) regions m)" for m
    by (induction regions arbitrary: m) (simp_all add: all_healthy_insert)
  then have "all_healthy (pd_regions (start_detection t regions d))"
    using assms by (simp add: healthy_status start_detection_def Let_def)
  moreover have "pd_regions (fold (\<lambda>(now, reachable, i). detection_tick now reachable i) ticks e) = pd_regions e" for e
    by (induction ticks arbitrary: e) (auto simp: detection_tick_def)
  ultimately show ?thesis by (simp add: healthy_status)
qed

subsection \<open>Witnesses\<close>

text \<open>Two regions: the second receives an operation of the first and then issues one itself.\<close>

definition first_op :: replicated_operation where
  "first_op = local_operation 1 10 OtUpdate [7] (increment_local (replicator_new ''eu''))"

definition second_op :: replicated_operation where
  "second_op = local_operation 2 20 OtUpdate [8] (increment_local (merge_clock first_op (replicator_new ''us'')))"

definition two_regions :: "region_event list" where
  "two_regions = [Began ''eu'' 0, Issued ''eu'' 0 first_op, Received ''us'' first_op, Began ''us'' 1, Issued ''us'' 1 second_op]"

lemma two_regions_run: "\<exists>s cs. regions_run s cs two_regions"
proof -
  let ?none = "(\<lambda>_. None) :: nat \<Rightarrow> region_call option"
  let ?eu = "increment_local (replicator_new ''eu'')" and ?us = "merge_clock first_op (replicator_new ''us'')"
  have "regions_run replicator_new (\<lambda>_ _. None) []" by (rule regions_run.start)
  from regions_run.replicate [OF this, of "''eu''" 0 OtUpdate "[7]"]
  have "regions_run replicator_new ((\<lambda>_ _. None)(''eu'' := ?none(0 \<mapsto> CallReplicate OtUpdate [7]))) []" by simp
  from regions_run.proceed [OF this, of "''eu''" 0 "CallReplicate OtUpdate [7]" 0 0]
  have "regions_run (replicator_new(''eu'' := ?eu)) ((\<lambda>_ _. None)(''eu'' := ?none(0 \<mapsto> CallTicked OtUpdate [7])))
      [Began ''eu'' 0]"
    by (simp add: call_step_def call_events_def)
  from regions_run.proceed [OF this, of "''eu''" 0 "CallTicked OtUpdate [7]" 1 10]
  have "regions_run (replicator_new(''eu'' := ?eu)) ((\<lambda>_ _. None)(''eu'' := ?none(0 \<mapsto> CallCreated first_op)))
      [Began ''eu'' 0, Issued ''eu'' 0 first_op]"
    by (simp add: call_step_def call_events_def first_op_def)
  from regions_run.handle [OF this, of "''us''" 0 "''eu''" 0 first_op]
  have "regions_run (replicator_new(''eu'' := ?eu))
      ((\<lambda>_ _. None)(''eu'' := ?none(0 \<mapsto> CallCreated first_op), ''us'' := ?none(0 \<mapsto> CallHandle first_op)))
      [Began ''eu'' 0, Issued ''eu'' 0 first_op]"
    by simp
  from regions_run.proceed [OF this, of "''us''" 0 "CallHandle first_op" 0 0]
  have "regions_run (replicator_new(''eu'' := ?eu, ''us'' := ?us))
      ((\<lambda>_ _. None)(''eu'' := ?none(0 \<mapsto> CallCreated first_op), ''us'' := ?none(0 \<mapsto> CallMerged first_op)))
      [Began ''eu'' 0, Issued ''eu'' 0 first_op, Received ''us'' first_op]"
    by (simp add: call_step_def call_events_def)
  from regions_run.replicate [OF this, of "''us''" 1 OtUpdate "[8]"]
  have "regions_run (replicator_new(''eu'' := ?eu, ''us'' := ?us))
      ((\<lambda>_ _. None)(''eu'' := ?none(0 \<mapsto> CallCreated first_op),
        ''us'' := ?none(0 \<mapsto> CallMerged first_op, 1 \<mapsto> CallReplicate OtUpdate [8])))
      [Began ''eu'' 0, Issued ''eu'' 0 first_op, Received ''us'' first_op]"
    by simp
  from regions_run.proceed [OF this, of "''us''" 1 "CallReplicate OtUpdate [8]" 0 0]
  have "regions_run (replicator_new(''eu'' := ?eu, ''us'' := increment_local ?us))
      ((\<lambda>_ _. None)(''eu'' := ?none(0 \<mapsto> CallCreated first_op),
        ''us'' := ?none(0 \<mapsto> CallMerged first_op, 1 \<mapsto> CallTicked OtUpdate [8])))
      [Began ''eu'' 0, Issued ''eu'' 0 first_op, Received ''us'' first_op, Began ''us'' 1]"
    by (simp add: call_step_def call_events_def)
  from regions_run.proceed [OF this, of "''us''" 1 "CallTicked OtUpdate [8]" 2 20] show ?thesis
    unfolding two_regions_def by (simp add: call_step_def call_events_def second_op_def) blast
qed

theorem vector_clocks_capture_causality_witness:
  "clock_compare (ro_clock first_op) (ro_clock second_op) = ClockLess \<and> happened_before two_regions first_op second_op"
proof -
  obtain s cs where run: "regions_run s cs two_regions" using two_regions_run by blast
  have "directly_before two_regions first_op second_op"
    unfolding directly_before_def two_regions_def seen_at_def
    by (rule exI [of _ "[Began ''eu'' 0, Issued ''eu'' 0 first_op, Received ''us'' first_op]"], rule exI [of _ "''us''"],
        rule exI [of _ 1], rule exI [of _ "[]"], rule exI [of _ "[]"]) simp
  then have "happened_before two_regions first_op second_op" by (simp add: happened_before_def tranclp.r_into_trancl)
  with vector_clocks_capture_causality [OF run, of "''eu''" 0 first_op "''us''" 1 second_op] show ?thesis
    by (simp add: two_regions_def)
qed

text \<open>A region with the last writer's strategy receives what conflicts with its own update.\<close>

definition eu_config :: region_config where
  "eu_config = \<lparr>rg_region_id = ''eu'', rg_endpoints = [], rg_priority = 1, rg_is_primary = True, rg_lag_threshold_ms = 0,
     rg_conflict_resolution = LastWriterWins\<rparr>"

theorem resolution_keeps_incoming_data_witness:
  "\<exists>applied r'. handle_replicated_operation 3 30 (local_operation 2 20 OtDelete [7] (increment_local (replicator_new ''us'')))
       (replicate_operation 1 10 OtUpdate [7] (add_region eu_config (replicator_new ''eu''))) = (Inr applied, r') \<and>
     ro_data applied = [7]"
proof -
  let ?r = "replicate_operation 1 10 OtUpdate [7] (add_region eu_config (replicator_new ''eu''))"
  let ?op = "local_operation 2 20 OtDelete [7] (increment_local (replicator_new ''us''))"
  have cfg: "hm_get (cr_regions ?r) (cr_local_region ?r) = Some eu_config"
    "\<forall>name. rg_conflict_resolution eu_config \<noteq> CustomResolver name"
    by (simp_all add: replicate_operation_def Let_def add_region_def replicator_new_def eu_config_def hm_get_def)
  obtain result r' where "handle_replicated_operation 3 30 ?op ?r = (result, r')" by fastforce
  with resolution_keeps_incoming_data [OF cfg this] show ?thesis by (auto simp: local_operation_def)
qed

theorem refused_operation_leaves_clock_witness:
  "\<exists>r'. handle_replicated_operation 3 30 (local_operation 2 20 OtDelete [7] (increment_local (replicator_new ''us'')))
       (replicate_operation 1 10 OtUpdate [7] (replicator_new ''eu'')) = (Inl (RegionNotFound ''eu''), r')"
proof -
  let ?r = "replicate_operation 1 10 OtUpdate [7] (replicator_new ''eu'')"
  let ?op = "local_operation 2 20 OtDelete [7] (increment_local (replicator_new ''us''))"
  have "hm_get (cr_regions ?r) (cr_local_region ?r) = None" "hm_ok (ro_clock ?op)"
    by (simp_all add: replicate_operation_def Let_def replicator_new_def local_operation_def hm_ok_def clock_increment_def
        clock_new_def)
  moreover have "detect_conflicts ?op (merge_clock ?op ?r) \<noteq> []"
    by (simp add: detect_conflicts_def replicate_operation_def Let_def replicator_new_def local_operation_def
        clock_compare_def clock_increment_def clock_new_def clock_at_def hm_get_def same_resource_def)
  ultimately have "\<exists>r'. handle_replicated_operation 3 30 ?op ?r = (Inl (RegionNotFound (cr_local_region ?r)), r')"
    using refused_operation_leaves_clock [of ?r ?op 3 30] by blast
  then show ?thesis by (simp add: replicate_operation_def Let_def replicator_new_def)
qed

text \<open>A region that is not reached three times.\<close>

theorem partitions_never_reported_witness:
  "get_partition_status (fold (\<lambda>(now, reachable, i). detection_tick now reachable i)
     (replicate 3 (5, \<lambda>_. False, 0)) (start_detection 0 [''eu''] (detector_new 1))) = [(''eu'', True)]"
proof -
  let ?d = "fold (\<lambda>(now, reachable, i). detection_tick now reachable i) (replicate 3 (5, \<lambda>_. False, 0))
    (start_detection 0 [''eu''] (detector_new 1))"
  have "map fst (get_partition_status ?d) = [''eu'']"
    by (simp add: get_partition_status_def numeral_eq_Suc detection_tick_def start_detection_def detector_new_def Let_def)
  moreover have "\<forall>(region, healthy) \<in> set (get_partition_status ?d). healthy"
    by (rule partitions_never_reported) (simp add: get_partition_status_def detector_new_def)
  ultimately show ?thesis by (cases "get_partition_status ?d") auto
qed

end
