(* ===== verification/HybridSearch.thy ===== *)
theory HybridSearch
  imports Hnsw
begin

text \<open>
  Search with metadata filters, \<open>src/src/index/hybrid_search.rs\<close>: the evaluation of a filter on metadata,
  the inverted index of the metadata, the cache of query results, and the engine that combines them with a
  vector index.

  The vector index is a record of its two operations, which \<open>hnsw_ops\<close> fills with the graph index, the
  only one that the source makes a \<open>VectorIndex\<close>.  A hash set is a set.  Parsing a number, the hashes of
  the cache's keys, the clock and the arithmetic of floats are arguments.
\<close>

subsection \<open>Filters\<close>

type_synonym metadata = "(string \<times> string) list"

datatype filter_condition =
    FcEq string string
  | FcNe string string
  | FcGt string f64
  | FcGte string f64
  | FcLt string f64
  | FcLte string f64
  | FcIn string "string list"
  | FcContains string string
  | FcAnd filter_condition filter_condition
  | FcOr filter_condition filter_condition
  | FcNot filter_condition

fun text_contains :: "string \<Rightarrow> string \<Rightarrow> bool" where
  "text_contains needle hay =
     (take (length needle) hay = needle \<or> (case hay of [] \<Rightarrow> False | _ # rest \<Rightarrow> text_contains needle rest))"

declare text_contains.simps [simp del]

text \<open>The number that a field holds, if it can be parsed.\<close>

definition number_at :: "(string \<Rightarrow> f64 option) \<Rightarrow> metadata \<Rightarrow> string \<Rightarrow> f64 option" where
  "number_at parse m field = (case hm_get m field of None \<Rightarrow> None | Some v \<Rightarrow> parse v)"

fun fc_evaluate :: "(string \<Rightarrow> f64 option) \<Rightarrow> filter_condition \<Rightarrow> metadata \<Rightarrow> bool" where
  "fc_evaluate parse (FcEq field value) m = (case hm_get m field of None \<Rightarrow> False | Some v \<Rightarrow> v = value)"
| "fc_evaluate parse (FcNe field value) m = (case hm_get m field of None \<Rightarrow> True | Some v \<Rightarrow> v \<noteq> value)"
| "fc_evaluate parse (FcGt field x) m = (case number_at parse m field of None \<Rightarrow> False | Some v \<Rightarrow> f64_less x v)"
| "fc_evaluate parse (FcGte field x) m = (case number_at parse m field of None \<Rightarrow> False | Some v \<Rightarrow> f64_le x v)"
| "fc_evaluate parse (FcLt field x) m = (case number_at parse m field of None \<Rightarrow> False | Some v \<Rightarrow> f64_less v x)"
| "fc_evaluate parse (FcLte field x) m = (case number_at parse m field of None \<Rightarrow> False | Some v \<Rightarrow> f64_le v x)"
| "fc_evaluate parse (FcIn field values) m = (case hm_get m field of None \<Rightarrow> False | Some v \<Rightarrow> v \<in> set values)"
| "fc_evaluate parse (FcContains field value) m =
     (case hm_get m field of None \<Rightarrow> False | Some v \<Rightarrow> text_contains value v)"
| "fc_evaluate parse (FcAnd l r) m = (fc_evaluate parse l m \<and> fc_evaluate parse r m)"
| "fc_evaluate parse (FcOr l r) m = (fc_evaluate parse l m \<or> fc_evaluate parse r m)"
| "fc_evaluate parse (FcNot c) m = (\<not> fc_evaluate parse c m)"

fun fc_fields :: "filter_condition \<Rightarrow> string set" where
  "fc_fields (FcEq field _) = {field}"
| "fc_fields (FcNe field _) = {field}"
| "fc_fields (FcGt field _) = {field}"
| "fc_fields (FcGte field _) = {field}"
| "fc_fields (FcLt field _) = {field}"
| "fc_fields (FcLte field _) = {field}"
| "fc_fields (FcIn field _) = {field}"
| "fc_fields (FcContains field _) = {field}"
| "fc_fields (FcAnd l r) = fc_fields l \<union> fc_fields r"
| "fc_fields (FcOr l r) = fc_fields l \<union> fc_fields r"
| "fc_fields (FcNot c) = fc_fields c"

subsection \<open>The inverted index\<close>

record metadata_index =
  mi_indexes :: "(string \<times> (string \<times> u64 set) list) list"
  mi_field_counts :: "(string \<times> u64) list"

definition metadata_index_new :: metadata_index where
  "metadata_index_new = \<lparr>mi_indexes = [], mi_field_counts = []\<rparr>"

definition index_field :: "u64 \<Rightarrow> string \<times> string \<Rightarrow> metadata_index \<Rightarrow> metadata_index" where
  "index_field vid fv mi =
     (case fv of (field, value) \<Rightarrow>
        (let field_index = (case hm_get (mi_indexes mi) field of None \<Rightarrow> [] | Some fi \<Rightarrow> fi);
             ids = (case hm_get field_index value of None \<Rightarrow> {} | Some ids \<Rightarrow> ids);
             count = (case hm_get (mi_field_counts mi) field of None \<Rightarrow> 0 | Some c \<Rightarrow> c)
         in \<lparr>mi_indexes = hm_insert field (hm_insert value (insert vid ids) field_index) (mi_indexes mi),
             mi_field_counts = hm_insert field (count + 1) (mi_field_counts mi)\<rparr>))"

definition index_metadata :: "u64 \<Rightarrow> metadata \<Rightarrow> metadata_index \<Rightarrow> metadata_index" where
  "index_metadata vid m mi = fold (index_field vid) m mi"

definition unindex_field :: "u64 \<Rightarrow> string \<times> string \<Rightarrow> metadata_index \<Rightarrow> metadata_index" where
  "unindex_field vid fv mi =
     (case fv of (field, value) \<Rightarrow>
        (case hm_get (mi_indexes mi) field of
           None \<Rightarrow> mi
         | Some fi \<Rightarrow>
             (case hm_get fi value of
                None \<Rightarrow> mi
              | Some ids \<Rightarrow> mi\<lparr>mi_indexes := hm_insert field (hm_insert value (ids - {vid}) fi) (mi_indexes mi)\<rparr>)))"

definition unindex_metadata :: "u64 \<Rightarrow> metadata \<Rightarrow> metadata_index \<Rightarrow> metadata_index" where
  "unindex_metadata vid m mi = fold (unindex_field vid) m mi"

fun get_matching_ids :: "metadata_index \<Rightarrow> filter_condition \<Rightarrow> u64 set option" where
  "get_matching_ids mi (FcEq field value) =
     (case hm_get (mi_indexes mi) field of None \<Rightarrow> None | Some fi \<Rightarrow> hm_get fi value)"
| "get_matching_ids mi (FcIn field values) =
     (case hm_get (mi_indexes mi) field of
        None \<Rightarrow> None
      | Some fi \<Rightarrow> Some (fold (\<lambda>value result. case hm_get fi value of None \<Rightarrow> result | Some ids \<Rightarrow> result \<union> ids) values {}))"
| "get_matching_ids mi (FcAnd l r) =
     (case get_matching_ids mi l of
        None \<Rightarrow> None
      | Some ls \<Rightarrow> (case get_matching_ids mi r of None \<Rightarrow> None | Some rs \<Rightarrow> Some (ls \<inter> rs)))"
| "get_matching_ids mi (FcOr l r) =
     Some ((case get_matching_ids mi l of None \<Rightarrow> {} | Some ls \<Rightarrow> ls) \<union>
           (case get_matching_ids mi r of None \<Rightarrow> {} | Some rs \<Rightarrow> rs))"
| "get_matching_ids mi _ = None"

fun estimate_selectivity :: "f64_ops \<Rightarrow> metadata_index \<Rightarrow> filter_condition \<Rightarrow> f64" where
  "estimate_selectivity fd mi (FcEq field value) =
     (case hm_get (mi_indexes mi) field of
        None \<Rightarrow> f64_one
      | Some fi \<Rightarrow>
          (case hm_get fi value of
             None \<Rightarrow> f64_one
           | Some ids \<Rightarrow>
               fd_div fd (f64_of_nat (card ids))
                 (f64_of_nat (unat (case hm_get (mi_field_counts mi) field of None \<Rightarrow> 1 | Some c \<Rightarrow> c)))))"
| "estimate_selectivity fd mi (FcAnd l r) = fd_mul fd (estimate_selectivity fd mi l) (estimate_selectivity fd mi r)"
| "estimate_selectivity fd mi (FcOr l r) =
     (let s1 = estimate_selectivity fd mi l; s2 = estimate_selectivity fd mi r
      in fd_sub fd (fd_add fd s1 s2) (fd_mul fd s1 s2))"
| "estimate_selectivity fd mi _ = f64_one"

subsection \<open>The cache\<close>

record search_result =
  se_id :: u64
  se_distance :: f32
  se_vector :: "f32 list option"

record cached_result =
  ch_results :: "search_result list"
  ch_timestamp :: nat
  ch_ttl :: nat

type_synonym cache_key = "u64 \<times> u64 \<times> nat"

record query_cache =
  qc_cache :: "(cache_key \<times> cached_result) list"
  qc_hit_count :: u64
  qc_miss_count :: u64
  qc_default_ttl :: nat

text \<open>The default hasher on the bits of the query, and on the text of the filter, if there is one.\<close>

record query_hashes =
  qh_query :: "f32 list \<Rightarrow> u64"
  qh_filter :: "filter_condition option \<Rightarrow> u64"

definition query_cache_new :: "nat \<Rightarrow> query_cache" where
  "query_cache_new ttl = \<lparr>qc_cache = [], qc_hit_count = 0, qc_miss_count = 0, qc_default_ttl = ttl\<rparr>"

definition make_key :: "query_hashes \<Rightarrow> f32 list \<Rightarrow> filter_condition option \<Rightarrow> nat \<Rightarrow> cache_key" where
  "make_key hs query f k = (qh_query hs query, qh_filter hs f, k)"

definition cache_expired :: "nat \<Rightarrow> cached_result \<Rightarrow> bool" where
  "cache_expired now c \<longleftrightarrow> now - ch_timestamp c > ch_ttl c"

definition cache_get ::
  "query_hashes \<Rightarrow> nat \<Rightarrow> f32 list \<Rightarrow> filter_condition option \<Rightarrow> nat \<Rightarrow> query_cache \<Rightarrow>
   search_result list option \<times> query_cache"
where
  "cache_get hs now query f k c =
     (let miss = (None, c\<lparr>qc_miss_count := qc_miss_count c + 1\<rparr>)
      in case hm_get (qc_cache c) (make_key hs query f k) of
           None \<Rightarrow> miss
         | Some en \<Rightarrow>
             if \<not> cache_expired now en then (Some (ch_results en), c\<lparr>qc_hit_count := qc_hit_count c + 1\<rparr>) else miss)"

definition cache_put ::
  "query_hashes \<Rightarrow> nat \<Rightarrow> f32 list \<Rightarrow> filter_condition option \<Rightarrow> nat \<Rightarrow> search_result list \<Rightarrow> query_cache \<Rightarrow> query_cache"
where
  "cache_put hs now query f k rs c =
     c\<lparr>qc_cache := hm_insert (make_key hs query f k)
         \<lparr>ch_results = rs, ch_timestamp = now, ch_ttl = qc_default_ttl c\<rparr> (qc_cache c)\<rparr>"

definition cache_invalidate :: "query_cache \<Rightarrow> query_cache" where
  "cache_invalidate c = c\<lparr>qc_cache := []\<rparr>"

record cache_stats =
  ct_size :: nat
  ct_hits :: u64
  ct_misses :: u64
  ct_hit_rate :: f64

definition query_cache_stats :: "f64_ops \<Rightarrow> query_cache \<Rightarrow> cache_stats" where
  "query_cache_stats fd c =
     (let hits = qc_hit_count c; misses = qc_miss_count c; all = hits + misses
      in \<lparr>ct_size = length (qc_cache c), ct_hits = hits, ct_misses = misses,
          ct_hit_rate = (if all > 0 then fd_div fd (f64_of_nat (unat hits)) (f64_of_nat (unat all)) else 0)\<rparr>)"

subsection \<open>The engine\<close>

datatype search_strategy = PreFilter | PostFilter | AutoStrategy

record 'i index_ops =
  vo_add :: "nat \<Rightarrow> u64 \<Rightarrow> payload vector \<Rightarrow> 'i \<Rightarrow> unit res \<times> 'i"
  vo_search :: "search_request \<Rightarrow> 'i \<Rightarrow> scored_vector list res"

definition total_ops ::
  "(nat \<Rightarrow> u64 \<Rightarrow> payload vector \<Rightarrow> 'i \<Rightarrow> 'i) \<Rightarrow> (search_request \<Rightarrow> 'i \<Rightarrow> scored_vector list) \<Rightarrow> 'i index_ops"
where
  "total_ops add srch = \<lparr>vo_add = (\<lambda>level vid v i. (Inr (), add level vid v i)), vo_search = (\<lambda>rq i. Inr (srch rq i))\<rparr>"

definition hnsw_ops :: "f32_ops \<Rightarrow> hnsw index_ops" where
  "hnsw_ops fp = total_ops (hnsw_add fp) (hnsw_search fp)"

record 'i hybrid_engine =
  he_vector_index :: 'i
  he_metadata_index :: metadata_index
  he_cache :: query_cache
  he_store :: "(u64 \<times> metadata) list"

definition hybrid_new :: "'i \<Rightarrow> 'i hybrid_engine" where
  "hybrid_new index =
     \<lparr>he_vector_index = index, he_metadata_index = metadata_index_new, he_cache = query_cache_new (secs 60), he_store = []\<rparr>"

definition hybrid_insert ::
  "'i index_ops \<Rightarrow> nat \<Rightarrow> u64 \<Rightarrow> f32 list \<Rightarrow> metadata \<Rightarrow> 'i hybrid_engine \<Rightarrow> unit res \<times> 'i hybrid_engine"
where
  "hybrid_insert vo level vid v m h =
     (let (r, index) = vo_add vo level vid \<lparr>v_data = v, v_payload = Some []\<rparr> (he_vector_index h);
          h1 = h\<lparr>he_vector_index := index\<rparr>
      in case r of
           Inl err \<Rightarrow> (Inl err, h1)
         | Inr _ \<Rightarrow>
             (Inr (), h1\<lparr>he_metadata_index := index_metadata vid m (he_metadata_index h1),
                         he_store := hm_insert vid m (he_store h1)\<rparr>))"

definition f32_one :: f32 where "f32_one = 0x3F800000"

definition do_vector_search ::
  "'i index_ops \<Rightarrow> f32_ops \<Rightarrow> f32 list \<Rightarrow> nat \<Rightarrow> 'i hybrid_engine \<Rightarrow> search_result list res"
where
  "do_vector_search vo fp query k h =
     and_then (vo_search vo (search_request_new query k) (he_vector_index h)) (\<lambda>scored.
       Inr (map (\<lambda>s. \<lparr>se_id = sv_id s, se_distance = fp_sub fp f32_one (sv_score s), se_vector = None\<rparr>) scored))"

definition pre_filter_search ::
  "'i index_ops \<Rightarrow> f32_ops \<Rightarrow> f32 list \<Rightarrow> nat \<Rightarrow> filter_condition option \<Rightarrow> 'i hybrid_engine \<Rightarrow> search_result list res"
where
  "pre_filter_search vo fp query k f h =
     (case f of
        None \<Rightarrow> do_vector_search vo fp query k h
      | Some cond \<Rightarrow>
          (case get_matching_ids (he_metadata_index h) cond of
             None \<Rightarrow> Inl EQuery
           | Some ids \<Rightarrow>
               if ids = {} then Inr []
               else and_then (do_vector_search vo fp query (k * 10) h) (\<lambda>rs. Inr (take k (filter (\<lambda>r. se_id r \<in> ids) rs)))))"

text \<open>The loop breaks as soon as there are \<open>k\<close> results, after having pushed one.\<close>

fun keep_matching ::
  "(string \<Rightarrow> f64 option) \<Rightarrow> filter_condition \<Rightarrow> (u64 \<times> metadata) list \<Rightarrow> nat \<Rightarrow> search_result list \<Rightarrow>
   search_result list \<Rightarrow> search_result list"
where
  "keep_matching parse cond store k [] acc = acc"
| "keep_matching parse cond store k (c # cs) acc =
     (case hm_get store (se_id c) of
        None \<Rightarrow> keep_matching parse cond store k cs acc
      | Some m \<Rightarrow>
          if fc_evaluate parse cond m
          then (if length (acc @ [c]) \<ge> k then acc @ [c] else keep_matching parse cond store k cs (acc @ [c]))
          else keep_matching parse cond store k cs acc)"

definition post_filter_search ::
  "'i index_ops \<Rightarrow> f32_ops \<Rightarrow> (string \<Rightarrow> f64 option) \<Rightarrow> f32 list \<Rightarrow> nat \<Rightarrow> filter_condition option \<Rightarrow>
   'i hybrid_engine \<Rightarrow> search_result list res"
where
  "post_filter_search vo fp parse query k f h =
     (case f of
        None \<Rightarrow> do_vector_search vo fp query k h
      | Some cond \<Rightarrow>
          and_then (do_vector_search vo fp query (k * 10) h) (\<lambda>candidates.
            Inr (keep_matching parse cond (he_store h) k candidates [])))"

text \<open>The literal 0.1.\<close>

definition f64_tenth :: f64 where "f64_tenth = 0x3FB999999999999A"

record hybrid_env =
  hv_fp :: f32_ops
  hv_fd :: f64_ops
  hv_parse :: "string \<Rightarrow> f64 option"
  hv_hashes :: query_hashes

definition run_strategy ::
  "'i index_ops \<Rightarrow> hybrid_env \<Rightarrow> f32 list \<Rightarrow> nat \<Rightarrow> filter_condition option \<Rightarrow> search_strategy \<Rightarrow> 'i hybrid_engine \<Rightarrow>
   search_result list res"
where
  "run_strategy vo e query k f strategy h =
     (case strategy of
        PreFilter \<Rightarrow> pre_filter_search vo (hv_fp e) query k f h
      | PostFilter \<Rightarrow> post_filter_search vo (hv_fp e) (hv_parse e) query k f h
      | AutoStrategy \<Rightarrow>
          (case f of
             Some cond \<Rightarrow>
               if f64_less (estimate_selectivity (hv_fd e) (he_metadata_index h) cond) f64_tenth
               then pre_filter_search vo (hv_fp e) query k f h
               else post_filter_search vo (hv_fp e) (hv_parse e) query k f h
           | None \<Rightarrow> do_vector_search vo (hv_fp e) query k h))"

text \<open>\<open>now\<close> is the time of the look into the cache, \<open>later\<close> that of the entry.\<close>

definition hybrid_search ::
  "'i index_ops \<Rightarrow> hybrid_env \<Rightarrow> nat \<Rightarrow> nat \<Rightarrow> f32 list \<Rightarrow> nat \<Rightarrow> filter_condition option \<Rightarrow> search_strategy \<Rightarrow>
   'i hybrid_engine \<Rightarrow> search_result list res \<times> 'i hybrid_engine"
where
  "hybrid_search vo e now later query k f strategy h =
     (let (cached, c) = cache_get (hv_hashes e) now query f k (he_cache h); h1 = h\<lparr>he_cache := c\<rparr>
      in case cached of
           Some rs \<Rightarrow> (Inr rs, h1)
         | None \<Rightarrow>
             (case run_strategy vo e query k f strategy h1 of
                Inl err \<Rightarrow> (Inl err, h1)
              | Inr rs \<Rightarrow> (Inr rs, h1\<lparr>he_cache := cache_put (hv_hashes e) later query f k rs (he_cache h1)\<rparr>)))"

definition hybrid_cache_stats :: "f64_ops \<Rightarrow> 'i hybrid_engine \<Rightarrow> cache_stats" where
  "hybrid_cache_stats fd h = query_cache_stats fd (he_cache h)"

definition hybrid_clear_cache :: "'i hybrid_engine \<Rightarrow> 'i hybrid_engine" where
  "hybrid_clear_cache h = h\<lparr>he_cache := cache_invalidate (he_cache h)\<rparr>"

end
