(* ===== verification/HybridClaims.thy ===== *)
theory HybridClaims
  imports HybridSearch CollectionProps HnswClaims
begin

text \<open>
  Properties of the hybrid search: the inverted index agrees with the stored metadata, so that filtering
  before and after the vector search is the same; what the cache answers after an insertion; and what is
  left of the old metadata when an id is inserted again.
\<close>

subsection \<open>The index and the stored metadata\<close>

definition ids_at :: "metadata_index \<Rightarrow> string \<Rightarrow> string \<Rightarrow> u64 set" where
  "ids_at mi field value =
     (case hm_get (mi_indexes mi) field of
        None \<Rightarrow> {}
      | Some fi \<Rightarrow> (case hm_get fi value of None \<Rightarrow> {} | Some ids \<Rightarrow> ids))"

lemma ids_at_index_field:
  "ids_at (index_field vid (f, v) mi) field value = ids_at mi field value \<union> (if f = field \<and> v = value then {vid} else {})"
  by (auto simp: ids_at_def index_field_def Let_def split: option.split)

lemma ids_at_index:
  "ids_at (index_metadata vid m mi) field value = ids_at mi field value \<union> (if (field, value) \<in> set m then {vid} else {})"
proof (induction m arbitrary: mi)
  case (Cons fv m)
  obtain f v where fv: "fv = (f, v)" by (cases fv)
  show ?case
    using Cons.IH [of "index_field vid fv mi"] by (auto simp: index_metadata_def fv ids_at_index_field)
qed (simp add: index_metadata_def)

text \<open>The ids listed under a value are those whose stored metadata have it.\<close>

definition index_agrees :: "'i hybrid_engine \<Rightarrow> bool" where
  "index_agrees h \<longleftrightarrow>
     (\<forall>field value vid. vid \<in> ids_at (he_metadata_index h) field value \<longleftrightarrow>
        (\<exists>m. hm_get (he_store h) vid = Some m \<and> hm_get m field = Some value))"

text \<open>Runs that insert no id twice.\<close>

inductive hybrid_run :: "'i index_ops \<Rightarrow> hybrid_env \<Rightarrow> 'i hybrid_engine \<Rightarrow> bool" for vo e where
  start: "hybrid_run vo e (hybrid_new index)"
| insert: "hybrid_run vo e h \<Longrightarrow> hm_get (he_store h) vid = None \<Longrightarrow> hm_ok m \<Longrightarrow>
    hybrid_run vo e (snd (hybrid_insert vo level vid v m h))"
| search: "hybrid_run vo e h \<Longrightarrow> hybrid_run vo e (snd (hybrid_search vo e now later query k f strategy h))"
| clear: "hybrid_run vo e h \<Longrightarrow> hybrid_run vo e (hybrid_clear_cache h)"

lemma insert_parts:
  "fst (vo_add vo level vid \<lparr>v_data = v, v_payload = Some []\<rparr> (he_vector_index h)) = Inr () \<Longrightarrow>
     he_metadata_index (snd (hybrid_insert vo level vid v m h)) = index_metadata vid m (he_metadata_index h) \<and>
     he_store (snd (hybrid_insert vo level vid v m h)) = hm_insert vid m (he_store h)"
  "fst (vo_add vo level vid \<lparr>v_data = v, v_payload = Some []\<rparr> (he_vector_index h)) = Inl err \<Longrightarrow>
     he_metadata_index (snd (hybrid_insert vo level vid v m h)) = he_metadata_index h \<and>
     he_store (snd (hybrid_insert vo level vid v m h)) = he_store h"
  by (simp_all add: hybrid_insert_def case_prod_beta)

lemma search_parts [simp]:
  "he_metadata_index (snd (hybrid_search vo e now later query k f strategy h)) = he_metadata_index h"
  "he_store (snd (hybrid_search vo e now later query k f strategy h)) = he_store h"
  "he_vector_index (snd (hybrid_search vo e now later query k f strategy h)) = he_vector_index h"
  by (simp_all add: hybrid_search_def case_prod_beta Let_def split: option.split sum.split)

lemma hybrid_run_agrees: "hybrid_run vo e h \<Longrightarrow> index_agrees h"
proof (induction rule: hybrid_run.induct)
  case (start index)
  show ?case by (simp add: index_agrees_def hybrid_new_def metadata_index_new_def ids_at_def)
next
  case (insert h vid m level v)
  show ?case
  proof (cases "fst (vo_add vo level vid \<lparr>v_data = v, v_payload = Some []\<rparr> (he_vector_index h))")
    case (Inl err)
    then show ?thesis using insert.IH insert_parts(2) unfolding index_agrees_def by metis
  next
    case (Inr u)
    have mem: "(field, w) \<in> set m \<longleftrightarrow> hm_get m field = Some w" for field w
      using insert.hyps(3) by (simp add: hm_get_iff)
    show ?thesis
      unfolding index_agrees_def
      using insert_parts(1) [of vo level vid v h m] Inr insert.IH insert.hyps(2)
      by (auto simp: ids_at_index mem index_agrees_def split: if_splits)
  qed
qed (simp_all add: index_agrees_def hybrid_clear_cache_def)

text \<open>The filters that the index can answer.\<close>

fun indexable :: "filter_condition \<Rightarrow> bool" where
  "indexable (FcEq _ _) = True"
| "indexable (FcIn _ _) = True"
| "indexable (FcAnd l r) = (indexable l \<and> indexable r)"
| "indexable (FcOr l r) = (indexable l \<and> indexable r)"
| "indexable _ = False"

lemma union_of_values:
  "fold (\<lambda>value result. case hm_get fi value of None \<Rightarrow> result | Some ids \<Rightarrow> result \<union> ids) values S =
     S \<union> (\<Union>value \<in> set values. case hm_get fi value of None \<Rightarrow> {} | Some ids \<Rightarrow> ids)"
  by (induction "values" arbitrary: S) (auto split: option.splits)

text \<open>What the index answers for such a filter, an absent answer being the empty set.\<close>

lemma matching_ids_exact:
  assumes agrees: "index_agrees h" and "indexable cond"
  shows "(case get_matching_ids (he_metadata_index h) cond of None \<Rightarrow> {} | Some ids \<Rightarrow> ids) \<subseteq>
      {vid. \<exists>m. hm_get (he_store h) vid = Some m \<and> fc_evaluate parse cond m}"
    and "get_matching_ids (he_metadata_index h) cond = None \<Longrightarrow>
      {vid. \<exists>m. hm_get (he_store h) vid = Some m \<and> fc_evaluate parse cond m} = {}"
    and "get_matching_ids (he_metadata_index h) cond = Some ids \<Longrightarrow>
      ids = {vid. \<exists>m. hm_get (he_store h) vid = Some m \<and> fc_evaluate parse cond m}"
proof -
  let ?S = "\<lambda>c. {vid. \<exists>m. hm_get (he_store h) vid = Some m \<and> fc_evaluate parse c m}"
  have at: "ids_at (he_metadata_index h) field w = ?S (FcEq field w)" for field w
  proof -
    have "fc_evaluate parse (FcEq field w) m \<longleftrightarrow> hm_get m field = Some w" for m by (simp split: option.split)
    then show ?thesis using agrees unfolding index_agrees_def by blast
  qed
  have "(case get_matching_ids (he_metadata_index h) cond of None \<Rightarrow> ?S cond = {} | Some ids \<Rightarrow> ids = ?S cond)"
    using assms(2)
  proof (induction cond)
    case (FcEq field w)
    then show ?case using at [of field w] by (auto simp: ids_at_def split: option.splits)
  next
    case (FcIn field ws)
    have all: "?S (FcIn field ws) = (\<Union>w \<in> set ws. ids_at (he_metadata_index h) field w)"
    proof -
      have eq: "fc_evaluate parse (FcEq field w) m \<longleftrightarrow> hm_get m field = Some w" for m w by (simp split: option.split)
      have mem: "fc_evaluate parse (FcIn field ws) m \<longleftrightarrow> (\<exists>w \<in> set ws. hm_get m field = Some w)" for m
        by (simp split: option.split)
      show ?thesis by (simp only: at eq mem) blast
    qed
    show ?case
      unfolding all by (auto simp: ids_at_def union_of_values split: option.splits)
  next
    case (FcAnd l r)
    have "?S (FcAnd l r) = ?S l \<inter> ?S r" by auto
    with FcAnd show ?case by (auto split: option.splits)
  next
    case (FcOr l r)
    have "?S (FcOr l r) = ?S l \<union> ?S r" by auto
    with FcOr show ?case by (auto split: option.splits)
  qed simp_all
  then show "(case get_matching_ids (he_metadata_index h) cond of None \<Rightarrow> {} | Some ids \<Rightarrow> ids) \<subseteq> ?S cond"
    and "get_matching_ids (he_metadata_index h) cond = None \<Longrightarrow> ?S cond = {}"
    and "get_matching_ids (he_metadata_index h) cond = Some ids \<Longrightarrow> ids = ?S cond"
    by (auto split: option.splits)
qed

subsection \<open>Filtering before and after\<close>

lemma keep_matching_filter:
  "length acc < k \<Longrightarrow> keep_matching parse cond store k cs acc =
     take k (acc @ filter (\<lambda>r. \<exists>m. hm_get store (se_id r) = Some m \<and> fc_evaluate parse cond m) cs)"
proof (induction cs arbitrary: acc)
  case (Cons c cs)
  show ?case
  proof (cases "\<exists>m. hm_get store (se_id c) = Some m \<and> fc_evaluate parse cond m")
    case True
    then obtain m where m: "hm_get store (se_id c) = Some m" "fc_evaluate parse cond m" by blast
    show ?thesis
    proof (cases "length (acc @ [c]) \<ge> k")
      case True
      then have "k = Suc (length acc)" using Cons.prems by simp
      then show ?thesis using m by simp
    next
      case False
      then show ?thesis using m Cons.IH [of "acc @ [c]"] by simp
    qed
  next
    case False
    then show ?thesis using Cons by (auto split: option.splits)
  qed
qed simp

context vector_index
begin

text \<open>Over an index that keeps to the limit of a search, the two strategies agree.\<close>

lemma strategies_agree:
  assumes "index_agrees h" "indexable cond"
    and ids: "get_matching_ids (he_metadata_index h) cond = Some ids"
  shows "pre_filter_search (total_ops add search) fp query k (Some cond) h =
    post_filter_search (total_ops add search) fp parse query k (Some cond) h"
proof -
  have exact: "ids = {vid. \<exists>m. hm_get (he_store h) vid = Some m \<and> fc_evaluate parse cond m}"
    by (rule matching_ids_exact(3) [OF assms])
  define rs where "rs = map (\<lambda>s. \<lparr>se_id = sv_id s, se_distance = fp_sub fp f32_one (sv_score s), se_vector = None\<rparr>)
    (search (search_request_new query (k * 10)) (he_vector_index h))"
  have found: "do_vector_search (total_ops add search) fp query (k * 10) h = Inr rs"
    by (simp add: do_vector_search_def total_ops_def rs_def)
  have "length rs \<le> k * 10"
    using search_limit [of "search_request_new query (k * 10)" "he_vector_index h"]
    by (simp add: rs_def search_request_new_def)
  then have "keep_matching parse cond (he_store h) k rs [] = take k (filter (\<lambda>r. se_id r \<in> ids) rs)"
    using keep_matching_filter [of "[]" k parse cond "he_store h" rs] by (cases "k = 0") (simp_all add: exact)
  then show ?thesis
    by (simp add: pre_filter_search_def post_filter_search_def found ids)
qed

end

text \<open>
  C33.  Over the graph index, in every run that inserts no id twice: for a filter of equalities, memberships,
  conjunctions and disjunctions that the index can answer, filtering before the vector search gives exactly
  the results of filtering after it, in the same order.
\<close>

theorem pre_filter_equals_post_filter:
  assumes "hybrid_run (hnsw_ops (hv_fp e)) e h" "indexable cond"
    and "get_matching_ids (he_metadata_index h) cond = Some ids"
  shows "pre_filter_search (hnsw_ops (hv_fp e)) (hv_fp e) query k (Some cond) h =
    post_filter_search (hnsw_ops (hv_fp e)) (hv_fp e) (hv_parse e) query k (Some cond) h"
  unfolding hnsw_ops_def by (rule hx.strategies_agree [OF hybrid_run_agrees [OF assms(1)] assms(2,3)])

subsection \<open>The cache\<close>

lemma insert_keeps_cache [simp]: "he_cache (snd (hybrid_insert vo level vid v m h)) = he_cache h"
  by (simp add: hybrid_insert_def case_prod_beta Let_def split: sum.split)

lemma insert_all_keeps_cache:
  "he_cache (fold (\<lambda>(level, vid, v, m) h. snd (hybrid_insert vo level vid v m h)) items h) = he_cache h"
  by (induction items arbitrary: h) auto

text \<open>
  Whatever is inserted after a search that was not answered from the cache: the same search within the
  cache's time gives the old results.
\<close>

theorem cached_search_ignores_inserts:
  assumes miss: "fst (cache_get (hv_hashes e) now query f k (he_cache h)) = None"
    and first: "hybrid_search vo e now later query k f strategy h = (Inr rs, h1)"
    and time: "now2 \<le> later + qc_default_ttl (he_cache h)"
  shows "fst (hybrid_search vo e now2 later2 query k f strategy2
      (fold (\<lambda>(level, vid, v, m) h. snd (hybrid_insert vo level vid v m h)) items h1)) = Inr rs"
proof -
  obtain c where c: "cache_get (hv_hashes e) now query f k (he_cache h) = (None, c)"
    using miss by (cases "cache_get (hv_hashes e) now query f k (he_cache h)") simp
  have ttl: "qc_default_ttl c = qc_default_ttl (he_cache h)"
    using c by (auto simp: cache_get_def Let_def split: option.splits if_splits)
  obtain rs' where "run_strategy vo e query k f strategy (h\<lparr>he_cache := c\<rparr>) = Inr rs'"
    using first by (cases "run_strategy vo e query k f strategy (h\<lparr>he_cache := c\<rparr>)") (auto simp: hybrid_search_def c)
  then have h1: "he_cache h1 = cache_put (hv_hashes e) later query f k rs c"
    using first by (auto simp: hybrid_search_def c)
  have "now2 - later \<le> qc_default_ttl c" using time ttl by simp
  then have "fst (cache_get (hv_hashes e) now2 query f k (cache_put (hv_hashes e) later query f k rs c)) = Some rs"
    by (simp add: cache_get_def cache_put_def cache_expired_def Let_def)
  then show ?thesis
    by (simp add: hybrid_search_def insert_all_keeps_cache h1 case_prod_beta Let_def)
qed

text \<open>
  An id that is inserted again with another value of a field stays listed under its old value: filtering
  before the search returns it for both, filtering after the search only for the new one.
\<close>

theorem old_value_stays_indexed:
  assumes "v1 \<noteq> v2"
    and "fst (vo_add vo l1 vid \<lparr>v_data = x1, v_payload = Some []\<rparr> (he_vector_index h)) = Inr ()"
    and h1: "h1 = snd (hybrid_insert vo l1 vid x1 [(field, v1)] h)"
    and "fst (vo_add vo l2 vid \<lparr>v_data = x2, v_payload = Some []\<rparr> (he_vector_index h1)) = Inr ()"
    and h2: "h2 = snd (hybrid_insert vo l2 vid x2 [(field, v2)] h1)"
  shows "(\<exists>ids. get_matching_ids (he_metadata_index h2) (FcEq field v1) = Some ids \<and> vid \<in> ids) \<and>
    hm_get (he_store h2) vid = Some [(field, v2)] \<and> \<not> fc_evaluate parse (FcEq field v1) [(field, v2)]"
proof -
  have "he_metadata_index h1 = index_metadata vid [(field, v1)] (he_metadata_index h)"
    using insert_parts(1) [OF assms(2)] by (simp add: h1)
  moreover have "he_metadata_index h2 = index_metadata vid [(field, v2)] (he_metadata_index h1)"
    and store: "he_store h2 = hm_insert vid [(field, v2)] (he_store h1)"
    using insert_parts(1) [OF assms(4)] by (simp_all add: h2)
  ultimately have "vid \<in> ids_at (he_metadata_index h2) field v1" by (simp add: ids_at_index)
  then show ?thesis
    using assms(1) by (auto simp: ids_at_def store hm_get_def [of "[_]"] split: option.splits)
qed

text \<open>A disjunction with a side that the index cannot answer loses the vectors of that side.\<close>

theorem disjunction_drops_unindexed_side:
  assumes "get_matching_ids mi r = None"
  shows "get_matching_ids mi (FcOr l r) = Some (case get_matching_ids mi l of None \<Rightarrow> {} | Some ids \<Rightarrow> ids)"
  using assms by simp

subsection \<open>Witnesses\<close>

text \<open>An engine over an empty graph, and the same with one vector and its metadata.\<close>

definition indexed_vector :: "f32_ops \<Rightarrow> hnsw hybrid_engine" where
  "indexed_vector fp = snd (hybrid_insert (hnsw_ops fp) 0 1 [5] [(''kind'', ''fruit'')] (hybrid_new empty_index))"

lemma hnsw_ops_add: "fst (vo_add (hnsw_ops fp) level vid v i) = Inr ()"
  by (simp add: hnsw_ops_def total_ops_def)

lemma indexed_vector_run: "hybrid_run (hnsw_ops (hv_fp e)) e (indexed_vector (hv_fp e))"
  unfolding indexed_vector_def by (rule hybrid_run.insert [OF hybrid_run.start]) (simp_all add: hybrid_new_def hm_ok_def)

lemma indexed_vector_ids:
  "get_matching_ids (he_metadata_index (indexed_vector fp)) (FcEq ''kind'' ''fruit'') = Some {1}"
  using insert_parts(1) [OF hnsw_ops_add]
  by (simp add: indexed_vector_def hybrid_new_def metadata_index_new_def index_metadata_def index_field_def hm_get_def)

theorem pre_filter_equals_post_filter_witness:
  "\<forall>e :: hybrid_env. get_matching_ids (he_metadata_index (indexed_vector (hv_fp e))) (FcEq ''kind'' ''fruit'') = Some {1} \<and>
     pre_filter_search (hnsw_ops (hv_fp e)) (hv_fp e) [7] 3 (Some (FcEq ''kind'' ''fruit'')) (indexed_vector (hv_fp e)) =
     post_filter_search (hnsw_ops (hv_fp e)) (hv_fp e) (hv_parse e) [7] 3 (Some (FcEq ''kind'' ''fruit'')) (indexed_vector (hv_fp e))"
  using pre_filter_equals_post_filter [OF indexed_vector_run _ indexed_vector_ids] indexed_vector_ids by simp

lemma empty_search: "hnsw_search fp rq empty_index = []"
  by (simp add: hnsw_search_def empty_index_def hnsw_new_def)

theorem cached_search_ignores_inserts_witness:
  "\<forall>e :: hybrid_env. \<exists>h1. hybrid_search (hnsw_ops (hv_fp e)) e 0 1 [5] 3 None AutoStrategy (hybrid_new empty_index) = (Inr [], h1) \<and>
     fst (hybrid_search (hnsw_ops (hv_fp e)) e 2 2 [5] 3 None AutoStrategy
       (snd (hybrid_insert (hnsw_ops (hv_fp e)) 0 1 [5] [] h1))) = Inr []"
proof (intro allI)
  fix e :: hybrid_env
  let ?h = "hybrid_new empty_index"
  have miss: "fst (cache_get (hv_hashes e) 0 [5] None 3 (he_cache ?h)) = None"
    by (simp add: hybrid_new_def query_cache_new_def cache_get_def Let_def)
  obtain h1 where first: "hybrid_search (hnsw_ops (hv_fp e)) e 0 1 [5] 3 None AutoStrategy ?h = (Inr [], h1)"
    using empty_search
    by (simp add: hybrid_search_def hybrid_new_def query_cache_new_def cache_get_def Let_def run_strategy_def
        do_vector_search_def hnsw_ops_def total_ops_def)
  have "2 \<le> 1 + qc_default_ttl (he_cache ?h)" by (simp add: hybrid_new_def query_cache_new_def secs_def)
  from cached_search_ignores_inserts [OF miss first this, of 2 AutoStrategy "[(0, 1, [5], [])]"] first
  show "\<exists>h1. hybrid_search (hnsw_ops (hv_fp e)) e 0 1 [5] 3 None AutoStrategy ?h = (Inr [], h1) \<and>
     fst (hybrid_search (hnsw_ops (hv_fp e)) e 2 2 [5] 3 None AutoStrategy
       (snd (hybrid_insert (hnsw_ops (hv_fp e)) 0 1 [5] [] h1))) = Inr []"
    by auto
qed

theorem old_value_stays_indexed_witness:
  "\<forall>fp. \<exists>ids. get_matching_ids (he_metadata_index (snd (hybrid_insert (hnsw_ops fp) 0 1 [5] [(''kind'', ''stone'')] (indexed_vector fp))))
       (FcEq ''kind'' ''fruit'') = Some ids \<and> 1 \<in> ids"
  using old_value_stays_indexed [OF _ hnsw_ops_add indexed_vector_def hnsw_ops_add refl, of "''stone''"] by simp

theorem disjunction_drops_unindexed_side_witness:
  "get_matching_ids (he_metadata_index (indexed_vector bits_fp)) (FcOr (FcEq ''kind'' ''fruit'') (FcGt ''price'' 0)) = Some {1}"
proof -
  have "get_matching_ids (he_metadata_index (indexed_vector bits_fp)) (FcGt ''price'' 0) = None" by simp
  from disjunction_drops_unindexed_side [OF this, of "FcEq ''kind'' ''fruit''"] show ?thesis
    by (simp only: indexed_vector_ids option.case)
qed

end
