(* ===== verification/MigrationValidation.thy ===== *)
theory MigrationValidation
  imports Validation
begin

text \<open>
  Validation of the records of a data migration, \<open>src/src/migration/validation.rs\<close>, with the record and
  configuration types it reads from \<open>src/src/migration/mod.rs\<close>.

  The errors of one check differ only in their texts, so the order in which a hash map is walked does not
  show.  The text of the metadata is an argument of which the code reads the length; warnings are left out.
\<close>

unbundle bit_operations_syntax

subsection \<open>Records and configuration\<close>

record vector_record =
  vr_id :: string
  vr_vector :: "f32 list"
  vr_metadata :: "(string \<times> json) list"

record validation_config =
  vc_validate_vectors :: bool
  vc_validate_metadata :: bool
  vc_check_duplicates :: bool
  vc_vector_dimension :: "nat option"
  vc_required_fields :: "string list"

definition validation_config_default :: validation_config where
  "validation_config_default =
     \<lparr>vc_validate_vectors = True, vc_validate_metadata = True, vc_check_duplicates = False,
      vc_vector_dimension = None, vc_required_fields = []\<rparr>"

subsection \<open>Records\<close>

definition validate_vector :: "f32 list \<Rightarrow> nat option \<Rightarrow> unit res" where
  "validate_vector v expected =
     (if v = [] then Inl EValidation
      else if (case expected of None \<Rightarrow> False | Some dim \<Rightarrow> length v \<noteq> dim) then Inl EValidation
      else if \<not> list_all f32_is_finite v then Inl EValidation
      else Inr ())"

definition is_letter :: "char \<Rightarrow> bool" where
  "is_letter c \<longleftrightarrow>
     (let n = of_char c :: nat in (65 \<le> n \<and> n \<le> 90) \<or> (97 \<le> n \<and> n \<le> 122))"

definition is_ascii_digit :: "char \<Rightarrow> bool" where
  "is_ascii_digit c \<longleftrightarrow> (let n = of_char c :: nat in 48 \<le> n \<and> n \<le> 57)"

text \<open>The expression \<open>^[a-zA-Z_][a-zA-Z0-9_]*$\<close>.\<close>

definition field_name_ok :: "string \<Rightarrow> bool" where
  "field_name_ok s =
     (case s of
        [] \<Rightarrow> False
      | c # cs \<Rightarrow>
          (is_letter c \<or> c = CHR ''_'') \<and> list_all (\<lambda>d. is_letter d \<or> is_ascii_digit d \<or> d = CHR ''_'') cs)"

definition validate_metadata_value :: "json \<Rightarrow> unit res" where
  "validate_metadata_value v =
     (case v of
        JString s \<Rightarrow> if 10000 < length s then Inl EValidation else Inr ()
      | JArray arr \<Rightarrow> if 1000 < length arr then Inl EValidation else Inr ()
      | JObject obj \<Rightarrow> if 100 < length obj then Inl EValidation else Inr ()
      | _ \<Rightarrow> Inr ())"

definition validate_metadata :: "((string \<times> json) list \<Rightarrow> string option) \<Rightarrow> (string \<times> json) list \<Rightarrow> string list \<Rightarrow> unit res" where
  "validate_metadata to_text m required =
     (if list_ex (\<lambda>field. hm_get m field = None) required then Inl EValidation
      else if \<not> list_all (\<lambda>(name, _). field_name_ok name) m then Inl EValidation
      else if 1024 * 1024 < (case to_text m of None \<Rightarrow> 0 | Some s \<Rightarrow> length s) then Inl EValidation
      else if list_ex (\<lambda>(_, v). validate_metadata_value v \<noteq> Inr ()) m then Inl EValidation
      else Inr ())"

text \<open>The last character refused is the one with code 0.\<close>

definition invalid_id_chars :: string where
  "invalid_id_chars =
     [CHR ''/'', CHR 0x5C, CHR ''?'', CHR ''%'', CHR ''*'', CHR '':'', CHR ''|'', CHR 0x22, CHR ''<'', CHR ''>'', CHR 0x00]"

definition validate_id :: "string \<Rightarrow> unit res" where
  "validate_id i =
     (if i = [] then Inl EValidation
      else if 255 < length i then Inl EValidation
      else if list_ex (\<lambda>c. c \<in> set i) invalid_id_chars then Inl EValidation
      else Inr ())"

definition validate_record ::
  "((string \<times> json) list \<Rightarrow> string option) \<Rightarrow> validation_config \<Rightarrow> vector_record \<Rightarrow> unit res"
where
  "validate_record to_text config r =
     and_then (if vc_validate_vectors config then validate_vector (vr_vector r) (vc_vector_dimension config) else Inr ())
       (\<lambda>_. and_then
          (if vc_validate_metadata config
           then validate_metadata to_text (vr_metadata r) (vc_required_fields config) else Inr ())
          (\<lambda>_. validate_id (vr_id r)))"

subsection \<open>Batches\<close>

record duplicate_checker =
  dc_seen_ids :: "string set"
  dc_max_ids :: nat

definition duplicate_checker_new :: duplicate_checker where
  "duplicate_checker_new = \<lparr>dc_seen_ids = {}, dc_max_ids = 1000000\<rparr>"

definition is_duplicate :: "duplicate_checker \<Rightarrow> string \<Rightarrow> bool" where
  "is_duplicate d i \<longleftrightarrow> i \<in> dc_seen_ids d"

definition add_id :: "string \<Rightarrow> duplicate_checker \<Rightarrow> duplicate_checker" where
  "add_id i d =
     (if card (dc_seen_ids d) < dc_max_ids d then d\<lparr>dc_seen_ids := insert i (dc_seen_ids d)\<rparr> else d)"

definition duplicate_checker_clear :: "duplicate_checker \<Rightarrow> duplicate_checker" where
  "duplicate_checker_clear d = d\<lparr>dc_seen_ids := {}\<rparr>"

record validation_stats =
  vs_total_processed :: u64
  vs_valid_count :: u64
  vs_invalid_count :: u64
  vs_duplicate_count :: u64

definition validation_stats_new :: validation_stats where
  "validation_stats_new =
     \<lparr>vs_total_processed = 0, vs_valid_count = 0, vs_invalid_count = 0, vs_duplicate_count = 0\<rparr>"

text \<open>The literal 100.\<close>

definition f64_hundred :: f64 where "f64_hundred = 0x4059000000000000"

definition rate_of :: "f64_ops \<Rightarrow> u64 \<Rightarrow> u64 \<Rightarrow> f64" where
  "rate_of fd part whole =
     (if 0 < whole then fd_mul fd (fd_div fd (f64_of_nat (unat part)) (f64_of_nat (unat whole))) f64_hundred else 0)"

definition vs_success_rate :: "f64_ops \<Rightarrow> validation_stats \<Rightarrow> f64" where
  "vs_success_rate fd s = rate_of fd (vs_valid_count s) (vs_total_processed s)"

definition vs_error_rate :: "f64_ops \<Rightarrow> validation_stats \<Rightarrow> f64" where
  "vs_error_rate fd s = rate_of fd (vs_invalid_count s) (vs_total_processed s)"

definition vs_duplicate_rate :: "f64_ops \<Rightarrow> validation_stats \<Rightarrow> f64" where
  "vs_duplicate_rate fd s = rate_of fd (vs_duplicate_count s) (vs_total_processed s)"

text \<open>An invalid record carries its error, whose text is left out.\<close>

record invalid_record =
  ir_record :: vector_record
  ir_error :: rtdb_error

record validation_result =
  vt_valid_records :: "vector_record list"
  vt_invalid_records :: "invalid_record list"
  vt_duplicate_records :: "vector_record list"
  vt_stats :: validation_stats

record batch_validator =
  bv_config :: validation_config
  bv_duplicate_checker :: "duplicate_checker option"
  bv_stats :: validation_stats

definition batch_validator_new :: "validation_config \<Rightarrow> batch_validator" where
  "batch_validator_new config =
     \<lparr>bv_config = config,
      bv_duplicate_checker = (if vc_check_duplicates config then Some duplicate_checker_new else None),
      bv_stats = validation_stats_new\<rparr>"

definition validate_one ::
  "((string \<times> json) list \<Rightarrow> string option) \<Rightarrow> vector_record \<Rightarrow> validation_result \<times> batch_validator \<Rightarrow>
     validation_result \<times> batch_validator"
where
  "validate_one to_text r acc =
     (case acc of (out, bv) \<Rightarrow>
        (if (case bv_duplicate_checker bv of None \<Rightarrow> False | Some d \<Rightarrow> is_duplicate d (vr_id r))
         then (out\<lparr>vt_duplicate_records := vt_duplicate_records out @ [r]\<rparr>,
               bv\<lparr>bv_stats := (bv_stats bv)\<lparr>vs_duplicate_count := vs_duplicate_count (bv_stats bv) + 1\<rparr>\<rparr>)
         else
           (let bv' = bv\<lparr>bv_duplicate_checker := map_option (add_id (vr_id r)) (bv_duplicate_checker bv)\<rparr>
            in case validate_record to_text (bv_config bv') r of
                 Inr _ \<Rightarrow>
                   (out\<lparr>vt_valid_records := vt_valid_records out @ [r]\<rparr>,
                    bv'\<lparr>bv_stats := (bv_stats bv')\<lparr>vs_valid_count := vs_valid_count (bv_stats bv') + 1\<rparr>\<rparr>)
               | Inl e \<Rightarrow>
                   (out\<lparr>vt_invalid_records := vt_invalid_records out @ [\<lparr>ir_record = r, ir_error = e\<rparr>]\<rparr>,
                    bv'\<lparr>bv_stats := (bv_stats bv')\<lparr>vs_invalid_count := vs_invalid_count (bv_stats bv') + 1\<rparr>\<rparr>))))"

definition validate_batch ::
  "((string \<times> json) list \<Rightarrow> string option) \<Rightarrow> vector_record list \<Rightarrow> batch_validator \<Rightarrow>
     validation_result res \<times> batch_validator"
where
  "validate_batch to_text records bv =
     (case fold (validate_one to_text) records
             (\<lparr>vt_valid_records = [], vt_invalid_records = [], vt_duplicate_records = [],
               vt_stats = validation_stats_new\<rparr>, bv) of
        (out, bv') \<Rightarrow>
          (let bv'' = bv'\<lparr>bv_stats := (bv_stats bv')\<lparr>vs_total_processed := vs_total_processed (bv_stats bv') + u64_len records\<rparr>\<rparr>
           in (Inr (out\<lparr>vt_stats := bv_stats bv''\<rparr>), bv'')))"

definition bv_get_stats :: "batch_validator \<Rightarrow> validation_stats" where
  "bv_get_stats bv = bv_stats bv"

definition bv_reset_stats :: "batch_validator \<Rightarrow> batch_validator" where
  "bv_reset_stats bv =
     bv\<lparr>bv_stats := validation_stats_new,
        bv_duplicate_checker := map_option duplicate_checker_clear (bv_duplicate_checker bv)\<rparr>"

subsection \<open>Schemas\<close>

datatype field_type = FtString | FtNumber | FtBoolean | FtArray | FtObject

record schema_validator =
  sv_expected_fields :: "string set"
  sv_field_types :: "(string \<times> field_type) list"
  sv_strict_mode :: bool

definition schema_validator_new :: "bool \<Rightarrow> schema_validator" where
  "schema_validator_new strict = \<lparr>sv_expected_fields = {}, sv_field_types = [], sv_strict_mode = strict\<rparr>"

definition add_field :: "string \<Rightarrow> field_type \<Rightarrow> schema_validator \<Rightarrow> schema_validator" where
  "add_field name t s =
     s\<lparr>sv_expected_fields := insert name (sv_expected_fields s),
       sv_field_types := hm_insert name t (sv_field_types s)\<rparr>"

definition get_value_type :: "json \<Rightarrow> field_type" where
  "get_value_type v =
     (case v of
        JString _ \<Rightarrow> FtString
      | JNumber _ \<Rightarrow> FtNumber
      | JBool _ \<Rightarrow> FtBoolean
      | JArray _ \<Rightarrow> FtArray
      | JObject _ \<Rightarrow> FtObject
      | JNull \<Rightarrow> FtString)"

definition validate_schema :: "schema_validator \<Rightarrow> vector_record \<Rightarrow> unit res" where
  "validate_schema s r =
     (if \<exists>field \<in> sv_expected_fields s. hm_get (vr_metadata r) field = None then Inl EValidation
      else if list_ex (\<lambda>(name, v).
                case hm_get (sv_field_types s) name of
                  Some t \<Rightarrow> get_value_type v \<noteq> t
                | None \<Rightarrow> sv_strict_mode s) (vr_metadata r)
      then Inl EValidation
      else Inr ())"

end
