(* ===== verification/MigrationClients.thy ===== *)
theory MigrationClients
  imports MigrationValidation Wal Filters
begin

text \<open>
  The clients of a data migration, \<open>src/src/migration/clients.rs\<close>: the sources that read records page by
  page, and the target that writes them to a server; with the configuration of a migration, from
  \<open>src/src/migration/mod.rs\<close>.

  The network has a state \<open>'h\<close>, and sending a request is an argument, as are the files and what is parsed
  from them.  A record batch of Arrow is its columns.  An operation yields \<open>None\<close> when it panics.
\<close>

unbundle bit_operations_syntax

subsection \<open>Configuration\<close>

type_synonym migration_uuid = "128 word"

datatype source_type =
  StQdrant | StMilvus | StWeaviate | StPinecone | StLanceDB | StJsonl | StParquet | StHdf5 | StCsv | StBinary

definition source_type_text :: "source_type \<Rightarrow> string" where
  "source_type_text t =
     (case t of
        StQdrant \<Rightarrow> ''Qdrant''
      | StMilvus \<Rightarrow> ''Milvus''
      | StWeaviate \<Rightarrow> ''Weaviate''
      | StPinecone \<Rightarrow> ''Pinecone''
      | StLanceDB \<Rightarrow> ''LanceDB''
      | StJsonl \<Rightarrow> ''JSONL''
      | StParquet \<Rightarrow> ''Parquet''
      | StHdf5 \<Rightarrow> ''HDF5''
      | StCsv \<Rightarrow> ''CSV''
      | StBinary \<Rightarrow> ''Binary'')"

datatype migration_strategy = MsStream | MsDualWrite | MsBlueGreen | MsSnapshot

datatype client_auth =
    CaApiKey string
  | CaBearer string
  | CaBasic string string
  | CaHeaders "(string \<times> string) list"

datatype conversion_type = CvStringToNumber | CvNumberToString | CvArrayToString | CvStringToArray

datatype record_condition = RcExists | RcNotNull | RcMinLength nat | RcMaxLength nat | RcRegex string

datatype transformation_rule =
    TrDimensionReduction nat nat string
  | TrMetadataFilter string
  | TrFieldRename string string
  | TrFieldMap string "(string \<times> string) list"
  | TrFieldConvert string conversion_type
  | TrFieldFilter string record_condition

record migration_config =
  mc_id :: migration_uuid
  mc_source_type :: source_type
  mc_source_url :: string
  mc_target_url :: string
  mc_source_collection :: "string option"
  mc_target_collection :: string
  mc_batch_size :: nat
  mc_max_concurrency :: nat
  mc_dry_run :: bool
  mc_resume :: bool
  mc_checkpoint_dir :: string
  mc_strategy :: migration_strategy
  mc_source_auth :: "client_auth option"
  mc_target_auth :: "client_auth option"
  mc_transformations :: "transformation_rule list"
  mc_validation :: validation_config

definition migration_config_default :: "migration_uuid \<Rightarrow> migration_config" where
  "migration_config_default uuid =
     \<lparr>mc_id = uuid, mc_source_type = StQdrant, mc_source_url = [], mc_target_url = ''http://localhost:6333'',
      mc_source_collection = None, mc_target_collection = ''migrated_collection'', mc_batch_size = 1000,
      mc_max_concurrency = 4, mc_dry_run = False, mc_resume = False, mc_checkpoint_dir = ''./checkpoints'',
      mc_strategy = MsStream, mc_source_auth = None, mc_target_auth = None, mc_transformations = [],
      mc_validation = validation_config_default\<rparr>"

subsection \<open>The interface of sources and targets\<close>

record target_info =
  ci_name :: string
  ci_dimension :: nat
  ci_vector_count :: u64
  ci_distance_metric :: string

record ('s, 'h) source_ops =
  so_count :: "'s \<Rightarrow> 'h \<Rightarrow> u64 option res \<times> 'h"
  so_fetch :: "u64 \<Rightarrow> nat \<Rightarrow> 's \<Rightarrow> 'h \<Rightarrow> (vector_record list res \<times> 's \<times> 'h) option"

record 'h target_ops =
  to_insert :: "vector_record list \<Rightarrow> 'h \<Rightarrow> unit res \<times> 'h"
  to_ensure :: "string \<Rightarrow> nat \<Rightarrow> 'h \<Rightarrow> unit res \<times> 'h"
  to_info :: "string \<Rightarrow> 'h \<Rightarrow> (target_info option res \<times> 'h) option"
  to_count :: "'h \<Rightarrow> u64 option res \<times> 'h"
  to_fetch :: "u64 \<Rightarrow> nat \<Rightarrow> 'h \<Rightarrow> vector_record list res \<times> 'h"

subsection \<open>Requests and files\<close>

datatype request_method = RqGet | RqPost | RqPut

record client_request =
  cq_method :: request_method
  cq_url :: string
  cq_headers :: "(string \<times> string) list"
  cq_body :: "json option"

text \<open>A reply has a status and a body, if that can be parsed.\<close>

datatype client_reply = NoReply | Reply nat "json option"

datatype arrow_list = AlFloat32 "f32 list" | AlOther

text \<open>The values of a column; a string with the flag that it is null.\<close>

datatype arrow_column = AcString "(string \<times> bool) list" | AcList "arrow_list list" | AcOther

record arrow_batch =
  ab_rows :: nat
  ab_columns :: "(string \<times> arrow_column) list"

text \<open>
  What the clients use of the outside: the network, the names and values of headers and base64; the lines
  of a text file, each \<open>None\<close> if it is not UTF-8 text; a Parquet file, its number of rows and the items of
  the stream over it, \<open>None\<close> where reading fails; the size of a path; the parser of \<open>serde_json\<close>, and the
  conversions between floats.
\<close>

record 'h client_env =
  cv_send :: "client_request \<Rightarrow> 'h \<Rightarrow> client_reply \<times> 'h"
  cv_header_name :: "string \<Rightarrow> string option"
  cv_header_value :: "string \<Rightarrow> bool"
  cv_base64 :: "string \<Rightarrow> string"
  cv_lines :: "string \<Rightarrow> string option list option"
  cv_parquet :: "string \<Rightarrow> (u64 \<times> arrow_batch option list) option"
  cv_path_size :: "string \<Rightarrow> u64 res option"
  cv_json :: "string \<Rightarrow> json option"
  cv_metadata :: "string \<Rightarrow> (string \<times> json) list option"
  cv_narrow :: "f64 \<Rightarrow> f32"
  cv_widen :: "f32 \<Rightarrow> f64"

record http_client =
  hc_headers :: "(string \<times> string) list"
  hc_base_url :: string

definition add_header :: "'h client_env \<Rightarrow> string \<Rightarrow> string \<Rightarrow> (string \<times> string) list \<Rightarrow> (string \<times> string) list res" where
  "add_header e name v headers =
     (if cv_header_value e v then Inr (hm_insert name v headers) else Inl EConfig)"

fun custom_headers :: "'h client_env \<Rightarrow> (string \<times> string) list \<Rightarrow> (string \<times> string) list \<Rightarrow> (string \<times> string) list res" where
  "custom_headers e [] headers = Inr headers"
| "custom_headers e ((key, v) # rest) headers =
     and_then (ok_or (cv_header_name e key) EConfig)
       (\<lambda>name. and_then (add_header e name v headers) (custom_headers e rest))"

text \<open>The headers of a client; how an API key is sent differs between clients, the rest does not.\<close>

definition auth_headers ::
  "'h client_env \<Rightarrow> string \<Rightarrow> string \<Rightarrow> client_auth option \<Rightarrow> (string \<times> string) list res"
where
  "auth_headers e key_header key_prefix auth =
     (case auth of
        None \<Rightarrow> Inr []
      | Some (CaApiKey k) \<Rightarrow> add_header e key_header (key_prefix @ k) []
      | Some (CaBearer token) \<Rightarrow> add_header e ''authorization'' (''Bearer '' @ token) []
      | Some (CaBasic username password) \<Rightarrow>
          add_header e ''authorization'' (''Basic '' @ cv_base64 e (username @ '':'' @ password)) []
      | Some (CaHeaders hs) \<Rightarrow> custom_headers e hs [])"

definition trim_end_slashes :: "string \<Rightarrow> string" where
  "trim_end_slashes s = rev (dropWhile (\<lambda>c. c = CHR ''/'') (rev s))"

text \<open>White space of ASCII, the only white space in a text of one-byte characters.\<close>

definition trim_text :: "string \<Rightarrow> string" where
  "trim_text s =
     (let blank = (\<lambda>c. (of_char c :: nat) \<in> {9, 10, 11, 12, 13, 32})
      in rev (dropWhile blank (rev (dropWhile blank s))))"

definition http_get :: "http_client \<Rightarrow> string \<Rightarrow> client_request" where
  "http_get c url = \<lparr>cq_method = RqGet, cq_url = url, cq_headers = hc_headers c, cq_body = None\<rparr>"

definition http_post :: "http_client \<Rightarrow> string \<Rightarrow> json \<Rightarrow> client_request" where
  "http_post c url body = \<lparr>cq_method = RqPost, cq_url = url, cq_headers = hc_headers c, cq_body = Some body\<rparr>"

definition http_put :: "http_client \<Rightarrow> string \<Rightarrow> json \<Rightarrow> client_request" where
  "http_put c url body = \<lparr>cq_method = RqPut, cq_url = url, cq_headers = hc_headers c, cq_body = Some body\<rparr>"

definition is_success :: "nat \<Rightarrow> bool" where
  "is_success status \<longleftrightarrow> 200 \<le> status \<and> status < 300"

text \<open>Send a request, and read the JSON of the reply if the status is one of success.\<close>

definition http_json :: "'h client_env \<Rightarrow> client_request \<Rightarrow> 'h \<Rightarrow> json res \<times> 'h" where
  "http_json e rq h =
     (case cv_send e rq h of
        (NoReply, h') \<Rightarrow> (Inl ENetwork, h')
      | (Reply status body, h') \<Rightarrow>
          (if is_success status then ok_or body ESerialization else Inl ENetwork, h'))"

subsection \<open>Reading JSON\<close>

text \<open>\<open>v[key]\<close> and \<open>v[i]\<close>, null where there is no such member.\<close>

definition json_at :: "json \<Rightarrow> string \<Rightarrow> json" where
  "json_at v key = (case json_get v key of None \<Rightarrow> JNull | Some w \<Rightarrow> w)"

definition json_nth :: "json \<Rightarrow> nat \<Rightarrow> json" where
  "json_nth v i = (case v of JArray xs \<Rightarrow> if i < length xs then xs ! i else JNull | _ \<Rightarrow> JNull)"

definition json_as_u64 :: "json \<Rightarrow> u64 option" where
  "json_as_u64 v = (case v of JNumber (NPos u) \<Rightarrow> Some u | _ \<Rightarrow> None)"

definition json_as_f64 :: "json \<Rightarrow> f64 option" where
  "json_as_f64 v = (case v of JNumber n \<Rightarrow> number_as_f64 n | _ \<Rightarrow> None)"

definition json_as_array :: "json \<Rightarrow> json list option" where
  "json_as_array v = (case v of JArray xs \<Rightarrow> Some xs | _ \<Rightarrow> None)"

definition json_as_object :: "json \<Rightarrow> (string \<times> json) list option" where
  "json_as_object v = (case v of JObject m \<Rightarrow> Some m | _ \<Rightarrow> None)"

definition int_text :: "int \<Rightarrow> string" where
  "int_text i = (if i < 0 then ''-'' @ decimal (nat (- i)) else decimal (nat i))"

definition components :: "'h client_env \<Rightarrow> json list \<Rightarrow> f32 list" where
  "components e vs = map (\<lambda>v. cv_narrow e (case json_as_f64 v of None \<Rightarrow> 0 | Some x \<Rightarrow> x)) vs"

fun first_key :: "(string \<times> json) list \<Rightarrow> string list \<Rightarrow> json option" where
  "first_key obj [] = None"
| "first_key obj (k # ks) = (case hm_get obj k of None \<Rightarrow> first_key obj ks | Some v \<Rightarrow> Some v)"

definition id_text :: "json \<Rightarrow> string option" where
  "id_text v =
     (case json_as_str v of Some s \<Rightarrow> Some s | None \<Rightarrow> map_option int_text (json_as_i64 v))"

text \<open>A record from the members of an object: its id, its vector, and the other members as metadata.\<close>

definition record_of_object ::
  "'h client_env \<Rightarrow> (json \<Rightarrow> string option) \<Rightarrow> string list \<Rightarrow> string list \<Rightarrow> (string \<times> json) list \<Rightarrow> vector_record"
where
  "record_of_object e id_of id_keys vector_keys obj =
     \<lparr>vr_id = (case Option.bind (first_key obj id_keys) id_of of None \<Rightarrow> ''unknown'' | Some i \<Rightarrow> i),
      vr_vector = (case Option.bind (first_key obj vector_keys) json_as_array of None \<Rightarrow> [] | Some vs \<Rightarrow> components e vs),
      vr_metadata = filter (\<lambda>(k, _). k \<notin> set id_keys \<union> set vector_keys) obj\<rparr>"

fun traverse :: "('a \<Rightarrow> 'b res) \<Rightarrow> 'a list \<Rightarrow> 'b list res" where
  "traverse f [] = Inr []"
| "traverse f (x # xs) = and_then (f x) (\<lambda>y. and_then (traverse f xs) (\<lambda>ys. Inr (y # ys)))"

subsection \<open>Qdrant\<close>

record qdrant_source =
  qs_client :: http_client
  qs_collection :: string
  qs_current_offset :: "string option"

definition qdrant_source_new :: "'h client_env \<Rightarrow> string \<Rightarrow> string option \<Rightarrow> client_auth option \<Rightarrow> qdrant_source res" where
  "qdrant_source_new e url collection auth =
     and_then (auth_headers e ''api-key'' [] auth) (\<lambda>headers.
       Inr \<lparr>qs_client = \<lparr>hc_headers = headers, hc_base_url = trim_end_slashes url\<rparr>,
            qs_collection = (case collection of None \<Rightarrow> ''default'' | Some c \<Rightarrow> c), qs_current_offset = None\<rparr>)"

definition qdrant_count :: "'h client_env \<Rightarrow> qdrant_source \<Rightarrow> 'h \<Rightarrow> u64 option res \<times> 'h" where
  "qdrant_count e s h =
     (case http_json e (http_get (qs_client s) (hc_base_url (qs_client s) @ ''/collections/'' @ qs_collection s)) h of
        (r, h') \<Rightarrow> (and_then r (\<lambda>info. Inr (json_as_u64 (json_at (json_at info ''result'') ''points_count''))), h'))"

definition scroll_call :: "qdrant_source \<Rightarrow> nat \<Rightarrow> client_request" where
  "scroll_call s limit =
     http_post (qs_client s) (hc_base_url (qs_client s) @ ''/collections/'' @ qs_collection s @ ''/points/scroll'')
       (JObject
          ([(''limit'', JNumber (NPos (of_nat limit)))] @
           (case qs_current_offset s of None \<Rightarrow> [] | Some i \<Rightarrow> [(''offset'', JString i)]) @
           [(''with_payload'', JBool True), (''with_vector'', JBool True)]))"

definition qdrant_point :: "'h client_env \<Rightarrow> json \<Rightarrow> vector_record res" where
  "qdrant_point e p =
     and_then
       (ok_or (case json_as_str (json_at p ''id'') of
                 Some s \<Rightarrow> Some s
               | None \<Rightarrow> map_option (\<lambda>u. decimal (unat u)) (json_as_u64 (json_at p ''id''))) ESerialization)
       (\<lambda>i. and_then (ok_or (json_as_array (json_at p ''vector'')) ESerialization)
          (\<lambda>vs. Inr \<lparr>vr_id = i, vr_vector = components e vs,
                     vr_metadata = (case json_as_object (json_at p ''payload'') of None \<Rightarrow> [] | Some m \<Rightarrow> m)\<rparr>))"

definition qdrant_fetch ::
  "'h client_env \<Rightarrow> u64 \<Rightarrow> nat \<Rightarrow> qdrant_source \<Rightarrow> 'h \<Rightarrow> vector_record list res \<times> qdrant_source \<times> 'h"
where
  "qdrant_fetch e offset limit s h =
     (case http_json e (scroll_call s limit) h of
        (Inl err, h') \<Rightarrow> (Inl err, s, h')
      | (Inr result, h') \<Rightarrow>
          (case and_then (ok_or (json_as_array (json_at (json_at result ''result'') ''points'')) ESerialization)
                  (traverse (qdrant_point e)) of
             Inl err \<Rightarrow> (Inl err, s, h')
           | Inr records \<Rightarrow>
               (Inr records,
                s\<lparr>qs_current_offset := json_as_str (json_at (json_at result ''result'') ''next_page_offset'')\<rparr>, h')))"

subsection \<open>Milvus\<close>

record milvus_source =
  ms_client :: http_client
  ms_collection :: string

definition milvus_source_new :: "'h client_env \<Rightarrow> string \<Rightarrow> string option \<Rightarrow> client_auth option \<Rightarrow> milvus_source res" where
  "milvus_source_new e url collection auth =
     and_then (auth_headers e ''authorization'' ''Bearer '' auth) (\<lambda>headers.
       Inr \<lparr>ms_client = \<lparr>hc_headers = headers, hc_base_url = trim_end_slashes url\<rparr>,
            ms_collection = (case collection of None \<Rightarrow> ''default'' | Some c \<Rightarrow> c)\<rparr>)"

text \<open>Send a request whose failure status is no error, only the absence of a count.\<close>

definition http_count :: "'h client_env \<Rightarrow> client_request \<Rightarrow> (json \<Rightarrow> json) \<Rightarrow> 'h \<Rightarrow> u64 option res \<times> 'h" where
  "http_count e rq pick h =
     (case cv_send e rq h of
        (NoReply, h') \<Rightarrow> (Inl ENetwork, h')
      | (Reply status body, h') \<Rightarrow>
          (if is_success status then and_then (ok_or body ESerialization) (\<lambda>v. Inr (json_as_u64 (pick v)))
           else Inr None, h'))"

definition milvus_count :: "'h client_env \<Rightarrow> milvus_source \<Rightarrow> 'h \<Rightarrow> u64 option res \<times> 'h" where
  "milvus_count e s h =
     http_count e
       (http_get (ms_client s)
          (hc_base_url (ms_client s) @ ''/v1/vector/collections/'' @ ms_collection s @ ''/entities/stats''))
       (\<lambda>v. json_at v ''row_count'') h"

definition milvus_id_keys :: "string list" where
  "milvus_id_keys = [''id'', ''pk'', ''primary_key'']"

definition milvus_vector_keys :: "string list" where
  "milvus_vector_keys = [''vector'', ''embedding'', ''embeddings'', ''vec'']"

definition milvus_query :: "milvus_source \<Rightarrow> u64 \<Rightarrow> nat \<Rightarrow> client_request" where
  "milvus_query s offset limit =
     http_post (ms_client s) (hc_base_url (ms_client s) @ ''/v1/vector/query'')
       (JObject
          [(''collection_name'', JString (ms_collection s)), (''expr'', JString []),
           (''limit'', JNumber (NPos (of_nat limit))), (''offset'', JNumber (NPos offset)),
           (''output_fields'', JArray [JString ''*''])])"

definition milvus_fetch ::
  "'h client_env \<Rightarrow> u64 \<Rightarrow> nat \<Rightarrow> milvus_source \<Rightarrow> 'h \<Rightarrow> vector_record list res \<times> 'h"
where
  "milvus_fetch e offset limit s h =
     (case http_json e (milvus_query s offset limit) h of
        (r, h') \<Rightarrow>
          (and_then r (\<lambda>result.
             Inr (case Option.bind (json_get result ''data'') json_as_array of
                    None \<Rightarrow> []
                  | Some entities \<Rightarrow>
                      map (record_of_object e id_text milvus_id_keys milvus_vector_keys)
                        (List.map_filter json_as_object entities))), h'))"

subsection \<open>Weaviate\<close>

record weaviate_source =
  ws_client :: http_client
  ws_class_name :: string

definition weaviate_source_new :: "'h client_env \<Rightarrow> string \<Rightarrow> string option \<Rightarrow> client_auth option \<Rightarrow> weaviate_source res" where
  "weaviate_source_new e url cls auth =
     and_then (auth_headers e ''x-openai-api-key'' [] auth) (\<lambda>headers.
       Inr \<lparr>ws_client = \<lparr>hc_headers = headers, hc_base_url = trim_end_slashes url\<rparr>,
            ws_class_name = (case cls of None \<Rightarrow> ''Document'' | Some c \<Rightarrow> c)\<rparr>)"

text \<open>The two queries of GraphQL, with white space written as single spaces and a comment left out.\<close>

definition aggregate_query :: "string \<Rightarrow> string" where
  "aggregate_query cls = ''{ Aggregate { '' @ cls @ ''(groupBy: []) { meta { count } } } }''"

definition get_query :: "string \<Rightarrow> nat \<Rightarrow> u64 \<Rightarrow> string" where
  "get_query cls limit offset =
     ''{ Get { '' @ cls @ ''(limit: '' @ decimal limit @ '', offset: '' @ decimal (unat offset) @
     '') { _additional { id vector } } } }''"

definition graphql :: "weaviate_source \<Rightarrow> string \<Rightarrow> client_request" where
  "graphql s query =
     http_post (ws_client s) (hc_base_url (ws_client s) @ ''/v1/graphql'') (JObject [(''query'', JString query)])"

definition weaviate_count :: "'h client_env \<Rightarrow> weaviate_source \<Rightarrow> 'h \<Rightarrow> u64 option res \<times> 'h" where
  "weaviate_count e s h =
     http_count e (graphql s (aggregate_query (ws_class_name s)))
       (\<lambda>v. json_at (json_at (json_nth (json_at (json_at (json_at v ''data'') ''Aggregate'') (ws_class_name s)) 0) ''meta'') ''count'')
       h"

text \<open>Indexing the members of \<open>_additional\<close> panics where the key is missing.\<close>

definition weaviate_object :: "'h client_env \<Rightarrow> (string \<times> json) list \<Rightarrow> json \<Rightarrow> vector_record res option" where
  "weaviate_object e additional obj =
     (case hm_get additional ''id'' of
        None \<Rightarrow> None
      | Some i \<Rightarrow>
          (case json_as_str i of
             None \<Rightarrow> Some (Inl ESerialization)
           | Some uid \<Rightarrow>
               (case hm_get additional ''vector'' of
                  None \<Rightarrow> None
                | Some v \<Rightarrow>
                    Some (and_then (ok_or (json_as_array v) ESerialization) (\<lambda>vs.
                      Inr \<lparr>vr_id = uid, vr_vector = components e vs,
                           vr_metadata = (case json_as_object obj of
                                            None \<Rightarrow> []
                                          | Some m \<Rightarrow> filter (\<lambda>(k, _). k \<noteq> ''_additional'') m)\<rparr>)))))"

fun weaviate_objects :: "'h client_env \<Rightarrow> json list \<Rightarrow> vector_record list res option" where
  "weaviate_objects e [] = Some (Inr [])"
| "weaviate_objects e (obj # objs) =
     (case json_as_object (json_at obj ''_additional'') of
        None \<Rightarrow> weaviate_objects e objs
      | Some additional \<Rightarrow>
          (case weaviate_object e additional obj of
             None \<Rightarrow> None
           | Some (Inl err) \<Rightarrow> Some (Inl err)
           | Some (Inr r) \<Rightarrow>
               map_option (\<lambda>rest. and_then rest (\<lambda>rs. Inr (r # rs))) (weaviate_objects e objs)))"

definition weaviate_fetch ::
  "'h client_env \<Rightarrow> u64 \<Rightarrow> nat \<Rightarrow> weaviate_source \<Rightarrow> 'h \<Rightarrow> (vector_record list res \<times> 'h) option"
where
  "weaviate_fetch e offset limit s h =
     (case http_json e (graphql s (get_query (ws_class_name s) limit offset)) h of
        (Inl err, h') \<Rightarrow> Some (Inl err, h')
      | (Inr result, h') \<Rightarrow>
          (case json_as_array (json_at (json_at (json_at result ''data'') ''Get'') (ws_class_name s)) of
             None \<Rightarrow> Some (Inr [], h')
           | Some objects \<Rightarrow> map_option (\<lambda>r. (r, h')) (weaviate_objects e objects)))"

subsection \<open>Pinecone\<close>

record pinecone_source =
  ps_client :: http_client
  ps_index_name :: string

definition pinecone_source_new :: "'h client_env \<Rightarrow> string \<Rightarrow> string option \<Rightarrow> client_auth option \<Rightarrow> pinecone_source res" where
  "pinecone_source_new e url index auth =
     and_then (auth_headers e ''api-key'' [] auth) (\<lambda>headers.
       Inr \<lparr>ps_client = \<lparr>hc_headers = headers, hc_base_url = url\<rparr>,
            ps_index_name = (case index of None \<Rightarrow> ''default'' | Some i \<Rightarrow> i)\<rparr>)"

definition pinecone_request :: "pinecone_source \<Rightarrow> nat \<Rightarrow> client_request" where
  "pinecone_request s limit =
     http_post (ps_client s) (hc_base_url (ps_client s) @ ''/query'')
       (JObject
          [(''includeMetadata'', JBool True), (''includeValues'', JBool True),
           (''topK'', JNumber (NPos (of_nat limit))),
           (''vector'', JArray (replicate 1536 (JNumber (NFloat 0))))])"

definition pinecone_match :: "'h client_env \<Rightarrow> (string \<times> json) list \<Rightarrow> vector_record" where
  "pinecone_match e m =
     \<lparr>vr_id = (case Option.bind (hm_get m ''id'') json_as_str of None \<Rightarrow> ''unknown'' | Some i \<Rightarrow> i),
      vr_vector = (case Option.bind (hm_get m ''values'') json_as_array of None \<Rightarrow> [] | Some vs \<Rightarrow> components e vs),
      vr_metadata = (case Option.bind (hm_get m ''metadata'') json_as_object of None \<Rightarrow> [] | Some obj \<Rightarrow> obj)\<rparr>"

definition pinecone_fetch ::
  "'h client_env \<Rightarrow> u64 \<Rightarrow> nat \<Rightarrow> pinecone_source \<Rightarrow> 'h \<Rightarrow> vector_record list res \<times> 'h"
where
  "pinecone_fetch e offset limit s h =
     (case http_json e (pinecone_request s limit) h of
        (r, h') \<Rightarrow>
          (and_then r (\<lambda>result.
             Inr (case Option.bind (json_get result ''matches'') json_as_array of
                    None \<Rightarrow> []
                  | Some ms \<Rightarrow> map (pinecone_match e) (List.map_filter json_as_object ms))), h'))"

subsection \<open>Files of JSON lines\<close>

text \<open>Skip lines up to an offset; a line that is not text is an error.\<close>

fun skip_lines :: "nat \<Rightarrow> string option list \<Rightarrow> string option list res" where
  "skip_lines 0 ls = Inr ls"
| "skip_lines (Suc n) [] = Inr []"
| "skip_lines (Suc n) (None # ls) = Inl EIo"
| "skip_lines (Suc n) (Some l # ls) = skip_lines n ls"

text \<open>Read a number of lines; blank lines, and values that are no objects, give no record.\<close>

fun read_jsonl ::
  "'h client_env \<Rightarrow> ((string \<times> json) list \<Rightarrow> vector_record) \<Rightarrow> nat \<Rightarrow> string option list \<Rightarrow> vector_record list res"
where
  "read_jsonl e mk 0 ls = Inr []"
| "read_jsonl e mk (Suc n) [] = Inr []"
| "read_jsonl e mk (Suc n) (None # ls) = Inl EIo"
| "read_jsonl e mk (Suc n) (Some l # ls) =
     (if trim_text l = [] then read_jsonl e mk n ls
      else
        and_then (ok_or (cv_json e (trim_text l)) ESerialization) (\<lambda>v.
          and_then (read_jsonl e mk n ls) (\<lambda>rs.
            Inr (case json_as_object v of None \<Rightarrow> rs | Some obj \<Rightarrow> mk obj # rs))))"

record jsonl_source =
  js_path :: string
  js_current_offset :: u64

definition jsonl_source_new :: "'h client_env \<Rightarrow> string \<Rightarrow> jsonl_source res" where
  "jsonl_source_new e path =
     (case cv_lines e path of None \<Rightarrow> Inl EConfig | Some _ \<Rightarrow> Inr \<lparr>js_path = path, js_current_offset = 0\<rparr>)"

definition count_lines :: "'h client_env \<Rightarrow> jsonl_source \<Rightarrow> u64 res" where
  "count_lines e s =
     and_then (ok_or (cv_lines e (js_path s)) EIo) (\<lambda>ls. if None \<in> set ls then Inl EIo else Inr (u64_len ls))"

definition jsonl_count :: "'h client_env \<Rightarrow> jsonl_source \<Rightarrow> u64 option res" where
  "jsonl_count e s = (case count_lines e s of Inr n \<Rightarrow> Inr (Some n) | Inl _ \<Rightarrow> Inr None)"

definition jsonl_id_keys :: "string list" where
  "jsonl_id_keys = [''id'', ''_id'']"

definition jsonl_record :: "'h client_env \<Rightarrow> (string \<times> json) list \<Rightarrow> vector_record" where
  "jsonl_record e = record_of_object e id_text jsonl_id_keys milvus_vector_keys"

text \<open>The lines that a read passes without a record are not counted in the position it remembers.\<close>

definition lines_counted :: "nat \<Rightarrow> string option list \<Rightarrow> nat" where
  "lines_counted n ls = length (filter (\<lambda>l. case l of None \<Rightarrow> False | Some t \<Rightarrow> trim_text t \<noteq> []) (take n ls))"

definition jsonl_fetch ::
  "'h client_env \<Rightarrow> u64 \<Rightarrow> nat \<Rightarrow> jsonl_source \<Rightarrow> vector_record list res \<times> jsonl_source"
where
  "jsonl_fetch e offset limit s =
     (case and_then (ok_or (cv_lines e (js_path s)) EIo) (skip_lines (unat offset)) of
        Inl err \<Rightarrow> (Inl err, s)
      | Inr ls \<Rightarrow>
          (case read_jsonl e (jsonl_record e) limit ls of
             Inl err \<Rightarrow> (Inl err, s)
           | Inr rs \<Rightarrow>
               (Inr rs,
                s\<lparr>js_current_offset :=
                    of_nat (min (unat offset) (length (the (cv_lines e (js_path s))))) + of_nat (lines_counted limit ls)\<rparr>)))"

record lance_source =
  ls_path :: string
  ls_table_name :: string
  ls_current_offset :: u64

definition lance_source_new :: "'h client_env \<Rightarrow> string \<Rightarrow> string option \<Rightarrow> lance_source res" where
  "lance_source_new e path table =
     (if cv_path_size e path = None then Inl EConfig
      else Inr \<lparr>ls_path = path, ls_table_name = (case table of None \<Rightarrow> ''vectors'' | Some t \<Rightarrow> t), ls_current_offset = 0\<rparr>)"

definition lance_count :: "'h client_env \<Rightarrow> lance_source \<Rightarrow> u64 option res" where
  "lance_count e s =
     (case cv_path_size e (ls_path s @ ''/'' @ ls_table_name s) of
        None \<Rightarrow> Inr None
      | Some bytes \<Rightarrow> and_then bytes (\<lambda>n. Inr (Some (n div 1024))))"

text \<open>\<open>with_extension\<close>: what follows the last dot of a name is replaced.\<close>

definition with_extension :: "string \<Rightarrow> string \<Rightarrow> string" where
  "with_extension name ext =
     (let before = rev (tl (dropWhile (\<lambda>c. c \<noteq> CHR ''.'') (rev name)))
      in (if before = [] then name else before) @ ''.'' @ ext)"

definition lance_id_keys :: "string list" where
  "lance_id_keys = [''id'', ''_id'']"

definition lance_vector_keys :: "string list" where
  "lance_vector_keys = [''vector'', ''embedding'', ''embeddings'']"

definition lance_fetch ::
  "'h client_env \<Rightarrow> u64 \<Rightarrow> nat \<Rightarrow> lance_source \<Rightarrow> vector_record list res \<times> lance_source"
where
  "lance_fetch e offset limit s =
     (case cv_lines e (ls_path s @ ''/'' @ with_extension (ls_table_name s) ''jsonl'') of
        None \<Rightarrow> (Inr [], s)
      | Some all_lines \<Rightarrow>
          (case and_then (skip_lines (unat offset) all_lines)
                  (read_jsonl e (record_of_object e json_as_str lance_id_keys lance_vector_keys) limit) of
             Inl err \<Rightarrow> (Inl err, s)
           | Inr rs \<Rightarrow> (Inr rs, s\<lparr>ls_current_offset := offset + u64_len rs\<rparr>)))"

subsection \<open>Parquet files\<close>

record parquet_source =
  pq_path :: string
  pq_total_rows :: "u64 option"
  pq_current_offset :: u64

definition parquet_source_new :: "'h client_env \<Rightarrow> string \<Rightarrow> parquet_source res" where
  "parquet_source_new e path =
     and_then (ok_or (cv_parquet e path) EMigration) (\<lambda>f.
       Inr \<lparr>pq_path = path, pq_total_rows = Some (fst f), pq_current_offset = 0\<rparr>)"

text \<open>A value past the end of its column panics.\<close>

definition convert_row ::
  "'h client_env \<Rightarrow> (string \<times> bool) list \<Rightarrow> arrow_list list \<Rightarrow> (string \<times> bool) list option \<Rightarrow> nat \<Rightarrow> vector_record res option"
where
  "convert_row e ids vecs metas i =
     (if length ids \<le> i \<or> length vecs \<le> i then None
      else
        (case vecs ! i of
           AlOther \<Rightarrow> Some (Inl EMigration)
         | AlFloat32 v \<Rightarrow>
             (case metas of
                None \<Rightarrow> Some (Inr \<lparr>vr_id = fst (ids ! i), vr_vector = v, vr_metadata = []\<rparr>)
              | Some ms \<Rightarrow>
                  (if length ms \<le> i then None
                   else
                     Some (Inr \<lparr>vr_id = fst (ids ! i), vr_vector = v,
                                vr_metadata =
                                  (if snd (ms ! i) then []
                                   else (case cv_metadata e (fst (ms ! i)) of None \<Rightarrow> [] | Some m \<Rightarrow> m))\<rparr>)))))"

fun convert_rows ::
  "'h client_env \<Rightarrow> (string \<times> bool) list \<Rightarrow> arrow_list list \<Rightarrow> (string \<times> bool) list option \<Rightarrow> nat list \<Rightarrow>
     vector_record list res option"
where
  "convert_rows e ids vecs metas [] = Some (Inr [])"
| "convert_rows e ids vecs metas (i # is) =
     (case convert_row e ids vecs metas i of
        None \<Rightarrow> None
      | Some (Inl err) \<Rightarrow> Some (Inl err)
      | Some (Inr r) \<Rightarrow>
          map_option (\<lambda>rest. and_then rest (\<lambda>rs. Inr (r # rs))) (convert_rows e ids vecs metas is))"

fun first_column :: "(string \<times> arrow_column) list \<Rightarrow> string list \<Rightarrow> arrow_column option" where
  "first_column cols [] = None"
| "first_column cols (k # ks) = (case hm_get cols k of None \<Rightarrow> first_column cols ks | Some c \<Rightarrow> Some c)"

definition convert_batch_to_records :: "'h client_env \<Rightarrow> arrow_batch \<Rightarrow> vector_record list res option" where
  "convert_batch_to_records e b =
     (case hm_get (ab_columns b) ''id'' of
        None \<Rightarrow> Some (Inl EMigration)
      | Some id_column \<Rightarrow>
          (case first_column (ab_columns b) milvus_vector_keys of
             None \<Rightarrow> Some (Inl EMigration)
           | Some vector_column \<Rightarrow>
               (case id_column of
                  AcString ids \<Rightarrow>
                    (case vector_column of
                       AcList vecs \<Rightarrow>
                         convert_rows e ids vecs
                           (case hm_get (ab_columns b) ''metadata'' of Some (AcString ms) \<Rightarrow> Some ms | _ \<Rightarrow> None)
                           [0..<ab_rows b]
                     | _ \<Rightarrow> Some (Inl EMigration))
                | _ \<Rightarrow> Some (Inl EMigration))))"

fun parquet_collect ::
  "'h client_env \<Rightarrow> nat \<Rightarrow> arrow_batch option list \<Rightarrow> vector_record list res option"
where
  "parquet_collect e wanted [] = Some (Inr [])"
| "parquet_collect e wanted (item # items) =
     (if wanted = 0 then Some (Inr [])
      else
        (case item of
           None \<Rightarrow> Some (Inl EMigration)
         | Some b \<Rightarrow>
             (case convert_batch_to_records e b of
                None \<Rightarrow> None
              | Some (Inl err) \<Rightarrow> Some (Inl err)
              | Some (Inr rs) \<Rightarrow>
                  map_option (\<lambda>rest. and_then rest (\<lambda>more. Inr (take wanted rs @ more)))
                    (parquet_collect e (wanted - min (length rs) wanted) items))))"

text \<open>An offset inside a record batch gives only the rest of that batch.\<close>

fun parquet_skip ::
  "'h client_env \<Rightarrow> nat \<Rightarrow> nat \<Rightarrow> nat \<Rightarrow> arrow_batch option list \<Rightarrow> vector_record list res option"
where
  "parquet_skip e pos offset limit [] = parquet_collect e limit []"
| "parquet_skip e pos offset limit (item # items) =
     (if offset \<le> pos then parquet_collect e limit (item # items)
      else
        (case item of
           None \<Rightarrow> Some (Inl EMigration)
         | Some b \<Rightarrow>
             (if pos + ab_rows b \<le> offset then parquet_skip e (pos + ab_rows b) offset limit items
              else
                map_option (\<lambda>r. and_then r (\<lambda>rs. Inr (take limit (drop (offset - pos) rs))))
                  (convert_batch_to_records e b))))"

definition parquet_fetch :: "'h client_env \<Rightarrow> u64 \<Rightarrow> nat \<Rightarrow> parquet_source \<Rightarrow> vector_record list res option" where
  "parquet_fetch e offset limit s =
     (case cv_parquet e (pq_path s) of
        None \<Rightarrow> Some (Inl EMigration)
      | Some (_, items) \<Rightarrow> parquet_skip e 0 (unat offset) limit items)"

subsection \<open>The sources\<close>

datatype source_client =
    ScQdrant qdrant_source
  | ScMilvus milvus_source
  | ScWeaviate weaviate_source
  | ScPinecone pinecone_source
  | ScLance lance_source
  | ScJsonl jsonl_source
  | ScParquet parquet_source
  | ScHdf5 string
  | ScCsv string
  | ScBinary string

definition create_source_client :: "'h client_env \<Rightarrow> migration_config \<Rightarrow> source_client res" where
  "create_source_client e c =
     (let url = mc_source_url c; coll = mc_source_collection c; auth = mc_source_auth c
      in case mc_source_type c of
           StQdrant \<Rightarrow> and_then (qdrant_source_new e url coll auth) (\<lambda>s. Inr (ScQdrant s))
         | StMilvus \<Rightarrow> and_then (milvus_source_new e url coll auth) (\<lambda>s. Inr (ScMilvus s))
         | StWeaviate \<Rightarrow> and_then (weaviate_source_new e url coll auth) (\<lambda>s. Inr (ScWeaviate s))
         | StPinecone \<Rightarrow> and_then (pinecone_source_new e url coll auth) (\<lambda>s. Inr (ScPinecone s))
         | StLanceDB \<Rightarrow> and_then (lance_source_new e url coll) (\<lambda>s. Inr (ScLance s))
         | StJsonl \<Rightarrow> and_then (jsonl_source_new e url) (\<lambda>s. Inr (ScJsonl s))
         | StParquet \<Rightarrow> and_then (parquet_source_new e url) (\<lambda>s. Inr (ScParquet s))
         | StHdf5 \<Rightarrow> Inr (ScHdf5 url)
         | StCsv \<Rightarrow> Inr (ScCsv url)
         | StBinary \<Rightarrow> Inr (ScBinary url))"

definition source_count :: "'h client_env \<Rightarrow> source_client \<Rightarrow> 'h \<Rightarrow> u64 option res \<times> 'h" where
  "source_count e sc h =
     (case sc of
        ScQdrant s \<Rightarrow> qdrant_count e s h
      | ScMilvus s \<Rightarrow> milvus_count e s h
      | ScWeaviate s \<Rightarrow> weaviate_count e s h
      | ScPinecone s \<Rightarrow> (Inr None, h)
      | ScLance s \<Rightarrow> (lance_count e s, h)
      | ScJsonl s \<Rightarrow> (jsonl_count e s, h)
      | ScParquet s \<Rightarrow> (Inr (pq_total_rows s), h)
      | ScHdf5 path \<Rightarrow> (Inr None, h)
      | ScCsv path \<Rightarrow> (Inr None, h)
      | ScBinary path \<Rightarrow> (Inr None, h))"

definition source_fetch ::
  "'h client_env \<Rightarrow> u64 \<Rightarrow> nat \<Rightarrow> source_client \<Rightarrow> 'h \<Rightarrow> (vector_record list res \<times> source_client \<times> 'h) option"
where
  "source_fetch e offset limit sc h =
     (case sc of
        ScQdrant s \<Rightarrow> (case qdrant_fetch e offset limit s h of (r, s', h') \<Rightarrow> Some (r, ScQdrant s', h'))
      | ScMilvus s \<Rightarrow> (case milvus_fetch e offset limit s h of (r, h') \<Rightarrow> Some (r, ScMilvus s, h'))
      | ScWeaviate s \<Rightarrow> map_option (\<lambda>(r, h'). (r, ScWeaviate s, h')) (weaviate_fetch e offset limit s h)
      | ScPinecone s \<Rightarrow> (case pinecone_fetch e offset limit s h of (r, h') \<Rightarrow> Some (r, ScPinecone s, h'))
      | ScLance s \<Rightarrow> (case lance_fetch e offset limit s of (r, s') \<Rightarrow> Some (r, ScLance s', h))
      | ScJsonl s \<Rightarrow> (case jsonl_fetch e offset limit s of (r, s') \<Rightarrow> Some (r, ScJsonl s', h))
      | ScParquet s \<Rightarrow> map_option (\<lambda>r. (r, ScParquet s, h)) (parquet_fetch e offset limit s)
      | ScHdf5 path \<Rightarrow> Some (Inr [], ScHdf5 path, h)
      | ScCsv path \<Rightarrow> Some (Inr [], ScCsv path, h)
      | ScBinary path \<Rightarrow> Some (Inr [], ScBinary path, h))"

definition client_source_ops :: "'h client_env \<Rightarrow> (source_client, 'h) source_ops" where
  "client_source_ops e = \<lparr>so_count = source_count e, so_fetch = source_fetch e\<rparr>"

subsection \<open>The target\<close>

record rtdb_target =
  rt_client :: http_client

definition rtdb_target_new :: "'h client_env \<Rightarrow> string \<Rightarrow> client_auth option \<Rightarrow> rtdb_target res" where
  "rtdb_target_new e url auth =
     and_then (auth_headers e ''api-key'' [] auth) (\<lambda>headers.
       Inr \<lparr>rt_client = \<lparr>hc_headers = headers, hc_base_url = trim_end_slashes url\<rparr>\<rparr>)"

definition create_target_client :: "'h client_env \<Rightarrow> migration_config \<Rightarrow> rtdb_target res" where
  "create_target_client e c =
     (if ends_with_str ''.parquet'' (mc_target_url c) then Inl EConfig
      else rtdb_target_new e (mc_target_url c) (mc_target_auth c))"

definition json_of_f32 :: "'h client_env \<Rightarrow> f32 \<Rightarrow> json" where
  "json_of_f32 e x = (if f32_is_finite x then JNumber (NFloat (cv_widen e x)) else JNull)"

definition record_json :: "'h client_env \<Rightarrow> vector_record \<Rightarrow> json" where
  "record_json e r =
     JObject
       [(''id'', JString (vr_id r)), (''payload'', JObject (vr_metadata r)),
        (''vector'', JArray (map (json_of_f32 e) (vr_vector r)))]"

text \<open>The braces of the format string are doubled, which writes them out: the text between them is no argument.\<close>

definition insert_call :: "'h client_env \<Rightarrow> rtdb_target \<Rightarrow> vector_record list \<Rightarrow> client_request" where
  "insert_call e t records =
     http_put (rt_client t) (hc_base_url (rt_client t) @ ''/collections/{collection_name}/points'')
       (JObject [(''points'', JArray (map (record_json e) records))])"

definition target_insert_batch :: "'h client_env \<Rightarrow> rtdb_target \<Rightarrow> vector_record list \<Rightarrow> 'h \<Rightarrow> unit res \<times> 'h" where
  "target_insert_batch e t records h =
     (case cv_send e (insert_call e t records) h of
        (NoReply, h') \<Rightarrow> (Inl ENetwork, h')
      | (Reply status body, h') \<Rightarrow> (if is_success status then Inr () else Inl ENetwork, h'))"

definition target_ensure_collection :: "'h client_env \<Rightarrow> rtdb_target \<Rightarrow> string \<Rightarrow> nat \<Rightarrow> 'h \<Rightarrow> unit res \<times> 'h" where
  "target_ensure_collection e t name dim h =
     (case cv_send e
             (http_put (rt_client t) (hc_base_url (rt_client t) @ ''/collections/'' @ name)
                (JObject [(''vectors'', JObject [(''distance'', JString ''Cosine''), (''size'', JNumber (NPos (of_nat dim)))])])) h of
        (NoReply, h') \<Rightarrow> (Inl ENetwork, h')
      | (Reply status body, h') \<Rightarrow> (if is_success status \<or> status = 409 then Inr () else Inl ENetwork, h'))"

text \<open>Indexing the members of an object panics where the key is missing.\<close>

definition collection_info_of :: "string \<Rightarrow> json \<Rightarrow> target_info res option" where
  "collection_info_of name info =
     (case json_as_object (json_at info ''result'') of
        None \<Rightarrow> Some (Inl ESerialization)
      | Some result \<Rightarrow>
          (case hm_get result ''config'' of
             None \<Rightarrow> None
           | Some config_value \<Rightarrow>
               (case json_as_object config_value of
                  None \<Rightarrow> Some (Inl ESerialization)
                | Some config \<Rightarrow>
                    (case hm_get config ''params'' of
                       None \<Rightarrow> None
                     | Some params \<Rightarrow>
                         (case json_as_object (json_at params ''vectors'') of
                            None \<Rightarrow> Some (Inl ESerialization)
                          | Some vectors \<Rightarrow>
                              (case hm_get vectors ''size'' of
                                 None \<Rightarrow> None
                               | Some dim_value \<Rightarrow>
                                   (case json_as_u64 dim_value of
                                      None \<Rightarrow> Some (Inl ESerialization)
                                    | Some dim \<Rightarrow>
                                        (case hm_get vectors ''distance'' of
                                           None \<Rightarrow> None
                                         | Some distance \<Rightarrow>
                                             (case hm_get result ''points_count'' of
                                                None \<Rightarrow> None
                                              | Some count \<Rightarrow>
                                                  Some (Inr
                                                    \<lparr>ci_name = name, ci_dimension = unat dim,
                                                     ci_vector_count = (case json_as_u64 count of None \<Rightarrow> 0 | Some n \<Rightarrow> n),
                                                     ci_distance_metric =
                                                       (case json_as_str distance of None \<Rightarrow> ''Cosine'' | Some d \<Rightarrow> d)\<rparr>))))))))))"

definition target_collection_info ::
  "'h client_env \<Rightarrow> rtdb_target \<Rightarrow> string \<Rightarrow> 'h \<Rightarrow> (target_info option res \<times> 'h) option"
where
  "target_collection_info e t name h =
     (case cv_send e (http_get (rt_client t) (hc_base_url (rt_client t) @ ''/collections/'' @ name)) h of
        (NoReply, h') \<Rightarrow> Some (Inl ENetwork, h')
      | (Reply status body, h') \<Rightarrow>
          (if status = 404 then Some (Inr None, h')
           else if \<not> is_success status then Some (Inl ENetwork, h')
           else
             (case body of
                None \<Rightarrow> Some (Inl ESerialization, h')
              | Some info \<Rightarrow>
                  map_option (\<lambda>r. (and_then r (\<lambda>ci. Inr (Some ci)), h')) (collection_info_of name info))))"

definition rtdb_target_ops :: "'h client_env \<Rightarrow> rtdb_target \<Rightarrow> 'h target_ops" where
  "rtdb_target_ops e t =
     \<lparr>to_insert = target_insert_batch e t, to_ensure = target_ensure_collection e t,
      to_info = target_collection_info e t, to_count = (\<lambda>h. (Inr None, h)),
      to_fetch = (\<lambda>offset limit h. (Inr [], h))\<rparr>"

end
