(* ===== verification/MigrationCheckpoints.thy ===== *)
theory MigrationCheckpoints
  imports MigrationClients
begin

text \<open>
  The checkpoints of a data migration, \<open>src/src/migration/checkpoint.rs\<close>.  The checkpoint directory is the
  list of its files, or absent, and each call of the file system has a fate.  Times are nanoseconds.
\<close>

unbundle bit_operations_syntax

subsection \<open>Checkpoints\<close>

text \<open>The fate of a call: it succeeds, or it fails, a write after some characters.\<close>

datatype fs_fate = FsOk | FsFail nat

record checkpoint_file =
  kf_text :: string
  kf_modified :: int

record checkpoint_fs =
  cf_dir :: "(string \<times> checkpoint_file) list option"
  cf_fates :: "nat \<Rightarrow> fs_fate"
  cf_calls :: nat

record checkpoint_codec =
  kc_pretty :: "json \<Rightarrow> string option"
  kc_parse :: "string \<Rightarrow> json option"
  kc_uuid_text :: "migration_uuid \<Rightarrow> string"
  kc_uuid_parse :: "string \<Rightarrow> migration_uuid option"

definition fs_call :: "checkpoint_fs \<Rightarrow> fs_fate \<times> checkpoint_fs" where
  "fs_call fs = (cf_fates fs (cf_calls fs), fs\<lparr>cf_calls := Suc (cf_calls fs)\<rparr>)"

definition checkpoint_path :: "checkpoint_codec \<Rightarrow> migration_uuid \<Rightarrow> string" where
  "checkpoint_path k i = kc_uuid_text k i @ ''.json''"

definition temp_path :: "checkpoint_codec \<Rightarrow> migration_uuid \<Rightarrow> string" where
  "temp_path k i = kc_uuid_text k i @ ''.tmp''"

definition checkpoint_init :: "checkpoint_fs \<Rightarrow> unit res \<times> checkpoint_fs" where
  "checkpoint_init fs =
     (case cf_dir fs of
        Some _ \<Rightarrow> (Inr (), fs)
      | None \<Rightarrow>
          (case fs_call fs of
             (FsOk, fs') \<Rightarrow> (Inr (), fs'\<lparr>cf_dir := Some []\<rparr>)
           | (FsFail _, fs') \<Rightarrow> (Inl EIo, fs')))"

definition fs_files :: "checkpoint_fs \<Rightarrow> (string \<times> checkpoint_file) list" where
  "fs_files fs = (case cf_dir fs of None \<Rightarrow> [] | Some files \<Rightarrow> files)"

definition fs_write :: "int \<Rightarrow> string \<Rightarrow> string \<Rightarrow> checkpoint_fs \<Rightarrow> unit res \<times> checkpoint_fs" where
  "fs_write now name content fs =
     (case fs_call fs of
        (FsOk, fs') \<Rightarrow>
          (Inr (), fs'\<lparr>cf_dir := Some (hm_insert name \<lparr>kf_text = content, kf_modified = now\<rparr> (fs_files fs'))\<rparr>)
      | (FsFail n, fs') \<Rightarrow>
          (Inl EIo, fs'\<lparr>cf_dir := Some (hm_insert name \<lparr>kf_text = take n content, kf_modified = now\<rparr> (fs_files fs'))\<rparr>))"

definition fs_rename :: "string \<Rightarrow> string \<Rightarrow> checkpoint_fs \<Rightarrow> unit res \<times> checkpoint_fs" where
  "fs_rename old new fs =
     (case fs_call fs of
        (FsFail _, fs') \<Rightarrow> (Inl EIo, fs')
      | (FsOk, fs') \<Rightarrow>
          (case hm_get (fs_files fs') old of
             None \<Rightarrow> (Inl EIo, fs')
           | Some f \<Rightarrow> (Inr (), fs'\<lparr>cf_dir := Some (hm_insert new f (hm_remove old (fs_files fs')))\<rparr>)))"

text \<open>The first half of \<open>save_checkpoint\<close>, up to the written temporary file; the second renames it.\<close>

definition write_temp ::
  "checkpoint_codec \<Rightarrow> int \<Rightarrow> migration_uuid \<Rightarrow> json \<Rightarrow> checkpoint_fs \<Rightarrow> unit res \<times> checkpoint_fs"
where
  "write_temp k now i data fs =
     (case checkpoint_init fs of
        (Inl err, fs') \<Rightarrow> (Inl err, fs')
      | (Inr _, fs') \<Rightarrow>
          (case kc_pretty k data of
             None \<Rightarrow> (Inl ESerialization, fs')
           | Some content \<Rightarrow> fs_write now (temp_path k i) content fs'))"

definition rename_temp :: "checkpoint_codec \<Rightarrow> migration_uuid \<Rightarrow> checkpoint_fs \<Rightarrow> unit res \<times> checkpoint_fs" where
  "rename_temp k i fs = fs_rename (temp_path k i) (checkpoint_path k i) fs"

definition save_checkpoint ::
  "checkpoint_codec \<Rightarrow> int \<Rightarrow> migration_uuid \<Rightarrow> json \<Rightarrow> checkpoint_fs \<Rightarrow> unit res \<times> checkpoint_fs"
where
  "save_checkpoint k now i data fs =
     (case write_temp k now i data fs of
        (Inl err, fs') \<Rightarrow> (Inl err, fs')
      | (Inr _, fs') \<Rightarrow> rename_temp k i fs')"

definition load_checkpoint ::
  "checkpoint_codec \<Rightarrow> migration_uuid \<Rightarrow> checkpoint_fs \<Rightarrow> json option res \<times> checkpoint_fs"
where
  "load_checkpoint k i fs =
     (case hm_get (fs_files fs) (checkpoint_path k i) of
        None \<Rightarrow> (Inr None, fs)
      | Some f \<Rightarrow>
          (case fs_call fs of
             (FsFail _, fs') \<Rightarrow> (Inl EIo, fs')
           | (FsOk, fs') \<Rightarrow> (and_then (ok_or (kc_parse k (kf_text f)) ESerialization) (\<lambda>v. Inr (Some v)), fs')))"

definition delete_checkpoint :: "checkpoint_codec \<Rightarrow> migration_uuid \<Rightarrow> checkpoint_fs \<Rightarrow> unit res \<times> checkpoint_fs" where
  "delete_checkpoint k i fs =
     (if hm_get (fs_files fs) (checkpoint_path k i) = None then (Inr (), fs)
      else
        (case fs_call fs of
           (FsFail _, fs') \<Rightarrow> (Inl EIo, fs')
         | (FsOk, fs') \<Rightarrow> (Inr (), fs'\<lparr>cf_dir := Some (hm_remove (checkpoint_path k i) (fs_files fs'))\<rparr>)))"

text \<open>The stem of a file name with extension \<open>json\<close>.\<close>

definition json_stem :: "string \<Rightarrow> string option" where
  "json_stem name =
     (let n = length name - 5
      in if 5 < length name \<and> drop n name = ''.json'' then Some (take n name) else None)"

text \<open>Reading the directory, and each of its entries, is a call.\<close>

fun list_entries :: "checkpoint_codec \<Rightarrow> string list \<Rightarrow> checkpoint_fs \<Rightarrow> migration_uuid list res \<times> checkpoint_fs" where
  "list_entries k [] fs = (Inr [], fs)"
| "list_entries k (name # names) fs =
     (case fs_call fs of
        (FsFail _, fs') \<Rightarrow> (Inl EIo, fs')
      | (FsOk, fs') \<Rightarrow>
          (case list_entries k names fs' of
             (r, fs'') \<Rightarrow>
               (and_then r (\<lambda>ids.
                  Inr (case Option.bind (json_stem name) (kc_uuid_parse k) of None \<Rightarrow> ids | Some i \<Rightarrow> i # ids)), fs'')))"

definition list_checkpoints :: "checkpoint_codec \<Rightarrow> checkpoint_fs \<Rightarrow> migration_uuid list res \<times> checkpoint_fs" where
  "list_checkpoints k fs =
     (case cf_dir fs of
        None \<Rightarrow> (Inr [], fs)
      | Some files \<Rightarrow>
          (case fs_call fs of
             (FsFail _, fs') \<Rightarrow> (Inl EIo, fs')
           | (FsOk, fs') \<Rightarrow> list_entries k (map fst files) fs'))"

record checkpoint =
  kp_migration_id :: migration_uuid
  kp_timestamp :: int
  kp_offset :: u64
  kp_batch_id :: u64
  kp_processed_records :: u64
  kp_failed_records :: u64
  kp_source_state :: json
  kp_target_state :: json
  kp_config_hash :: string
  kp_metadata :: "(string \<times> json) list"

definition create_checkpoint ::
  "checkpoint_codec \<Rightarrow> (checkpoint \<Rightarrow> json option) \<Rightarrow> int \<Rightarrow> migration_uuid \<Rightarrow> u64 \<Rightarrow> u64 \<Rightarrow> u64 \<Rightarrow> u64 \<Rightarrow> json \<Rightarrow> json \<Rightarrow>
     string \<Rightarrow> checkpoint_fs \<Rightarrow> checkpoint res \<times> checkpoint_fs"
where
  "create_checkpoint k to_value now i offset batch processed failed source_state target_state hash fs =
     (let cp = \<lparr>kp_migration_id = i, kp_timestamp = now, kp_offset = offset, kp_batch_id = batch,
                kp_processed_records = processed, kp_failed_records = failed, kp_source_state = source_state,
                kp_target_state = target_state, kp_config_hash = hash, kp_metadata = []\<rparr>
      in case to_value cp of
           None \<Rightarrow> (Inl ESerialization, fs)
         | Some v \<Rightarrow>
             (case save_checkpoint k now i v fs of (r, fs') \<Rightarrow> (and_then r (\<lambda>_. Inr cp), fs')))"

definition load_structured_checkpoint ::
  "checkpoint_codec \<Rightarrow> (json \<Rightarrow> checkpoint option) \<Rightarrow> migration_uuid \<Rightarrow> checkpoint_fs \<Rightarrow> checkpoint option res \<times> checkpoint_fs"
where
  "load_structured_checkpoint k from_value i fs =
     (case load_checkpoint k i fs of
        (r, fs') \<Rightarrow>
          (and_then r (\<lambda>data.
             case data of
               None \<Rightarrow> Inr None
             | Some v \<Rightarrow> and_then (ok_or (from_value v) ESerialization) (\<lambda>cp. Inr (Some cp))), fs'))"

definition validate_checkpoint :: "checkpoint \<Rightarrow> string \<Rightarrow> unit res" where
  "validate_checkpoint cp hash = (if kp_config_hash cp \<noteq> hash then Inl EConfig else Inr ())"

fun cleanup_entries :: "int \<Rightarrow> string list \<Rightarrow> nat \<Rightarrow> checkpoint_fs \<Rightarrow> nat res \<times> checkpoint_fs" where
  "cleanup_entries cutoff [] cleaned fs = (Inr cleaned, fs)"
| "cleanup_entries cutoff (name # names) cleaned fs =
     (case fs_call fs of
        (FsFail _, fs1) \<Rightarrow> (Inl EIo, fs1)
      | (FsOk, fs1) \<Rightarrow>
          (if json_stem name = None then cleanup_entries cutoff names cleaned fs1
           else
             (case fs_call fs1 of
                (FsFail _, fs2) \<Rightarrow> cleanup_entries cutoff names cleaned fs2
              | (FsOk, fs2) \<Rightarrow>
                  (case hm_get (fs_files fs2) name of
                     None \<Rightarrow> cleanup_entries cutoff names cleaned fs2
                   | Some f \<Rightarrow>
                       (if \<not> kf_modified f < cutoff then cleanup_entries cutoff names cleaned fs2
                        else
                          (case fs_call fs2 of
                             (FsFail _, fs3) \<Rightarrow> cleanup_entries cutoff names cleaned fs3
                           | (FsOk, fs3) \<Rightarrow>
                               cleanup_entries cutoff names (Suc cleaned)
                                 (fs3\<lparr>cf_dir := Some (hm_remove name (fs_files fs3))\<rparr>)))))))"

text \<open>The subtraction of the days panics before the earliest time that chrono represents.\<close>

definition cleanup_old_checkpoints :: "int \<Rightarrow> int \<Rightarrow> u32 \<Rightarrow> checkpoint_fs \<Rightarrow> (nat res \<times> checkpoint_fs) option" where
  "cleanup_old_checkpoints min_time now days fs =
     (case cf_dir fs of
        None \<Rightarrow> Some (Inr 0, fs)
      | Some files \<Rightarrow>
          (let cutoff = now - int (unat days) * 86400 * 1000000000
           in if cutoff < min_time then None
              else
                (case fs_call fs of
                   (FsFail _, fs') \<Rightarrow> Some (Inl EIo, fs')
                 | (FsOk, fs') \<Rightarrow> Some (cleanup_entries cutoff (map fst files) 0 fs'))))"

record checkpoint_stats =
  ks_count :: nat
  ks_total_size_bytes :: u64
  ks_oldest_timestamp :: "int option"
  ks_newest_timestamp :: "int option"

fun stats_of_ids :: "checkpoint_codec \<Rightarrow> migration_uuid list \<Rightarrow> checkpoint_stats \<Rightarrow> checkpoint_fs \<Rightarrow> checkpoint_stats \<times> checkpoint_fs" where
  "stats_of_ids k [] st fs = (st, fs)"
| "stats_of_ids k (i # ids) st fs =
     (case fs_call fs of
        (FsFail _, fs') \<Rightarrow> stats_of_ids k ids st fs'
      | (FsOk, fs') \<Rightarrow>
          (case hm_get (fs_files fs') (checkpoint_path k i) of
             None \<Rightarrow> stats_of_ids k ids st fs'
           | Some f \<Rightarrow>
               stats_of_ids k ids
                 (st\<lparr>ks_total_size_bytes := ks_total_size_bytes st + u64_len (kf_text f),
                     ks_oldest_timestamp :=
                       (case ks_oldest_timestamp st of
                          None \<Rightarrow> Some (kf_modified f) | Some t \<Rightarrow> Some (min t (kf_modified f))),
                     ks_newest_timestamp :=
                       (case ks_newest_timestamp st of
                          None \<Rightarrow> Some (kf_modified f) | Some t \<Rightarrow> Some (max t (kf_modified f)))\<rparr>) fs'))"

definition get_checkpoint_stats :: "checkpoint_codec \<Rightarrow> checkpoint_fs \<Rightarrow> checkpoint_stats res \<times> checkpoint_fs" where
  "get_checkpoint_stats k fs =
     (case list_checkpoints k fs of
        (Inl err, fs') \<Rightarrow> (Inl err, fs')
      | (Inr ids, fs') \<Rightarrow>
          (case stats_of_ids k ids
                  \<lparr>ks_count = length ids, ks_total_size_bytes = 0, ks_oldest_timestamp = None, ks_newest_timestamp = None\<rparr>
                  fs' of
             (st, fs'') \<Rightarrow> (Inr st, fs'')))"

end
