(* ===== verification/Migration.thy ===== *)
theory Migration
  imports MigrationCheckpoints
begin

text \<open>
  Data migration, \<open>src/src/migration/\<close>: the progress (\<open>progress.rs\<close>), the manager and the batch
  processor (\<open>mod.rs\<close>).

  A tokio task that panics ends the process in the release profile (\<open>panic = "abort"\<close>), so a panic is one
  of the ways in which a migration stops.  A loop that never stops has the value \<open>None\<close>.

  The bounded channel delivers the batches in order, so the model fetches a batch when the consumer asks
  for it.  What other tasks do to the shared state between two batches is an argument.  Times are
  nanoseconds, \<open>me_utc\<close> and \<open>me_instant\<close> the clocks at the n-th round of the loop.
\<close>

unbundle bit_operations_syntax

subsection \<open>The manager\<close>

datatype migration_status = MtPending | MtRunning | MtPaused | MtCompleted | MtFailed | MtCancelled

record migration_progress =
  mp_id :: migration_uuid
  mp_status :: migration_status
  mp_source_type :: source_type
  mp_target_collection :: string
  mp_total_records :: "u64 option"
  mp_processed_records :: u64
  mp_failed_records :: u64
  mp_current_batch :: u64
  mp_start_time :: int
  mp_last_update :: int
  mp_estimated_completion :: "int option"
  mp_throughput_per_second :: f64
  mp_error_messages :: "string list"

record migration_manager =
  mm_active :: "(migration_uuid \<times> migration_progress) list"
  mm_checkpoints :: checkpoint_fs

definition migration_manager_new :: "checkpoint_fs \<Rightarrow> migration_manager" where
  "migration_manager_new fs = \<lparr>mm_active = [], mm_checkpoints = fs\<rparr>"

text \<open>
  The outside of a migration: the clients' environment, the file formats, arithmetic and conversions of
  floats, the greatest time chrono represents, the clocks, the random offsets of the consistency check,
  and the other tasks.
\<close>

record 'h migration_env =
  me_clients :: "'h client_env"
  me_codec :: checkpoint_codec
  me_metadata_text :: "(string \<times> json) list \<Rightarrow> string option"
  me_utc_text :: "int \<Rightarrow> string"
  me_fd :: f64_ops
  me_to_i64 :: "f64 \<Rightarrow> int"
  me_to_u64 :: "f64 \<Rightarrow> u64"
  me_duration :: "f64 \<Rightarrow> nat option"
  me_parse_f64 :: "string \<Rightarrow> f64 option"
  me_f64_text :: "f64 \<Rightarrow> string"
  me_max_time :: int
  me_utc :: "nat \<Rightarrow> int"
  me_instant :: "nat \<Rightarrow> int"
  me_sample :: "u64 \<Rightarrow> nat \<Rightarrow> u64"
  me_others :: "nat \<Rightarrow> migration_manager \<Rightarrow> migration_manager"

definition change_progress ::
  "migration_uuid \<Rightarrow> (migration_progress \<Rightarrow> migration_progress) \<Rightarrow> migration_manager \<Rightarrow> migration_manager"
where
  "change_progress i f m =
     (case hm_get (mm_active m) i of None \<Rightarrow> m | Some p \<Rightarrow> m\<lparr>mm_active := hm_insert i (f p) (mm_active m)\<rparr>)"

definition update_status :: "int \<Rightarrow> migration_uuid \<Rightarrow> migration_status \<Rightarrow> migration_manager \<Rightarrow> migration_manager" where
  "update_status now i status = change_progress i (\<lambda>p. p\<lparr>mp_status := status, mp_last_update := now\<rparr>)"

definition update_total_records :: "migration_uuid \<Rightarrow> u64 \<Rightarrow> migration_manager \<Rightarrow> migration_manager" where
  "update_total_records i whole = change_progress i (\<lambda>p. p\<lparr>mp_total_records := Some whole\<rparr>)"

definition get_progress :: "migration_uuid \<Rightarrow> migration_manager \<Rightarrow> migration_progress option" where
  "get_progress i m = hm_get (mm_active m) i"

definition list_migrations :: "migration_manager \<Rightarrow> migration_progress list" where
  "list_migrations m = hm_values (mm_active m)"

definition cancel_migration :: "int \<Rightarrow> migration_uuid \<Rightarrow> migration_manager \<Rightarrow> unit res \<times> migration_manager" where
  "cancel_migration now i m = (Inr (), update_status now i MtCancelled m)"

definition resume_migration :: "int \<Rightarrow> migration_uuid \<Rightarrow> migration_manager \<Rightarrow> bool res \<times> migration_manager" where
  "resume_migration now i m =
     (case get_progress i m of
        None \<Rightarrow> (Inr False, m)
      | Some p \<Rightarrow>
          (case mp_status p of
             MtFailed \<Rightarrow> (Inr True, update_status now i MtRunning m)
           | MtCancelled \<Rightarrow> (Inr True, update_status now i MtRunning m)
           | _ \<Rightarrow> (Inr False, m)))"

text \<open>Whole seconds of a difference of times, cut towards zero.\<close>

definition num_seconds :: "int \<Rightarrow> int" where
  "num_seconds d = (if d < 0 then - ((- d) div 1000000000) else d div 1000000000)"

text \<open>\<open>last_update + Duration::seconds(s)\<close>: \<open>None\<close> where one of the two panics.\<close>

definition time_plus_seconds :: "'h migration_env \<Rightarrow> int \<Rightarrow> int \<Rightarrow> int option" where
  "time_plus_seconds e t s =
     (if (2 ^ 63 - 1) div 1000 < \<bar>s\<bar> \<or> me_max_time e < t + s * 1000000000 then None else Some (t + s * 1000000000))"

definition with_counts :: "'h migration_env \<Rightarrow> int \<Rightarrow> u64 \<Rightarrow> u64 \<Rightarrow> migration_progress \<Rightarrow> migration_progress" where
  "with_counts e now processed failed p =
     (let p1 = p\<lparr>mp_processed_records := processed, mp_failed_records := failed, mp_last_update := now\<rparr>;
          elapsed = num_seconds (now - mp_start_time p)
      in if 0 < elapsed
         then p1\<lparr>mp_throughput_per_second := fd_div (me_fd e) (f64_of_nat (unat processed)) (f64_of_int elapsed)\<rparr>
         else p1)"

text \<open>What is left to do is a difference of unsigned numbers.\<close>

definition estimate_completion :: "'h migration_env \<Rightarrow> migration_progress \<Rightarrow> migration_progress option" where
  "estimate_completion e p =
     (case mp_total_records p of
        None \<Rightarrow> Some p
      | Some whole \<Rightarrow>
          (if f64_less 0 (mp_throughput_per_second p) then
             (let remaining = whole - mp_processed_records p;
                  eta = fd_div (me_fd e) (f64_of_nat (unat remaining)) (mp_throughput_per_second p)
              in map_option (\<lambda>t. p\<lparr>mp_estimated_completion := Some t\<rparr>)
                   (time_plus_seconds e (mp_last_update p) (me_to_i64 e eta)))
           else Some p))"

definition update_processed ::
  "'h migration_env \<Rightarrow> int \<Rightarrow> migration_uuid \<Rightarrow> u64 \<Rightarrow> u64 \<Rightarrow> migration_manager \<Rightarrow> bool \<times> migration_manager"
where
  "update_processed e now i processed failed m =
     (case get_progress i m of
        None \<Rightarrow> (False, m)
      | Some p \<Rightarrow>
          (let p' = with_counts e now processed failed p
           in case estimate_completion e p' of
                None \<Rightarrow> (True, change_progress i (\<lambda>_. p') m)
              | Some p'' \<Rightarrow> (False, change_progress i (\<lambda>_. p'') m)))"

subsection \<open>Progress\<close>

record throughput_sample =
  ts_timestamp :: int
  ts_records_processed :: u64

record sample_window =
  tw_samples :: "throughput_sample list"
  tw_window_size :: nat
  tw_max_samples :: nat

definition sample_window_new :: "nat \<Rightarrow> nat \<Rightarrow> sample_window" where
  "sample_window_new size_of_window most = \<lparr>tw_samples = [], tw_window_size = size_of_window, tw_max_samples = most\<rparr>"

definition add_sample :: "int \<Rightarrow> u64 \<Rightarrow> sample_window \<Rightarrow> sample_window" where
  "add_sample t n w =
     (let kept = filter (\<lambda>s. t - int (tw_window_size w) \<le> ts_timestamp s) (tw_samples w) @
                 [\<lparr>ts_timestamp = t, ts_records_processed = n\<rparr>]
      in w\<lparr>tw_samples := (if tw_max_samples w < length kept then tl kept else kept)\<rparr>)"

definition u64_saturating_sub :: "u64 \<Rightarrow> u64 \<Rightarrow> u64" where
  "u64_saturating_sub x y = (if y \<le> x then x - y else 0)"

definition calculate_throughput :: "f64_ops \<Rightarrow> sample_window \<Rightarrow> f64" where
  "calculate_throughput fd w =
     (if length (tw_samples w) < 2 then 0
      else
        (let first = hd (tw_samples w); last_one = last (tw_samples w);
             time_diff = fd_of_nanos fd (nat (ts_timestamp last_one - ts_timestamp first));
             records_diff = u64_saturating_sub (ts_records_processed last_one) (ts_records_processed first)
         in if f64_less 0 time_diff then fd_div fd (f64_of_nat (unat records_diff)) time_diff else 0))"

record progress_tracker =
  pt_migration_id :: migration_uuid
  pt_start_time :: int
  pt_last_update :: int
  pt_window :: sample_window

definition progress_tracker_new :: "int \<Rightarrow> migration_uuid \<Rightarrow> progress_tracker" where
  "progress_tracker_new now i =
     \<lparr>pt_migration_id = i, pt_start_time = now, pt_last_update = now,
      pt_window = sample_window_new (secs 60) 100\<rparr>"

text \<open>The flag tells whether the update of the manager panics.\<close>

definition update_progress ::
  "'h migration_env \<Rightarrow> nat \<Rightarrow> u64 \<Rightarrow> u64 \<Rightarrow> progress_tracker \<times> migration_manager \<Rightarrow>
     bool \<times> progress_tracker \<times> migration_manager"
where
  "update_progress e n processed failed tm =
     (case tm of (tracker, m) \<Rightarrow>
        (let now = me_instant e n;
             tracker' = tracker\<lparr>pt_window := add_sample now processed (pt_window tracker),
                                pt_last_update := now\<rparr>
         in case update_processed e (me_utc e n) (pt_migration_id tracker) processed failed m of
              (panics, m') \<Rightarrow> (panics, tracker', m')))"

definition get_throughput :: "f64_ops \<Rightarrow> progress_tracker \<Rightarrow> f64" where
  "get_throughput fd tracker = calculate_throughput fd (pt_window tracker)"

text \<open>The outer \<open>None\<close> is the panic of a duration that cannot be represented.\<close>

definition get_eta :: "'h migration_env \<Rightarrow> u64 option \<Rightarrow> progress_tracker \<Rightarrow> migration_manager \<Rightarrow> nat option option" where
  "get_eta e total_records tracker m =
     (case total_records of
        None \<Rightarrow> Some None
      | Some whole \<Rightarrow>
          (case get_progress (pt_migration_id tracker) m of
             None \<Rightarrow> Some None
           | Some p \<Rightarrow>
               (let remaining = u64_saturating_sub whole (mp_processed_records p);
                    throughput = get_throughput (me_fd e) tracker
                in if remaining = 0 then Some (Some 0)
                   else if f64_less 0 throughput then
                     map_option Some (me_duration e (fd_div (me_fd e) (f64_of_nat (unat remaining)) throughput))
                   else Some None)))"

record progress_stats =
  pg_migration_id :: migration_uuid
  pg_status :: migration_status
  pg_total_records :: "u64 option"
  pg_processed_records :: u64
  pg_failed_records :: u64
  pg_completion_percentage :: f64
  pg_elapsed_time :: nat
  pg_current_throughput :: f64
  pg_average_throughput :: f64
  pg_estimated_time_remaining :: "nat option"
  pg_error_rate :: f64

definition f64_min :: "f64 \<Rightarrow> f64 \<Rightarrow> f64" where
  "f64_min x y = (if f64_is_nan x then y else if f64_is_nan y then x else if f64_less y x then y else x)"

definition percentage :: "f64_ops \<Rightarrow> u64 \<Rightarrow> u64 \<Rightarrow> f64" where
  "percentage fd part whole = fd_mul fd (fd_div fd (f64_of_nat (unat part)) (f64_of_nat (unat whole))) f64_hundred"

definition get_stats ::
  "'h migration_env \<Rightarrow> int \<Rightarrow> progress_tracker \<Rightarrow> migration_manager \<Rightarrow> progress_stats res option"
where
  "get_stats e now tracker m =
     (case get_progress (pt_migration_id tracker) m of
        None \<Rightarrow> Some (Inl EConfig)
      | Some p \<Rightarrow>
          (let elapsed = nat (now - pt_start_time tracker);
               both = mp_processed_records p + mp_failed_records p
           in map_option (\<lambda>eta. Inr
                \<lparr>pg_migration_id = pt_migration_id tracker, pg_status = mp_status p,
                 pg_total_records = mp_total_records p, pg_processed_records = mp_processed_records p,
                 pg_failed_records = mp_failed_records p,
                 pg_completion_percentage =
                   (case mp_total_records p of
                      None \<Rightarrow> 0
                    | Some whole \<Rightarrow>
                        if 0 < whole then f64_min (percentage (me_fd e) (mp_processed_records p) whole) f64_hundred else 0),
                 pg_elapsed_time = elapsed,
                 pg_current_throughput = get_throughput (me_fd e) tracker,
                 pg_average_throughput =
                   (if 0 < elapsed div secs 1
                    then fd_div (me_fd e) (f64_of_nat (unat (mp_processed_records p))) (fd_of_nanos (me_fd e) elapsed)
                    else 0),
                 pg_estimated_time_remaining = eta,
                 pg_error_rate = (if 0 < both then percentage (me_fd e) (mp_failed_records p) both else 0)\<rparr>)
                (get_eta e (mp_total_records p) tracker m)))"

definition format_duration :: "nat \<Rightarrow> string" where
  "format_duration duration =
     (let s = duration div secs 1
      in if s < 60 then decimal s @ ''s''
         else if s < 3600 then decimal (s div 60) @ ''m '' @ decimal (s mod 60) @ ''s''
         else if s < 86400 then decimal (s div 3600) @ ''h '' @ decimal (s mod 3600 div 60) @ ''m''
         else decimal (s div 86400) @ ''d '' @ decimal (s mod 86400 div 3600) @ ''h'')"

subsection \<open>Transformations\<close>

fun join_comma :: "string list \<Rightarrow> string" where
  "join_comma [] = []"
| "join_comma [s] = s"
| "join_comma (s # t # rest) = s @ '','' @ join_comma (t # rest)"

definition convert_value :: "'h migration_env \<Rightarrow> conversion_type \<Rightarrow> json \<Rightarrow> json" where
  "convert_value e conversion v =
     (case conversion of
        CvStringToNumber \<Rightarrow>
          (case json_as_str v of
             None \<Rightarrow> v
           | Some s \<Rightarrow>
               (case me_parse_f64 e s of
                  None \<Rightarrow> v
                | Some x \<Rightarrow> if x AND 0x7FF0000000000000 = 0x7FF0000000000000 then JNull else JNumber (NFloat x)))
      | CvNumberToString \<Rightarrow> (case json_as_f64 v of None \<Rightarrow> v | Some x \<Rightarrow> JString (me_f64_text e x))
      | CvArrayToString \<Rightarrow>
          (case json_as_array v of
             None \<Rightarrow> v
           | Some vs \<Rightarrow> JString ((join_comma (List.map_filter json_as_str vs))))
      | CvStringToArray \<Rightarrow>
          (case json_as_str v of
             None \<Rightarrow> v
           | Some s \<Rightarrow> JArray (map (\<lambda>part. JString (trim_text part)) (split_on (CHR '','') s))))"

definition apply_transformation_rule :: "'h migration_env \<Rightarrow> transformation_rule \<Rightarrow> vector_record \<Rightarrow> vector_record" where
  "apply_transformation_rule e rule r =
     (case rule of
        TrDimensionReduction from to _ \<Rightarrow>
          (if length (vr_vector r) = from \<and> to < from then r\<lparr>vr_vector := take to (vr_vector r)\<rparr> else r)
      | TrMetadataFilter _ \<Rightarrow> r
      | TrFieldRename field new_name \<Rightarrow>
          (case hm_get (vr_metadata r) field of
             None \<Rightarrow> r
           | Some v \<Rightarrow> r\<lparr>vr_metadata := hm_insert new_name v (hm_remove field (vr_metadata r))\<rparr>)
      | TrFieldMap field mapping \<Rightarrow>
          (case Option.bind (Option.bind (hm_get (vr_metadata r) field) json_as_str) (hm_get mapping) of
             None \<Rightarrow> r
           | Some mapped \<Rightarrow> r\<lparr>vr_metadata := hm_insert field (JString mapped) (vr_metadata r)\<rparr>)
      | TrFieldConvert field conversion \<Rightarrow>
          (case hm_get (vr_metadata r) field of
             None \<Rightarrow> r
           | Some v \<Rightarrow> r\<lparr>vr_metadata := hm_insert field (convert_value e conversion v) (vr_metadata r)\<rparr>)
      | TrFieldFilter _ _ \<Rightarrow> r)"

definition apply_transformations :: "'h migration_env \<Rightarrow> transformation_rule list \<Rightarrow> vector_record list \<Rightarrow> vector_record list" where
  "apply_transformations e rules records = map (\<lambda>r. fold (apply_transformation_rule e) rules r) records"

subsection \<open>Batches\<close>

record vector_batch =
  vb_records :: "vector_record list"
  vb_batch_id :: u64
  vb_checkpoint_data :: "json option"

fun first_error :: "(vector_record \<Rightarrow> unit res) \<Rightarrow> vector_record list \<Rightarrow> unit res" where
  "first_error f [] = Inr ()"
| "first_error f (r # rs) = and_then (f r) (\<lambda>_. first_error f rs)"

definition process_batch ::
  "'h migration_env \<Rightarrow> migration_config \<Rightarrow> 'h target_ops \<Rightarrow> vector_batch \<Rightarrow> 'h \<Rightarrow> unit res \<times> 'h"
where
  "process_batch e c ta b h =
     (if mc_dry_run c
      then (first_error (validate_record (me_metadata_text e) (mc_validation c)) (vb_records b), h)
      else
        (let transformed = apply_transformations e (mc_transformations c) (vb_records b)
         in case first_error (validate_record (me_metadata_text e) (mc_validation c)) transformed of
              Inl err \<Rightarrow> (Inl err, h)
            | Inr _ \<Rightarrow> to_insert ta transformed h))"

definition checkpoint_data :: "'h migration_env \<Rightarrow> nat \<Rightarrow> u64 \<Rightarrow> u64 \<Rightarrow> vector_record list \<Rightarrow> json" where
  "checkpoint_data e n offset batch_id records =
     JObject
       [(''batch_id'', JNumber (NPos batch_id)), (''offset'', JNumber (NPos (offset + u64_len records))),
        (''timestamp'', JString (me_utc_text e (me_utc e n)))]"

text \<open>Where the producer starts; dividing by a batch size of zero panics.\<close>

definition producer_start :: "migration_config \<Rightarrow> json option \<Rightarrow> (u64 \<times> u64) option" where
  "producer_start c saved =
     (case Option.bind (Option.bind saved (\<lambda>v. json_get v ''offset'')) json_as_u64 of
        None \<Rightarrow> Some (0, 0)
      | Some offset \<Rightarrow>
          (if of_nat (mc_batch_size c) = (0 :: u64) then None else Some (offset, offset div of_nat (mc_batch_size c))))"

datatype 'a produced = Produced 'a | ProducerEnded | ProducerPanicked

record 's producer =
  pd_source :: 's
  pd_offset :: u64
  pd_batch_id :: u64

text \<open>One round of the producer.  An error of the source is logged, and ends it like an empty batch.\<close>

definition produce ::
  "'h migration_env \<Rightarrow> migration_config \<Rightarrow> ('s, 'h) source_ops \<Rightarrow> nat \<Rightarrow> 's producer \<Rightarrow> 'h \<Rightarrow>
     vector_batch produced \<times> 's producer \<times> 'h"
where
  "produce e c so n p h =
     (case so_fetch so (pd_offset p) (mc_batch_size c) (pd_source p) h of
        None \<Rightarrow> (ProducerPanicked, p, h)
      | Some (Inl err, s', h') \<Rightarrow> (ProducerEnded, p\<lparr>pd_source := s'\<rparr>, h')
      | Some (Inr records, s', h') \<Rightarrow>
          (if records = [] then (ProducerEnded, p\<lparr>pd_source := s'\<rparr>, h')
           else
             (Produced \<lparr>vb_records = records, vb_batch_id = pd_batch_id p,
                        vb_checkpoint_data = Some (checkpoint_data e n (pd_offset p) (pd_batch_id p) records)\<rparr>,
              \<lparr>pd_source = s', pd_offset = pd_offset p + of_nat (mc_batch_size c), pd_batch_id = pd_batch_id p + 1\<rparr>, h')))"

subsection \<open>The streaming migration\<close>

datatype migration_end = MeOk | MeErr rtdb_error | MePanic

record 'h migration_world =
  mw_net :: 'h
  mw_manager :: migration_manager

record ('s, 'h) stream_state =
  sm_producer :: "'s producer"
  sm_processed :: u64
  sm_failed :: u64
  sm_tracker :: progress_tracker
  sm_round :: nat
  sm_world :: "'h migration_world"

datatype 'a round = Stop migration_end 'a | Continue 'a

text \<open>The consumer saves the checkpoint of a batch that succeeded; a batch that fails is counted and passed over.\<close>

definition consume ::
  "'h migration_env \<Rightarrow> migration_config \<Rightarrow> 'h target_ops \<Rightarrow> vector_batch \<Rightarrow> ('s, 'h) stream_state \<Rightarrow> ('s, 'h) stream_state round"
where
  "consume e c ta b st =
     (let w = sm_world st; m = mw_manager w;
          (done_batch, net) = process_batch e c ta b (mw_net w);
          (saved, fs) =
            (case done_batch of
               Inl _ \<Rightarrow> (Inr (), mm_checkpoints m)
             | Inr _ \<Rightarrow>
                 (case vb_checkpoint_data b of
                    None \<Rightarrow> (Inr (), mm_checkpoints m)
                  | Some data \<Rightarrow>
                      save_checkpoint (me_codec e) (me_utc e (sm_round st)) (mc_id c) data (mm_checkpoints m)));
          processed = (case done_batch of Inl _ \<Rightarrow> sm_processed st | Inr _ \<Rightarrow> sm_processed st + u64_len (vb_records b));
          failed = (case done_batch of Inl _ \<Rightarrow> sm_failed st + u64_len (vb_records b) | Inr _ \<Rightarrow> sm_failed st);
          m' = m\<lparr>mm_checkpoints := fs\<rparr>;
          st' = st\<lparr>sm_processed := processed, sm_failed := failed, sm_world := \<lparr>mw_net = net, mw_manager = m'\<rparr>\<rparr>
      in case saved of
           Inl err \<Rightarrow> Stop (MeErr err) st'
         | Inr _ \<Rightarrow>
             (case update_progress e (sm_round st) processed failed (sm_tracker st, m') of
                (panics, tracker, m'') \<Rightarrow>
                  (if panics
                   then Stop MePanic (st'\<lparr>sm_tracker := tracker, sm_world := \<lparr>mw_net = net, mw_manager = m''\<rparr>\<rparr>)
                   else
                     Continue
                       (st'\<lparr>sm_tracker := tracker, sm_round := Suc (sm_round st),
                            sm_world := \<lparr>mw_net = net, mw_manager = me_others e (sm_round st) m''\<rparr>\<rparr>))))"

definition stream_round ::
  "'h migration_env \<Rightarrow> migration_config \<Rightarrow> ('s, 'h) source_ops \<Rightarrow> 'h target_ops \<Rightarrow> ('s, 'h) stream_state \<Rightarrow>
     ('s, 'h) stream_state round"
where
  "stream_round e c so ta st =
     (case produce e c so (sm_round st) (sm_producer st) (mw_net (sm_world st)) of
        (next_batch, p, net) \<Rightarrow>
          (let st' = st\<lparr>sm_producer := p, sm_world := (sm_world st)\<lparr>mw_net := net\<rparr>\<rparr>
           in case next_batch of
                ProducerPanicked \<Rightarrow> Stop MePanic st'
              | ProducerEnded \<Rightarrow> Stop MeOk st'
              | Produced b \<Rightarrow> consume e c ta b st'))"

partial_function (option) stream_loop ::
  "'h migration_env \<Rightarrow> migration_config \<Rightarrow> ('s, 'h) source_ops \<Rightarrow> 'h target_ops \<Rightarrow> ('s, 'h) stream_state \<Rightarrow>
     (migration_end \<times> ('s, 'h) stream_state) option"
where
  "stream_loop e c so ta st =
     (case stream_round e c so ta st of
        Stop r st' \<Rightarrow> Some (r, st')
      | Continue st' \<Rightarrow> stream_loop e c so ta st')"

text \<open>A channel without capacity panics.\<close>

definition stream_migration ::
  "'h migration_env \<Rightarrow> migration_config \<Rightarrow> ('s, 'h) source_ops \<Rightarrow> 'h target_ops \<Rightarrow> 's \<Rightarrow> progress_tracker \<Rightarrow>
     json option \<Rightarrow> 'h migration_world \<Rightarrow> (migration_end \<times> 'h migration_world) option"
where
  "stream_migration e c so ta s tracker saved w =
     (if mc_max_concurrency c = 0 then Some (MePanic, w)
      else
        (case producer_start c saved of
           None \<Rightarrow> Some (MePanic, w)
         | Some (offset, batch_id) \<Rightarrow>
             map_option (\<lambda>(r, st). (r, sm_world st))
               (stream_loop e c so ta
                  \<lparr>sm_producer = \<lparr>pd_source = s, pd_offset = offset, pd_batch_id = batch_id\<rparr>, sm_processed = 0,
                   sm_failed = 0, sm_tracker = tracker, sm_round = 0, sm_world = w\<rparr>)))"

end
