(* ===== verification/MigrationStrategies.thy ===== *)
theory MigrationStrategies
  imports Migration
begin

text \<open>
  The strategies of a data migration, \<open>src/src/migration/strategies.rs\<close>, and the task that executes a
  migration, \<open>src/src/migration/mod.rs\<close>.

  The streaming of the executor runs its batches as concurrent tasks.  An event is one atomic step of the
  producer, of the consumer or of a task, and a step yields \<open>None\<close> where the event is not enabled; the
  order of the events is an argument.  A receiver ends when its queue is empty and no sender is left.
\<close>

unbundle bit_operations_syntax

subsection \<open>Streaming with concurrent batches\<close>

text \<open>A task before the insertion, before the temporary file, before the renaming, and with its counts.\<close>

datatype batch_task =
  TkStart vector_batch | TkInserted vector_batch | TkWritten vector_batch | TkDone "(u64 \<times> u64) res"

record ('s, 'h) streaming_state =
  xs_producer :: "'s producer"
  xs_ended :: bool
  xs_queue :: "vector_batch list"
  xs_tasks :: "batch_task list"
  xs_processed :: u64
  xs_failed :: u64
  xs_tracker :: progress_tracker
  xs_round :: nat
  xs_world :: "'h migration_world"
  xs_result :: "migration_end option"

datatype stream_event = EvProduce | EvSpawn | EvTask nat | EvCollect nat | EvFinish

definition set_checkpoints :: "checkpoint_fs \<Rightarrow> 'h migration_world \<Rightarrow> 'h migration_world" where
  "set_checkpoints fs w = w\<lparr>mw_manager := (mw_manager w)\<lparr>mm_checkpoints := fs\<rparr>\<rparr>"

text \<open>One atomic step of \<open>process_batch_streaming\<close>.\<close>

definition task_step ::
  "'h migration_env \<Rightarrow> migration_config \<Rightarrow> 'h target_ops \<Rightarrow> nat \<Rightarrow> batch_task \<Rightarrow> 'h migration_world \<Rightarrow>
     (batch_task \<times> 'h migration_world) option"
where
  "task_step e c ta n t w =
     (case t of
        TkStart b \<Rightarrow>
          Some
            (if mc_dry_run c then (TkDone (Inr (u64_len (vb_records b), 0)), w)
             else
               (case to_insert ta (vb_records b) (mw_net w) of
                  (Inr _, net) \<Rightarrow> (TkInserted b, w\<lparr>mw_net := net\<rparr>)
                | (Inl _, net) \<Rightarrow> (TkDone (Inr (0, u64_len (vb_records b))), w\<lparr>mw_net := net\<rparr>)))
      | TkInserted b \<Rightarrow>
          Some
            (case vb_checkpoint_data b of
               None \<Rightarrow> (TkDone (Inr (u64_len (vb_records b), 0)), w)
             | Some data \<Rightarrow>
                 (case write_temp (me_codec e) (me_utc e n) (mc_id c) data (mm_checkpoints (mw_manager w)) of
                    (Inl err, fs) \<Rightarrow> (TkDone (Inl err), set_checkpoints fs w)
                  | (Inr _, fs) \<Rightarrow> (TkWritten b, set_checkpoints fs w)))
      | TkWritten b \<Rightarrow>
          Some
            (case rename_temp (me_codec e) (mc_id c) (mm_checkpoints (mw_manager w)) of
               (Inl err, fs) \<Rightarrow> (TkDone (Inl err), set_checkpoints fs w)
             | (Inr _, fs) \<Rightarrow> (TkDone (Inr (u64_len (vb_records b), 0)), set_checkpoints fs w))
      | TkDone _ \<Rightarrow> None)"

definition is_done :: "batch_task \<Rightarrow> bool" where
  "is_done t \<longleftrightarrow> (case t of TkDone _ \<Rightarrow> True | _ \<Rightarrow> False)"

text \<open>A task that ended with an error counts as one failed record.\<close>

definition add_counts :: "batch_task \<Rightarrow> u64 \<times> u64 \<Rightarrow> u64 \<times> u64" where
  "add_counts t counts =
     (case counts of (processed, failed) \<Rightarrow>
        (case t of
           TkDone (Inr (p, f)) \<Rightarrow> (processed + p, failed + f)
         | TkDone (Inl _) \<Rightarrow> (processed, failed + 1)
         | _ \<Rightarrow> (processed, failed)))"

text \<open>
  The senders of the channel: the clone that the producer owns and drops when it ends, and the one from
  which it was cloned, which stays in scope until the function returns.
\<close>

definition open_senders :: "('s, 'h) streaming_state \<Rightarrow> nat" where
  "open_senders st = (if xs_ended st then 0 else 1) + 1"

definition report_counts :: "'h migration_env \<Rightarrow> u64 \<times> u64 \<Rightarrow> migration_end option \<Rightarrow> ('s, 'h) streaming_state \<Rightarrow> ('s, 'h) streaming_state" where
  "report_counts e counts outcome st =
     (case update_progress e (xs_round st) (fst counts) (snd counts) (xs_tracker st, mw_manager (xs_world st)) of
        (panics, tracker, m) \<Rightarrow>
          st\<lparr>xs_processed := fst counts, xs_failed := snd counts, xs_tracker := tracker,
             xs_round := Suc (xs_round st), xs_world := (xs_world st)\<lparr>mw_manager := m\<rparr>,
             xs_result := (if panics then Some MePanic else outcome)\<rparr>)"

definition stream_step ::
  "'h migration_env \<Rightarrow> migration_config \<Rightarrow> ('s, 'h) source_ops \<Rightarrow> 'h target_ops \<Rightarrow> stream_event \<Rightarrow>
     ('s, 'h) streaming_state \<Rightarrow> ('s, 'h) streaming_state option"
where
  "stream_step e c so ta ev st =
     (if xs_result st \<noteq> None then None
      else
        (case ev of
           EvProduce \<Rightarrow>
             (if xs_ended st \<or> mc_max_concurrency c \<le> length (xs_queue st) then None
              else
                (case produce e c so (xs_round st) (xs_producer st) (mw_net (xs_world st)) of
                   (next_batch, p, net) \<Rightarrow>
                     (let st' = st\<lparr>xs_producer := p, xs_world := (xs_world st)\<lparr>mw_net := net\<rparr>\<rparr>
                      in Some
                           (case next_batch of
                              ProducerPanicked \<Rightarrow> st'\<lparr>xs_result := Some MePanic\<rparr>
                            | ProducerEnded \<Rightarrow> st'\<lparr>xs_ended := True\<rparr>
                            | Produced b \<Rightarrow> st'\<lparr>xs_queue := xs_queue st @ [b]\<rparr>))))
         | EvSpawn \<Rightarrow>
             (case xs_queue st of
                [] \<Rightarrow> None
              | b # queue \<Rightarrow>
                  (if mc_max_concurrency c \<le> length (xs_tasks st) then None
                   else Some (st\<lparr>xs_queue := queue, xs_tasks := xs_tasks st @ [TkStart b]\<rparr>)))
         | EvTask i \<Rightarrow>
             (if length (xs_tasks st) \<le> i then None
              else
                map_option (\<lambda>(t, w). st\<lparr>xs_tasks := (xs_tasks st)[i := t], xs_world := w\<rparr>)
                  (task_step e c ta (xs_round st) (xs_tasks st ! i) (xs_world st)))
         | EvCollect i \<Rightarrow>
             (if length (xs_tasks st) < mc_max_concurrency c \<or> length (xs_tasks st) \<le> i \<or> \<not> is_done (xs_tasks st ! i)
              then None
              else
                Some
                  (report_counts e (add_counts (xs_tasks st ! i) (xs_processed st, xs_failed st)) None
                     (st\<lparr>xs_tasks := take i (xs_tasks st) @ drop (Suc i) (xs_tasks st)\<rparr>)))
         | EvFinish \<Rightarrow>
             (if open_senders st = 0 \<and> xs_queue st = [] \<and> length (xs_tasks st) < mc_max_concurrency c \<and>
                 list_all is_done (xs_tasks st)
              then
                Some (report_counts e (fold add_counts (xs_tasks st) (xs_processed st, xs_failed st)) (Some MeOk) st)
              else None)))"

fun stream_run ::
  "'h migration_env \<Rightarrow> migration_config \<Rightarrow> ('s, 'h) source_ops \<Rightarrow> 'h target_ops \<Rightarrow> stream_event list \<Rightarrow>
     ('s, 'h) streaming_state \<Rightarrow> ('s, 'h) streaming_state option"
where
  "stream_run e c so ta [] st = Some st"
| "stream_run e c so ta (ev # evs) st = Option.bind (stream_step e c so ta ev st) (stream_run e c so ta evs)"

definition streaming_start ::
  "'s \<Rightarrow> u64 \<Rightarrow> u64 \<Rightarrow> progress_tracker \<Rightarrow> 'h migration_world \<Rightarrow> ('s, 'h) streaming_state"
where
  "streaming_start s offset batch_id tracker w =
     \<lparr>xs_producer = \<lparr>pd_source = s, pd_offset = offset, pd_batch_id = batch_id\<rparr>, xs_ended = False, xs_queue = [],
      xs_tasks = [], xs_processed = 0, xs_failed = 0, xs_tracker = tracker, xs_round = 0, xs_world = w,
      xs_result = None\<rparr>"

text \<open>\<open>None\<close> where the events do not run up to a result.\<close>

definition execute_streaming ::
  "'h migration_env \<Rightarrow> migration_config \<Rightarrow> ('s, 'h) source_ops \<Rightarrow> 'h target_ops \<Rightarrow> stream_event list \<Rightarrow> 's \<Rightarrow>
     progress_tracker \<Rightarrow> json option \<Rightarrow> 'h migration_world \<Rightarrow> (migration_end \<times> 'h migration_world) option"
where
  "execute_streaming e c so ta events s tracker saved w =
     (if mc_max_concurrency c = 0 then Some (MePanic, w)
      else
        (case producer_start c saved of
           None \<Rightarrow> Some (MePanic, w)
         | Some (offset, batch_id) \<Rightarrow>
             Option.bind (stream_run e c so ta events (streaming_start s offset batch_id tracker w))
               (\<lambda>st. map_option (\<lambda>r. (r, xs_world st)) (xs_result st))))"

subsection \<open>Dual writes\<close>

definition and_phase ::
  "(migration_end \<times> 'w) option \<Rightarrow> ('w \<Rightarrow> (migration_end \<times> 'w) option) \<Rightarrow> (migration_end \<times> 'w) option"
where
  "and_phase r f = (case r of Some (MeOk, w) \<Rightarrow> f w | _ \<Rightarrow> r)"

text \<open>What \<open>?\<close> makes of a result with the state of the network.\<close>

definition stop_on :: "rtdb_error \<Rightarrow> 'h migration_world \<Rightarrow> (migration_end \<times> 'h migration_world) option" where
  "stop_on err w = Some (MeErr err, w)"

definition start_dual_write_mode ::
  "'h migration_env \<Rightarrow> migration_config \<Rightarrow> 'h migration_world \<Rightarrow> (migration_end \<times> 'h migration_world) option"
where
  "start_dual_write_mode e c w =
     (case create_source_client (me_clients e) c of
        Inl err \<Rightarrow> stop_on err w
      | Inr s \<Rightarrow>
          (case create_target_client (me_clients e) c of
             Inl err \<Rightarrow> stop_on err w
           | Inr t \<Rightarrow>
               (case source_count (me_clients e) s (mw_net w) of
                  (Inl _, net) \<Rightarrow> stop_on EMigration (w\<lparr>mw_net := net\<rparr>)
                | (Inr _, net) \<Rightarrow>
                    (case target_insert_batch (me_clients e) t [] net of
                       (Inl _, net') \<Rightarrow> stop_on EMigration (w\<lparr>mw_net := net'\<rparr>)
                     | (Inr _, net') \<Rightarrow> Some (MeOk, w\<lparr>mw_net := net'\<rparr>)))))"

text \<open>Equality of floats, of which a vector's inequality is the negation.\<close>

definition f32_same :: "f32 \<Rightarrow> f32 \<Rightarrow> bool" where
  "f32_same x y \<longleftrightarrow>
     \<not> f32_is_nan x \<and> \<not> f32_is_nan y \<and> (x = y \<or> (x AND 0x7FFFFFFF = 0 \<and> y AND 0x7FFFFFFF = 0))"

text \<open>One sample of the consistency check: a fetch that fails, or finds nothing, is no inconsistency.\<close>

definition sample_once ::
  "('s, 'h) source_ops \<Rightarrow> 'h target_ops \<Rightarrow> u64 \<Rightarrow> 's \<times> 'h \<times> nat \<Rightarrow> ('s \<times> 'h \<times> nat) option"
where
  "sample_once so ta offset st =
     (case st of (s, h, inconsistencies) \<Rightarrow>
        (case so_fetch so offset 1 s h of
           None \<Rightarrow> None
         | Some (source_batch, s', h1) \<Rightarrow>
             (case to_fetch ta offset 1 h1 of
                (target_batch, h2) \<Rightarrow>
                  (case (source_batch, target_batch) of
                     (Inr [r], Inr [q]) \<Rightarrow>
                       Some (s', h2,
                         if list_all2 f32_same (vr_vector r) (vr_vector q) then inconsistencies else Suc inconsistencies)
                   | _ \<Rightarrow> Some (s', h2, inconsistencies)))))"

fun sample_loop ::
  "('s, 'h) source_ops \<Rightarrow> 'h target_ops \<Rightarrow> u64 list \<Rightarrow> 's \<times> 'h \<times> nat \<Rightarrow> ('s \<times> 'h \<times> nat) option"
where
  "sample_loop so ta [] st = Some st"
| "sample_loop so ta (offset # offsets) st = Option.bind (sample_once so ta offset st) (sample_loop so ta offsets)"

text \<open>The literals 0.01 and 99.\<close>

definition f64_percent :: f64 where "f64_percent = 0x3F847AE147AE147B"
definition f64_ninety_nine :: f64 where "f64_ninety_nine = 0x4058C00000000000"

definition consistency_rate :: "f64_ops \<Rightarrow> nat \<Rightarrow> nat \<Rightarrow> f64" where
  "consistency_rate fd sample_size inconsistencies =
     (if 0 < sample_size
      then fd_mul fd (fd_div fd (f64_of_nat (sample_size - inconsistencies)) (f64_of_nat sample_size)) f64_hundred
      else f64_hundred)"

definition check_counts ::
  "'h migration_env \<Rightarrow> u64 option res \<Rightarrow> u64 option res \<Rightarrow> u64 res"
where
  "check_counts e source_result target_result =
     and_then source_result (\<lambda>source_opt. and_then (ok_or source_opt EMigration) (\<lambda>source_total.
       and_then target_result (\<lambda>target_opt. and_then (ok_or target_opt EMigration) (\<lambda>target_total.
         (let diff = (if source_total < target_total then target_total - source_total else source_total - target_total);
              allowed = me_to_u64 e (fd_mul (me_fd e) (f64_of_nat (unat source_total)) f64_percent)
          in if allowed < diff then Inl EMigration else Inr source_total)))))"

text \<open>The target is asked for its count only if the source gave one, which its state does not show.\<close>

definition verify_consistency ::
  "'h migration_env \<Rightarrow> ('s, 'h) source_ops \<Rightarrow> 'h target_ops \<Rightarrow> 's \<Rightarrow> 'h migration_world \<Rightarrow>
     (migration_end \<times> 'h migration_world) option"
where
  "verify_consistency e so ta s w =
     (case so_count so s (mw_net w) of
        (source_result, h1) \<Rightarrow>
          (case and_then source_result (\<lambda>n. ok_or n EMigration) of
             Inl err \<Rightarrow> stop_on err (w\<lparr>mw_net := h1\<rparr>)
           | Inr _ \<Rightarrow>
               (case to_count ta h1 of
                  (target_result, h2) \<Rightarrow>
                    (case check_counts e source_result target_result of
                       Inl err \<Rightarrow> stop_on err (w\<lparr>mw_net := h2\<rparr>)
                     | Inr source_total \<Rightarrow>
                         (let sample_size = min 1000 (unat source_total div 100)
                          in case sample_loop so ta (map (me_sample e source_total) [0..<sample_size]) (s, h2, 0) of
                               None \<Rightarrow> Some (MePanic, w)
                             | Some (s', h3, inconsistencies) \<Rightarrow>
                                 (if f64_less (consistency_rate (me_fd e) sample_size inconsistencies) f64_ninety_nine
                                  then stop_on EMigration (w\<lparr>mw_net := h3\<rparr>)
                                  else Some (MeOk, w\<lparr>mw_net := h3\<rparr>)))))))"

definition verify_dual_write_consistency ::
  "'h migration_env \<Rightarrow> migration_config \<Rightarrow> 'h migration_world \<Rightarrow> (migration_end \<times> 'h migration_world) option"
where
  "verify_dual_write_consistency e c w =
     (case create_source_client (me_clients e) c of
        Inl err \<Rightarrow> stop_on err w
      | Inr s \<Rightarrow>
          (case create_target_client (me_clients e) c of
             Inl err \<Rightarrow> stop_on err w
           | Inr t \<Rightarrow> verify_consistency e (client_source_ops (me_clients e)) (rtdb_target_ops (me_clients e) t) s w))"

definition switch_to_target_only ::
  "'h migration_env \<Rightarrow> migration_config \<Rightarrow> 'h migration_world \<Rightarrow> (migration_end \<times> 'h migration_world) option"
where
  "switch_to_target_only e c w =
     and_phase (verify_dual_write_consistency e c w) (\<lambda>w1.
       case create_target_client (me_clients e) c of
         Inl err \<Rightarrow> stop_on err w1
       | Inr t \<Rightarrow>
           (case target_insert_batch (me_clients e) t [] (mw_net w1) of
              (Inl _, net) \<Rightarrow> stop_on EMigration (w1\<lparr>mw_net := net\<rparr>)
            | (Inr _, net) \<Rightarrow>
                (case to_count (rtdb_target_ops (me_clients e) t) net of
                   (r, net') \<Rightarrow>
                     (case and_then r (\<lambda>n. ok_or n EMigration) of
                        Inl err \<Rightarrow> stop_on err (w1\<lparr>mw_net := net'\<rparr>)
                      | Inr _ \<Rightarrow> Some (MeOk, w1\<lparr>mw_net := net'\<rparr>)))))"

subsection \<open>The executor\<close>

record strategy_executor =
  ex_source :: source_client
  ex_target :: rtdb_target
  ex_tracker :: progress_tracker

definition executor_streaming ::
  "'h migration_env \<Rightarrow> migration_config \<Rightarrow> stream_event list \<Rightarrow> strategy_executor \<Rightarrow> json option \<Rightarrow>
     'h migration_world \<Rightarrow> (migration_end \<times> 'h migration_world) option"
where
  "executor_streaming e c events x saved w =
     execute_streaming e c (client_source_ops (me_clients e)) (rtdb_target_ops (me_clients e) (ex_target x)) events
       (ex_source x) (ex_tracker x) saved w"

definition backfill_historical_data ::
  "'h migration_env \<Rightarrow> migration_config \<Rightarrow> stream_event list \<Rightarrow> strategy_executor \<Rightarrow> 'h migration_world \<Rightarrow>
     (migration_end \<times> 'h migration_world) option"
where
  "backfill_historical_data e c events x w = executor_streaming e c events x None w"

definition execute_dual_write ::
  "'h migration_env \<Rightarrow> migration_config \<Rightarrow> stream_event list \<Rightarrow> strategy_executor \<Rightarrow> 'h migration_world \<Rightarrow>
     (migration_end \<times> 'h migration_world) option"
where
  "execute_dual_write e c events x w =
     and_phase (start_dual_write_mode e c w) (\<lambda>w1.
       and_phase (backfill_historical_data e c events x w1) (\<lambda>w2.
         and_phase (verify_dual_write_consistency e c w2) (switch_to_target_only e c)))"

definition prepare_green_environment ::
  "'h migration_env \<Rightarrow> migration_config \<Rightarrow> strategy_executor \<Rightarrow> 'h migration_world \<Rightarrow>
     (migration_end \<times> 'h migration_world) option"
where
  "prepare_green_environment e c x w =
     (case vc_vector_dimension (mc_validation c) of
        None \<Rightarrow> Some (MeOk, w)
      | Some dim \<Rightarrow>
          (case target_ensure_collection (me_clients e) (ex_target x) (mc_target_collection c) dim (mw_net w) of
             (Inl err, net) \<Rightarrow> stop_on err (w\<lparr>mw_net := net\<rparr>)
           | (Inr _, net) \<Rightarrow> Some (MeOk, w\<lparr>mw_net := net\<rparr>)))"

definition verify_green_environment ::
  "'h migration_env \<Rightarrow> migration_config \<Rightarrow> strategy_executor \<Rightarrow> 'h migration_world \<Rightarrow>
     (migration_end \<times> 'h migration_world) option"
where
  "verify_green_environment e c x w =
     (case target_collection_info (me_clients e) (ex_target x) (mc_target_collection c) (mw_net w) of
        None \<Rightarrow> Some (MePanic, w)
      | Some (Inl err, net) \<Rightarrow> stop_on err (w\<lparr>mw_net := net\<rparr>)
      | Some (Inr _, net) \<Rightarrow> Some (MeOk, w\<lparr>mw_net := net\<rparr>))"

text \<open>Warming up, switching the traffic and decommissioning are empty.\<close>

definition execute_blue_green ::
  "'h migration_env \<Rightarrow> migration_config \<Rightarrow> stream_event list \<Rightarrow> strategy_executor \<Rightarrow> 'h migration_world \<Rightarrow>
     (migration_end \<times> 'h migration_world) option"
where
  "execute_blue_green e c events x w =
     and_phase (prepare_green_environment e c x w) (\<lambda>w1.
       and_phase (executor_streaming e c events x None w1) (verify_green_environment e c x))"

record snapshot_info =
  sn_timestamp :: int
  sn_total_records :: u64

definition create_consistent_snapshot ::
  "'h migration_env \<Rightarrow> strategy_executor \<Rightarrow> 'h migration_world \<Rightarrow> snapshot_info res \<times> 'h migration_world"
where
  "create_consistent_snapshot e x w =
     (case source_count (me_clients e) (ex_source x) (mw_net w) of
        (r, net) \<Rightarrow>
          (and_then r (\<lambda>n. Inr
             \<lparr>sn_timestamp = me_utc e 0, sn_total_records = (case n of None \<Rightarrow> 0 | Some k \<Rightarrow> k)\<rparr>), w\<lparr>mw_net := net\<rparr>))"

definition verify_snapshot_consistency ::
  "'h migration_env \<Rightarrow> migration_config \<Rightarrow> strategy_executor \<Rightarrow> snapshot_info \<Rightarrow> 'h migration_world \<Rightarrow>
     (migration_end \<times> 'h migration_world) option"
where
  "verify_snapshot_consistency e c x info w =
     (case target_collection_info (me_clients e) (ex_target x) (mc_target_collection c) (mw_net w) of
        None \<Rightarrow> Some (MePanic, w)
      | Some (Inl err, net) \<Rightarrow> stop_on err (w\<lparr>mw_net := net\<rparr>)
      | Some (Inr None, net) \<Rightarrow> Some (MeOk, w\<lparr>mw_net := net\<rparr>)
      | Some (Inr (Some ci), net) \<Rightarrow>
          (if ci_vector_count ci \<noteq> sn_total_records info then stop_on EValidation (w\<lparr>mw_net := net\<rparr>)
           else Some (MeOk, w\<lparr>mw_net := net\<rparr>)))"

text \<open>Applying the incremental changes is empty.\<close>

definition execute_snapshot ::
  "'h migration_env \<Rightarrow> migration_config \<Rightarrow> stream_event list \<Rightarrow> strategy_executor \<Rightarrow> 'h migration_world \<Rightarrow>
     (migration_end \<times> 'h migration_world) option"
where
  "execute_snapshot e c events x w =
     (case create_consistent_snapshot e x w of
        (Inl err, w1) \<Rightarrow> stop_on err w1
      | (Inr info, w1) \<Rightarrow>
          and_phase (executor_streaming e c events x None w1) (verify_snapshot_consistency e c x info))"

definition select_strategy :: "migration_config \<Rightarrow> string res" where
  "select_strategy c =
     (case mc_strategy c of
        MsStream \<Rightarrow> Inr ''streaming''
      | MsDualWrite \<Rightarrow> Inr ''dual-write''
      | MsBlueGreen \<Rightarrow> Inr ''blue-green''
      | MsSnapshot \<Rightarrow> Inr ''snapshot'')"

text \<open>The literals 1.0, 2.5, 2.0 and 1.5.\<close>

definition estimate_migration_time ::
  "f64_ops \<Rightarrow> (f64 \<Rightarrow> nat option) \<Rightarrow> migration_strategy \<Rightarrow> u64 \<Rightarrow> f64 \<Rightarrow> nat option"
where
  "estimate_migration_time fd duration strategy total_records throughput =
     (let base = (if f64_less 0 throughput then fd_div fd (f64_of_nat (unat total_records)) throughput else 0);
          overhead =
            (case strategy of
               MsStream \<Rightarrow> f64_one
             | MsDualWrite \<Rightarrow> 0x4004000000000000
             | MsBlueGreen \<Rightarrow> f64_two
             | MsSnapshot \<Rightarrow> 0x3FF8000000000000)
      in duration (fd_mul fd base overhead))"

subsection \<open>Executing a migration\<close>

definition map_manager :: "(migration_manager \<Rightarrow> migration_manager) \<Rightarrow> 'h migration_world \<Rightarrow> 'h migration_world" where
  "map_manager f w = w\<lparr>mw_manager := f (mw_manager w)\<rparr>"

text \<open>The clients of a strategy other than streaming are created anew.\<close>

definition with_executor ::
  "'h migration_env \<Rightarrow> migration_config \<Rightarrow> progress_tracker \<Rightarrow> 'h migration_world \<Rightarrow>
     (strategy_executor \<Rightarrow> 'h migration_world \<Rightarrow> (migration_end \<times> 'h migration_world) option) \<Rightarrow>
     (migration_end \<times> 'h migration_world) option"
where
  "with_executor e c tracker w run =
     (case create_source_client (me_clients e) c of
        Inl err \<Rightarrow> stop_on err w
      | Inr s \<Rightarrow>
          (case create_target_client (me_clients e) c of
             Inl err \<Rightarrow> stop_on err w
           | Inr t \<Rightarrow> run \<lparr>ex_source = s, ex_target = t, ex_tracker = tracker\<rparr> w))"

definition run_migration_strategy ::
  "'h migration_env \<Rightarrow> migration_config \<Rightarrow> stream_event list \<Rightarrow> source_client \<Rightarrow> rtdb_target \<Rightarrow> progress_tracker \<Rightarrow>
     json option \<Rightarrow> 'h migration_world \<Rightarrow> (migration_end \<times> 'h migration_world) option"
where
  "run_migration_strategy e c events s t tracker saved w =
     (case mc_strategy c of
        MsStream \<Rightarrow>
          stream_migration e c (client_source_ops (me_clients e)) (rtdb_target_ops (me_clients e) t) s tracker saved w
      | MsDualWrite \<Rightarrow> with_executor e c tracker w (execute_dual_write e c events)
      | MsBlueGreen \<Rightarrow> with_executor e c tracker w (execute_blue_green e c events)
      | MsSnapshot \<Rightarrow> with_executor e c tracker w (execute_snapshot e c events))"

definition load_saved ::
  "'h migration_env \<Rightarrow> migration_config \<Rightarrow> 'h migration_world \<Rightarrow> json option res \<times> 'h migration_world"
where
  "load_saved e c w =
     (if mc_resume c
      then (case load_checkpoint (me_codec e) (mc_id c) (mm_checkpoints (mw_manager w)) of
              (r, fs) \<Rightarrow> (r, set_checkpoints fs w))
      else (Inr None, w))"

definition execute_migration ::
  "'h migration_env \<Rightarrow> migration_config \<Rightarrow> stream_event list \<Rightarrow> 'h migration_world \<Rightarrow>
     (migration_end \<times> 'h migration_world) option"
where
  "execute_migration e c events w =
     (case load_saved e c (map_manager (update_status (me_utc e 0) (mc_id c) MtRunning) w) of
        (Inl err, w1) \<Rightarrow> stop_on err w1
      | (Inr saved, w1) \<Rightarrow>
          (case create_source_client (me_clients e) c of
             Inl err \<Rightarrow> stop_on err w1
           | Inr s \<Rightarrow>
               (case create_target_client (me_clients e) c of
                  Inl err \<Rightarrow> stop_on err w1
                | Inr t \<Rightarrow>
                    (case source_count (me_clients e) s (mw_net w1) of
                       (Inl err, net) \<Rightarrow> stop_on err (w1\<lparr>mw_net := net\<rparr>)
                     | (Inr counted, net) \<Rightarrow>
                         (let w2 = w1\<lparr>mw_net := net\<rparr>;
                              w3 = (case counted of
                                      None \<Rightarrow> w2
                                    | Some n \<Rightarrow> map_manager (update_total_records (mc_id c) n) w2)
                          in and_phase
                               (run_migration_strategy e c events s t (progress_tracker_new (me_instant e 0) (mc_id c)) saved w3)
                               (\<lambda>w4. Some (MeOk, map_manager (update_status (me_utc e 0) (mc_id c) MtCompleted) w4)))))))"

definition pending_progress :: "int \<Rightarrow> migration_config \<Rightarrow> migration_progress" where
  "pending_progress now c =
     \<lparr>mp_id = mc_id c, mp_status = MtPending, mp_source_type = mc_source_type c,
      mp_target_collection = mc_target_collection c, mp_total_records = None, mp_processed_records = 0,
      mp_failed_records = 0, mp_current_batch = 0, mp_start_time = now, mp_last_update = now,
      mp_estimated_completion = None, mp_throughput_per_second = 0, mp_error_messages = []\<rparr>"

definition register_migration :: "int \<Rightarrow> migration_config \<Rightarrow> migration_manager \<Rightarrow> migration_manager" where
  "register_migration now c m = m\<lparr>mm_active := hm_insert (mc_id c) (pending_progress now c) (mm_active m)\<rparr>"

text \<open>The task that \<open>start_migration\<close> spawns, with the state after it; a panic takes the process with it.\<close>

definition start_migration ::
  "'h migration_env \<Rightarrow> migration_config \<Rightarrow> stream_event list \<Rightarrow> 'h migration_world \<Rightarrow>
     (migration_end \<times> 'h migration_world) option"
where
  "start_migration e c events w =
     map_option (\<lambda>(r, w').
        (r, case r of
              MeErr _ \<Rightarrow> map_manager (update_status (me_utc e 0) (mc_id c) MtFailed) w'
            | _ \<Rightarrow> w'))
       (execute_migration e c events (map_manager (register_migration (me_utc e 0) c) w))"

end
