(* ===== verification/MigrationProps.thy ===== *)
theory MigrationProps
  imports MigrationStrategies QdrantApi
begin

text \<open>
  Lemmas on the data migration: the contracts of a source and of a target, with the result of a streaming
  migration between the two, the files of JSON lines as a source and the server of \<open>QdrantApi\<close> as a target.
\<close>

subsection \<open>The manager's records\<close>

lemma get_progress_change [simp]:
  "get_progress j (change_progress i f m) = (if j = i then map_option f (get_progress i m) else get_progress j m)"
  by (simp add: get_progress_def change_progress_def split: option.split)

lemma checkpoints_change [simp]: "mm_checkpoints (change_progress i f m) = mm_checkpoints m"
  by (simp add: change_progress_def split: option.split)

text \<open>The total that a migration knows, if any, is at least a number of records.\<close>

definition total_covers :: "migration_uuid \<Rightarrow> nat \<Rightarrow> migration_manager \<Rightarrow> bool" where
  "total_covers i n m \<longleftrightarrow>
     (case get_progress i m of
        None \<Rightarrow> True
      | Some p \<Rightarrow> (case mp_total_records p of None \<Rightarrow> True | Some t \<Rightarrow> n \<le> unat t))"

text \<open>The estimate of the end, from any time of the clock, can be represented as long as no more is processed than the total.\<close>

definition estimates_fit :: "'h migration_env \<Rightarrow> bool" where
  "estimates_fit e \<longleftrightarrow>
     (\<forall>p n. mp_last_update p = me_utc e n \<longrightarrow>
        (case mp_total_records p of None \<Rightarrow> True | Some t \<Rightarrow> mp_processed_records p \<le> t) \<longrightarrow>
        estimate_completion e p \<noteq> None)"

lemma estimate_total: "estimate_completion e p = Some p' \<Longrightarrow>
  mp_total_records p' = mp_total_records p \<and> mp_processed_records p' = mp_processed_records p \<and>
  mp_failed_records p' = mp_failed_records p \<and> mp_status p' = mp_status p"
  by (auto simp: estimate_completion_def Let_def split: option.splits if_splits)

lemma with_counts_fields [simp]:
  "mp_total_records (with_counts e now processed failed p) = mp_total_records p"
  "mp_processed_records (with_counts e now processed failed p) = processed"
  "mp_failed_records (with_counts e now processed failed p) = failed"
  "mp_status (with_counts e now processed failed p) = mp_status p"
  by (simp_all add: with_counts_def Let_def)

lemma update_processed_fits:
  assumes fit: "estimates_fit e" and cover: "total_covers i n m" and le: "unat processed \<le> n"
  obtains m' where "update_processed e (me_utc e t) i processed failed m = (False, m')"
    and "total_covers i n m'" and "mm_checkpoints m' = mm_checkpoints m"
    and "map_option (\<lambda>p. (mp_status p, mp_processed_records p, mp_failed_records p)) (get_progress i m') =
         map_option (\<lambda>p. (mp_status p, processed, failed)) (get_progress i m)"
proof (cases "get_progress i m")
  case None
  then show ?thesis using cover by (intro that [of m]) (simp_all add: update_processed_def)
next
  case (Some p)
  let ?p = "with_counts e (me_utc e t) processed failed p"
  have "(case mp_total_records ?p of None \<Rightarrow> True | Some t \<Rightarrow> mp_processed_records ?p \<le> t)"
    using cover le Some by (simp add: total_covers_def word_le_nat_alt split: option.splits)
  moreover have "mp_last_update ?p = me_utc e t" by (simp add: with_counts_def Let_def)
  ultimately obtain q where q: "estimate_completion e ?p = Some q"
    using fit unfolding estimates_fit_def by blast
  show ?thesis
  proof (rule that [of "change_progress i (\<lambda>_. q) m"])
    show "update_processed e (me_utc e t) i processed failed m = (False, change_progress i (\<lambda>_. q) m)"
      using Some q by (simp add: update_processed_def)
  qed (use Some cover estimate_total [OF q] in \<open>simp_all add: total_covers_def\<close>)
qed

subsection \<open>A migration that meets no obstacle\<close>

text \<open>Calls of the file system succeed and checkpoints can be written.\<close>

definition fs_good :: "checkpoint_codec \<Rightarrow> checkpoint_fs \<Rightarrow> bool" where
  "fs_good k fs \<longleftrightarrow> cf_fates fs = (\<lambda>_. FsOk) \<and> (\<forall>v. kc_pretty k v \<noteq> None)"

definition checkpoint_text :: "checkpoint_codec \<Rightarrow> migration_uuid \<Rightarrow> checkpoint_fs \<Rightarrow> string option" where
  "checkpoint_text k i fs = map_option kf_text (hm_get (fs_files fs) (checkpoint_path k i))"

lemma paths_differ [simp]:
  "checkpoint_path k i \<noteq> temp_path k j" "temp_path k j \<noteq> checkpoint_path k i"
proof -
  have "last (checkpoint_path k i) \<noteq> last (temp_path k j)"
    by (simp add: checkpoint_path_def temp_path_def)
  then show "checkpoint_path k i \<noteq> temp_path k j" "temp_path k j \<noteq> checkpoint_path k i" by metis+
qed

lemma fs_files_simps [simp]:
  "fs_files (fs\<lparr>cf_dir := d\<rparr>) = (case d of None \<Rightarrow> [] | Some files \<Rightarrow> files)"
  "fs_files (fs\<lparr>cf_calls := n\<rparr>) = fs_files fs"
  by (simp_all add: fs_files_def)

lemma save_good:
  assumes "fs_good k fs"
  obtains fs' where "save_checkpoint k now i v fs = (Inr (), fs')" and "fs_good k fs'"
    and "checkpoint_text k i fs' = kc_pretty k v"
proof -
  obtain s where s: "kc_pretty k v = Some s" using assms by (auto simp: fs_good_def)
  obtain fs1 where init: "checkpoint_init fs = (Inr (), fs1)" and good: "fs_good k fs1"
    using assms by (cases "cf_dir fs") (auto simp: checkpoint_init_def fs_call_def fs_good_def)
  have "write_temp k now i v fs = fs_write now (temp_path k i) s fs1"
    by (simp add: write_temp_def init s)
  then show ?thesis
    using good s by (intro that) (auto simp: save_checkpoint_def rename_temp_def fs_write_def fs_rename_def fs_call_def
        fs_good_def checkpoint_text_def)
qed

text \<open>The contract of a source: it serves the pages of a list, whatever the state of the network.\<close>

locale page_source =
  fixes so :: "('s, 'h) source_ops" and serves :: "'s \<Rightarrow> bool" and content :: "'s \<Rightarrow> vector_record list"
  assumes fetch: "serves s \<Longrightarrow> \<exists>s'. serves s' \<and> content s' = content s \<and>
      so_fetch so offset limit s h = Some (Inr (take limit (drop (unat offset) (content s))), s', h)"

text \<open>The contract of a target: whatever batch it is given, accepted or not, it stays ready.\<close>

locale record_target =
  fixes ta :: "'h target_ops" and ready :: "'h \<Rightarrow> bool"
  assumes insert: "ready h \<Longrightarrow> ready (snd (to_insert ta rs h))"

text \<open>Other tasks change the status of the migration, or nothing of it.\<close>

definition counts_of :: "migration_uuid \<Rightarrow> migration_manager \<Rightarrow> (u64 \<times> u64) option" where
  "counts_of i m = map_option (\<lambda>p. (mp_processed_records p, mp_failed_records p)) (get_progress i m)"

definition keeps_counts :: "'h migration_env \<Rightarrow> migration_uuid \<Rightarrow> bool" where
  "keeps_counts e i \<longleftrightarrow>
     (\<forall>n m. mm_checkpoints (me_others e n m) = mm_checkpoints m \<and> counts_of i (me_others e n m) = counts_of i m \<and>
        map_option mp_total_records (get_progress i (me_others e n m)) = map_option mp_total_records (get_progress i m))"

lemma total_covers_others: "keeps_counts e i \<Longrightarrow> total_covers i n m \<Longrightarrow> total_covers i n (me_others e k m)"
proof -
  assume k: "keeps_counts e i" and c: "total_covers i n m"
  have "map_option mp_total_records (get_progress i (me_others e k m)) = map_option mp_total_records (get_progress i m)"
    using k by (simp add: keeps_counts_def)
  then show ?thesis
    using c by (cases "get_progress i m"; cases "get_progress i (me_others e k m)") (auto simp: total_covers_def)
qed

definition transformed :: "'h migration_env \<Rightarrow> migration_config \<Rightarrow> vector_record list \<Rightarrow> vector_record list" where
  "transformed e c = apply_transformations e (mc_transformations c)"

lemma transformed_simps [simp]:
  "transformed e c [] = []"
  "transformed e c (xs @ ys) = transformed e c xs @ transformed e c ys"
  "transformed e (c\<lparr>mc_transformations := []\<rparr>) xs = xs"
  by (simp_all add: transformed_def apply_transformations_def)

definition record_valid :: "'h migration_env \<Rightarrow> migration_config \<Rightarrow> vector_record \<Rightarrow> bool" where
  "record_valid e c r \<longleftrightarrow> validate_record (me_metadata_text e) (mc_validation c) r = Inr ()"

lemma first_error_ok: "first_error f rs = Inr () \<longleftrightarrow> (\<forall>r \<in> set rs. f r = Inr ())"
  by (induction rs) (auto simp: and_then_Inr_iff)

text \<open>The batches of a list, and what becomes of them one after the other: processed, failed, and the network.\<close>

function batches :: "nat \<Rightarrow> 'a list \<Rightarrow> 'a list list" where
  "batches n xs = (if n = 0 \<or> xs = [] then [] else take n xs # batches n (drop n xs))"
  by pat_completeness auto
termination
  by (relation "measure (\<lambda>(n, xs). length xs)") auto

declare batches.simps [simp del]

lemma concat_batches: "0 < n \<Longrightarrow> concat (batches n xs) = xs"
proof (induction n xs rule: batches.induct)
  case (1 n xs)
  then show ?case by (subst batches.simps) auto
qed

definition process_records ::
  "'h migration_env \<Rightarrow> migration_config \<Rightarrow> 'h target_ops \<Rightarrow> vector_record list \<Rightarrow> 'h \<Rightarrow> unit res \<times> 'h"
where
  "process_records e c ta rs h =
     process_batch e c ta \<lparr>vb_records = rs, vb_batch_id = 0, vb_checkpoint_data = None\<rparr> h"

lemma process_batch_records: "process_batch e c ta b h = process_records e c ta (vb_records b) h"
  by (simp add: process_batch_def process_records_def)

lemma process_records_target:
  "\<not> mc_dry_run c \<Longrightarrow> process_records e c ta rs h =
     (if list_all (record_valid e c) (transformed e c rs) then to_insert ta (transformed e c rs) h
      else (Inl (projl (fst (process_records e c ta rs h))), h)) \<and>
   (\<not> list_all (record_valid e c) (transformed e c rs) \<longrightarrow> isl (fst (process_records e c ta rs h)))"
proof -
  assume dry: "\<not> mc_dry_run c"
  let ?v = "first_error (validate_record (me_metadata_text e) (mc_validation c)) (transformed e c rs)"
  have "?v = Inr () \<longleftrightarrow> list_all (record_valid e c) (transformed e c rs)"
    by (simp add: first_error_ok list_all_iff record_valid_def)
  then show ?thesis
    using dry by (cases ?v) (auto simp: process_records_def process_batch_def transformed_def)
qed

fun run_batches ::
  "'h migration_env \<Rightarrow> migration_config \<Rightarrow> 'h target_ops \<Rightarrow> vector_record list list \<Rightarrow> 'h \<Rightarrow> nat \<times> nat \<times> 'h"
where
  "run_batches e c ta [] h = (0, 0, h)"
| "run_batches e c ta (rs # rest) h =
     (let (r, h1) = process_records e c ta rs h; (p, f, h2) = run_batches e c ta rest h1
      in if isl r then (p, f + length rs, h2) else (p + length rs, f, h2))"

lemma run_batches_total:
  "run_batches e c ta bs h = (p, f, h') \<Longrightarrow> p + f = length (concat bs)"
  by (induction bs arbitrary: h p f h') (auto simp: Let_def split: prod.splits if_splits)

context page_source
begin

lemma stream_runs_batches:
  fixes st :: "('s, 'h) stream_state"
  assumes cfg: "0 < mc_batch_size c" "length xs + mc_batch_size c < 2 ^ 64"
    and env: "estimates_fit e" "keeps_counts e (mc_id c)"
  shows "serves (pd_source (sm_producer st)) \<Longrightarrow> content (pd_source (sm_producer st)) = xs \<Longrightarrow>
    total_covers (mc_id c) (length xs) (mw_manager (sm_world st)) \<Longrightarrow>
    fs_good (me_codec e) (mm_checkpoints (mw_manager (sm_world st))) \<Longrightarrow>
    pt_migration_id (sm_tracker st) = mc_id c \<Longrightarrow>
    unat (pd_offset (sm_producer st)) < length xs + mc_batch_size c \<Longrightarrow>
    unat (sm_processed st) \<le> min (unat (pd_offset (sm_producer st))) (length xs) \<Longrightarrow>
    run_batches e c ta (batches (mc_batch_size c) (drop (unat (pd_offset (sm_producer st))) xs)) (mw_net (sm_world st)) =
      (p, f, h) \<Longrightarrow>
    \<exists>st'. stream_loop e c so ta st = Some (MeOk, st') \<and> mw_net (sm_world st') = h \<and>
      counts_of (mc_id c) (mw_manager (sm_world st')) =
        (if unat (pd_offset (sm_producer st)) < length xs
         then map_option (\<lambda>_. (sm_processed st + of_nat p, sm_failed st + of_nat f)) (counts_of (mc_id c) (mw_manager (sm_world st)))
         else counts_of (mc_id c) (mw_manager (sm_world st)))"
proof (induction "length xs - unat (pd_offset (sm_producer st))" arbitrary: st p f rule: less_induct)
  case less
  let ?p = "sm_producer st" and ?b = "mc_batch_size c" and ?w = "sm_world st"
  let ?off = "unat (pd_offset ?p)"
  let ?rs = "take ?b (drop ?off xs)"
  obtain s' where s': "serves s'" "content s' = xs"
      and got: "so_fetch so (pd_offset ?p) ?b (pd_source ?p) (mw_net ?w) = Some (Inr ?rs, s', mw_net ?w)"
    using fetch [OF less.prems(1), of "pd_offset ?p" ?b "mw_net ?w"] less.prems(2) by auto
  show ?case
  proof (cases "?off < length xs")
    case False
    then have "?rs = []" "p = 0 \<and> f = 0 \<and> h = mw_net ?w"
      using less.prems(8) by (simp_all add: batches.simps)
    then have "stream_round e c so ta st = Stop MeOk (st\<lparr>sm_producer := ?p\<lparr>pd_source := s'\<rparr>, sm_world := ?w\<lparr>mw_net := h\<rparr>\<rparr>)"
      using got by (simp add: stream_round_def produce_def Let_def)
    then have "stream_loop e c so ta st = Some (MeOk, st\<lparr>sm_producer := ?p\<lparr>pd_source := s'\<rparr>, sm_world := ?w\<lparr>mw_net := h\<rparr>\<rparr>)"
      by (subst stream_loop.simps) simp
    then show ?thesis using False by auto
  next
    case True
    then have ne: "?rs \<noteq> []" using cfg(1) by simp
    let ?batch = "\<lparr>vb_records = ?rs, vb_batch_id = pd_batch_id ?p,
                   vb_checkpoint_data = Some (checkpoint_data e (sm_round st) (pd_offset ?p) (pd_batch_id ?p) ?rs)\<rparr>"
    let ?p' = "\<lparr>pd_source = s', pd_offset = pd_offset ?p + of_nat ?b, pd_batch_id = pd_batch_id ?p + 1\<rparr>"
    have pr: "produce e c so (sm_round st) ?p (mw_net ?w) = (Produced ?batch, ?p', mw_net ?w)"
      using got ne by (simp add: produce_def)
    obtain r net where done_batch: "process_records e c ta ?rs (mw_net ?w) = (r, net)" by fastforce
    have bs: "batches ?b (drop ?off xs) = ?rs # batches ?b (drop (?off + ?b) xs)"
      using True cfg(1) by (subst batches.simps) (simp add: add.commute)
    obtain p1 f1 where rest: "run_batches e c ta (batches ?b (drop (?off + ?b) xs)) net = (p1, f1, h)"
      and pf: "p = (if isl r then p1 else p1 + length ?rs)" "f = (if isl r then f1 + length ?rs else f1)"
      using less.prems(8) unfolding bs
      by (cases "run_batches e c ta (batches ?b (drop (?off + ?b) xs)) net") (auto simp: done_batch Let_def split: if_splits)
    let ?data = "checkpoint_data e (sm_round st) (pd_offset ?p) (pd_batch_id ?p) ?rs"
    let ?k = "mm_checkpoints (mw_manager ?w)"
    obtain fs where saved: "(if isl r then (Inr (), ?k)
          else save_checkpoint (me_codec e) (me_utc e (sm_round st)) (mc_id c) ?data ?k) = (Inr (), fs)"
        and fs: "fs_good (me_codec e) fs"
    proof (cases "isl r")
      case True
      then show ?thesis using that less.prems(4) by simp
    next
      case False
      then show ?thesis using that save_good [OF less.prems(4)] by metis
    qed
    let ?n = "sm_processed st + (if isl r then 0 else u64_len ?rs)"
    let ?f = "sm_failed st + (if isl r then u64_len ?rs else 0)"
    have small: "length ?rs < 2 ^ 64" "unat (u64_len ?rs) = length ?rs"
      using cfg(2) by (simp_all add: u64_len_def unat_of_nat_u64)
    have n: "unat ?n \<le> min (?off + ?b) (length xs)"
    proof -
      have "unat ?n \<le> unat (sm_processed st) + length ?rs"
        using small(2) mod_less_eq_dividend [of "unat (sm_processed st) + unat (u64_len ?rs)" "2 ^ 64"]
        by (cases "isl r") (simp_all add: unat_word_ariths)
      also have "\<dots> \<le> min (?off + ?b) (length xs)" using less.prems(7) True by (auto simp: min_def)
      finally show ?thesis .
    qed
    let ?m = "(mw_manager ?w)\<lparr>mm_checkpoints := fs\<rparr>"
    have prog: "get_progress i ?m = get_progress i (mw_manager ?w)" for i by (simp add: get_progress_def)
    have cover: "total_covers (mc_id c) (length xs) ?m" using less.prems(3) by (simp add: total_covers_def prog)
    obtain m' where upd: "update_processed e (me_utc e (sm_round st)) (mc_id c) ?n ?f ?m = (False, m')"
        and cover': "total_covers (mc_id c) (length xs) m'" and ck: "mm_checkpoints m' = mm_checkpoints ?m"
        and counts: "map_option (\<lambda>p. (mp_status p, mp_processed_records p, mp_failed_records p)) (get_progress (mc_id c) m') =
             map_option (\<lambda>p. (mp_status p, ?n, ?f)) (get_progress (mc_id c) ?m)"
      by (rule update_processed_fits [OF env(1) cover, of ?n "sm_round st" ?f]) (use n in simp)
    have counts': "counts_of (mc_id c) m' = map_option (\<lambda>_. (?n, ?f)) (counts_of (mc_id c) (mw_manager ?w))"
      using counts by (cases "get_progress (mc_id c) m'"; cases "get_progress (mc_id c) (mw_manager ?w)")
        (auto simp: counts_of_def prog)
    obtain tracker where up: "update_progress e (sm_round st) ?n ?f (sm_tracker st, ?m) = (False, tracker, m')"
        and tid: "pt_migration_id tracker = mc_id c"
      using upd less.prems(5) by (simp add: update_progress_def Let_def)
    let ?st = "st\<lparr>sm_producer := ?p', sm_processed := ?n, sm_failed := ?f, sm_tracker := tracker, sm_round := Suc (sm_round st),
                  sm_world := \<lparr>mw_net = net, mw_manager = me_others e (sm_round st) m'\<rparr>\<rparr>"
    have round: "stream_round e c so ta st = Continue ?st"
    proof (cases r)
      case (Inl err)
      then show ?thesis
        using pr done_batch saved up
        by (simp add: stream_round_def consume_def process_batch_records Let_def)
    next
      case (Inr u)
      then show ?thesis
        using pr done_batch saved up
        by (simp add: stream_round_def consume_def process_batch_records Let_def)
    qed
    then have step: "stream_loop e c so ta st = stream_loop e c so ta ?st" by (subst stream_loop.simps) simp
    have off': "unat (pd_offset ?p') = ?off + ?b"
    proof -
      have b: "unat (of_nat ?b :: u64) = ?b" using cfg(2) by (simp add: unat_of_nat_u64)
      have "?off + ?b < 2 ^ 64" using True cfg(2) by simp
      then show ?thesis using b by (simp add: unat_word_ariths)
    qed
    have others: "mm_checkpoints (me_others e (sm_round st) m') = fs"
        "counts_of (mc_id c) (me_others e (sm_round st) m') = counts_of (mc_id c) m'"
      using env(2) ck by (simp_all add: keeps_counts_def)
    have "\<exists>st'. stream_loop e c so ta ?st = Some (MeOk, st') \<and> mw_net (sm_world st') = h \<and>
      counts_of (mc_id c) (mw_manager (sm_world st')) =
        (if unat (pd_offset (sm_producer ?st)) < length xs
         then map_option (\<lambda>_. (sm_processed ?st + of_nat p1, sm_failed ?st + of_nat f1)) (counts_of (mc_id c) (mw_manager (sm_world ?st)))
         else counts_of (mc_id c) (mw_manager (sm_world ?st)))"
    proof (rule less.hyps)
      show "length xs - unat (pd_offset (sm_producer ?st)) < length xs - ?off"
        using True cfg(1) off' by simp
    qed (use s' fs tid n off' rest True total_covers_others [OF env(2) cover'] others in simp_all)
    then obtain st' where st': "stream_loop e c so ta ?st = Some (MeOk, st')" "mw_net (sm_world st') = h"
      and cn: "counts_of (mc_id c) (mw_manager (sm_world st')) =
        (if ?off + ?b < length xs
         then map_option (\<lambda>_. (?n + of_nat p1, ?f + of_nat f1)) (counts_of (mc_id c) m')
         else counts_of (mc_id c) m')"
      using off' others(2) by auto
    have none: "p1 = 0 \<and> f1 = 0" if "\<not> ?off + ?b < length xs"
      using rest that by (simp add: batches.simps)
    have sums: "?n + of_nat p1 = sm_processed st + of_nat p" "?f + of_nat f1 = sm_failed st + of_nat f"
      by (simp_all add: pf u64_len_def)
    have "counts_of (mc_id c) (mw_manager (sm_world st')) =
        map_option (\<lambda>_. (?n + of_nat p1, ?f + of_nat f1)) (counts_of (mc_id c) (mw_manager ?w))"
      using cn counts' none by (auto simp: option.map_comp comp_def)
    then have "counts_of (mc_id c) (mw_manager (sm_world st')) =
        map_option (\<lambda>_. (sm_processed st + of_nat p, sm_failed st + of_nat f)) (counts_of (mc_id c) (mw_manager ?w))"
      unfolding sums .
    then show ?thesis using step st' True by auto
  qed
qed

lemma stream_migration_runs:
  assumes cfg: "0 < mc_batch_size c" "length (content s) + mc_batch_size c < 2 ^ 64" "0 < mc_max_concurrency c"
    and env: "estimates_fit e" "keeps_counts e (mc_id c)"
    and start: "serves s" "total_covers (mc_id c) (length (content s)) (mw_manager w)"
      "fs_good (me_codec e) (mm_checkpoints (mw_manager w))" "pt_migration_id tracker = mc_id c"
    and run: "run_batches e c ta (batches (mc_batch_size c) (content s)) (mw_net w) = (p, f, h)"
  obtains w' where "stream_migration e c so ta s tracker None w = Some (MeOk, w')" and "mw_net w' = h"
    and "counts_of (mc_id c) (mw_manager w') =
      (if content s = [] then counts_of (mc_id c) (mw_manager w)
       else map_option (\<lambda>_. (of_nat p, of_nat f)) (counts_of (mc_id c) (mw_manager w)))"
proof -
  let ?st = "\<lparr>sm_producer = \<lparr>pd_source = s, pd_offset = 0, pd_batch_id = 0\<rparr>, sm_processed = 0, sm_failed = 0,
              sm_tracker = tracker, sm_round = 0, sm_world = w\<rparr>"
  have "\<exists>st'. stream_loop e c so ta ?st = Some (MeOk, st') \<and> mw_net (sm_world st') = h \<and>
      counts_of (mc_id c) (mw_manager (sm_world st')) =
        (if unat (pd_offset (sm_producer ?st)) < length (content s)
         then map_option (\<lambda>_. (sm_processed ?st + of_nat p, sm_failed ?st + of_nat f)) (counts_of (mc_id c) (mw_manager (sm_world ?st)))
         else counts_of (mc_id c) (mw_manager (sm_world ?st)))"
    by (rule stream_runs_batches [OF cfg(1,2) env]) (use start cfg(1) run in simp_all)
  then obtain st' where st': "stream_loop e c so ta ?st = Some (MeOk, st')" "mw_net (sm_world st') = h"
      "counts_of (mc_id c) (mw_manager (sm_world st')) =
        (if content s = [] then counts_of (mc_id c) (mw_manager w)
         else map_option (\<lambda>_. (of_nat p, of_nat f)) (counts_of (mc_id c) (mw_manager w)))"
    by auto
  show ?thesis
    by (rule that [of "sm_world st'"]) (use st' cfg(3) in \<open>simp_all add: stream_migration_def producer_start_def\<close>)
qed

end

context record_target
begin

lemma process_ready: "\<not> mc_dry_run c \<Longrightarrow> ready h \<Longrightarrow> ready (snd (process_records e c ta rs h))"
  using process_records_target [of c e ta rs h] insert [of h "transformed e c rs"] by (metis snd_conv)

lemma run_ready: "\<not> mc_dry_run c \<Longrightarrow> ready h \<Longrightarrow> run_batches e c ta bs h = (p, f, h') \<Longrightarrow> ready h'"
proof (induction bs arbitrary: h p f)
  case (Cons rs bs)
  then show ?case using process_ready [of c h e rs] by (auto simp: Let_def split: prod.splits if_splits)
qed simp

end

locale migration_link = page_source so serves content + record_target ta ready
  for so :: "('s, 'h) source_ops" and serves content and ta :: "'h target_ops" and ready
begin

lemma stream_migration_counts:
  assumes cfg: "\<not> mc_dry_run c" "0 < mc_batch_size c" "length (content s) + mc_batch_size c < 2 ^ 64" "0 < mc_max_concurrency c"
    and env: "estimates_fit e" "keeps_counts e (mc_id c)"
    and start: "serves s" "ready (mw_net w)" "total_covers (mc_id c) (length (content s)) (mw_manager w)"
      "fs_good (me_codec e) (mm_checkpoints (mw_manager w))" "pt_migration_id tracker = mc_id c"
      "counts_of (mc_id c) (mw_manager w) = Some (0, 0)"
  obtains w' p f where "stream_migration e c so ta s tracker None w = Some (MeOk, w')" and "ready (mw_net w')"
    and "run_batches e c ta (batches (mc_batch_size c) (content s)) (mw_net w) = (p, f, mw_net w')"
    and "p + f = length (content s)" and "counts_of (mc_id c) (mw_manager w') = Some (of_nat p, of_nat f)"
proof -
  obtain p f h where run: "run_batches e c ta (batches (mc_batch_size c) (content s)) (mw_net w) = (p, f, h)"
    by (cases "run_batches e c ta (batches (mc_batch_size c) (content s)) (mw_net w)") auto
  obtain w' where w': "stream_migration e c so ta s tracker None w = Some (MeOk, w')" "mw_net w' = h"
    "counts_of (mc_id c) (mw_manager w') =
      (if content s = [] then counts_of (mc_id c) (mw_manager w)
       else map_option (\<lambda>_. (of_nat p, of_nat f)) (counts_of (mc_id c) (mw_manager w)))"
    by (rule stream_migration_runs [OF cfg(2-4) env start(1,3-5) run])
  have total: "p + f = length (content s)"
    using run_batches_total [OF run] by (simp add: concat_batches [OF cfg(2)])
  have "counts_of (mc_id c) (mw_manager w') = Some (of_nat p, of_nat f)"
    using w'(3) start(6) total by (cases "content s = []") simp_all
  with w' run total run_ready [OF cfg(1) start(2) run] that show ?thesis by blast
qed

end

text \<open>A target that appends the batches that it accepts and refuses the others: what it has after a run.\<close>

definition batch_taken :: "'h migration_env \<Rightarrow> migration_config \<Rightarrow> (vector_record list \<Rightarrow> bool) \<Rightarrow> vector_record list \<Rightarrow> bool" where
  "batch_taken e c accepts rs \<longleftrightarrow> list_all (record_valid e c) (transformed e c rs) \<and> accepts (transformed e c rs)"

lemma appending_batches:
  assumes target: "\<And>rs h. to_insert ta rs h = (if accepts rs then (Inr (), h @ rs) else (Inl err, h))" and dry: "\<not> mc_dry_run c"
  shows "fst (run_batches e c ta bs h) = length (concat (filter (batch_taken e c accepts) bs)) \<and>
    snd (snd (run_batches e c ta bs h)) = h @ concat (map (transformed e c) (filter (batch_taken e c accepts) bs))"
proof (induction bs arbitrary: h)
  case (Cons rs bs)
  have "process_records e c ta rs h = (Inr (), h @ transformed e c rs)" if "batch_taken e c accepts rs"
    using process_records_target [OF dry, of e ta rs h] that by (simp add: target batch_taken_def)
  moreover have "isl (fst (process_records e c ta rs h)) \<and> snd (process_records e c ta rs h) = h" if "\<not> batch_taken e c accepts rs"
    using process_records_target [OF dry, of e ta rs h] that
    by (cases "list_all (record_valid e c) (transformed e c rs)") (simp_all add: target batch_taken_def prod_eq_iff)
  ultimately show ?case
    using Cons.IH [of h] Cons.IH [of "h @ transformed e c rs"]
    by (cases "batch_taken e c accepts rs") (auto simp: Let_def split: prod.splits)
qed simp

lemma transformed_concat: "transformed e c (concat bs) = concat (map (transformed e c) bs)"
  by (induction bs) simp_all

subsection \<open>A file of JSON lines as a source\<close>

definition line_object :: "'h client_env \<Rightarrow> string option \<Rightarrow> (string \<times> json) list option" where
  "line_object e l =
     (case l of
        None \<Rightarrow> None
      | Some t \<Rightarrow> if trim_text t = [] then None else Option.bind (cv_json e (trim_text t)) json_as_object)"

text \<open>A source whose file has one object on every line.\<close>

definition serves_lines :: "'h client_env \<Rightarrow> source_client \<Rightarrow> bool" where
  "serves_lines e sc \<longleftrightarrow>
     (case sc of
        ScJsonl s \<Rightarrow>
          (case cv_lines e (js_path s) of None \<Rightarrow> False | Some ls \<Rightarrow> list_all (\<lambda>l. line_object e l \<noteq> None) ls)
      | _ \<Rightarrow> False)"

definition line_records :: "'h client_env \<Rightarrow> source_client \<Rightarrow> vector_record list" where
  "line_records e sc =
     (case sc of
        ScJsonl s \<Rightarrow>
          (case cv_lines e (js_path s) of
             None \<Rightarrow> []
           | Some ls \<Rightarrow> map (jsonl_record e) (List.map_filter (line_object e) ls))
      | _ \<Rightarrow> [])"

lemma skip_lines_ok: "list_all (\<lambda>l. line_object e l \<noteq> None) ls \<Longrightarrow> skip_lines n ls = Inr (drop n ls)"
proof (induction n ls rule: skip_lines.induct)
  case (3 n ls)
  then show ?case by (simp add: line_object_def)
qed simp_all

lemma read_jsonl_ok:
  "list_all (\<lambda>l. line_object e l \<noteq> None) ls \<Longrightarrow>
     read_jsonl e mk n ls = Inr (take n (map mk (List.map_filter (line_object e) ls)))"
proof (induction e mk n ls rule: read_jsonl.induct)
  case (3 e mk n ls)
  then show ?case by (simp add: line_object_def)
next
  case (4 e mk n l ls)
  obtain obj where o: "line_object e (Some l) = Some obj" using 4 by auto
  then obtain v where "trim_text l \<noteq> []" "cv_json e (trim_text l) = Some v" "json_as_object v = Some obj"
    by (auto simp: line_object_def bind_eq_Some_conv split: if_splits)
  moreover have "list_all (\<lambda>l. line_object e l \<noteq> None) ls" using 4 by simp
  ultimately show ?case using 4 o by (simp add: List.map_filter_simps)
qed (simp_all add: List.map_filter_simps)

lemma map_filter_drop:
  "list_all (\<lambda>l. f l \<noteq> None) ls \<Longrightarrow> List.map_filter f (drop n ls) = drop n (List.map_filter f ls)"
proof (induction ls arbitrary: n)
  case (Cons l ls)
  then show ?case by (cases n) (auto simp: List.map_filter_simps)
qed (simp add: List.map_filter_simps)

interpretation jsonl: page_source "client_source_ops e" "serves_lines e" "line_records e" for e :: "'h client_env"
proof
  fix sc limit and offset :: u64 and h :: 'h
  assume serves: "serves_lines e sc"
  then obtain s ls where sc: "sc = ScJsonl s" and ls: "cv_lines e (js_path s) = Some ls"
      and ok: "list_all (\<lambda>l. line_object e l \<noteq> None) ls"
    by (auto simp: serves_lines_def split: source_client.splits option.splits)
  let ?rs = "take limit (drop (unat offset) (line_records e sc))"
  have "list_all (\<lambda>l. line_object e l \<noteq> None) (drop (unat offset) ls)"
    using ok by (auto simp: list_all_iff dest: in_set_dropD)
  then have "read_jsonl e (jsonl_record e) limit (drop (unat offset) ls) = Inr ?rs"
    using ok by (simp add: read_jsonl_ok map_filter_drop line_records_def sc ls drop_map)
  then obtain n where "jsonl_fetch e offset limit s = (Inr ?rs, s\<lparr>js_current_offset := n\<rparr>)"
    using ls ok by (simp add: jsonl_fetch_def skip_lines_ok)
  then show "\<exists>s'. serves_lines e s' \<and> line_records e s' = line_records e sc \<and>
      so_fetch (client_source_ops e) offset limit sc h = Some (Inr ?rs, s', h)"
    using serves by (intro exI [of _ "ScJsonl (s\<lparr>js_current_offset := n\<rparr>)"])
      (simp add: client_source_ops_def source_fetch_def sc serves_lines_def line_records_def)
qed

subsection \<open>This database as a target\<close>

text \<open>
  The insertion route of the server of \<open>QdrantApi\<close>, as a network: the name in the path, the layers of the router,
  the body as the request that \<open>serde\<close> reads it as, and the status 200 of every response that the handler builds.
  The other routes are an argument.
\<close>

definition upsert_route :: "string \<Rightarrow> string \<Rightarrow> string option" where
  "upsert_route base url =
     (let prefix = base @ ''/collections/''
      in if starts_with_str prefix url
         then (case split_on (CHR ''/'') (drop (length prefix) url) of
                 [name, tail] \<Rightarrow> if tail = ''points'' then Some name else None
               | _ \<Rightarrow> None)
         else None)"

fun f32_list_of :: "(f64 \<Rightarrow> f32) \<Rightarrow> json list \<Rightarrow> f32 list option" where
  "f32_list_of narrow [] = Some []"
| "f32_list_of narrow (v # vs) =
     (case json_as_f64 v of
        None \<Rightarrow> None
      | Some x \<Rightarrow> map_option (\<lambda>xs. narrow x # xs) (f32_list_of narrow vs))"

fun named_vectors_of :: "(f64 \<Rightarrow> f32) \<Rightarrow> (string \<times> json) list \<Rightarrow> (string \<times> f32 list) list option" where
  "named_vectors_of narrow [] = Some []"
| "named_vectors_of narrow ((name, v) # m) =
     Option.bind (Option.bind (json_as_array v) (f32_list_of narrow)) (\<lambda>xs.
       map_option (\<lambda>rest. (name, xs) # rest) (named_vectors_of narrow m))"

definition vector_of_json :: "(f64 \<Rightarrow> f32) \<Rightarrow> json \<Rightarrow> vector_input option" where
  "vector_of_json narrow v =
     (case v of
        JArray vs \<Rightarrow> map_option VecPlain (f32_list_of narrow vs)
      | JObject m \<Rightarrow> map_option VecNamed (named_vectors_of narrow m)
      | _ \<Rightarrow> None)"

definition id_of_json :: "json \<Rightarrow> point_id option" where
  "id_of_json v =
     (case json_as_u64 v of
        Some n \<Rightarrow> Some (PidInteger n)
      | None \<Rightarrow> map_option PidString (json_as_str v))"

definition point_of_json :: "(f64 \<Rightarrow> f32) \<Rightarrow> json \<Rightarrow> point_struct option" where
  "point_of_json narrow v =
     Option.bind (Option.bind (json_get v ''id'') id_of_json) (\<lambda>i.
       Option.bind (Option.bind (json_get v ''vector'') (vector_of_json narrow)) (\<lambda>xs.
         (case json_get v ''payload'' of
            Some (JObject m) \<Rightarrow> Some \<lparr>pt_id = i, pt_vector = xs, pt_payload = Some m\<rparr>
          | Some JNull \<Rightarrow> Some \<lparr>pt_id = i, pt_vector = xs, pt_payload = None\<rparr>
          | None \<Rightarrow> Some \<lparr>pt_id = i, pt_vector = xs, pt_payload = None\<rparr>
          | _ \<Rightarrow> None)))"

fun points_of_json :: "(f64 \<Rightarrow> f32) \<Rightarrow> json list \<Rightarrow> point_struct list option" where
  "points_of_json narrow [] = Some []"
| "points_of_json narrow (v # vs) =
     (case point_of_json narrow v of
        None \<Rightarrow> None
      | Some p \<Rightarrow> map_option (\<lambda>ps. p # ps) (points_of_json narrow vs))"

definition upsert_body :: "(f64 \<Rightarrow> f32) \<Rightarrow> json option \<Rightarrow> upsert_points_request option" where
  "upsert_body narrow body =
     Option.bind body (\<lambda>v. Option.bind (json_get v ''points'') (\<lambda>ps. Option.bind (json_as_array ps) (\<lambda>vs.
       map_option (\<lambda>points. \<lparr>up_points = points, up_batch = None\<rparr>) (points_of_json narrow vs))))"

text \<open>
  The server: the rate limiter of its router, the number of requests so far, and its state.  The environment has
  the length of a body, the limit of the extractor of bodies, the times of the \<open>n\<close>-th request, and whether its
  body has not arrived when the time of the request is over.
\<close>

record 'm rtdb_server =
  sv_limiter :: rate_limiter
  sv_requests :: nat
  sv_state :: "'m qdrant_state"

record 'm server_env =
  se_qdrant :: "'m qdrant_env"
  se_narrow :: "f64 \<Rightarrow> f32"
  se_body_bytes :: "json option \<Rightarrow> nat"
  se_body_limit :: nat
  se_times :: "nat \<Rightarrow> nat \<times> nat"
  se_slow :: "nat \<Rightarrow> bool"

text \<open>
  The extractor of the body and the handler, under the timeout: a response without a body here, and whether the
  handler panicked.
\<close>

definition upsert_service ::
  "'m server_env \<Rightarrow> bool \<Rightarrow> string \<Rightarrow> json option http_request \<Rightarrow> 'm qdrant_state \<times> bool \<Rightarrow>
     unit http_response option \<times> 'm qdrant_state \<times> bool"
where
  "upsert_service se slow name rq = (\<lambda>(s, panicked).
     let answer = (\<lambda>status. Some \<lparr>hr_status = status, hr_headers = [], hr_body = Inr ()\<rparr>)
     in if slow then (None, s, panicked)
        else if se_body_limit se < se_body_bytes se (hq_body rq) then (answer 413, s, panicked)
        else
          (case upsert_body (se_narrow se) (hq_body rq) of
             None \<Rightarrow> (answer 422, s, panicked)
           | Some up \<Rightarrow>
               (case upsert_points (se_qdrant se) name up s of
                  None \<Rightarrow> (answer 500, s, True)
                | Some (_, s') \<Rightarrow> (answer 200, s', panicked))))"

definition rtdb_send ::
  "'m server_env \<Rightarrow> (client_request \<Rightarrow> 'm rtdb_server \<Rightarrow> client_reply \<times> 'm rtdb_server) \<Rightarrow> string \<Rightarrow>
     client_request \<Rightarrow> 'm rtdb_server \<Rightarrow> client_reply \<times> 'm rtdb_server"
where
  "rtdb_send se elsewhere base rq sv =
     (case (if cq_method rq = RqPut then upsert_route base (cq_url rq) else None) of
        None \<Rightarrow> elsewhere rq sv
      | Some name \<Rightarrow>
          (let n = sv_requests sv;
               request = \<lparr>hq_headers = cq_headers rq @ [(''content-length'', decimal (se_body_bytes se (cq_body rq)))],
                          hq_body = cq_body rq\<rparr>;
               (response, l, s, panicked) =
                 qdrant_service (fst (se_times se n)) (snd (se_times se n)) (upsert_service se (se_slow se n) name) request
                   (sv_limiter sv, sv_state sv, False)
           in (if panicked then NoReply else Reply (hr_status response) None,
               \<lparr>sv_limiter = l, sv_requests = Suc n, sv_state = s\<rparr>)))"

definition literal_name :: string where
  "literal_name = ''{collection_name}''"

definition no_literal :: "'m qdrant_state \<Rightarrow> bool" where
  "no_literal s \<longleftrightarrow> hm_get (mg_collections (qs_collections s)) literal_name = None"

definition finite_record :: "vector_record \<Rightarrow> bool" where
  "finite_record r \<longleftrightarrow> list_all f32_is_finite (vr_vector r)"

lemma starts_with_append [simp]: "starts_with_str p (p @ s)"
  by (induction p) simp_all

lemma upsert_route_literal: "upsert_route base (base @ ''/collections/{collection_name}/points'') = Some literal_name"
proof -
  have u: "base @ ''/collections/{collection_name}/points'' = (base @ ''/collections/'') @ ''{collection_name}/points''"
    by simp
  have "drop (length (base @ ''/collections/'')) (base @ ''/collections/{collection_name}/points'') = ''{collection_name}/points''"
    unfolding u by (rule append_eq_conv_conj [THEN iffD1, THEN conjunct2, OF refl, symmetric])
  moreover have "starts_with_str (base @ ''/collections/'') (base @ ''/collections/{collection_name}/points'')"
    unfolding u by (rule starts_with_append)
  moreover have "split_on (CHR ''/'') ''{collection_name}/points'' = [''{collection_name}'', ''points'']" by simp
  ultimately show ?thesis by (simp add: upsert_route_def literal_name_def)
qed

lemma f32_list_of_finite: "list_all f32_is_finite xs \<Longrightarrow> f32_list_of narrow (map (json_of_f32 e) xs) \<noteq> None"
  by (induction xs) (auto simp: json_of_f32_def json_as_f64_def number_as_f64_def)

lemma record_decodes: "finite_record r \<Longrightarrow> point_of_json narrow (record_json e r) \<noteq> None"
  using f32_list_of_finite [of "vr_vector r" narrow e]
  by (auto simp: point_of_json_def record_json_def json_get_def hm_get_def id_of_json_def json_as_u64_def
      json_as_str_def vector_of_json_def finite_record_def)

lemma records_decode: "list_all finite_record rs \<Longrightarrow> points_of_json narrow (map (record_json e) rs) \<noteq> None"
proof (induction rs)
  case (Cons r rs)
  then show ?case using record_decodes [of r narrow e] by auto
qed simp

lemma upsert_absent: "no_literal s \<Longrightarrow> upsert_points qe literal_name up s = Some (api_failure, s)"
  by (simp add: upsert_points_def get_collection_def no_literal_def)

text \<open>The stack of middleware passes the state of the handler on, or leaves it as it was.\<close>

lemma qdrant_service_state:
  "snd (qdrant_service now later handlers rq (l, s)) = (l', s') \<Longrightarrow> s' = s \<or> s' = snd (handlers rq s)"
  by (auto simp: qdrant_service_def rate_limit_middleware_def request_size_limit_middleware_def timeout_middleware_def Let_def
      split: prod.splits if_splits option.splits)

lemma absent_service: "no_literal s \<Longrightarrow> snd (upsert_service se slow literal_name rq (s, False)) = (s, False)"
  by (simp add: upsert_service_def Let_def upsert_absent split: option.split)

lemma insert_send_state:
  assumes "no_literal (sv_state sv)"
  shows "sv_state (snd (rtdb_send se elsewhere (hc_base_url (rt_client t)) (insert_call e t rs) sv)) = sv_state sv \<and>
    fst (rtdb_send se elsewhere (hc_base_url (rt_client t)) (insert_call e t rs) sv) \<noteq> NoReply"
proof -
  let ?rq = "insert_call e t rs"
  let ?request = "\<lparr>hq_headers = cq_headers ?rq @ [(''content-length'', decimal (se_body_bytes se (cq_body ?rq)))], hq_body = cq_body ?rq\<rparr>"
  let ?n = "sv_requests sv"
  have route: "cq_method ?rq = RqPut" "upsert_route (hc_base_url (rt_client t)) (cq_url ?rq) = Some literal_name"
    by (simp_all add: insert_call_def http_put_def upsert_route_literal)
  obtain response l s panicked where run:
    "qdrant_service (fst (se_times se ?n)) (snd (se_times se ?n)) (upsert_service se (se_slow se ?n) literal_name) ?request
       (sv_limiter sv, sv_state sv, False) = (response, l, s, panicked)"
    by (metis prod.exhaust)
  then have "(s, panicked) = (sv_state sv, False)"
    using qdrant_service_state [of _ _ _ ?request "sv_limiter sv" "(sv_state sv, False)" l "(s, panicked)"]
      absent_service [OF assms, of se "se_slow se ?n" ?request] by (metis snd_conv)
  then show ?thesis using run by (simp add: rtdb_send_def route Let_def)
qed

interpretation unnamed: record_target
  "rtdb_target_ops (e\<lparr>cv_send := rtdb_send se elsewhere (hc_base_url (rt_client t))\<rparr>) t"
  "\<lambda>h. sv_state h = s0 \<and> no_literal s0"
  for e :: "'m rtdb_server client_env" and se elsewhere t s0
proof
  fix h :: "'m rtdb_server" and rs
  assume h: "sv_state h = s0 \<and> no_literal s0"
  let ?e = "e\<lparr>cv_send := rtdb_send se elsewhere (hc_base_url (rt_client t))\<rparr>"
  have "snd (to_insert (rtdb_target_ops ?e t) rs h) = snd (cv_send ?e (insert_call ?e t rs) h)"
    by (simp add: rtdb_target_ops_def target_insert_batch_def split: prod.split client_reply.split)
  then show "sv_state (snd (to_insert (rtdb_target_ops ?e t) rs h)) = s0 \<and> no_literal s0"
    using insert_send_state [of h se elsewhere t ?e rs] h by simp
qed

text \<open>
  What it takes for the server to answer a batch with success: the layers let the request through.  The requests
  of the client, which names no address of its own, count for one client of the limiter.
\<close>

definition used_requests :: "rate_limiter \<Rightarrow> nat" where
  "used_requests l = (case hm_get (lm_clients l) ''unknown'' of None \<Rightarrow> 0 | Some (n, _) \<Rightarrow> unat n)"

definition limiter_room :: "nat \<Rightarrow> rate_limiter \<Rightarrow> bool" where
  "limiter_room k l \<longleftrightarrow> used_requests l + k \<le> unat (rl_max_requests (lm_config l))"

definition body_passes :: "'m server_env \<Rightarrow> 'h client_env \<Rightarrow> vector_record list \<Rightarrow> bool" where
  "body_passes se e rs \<longleftrightarrow>
     list_all finite_record rs \<and>
     se_body_bytes se (Some (JObject [(''points'', JArray (map (record_json e) rs))])) \<le> min (se_body_limit se) (10 * 1024 * 1024)"

lemma limiter_passes:
  assumes "limiter_room (Suc k) l"
  obtains l' where "is_allowed now ''unknown'' l = (True, l')" and "limiter_room k l'"
proof -
  have inc: "unat (n + 1) = unat n + 1" if "unat n < unat m" for n m :: u32
  proof -
    have "unat m < 2 ^ LENGTH(32)" by (rule unsigned_less)
    then have "unat n + unat (1 :: u32) < 2 ^ LENGTH(32)" using that by simp
    then show ?thesis by (simp add: unat_add_lem [THEN iffD1])
  qed
  show ?thesis
  proof (cases "hm_get (lm_clients l) ''unknown''")
    case None
    then show ?thesis using that assms by (auto simp: is_allowed_def limiter_room_def used_requests_def)
  next
    case (Some entry)
    obtain n t where entry: "entry = (n, t)" by (cases entry)
    have less: "unat n + Suc k \<le> unat (rl_max_requests (lm_config l))"
      using assms Some entry by (simp add: limiter_room_def used_requests_def)
    then have n: "unat (n + 1) = unat n + 1" "\<not> rl_max_requests (lm_config l) \<le> n"
      using inc [of n "rl_max_requests (lm_config l)"] by (simp_all add: word_le_nat_alt)
    show ?thesis
    proof (cases "rl_window_duration (lm_config l) \<le> now - t")
      case True
      then show ?thesis using that Some entry less by (auto simp: is_allowed_def limiter_room_def used_requests_def)
    next
      case False
      then show ?thesis using that Some entry less n by (auto simp: is_allowed_def limiter_room_def used_requests_def)
    qed
  qed
qed

lemma content_length:
  "header_to_str (decimal n) = Some (decimal n)"
  "n < 2 ^ 64 \<Longrightarrow> parse_u64 (decimal n) = Some (of_nat n)"
proof -
  have "list_all (\<lambda>c. let v = (of_char c :: nat) in 32 \<le> v \<and> v < 127 \<or> v = 9) (decimal n)"
  proof (induction n rule: decimal.induct)
    case (1 n)
    then show ?case
      by (cases "n < 10") (simp_all add: decimal.simps [of n] of_char_digit_char Let_def)
  qed
  then show "header_to_str (decimal n) = Some (decimal n)" by (simp add: header_to_str_def)
  have "hd (decimal n) \<noteq> CHR ''+''" using plus_notin_decimal [of n] decimal_nonempty [of n] by (metis hd_in_set)
  then show "n < 2 ^ 64 \<Longrightarrow> parse_u64 (decimal n) = Some (of_nat n)"
    by (simp add: parse_u64_def decimal_nonempty parse_digits_decimal)
qed

text \<open>Then the server takes the batch, and has room for one request less.\<close>

lemma insert_passes:
  assumes t: "hc_headers (rt_client t) = []" and absent: "no_literal (sv_state sv)"
    and room: "limiter_room (Suc k) (sv_limiter sv)" and body: "body_passes se e rs" and fast: "\<not> se_slow se (sv_requests sv)"
  shows "\<exists>sv'. rtdb_send se elsewhere (hc_base_url (rt_client t)) (insert_call e t rs) sv = (Reply 200 None, sv') \<and>
    limiter_room k (sv_limiter sv')"
proof -
  let ?rq = "insert_call e t rs" and ?n = "sv_requests sv"
  let ?bytes = "se_body_bytes se (cq_body ?rq)"
  let ?request = "\<lparr>hq_headers = cq_headers ?rq @ [(''content-length'', decimal ?bytes)], hq_body = cq_body ?rq\<rparr>"
  have rq: "cq_method ?rq = RqPut" "upsert_route (hc_base_url (rt_client t)) (cq_url ?rq) = Some literal_name" "cq_headers ?rq = []"
    "cq_body ?rq = Some (JObject [(''points'', JArray (map (record_json e) rs))])"
    using t by (simp_all add: insert_call_def http_put_def upsert_route_literal)
  have bytes: "?bytes \<le> se_body_limit se" "?bytes \<le> 10 * 1024 * 1024"
    using body by (simp_all add: body_passes_def rq(4))
  obtain l' where l': "is_allowed (fst (se_times se ?n)) ''unknown'' (sv_limiter sv) = (True, l')" "limiter_room k l'"
    by (rule limiter_passes [OF room])
  have ip: "extract_client_ip ?request = ''unknown''" by (simp add: extract_client_ip_def rq(3) hm_get_def)
  have "\<not> MAX_REQUEST_SIZE < (of_nat ?bytes :: u64)"
    using bytes(2) by (simp add: MAX_REQUEST_SIZE_def not_less word_le_nat_alt unat_of_nat_u64)
  then have size: "request_size_limit_middleware nxt ?request s = nxt ?request s" for nxt s
    using bytes(2) by (simp add: request_size_limit_middleware_def rq(3) hm_get_def content_length)
  obtain ps where ps: "points_of_json (se_narrow se) (map (record_json e) rs) = Some ps"
    using body records_decode [of rs "se_narrow se" e] by (auto simp: body_passes_def)
  have "upsert_service se (se_slow se ?n) literal_name ?request (sv_state sv, False) =
      (Some \<lparr>hr_status = 200, hr_headers = [], hr_body = Inr ()\<rparr>, sv_state sv, False)"
    using fast bytes(1) ps absent
    by (simp add: upsert_service_def rq(4) upsert_body_def json_get_def hm_get_def json_as_array_def upsert_absent)
  then obtain response where "qdrant_service (fst (se_times se ?n)) (snd (se_times se ?n))
       (upsert_service se (se_slow se ?n) literal_name) ?request (sv_limiter sv, sv_state sv, False) =
       (response, l', sv_state sv, False)" "hr_status response = 200"
    using l'(1)
    by (simp add: qdrant_service_def rate_limit_middleware_def size ip timeout_middleware_def add_headers_def Let_def)
  then show ?thesis using l'(2) by (simp add: rtdb_send_def rq(1,2) Let_def)
qed

lemma run_passes:
  assumes "\<not> mc_dry_run c" and t: "hc_headers (rt_client t) = []" and "\<And>n. \<not> se_slow se n"
    and ce: "ce = e\<lparr>cv_send := rtdb_send se elsewhere (hc_base_url (rt_client t))\<rparr>"
  shows "list_all (\<lambda>rs. list_all (record_valid me c) (transformed me c rs) \<and> body_passes se ce (transformed me c rs)) bs \<Longrightarrow>
    no_literal (sv_state sv) \<Longrightarrow> limiter_room (length bs) (sv_limiter sv) \<Longrightarrow>
    fst (snd (run_batches me c (rtdb_target_ops ce t) bs sv)) = 0"
proof (induction bs arbitrary: sv)
  case (Cons rs bs)
  let ?ts = "transformed me c rs"
  have valid: "list_all (record_valid me c) ?ts" "body_passes se ce ?ts" using Cons.prems(1) by simp_all
  obtain sv' where sv': "cv_send ce (insert_call ce t ?ts) sv = (Reply 200 None, sv')" "limiter_room (length bs) (sv_limiter sv')"
    using insert_passes [OF t Cons.prems(2) _ valid(2) assms(3), of "length bs" elsewhere] Cons.prems(3) by (auto simp: ce)
  have "no_literal (sv_state sv')"
    using insert_send_state [OF Cons.prems(2), of se elsewhere t ce ?ts] sv'(1) Cons.prems(2) by (simp add: ce)
  moreover have "process_records me c (rtdb_target_ops ce t) rs sv = (Inr (), sv')"
    using process_records_target [OF assms(1), of me "rtdb_target_ops ce t" rs sv] valid(1) sv'(1)
    by (simp add: rtdb_target_ops_def target_insert_batch_def is_success_def)
  moreover have "fst (snd (run_batches me c (rtdb_target_ops ce t) bs sv')) = 0"
    by (rule Cons.IH) (use Cons.prems(1) calculation(1) sv'(2) in simp_all)
  ultimately show ?case by (cases "run_batches me c (rtdb_target_ops ce t) bs sv'") simp
qed simp

interpretation lines_to_rtdb: migration_link
  "client_source_ops (e\<lparr>cv_send := rtdb_send se elsewhere (hc_base_url (rt_client t))\<rparr>)"
  "serves_lines (e\<lparr>cv_send := rtdb_send se elsewhere (hc_base_url (rt_client t))\<rparr>)"
  "line_records (e\<lparr>cv_send := rtdb_send se elsewhere (hc_base_url (rt_client t))\<rparr>)"
  "rtdb_target_ops (e\<lparr>cv_send := rtdb_send se elsewhere (hc_base_url (rt_client t))\<rparr>) t"
  "\<lambda>h. sv_state h = s0 \<and> no_literal s0"
  for e :: "'m rtdb_server client_env" and se elsewhere t s0
  by unfold_locales

subsection \<open>Migrations of files\<close>

text \<open>A streaming migration of a file of records into a server of this database.\<close>

definition lines_migration ::
  "'m rtdb_server migration_env \<Rightarrow> 'm server_env \<Rightarrow>
     (client_request \<Rightarrow> 'm rtdb_server \<Rightarrow> client_reply \<times> 'm rtdb_server) \<Rightarrow> migration_config \<Rightarrow> 'm rtdb_server migration_env"
where
  "lines_migration e se elsewhere c =
     e\<lparr>me_clients := (me_clients e)\<lparr>cv_send := rtdb_send se elsewhere (trim_end_slashes (mc_target_url c))\<rparr>\<rparr>"

lemma line_objects_length: "list_all (\<lambda>l. line_object e l \<noteq> None) ls \<Longrightarrow> length (List.map_filter (line_object e) ls) = length ls"
  by (induction ls) (auto simp: List.map_filter_simps)

lemma line_object_send [simp]: "line_object (e\<lparr>cv_send := f\<rparr>) = line_object e"
  by (rule ext) (simp add: line_object_def split: option.split)

lemma get_progress_fs [simp]: "get_progress i (m\<lparr>mm_checkpoints := fs\<rparr>) = get_progress i m"
  by (simp add: get_progress_def)

lemma get_progress_register [simp]:
  "get_progress (mc_id c) (register_migration now c m) = Some (pending_progress now c)"
  "mm_checkpoints (register_migration now c m) = mm_checkpoints m"
  by (simp_all add: register_migration_def get_progress_def)

end
