(* ===== verification/MigrationClaims.thy ===== *)
theory MigrationClaims
  imports MigrationProps QdrantClaims "HOL-Library.Multiset"
begin

text \<open>
  Properties of the data migration: what a streaming migration writes to its target and to a server of this
  database, the strategies that never end, the sources that never run dry, errors of a source, the files of the
  checkpoints, the consistency check, and the validation of batches.
\<close>

subsection \<open>Copying a source\<close>


subsection \<open>Migrating to this database\<close>


subsection \<open>The strategies of the executor\<close>

lemma report_counts_result:
  "xs_result (report_counts e counts outcome st) = Some MeOk \<Longrightarrow> outcome = Some MeOk"
  by (auto simp: report_counts_def split: prod.splits if_splits)

lemma stream_step_result: "stream_step e c so ta ev st = Some st' \<Longrightarrow> xs_result st' \<noteq> Some MeOk"
  by (auto dest: report_counts_result simp: stream_step_def open_senders_def Let_def split: stream_event.splits if_splits list.splits prod.splits
      produced.splits)

lemma stream_run_result: "stream_run e c so ta evs st = Some st' \<Longrightarrow> xs_result st \<noteq> Some MeOk \<Longrightarrow> xs_result st' \<noteq> Some MeOk"
proof (induction evs arbitrary: st)
  case (Cons ev evs)
  then show ?case using stream_step_result by (fastforce simp: bind_eq_Some_conv)
qed simp

lemma execute_streaming_result: "execute_streaming e c so ta events s tracker saved w = Some (r, w') \<Longrightarrow> r \<noteq> MeOk"
  using stream_run_result
  by (fastforce simp: execute_streaming_def bind_eq_Some_conv streaming_start_def split: if_splits option.splits)

lemma and_phase_ok: "and_phase r f = Some (MeOk, w') \<longleftrightarrow> (\<exists>w. r = Some (MeOk, w) \<and> f w = Some (MeOk, w'))"
  by (auto simp: and_phase_def split: option.splits migration_end.splits)

text \<open>
  C15.  A migration with dual writes, by blue and green or by snapshot never completes.  The function that streams
  the batches keeps a sender of the channel it reads from, so that the channel is never closed.
\<close>

theorem executor_strategies_never_complete:
  assumes "mc_strategy c \<noteq> MsStream"
  shows "start_migration e c events w \<noteq> Some (MeOk, w')"
proof
  assume "start_migration e c events w = Some (MeOk, w')"
  then obtain w1 where run: "execute_migration e c events (map_manager (register_migration (me_utc e 0) c) w) = Some (MeOk, w1)"
    by (auto simp: start_migration_def)
  have no_stream: "executor_streaming e c events x saved w \<noteq> Some (MeOk, w')" for x saved w w'
    using execute_streaming_result by (fastforce simp: executor_streaming_def)
  have "execute_dual_write e c events x w \<noteq> Some (MeOk, w')"
    "execute_blue_green e c events x w \<noteq> Some (MeOk, w')"
    "execute_snapshot e c events x w \<noteq> Some (MeOk, w')" for x w w'
    using no_stream
    by (auto simp: execute_dual_write_def execute_blue_green_def execute_snapshot_def backfill_historical_data_def
        and_phase_ok stop_on_def split: prod.splits sum.splits)
  then have "with_executor e c tracker w (execute_dual_write e c events) \<noteq> Some (MeOk, w')"
    "with_executor e c tracker w (execute_blue_green e c events) \<noteq> Some (MeOk, w')"
    "with_executor e c tracker w (execute_snapshot e c events) \<noteq> Some (MeOk, w')" for tracker w w'
    by (auto simp: with_executor_def stop_on_def split: sum.splits)
  then have "run_migration_strategy e c events s t tracker saved w \<noteq> Some (MeOk, w')" for s t tracker saved w w'
    using assms by (auto simp: run_migration_strategy_def split: migration_strategy.splits)
  then show False
    using run by (auto simp: execute_migration_def stop_on_def and_phase_ok Let_def split: prod.splits sum.splits)
qed

text \<open>When the source has run dry and every batch is done, no event is possible any more.\<close>

theorem finished_streaming_waits:
  assumes "xs_ended st" and "xs_queue st = []" and "list_all is_done (xs_tasks st)"
    and "length (xs_tasks st) < mc_max_concurrency c"
  shows "stream_step e c so ta ev st = None"
proof (cases ev)
  case (EvTask i)
  have "is_done (xs_tasks st ! i)" if "i < length (xs_tasks st)" using assms(3) that by (simp add: list_all_length)
  then have "task_step e c ta (xs_round st) (xs_tasks st ! i) (xs_world st) = None" if "i < length (xs_tasks st)"
    using that by (auto simp: task_step_def is_done_def split: batch_task.splits)
  then show ?thesis using EvTask by (auto simp: stream_step_def)
qed (use assms in \<open>simp_all add: stream_step_def open_senders_def\<close>)

text \<open>
  Two batches whose temporary files are written have the same temporary file: the second to be renamed fails,
  though its records are inserted.
\<close>

theorem concurrent_checkpoints_collide:
  assumes run: "xs_result st = None" "i < length (xs_tasks st)" "j < length (xs_tasks st)" "i \<noteq> j"
    and written: "xs_tasks st ! i = TkWritten b" "xs_tasks st ! j = TkWritten b'"
    and fates: "cf_fates (mm_checkpoints (mw_manager (xs_world st))) = (\<lambda>_. FsOk)"
    and steps: "stream_run e c so ta [EvTask i, EvTask j] st = Some st'"
  shows "xs_tasks st' ! j = TkDone (Inl EIo)"
proof -
  let ?fs = "mm_checkpoints (mw_manager (xs_world st))"
  obtain r fs1 where first: "rename_temp (me_codec e) (mc_id c) ?fs = (r, fs1)" by (metis surj_pair)
  have gone: "hm_get (fs_files fs1) (temp_path (me_codec e) (mc_id c)) = None" "cf_fates fs1 = (\<lambda>_. FsOk)"
    using first fates by (auto simp: rename_temp_def fs_rename_def fs_call_def split: option.splits)
  then have second: "fst (rename_temp (me_codec e) (mc_id c) fs1) = Inl EIo"
    by (simp add: rename_temp_def fs_rename_def fs_call_def)
  obtain t w1 where s1: "task_step e c ta (xs_round st) (TkWritten b) (xs_world st) = Some (t, w1)"
      and w1: "mm_checkpoints (mw_manager w1) = fs1"
    using first by (cases r) (auto simp: task_step_def set_checkpoints_def)
  obtain w2 where s2: "task_step e c ta (xs_round st) (TkWritten b') w1 = Some (TkDone (Inl EIo), w2)"
    using second w1 by (cases "rename_temp (me_codec e) (mc_id c) fs1") (auto simp: task_step_def)
  show ?thesis
    using steps run written s1 s2 by (auto simp: stream_step_def bind_eq_Some_conv)
qed

subsection \<open>Sources that never run dry\<close>

text \<open>A streaming migration ends well only when its source gives an empty batch or an error.\<close>

lemma endless_source:
  assumes endless: "\<And>offset s h r s' h'. P s \<Longrightarrow> so_fetch so offset (mc_batch_size c) s h = Some (r, s', h') \<Longrightarrow>
      P s' \<and> (\<exists>rs. r = Inr rs \<and> rs \<noteq> [])"
    and loop: "stream_loop e c so ta st = Some y" and start: "P (pd_source (sm_producer st))"
  shows "fst y \<noteq> MeOk"
proof (rule stream_loop.raw_induct [where P = "\<lambda>e' c' so' ta' st y. e' = e \<and> c' = c \<and> so' = so \<and>
    P (pd_source (sm_producer st)) \<longrightarrow> fst y \<noteq> MeOk", THEN mp, OF _ loop])
  fix f e' c' so' ta' st y
  assume IH: "\<And>e' c' so' ta' st y. f e' c' so' ta' st = Some y \<Longrightarrow>
      e' = e \<and> c' = c \<and> so' = so \<and> P (pd_source (sm_producer st)) \<longrightarrow> fst y \<noteq> MeOk"
    and body: "(case stream_round e' c' so' ta' st of Stop r st' \<Rightarrow> Some (r, st') | Continue st' \<Rightarrow> f e' c' so' ta' st') = Some y"
  show "e' = e \<and> c' = c \<and> so' = so \<and> P (pd_source (sm_producer st)) \<longrightarrow> fst y \<noteq> MeOk"
  proof
    assume eqs: "e' = e \<and> c' = c \<and> so' = so \<and> P (pd_source (sm_producer st))"
    show "fst y \<noteq> MeOk"
    proof (cases "stream_round e' c' so' ta' st")
      case (Stop r st')
      then have "r \<noteq> MeOk"
        using eqs endless by (fastforce simp: stream_round_def produce_def consume_def Let_def
            split: option.splits prod.splits sum.splits if_splits)
      then show ?thesis using body Stop by auto
    next
      case (Continue st')
      then have "P (pd_source (sm_producer st'))"
        using eqs endless by (fastforce simp: stream_round_def produce_def consume_def Let_def
            split: option.splits prod.splits sum.splits if_splits)
      then show ?thesis using IH body Continue eqs by auto
    qed
  qed
qed (use start in simp)

lemma endless_stream:
  assumes "\<And>offset s h r s' h'. P s \<Longrightarrow> so_fetch so offset (mc_batch_size c) s h = Some (r, s', h') \<Longrightarrow>
      P s' \<and> (\<exists>rs. r = Inr rs \<and> rs \<noteq> [])"
    and "P s"
  shows "stream_migration e c so ta s tracker saved w \<noteq> Some (MeOk, w')"
  using endless_source [where P = P, OF assms(1)] assms(2)
  by (fastforce simp: stream_migration_def split: option.splits prod.splits if_splits)

text \<open>What a server answers to a request for a page: some points, each with an id and a vector.\<close>

definition page_of_points :: "'h client_env \<Rightarrow> json \<Rightarrow> bool" where
  "page_of_points e page \<longleftrightarrow>
     (\<exists>rs. rs \<noteq> [] \<and>
        and_then (ok_or (json_as_array (json_at (json_at page ''result'') ''points'')) ESerialization)
          (traverse (qdrant_point e)) = Inr rs)"

text \<open>
  A streaming migration from Qdrant never completes as long as the server has points: after the last page
  the client asks for the first one again, and the producer ends only at an empty page.
\<close>

theorem qdrant_source_never_ends:
  assumes "\<And>rq h. cq_method rq = RqPost \<Longrightarrow>
      \<exists>page h'. cv_send (me_clients e) rq h = (Reply 200 (Some page), h') \<and> page_of_points (me_clients e) page"
  shows "stream_migration e c (client_source_ops (me_clients e)) ta (ScQdrant s) tracker saved w \<noteq> Some (MeOk, w')"
proof (rule endless_stream [where P = "\<lambda>sc. \<exists>s. sc = ScQdrant s"])
  fix offset sc h r sc' h'
  assume "\<exists>s. sc = ScQdrant s"
    and f: "so_fetch (client_source_ops (me_clients e)) offset (mc_batch_size c) sc h = Some (r, sc', h')"
  then obtain s where sc: "sc = ScQdrant s" by blast
  let ?rq = "scroll_call s (mc_batch_size c)"
  have "cq_method ?rq = RqPost" by (simp add: scroll_call_def http_post_def)
  with assms obtain page h1 where send: "cv_send (me_clients e) ?rq h = (Reply 200 (Some page), h1)"
      and page: "page_of_points (me_clients e) page"
    by blast
  from page obtain rs where "rs \<noteq> []" and "and_then (ok_or (json_as_array (json_at (json_at page ''result'') ''points'')) ESerialization)
      (traverse (qdrant_point (me_clients e))) = Inr rs"
    by (auto simp: page_of_points_def)
  with send obtain s' where "qdrant_fetch (me_clients e) offset (mc_batch_size c) s h = (Inr rs, s', h1)"
    by (simp add: qdrant_fetch_def http_json_def is_success_def)
  then show "(\<exists>s. sc' = ScQdrant s) \<and> (\<exists>rs. r = Inr rs \<and> rs \<noteq> [])"
    using f sc \<open>rs \<noteq> []\<close> by (auto simp: client_source_ops_def source_fetch_def)
qed simp

text \<open>A migration from Pinecone asks for the same nearest records over and over.\<close>

theorem pinecone_source_never_ends:
  assumes "\<And>rq h. cq_method rq = RqPost \<Longrightarrow>
      \<exists>page ms h'. cv_send (me_clients e) rq h = (Reply 200 (Some page), h') \<and>
        json_get page ''matches'' = Some (JArray ms) \<and> List.map_filter json_as_object ms \<noteq> []"
  shows "stream_migration e c (client_source_ops (me_clients e)) ta (ScPinecone s) tracker saved w \<noteq> Some (MeOk, w')"
proof (rule endless_stream [where P = "\<lambda>sc. \<exists>s. sc = ScPinecone s"])
  fix offset sc h r sc' h'
  assume "\<exists>s. sc = ScPinecone s"
    and f: "so_fetch (client_source_ops (me_clients e)) offset (mc_batch_size c) sc h = Some (r, sc', h')"
  then obtain s where sc: "sc = ScPinecone s" by blast
  let ?rq = "pinecone_request s (mc_batch_size c)"
  have "cq_method ?rq = RqPost" by (simp add: pinecone_request_def http_post_def)
  with assms obtain page ms h1 where "cv_send (me_clients e) ?rq h = (Reply 200 (Some page), h1)"
      and "json_get page ''matches'' = Some (JArray ms)" and "List.map_filter json_as_object ms \<noteq> []"
    by blast
  then show "(\<exists>s. sc' = ScPinecone s) \<and> (\<exists>rs. r = Inr rs \<and> rs \<noteq> [])"
    using f sc by (auto simp: client_source_ops_def source_fetch_def pinecone_fetch_def http_json_def is_success_def
        json_as_array_def)
qed simp

subsection \<open>Errors of a source\<close>

text \<open>
  An error of the source ends the migration as if the source were empty: the migration of a file whose first
  line is no JSON is completed, with nothing processed and nothing failed.
\<close>

theorem malformed_source_completes:
  assumes cfg: "mc_source_type c = StJsonl" "mc_strategy c = MsStream" "\<not> mc_resume c" "0 < mc_batch_size c"
      "0 < mc_max_concurrency c" "mc_target_auth c = None" "\<not> ends_with_str ''.parquet'' (mc_target_url c)"
    and source: "cv_lines (me_clients e) (mc_source_url c) = Some (Some l # ls)" "None \<notin> set ls"
      "trim_text l \<noteq> []" "cv_json (me_clients e) (trim_text l) = None"
  shows "\<exists>w' p. start_migration e c events w = Some (MeOk, w') \<and> mw_net w' = mw_net w \<and>
    get_progress (mc_id c) (mw_manager w') = Some p \<and> mp_status p = MtCompleted \<and>
    mp_total_records p = Some (u64_len (Some l # ls)) \<and> mp_processed_records p = 0 \<and> mp_failed_records p = 0"
proof -
  let ?ce = "me_clients e"
  let ?s = "\<lparr>js_path = mc_source_url c, js_current_offset = 0\<rparr>"
  let ?t = "\<lparr>rt_client = \<lparr>hc_headers = [], hc_base_url = trim_end_slashes (mc_target_url c)\<rparr>\<rparr>"
  let ?m0 = "update_status (me_utc e 0) (mc_id c) MtRunning (register_migration (me_utc e 0) c (mw_manager w))"
  let ?m1 = "update_total_records (mc_id c) (u64_len (Some l # ls)) ?m0"
  let ?w1 = "w\<lparr>mw_manager := ?m1\<rparr>"
  have src: "create_source_client ?ce c = Inr (ScJsonl ?s)"
    using cfg(1) source(1) by (simp add: create_source_client_def Let_def jsonl_source_new_def)
  have tgt: "create_target_client ?ce c = Inr ?t"
    using cfg(6,7) by (simp add: create_target_client_def rtdb_target_new_def auth_headers_def)
  have count: "source_count ?ce (ScJsonl ?s) h = (Inr (Some (u64_len (Some l # ls))), h)" for h
    using source(1,2) by (simp add: source_count_def jsonl_count_def count_lines_def)
  obtain b where b: "mc_batch_size c = Suc b" using cfg(4) by (cases "mc_batch_size c") auto
  have "jsonl_fetch ?ce 0 (mc_batch_size c) ?s = (Inl ESerialization, ?s)"
    using source by (simp add: jsonl_fetch_def b)
  then have run: "stream_migration e c (client_source_ops ?ce) ta (ScJsonl ?s) tracker None ?w1 = Some (MeOk, ?w1)" for ta tracker
    using cfg(5) by (simp add: stream_migration_def producer_start_def stream_loop.simps stream_round_def produce_def
        client_source_ops_def source_fetch_def Let_def)
  have "start_migration e c events w = Some (MeOk, map_manager (update_status (me_utc e 0) (mc_id c) MtCompleted) ?w1)"
    using cfg(2,3) src tgt count run
    by (simp add: start_migration_def execute_migration_def load_saved_def map_manager_def run_migration_strategy_def and_phase_def Let_def)
  then show ?thesis
    by (simp add: map_manager_def update_status_def update_total_records_def pending_progress_def)
qed

subsection \<open>Checkpoints\<close>

text \<open>
  C22.  Saving a checkpoint is atomic, whichever calls of the file system fail and wherever: the checkpoint is the
  new one if the result is a success and the old one otherwise, and those of other migrations stay.
\<close>

theorem checkpoint_save_is_atomic:
  assumes "save_checkpoint k now i v fs = (r, fs')" and "inj (kc_uuid_text k)"
  shows "checkpoint_text k i fs' = (if r = Inr () then kc_pretty k v else checkpoint_text k i fs) \<and>
    (\<forall>j. j \<noteq> i \<longrightarrow> checkpoint_text k j fs' = checkpoint_text k j fs)"
proof -
  have other: "checkpoint_path k j = checkpoint_path k i \<longleftrightarrow> j = i" for j
    using assms(2) by (auto simp: checkpoint_path_def inj_eq)
  obtain r0 fs0 where init: "checkpoint_init fs = (r0, fs0)" by (metis surj_pair)
  then have init_text: "checkpoint_text k j fs0 = checkpoint_text k j fs" for j
    by (auto simp: checkpoint_init_def fs_call_def checkpoint_text_def fs_files_def split: option.splits fs_fate.splits)
  obtain r1 fs1 where temp: "write_temp k now i v fs = (r1, fs1)" by (metis surj_pair)
  then have temp_text: "checkpoint_text k j fs1 = checkpoint_text k j fs" for j
    using init init_text [of j]
    by (auto simp: write_temp_def fs_write_def fs_call_def checkpoint_text_def split: sum.splits option.splits fs_fate.splits)
  have temp_file: "r1 = Inr () \<Longrightarrow> \<exists>f. hm_get (fs_files fs1) (temp_path k i) = Some f \<and> kc_pretty k v = Some (kf_text f)"
    using temp init by (auto simp: write_temp_def fs_write_def fs_call_def split: sum.splits option.splits fs_fate.splits)
  show ?thesis
  proof (cases r1)
    case (Inl err)
    then show ?thesis using assms(1) temp temp_text by (auto simp: save_checkpoint_def)
  next
    case (Inr u)
    then have ren: "rename_temp k i fs1 = (r, fs')" using assms(1) temp by (simp add: save_checkpoint_def)
    show ?thesis
      using ren temp_text temp_file Inr other
      by (auto simp: rename_temp_def fs_rename_def fs_call_def checkpoint_text_def split: fs_fate.splits option.splits)
  qed
qed

text \<open>A checkpoint that was saved is what is loaded.\<close>

theorem saved_checkpoint_is_loaded:
  assumes "save_checkpoint k now i v fs = (Inr (), fs')" and "inj (kc_uuid_text k)"
    and "\<And>s. kc_pretty k v = Some s \<Longrightarrow> kc_parse k s = Some v" and "cf_fates fs' (cf_calls fs') = FsOk"
  shows "fst (load_checkpoint k i fs') = Inr (Some v)"
proof -
  have "checkpoint_text k i fs' = kc_pretty k v" and "kc_pretty k v \<noteq> None"
    using checkpoint_save_is_atomic [OF assms(1,2)] assms(1)
    by (auto simp: save_checkpoint_def write_temp_def split: prod.splits sum.splits option.splits)
  then show ?thesis
    using assms(3,4) by (auto simp: load_checkpoint_def checkpoint_text_def fs_call_def)
qed

subsection \<open>The consistency check\<close>

text \<open>
  The check of a migration with dual writes passes any source of fewer than a hundred records whose number
  agrees, without reading a record.
\<close>

theorem small_sources_verify_unread:
  assumes "so_count so s (mw_net w) = (Inr (Some n), h1)" and "to_count ta h1 = (Inr (Some n), h2)" and "unat n < 100"
  shows "verify_consistency e so ta s w = Some (MeOk, w\<lparr>mw_net := h2\<rparr>)"
proof -
  have "check_counts e (Inr (Some n)) (Inr (Some n)) = Inr n" by (simp add: check_counts_def Let_def)
  moreover have "\<not> f64_less f64_hundred f64_ninety_nine"
    by (simp add: f64_less_def f64_hundred_def f64_ninety_nine_def f64_is_nan_def f64_rank_def)
  ultimately show ?thesis
    using assms by (simp add: verify_consistency_def consistency_rate_def Let_def)
qed

text \<open>
  The target of this database gives no count, so that the consistency check never passes with it.
\<close>

theorem server_target_never_verifies:
  "verify_consistency e so (rtdb_target_ops ce t) s w \<noteq> Some (MeOk, w')"
  by (auto simp: verify_consistency_def check_counts_def rtdb_target_ops_def stop_on_def and_then_def
      split: prod.splits sum.splits)

subsection \<open>Batches of records\<close>

definition seen_ids :: "batch_validator \<Rightarrow> string set" where
  "seen_ids bv = (case bv_duplicate_checker bv of None \<Rightarrow> {} | Some d \<Rightarrow> dc_seen_ids d)"

text \<open>The duplicate checker has room for a number of further ids.\<close>

definition has_room :: "nat \<Rightarrow> batch_validator \<Rightarrow> bool" where
  "has_room n bv \<longleftrightarrow>
     (case bv_duplicate_checker bv of
        None \<Rightarrow> True
      | Some d \<Rightarrow> finite (dc_seen_ids d) \<and> card (dc_seen_ids d) + n \<le> dc_max_ids d)"

definition sorted_out :: "validation_result \<Rightarrow> vector_record multiset" where
  "sorted_out out =
     mset (vt_valid_records out) + mset (map ir_record (vt_invalid_records out)) + mset (vt_duplicate_records out)"

lemma validate_one_sorts: "sorted_out (fst (validate_one to_text r (out, bv))) = add_mset r (sorted_out out)"
  by (auto simp: validate_one_def sorted_out_def Let_def split: sum.splits)

lemma validate_fold_sorts: "sorted_out (fst (fold (validate_one to_text) rs acc)) = mset rs + sorted_out (fst acc)"
proof (induction rs arbitrary: acc)
  case (Cons r rs)
  then show ?case by (cases acc) (simp add: validate_one_sorts)
qed simp

lemma validate_one_config [simp]: "bv_config (snd (validate_one to_text r acc)) = bv_config (snd acc)"
  by (cases acc) (simp add: validate_one_def Let_def split: sum.splits)

lemma validate_fold_valid:
  "\<forall>r \<in> set (vt_valid_records (fst acc)). validate_record to_text (bv_config (snd acc)) r = Inr () \<Longrightarrow>
   \<forall>r \<in> set (vt_valid_records (fst (fold (validate_one to_text) rs acc))).
     validate_record to_text (bv_config (snd acc)) r = Inr ()"
proof (induction rs arbitrary: acc)
  case (Cons r rs)
  have "\<forall>q \<in> set (vt_valid_records (fst (validate_one to_text r acc))). validate_record to_text (bv_config (snd acc)) q = Inr ()"
    using Cons.prems by (cases acc) (auto simp: validate_one_def Let_def split: sum.splits if_splits)
  then show ?case using Cons.IH [of "validate_one to_text r acc"] by simp
qed simp

lemma validate_batch_result: "\<exists>out bv'. validate_batch to_text rs bv = (Inr out, bv')"
  by (simp add: validate_batch_def Let_def split: prod.split)

lemma validate_fold_unchecked:
  "bv_duplicate_checker (snd acc) = None \<Longrightarrow> vt_duplicate_records (fst (fold (validate_one to_text) rs acc)) = vt_duplicate_records (fst acc)"
proof (induction rs arbitrary: acc)
  case (Cons r rs)
  have "bv_duplicate_checker (snd (validate_one to_text r acc)) = None \<and>
      vt_duplicate_records (fst (validate_one to_text r acc)) = vt_duplicate_records (fst acc)"
    using Cons.prems by (cases acc) (auto simp: validate_one_def Let_def split: sum.splits)
  then show ?case using Cons.IH [of "validate_one to_text r acc"] by simp
qed simp

text \<open>While the checker has room, the ids of the valid records are new ones.\<close>

definition ids_fresh :: "string set \<Rightarrow> validation_result \<times> batch_validator \<Rightarrow> bool" where
  "ids_fresh old acc \<longleftrightarrow>
     distinct (map vr_id (vt_valid_records (fst acc))) \<and> vr_id ` set (vt_valid_records (fst acc)) \<inter> old = {} \<and>
     old \<union> vr_id ` set (vt_valid_records (fst acc)) \<subseteq> seen_ids (snd acc) \<and> bv_duplicate_checker (snd acc) \<noteq> None"

lemma validate_one_fresh:
  assumes "ids_fresh old acc" and "has_room (Suc n) (snd acc)"
  shows "ids_fresh old (validate_one to_text r acc) \<and> has_room n (snd (validate_one to_text r acc))"
proof -
  obtain out bv d where acc: "acc = (out, bv)" and d: "bv_duplicate_checker bv = Some d"
    using assms(1) by (cases acc) (auto simp: ids_fresh_def)
  show ?thesis
  proof (cases "vr_id r \<in> dc_seen_ids d")
    case True
    then show ?thesis
      using assms by (simp add: acc d validate_one_def is_duplicate_def ids_fresh_def has_room_def seen_ids_def)
  next
    case False
    have add: "add_id (vr_id r) d = d\<lparr>dc_seen_ids := insert (vr_id r) (dc_seen_ids d)\<rparr>"
      using assms(2) by (simp add: acc d has_room_def add_id_def)
    show ?thesis
      using assms False
      by (cases "validate_record to_text (bv_config bv) r")
        (auto simp: acc d add validate_one_def is_duplicate_def ids_fresh_def has_room_def seen_ids_def Let_def)
  qed
qed

lemma validate_fold_fresh:
  "ids_fresh old acc \<Longrightarrow> has_room (length rs) (snd acc) \<Longrightarrow> ids_fresh old (fold (validate_one to_text) rs acc)"
proof (induction rs arbitrary: acc)
  case (Cons r rs)
  then show ?case using validate_one_fresh [of old acc "length rs" to_text r] by simp
qed simp

text \<open>
  C31.  Validating a batch never fails.  It sorts the records into valid, invalid and duplicate ones, none lost or
  repeated, and the valid ones pass the check of a record.  Without a duplicate checker, which is off by default,
  there are no duplicates, so valid records may have the same id.  When the checker is on and has room for the batch,
  the ids of the valid records are distinct and were not seen before.
\<close>

theorem validate_batch_partitions:
  "\<exists>out bv'. validate_batch to_text rs bv = (Inr out, bv') \<and>
     mset (vt_valid_records out) + mset (map ir_record (vt_invalid_records out)) + mset (vt_duplicate_records out) = mset rs \<and>
     (\<forall>r \<in> set (vt_valid_records out). validate_record to_text (bv_config bv) r = Inr ()) \<and>
     (bv_duplicate_checker bv = None \<longrightarrow> vt_duplicate_records out = []) \<and>
     (bv_duplicate_checker bv \<noteq> None \<and> has_room (length rs) bv \<longrightarrow>
        distinct (map vr_id (vt_valid_records out)) \<and> vr_id ` set (vt_valid_records out) \<inter> seen_ids bv = {})"
proof -
  let ?new = "\<lparr>vt_valid_records = [], vt_invalid_records = [], vt_duplicate_records = [], vt_stats = validation_stats_new\<rparr>"
  let ?last = "fold (validate_one to_text) rs (?new, bv)"
  obtain out bv' where v: "validate_batch to_text rs bv = (Inr out, bv')" using validate_batch_result by blast
  have out: "vt_valid_records out = vt_valid_records (fst ?last)" "vt_invalid_records out = vt_invalid_records (fst ?last)"
    "vt_duplicate_records out = vt_duplicate_records (fst ?last)"
    using v by (auto simp: validate_batch_def Let_def split: prod.splits)
  have fresh: "ids_fresh (seen_ids bv) ?last" if "bv_duplicate_checker bv \<noteq> None" and "has_room (length rs) bv"
    by (rule validate_fold_fresh) (use that in \<open>simp_all add: ids_fresh_def\<close>)
  have off: "vt_duplicate_records (fst ?last) = []" if "bv_duplicate_checker bv = None"
    using validate_fold_unchecked [of "(?new, bv)" to_text rs] that by simp
  show ?thesis
    using v fresh off validate_fold_sorts [of to_text rs "(?new, bv)"] validate_fold_valid [of "(?new, bv)" to_text rs]
    by (intro exI [of _ out] exI [of _ bv']) (auto simp: out sorted_out_def ids_fresh_def)
qed

subsection \<open>Witnesses\<close>

text \<open>A file of two lines, and an environment in which the migration 7 is cancelled after every batch.\<close>

definition two_lines :: "string option list" where
  "two_lines = [Some ''a'', Some ''b'']"

definition line_json :: "string \<Rightarrow> json option" where
  "line_json s = Some (JObject [(''id'', JString s), (''vector'', JArray [JNumber (NFloat 0)])])"

definition line_clients :: "(client_request \<Rightarrow> 'h \<Rightarrow> client_reply \<times> 'h) \<Rightarrow> (string \<Rightarrow> json option) \<Rightarrow> 'h client_env" where
  "line_clients send parse =
     \<lparr>cv_send = send, cv_header_name = Some, cv_header_value = (\<lambda>_. True), cv_base64 = (\<lambda>s. s),
      cv_lines = (\<lambda>path. if path = ''records.jsonl'' then Some two_lines else None), cv_parquet = (\<lambda>_. None),
      cv_path_size = (\<lambda>_. None), cv_json = parse, cv_metadata = (\<lambda>_. None), cv_narrow = (\<lambda>_. 0), cv_widen = (\<lambda>_. 0)\<rparr>"

definition blank_codec :: "(json \<Rightarrow> string option) \<Rightarrow> checkpoint_codec" where
  "blank_codec pretty =
     \<lparr>kc_pretty = pretty, kc_parse = (\<lambda>_. Some JNull), kc_uuid_text = (\<lambda>u. replicate (unat u) CHR ''u''),
      kc_uuid_parse = (\<lambda>_. None)\<rparr>"

definition first_fd :: f64_ops where
  "first_fd = \<lparr>fd_add = (\<lambda>x _. x), fd_sub = (\<lambda>x _. x), fd_mul = (\<lambda>x _. x), fd_div = (\<lambda>x _. x), fd_sqrt = (\<lambda>x. x),
     fd_exp = (\<lambda>x. x), fd_log10 = (\<lambda>x. x), fd_sum = (\<lambda>_. 0), fd_of_nanos = (\<lambda>_. 0)\<rparr>"

definition cancelling_env :: "'h client_env \<Rightarrow> (json \<Rightarrow> string option) \<Rightarrow> 'h migration_env" where
  "cancelling_env ce pretty =
     \<lparr>me_clients = ce, me_codec = blank_codec pretty, me_metadata_text = (\<lambda>_. Some []), me_utc_text = (\<lambda>_. []),
      me_fd = first_fd, me_to_i64 = (\<lambda>_. 0), me_to_u64 = (\<lambda>_. 0), me_duration = (\<lambda>_. Some 0),
      me_parse_f64 = (\<lambda>_. None), me_f64_text = (\<lambda>_. []), me_max_time = 1000, me_utc = (\<lambda>_. 0), me_instant = (\<lambda>_. 0),
      me_sample = (\<lambda>_ _. 0), me_others = (\<lambda>_ m. snd (cancel_migration 0 7 m))\<rparr>"

definition lines_config :: migration_config where
  "lines_config = (migration_config_default 7)\<lparr>mc_source_type := StJsonl, mc_source_url := ''records.jsonl''\<rparr>"

definition good_fs :: checkpoint_fs where
  "good_fs = \<lparr>cf_dir = None, cf_fates = (\<lambda>_. FsOk), cf_calls = 0\<rparr>"

definition fresh_world :: "'h \<Rightarrow> 'h migration_world" where
  "fresh_world h = \<lparr>mw_net = h, mw_manager = migration_manager_new good_fs\<rparr>"

lemma lines_config_simps [simp]:
  "mc_id lines_config = 7" "mc_source_type lines_config = StJsonl" "mc_source_url lines_config = ''records.jsonl''"
  "mc_strategy lines_config = MsStream" "mc_resume lines_config = False" "mc_dry_run lines_config = False"
  "mc_batch_size lines_config = 1000" "mc_max_concurrency lines_config = 4" "mc_target_auth lines_config = None"
  "mc_target_url lines_config = ''http://localhost:6333''" "mc_transformations lines_config = []"
  "mc_validation lines_config = validation_config_default"
  by (simp_all add: lines_config_def migration_config_default_def)

lemma cancelling_env_simps [simp]:
  "me_clients (cancelling_env ce pretty) = ce" "me_codec (cancelling_env ce pretty) = blank_codec pretty"
  "me_metadata_text (cancelling_env ce pretty) = (\<lambda>_. Some [])"
  "me_utc (cancelling_env ce pretty) = (\<lambda>_. 0)" "me_to_i64 (cancelling_env ce pretty) = (\<lambda>_. 0)"
  "me_max_time (cancelling_env ce pretty) = 1000" "me_others (cancelling_env ce pretty) = (\<lambda>_ m. snd (cancel_migration 0 7 m))"
  by (simp_all add: cancelling_env_def)



lemma line_clients_simps [simp]:
  "cv_lines (line_clients send parse) ''records.jsonl'' = Some two_lines" "cv_json (line_clients send parse) = parse"
  "cv_send (line_clients send parse) = send" "cv_narrow (line_clients send parse) = (\<lambda>_. 0)"
  by (simp_all add: line_clients_def)


definition ab_records :: "vector_record list" where
  "ab_records = [\<lparr>vr_id = ''a'', vr_vector = [0], vr_metadata = []\<rparr>, \<lparr>vr_id = ''b'', vr_vector = [0], vr_metadata = []\<rparr>]"




lemma good_fs_good: "fs_good (blank_codec (\<lambda>_. Some t)) good_fs"
  by (simp add: fs_good_def good_fs_def blank_codec_def)





text \<open>The migration of the two lines by snapshot, with events up to the end of its source.\<close>

definition snapshot_events :: "stream_event list" where
  "snapshot_events = [EvProduce, EvSpawn, EvTask 0, EvTask 0, EvTask 0, EvProduce]"

theorem executor_strategies_never_complete_witness:
  "\<forall>w'. start_migration (cancelling_env (line_clients (\<lambda>rq h. (Reply 200 None, h)) line_json) (\<lambda>_. Some []))
     (lines_config\<lparr>mc_strategy := MsSnapshot\<rparr>) snapshot_events (fresh_world ()) \<noteq> Some (MeOk, w')"
  by (intro allI executor_strategies_never_complete) simp

definition waiting_state :: "(unit, unit) streaming_state" where
  "waiting_state =
     (streaming_start () 0 0 (progress_tracker_new 0 7) (fresh_world ()))\<lparr>xs_ended := True, xs_tasks := [TkDone (Inr (2, 0))]\<rparr>"

theorem finished_streaming_waits_witness:
  "\<forall>e so ta ev. stream_step e lines_config so ta ev waiting_state = None \<and> xs_result waiting_state = None"
proof (intro allI conjI)
  fix e :: "unit migration_env" and so :: "(unit, unit) source_ops" and ta ev
  show "stream_step e lines_config so ta ev waiting_state = None"
    by (rule finished_streaming_waits) (simp_all add: waiting_state_def streaming_start_def is_done_def)
qed (simp add: waiting_state_def streaming_start_def)

definition written_batch :: vector_batch where
  "written_batch = \<lparr>vb_records = ab_records, vb_batch_id = 0, vb_checkpoint_data = Some JNull\<rparr>"

definition racing_state :: "(unit, unit) streaming_state" where
  "racing_state =
     (streaming_start () 0 0 (progress_tracker_new 0 7)
        \<lparr>mw_net = (), mw_manager = migration_manager_new
           (good_fs\<lparr>cf_dir := Some [(temp_path (blank_codec (\<lambda>_. Some [])) 7, \<lparr>kf_text = [], kf_modified = 0\<rparr>)]\<rparr>)\<rparr>)
     \<lparr>xs_tasks := [TkWritten written_batch, TkWritten written_batch]\<rparr>"

theorem concurrent_checkpoints_collide_witness:
  "\<forall>so ta. \<exists>st'. stream_run (cancelling_env (line_clients (\<lambda>rq h. (NoReply, h)) line_json) (\<lambda>_. Some [])) lines_config so ta
      [EvTask 0, EvTask 1] racing_state = Some st' \<and> xs_tasks st' ! 1 = TkDone (Inl EIo)"
proof (intro allI)
  fix so :: "(unit, unit) source_ops" and ta :: "unit target_ops"
  let ?e = "cancelling_env (line_clients (\<lambda>rq h. (NoReply, h)) line_json) (\<lambda>_. Some []) :: unit migration_env"
  obtain st' where st': "stream_run ?e lines_config so ta [EvTask 0, EvTask 1] racing_state = Some st'"
    by (simp add: stream_step_def racing_state_def streaming_start_def task_step_def set_checkpoints_def rename_temp_def
        fs_rename_def fs_call_def good_fs_def migration_manager_new_def fs_files_def hm_get_def hm_remove_def)
  have "xs_tasks st' ! 1 = TkDone (Inl EIo)"
    by (rule concurrent_checkpoints_collide [where b = written_batch and b' = written_batch, OF _ _ _ _ _ _ _ st'])
      (simp_all add: racing_state_def streaming_start_def migration_manager_new_def good_fs_def)
  with st' show "\<exists>st'. stream_run ?e lines_config so ta [EvTask 0, EvTask 1] racing_state = Some st' \<and>
      xs_tasks st' ! 1 = TkDone (Inl EIo)"
    by blast
qed

text \<open>A server that answers every request with the same point.\<close>

definition one_page :: json where
  "one_page = JObject [(''result'', JObject [(''points'',
     JArray [JObject [(''id'', JString ''a''), (''vector'', JArray [JNumber (NFloat 0)])]])])]"

theorem qdrant_source_never_ends_witness:
  "\<forall>s w w'. stream_migration (cancelling_env (line_clients (\<lambda>rq h. (Reply 200 (Some one_page), h)) line_json) (\<lambda>_. Some []))
     lines_config (client_source_ops (line_clients (\<lambda>rq h. (Reply 200 (Some one_page), h)) line_json))
     \<lparr>to_insert = (\<lambda>rs (h :: nat). (Inr (), h + length rs)), to_ensure = (\<lambda>_ _ h. (Inr (), h)), to_info = (\<lambda>_ h. Some (Inr None, h)),
      to_count = (\<lambda>h. (Inr None, h)), to_fetch = (\<lambda>_ _ h. (Inr [], h))\<rparr>
     (ScQdrant s) (progress_tracker_new 0 7) None w \<noteq> Some (MeOk, w')"
proof (intro allI)
  fix s and w w' :: "nat migration_world"
  let ?ce = "line_clients (\<lambda>rq h. (Reply 200 (Some one_page), h)) line_json :: nat client_env"
  have "page_of_points ?ce one_page"
    by (simp add: page_of_points_def one_page_def json_at_def json_get_def hm_get_def json_as_array_def qdrant_point_def
        json_as_str_def components_def)
  then show "stream_migration (cancelling_env ?ce (\<lambda>_. Some [])) lines_config (client_source_ops ?ce)
     \<lparr>to_insert = (\<lambda>rs (h :: nat). (Inr (), h + length rs)), to_ensure = (\<lambda>_ _ h. (Inr (), h)), to_info = (\<lambda>_ h. Some (Inr None, h)),
      to_count = (\<lambda>h. (Inr None, h)), to_fetch = (\<lambda>_ _ h. (Inr [], h))\<rparr>
     (ScQdrant s) (progress_tracker_new 0 7) None w \<noteq> Some (MeOk, w')"
    using qdrant_source_never_ends [of "cancelling_env ?ce (\<lambda>_. Some [])"] by simp
qed

theorem malformed_source_completes_witness:
  "\<exists>w' p. start_migration (cancelling_env (line_clients (\<lambda>rq h. (NoReply, h)) (\<lambda>_. None)) (\<lambda>_. Some [])) lines_config []
      (fresh_world ()) = Some (MeOk, w') \<and> get_progress 7 (mw_manager w') = Some p \<and> mp_status p = MtCompleted \<and>
      mp_total_records p = Some 2 \<and> mp_processed_records p = 0 \<and> mp_failed_records p = 0"
proof -
  let ?e = "cancelling_env (line_clients (\<lambda>rq h. (NoReply, h)) (\<lambda>_. None)) (\<lambda>_. Some []) :: unit migration_env"
  have "\<exists>w' p. start_migration ?e lines_config [] (fresh_world ()) = Some (MeOk, w') \<and> mw_net w' = mw_net (fresh_world ()) \<and>
      get_progress (mc_id lines_config) (mw_manager w') = Some p \<and> mp_status p = MtCompleted \<and>
      mp_total_records p = Some (u64_len (Some ''a'' # [Some ''b''])) \<and> mp_processed_records p = 0 \<and> mp_failed_records p = 0"
    by (rule malformed_source_completes) (simp_all add: two_lines_def trim_text_def Let_def ends_with_str_def)
  then show ?thesis by (simp add: u64_len_def)
qed

text \<open>The directory is created, and the write stops after one character.\<close>

definition torn_fs :: checkpoint_fs where
  "torn_fs = \<lparr>cf_dir = None, cf_fates = (\<lambda>n. if n = 0 then FsOk else FsFail 1), cf_calls = 0\<rparr>"

lemma blank_codec_inj: "inj (kc_uuid_text (blank_codec pretty))"
  by (rule injI) (simp add: blank_codec_def replicate_eq_replicate word_unat_eq_iff)

theorem checkpoint_save_is_atomic_witness:
  "\<exists>fs'. save_checkpoint (blank_codec (\<lambda>_. Some ''xy'')) 5 7 JNull torn_fs = (Inl EIo, fs') \<and>
     fs_files fs' \<noteq> [] \<and> checkpoint_text (blank_codec (\<lambda>_. Some ''xy'')) 7 fs' = None"
proof -
  let ?k = "blank_codec (\<lambda>_. Some ''xy'')"
  obtain fs' where s: "save_checkpoint ?k 5 7 JNull torn_fs = (Inl EIo, fs')" and ne: "fs_files fs' \<noteq> []"
    by (auto simp: save_checkpoint_def write_temp_def checkpoint_init_def fs_call_def fs_write_def torn_fs_def
        blank_codec_def fs_files_def)
  have "checkpoint_text ?k 7 torn_fs = None"
    by (simp add: checkpoint_text_def torn_fs_def fs_files_def hm_get_def)
  then show ?thesis
    using checkpoint_save_is_atomic [OF s blank_codec_inj] s ne by auto
qed

theorem saved_checkpoint_is_loaded_witness:
  "\<exists>fs'. save_checkpoint (blank_codec (\<lambda>_. Some ''xy'')) 5 7 JNull good_fs = (Inr (), fs') \<and>
     fst (load_checkpoint (blank_codec (\<lambda>_. Some ''xy'')) 7 fs') = Inr (Some JNull)"
proof -
  let ?k = "blank_codec (\<lambda>_. Some ''xy'')"
  obtain fs' where s: "save_checkpoint ?k 5 7 JNull good_fs = (Inr (), fs')" and good: "fs_good ?k fs'"
    by (rule save_good [OF good_fs_good])
  have "fst (load_checkpoint ?k 7 fs') = Inr (Some JNull)"
    by (rule saved_checkpoint_is_loaded [OF s blank_codec_inj]) (use good in \<open>simp_all add: blank_codec_def fs_good_def\<close>)
  then show ?thesis using s by blast
qed

definition count_source :: "u64 \<Rightarrow> (unit, unit) source_ops" where
  "count_source n = \<lparr>so_count = (\<lambda>s h. (Inr (Some n), h)), so_fetch = (\<lambda>_ _ s h. None)\<rparr>"

definition count_target :: "u64 \<Rightarrow> unit target_ops" where
  "count_target n =
     \<lparr>to_insert = (\<lambda>rs h. (Inr (), h)), to_ensure = (\<lambda>_ _ h. (Inr (), h)), to_info = (\<lambda>_ h. Some (Inr None, h)),
      to_count = (\<lambda>h. (Inr (Some n), h)), to_fetch = (\<lambda>_ _ h. (Inr [], h))\<rparr>"

theorem small_sources_verify_unread_witness:
  "\<forall>e. verify_consistency e (count_source 99) (count_target 99) () (fresh_world ()) = Some (MeOk, fresh_world ())"
proof
  fix e :: "unit migration_env"
  have "verify_consistency e (count_source 99) (count_target 99) () (fresh_world ()) =
      Some (MeOk, (fresh_world ())\<lparr>mw_net := ()\<rparr>)"
    by (rule small_sources_verify_unread [where n = 99]) (simp_all add: count_source_def count_target_def)
  then show "verify_consistency e (count_source 99) (count_target 99) () (fresh_world ()) = Some (MeOk, fresh_world ())"
    by simp
qed

text \<open>Two records with the same id, of which the second is a duplicate.\<close>

definition same_id_records :: "vector_record list" where
  "same_id_records = [\<lparr>vr_id = ''a'', vr_vector = [0], vr_metadata = []\<rparr>, \<lparr>vr_id = ''a'', vr_vector = [1], vr_metadata = []\<rparr>]"

theorem validate_batch_partitions_witness:
  "\<exists>out bv'. validate_batch (\<lambda>_. Some []) same_id_records
       (batch_validator_new (validation_config_default\<lparr>vc_check_duplicates := True\<rparr>)) = (Inr out, bv') \<and>
     mset (vt_valid_records out) + mset (map ir_record (vt_invalid_records out)) + mset (vt_duplicate_records out) =
       mset same_id_records \<and>
     distinct (map vr_id (vt_valid_records out)) \<and> vt_duplicate_records out \<noteq> []"
proof -
  let ?bv = "batch_validator_new (validation_config_default\<lparr>vc_check_duplicates := True\<rparr>)"
  obtain out bv' where v: "validate_batch (\<lambda>_. Some []) same_id_records ?bv = (Inr out, bv')"
    and "mset (vt_valid_records out) + mset (map ir_record (vt_invalid_records out)) + mset (vt_duplicate_records out) =
       mset same_id_records" "distinct (map vr_id (vt_valid_records out))"
    using validate_batch_partitions [of "\<lambda>_. Some []" same_id_records ?bv]
    by (auto simp: batch_validator_new_def has_room_def duplicate_checker_new_def same_id_records_def)
  moreover have "vt_duplicate_records out \<noteq> []"
    using v by (auto simp: same_id_records_def validate_batch_def validate_one_def batch_validator_new_def
        duplicate_checker_new_def is_duplicate_def add_id_def Let_def split: sum.splits)
  ultimately show ?thesis by blast
qed

end
