(* ===== verification/Spec2Isabelle.thy ===== *)
theory Spec2Isabelle
  imports StorageClaims EngineClaims RaftClaims RingClaims FilterClaims HnswClaims CollectionClaims
    AuthClaims TopologyClaims RuntimeClaims FailoverClaims ReplicationClaims ValidationClaims SnapshotClaims
    JepsenClaims JepsenClientClaims JepsenRunClaims MmapClaims MiddlewareClaims QdrantClaims ClusterRpcClaims CrossRegionClaims HybridClaims
    MigrationClaims
begin

text \<open>
  RTDB is a distributed vector database written in Rust.  This library models the parts of it that
  hold its logic, shallowly: a function of the source is a HOL function on the same data, its state a
  record, its errors the left side of a sum (\<open>'a res\<close>), and a panic the \<open>None\<close> of an option.

  \<^bold>\<open>The parts and their theories.\<close>  All paths are below src/src/.

  Storage.  A vector that is put into the storage engine is written to the write-ahead log and to the
  memory table; full memory tables are written out as sorted tables, and tables are merged.
    \<^item> Prelude: words, results, hash maps as association lists, the data of lib.rs.
    \<^item> Bytes: little-endian integers and the reading and writing of buffers.
    \<^item> Wal (storage/wal.rs: WriteAheadLog): headers, files, append, rotation, reading.
      WalProps shows the codec's inverses and what is read after appends, rotations and torn writes.
    \<^item> OrderedMap: the interface of the skip list (a locale) and its model as a red-black tree.
    \<^item> MemTable (storage/memtable.rs) and MemTableProps.
    \<^item> SSTable (storage/sstable.rs): the builder and the reader down to the bytes, with the block index
      and its binary search; SSTableProps shows that a reader answers as the list that was written.
    \<^item> Engine (storage/engine.rs: StorageEngine): recovery, put, delete, get, scan, flush, compaction.
      EngineProps composes the lemmas of the three parts.
    \<^item> Snapshots (storage/snapshot.rs, storage/backup.rs): files of vectors and their manager; the codec of
      entries is one that cannot read back the values of a payload, as bincode cannot.
    \<^item> Mmap (storage/mmap.rs): vectors in a memory map, and the disk index with its beam search.
    \<^item> StorageClaims, EngineClaims, SnapshotClaims and MmapClaims: the properties.

  Collections and search.
    \<^item> SearchTypes (lib.rs): requests, filters, distances over abstract 32-bit float operations.
    \<^item> Filters (filter.rs) and FilterClaims: the evaluation of filters on payloads.
    \<^item> Hnsw (index/hnsw.rs: HNSWIndex), HnswProps, HnswClaims: the layered graph, its search loop with a
      termination proof, insertion and removal.
    \<^item> Collection (collection/mod.rs: Collection, CollectionManager), CollectionProps, CollectionClaims:
      the composition of engine, filters and index.

    \<^item> HybridSearch (index/hybrid_search.rs) and HybridClaims: metadata filters with an inverted index over
      any vector index, by the interface of CollectionProps.

  The cluster.
    \<^item> RaftTypes, RaftStorage, RaftNode (cluster/raft/types.rs, storage.rs, node.rs): the data, the log
      storages and the consensus node with every message handler.  RaftElection proves the invariant
      of votes; RaftCluster is a network that loses, reorders and repeats messages between nodes, as an
      inductive reachability relation; RaftNodeProps has the lemmas on a single node.
    \<^item> RaftApply, RaftRuntime (cluster/raft_apply.rs, cluster/raft/runtime.rs), RuntimeProps: the commands
      that a log entry carries, the event loop that drives a node and answers proposals and reads.
    \<^item> HashRing, HashRingProps (cluster/hash_ring.rs): consistent hashing.
    \<^item> ClusterTopology (cluster/config.rs, cluster/mod.rs): nodes, shards, rebalancing.
    \<^item> Failover (cluster/failover.rs): the phi detector, the health monitor, fencing tokens, the failover
      manager and the membership; FailoverClaims runs sequences and interleavings of failovers.
    \<^item> Replication (cluster/replication.rs): the replica tracker, assignment of replicas, coordination of
      writes and balancing of reads.
    \<^item> ClusterRpc (cluster/client.rs, cluster/server.rs, cluster/storage_router.rs): the calls between nodes
      over a network in which a call is answered, carried out without an answer, or lost; the router of
      inserts, batches, replicas and searches.  The fates of the calls of one operation are a list (for
      batches a tree), so that forwarding ends when the time limits have passed.  Whether the transport
      has the codec that the client announces is a parameter; without it such calls are refused.
    \<^item> CrossRegion (replication/cross_region.rs), CrossRegionProps and CrossRegionClaims: vector clocks and the
      replicators of the regions.  A call is a sequence of atomic sections, one for each lock it takes, and a
      run is an inductive relation that interleaves the sections of any number of calls at all regions; it
      refines a run of clocks alone.
    \<^item> RaftClaims, RuntimeClaims, RingClaims, ClusterRpcClaims, TopologyClaims, FailoverClaims, ReplicationClaims: the
      properties.

  Access.
    \<^item> Auth (auth/rbac.rs, auth/mod.rs, auth/middleware.rs) and AuthClaims: roles, keys, the middleware.
    \<^item> Validation (api/validation.rs, api/error.rs) and ValidationClaims: the checks of requests and the
      answers to errors.
    \<^item> Middleware (api/middleware.rs) and MiddlewareClaims: client keys, the rate limiter, request ids.
    \<^item> QdrantApi (api/qdrant_compat.rs) and QdrantClaims: the handlers of the Qdrant-compatible interface
      over the collections, with the conversions of its requests and answers.

  Moving data in.
    \<^item> MigrationValidation, MigrationClients, MigrationCheckpoints (migration/validation.rs, clients.rs,
      checkpoint.rs): the checks of records, the sources and the target, the files of the checkpoints.
    \<^item> Migration, MigrationStrategies (migration/mod.rs, progress.rs, strategies.rs): the manager, the batch
      processor, and the strategies, whose concurrent batches are sequences of atomic events.
    \<^item> MigrationProps and MigrationClaims: the properties; the locales page\_source and record\_target are the contracts of a
      source and of a target, interpreted on files of JSON lines and on the server of QdrantApi behind the
      layers of its router (rate limiter, size limit, timeout) and the limit of its extractor of bodies.

  The test harness, which runs clients against collections and checks the histories they leave.
    \<^item> Jepsen (jepsen/checkers.rs, operations.rs and the types of mod.rs) and JepsenClaims: operations,
      histories, the linearizability and the serializability check with its search for cycles.
    \<^item> JepsenRun (jepsen/history.rs and the runner, analyzer and partition simulator of mod.rs) and
      JepsenRunClaims.
    \<^item> JepsenClients (jepsen/direct_client.rs, direct_client_sync_batched.rs, high_perf_store.rs) and
      JepsenClientClaims: the clients over an abstract store of values; the locale register\_store states
      what they need of it, and a collection of Collection is shown to satisfy it, so that the answers of
      the clients are those of a map.

  \<^bold>\<open>Interfaces.\<close>  Where a component relies on another, the contract is a locale that is interpreted on
  the model of the provider: ordered maps (OrderedMap), the log storages (RaftStorage), the vector index
  of a collection (CollectionProps, on the graph index), the replicated machine of the runtime
  (RuntimeProps, on the state machine of RaftApply), the store of the test clients (JepsenClientClaims,
  on the in-memory store of the harness and on collections).

  \<^bold>\<open>Conventions.\<close>  Integers of fixed width are words and wrap; \<open>usize\<close> is \<open>nat\<close>, with the bound written out
  where the code depends on it.  A hash map is an association list in iteration order.  A float is its
  32 bits, and float arithmetic a parameter (\<open>f32_ops\<close>).  Third-party code (crossbeam, serde, bincode,
  the default hasher), time and random numbers are arguments; what a theorem needs of them is one of
  its hypotheses, and each witness gives a concrete function that satisfies it.

  \<^bold>\<open>Termination.\<close>  Loops are total functions, those of the graph index, of the beam search and of the search
  for cycles by measures (unvisited vectors and waiting candidates).  Three loops need not end, that
  over the windows of a throughput analysis, a client's scroll to the end of a collection and the batches of a
  migration: they are partial functions whose \<open>None\<close> is not returning (or, for the scroll, a panic).  That a
  migration returns is proved (streaming\_copies\_source).
  Where the code takes a lock that the same call already holds, \<open>None\<close> is not returning as well.  No loop
  is cut off by fuel.

  \<^bold>\<open>What the properties show.\<close>  Beside the correctness of the parts, several theorems record behaviour
  that the comments of the code do not intend: a deleted vector is still found
  (deleted\_vector\_still\_found), a put after a delete spoils the log (put\_after\_delete\_poisons\_log), no
  cluster elects a leader (no\_leader\_is\_elected), no remote node becomes available
  (no\_remote\_node\_is\_available), a manager cannot be started on a directory with snapshots
  (start\_after\_snapshot\_panics), the serializability check passes every history
  (serializability\_check\_accepts\_everything) and the linearizability check rejects linearizable ones
  (linearizable\_history\_rejected) and accepts others (empty\_read\_accepted), a snapshot with a payload is
  made and not restored (snapshot\_round\_trip), overlapping operations of a region share a clock
  (overlapping\_calls\_share\_clock), a client that announces a codec the servers lack forwards nothing
  (compressing\_client\_forwards\_nothing), a beam search prefers the farthest vectors
  (beam\_search\_misses\_nearest), the points of a request whose ids are not numbers are acknowledged and
  dropped (string\_ids\_are\_dropped), the sliding window of the rate limiter does not slide
  (windows\_do\_not\_slide), a replicated write is stored at no replica (replicas\_never\_store), nobody
  joins a cluster (join\_never\_succeeds), no resolution of a conflict between regions changes what is applied
  (resolution\_keeps\_incoming\_data), a migration to this database reports every record and stores none
  (migration\_to\_server\_stores\_nothing), and the other three strategies of a migration never complete
  (executor\_strategies\_never\_complete).

  \<^bold>\<open>Not modelled.\<close>  The transport of gRPC, the other compatibility interfaces and clients, generated code, metrics and
  telemetry, SIMD and GPU kernels and floating-point quantizers, the file formats of the migration and the random
  generators of the test harness: they are glue over third-party crates, input and output, or numerics.
  Concurrency inside a component is not modelled: the locks make each operation atomic, except where a
  property names the interleaving (the flush task of the engine, the messages of the cluster, failovers
  that start together, the concurrent batches of a migration, the calls of the regions).

  \<^bold>\<open>When a write fits.\<close>  The properties of single upserts and of the test clients are stated for vectors that
  fit (put\_fits, items\_fit in CollectionProps): the dimension is that of the collection, the id is not deleted,
  the log takes the record, and the memory table stays below its threshold.  What happens otherwise is shown on
  its own: a put on a deleted id spoils the log, a flush hides what was acknowledged until the engine is reopened
  (flushed\_put\_not\_found), and the recovery theorem covers flushes.
\<close>

end
